(* ===== verification/Prelude.thy ===== *)
theory Prelude
  imports Main "HOL-Library.Word" "HOL-Library.Sublist"
begin

text \<open>
  Shared vocabulary of the development.  A Rust \<open>u8\<close> is an \<open>8 word\<close>, a byte slice or
  \<open>Vec<u8>\<close> is a list of them, and a \<open>&str\<close> is the list of its UTF-8 bytes.  A \<open>usize\<close>
  is a natural number together with the checked and saturating operations of the standard
  library on a 64-bit target, whose overflow is an explicit branch.  \<open>Result<T, E>\<close> is the
  sum \<open>E + T\<close> with \<open>Inl\<close> for the error.  The theory gives the slice and ASCII operations
  of the standard library that the sources call, and the lemmas about them that every
  component uses.
\<close>

section \<open>Collections of facts\<close>

named_theorems byte_defs \<open>ASCII classification and case folding\<close>
named_theorems slice_simps \<open>facts about searching and cutting slices\<close>
named_theorems usize_defs \<open>checked machine arithmetic\<close>

section \<open>Bytes\<close>

type_synonym byte = "8 word"
type_synonym bytes = "byte list"

definition ascii :: "string \<Rightarrow> bytes" where
  "ascii s = map of_char s"

abbreviation LF :: byte where "LF \<equiv> 10"
abbreviation CR :: byte where "CR \<equiv> 13"
abbreviation SP :: byte where "SP \<equiv> 32"
abbreviation TAB :: byte where "TAB \<equiv> 9"
abbreviation DQUOTE :: byte where "DQUOTE \<equiv> 34"
abbreviation BACKSLASH :: byte where "BACKSLASH \<equiv> 92"
abbreviation COLON :: byte where "COLON \<equiv> 58"
abbreviation GT :: byte where "GT \<equiv> 62"

definition is_ascii :: "byte \<Rightarrow> bool" where
  "is_ascii b \<longleftrightarrow> b < 128"

definition is_ascii_whitespace :: "byte \<Rightarrow> bool" where
  "is_ascii_whitespace b \<longleftrightarrow> b = SP \<or> b = TAB \<or> b = LF \<or> b = 12 \<or> b = CR"

definition is_ascii_digit :: "byte \<Rightarrow> bool" where
  "is_ascii_digit b \<longleftrightarrow> 48 \<le> b \<and> b \<le> 57"

definition is_ascii_uppercase :: "byte \<Rightarrow> bool" where
  "is_ascii_uppercase b \<longleftrightarrow> 65 \<le> b \<and> b \<le> 90"

definition is_ascii_lowercase :: "byte \<Rightarrow> bool" where
  "is_ascii_lowercase b \<longleftrightarrow> 97 \<le> b \<and> b \<le> 122"

definition is_ascii_alphabetic :: "byte \<Rightarrow> bool" where
  "is_ascii_alphabetic b \<longleftrightarrow> is_ascii_uppercase b \<or> is_ascii_lowercase b"

definition is_ascii_alphanumeric :: "byte \<Rightarrow> bool" where
  "is_ascii_alphanumeric b \<longleftrightarrow> is_ascii_alphabetic b \<or> is_ascii_digit b"

definition is_ascii_graphic :: "byte \<Rightarrow> bool" where
  "is_ascii_graphic b \<longleftrightarrow> 33 \<le> b \<and> b \<le> 126"

definition is_ascii_control :: "byte \<Rightarrow> bool" where
  "is_ascii_control b \<longleftrightarrow> b < 32 \<or> b = 127"

definition to_ascii_lowercase :: "byte \<Rightarrow> byte" where
  "to_ascii_lowercase b = (if is_ascii_uppercase b then b + 32 else b)"

definition to_ascii_uppercase :: "byte \<Rightarrow> byte" where
  "to_ascii_uppercase b = (if is_ascii_lowercase b then b - 32 else b)"

definition eq_ignore_ascii_case :: "bytes \<Rightarrow> bytes \<Rightarrow> bool" where
  "eq_ignore_ascii_case xs ys \<longleftrightarrow> map to_ascii_lowercase xs = map to_ascii_lowercase ys"

definition is_blank :: "byte \<Rightarrow> bool" where
  "is_blank b \<longleftrightarrow> b = SP \<or> b = TAB"

lemmas [byte_defs] = is_ascii_def is_ascii_whitespace_def is_ascii_digit_def
  is_ascii_uppercase_def is_ascii_lowercase_def is_ascii_alphabetic_def
  is_ascii_alphanumeric_def is_ascii_graphic_def is_ascii_control_def
  to_ascii_lowercase_def to_ascii_uppercase_def is_blank_def

lemma ascii_simps [simp]:
  "ascii [] = []" "ascii (c # s) = of_char c # ascii s"
  by (simp_all add: ascii_def)

lemma length_ascii [simp]: "length (ascii s) = length s"
  by (simp add: ascii_def)

lemma unat_byte: "unat (b :: byte) < 256"
  using unsigned_less [of b] by simp

lemma to_ascii_lowercase_idem [simp]:
  "to_ascii_lowercase (to_ascii_lowercase b) = to_ascii_lowercase b"
  unfolding byte_defs by unat_arith

lemma eq_ignore_ascii_case_refl [simp]: "eq_ignore_ascii_case xs xs"
  by (simp add: eq_ignore_ascii_case_def)

lemma eq_ignore_ascii_case_sym: "eq_ignore_ascii_case xs ys \<Longrightarrow> eq_ignore_ascii_case ys xs"
  by (simp add: eq_ignore_ascii_case_def)

lemma eq_ignore_ascii_case_trans:
  "eq_ignore_ascii_case xs ys \<Longrightarrow> eq_ignore_ascii_case ys zs \<Longrightarrow> eq_ignore_ascii_case xs zs"
  by (simp add: eq_ignore_ascii_case_def)

lemma eq_ignore_ascii_case_lower [simp]:
  "eq_ignore_ascii_case (map to_ascii_lowercase xs) ys = eq_ignore_ascii_case xs ys"
  by (simp add: eq_ignore_ascii_case_def comp_def)

section \<open>Machine-sized arithmetic\<close>

type_synonym usize = nat

definition usize_max :: usize where
  "usize_max = 2 ^ 64 - 1"

definition checked_add :: "usize \<Rightarrow> usize \<Rightarrow> usize option" where
  "checked_add a b = (if a + b \<le> usize_max then Some (a + b) else None)"

definition checked_mul :: "usize \<Rightarrow> usize \<Rightarrow> usize option" where
  "checked_mul a b = (if a * b \<le> usize_max then Some (a * b) else None)"

definition checked_sub :: "usize \<Rightarrow> usize \<Rightarrow> usize option" where
  "checked_sub a b = (if b \<le> a then Some (a - b) else None)"

definition saturating_add :: "usize \<Rightarrow> usize \<Rightarrow> usize" where
  "saturating_add a b = min (a + b) usize_max"

definition saturating_mul :: "usize \<Rightarrow> usize \<Rightarrow> usize" where
  "saturating_mul a b = min (a * b) usize_max"

lemmas [usize_defs] = checked_add_def checked_mul_def checked_sub_def
  saturating_add_def saturating_mul_def

lemma checked_add_Some: "checked_add a b = Some c \<longleftrightarrow> c = a + b \<and> a + b \<le> usize_max"
  by (auto simp: checked_add_def)

text \<open>No vector or slice is longer than \<open>isize::MAX\<close> bytes.\<close>

definition isize_max :: nat where
  "isize_max = 2 ^ 63 - 1"

lemma isize_usize:
  "n \<le> isize_max \<Longrightarrow> n \<le> usize_max"
  "n \<le> isize_max \<Longrightarrow> m \<le> isize_max \<Longrightarrow> n + m \<le> usize_max"
  by (simp_all add: isize_max_def usize_max_def)

section \<open>Slices\<close>

fun position :: "('a \<Rightarrow> bool) \<Rightarrow> 'a list \<Rightarrow> nat option" where
  "position P [] = None"
| "position P (x # xs) = (if P x then Some 0 else map_option Suc (position P xs))"

definition rposition :: "('a \<Rightarrow> bool) \<Rightarrow> 'a list \<Rightarrow> nat option" where
  "rposition P xs = map_option (\<lambda>i. length xs - 1 - i) (position P (rev xs))"

definition starts_with :: "'a list \<Rightarrow> 'a list \<Rightarrow> bool" where
  "starts_with xs p \<longleftrightarrow> take (length p) xs = p"

definition ends_with :: "'a list \<Rightarrow> 'a list \<Rightarrow> bool" where
  "ends_with xs s \<longleftrightarrow> length s \<le> length xs \<and> drop (length xs - length s) xs = s"

definition strip_suffix :: "'a list \<Rightarrow> 'a list \<Rightarrow> 'a list option" where
  "strip_suffix xs s = (if ends_with xs s then Some (take (length xs - length s) xs) else None)"

definition slice :: "'a list \<Rightarrow> nat \<Rightarrow> nat \<Rightarrow> 'a list" where
  "slice xs a b = take (b - a) (drop a xs)"

definition get :: "'a list \<Rightarrow> nat \<Rightarrow> 'a option" where
  "get xs i = (if i < length xs then Some (xs ! i) else None)"

definition get_from :: "'a list \<Rightarrow> nat \<Rightarrow> 'a list option" where
  "get_from xs i = (if i \<le> length xs then Some (drop i xs) else None)"

fun any_window2 :: "('a \<Rightarrow> 'a \<Rightarrow> bool) \<Rightarrow> 'a list \<Rightarrow> bool" where
  "any_window2 P (x # y # xs) = (P x y \<or> any_window2 P (y # xs))"
| "any_window2 P _ = False"

fun position_window2 :: "('a \<Rightarrow> 'a \<Rightarrow> bool) \<Rightarrow> 'a list \<Rightarrow> nat option" where
  "position_window2 P (x # y # xs) =
     (if P x y then Some 0 else map_option Suc (position_window2 P (y # xs)))"
| "position_window2 P _ = None"

fun first :: "'a list \<Rightarrow> 'a option" where
  "first [] = None"
| "first (x # _) = Some x"

definition last_opt :: "'a list \<Rightarrow> 'a option" where
  "last_opt xs = first (rev xs)"

text \<open>
  \<open>slice::split\<close> with a stateful predicate, as the sources use it: a separator is dropped,
  the pieces around it are kept, and there is always one last piece.
\<close>

fun split_state :: "('s \<Rightarrow> 'a \<Rightarrow> bool \<times> 's) \<Rightarrow> 's \<Rightarrow> 'a list \<Rightarrow> 'a list list" where
  "split_state f s [] = [[]]"
| "split_state f s (x # xs) =
     (case f s x of
        (True, s') \<Rightarrow> [] # split_state f s' xs
      | (False, s') \<Rightarrow>
          (case split_state f s' xs of
             [] \<Rightarrow> [[x]]
           | p # ps \<Rightarrow> (x # p) # ps))"

definition split_on :: "('a \<Rightarrow> bool) \<Rightarrow> 'a list \<Rightarrow> 'a list list" where
  "split_on P xs = split_state (\<lambda>s x. (P x, ())) () xs"

lemma position_Some_iff:
  "position P xs = Some i \<longleftrightarrow> i < length xs \<and> P (xs ! i) \<and> (\<forall>j<i. \<not> P (xs ! j))"
proof (induction xs arbitrary: i)
  case Nil
  then show ?case by simp
next
  case (Cons x xs)
  show ?case
    by (cases i) (auto simp: Cons.IH less_Suc_eq_0_disj)
qed

lemma position_None_iff [slice_simps]: "position P xs = None \<longleftrightarrow> (\<forall>x \<in> set xs. \<not> P x)"
  by (induction xs) auto

lemma position_SomeD:
  assumes "position P xs = Some i"
  shows "i < length xs" "P (xs ! i)" "\<And>x. x \<in> set (take i xs) \<Longrightarrow> \<not> P x"
proof -
  show "i < length xs" "P (xs ! i)" using assms by (auto simp: position_Some_iff)
  fix x assume "x \<in> set (take i xs)"
  then obtain j where "j < i" "x = xs ! j" by (auto simp: in_set_conv_nth)
  then show "\<not> P x" using assms by (auto simp: position_Some_iff)
qed

lemma position_split:
  assumes "position (\<lambda>b. b = c) s = Some i"
  shows "s = take i s @ c # drop (Suc i) s"
  using position_SomeD(1,2) [OF assms] id_take_nth_drop [of i s] by simp

lemma position_append:
  "position P (xs @ ys) =
     (case position P xs of
        Some i \<Rightarrow> Some i
      | None \<Rightarrow> map_option (\<lambda>i. length xs + i) (position P ys))"
  by (cases "position P ys"; induction xs) (auto split: option.splits)

lemma position_map [simp]: "position P (map f xs) = position (P \<circ> f) xs"
  by (induction xs) auto

lemma starts_with_prefix: "starts_with xs p \<longleftrightarrow> prefix p xs"
  by (metis append_eq_conv_conj append_take_drop_id prefixE prefixI starts_with_def)

lemma ends_with_suffix: "ends_with xs s \<longleftrightarrow> suffix s xs"
  unfolding ends_with_def suffix_def
  by (metis append_eq_append_conv append_take_drop_id diff_diff_cancel length_append
      length_drop le_add2)

lemma starts_with_simps [simp]:
  "starts_with xs []" "\<not> starts_with [] (y # ys)"
  "starts_with (x # xs) (y # ys) \<longleftrightarrow> x = y \<and> starts_with xs ys"
  by (auto simp: starts_with_def)

lemma ends_with_Nil [simp]: "ends_with xs []"
  by (simp add: ends_with_def)

lemma ends_with_singleton: "ends_with xs [y] \<longleftrightarrow> xs \<noteq> [] \<and> last xs = y"
  by (cases xs rule: rev_cases) (auto simp: ends_with_suffix suffix_def)

lemma ends_with_append [simp]: "ends_with (xs @ ys) ys"
  by (simp add: ends_with_suffix suffix_def)

lemma strip_suffix_Some: "strip_suffix xs s = Some ys \<longleftrightarrow> xs = ys @ s"
  unfolding strip_suffix_def ends_with_suffix suffix_def by auto

lemma strip_suffix_None: "strip_suffix xs s = None \<longleftrightarrow> \<not> suffix s xs"
  unfolding strip_suffix_def ends_with_suffix by simp

lemma slice_all [simp]: "slice xs 0 (length xs) = xs"
  by (simp add: slice_def)

lemma slice_empty [simp]: "b \<le> a \<Longrightarrow> slice xs a b = []"
  by (simp add: slice_def)

lemma length_slice [simp]: "b \<le> length xs \<Longrightarrow> length (slice xs a b) = b - a"
  by (simp add: slice_def)

lemma slice_append_slice:
  "a \<le> b \<Longrightarrow> b \<le> c \<Longrightarrow> slice xs a b @ slice xs b c = slice xs a c"
proof -
  assume "a \<le> b" and "b \<le> c"
  then obtain d e where "b = a + d" and "c = a + d + e"
    by (metis le_iff_add)
  then show ?thesis
    by (simp add: slice_def take_add add.commute)
qed

lemma slice_drop: "slice xs a (length xs) = drop a xs"
  by (simp add: slice_def)

lemma slice_take: "slice xs 0 b = take b xs"
  by (simp add: slice_def)

lemma split_state_nonempty [simp]: "split_state f s xs \<noteq> []"
  by (induction f s xs rule: split_state.induct) (auto split: bool.splits list.splits prod.splits)

lemma split_state_sum_length:
  "sum_list (map length (split_state f s xs)) + length (split_state f s xs) = Suc (length xs)"
  by (induction f s xs rule: split_state.induct)
    (auto split: bool.splits list.splits prod.splits)

lemma split_state_set:
  "p \<in> set (split_state f s xs) \<Longrightarrow> set p \<subseteq> set xs"
proof (induction xs arbitrary: s p)
  case Nil
  then show ?case by simp
next
  case (Cons x xs)
  obtain b s' where f: "f s x = (b, s')" by fastforce
  obtain q qs where qs: "split_state f s' xs = q # qs"
    by (cases "split_state f s' xs") auto
  show ?case
  proof (cases b)
    case True
    then show ?thesis using Cons f by fastforce
  next
    case False
    then have "p = x # q \<or> p \<in> set qs" using Cons.prems f qs by auto
    then show ?thesis using Cons.IH [of q s'] Cons.IH [of p s'] qs by auto
  qed
qed

lemma split_on_no_sep: "p \<in> set (split_on P xs) \<Longrightarrow> \<forall>x \<in> set p. \<not> P x"
  unfolding split_on_def
  by (induction xs arbitrary: p) (fastforce split: bool.splits list.splits)+

text \<open>Decimal notation, as \<open>to_string\<close> of an unsigned integer writes it.\<close>

function decimal :: "nat \<Rightarrow> bytes" where
  "decimal n = (if n < 10 then [of_nat (48 + n)] else decimal (n div 10) @ [of_nat (48 + n mod 10)])"
  by pat_completeness auto
termination
  by (relation "measure id") auto

declare decimal.simps [simp del]

end
