(* ===== verification/Header_Fields.thy ===== *)
theory Header_Fields
  imports Prelude
begin

text \<open>
  The byte-level syntax of a header section: the free functions of
  \<open>src/header_edit/storage.rs\<close> that cut a header into fields (with the iterator
  \<open>HeaderFields\<close> on raw bytes), find its separator and line ending, match and rename
  fields, and the unfolding of continuation lines, which the sources implement twice
  (\<open>normalize_folded_header\<close> in \<open>src/message.rs\<close> and \<open>unfold_field_bytes\<close> in
  \<open>storage.rs\<close>).  An iterator position \<open>offset\<close> is represented by the remaining slice.
\<close>

record field =
  f_bytes :: bytes
  f_name :: "bytes option"

definition field_value :: "field \<Rightarrow> bytes option" where
  "field_value f =
     (case f_name f of
        None \<Rightarrow> None
      | Some name \<Rightarrow>
          (case checked_add (length name) 1 of
             None \<Rightarrow> None
           | Some start \<Rightarrow> get_from (f_bytes f) start))"

definition field_from_bytes :: "bytes \<Rightarrow> field" where
  "field_from_bytes bs =
     (let first_line_end = (case position (\<lambda>b. b = LF) bs of None \<Rightarrow> length bs | Some i \<Rightarrow> i)
      in \<lparr>f_bytes = bs,
          f_name = map_option (\<lambda>colon. take colon bs)
                     (position (\<lambda>b. b = COLON) (take first_line_end bs))\<rparr>)"

lemma f_bytes_field_from_bytes [simp]: "f_bytes (field_from_bytes bs) = bs"
  by (simp add: field_from_bytes_def Let_def)

section \<open>Lines\<close>

text \<open>The first item of \<open>split_inclusive\<close> at line feeds.\<close>

definition first_line :: "bytes \<Rightarrow> bytes" where
  "first_line xs = (case position (\<lambda>b. b = LF) xs of None \<Rightarrow> xs | Some i \<Rightarrow> take (Suc i) xs)"

definition blank_line :: "bytes \<Rightarrow> bool" where
  "blank_line l \<longleftrightarrow> l = [LF] \<or> l = [CR, LF]"

lemma first_line_Nil [simp]: "first_line [] = []"
  by (simp add: first_line_def)

lemma first_line_eq_Nil [simp]: "first_line xs = [] \<longleftrightarrow> xs = []"
  by (cases xs) (auto simp: first_line_def split: option.splits)

lemma first_line_prefix: "prefix (first_line xs) xs"
  by (auto simp: first_line_def take_is_prefix split: option.splits)

lemma first_line_split: "first_line xs @ drop (length (first_line xs)) xs = xs"
  using first_line_prefix [of xs] by (metis append_eq_conv_conj prefixE)

lemma length_first_line_le: "length (first_line xs) \<le> length xs"
  using first_line_prefix [of xs] by (rule prefix_length_le)

lemma drop_first_line_shorter: "xs \<noteq> [] \<Longrightarrow> length xs - length (first_line xs) < length xs"
  using first_line_eq_Nil [of xs] by (cases "first_line xs") auto

function lines_of :: "bytes \<Rightarrow> bytes list" where
  "lines_of xs = (if xs = [] then [] else first_line xs # lines_of (drop (length (first_line xs)) xs))"
  by pat_completeness auto
termination
  by (relation "measure length") (auto simp: drop_first_line_shorter)

declare lines_of.simps [simp del]

lemma lines_of_Nil [simp]: "lines_of [] = []"
  by (simp add: lines_of.simps)

lemma lines_of_step:
  "xs \<noteq> [] \<Longrightarrow> lines_of xs = first_line xs # lines_of (drop (length (first_line xs)) xs)"
  by (subst lines_of.simps) simp

lemma concat_lines_of [simp]: "concat (lines_of xs) = xs"
proof (induction xs rule: lines_of.induct)
  case (1 xs)
  then show ?case
    by (cases "xs = []") (simp_all add: lines_of_step first_line_split)
qed

lemma first_line_cons:
  "first_line (x # xs) = (if x = LF then [LF] else x # first_line xs)"
  by (auto simp: first_line_def split: option.splits)

lemma first_line_app_LF: "LF \<notin> set a \<Longrightarrow> first_line (a @ LF # xs) = a @ [LF]"
  by (induction a) (auto simp: first_line_cons)

lemma first_line_no_LF: "LF \<notin> set a \<Longrightarrow> first_line a = a"
  by (induction a) (auto simp: first_line_cons)

lemma lines_of_app_LF: "LF \<notin> set a \<Longrightarrow> lines_of (a @ LF # xs) = (a @ [LF]) # lines_of xs"
  by (simp add: lines_of_step first_line_app_LF)

section \<open>Fields of a raw header\<close>

function continuation :: "bytes \<Rightarrow> bytes" where
  "continuation rest =
     (case first rest of
        None \<Rightarrow> []
      | Some b \<Rightarrow>
          if is_blank b
          then first_line rest @ continuation (drop (length (first_line rest)) rest)
          else [])"
  by pat_completeness auto
termination
proof (relation "measure length", goal_cases)
  case (2 rest b)
  then have "rest \<noteq> []" by (cases rest) auto
  then show ?case by (simp add: drop_first_line_shorter)
qed simp

declare continuation.simps [simp del]

definition next_field :: "bytes \<Rightarrow> (bytes \<times> bytes) option" where
  "next_field rest =
     (if rest = [] then None
      else let line = first_line rest
           in if line = [LF] \<or> line = [CR, LF] then None
              else let n = length line + length (continuation (drop (length line) rest))
                   in Some (take n rest, drop n rest))"

lemma next_field_shorter: "next_field rest = Some (f, rest') \<Longrightarrow> length rest' < length rest"
  using drop_first_line_shorter [of rest]
  by (auto simp: next_field_def Let_def split: if_splits)

function raw_fields :: "bytes \<Rightarrow> field list" where
  "raw_fields rest =
     (case next_field rest of
        None \<Rightarrow> []
      | Some (f, rest') \<Rightarrow> field_from_bytes f # raw_fields rest')"
  by pat_completeness auto
termination
  by (relation "measure length") (auto simp: next_field_shorter)

declare raw_fields.simps [simp del]

function separator_loop :: "bytes \<Rightarrow> nat \<Rightarrow> nat option" where
  "separator_loop header line_start =
     (if line_start < length header then
        (case position (\<lambda>b. b = LF) (drop line_start header) of
           None \<Rightarrow> None
         | Some newline \<Rightarrow>
             let line_end = line_start + newline + 1
             in if slice header line_start line_end = [LF] \<or> slice header line_start line_end = [CR, LF]
                then Some line_start
                else separator_loop header line_end)
      else None)"
  by pat_completeness auto
termination
  by (relation "measure (\<lambda>(header, line_start). length header - line_start)") auto

declare separator_loop.simps [simp del]

definition header_separator_start :: "bytes \<Rightarrow> nat option" where
  "header_separator_start header = separator_loop header 0"

fun line_ending_scan :: "byte option \<Rightarrow> bytes \<Rightarrow> bytes" where
  "line_ending_scan previous [] = [LF]"
| "line_ending_scan previous (b # bs) =
     (if b = LF then (if previous = Some CR then [CR, LF] else [LF])
      else line_ending_scan (Some b) bs)"

definition preferred_line_ending :: "bytes list \<Rightarrow> bytes" where
  "preferred_line_ending parts = line_ending_scan None (concat parts)"

definition split_fields :: "bytes \<Rightarrow> field list \<times> bytes \<times> bytes" where
  "split_fields header =
     (let separator_start = (case header_separator_start header of None \<Rightarrow> length header | Some i \<Rightarrow> i);
          content = take separator_start header;
          separator = drop separator_start header
      in (raw_fields content, separator, preferred_line_ending [header]))"

section \<open>Matching and renaming\<close>

definition strip_line_ending :: "bytes \<Rightarrow> bytes" where
  "strip_line_ending v =
     (case strip_suffix v [CR, LF] of
        Some w \<Rightarrow> w
      | None \<Rightarrow> (case strip_suffix v [LF] of Some w \<Rightarrow> w | None \<Rightarrow> v))"

definition field_matches_pattern :: "field \<Rightarrow> bytes \<Rightarrow> bool" where
  "field_matches_pattern f pattern =
     (case f_name f of
        Some name \<Rightarrow>
          (case strip_suffix pattern [COLON] of
             Some target \<Rightarrow> eq_ignore_ascii_case name target
           | None \<Rightarrow>
               length pattern \<le> length name \<and>
               eq_ignore_ascii_case (take (length pattern) name) pattern)
      | None \<Rightarrow>
          starts_with (f_bytes f) (ascii ''From '') \<and>
          (pattern = ascii ''From '' \<or> pattern = ascii ''From'' \<or> pattern = ascii ''From:''))"

definition rename_field_pattern :: "field \<Rightarrow> bytes \<Rightarrow> bytes \<Rightarrow> bytes option" where
  "rename_field_pattern f from_pattern to_pattern =
     (case f_name f of
        None \<Rightarrow> None
      | Some name \<Rightarrow>
          let to_clean = (case strip_suffix to_pattern [COLON] of Some t \<Rightarrow> t | None \<Rightarrow> to_pattern);
              suffix = drop (length name) (f_bytes f)
          in case strip_suffix from_pattern [COLON] of
               Some from_clean \<Rightarrow>
                 if eq_ignore_ascii_case name from_clean then Some (to_clean @ suffix) else None
             | None \<Rightarrow>
                 if length from_pattern \<le> length name \<and>
                    eq_ignore_ascii_case (take (length from_pattern) name) from_pattern
                 then Some (to_clean @ drop (length from_pattern) name @ suffix) else None)"

section \<open>Unfolding\<close>

text \<open>The copying loop shared by the two functions, with its two cursors.\<close>

function unfold_loop :: "bytes \<Rightarrow> nat \<Rightarrow> nat \<Rightarrow> bytes \<Rightarrow> bytes" where
  "unfold_loop raw copied scanned normalized =
     (case position (\<lambda>b. b = LF) (drop scanned raw) of
        None \<Rightarrow> normalized @ drop copied raw
      | Some offset \<Rightarrow>
          let newline = scanned + offset; scanned' = newline + 1
          in case get raw scanned' of
               Some b \<Rightarrow>
                 if is_blank b then
                   let line_ending_start =
                         (if newline > copied \<and> get raw (newline - 1) = Some CR
                          then newline - 1 else newline)
                   in unfold_loop raw scanned' scanned'
                        (normalized @ slice raw copied line_ending_start @ [SP])
                 else unfold_loop raw copied scanned' normalized
             | None \<Rightarrow> unfold_loop raw copied scanned' normalized)"
  by pat_completeness auto
termination
  by (relation "measure (\<lambda>(raw, copied, scanned, normalized). length raw - scanned)")
    (auto dest: position_SomeD(1))

declare unfold_loop.simps [simp del]

definition has_folding :: "bytes \<Rightarrow> bool" where
  "has_folding raw \<longleftrightarrow> any_window2 (\<lambda>a b. a = LF \<and> is_blank b) raw"

definition unfold_field_bytes :: "bytes \<Rightarrow> bytes" where
  "unfold_field_bytes raw = (if \<not> has_folding raw then raw else unfold_loop raw 0 0 [])"

fun find_folding :: "nat \<Rightarrow> bytes \<Rightarrow> nat option" where
  "find_folding index [] = None"
| "find_folding index (b # bs) =
     (if b = LF \<and> (case first bs of Some c \<Rightarrow> is_blank c | None \<Rightarrow> False) then Some index
      else find_folding (Suc index) bs)"

definition normalize_folded_header :: "bytes \<Rightarrow> bytes option" where
  "normalize_folded_header raw =
     (case find_folding 0 raw of None \<Rightarrow> None | Some _ \<Rightarrow> Some (unfold_loop raw 0 0 []))"

text \<open>What unfolding means: a line ending before a blank becomes one space.\<close>

fun unfolded :: "bytes \<Rightarrow> bytes" where
  "unfolded [] = []"
| "unfolded [x] = [x]"
| "unfolded (x # y # xs) =
     (if x = LF \<and> is_blank y then SP # unfolded (y # xs)
      else if x = CR \<and> y = LF \<and> (case first xs of Some z \<Rightarrow> is_blank z | None \<Rightarrow> False)
      then SP # unfolded xs
      else x # unfolded (y # xs))"

section \<open>Cutting a header into fields loses nothing\<close>

definition no_blank_lines :: "bytes \<Rightarrow> bool" where
  "no_blank_lines xs \<longleftrightarrow> (\<forall>l \<in> set (lines_of xs). \<not> blank_line l)"

lemma no_blank_lines_Nil [simp]: "no_blank_lines []"
  by (simp add: no_blank_lines_def)

lemma no_blank_lines_drop:
  "no_blank_lines xs \<Longrightarrow> no_blank_lines (drop (length (first_line xs)) xs)"
  by (cases "xs = []") (auto simp: no_blank_lines_def lines_of_step)

lemma continuation_props:
  "continuation xs @ drop (length (continuation xs)) xs = xs \<and>
   (no_blank_lines xs \<longrightarrow> no_blank_lines (drop (length (continuation xs)) xs))"
proof (induction xs rule: continuation.induct)
  case (1 rest)
  show ?case
  proof (cases "\<exists>b. first rest = Some b \<and> is_blank b")
    case True
    then obtain b where b: "first rest = Some b" "is_blank b" by blast
    let ?t = "drop (length (first_line rest)) rest"
    have c: "continuation rest = first_line rest @ continuation ?t"
      using b by (subst continuation.simps) simp
    have d: "drop (length (continuation rest)) rest = drop (length (continuation ?t)) ?t"
      by (simp add: c add.commute)
    show ?thesis
      using "1.IH" [OF b] first_line_split [of rest] no_blank_lines_drop [of rest]
      by (metis append.assoc c d)
  next
    case False
    then have "continuation rest = []"
      by (subst continuation.simps) (auto split: option.splits)
    then show ?thesis by simp
  qed
qed

lemma next_field_Some:
  assumes "no_blank_lines xs" and "xs \<noteq> []"
  obtains f rest where "next_field xs = Some (f, rest)" "f @ rest = xs" "f \<noteq> []"
    "no_blank_lines rest" "prefix (first_line xs) f"
proof -
  let ?l = "first_line xs" let ?t = "drop (length ?l) xs"
  let ?n = "length ?l + length (continuation ?t)"
  have nb: "\<not> blank_line ?l" using assms by (auto simp: no_blank_lines_def lines_of_step)
  have t: "take ?n xs = ?l @ continuation ?t"
    using first_line_split [of xs] continuation_props [of ?t]
    by (metis append.assoc append_eq_conv_conj length_append)
  have "drop ?n xs = drop (length (continuation ?t)) ?t" by (simp add: add.commute)
  then have "no_blank_lines (drop ?n xs)"
    using continuation_props [of ?t] no_blank_lines_drop [OF assms(1)] by simp
  moreover have "next_field xs = Some (take ?n xs, drop ?n xs)"
    using nb assms(2) by (simp add: next_field_def blank_line_def Let_def)
  moreover have "take ?n xs \<noteq> []" "prefix ?l (take ?n xs)"
    using assms(2) by (simp_all add: t del: take_append)
  ultimately show thesis by (intro that [of "take ?n xs" "drop ?n xs"] append_take_drop_id)
qed

lemma raw_fields_concat:
  "no_blank_lines xs \<Longrightarrow> concat (map f_bytes (raw_fields xs)) = xs"
proof (induction xs rule: raw_fields.induct)
  case (1 rest)
  show ?case
  proof (cases "rest = []")
    case True
    then show ?thesis by (simp add: raw_fields.simps next_field_def)
  next
    case False
    obtain f r where f: "next_field rest = Some (f, r)" "f @ r = rest" "no_blank_lines r"
      by (rule next_field_Some [OF "1.prems" False])
    with "1.IH" [OF f(1) refl] show ?thesis
      by (subst raw_fields.simps) simp
  qed
qed

lemma raw_fields_wf:
  "f \<in> set (raw_fields xs) \<Longrightarrow> f = field_from_bytes (f_bytes f) \<and> f_bytes f \<noteq> []"
proof (induction xs rule: raw_fields.induct)
  case (1 rest)
  have ne: "next_field rest = Some (g, r) \<Longrightarrow> g \<noteq> []" for g r
    by (auto simp: next_field_def Let_def split: if_splits)
  from "1.prems" obtain g r where g: "next_field rest = Some (g, r)"
    and f: "f = field_from_bytes g \<or> f \<in> set (raw_fields r)"
    using raw_fields.simps [of rest] by (auto split: option.splits)
  with "1.IH" [OF g refl] ne [OF g] show ?case
    by auto
qed

lemma separator_loop_spec:
  assumes "line_start \<le> length header"
  shows "case separator_loop header line_start of
      None \<Rightarrow> no_blank_lines (drop line_start header)
    | Some i \<Rightarrow> line_start \<le> i \<and> i < length header \<and>
        no_blank_lines (slice header line_start i) \<and> blank_line (first_line (drop i header))"
  using assms
proof (induction header line_start rule: separator_loop.induct)
  case (1 header s)
  let ?t = "drop s header"
  show ?case
  proof (cases "position (\<lambda>b. b = LF) ?t")
    case None
    then have "LF \<notin> set ?t" by (auto simp: position_None_iff)
    then have "no_blank_lines ?t"
      by (cases "?t = []")
        (auto simp: no_blank_lines_def lines_of_step first_line_no_LF blank_line_def)
    then show ?thesis using None by (subst separator_loop.simps) simp
  next
    case (Some newline)
    note p = position_SomeD [OF Some]
    let ?e = "s + newline + 1"
    have s: "s < length header" and e: "?e \<le> length header" using p(1) by auto
    have fl: "first_line ?t = slice header s ?e"
      by (simp add: first_line_def Some slice_def)
    have drop_e: "drop (length (first_line ?t)) ?t = drop ?e header"
      using e by (simp add: fl add.commute)
    show ?thesis
    proof (cases "blank_line (first_line ?t)")
      case True
      then show ?thesis
        using s Some by (subst separator_loop.simps) (simp add: fl blank_line_def no_blank_lines_def)
    next
      case False
      then have step: "separator_loop header s = separator_loop header ?e"
        using s Some by (subst separator_loop.simps) (simp add: fl blank_line_def)
      note IH = "1.IH" [OF s Some refl _ e]
      have IH': "case separator_loop header ?e of
          None \<Rightarrow> no_blank_lines (drop ?e header)
        | Some i \<Rightarrow> ?e \<le> i \<and> i < length header \<and> no_blank_lines (slice header ?e i)
            \<and> blank_line (first_line (drop i header))"
        using IH False by (simp add: fl blank_line_def)
      have lf: "slice header s ?e = take newline ?t @ [LF]"
        using p by (simp add: slice_def take_Suc_conv_app_nth)
      have nl: "LF \<notin> set (take newline ?t)" using p(3) by blast
      have cons: "no_blank_lines (slice header s ?e @ zs)" if "no_blank_lines zs" for zs
        using that False lines_of_app_LF [OF nl, of zs]
        unfolding no_blank_lines_def fl lf by simp
      have "?t = slice header s ?e @ drop ?e header"
        using first_line_split [of ?t] fl drop_e by simp
      moreover have "no_blank_lines (slice header s i)" if "?e \<le> i" "no_blank_lines (slice header ?e i)" for i
        using cons [OF that(2)] slice_append_slice [of s ?e i header] that(1) by simp
      ultimately show ?thesis
        using IH' cons step by (auto split: option.splits)
    qed
  qed
qed

lemma header_separator_start_spec:
  defines "content h \<equiv> take (case header_separator_start h of None \<Rightarrow> length h | Some i \<Rightarrow> i) h"
  shows "no_blank_lines (content h)"
    and "header_separator_start h = Some i \<Longrightarrow> blank_line (first_line (drop i h))"
  using separator_loop_spec [of 0 h]
  by (auto simp: content_def header_separator_start_def slice_take split: option.splits)

lemma split_fields_spec:
  assumes "split_fields header = (fs, separator, line_ending)"
  shows "concat (map f_bytes fs) @ separator = header"
    and "\<forall>f \<in> set fs. f = field_from_bytes (f_bytes f) \<and> f_bytes f \<noteq> []"
    and "separator = [] \<or> blank_line (first_line separator)"
    and "no_blank_lines (concat (map f_bytes fs))"
proof -
  let ?i = "case header_separator_start header of None \<Rightarrow> length header | Some i \<Rightarrow> i"
  have f: "fs = raw_fields (take ?i header)" and s: "separator = drop ?i header"
    using assms by (auto simp: split_fields_def Let_def)
  note nb = header_separator_start_spec(1) [of header]
  show "concat (map f_bytes fs) @ separator = header"
    by (simp add: f s raw_fields_concat [OF nb])
  show "no_blank_lines (concat (map f_bytes fs))"
    by (simp add: f raw_fields_concat [OF nb] nb)
  show "\<forall>f \<in> set fs. f = field_from_bytes (f_bytes f) \<and> f_bytes f \<noteq> []"
    using raw_fields_wf by (auto simp: f)
  show "separator = [] \<or> blank_line (first_line separator)"
    using header_separator_start_spec(2) [of header] by (auto simp: s split: option.splits)
qed

text \<open>
  Cutting a header into fields and a separator loses, adds and reorders nothing: the
  bytes of the fields followed by the separator are the header, no field is empty, and the
  separator is empty or starts with the first empty line of the header.
\<close>

theorem split_fields_lossless:
  assumes "split_fields header = (fs, separator, line_ending)"
  shows "concat (map f_bytes fs) @ separator = header \<and>
    (\<forall>f \<in> set fs. f = field_from_bytes (f_bytes f) \<and> f_bytes f \<noteq> []) \<and>
    (separator = [] \<or> blank_line (first_line separator)) \<and>
    no_blank_lines (concat (map f_bytes fs))"
  using split_fields_spec [OF assms] by blast

theorem split_fields_lossless_witness:
  "concat (map f_bytes [field_from_bytes (ascii ''A:b'' @ [LF])]) @ [LF, SP] =
     ascii ''A:b'' @ [LF, LF, SP]"
  using split_fields_lossless [of "ascii ''A:b'' @ [LF, LF, SP]"
      "[field_from_bytes (ascii ''A:b'' @ [LF])]" "[LF, SP]" "[LF]"]
  by (simp add: split_fields_def header_separator_start_def separator_loop.simps slice_def
      raw_fields.simps next_field_def first_line_def continuation.simps preferred_line_ending_def)

section \<open>Unfolding is what it should be\<close>

lemma unfolded_no_LF: "LF \<notin> set a \<Longrightarrow> unfolded a = a"
  by (induction a rule: unfolded.induct) auto

definition strip_cr :: "bytes \<Rightarrow> bytes" where
  "strip_cr a = (if a \<noteq> [] \<and> last a = CR then butlast a else a)"

lemma unfolded_fold:
  "LF \<notin> set a \<Longrightarrow> is_blank b \<Longrightarrow> unfolded (a @ LF # b # xs) = strip_cr a @ SP # unfolded (b # xs)"
proof (induction a)
  case Nil
  then show ?case by (simp add: strip_cr_def)
next
  case (Cons x a)
  then show ?case
    by (cases a; cases "tl a") (auto simp: strip_cr_def is_blank_def)
qed

lemma unfolded_keep:
  assumes "LF \<notin> set a" and "case first xs of Some b \<Rightarrow> \<not> is_blank b | None \<Rightarrow> True"
  shows "unfolded (a @ LF # xs) = a @ LF # unfolded xs"
  using assms(1)
proof (induction a)
  case Nil
  then show ?case using assms(2) by (cases xs) auto
next
  case (Cons x a)
  then show ?case
    using assms(2) by (cases a; cases xs) auto
qed

lemma unfold_loop_spec:
  assumes "copied \<le> scanned" and "scanned \<le> length raw"
    and "slice raw copied scanned = [] \<or> last (slice raw copied scanned) = LF"
  shows "unfold_loop raw copied scanned normalized =
    normalized @ slice raw copied scanned @ unfolded (drop scanned raw)"
  using assms
proof (induction raw copied scanned normalized rule: unfold_loop.induct)
  case (1 raw copied scanned normalized)
  let ?t = "drop scanned raw" let ?p = "slice raw copied scanned"
  show ?case
  proof (cases "position (\<lambda>b. b = LF) ?t")
    case None
    then have "LF \<notin> set ?t" by (auto simp: position_None_iff)
    moreover have "drop copied raw = ?p @ ?t"
      using "1.prems" slice_append_slice [of copied scanned "length raw" raw]
      by (simp add: slice_drop)
    ultimately show ?thesis using None by (subst unfold_loop.simps) (simp add: unfolded_no_LF)
  next
    case (Some offset)
    note p = position_SomeD [OF Some]
    define a where "a = take offset ?t"
    define rest where "rest = drop (scanned + offset + 1) raw"
    let ?n = "scanned + offset"
    have t: "?t = a @ LF # rest"
      using position_split [OF Some] by (simp add: a_def rest_def add.commute)
    have nl: "LF \<notin> set a" using p(3) by (auto simp: a_def)
    have len: "?n + 1 \<le> length raw" using p(1) by simp
    have seg: "slice raw copied ?n = ?p @ a"
      using "1.prems"(1) slice_append_slice [of copied scanned ?n raw]
      by (simp add: a_def slice_def)
    have seg1: "slice raw copied (?n + 1) = ?p @ a @ [LF]"
      using slice_append_slice [of copied ?n "?n + 1" raw] "1.prems"(1) seg p
      by (simp add: slice_def take_Suc_conv_app_nth)
    have fst_rest: "get raw (?n + 1) = first rest"
      using len by (cases rest) (auto simp: get_def rest_def Cons_nth_drop_Suc [symmetric]
          intro: le_antisym split: if_splits)
    show ?thesis
    proof (cases "\<exists>b. first rest = Some b \<and> is_blank b")
      case True
      then obtain b xs where rest: "rest = b # xs" and b: "is_blank b" by (cases rest) auto
      let ?ls = "if ?n > copied \<and> get raw (?n - 1) = Some CR then ?n - 1 else ?n"
      have ls: "slice raw copied ?ls = ?p @ strip_cr a"
      proof (cases "a = []")
        case True
        then have "offset = 0" using p(1) by (auto simp: a_def)
        moreover have "get raw (scanned - 1) = Some LF" if "scanned > copied"
          using "1.prems" that by (auto simp: slice_def last_conv_nth get_def)
        ultimately show ?thesis using True seg by (auto simp: strip_cr_def)
      next
        case False
        then have o: "0 < offset" by (auto simp: a_def)
        have la: "last a = raw ! (?n - 1)" using False p(1) o by (simp add: a_def last_conv_nth)
        have "butlast a = take (offset - 1) ?t" using p(1) by (simp add: a_def butlast_take)
        then have "slice raw copied (?n - 1) = ?p @ butlast a"
          using "1.prems"(1) o slice_append_slice [of copied scanned "?n - 1" raw]
          by (simp add: slice_def)
        then show ?thesis
          using False la seg o "1.prems"(1) len by (auto simp: strip_cr_def get_def)
      qed
      have "unfold_loop raw copied scanned normalized =
          unfold_loop raw (?n + 1) (?n + 1) (normalized @ slice raw copied ?ls @ [SP])"
        using Some fst_rest rest b by (subst unfold_loop.simps) (simp add: Let_def)
      also have "\<dots> = (normalized @ slice raw copied ?ls @ [SP]) @ [] @ unfolded rest"
        using "1.IH"(2) [OF Some refl refl _ b refl] fst_rest rest len by (simp add: rest_def)
      also have "\<dots> = normalized @ ?p @ unfolded ?t"
        using unfolded_fold [OF nl b, of xs] unfolding ls t rest by simp
      finally show ?thesis .
    next
      case False
      have step: "unfold_loop raw copied scanned normalized =
          unfold_loop raw copied (?n + 1) normalized"
        using Some fst_rest False
        by (subst unfold_loop.simps) (auto simp: Let_def split: option.splits)
      have "unfold_loop raw copied (?n + 1) normalized =
          normalized @ (?p @ a @ [LF]) @ unfolded rest"
        using "1.IH"(1,3) [OF Some refl refl] fst_rest False len seg1 "1.prems"(1)
        by (cases "get raw (?n + 1)") (auto simp: rest_def)
      moreover have "unfolded ?t = a @ LF # unfolded rest"
        using unfolded_keep [OF nl, of rest] False by (auto simp: t split: option.splits)
      ultimately show ?thesis using step by simp
    qed
  qed
qed

lemma find_folding_iff: "(find_folding i raw \<noteq> None) = has_folding raw"
  unfolding has_folding_def
proof (induction i raw rule: find_folding.induct)
  case (2 i b bs)
  then show ?case by (cases bs) auto
qed simp

lemma unfolded_id: "\<not> has_folding raw \<Longrightarrow> unfolded raw = raw"
  unfolding has_folding_def
proof (induction raw rule: unfolded.induct)
  case (3 x y xs)
  then show ?case by (cases xs) auto
qed auto

lemma unfold_field_bytes_unfolded: "unfold_field_bytes raw = unfolded raw"
  by (simp add: unfold_field_bytes_def unfold_loop_spec unfolded_id)

text \<open>
  The two cursor loops that unfold continuation lines compute the same thing: every
  line ending (LF or CRLF) that is followed by a blank becomes one space, everything else is
  copied, and the header normalisation reports no copy exactly when there is nothing to
  unfold.
\<close>

theorem unfolding_agrees:
  "unfold_field_bytes raw = unfolded raw \<and>
   normalize_folded_header raw = (if has_folding raw then Some (unfolded raw) else None)"
  using find_folding_iff [of 0 raw]
  by (auto simp: unfold_field_bytes_unfolded normalize_folded_header_def unfold_loop_spec
      split: option.splits)

lemma unfolded_length: "length (unfolded xs) \<le> length xs"
  by (induction xs rule: unfolded.induct) (auto split: option.splits)

lemma unfolded_first: "first (unfolded xs) = Some b \<Longrightarrow> first xs = Some b \<or> b = SP"
  by (cases xs rule: unfolded.cases) (auto split: if_splits)

text \<open>
  An empty line inside the input may leave a line ending in front of an inserted space, so
  the next two facts speak about header text, which has none.
\<close>

fun inner_blank :: "bytes \<Rightarrow> bool" where
  "inner_blank (x # y # xs) \<longleftrightarrow>
     x = LF \<and> (y = LF \<or> y = CR \<and> first xs = Some LF) \<or> inner_blank (y # xs)"
| "inner_blank _ \<longleftrightarrow> False"

lemma list_tl_in: "x \<in> set (tl xs) \<Longrightarrow> x \<in> set xs"
  by (cases xs) auto

lemma lines_of_Cons:
  "lines_of (x # xs) =
     (if x = LF then [LF] # lines_of xs
      else case lines_of xs of [] \<Rightarrow> [[x]] | l # ls \<Rightarrow> (x # l) # ls)"
  by (cases "xs = []") (simp_all add: lines_of_step first_line_cons)

lemma inner_blank_lines:
  "\<forall>l \<in> set (tl (lines_of xs)). \<not> blank_line l \<Longrightarrow> \<not> inner_blank xs"
proof (induction xs rule: inner_blank.induct)
  case (1 x y xs)
  have tail: "lines_of (y # xs) = first_line (y # xs) # tl (lines_of (y # xs))"
    by (simp add: lines_of_step)
  have "\<not> blank_line (first_line (y # xs))" if "x = LF"
  proof -
    from "1.prems" that have "\<forall>l \<in> set (lines_of (y # xs)). \<not> blank_line l"
      by (simp add: lines_of_Cons [of LF])
    then show ?thesis by (subst (asm) tail) simp
  qed
  then have "\<not> (x = LF \<and> (y = LF \<or> y = CR \<and> first xs = Some LF))"
    by (cases xs) (auto simp: blank_line_def first_line_cons)
  moreover have "\<forall>l \<in> set (tl (lines_of (y # xs))). \<not> blank_line l"
    using "1.prems" lines_of_Cons [of x "y # xs"] tail
    by (cases "x = LF") (auto split: list.splits dest: list_tl_in)
  ultimately show ?case using "1.IH" by auto
qed simp_all

lemma any_window2_Cons:
  "any_window2 P (c # zs) \<longleftrightarrow>
     (case first zs of Some d \<Rightarrow> P c d | None \<Rightarrow> False) \<or> any_window2 P zs"
  by (cases zs) auto

lemma unfolded_no_folding:
  "\<not> inner_blank xs \<Longrightarrow> \<not> has_folding (unfolded xs)"
  unfolding has_folding_def
proof (induction xs rule: unfolded.induct)
  case (3 x y xs)
  have ib: "\<not> inner_blank (y # xs)" "\<not> inner_blank xs"
    using "3.prems" by (cases xs; auto)+
  have keep: "x = LF \<Longrightarrow> \<not> is_blank y \<Longrightarrow> first (unfolded (y # xs)) = Some d \<Longrightarrow> \<not> is_blank d" for d
    using "3.prems"
    by (cases xs) (auto simp: is_blank_def split: if_splits option.splits)
  have nlf: "LF \<noteq> SP" by simp
  show ?case
  proof (cases "x = LF \<and> is_blank y")
    case True
    then show ?thesis using "3.IH"(1) ib nlf by (auto simp: any_window2_Cons split: option.splits)
  next
    case False
    show ?thesis
    proof (cases "x = CR \<and> y = LF \<and> (case first xs of Some z \<Rightarrow> is_blank z | None \<Rightarrow> False)")
      case True
      then show ?thesis
        using "3.IH"(2) ib nlf False by (auto simp: any_window2_Cons split: option.splits)
    next
      case no: False
      then show ?thesis
        using "3.IH"(3) [OF False no ib(1)] keep False by (auto simp: any_window2_Cons split: option.splits)
    qed
  qed
qed auto

text \<open>
  Unfolding header text leaves no continuation line behind, never makes it longer, and
  unfolding it again changes nothing.
\<close>

theorem unfold_field_bytes_complete:
  assumes "no_blank_lines xs"
  shows "\<not> has_folding (unfold_field_bytes xs) \<and>
    length (unfold_field_bytes xs) \<le> length xs \<and>
    unfold_field_bytes (unfold_field_bytes xs) = unfold_field_bytes xs"
proof -
  have "\<not> inner_blank xs"
    using assms inner_blank_lines [of xs] by (auto simp: no_blank_lines_def dest: list_tl_in)
  then show ?thesis
    by (simp add: unfold_field_bytes_unfolded unfolded_no_folding unfolded_id unfolded_length)
qed

theorem unfold_field_bytes_complete_witness:
  "unfold_field_bytes (unfold_field_bytes (ascii ''A: b'' @ [CR, LF, TAB] @ ascii ''c'' @ [LF])) =
   unfold_field_bytes (ascii ''A: b'' @ [CR, LF, TAB] @ ascii ''c'' @ [LF])"
  using unfold_field_bytes_complete
    [of "ascii ''A: b'' @ [CR, LF, TAB] @ ascii ''c'' @ [LF]"]
  by (simp add: no_blank_lines_def lines_of_Cons blank_line_def)

end
