(* ===== verification/Arena_Ranges.thy ===== *)
theory Arena_Ranges
  imports Prelude "HOL-Library.Multiset"
begin

text \<open>
  Half-open byte ranges that tile an arena.  The header store of
  \<open>src/header_edit/storage.rs\<close> keeps live fields and free holes as \<open>Range<usize>\<close> values
  into one byte vector; its invariant is that these ranges, taken together and ordered by
  their start, follow one another from the first to the last byte.  \<open>tiles n M\<close> says so of
  the multiset \<open>M\<close> of ranges and an arena of \<open>n\<close> bytes.
\<close>

type_synonym range = "usize \<times> usize"

definition range_len :: "range \<Rightarrow> nat" where
  "range_len r = snd r - fst r"

fun chain :: "nat \<Rightarrow> range list \<Rightarrow> nat \<Rightarrow> bool" where
  "chain a [] c \<longleftrightarrow> a = c"
| "chain a (r # rs) c \<longleftrightarrow> fst r = a \<and> fst r < snd r \<and> chain (snd r) rs c"

definition tiles :: "nat \<Rightarrow> range multiset \<Rightarrow> bool" where
  "tiles n M \<longleftrightarrow> (\<exists>rs. mset rs = M \<and> chain 0 rs n)"

definition separate :: "range \<Rightarrow> range \<Rightarrow> bool" where
  "separate r s \<longleftrightarrow> snd r \<le> fst s \<or> snd s \<le> fst r"

section \<open>Chains\<close>

lemma chain_append: "chain a (rs @ ss) c \<longleftrightarrow> (\<exists>b. chain a rs b \<and> chain b ss c)"
  by (induction rs arbitrary: a) auto

lemma chain_le: "chain a rs c \<Longrightarrow> a \<le> c"
  by (induction rs arbitrary: a) (auto dest: order.strict_implies_order order_trans)

lemma chain_bounds: "chain a rs c \<Longrightarrow> r \<in> set rs \<Longrightarrow> a \<le> fst r \<and> fst r < snd r \<and> snd r \<le> c"
proof (induction rs arbitrary: a)
  case Nil
  then show ?case by simp
next
  case (Cons q rs)
  then show ?case using chain_le [of "snd q" rs c] by fastforce
qed

lemma chain_sum: "chain a rs c \<Longrightarrow> sum_list (map range_len rs) = c - a"
proof (induction rs arbitrary: a)
  case Nil
  then show ?case by simp
next
  case (Cons q rs)
  then show ?case using chain_le [of "snd q" rs c] by (auto simp: range_len_def)
qed

lemma chain_ordered: "chain a rs c \<Longrightarrow> sorted_wrt (\<lambda>r s. snd r \<le> fst s) rs"
proof (induction rs arbitrary: a)
  case Nil
  then show ?case by simp
next
  case (Cons q rs)
  then show ?case using chain_bounds [of "snd q" rs c] by auto
qed

lemma chain_succ:
  assumes "chain a (xs @ r # ys) c" and "s \<in> set (xs @ r # ys)" and "fst s = snd r"
  shows "\<exists>zs. ys = s # zs"
proof -
  from assms(1) obtain b where 1: "chain a xs b" and 2: "fst r = b" "fst r < snd r"
    and 3: "chain (snd r) ys c"
    by (auto simp: chain_append)
  have "s \<notin> set xs" using chain_bounds [OF 1, of s] 2 assms(3) by auto
  moreover have "s \<noteq> r" using 2 assms(3) by auto
  ultimately have "s \<in> set ys" using assms(2) by auto
  then obtain t ts where ys: "ys = t # ts" by (cases ys) auto
  have "s = t"
    using \<open>s \<in> set ys\<close> ys 3 assms(3) chain_bounds [of "snd t" ts c s] by fastforce
  with ys show ?thesis by blast
qed

section \<open>Tilings\<close>

lemma tiles_empty [simp]: "tiles n {#} \<longleftrightarrow> n = 0"
  by (auto simp: tiles_def)

lemma tiles_bounds: "tiles n M \<Longrightarrow> r \<in># M \<Longrightarrow> fst r < snd r \<and> snd r \<le> n"
  unfolding tiles_def using chain_bounds [of 0 _ n r] by auto

lemma tiles_obtain:
  assumes "tiles n (add_mset r M)"
  obtains xs ys where "chain 0 (xs @ r # ys) n" "mset (xs @ ys) = M"
proof -
  from assms obtain rs where rs: "mset rs = add_mset r M" "chain 0 rs n"
    by (auto simp: tiles_def)
  then have "r \<in> set rs" by (metis set_mset_mset union_single_eq_member)
  then obtain xs ys where "rs = xs @ r # ys" by (meson split_list)
  with rs that [of xs ys] show thesis by simp
qed

lemma tiles_separate:
  assumes "tiles n (add_mset r M)" and "s \<in># M"
  shows "separate r s"
proof -
  obtain xs ys where c: "chain 0 (xs @ r # ys) n" and m: "mset (xs @ ys) = M"
    using assms(1) by (rule tiles_obtain)
  from m assms(2) have "s \<in> set xs \<or> s \<in> set ys" by (auto simp flip: set_mset_mset)
  with chain_ordered [OF c] show ?thesis
    by (auto simp: separate_def sorted_wrt_append)
qed

lemma tiles_total: "tiles n M \<Longrightarrow> (\<Sum>r \<in># M. range_len r) = n"
  unfolding tiles_def by (metis chain_sum diff_zero mset_map sum_mset_sum_list)

lemma tiles_snoc: "tiles n M \<Longrightarrow> 0 < k \<Longrightarrow> tiles (n + k) (add_mset (n, n + k) M)"
proof -
  assume "tiles n M" and "0 < k"
  then obtain rs where "mset rs = M" "chain 0 rs n" by (auto simp: tiles_def)
  with \<open>0 < k\<close> have "mset (rs @ [(n, n + k)]) = add_mset (n, n + k) M"
    and "chain 0 (rs @ [(n, n + k)]) (n + k)"
    by (auto simp: chain_append)
  then show ?thesis unfolding tiles_def by blast
qed

lemma tiles_split:
  assumes "tiles n (add_mset (a, c) M)" and "a < b" and "b < c"
  shows "tiles n (add_mset (a, b) (add_mset (b, c) M))"
proof -
  obtain xs ys where c: "chain 0 (xs @ (a, c) # ys) n" and m: "mset (xs @ ys) = M"
    using assms(1) by (rule tiles_obtain)
  from c assms(2,3) have "chain 0 (xs @ (a, b) # (b, c) # ys) n"
    by (auto simp: chain_append)
  moreover from m have "mset (xs @ (a, b) # (b, c) # ys) = add_mset (a, b) (add_mset (b, c) M)"
    by auto
  ultimately show ?thesis unfolding tiles_def by blast
qed

lemma tiles_merge:
  assumes "tiles n (add_mset (a, b) (add_mset (b, c) M))"
  shows "tiles n (add_mset (a, c) M)"
proof -
  obtain xs ys where c: "chain 0 (xs @ (a, b) # ys) n" and m: "mset (xs @ ys) = add_mset (b, c) M"
    using assms by (rule tiles_obtain)
  have "(b, c) \<in> set (xs @ (a, b) # ys)"
    using arg_cong [OF m, of set_mset] by auto
  from chain_succ [OF c this] obtain zs where ys: "ys = (b, c) # zs" by auto
  from c ys have "chain 0 (xs @ (a, c) # zs) n" by (auto simp: chain_append)
  moreover from m ys have "mset (xs @ (a, c) # zs) = add_mset (a, c) M" by simp
  ultimately show ?thesis unfolding tiles_def by blast
qed

lemma tiles_pop:
  assumes "tiles n (add_mset (a, n) M)"
  shows "tiles a M"
proof -
  obtain xs ys where c: "chain 0 (xs @ (a, n) # ys) n" and m: "mset (xs @ ys) = M"
    using assms by (rule tiles_obtain)
  then have "chain n ys n" by (auto simp: chain_append)
  then have "ys = []" using chain_bounds [of n ys n "hd ys"] by (cases ys) auto
  with c m show ?thesis unfolding tiles_def by (auto simp: chain_append)
qed

section \<open>Slices of an arena\<close>

lemma slice_update_separate:
  assumes "separate r (a, a + length v)" and "a + length v \<le> length xs"
    and "snd r \<le> length xs" and "fst r \<le> snd r"
  shows "slice (take a xs @ v @ drop (a + length v) xs) (fst r) (snd r) = slice xs (fst r) (snd r)"
  using assms(1) unfolding separate_def
proof
  assume "snd r \<le> fst (a, a + length v)"
  then show ?thesis using assms by (simp add: slice_def take_drop min_def)
next
  assume le: "snd (a, a + length v) \<le> fst r"
  then have "drop (fst r) (take a xs @ v @ drop (a + length v) xs) = drop (fst r) xs"
    using assms by (simp add: drop_append)
  then show ?thesis by (simp add: slice_def)
qed

lemma slice_update_same:
  assumes "a + length v \<le> length xs"
  shows "slice (take a xs @ v @ drop (a + length v) xs) a (a + length v) = v"
  using assms by (simp add: slice_def)

lemma slice_take_within: "b \<le> n \<Longrightarrow> slice (take n xs) a b = slice xs a b"
  by (cases "a \<le> b") (simp_all add: slice_def take_drop min_def)

lemma slice_append_within: "b \<le> length xs \<Longrightarrow> slice (xs @ ys) a b = slice xs a b"
  by (simp add: slice_def)

lemma slice_append_new: "slice (xs @ ys) (length xs) (length xs + length ys) = ys"
  by (simp add: slice_def)

end
