(* ===== verification/Rc_Variables.thy ===== *)
theory Rc_Variables
  imports Prelude
begin

text \<open>
  Variables of the rc language: \<open>src/config/arguments.rs\<close> (positional parameters) and
  \<open>src/config/variables.rs\<close> (the special variables, who may set each of them, and the
  validation of their values).  Error texts are constructors; the checks, their order and
  the bounds are the source's.
\<close>

section \<open>Bounds (\<open>config/mod.rs\<close>, \<open>arguments.rs\<close>, \<open>variables.rs\<close>, \<open>trace/schema.rs\<close>)\<close>

definition MAX_ASSIGNMENT_NAME_LEN :: usize where "MAX_ASSIGNMENT_NAME_LEN = 128"
definition MAX_ASSIGNMENT_VALUE_LEN :: usize where "MAX_ASSIGNMENT_VALUE_LEN = 64 * 1024"
definition MAX_SHELL_SETTING_LEN :: usize where "MAX_SHELL_SETTING_LEN = 4096"
definition MAX_PATH_EXPRESSION_LEN :: usize where "MAX_PATH_EXPRESSION_LEN = 4096"
definition MAX_POSITIONAL_ARGUMENTS :: usize where "MAX_POSITIONAL_ARGUMENTS = 256"
definition MAX_POSITIONAL_ARGUMENT_LEN :: usize where "MAX_POSITIONAL_ARGUMENT_LEN = 64 * 1024"
definition MAX_POSITIONAL_ARGUMENT_BYTES :: usize where
  "MAX_POSITIONAL_ARGUMENT_BYTES = 256 * 1024"
definition MAX_LOCK_SLEEP_SECONDS :: nat where "MAX_LOCK_SLEEP_SECONDS = 86400"
definition MAX_LOCK_TIMEOUT_SECONDS :: nat where "MAX_LOCK_TIMEOUT_SECONDS = 86400"
definition MAX_PROCESS_TIMEOUT_SECONDS :: nat where "MAX_PROCESS_TIMEOUT_SECONDS = 86400"
definition MAX_TRACE_VALUE_SIZE :: usize where "MAX_TRACE_VALUE_SIZE = 256"
definition MAX_HOSTNAME_LEN :: usize where "MAX_HOSTNAME_LEN = 255"

lemmas rc_bounds = MAX_ASSIGNMENT_NAME_LEN_def MAX_ASSIGNMENT_VALUE_LEN_def
  MAX_SHELL_SETTING_LEN_def MAX_PATH_EXPRESSION_LEN_def MAX_POSITIONAL_ARGUMENTS_def
  MAX_POSITIONAL_ARGUMENT_LEN_def MAX_POSITIONAL_ARGUMENT_BYTES_def
  MAX_LOCK_SLEEP_SECONDS_def MAX_LOCK_TIMEOUT_SECONDS_def MAX_PROCESS_TIMEOUT_SECONDS_def
  MAX_TRACE_VALUE_SIZE_def MAX_HOSTNAME_LEN_def

section \<open>Numbers in text\<close>

fun digits_value :: "nat \<Rightarrow> nat \<Rightarrow> bytes \<Rightarrow> nat" where
  "digits_value radix acc [] = acc"
| "digits_value radix acc (d # ds) = digits_value radix (acc * radix + unat (d - 48)) ds"

text \<open>\<open>str::parse::<u64>\<close>: an optional plus sign, at least one digit, no overflow.\<close>

definition parse_u64 :: "bytes \<Rightarrow> nat option" where
  "parse_u64 s =
     (let ds = (if starts_with s (ascii ''+'') then drop 1 s else s)
      in if ds = [] \<or> \<not> list_all is_ascii_digit ds then None
         else let v = digits_value 10 0 ds in if v \<le> 2 ^ 64 - 1 then Some v else None)"

section \<open>Positional parameters (\<open>arguments.rs\<close>)\<close>

record positional_arguments =
  pa_values :: "bytes list"
  pa_bytes :: usize

datatype positional_argument_error =
    TooManyArguments
  | ArgumentTooLong
  | ArgumentSizeOverflow
  | ArgumentsTooLarge

definition no_arguments :: positional_arguments where
  "no_arguments = \<lparr>pa_values = [], pa_bytes = 0\<rparr>"

definition push_argument ::
  "positional_arguments \<Rightarrow> bytes \<Rightarrow> positional_argument_error + positional_arguments" where
  "push_argument a value =
     (if length (pa_values a) = MAX_POSITIONAL_ARGUMENTS then Inl TooManyArguments
      else if length value > MAX_POSITIONAL_ARGUMENT_LEN then Inl ArgumentTooLong
      else case checked_add (pa_bytes a) (length value) of
             None \<Rightarrow> Inl ArgumentSizeOverflow
           | Some new_bytes \<Rightarrow>
               if new_bytes > MAX_POSITIONAL_ARGUMENT_BYTES then Inl ArgumentsTooLarge
               else Inr (a\<lparr>pa_values := pa_values a @ [value], pa_bytes := new_bytes\<rparr>))"

definition is_positional_parameter_name :: "bytes \<Rightarrow> bool" where
  "is_positional_parameter_name name \<longleftrightarrow>
     name = ascii ''#'' \<or>
     (name \<noteq> [] \<and> list_all is_ascii_digit name \<and>
      (case parse_u64 name of
         None \<Rightarrow> False
       | Some index \<Rightarrow> 1 \<le> index \<and> index \<le> MAX_POSITIONAL_ARGUMENTS))"

section \<open>Settings (\<open>variables.rs\<close>)\<close>

datatype setting_error =
    ShiftNotPositive
  | UmaskNotOctal
  | TrapContainsNul
  | LockExtContainsNul
  | LockExtContainsSlash
  | LogAbstractUnknown
  | LockMethodUnknown
  | LockTimeoutOutOfRange
  | LockSleepOutOfRange
  | TimeoutOutOfRange
  | LogValueTooLong

fun shift_loop :: "usize \<Rightarrow> bytes \<Rightarrow> usize" where
  "shift_loop amount [] = amount"
| "shift_loop amount (d # ds) =
     shift_loop
       (min (saturating_add (saturating_mul amount 10) (unat (d - 48))) MAX_POSITIONAL_ARGUMENTS) ds"

definition parse_shift :: "bytes \<Rightarrow> setting_error + usize" where
  "parse_shift value =
     (if value = [] \<or> \<not> list_all is_ascii_digit value then Inl ShiftNotPositive
      else let amount = shift_loop 0 value
           in if amount = 0 then Inl ShiftNotPositive else Inr amount)"

definition parse_umask :: "bytes \<Rightarrow> setting_error + nat" where
  "parse_umask value =
     (if value = [] \<or> length value > 4 \<or> \<not> list_all (\<lambda>b. 48 \<le> b \<and> b \<le> 55) value
      then Inl UmaskNotOctal
      else let mask = digits_value 8 0 value
           in if mask > 511 then Inl UmaskNotOctal else Inr mask)"

definition validate_trap_command :: "bytes \<Rightarrow> setting_error + unit" where
  "validate_trap_command value = (if 0 \<in> set value then Inl TrapContainsNul else Inr ())"

definition validate_lock_ext :: "bytes \<Rightarrow> setting_error + unit" where
  "validate_lock_ext value =
     (if 0 \<in> set value then Inl LockExtContainsNul
      else if 47 \<in> set value then Inl LockExtContainsSlash
      else Inr ())"

definition validate_log_abstract :: "bytes \<Rightarrow> setting_error + unit" where
  "validate_log_abstract value =
     (if value \<in> {ascii ''no'', ascii ''yes'', ascii ''all''} then Inr ()
      else Inl LogAbstractUnknown)"

definition validate_lock_method :: "bytes \<Rightarrow> setting_error + unit" where
  "validate_lock_method value =
     (if value \<in> {ascii ''flock'', ascii ''dotlock''} then Inr () else Inl LockMethodUnknown)"

definition parse_seconds :: "nat \<Rightarrow> setting_error \<Rightarrow> bytes \<Rightarrow> setting_error + nat" where
  "parse_seconds maximum error value =
     (case parse_u64 value of
        None \<Rightarrow> Inl error
      | Some seconds \<Rightarrow>
          if \<not> (1 \<le> seconds \<and> seconds \<le> maximum) then Inl error else Inr seconds)"

definition parse_lock_timeout_seconds :: "bytes \<Rightarrow> setting_error + nat" where
  "parse_lock_timeout_seconds = parse_seconds MAX_LOCK_TIMEOUT_SECONDS LockTimeoutOutOfRange"

definition parse_lock_sleep_seconds :: "bytes \<Rightarrow> setting_error + nat" where
  "parse_lock_sleep_seconds = parse_seconds MAX_LOCK_SLEEP_SECONDS LockSleepOutOfRange"

definition parse_process_timeout_seconds :: "bytes \<Rightarrow> setting_error + nat" where
  "parse_process_timeout_seconds = parse_seconds MAX_PROCESS_TIMEOUT_SECONDS TimeoutOutOfRange"

section \<open>Targets and validators\<close>

datatype message_limit_variable =
    Limit_MessageSize
  | Limit_HeadersSize
  | Limit_BodySize
  | Limit_HeaderLineSize
  | Limit_HeaderFieldSize

datatype rc_limit_variable =
    Rc_Assignments
  | Rc_Statements
  | Rc_Recipes
  | Rc_Conditions
  | Rc_Regexes
  | Rc_ConditionsPerRecipe
  | Rc_NestingDepth

datatype assignment_target =
    Target_Maildir
  | Target_LogFile
  | Target_Log
  | Target_LogDetail
  | Target_LogAbstract
  | Target_Verbose
  | Target_Durability
  | Target_LockMethod
  | Target_LockFile
  | Target_LockExt
  | Target_LockSleep
  | Target_LockTimeout
  | Target_LineBuf
  | Target_ProcessTimeout
  | Target_Umask
  | Target_Trap
  | Target_Shell
  | Target_ShellFlags
  | Target_Path
  | Target_ExitCode
  | Target_Host
  | Target_Shift
  | Target_MessageLimit message_limit_variable
  | Target_RcLimit rc_limit_variable
  | Target_User

datatype assignment_path = Path_Maildir | Path_LogFile | Path_LockFile

datatype assignment_value_validator =
    Validate_None
  | Validate_Log
  | Validate_LockMethod
  | Validate_LockSleep
  | Validate_LockTimeout
  | Validate_ProcessTimeout
  | Validate_Umask
  | Validate_Trap
  | Validate_LockExt
  | Validate_LogAbstract
  | Validate_Shift

definition drop_value :: "'e + 'a \<Rightarrow> 'e + unit" where
  "drop_value r = map_sum id (\<lambda>_. ()) r"

fun validate :: "assignment_value_validator \<Rightarrow> bytes \<Rightarrow> setting_error + unit" where
  "validate Validate_None value = Inr ()"
| "validate Validate_Log value =
     (if length value \<le> MAX_TRACE_VALUE_SIZE then Inr () else Inl LogValueTooLong)"
| "validate Validate_LockMethod value = validate_lock_method value"
| "validate Validate_LockSleep value = drop_value (parse_lock_sleep_seconds value)"
| "validate Validate_LockTimeout value = drop_value (parse_lock_timeout_seconds value)"
| "validate Validate_ProcessTimeout value = drop_value (parse_process_timeout_seconds value)"
| "validate Validate_Umask value = drop_value (parse_umask value)"
| "validate Validate_Trap value = validate_trap_command value"
| "validate Validate_LockExt value = validate_lock_ext value"
| "validate Validate_LogAbstract value = validate_log_abstract value"
| "validate Validate_Shift value = drop_value (parse_shift value)"

fun value_limit :: "assignment_target \<Rightarrow> usize" where
  "value_limit Target_Maildir = MAX_PATH_EXPRESSION_LEN"
| "value_limit Target_LogFile = MAX_PATH_EXPRESSION_LEN"
| "value_limit Target_Log = MAX_ASSIGNMENT_VALUE_LEN"
| "value_limit Target_LogDetail = MAX_ASSIGNMENT_VALUE_LEN"
| "value_limit Target_LogAbstract = MAX_ASSIGNMENT_VALUE_LEN"
| "value_limit Target_Verbose = MAX_ASSIGNMENT_VALUE_LEN"
| "value_limit Target_Durability = MAX_ASSIGNMENT_VALUE_LEN"
| "value_limit Target_LockMethod = MAX_ASSIGNMENT_VALUE_LEN"
| "value_limit Target_LockFile = MAX_PATH_EXPRESSION_LEN"
| "value_limit Target_LockExt = MAX_PATH_EXPRESSION_LEN"
| "value_limit Target_LockSleep = MAX_ASSIGNMENT_VALUE_LEN"
| "value_limit Target_LockTimeout = MAX_ASSIGNMENT_VALUE_LEN"
| "value_limit Target_LineBuf = MAX_ASSIGNMENT_VALUE_LEN"
| "value_limit Target_ProcessTimeout = MAX_ASSIGNMENT_VALUE_LEN"
| "value_limit Target_Umask = MAX_ASSIGNMENT_VALUE_LEN"
| "value_limit Target_Trap = MAX_ASSIGNMENT_VALUE_LEN"
| "value_limit Target_Shell = MAX_SHELL_SETTING_LEN"
| "value_limit Target_ShellFlags = MAX_SHELL_SETTING_LEN"
| "value_limit Target_Path = MAX_SHELL_SETTING_LEN"
| "value_limit Target_ExitCode = MAX_ASSIGNMENT_VALUE_LEN"
| "value_limit Target_Host = MAX_ASSIGNMENT_VALUE_LEN"
| "value_limit Target_Shift = MAX_ASSIGNMENT_VALUE_LEN"
| "value_limit (Target_MessageLimit v) = MAX_ASSIGNMENT_VALUE_LEN"
| "value_limit (Target_RcLimit v) = MAX_ASSIGNMENT_VALUE_LEN"
| "value_limit Target_User = MAX_ASSIGNMENT_VALUE_LEN"

fun value_validator :: "assignment_target \<Rightarrow> assignment_value_validator" where
  "value_validator Target_Maildir = Validate_None"
| "value_validator Target_LogFile = Validate_None"
| "value_validator Target_Log = Validate_Log"
| "value_validator Target_LogDetail = Validate_None"
| "value_validator Target_LogAbstract = Validate_LogAbstract"
| "value_validator Target_Verbose = Validate_None"
| "value_validator Target_Durability = Validate_None"
| "value_validator Target_LockMethod = Validate_LockMethod"
| "value_validator Target_LockFile = Validate_None"
| "value_validator Target_LockExt = Validate_LockExt"
| "value_validator Target_LockSleep = Validate_LockSleep"
| "value_validator Target_LockTimeout = Validate_LockTimeout"
| "value_validator Target_LineBuf = Validate_None"
| "value_validator Target_ProcessTimeout = Validate_ProcessTimeout"
| "value_validator Target_Umask = Validate_Umask"
| "value_validator Target_Trap = Validate_Trap"
| "value_validator Target_Shell = Validate_None"
| "value_validator Target_ShellFlags = Validate_None"
| "value_validator Target_Path = Validate_None"
| "value_validator Target_ExitCode = Validate_None"
| "value_validator Target_Host = Validate_None"
| "value_validator Target_Shift = Validate_Shift"
| "value_validator (Target_MessageLimit v) = Validate_None"
| "value_validator (Target_RcLimit v) = Validate_None"
| "value_validator Target_User = Validate_None"

definition validate_known_value :: "assignment_target \<Rightarrow> bytes \<Rightarrow> setting_error + unit" where
  "validate_known_value target value =
     (case value_validator target of
        Validate_LockMethod \<Rightarrow> Inr ()
      | Validate_LockSleep \<Rightarrow> Inr ()
      | Validate_LockTimeout \<Rightarrow> Inr ()
      | validator \<Rightarrow> validate validator value)"

definition validate_resolved_value :: "assignment_target \<Rightarrow> bytes \<Rightarrow> setting_error + unit" where
  "validate_resolved_value target value = validate (value_validator target) value"

fun target_path :: "assignment_target \<Rightarrow> assignment_path option" where
  "target_path Target_Maildir = Some Path_Maildir"
| "target_path Target_LogFile = Some Path_LogFile"
| "target_path Target_Log = None"
| "target_path Target_LogDetail = None"
| "target_path Target_LogAbstract = None"
| "target_path Target_Verbose = None"
| "target_path Target_Durability = None"
| "target_path Target_LockMethod = None"
| "target_path Target_LockFile = Some Path_LockFile"
| "target_path Target_LockExt = None"
| "target_path Target_LockSleep = None"
| "target_path Target_LockTimeout = None"
| "target_path Target_LineBuf = None"
| "target_path Target_ProcessTimeout = None"
| "target_path Target_Umask = None"
| "target_path Target_Trap = None"
| "target_path Target_Shell = None"
| "target_path Target_ShellFlags = None"
| "target_path Target_Path = None"
| "target_path Target_ExitCode = None"
| "target_path Target_Host = None"
| "target_path Target_Shift = None"
| "target_path (Target_MessageLimit v) = None"
| "target_path (Target_RcLimit v) = None"
| "target_path Target_User = None"

fun supports_conditional_assignment :: "assignment_target \<Rightarrow> bool" where
  "supports_conditional_assignment Target_Maildir = True"
| "supports_conditional_assignment Target_LogFile = False"
| "supports_conditional_assignment Target_Log = True"
| "supports_conditional_assignment Target_LogDetail = False"
| "supports_conditional_assignment Target_LogAbstract = True"
| "supports_conditional_assignment Target_Verbose = False"
| "supports_conditional_assignment Target_Durability = False"
| "supports_conditional_assignment Target_LockMethod = True"
| "supports_conditional_assignment Target_LockFile = True"
| "supports_conditional_assignment Target_LockExt = True"
| "supports_conditional_assignment Target_LockSleep = True"
| "supports_conditional_assignment Target_LockTimeout = True"
| "supports_conditional_assignment Target_LineBuf = True"
| "supports_conditional_assignment Target_ProcessTimeout = True"
| "supports_conditional_assignment Target_Umask = True"
| "supports_conditional_assignment Target_Trap = True"
| "supports_conditional_assignment Target_Shell = True"
| "supports_conditional_assignment Target_ShellFlags = True"
| "supports_conditional_assignment Target_Path = True"
| "supports_conditional_assignment Target_ExitCode = True"
| "supports_conditional_assignment Target_Host = True"
| "supports_conditional_assignment Target_Shift = True"
| "supports_conditional_assignment (Target_MessageLimit v) = False"
| "supports_conditional_assignment (Target_RcLimit v) = False"
| "supports_conditional_assignment Target_User = True"

fun controls_rc_parsing :: "assignment_target \<Rightarrow> bool" where
  "controls_rc_parsing Target_Maildir = False"
| "controls_rc_parsing Target_LogFile = False"
| "controls_rc_parsing Target_Log = False"
| "controls_rc_parsing Target_LogDetail = False"
| "controls_rc_parsing Target_LogAbstract = False"
| "controls_rc_parsing Target_Verbose = False"
| "controls_rc_parsing Target_Durability = False"
| "controls_rc_parsing Target_LockMethod = False"
| "controls_rc_parsing Target_LockFile = False"
| "controls_rc_parsing Target_LockExt = False"
| "controls_rc_parsing Target_LockSleep = False"
| "controls_rc_parsing Target_LockTimeout = False"
| "controls_rc_parsing Target_LineBuf = True"
| "controls_rc_parsing Target_ProcessTimeout = False"
| "controls_rc_parsing Target_Umask = False"
| "controls_rc_parsing Target_Trap = False"
| "controls_rc_parsing Target_Shell = False"
| "controls_rc_parsing Target_ShellFlags = False"
| "controls_rc_parsing Target_Path = False"
| "controls_rc_parsing Target_ExitCode = False"
| "controls_rc_parsing Target_Host = False"
| "controls_rc_parsing Target_Shift = False"
| "controls_rc_parsing (Target_MessageLimit v) = False"
| "controls_rc_parsing (Target_RcLimit v) = True"
| "controls_rc_parsing Target_User = False"

fun allowed_in_runtime_rc :: "assignment_target \<Rightarrow> bool" where
  "allowed_in_runtime_rc Target_Maildir = True"
| "allowed_in_runtime_rc Target_LogFile = False"
| "allowed_in_runtime_rc Target_Log = True"
| "allowed_in_runtime_rc Target_LogDetail = False"
| "allowed_in_runtime_rc Target_LogAbstract = True"
| "allowed_in_runtime_rc Target_Verbose = False"
| "allowed_in_runtime_rc Target_Durability = False"
| "allowed_in_runtime_rc Target_LockMethod = True"
| "allowed_in_runtime_rc Target_LockFile = True"
| "allowed_in_runtime_rc Target_LockExt = False"
| "allowed_in_runtime_rc Target_LockSleep = True"
| "allowed_in_runtime_rc Target_LockTimeout = True"
| "allowed_in_runtime_rc Target_LineBuf = True"
| "allowed_in_runtime_rc Target_ProcessTimeout = True"
| "allowed_in_runtime_rc Target_Umask = True"
| "allowed_in_runtime_rc Target_Trap = True"
| "allowed_in_runtime_rc Target_Shell = True"
| "allowed_in_runtime_rc Target_ShellFlags = True"
| "allowed_in_runtime_rc Target_Path = True"
| "allowed_in_runtime_rc Target_ExitCode = False"
| "allowed_in_runtime_rc Target_Host = True"
| "allowed_in_runtime_rc Target_Shift = True"
| "allowed_in_runtime_rc (Target_MessageLimit v) = False"
| "allowed_in_runtime_rc (Target_RcLimit v) = True"
| "allowed_in_runtime_rc Target_User = True"

fun uses_path_error_label :: "assignment_target \<Rightarrow> bool" where
  "uses_path_error_label Target_Maildir = True"
| "uses_path_error_label Target_LogFile = True"
| "uses_path_error_label Target_Log = False"
| "uses_path_error_label Target_LogDetail = False"
| "uses_path_error_label Target_LogAbstract = False"
| "uses_path_error_label Target_Verbose = False"
| "uses_path_error_label Target_Durability = False"
| "uses_path_error_label Target_LockMethod = False"
| "uses_path_error_label Target_LockFile = False"
| "uses_path_error_label Target_LockExt = False"
| "uses_path_error_label Target_LockSleep = False"
| "uses_path_error_label Target_LockTimeout = False"
| "uses_path_error_label Target_LineBuf = False"
| "uses_path_error_label Target_ProcessTimeout = False"
| "uses_path_error_label Target_Umask = False"
| "uses_path_error_label Target_Trap = False"
| "uses_path_error_label Target_Shell = False"
| "uses_path_error_label Target_ShellFlags = False"
| "uses_path_error_label Target_Path = False"
| "uses_path_error_label Target_ExitCode = False"
| "uses_path_error_label Target_Host = False"
| "uses_path_error_label Target_Shift = False"
| "uses_path_error_label (Target_MessageLimit v) = False"
| "uses_path_error_label (Target_RcLimit v) = False"
| "uses_path_error_label Target_User = False"

section \<open>Who may set a variable\<close>

datatype variable_source =
    Source_RcFile
  | Source_CommandLine
  | Source_Environment
  | Source_System
  | Source_Runtime

datatype variable_policy =
    RcOnly assignment_target
  | RcOrCommandLine assignment_target
  | RuntimeOnly
  | ReadOnly
  | Unsupported

definition UNSUPPORTED_PROCMAIL_VARIABLES :: "bytes list" where
  "UNSUPPORTED_PROCMAIL_VARIABLES =
    [ascii ''DEFAULT'', ascii ''ORGMAIL'', ascii ''COMSAT'', ascii ''DELIVERED'',
     ascii ''DROPPRIVS'', ascii ''MSGPREFIX'', ascii ''NORESRETRY'', ascii ''PROCMAIL_OVERFLOW'',
     ascii ''SHELLMETAS'', ascii ''SUSPEND'', ascii ''SENDMAIL'', ascii ''SENDMAILFLAGS'',
     ascii ''LIMIT_RC_SIZE'']"

definition is_match_capture_name :: "bytes \<Rightarrow> bool" where
  "is_match_capture_name name \<longleftrightarrow>
     starts_with name (ascii ''MATCH'') \<and> drop 5 name \<noteq> [] \<and>
     list_all is_ascii_digit (drop 5 name)"

definition variable_policy_of :: "bytes \<Rightarrow> variable_policy" where
  "variable_policy_of name =
     (if name = ascii ''MAILDIR'' then RcOnly Target_Maildir
      else if name = ascii ''LOGFILE'' then RcOnly Target_LogFile
      else if name = ascii ''LOG'' then RcOnly Target_Log
      else if name = ascii ''LOGDETAIL'' then RcOnly Target_LogDetail
      else if name = ascii ''LOGABSTRACT'' then RcOnly Target_LogAbstract
      else if name = ascii ''VERBOSE'' then RcOnly Target_Verbose
      else if name = ascii ''DURABILITY'' then RcOnly Target_Durability
      else if name = ascii ''LOCKMETHOD'' then RcOnly Target_LockMethod
      else if name = ascii ''LOCKFILE'' then RcOnly Target_LockFile
      else if name = ascii ''LOCKEXT'' then RcOnly Target_LockExt
      else if name = ascii ''LOCKSLEEP'' then RcOnly Target_LockSleep
      else if name = ascii ''LOCKTIMEOUT'' then RcOnly Target_LockTimeout
      else if name = ascii ''LINEBUF'' then RcOnly Target_LineBuf
      else if name = ascii ''TIMEOUT'' then RcOnly Target_ProcessTimeout
      else if name = ascii ''UMASK'' then RcOnly Target_Umask
      else if name = ascii ''TRAP'' then RcOnly Target_Trap
      else if name = ascii ''SHELL'' then RcOrCommandLine Target_Shell
      else if name = ascii ''SHELLFLAGS'' then RcOrCommandLine Target_ShellFlags
      else if name = ascii ''PATH'' then RcOrCommandLine Target_Path
      else if name = ascii ''EXITCODE'' then RcOnly Target_ExitCode
      else if name = ascii ''HOST'' then RcOnly Target_Host
      else if name = ascii ''SHIFT'' then RcOnly Target_Shift
      else if name = ascii ''PROCMAIL_VERSION'' then ReadOnly
      else if name \<in> {ascii ''$'', ascii ''?'', ascii ''_'', ascii ''-'', ascii ''LASTFOLDER'', ascii ''MATCH''}
        then RuntimeOnly
      else if is_match_capture_name name then RuntimeOnly
      else if name = ascii ''LIMIT_MSG_SIZE'' then RcOnly (Target_MessageLimit Limit_MessageSize)
      else if name = ascii ''LIMIT_MSG_HEADERS'' then RcOnly (Target_MessageLimit Limit_HeadersSize)
      else if name = ascii ''LIMIT_MSG_BODY'' then RcOnly (Target_MessageLimit Limit_BodySize)
      else if name = ascii ''LIMIT_HEADER_LINE'' then RcOnly (Target_MessageLimit Limit_HeaderLineSize)
      else if name = ascii ''LIMIT_HEADER_FIELD'' then RcOnly (Target_MessageLimit Limit_HeaderFieldSize)
      else if name = ascii ''LIMIT_MAX_ASSIGNMENTS'' then RcOnly (Target_RcLimit Rc_Assignments)
      else if name = ascii ''LIMIT_RC_STATEMENTS'' then RcOnly (Target_RcLimit Rc_Statements)
      else if name = ascii ''LIMIT_RC_RECIPES'' then RcOnly (Target_RcLimit Rc_Recipes)
      else if name = ascii ''LIMIT_RC_CONDITIONS'' then RcOnly (Target_RcLimit Rc_Conditions)
      else if name = ascii ''LIMIT_RC_REGEXES'' then RcOnly (Target_RcLimit Rc_Regexes)
      else if name = ascii ''LIMIT_RECIPE_CONDITIONS'' then RcOnly (Target_RcLimit Rc_ConditionsPerRecipe)
      else if name = ascii ''LIMIT_RECIPE_NESTING'' then RcOnly (Target_RcLimit Rc_NestingDepth)
      else if name \<in> set UNSUPPORTED_PROCMAIL_VARIABLES then Unsupported
      else RcOrCommandLine Target_User)"

fun allows :: "variable_policy \<Rightarrow> variable_source \<Rightarrow> bool" where
  "allows (RcOnly _) Source_RcFile = True"
| "allows (RcOrCommandLine _) Source_RcFile = True"
| "allows (RcOrCommandLine _) Source_CommandLine = True"
| "allows RuntimeOnly Source_Runtime = True"
| "allows ReadOnly Source_System = True"
| "allows _ _ = False"

fun policy_assignment_target :: "variable_policy \<Rightarrow> variable_source \<Rightarrow> assignment_target option" where
  "policy_assignment_target (RcOnly target) Source_RcFile = Some target"
| "policy_assignment_target (RcOrCommandLine target) Source_RcFile = Some target"
| "policy_assignment_target (RcOrCommandLine target) Source_CommandLine = Some target"
| "policy_assignment_target _ _ = None"

section \<open>Supplied variables\<close>

record supplied_variable =
  sv_name :: bytes
  sv_value :: bytes
  sv_source :: variable_source

datatype supplied_variable_error =
    MissingEquals
  | NameTooLong
  | ValueTooLong
  | InvalidName
  | UnsupportedVariable
  | NotSettable
  | TargetValueTooLong usize
  | NotAdmitted
  | EnvironmentTooLong
  | HostnameOutOfRange
  | VersionOutOfRange
  | MissingTargetPanic

definition valid_name :: "bytes \<Rightarrow> bool" where
  "valid_name name \<longleftrightarrow>
     (case name of
        [] \<Rightarrow> False
      | b # bs \<Rightarrow> (b = 95 \<or> is_ascii_alphabetic b) \<and>
                  list_all (\<lambda>b. b = 95 \<or> is_ascii_alphanumeric b) bs)"

definition split_once :: "byte \<Rightarrow> bytes \<Rightarrow> (bytes \<times> bytes) option" where
  "split_once c s = map_option (\<lambda>i. (take i s, drop (Suc i) s)) (position (\<lambda>b. b = c) s)"

text \<open>The \<open>expect\<close> of the source is the branch \<open>MissingTargetPanic\<close>.\<close>

definition parse_supplied :: "bytes \<Rightarrow> supplied_variable_error + supplied_variable" where
  "parse_supplied input =
     (case split_once 61 input of
        None \<Rightarrow> Inl MissingEquals
      | Some (name, value) \<Rightarrow>
          if length name > MAX_ASSIGNMENT_NAME_LEN then Inl NameTooLong
          else if length value > MAX_ASSIGNMENT_VALUE_LEN then Inl ValueTooLong
          else if \<not> valid_name name then Inl InvalidName
          else let policy = variable_policy_of name in
            if policy = Unsupported then Inl UnsupportedVariable
            else if \<not> allows policy Source_CommandLine then Inl NotSettable
            else case policy_assignment_target policy Source_CommandLine of
                   None \<Rightarrow> Inl MissingTargetPanic
                 | Some target \<Rightarrow>
                     if length value > value_limit target
                     then Inl (TargetValueTooLong (value_limit target))
                     else Inr \<lparr>sv_name = name, sv_value = value, sv_source = Source_CommandLine\<rparr>)"

definition supplied_from_environment :: "bytes \<Rightarrow> bytes \<Rightarrow> supplied_variable_error + supplied_variable" where
  "supplied_from_environment name value =
     (if name \<notin> {ascii ''HOME'', ascii ''LOGNAME''} then Inl NotAdmitted
      else if length value > MAX_ASSIGNMENT_VALUE_LEN then Inl EnvironmentTooLong
      else Inr \<lparr>sv_name = name, sv_value = value, sv_source = Source_Environment\<rparr>)"

definition supplied_from_system_hostname :: "bytes \<Rightarrow> supplied_variable_error + supplied_variable" where
  "supplied_from_system_hostname value =
     (if value = [] \<or> length value > MAX_HOSTNAME_LEN then Inl HostnameOutOfRange
      else Inr \<lparr>sv_name = ascii ''HOST'', sv_value = value, sv_source = Source_System\<rparr>)"

definition supplied_from_program_version :: "bytes \<Rightarrow> supplied_variable_error + supplied_variable" where
  "supplied_from_program_version value =
     (if value = [] \<or> length value > MAX_ASSIGNMENT_VALUE_LEN then Inl VersionOutOfRange
      else Inr \<lparr>sv_name = ascii ''PROCMAIL_VERSION'', sv_value = value, sv_source = Source_System\<rparr>)"

section \<open>Properties\<close>

definition pa_invar :: "positional_arguments \<Rightarrow> bool" where
  "pa_invar a \<longleftrightarrow>
     pa_bytes a = sum_list (map length (pa_values a)) \<and>
     length (pa_values a) \<le> MAX_POSITIONAL_ARGUMENTS \<and>
     pa_bytes a \<le> MAX_POSITIONAL_ARGUMENT_BYTES \<and>
     (\<forall>v \<in> set (pa_values a). length v \<le> MAX_POSITIONAL_ARGUMENT_LEN)"

lemma pa_invar_empty [simp]: "pa_invar no_arguments"
  by (simp add: pa_invar_def no_arguments_def rc_bounds)

lemma push_argument_invar: "pa_invar a \<Longrightarrow> push_argument a v = Inr a' \<Longrightarrow> pa_invar a'"
  by (auto simp: push_argument_def pa_invar_def checked_add_Some split: if_splits option.splits)

lemma shift_loop_eq:
  "amount \<le> MAX_POSITIONAL_ARGUMENTS \<Longrightarrow>
   shift_loop amount ds = min (digits_value 10 amount ds) MAX_POSITIONAL_ARGUMENTS"
proof (induction ds arbitrary: amount)
  case Nil
  then show ?case by simp
next
  case (Cons d ds)
  have mono: "digits_value 10 a xs \<le> digits_value 10 b xs" if "a \<le> b" for a b xs
    using that by (induction xs arbitrary: a b) auto
  have grow: "a \<le> digits_value 10 a xs" for a xs
  proof (induction xs arbitrary: a)
    case (Cons x xs)
    show ?case using Cons [of "a * 10 + unat (x - 48)"] by (simp add: trans_le_add1 order_trans)
  qed simp
  let ?n = "amount * 10 + unat (d - 48)"
  have "unat (d - 48) < 256" by (rule unat_byte)
  then have small: "?n \<le> usize_max" "amount * 10 \<le> usize_max"
    using Cons.prems by (auto simp: usize_max_def MAX_POSITIONAL_ARGUMENTS_def)
  have "shift_loop amount (d # ds) = shift_loop (min ?n MAX_POSITIONAL_ARGUMENTS) ds"
    using small by (simp add: usize_defs min_def)
  also have "\<dots> = min (digits_value 10 (min ?n MAX_POSITIONAL_ARGUMENTS) ds) MAX_POSITIONAL_ARGUMENTS"
    by (rule Cons.IH) simp
  also have "\<dots> = min (digits_value 10 ?n ds) MAX_POSITIONAL_ARGUMENTS"
    using mono [of MAX_POSITIONAL_ARGUMENTS ?n ds] grow [of MAX_POSITIONAL_ARGUMENTS ds]
    by (cases "?n \<le> MAX_POSITIONAL_ARGUMENTS") (auto simp: min_def)
  finally show ?case by simp
qed

text \<open>
  The saturating digit loop of \<open>SHIFT\<close> returns the decimal value of its digits, clamped
  to the largest number of positional parameters, however long the digit string is; zero and
  non-digits are refused.
\<close>

theorem parse_shift_value:
  "parse_shift value = Inr n \<longleftrightarrow>
     value \<noteq> [] \<and> list_all is_ascii_digit value \<and> 0 < digits_value 10 0 value \<and>
     n = min (digits_value 10 0 value) MAX_POSITIONAL_ARGUMENTS"
  by (auto simp: parse_shift_def shift_loop_eq Let_def MAX_POSITIONAL_ARGUMENTS_def)

text \<open>
  Every variable accepted from the command line has a name of the documented shape, is
  one the command line may set, and its value fits the limit of its target; the lookup of
  that target never fails, so the \<open>expect\<close> of the source is unreachable.
\<close>

theorem parse_supplied_sound:
  "parse_supplied input \<noteq> Inl MissingTargetPanic \<and>
   (\<forall>v. parse_supplied input = Inr v \<longrightarrow>
      input = sv_name v @ 61 # sv_value v \<and> valid_name (sv_name v) \<and>
      length (sv_name v) \<le> MAX_ASSIGNMENT_NAME_LEN \<and>
      (\<exists>target. variable_policy_of (sv_name v) = RcOrCommandLine target \<and>
                length (sv_value v) \<le> value_limit target))"
proof -
  have cl: "allows p Source_CommandLine \<longleftrightarrow> (\<exists>t. p = RcOrCommandLine t)" for p
    by (cases p) auto
  have split: "split_once 61 input = Some (a, b) \<Longrightarrow> input = a @ 61 # b" for a b
    using position_split [of 61 input] by (auto simp: split_once_def)
  show ?thesis
    by (auto simp: parse_supplied_def Let_def cl dest!: split split: option.splits if_splits)
qed

lemma parse_supplied_example:
  "parse_supplied (ascii ''A=x'') =
     Inr \<lparr>sv_name = ascii ''A'', sv_value = ascii ''x'', sv_source = Source_CommandLine\<rparr>"
  by (simp add: parse_supplied_def split_once_def valid_name_def variable_policy_of_def
      is_match_capture_name_def UNSUPPORTED_PROCMAIL_VARIABLES_def byte_defs rc_bounds)

theorem parse_supplied_sound_witness:
  "parse_supplied (ascii ''A=x'') \<noteq> Inl MissingTargetPanic \<and>
   parse_supplied (ascii ''A=x'') =
     Inr \<lparr>sv_name = ascii ''A'', sv_value = ascii ''x'', sv_source = Source_CommandLine\<rparr> \<and>
   valid_name (ascii ''A'')"
  using parse_supplied_sound [of "ascii ''A=x''"] parse_supplied_example by simp

end
