(* ===== verification/Rc_Config.thy ===== *)
theory Rc_Config
  imports Rc_Variables
begin

text \<open>
  The configuration data of \<open>src/config/mod.rs\<close>: the shell-expression tree, header
  operations, conditions, recipes and statements, the message status flags, the rc parsing
  limits, and the operations the module defines on them.  A compiled regular expression is
  a value of the external \<open>regex\<close> crate and is represented by its pattern text and the
  capture indexes computed for it.
\<close>

section \<open>Shell expressions\<close>

datatype case_direction = Upper | Lower

datatype shell_part =
    Literal bytes
  | Variable bytes parameter_operation
  | RegexQuotedVariable bytes
  | Command bytes
  | PatternQuote "shell_part list"
and parameter_operation =
    Value
  | DefaultIfUnset "shell_part list"
  | DefaultIfUnsetOrEmpty "shell_part list"
  | AlternateIfSet "shell_part list"
  | AlternateIfSetAndNotEmpty "shell_part list"
  | AssignIfUnsetOrEmpty "shell_part list"
  | ErrorIfUnsetOrEmpty "shell_part list"
  | Length
  | RemovePrefix "shell_part list" bool
  | RemoveSuffix "shell_part list" bool
  | ChangeCase "shell_part list" case_direction bool

type_synonym shell_expression = "shell_part list"

fun op_word :: "parameter_operation \<Rightarrow> shell_expression option" where
  "op_word Value = None"
| "op_word Length = None"
| "op_word (DefaultIfUnset w) = Some w"
| "op_word (DefaultIfUnsetOrEmpty w) = Some w"
| "op_word (AlternateIfSet w) = Some w"
| "op_word (AlternateIfSetAndNotEmpty w) = Some w"
| "op_word (AssignIfUnsetOrEmpty w) = Some w"
| "op_word (ErrorIfUnsetOrEmpty w) = None"
| "op_word (RemovePrefix p longest) = Some p"
| "op_word (RemoveSuffix p longest) = Some p"
| "op_word (ChangeCase p d all) = Some p"

lemma size_op_word: "op_word opn = Some w \<Longrightarrow> size_list size w < size opn"
  by (cases opn) auto

function (sequential) has_commands :: "shell_expression \<Rightarrow> bool" where
  "has_commands [] = False"
| "has_commands (Command c # ps) = True"
| "has_commands (PatternQuote e # ps) = (has_commands e \<or> has_commands ps)"
| "has_commands (Variable n opn # ps) =
     ((case op_word opn of None \<Rightarrow> False | Some w \<Rightarrow> has_commands w) \<or> has_commands ps)"
| "has_commands (Literal t # ps) = has_commands ps"
| "has_commands (RegexQuotedVariable n # ps) = has_commands ps"
  by pat_completeness auto
termination
  by (relation "measure (size_list size)") (auto dest: size_op_word)

function (sequential) has_assignments :: "shell_expression \<Rightarrow> bool" where
  "has_assignments [] = False"
| "has_assignments (Variable n opn # ps) =
     ((case opn of AssignIfUnsetOrEmpty _ \<Rightarrow> True | _ \<Rightarrow> False) \<or>
      (case op_word opn of None \<Rightarrow> False | Some w \<Rightarrow> has_assignments w) \<or> has_assignments ps)"
| "has_assignments (PatternQuote e # ps) = (has_assignments e \<or> has_assignments ps)"
| "has_assignments (Literal t # ps) = has_assignments ps"
| "has_assignments (RegexQuotedVariable n # ps) = has_assignments ps"
| "has_assignments (Command c # ps) = has_assignments ps"
  by pat_completeness auto
termination
  by (relation "measure (size_list size)") (auto dest: size_op_word)

definition requires_ordered_evaluation :: "shell_expression \<Rightarrow> bool" where
  "requires_ordered_evaluation e \<longleftrightarrow> has_commands e \<or> has_assignments e"

text \<open>\<open>for_each_assignment\<close> calls its visitor once per name; the model is the list of calls.\<close>

function (sequential) for_each_assignment :: "shell_expression \<Rightarrow> bytes list" where
  "for_each_assignment [] = []"
| "for_each_assignment (Variable n opn # ps) =
     (case opn of AssignIfUnsetOrEmpty _ \<Rightarrow> [n] | _ \<Rightarrow> []) @
     (case op_word opn of None \<Rightarrow> [] | Some w \<Rightarrow> for_each_assignment w) @ for_each_assignment ps"
| "for_each_assignment (PatternQuote e # ps) = for_each_assignment e @ for_each_assignment ps"
| "for_each_assignment (Literal t # ps) = for_each_assignment ps"
| "for_each_assignment (RegexQuotedVariable n # ps) = for_each_assignment ps"
| "for_each_assignment (Command c # ps) = for_each_assignment ps"
  by pat_completeness auto
termination
  by (relation "measure (size_list size)") (auto dest: size_op_word)

fun literal_text :: "shell_expression \<Rightarrow> bytes option" where
  "literal_text [] = Some []"
| "literal_text (Literal t # ps) = map_option ((@) t) (literal_text ps)"
| "literal_text _ = None"

fun selected_word :: "parameter_operation \<Rightarrow> bool \<Rightarrow> bool \<Rightarrow> shell_expression option" where
  "selected_word (DefaultIfUnset w) is_set is_empty = (if \<not> is_set then Some w else None)"
| "selected_word (DefaultIfUnsetOrEmpty w) is_set is_empty =
     (if \<not> is_set \<or> is_empty then Some w else None)"
| "selected_word (AlternateIfSet w) is_set is_empty = (if is_set then Some w else None)"
| "selected_word (AlternateIfSetAndNotEmpty w) is_set is_empty =
     (if is_set \<and> \<not> is_empty then Some w else None)"
| "selected_word (AssignIfUnsetOrEmpty w) is_set is_empty =
     (if \<not> is_set \<or> is_empty then Some w else None)"
| "selected_word _ is_set is_empty = None"

definition selects_word :: "parameter_operation \<Rightarrow> bool \<Rightarrow> bool \<Rightarrow> bool" where
  "selects_word opn is_set is_empty \<longleftrightarrow> selected_word opn is_set is_empty \<noteq> None"

fun is_value_transform :: "parameter_operation \<Rightarrow> bool" where
  "is_value_transform Length = True"
| "is_value_transform (RemovePrefix _ _) = True"
| "is_value_transform (RemoveSuffix _ _) = True"
| "is_value_transform (ChangeCase _ _ _) = True"
| "is_value_transform _ = False"

fun requires_value :: "parameter_operation \<Rightarrow> bool" where
  "requires_value Value = True"
| "requires_value Length = True"
| "requires_value (RemovePrefix _ _) = True"
| "requires_value (RemoveSuffix _ _) = True"
| "requires_value (ChangeCase _ _ _) = True"
| "requires_value _ = False"

fun evaluates_word :: "parameter_operation \<Rightarrow> bool \<Rightarrow> bool \<Rightarrow> bool" where
  "evaluates_word (RemovePrefix _ _) is_set is_empty = is_set"
| "evaluates_word (RemoveSuffix _ _) is_set is_empty = is_set"
| "evaluates_word (ChangeCase _ _ _) is_set is_empty = is_set"
| "evaluates_word opn is_set is_empty = selects_word opn is_set is_empty"

fun uses_value_when_word_is_not_selected :: "parameter_operation \<Rightarrow> bool" where
  "uses_value_when_word_is_not_selected Value = True"
| "uses_value_when_word_is_not_selected (DefaultIfUnset _) = True"
| "uses_value_when_word_is_not_selected (DefaultIfUnsetOrEmpty _) = True"
| "uses_value_when_word_is_not_selected (ErrorIfUnsetOrEmpty _) = True"
| "uses_value_when_word_is_not_selected Length = True"
| "uses_value_when_word_is_not_selected (RemovePrefix _ _) = True"
| "uses_value_when_word_is_not_selected (RemoveSuffix _ _) = True"
| "uses_value_when_word_is_not_selected (ChangeCase _ _ _) = True"
| "uses_value_when_word_is_not_selected _ = False"

lemma has_assignments_iff_visits: "has_assignments e \<longleftrightarrow> for_each_assignment e \<noteq> []"
  by (induction e rule: has_assignments.induct)
    (auto split: option.splits parameter_operation.splits)

section \<open>Message status\<close>

record message_status =
  ms_read :: bool
  ms_flagged :: bool
  ms_replied :: bool

definition STATUS_NONE :: message_status where
  "STATUS_NONE = \<lparr>ms_read = False, ms_flagged = False, ms_replied = False\<rparr>"

definition status_is_empty :: "message_status \<Rightarrow> bool" where
  "status_is_empty s \<longleftrightarrow> \<not> ms_read s \<and> \<not> ms_flagged s \<and> \<not> ms_replied s"

definition status_add :: "message_status \<Rightarrow> message_status \<Rightarrow> message_status" where
  "status_add s x = \<lparr>ms_read = (ms_read s \<or> ms_read x), ms_flagged = (ms_flagged s \<or> ms_flagged x),
     ms_replied = (ms_replied s \<or> ms_replied x)\<rparr>"

definition status_remove :: "message_status \<Rightarrow> message_status \<Rightarrow> message_status" where
  "status_remove s x = \<lparr>ms_read = (if ms_read x then False else ms_read s),
     ms_flagged = (if ms_flagged x then False else ms_flagged s),
     ms_replied = (if ms_replied x then False else ms_replied s)\<rparr>"

definition status_header_value :: "message_status \<Rightarrow> bytes option" where
  "status_header_value s = (if ms_read s then Some (ascii ''RO'') else None)"

definition x_status_header_value :: "message_status \<Rightarrow> bytes option" where
  "x_status_header_value s =
     (case (ms_replied s, ms_flagged s) of
        (True, True) \<Rightarrow> Some (ascii ''AF'')
      | (True, False) \<Rightarrow> Some (ascii ''A'')
      | (False, True) \<Rightarrow> Some (ascii ''F'')
      | (False, False) \<Rightarrow> None)"

definition maildir_suffix :: "message_status \<Rightarrow> bytes" where
  "maildir_suffix s =
     (case (ms_flagged s, ms_replied s, ms_read s) of
        (False, False, False) \<Rightarrow> []
      | (True, False, False) \<Rightarrow> ascii '':2,F''
      | (False, True, False) \<Rightarrow> ascii '':2,R''
      | (False, False, True) \<Rightarrow> ascii '':2,S''
      | (True, True, False) \<Rightarrow> ascii '':2,FR''
      | (True, False, True) \<Rightarrow> ascii '':2,FS''
      | (False, True, True) \<Rightarrow> ascii '':2,RS''
      | (True, True, True) \<Rightarrow> ascii '':2,FRS'')"

datatype configured_status_error = StatusEmpty | StatusInvalidFlag

fun status_tokens :: "message_status \<Rightarrow> bool \<Rightarrow> bytes list \<Rightarrow> configured_status_error + message_status" where
  "status_tokens status found [] = (if \<not> found then Inl StatusEmpty else Inr status)"
| "status_tokens status found (t # ts) =
     (if t = ascii ''read'' then status_tokens (status\<lparr>ms_read := True\<rparr>) True ts
      else if t = ascii ''flagged'' then status_tokens (status\<lparr>ms_flagged := True\<rparr>) True ts
      else if t = ascii ''replied'' then status_tokens (status\<lparr>ms_replied := True\<rparr>) True ts
      else Inl StatusInvalidFlag)"

definition is_list_separator :: "byte \<Rightarrow> bool" where
  "is_list_separator b \<longleftrightarrow> b = SP \<or> b = TAB \<or> b = 44"

definition parse_configured_status :: "bytes \<Rightarrow> configured_status_error + message_status" where
  "parse_configured_status value =
     status_tokens STATUS_NONE False (filter (\<lambda>t. t \<noteq> []) (split_on is_list_separator value))"

section \<open>Header operations\<close>

record header_value =
  hv_source :: bytes
  hv_expansion :: "shell_expression option"

datatype header_extraction_mode = Raw | Unfolded | Decoded

datatype header_keywords_mode =
    KeywordsAdd header_value
  | KeywordsRemove header_value
  | KeywordsSet header_value
  | KeywordsClear

datatype header_status_mode =
    StatusAdd header_value
  | StatusRemove header_value
  | StatusSet header_value
  | StatusClear

datatype header_priority_mode = PriorityHigh | PriorityNormal | PriorityLow | PriorityClear

fun priority_fields :: "header_priority_mode \<Rightarrow> (bytes \<times> bytes) list option" where
  "priority_fields PriorityHigh = Some
     [(ascii ''Importance'', ascii ''high''), (ascii ''Priority'', ascii ''urgent''),
      (ascii ''X-Priority'', ascii ''1'')]"
| "priority_fields PriorityNormal = Some
     [(ascii ''Importance'', ascii ''normal''), (ascii ''Priority'', ascii ''normal''),
      (ascii ''X-Priority'', ascii ''3'')]"
| "priority_fields PriorityLow = Some
     [(ascii ''Importance'', ascii ''low''), (ascii ''Priority'', ascii ''non-urgent''),
      (ascii ''X-Priority'', ascii ''5'')]"
| "priority_fields PriorityClear = None"

datatype header_operation =
    Op_Remove usize bytes
  | Op_Set usize bytes header_value
  | Op_Add usize bytes header_value
  | Op_Prepend usize bytes header_value
  | Op_Rename usize bytes bytes
  | Op_Extract usize bytes bytes header_extraction_mode
  | Op_Keywords usize header_keywords_mode
  | Op_Priority usize header_priority_mode
  | Op_Status usize header_status_mode

section \<open>Fields of structured conditions\<close>

datatype address_field =
    AF_From | AF_To | AF_Cc | AF_Sender | AF_ReplyTo | AF_DeliveredTo | AF_XOriginalTo
  | AF_EnvelopeTo | AF_ResentFrom | AF_ResentSender | AF_ResentTo | AF_ResentCc

fun address_field_name :: "address_field \<Rightarrow> bytes" where
  "address_field_name AF_From = ascii ''From''"
| "address_field_name AF_To = ascii ''To''"
| "address_field_name AF_Cc = ascii ''Cc''"
| "address_field_name AF_Sender = ascii ''Sender''"
| "address_field_name AF_ReplyTo = ascii ''Reply-To''"
| "address_field_name AF_DeliveredTo = ascii ''Delivered-To''"
| "address_field_name AF_XOriginalTo = ascii ''X-Original-To''"
| "address_field_name AF_EnvelopeTo = ascii ''Envelope-To''"
| "address_field_name AF_ResentFrom = ascii ''Resent-From''"
| "address_field_name AF_ResentSender = ascii ''Resent-Sender''"
| "address_field_name AF_ResentTo = ascii ''Resent-To''"
| "address_field_name AF_ResentCc = ascii ''Resent-Cc''"

datatype identifier_field = IF_ListId | IF_MessageId | IF_InReplyTo | IF_References

fun identifier_field_name :: "identifier_field \<Rightarrow> bytes" where
  "identifier_field_name IF_ListId = ascii ''List-Id''"
| "identifier_field_name IF_MessageId = ascii ''Message-Id''"
| "identifier_field_name IF_InReplyTo = ascii ''In-Reply-To''"
| "identifier_field_name IF_References = ascii ''References''"

datatype keyword_field = KF_Keywords | KF_XLabel | KF_XKeywords

fun keyword_field_name :: "keyword_field \<Rightarrow> bytes" where
  "keyword_field_name KF_Keywords = ascii ''Keywords''"
| "keyword_field_name KF_XLabel = ascii ''X-Label''"
| "keyword_field_name KF_XKeywords = ascii ''X-Keywords''"

definition KEYWORD_FIELDS_ALL :: "keyword_field list" where
  "KEYWORD_FIELDS_ALL = [KF_Keywords, KF_XLabel, KF_XKeywords]"

datatype multipart_field = MF_MimeType | MF_Disposition | MF_Filename

section \<open>Conditions, recipes and statements\<close>

text \<open>
  A compiled regular expression is an opaque handle: what it matches is decided by the regex engine,
  which is a parameter where conditions are matched.
\<close>

type_synonym regex_program = nat

record regex_condition =
  rx_pattern :: bytes
  rx_compiled :: regex_program
  rx_match_captures :: "usize list"
  rx_capture_indexes :: "usize list"

datatype condition_input = CI_Headers | CI_Body | CI_Message
datatype case_mode = Insensitive | Sensitive
datatype control_flow = Independent | AfterChainMatch | AfterPreviousSuccess | Else | AfterPreviousError
datatype action_input = AI_Message | AI_Headers | AI_Body
datatype action_mode = Mode_Deliver | Mode_Filter
datatype continuation_mode = Cont_Stop | Cont_Continue | Cont_BranchBlock
datatype child_status_mode = Child_Ignore | Child_Wait | Child_WaitQuietly
datatype write_error_mode = Write_Fail | Write_Ignore
datatype output_ending = Normalize | Preserve

record recipe_options =
  ro_condition_input :: condition_input
  ro_case_mode :: case_mode
  ro_control :: control_flow
  ro_action_input :: action_input
  ro_action_mode :: action_mode
  ro_continuation :: continuation_mode
  ro_child_status :: child_status_mode
  ro_write_errors :: write_error_mode
  ro_output_ending :: output_ending

record multipart_check =
  mc_field :: multipart_field
  mc_regex :: regex_condition

datatype condition_kind =
    CK_ShellExpanded bytes "shell_expression option"
  | CK_Regex regex_condition
  | CK_AreaRegex condition_input regex_condition
  | CK_VariableRegex bytes regex_condition
  | CK_AddressRegex "address_field list" regex_condition
  | CK_IdentifierRegex "identifier_field list" regex_condition
  | CK_KeywordRegex "keyword_field list" regex_condition
  | CK_Multipart "multipart_check list"
  | CK_Program bytes
  | CK_SmallerThan usize
  | CK_LargerThan usize

record condition =
  cd_line :: usize
  cd_negated :: bool
  cd_kind :: condition_kind

record path_expression =
  pe_source :: bytes
  pe_base :: "bytes option"
  pe_line :: usize
  pe_runtime_dependent :: bool
  pe_runtime_base :: bool
  pe_typed_destination :: bool
  pe_expansion :: "shell_expression option"

datatype destination =
    Mbox path_expression
  | Maildir path_expression
  | File path_expression
  | Discard path_expression

datatype destination_kind = Kind_Maildir | Kind_Mbox | Kind_File | Kind_Discard

fun destination_expression :: "destination \<Rightarrow> path_expression" where
  "destination_expression (Maildir e) = e"
| "destination_expression (Mbox e) = e"
| "destination_expression (File e) = e"
| "destination_expression (Discard e) = e"

fun destination_kind_of :: "destination \<Rightarrow> destination_kind" where
  "destination_kind_of (Maildir _) = Kind_Maildir"
| "destination_kind_of (Mbox _) = Kind_Mbox"
| "destination_kind_of (File _) = Kind_File"
| "destination_kind_of (Discard _) = Kind_Discard"

definition destination_requires_ordered_delivery :: "destination \<Rightarrow> bool" where
  "destination_requires_ordered_delivery d \<longleftrightarrow> destination_kind_of d \<in> {Kind_Mbox, Kind_File}"

definition supports_fanout_delivery :: "destination \<Rightarrow> bool" where
  "supports_fanout_delivery d \<longleftrightarrow> destination_kind_of d \<in> {Kind_Maildir, Kind_Discard}"

record capture_action =
  ca_line :: usize
  ca_name :: bytes
  ca_target :: assignment_target
  ca_command :: bytes

record assignment =
  as_line :: usize
  as_name :: bytes
  as_value :: bytes
  as_target :: assignment_target
  as_expansion :: "shell_expression option"

record unset =
  un_line :: usize
  un_name :: bytes
  un_target :: assignment_target

record command_assignment =
  cas_line :: usize
  cas_name :: bytes
  cas_source :: bytes
  cas_target :: assignment_target
  cas_expression :: shell_expression

record rc_file_expression =
  rf_line :: usize
  rf_value :: bytes
  rf_expansion :: "shell_expression option"

datatype statement =
    St_Assignment assignment
  | St_Unset unset
  | St_CommandAssignment command_assignment
  | St_Include rc_file_expression
  | St_Switch rc_file_expression
  | St_Recipe recipe
and recipe =
    Recipe (rc_line: usize) (rc_action_line: usize) (rc_options: recipe_options)
      (rc_lock: "path_expression option") (rc_conditions: "condition list")
      (rc_action: recipe_action)
and recipe_action =
    Act_Deliver destination
  | Act_Pipe bytes
  | Act_Capture capture_action
  | Act_Block "statement list"
  | Act_Headers "header_operation list"

section \<open>Configuration-wide settings\<close>

text \<open>\<open>umask_from_config\<close>: the last top-level assignment or unset decides.\<close>

definition DEFAULT_UMASK :: nat where "DEFAULT_UMASK = 63"

fun umask_loop :: "nat \<Rightarrow> statement list \<Rightarrow> (usize \<times> setting_error) + nat" where
  "umask_loop m0 [] = Inr m0"
| "umask_loop m0 (St_Assignment a # ss) =
     (if as_target a = Target_Umask then
        (case parse_umask (as_value a) of
           Inl e \<Rightarrow> Inl (as_line a, e)
         | Inr m \<Rightarrow> umask_loop m ss)
      else umask_loop m0 ss)"
| "umask_loop m0 (St_Unset u # ss) =
     (if un_target u = Target_Umask then umask_loop DEFAULT_UMASK ss else umask_loop m0 ss)"
| "umask_loop m0 (_ # ss) = umask_loop m0 ss"

definition umask_from_config :: "statement list \<Rightarrow> (usize \<times> setting_error) + nat" where
  "umask_from_config statements = umask_loop DEFAULT_UMASK statements"

fun maildir_loop :: "bytes option \<Rightarrow> statement list \<Rightarrow> bytes option" where
  "maildir_loop m [] = m"
| "maildir_loop m (St_Assignment a # ss) =
     maildir_loop (if as_target a = Target_Maildir then Some (as_value a) else m) ss"
| "maildir_loop m (St_Unset u # ss) =
     maildir_loop (if un_target u = Target_Maildir then None else m) ss"
| "maildir_loop m (_ # ss) = maildir_loop m ss"

definition config_maildir :: "statement list \<Rightarrow> bytes option" where
  "config_maildir statements = maildir_loop None statements"

text \<open>The reports of \<open>for_each_compatibility_warning\<close>, in the order it makes them.\<close>

fun compatibility_warnings :: "statement list \<Rightarrow> (usize \<times> byte) list" where
  "compatibility_warnings [] = []"
| "compatibility_warnings (St_Recipe (Recipe line aline opts lock conds (Act_Block children)) # ss) =
     (if ro_write_errors opts = Write_Ignore then [(line, 105)] else []) @
     (if ro_output_ending opts = Preserve then [(line, 114)] else []) @
     compatibility_warnings children @ compatibility_warnings ss"
| "compatibility_warnings (_ # ss) = compatibility_warnings ss"

section \<open>Limits on rc parsing\<close>

record rc_limits =
  rl_assignments :: usize
  rl_statements :: usize
  rl_recipes :: usize
  rl_conditions :: usize
  rl_regexes :: usize
  rl_conditions_per_recipe :: usize
  rl_nesting_depth :: usize
  rl_linebuf :: usize

definition rc_limits_default :: rc_limits where
  "rc_limits_default =
     \<lparr>rl_assignments = 4096, rl_statements = 4096, rl_recipes = 1024, rl_conditions = 4096,
      rl_regexes = 256, rl_conditions_per_recipe = 256, rl_nesting_depth = 64,
      rl_linebuf = 2048\<rparr>"

fun rc_hard_limit :: "rc_limit_variable \<Rightarrow> usize" where
  "rc_hard_limit Rc_Assignments = 65536"
| "rc_hard_limit Rc_Statements = 65536"
| "rc_hard_limit Rc_Recipes = 16384"
| "rc_hard_limit Rc_Conditions = 65536"
| "rc_hard_limit Rc_Regexes = 1024"
| "rc_hard_limit Rc_ConditionsPerRecipe = 4096"
| "rc_hard_limit Rc_NestingDepth = 256"

fun rc_slot :: "rc_limits \<Rightarrow> rc_limit_variable \<Rightarrow> usize" where
  "rc_slot l Rc_Assignments = rl_assignments l"
| "rc_slot l Rc_Statements = rl_statements l"
| "rc_slot l Rc_Recipes = rl_recipes l"
| "rc_slot l Rc_Conditions = rl_conditions l"
| "rc_slot l Rc_Regexes = rl_regexes l"
| "rc_slot l Rc_ConditionsPerRecipe = rl_conditions_per_recipe l"
| "rc_slot l Rc_NestingDepth = rl_nesting_depth l"

fun rc_store :: "rc_limits \<Rightarrow> rc_limit_variable \<Rightarrow> usize \<Rightarrow> rc_limits" where
  "rc_store l Rc_Assignments v = l\<lparr>rl_assignments := v\<rparr>"
| "rc_store l Rc_Statements v = l\<lparr>rl_statements := v\<rparr>"
| "rc_store l Rc_Recipes v = l\<lparr>rl_recipes := v\<rparr>"
| "rc_store l Rc_Conditions v = l\<lparr>rl_conditions := v\<rparr>"
| "rc_store l Rc_Regexes v = l\<lparr>rl_regexes := v\<rparr>"
| "rc_store l Rc_ConditionsPerRecipe v = l\<lparr>rl_conditions_per_recipe := v\<rparr>"
| "rc_store l Rc_NestingDepth v = l\<lparr>rl_nesting_depth := v\<rparr>"

definition rc_limits_set :: "rc_limits \<Rightarrow> rc_limit_variable \<Rightarrow> usize \<Rightarrow> usize + rc_limits" where
  "rc_limits_set l kind value =
     (if value > rc_hard_limit kind then Inl (rc_hard_limit kind) else Inr (rc_store l kind value))"

definition rc_limits_reset :: "rc_limits \<Rightarrow> rc_limit_variable \<Rightarrow> rc_limits" where
  "rc_limits_reset l kind = rc_store l kind (rc_slot rc_limits_default kind)"

section \<open>Properties\<close>

lemma status_add_remove:
  "status_remove (status_add s x) x = status_remove s x"
  by (simp add: status_add_def status_remove_def)

text \<open>
  A status written as a token list in any order and with any repetitions parses to the
  status whose flags are exactly the tokens named, and every other non-empty token is
  refused.
\<close>

theorem parse_configured_status_tokens:
  fixes v :: bytes
  defines "ts \<equiv> filter (\<lambda>t. t \<noteq> []) (split_on is_list_separator v)"
  shows "parse_configured_status v =
     (if ts = [] then Inl StatusEmpty
      else if set ts \<subseteq> {ascii ''read'', ascii ''flagged'', ascii ''replied''}
      then Inr \<lparr>ms_read = ascii ''read'' \<in> set ts, ms_flagged = ascii ''flagged'' \<in> set ts,
             ms_replied = ascii ''replied'' \<in> set ts\<rparr>
      else Inl StatusInvalidFlag)"
proof -
  have "status_tokens s found ts =
     (if ts = [] \<and> \<not> found then Inl StatusEmpty
      else if set ts \<subseteq> {ascii ''read'', ascii ''flagged'', ascii ''replied''}
      then Inr (status_add s \<lparr>ms_read = ascii ''read'' \<in> set ts,
              ms_flagged = ascii ''flagged'' \<in> set ts, ms_replied = ascii ''replied'' \<in> set ts\<rparr>)
      else Inl StatusInvalidFlag)" for s found
    by (induction ts arbitrary: s found) (auto simp: status_add_def)
  then show ?thesis
    by (auto simp: parse_configured_status_def ts_def status_add_def STATUS_NONE_def)
qed

definition rc_limits_ok :: "rc_limits \<Rightarrow> bool" where
  "rc_limits_ok l \<longleftrightarrow> (\<forall>kind. rc_slot l kind \<le> rc_hard_limit kind)"

lemma rc_slot_store: "rc_slot (rc_store l k v) k' = (if k = k' then v else rc_slot l k')"
  by (cases k; cases k') simp_all

lemma rc_limits_default_ok [simp]: "rc_limits_ok rc_limits_default"
  unfolding rc_limits_ok_def
proof
  fix kind
  show "rc_slot rc_limits_default kind \<le> rc_hard_limit kind"
    by (cases kind) (simp_all add: rc_limits_default_def)
qed

lemma rc_limits_set_ok: "rc_limits_ok l \<Longrightarrow> rc_limits_set l k v = Inr l' \<Longrightarrow> rc_limits_ok l'"
  by (auto simp: rc_limits_ok_def rc_limits_set_def rc_slot_store split: if_splits)

lemma rc_limits_reset_ok: "rc_limits_ok l \<Longrightarrow> rc_limits_ok (rc_limits_reset l k)"
  using rc_limits_default_ok
  by (auto simp: rc_limits_ok_def rc_limits_reset_def rc_slot_store)

lemma umask_from_config_bound: "umask_from_config ss = Inr m \<Longrightarrow> m \<le> 511"
proof -
  have "umask_loop m0 ss = Inr m \<Longrightarrow> m0 \<le> 511 \<Longrightarrow> m \<le> 511" for m0
    by (induction m0 ss rule: umask_loop.induct)
      (auto simp: parse_umask_def DEFAULT_UMASK_def Let_def split: if_splits sum.splits)
  then show "umask_from_config ss = Inr m \<Longrightarrow> m \<le> 511"
    by (simp add: umask_from_config_def DEFAULT_UMASK_def)
qed

end
