(* ===== verification/Message_Limits.thy ===== *)
theory Message_Limits
  imports Rc_Config
begin

text \<open>
  The message size limits of \<open>src/limits.rs\<close>: their defaults, the parsing of sizes with a
  suffix, and the collection of the limits from the statements of a configuration.  The
  locale \<open>limit_table\<close> states the contract between the table of slots with ceilings and the
  code that assigns and resets them; it is interpreted on the message limits and on the rc
  limits.
\<close>

definition KIB :: usize where "KIB = 1024"
definition MIB :: usize where "MIB = 1024 * KIB"
definition GIB :: usize where "GIB = 1024 * MIB"
definition MAX_MESSAGE_SIZE :: usize where "MAX_MESSAGE_SIZE = 256 * MIB"

lemmas size_units = KIB_def MIB_def GIB_def MAX_MESSAGE_SIZE_def

record message_limits =
  message_size :: usize
  headers_size :: usize
  body_size :: usize
  header_line_size :: usize
  header_field_size :: usize

definition message_limits_default :: message_limits where
  "message_limits_default =
     \<lparr>message_size = 64 * MIB, headers_size = 256 * KIB, body_size = 64 * MIB,
      header_line_size = 64 * KIB, header_field_size = 256 * KIB\<rparr>"

text \<open>\<open>limit_target\<close> returns a mutable slot and its ceiling: a reader, a writer, a ceiling.\<close>

fun limit_slot :: "message_limits \<Rightarrow> message_limit_variable \<Rightarrow> usize" where
  "limit_slot l Limit_MessageSize = message_size l"
| "limit_slot l Limit_HeadersSize = headers_size l"
| "limit_slot l Limit_BodySize = body_size l"
| "limit_slot l Limit_HeaderLineSize = header_line_size l"
| "limit_slot l Limit_HeaderFieldSize = header_field_size l"

fun limit_store :: "message_limits \<Rightarrow> message_limit_variable \<Rightarrow> usize \<Rightarrow> message_limits" where
  "limit_store l Limit_MessageSize v = l\<lparr>message_size := v\<rparr>"
| "limit_store l Limit_HeadersSize v = l\<lparr>headers_size := v\<rparr>"
| "limit_store l Limit_BodySize v = l\<lparr>body_size := v\<rparr>"
| "limit_store l Limit_HeaderLineSize v = l\<lparr>header_line_size := v\<rparr>"
| "limit_store l Limit_HeaderFieldSize v = l\<lparr>header_field_size := v\<rparr>"

fun limit_ceiling :: "message_limit_variable \<Rightarrow> usize" where
  "limit_ceiling Limit_MessageSize = MAX_MESSAGE_SIZE"
| "limit_ceiling Limit_HeadersSize = 16 * MIB"
| "limit_ceiling Limit_BodySize = MAX_MESSAGE_SIZE"
| "limit_ceiling Limit_HeaderLineSize = MIB"
| "limit_ceiling Limit_HeaderFieldSize = 16 * MIB"

definition default_limit :: "message_limit_variable \<Rightarrow> usize" where
  "default_limit variable = limit_slot message_limits_default variable"

datatype size_error =
    SizeExpected
  | SizeUnknownSuffix
  | SizeNotInteger
  | SizeOverflows

definition size_suffix :: "bytes \<Rightarrow> (size_error + bytes \<times> nat)" where
  "size_suffix input =
     (case last_opt input of
        Some b \<Rightarrow>
          if b = 107 \<or> b = 75 then Inr (take (length input - 1) input, KIB)
          else if b = 109 \<or> b = 77 then Inr (take (length input - 1) input, MIB)
          else if b = 103 \<or> b = 71 then Inr (take (length input - 1) input, GIB)
          else if is_ascii_digit b then Inr (input, 1)
          else Inl SizeUnknownSuffix
      | None \<Rightarrow> Inl SizeUnknownSuffix)"

definition parse_size :: "bytes \<Rightarrow> size_error + usize" where
  "parse_size input =
     (if input = [] \<or> list_ex is_ascii_whitespace input then Inl SizeExpected
      else case size_suffix input of
             Inl e \<Rightarrow> Inl e
           | Inr (digits, multiplier) \<Rightarrow>
               if digits = [] \<or> \<not> list_all is_ascii_digit digits then Inl SizeNotInteger
               else case parse_u64 digits of
                      None \<Rightarrow> Inl SizeOverflows
                    | Some v \<Rightarrow>
                        (case checked_mul v multiplier of
                           None \<Rightarrow> Inl SizeOverflows
                         | Some n \<Rightarrow> Inr n))"

datatype limit_reason = BadSize size_error | ExceedsCeiling usize

record limit_config_error =
  le_line :: usize
  le_name :: bytes
  le_reason :: limit_reason

fun limits_loop :: "message_limits \<Rightarrow> statement list \<Rightarrow> limit_config_error + message_limits" where
  "limits_loop limits [] = Inr limits"
| "limits_loop limits (St_Assignment a # ss) =
     (case as_target a of
        Target_MessageLimit variable \<Rightarrow>
          (case parse_size (as_value a) of
             Inl e \<Rightarrow> Inl \<lparr>le_line = as_line a, le_name = as_name a, le_reason = BadSize e\<rparr>
           | Inr v \<Rightarrow>
               if v > limit_ceiling variable
               then Inl \<lparr>le_line = as_line a, le_name = as_name a,
                         le_reason = ExceedsCeiling (limit_ceiling variable)\<rparr>
               else limits_loop (limit_store limits variable v) ss)
      | _ \<Rightarrow> limits_loop limits ss)"
| "limits_loop limits (St_Unset u # ss) =
     (case un_target u of
        Target_MessageLimit variable \<Rightarrow>
          limits_loop (limit_store limits variable (default_limit variable)) ss
      | _ \<Rightarrow> limits_loop limits ss)"
| "limits_loop limits (_ # ss) = limits_loop limits ss"

definition limits_from_config :: "statement list \<Rightarrow> limit_config_error + message_limits" where
  "limits_from_config statements = limits_loop message_limits_default statements"

section \<open>Tables of bounded settings\<close>

locale limit_table =
  fixes slot :: "'l \<Rightarrow> 'k \<Rightarrow> usize"
    and store :: "'l \<Rightarrow> 'k \<Rightarrow> usize \<Rightarrow> 'l"
    and ceiling :: "'k \<Rightarrow> usize"
    and initial :: 'l
  assumes slot_store: "slot (store l k v) k' = (if k = k' then v else slot l k')"
    and initial_within: "slot initial k \<le> ceiling k"
begin

definition within_ceilings :: "'l \<Rightarrow> bool" where
  "within_ceilings l \<longleftrightarrow> (\<forall>k. slot l k \<le> ceiling k)"

lemma within_initial [simp]: "within_ceilings initial"
  by (simp add: within_ceilings_def initial_within)

lemma within_store: "within_ceilings l \<Longrightarrow> v \<le> ceiling k \<Longrightarrow> within_ceilings (store l k v)"
  by (simp add: within_ceilings_def slot_store)

lemma within_reset: "within_ceilings l \<Longrightarrow> within_ceilings (store l k (slot initial k))"
  by (rule within_store) (simp_all add: initial_within)

end

interpretation ml: limit_table limit_slot limit_store limit_ceiling message_limits_default
proof (unfold_locales, goal_cases)
  case (1 l k v k')
  show ?case by (cases k; cases k') simp_all
next
  case (2 k)
  show ?case by (cases k) (simp_all add: message_limits_default_def size_units)
qed

interpretation rl: limit_table rc_slot rc_store rc_hard_limit rc_limits_default
  by (unfold_locales, fact rc_slot_store)
    (use rc_limits_default_ok in \<open>simp add: rc_limits_ok_def\<close>)

section \<open>Properties\<close>

lemma limits_loop_within:
  "limits_loop limits ss = Inr l \<Longrightarrow> ml.within_ceilings limits \<Longrightarrow> ml.within_ceilings l"
proof (induction limits ss rule: limits_loop.induct)
  case (2 limits a ss)
  then show ?case
    by (auto simp: not_less split: assignment_target.splits sum.splits if_splits
        intro: ml.within_store)
next
  case (3 limits u ss)
  then show ?case
    by (auto simp: default_limit_def split: assignment_target.splits intro: ml.within_reset)
qed auto

text \<open>
  Whatever a configuration assigns or unsets, the message limits collected from it never
  exceed their hard ceilings.
\<close>

theorem limits_from_config_within:
  "limits_from_config ss = Inr l \<Longrightarrow> limit_slot l k \<le> limit_ceiling k"
  unfolding limits_from_config_def
  using limits_loop_within [OF _ ml.within_initial] by (auto simp: ml.within_ceilings_def)

lemma limits_from_config_example:
  "limits_from_config [St_Assignment \<lparr>as_line = 1, as_name = ascii ''LIMIT_HEADER_LINE'',
      as_value = ascii ''2k'', as_target = Target_MessageLimit Limit_HeaderLineSize,
      as_expansion = None\<rparr>] = Inr (message_limits_default\<lparr>header_line_size := 2048\<rparr>)"
  by (simp add: limits_from_config_def parse_size_def size_suffix_def last_opt_def parse_u64_def
      checked_mul_def usize_max_def byte_defs size_units message_limits_default_def Let_def)

theorem limits_from_config_within_witness:
  "limit_slot (message_limits_default\<lparr>header_line_size := 2048\<rparr>) Limit_HeaderLineSize \<le>
     limit_ceiling Limit_HeaderLineSize"
  using limits_from_config_within [OF limits_from_config_example] by blast

lemma parse_u64_digits:
  assumes "list_all is_ascii_digit ds" and "ds \<noteq> []"
  shows "parse_u64 ds =
     (if digits_value 10 0 ds \<le> usize_max then Some (digits_value 10 0 ds) else None)"
proof -
  have "\<not> starts_with ds (ascii ''+'')"
    using assms by (cases ds) (auto simp: is_ascii_digit_def word_le_nat_alt)
  with assms show ?thesis by (simp add: parse_u64_def usize_max_def Let_def)
qed

text \<open>
  A size is accepted exactly when it is a digit string, optionally followed by one of
  the suffixes, whose value times the suffix fits a machine word, and its value is that
  product: the arithmetic never wraps.
\<close>

theorem parse_size_value:
  "parse_size input = Inr n \<longleftrightarrow>
     (\<exists>digits multiplier. size_suffix input = Inr (digits, multiplier) \<and>
        digits \<noteq> [] \<and> list_all is_ascii_digit digits \<and>
        \<not> list_ex is_ascii_whitespace input \<and>
        n = digits_value 10 0 digits * multiplier \<and>
        digits_value 10 0 digits \<le> usize_max \<and> n \<le> usize_max)"
proof -
  have ne: "size_suffix [] = Inl SizeUnknownSuffix" by (simp add: size_suffix_def last_opt_def)
  show ?thesis
    by (cases "input = []")
      (auto simp: parse_size_def ne parse_u64_digits checked_mul_def
        split: sum.splits if_splits option.splits)
qed

end
