(* ===== verification/Header_Store.thy ===== *)
theory Header_Store
  imports Header_Fields Arena_Ranges Message_Limits
begin

text \<open>
  The arena of \<open>src/header_edit/storage.rs\<close>: \<open>HeaderStore\<close> keeps the bytes of all fields in
  one vector, the fields as ranges into it in output order, and the holes that removed fields
  left behind as a sorted list of free ranges.  An operation that takes \<open>&mut self\<close> is a
  function on the store; one that also returns a \<open>Result\<close> gives the pair of the store it
  leaves behind and the result.  Indexing outside the field list panics in the source and is
  outside the domain of the functions here; the loops only index below the length.
\<close>

section \<open>Errors\<close>

datatype message_limit =
  Limit_Message | Limit_Headers | Limit_Body | Limit_HeaderLine | Limit_HeaderField

datatype decoded_header_error =
  MalformedWord | UnsupportedCharset | UnsupportedEncoding | InvalidText | DecodedTooLong

datatype header_edit_error =
    SizeOverflow
  | LimitExceeded message_limit usize
  | InvalidGeneratedValue
  | InvalidKeywordValue string
  | KeywordLimitExceeded usize
  | InvalidStatusValue string
  | GeneratedLineTooLong usize
  | Decode decoded_header_error
  | ExtractedValueTooLong usize

definition check_limit :: "usize \<Rightarrow> usize \<Rightarrow> message_limit \<Rightarrow> header_edit_error + unit" where
  "check_limit n limit kind = (if n > limit then Inl (LimitExceeded kind limit) else Inr ())"

section \<open>The store\<close>

record header_field =
  raw :: range
  hf_name :: "range option"

record header_store =
  arena :: bytes
  hfields :: "header_field list"
  free :: "range list"
  ceiling_of :: usize

definition arena_slice :: "bytes \<Rightarrow> range \<Rightarrow> bytes" where
  "arena_slice bs r = slice bs (fst r) (snd r)"

definition view_field :: "bytes \<Rightarrow> header_field \<Rightarrow> field" where
  "view_field bs f =
     \<lparr>f_bytes = arena_slice bs (raw f), f_name = map_option (arena_slice bs) (hf_name f)\<rparr>"

definition store_field :: "header_store \<Rightarrow> nat \<Rightarrow> field" where
  "store_field st index = view_field (arena st) (hfields st ! index)"

definition store_matches :: "header_store \<Rightarrow> nat \<Rightarrow> bytes \<Rightarrow> bool" where
  "store_matches st index name =
     (case f_name (store_field st index) of
        None \<Rightarrow> False
      | Some candidate \<Rightarrow> eq_ignore_ascii_case candidate name)"

subsection \<open>Free space\<close>

function coalesce_loop :: "range list \<Rightarrow> nat \<Rightarrow> nat \<Rightarrow> range list \<times> nat" where
  "coalesce_loop fr index retained =
     (if index < length fr then
        let r = fr ! index
        in if retained > 0 \<and> snd (fr ! (retained - 1)) = fst r
           then coalesce_loop (fr[retained - 1 := (fst (fr ! (retained - 1)), snd r)]) (index + 1) retained
           else coalesce_loop (fr[retained := r]) (index + 1) (retained + 1)
      else (fr, retained))"
  by pat_completeness auto
termination
  by (relation "measure (\<lambda>(fr, index, retained). length fr - index)") auto

declare coalesce_loop.simps [simp del]

definition coalesce_free :: "header_store \<Rightarrow> header_store" where
  "coalesce_free st =
     (let sorted = sort_key fst (free st);
          (fr, retained) = coalesce_loop sorted 0 0;
          merged = take retained fr
      in case last_opt merged of
           Some r \<Rightarrow>
             if snd r = length (arena st)
             then st\<lparr>free := butlast merged, arena := take (fst r) (arena st)\<rparr>
             else st\<lparr>free := merged\<rparr>
         | None \<Rightarrow> st\<lparr>free := merged\<rparr>)"

definition copy_within :: "bytes \<Rightarrow> range \<Rightarrow> nat \<Rightarrow> bytes" where
  "copy_within bs r dest =
     take dest bs @ arena_slice bs r @ drop (dest + range_len r) bs"

fun compact_loop :: "nat list \<Rightarrow> header_store \<Rightarrow> nat \<Rightarrow> header_store \<times> (header_edit_error + nat)" where
  "compact_loop [] st cursor = (st, Inr cursor)"
| "compact_loop (index # rest) st cursor =
     (let f = hfields st ! index;
          len = range_len (raw f);
          bs = copy_within (arena st) (raw f) cursor
      in case (case hf_name f of
                 None \<Rightarrow> Inr None
               | Some name \<Rightarrow>
                   (case checked_add cursor (fst name - fst (raw f)) of
                      None \<Rightarrow> Inl SizeOverflow
                    | Some start \<Rightarrow>
                        (case checked_add cursor (snd name - fst (raw f)) of
                           None \<Rightarrow> Inl SizeOverflow
                         | Some end_at \<Rightarrow> Inr (Some (start, end_at))))) of
           Inl e \<Rightarrow> (st\<lparr>arena := bs\<rparr>, Inl e)
         | Inr name \<Rightarrow>
             (case checked_add cursor len of
                None \<Rightarrow>
                  (st\<lparr>arena := bs, hfields := (hfields st)[index := f\<lparr>hf_name := name\<rparr>]\<rparr>,
                   Inl SizeOverflow)
              | Some end_at \<Rightarrow>
                  compact_loop rest
                    (st\<lparr>arena := bs,
                        hfields := (hfields st)[index := \<lparr>raw = (cursor, end_at), hf_name = name\<rparr>]\<rparr>)
                    end_at))"

definition compact :: "header_store \<Rightarrow> header_store \<times> (header_edit_error + unit)" where
  "compact st =
     (let physical = sort_key (\<lambda>index. fst (raw (hfields st ! index))) [0..<length (hfields st)]
      in case compact_loop physical st 0 of
           (st', Inl e) \<Rightarrow> (st', Inl e)
         | (st', Inr cursor) \<Rightarrow> (st'\<lparr>arena := take cursor (arena st'), free := []\<rparr>, Inr ()))"

subsection \<open>Removal and insertion\<close>

definition store_remove :: "nat \<Rightarrow> header_store \<Rightarrow> header_store" where
  "store_remove index st =
     coalesce_free
       (st\<lparr>free := free st @ [raw (hfields st ! index)],
           hfields := take index (hfields st) @ drop (Suc index) (hfields st)\<rparr>)"

definition fitting_hole :: "header_store \<Rightarrow> nat \<Rightarrow> nat option" where
  "fitting_hole st n = position (\<lambda>r. n \<le> range_len r) (free st)"

text \<open>The part of \<open>insert\<close> that chooses the place and writes the bytes.\<close>

definition place_bytes :: "nat option \<Rightarrow> bytes \<Rightarrow> header_store \<Rightarrow> header_store \<times> (header_edit_error + nat)" where
  "place_bytes hole bs st =
     (case hole of
        Some p \<Rightarrow>
          (let start = fst (free st ! p)
           in case checked_add start (length bs) of
                None \<Rightarrow> (st, Inl SizeOverflow)
              | Some end_at \<Rightarrow>
                  (let st' = st\<lparr>arena := take start (arena st) @ bs @ drop end_at (arena st),
                                free := (free st)[p := (end_at, snd (free st ! p))]\<rparr>
                   in (if snd (free st ! p) \<le> end_at
                       then st'\<lparr>free := take p (free st') @ drop (Suc p) (free st')\<rparr>
                       else st',
                       Inr start)))
      | None \<Rightarrow>
          (let start = length (arena st)
           in case checked_add start (length bs) of
                None \<Rightarrow> (st, Inl SizeOverflow)
              | Some end_at \<Rightarrow>
                  (case check_limit end_at (ceiling_of st) Limit_Headers of
                     Inl e \<Rightarrow> (st, Inl e)
                   | Inr _ \<Rightarrow> (st\<lparr>arena := arena st @ bs\<rparr>, Inr start))))"

definition store_insert :: "nat \<Rightarrow> bytes \<Rightarrow> header_store \<Rightarrow> header_store \<times> (header_edit_error + unit)" where
  "store_insert index bs st =
     (if bs = [] then (st, Inl InvalidGeneratedValue)
      else case checked_add (length (arena st)) (length bs) of
        None \<Rightarrow> (st, Inl SizeOverflow)
      | Some end_at \<Rightarrow>
          (case (if fitting_hole st (length bs) = None \<and> end_at > ceiling_of st
                 then compact st else (st, Inr ())) of
             (st1, Inl e) \<Rightarrow> (st1, Inl e)
           | (st1, Inr _) \<Rightarrow>
               (case place_bytes (fitting_hole st1 (length bs)) bs st1 of
                  (st2, Inl e) \<Rightarrow> (st2, Inl e)
                | (st2, Inr start) \<Rightarrow>
                    (case checked_add start (length bs) of
                       None \<Rightarrow> (st2, Inl SizeOverflow)
                     | Some end_at \<Rightarrow>
                         (case f_name (field_from_bytes bs) of
                            None \<Rightarrow>
                              (st2\<lparr>hfields := take index (hfields st2) @
                                 \<lparr>raw = (start, end_at), hf_name = None\<rparr> # drop index (hfields st2)\<rparr>,
                               Inr ())
                          | Some name \<Rightarrow>
                              (case checked_add start (length name) of
                                 None \<Rightarrow> (st2, Inl SizeOverflow)
                               | Some name_end \<Rightarrow>
                                   (st2\<lparr>hfields := take index (hfields st2) @
                                      \<lparr>raw = (start, end_at), hf_name = Some (start, name_end)\<rparr> #
                                      drop index (hfields st2)\<rparr>,
                                    Inr ())))))))"

fun insert_all :: "field list \<Rightarrow> header_store \<Rightarrow> header_edit_error + header_store" where
  "insert_all [] st = Inr st"
| "insert_all (f # fs) st =
     (case store_insert (length (hfields st)) (f_bytes f) st of
        (_, Inl e) \<Rightarrow> Inl e
      | (st', Inr _) \<Rightarrow> insert_all fs st')"

fun checked_sum :: "nat list \<Rightarrow> nat \<Rightarrow> header_edit_error + nat" where
  "checked_sum [] n = Inr n"
| "checked_sum (k # ks) n =
     (case checked_add n k of None \<Rightarrow> Inl SizeOverflow | Some m \<Rightarrow> checked_sum ks m)"

definition store_new :: "field list \<Rightarrow> usize \<Rightarrow> header_edit_error + header_store" where
  "store_new fs limit =
     (case checked_sum (map (\<lambda>f. length (f_bytes f)) fs) 0 of
        Inl e \<Rightarrow> Inl e
      | Inr n \<Rightarrow>
          (case check_limit n limit Limit_Headers of
             Inl e \<Rightarrow> Inl e
           | Inr _ \<Rightarrow>
               insert_all fs \<lparr>arena = [], hfields = [], free = [], ceiling_of = limit\<rparr>))"

subsection \<open>Removal of many fields at once\<close>

text \<open>
  \<open>Vec::retain\<close> with a stateful closure, splitting a list into the retained and the dropped
  elements.
\<close>

fun retain_state :: "('s \<Rightarrow> 'a \<Rightarrow> bool \<times> 's) \<Rightarrow> 's \<Rightarrow> 'a list \<Rightarrow> 'a list \<times> 'a list" where
  "retain_state keep s [] = ([], [])"
| "retain_state keep s (x # xs) =
     (let (k, s') = keep s x; (kept, dropped) = retain_state keep s' xs
      in if k then (x # kept, dropped) else (kept, x # dropped))"

definition retain_fields :: "('s \<Rightarrow> field \<Rightarrow> bool \<times> 's) \<Rightarrow> 's \<Rightarrow> header_store \<Rightarrow> header_store" where
  "retain_fields keep s st =
     (let (kept, dropped) = retain_state (\<lambda>s f. keep s (view_field (arena st) f)) s (hfields st)
      in coalesce_free (st\<lparr>hfields := kept, free := free st @ map raw dropped\<rparr>))"

definition name_matches :: "bytes \<Rightarrow> field \<Rightarrow> bool" where
  "name_matches name f =
     (case f_name f of None \<Rightarrow> False | Some candidate \<Rightarrow> eq_ignore_ascii_case candidate name)"

definition store_remove_matching :: "bytes \<Rightarrow> header_store \<Rightarrow> header_store" where
  "store_remove_matching name = retain_fields (\<lambda>s f. (\<not> name_matches name f, s)) ()"

definition has_matching_pattern :: "bytes \<Rightarrow> header_store \<Rightarrow> bool" where
  "has_matching_pattern pattern st \<longleftrightarrow>
     list_ex (\<lambda>index. field_matches_pattern (store_field st index) pattern) [0..<length (hfields st)]"

definition store_remove_matching_pattern :: "bytes \<Rightarrow> header_store \<Rightarrow> header_store" where
  "store_remove_matching_pattern pattern =
     retain_fields (\<lambda>s f. (\<not> field_matches_pattern f pattern, s)) ()"

definition name_key :: "field \<Rightarrow> bytes" where
  "name_key f =
     (case f_name f of Some name \<Rightarrow> map to_ascii_lowercase name | None \<Rightarrow> ascii ''from '')"

definition unique_step :: "bytes \<Rightarrow> bytes list \<Rightarrow> field \<Rightarrow> bool \<times> bytes list" where
  "unique_step pattern seen f =
     (if field_matches_pattern f pattern then
        if name_key f \<in> set seen then (False, seen) else (True, seen @ [name_key f])
      else (True, seen))"

definition store_make_unique_first :: "bytes \<Rightarrow> header_store \<Rightarrow> header_store" where
  "store_make_unique_first pattern = retain_fields (unique_step pattern) []"

fun unique_last_indices :: "bytes \<Rightarrow> bytes list \<Rightarrow> (nat \<times> field) list \<Rightarrow> nat list" where
  "unique_last_indices pattern seen [] = []"
| "unique_last_indices pattern seen ((idx, f) # rest) =
     (if field_matches_pattern f pattern then
        if name_key f \<in> set seen then unique_last_indices pattern seen rest
        else idx # unique_last_indices pattern (seen @ [name_key f]) rest
      else idx # unique_last_indices pattern seen rest)"

definition store_make_unique_last :: "bytes \<Rightarrow> header_store \<Rightarrow> header_store" where
  "store_make_unique_last pattern st =
     (let indices = sort (unique_last_indices pattern []
                      (rev (enumerate 0 (map (view_field (arena st)) (hfields st)))))
      in retain_fields (\<lambda>current f. (current \<in> set indices, Suc current)) 0 st)"

subsection \<open>Editing in place\<close>

text \<open>
  The four editing loops advance an index over the fields and leave a field alone, replace it
  (\<open>remove\<close>, then \<open>insert\<close> at the same index) or remove it without advancing.
\<close>

datatype field_edit = Keep | Replace bytes | Delete

lemma coalesce_free_fields [simp]: "hfields (coalesce_free st) = hfields st"
  by (auto simp: coalesce_free_def Let_def split: prod.splits option.splits)

lemma length_store_remove [simp]:
  "i < length (hfields st) \<Longrightarrow> length (hfields (store_remove i st)) = length (hfields st) - 1"
  by (simp add: store_remove_def)

lemma length_compact_loop [simp]:
  "length (hfields (fst (compact_loop idx st c))) = length (hfields st)"
  by (induction idx st c rule: compact_loop.induct) (auto simp: Let_def split: sum.splits option.splits)

lemma length_compact [simp]: "length (hfields (fst (compact st))) = length (hfields st)"
  using length_compact_loop [of "sort_key (\<lambda>index. fst (raw (hfields st ! index))) [0..<length (hfields st)]" st 0]
  by (auto simp: compact_def Let_def simp del: length_compact_loop split: prod.splits sum.splits)

lemma place_bytes_fields: "place_bytes h bs st = (st', r) \<Longrightarrow> hfields st' = hfields st"
  by (auto simp: place_bytes_def Let_def split: option.splits sum.splits if_splits)

lemma length_store_insert:
  assumes "store_insert i bs st = (st', Inr u)"
  shows "length (hfields st') = Suc (length (hfields st))"
proof -
  have "compact st = (x, r) \<Longrightarrow> length (hfields x) = length (hfields st)" for x r
    using length_compact [of st] by simp
  with assms show ?thesis
    by (auto simp: store_insert_def min_def dest!: place_bytes_fields
        split: if_splits option.splits prod.splits sum.splits)
qed

function edit_fields :: "(field \<Rightarrow> field_edit) \<Rightarrow> nat \<Rightarrow> header_store \<Rightarrow> header_store \<times> (header_edit_error + unit)" where
  "edit_fields edit i st =
     (if i < length (hfields st) then
        (case edit (store_field st i) of
           Keep \<Rightarrow> edit_fields edit (i + 1) st
         | Delete \<Rightarrow> edit_fields edit i (store_remove i st)
         | Replace bs \<Rightarrow>
             (case store_insert i bs (store_remove i st) of
                (st', Inl e) \<Rightarrow> (st', Inl e)
              | (st', Inr _) \<Rightarrow> edit_fields edit (i + 1) st'))
      else (st, Inr ()))"
  by pat_completeness auto
termination
  by (relation "measure (\<lambda>(edit, i, st). length (hfields st) - i)")
    (auto dest!: length_store_insert [OF sym])

declare edit_fields.simps [simp del]

definition rename_edit :: "bytes \<Rightarrow> bytes \<Rightarrow> field \<Rightarrow> field_edit" where
  "rename_edit from_pattern to_pattern f =
     (if field_matches_pattern f from_pattern then
        (case rename_field_pattern f from_pattern to_pattern of
           Some replacement \<Rightarrow> if f_bytes f \<noteq> replacement then Replace replacement else Keep
         | None \<Rightarrow> Keep)
      else Keep)"

definition store_rename_matching_pattern ::
    "bytes \<Rightarrow> bytes \<Rightarrow> header_store \<Rightarrow> header_store \<times> (header_edit_error + unit)" where
  "store_rename_matching_pattern from_pattern to_pattern = edit_fields (rename_edit from_pattern to_pattern) 0"

definition prefix_edit :: "bytes \<Rightarrow> bytes \<Rightarrow> field \<Rightarrow> field_edit" where
  "prefix_edit pattern pre f =
     (if field_matches_pattern f pattern \<and> f_name f \<noteq> None then Replace (pre @ f_bytes f) else Keep)"

definition store_prepend_prefix_to_matching ::
    "bytes \<Rightarrow> bytes \<Rightarrow> header_store \<Rightarrow> header_store \<times> (header_edit_error + unit)" where
  "store_prepend_prefix_to_matching pattern pre = edit_fields (prefix_edit pattern pre) 0"

definition concatenate_edit :: "field \<Rightarrow> field_edit" where
  "concatenate_edit f =
     (if \<not> starts_with (f_bytes f) (ascii ''From '') then
        let unfolded = unfold_field_bytes (f_bytes f)
        in if unfolded \<noteq> f_bytes f then Replace unfolded else Keep
      else Keep)"

definition store_concatenate_continued :: "header_store \<Rightarrow> header_store \<times> (header_edit_error + unit)" where
  "store_concatenate_continued = edit_fields concatenate_edit 0"

definition zap_edit :: "field \<Rightarrow> field_edit" where
  "zap_edit f =
     (case f_name f of
        None \<Rightarrow> Keep
      | Some name \<Rightarrow>
          let after_colon = drop (length name + 1) (f_bytes f);
              trimmed_ending = strip_line_ending after_colon
          in if trimmed_ending = [SP] \<or> trimmed_ending = [TAB] then Delete
             else if (case first after_colon of
                        None \<Rightarrow> False
                      | Some b \<Rightarrow> b \<noteq> SP \<and> b \<noteq> TAB \<and> b \<noteq> CR \<and> b \<noteq> LF)
             then Replace (name @ [COLON, SP] @ after_colon)
             else Keep)"

definition store_zap_whitespace :: "header_store \<Rightarrow> header_store \<times> (header_edit_error + unit)" where
  "store_zap_whitespace = edit_fields zap_edit 0"

end
