(* ===== verification/Header_Arena.thy ===== *)
theory Header_Arena
  imports Header_Store
begin

text \<open>
  Correctness of the header arena.  The invariant \<open>store_ok\<close> says that the live fields and
  the holes tile the arena, that the cached name ranges are the names of the fields, and that
  the holes are sorted, never touch each other and never reach the end.  The abstraction
  \<open>contents\<close> forgets the layout and gives the list of the bytes of the fields, on which every
  operation acts like the corresponding list operation.
\<close>

definition name_ok :: "bytes \<Rightarrow> header_field \<Rightarrow> bool" where
  "name_ok bs f \<longleftrightarrow>
     hf_name f = map_option (\<lambda>n. (fst (raw f), fst (raw f) + length n))
                   (f_name (field_from_bytes (arena_slice bs (raw f))))"

definition layout_ok :: "header_store \<Rightarrow> bool" where
  "layout_ok st \<longleftrightarrow>
     tiles (length (arena st)) (mset (map raw (hfields st)) + mset (free st)) \<and>
     (\<forall>f \<in> set (hfields st). name_ok (arena st) f) \<and>
     length (arena st) \<le> isize_max \<and> ceiling_of st \<le> isize_max"

definition store_ok :: "header_store \<Rightarrow> bool" where
  "store_ok st \<longleftrightarrow> layout_ok st \<and> sorted_wrt (\<lambda>r s. snd r < fst s) (free st) \<and>
     (free st \<noteq> [] \<longrightarrow> snd (last (free st)) < length (arena st))"

definition contents :: "header_store \<Rightarrow> bytes list" where
  "contents st = map (\<lambda>f. arena_slice (arena st) (raw f)) (hfields st)"

definition live :: "header_store \<Rightarrow> nat" where
  "live st = sum_list (map length (contents st))"

section \<open>Fields of the arena\<close>

lemma length_contents [simp]: "length (contents st) = length (hfields st)"
  by (simp add: contents_def)

lemma field_bounds:
  assumes "layout_ok st" and "f \<in> set (hfields st)"
  shows "fst (raw f) < snd (raw f) \<and> snd (raw f) \<le> length (arena st)"
  using assms tiles_bounds [of "length (arena st)" _ "raw f"] by (auto simp: layout_ok_def)

lemma f_name_prefix:
  assumes "f_name (field_from_bytes bs) = Some n"
  shows "take (length n) bs = n \<and> length n < length bs \<and> bs ! length n = COLON"
proof -
  let ?e = "case position (\<lambda>b. b = LF) bs of None \<Rightarrow> length bs | Some i \<Rightarrow> i"
  obtain c where c: "position (\<lambda>b. b = COLON) (take ?e bs) = Some c" and n: "n = take c bs"
    using assms by (auto simp: field_from_bytes_def Let_def)
  have "c < length bs" and "c < ?e" using position_SomeD(1) [OF c] by simp_all
  with position_SomeD(2) [OF c] n show ?thesis by simp
qed

lemma arena_slice_sub:
  "a \<le> b \<Longrightarrow> arena_slice bs (a, b) = ys \<Longrightarrow> k \<le> b - a \<Longrightarrow> arena_slice bs (a, a + k) = take k ys"
  by (auto simp: arena_slice_def slice_def min_def)

lemma field_eqI: "f_bytes f = b \<Longrightarrow> f_name f = n \<Longrightarrow> \<lparr>f_bytes = b, f_name = n\<rparr> = f"
  by (cases f) simp

lemma view_field_eq:
  assumes "name_ok bs f" and "fst (raw f) \<le> snd (raw f)" and "snd (raw f) \<le> length bs"
  shows "view_field bs f = field_from_bytes (arena_slice bs (raw f))"
proof (cases "f_name (field_from_bytes (arena_slice bs (raw f)))")
  case None
  with assms(1) show ?thesis by (simp add: view_field_def name_ok_def field_eqI)
next
  case (Some n)
  let ?s = "arena_slice bs (raw f)"
  have len: "length ?s = snd (raw f) - fst (raw f)" using assms by (simp add: arena_slice_def)
  have "arena_slice bs (fst (raw f), fst (raw f) + length n) = take (length n) ?s"
    using arena_slice_sub [of "fst (raw f)" "snd (raw f)" bs ?s "length n"] f_name_prefix [OF Some] assms(2) len
    by simp
  then have "map_option (arena_slice bs) (hf_name f) = f_name (field_from_bytes ?s)"
    using assms(1) Some f_name_prefix [OF Some] by (simp add: name_ok_def)
  then show ?thesis by (simp add: view_field_def field_eqI)
qed

lemma view_fields:
  assumes "layout_ok st"
  shows "map (view_field (arena st)) (hfields st) = map field_from_bytes (contents st)"
  using assms field_bounds [OF assms] view_field_eq
  by (fastforce simp: contents_def layout_ok_def)

lemma store_field_eq:
  assumes "layout_ok st" and "i < length (hfields st)"
  shows "store_field st i = field_from_bytes (contents st ! i)"
  using arg_cong [OF view_fields [OF assms(1)], of "\<lambda>xs. xs ! i"] assms(2)
  by (simp add: store_field_def)

lemma live_range_len:
  assumes "layout_ok st"
  shows "live st = sum_list (map (range_len \<circ> raw) (hfields st))"
proof -
  have "map length (contents st) = map (range_len \<circ> raw) (hfields st)"
    using field_bounds [OF assms] by (auto simp: contents_def arena_slice_def range_len_def)
  then show ?thesis by (simp add: live_def)
qed

lemma live_plus_holes:
  assumes "layout_ok st"
  shows "live st + sum_list (map range_len (free st)) = length (arena st)"
  using assms tiles_total [of "length (arena st)" "mset (map raw (hfields st)) + mset (free st)"]
  unfolding live_range_len [OF assms]
  by (simp add: layout_ok_def image_mset.compositionality mset_map [symmetric] sum_mset_sum_list
      del: mset_map)

lemma name_ok_cong: "arena_slice bs (raw f) = arena_slice bs' (raw f) \<Longrightarrow> name_ok bs f = name_ok bs' f"
  by (simp add: name_ok_def)

section \<open>Merging holes\<close>

definition absorb :: "range list \<Rightarrow> range \<Rightarrow> range list" where
  "absorb acc r =
     (if acc \<noteq> [] \<and> snd (last acc) = fst r then butlast acc @ [(fst (last acc), snd r)]
      else acc @ [r])"

lemma coalesce_loop_spec:
  assumes "coalesce_loop fr index retained = (fr', k)" and "retained \<le> index" and "index \<le> length fr"
  shows "take k fr' = foldl absorb (take retained fr) (drop index fr)"
  using assms
proof (induction fr index retained rule: coalesce_loop.induct)
  case (1 fr index retained)
  show ?case
  proof (cases "index < length fr")
    case False
    with "1.prems" show ?thesis by (simp add: coalesce_loop.simps)
  next
    case True
    let ?r = "fr ! index"
    have d: "drop index fr = ?r # drop (Suc index) fr" using True by (simp add: Cons_nth_drop_Suc)
    have last: "last (take retained fr) = fr ! (retained - 1)" "take retained fr \<noteq> []"
      if "retained > 0"
      using that True "1.prems"(2) by (cases retained; auto simp: take_Suc_conv_app_nth)+
    show ?thesis
    proof (cases "retained > 0 \<and> snd (fr ! (retained - 1)) = fst ?r")
      case merge: True
      let ?fr = "fr[retained - 1 := (fst (fr ! (retained - 1)), snd ?r)]"
      have "coalesce_loop ?fr (index + 1) retained = (fr', k)"
        using "1.prems"(1) True merge by (subst (asm) coalesce_loop.simps) simp
      then have "take k fr' = foldl absorb (take retained ?fr) (drop (Suc index) ?fr)"
        using "1.IH"(1) [OF True refl merge] True "1.prems"(2) by simp
      moreover have "take retained ?fr = absorb (take retained fr) ?r"
        using merge last True "1.prems"(2)
        by (cases retained) (auto simp: absorb_def take_Suc_conv_app_nth butlast_append)
      moreover have "drop (Suc index) ?fr = drop (Suc index) fr"
        using merge "1.prems"(2) by simp
      ultimately show ?thesis by (simp add: d)
    next
      case keep: False
      let ?fr = "fr[retained := ?r]"
      have "coalesce_loop ?fr (index + 1) (retained + 1) = (fr', k)"
        using "1.prems"(1) True keep by (subst (asm) coalesce_loop.simps) (auto simp: Let_def)
      then have "take k fr' = foldl absorb (take (Suc retained) ?fr) (drop (Suc index) ?fr)"
        using "1.IH"(2) [OF True refl keep] True "1.prems"(2) by simp
      moreover have "take (Suc retained) ?fr = absorb (take retained fr) ?r"
        using keep last True "1.prems"(2) by (auto simp: absorb_def take_Suc_conv_app_nth)
      moreover have "drop (Suc index) ?fr = drop (Suc index) fr"
        using "1.prems"(2) by simp
      ultimately show ?thesis by (simp add: d)
    qed
  qed
qed

lemma absorb_tiles:
  assumes "tiles n (mset acc + add_mset r M)"
  shows "tiles n (mset (absorb acc r) + M)"
proof (cases "acc \<noteq> [] \<and> snd (last acc) = fst r")
  case True
  then obtain ys a b where acc: "acc = ys @ [(a, b)]" and b: "b = fst r"
    by (cases acc rule: rev_cases) auto
  have "tiles n (add_mset (a, b) (add_mset (b, snd r) (mset ys + M)))"
    using assms by (simp add: acc b add.commute)
  from tiles_merge [OF this] show ?thesis by (simp add: absorb_def acc b)
next
  case False
  with assms show ?thesis by (auto simp: absorb_def)
qed

lemma foldl_absorb_tiles:
  "tiles n (mset acc + mset rest + M) \<Longrightarrow> tiles n (mset (foldl absorb acc rest) + M)"
proof (induction rest arbitrary: acc)
  case Nil
  then show ?case by simp
next
  case (Cons r rest)
  then have "tiles n (mset (absorb acc r) + (mset rest + M))"
    by (intro absorb_tiles) (simp add: ac_simps)
  with Cons.IH [of "absorb acc r"] show ?case by (simp add: ac_simps)
qed

lemma absorb_sorted:
  assumes "sorted_wrt (\<lambda>r s. snd r < fst s) acc" and "\<forall>r \<in> set acc. snd r \<le> fst x"
    and "\<forall>r \<in> set acc. fst r < snd r" and "fst x < snd x"
  shows "sorted_wrt (\<lambda>r s. snd r < fst s) (absorb acc x)"
proof (cases acc rule: rev_cases)
  case Nil
  then show ?thesis by (simp add: absorb_def)
next
  case (snoc ys y)
  with assms show ?thesis by (fastforce simp: absorb_def sorted_wrt_append)
qed

lemma foldl_absorb_sorted:
  assumes "sorted_wrt (\<lambda>r s. snd r < fst s) acc" and "sorted_wrt (\<lambda>r s. snd r \<le> fst s) rest"
    and "\<forall>r \<in> set acc. \<forall>s \<in> set rest. snd r \<le> fst s"
    and "\<forall>r \<in> set acc \<union> set rest. fst r < snd r"
  shows "sorted_wrt (\<lambda>r s. snd r < fst s) (foldl absorb acc rest)"
  using assms
proof (induction rest arbitrary: acc)
  case Nil
  then show ?case by simp
next
  case (Cons x rest)
  have x: "fst x < snd x" and old: "\<And>r. r \<in> set acc \<Longrightarrow> snd r \<le> fst x \<and> fst r < snd r"
    using Cons.prems by auto
  have mem: "snd r \<le> snd x \<and> fst r < snd r" if "r \<in> set (absorb acc x)" for r
  proof -
    have "r \<in> set acc \<or> r = x \<or> acc \<noteq> [] \<and> r = (fst (last acc), snd x)"
      using that by (auto simp: absorb_def dest: in_set_butlastD split: if_splits)
    then show ?thesis using x old [of r] old [of "last acc"] by fastforce
  qed
  have "sorted_wrt (\<lambda>r s. snd r < fst s) (absorb acc x)"
    using Cons.prems by (intro absorb_sorted) auto
  moreover have "\<forall>r \<in> set (absorb acc x). \<forall>s \<in> set rest. snd r \<le> fst s"
    using mem Cons.prems by fastforce
  moreover have "\<forall>r \<in> set (absorb acc x) \<union> set rest. fst r < snd r"
    using mem Cons.prems(4) by auto
  ultimately show ?case using Cons.IH [of "absorb acc x"] Cons.prems(2) by simp
qed

lemma tiles_sorted_disjoint:
  assumes "tiles n (mset xs + M)" and "sorted (map fst xs)"
  shows "sorted_wrt (\<lambda>r s. snd r \<le> fst s) xs"
  using assms
proof (induction xs arbitrary: M)
  case Nil
  then show ?case by simp
next
  case (Cons x xs)
  have t: "tiles n (add_mset x (mset xs + M))" using Cons.prems by simp
  have "snd x \<le> fst s" if "s \<in> set xs" for s
  proof -
    have "separate x s" using tiles_separate [OF t, of s] that by simp
    moreover have "fst s < snd s" using tiles_bounds [OF t, of s] that by simp
    ultimately show ?thesis using Cons.prems(2) that by (auto simp: separate_def)
  qed
  moreover have "tiles n (mset xs + add_mset x M)" using t by simp
  ultimately show ?case using Cons.IH [of "add_mset x M"] Cons.prems(2) by simp
qed

lemma coalesced_holes:
  assumes "tiles n (mset fr + M)" and "coalesce_loop (sort_key fst fr) 0 0 = (fr', k)"
  shows "tiles n (mset (take k fr') + M)"
    and "sorted_wrt (\<lambda>r s. snd r < fst s) (take k fr')"
proof -
  let ?s = "sort_key fst fr"
  have m: "take k fr' = foldl absorb [] ?s"
    using coalesce_loop_spec [OF assms(2)] by simp
  have t: "tiles n (mset ?s + M)" using assms(1) by simp
  show "tiles n (mset (take k fr') + M)"
    using foldl_absorb_tiles [of n "[]" ?s M] t by (simp add: m)
  show "sorted_wrt (\<lambda>r s. snd r < fst s) (take k fr')"
    unfolding m
    using tiles_sorted_disjoint [OF t] tiles_bounds [OF t] by (intro foldl_absorb_sorted) auto
qed

lemma layout_ok_truncate:
  assumes "layout_ok (st\<lparr>free := fr @ [(a, length (arena st))]\<rparr>)"
  shows "layout_ok (st\<lparr>free := fr, arena := take a (arena st)\<rparr>)"
    and "contents (st\<lparr>free := fr, arena := take a (arena st)\<rparr>) = contents st"
    and "a \<le> length (arena st)"
proof -
  let ?n = "length (arena st)"
  have t: "tiles ?n (add_mset (a, ?n) (mset (map raw (hfields st)) + mset fr))"
    using assms by (simp add: layout_ok_def)
  then show a: "a \<le> ?n" using tiles_bounds [OF t, of "(a, ?n)"] by simp
  have t': "tiles a (mset (map raw (hfields st)) + mset fr)" by (rule tiles_pop [OF t])
  then have within: "snd (raw f) \<le> a" if "f \<in> set (hfields st)" for f
    using tiles_bounds [OF t', of "raw f"] that by simp
  then have same: "arena_slice (take a (arena st)) (raw f) = arena_slice (arena st) (raw f)"
    if "f \<in> set (hfields st)" for f
    using that by (simp add: arena_slice_def slice_take_within)
  then show "contents (st\<lparr>free := fr, arena := take a (arena st)\<rparr>) = contents st"
    by (simp add: contents_def)
  show "layout_ok (st\<lparr>free := fr, arena := take a (arena st)\<rparr>)"
    using assms t' a same name_ok_cong [OF same] by (simp add: layout_ok_def min_absorb2)
qed

lemma coalesce_free_ok:
  assumes "layout_ok st"
  shows "store_ok (coalesce_free st)" "contents (coalesce_free st) = contents st"
    "ceiling_of (coalesce_free st) = ceiling_of st"
proof -
  obtain fr k where c: "coalesce_loop (sort_key fst (free st)) 0 0 = (fr, k)" by fastforce
  let ?m = "take k fr" let ?n = "length (arena st)"
  have t: "tiles ?n (mset (free st) + mset (map raw (hfields st)))"
    using assms by (simp add: layout_ok_def add.commute)
  note m = coalesced_holes [OF t c]
  have ok: "layout_ok (st\<lparr>free := ?m\<rparr>)"
    using assms m(1) by (simp add: layout_ok_def add.commute)
  have *: "store_ok (coalesce_free st) \<and> contents (coalesce_free st) = contents st \<and>
      ceiling_of (coalesce_free st) = ceiling_of st"
  proof (cases ?m rule: rev_cases)
    case Nil
    then have "coalesce_free st = st\<lparr>free := []\<rparr>"
      unfolding coalesce_free_def c Let_def prod.case Nil by (simp add: last_opt_def)
    then show ?thesis using ok Nil by (simp add: store_ok_def contents_def)
  next
    case (snoc ys r)
    show ?thesis
    proof (cases "snd r = ?n")
      case True
      let ?st = "st\<lparr>free := ys, arena := take (fst r) (arena st)\<rparr>"
      have e: "coalesce_free st = ?st"
        using True unfolding coalesce_free_def c Let_def prod.case snoc by (simp add: last_opt_def)
      have "layout_ok (st\<lparr>free := ys @ [(fst r, ?n)]\<rparr>)"
        using ok snoc True by (metis prod.collapse)
      note tr = layout_ok_truncate [OF this]
      have "ys \<noteq> [] \<Longrightarrow> snd (last ys) < fst r"
        using m(2) by (simp add: snoc sorted_wrt_append)
      then show ?thesis
        using tr m(2) by (simp add: e store_ok_def snoc sorted_wrt_append min_absorb2)
    next
      case False
      then have e: "coalesce_free st = st\<lparr>free := ?m\<rparr>"
        unfolding coalesce_free_def c Let_def prod.case snoc by (simp add: last_opt_def)
      have "r \<in># mset ?m + mset (map raw (hfields st))" by (simp add: snoc)
      from tiles_bounds [OF m(1) this] False have "snd r < ?n" by simp
      then show ?thesis using ok m(2) snoc by (simp add: e store_ok_def contents_def)
    qed
  qed
  then show "store_ok (coalesce_free st)" "contents (coalesce_free st) = contents st"
    "ceiling_of (coalesce_free st) = ceiling_of st" by blast+
qed

lemma store_remove_ok:
  assumes "store_ok st" and "i < length (hfields st)"
  shows "store_ok (store_remove i st)"
    "contents (store_remove i st) = take i (contents st) @ drop (Suc i) (contents st)"
    "ceiling_of (store_remove i st) = ceiling_of st"
proof -
  let ?f = "hfields st ! i"
  let ?st = "st\<lparr>free := free st @ [raw ?f], hfields := take i (hfields st) @ drop (Suc i) (hfields st)\<rparr>"
  have split: "hfields st = take i (hfields st) @ ?f # drop (Suc i) (hfields st)"
    using assms(2) by (rule id_take_nth_drop)
  have "mset (map raw (hfields st)) = add_mset (raw ?f) (mset (map raw (hfields ?st)))"
    by (subst split) simp
  moreover have "set (hfields ?st) \<subseteq> set (hfields st)"
    by (subst split) auto
  ultimately have ok: "layout_ok ?st"
    using assms(1) by (auto simp: store_ok_def layout_ok_def)
  have e: "store_remove i st = coalesce_free ?st" by (simp add: store_remove_def)
  show "store_ok (store_remove i st)" "ceiling_of (store_remove i st) = ceiling_of st"
    using coalesce_free_ok [OF ok] by (simp_all add: e)
  show "contents (store_remove i st) = take i (contents st) @ drop (Suc i) (contents st)"
    using coalesce_free_ok(2) [OF ok] by (simp add: e contents_def take_map drop_map)
qed

section \<open>Removing many fields\<close>

lemma retain_state_map:
  "retain_state (\<lambda>s x. keep s (g x)) s xs = (a, b) \<Longrightarrow>
   retain_state keep s (map g xs) = (map g a, map g b)"
  by (induction xs arbitrary: s a b) (auto simp: Let_def split: prod.splits if_splits)

lemma retain_state_mset: "retain_state keep s xs = (a, b) \<Longrightarrow> mset xs = mset a + mset b"
  by (induction xs arbitrary: s a b) (auto simp: Let_def split: prod.splits if_splits)

lemma retain_fields_ok:
  assumes "store_ok st"
  shows "store_ok (retain_fields keep s st)"
    "map field_from_bytes (contents (retain_fields keep s st)) =
       fst (retain_state keep s (map field_from_bytes (contents st)))"
    "ceiling_of (retain_fields keep s st) = ceiling_of st"
proof -
  obtain a b where ab: "retain_state (\<lambda>s f. keep s (view_field (arena st) f)) s (hfields st) = (a, b)"
    by fastforce
  let ?st = "st\<lparr>hfields := a, free := free st @ map raw b\<rparr>"
  have lay: "layout_ok st" using assms by (simp add: store_ok_def)
  have ms: "mset (hfields st) = mset a + mset b" by (rule retain_state_mset [OF ab])
  then have sub: "set a \<subseteq> set (hfields st)" by (metis set_mset_mset set_mset_union Un_upper1)
  have ok: "layout_ok ?st"
    using lay sub arg_cong [OF ms, of "image_mset raw"] by (auto simp: layout_ok_def ac_simps)
  have e: "retain_fields keep s st = coalesce_free ?st" by (simp add: retain_fields_def ab)
  show "store_ok (retain_fields keep s st)" "ceiling_of (retain_fields keep s st) = ceiling_of st"
    using coalesce_free_ok [OF ok] by (simp_all add: e)
  have "map field_from_bytes (contents (retain_fields keep s st)) = map (view_field (arena st)) a"
    using coalesce_free_ok(2) [OF ok] view_fields [OF ok] by (simp add: e)
  also have "\<dots> = fst (retain_state keep s (map field_from_bytes (contents st)))"
    using retain_state_map [where keep = keep and g = "view_field (arena st)", OF ab] view_fields [OF lay] by simp
  finally show "map field_from_bytes (contents (retain_fields keep s st)) =
       fst (retain_state keep s (map field_from_bytes (contents st)))" .
qed

section \<open>Compaction\<close>

text \<open>
  The state of the compaction loop: the fields \<open>moved\<close> lie side by side below the cursor,
  those still to come (\<open>idx\<close>) follow in the order of their positions, above the cursor.
\<close>

definition compacting :: "nat list \<Rightarrow> nat list \<Rightarrow> header_store \<Rightarrow> nat \<Rightarrow> bool" where
  "compacting moved idx st cursor \<longleftrightarrow>
     mset (moved @ idx) = mset [0..<length (hfields st)] \<and>
     chain 0 (map (\<lambda>i. raw (hfields st ! i)) moved) cursor \<and>
     sorted_wrt (\<lambda>i j. snd (raw (hfields st ! i)) \<le> fst (raw (hfields st ! j))) idx \<and>
     (\<forall>i \<in> set idx. cursor \<le> fst (raw (hfields st ! i)) \<and>
        fst (raw (hfields st ! i)) < snd (raw (hfields st ! i)) \<and>
        snd (raw (hfields st ! i)) \<le> length (arena st)) \<and>
     (\<forall>f \<in> set (hfields st). name_ok (arena st) f) \<and>
     cursor \<le> length (arena st) \<and> length (arena st) \<le> isize_max"

lemma length_copy_within:
  "fst r \<le> snd r \<Longrightarrow> snd r \<le> length bs \<Longrightarrow> dest \<le> fst r \<Longrightarrow> length (copy_within bs r dest) = length bs"
  by (simp add: copy_within_def arena_slice_def range_len_def)

lemma copy_within_same:
  assumes "fst r \<le> snd r" "snd r \<le> length bs" "dest \<le> fst r"
  shows "arena_slice (copy_within bs r dest) (dest, dest + range_len r) = arena_slice bs r"
  using slice_update_same [of dest "arena_slice bs r" bs] assms
  by (simp add: copy_within_def arena_slice_def range_len_def)

lemma copy_within_other:
  assumes "fst r \<le> snd r" "snd r \<le> length bs" "dest \<le> fst r"
    and "snd s \<le> dest \<or> snd r \<le> fst s" "fst s \<le> snd s" "snd s \<le> length bs"
  shows "arena_slice (copy_within bs r dest) s = arena_slice bs s"
proof -
  have len: "length (arena_slice bs r) = range_len r" "dest + range_len r \<le> snd r"
    using assms by (simp_all add: arena_slice_def range_len_def)
  then have "separate s (dest, dest + length (arena_slice bs r))"
    using assms(4) by (auto simp: separate_def)
  from slice_update_separate [OF this, of bs] len(2) assms
  show ?thesis unfolding copy_within_def len(1) by (simp add: arena_slice_def)
qed

lemma mset_map_indices:
  assumes "mset idx = mset [0..<length fs]"
  shows "mset (map (\<lambda>i. g (fs ! i)) idx) = mset (map g fs)"
proof -
  have "map (\<lambda>i. g (fs ! i)) [0..<length fs] = map g fs" by (rule nth_equalityI) auto
  then have "mset (map g fs) = image_mset (\<lambda>i. g (fs ! i)) (mset [0..<length fs])"
    by (metis mset_map)
  then show ?thesis unfolding assms [symmetric] by simp
qed

lemma compacting_step:
  assumes c: "compacting moved (i # idx) st cursor"
  defines "r \<equiv> raw (hfields st ! i)"
  defines "f \<equiv> \<lparr>raw = (cursor, cursor + range_len r),
      hf_name = map_option (\<lambda>n. (cursor, cursor + length n))
        (f_name (field_from_bytes (arena_slice (arena st) r)))\<rparr>"
  defines "st' \<equiv> st\<lparr>arena := copy_within (arena st) r cursor, hfields := (hfields st)[i := f]\<rparr>"
  shows "compact_loop (i # idx) st cursor = compact_loop idx st' (cursor + range_len r)"
    and "compacting (moved @ [i]) idx st' (cursor + range_len r)"
    and "contents st' = contents st"
proof -
  let ?fs = "hfields st" let ?bs = "copy_within (arena st) r cursor"
  have ms: "mset (moved @ i # idx) = mset [0..<length ?fs]"
    using c by (simp add: compacting_def)
  then have "distinct (moved @ i # idx)" by (metis distinct_upt mset_eq_imp_distinct_iff)
  then have dist: "i \<notin> set moved" "i \<notin> set idx" by auto
  have idxs: "j < length ?fs \<longleftrightarrow> j \<in> set moved \<or> j = i \<or> j \<in> set idx" for j
    using arg_cong [OF ms, of set_mset] by (auto simp: set_eq_iff)
  then have i: "i < length ?fs" by blast
  have r: "cursor \<le> fst r" "fst r < snd r" "snd r \<le> length (arena st)"
    using c by (auto simp: compacting_def r_def)
  have name: "hf_name (?fs ! i) = map_option (\<lambda>n. (fst r, fst r + length n))
      (f_name (field_from_bytes (arena_slice (arena st) r)))"
    using c i by (auto simp: compacting_def name_ok_def r_def)
  have fits: "cursor + range_len r \<le> length (arena st)"
    using r by (simp add: range_len_def)
  have small: "length (arena st) \<le> isize_max" using c by (simp add: compacting_def)
  then have usize: "length (arena st) \<le> usize_max" using isize_usize(1) by simp
  have nm: "length n \<le> range_len r" if "f_name (field_from_bytes (arena_slice (arena st) r)) = Some n" for n
    using f_name_prefix [OF that] r by (simp add: arena_slice_def range_len_def)
  show "compact_loop (i # idx) st cursor = compact_loop idx st' (cursor + range_len r)"
    using fits usize nm name
    by (cases "f_name (field_from_bytes (arena_slice (arena st) r))")
      (force simp: Let_def checked_add_def st'_def f_def r_def [symmetric])+
  have other: "arena_slice ?bs (raw (?fs ! j)) = arena_slice (arena st) (raw (?fs ! j))"
    if "j < length ?fs" "j \<noteq> i" for j
  proof -
    have "j \<in> set moved \<or> j \<in> set idx" using that idxs by blast
    then show ?thesis
    proof
      assume j: "j \<in> set moved"
      have "chain 0 (map (\<lambda>i. raw (?fs ! i)) moved) cursor" using c by (simp add: compacting_def)
      from chain_bounds [OF this, of "raw (?fs ! j)"] j r
      show ?thesis by (intro copy_within_other) auto
    next
      assume "j \<in> set idx"
      with c r show ?thesis by (intro copy_within_other) (auto simp: compacting_def r_def)
    qed
  qed
  have same: "arena_slice ?bs (raw f) = arena_slice (arena st) r"
    using r by (simp add: f_def copy_within_same)
  show "contents st' = contents st"
    using other same i by (auto simp: contents_def st'_def nth_list_update r_def intro!: nth_equalityI)
  have "name_ok ?bs g" if "g \<in> set (hfields st')" for g
  proof -
    from that obtain j where j: "j < length ?fs" "g = ?fs[i := f] ! j"
      by (auto simp: st'_def in_set_conv_nth)
    show ?thesis
    proof (cases "j = i")
      case True
      then show ?thesis using j i same by (simp add: name_ok_def f_def)
    next
      case False
      then have g: "g = ?fs ! j" using j by simp
      have "name_ok (arena st) g" using c j(1) by (simp add: compacting_def g)
      then show ?thesis using name_ok_cong [of ?bs g "arena st"] other [OF j(1) False] by (simp add: g)
    qed
  qed
  then have "\<forall>g \<in> set (hfields st'). name_ok (arena st') g" by (simp add: st'_def)
  moreover have len: "length (arena st') = length (arena st)"
    using r by (simp add: length_copy_within st'_def)
  have raw_eq: "raw (hfields st' ! j) = raw (?fs ! j)" if "j \<noteq> i" for j
    using that by (simp add: st'_def)
  have keep: "raw (hfields st' ! j) = raw (?fs ! j)" if "j \<in> set moved \<or> j \<in> set idx" for j
    using dist that by (intro raw_eq) auto
  have raw_i: "raw (hfields st' ! i) = (cursor, cursor + range_len r)"
    using i by (simp add: st'_def f_def)
  moreover have "chain 0 (map (\<lambda>j. raw (hfields st' ! j)) (moved @ [i])) (cursor + range_len r)"
  proof -
    have e: "map (\<lambda>j. raw (hfields st' ! j)) moved = map (\<lambda>j. raw (?fs ! j)) moved"
      using keep by simp
    have "chain 0 (map (\<lambda>j. raw (?fs ! j)) moved) cursor" using c by (simp add: compacting_def)
    then show ?thesis unfolding map_append e using r raw_i by (simp add: chain_append range_len_def)
  qed
  moreover have "sorted_wrt (\<lambda>a b. snd (raw (hfields st' ! a)) \<le> fst (raw (hfields st' ! b))) idx"
  proof -
    have "sorted_wrt (\<lambda>a b. snd (raw (?fs ! a)) \<le> fst (raw (?fs ! b))) idx"
      using c by (simp add: compacting_def)
    then show ?thesis by (rule sorted_wrt_mono_rel [rotated]) (simp add: keep)
  qed
  moreover have "cursor + range_len r \<le> fst (raw (hfields st' ! j)) \<and>
      fst (raw (hfields st' ! j)) < snd (raw (hfields st' ! j)) \<and>
      snd (raw (hfields st' ! j)) \<le> length (arena st')" if "j \<in> set idx" for j
  proof -
    have "cursor + range_len r \<le> snd r" using r by (simp add: range_len_def)
    also have "snd r \<le> fst (raw (?fs ! j))" using c that by (simp add: compacting_def r_def)
    finally show ?thesis using c that by (simp add: keep len compacting_def)
  qed
  moreover have "mset ((moved @ [i]) @ idx) = mset [0..<length (hfields st')]"
    using ms by (simp add: st'_def)
  ultimately show "compacting (moved @ [i]) idx st' (cursor + range_len r)"
    using fits small len by (simp add: compacting_def)
qed

lemma compacting_loop:
  assumes "compacting moved idx st cursor"
  shows "\<exists>st' n. compact_loop idx st cursor = (st', Inr n) \<and> compacting (moved @ idx) [] st' n \<and>
    contents st' = contents st \<and> free st' = free st \<and> ceiling_of st' = ceiling_of st"
  using assms
proof (induction idx arbitrary: moved st cursor)
  case Nil
  then show ?case by simp
next
  case (Cons i idx)
  from Cons.IH [OF compacting_step(2) [OF Cons.prems]] compacting_step(1,3) [OF Cons.prems]
  show ?case by auto
qed

lemma compacting_start:
  assumes "layout_ok st"
  shows "compacting [] (sort_key (\<lambda>i. fst (raw (hfields st ! i))) [0..<length (hfields st)]) st 0"
proof -
  let ?idx = "sort_key (\<lambda>i. fst (raw (hfields st ! i))) [0..<length (hfields st)]"
  let ?xs = "map (\<lambda>i. raw (hfields st ! i)) ?idx"
  have "mset ?xs = mset (map raw (hfields st))"
    by (rule mset_map_indices) simp
  then have t: "tiles (length (arena st)) (mset ?xs + mset (free st))"
    using assms by (simp add: layout_ok_def)
  have "sorted (map fst ?xs)" by (simp add: comp_def)
  from tiles_sorted_disjoint [OF t this]
  have "sorted_wrt (\<lambda>i j. snd (raw (hfields st ! i)) \<le> fst (raw (hfields st ! j))) ?idx"
    by (simp add: sorted_wrt_map)
  then show ?thesis
    using assms field_bounds [OF assms] by (auto simp: compacting_def layout_ok_def)
qed

lemma compact_ok:
  assumes "layout_ok st"
  obtains st' where "compact st = (st', Inr ())" "store_ok st'" "contents st' = contents st"
    "free st' = []" "ceiling_of st' = ceiling_of st" "length (arena st') = live st"
proof -
  let ?idx = "sort_key (\<lambda>i. fst (raw (hfields st ! i))) [0..<length (hfields st)]"
  obtain st1 n where l: "compact_loop ?idx st 0 = (st1, Inr n)" and c: "compacting ?idx [] st1 n"
    and s: "contents st1 = contents st" "ceiling_of st1 = ceiling_of st"
    using compacting_loop [OF compacting_start [OF assms]] by auto
  let ?st = "st1\<lparr>arena := take n (arena st1), free := []\<rparr>"
  have n: "n \<le> length (arena st1)" and small: "length (arena st1) \<le> isize_max"
    using c by (simp_all add: compacting_def)
  have "mset (map (\<lambda>i. raw (hfields st1 ! i)) ?idx) = mset (map raw (hfields st1))"
    using c by (intro mset_map_indices) (simp add: compacting_def)
  then have t: "tiles n (mset (map raw (hfields st1)))"
    using c unfolding compacting_def tiles_def by blast
  have same: "arena_slice (take n (arena st1)) (raw f) = arena_slice (arena st1) (raw f)"
    if "f \<in> set (hfields st1)" for f
    using tiles_bounds [OF t, of "raw f"] that by (simp add: arena_slice_def slice_take_within)
  have lay: "layout_ok ?st"
    using t n small c s(2) assms name_ok_cong [OF same]
    by (simp add: layout_ok_def compacting_def min_absorb2)
  have cont: "contents ?st = contents st" using same unfolding s(1) [symmetric] by (simp add: contents_def)
  have "length (arena ?st) = live st"
    using live_plus_holes [OF lay] cont by (simp add: live_def)
  moreover have "compact st = (?st, Inr ())" by (simp add: compact_def l)
  moreover have "store_ok ?st" using lay by (simp add: store_ok_def)
  ultimately show thesis using that [of ?st] cont s(2) by simp
qed

section \<open>Insertion\<close>

text \<open>What \<open>insert\<close> establishes when the bytes went to \<open>start\<close>.\<close>

definition placed :: "header_store \<Rightarrow> bytes \<Rightarrow> nat \<Rightarrow> header_store \<Rightarrow> bool" where
  "placed st bs start st' \<longleftrightarrow>
     tiles (length (arena st')) (add_mset (start, start + length bs)
       (mset (map raw (hfields st')) + mset (free st'))) \<and>
     arena_slice (arena st') (start, start + length bs) = bs \<and>
     hfields st' = hfields st \<and>
     (\<forall>f \<in> set (hfields st). arena_slice (arena st') (raw f) = arena_slice (arena st) (raw f)) \<and>
     sorted_wrt (\<lambda>r s. snd r < fst s) (free st') \<and>
     (free st' \<noteq> [] \<longrightarrow> snd (last (free st')) < length (arena st')) \<and>
     length (arena st') \<le> isize_max \<and> ceiling_of st' = ceiling_of st"

lemma place_at_end:
  assumes "store_ok st" and "bs \<noteq> []" and "length (arena st) + length bs \<le> isize_max"
  shows "placed st bs (length (arena st)) (st\<lparr>arena := arena st @ bs\<rparr>)"
proof -
  have lay: "layout_ok st" using assms(1) by (simp add: store_ok_def)
  have "tiles (length (arena st) + length bs) (add_mset (length (arena st), length (arena st) + length bs)
      (mset (map raw (hfields st)) + mset (free st)))"
    using lay assms(2) by (intro tiles_snoc) (auto simp: layout_ok_def)
  moreover have "\<forall>f \<in> set (hfields st). arena_slice (arena st @ bs) (raw f) = arena_slice (arena st) (raw f)"
    using field_bounds [OF lay] by (simp add: arena_slice_def slice_append_within)
  ultimately show ?thesis
    using assms slice_append_new [of "arena st" bs]
    by (auto simp: placed_def store_ok_def arena_slice_def)
qed

lemma place_in_hole:
  assumes ok: "store_ok st" and ne: "bs \<noteq> []" and p: "p < length (free st)"
    and fits: "length bs \<le> range_len (free st ! p)"
  defines "a \<equiv> fst (free st ! p)" and "b \<equiv> snd (free st ! p)"
  defines "e \<equiv> a + length bs"
  defines "fr \<equiv> (free st)[p := (e, b)]"
  defines "st' \<equiv> st\<lparr>arena := take a (arena st) @ bs @ drop e (arena st),
      free := if b \<le> e then take p fr @ drop (Suc p) fr else fr\<rparr>"
  shows "placed st bs a st'" and "e \<le> isize_max"
proof -
  let ?n = "length (arena st)" let ?xs = "take p (free st)" let ?ys = "drop (Suc p) (free st)"
  let ?M = "mset (map raw (hfields st)) + mset ?xs + mset ?ys"
  have lay: "layout_ok st" using ok by (simp add: store_ok_def)
  have split: "free st = ?xs @ (a, b) # ?ys"
    using id_take_nth_drop [OF p] by (simp add: a_def b_def)
  have fr: "fr = ?xs @ (e, b) # ?ys" using p by (simp add: fr_def upd_conv_take_nth_drop)
  have "mset (free st) = add_mset (a, b) (mset ?xs + mset ?ys)" by (subst split) simp
  then have t: "tiles ?n (add_mset (a, b) ?M)"
    using lay by (simp add: layout_ok_def ac_simps)
  have bounds: "a < b" "b \<le> ?n" using tiles_bounds [OF t, of "(a, b)"] by simp_all
  have e: "a < e" "e \<le> b" using ne fits bounds by (simp_all add: e_def a_def b_def range_len_def)
  show "e \<le> isize_max" using e bounds lay by (simp add: layout_ok_def)
  have len: "length (arena st') = ?n" using e bounds by (simp add: st'_def e_def)
  have sorted: "sorted_wrt (\<lambda>r s. snd r < fst s) (?xs @ (a, b) # ?ys)" and
    lst: "snd (last (?xs @ (a, b) # ?ys)) < ?n"
    using ok split by (auto simp: store_ok_def)
  have "tiles ?n (add_mset (a, e) (mset (map raw (hfields st)) + mset (free st')))"
  proof (cases "b \<le> e")
    case True
    then have "b = e" using e by simp
    then show ?thesis using t True p by (simp add: st'_def fr add.assoc)
  next
    case False
    then have "tiles ?n (add_mset (a, e) (add_mset (e, b) ?M))"
      using tiles_split [OF t] e by simp
    then show ?thesis using False by (simp add: st'_def fr ac_simps)
  qed
  moreover have "arena_slice (arena st') (raw f) = arena_slice (arena st) (raw f)"
    if "f \<in> set (hfields st)" for f
  proof -
    have "separate (a, b) (raw f)" using tiles_separate [OF t, of "raw f"] that by simp
    then have "separate (raw f) (a, a + length bs)" using e by (auto simp: separate_def e_def)
    from slice_update_separate [OF this, of "arena st"] field_bounds [OF lay that] e bounds
    show ?thesis by (simp add: st'_def arena_slice_def e_def)
  qed
  moreover have "arena_slice (arena st') (a, a + length bs) = bs"
    using slice_update_same [of a bs "arena st"] e bounds by (simp add: st'_def arena_slice_def e_def)
  moreover have "sorted_wrt (\<lambda>r s. snd r < fst s) (free st')"
    using sorted e p by (auto simp: st'_def fr sorted_wrt_append)
  moreover have "free st' \<noteq> [] \<longrightarrow> snd (last (free st')) < ?n"
  proof (cases "?ys = []")
    case True
    have "snd (last ?xs) < ?n" if "?xs \<noteq> []"
      using sorted that bounds by (auto simp: sorted_wrt_append dest: bspec [OF _ last_in_set])
    then show ?thesis using lst True p by (auto simp: st'_def fr)
  next
    case False
    then show ?thesis using lst p by (auto simp: st'_def fr)
  qed
  ultimately show "placed st bs a st'"
    using lay len by (simp add: placed_def layout_ok_def e_def st'_def)
qed

lemma placed_field:
  assumes "layout_ok st" and "placed st bs start st'"
    and "i \<le> length (hfields st)"
  defines "f \<equiv> \<lparr>raw = (start, start + length bs),
      hf_name = map_option (\<lambda>n. (start, start + length n)) (f_name (field_from_bytes bs))\<rparr>"
  defines "st2 \<equiv> st'\<lparr>hfields := take i (hfields st') @ f # drop i (hfields st')\<rparr>"
  shows "store_ok st2" "contents st2 = take i (contents st) @ bs # drop i (contents st)"
    "ceiling_of st2 = ceiling_of st"
proof -
  have proj: "arena st2 = arena st'" "free st2 = free st'" "ceiling_of st2 = ceiling_of st'"
    by (simp_all add: st2_def)
  have ms: "image_mset raw (mset (hfields st2)) = add_mset (start, start + length bs) (image_mset raw (mset (hfields st')))"
    unfolding st2_def
    by (simp add: f_def) (metis append_take_drop_id image_mset_union mset_append)
  have nm: "name_ok (arena st') g" if "g \<in> set (hfields st2)" for g
  proof -
    have "g = f \<or> g \<in> set (hfields st)"
      using that assms(2) by (auto simp: st2_def placed_def dest: in_set_takeD in_set_dropD)
    then show ?thesis
    proof
      assume "g = f"
      then show ?thesis using assms(2) by (simp add: name_ok_def f_def placed_def)
    next
      assume "g \<in> set (hfields st)"
      then show ?thesis
        using assms(1,2) name_ok_cong [of "arena st'" g "arena st"] by (simp add: placed_def layout_ok_def)
    qed
  qed
  show "store_ok st2"
    using assms(1,2) nm by (auto simp: store_ok_def layout_ok_def placed_def proj ms)
  show "contents st2 = take i (contents st) @ bs # drop i (contents st)"
    using assms(2) by (auto simp: contents_def st2_def f_def placed_def take_map drop_map
        dest: in_set_takeD in_set_dropD)
  show "ceiling_of st2 = ceiling_of st" using assms(2) by (simp add: st2_def placed_def)
qed

lemma place_bytes_ok:
  assumes "store_ok st" and "bs \<noteq> []" and "length bs \<le> isize_max"
    and "fitting_hole st (length bs) \<noteq> None \<or> length (arena st) + length bs \<le> ceiling_of st"
  obtains start st' where "place_bytes (fitting_hole st (length bs)) bs st = (st', Inr start)"
    "placed st bs start st'" "start + length bs \<le> isize_max"
proof (cases "fitting_hole st (length bs)")
  case None
  with assms have room: "length (arena st) + length bs \<le> isize_max"
    by (auto simp: store_ok_def layout_ok_def)
  with assms None show thesis
    using that [of "st\<lparr>arena := arena st @ bs\<rparr>" "length (arena st)"] isize_usize(1) [OF room]
      place_at_end [OF assms(1,2) room]
    by (simp add: place_bytes_def checked_add_def check_limit_def)
next
  case (Some p)
  then have p: "p < length (free st)" "length bs \<le> range_len (free st ! p)"
    using position_SomeD [of _ "free st" p] by (auto simp: fitting_hole_def)
  from place_in_hole [OF assms(1,2) p] isize_usize(1) Some show thesis
    by (intro that) (auto simp: place_bytes_def checked_add_def Let_def split: if_splits)
qed

lemma place_bytes_full:
  assumes "fitting_hole st (length bs) = None" and "length (arena st) + length bs \<le> usize_max"
    and "\<not> length (arena st) + length bs \<le> ceiling_of st"
  shows "place_bytes (fitting_hole st (length bs)) bs st =
    (st, Inl (LimitExceeded Limit_Headers (ceiling_of st)))"
  using assms by (simp add: place_bytes_def checked_add_def check_limit_def)

text \<open>
  \<open>insert\<close> succeeds exactly when the live fields leave room below the ceiling or a hole is
  large enough, whatever the fragmentation; when it fails, the fields are untouched.
\<close>

lemma store_insert_cases:
  assumes ok: "store_ok st" and i: "i \<le> length (hfields st)" and ne: "bs \<noteq> []"
    and bs: "length bs \<le> isize_max"
  shows "\<exists>st'. store_ok st' \<and> ceiling_of st' = ceiling_of st \<and>
    (if fitting_hole st (length bs) \<noteq> None \<or> live st + length bs \<le> ceiling_of st
     then store_insert i bs st = (st', Inr ()) \<and>
       contents st' = take i (contents st) @ bs # drop i (contents st)
     else store_insert i bs st = (st', Inl (LimitExceeded Limit_Headers (ceiling_of st))) \<and>
       contents st' = contents st)"
proof -
  let ?n = "length bs"
  have lay: "layout_ok st" using ok by (simp add: store_ok_def)
  define st1 where "st1 = (if fitting_hole st ?n = None \<and> length (arena st) + ?n > ceiling_of st
    then fst (compact st) else st)"
  obtain c where c: "compact st = (c, Inr ())" "store_ok c" "contents c = contents st"
    "free c = []" "ceiling_of c = ceiling_of st" "length (arena c) = live st"
    using lay by (rule compact_ok)
  have le: "live st \<le> length (arena st)" using live_plus_holes [OF lay] by simp
  have small: "length (arena st) + ?n \<le> usize_max"
    using lay bs by (intro isize_usize(2)) (simp_all add: layout_ok_def)
  have st1: "store_ok st1" "contents st1 = contents st" "ceiling_of st1 = ceiling_of st"
      "length (arena st1) + ?n \<le> usize_max"
    using ok c small le by (auto simp: st1_def)
  have i1: "i \<le> length (hfields st1)" using i st1(2) by (metis length_contents)
  have lay1: "layout_ok st1" using st1(1) by (simp add: store_ok_def)
  have room: "(fitting_hole st1 ?n \<noteq> None \<or> length (arena st1) + ?n \<le> ceiling_of st1) \<longleftrightarrow>
      (fitting_hole st ?n \<noteq> None \<or> live st + ?n \<le> ceiling_of st)"
    using c le by (auto simp: st1_def fitting_hole_def)
  have run: "store_insert i bs st =
     (case place_bytes (fitting_hole st1 ?n) bs st1 of
        (st2, Inl e) \<Rightarrow> (st2, Inl e)
      | (st2, Inr start) \<Rightarrow>
          (case checked_add start ?n of
             None \<Rightarrow> (st2, Inl SizeOverflow)
           | Some end_at \<Rightarrow>
               (case f_name (field_from_bytes bs) of
                  None \<Rightarrow>
                    (st2\<lparr>hfields := take i (hfields st2) @
                       \<lparr>raw = (start, end_at), hf_name = None\<rparr> # drop i (hfields st2)\<rparr>, Inr ())
                | Some name \<Rightarrow>
                    (case checked_add start (length name) of
                       None \<Rightarrow> (st2, Inl SizeOverflow)
                     | Some name_end \<Rightarrow>
                         (st2\<lparr>hfields := take i (hfields st2) @
                            \<lparr>raw = (start, end_at), hf_name = Some (start, name_end)\<rparr> #
                            drop i (hfields st2)\<rparr>, Inr ())))))"
    using ne small c(1) by (simp add: store_insert_def checked_add_def [of "length (arena st)"] st1_def)
  show ?thesis
  proof (cases "fitting_hole st ?n \<noteq> None \<or> live st + ?n \<le> ceiling_of st")
    case True
    then have "fitting_hole st1 ?n \<noteq> None \<or> length (arena st1) + ?n \<le> ceiling_of st1"
      using room by blast
    then obtain start st2 where p: "place_bytes (fitting_hole st1 ?n) bs st1 = (st2, Inr start)"
      "placed st1 bs start st2" "start + ?n \<le> usize_max"
      using isize_usize(1) by (auto intro: place_bytes_ok [OF st1(1) ne bs])
    note f = placed_field [OF lay1 p(2) i1]
    have "store_insert i bs st = (st2\<lparr>hfields := take i (hfields st2) @
        \<lparr>raw = (start, start + ?n),
         hf_name = map_option (\<lambda>n. (start, start + length n)) (f_name (field_from_bytes bs))\<rparr> #
        drop i (hfields st2)\<rparr>, Inr ())"
      unfolding run p(1) using p(3) f_name_prefix [of bs]
      by (auto simp: checked_add_def split: option.splits)
    then show ?thesis using True f st1 by auto
  next
    case False
    then have "place_bytes (fitting_hole st1 ?n) bs st1 =
        (st1, Inl (LimitExceeded Limit_Headers (ceiling_of st)))"
      using room st1 place_bytes_full [of st1 bs] by simp
    then show ?thesis using False st1 by (auto simp: run)
  qed
qed

end
