(* ===== verification/Header_Sequence.thy ===== *)
theory Header_Sequence
  imports Header_Arena
begin

text \<open>
  The contract of a store of header fields, as the locale \<open>field_sequence\<close>: seen from
  outside, a store is a list of non-empty byte strings whose total length is bounded by a
  capacity; removing and inserting act on this list, and an insertion that respects the
  capacity succeeds.  The lemmas about replacing a field are proved from the contract alone.
  The arena of \<open>HeaderStore\<close> provides it, and the editing loops and bulk removals are shown
  to refine list functions.
\<close>

locale field_sequence =
  fixes ok :: "'s \<Rightarrow> bool"
    and abs :: "'s \<Rightarrow> bytes list"
    and cap :: "'s \<Rightarrow> nat"
    and rem :: "nat \<Rightarrow> 's \<Rightarrow> 's"
    and ins :: "nat \<Rightarrow> bytes \<Rightarrow> 's \<Rightarrow> 's \<times> ('e + unit)"
    and longest :: nat
  assumes rem_ok: "ok s \<Longrightarrow> i < length (abs s) \<Longrightarrow> ok (rem i s)"
    and rem_abs: "ok s \<Longrightarrow> i < length (abs s) \<Longrightarrow> abs (rem i s) = take i (abs s) @ drop (Suc i) (abs s)"
    and rem_cap: "ok s \<Longrightarrow> i < length (abs s) \<Longrightarrow> cap (rem i s) = cap s"
    and ins_any: "ok s \<Longrightarrow> i \<le> length (abs s) \<Longrightarrow> length bs \<le> longest \<Longrightarrow> ins i bs s = (s', r) \<Longrightarrow>
      ok s' \<and> cap s' = cap s \<and>
      abs s' = (case r of Inl _ \<Rightarrow> abs s | Inr _ \<Rightarrow> take i (abs s) @ bs # drop i (abs s))"
    and ins_room: "ok s \<Longrightarrow> i \<le> length (abs s) \<Longrightarrow> bs \<noteq> [] \<Longrightarrow> length bs \<le> longest \<Longrightarrow>
      sum_list (map length (abs s)) + length bs \<le> cap s \<Longrightarrow> snd (ins i bs s) = Inr ()"
begin

lemma split_at:
  "i < length xs \<Longrightarrow> xs = take i xs @ xs ! i # drop (Suc i) xs"
  by (rule id_take_nth_drop)

lemma rem_total:
  assumes "ok s" and "i < length (abs s)"
  shows "sum_list (map length (abs (rem i s))) + length (abs s ! i) = sum_list (map length (abs s))"
proof -
  have "sum_list (map length (abs s)) =
      sum_list (map length (take i (abs s) @ abs s ! i # drop (Suc i) (abs s)))"
    using split_at [OF assms(2)] by simp
  then show ?thesis using rem_abs [OF assms] by simp
qed

lemma replace_any:
  assumes "ok s" and "i < length (abs s)" and "length bs \<le> longest"
    and "ins i bs (rem i s) = (s', r)"
  shows "ok s'" "cap s' = cap s"
    "abs s' = (case r of Inl _ \<Rightarrow> take i (abs s) @ drop (Suc i) (abs s) | Inr _ \<Rightarrow> (abs s)[i := bs])"
proof -
  have len: "i \<le> length (abs (rem i s))"
    using rem_abs [OF assms(1,2)] assms(2) by simp
  note a = ins_any [OF rem_ok [OF assms(1,2)] len assms(3,4)]
  show "ok s'" "cap s' = cap s" using a rem_cap [OF assms(1,2)] by simp_all
  show "abs s' = (case r of Inl _ \<Rightarrow> take i (abs s) @ drop (Suc i) (abs s) | Inr _ \<Rightarrow> (abs s)[i := bs])"
    using a rem_abs [OF assms(1,2)] assms(2)
    by (auto simp: upd_conv_take_nth_drop min_def split: sum.splits)
qed

lemma replace_room:
  assumes "ok s" and "i < length (abs s)" and "bs \<noteq> []" and "length bs \<le> longest"
    and "sum_list (map length ((abs s)[i := bs])) \<le> cap s"
  obtains s' where "ins i bs (rem i s) = (s', Inr ())" "ok s'" "cap s' = cap s"
    "abs s' = (abs s)[i := bs]"
proof -
  obtain s' r where s': "ins i bs (rem i s) = (s', r)" by fastforce
  have "sum_list (map length (abs (rem i s))) + length bs = sum_list (map length ((abs s)[i := bs]))"
    using rem_abs [OF assms(1,2)] assms(2) by (simp add: upd_conv_take_nth_drop)
  then have "snd (ins i bs (rem i s)) = Inr ()"
    using assms rem_abs [OF assms(1,2)] rem_cap [OF assms(1,2)]
    by (intro ins_room rem_ok) auto
  then show thesis using that replace_any [OF assms(1,2,4) s'] s' by simp
qed

end

lemma store_insert_any:
  assumes "store_ok st" and "i \<le> length (contents st)" and "length bs \<le> isize_max"
    and "store_insert i bs st = (st', r)"
  shows "store_ok st' \<and> ceiling_of st' = ceiling_of st \<and>
    contents st' = (case r of Inl _ \<Rightarrow> contents st | Inr _ \<Rightarrow> take i (contents st) @ bs # drop i (contents st))"
proof (cases "bs = []")
  case True
  with assms show ?thesis by (auto simp: store_insert_def)
next
  case False
  from store_insert_cases [OF assms(1) _ False assms(3), of i] assms(2,4)
  show ?thesis by (auto split: if_splits)
qed

interpretation hs: field_sequence store_ok contents ceiling_of store_remove store_insert isize_max
proof
  fix st :: header_store and i :: nat
  assume "store_ok st" "i < length (contents st)"
  then show "store_ok (store_remove i st)"
    "contents (store_remove i st) = take i (contents st) @ drop (Suc i) (contents st)"
    "ceiling_of (store_remove i st) = ceiling_of st"
    using store_remove_ok by simp_all
next
  fix st :: header_store and i :: nat and bs st' and r :: "header_edit_error + unit"
  assume "store_ok st" "i \<le> length (contents st)" "length bs \<le> isize_max"
    "store_insert i bs st = (st', r)"
  then show "store_ok st' \<and> ceiling_of st' = ceiling_of st \<and>
    contents st' = (case r of Inl _ \<Rightarrow> contents st | Inr _ \<Rightarrow> take i (contents st) @ bs # drop i (contents st))"
    by (rule store_insert_any)
next
  fix st :: header_store and i :: nat and bs :: bytes
  assume a: "store_ok st" "i \<le> length (contents st)" "bs \<noteq> []" "length bs \<le> isize_max"
    "sum_list (map length (contents st)) + length bs \<le> ceiling_of st"
  then show "snd (store_insert i bs st) = Inr ()"
    using store_insert_cases [OF a(1) _ a(3,4), of i] by (auto simp: live_def)
qed

section \<open>Editing loops\<close>

fun apply_edit :: "(field \<Rightarrow> field_edit) \<Rightarrow> bytes \<Rightarrow> bytes list" where
  "apply_edit edit bs =
     (case edit (field_from_bytes bs) of Keep \<Rightarrow> [bs] | Replace cs \<Rightarrow> [cs] | Delete \<Rightarrow> [])"

text \<open>The replacements that an edit makes in a list of fields are slices, never empty.\<close>

definition edits_fit :: "(field \<Rightarrow> field_edit) \<Rightarrow> bytes list \<Rightarrow> bool" where
  "edits_fit edit xs \<longleftrightarrow>
     (\<forall>x \<in> set xs. \<forall>cs. edit (field_from_bytes x) = Replace cs \<longrightarrow> length cs \<le> isize_max)"

definition edit_room :: "(field \<Rightarrow> field_edit) \<Rightarrow> bytes \<Rightarrow> nat" where
  "edit_room edit x = max (length x) (length (concat (apply_edit edit x)))"

lemma edit_fields_ok:
  assumes "store_ok st" and "i \<le> length (contents st)"
    and "edits_fit edit (drop i (contents st))"
    and "edit_fields edit i st = (st', r)"
  shows "store_ok st' \<and> ceiling_of st' = ceiling_of st \<and>
    (r = Inr () \<longrightarrow>
       contents st' = take i (contents st) @ concat (map (apply_edit edit) (drop i (contents st)))) \<and>
    ((\<forall>x \<in> set (drop i (contents st)). edit (field_from_bytes x) \<noteq> Replace []) \<longrightarrow>
      sum_list (map length (take i (contents st))) +
        sum_list (map (edit_room edit) (drop i (contents st))) \<le> ceiling_of st \<longrightarrow> r = Inr ())"
  using assms
proof (induction edit i st arbitrary: st' r rule: edit_fields.induct)
  case (1 edit i st)
  note IH = "1.IH"
  have ok: "store_ok st" using "1.prems" by blast
  show ?case
  proof (cases "i < length (hfields st)")
    case False
    then show ?thesis using "1.prems" by (simp add: edit_fields.simps)
  next
    case True
    let ?x = "contents st ! i" let ?rest = "drop (Suc i) (contents st)"
    have f: "store_field st i = field_from_bytes ?x"
      using ok True by (simp add: store_field_eq store_ok_def)
    have d: "drop i (contents st) = ?x # ?rest"
      using True by (simp add: Cons_nth_drop_Suc)
    have t: "take (Suc i) (contents st) = take i (contents st) @ [?x]"
      using True by (simp add: take_Suc_conv_app_nth)
    have i': "i < length (contents st)" using True by simp
    have fit: "edits_fit edit ?rest" and fit_x: "edit (field_from_bytes ?x) = Replace cs \<Longrightarrow> length cs \<le> isize_max" for cs
      using "1.prems"(3) by (simp_all add: edits_fit_def d)
    show ?thesis
    proof (cases "edit (store_field st i)")
      case Keep
      then have "edit_fields edit (i + 1) st = (st', r)"
        using "1.prems"(4) True by (simp add: edit_fields.simps [of edit i])
      from IH(1) [OF True Keep ok _ _ this] show ?thesis
        using True Keep f d t fit by (simp add: edit_room_def)
    next
      case Delete
      note rem = hs.rem_ok [OF ok i'] hs.rem_abs [OF ok i'] hs.rem_cap [OF ok i']
      have e: "edit_fields edit i (store_remove i st) = (st', r)"
        using "1.prems"(4) True Delete by (simp add: edit_fields.simps [of edit i st])
      have len: "i \<le> length (contents (store_remove i st))" using rem(2) i' by simp
      have dr: "drop i (contents (store_remove i st)) = ?rest"
        "take i (contents (store_remove i st)) = take i (contents st)"
        using rem(2) i' by simp_all
      from IH(3) [OF True Delete rem(1) len _ e] show ?thesis
        using rem(3) dr fit Delete f d by (simp add: edit_room_def)
    next
      case (Replace cs)
      obtain s1 r1 where s1: "store_insert i cs (store_remove i st) = (s1, r1)" by fastforce
      have cs: "length cs \<le> isize_max" using fit_x Replace f by simp
      note rp = hs.replace_any [OF ok i' cs s1]
      have room: "r1 = Inr ()" if "cs \<noteq> []"
        and "sum_list (map length (take i (contents st))) + sum_list (map (edit_room edit) (drop i (contents st)))
             \<le> ceiling_of st"
      proof -
        have "sum_list (map length ?rest) \<le> sum_list (map (edit_room edit) ?rest)"
          by (rule sum_list_mono) (simp add: edit_room_def)
        then have "sum_list (map length ((contents st)[i := cs])) \<le> ceiling_of st"
          using that(2) Replace f i' by (simp add: upd_conv_take_nth_drop d edit_room_def)
        from hs.replace_room [OF ok i' that(1) cs this] s1 show ?thesis by auto
      qed
      show ?thesis
      proof (cases r1)
        case (Inl err)
        then show ?thesis
          using "1.prems"(4) True Replace s1 rp room f d by (auto simp: edit_fields.simps [of edit i st])
      next
        case (Inr u)
        have e: "edit_fields edit (i + 1) s1 = (st', r)"
          using "1.prems"(4) True Replace s1 Inr by (simp add: edit_fields.simps [of edit i st])
        have c1: "drop (i + 1) (contents s1) = ?rest"
          "take (i + 1) (contents s1) = take i (contents st) @ [cs]" "i + 1 \<le> length (contents s1)"
          using rp(3) Inr i' by (simp_all add: upd_conv_take_nth_drop)
        from IH(2) [OF True Replace s1 [symmetric] Inr rp(1) c1(3) _ e] show ?thesis
          using rp(2) c1 fit Replace f d by (auto simp: edit_room_def)
      qed
    qed
  qed
qed

section \<open>Building a store\<close>

lemma checked_sum_eq:
  "checked_sum ks n = (if n + sum_list ks \<le> usize_max then Inr (n + sum_list ks) else Inl SizeOverflow)"
  if "n \<le> usize_max"
  using that by (induction ks arbitrary: n) (auto simp: checked_add_def ac_simps)

lemma insert_all_ok:
  assumes "store_ok st" and "\<forall>f \<in> set fs. f_bytes f \<noteq> [] \<and> length (f_bytes f) \<le> isize_max"
    and "sum_list (map length (contents st)) + sum_list (map (\<lambda>f. length (f_bytes f)) fs) \<le> ceiling_of st"
  obtains st' where "insert_all fs st = Inr st'" "store_ok st'" "ceiling_of st' = ceiling_of st"
    "contents st' = contents st @ map f_bytes fs"
  using assms
proof (induction fs arbitrary: st thesis)
  case Nil
  then show ?case by simp
next
  case (Cons f fs)
  obtain s1 r where s1: "store_insert (length (hfields st)) (f_bytes f) st = (s1, r)" by fastforce
  have len: "length (hfields st) \<le> length (contents st)" by simp
  have f: "f_bytes f \<noteq> []" "length (f_bytes f) \<le> isize_max" using Cons.prems by auto
  have "r = Inr ()"
    using hs.ins_room [OF Cons.prems(2) len f] Cons.prems(4) s1 by simp
  moreover from hs.ins_any [OF Cons.prems(2) len f(2) s1] calculation
  have *: "store_ok s1" "ceiling_of s1 = ceiling_of st" "contents s1 = contents st @ [f_bytes f]"
    by simp_all
  ultimately show ?case
    using Cons.IH [of s1] Cons.prems s1 by (auto simp: ac_simps)
qed

lemma empty_store_ok:
  "limit \<le> isize_max \<Longrightarrow> store_ok \<lparr>arena = [], hfields = [], free = [], ceiling_of = limit\<rparr>"
  by (simp add: store_ok_def layout_ok_def)

lemma store_new_room:
  assumes "\<forall>f \<in> set fs. f_bytes f \<noteq> []" and "limit \<le> isize_max"
    and fit: "sum_list (map (\<lambda>f. length (f_bytes f)) fs) \<le> limit"
  shows "\<exists>st. store_new fs limit = Inr st \<and> store_ok st \<and> ceiling_of st = limit \<and>
    contents st = map f_bytes fs"
proof -
  let ?n = "sum_list (map (\<lambda>f. length (f_bytes f)) fs)"
  have small: "?n \<le> usize_max" using fit assms(2) isize_usize(1) order_trans by blast
  have "length (f_bytes f) \<le> isize_max" if "f \<in> set fs" for f
    using member_le_sum_list [of "length (f_bytes f)" "map (\<lambda>f. length (f_bytes f)) fs"] that fit assms(2)
    by auto
  then have each: "\<forall>f \<in> set fs. f_bytes f \<noteq> [] \<and> length (f_bytes f) \<le> isize_max"
    using assms(1) by simp
  let ?e = "\<lparr>arena = [], hfields = [], free = [], ceiling_of = limit\<rparr>"
  have "sum_list (map length (contents ?e)) + ?n \<le> ceiling_of ?e" using fit by (simp add: contents_def)
  then obtain st where "insert_all fs ?e = Inr st" "store_ok st" "ceiling_of st = ceiling_of ?e"
    "contents st = contents ?e @ map f_bytes fs"
    by (rule insert_all_ok [OF empty_store_ok [OF assms(2)] each])
  then show ?thesis
    using small fit by (simp add: store_new_def checked_sum_eq check_limit_def contents_def)
qed

text \<open>
  A store built from the fields of a header holds exactly their bytes, in order, in a
  well-formed arena, and building it fails only for a header above the ceiling.
\<close>

theorem store_new_contents:
  assumes "\<forall>f \<in> set fs. f_bytes f \<noteq> []" and "limit \<le> isize_max"
  shows "if sum_list (map (\<lambda>f. length (f_bytes f)) fs) \<le> limit
    then \<exists>st. store_new fs limit = Inr st \<and> store_ok st \<and> ceiling_of st = limit \<and>
      contents st = map f_bytes fs
    else \<exists>e. store_new fs limit = Inl e"
  using store_new_room [OF assms] by (auto simp: store_new_def checked_sum_eq check_limit_def)

theorem store_new_contents_witness:
  "\<exists>st. store_new [field_from_bytes (ascii ''A:b'' @ [LF]), field_from_bytes (ascii ''C:d'')] 9 = Inr st \<and>
     contents st = [ascii ''A:b'' @ [LF], ascii ''C:d'']"
  using store_new_contents
    [of "[field_from_bytes (ascii ''A:b'' @ [LF]), field_from_bytes (ascii ''C:d'')]" 9]
  by (auto simp: isize_max_def)

text \<open>
  C29. Inserting a field into a well-formed store succeeds exactly when a hole is large enough
  or the live bytes and the new ones fit below the ceiling, however fragmented the arena is.
  On success the field stands at the requested position between unchanged neighbours; on
  failure every field is unchanged; both leave a well-formed store.
\<close>

theorem store_insert_outcome:
  assumes "store_ok st" and "i \<le> length (hfields st)" and "bs \<noteq> []" and "length bs \<le> isize_max"
  shows "\<exists>st'. store_ok st' \<and>
    (if (\<exists>r \<in> set (free st). length bs \<le> range_len r) \<or> live st + length bs \<le> ceiling_of st
     then store_insert i bs st = (st', Inr ()) \<and>
       contents st' = take i (contents st) @ bs # drop i (contents st)
     else store_insert i bs st = (st', Inl (LimitExceeded Limit_Headers (ceiling_of st))) \<and>
       contents st' = contents st)"
proof -
  have "fitting_hole st (length bs) \<noteq> None \<longleftrightarrow> (\<exists>r \<in> set (free st). length bs \<le> range_len r)"
    by (auto simp: fitting_hole_def position_None_iff)
  with store_insert_cases [OF assms] show ?thesis by metis
qed

theorem store_insert_outcome_witness:
  "\<exists>st'. store_ok st' \<and>
     store_insert 0 (ascii ''A:'') \<lparr>arena = [], hfields = [], free = [], ceiling_of = 1\<rparr> =
       (st', Inl (LimitExceeded Limit_Headers 1))"
  using store_insert_outcome [of "\<lparr>arena = [], hfields = [], free = [], ceiling_of = 1\<rparr>" 0 "ascii ''A:''"]
  by (auto simp: empty_store_ok isize_max_def live_def contents_def)

lemma tiles_next:
  assumes "tiles n M" and "r \<in># M" and "snd r < n"
  shows "\<exists>s. s \<in># M \<and> fst s = snd r"
proof -
  obtain M' where M: "M = add_mset r M'" using assms(2) by (metis mset_add)
  then obtain xs ys where c: "chain 0 (xs @ r # ys) n" "mset (xs @ ys) = M'"
    using assms(1) by (auto elim: tiles_obtain)
  then obtain s zs where "ys = s # zs" using assms(3) by (cases ys) (auto simp: chain_append)
  with c M have "s \<in># M" and "fst s = snd r" by (auto simp: chain_append)
  then show ?thesis by blast
qed

text \<open>
  The free list never outgrows the field list: in a well-formed store every hole is
  followed by a live field of its own, so there are at most as many holes as fields, and the
  live bytes and the holes add up to the arena.
\<close>

theorem holes_bounded:
  assumes "store_ok st"
  shows "length (free st) \<le> length (hfields st) \<and>
    live st + sum_list (map range_len (free st)) = length (arena st)"
proof -
  let ?M = "mset (map raw (hfields st)) + mset (free st)"
  have lay: "layout_ok st" and sorted: "sorted_wrt (\<lambda>r s. snd r < fst s) (free st)"
    using assms by (simp_all add: store_ok_def)
  have t: "tiles (length (arena st)) ?M" using lay by (simp add: layout_ok_def)
  have ne: "r \<in> set (free st) \<Longrightarrow> fst r < snd r" for r using tiles_bounds [OF t, of r] by simp
  have inner: "fst s \<noteq> snd r" if "r \<in> set (free st)" "s \<in> set (free st)" for r s
  proof -
    from that obtain i j where "i < length (free st)" "j < length (free st)" "free st ! i = r" "free st ! j = s"
      by (meson in_set_conv_nth)
    then show ?thesis
      using sorted_wrt_nth_less [OF sorted, of i j] sorted_wrt_nth_less [OF sorted, of j i]
        ne [OF that(1)] ne [OF that(2)]
      by (cases i j rule: linorder_cases) auto
  qed
  have below: "snd r < length (arena st)" if "r \<in> set (free st)" for r
  proof -
    from that obtain ys z where "free st = ys @ [z]" by (cases "free st" rule: rev_cases) auto
    then show ?thesis using assms that sorted ne [of z] by (auto simp: store_ok_def sorted_wrt_append)
  qed
  have "snd r \<in> set (map (fst \<circ> raw) (hfields st))" if r: "r \<in> set (free st)" for r
  proof -
    have "r \<in># ?M" using r by simp
    from tiles_next [OF t this below [OF r]] obtain s where s: "s \<in># ?M" "fst s = snd r" by blast
    with inner [OF r, of s] have "s \<in> raw ` set (hfields st)" by auto
    then show ?thesis using s(2) by force
  qed
  then have "set (map snd (free st)) \<subseteq> set (map (fst \<circ> raw) (hfields st))" by auto
  moreover have "distinct (map snd (free st))"
  proof -
    have "sorted_wrt (\<lambda>r s. snd r < snd s) (free st)"
      using sorted by (rule sorted_wrt_mono_rel [rotated]) (use ne in force)
    then show ?thesis using strict_sorted_iff [of "map snd (free st)"] by (simp add: sorted_wrt_map)
  qed
  ultimately have "length (free st) \<le> card (set (map (fst \<circ> raw) (hfields st)))"
    by (metis card_mono distinct_card finite_set length_map)
  also have "\<dots> \<le> length (hfields st)" by (metis card_length length_map)
  finally show ?thesis using live_plus_holes [OF lay] by simp
qed

lemma fragmented_store_ok:
  "store_ok \<lparr>arena = ascii ''zzA:'', hfields = [\<lparr>raw = (2, 4), hf_name = Some (2, 3)\<rparr>],
     free = [(0, 2)], ceiling_of = 9\<rparr>"
proof -
  have "tiles (Suc (Suc (Suc (Suc 0)))) {#(0, 2), (2, 4)#}"
    unfolding tiles_def by (rule exI [of _ "[(0, 2), (2, 4)]"]) simp
  then show ?thesis
    by (simp add: store_ok_def layout_ok_def name_ok_def arena_slice_def slice_def
        field_from_bytes_def isize_max_def)
qed

theorem holes_bounded_witness:
  "live \<lparr>arena = ascii ''zzA:'', hfields = [\<lparr>raw = (2, 4), hf_name = Some (2, 3)\<rparr>],
     free = [(0, 2)], ceiling_of = 9\<rparr> + 2 = 4"
  using holes_bounded [OF fragmented_store_ok] by (simp add: range_len_def)

section \<open>Removal of duplicates and matching fields\<close>

lemma retain_stateless: "retain_state (\<lambda>s x. (P x, ())) s xs = (filter P xs, filter (\<lambda>x. \<not> P x) xs)"
  by (induction xs) auto

lemma retained_contents:
  assumes "store_ok st"
  shows "contents (retain_fields keep s st) =
    map f_bytes (fst (retain_state keep s (map field_from_bytes (contents st))))"
  using arg_cong [OF retain_fields_ok(2) [OF assms, of keep s], of "map f_bytes"] by (simp add: comp_def)

text \<open>
  Bulk removal refines filtering of the list of fields: removing by name or by pattern
  keeps exactly the fields that do not match, in order, and leaves a well-formed store.
\<close>

theorem store_remove_matching_filters:
  assumes "store_ok st"
  shows "store_ok (store_remove_matching name st) \<and>
    contents (store_remove_matching name st) =
      filter (\<lambda>x. \<not> name_matches name (field_from_bytes x)) (contents st) \<and>
    store_ok (store_remove_matching_pattern pattern st) \<and>
    contents (store_remove_matching_pattern pattern st) =
      filter (\<lambda>x. \<not> field_matches_pattern (field_from_bytes x) pattern) (contents st)"
  by (simp add: retain_fields_ok(1) [OF assms] retained_contents [OF assms] store_remove_matching_def store_remove_matching_pattern_def retain_stateless
      filter_map comp_def)

theorem store_remove_matching_filters_witness:
  "contents (store_remove_matching (ascii ''a'')
     \<lparr>arena = ascii ''zzA:'', hfields = [\<lparr>raw = (2, 4), hf_name = Some (2, 3)\<rparr>],
      free = [(0, 2)], ceiling_of = 9\<rparr>) = []"
  using store_remove_matching_filters [OF fragmented_store_ok, of "ascii ''a''" "[]"]
  by (simp add: contents_def arena_slice_def slice_def name_matches_def field_from_bytes_def
      eq_ignore_ascii_case_def byte_defs)

text \<open>The positions that survive a pass that drops repeated keys.\<close>

definition fresh_positions :: "bytes \<Rightarrow> bytes list \<Rightarrow> field list \<Rightarrow> nat set" where
  "fresh_positions pattern seen fs =
     {i. field_matches_pattern (fs ! i) pattern \<longrightarrow> name_key (fs ! i) \<notin> set seen \<and>
       (\<forall>j < i. field_matches_pattern (fs ! j) pattern \<longrightarrow> name_key (fs ! j) \<noteq> name_key (fs ! i))}"

lemma unique_nths:
  "fst (retain_state (\<lambda>s x. unique_step pattern s (g x)) seen xs) =
     nths xs (fresh_positions pattern seen (map g xs))"
proof (induction xs arbitrary: seen)
  case Nil
  then show ?case by simp
next
  case (Cons x xs)
  obtain k seen' where u: "unique_step pattern seen (g x) = (k, seen')" by fastforce
  have set_seen: "set seen' = set seen \<union> (if field_matches_pattern (g x) pattern then {name_key (g x)} else {})"
    and k: "k \<longleftrightarrow> (field_matches_pattern (g x) pattern \<longrightarrow> name_key (g x) \<notin> set seen)"
    using u by (auto simp: unique_step_def split: if_splits)
  have "fst (retain_state (\<lambda>s x. unique_step pattern s (g x)) seen (x # xs)) =
      (if k then [x] else []) @ fst (retain_state (\<lambda>s x. unique_step pattern s (g x)) seen' xs)"
    by (simp add: u case_prod_unfold Let_def)
  also have "\<dots> = nths (x # xs) (fresh_positions pattern seen (map g (x # xs)))"
    unfolding nths_Cons
    by (intro arg_cong2 [where f = append] arg_cong [where f = "nths xs"] trans [OF Cons.IH])
      (auto simp: k set_seen All_less_Suc2 fresh_positions_def)
  finally show ?case .
qed

lemma unique_last_indices_retain:
  "unique_last_indices pattern seen ps =
     map fst (fst (retain_state (\<lambda>s q. unique_step pattern s (snd q)) seen ps))"
  by (induction pattern seen ps rule: unique_last_indices.induct)
    (auto simp: unique_step_def case_prod_unfold Let_def)

lemma retain_indices:
  "fst (retain_state (\<lambda>current x. (current \<in> A, Suc current)) n xs) = nths xs {i. n + i \<in> A}"
  by (induction xs arbitrary: n) (auto simp: nths_Cons case_prod_unfold Let_def)

lemma rev_enumerate_nth:
  "k < length fs \<Longrightarrow> rev (enumerate 0 fs) ! k = (length fs - Suc k, fs ! (length fs - Suc k))"
  by (simp add: rev_nth nth_enumerate_eq)

lemma unique_last_set:
  "{i. i < length fs \<and> i \<in> set (unique_last_indices pattern [] (rev (enumerate 0 fs)))} =
   {i. i < length fs \<and> (field_matches_pattern (fs ! i) pattern \<longrightarrow>
      (\<forall>j. i < j \<and> j < length fs \<and> field_matches_pattern (fs ! j) pattern \<longrightarrow>
         name_key (fs ! j) \<noteq> name_key (fs ! i)))}"
proof -
  let ?n = "length fs" let ?ps = "rev (enumerate 0 fs)"
  have m: "map snd ?ps ! k = fs ! (?n - Suc k)" if "k < ?n" for k
    using that by (simp add: rev_enumerate_nth)
  have "i \<in> set (unique_last_indices pattern [] ?ps) \<longleftrightarrow>
      ?n - Suc i \<in> fresh_positions pattern [] (map snd ?ps)" if "i < ?n" for i
  proof -
    have "i \<in> set (unique_last_indices pattern [] ?ps) \<longleftrightarrow>
        (\<exists>k. k < ?n \<and> k \<in> fresh_positions pattern [] (map snd ?ps) \<and> ?n - Suc k = i)"
      unfolding unique_last_indices_retain unique_nths set_map set_nths
      by (force simp: image_iff rev_enumerate_nth)
    also have "\<dots> \<longleftrightarrow> ?n - Suc i \<in> fresh_positions pattern [] (map snd ?ps)"
      using that by (auto intro!: exI [of _ "?n - Suc i"])
    finally show ?thesis .
  qed
  moreover have "?n - Suc i \<in> fresh_positions pattern [] (map snd ?ps) \<longleftrightarrow>
      (field_matches_pattern (fs ! i) pattern \<longrightarrow>
      (\<forall>j. i < j \<and> j < ?n \<and> field_matches_pattern (fs ! j) pattern \<longrightarrow>
         name_key (fs ! j) \<noteq> name_key (fs ! i)))" if "i < ?n" for i
  proof -
    have all: "(\<forall>l < ?n - Suc i. P (?n - Suc l)) \<longleftrightarrow> (\<forall>j. i < j \<and> j < ?n \<longrightarrow> P j)" for P
    proof safe
      fix j assume *: "\<forall>l < ?n - Suc i. P (?n - Suc l)" "i < j" "j < ?n"
      then show "P j" using *(1) [rule_format, of "?n - Suc j"] by simp
    next
      fix l assume "\<forall>j. i < j \<and> j < ?n \<longrightarrow> P j" "l < ?n - Suc i"
      moreover from this have "i < ?n - Suc l" "?n - Suc l < ?n" by simp_all
      ultimately show "P (?n - Suc l)" by blast
    qed
    have "(\<forall>l < ?n - Suc i. field_matches_pattern (map snd ?ps ! l) pattern \<longrightarrow>
          name_key (map snd ?ps ! l) \<noteq> name_key (fs ! i)) \<longleftrightarrow>
        (\<forall>l < ?n - Suc i. field_matches_pattern (fs ! (?n - Suc l)) pattern \<longrightarrow>
          name_key (fs ! (?n - Suc l)) \<noteq> name_key (fs ! i))"
      using m by simp
    then show ?thesis
      using m [of "?n - Suc i"] that
        all [of "\<lambda>j. field_matches_pattern (fs ! j) pattern \<longrightarrow> name_key (fs ! j) \<noteq> name_key (fs ! i)"]
      by (simp add: fresh_positions_def) blast
  qed
  ultimately show ?thesis by auto
qed

lemma nths_cong_length: "{i. i < length xs \<and> i \<in> A} = {i. i < length xs \<and> i \<in> B} \<Longrightarrow> nths xs A = nths xs B"
proof -
  have cut: "nths xs A = nths xs {i. i < length xs \<and> i \<in> A}" for A
    unfolding nths_def by (rule arg_cong [where f = "map fst"], rule filter_cong)
      (auto simp: set_zip)
  assume "{i. i < length xs \<and> i \<in> A} = {i. i < length xs \<and> i \<in> B}"
  then show ?thesis using cut [of A] cut [of B] by simp
qed

text \<open>The positions of the first and of the last matching field of each name.\<close>

definition first_of_name :: "bytes \<Rightarrow> field list \<Rightarrow> nat set" where
  "first_of_name pattern fs =
     {i. field_matches_pattern (fs ! i) pattern \<longrightarrow>
       (\<forall>j < i. field_matches_pattern (fs ! j) pattern \<longrightarrow> name_key (fs ! j) \<noteq> name_key (fs ! i))}"

definition last_of_name :: "bytes \<Rightarrow> field list \<Rightarrow> nat set" where
  "last_of_name pattern fs =
     {i. field_matches_pattern (fs ! i) pattern \<longrightarrow>
       (\<forall>j. i < j \<and> j < length fs \<and> field_matches_pattern (fs ! j) pattern \<longrightarrow>
          name_key (fs ! j) \<noteq> name_key (fs ! i))}"

text \<open>
  Making fields unique keeps every field that does not match and, among the matching
  fields with the same name (ignoring case), exactly the first one, or exactly the last one;
  the order of the survivors does not change.
\<close>

theorem store_make_unique_positions:
  assumes "store_ok st"
  shows "store_ok (store_make_unique_first pattern st) \<and>
    store_ok (store_make_unique_last pattern st) \<and>
    contents (store_make_unique_first pattern st) =
      nths (contents st) (first_of_name pattern (map field_from_bytes (contents st))) \<and>
    contents (store_make_unique_last pattern st) =
      nths (contents st) (last_of_name pattern (map field_from_bytes (contents st)))"
proof -
  let ?fs = "map field_from_bytes (contents st)"
  have undo: "map f_bytes (nths ?fs A) = nths (contents st) A" for A
    by (simp add: nths_map comp_def)
  have "contents (store_make_unique_first pattern st) =
      map f_bytes (nths ?fs (fresh_positions pattern [] ?fs))"
    using unique_nths [of pattern "\<lambda>x. x" "[]" ?fs]
    by (simp add: store_make_unique_first_def retained_contents [OF assms])
  moreover have "contents (store_make_unique_last pattern st) =
      map f_bytes (nths ?fs {i. i \<in> set (unique_last_indices pattern [] (rev (enumerate 0 ?fs)))})"
    using view_fields [of st] assms
    by (simp add: store_make_unique_last_def Let_def retained_contents [OF assms] retain_indices store_ok_def)
  moreover have "nths ?fs {i. i \<in> set (unique_last_indices pattern [] (rev (enumerate 0 ?fs)))} =
      nths ?fs (last_of_name pattern ?fs)"
    using unique_last_set [of ?fs pattern]
    by (intro nths_cong_length) (simp add: last_of_name_def)
  moreover have "fresh_positions pattern [] ?fs = first_of_name pattern ?fs"
    by (simp add: fresh_positions_def first_of_name_def)
  moreover have "store_ok (store_make_unique_first pattern st)" "store_ok (store_make_unique_last pattern st)"
    by (simp_all add: store_make_unique_first_def store_make_unique_last_def Let_def
        retain_fields_ok(1) [OF assms])
  ultimately show ?thesis by (simp only: undo simp_thms)
qed

theorem store_make_unique_positions_witness:
  "contents (store_make_unique_first (ascii ''A'')
     \<lparr>arena = ascii ''zzA:'', hfields = [\<lparr>raw = (2, 4), hf_name = Some (2, 3)\<rparr>],
      free = [(0, 2)], ceiling_of = 9\<rparr>) = [ascii ''A:'']"
  using store_make_unique_positions [OF fragmented_store_ok, of "ascii ''A''"]
  by (simp add: contents_def arena_slice_def slice_def nths_Cons first_of_name_def)

text \<open>
  Joining continued fields never fails when the live fields are within the ceiling, which
  is how a header hands out its store: each field other than the mbox envelope line is replaced
  by its unfolded form, in place.
\<close>

theorem store_concatenate_continued_total:
  assumes "store_ok st" and "live st \<le> ceiling_of st"
  shows "\<exists>st'. store_concatenate_continued st = (st', Inr ()) \<and> store_ok st' \<and>
    contents st' = map (\<lambda>x. if starts_with x (ascii ''From '') then x else unfold_field_bytes x) (contents st)"
proof -
  obtain st' r where e: "edit_fields concatenate_edit 0 st = (st', r)" by fastforce
  have ne: "x \<noteq> []" and len: "length x \<le> isize_max" if "x \<in> set (contents st)" for x
    using that assms(1) field_bounds [of st]
    by (force simp: contents_def store_ok_def layout_ok_def arena_slice_def slice_def)+
  have short: "length (unfold_field_bytes x) \<le> length x" for x
    by (simp add: unfold_field_bytes_unfolded unfolded_length)
  have nonempty: "unfold_field_bytes x \<noteq> []" if "x \<noteq> []" for x
    using that by (cases x rule: unfolded.cases) (auto simp: unfold_field_bytes_unfolded)
  have fit: "edits_fit concatenate_edit (drop 0 (contents st))"
    using short len by (auto simp: edits_fit_def concatenate_edit_def Let_def split: if_splits intro: order_trans)
  have "edit_room concatenate_edit = length"
    using short by (auto simp: edit_room_def concatenate_edit_def Let_def)
  then have room: "sum_list (map (edit_room concatenate_edit) (contents st)) \<le> ceiling_of st"
    using assms(2) by (simp add: live_def)
  have "concatenate_edit (field_from_bytes x) \<noteq> Replace []" if "x \<in> set (contents st)" for x
    using nonempty ne [OF that] by (simp add: concatenate_edit_def Let_def)
  then have *: "store_ok st'" "r = Inr ()" "contents st' = concat (map (apply_edit concatenate_edit) (contents st))"
    using edit_fields_ok [OF assms(1) _ fit e] room by simp_all
  have "apply_edit concatenate_edit =
      (\<lambda>x. [if starts_with x (ascii ''From '') then x else unfold_field_bytes x])"
    by (auto simp: concatenate_edit_def Let_def)
  then show ?thesis
    using * e by (simp add: store_concatenate_continued_def del: apply_edit.simps)
qed

theorem store_concatenate_continued_total_witness:
  "\<exists>st'. store_concatenate_continued
     \<lparr>arena = ascii ''zzA:'', hfields = [\<lparr>raw = (2, 4), hf_name = Some (2, 3)\<rparr>],
      free = [(0, 2)], ceiling_of = 9\<rparr> = (st', Inr ())"
  using store_concatenate_continued_total [OF fragmented_store_ok]
  by (auto simp: live_def contents_def arena_slice_def slice_def)

end
