(* ===== verification/Edited_Header.thy ===== *)
theory Edited_Header
  imports Header_Sequence
begin

text \<open>
  \<open>EditedHeader\<close> and \<open>HeaderStorage\<close> of \<open>src/header_edit/storage.rs\<close>: a header store with its
  separator, preferred line ending, recorded size, delivery status and two caches, behind a
  shared pointer.  Whether other owners of the pointer exist is the flag \<open>eh_shared\<close>:
  \<open>Arc::make_mut\<close> copies the storage (without its caches) when it is set, \<open>Arc::get_mut\<close>
  then gives nothing, and cloning a header sets it.  A method that takes \<open>&mut self\<close> and
  returns a \<open>Result\<close> gives the header it leaves behind and the result.
\<close>

record header_storage =
  store :: header_store
  separator :: bytes
  line_ending :: bytes
  size_of :: usize
  status_of :: message_status
  raw_cache :: "bytes option"
  matching_cache :: "bytes option option"

record edited_header =
  storage :: header_storage
  eh_limits :: message_limits
  eh_shared :: bool

datatype header_view = View_Raw bytes | View_Indexed edited_header

definition clone_storage :: "header_storage \<Rightarrow> header_storage" where
  "clone_storage s = s\<lparr>raw_cache := None, matching_cache := None\<rparr>"

section \<open>Serialisation\<close>

definition joining_line_ending :: "bytes \<Rightarrow> bytes \<Rightarrow> bytes" where
  "joining_line_ending previous preferred =
     (if ends_with previous [CR] \<and> preferred = [LF] then [CR, LF] else preferred)"

definition header_parts :: "header_store \<Rightarrow> bytes \<Rightarrow> bytes \<Rightarrow> bytes list" where
  "header_parts st sep ending =
     concat (map (\<lambda>index.
       [if index > 0 \<and> \<not> ends_with (f_bytes (store_field st (index - 1))) [LF]
        then joining_line_ending (f_bytes (store_field st (index - 1))) ending
        else [],
        f_bytes (store_field st index)]) [0..<length (hfields st)]) @ [sep]"

definition serialized_size :: "header_store \<Rightarrow> bytes \<Rightarrow> bytes \<Rightarrow> header_edit_error + usize" where
  "serialized_size st sep ending = checked_sum (map length (header_parts st sep ending)) 0"

section \<open>Limits\<close>

definition validate_aggregate_size ::
    "header_store \<Rightarrow> bytes \<Rightarrow> bytes \<Rightarrow> usize \<Rightarrow> message_limits \<Rightarrow> header_edit_error + unit" where
  "validate_aggregate_size st sep ending body_len limits =
     (case serialized_size st sep ending of
        Inl e \<Rightarrow> Inl e
      | Inr headers \<Rightarrow>
          (case check_limit headers (headers_size limits) Limit_Headers of
             Inl e \<Rightarrow> Inl e
           | Inr _ \<Rightarrow>
               (case checked_add headers body_len of
                  None \<Rightarrow> Inl SizeOverflow
                | Some message \<Rightarrow> check_limit message (message_size limits) Limit_Message)))"

definition validate_field_line ::
    "byte option \<Rightarrow> usize \<Rightarrow> usize \<Rightarrow> message_limits \<Rightarrow> header_edit_error + usize" where
  "validate_field_line first_byte line_size field_size limits =
     (case (if (case first_byte of Some b \<Rightarrow> is_blank b | None \<Rightarrow> False)
            then checked_add field_size line_size else Some line_size) of
        None \<Rightarrow> Inl SizeOverflow
      | Some field_size' \<Rightarrow>
          (case check_limit field_size' (header_field_size limits) Limit_HeaderField of
             Inl e \<Rightarrow> Inl e
           | Inr _ \<Rightarrow> Inr field_size'))"

fun validate_bytes ::
    "message_limits \<Rightarrow> usize \<Rightarrow> byte option \<Rightarrow> usize \<Rightarrow> bytes \<Rightarrow> header_edit_error + unit" where
  "validate_bytes limits line_size first_byte field_size [] =
     (if line_size \<noteq> 0 then
        (case validate_field_line first_byte line_size field_size limits of
           Inl e \<Rightarrow> Inl e
         | Inr _ \<Rightarrow> Inr ())
      else Inr ())"
| "validate_bytes limits line_size first_byte field_size (b # bs) =
     (let first_byte' = (if line_size = 0 then Some b else first_byte)
      in case checked_add line_size 1 of
           None \<Rightarrow> Inl SizeOverflow
         | Some line_size' \<Rightarrow>
             (case check_limit line_size' (header_line_size limits) Limit_HeaderLine of
                Inl e \<Rightarrow> Inl e
              | Inr _ \<Rightarrow>
                  if b = LF then
                    if line_size' = 1 \<or> line_size' = 2 \<and> first_byte' = Some CR then Inr ()
                    else (case validate_field_line first_byte' line_size' field_size limits of
                            Inl e \<Rightarrow> Inl e
                          | Inr field_size' \<Rightarrow> validate_bytes limits 0 first_byte' field_size' bs)
                  else validate_bytes limits line_size' first_byte' field_size bs))"

definition validate_header_parts ::
    "bytes list \<Rightarrow> usize \<Rightarrow> usize \<Rightarrow> message_limits \<Rightarrow> header_edit_error + unit" where
  "validate_header_parts parts n body_len limits =
     (case check_limit n (headers_size limits) Limit_Headers of
        Inl e \<Rightarrow> Inl e
      | Inr _ \<Rightarrow>
          (case checked_add n body_len of
             None \<Rightarrow> Inl SizeOverflow
           | Some message \<Rightarrow>
               (case check_limit message (message_size limits) Limit_Message of
                  Inl e \<Rightarrow> Inl e
                | Inr _ \<Rightarrow> validate_bytes limits 0 None 0 (concat parts))))"

section \<open>The header\<close>

definition eh_len :: "edited_header \<Rightarrow> usize" where
  "eh_len h = size_of (storage h)"

definition eh_is_empty :: "edited_header \<Rightarrow> bool" where
  "eh_is_empty h \<longleftrightarrow> eh_len h = 0"

definition eh_status :: "edited_header \<Rightarrow> message_status" where
  "eh_status h = status_of (storage h)"

definition eh_new :: "header_view \<Rightarrow> message_limits \<Rightarrow> header_edit_error + edited_header" where
  "eh_new source limits =
     (case source of
        View_Indexed h \<Rightarrow> Inr (h\<lparr>eh_shared := True, eh_limits := limits\<rparr>)
      | View_Raw bs \<Rightarrow>
          (let (fs, sep, ending) = split_fields bs
           in case store_new fs (max (headers_size limits) (length bs)) of
                Inl e \<Rightarrow> Inl e
              | Inr st \<Rightarrow>
                  Inr \<lparr>storage = \<lparr>store = st, separator = sep, line_ending = ending,
                         size_of = length bs, status_of = STATUS_NONE,
                         raw_cache = None, matching_cache = None\<rparr>,
                       eh_limits = limits, eh_shared = False\<rparr>))"

definition view_fields_of :: "header_view \<Rightarrow> field list" where
  "view_fields_of v =
     (case v of
        View_Raw bs \<Rightarrow> raw_fields bs
      | View_Indexed h \<Rightarrow> map (store_field (store (storage h))) [0..<length (hfields (store (storage h)))])"

definition field_count :: "edited_header \<Rightarrow> usize" where
  "field_count h = length (hfields (store (storage h)))"

definition eh_has_matching_pattern :: "edited_header \<Rightarrow> bytes \<Rightarrow> bool" where
  "eh_has_matching_pattern h pattern = has_matching_pattern pattern (store (storage h))"

definition make_mut :: "edited_header \<Rightarrow> edited_header" where
  "make_mut h =
     (if eh_shared h then h\<lparr>storage := clone_storage (storage h), eh_shared := False\<rparr> else h)"

definition set_store :: "header_store \<Rightarrow> edited_header \<Rightarrow> edited_header" where
  "set_store st h = h\<lparr>storage := (storage h)\<lparr>store := st\<rparr>\<rparr>"

definition store_mut :: "edited_header \<Rightarrow> edited_header" where
  "store_mut h =
     (let ceiling = max (eh_len h) (headers_size (eh_limits h)); h' = make_mut h
      in set_store ((store (storage h'))\<lparr>ceiling_of := ceiling\<rparr>) h')"

text \<open>A call of a store operation through \<open>store_mut\<close>.\<close>

definition on_store :: "(header_store \<Rightarrow> header_store) \<Rightarrow> edited_header \<Rightarrow> edited_header" where
  "on_store f h = (let h' = store_mut h in set_store (f (store (storage h'))) h')"

definition on_store_result ::
    "(header_store \<Rightarrow> header_store \<times> (header_edit_error + unit)) \<Rightarrow> edited_header \<Rightarrow>
     edited_header \<times> (header_edit_error + unit)" where
  "on_store_result f h =
     (let h' = store_mut h; (st, r) = f (store (storage h')) in (set_store st h', r))"

definition eh_any_match :: "edited_header \<Rightarrow> bytes \<Rightarrow> bool" where
  "eh_any_match h name \<longleftrightarrow>
     list_ex (\<lambda>index. store_matches (store (storage h)) index name) [0..<field_count h]"

definition eh_remove_matching :: "bytes \<Rightarrow> edited_header \<Rightarrow> edited_header" where
  "eh_remove_matching name h =
     (if eh_any_match h name then on_store (store_remove_matching name) h else h)"

definition eh_remove_matching_pattern :: "bytes \<Rightarrow> edited_header \<Rightarrow> edited_header" where
  "eh_remove_matching_pattern pattern = on_store (store_remove_matching_pattern pattern)"

definition eh_rename_matching_pattern ::
    "bytes \<Rightarrow> bytes \<Rightarrow> edited_header \<Rightarrow> edited_header \<times> (header_edit_error + unit)" where
  "eh_rename_matching_pattern from_pattern to_pattern =
     on_store_result (store_rename_matching_pattern from_pattern to_pattern)"

definition eh_prepend_prefix_to_matching ::
    "bytes \<Rightarrow> bytes \<Rightarrow> edited_header \<Rightarrow> edited_header \<times> (header_edit_error + unit)" where
  "eh_prepend_prefix_to_matching pattern pre =
     on_store_result (store_prepend_prefix_to_matching pattern pre)"

definition eh_make_unique_first :: "bytes \<Rightarrow> edited_header \<Rightarrow> edited_header" where
  "eh_make_unique_first pattern = on_store (store_make_unique_first pattern)"

definition eh_make_unique_last :: "bytes \<Rightarrow> edited_header \<Rightarrow> edited_header" where
  "eh_make_unique_last pattern = on_store (store_make_unique_last pattern)"

definition add_raw_field :: "bytes \<Rightarrow> edited_header \<Rightarrow> edited_header \<times> (header_edit_error + unit)" where
  "add_raw_field bs h =
     (let ending = line_ending (storage h);
          bytes = (if \<not> ends_with bs [LF] then bs @ ending else bs);
          pos = length (hfields (store (storage h)))
      in on_store_result (store_insert pos bytes) h)"

definition concatenate_continued_fields :: "edited_header \<Rightarrow> edited_header \<times> (header_edit_error + unit)" where
  "concatenate_continued_fields = on_store_result store_concatenate_continued"

definition eh_zap_whitespace :: "edited_header \<Rightarrow> edited_header \<times> (header_edit_error + unit)" where
  "eh_zap_whitespace = on_store_result store_zap_whitespace"

definition trim_blanks :: "bytes \<Rightarrow> bytes option" where
  "trim_blanks stripped =
     (let start = (case position (\<lambda>b. b \<noteq> SP \<and> b \<noteq> TAB) stripped of None \<Rightarrow> length stripped | Some i \<Rightarrow> i);
          end_at = (case rposition (\<lambda>b. b \<noteq> SP \<and> b \<noteq> TAB) stripped of None \<Rightarrow> 0 | Some i \<Rightarrow> i + 1)
      in if start < end_at then Some (slice stripped start end_at) else None)"

definition extract_field :: "bool \<Rightarrow> bool \<Rightarrow> bool \<Rightarrow> field \<Rightarrow> bytes" where
  "extract_field include_name concatenate zap f =
     (let val = (if include_name then f_bytes f
                 else case field_value f of Some v \<Rightarrow> v | None \<Rightarrow> []);
          bytes = (if concatenate then unfold_field_bytes val else val)
      in if zap \<and> \<not> include_name then
           (case trim_blanks (strip_line_ending bytes) of
              Some trimmed \<Rightarrow> trimmed @ [LF]
            | None \<Rightarrow> [LF])
         else if \<not> ends_with bytes [LF] then bytes @ [LF]
         else bytes)"

definition extract_fields :: "edited_header \<Rightarrow> bytes \<Rightarrow> bool \<Rightarrow> bool \<Rightarrow> bool \<Rightarrow> bytes list" where
  "extract_fields h pattern include_name concatenate zap =
     map (extract_field include_name concatenate zap)
       (filter (\<lambda>f. field_matches_pattern f pattern)
         (map (store_field (store (storage h))) [0..<field_count h]))"

definition eh_parts :: "edited_header \<Rightarrow> bytes list" where
  "eh_parts h =
     header_parts (store (storage h)) (separator (storage h)) (line_ending (storage h))"

definition as_bytes :: "edited_header \<Rightarrow> bytes \<times> edited_header" where
  "as_bytes h =
     (case raw_cache (storage h) of
        Some bs \<Rightarrow> (bs, h)
      | None \<Rightarrow>
          (let bs = concat (eh_parts h)
           in (bs, h\<lparr>storage := (storage h)\<lparr>raw_cache := Some bs\<rparr>\<rparr>)))"

definition eh_set_status :: "message_status \<Rightarrow> edited_header \<Rightarrow> edited_header" where
  "eh_set_status s h =
     (if status_of (storage h) \<noteq> s
      then let h' = make_mut h in h'\<lparr>storage := (storage h')\<lparr>status_of := s\<rparr>\<rparr>
      else h)"

definition eh_normalized :: "edited_header \<Rightarrow> bytes option \<times> edited_header" where
  "eh_normalized h =
     (case matching_cache (storage h) of
        Some m \<Rightarrow> (m, h)
      | None \<Rightarrow>
          (let (bs, h') = as_bytes h; m = normalize_folded_header bs
           in (m, h'\<lparr>storage := (storage h')\<lparr>matching_cache := Some m\<rparr>\<rparr>)))"

definition eh_matching_header :: "edited_header \<Rightarrow> bytes \<times> edited_header" where
  "eh_matching_header h =
     (case eh_normalized h of
        (Some bs, h') \<Rightarrow> (bs, h')
      | (None, h') \<Rightarrow> as_bytes h')"

definition eh_validate :: "edited_header \<Rightarrow> usize \<Rightarrow> message_limits \<Rightarrow> header_edit_error + unit" where
  "eh_validate h body_len limits = validate_header_parts (eh_parts h) (eh_len h) body_len limits"

definition into_streaming_bytes :: "edited_header \<Rightarrow> bytes" where
  "into_streaming_bytes h =
     (if \<not> eh_shared h then
        (case raw_cache (storage h) of
           Some bs \<Rightarrow> bs
         | None \<Rightarrow> concat (eh_parts h))
      else fst (as_bytes h))"

definition needs_reindex :: "header_store \<Rightarrow> bool" where
  "needs_reindex st \<longleftrightarrow>
     list_ex (\<lambda>index.
       (case first (f_bytes (store_field st index)) of Some b \<Rightarrow> is_blank b | None \<Rightarrow> False) \<or>
       \<not> ends_with (f_bytes (store_field st (index - 1))) [LF]) [1..<length (hfields st)]"

definition update_line_ending :: "edited_header \<Rightarrow> edited_header" where
  "update_line_ending h =
     (let ending = preferred_line_ending (eh_parts h)
      in if \<not> eh_shared h then h\<lparr>storage := (storage h)\<lparr>line_ending := ending\<rparr>\<rparr> else h)"

definition finish :: "usize \<Rightarrow> edited_header \<Rightarrow> edited_header \<times> (header_edit_error + unit)" where
  "finish body_len h =
     (case serialized_size (store (storage h)) (separator (storage h)) (line_ending (storage h)) of
        Inl e \<Rightarrow> (h, Inl e)
      | Inr n \<Rightarrow>
          (let h1 = (if \<not> eh_shared h then h\<lparr>storage := (storage h)\<lparr>size_of := n\<rparr>\<rparr> else h)
           in case eh_validate h1 body_len (eh_limits h1) of
                Inl e \<Rightarrow> (h1, Inl e)
              | Inr _ \<Rightarrow>
                  if needs_reindex (store (storage h1)) then
                    (let status = eh_status h1; (bs, h2) = as_bytes h1; (fs, sep, ending) = split_fields bs
                     in case store_new fs (headers_size (eh_limits h2)) of
                          Inl e \<Rightarrow> (h2, Inl e)
                        | Inr st \<Rightarrow>
                            (update_line_ending
                               (h2\<lparr>storage := \<lparr>store = st, separator = sep, line_ending = ending,
                                     size_of = n, status_of = status,
                                     raw_cache = None, matching_cache = None\<rparr>,
                                   eh_shared := False\<rparr>),
                             Inr ()))
                  else (update_line_ending h1, Inr ())))"

end
