(* ===== verification/Edited_Header_Limits.thy ===== *)
theory Edited_Header_Limits
  imports Edited_Header
begin

text \<open>
  What the header validation of \<open>validate_header_parts\<close> accepts, stated over the lines and
  fields of the serialised header rather than over the byte loop, and the round trip from raw
  bytes through an indexed header back to bytes.
\<close>

section \<open>Lines and fields within limits\<close>

fun lines_valid :: "message_limits \<Rightarrow> nat \<Rightarrow> bytes list \<Rightarrow> bool" where
  "lines_valid limits field_size [] \<longleftrightarrow> True"
| "lines_valid limits field_size (l # ls) \<longleftrightarrow>
     length l \<le> header_line_size limits \<and>
     (blank_line l \<or>
      (let n = (case first l of Some b \<Rightarrow> if is_blank b then field_size + length l else length l
                | None \<Rightarrow> length l)
       in n \<le> header_field_size limits \<and> lines_valid limits n ls))"

lemma validate_bytes_prefix:
  assumes "LF \<notin> set a" and "k + length a \<le> usize_max" and "k \<le> header_line_size limits"
  shows "validate_bytes limits k fb n (a @ rest) =
    (if k + length a \<le> header_line_size limits
     then validate_bytes limits (k + length a) (if k = 0 \<and> a \<noteq> [] then Some (hd a) else fb) n rest
     else Inl (LimitExceeded Limit_HeaderLine (header_line_size limits)))"
  using assms
proof (induction a arbitrary: k fb)
  case Nil
  then show ?case by simp
next
  case (Cons x a)
  from Cons.prems have step: "validate_bytes limits k fb n ((x # a) @ rest) =
     (if k + 1 \<le> header_line_size limits
      then validate_bytes limits (k + 1) (if k = 0 then Some x else fb) n (a @ rest)
      else Inl (LimitExceeded Limit_HeaderLine (header_line_size limits)))"
    by (simp add: checked_add_def check_limit_def Let_def)
  show ?case
  proof (cases "k + 1 \<le> header_line_size limits")
    case True
    with Cons.IH [of "k + 1" "if k = 0 then Some x else fb"] Cons.prems show ?thesis
      unfolding step by simp
  next
    case False
    with step show ?thesis by simp
  qed
qed

lemma validate_field_line_ok:
  assumes "n + k \<le> usize_max" and "l \<noteq> []" and "k = length l"
  shows "validate_field_line (Some (hd l)) k n limits =
    (let m = (case first l of Some b \<Rightarrow> if is_blank b then n + length l else length l | None \<Rightarrow> length l)
     in if m \<le> header_field_size limits then Inr m
        else Inl (LimitExceeded Limit_HeaderField (header_field_size limits)))"
  using assms by (cases l) (auto simp: validate_field_line_def checked_add_def check_limit_def)

lemma line_cases:
  obtains (unterminated) "LF \<notin> set bs" "first_line bs = bs"
  | (terminated) a rest where "bs = a @ LF # rest" "LF \<notin> set a" "first_line bs = a @ [LF]"
      "drop (length (first_line bs)) bs = rest"
proof (cases "position (\<lambda>b. b = LF) bs")
  case None
  then have "LF \<notin> set bs" by (auto simp: position_None_iff)
  then show thesis using first_line_no_LF unterminated by blast
next
  case (Some i)
  note split = position_split [OF Some]
  have nl: "LF \<notin> set (take i bs)" using position_SomeD(3) [OF Some] by blast
  have fl: "first_line bs = take i bs @ [LF]" using first_line_app_LF [OF nl] split by metis
  have "drop (length (first_line bs)) bs = drop (Suc i) bs"
    using position_SomeD(1) [OF Some] by (simp add: fl)
  then show thesis using terminated split nl fl by blast
qed

lemma blank_line_snoc: "LF \<notin> set a \<Longrightarrow> blank_line (a @ [LF]) \<longleftrightarrow> a = [] \<or> a = [CR]"
  by (auto simp: blank_line_def)

lemma validate_bytes_lines:
  assumes "n + length bs \<le> usize_max"
  shows "validate_bytes limits 0 fb n bs = Inr () \<longleftrightarrow> lines_valid limits n (lines_of bs)"
  using assms
proof (induction bs arbitrary: n fb rule: lines_of.induct)
  case (1 bs)
  show ?case
  proof (cases "bs = []")
    case True
    then show ?thesis by simp
  next
    case ne: False
    note prefix = validate_bytes_prefix [of _ 0 limits fb n]
    show ?thesis
    proof (cases bs rule: line_cases)
      case unterminated
      have "\<not> blank_line bs" using unterminated(1) by (auto simp: blank_line_def)
      moreover have "lines_of bs = [bs]" using unterminated ne by (simp add: lines_of_step)
      ultimately show ?thesis
        using prefix [of bs "[]"] unterminated(1) ne "1.prems" validate_field_line_ok [of n "length bs" bs limits]
        by (auto simp: Let_def split: if_splits)
    next
      case (terminated a rest)
      let ?l = "a @ [LF]"
      have len: "n + length ?l + length rest \<le> usize_max" using "1.prems" terminated(1) by simp
      have lines: "lines_of bs = ?l # lines_of rest" using terminated(1,2) by (simp add: lines_of_app_LF)
      have fb: "(if a \<noteq> [] then Some (hd a) else Some LF) = Some (hd ?l)" by simp
      have step: "validate_bytes limits (length a) (if a \<noteq> [] then Some (hd a) else fb) n (LF # rest) =
        (if length ?l \<le> header_line_size limits then
           if blank_line ?l then Inr ()
           else (case validate_field_line (Some (hd ?l)) (length ?l) n limits of
                   Inl e \<Rightarrow> Inl e
                 | Inr m \<Rightarrow> validate_bytes limits 0 (Some (hd ?l)) m rest)
         else Inl (LimitExceeded Limit_HeaderLine (header_line_size limits)))"
        using len terminated(2)
        by (cases a; cases "tl a") (auto simp: checked_add_def check_limit_def blank_line_def Let_def split: sum.splits)
      define m where "m = (case first ?l of Some b \<Rightarrow> if is_blank b then n + length ?l else length ?l
        | None \<Rightarrow> length ?l)"
      have m: "m + length rest \<le> usize_max" using len by (auto simp: m_def split: option.splits)
      have IH: "validate_bytes limits 0 (Some (hd ?l)) m rest = Inr () \<longleftrightarrow> lines_valid limits m (lines_of rest)"
        using "1.IH" [OF ne, of m] m terminated(4) by simp
      have vf: "validate_field_line (Some (hd ?l)) (length ?l) n limits =
          (if m \<le> header_field_size limits then Inr m
           else Inl (LimitExceeded Limit_HeaderField (header_field_size limits)))"
        using validate_field_line_ok [of n "length ?l" ?l limits] len by (simp add: m_def Let_def)
      have pre: "validate_bytes limits 0 fb n bs =
          (if length a \<le> header_line_size limits
           then validate_bytes limits (length a) (if a \<noteq> [] then Some (hd a) else fb) n (LF # rest)
           else Inl (LimitExceeded Limit_HeaderLine (header_line_size limits)))"
        using prefix [of a "LF # rest"] terminated(1,2) len by simp
      show ?thesis
        unfolding pre step lines lines_valid.simps vf Let_def m_def [symmetric]
        using IH by auto
    qed
  qed
qed

text \<open>The lines of the header, up to and including the first empty one.\<close>

fun header_lines :: "bytes list \<Rightarrow> bytes list" where
  "header_lines [] = []"
| "header_lines (l # ls) = (if blank_line l then [l] else l # header_lines ls)"

lemma next_field_eq:
  assumes "bs \<noteq> []"
  shows "next_field bs =
    (if blank_line (first_line bs) then None
     else let t = drop (length (first_line bs)) bs
          in Some (first_line bs @ continuation t, drop (length (continuation t)) t))"
proof -
  let ?l = "first_line bs" let ?t = "drop (length ?l) bs"
  have "take (length ?l + length (continuation ?t)) bs = ?l @ continuation ?t"
    using first_line_split [of bs] continuation_props [of ?t]
    by (metis append.assoc append_eq_conv_conj length_append)
  then show ?thesis
    using assms by (simp add: next_field_def blank_line_def Let_def add.commute)
qed

lemma raw_fields_eq:
  assumes "bs \<noteq> []"
  shows "raw_fields bs =
    (if blank_line (first_line bs) then []
     else let t = drop (length (first_line bs)) bs
          in field_from_bytes (first_line bs @ continuation t) #
             raw_fields (drop (length (continuation t)) t))"
  by (subst raw_fields.simps) (simp add: next_field_eq [OF assms] Let_def)

lemma first_first_line: "bs \<noteq> [] \<Longrightarrow> first (first_line bs) = first bs"
  by (cases bs) (auto simp: first_line_cons)

lemma blank_line_first: "blank_line (first_line bs) \<Longrightarrow> first bs = Some b \<Longrightarrow> \<not> is_blank b"
  by (cases bs) (auto simp: blank_line_def first_line_cons is_blank_def split: if_splits)

lemma lines_valid_fields:
  "lines_valid limits n (lines_of bs) \<longleftrightarrow>
     (\<forall>l \<in> set (header_lines (lines_of bs)). length l \<le> header_line_size limits) \<and>
     (continuation bs \<noteq> [] \<longrightarrow> n + length (continuation bs) \<le> header_field_size limits) \<and>
     (\<forall>f \<in> set (raw_fields (drop (length (continuation bs)) bs)).
        length (f_bytes f) \<le> header_field_size limits)"
proof (induction bs arbitrary: n rule: lines_of.induct)
  case (1 bs)
  show ?case
  proof (cases "bs = []")
    case True
    then show ?thesis by (simp add: continuation.simps raw_fields.simps next_field_def)
  next
    case ne: False
    let ?l = "first_line bs" let ?t = "drop (length ?l) bs" let ?c = "continuation ?t"
    obtain b where b: "first bs = Some b" using ne by (cases bs) auto
    have cont: "continuation bs = (if is_blank b then ?l @ ?c else [])"
      using b by (subst continuation.simps) simp
    have fl: "first ?l = Some b" using ne b by (simp add: first_first_line)
    have lines: "lines_of bs = ?l # lines_of ?t" by (rule lines_of_step [OF ne])
    note IH = "1.IH" [OF ne]
    show ?thesis
    proof (cases "blank_line ?l")
      case True
      then have "\<not> is_blank b" using blank_line_first b by blast
      then show ?thesis using True ne by (simp add: lines cont raw_fields_eq)
    next
      case nb: False
      show ?thesis
      proof (cases "is_blank b")
        case True
        define t where "t = ?t"
        have d: "drop (length (continuation bs)) bs = drop (length (continuation t)) t"
          and len: "length (continuation bs) = length ?l + length (continuation t)"
          using True by (simp_all add: cont add.commute t_def)
        have cne: "continuation bs \<noteq> []" using True ne by (simp add: cont)
        have 1: "lines_valid limits n (lines_of bs) \<longleftrightarrow> length ?l \<le> header_line_size limits \<and>
            n + length ?l \<le> header_field_size limits \<and> lines_valid limits (n + length ?l) (lines_of t)"
          using nb True by (simp add: lines t_def fl Let_def)
        have 2: "(\<forall>l \<in> set (header_lines (lines_of bs)). length l \<le> header_line_size limits) \<longleftrightarrow>
            length ?l \<le> header_line_size limits \<and>
            (\<forall>l \<in> set (header_lines (lines_of t)). length l \<le> header_line_size limits)"
          using nb by (simp add: lines t_def)
        have 3: "n + length (continuation bs) \<le> header_field_size limits \<longleftrightarrow>
            n + length ?l \<le> header_field_size limits \<and>
            (continuation t \<noteq> [] \<longrightarrow> n + length ?l + length (continuation t) \<le> header_field_size limits)"
          by (cases "continuation t = []") (auto simp: len)
        show ?thesis
          unfolding 1 2 3 d IH [of "n + length ?l", folded t_def] using cne by blast
      next
        case False
        then show ?thesis
          using nb ne IH [of "length ?l"] by (auto simp: lines cont fl raw_fields_eq [OF ne] Let_def)
      qed
    qed
  qed
qed

lemma lines_valid_top:
  "lines_valid limits 0 (lines_of bs) \<longleftrightarrow>
     (\<forall>l \<in> set (header_lines (lines_of bs)). length l \<le> header_line_size limits) \<and>
     (\<forall>f \<in> set (raw_fields bs). length (f_bytes f) \<le> header_field_size limits)"
proof (cases "continuation bs = []")
  case True
  then show ?thesis using lines_valid_fields [of limits 0 bs] by simp
next
  case False
  then obtain b where b: "first bs = Some b" "is_blank b"
    by (subst (asm) continuation.simps) (auto split: option.splits if_splits)
  then have ne: "bs \<noteq> []" by auto
  let ?l = "first_line bs" let ?t = "drop (length ?l) bs"
  have c: "continuation bs = ?l @ continuation ?t" using b by (subst continuation.simps) simp
  have "\<not> blank_line ?l" using blank_line_first b by blast
  then have "raw_fields bs = field_from_bytes (continuation bs) #
      raw_fields (drop (length (continuation bs)) bs)"
    by (simp add: raw_fields_eq [OF ne] c Let_def add.commute)
  then show ?thesis using lines_valid_fields [of limits 0 bs] False by simp
qed

lemma validate_header_parts_iff:
  assumes "length (concat parts) \<le> usize_max" and "message_size limits \<le> usize_max"
  shows "validate_header_parts parts n body_len limits = Inr () \<longleftrightarrow>
    n \<le> headers_size limits \<and> n + body_len \<le> message_size limits \<and>
    (\<forall>l \<in> set (header_lines (lines_of (concat parts))). length l \<le> header_line_size limits) \<and>
    (\<forall>f \<in> set (raw_fields (concat parts)). length (f_bytes f) \<le> header_field_size limits)"
proof -
  have "validate_bytes limits 0 None 0 (concat parts) = Inr () \<longleftrightarrow>
      lines_valid limits 0 (lines_of (concat parts))"
    using assms(1) by (intro validate_bytes_lines) simp
  then show ?thesis
    using assms(2)
    by (auto simp: validate_header_parts_def check_limit_def checked_add_def lines_valid_top)
qed

text \<open>
  C30. The byte loop that validates an edited header accepts exactly the headers whose size,
  message size, lines (up to the empty line) and folded fields are within the limits, although
  lines and fields may span several parts.
\<close>

theorem validate_header_parts_exact:
  assumes "length (concat parts) \<le> usize_max" and "message_size limits \<le> usize_max"
  shows "validate_header_parts parts n body_len limits = Inr () \<longleftrightarrow>
    n \<le> headers_size limits \<and> n + body_len \<le> message_size limits \<and>
    (\<forall>l \<in> set (header_lines (lines_of (concat parts))). length l \<le> header_line_size limits) \<and>
    (\<forall>f \<in> set (raw_fields (concat parts)). length (f_bytes f) \<le> header_field_size limits)"
  by (rule validate_header_parts_iff [OF assms])

theorem validate_header_parts_exact_witness:
  "validate_header_parts [ascii ''A:'', [], ascii ''b'' @ [LF, LF]] 5 9 message_limits_default = Inr ()"
  using validate_header_parts_exact
    [of "[ascii ''A:'', [], ascii ''b'' @ [LF, LF]]" message_limits_default 5 9]
  by (simp add: message_limits_default_def size_units usize_max_def lines_of_Cons blank_line_def
      raw_fields_eq first_line_cons continuation.simps is_blank_def)

section \<open>From bytes to an index and back\<close>

lemma first_line_LF: "drop (length (first_line bs)) bs \<noteq> [] \<Longrightarrow> ends_with (first_line bs) [LF]"
  by (cases bs rule: line_cases) auto

lemma ends_with_suffix_append: "ys \<noteq> [] \<Longrightarrow> ends_with (xs @ ys) [y] = ends_with ys [y]"
  by (simp add: ends_with_singleton)

lemma continuation_LF:
  "drop (length (continuation bs)) bs \<noteq> [] \<Longrightarrow> continuation bs \<noteq> [] \<Longrightarrow> ends_with (continuation bs) [LF]"
proof (induction bs rule: continuation.induct)
  case (1 bs)
  then obtain b where b: "first bs = Some b" "is_blank b"
    by (subst (asm) (2) continuation.simps) (auto split: option.splits if_splits)
  let ?t = "drop (length (first_line bs)) bs"
  have c: "continuation bs = first_line bs @ continuation ?t"
    using b by (subst continuation.simps) simp
  have rest: "drop (length (continuation ?t)) ?t \<noteq> []"
    using "1.prems"(1) by (simp add: c add.commute)
  show ?case
  proof (cases "continuation ?t = []")
    case True
    then show ?thesis using rest first_line_LF [of bs] c by simp
  next
    case False
    then show ?thesis using "1.IH" [OF b rest False] by (simp add: c ends_with_suffix_append)
  qed
qed

lemma next_field_LF:
  assumes "next_field bs = Some (f, rest)" and "rest \<noteq> []"
  shows "ends_with f [LF]"
proof -
  have ne: "bs \<noteq> []" using assms(1) by (auto simp: next_field_def)
  let ?t = "drop (length (first_line bs)) bs"
  have f: "f = first_line bs @ continuation ?t" and rest: "rest = drop (length (continuation ?t)) ?t"
    using assms(1) next_field_eq [OF ne] by (auto simp: Let_def split: if_splits)
  show ?thesis
  proof (cases "continuation ?t = []")
    case True
    then show ?thesis using f rest assms(2) first_line_LF [of bs] by simp
  next
    case False
    then show ?thesis using f rest assms(2) continuation_LF [of ?t] by (simp add: ends_with_suffix_append)
  qed
qed

lemma raw_fields_inner_LF:
  "Suc i < length (raw_fields bs) \<Longrightarrow> ends_with (f_bytes (raw_fields bs ! i)) [LF]"
proof (induction bs arbitrary: i rule: raw_fields.induct)
  case (1 bs)
  then obtain f rest where f: "next_field bs = Some (f, rest)"
    using raw_fields.simps [of bs] by (auto split: option.splits)
  have e: "raw_fields bs = field_from_bytes f # raw_fields rest" by (subst raw_fields.simps) (simp add: f)
  show ?case
  proof (cases i)
    case 0
    then have "rest \<noteq> []" using "1.prems" e by (auto simp: raw_fields.simps [of "[]"] next_field_def)
    then show ?thesis using next_field_LF [OF f] 0 e by simp
  next
    case (Suc j)
    then show ?thesis using "1.IH" [OF f refl, of j] "1.prems" e by simp
  qed
qed

lemma store_field_bytes: "f_bytes (store_field st i) = contents st ! i" if "i < length (hfields st)"
  using that by (simp add: store_field_def view_field_def contents_def)

lemma header_parts_concat:
  assumes "\<And>i. Suc i < length (contents st) \<Longrightarrow> ends_with (contents st ! i) [LF]"
  shows "concat (header_parts st sep ending) = concat (contents st) @ sep"
proof -
  have "concat (concat (map (\<lambda>index.
       [if index > 0 \<and> \<not> ends_with (f_bytes (store_field st (index - 1))) [LF]
        then joining_line_ending (f_bytes (store_field st (index - 1))) ending
        else [],
        f_bytes (store_field st index)]) [0..<n])) = concat (take n (contents st))"
    if "n \<le> length (contents st)" for n
    using that
  proof (induction n)
    case 0
    then show ?case by simp
  next
    case (Suc n)
    have "n > 0 \<Longrightarrow> ends_with (contents st ! (n - 1)) [LF]" using assms [of "n - 1"] Suc.prems by simp
    then show ?case
      using Suc by (auto simp: store_field_bytes take_Suc_conv_app_nth)
  qed
  from this [of "length (contents st)"] show ?thesis by (simp add: header_parts_def)
qed

text \<open>Indexing raw bytes: it succeeds, and the parts of the index spell the same bytes.\<close>

lemma split_store:
  assumes "split_fields bs = (fs, sep, ending)" and "length bs \<le> limit" and "limit \<le> isize_max"
  obtains st where "store_new fs limit = Inr st" "store_ok st"
    "\<And>e. concat (header_parts st sep e) = bs" "contents st = map f_bytes fs"
proof -
  note spec = split_fields_spec [OF assms(1)]
  have "fs = raw_fields (take (case header_separator_start bs of None \<Rightarrow> length bs | Some i \<Rightarrow> i) bs)"
    using assms(1) by (simp add: split_fields_def Let_def)
  then have inner: "Suc i < length fs \<Longrightarrow> ends_with (f_bytes (fs ! i)) [LF]" for i
    using raw_fields_inner_LF by blast
  have "sum_list (map (\<lambda>f. length (f_bytes f)) fs) = length (concat (map f_bytes fs))"
    by (simp add: length_concat comp_def)
  also have "\<dots> \<le> limit" using arg_cong [OF spec(1), of length] assms(2) by simp
  finally have fit: "sum_list (map (\<lambda>f. length (f_bytes f)) fs) \<le> limit" .
  from store_new_room [OF _ assms(3) fit] spec(2) obtain st
    where st: "store_new fs limit = Inr st" "store_ok st" "contents st = map f_bytes fs"
    by blast
  have "concat (header_parts st sep e) = bs" for e
    using header_parts_concat [of st sep e] inner spec(1) by (simp add: st(3))
  with st show thesis using that by blast
qed

text \<open>
  C40. Indexing a raw header never fails, whatever bytes it holds, and serialising the index
  gives back exactly the same bytes.
\<close>

theorem edited_header_roundtrip:
  assumes "length bs \<le> isize_max" and "headers_size limits \<le> isize_max"
  shows "\<exists>h. eh_new (View_Raw bs) limits = Inr h \<and> fst (as_bytes h) = bs \<and>
    eh_len h = length bs \<and> store_ok (store (storage h))"
proof -
  obtain fs sep ending where sp: "split_fields bs = (fs, sep, ending)" by (cases "split_fields bs")
  obtain st where "store_new fs (max (headers_size limits) (length bs)) = Inr st" "store_ok st"
    "\<And>e. concat (header_parts st sep e) = bs"
    by (rule split_store [OF sp, of "max (headers_size limits) (length bs)"]) (use assms in auto)
  then show ?thesis
    by (auto simp: eh_new_def sp as_bytes_def eh_parts_def eh_len_def)
qed

theorem edited_header_roundtrip_witness:
  "\<exists>h. eh_new (View_Raw (ascii ''no colon'')) message_limits_default = Inr h \<and>
     fst (as_bytes h) = ascii ''no colon''"
  using edited_header_roundtrip [of "ascii ''no colon''" message_limits_default]
  by (auto simp: message_limits_default_def size_units isize_max_def)

section \<open>Finishing an edit\<close>

lemma continuation_stop:
  "first (drop (length (continuation bs)) bs) = Some b \<Longrightarrow> \<not> is_blank b"
proof (induction bs rule: continuation.induct)
  case (1 bs)
  show ?case
  proof (cases "\<exists>c. first bs = Some c \<and> is_blank c")
    case True
    then obtain c where c: "first bs = Some c" "is_blank c" by blast
    let ?t = "drop (length (first_line bs)) bs"
    have "continuation bs = first_line bs @ continuation ?t"
      using c by (subst continuation.simps) simp
    then show ?thesis using "1.IH" [OF c] "1.prems" by (simp add: add.commute)
  next
    case False
    then have "continuation bs = []" by (subst continuation.simps) (auto split: option.splits)
    then show ?thesis using False "1.prems" by auto
  qed
qed

lemma raw_fields_inner_first:
  "0 < i \<Longrightarrow> i < length (raw_fields bs) \<Longrightarrow> first (f_bytes (raw_fields bs ! i)) = Some b \<Longrightarrow> \<not> is_blank b"
proof (induction bs arbitrary: i rule: raw_fields.induct)
  case (1 bs)
  then obtain f rest where f: "next_field bs = Some (f, rest)"
    using raw_fields.simps [of bs] by (auto split: option.splits)
  have e: "raw_fields bs = field_from_bytes f # raw_fields rest" by (subst raw_fields.simps) (simp add: f)
  have ne: "bs \<noteq> []" using f by (auto simp: next_field_def)
  obtain j where j: "i = Suc j" using "1.prems"(1) by (cases i) auto
  show ?case
  proof (cases j)
    case 0
    then have rne: "raw_fields rest \<noteq> []" using "1.prems" e j by auto
    then have rest: "rest \<noteq> []" by (auto simp: raw_fields.simps [of "[]"] next_field_def)
    have "\<not> blank_line (first_line rest)" using rne raw_fields_eq [OF rest] by auto
    then have "f_bytes (raw_fields rest ! 0) = first_line rest @
        continuation (drop (length (first_line rest)) rest)"
      by (simp add: raw_fields_eq [OF rest] Let_def)
    moreover have "first (xs @ ys) = first xs" if "xs \<noteq> []" for xs ys :: bytes
      using that by (cases xs) auto
    ultimately have "first rest = Some b"
      using "1.prems"(3) 0 j e rest first_first_line [OF rest] by simp
    moreover have "rest = drop (length (continuation (drop (length (first_line bs)) bs)))
        (drop (length (first_line bs)) bs)"
      using f next_field_eq [OF ne] by (auto simp: Let_def split: if_splits)
    ultimately show ?thesis using continuation_stop by metis
  next
    case (Suc k)
    then show ?thesis using "1.IH" [OF f refl, of j] "1.prems" e j by simp
  qed
qed

lemma split_store_indexed:
  assumes "split_fields bs = (fs, sep, ending)" and "contents st = map f_bytes fs"
  shows "\<not> needs_reindex st"
proof -
  have fs: "fs = raw_fields (take (case header_separator_start bs of None \<Rightarrow> length bs | Some i \<Rightarrow> i) bs)"
    using assms(1) by (simp add: split_fields_def Let_def)
  have len: "length (hfields st) = length fs" using assms(2) by (metis length_contents length_map)
  have "\<not> (case first (f_bytes (fs ! i)) of Some b \<Rightarrow> is_blank b | None \<Rightarrow> False) \<and>
      ends_with (f_bytes (fs ! (i - 1))) [LF]" if "1 \<le> i" "i < length fs" for i
    using that raw_fields_inner_first [of i] raw_fields_inner_LF [of "i - 1"] fs
    by (auto split: option.splits)
  then show ?thesis
    using len by (auto simp: needs_reindex_def list_ex_iff store_field_bytes assms(2))
qed

lemma no_reindex_LF:
  assumes "\<not> needs_reindex st" and "Suc i < length (contents st)"
  shows "ends_with (contents st ! i) [LF]"
  using assms by (auto simp: needs_reindex_def list_ex_iff store_field_bytes dest!: bspec [of _ _ "Suc i"])

lemma update_line_ending_same:
  assumes "\<not> needs_reindex (store (storage h))"
  shows "concat (eh_parts (update_line_ending h)) = concat (eh_parts h)"
    "store (storage (update_line_ending h)) = store (storage h)"
    "size_of (storage (update_line_ending h)) = size_of (storage h)"
    "status_of (storage (update_line_ending h)) = status_of (storage h)"
  using header_parts_concat [OF no_reindex_LF [OF assms]]
  by (simp_all add: update_line_ending_def eh_parts_def Let_def)

text \<open>A header with one field in a fragmented arena and an empty line.\<close>

definition sample_header :: edited_header where
  "sample_header =
     \<lparr>storage = \<lparr>store = \<lparr>arena = ascii ''zzA:'', hfields = [\<lparr>raw = (2, 4), hf_name = Some (2, 3)\<rparr>],
         free = [(0, 2)], ceiling_of = 9\<rparr>, separator = [LF], line_ending = [LF], size_of = 0,
        status_of = STATUS_NONE, raw_cache = None, matching_cache = None\<rparr>,
      eh_limits = message_limits_default, eh_shared = False\<rparr>"

lemma finish_private:
  assumes "finish body_len h = (h', Inr ())" and "\<not> eh_shared h"
    and "raw_cache (storage h) = None" and "headers_size (eh_limits h) \<le> isize_max"
    and "message_size (eh_limits h) \<le> usize_max"
  shows "concat (eh_parts h') = concat (eh_parts h) \<and>
    eh_len h' = length (concat (eh_parts h)) \<and>
    eh_len h' \<le> headers_size (eh_limits h) \<and> eh_len h' + body_len \<le> message_size (eh_limits h) \<and>
    (\<forall>f \<in> set (raw_fields (concat (eh_parts h'))). length (f_bytes f) \<le> header_field_size (eh_limits h)) \<and>
    eh_status h' = eh_status h \<and> \<not> needs_reindex (store (storage h'))"
proof -
  let ?bs = "concat (eh_parts h)"
  have "serialized_size (store (storage h)) (separator (storage h)) (line_ending (storage h)) =
      (if length ?bs \<le> usize_max then Inr (length ?bs) else Inl SizeOverflow)"
    by (simp add: serialized_size_def checked_sum_eq length_concat eh_parts_def)
  with assms(1) have small: "length ?bs \<le> usize_max" and
    size: "serialized_size (store (storage h)) (separator (storage h)) (line_ending (storage h)) =
      Inr (length ?bs)"
    by (auto simp: finish_def split: if_splits)
  define h1 where "h1 = h\<lparr>storage := (storage h)\<lparr>size_of := length ?bs\<rparr>\<rparr>"
  have p1: "eh_parts h1 = eh_parts h" "eh_limits h1 = eh_limits h" "\<not> eh_shared h1" "raw_cache (storage h1) = None"
    "eh_status h1 = eh_status h" "eh_len h1 = length ?bs"
    using assms(2,3) by (simp_all add: h1_def eh_parts_def eh_status_def eh_len_def)
  have valid: "eh_validate h1 body_len (eh_limits h1) = Inr ()"
    using assms(1,2) size by (auto simp: finish_def h1_def Let_def split: sum.splits)
  then have lim: "length ?bs \<le> headers_size (eh_limits h)" "length ?bs + body_len \<le> message_size (eh_limits h)"
    "\<forall>f \<in> set (raw_fields ?bs). length (f_bytes f) \<le> header_field_size (eh_limits h)"
    using validate_header_parts_iff [OF small assms(5)] by (simp_all add: eh_validate_def p1)
  show ?thesis
  proof (cases "needs_reindex (store (storage h1))")
    case False
    then have "h' = update_line_ending h1"
      using assms(1,2) size valid by (simp add: finish_def h1_def Let_def)
    then show ?thesis
      using update_line_ending_same [OF False] lim p1 False by (simp add: eh_len_def eh_status_def)
  next
    case True
    obtain fs sep ending where sp: "split_fields ?bs = (fs, sep, ending)" by (cases "split_fields ?bs")
    obtain st where st: "store_new fs (headers_size (eh_limits h)) = Inr st"
      "\<And>e. concat (header_parts st sep e) = ?bs" "contents st = map f_bytes fs"
      by (rule split_store [OF sp lim(1) assms(4)]) blast
    define h2 where "h2 = h1\<lparr>storage := \<lparr>store = st, separator = sep, line_ending = ending,
        size_of = length ?bs, status_of = eh_status h1, raw_cache = None, matching_cache = None\<rparr>,
        eh_shared := False\<rparr>"
    have "h' = update_line_ending h2"
      using assms(1,2) size valid True sp st(1) p1
      by (simp add: finish_def h1_def [symmetric] Let_def as_bytes_def h2_def)
    moreover have "\<not> needs_reindex (store (storage h2))"
      using split_store_indexed [OF sp st(3)] by (simp add: h2_def)
    moreover have "concat (eh_parts h2) = ?bs" by (simp add: eh_parts_def h2_def st(2))
    ultimately show ?thesis
      using update_line_ending_same [of h2] lim p1
      by (simp add: eh_len_def eh_status_def h2_def)
  qed
qed

text \<open>
  Finishing an edit of privately owned storage publishes exactly the bytes that were
  validated: on success the header still spells the same bytes, its recorded size is their
  number, they are within every limit, the delivery status is kept, and the index agrees with
  the field boundaries, so that it needs no further reindexing.
\<close>

theorem finish_publishes_validated_bytes:
  assumes "finish body_len h = (h', Inr ())" and "\<not> eh_shared h"
    and "raw_cache (storage h) = None" and "headers_size (eh_limits h) \<le> isize_max"
    and "message_size (eh_limits h) \<le> usize_max"
  shows "concat (eh_parts h') = concat (eh_parts h) \<and>
    eh_len h' = length (concat (eh_parts h)) \<and>
    eh_len h' \<le> headers_size (eh_limits h) \<and> eh_len h' + body_len \<le> message_size (eh_limits h) \<and>
    (\<forall>f \<in> set (raw_fields (concat (eh_parts h'))). length (f_bytes f) \<le> header_field_size (eh_limits h)) \<and>
    eh_status h' = eh_status h \<and> \<not> needs_reindex (store (storage h'))"
  by (rule finish_private [OF assms])

theorem finish_publishes_validated_bytes_witness:
  "eh_len (fst (finish 0 sample_header)) = 3"
proof -
  have run: "finish 0 sample_header = (fst (finish 0 sample_header), Inr ())"
    by (simp add: finish_def sample_header_def serialized_size_def header_parts_def store_field_def
        view_field_def arena_slice_def slice_def checked_add_def usize_max_def eh_validate_def
        validate_header_parts_def eh_parts_def eh_len_def check_limit_def validate_field_line_def
        is_blank_def needs_reindex_def message_limits_default_def size_units Let_def)
  have "concat (eh_parts sample_header) = ascii ''A:'' @ [LF]"
    by (simp add: sample_header_def header_parts_def store_field_def view_field_def arena_slice_def
        slice_def eh_parts_def)
  then show ?thesis
    using finish_publishes_validated_bytes [OF run]
    by (simp add: sample_header_def message_limits_default_def size_units isize_max_def usize_max_def)
qed

end
