(* ===== verification/Io_Errors.thy ===== *)
theory Io_Errors
  imports Prelude
begin

text \<open>
  Input and output as the sources see it: errors of the operating system by their kind (and
  whether the error number is the one for descriptor exhaustion, which has no kind of its own),
  and writers as functions from a writer state and bytes to the next state and a result.  Error
  message texts are left out.
\<close>

datatype io_error_kind =
    Kind_AlreadyExists | Kind_BrokenPipe | Kind_Interrupted | Kind_OutOfMemory | Kind_ResourceBusy
  | Kind_StorageFull | Kind_TimedOut | Kind_WouldBlock | Kind_WriteZero
  | Kind_InvalidData | Kind_InvalidInput | Kind_IsADirectory | Kind_NotADirectory | Kind_NotFound
  | Kind_PermissionDenied | Kind_ReadOnlyFilesystem | Kind_Unsupported
  | Kind_Other | Kind_UnexpectedEof | Kind_Uncategorized

record io_error =
  ie_kind :: io_error_kind
  ie_mfile :: bool

abbreviation io_error_of :: "io_error_kind \<Rightarrow> io_error" where
  "io_error_of k \<equiv> \<lparr>ie_kind = k, ie_mfile = False\<rparr>"

type_synonym 'a io = "io_error + 'a"
type_synonym 'w write_all = "'w \<Rightarrow> bytes \<Rightarrow> 'w \<times> unit io"

definition vec_write :: "bytes write_all" where
  "vec_write w bs = (w @ bs, Inr ())"

definition sink_write :: "unit write_all" where
  "sink_write w bs = ((), Inr ())"

text \<open>
  A writer that does not fail: each write succeeds, and what was written depends on the
  concatenation of the writes only.
\<close>

locale total_writer =
  fixes wr :: "'w write_all" and app :: "'w \<Rightarrow> bytes \<Rightarrow> 'w"
  assumes writes: "wr w bs = (app w bs, Inr ())"
    and app_Nil: "app w [] = w"
    and app_append: "app w (a @ b) = app (app w a) b"

end
