(* ===== verification/Message_Reader.thy ===== *)
theory Message_Reader
  imports Edited_Header_Limits Io_Errors
begin

text \<open>
  The bounded message reader of \<open>src/message.rs\<close>.  A buffered reader is the list of results its
  \<open>fill_buf\<close> calls will give: pieces of the input, or an error of the underlying stream; the end
  of the list is the end of the input.  How the input is cut into pieces is up to the operating
  system, so the reader is specified over the concatenated text.  A writer is a function that
  appends bytes to a writer state or fails.  A read that fails abandons the message: only the
  error is returned.
\<close>

datatype input = Data bytes | Fault io_error

type_synonym reader = "input list"

fun consume :: "nat \<Rightarrow> reader \<Rightarrow> reader" where
  "consume n (Data bs # r) = (if n < length bs then Data (drop n bs) # r else r)"
| "consume n r = r"

fun input_size :: "input \<Rightarrow> nat" where
  "input_size (Data bs) = length bs + 1"
| "input_size (Fault e) = 1"

abbreviation reader_size :: "reader \<Rightarrow> nat" where
  "reader_size r \<equiv> sum_list (map input_size r)"

section \<open>Two-part message bytes\<close>

type_synonym message_bytes = "bytes \<times> bytes"

definition mb_new :: "bytes \<Rightarrow> bytes \<Rightarrow> message_bytes" where
  "mb_new first_part second_part = (first_part, second_part)"

definition mb_reader :: "message_bytes \<Rightarrow> reader" where
  "mb_reader m = map Data (filter (\<lambda>p. p \<noteq> []) [fst m, snd m])"

definition mb_write_to :: "'w write_all \<Rightarrow> message_bytes \<Rightarrow> 'w \<Rightarrow> 'w \<times> unit io" where
  "mb_write_to write_all m w =
     (case write_all w (fst m) of (w', Inl e) \<Rightarrow> (w', Inl e) | (w', Inr _) \<Rightarrow> write_all w' (snd m))"

definition mb_ends_with :: "message_bytes \<Rightarrow> bytes \<Rightarrow> bool" where
  "mb_ends_with m suf \<longleftrightarrow>
     take (length suf) (concat (map rev (rev [fst m, snd m]))) = rev suf"

definition mb_is_empty :: "message_bytes \<Rightarrow> bool" where
  "mb_is_empty m \<longleftrightarrow> list_all (\<lambda>p. p = []) [fst m, snd m]"

section \<open>Messages\<close>

record message =
  m_raw :: bytes
  m_header :: range
  m_body :: range
  m_matching :: "bytes option"

datatype header_backing = Input_Backing bytes | Indexed_Backing edited_header

record message_head =
  mh_backing :: header_backing
  mh_matching :: "bytes option"
  mh_limits :: message_limits

record streamed_message =
  sm_header :: bytes
  sm_matching :: "bytes option"
  sm_len :: usize

datatype message_read_error =
    ReadIo io_error
  | ReadLimit message_limit usize

definition message_header :: "message \<Rightarrow> bytes" where
  "message_header m = slice (m_raw m) (fst (m_header m)) (snd (m_header m))"

definition message_body :: "message \<Rightarrow> bytes" where
  "message_body m = slice (m_raw m) (fst (m_body m)) (snd (m_body m))"

definition message_matching_header :: "message \<Rightarrow> bytes" where
  "message_matching_header m = (case m_matching m of Some h \<Rightarrow> h | None \<Rightarrow> message_header m)"

definition matching_message :: "message \<Rightarrow> bytes option" where
  "matching_message m = map_option (\<lambda>h. h @ message_body m) (m_matching m)"

section \<open>Reading\<close>

definition check_size :: "usize \<Rightarrow> usize \<Rightarrow> message_limit \<Rightarrow> message_read_error + unit" where
  "check_size n limit kind = (if n > limit then Inl (ReadLimit kind limit) else Inr ())"

text \<open>The three checks of a header line; the sums are computed modulo the width of \<open>usize\<close>.\<close>

definition check_header_line :: "message_limits \<Rightarrow> usize \<Rightarrow> usize \<Rightarrow> message_read_error + unit" where
  "check_header_line limits headers_read new_line_size =
     (case check_size new_line_size (header_line_size limits) Limit_HeaderLine of
        Inl e \<Rightarrow> Inl e
      | Inr _ \<Rightarrow>
          (case check_size ((headers_read + new_line_size) mod (usize_max + 1)) (headers_size limits) Limit_Headers of
             Inl e \<Rightarrow> Inl e
           | Inr _ \<Rightarrow>
               check_size ((headers_read + new_line_size) mod (usize_max + 1)) (message_size limits) Limit_Message))"

function header_line_loop ::
    "message_limits \<Rightarrow> usize \<Rightarrow> bytes \<Rightarrow> reader \<Rightarrow> message_read_error + bytes option \<times> reader" where
  "header_line_loop limits headers_read line [] = Inr (if line = [] then None else Some line, [])"
| "header_line_loop limits headers_read line (Fault e # r) = Inl (ReadIo e)"
| "header_line_loop limits headers_read line (Data available # r) =
     (if available = [] then Inr (if line = [] then None else Some line, Data available # r)
      else
        let n = (case position (\<lambda>b. b = LF) available of None \<Rightarrow> length available | Some index \<Rightarrow> index + 1)
        in case checked_add (length line) n of
             None \<Rightarrow> Inl (ReadLimit Limit_HeaderLine (header_line_size limits))
           | Some new_line_size \<Rightarrow>
               (case check_header_line limits headers_read new_line_size of
                  Inl e \<Rightarrow> Inl e
                | Inr _ \<Rightarrow>
                    let line' = line @ take n available; r' = consume n (Data available # r)
                    in if last_opt line' = Some LF then Inr (Some line', r')
                       else header_line_loop limits headers_read line' r'))"
  by pat_completeness auto
termination
  by (relation "measure (\<lambda>(limits, n, line, r). reader_size r)") (auto split: option.splits)

declare header_line_loop.simps(3) [simp del]

definition read_header_line ::
    "message_limits \<Rightarrow> usize \<Rightarrow> reader \<Rightarrow> message_read_error + bytes option \<times> reader" where
  "read_header_line limits headers_read r = header_line_loop limits headers_read [] r"

lemma consume_shorter: "available \<noteq> [] \<Longrightarrow> 0 < n \<Longrightarrow> reader_size (consume n (Data available # r)) < reader_size (Data available # r)"
  by simp

lemma header_line_progress:
  "header_line_loop limits n line r = Inr (Some l, r') \<Longrightarrow>
     reader_size r' \<le> reader_size r \<and> (l = line \<or> reader_size r' < reader_size r)"
proof (induction limits n line r rule: header_line_loop.induct)
  case (3 limits n line available r)
  define k where "k = (case position (\<lambda>b. b = LF) available of None \<Rightarrow> length available | Some index \<Rightarrow> index + 1)"
  show ?case
  proof (cases "available = []")
    case True
    then show ?thesis using "3.prems" by (simp add: header_line_loop.simps(3) split: if_splits)
  next
    case False
    then have k: "0 < k" by (simp add: k_def split: option.splits)
    note shorter = consume_shorter [OF False k, of r]
    obtain m where m: "checked_add (length line) k = Some m" "check_header_line limits n m = Inr ()"
      using "3.prems" False
      by (auto simp: header_line_loop.simps(3) Let_def k_def [symmetric] split: option.splits sum.splits)
    show ?thesis
    proof (cases "last_opt (line @ take k available) = Some LF")
      case True
      then show ?thesis using "3.prems" False m shorter
        by (simp add: header_line_loop.simps(3) Let_def k_def [symmetric] del: consume.simps)
    next
      case last: False
      then have run: "header_line_loop limits n (line @ take k available) (consume k (Data available # r)) = Inr (Some l, r')"
        using "3.prems" False m by (simp add: header_line_loop.simps(3) Let_def k_def [symmetric] del: consume.simps)
      have "reader_size r' \<le> reader_size (consume k (Data available # r))"
        using "3.IH" [OF False k_def m(1) _ refl refl last] m(2) run by simp
      then show ?thesis using shorter by simp
    qed
  qed
qed (auto split: if_splits)


lemma header_line_some: "header_line_loop limits n line r = Inr (Some l, r') \<Longrightarrow> l \<noteq> []"
proof (induction limits n line r rule: header_line_loop.induct)
  case (3 limits n line available r)
  define k where "k = (case position (\<lambda>b. b = LF) available of None \<Rightarrow> length available | Some index \<Rightarrow> index + 1)"
  from 3 show ?case
    unfolding header_line_loop.simps(3) [of limits n line available r] Let_def k_def [symmetric]
    by (auto simp: last_opt_def split: if_splits option.splits sum.splits)
qed (auto split: if_splits)

lemma read_header_line_shorter:
  "read_header_line limits n r = Inr (Some l, r') \<Longrightarrow> reader_size r' < reader_size r"
  using header_line_progress [of limits n "[]" r l r'] header_line_some [of limits n "[]" r l r']
  by (simp add: read_header_line_def)

function read_headers_loop ::
    "message_limits \<Rightarrow> bytes \<Rightarrow> usize \<Rightarrow> reader \<Rightarrow> message_read_error + bytes \<times> reader" where
  "read_headers_loop limits buf field_size r =
     (case read_header_line limits (length buf) r of
        Inl e \<Rightarrow> Inl e
      | Inr (None, r') \<Rightarrow> Inr (buf, r')
      | Inr (Some line, r') \<Rightarrow>
          if line = [LF] \<or> line = [CR, LF] then Inr (buf @ line, r')
          else
            (case (case first line of
                     Some b \<Rightarrow> if is_blank b then checked_add field_size (length line) else Some (length line)
                   | None \<Rightarrow> Some (length line)) of
               None \<Rightarrow> Inl (ReadLimit Limit_HeaderField (header_field_size limits))
             | Some field_size' \<Rightarrow>
                 if field_size' > header_field_size limits
                 then Inl (ReadLimit Limit_HeaderField (header_field_size limits))
                 else read_headers_loop limits (buf @ line) field_size' r'))"
  by pat_completeness auto
termination
  by (relation "measure (\<lambda>(limits, buf, n, r). reader_size r)")
    (auto simp: read_header_line_shorter)


declare read_headers_loop.simps [simp del]

definition read_headers :: "message_limits \<Rightarrow> reader \<Rightarrow> message_read_error + message_head \<times> reader" where
  "read_headers limits r =
     (case read_headers_loop limits [] 0 r of
        Inl e \<Rightarrow> Inl e
      | Inr (buf, r') \<Rightarrow>
          Inr (\<lparr>mh_backing = Input_Backing buf, mh_matching = normalize_folded_header buf,
                mh_limits = limits\<rparr>, r'))"

text \<open>
  The body loop: \<open>buf\<close> is the retained vector, \<open>stream\<close> the running total and the writer of a
  streaming caller.
\<close>

type_synonym 'w body_state = "bytes \<times> (usize \<times> 'w) option"

fun read_body_loop ::
    "'w write_all \<Rightarrow> message_limits \<Rightarrow> bool \<Rightarrow> usize \<Rightarrow> 'w body_state \<Rightarrow> reader \<Rightarrow>
     'w body_state \<times> (message_read_error + unit)" where
  "read_body_loop write_all limits retain body_len (buf, stream) [] = ((buf, stream), Inr ())"
| "read_body_loop write_all limits retain body_len (buf, stream) (Fault e # r) = ((buf, stream), Inl (ReadIo e))"
| "read_body_loop write_all limits retain body_len (buf, stream) (Data available # r) =
     (if available = [] then ((buf, stream), Inr ())
      else
        let total_len = (case stream of None \<Rightarrow> length buf | Some (n, _) \<Rightarrow> n)
        in case checked_add body_len (length available) of
             None \<Rightarrow> ((buf, stream), Inl (ReadLimit Limit_Body (body_size limits)))
           | Some next_body \<Rightarrow>
               (case checked_add total_len (length available) of
                  None \<Rightarrow> ((buf, stream), Inl (ReadLimit Limit_Message (message_size limits)))
                | Some next_total \<Rightarrow>
                    (case check_size next_body (body_size limits) Limit_Body of
                       Inl e \<Rightarrow> ((buf, stream), Inl e)
                     | Inr _ \<Rightarrow>
                         (case check_size next_total (message_size limits) Limit_Message of
                            Inl e \<Rightarrow> ((buf, stream), Inl e)
                          | Inr _ \<Rightarrow>
                              let buf' = (if retain then buf @ available else buf)
                              in case stream of
                                   None \<Rightarrow> read_body_loop write_all limits retain next_body (buf', None) r
                                 | Some (n, w) \<Rightarrow>
                                     (case write_all w available of
                                        (w', Inl e) \<Rightarrow> ((buf', Some (n, w')), Inl (ReadIo e))
                                      | (w', Inr _) \<Rightarrow>
                                          read_body_loop write_all limits retain next_body
                                            (buf', Some (next_total, w')) r)))))"

declare read_body_loop.simps(3) [simp del]

definition read_body ::
    "'w write_all \<Rightarrow> message_limits \<Rightarrow> bytes \<Rightarrow> bool \<Rightarrow> (usize \<times> 'w) option \<Rightarrow> reader \<Rightarrow>
     'w body_state \<times> (message_read_error + unit)" where
  "read_body write_all limits buf retain stream r = read_body_loop write_all limits retain 0 (buf, stream) r"

section \<open>Message heads\<close>

definition from_edited_header ::
    "edited_header \<Rightarrow> usize \<Rightarrow> message_limits \<Rightarrow> header_edit_error + message_head" where
  "from_edited_header edited body_len limits =
     (case eh_validate edited body_len limits of
        Inl e \<Rightarrow> Inl e
      | Inr _ \<Rightarrow> Inr \<lparr>mh_backing = Indexed_Backing edited, mh_matching = None, mh_limits = limits\<rparr>)"

definition replace_edited_header :: "edited_header \<Rightarrow> message_head \<Rightarrow> message_head" where
  "replace_edited_header edited h = h\<lparr>mh_backing := Indexed_Backing edited, mh_matching := None\<rparr>"

definition head_as_bytes :: "message_head \<Rightarrow> bytes" where
  "head_as_bytes h =
     (case mh_backing h of Input_Backing buf \<Rightarrow> buf | Indexed_Backing e \<Rightarrow> fst (as_bytes e))"

definition head_view :: "message_head \<Rightarrow> header_view" where
  "head_view h =
     (case mh_backing h of Input_Backing buf \<Rightarrow> View_Raw buf | Indexed_Backing e \<Rightarrow> View_Indexed e)"

definition head_matching_header :: "message_head \<Rightarrow> bytes" where
  "head_matching_header h =
     (case mh_backing h of
        Input_Backing buf \<Rightarrow> (case mh_matching h of Some m \<Rightarrow> m | None \<Rightarrow> buf)
      | Indexed_Backing e \<Rightarrow> fst (eh_matching_header e))"

definition take_matching_header :: "message_head \<Rightarrow> bytes option \<times> message_head" where
  "take_matching_header h =
     (case mh_backing h of
        Input_Backing _ \<Rightarrow> (mh_matching h, h\<lparr>mh_matching := None\<rparr>)
      | Indexed_Backing e \<Rightarrow> (fst (eh_normalized e), h))"

definition head_len :: "message_head \<Rightarrow> usize" where
  "head_len h = (case mh_backing h of Input_Backing buf \<Rightarrow> length buf | Indexed_Backing e \<Rightarrow> eh_len e)"

definition head_status :: "message_head \<Rightarrow> message_status" where
  "head_status h =
     (case mh_backing h of Input_Backing _ \<Rightarrow> STATUS_NONE | Indexed_Backing e \<Rightarrow> eh_status e)"

definition into_serialized_parts :: "message_head \<Rightarrow> bytes \<times> bytes option \<times> message_limits" where
  "into_serialized_parts h =
     (case mh_backing h of
        Input_Backing buf \<Rightarrow> (buf, mh_matching h, mh_limits h)
      | Indexed_Backing e \<Rightarrow>
          (case eh_normalized e of (m, e') \<Rightarrow> (into_streaming_bytes e', m, mh_limits h)))"

definition whole_message :: "bytes \<Rightarrow> usize \<Rightarrow> bytes option \<Rightarrow> message" where
  "whole_message buf body_start m =
     \<lparr>m_raw = buf, m_header = (0, body_start), m_body = (body_start, length buf), m_matching = m\<rparr>"

definition head_read_body :: "message_head \<Rightarrow> reader \<Rightarrow> message_read_error + message" where
  "head_read_body h r =
     (case into_serialized_parts h of
        (buf, m, limits) \<Rightarrow>
          (case read_body sink_write limits buf True None r of
             (_, Inl e) \<Rightarrow> Inl e
           | ((buf', _), Inr _) \<Rightarrow> Inr (whole_message buf' (length buf) m)))"

definition stream_writer :: "'w \<Rightarrow> (usize \<times> 'w) option \<Rightarrow> 'w" where
  "stream_writer w stream = (case stream of Some (_, w') \<Rightarrow> w' | None \<Rightarrow> w)"

definition stream_total :: "usize \<Rightarrow> (usize \<times> 'w) option \<Rightarrow> usize" where
  "stream_total n stream = (case stream of Some (m, _) \<Rightarrow> m | None \<Rightarrow> n)"

definition read_body_to ::
    "'w write_all \<Rightarrow> message_head \<Rightarrow> reader \<Rightarrow> 'w \<Rightarrow> 'w \<times> (message_read_error + message)" where
  "read_body_to write_all h r w =
     (case into_serialized_parts h of
        (buf, m, limits) \<Rightarrow>
          (case write_all w buf of
             (w1, Inl e) \<Rightarrow> (w1, Inl (ReadIo e))
           | (w1, Inr _) \<Rightarrow>
               (case read_body write_all limits buf True (Some (length buf, w1)) r of
                  ((buf', stream), Inl e) \<Rightarrow> (stream_writer w1 stream, Inl e)
                | ((buf', stream), Inr _) \<Rightarrow>
                    (stream_writer w1 stream, Inr (whole_message buf' (length buf) m)))))"

definition stream_to ::
    "'w write_all \<Rightarrow> message_head \<Rightarrow> reader \<Rightarrow> 'w \<Rightarrow> 'w \<times> (message_read_error + streamed_message)" where
  "stream_to write_all h r w =
     (case into_serialized_parts h of
        (buf, m, limits) \<Rightarrow>
          (case write_all w buf of
             (w1, Inl e) \<Rightarrow> (w1, Inl (ReadIo e))
           | (w1, Inr _) \<Rightarrow>
               (case read_body write_all limits [] False (Some (length buf, w1)) r of
                  ((_, stream), Inl e) \<Rightarrow> (stream_writer w1 stream, Inl e)
                | ((_, stream), Inr _) \<Rightarrow>
                    (stream_writer w1 stream,
                     Inr \<lparr>sm_header = buf, sm_matching = m, sm_len = stream_total (length buf) stream\<rparr>))))"

definition read_from :: "message_limits \<Rightarrow> reader \<Rightarrow> message_read_error + message" where
  "read_from limits r =
     (case read_headers limits r of
        Inl e \<Rightarrow> Inl e
      | Inr (h, r') \<Rightarrow> head_read_body h r')"

text \<open>
  \<open>BufReader\<close> over two chained cursors delivers the first part, then the second, in pieces of
  at most its capacity; a cursor alone delivers what is left of its text as one piece.
\<close>

fun pieces :: "nat \<Rightarrow> bytes \<Rightarrow> bytes list" where
  "pieces cap [] = []"
| "pieces cap (b # bs) = take (Suc cap) (b # bs) # pieces cap (drop cap bs)"

definition chained :: "nat \<Rightarrow> bytes \<Rightarrow> bytes \<Rightarrow> reader" where
  "chained cap a b = map Data (pieces cap a @ pieces cap b)"

definition from_filter_output ::
    "nat \<Rightarrow> bytes \<Rightarrow> bytes \<Rightarrow> message \<Rightarrow> action_input \<Rightarrow> message_limits \<Rightarrow> message_read_error + message" where
  "from_filter_output cap header body output area limits =
     (if area = AI_Message then
        (case read_headers limits [Data (m_raw output)] of
           Inl e \<Rightarrow> Inl e
         | Inr (h, r) \<Rightarrow>
             (case snd (stream_to sink_write h r ()) of Inl e \<Rightarrow> Inl e | Inr _ \<Rightarrow> Inr output))
      else
        (case (if area = AI_Body then get_from (m_raw output) 1 else Some (m_raw output)) of
           None \<Rightarrow> Inl (ReadIo (io_error_of Kind_Other))
         | Some out \<Rightarrow>
             if area = AI_Headers then read_from limits (chained cap out body)
             else read_from limits (chained cap header out)))"

end
