(* ===== verification/Piecewise.thy ===== *)
theory Piecewise
  imports Prelude
begin

text \<open>
  Consumers of input that arrives in pieces.  The pieces are cut by the operating system or by
  a buffer size, so what a consumer computes must depend on the concatenated text alone.  The
  locale \<open>piecewise\<close> has the law that makes this so: feeding two pieces is feeding their
  concatenation.
\<close>

fun feed_all :: "('s \<Rightarrow> bytes \<Rightarrow> 's option) \<Rightarrow> 's \<Rightarrow> bytes list \<Rightarrow> 's option" where
  "feed_all feed s [] = Some s"
| "feed_all feed s (p # ps) = Option.bind (feed s p) (\<lambda>s'. feed_all feed s' ps)"

locale piecewise =
  fixes feed :: "'s \<Rightarrow> bytes \<Rightarrow> 's option"
  assumes feed_Nil: "feed s [] = Some s"
    and feed_append: "feed s (a @ b) = Option.bind (feed s a) (\<lambda>s'. feed s' b)"
begin

lemma feed_all_concat: "feed_all feed s ps = feed s (concat ps)"
  by (induction ps arbitrary: s) (simp_all add: feed_Nil feed_append)

lemma repiece: "concat ps = concat qs \<Longrightarrow> feed_all feed s ps = feed_all feed s qs"
  by (simp add: feed_all_concat)

lemma feed_invariant:
  assumes "\<And>s b s'. P s \<Longrightarrow> feed s [b] = Some s' \<Longrightarrow> P s'" and "P s" and "feed s bs = Some s'"
  shows "P s'"
  using assms(2,3)
proof (induction bs arbitrary: s)
  case (Cons b bs)
  from Cons.prems(2) obtain s1 where "feed s [b] = Some s1" "feed s1 bs = Some s'"
    using feed_append [of s "[b]" bs] by (cases "feed s [b]") simp_all
  with Cons assms(1) show ?case by blast
qed (simp add: feed_Nil)

end

end
