(* ===== verification/Message_Chunks.thy ===== *)
theory Message_Chunks
  imports Message_Reader Piecewise
begin

text \<open>
  Correctness of the message reader.  Whatever pieces the input arrives in, reading succeeds
  exactly when the text is within the limits, and then gives the message of that text; and the
  streaming and the buffering entry points agree on every input, failing ones included.
\<close>

section \<open>The text of a reader\<close>

fun input_text :: "input \<Rightarrow> bytes" where
  "input_text (Data bs) = bs"
| "input_text (Fault e) = []"

definition text_of :: "reader \<Rightarrow> bytes" where
  "text_of r = concat (map input_text r)"

fun steady :: "reader \<Rightarrow> bool" where
  "steady [] = True"
| "steady (Data bs # r) = (bs \<noteq> [] \<and> steady r)"
| "steady (Fault e # r) = False"

lemma text_of_simps [simp]: "text_of [] = []" "text_of (Data bs # r) = bs @ text_of r"
  by (simp_all add: text_of_def)

lemma steady_data: "steady (map Data ps) \<longleftrightarrow> (\<forall>p \<in> set ps. p \<noteq> [])" "text_of (map Data ps) = concat ps"
  by (induction ps) simp_all

lemma consume_steady:
  "n \<le> length bs \<Longrightarrow> steady (Data bs # r) \<Longrightarrow> steady (consume n (Data bs # r))"
  "n \<le> length bs \<Longrightarrow> text_of (consume n (Data bs # r)) = drop n (text_of (Data bs # r))"
  by simp_all

definition limits_sane :: "message_limits \<Rightarrow> bool" where
  "limits_sane limits \<longleftrightarrow> (\<forall>k. limit_slot limits k \<le> limit_ceiling k)"

lemma limits_sane_slots:
  assumes "limits_sane limits"
  shows "message_size limits \<le> 268435456" "headers_size limits \<le> 16777216" "body_size limits \<le> 268435456"
    "header_line_size limits \<le> 1048576" "header_field_size limits \<le> 16777216"
  using assms [unfolded limits_sane_def, rule_format, of Limit_MessageSize]
    assms [unfolded limits_sane_def, rule_format, of Limit_HeadersSize]
    assms [unfolded limits_sane_def, rule_format, of Limit_BodySize]
    assms [unfolded limits_sane_def, rule_format, of Limit_HeaderLineSize]
    assms [unfolded limits_sane_def, rule_format, of Limit_HeaderFieldSize]
  by (simp_all add: size_units)

section \<open>One header line\<close>

definition line_fits :: "message_limits \<Rightarrow> nat \<Rightarrow> nat \<Rightarrow> bool" where
  "line_fits limits hr n \<longleftrightarrow>
     n \<le> header_line_size limits \<and> hr + n \<le> headers_size limits \<and> hr + n \<le> message_size limits"

lemma line_fits_mono: "line_fits limits hr n \<Longrightarrow> m \<le> n \<Longrightarrow> line_fits limits hr m"
  by (simp add: line_fits_def)

lemma check_header_line_fits:
  assumes "limits_sane limits" and "hr \<le> headers_size limits"
  shows "line_fits limits hr n \<Longrightarrow> check_header_line limits hr n = Inr ()"
    and "\<not> line_fits limits hr n \<Longrightarrow> \<exists>k l. check_header_line limits hr n = Inl (ReadLimit k l)"
proof -
  note b = limits_sane_slots [OF assms(1)]
  have "(hr + n) mod (usize_max + 1) = hr + n" if "n \<le> header_line_size limits"
    using that b assms(2) by (intro mod_less) (simp add: usize_max_def)
  then show "line_fits limits hr n \<Longrightarrow> check_header_line limits hr n = Inr ()"
    and "\<not> line_fits limits hr n \<Longrightarrow> \<exists>k l. check_header_line limits hr n = Inl (ReadLimit k l)"
    by (auto simp: check_header_line_def check_size_def line_fits_def)
qed

lemma first_line_pieces:
  "LF \<notin> set a \<Longrightarrow> first_line (a @ b) = a @ first_line b"
  "position (\<lambda>b. b = LF) a = Some i \<Longrightarrow> first_line (a @ b) = take (Suc i) a"
proof -
  show "LF \<notin> set a \<Longrightarrow> first_line (a @ b) = a @ first_line b" by (induction a) (auto simp: first_line_cons)
  assume p: "position (\<lambda>b. b = LF) a = Some i"
  then have "position (\<lambda>b. b = LF) (a @ b) = Some i" by (simp add: position_append)
  then show "first_line (a @ b) = take (Suc i) a"
    using position_SomeD(1) [OF p] by (simp add: first_line_def)
qed

lemma last_opt_eq: "xs \<noteq> [] \<Longrightarrow> last_opt xs = Some (last xs)"
  by (cases xs rule: rev_cases) (simp_all add: last_opt_def)

lemma header_line_text:
  assumes "limits_sane limits" and "hr \<le> headers_size limits" and "steady r" and "LF \<notin> set line"
    and "line = [] \<or> line_fits limits hr (length line)"
  defines "full \<equiv> line @ first_line (text_of r)"
  shows "full = [] \<or> line_fits limits hr (length full) \<Longrightarrow>
      \<exists>r'. header_line_loop limits hr line r = Inr (if full = [] then None else Some full, r') \<and> steady r' \<and>
        text_of r' = drop (length (first_line (text_of r))) (text_of r)"
    and "full \<noteq> [] \<Longrightarrow> \<not> line_fits limits hr (length full) \<Longrightarrow>
      \<exists>k l. header_line_loop limits hr line r = Inl (ReadLimit k l)"
proof -
  have "(if full = [] \<or> line_fits limits hr (length full)
      then \<exists>r'. header_line_loop limits hr line r = Inr (if full = [] then None else Some full, r') \<and> steady r' \<and>
        text_of r' = drop (length (first_line (text_of r))) (text_of r)
      else \<exists>k l. header_line_loop limits hr line r = Inl (ReadLimit k l))"
    using assms(3-5) unfolding full_def
  proof (induction r arbitrary: line)
    case Nil
    then show ?case by auto
  next
    case (Cons i r)
    then obtain av where i: "i = Data av" and av: "av \<noteq> []" "steady r" by (cases i) auto
    define k where "k = (case position (\<lambda>b. b = LF) av of None \<Rightarrow> length av | Some index \<Rightarrow> index + 1)"
    let ?full = "line @ first_line (text_of (i # r))"
    have k: "k \<le> length av" "0 < k"
      using position_SomeD(1) [of "\<lambda>b. b = LF" av] av by (auto simp: k_def split: option.splits)
    have fl: "prefix (take k av) (first_line (text_of (i # r)))"
      using first_line_pieces(1) [of av "text_of r"] first_line_pieces(2) [of av _ "text_of r"] position_None_iff [of "\<lambda>b. b = LF" av]
      by (auto simp: k_def i split: option.splits)
    then have le: "length line + k \<le> length ?full"
      using k prefix_length_le [OF fl] by simp
    have ne: "?full \<noteq> []" using le k(2) by auto
    note step = header_line_loop.simps(3) [of limits hr line av r, folded k_def, unfolded Let_def]
    show ?case
    proof (cases "line_fits limits hr (length line + k)")
      case False
      then have "\<not> line_fits limits hr (length ?full)" using line_fits_mono [OF _ le] by blast
      moreover obtain a b where "check_header_line limits hr (length line + k) = Inl (ReadLimit a b)"
        using check_header_line_fits(2) [OF assms(1,2) False] by blast
      ultimately show ?thesis
        using ne av(1) step by (auto simp: i checked_add_def)
    next
      case True
      then have chk: "check_header_line limits hr (length line + k) = Inr ()"
        by (rule check_header_line_fits(1) [OF assms(1,2)])
      have "length line + k \<le> usize_max"
        using True limits_sane_slots(4) [OF assms(1)] by (simp add: line_fits_def usize_max_def)
      then have run: "header_line_loop limits hr line (i # r) =
         (let line' = line @ take k av; r' = consume k (Data av # r)
          in if last_opt line' = Some LF then Inr (Some line', r') else header_line_loop limits hr line' r')"
        using chk av(1) by (simp add: i step checked_add_def)
      show ?thesis
      proof (cases "position (\<lambda>b. b = LF) av")
        case None
        then have kl: "k = length av" by (simp add: k_def)
        have noLF: "LF \<notin> set av" using None by (auto simp: position_None_iff)
        have "last_opt (line @ av) \<noteq> Some LF" using noLF av(1) by (cases av rule: rev_cases) (auto simp: last_opt_def)
        then have run': "header_line_loop limits hr line (i # r) = header_line_loop limits hr (line @ av) r"
          unfolding run Let_def by (simp add: kl)
        have fl': "first_line (text_of (i # r)) = av @ first_line (text_of r)"
          using first_line_pieces(1) [OF noLF] by (simp add: i)
        show ?thesis
          using Cons.IH [of "line @ av"] Cons.prems(2) noLF av True
          unfolding run' fl' by (simp add: kl i split: if_splits)
      next
        case (Some j)
        then have kj: "k = Suc j" and fl': "first_line (text_of (i # r)) = take k av"
          using first_line_pieces(2) [OF Some] by (simp_all add: k_def i)
        have "last (take k av) = LF"
          using position_SomeD(1,2) [OF Some] by (simp add: kj take_Suc_conv_app_nth)
        then have last: "last_opt (line @ take k av) = Some LF"
          using k av(1) by (simp add: last_opt_eq)
        have "length (take k av) = k" using k(1) by simp
        then show ?thesis
          using True last consume_steady [OF k(1), of r] av k ne
          unfolding run fl' Let_def by (simp add: i del: consume.simps)
      qed
    qed
  qed
  then show "full = [] \<or> line_fits limits hr (length full) \<Longrightarrow>
      \<exists>r'. header_line_loop limits hr line r = Inr (if full = [] then None else Some full, r') \<and> steady r' \<and>
        text_of r' = drop (length (first_line (text_of r))) (text_of r)"
    and "full \<noteq> [] \<Longrightarrow> \<not> line_fits limits hr (length full) \<Longrightarrow>
      \<exists>k l. header_line_loop limits hr line r = Inl (ReadLimit k l)"
    by (simp_all split: if_splits)
qed


section \<open>The header\<close>

definition header_block :: "bytes \<Rightarrow> bytes" where
  "header_block bs = concat (header_lines (lines_of bs))"

lemma header_block_simps:
  "header_block [] = []"
  "bs \<noteq> [] \<Longrightarrow> header_block bs = first_line bs @
     (if blank_line (first_line bs) then [] else header_block (drop (length (first_line bs)) bs))"
  by (simp_all add: header_block_def lines_of_step)

lemma header_block_prefix: "prefix (header_block bs) bs"
proof (induction bs rule: lines_of.induct)
  case (1 bs)
  show ?case
  proof (cases "bs = []")
    case False
    let ?l = "first_line bs" let ?t = "drop (length (first_line bs)) bs"
    have "prefix (?l @ (if blank_line ?l then [] else header_block ?t)) (?l @ ?t)"
      using "1.IH" [OF False] by simp
    then show ?thesis unfolding header_block_simps(2) [OF False] by (simp only: first_line_split)
  qed (simp add: header_block_simps)
qed

definition header_accepted :: "message_limits \<Rightarrow> nat \<Rightarrow> nat \<Rightarrow> bytes \<Rightarrow> bool" where
  "header_accepted limits k field_size bs \<longleftrightarrow>
     lines_valid limits field_size (lines_of bs) \<and>
     k + length (header_block bs) \<le> headers_size limits \<and> k + length (header_block bs) \<le> message_size limits"

text \<open>One turn of the header loop in terms of the text.\<close>

lemma header_accepted_step:
  assumes "bs \<noteq> []" and "k \<le> headers_size limits"
  shows "header_accepted limits k n bs \<longleftrightarrow>
    line_fits limits k (length (first_line bs)) \<and>
    (blank_line (first_line bs) \<or>
     (let m = (case first (first_line bs) of
                 Some b \<Rightarrow> if is_blank b then n + length (first_line bs) else length (first_line bs)
               | None \<Rightarrow> length (first_line bs))
      in m \<le> header_field_size limits \<and>
         header_accepted limits (k + length (first_line bs)) m (drop (length (first_line bs)) bs)))"
  unfolding header_accepted_def header_block_simps(2) [OF assms(1)] lines_of_step [OF assms(1)] line_fits_def
  by (auto simp: Let_def)

lemma read_headers_text:
  assumes "limits_sane limits" and "steady r" and "length buf \<le> headers_size limits"
    and "length buf \<le> message_size limits" and "n \<le> header_field_size limits"
  shows "if header_accepted limits (length buf) n (text_of r)
    then \<exists>r'. read_headers_loop limits buf n r = Inr (buf @ header_block (text_of r), r') \<and> steady r' \<and>
        text_of r' = drop (length (header_block (text_of r))) (text_of r)
    else \<exists>k l. read_headers_loop limits buf n r = Inl (ReadLimit k l)"
  using assms(2-5)
proof (induction "length (text_of r)" arbitrary: r buf n rule: less_induct)
  case less
  let ?bs = "text_of r" let ?l = "first_line (text_of r)"
  note line = header_line_text [OF assms(1) less.prems(2,1), of "[]"]
  show ?case
  proof (cases "?bs = []")
    case True
    then obtain r' where "read_header_line limits (length buf) r = Inr (None, r')" "steady r'" "text_of r' = []"
      using line(1) by (auto simp: read_header_line_def)
    then show ?thesis using True less.prems
      by (subst read_headers_loop.simps) (auto simp: header_accepted_def header_block_simps)
  next
    case ne: False
    note acc = header_accepted_step [OF ne less.prems(2)]
    show ?thesis
    proof (cases "line_fits limits (length buf) (length ?l)")
      case False
      then obtain k l where "read_header_line limits (length buf) r = Inl (ReadLimit k l)"
        using line(2) ne by (auto simp: read_header_line_def)
      then show ?thesis using acc False by (subst read_headers_loop.simps) auto
    next
      case fits: True
      then obtain r1 where r1: "read_header_line limits (length buf) r = Inr (Some ?l, r1)" "steady r1"
        "text_of r1 = drop (length ?l) ?bs"
        using line(1) ne by (auto simp: read_header_line_def)
      show ?thesis
      proof (cases "blank_line ?l")
        case True
        then have "read_headers_loop limits buf n r = Inr (buf @ ?l, r1)"
          using r1(1) by (subst read_headers_loop.simps) (simp add: blank_line_def)
        then show ?thesis using acc fits True r1 header_block_simps(2) [OF ne] by simp
      next
        case nb: False
        define m where "m = (case first ?l of Some b \<Rightarrow> if is_blank b then n + length ?l else length ?l
            | None \<Rightarrow> length ?l)"
        have small: "n + length ?l \<le> usize_max"
          using less.prems(4) fits limits_sane_slots [OF assms(1)] by (simp add: line_fits_def usize_max_def)
        then have loop: "read_headers_loop limits buf n r =
            (if m > header_field_size limits then Inl (ReadLimit Limit_HeaderField (header_field_size limits))
             else read_headers_loop limits (buf @ ?l) m r1)"
          using r1(1) nb by (subst read_headers_loop.simps)
            (auto simp: blank_line_def m_def checked_add_def split: option.splits)
        show ?thesis
        proof (cases "m \<le> header_field_size limits")
          case False
          then show ?thesis using acc nb loop by (auto simp: m_def Let_def)
        next
          case True
          have "length (text_of r1) < length ?bs" using r1(3) drop_first_line_shorter [OF ne] by simp
          note IH = less.hyps [OF this r1(2), of "buf @ ?l" m]
          have acc': "header_accepted limits (length buf) n ?bs \<longleftrightarrow>
              header_accepted limits (length (buf @ ?l)) m (text_of r1)"
            using acc nb fits True r1(3) by (auto simp: m_def Let_def)
          have blk: "header_block ?bs = ?l @ header_block (text_of r1)"
            using header_block_simps(2) [OF ne] nb r1(3) by simp
          have d: "drop (length (?l @ header_block (text_of r1))) ?bs = drop (length (header_block (text_of r1))) (text_of r1)"
            by (simp add: r1(3) add.commute)
          have loop': "read_headers_loop limits buf n r = read_headers_loop limits (buf @ ?l) m r1"
            using loop True by simp
          show ?thesis
            using IH fits True unfolding acc' blk d loop' append.assoc [symmetric] by (simp add: line_fits_def)
        qed
      qed
    qed
  qed
qed


section \<open>The body\<close>

text \<open>A successful body read as a consumer of pieces.\<close>

definition body_feed :: "message_limits \<Rightarrow> nat \<times> bytes \<Rightarrow> bytes \<Rightarrow> (nat \<times> bytes) option" where
  "body_feed limits s bs =
     (if bs = [] then Some s
      else if fst s + length bs \<le> body_size limits \<and> length (snd s) + length bs \<le> message_size limits
      then Some (fst s + length bs, snd s @ bs) else None)"

interpretation body: piecewise "body_feed limits"
  by unfold_locales (auto simp: body_feed_def)

lemma read_body_feed:
  assumes "limits_sane limits" and "steady r"
  shows "case feed_all (body_feed limits) (n, buf) (map input_text r) of
      Some (_, buf') \<Rightarrow> read_body_loop w limits True n (buf, None) r = ((buf', None), Inr ())
    | None \<Rightarrow> \<exists>k l. snd (read_body_loop w limits True n (buf, None) r) = Inl (ReadLimit k l)"
  using assms(2)
proof (induction r arbitrary: n buf)
  case (Cons i r)
  then obtain av where i: "i = Data av" and av: "av \<noteq> []" "steady r" by (cases i) auto
  note b = limits_sane_slots [OF assms(1)]
  show ?case
  proof (cases "n + length av \<le> body_size limits \<and> length buf + length av \<le> message_size limits")
    case True
    then have "n + length av \<le> usize_max" "length buf + length av \<le> usize_max"
      using b by (simp_all add: usize_max_def)
    then have run: "read_body_loop w limits True n (buf, None) (i # r) =
        read_body_loop w limits True (n + length av) (buf @ av, None) r"
      using True av(1) by (simp add: i read_body_loop.simps(3) checked_add_def check_size_def)
    have "body_feed limits (n, buf) av = Some (n + length av, buf @ av)"
      using True av(1) by (simp add: body_feed_def)
    then show ?thesis
      using Cons.IH [OF av(2), of "n + length av" "buf @ av"] unfolding run by (simp add: i)
  next
    case False
    then have "feed_all (body_feed limits) (n, buf) (map input_text (i # r)) = None"
      using av(1) by (auto simp: i body_feed_def)
    moreover have "\<exists>k l. snd (read_body_loop w limits True n (buf, None) (i # r)) = Inl (ReadLimit k l)"
      using False av(1) by (auto simp: i read_body_loop.simps(3) checked_add_def check_size_def)
    ultimately show ?thesis by simp
  qed
qed simp

section \<open>Reading a message\<close>

definition message_accepted :: "message_limits \<Rightarrow> bytes \<Rightarrow> bool" where
  "message_accepted limits bs \<longleftrightarrow>
     (\<forall>l \<in> set (header_lines (lines_of bs)). length l \<le> header_line_size limits) \<and>
     (\<forall>f \<in> set (raw_fields bs). length (f_bytes f) \<le> header_field_size limits) \<and>
     length (header_block bs) \<le> headers_size limits \<and>
     length bs - length (header_block bs) \<le> body_size limits \<and> length bs \<le> message_size limits"

definition message_of :: "bytes \<Rightarrow> message" where
  "message_of bs =
     \<lparr>m_raw = bs, m_header = (0, length (header_block bs)), m_body = (length (header_block bs), length bs),
      m_matching = normalize_folded_header (header_block bs)\<rparr>"

lemma read_from_spec:
  assumes "limits_sane limits" and "steady r"
  shows "if message_accepted limits (text_of r) then read_from limits r = Inr (message_of (text_of r))
    else \<exists>k l. read_from limits r = Inl (ReadLimit k l)"
proof -
  let ?bs = "text_of r" let ?h = "header_block (text_of r)"
  note hdr = read_headers_text [OF assms, of "[]" 0, simplified]
  have len: "length ?h \<le> length ?bs" by (rule prefix_length_le [OF header_block_prefix])
  have whole: "?h @ drop (length ?h) ?bs = ?bs"
    using header_block_prefix [of ?bs] by (metis append_eq_conv_conj prefixE)
  show ?thesis
  proof (cases "header_accepted limits 0 0 ?bs")
    case False
    then have "\<not> message_accepted limits ?bs"
      using len by (auto simp: header_accepted_def message_accepted_def lines_valid_top)
    moreover obtain k l where "read_headers_loop limits [] 0 r = Inl (ReadLimit k l)" using hdr False by auto
    ultimately show ?thesis by (simp add: read_from_def read_headers_def)
  next
    case True
    then obtain r' where r': "read_headers_loop limits [] 0 r = Inr (?h, r')" "steady r'"
      "text_of r' = drop (length ?h) ?bs" using hdr by auto
    have feed: "feed_all (body_feed limits) (0, ?h) (map input_text r') = body_feed limits (0, ?h) (drop (length ?h) ?bs)"
      by (simp add: body.feed_all_concat text_of_def [symmetric] r'(3))
    have acc: "message_accepted limits ?bs \<longleftrightarrow> body_feed limits (0, ?h) (drop (length ?h) ?bs) \<noteq> None"
      using True len by (auto simp: header_accepted_def message_accepted_def lines_valid_top body_feed_def)
    have out: "body_feed limits (0, ?h) (drop (length ?h) ?bs) = Some (n, buf') \<Longrightarrow> buf' = ?bs" for n buf'
      using whole by (auto simp: body_feed_def split: if_splits)
    have run: "read_from limits r = (case read_body_loop sink_write limits True 0 (?h, None) r' of
        (_, Inl e) \<Rightarrow> Inl e | ((buf', _), Inr _) \<Rightarrow> Inr (whole_message buf' (length ?h) (normalize_folded_header ?h)))"
      using r'(1) by (simp add: read_from_def read_headers_def head_read_body_def into_serialized_parts_def read_body_def)
    show ?thesis
      using read_body_feed [OF assms(1) r'(2), where n = 0 and buf = ?h and w = sink_write] out
      unfolding feed acc run
      by (auto simp: whole_message_def message_of_def split: option.splits prod.splits sum.splits)
  qed
qed

text \<open>
  C2. Reading a message does not depend on how the input is cut into pieces.  Under limits
  within their ceilings, and when the stream itself does not fail, reading succeeds exactly when
  every header line, every folded field, the header block, the body and the whole message are
  within their limits; the message read is the whole text, split after the first empty line; and
  otherwise the error names a limit.
\<close>

theorem read_from_text:
  assumes "limits_sane limits" and "steady r"
  shows "if message_accepted limits (text_of r) then read_from limits r = Inr (message_of (text_of r))
    else \<exists>k l. read_from limits r = Inl (ReadLimit k l)"
  by (rule read_from_spec [OF assms])


lemma default_limits_sane: "limits_sane message_limits_default"
  unfolding limits_sane_def
proof
  fix k
  show "limit_slot message_limits_default k \<le> limit_ceiling k"
    by (cases k) (simp_all add: message_limits_default_def size_units)
qed

text \<open>A message that arrives in three pieces, one of them ending inside the empty line.\<close>

definition sample_reader :: reader where
  "sample_reader = map Data [ascii ''A'', ascii '':b'' @ [LF, CR], [LF] @ ascii ''hi'']"

lemma sample_reader_text:
  "text_of sample_reader = ascii ''A:b'' @ [LF, CR, LF] @ ascii ''hi''" "steady sample_reader"
  by (simp_all add: sample_reader_def steady_data)

lemma sample_lines:
  "lines_of (ascii ''A:b'' @ [LF, CR, LF] @ ascii ''hi'') = [ascii ''A:b'' @ [LF], [CR, LF], ascii ''hi'']"
  using lines_of_app_LF [of "ascii ''A:b''" "[CR, LF] @ ascii ''hi''"] lines_of_app_LF [of "[CR]" "ascii ''hi''"]
  by (simp add: lines_of_step first_line_no_LF)

theorem read_from_text_witness:
  "read_from message_limits_default sample_reader = Inr (message_of (ascii ''A:b'' @ [LF, CR, LF] @ ascii ''hi''))"
proof -
  have "lines_valid message_limits_default 0 (lines_of (text_of sample_reader))"
    unfolding sample_reader_text sample_lines
    by (simp add: message_limits_default_def size_units blank_line_def)
  then have "message_accepted message_limits_default (text_of sample_reader)"
    unfolding message_accepted_def lines_valid_top
    by (simp add: sample_reader_text header_block_def sample_lines [simplified] message_limits_default_def size_units
        blank_line_def)
  then show ?thesis
    using read_from_text [OF default_limits_sane sample_reader_text(2)] by (simp add: sample_reader_text)
qed

section \<open>Streaming and buffering\<close>

lemma whole_message_parts [simp]:
  "message_header (whole_message (buf @ body) (length buf) m) = buf"
  "message_body (whole_message (buf @ body) (length buf) m) = body"
  "m_matching (whole_message buf k m) = m" "m_raw (whole_message buf k m) = buf"
  by (simp_all add: message_header_def message_body_def whole_message_def slice_def)

text \<open>
  The buffering loop and the two streaming loops in step.  \<open>None\<close> stands for a failed read, whose
  retained bytes are dropped.
\<close>

context total_writer
begin

lemma stream_body:
  "case read_body_loop w limits True n (buf, None) r of
      (_, Inl e) \<Rightarrow> snd (read_body_loop wr limits False n ([], Some (length buf, out)) r) = Inl e \<and>
        snd (read_body_loop wr limits True n (buf, Some (length buf, out)) r) = Inl e
    | ((buf', _), Inr _) \<Rightarrow> \<exists>body. buf' = buf @ body \<and>
        read_body_loop wr limits False n ([], Some (length buf, out)) r =
          (([], Some (length buf', app out body)), Inr ()) \<and>
        read_body_loop wr limits True n (buf, Some (length buf, out)) r =
          ((buf', Some (length buf', app out body)), Inr ())"
proof (induction r arbitrary: n buf out)
  case (Cons i r)
  show ?case
  proof (cases i)
    case (Data av)
    show ?thesis
    proof (cases "av \<noteq> [] \<and> n + length av \<le> usize_max \<and> length buf + length av \<le> usize_max \<and>
        n + length av \<le> body_size limits \<and> length buf + length av \<le> message_size limits")
      case True
      then have step:
        "read_body_loop w limits True n (buf, None) (i # r) =
          read_body_loop w limits True (n + length av) (buf @ av, None) r"
        "read_body_loop wr limits False n ([], Some (length buf, out)) (i # r) =
          read_body_loop wr limits False (n + length av) ([], Some (length (buf @ av), app out av)) r"
        "read_body_loop wr limits True n (buf, Some (length buf, out)) (i # r) =
          read_body_loop wr limits True (n + length av) (buf @ av, Some (length (buf @ av), app out av)) r"
        by (simp_all add: Data read_body_loop.simps(3) checked_add_def check_size_def writes)
      show ?thesis
        unfolding step using Cons.IH [of "n + length av" "buf @ av" "app out av"]
        by (auto simp: app_append split: sum.splits prod.splits)
    next
      case False
      then show ?thesis
        by (auto simp: Data read_body_loop.simps(3) checked_add_def check_size_def app_Nil)
    qed
  qed simp
qed (simp add: app_Nil)

lemma stream_to_buffered:
  "snd (stream_to wr h r out) = map_sum id (\<lambda>m. \<lparr>sm_header = message_header m, sm_matching = m_matching m,
      sm_len = length (m_raw m)\<rparr>) (head_read_body h r)"
  "snd (read_body_to wr h r out) = head_read_body h r"
  "head_read_body h r = Inr m \<Longrightarrow> fst (stream_to wr h r out) = app out (m_raw m)"
  "head_read_body h r = Inr m \<Longrightarrow> fst (read_body_to wr h r out) = app out (m_raw m)"
proof -
  obtain buf mh limits where p: "into_serialized_parts h = (buf, mh, limits)" by (cases "into_serialized_parts h")
  note body = stream_body [where w = sink_write and limits = limits and n = 0 and buf = buf and r = r
      and out = "app out buf"]
  show "snd (stream_to wr h r out) = map_sum id (\<lambda>m. \<lparr>sm_header = message_header m, sm_matching = m_matching m,
      sm_len = length (m_raw m)\<rparr>) (head_read_body h r)"
    using body
    by (auto simp: stream_to_def head_read_body_def p read_body_def writes stream_total_def
        split: sum.splits prod.splits)
  show "snd (read_body_to wr h r out) = head_read_body h r"
    using body
    by (auto simp: read_body_to_def head_read_body_def p read_body_def writes split: sum.splits prod.splits)
  show "head_read_body h r = Inr m \<Longrightarrow> fst (stream_to wr h r out) = app out (m_raw m)"
    using body
    by (auto simp: stream_to_def head_read_body_def p read_body_def writes app_append stream_writer_def
        split: sum.splits prod.splits)
  show "head_read_body h r = Inr m \<Longrightarrow> fst (read_body_to wr h r out) = app out (m_raw m)"
    using body
    by (auto simp: read_body_to_def head_read_body_def p read_body_def writes app_append stream_writer_def
        split: sum.splits prod.splits)
qed

end

interpretation vw: total_writer vec_write "(@)"
  by unfold_locales (simp_all add: vec_write_def)

interpretation sw: total_writer sink_write "\<lambda>_ _. ()"
  by unfold_locales (simp_all add: sink_write_def)

text \<open>
  C37. Streaming a message, buffering it, and doing both at once agree on every input, whatever
  the limits and wherever the stream fails: the same error, or the same bytes, the same header
  and the same length, and the bytes written out are those of the buffered message.
\<close>

theorem stream_buffer_agree:
  "snd (stream_to vec_write h r out) =
     map_sum id (\<lambda>m. \<lparr>sm_header = message_header m, sm_matching = m_matching m, sm_len = length (m_raw m)\<rparr>)
       (head_read_body h r) \<and>
   snd (read_body_to vec_write h r out) = head_read_body h r \<and>
   (case head_read_body h r of
      Inl _ \<Rightarrow> True
    | Inr m \<Rightarrow> fst (stream_to vec_write h r out) = out @ m_raw m \<and>
        fst (read_body_to vec_write h r out) = out @ m_raw m)"
  using vw.stream_to_buffered [of h r] by (auto split: sum.splits)

section \<open>The output of a filter\<close>

lemma pieces_props: "concat (pieces cap bs) = bs" "p \<in> set (pieces cap bs) \<Longrightarrow> p \<noteq> []"
  by (induction cap bs rule: pieces.induct) auto

lemma chained_text: "text_of (chained cap a b) = a @ b" "steady (chained cap a b)"
  unfolding chained_def steady_data by (auto simp: pieces_props(1) dest: pieces_props(2))

definition filtered_text :: "bytes \<Rightarrow> bytes \<Rightarrow> bytes \<Rightarrow> action_input \<Rightarrow> bytes" where
  "filtered_text header body out area =
     (case area of AI_Message \<Rightarrow> out | AI_Headers \<Rightarrow> out @ body | AI_Body \<Rightarrow> header @ tl out)"

lemma single_piece:
  assumes "limits_sane limits" and "read_from limits [Data bs] = Inr m"
  shows "message_accepted limits bs \<and> m = message_of bs"
proof (cases "bs = []")
  case True
  have "read_from limits [Data []] = read_from limits []"
    by (simp add: read_from_def read_headers_def read_headers_loop.simps read_header_line_def
        header_line_loop.simps(3) head_read_body_def into_serialized_parts_def read_body_def read_body_loop.simps(3))
  then show ?thesis using read_from_spec [OF assms(1), of "[]"] assms(2) True by (auto split: if_splits)
next
  case False
  then show ?thesis using read_from_spec [OF assms(1), of "[Data bs]"] assms(2) by (auto split: if_splits)
qed

text \<open>
  C19. A filter replaces exactly the area it was given.  When the output of a filter is accepted,
  the new message is the output, the output followed by the old body, or the old header followed
  by the output without its private separator byte; it is within every limit in force; and when
  only a part was filtered, header and body are found again in the joined text.
\<close>

theorem filter_output_replaces_area:
  assumes "from_filter_output cap header body output area limits = Inr m" and "limits_sane limits"
  shows "m_raw m = filtered_text header body (m_raw output) area \<and>
    message_accepted limits (m_raw m) \<and> (area \<noteq> AI_Message \<longrightarrow> m = message_of (m_raw m))"
proof (cases area)
  case AI_Message
  then have m: "m = output" and rf: "\<exists>m'. read_from limits [Data (m_raw output)] = Inr m'"
    using assms(1)
    by (auto simp: from_filter_output_def read_from_def sw.stream_to_buffered(1) map_sum_def split: sum.splits)
  then show ?thesis using single_piece [OF assms(2)] AI_Message by (auto simp: filtered_text_def)
next
  case AI_Headers
  then have "read_from limits (chained cap (m_raw output) body) = Inr m"
    using assms(1) by (simp add: from_filter_output_def)
  then show ?thesis
    using read_from_spec [OF assms(2) chained_text(2), of cap "m_raw output" body] AI_Headers
    by (auto simp: chained_text filtered_text_def message_of_def split: if_splits)
next
  case AI_Body
  then have "read_from limits (chained cap header (tl (m_raw output))) = Inr m"
    using assms(1) by (auto simp: from_filter_output_def get_from_def drop_Suc split: if_splits)
  then show ?thesis
    using read_from_spec [OF assms(2) chained_text(2), of cap header "tl (m_raw output)"] AI_Body
    by (auto simp: chained_text filtered_text_def message_of_def split: if_splits)
qed


theorem filter_output_replaces_area_witness:
  "\<exists>m. from_filter_output 1 (ascii ''A:b'' @ [LF, CR, LF]) [] (message_of (ascii ''-hi'')) AI_Body
      message_limits_default = Inr m \<and> m_raw m = ascii ''A:b'' @ [LF, CR, LF] @ ascii ''hi''"
proof -
  let ?t = "ascii ''A:b'' @ [LF, CR, LF] @ ascii ''hi''"
  have "lines_valid message_limits_default 0 (lines_of ?t)"
    unfolding sample_lines by (simp add: message_limits_default_def size_units blank_line_def)
  then have acc: "message_accepted message_limits_default ?t"
    unfolding message_accepted_def lines_valid_top
    by (simp add: header_block_def sample_lines [simplified] message_limits_default_def size_units blank_line_def)
  have "read_from message_limits_default (chained 1 (ascii ''A:b'' @ [LF, CR, LF]) (ascii ''hi'')) = Inr (message_of ?t)"
    using read_from_spec [OF default_limits_sane chained_text(2), of 1 "ascii ''A:b'' @ [LF, CR, LF]" "ascii ''hi''"] acc
    by (simp add: chained_text)
  then have run: "from_filter_output 1 (ascii ''A:b'' @ [LF, CR, LF]) [] (message_of (ascii ''-hi'')) AI_Body
      message_limits_default = Inr (message_of ?t)"
    by (simp add: from_filter_output_def message_of_def get_from_def)
  then show ?thesis
    using filter_output_replaces_area [OF run default_limits_sane] by (auto simp: filtered_text_def message_of_def)
qed

end
