(* ===== verification/Delivery.thy ===== *)
theory Delivery
  imports Message_Chunks
begin

unbundle bit_operations_syntax

text \<open>
  The fan-out of a delivery, \<open>src/delivery.rs\<close>: failure classes, the pending sinks that receive a
  message while it is still being validated, and their commit.  A sink belongs to an outside
  world (directories, files) that its operations change; the world is passed along explicitly.
  The \<open>PendingSink\<close> trait is the record \<open>sink_ops\<close>; the locale \<open>pending_sinks\<close> has the contract
  that the trait documents, and the fan-out is verified against it.
\<close>

section \<open>Failures\<close>

definition MAX_PENDING_SINKS :: usize where "MAX_PENDING_SINKS = 256"

definition MODE_BITS :: "32 word list" where
  "MODE_BITS = [256, 128, 64, 32, 16, 8, 4, 2, 1]"

definition creation_mode :: "32 word \<Rightarrow> 32 word \<Rightarrow> 32 word" where
  "creation_mode requested umask =
     (let allowed = requested AND NOT umask
      in foldl (\<lambda>mode bit. if allowed AND bit \<noteq> 0 then mode OR bit else mode) 0 MODE_BITS)"

datatype delivery_failure_class = Retryable | Permanent | Internal

datatype delivery_operation =
  Op_Open | Op_Lock | Op_Write | Op_Publish | Op_SyncFile | Op_SyncDirectory | Op_Unlock

fun from_io_kind :: "io_error_kind \<Rightarrow> delivery_failure_class" where
  "from_io_kind Kind_AlreadyExists = Retryable"
| "from_io_kind Kind_BrokenPipe = Retryable"
| "from_io_kind Kind_Interrupted = Retryable"
| "from_io_kind Kind_OutOfMemory = Retryable"
| "from_io_kind Kind_ResourceBusy = Retryable"
| "from_io_kind Kind_StorageFull = Retryable"
| "from_io_kind Kind_TimedOut = Retryable"
| "from_io_kind Kind_WouldBlock = Retryable"
| "from_io_kind Kind_WriteZero = Retryable"
| "from_io_kind Kind_InvalidData = Permanent"
| "from_io_kind Kind_InvalidInput = Permanent"
| "from_io_kind Kind_IsADirectory = Permanent"
| "from_io_kind Kind_NotADirectory = Permanent"
| "from_io_kind Kind_NotFound = Permanent"
| "from_io_kind Kind_PermissionDenied = Permanent"
| "from_io_kind Kind_ReadOnlyFilesystem = Permanent"
| "from_io_kind Kind_Unsupported = Permanent"
| "from_io_kind Kind_Other = Internal"
| "from_io_kind Kind_UnexpectedEof = Internal"
| "from_io_kind Kind_Uncategorized = Internal"

definition from_io_error :: "io_error \<Rightarrow> delivery_failure_class" where
  "from_io_error e = (if ie_mfile e then Retryable else from_io_kind (ie_kind e))"

record delivery_failure =
  df_class :: delivery_failure_class
  df_operation :: delivery_operation
  df_kind :: io_error_kind
  df_published :: bool

definition failure_from_io :: "delivery_operation \<Rightarrow> io_error \<Rightarrow> bool \<Rightarrow> delivery_failure" where
  "failure_from_io operation e published =
     \<lparr>df_class = from_io_error e, df_operation = operation, df_kind = ie_kind e, df_published = published\<rparr>"

type_synonym published_delivery = bytes

record sink_commit_error =
  sc_source :: io_error
  sc_published :: "published_delivery option"
  sc_operation :: delivery_operation

definition before_publication :: "io_error \<Rightarrow> sink_commit_error" where
  "before_publication e = \<lparr>sc_source = e, sc_published = None, sc_operation = Op_Publish\<rparr>"

definition after_publication :: "io_error \<Rightarrow> published_delivery \<Rightarrow> sink_commit_error" where
  "after_publication e p = \<lparr>sc_source = e, sc_published = Some p, sc_operation = Op_Publish\<rparr>"

definition with_operation :: "delivery_operation \<Rightarrow> sink_commit_error \<Rightarrow> sink_commit_error" where
  "with_operation operation e = e\<lparr>sc_operation := operation\<rparr>"

definition commit_failure :: "sink_commit_error \<Rightarrow> delivery_failure" where
  "commit_failure e = failure_from_io (sc_operation e) (sc_source e) (sc_published e \<noteq> None)"

section \<open>Sinks\<close>

record ('w, 's) sink_ops =
  sk_write :: "'w \<Rightarrow> 's \<Rightarrow> bytes \<Rightarrow> 'w \<times> 's \<times> unit io"
  sk_commit :: "'w \<Rightarrow> 's \<Rightarrow> 'w \<times> (sink_commit_error + published_delivery)"
  sk_abort :: "'w \<Rightarrow> 's \<Rightarrow> 'w \<times> unit io"

record 's pending_fanout =
  pf_sinks :: "'s list"
  pf_write_failure :: "(nat \<times> delivery_failure) option"

datatype fanout_limit_error = TooManySinks (tms_count: usize) (tms_limit: usize)

definition fanout_new :: "'s list \<Rightarrow> fanout_limit_error + 's pending_fanout" where
  "fanout_new sinks =
     (if length sinks > MAX_PENDING_SINKS then Inl (TooManySinks (length sinks) MAX_PENDING_SINKS)
      else Inr \<lparr>pf_sinks = sinks, pf_write_failure = None\<rparr>)"

fun write_sinks :: "('w, 's) sink_ops \<Rightarrow> nat \<Rightarrow> bytes \<Rightarrow> 'w \<Rightarrow> 's list \<Rightarrow>
    'w \<times> 's list \<times> (nat \<times> io_error) option" where
  "write_sinks ops index bs w [] = (w, [], None)"
| "write_sinks ops index bs w (s # ss) =
     (case sk_write ops w s bs of
        (w1, s1, Inl e) \<Rightarrow> (w1, s1 # ss, Some (index, e))
      | (w1, s1, Inr _) \<Rightarrow>
          (case write_sinks ops (index + 1) bs w1 ss of (w2, ss2, r) \<Rightarrow> (w2, s1 # ss2, r)))"

text \<open>\<open>Write for PendingFanout\<close>; \<open>write_all\<close> calls \<open>write\<close> once for bytes that are not empty, since
  \<open>write\<close> takes all of them or fails.\<close>

definition fanout_write :: "('w, 's) sink_ops \<Rightarrow> ('w \<times> 's pending_fanout) write_all" where
  "fanout_write ops st bs =
     (if bs = [] then (st, Inr ())
      else
        case write_sinks ops 0 bs (fst st) (pf_sinks (snd st)) of
          (w, ss, None) \<Rightarrow> ((w, (snd st)\<lparr>pf_sinks := ss\<rparr>), Inr ())
        | (w, ss, Some (index, e)) \<Rightarrow>
            ((w, (snd st)\<lparr>pf_sinks := ss, pf_write_failure := Some (index, failure_from_io Op_Write e False)\<rparr>),
             Inl e))"

text \<open>\<open>abort_all\<close> pops the sinks from the end and counts the failures.\<close>

fun abort_each :: "('w, 's) sink_ops \<Rightarrow> 'w \<Rightarrow> usize \<Rightarrow> 's list \<Rightarrow> 'w \<times> usize" where
  "abort_each ops w failures [] = (w, failures)"
| "abort_each ops w failures (s # ss) =
     (case sk_abort ops w s of
        (w', Inl _) \<Rightarrow> abort_each ops w' (saturating_add failures 1) ss
      | (w', Inr _) \<Rightarrow> abort_each ops w' failures ss)"

definition abort_all :: "('w, 's) sink_ops \<Rightarrow> 'w \<Rightarrow> 's list \<Rightarrow> 'w \<times> usize" where
  "abort_all ops w sinks = abort_each ops w 0 (rev sinks)"

record stream_delivery_error =
  sd_source :: message_read_error
  sd_abort_failures :: usize
  sd_delivery_failure :: "(nat \<times> delivery_failure) option"
  sd_staging_failure :: "delivery_failure option"

definition stream_failure ::
    "('w, 's) sink_ops \<Rightarrow> message_read_error \<Rightarrow> 'w \<times> 's pending_fanout \<Rightarrow> delivery_failure option \<Rightarrow>
     'w \<times> stream_delivery_error" where
  "stream_failure ops source st staging =
     (case abort_all ops (fst st) (pf_sinks (snd st)) of
        (w, n) \<Rightarrow> (w, \<lparr>sd_source = source, sd_abort_failures = n,
                       sd_delivery_failure = pf_write_failure (snd st), sd_staging_failure = staging\<rparr>))"

definition fanout_stream ::
    "('w, 's) sink_ops \<Rightarrow> 'w \<Rightarrow> 's pending_fanout \<Rightarrow> message_head \<Rightarrow> reader \<Rightarrow>
     'w \<times> (stream_delivery_error + 's list \<times> streamed_message)" where
  "fanout_stream ops w f head r =
     (case stream_to (fanout_write ops) head r (w, f) of
        (st, Inr m) \<Rightarrow> (fst st, Inr (pf_sinks (snd st), m))
      | (st, Inl source) \<Rightarrow> map_prod id Inl (stream_failure ops source st None))"

definition fanout_buffer ::
    "('w, 's) sink_ops \<Rightarrow> 'w \<Rightarrow> 's pending_fanout \<Rightarrow> message_head \<Rightarrow> reader \<Rightarrow>
     'w \<times> (stream_delivery_error + 's list \<times> message)" where
  "fanout_buffer ops w f head r =
     (case read_body_to (fanout_write ops) head r (w, f) of
        (st, Inr m) \<Rightarrow> (fst st, Inr (pf_sinks (snd st), m))
      | (st, Inl source) \<Rightarrow> map_prod id Inl (stream_failure ops source st None))"

text \<open>\<open>TeeWriter\<close>: the fan-out first, then the staging file.\<close>

definition tee_write ::
    "('w, 's) sink_ops \<Rightarrow> 'g write_all \<Rightarrow> (('w \<times> 's pending_fanout) \<times> 'g \<times> delivery_failure option) write_all" where
  "tee_write ops stage st bs =
     (if bs = [] then (st, Inr ())
      else
        case fanout_write ops (fst st) bs of
          (f, Inl e) \<Rightarrow> ((f, snd st), Inl e)
        | (f, Inr _) \<Rightarrow>
            (case stage (fst (snd st)) bs of
               (g, Inl e) \<Rightarrow> ((f, g, Some (failure_from_io Op_Write e False)), Inl e)
             | (g, Inr _) \<Rightarrow> ((f, g, snd (snd st)), Inr ())))"

definition fanout_stage ::
    "('w, 's) sink_ops \<Rightarrow> 'g write_all \<Rightarrow> 'w \<Rightarrow> 'g \<Rightarrow> 's pending_fanout \<Rightarrow> message_head \<Rightarrow> reader \<Rightarrow>
     'w \<times> 'g \<times> (stream_delivery_error + 's list \<times> streamed_message)" where
  "fanout_stage ops stage w g f head r =
     (case stream_to (tee_write ops stage) head r ((w, f), g, None) of
        ((st, g', failure), Inr m) \<Rightarrow> (fst st, g', Inr (pf_sinks (snd st), m))
      | ((st, g', failure), Inl source) \<Rightarrow>
          (case stream_failure ops source st failure of (w', e) \<Rightarrow> (w', g', Inl e)))"

record append_error =
  ap_source :: io_error
  ap_abort_failures :: usize
  ap_delivery_failure :: "(nat \<times> delivery_failure) option"

definition append_bytes ::
    "('w, 's) sink_ops \<Rightarrow> 'w \<Rightarrow> 's list \<Rightarrow> 's pending_fanout \<Rightarrow> bytes \<Rightarrow> 'w \<times> (append_error + 's list)" where
  "append_bytes ops w validated pending bs =
     (if saturating_add (length validated) (length (pf_sinks pending)) > MAX_PENDING_SINKS then
        (case abort_all ops w (pf_sinks pending) of
           (w1, n1) \<Rightarrow>
             (case abort_all ops w1 validated of
                (w2, n2) \<Rightarrow>
                  (w2, Inl \<lparr>ap_source = io_error_of Kind_InvalidInput, ap_abort_failures = saturating_add n1 n2,
                            ap_delivery_failure = None\<rparr>)))
      else
        (case fanout_write ops (w, pending) bs of
           ((w0, f), Inl e) \<Rightarrow>
             (case abort_all ops w0 (pf_sinks f) of
                (w1, n1) \<Rightarrow>
                  (case abort_all ops w1 validated of
                     (w2, n2) \<Rightarrow>
                       (w2, Inl \<lparr>ap_source = e, ap_abort_failures = saturating_add n1 n2,
                                 ap_delivery_failure = pf_write_failure f\<rparr>)))
         | ((w0, f), Inr _) \<Rightarrow> (w0, Inr (validated @ pf_sinks f))))"

record commit_error =
  ce_source :: sink_commit_error
  ce_published :: "published_delivery list"
  ce_abort_failures :: usize
  ce_failed_index :: nat

fun commit_loop ::
    "('w, 's) sink_ops \<Rightarrow> 'w \<Rightarrow> published_delivery list \<Rightarrow> 's list \<Rightarrow>
     'w \<times> (commit_error + published_delivery list)" where
  "commit_loop ops w published [] = (w, Inr published)"
| "commit_loop ops w published (s # ss) =
     (case sk_commit ops w s of
        (w1, Inr delivery) \<Rightarrow> commit_loop ops w1 (published @ [delivery]) ss
      | (w1, Inl source) \<Rightarrow>
          (case abort_each ops w1 0 ss of
             (w2, n) \<Rightarrow>
               (w2, Inl \<lparr>ce_source = source,
                  ce_published = published @ (case sc_published source of Some d \<Rightarrow> [d] | None \<Rightarrow> []),
                  ce_abort_failures = n, ce_failed_index = length published\<rparr>)))"

definition fanout_commit ::
    "('w, 's) sink_ops \<Rightarrow> 'w \<Rightarrow> 's list \<Rightarrow> 'w \<times> (commit_error + published_delivery list)" where
  "fanout_commit ops w sinks = commit_loop ops w [] sinks"

definition report_last_folder :: "published_delivery list \<Rightarrow> published_delivery option" where
  "report_last_folder published = last_opt published"

end
