(* ===== verification/Fanout_Contract.thy ===== *)
theory Fanout_Contract
  imports Delivery
begin

text \<open>
  The contract of pending sinks and what the fan-out makes of it: while a message is being read
  nothing becomes visible, whatever fails; after it was read every sink holds exactly its bytes;
  and a commit makes visible exactly what it reports.
\<close>

section \<open>Writers that keep track\<close>

text \<open>
  \<open>got w bs w'\<close> says that \<open>w'\<close> is \<open>w\<close> after it received \<open>bs\<close>; \<open>safe w w'\<close> is a relation that every
  write keeps, failed ones included.
\<close>

locale tracking_writer =
  fixes wr :: "'w write_all"
    and got :: "'w \<Rightarrow> bytes \<Rightarrow> 'w \<Rightarrow> bool"
    and safe :: "'w \<Rightarrow> 'w \<Rightarrow> bool"
  assumes got_Nil: "got w [] w"
    and got_write: "got w a w1 \<Longrightarrow> wr w1 b = (w2, Inr u) \<Longrightarrow> got w (a @ b) w2"
    and safe_refl: "safe w w"
    and safe_write: "safe w w1 \<Longrightarrow> wr w1 b = (w2, r) \<Longrightarrow> safe w w2"
begin

lemma body_got:
  assumes "read_body_loop wr limits retain n (buf, Some (length done, w1)) r = ((buf', stream), Inr u)"
    and "got w a w1" and "retain \<longrightarrow> buf = done"
  shows "\<exists>body w2. stream = Some (length (done @ body), w2) \<and> got w (a @ body) w2 \<and>
    (retain \<longrightarrow> buf' = done @ body) \<and>
    read_body_loop v limits True n (done, None) r = ((done @ body, None), Inr ())"
  using assms
proof (induction r arbitrary: n buf "done" w1 a)
  case (Cons i r)
  obtain av where i: "i = Data av" using Cons.prems(1) by (cases i) auto
  show ?case
  proof (cases "av = []")
    case True
    then show ?thesis using Cons.prems by (auto simp: i read_body_loop.simps(3))
  next
    case False
    then have ok: "n + length av \<le> usize_max" "length done + length av \<le> usize_max"
      "n + length av \<le> body_size limits" "length done + length av \<le> message_size limits"
      using Cons.prems(1)
      by (auto simp: i read_body_loop.simps(3) checked_add_def check_size_def split: if_splits)
    obtain w2 v2 where wr: "wr w1 av = (w2, Inr v2)"
      and run: "read_body_loop wr limits retain (n + length av)
        (if retain then buf @ av else buf, Some (length (done @ av), w2)) r = ((buf', stream), Inr u)"
      using Cons.prems(1) False ok
      by (auto simp: i read_body_loop.simps(3) checked_add_def check_size_def Let_def split: prod.splits sum.splits)
    have IH: "\<exists>body w3. stream = Some (length ((done @ av) @ body), w3) \<and> got w ((a @ av) @ body) w3 \<and>
        (retain \<longrightarrow> buf' = (done @ av) @ body) \<and>
        read_body_loop v limits True (n + length av) (done @ av, None) r = (((done @ av) @ body, None), Inr ())"
      using Cons.IH [OF run, of "a @ av"] got_write [OF Cons.prems(2) wr] Cons.prems(3) by auto
    then obtain body w3 where "stream = Some (length (done @ av @ body), w3)" "got w (a @ av @ body) w3"
      "retain \<longrightarrow> buf' = done @ av @ body"
      "read_body_loop v limits True (n + length av) (done @ av, None) r = ((done @ av @ body, None), Inr ())"
      by auto
    moreover have "read_body_loop v limits True n (done, None) (i # r) =
        read_body_loop v limits True (n + length av) (done @ av, None) r"
      using ok False by (simp add: i read_body_loop.simps(3) checked_add_def check_size_def)
    ultimately show ?thesis by (intro exI [of _ "av @ body"] exI [of _ w3]) simp
  qed
qed auto

lemma body_safe:
  assumes "read_body_loop wr limits retain n (buf, Some (k, w1)) r = ((buf', stream), res)" and "safe w w1"
  shows "\<exists>k' w2. stream = Some (k', w2) \<and> safe w w2"
  using assms
proof (induction r arbitrary: n buf k w1)
  case (Cons i r)
  show ?case
  proof (cases i)
    case (Data av)
    obtain w2 r2 where wr: "wr w1 av = (w2, r2)" by (cases "wr w1 av")
    have s: "safe w w2" by (rule safe_write [OF Cons.prems(2) wr])
    show ?thesis
      using Cons.prems Cons.IH [OF _ s] s wr
      by (auto simp: Data read_body_loop.simps(3) Let_def check_size_def split: if_splits option.splits sum.splits)
  qed (use Cons.prems in auto)
qed auto

lemma stream_to_got:
  assumes "stream_to wr h r w = (w', Inr sm)"
  shows "\<exists>m. head_read_body h r = Inr m \<and> got w (m_raw m) w' \<and>
    sm = \<lparr>sm_header = message_header m, sm_matching = m_matching m, sm_len = length (m_raw m)\<rparr>"
proof -
  obtain buf mh limits where p: "into_serialized_parts h = (buf, mh, limits)" by (cases "into_serialized_parts h")
  obtain w1 u where w1: "wr w buf = (w1, Inr u)"
    using assms by (auto simp: stream_to_def p split: prod.splits sum.splits)
  obtain x stream v where run: "read_body_loop wr limits False 0 ([], Some (length buf, w1)) r = ((x, stream), Inr v)"
    and out: "w' = stream_writer w1 stream"
      "sm = \<lparr>sm_header = buf, sm_matching = mh, sm_len = stream_total (length buf) stream\<rparr>"
    using assms w1 by (auto simp: stream_to_def p read_body_def split: prod.splits sum.splits)
  have g: "got w buf w1" using got_write [OF got_Nil w1] by simp
  obtain body w2 where "stream = Some (length (buf @ body), w2)" "got w (buf @ body) w2"
    "read_body_loop sink_write limits True 0 (buf, None) r = ((buf @ body, None), Inr ())"
    using body_got [OF run g, of sink_write] by auto
  then show ?thesis
    using out by (auto simp: head_read_body_def p read_body_def stream_writer_def stream_total_def)
qed

lemma read_body_to_got:
  assumes "read_body_to wr h r w = (w', Inr m)"
  shows "head_read_body h r = Inr m \<and> got w (m_raw m) w'"
proof -
  obtain buf mh limits where p: "into_serialized_parts h = (buf, mh, limits)" by (cases "into_serialized_parts h")
  obtain w1 u where w1: "wr w buf = (w1, Inr u)"
    using assms by (auto simp: read_body_to_def p split: prod.splits sum.splits)
  obtain x stream v where run: "read_body_loop wr limits True 0 (buf, Some (length buf, w1)) r = ((x, stream), Inr v)"
    and out: "w' = stream_writer w1 stream" "m = whole_message x (length buf) mh"
    using assms w1 by (auto simp: read_body_to_def p read_body_def split: prod.splits sum.splits)
  have g: "got w buf w1" using got_write [OF got_Nil w1] by simp
  obtain body w2 where "stream = Some (length (buf @ body), w2)" "got w (buf @ body) w2" "x = buf @ body"
    "read_body_loop sink_write limits True 0 (buf, None) r = ((buf @ body, None), Inr ())"
    using body_got [OF run g, of sink_write] by auto
  then show ?thesis using out by (auto simp: head_read_body_def p read_body_def stream_writer_def)
qed

lemma stream_to_safe:
  "stream_to wr h r w = (w', res) \<Longrightarrow> safe w w'" "read_body_to wr h r w = (w', res') \<Longrightarrow> safe w w'"
proof -
  obtain buf mh limits where p: "into_serialized_parts h = (buf, mh, limits)" by (cases "into_serialized_parts h")
  obtain w1 r1 where w1: "wr w buf = (w1, r1)" by (cases "wr w buf")
  have s: "safe w w1" by (rule safe_write [OF safe_refl w1])
  show "stream_to wr h r w = (w', res) \<Longrightarrow> safe w w'"
    using w1 s body_safe [OF _ s]
    by (auto simp: stream_to_def p read_body_def stream_writer_def split: prod.splits sum.splits) fastforce+
  show "read_body_to wr h r w = (w', res') \<Longrightarrow> safe w w'"
    using w1 s body_safe [OF _ s]
    by (auto simp: read_body_to_def p read_body_def stream_writer_def split: prod.splits sum.splits) fastforce+
qed

end


text \<open>A writer that does not fail keeps track of the appended text.\<close>

sublocale total_writer \<subseteq> tracked: tracking_writer wr "\<lambda>w bs w'. w' = app w bs" "\<lambda>w w'. True"
  by unfold_locales (auto simp: writes app_Nil app_append)

section \<open>The contract\<close>

text \<open>
  \<open>visible\<close> is what the outside world shows; \<open>pending\<close> are the bytes a sink holds; \<open>place s p bs\<close>
  is what the world shows after the sink \<open>s\<close> published \<open>bs\<close> as \<open>p\<close>.  A sink that shows nothing need
  not hold what it receives.
\<close>

locale pending_sinks =
  fixes ops :: "('w, 's) sink_ops"
    and visible :: "'w \<Rightarrow> 'v set"
    and pending :: "'s \<Rightarrow> bytes"
    and place :: "'s \<Rightarrow> published_delivery \<Rightarrow> bytes \<Rightarrow> 'v set"
  assumes write_hidden: "sk_write ops w s bs = (w', s', r) \<Longrightarrow> visible w' = visible w \<and> place s' = place s"
    and write_appends: "sk_write ops w s bs = (w', s', Inr u) \<Longrightarrow>
      pending s' = pending s @ bs \<or> place s' = (\<lambda>p bs. {})"
    and abort_hidden: "sk_abort ops w s = (w', r') \<Longrightarrow> visible w' = visible w"
    and commit_shown: "sk_commit ops w s = (w', Inr p) \<Longrightarrow> visible w' = visible w \<union> place s p (pending s)"
    and commit_failed: "sk_commit ops w s = (w', Inl e) \<Longrightarrow>
      visible w' = visible w \<union> (case sc_published e of None \<Rightarrow> {} | Some p \<Rightarrow> place s p (pending s))"
begin

definition sinks_got :: "'s list \<Rightarrow> bytes \<Rightarrow> 's list \<Rightarrow> bool" where
  "sinks_got ss bs ss' \<longleftrightarrow> 
     list_all2 (\<lambda>s s'. (pending s' = pending s @ bs \<or> place s' = (\<lambda>p bs. {})) \<and> place s' = place s) ss ss'"

definition fan_got :: "'w \<times> 's pending_fanout \<Rightarrow> bytes \<Rightarrow> 'w \<times> 's pending_fanout \<Rightarrow> bool" where
  "fan_got st bs st' \<longleftrightarrow> visible (fst st') = visible (fst st) \<and> sinks_got (pf_sinks (snd st)) bs (pf_sinks (snd st'))"

definition fan_safe :: "'w \<times> 's pending_fanout \<Rightarrow> 'w \<times> 's pending_fanout \<Rightarrow> bool" where
  "fan_safe st st' \<longleftrightarrow> visible (fst st') = visible (fst st)"

lemma write_sinks_outcome:
  "write_sinks ops k bs w ss = (w', ss', r) \<Longrightarrow> visible w' = visible w \<and> (r = None \<longrightarrow> sinks_got ss bs ss')"
proof (induction ss arbitrary: k w w' ss' r)
  case (Cons s ss)
  obtain w1 s1 r1 where s: "sk_write ops w s bs = (w1, s1, r1)" by (cases "sk_write ops w s bs") auto
  note hid = write_hidden [OF s]
  show ?case
  proof (cases r1)
    case (Inl e)
    then show ?thesis using Cons.prems s hid by auto
  next
    case (Inr u)
    obtain w2 ss2 r2 where t: "write_sinks ops (k + 1) bs w1 ss = (w2, ss2, r2)"
      by (cases "write_sinks ops (k + 1) bs w1 ss") auto
    have "pending s1 = pending s @ bs \<or> place s1 = (\<lambda>p bs. {})" using write_appends s Inr by blast
    then show ?thesis using Cons.IH [OF t] Cons.prems s hid Inr t by (auto simp: sinks_got_def)
  qed
qed (simp add: sinks_got_def)

lemma sinks_got_trans: "sinks_got a x b \<Longrightarrow> sinks_got b y c \<Longrightarrow> sinks_got a (x @ y) c"
  unfolding sinks_got_def by (erule list_all2_trans [rotated], assumption) (metis append_assoc)

lemma sinks_got_refl: "sinks_got ss [] ss"
  by (simp add: sinks_got_def list_all2_refl)

lemma fanout_write_outcome:
  assumes "fanout_write ops st bs = (st', r)"
  shows "fan_safe st st' \<and> (r = Inr () \<longrightarrow> fan_got st bs st')"
proof (cases "bs = []")
  case True
  then show ?thesis using assms by (auto simp: fanout_write_def fan_safe_def fan_got_def sinks_got_refl)
next
  case False
  obtain w ss r' where t: "write_sinks ops 0 bs (fst st) (pf_sinks (snd st)) = (w, ss, r')"
    by (cases "write_sinks ops 0 bs (fst st) (pf_sinks (snd st))") auto
  note out = write_sinks_outcome [OF t]
  show ?thesis
  proof (cases r')
    case None
    then have "st' = (w, (snd st)\<lparr>pf_sinks := ss\<rparr>)" using assms t False by (simp add: fanout_write_def)
    then show ?thesis using out None by (simp add: fan_safe_def fan_got_def)
  next
    case (Some x)
    then have "fst st' = w" "r = Inl (snd x)"
      using assms t False by (auto simp: fanout_write_def split: prod.splits)
    then show ?thesis using out by (simp add: fan_safe_def)
  qed
qed

lemma abort_each_hidden: "abort_each ops w n ss = (w', k) \<Longrightarrow> visible w' = visible w"
proof (induction ss arbitrary: w n)
  case (Cons s ss)
  obtain w1 r where "sk_abort ops w s = (w1, r)" by (cases "sk_abort ops w s")
  then show ?case using Cons abort_hidden by (cases r) auto
qed simp

lemma abort_all_hidden: "abort_all ops w ss = (w', k) \<Longrightarrow> visible w' = visible w"
  unfolding abort_all_def by (rule abort_each_hidden)

end

sublocale pending_sinks \<subseteq> fan: tracking_writer "fanout_write ops" fan_got fan_safe
proof (unfold_locales, goal_cases)
  case (2 w a w1 b w2 u)
  then show ?case
    using fanout_write_outcome [of w1 b w2 "Inr ()"] by (auto simp: fan_got_def intro: sinks_got_trans)
next
  case (4 w w1 b w2 r)
  then show ?case using fanout_write_outcome [of w1 b w2 r] by (auto simp: fan_safe_def)
qed (simp_all add: fan_got_def fan_safe_def sinks_got_refl)

context pending_sinks
begin

lemma stream_failure_hidden:
  "stream_failure ops source st staging = (w, e) \<Longrightarrow> visible w = visible (fst st)"
  by (auto simp: stream_failure_def dest: abort_all_hidden split: prod.splits)

lemma fanout_stream_outcome:
  assumes "fanout_stream ops w f head r = (w', res)"
  shows "visible w' = visible w \<and>
    (\<forall>ss sm. res = Inr (ss, sm) \<longrightarrow> (\<exists>m. head_read_body head r = Inr m \<and> sm_len sm = length (m_raw m) \<and>
       sinks_got (pf_sinks f) (m_raw m) ss))"
proof -
  obtain st res1 where t: "stream_to (fanout_write ops) head r (w, f) = (st, res1)"
    by (cases "stream_to (fanout_write ops) head r (w, f)")
  have hid: "visible (fst st) = visible w" using fan.stream_to_safe(1) [OF t] by (simp add: fan_safe_def)
  show ?thesis
  proof (cases res1)
    case (Inl source)
    then show ?thesis using assms t hid stream_failure_hidden [of source st None]
      by (cases "stream_failure ops source st None") (auto simp: fanout_stream_def)
  next
    case (Inr sm)
    then show ?thesis using assms t hid fan.stream_to_got [of head r "(w, f)" st sm]
      by (auto simp: fanout_stream_def fan_got_def)
  qed
qed

lemma fanout_buffer_outcome:
  assumes "fanout_buffer ops w f head r = (w', res)"
  shows "visible w' = visible w \<and>
    (\<forall>ss m. res = Inr (ss, m) \<longrightarrow> head_read_body head r = Inr m \<and> sinks_got (pf_sinks f) (m_raw m) ss)"
proof -
  obtain st res1 where t: "read_body_to (fanout_write ops) head r (w, f) = (st, res1)"
    by (cases "read_body_to (fanout_write ops) head r (w, f)")
  have hid: "visible (fst st) = visible w" using fan.stream_to_safe(2) [OF t] by (simp add: fan_safe_def)
  show ?thesis
  proof (cases res1)
    case (Inl source)
    then show ?thesis using assms t hid stream_failure_hidden [of source st None]
      by (cases "stream_failure ops source st None") (auto simp: fanout_buffer_def)
  next
    case (Inr m)
    then show ?thesis using assms t hid fan.read_body_to_got [of head r "(w, f)" st m]
      by (auto simp: fanout_buffer_def fan_got_def)
  qed
qed

lemma append_bytes_outcome:
  assumes "append_bytes ops w validated f bs = (w', res)"
  shows "visible w' = visible w \<and>
    (\<forall>ss. res = Inr ss \<longrightarrow> length ss \<le> MAX_PENDING_SINKS \<and>
       (\<exists>ss'. ss = validated @ ss' \<and> sinks_got (pf_sinks f) bs ss'))"
proof -
  obtain w1 f1 r where t: "fanout_write ops (w, f) bs = ((w1, f1), r)" by (cases "fanout_write ops (w, f) bs") auto
  note out = fanout_write_outcome [OF t]
  have len: "sinks_got (pf_sinks f) bs ss \<Longrightarrow> length ss = length (pf_sinks f)" for ss
    by (auto simp: sinks_got_def dest: list_all2_lengthD)
  show ?thesis
  proof (cases "saturating_add (length validated) (length (pf_sinks f)) > MAX_PENDING_SINKS")
    case True
    then show ?thesis using assms by (auto simp: append_bytes_def dest!: abort_all_hidden split: prod.splits)
  next
    case False
    then have "length validated + length (pf_sinks f) \<le> MAX_PENDING_SINKS"
      by (simp add: saturating_add_def MAX_PENDING_SINKS_def usize_max_def min_def split: if_splits)
    then show ?thesis
      using assms False t out len
      by (auto simp: append_bytes_def fan_safe_def fan_got_def dest!: abort_all_hidden
          split: prod.splits sum.splits)
  qed
qed

text \<open>What a commit of sinks that hold \<open>bs\<close> shows, sink by sink.\<close>

definition places :: "'s list \<Rightarrow> published_delivery list \<Rightarrow> 'v set" where
  "places ss ps = (\<Union>(s, p) \<in> set (zip ss ps). place s p (pending s))"

lemma places_got:
  assumes "sinks_got ss bs ss'"
  shows "places ss' ps = (\<Union>(s, p) \<in> set (zip ss ps). place s p (pending s @ bs))"
  using assms[unfolded sinks_got_def]
proof (induction ss ss' arbitrary: ps rule: list_all2_induct)
  case (Cons s ss s' ss')
  have "place s' p (pending s') = place s p (pending s @ bs)" for p using Cons.hyps(1) by metis
  then show ?case using Cons.IH by (cases ps) (auto simp: places_def)
qed (simp add: places_def)

lemma commit_loop_outcome:
  assumes "commit_loop ops w pub ss = (w', res)"
  shows "case res of
      Inr ps \<Rightarrow> \<exists>qs. ps = pub @ qs \<and> length qs = length ss \<and> visible w' = visible w \<union> places ss qs
    | Inl e \<Rightarrow> \<exists>qs. ce_published e = pub @ qs \<and> length pub \<le> ce_failed_index e \<and>
        ce_failed_index e < length pub + length ss \<and>
        length qs = ce_failed_index e - length pub + (if sc_published (ce_source e) = None then 0 else 1) \<and>
        visible w' = visible w \<union> places ss qs"
  using assms
proof (induction ss arbitrary: w pub)
  case Nil
  then show ?case by (auto simp: places_def)
next
  case (Cons s ss)
  obtain w1 r where c: "sk_commit ops w s = (w1, r)" by (cases "sk_commit ops w s")
  show ?case
  proof (cases r)
    case (Inr p)
    have vis: "visible w1 = visible w \<union> place s p (pending s)" using commit_shown c Inr by blast
    have cons: "places (s # ss) (p # qs) = place s p (pending s) \<union> places ss qs" for qs
      by (simp add: places_def)
    have run: "commit_loop ops w1 (pub @ [p]) ss = (w', res)" using Cons.prems c Inr by simp
    note IH = Cons.IH [OF run]
    show ?thesis
    proof (cases res)
      case (Inr ps)
      then obtain qs where "ps = pub @ p # qs" "length qs = length ss" "visible w' = visible w1 \<union> places ss qs"
        using IH by auto
      then show ?thesis using Inr cons [of qs] vis by (auto intro!: exI [of _ "p # qs"])
    next
      case (Inl e)
      then obtain qs where "ce_published e = pub @ p # qs" "Suc (length pub) \<le> ce_failed_index e"
        "ce_failed_index e < length pub + Suc (length ss)" "visible w' = visible w1 \<union> places ss qs"
        "length qs = ce_failed_index e - Suc (length pub) + (if sc_published (ce_source e) = None then 0 else 1)"
        using IH by auto
      then show ?thesis using Inl cons [of qs] vis by (auto intro!: exI [of _ "p # qs"])
    qed
  next
    case (Inl source)
    obtain w2 n where a: "abort_each ops w1 0 ss = (w2, n)" by (cases "abort_each ops w1 0 ss")
    have vis: "visible w1 = visible w \<union> (case sc_published source of None \<Rightarrow> {} | Some p \<Rightarrow> place s p (pending s))"
      using commit_failed c Inl by blast
    have "visible w2 = visible w1" by (rule abort_each_hidden [OF a])
    then show ?thesis
      using Cons.prems c Inl a vis
      by (cases "sc_published source") (auto simp: places_def intro!: exI [of _ "[_]"])
  qed
qed

end

end
