(* ===== verification/Maildir.thy ===== *)
theory Maildir
  imports Fanout_Contract
begin

text \<open>
  Delivery into a Maildir, \<open>src/delivery/maildir.rs\<close> with \<open>src/delivery/maildir/linux.rs\<close>, and
  the sink of \<open>src/delivery/discard.rs\<close>.  The system calls are parameters, collected in the
  record \<open>maildir_os\<close> over a world; the locale \<open>maildir_os_laws\<close> has what the code relies on: only
  a successful \<open>linkat\<close> makes a directory entry, it holds what was written, and it never replaces
  an entry.  The unnamed file of a pending delivery is owned by the sink alone and is modelled by
  its content.
\<close>

section \<open>Durability\<close>

datatype durability = Durability_None | Durability_File | Durability_Full

definition durability_of :: "bytes \<Rightarrow> durability option" where
  "durability_of value =
     (if value = ascii ''none'' then Some Durability_None
      else if value = ascii ''file'' then Some Durability_File
      else if value = ascii ''full'' then Some Durability_Full
      else None)"

fun durability_loop :: "durability \<Rightarrow> statement list \<Rightarrow> usize + durability" where
  "durability_loop policy [] = Inr policy"
| "durability_loop policy (St_Assignment a # ss) =
     (if as_target a = Target_Durability then
        (case durability_of (as_value a) of
           None \<Rightarrow> Inl (as_line a)
         | Some p \<Rightarrow> durability_loop p ss)
      else durability_loop policy ss)"
| "durability_loop policy (St_Unset u # ss) =
     durability_loop (if un_target u = Target_Durability then Durability_None else policy) ss"
| "durability_loop policy (s # ss) = durability_loop policy ss"

definition durability_from_config :: "statement list \<Rightarrow> usize + durability" where
  "durability_from_config ss = durability_loop Durability_None ss"

section \<open>Paths\<close>

abbreviation SLASH :: byte where "SLASH \<equiv> 47"
abbreviation DOT :: byte where "DOT \<equiv> 46"

datatype path_component = RootDir | CurDir | ParentDir | Normal bytes

definition is_absolute :: "bytes \<Rightarrow> bool" where
  "is_absolute path \<longleftrightarrow> starts_with path [SLASH]"

definition component_of :: "bytes \<Rightarrow> path_component option" where
  "component_of name =
     (if name = [] \<or> name = [DOT] then None else if name = [DOT, DOT] then Some ParentDir else Some (Normal name))"

text \<open>\<open>Path::components\<close> of the standard library on Unix: empty and \<open>.\<close> components are dropped,
  except a leading \<open>.\<close>.\<close>

definition path_components :: "bytes \<Rightarrow> path_component list" where
  "path_components path =
     (let names = split_on (\<lambda>b. b = SLASH) path
      in (if is_absolute path then [RootDir] else if hd names = [DOT] then [CurDir] else []) @
         List.map_filter component_of names)"

definition path_join :: "bytes \<Rightarrow> bytes \<Rightarrow> bytes" where
  "path_join base name =
     (if is_absolute name then name
      else if base = [] \<or> last base = SLASH then base @ name else base @ [SLASH] @ name)"

section \<open>The operating system\<close>

datatype link_result = Linked | LinkExists | LinkFailed io_error

record ('w, 'd) maildir_os =
  os_open_path :: "'w \<Rightarrow> 'd option \<Rightarrow> bytes \<Rightarrow> 'w \<times> 'd io"
  os_open_at :: "'w \<Rightarrow> 'd \<Rightarrow> bytes \<Rightarrow> 'w \<times> 'd io"
  os_tmpfile :: "'w \<Rightarrow> 'd \<Rightarrow> 32 word \<Rightarrow> 'w \<times> unit io"
  os_write :: "'w \<Rightarrow> bytes \<Rightarrow> bytes \<Rightarrow> 'w \<times> bytes \<times> unit io"
  os_sync_file :: "'w \<Rightarrow> bytes \<Rightarrow> 'w \<times> unit io"
  os_sync_dir :: "'w \<Rightarrow> 'd \<Rightarrow> 'w \<times> unit io"
  os_linkat :: "'w \<Rightarrow> bytes \<Rightarrow> 'd \<Rightarrow> bytes \<Rightarrow> 'w \<times> link_result"
  os_random :: "'w \<Rightarrow> nat \<Rightarrow> 'w \<times> bytes io"

fun components_valid :: "bool \<Rightarrow> path_component list \<Rightarrow> bool option" where
  "components_valid has_normal [] = Some has_normal"
| "components_valid has_normal (Normal _ # cs) = components_valid True cs"
| "components_valid has_normal (ParentDir # cs) = None"
| "components_valid has_normal (_ # cs) = components_valid has_normal cs"

fun open_components :: "('w, 'd) maildir_os \<Rightarrow> 'w \<Rightarrow> 'd \<Rightarrow> path_component list \<Rightarrow> 'w \<times> 'd io" where
  "open_components os w directory [] = (w, Inr directory)"
| "open_components os w directory (Normal name # cs) =
     (case os_open_path os w (Some directory) name of
        (w', Inl e) \<Rightarrow> (w', Inl e)
      | (w', Inr d) \<Rightarrow> open_components os w' d cs)"
| "open_components os w directory (ParentDir # cs) = (w, Inl (io_error_of Kind_InvalidInput))"
| "open_components os w directory (_ # cs) = open_components os w directory cs"

definition open_directory_path :: "('w, 'd) maildir_os \<Rightarrow> 'w \<Rightarrow> bytes \<Rightarrow> 'w \<times> 'd io" where
  "open_directory_path os w path =
     (if path = [] then (w, Inl (io_error_of Kind_InvalidInput))
      else case components_valid False (path_components path) of
        None \<Rightarrow> (w, Inl (io_error_of Kind_InvalidInput))
      | Some has_normal \<Rightarrow>
          if \<not> is_absolute path \<and> \<not> has_normal then (w, Inl (io_error_of Kind_InvalidInput))
          else
            (case os_open_path os w None (if is_absolute path then [SLASH] else [DOT]) of
               (w', Inl e) \<Rightarrow> (w', Inl e)
             | (w', Inr d) \<Rightarrow> open_components os w' d (path_components path)))"

definition open_directory_at :: "('w, 'd) maildir_os \<Rightarrow> 'w \<Rightarrow> 'd \<Rightarrow> bytes \<Rightarrow> 'w \<times> 'd io" where
  "open_directory_at os w d name = os_open_at os w d name"

section \<open>Unique names\<close>

definition MAX_NAME_ATTEMPTS :: nat where "MAX_NAME_ATTEMPTS = 128"
definition MAILDIR_NAME_PREFIX :: bytes where "MAILDIR_NAME_PREFIX = ascii ''procmail-rs.''"
definition MAILDIR_RANDOM_BYTES :: nat where "MAILDIR_RANDOM_BYTES = 16"
definition MAILDIR_NAME_LEN :: nat where
  "MAILDIR_NAME_LEN = length MAILDIR_NAME_PREFIX + MAILDIR_RANDOM_BYTES * 2"
definition MAILDIR_FILE_MODE :: "32 word" where "MAILDIR_FILE_MODE = 384"

text \<open>The fill loop; \<open>getrandom\<close> fills at most the bytes asked for, and each turn makes progress.\<close>

function fill_random :: "('w, 'd) maildir_os \<Rightarrow> 'w \<Rightarrow> bytes \<Rightarrow> 'w \<times> bytes io" where
  "fill_random os w filled =
     (if length filled < MAILDIR_RANDOM_BYTES then
        (case os_random os w (MAILDIR_RANDOM_BYTES - length filled) of
           (w', Inl e) \<Rightarrow> (w', Inl e)
         | (w', Inr bs) \<Rightarrow>
             if bs = [] then (w', Inl (io_error_of Kind_UnexpectedEof))
             else fill_random os w' (filled @ take (MAILDIR_RANDOM_BYTES - length filled) bs))
      else (w, Inr filled))"
  by pat_completeness auto
termination
  by (relation "measure (\<lambda>(os, w, filled). MAILDIR_RANDOM_BYTES - length filled)")
    (auto simp: min_def simp flip: length_greater_0_conv)

declare fill_random.simps [simp del]

definition hex_digit :: "nat \<Rightarrow> byte" where
  "hex_digit n = ascii ''0123456789abcdef'' ! n"

definition hex_byte :: "byte \<Rightarrow> bytes" where
  "hex_byte b = [hex_digit (unat b div 16), hex_digit (unat b mod 16)]"

definition unique_name :: "('w, 'd) maildir_os \<Rightarrow> 'w \<Rightarrow> 'w \<times> bytes io" where
  "unique_name os w =
     (case fill_random os w [] of
        (w', Inl e) \<Rightarrow> (w', Inl e)
      | (w', Inr random) \<Rightarrow> (w', Inr (MAILDIR_NAME_PREFIX @ concat (map hex_byte random))))"

section \<open>Sinks\<close>

record 'd maildir_sink =
  ms_content :: bytes
  ms_tmp_dir :: 'd
  ms_target_dir :: 'd
  ms_target_subdir :: bytes
  ms_info_suffix :: bytes
  ms_maildir :: bytes
  ms_durability :: durability

definition maildir_create ::
    "('w, 'd) maildir_os \<Rightarrow> 'w \<Rightarrow> bytes \<Rightarrow> durability \<Rightarrow> 32 word \<Rightarrow> message_status \<Rightarrow> 'w \<times> 'd maildir_sink io" where
  "maildir_create os w path durability umask status =
     (case open_directory_path os w path of
        (w0, Inl e) \<Rightarrow> (w0, Inl e)
      | (w0, Inr maildir) \<Rightarrow>
     (case open_directory_at os w0 maildir (ascii ''tmp'') of
        (w1, Inl e) \<Rightarrow> (w1, Inl e)
      | (w1, Inr tmp_dir) \<Rightarrow>
     (case open_directory_at os w1 maildir (ascii ''new'') of
        (w2, Inl e) \<Rightarrow> (w2, Inl e)
      | (w2, Inr new_dir) \<Rightarrow>
     (case open_directory_at os w2 maildir (ascii ''cur'') of
        (w3, Inl e) \<Rightarrow> (w3, Inl e)
      | (w3, Inr cur_dir) \<Rightarrow>
     (case os_tmpfile os w3 tmp_dir (creation_mode MAILDIR_FILE_MODE umask) of
        (w4, Inl e) \<Rightarrow> (w4, Inl e)
      | (w4, Inr _) \<Rightarrow>
          let (target_dir, subdir, info) =
                (if status_is_empty status then (new_dir, ascii ''new'', [])
                 else (cur_dir, ascii ''cur'', maildir_suffix status))
          in (w4, Inr \<lparr>ms_content = [], ms_tmp_dir = tmp_dir, ms_target_dir = target_dir,
                ms_target_subdir = subdir, ms_info_suffix = info, ms_maildir = path,
                ms_durability = durability\<rparr>))))))"

text \<open>\<open>link_unique\<close>: the attempts that are left, the content and the target.\<close>

fun link_unique ::
    "('w, 'd) maildir_os \<Rightarrow> nat \<Rightarrow> 'w \<Rightarrow> bytes \<Rightarrow> 'd \<Rightarrow> bytes \<Rightarrow> 'w \<times> bytes io" where
  "link_unique os 0 w content directory info_suffix = (w, Inl (io_error_of Kind_AlreadyExists))"
| "link_unique os (Suc n) w content directory info_suffix =
     (case unique_name os w of
        (w1, Inl e) \<Rightarrow> (w1, Inl e)
      | (w1, Inr base) \<Rightarrow>
          (case os_linkat os w1 content directory (base @ info_suffix) of
             (w2, Linked) \<Rightarrow> (w2, Inr (base @ info_suffix))
           | (w2, LinkExists) \<Rightarrow> link_unique os n w2 content directory info_suffix
           | (w2, LinkFailed e) \<Rightarrow> (w2, Inl e)))"

definition published_path :: "'d maildir_sink \<Rightarrow> bytes \<Rightarrow> published_delivery" where
  "published_path s name = path_join (path_join (ms_maildir s) (ms_target_subdir s)) name"

fun sync_dirs :: "('w, 'd) maildir_os \<Rightarrow> 'w \<Rightarrow> 'd list \<Rightarrow> 'w \<times> unit io" where
  "sync_dirs os w [] = (w, Inr ())"
| "sync_dirs os w (d # ds) =
     (case os_sync_dir os w d of (w', Inl e) \<Rightarrow> (w', Inl e) | (w', Inr _) \<Rightarrow> sync_dirs os w' ds)"

definition maildir_commit ::
    "('w, 'd) maildir_os \<Rightarrow> 'w \<Rightarrow> 'd maildir_sink \<Rightarrow> 'w \<times> (sink_commit_error + published_delivery)" where
  "maildir_commit os w s =
     (case (if ms_durability s \<noteq> Durability_None then os_sync_file os w (ms_content s) else (w, Inr ())) of
        (w1, Inl e) \<Rightarrow> (w1, Inl (with_operation Op_SyncFile (before_publication e)))
      | (w1, Inr _) \<Rightarrow>
          (case link_unique os MAX_NAME_ATTEMPTS w1 (ms_content s) (ms_target_dir s) (ms_info_suffix s) of
             (w2, Inl e) \<Rightarrow> (w2, Inl (before_publication e))
           | (w2, Inr name) \<Rightarrow>
               let published = published_path s name
               in if ms_durability s = Durability_Full then
                    (case sync_dirs os w2 [ms_tmp_dir s, ms_target_dir s] of
                       (w3, Inl e) \<Rightarrow> (w3, Inl (with_operation Op_SyncDirectory (after_publication e published)))
                     | (w3, Inr _) \<Rightarrow> (w3, Inr published))
                  else (w2, Inr published)))"

datatype 'd sink = Discard_Sink bytes | Maildir_Sink "'d maildir_sink"

definition discard_null :: "'d sink" where
  "discard_null = Discard_Sink (ascii ''/dev/null'')"

text \<open>The trait implementations, selected by the kind of sink.\<close>

fun sink_write_all :: "('w, 'd) maildir_os \<Rightarrow> 'w \<Rightarrow> 'd sink \<Rightarrow> bytes \<Rightarrow> 'w \<times> 'd sink \<times> unit io" where
  "sink_write_all os w (Discard_Sink p) bs = (w, Discard_Sink p, Inr ())"
| "sink_write_all os w (Maildir_Sink s) bs =
     (case os_write os w (ms_content s) bs of
        (w', content, r) \<Rightarrow> (w', Maildir_Sink (s\<lparr>ms_content := content\<rparr>), r))"

fun sink_commit :: "('w, 'd) maildir_os \<Rightarrow> 'w \<Rightarrow> 'd sink \<Rightarrow> 'w \<times> (sink_commit_error + published_delivery)" where
  "sink_commit os w (Discard_Sink p) = (w, Inr p)"
| "sink_commit os w (Maildir_Sink s) = maildir_commit os w s"

fun sink_abort :: "('w, 'd) maildir_os \<Rightarrow> 'w \<Rightarrow> 'd sink \<Rightarrow> 'w \<times> unit io" where
  "sink_abort os w (Discard_Sink p) = (w, Inr ())"
| "sink_abort os w (Maildir_Sink s) = (w, Inr ())"

definition sinks_of :: "('w, 'd) maildir_os \<Rightarrow> ('w, 'd sink) sink_ops" where
  "sinks_of os = \<lparr>sk_write = sink_write_all os, sk_commit = sink_commit os, sk_abort = sink_abort os\<rparr>"


section \<open>Names and paths\<close>

text \<open>A generated name is the prefix and 32 lower-case hexadecimal digits.\<close>

definition unique_base :: "bytes \<Rightarrow> bool" where
  "unique_base base \<longleftrightarrow>
     (\<exists>digits. base = MAILDIR_NAME_PREFIX @ digits \<and> length digits = 32 \<and>
        set digits \<subseteq> set (ascii ''0123456789abcdef''))"

lemma hex_digit_set: "n < 16 \<Longrightarrow> hex_digit n \<in> set (ascii ''0123456789abcdef'')"
  unfolding hex_digit_def by (rule nth_mem) simp

lemma hex_byte_set: "length (hex_byte b) = 2 \<and> set (hex_byte b) \<subseteq> set (ascii ''0123456789abcdef'')"
proof -
  have "unat b < 256" using unsigned_less [of b] by simp
  then have "unat b div 16 < 16" "unat b mod 16 < 16" by auto
  then show ?thesis using hex_digit_set unfolding hex_byte_def by auto
qed

lemma fill_random_length:
  "fill_random os w filled = (w', Inr bs) \<Longrightarrow> length filled \<le> MAILDIR_RANDOM_BYTES \<Longrightarrow>
   length bs = MAILDIR_RANDOM_BYTES"
proof (induction os w filled arbitrary: bs rule: fill_random.induct)
  case (1 os w filled)
  show ?case
  proof (cases "length filled < MAILDIR_RANDOM_BYTES")
    case True
    obtain w1 r where q: "os_random os w (MAILDIR_RANDOM_BYTES - length filled) = (w1, r)"
      by (cases "os_random os w (MAILDIR_RANDOM_BYTES - length filled)")
    then obtain x where x: "r = Inr x" "x \<noteq> []"
      "fill_random os w1 (filled @ take (MAILDIR_RANDOM_BYTES - length filled) x) = (w', Inr bs)"
      using "1.prems"(1) True by (subst (asm) fill_random.simps) (auto split: sum.splits if_splits)
    show ?thesis using "1.IH" [OF True q [symmetric] x(1,2,3)] True by simp
  next
    case False
    then show ?thesis using "1.prems" by (subst (asm) fill_random.simps) simp
  qed
qed

lemma unique_name_base:
  assumes "unique_name os w = (w', Inr base)"
  shows "unique_base base"
proof -
  obtain random where random: "fill_random os w [] = (w', Inr random)"
    and base: "base = MAILDIR_NAME_PREFIX @ concat (map hex_byte random)"
    using assms by (auto simp: unique_name_def split: prod.splits sum.splits)
  have "length random = 16" using fill_random_length [OF random] by (simp add: MAILDIR_RANDOM_BYTES_def)
  moreover have "length (concat (map hex_byte xs)) = 2 * length xs" for xs
    by (induction xs) (use hex_byte_set in auto)
  moreover have "set (concat (map hex_byte xs)) \<subseteq> set (ascii ''0123456789abcdef'')" for xs
    using hex_byte_set by (simp add: UN_subset_iff)
  ultimately show ?thesis using base unfolding unique_base_def by auto
qed

lemma published_path_inj:
  assumes "published_path s a = published_path s b" "\<not> is_absolute a" "\<not> is_absolute b"
  shows "a = b"
  using assms by (auto simp: published_path_def path_join_def split: if_splits)

lemma unique_base_relative: "unique_base base \<Longrightarrow> \<not> is_absolute (base @ info_suffix)"
  by (auto simp: unique_base_def is_absolute_def starts_with_def MAILDIR_NAME_PREFIX_def ascii_def)

section \<open>What the code relies on\<close>

text \<open>
  \<open>entries\<close> are the directory entries by directory and name, with the content of the file.  The
  laws are those of the manual pages: an unnamed file is in no directory, \<open>linkat\<close> reports success
  only when it made the entry, and never over an entry that exists.
\<close>

locale maildir_os_laws =
  fixes os :: "('w, 'd) maildir_os" and entries :: "'w \<Rightarrow> 'd \<times> bytes \<rightharpoonup> bytes"
  assumes write_entries: "os_write os w c bs = (w', c', r) \<Longrightarrow> entries w' = entries w"
    and write_content: "os_write os w c bs = (w', c', Inr u) \<Longrightarrow> c' = c @ bs"
    and sync_file_entries: "os_sync_file os w c = (w', r) \<Longrightarrow> entries w' = entries w"
    and sync_dir_entries: "os_sync_dir os w d = (w', r) \<Longrightarrow> entries w' = entries w"
    and random_entries: "os_random os w k = (w', r') \<Longrightarrow> entries w' = entries w"
    and linkat_entry: "os_linkat os w c d n = (w', Linked) \<Longrightarrow>
      entries w (d, n) = None \<and> entries w' = (entries w)((d, n) \<mapsto> c)"
    and linkat_fails: "os_linkat os w c d n = (w', l) \<Longrightarrow> l \<noteq> Linked \<Longrightarrow> entries w' = entries w"
begin

lemma fill_random_entries: "fill_random os w filled = (w', r) \<Longrightarrow> entries w' = entries w"
proof (induction "MAILDIR_RANDOM_BYTES - length filled" arbitrary: w filled rule: less_induct)
  case less
  obtain w1 r1 where q: "os_random os w (MAILDIR_RANDOM_BYTES - length filled) = (w1, r1)"
    by (cases "os_random os w (MAILDIR_RANDOM_BYTES - length filled)")
  note keep = random_entries [OF q]
  show ?case
  proof (cases "length filled < MAILDIR_RANDOM_BYTES \<and> (\<exists>bs. r1 = Inr bs \<and> bs \<noteq> [])")
    case True
    then obtain bs where bs: "r1 = Inr bs" "bs \<noteq> []" by auto
    let ?next = "filled @ take (MAILDIR_RANDOM_BYTES - length filled) bs"
    have "MAILDIR_RANDOM_BYTES - length ?next < MAILDIR_RANDOM_BYTES - length filled"
      using True bs by (cases bs) (auto simp: min_def)
    moreover have "fill_random os w1 ?next = (w', r)"
      using less.prems True q bs by (subst (asm) fill_random.simps) simp
    ultimately show ?thesis using less.hyps keep by metis
  next
    case False
    then show ?thesis
      using less.prems q keep by (subst (asm) fill_random.simps) (auto split: if_splits sum.splits)
  qed
qed

lemma unique_name_entries: "unique_name os w = (w', r) \<Longrightarrow> entries w' = entries w"
  by (auto simp: unique_name_def dest: fill_random_entries split: prod.splits sum.splits)

lemma link_unique_entries:
  assumes "link_unique os k w c d info_suffix = (w', r)"
  shows "case r of
      Inl e \<Rightarrow> entries w' = entries w
    | Inr name \<Rightarrow> entries w (d, name) = None \<and> entries w' = (entries w)((d, name) \<mapsto> c) \<and>
        (\<exists>base. name = base @ info_suffix \<and> unique_base base)"
  using assms
proof (induction k arbitrary: w)
  case (Suc k)
  obtain w1 r1 where n: "unique_name os w = (w1, r1)" by (cases "unique_name os w")
  note keep = unique_name_entries [OF n]
  show ?case
  proof (cases r1)
    case (Inl e)
    then show ?thesis using Suc.prems n keep by auto
  next
    case (Inr base)
    obtain w2 l where k: "os_linkat os w1 c d (base @ info_suffix) = (w2, l)"
      by (cases "os_linkat os w1 c d (base @ info_suffix)")
    show ?thesis
    proof (cases l)
      case Linked
      then have "entries w1 (d, base @ info_suffix) = None"
        "entries w2 = (entries w1)((d, base @ info_suffix) \<mapsto> c)" using k linkat_entry by blast+
      then show ?thesis using Suc.prems n Inr k Linked keep unique_name_base by auto
    next
      case LinkExists
      then show ?thesis using Suc.prems n Inr k Suc.IH [of w2] linkat_fails [OF k] keep by (auto split: sum.splits)
    next
      case (LinkFailed e)
      then show ?thesis using Suc.prems n Inr k linkat_fails [OF k] keep by auto
    qed
  qed
qed auto

lemma sync_dirs_entries: "sync_dirs os w ds = (w', r) \<Longrightarrow> entries w' = entries w"
  by (induction ds arbitrary: w) (auto dest: sync_dir_entries split: prod.splits sum.splits)

lemma maildir_commit_entries:
  assumes "maildir_commit os w s = (w', r)"
  shows "case (case r of Inl e \<Rightarrow> sc_published e | Inr p \<Rightarrow> Some p) of
      None \<Rightarrow> entries w' = entries w
    | Some p \<Rightarrow> (\<exists>base. unique_base base \<and> p = published_path s (base @ ms_info_suffix s) \<and>
        entries w (ms_target_dir s, base @ ms_info_suffix s) = None \<and>
        entries w' = (entries w)((ms_target_dir s, base @ ms_info_suffix s) \<mapsto> ms_content s))"
proof -
  obtain w1 r1 where sync: "(if ms_durability s \<noteq> Durability_None then os_sync_file os w (ms_content s)
      else (w, Inr ())) = (w1, r1)"
    by (cases "if ms_durability s \<noteq> Durability_None then os_sync_file os w (ms_content s) else (w, Inr ())")
  have keep: "entries w1 = entries w" using sync sync_file_entries by (auto split: if_splits)
  obtain w2 r2 where lu: "link_unique os MAX_NAME_ATTEMPTS w1 (ms_content s) (ms_target_dir s) (ms_info_suffix s) = (w2, r2)"
    by (cases "link_unique os MAX_NAME_ATTEMPTS w1 (ms_content s) (ms_target_dir s) (ms_info_suffix s)")
  obtain w3 r3 where sd: "sync_dirs os w2 [ms_tmp_dir s, ms_target_dir s] = (w3, r3)"
    by (cases "sync_dirs os w2 [ms_tmp_dir s, ms_target_dir s]")
  note run = assms [unfolded maildir_commit_def sync lu sd]
  note linked = link_unique_entries [OF lu] and synced = sync_dirs_entries [OF sd]
  show ?thesis
  proof (cases r1)
    case (Inl e)
    then show ?thesis using run keep by (auto simp: with_operation_def before_publication_def)
  next
    case one: (Inr u)
    show ?thesis
    proof (cases r2)
      case (Inl e)
      then show ?thesis using run keep one linked lu by (auto simp: before_publication_def)
    next
      case (Inr name)
      then have "(case r of Inl e \<Rightarrow> sc_published e | Inr p \<Rightarrow> Some p) = Some (published_path s name)"
        "entries w' = entries w2"
        using run one lu sd synced
        by (auto simp: with_operation_def after_publication_def Let_def split: if_splits sum.splits)
      then show ?thesis using linked Inr keep by auto
    qed
  qed
qed

end

section \<open>Sinks under the contract\<close>

fun sink_pending :: "'d sink \<Rightarrow> bytes" where
  "sink_pending (Discard_Sink p) = []"
| "sink_pending (Maildir_Sink s) = ms_content s"

text \<open>What publication of \<open>bs\<close> as \<open>p\<close> adds: the entry whose path is \<open>p\<close>; the discarding sink adds none.\<close>

fun sink_place :: "'d sink \<Rightarrow> published_delivery \<Rightarrow> bytes \<Rightarrow> (('d \<times> bytes) \<times> bytes) set" where
  "sink_place (Discard_Sink q) p bs = {}"
| "sink_place (Maildir_Sink s) p bs =
     {((ms_target_dir s, name), bs) | name. \<not> is_absolute name \<and> p = published_path s name}"

lemma sink_place_singleton:
  "unique_base base \<Longrightarrow> sink_place (Maildir_Sink s) (published_path s (base @ info)) bs = {((ms_target_dir s, base @ info), bs)}"
  using published_path_inj [of s _ "base @ info"] unique_base_relative [of base info] by auto

lemma sink_write_all_cases:
  assumes "sink_write_all os w s bs = (w', s', r)"
  obtains p where "s = Discard_Sink p" "s' = s" "w' = w"
    | m content where "s = Maildir_Sink m" "s' = Maildir_Sink (m\<lparr>ms_content := content\<rparr>)"
        "os_write os w (ms_content m) bs = (w', content, r)"
  using assms by (cases s) (auto split: prod.splits)

sublocale maildir_os_laws \<subseteq> fanout: pending_sinks "sinks_of os" "\<lambda>w. Map.graph (entries w)" sink_pending sink_place
proof (unfold_locales, goal_cases)
  case (1 w s bs w' s' r)
  then have "sink_write_all os w s bs = (w', s', r)" by (simp add: sinks_of_def)
  then show ?case
    by (rule sink_write_all_cases) (auto simp: write_entries published_path_def fun_eq_iff)
next
  case (2 w s bs w' s' u)
  then have "sink_write_all os w s bs = (w', s', Inr u)" by (simp add: sinks_of_def)
  then show ?case by (rule sink_write_all_cases) (auto simp: write_content fun_eq_iff)
next
  case (3 w s w' r')
  then show ?case by (cases s) (auto simp: sinks_of_def)
next
  case (4 w s w' p)
  then have c: "sink_commit os w s = (w', Inr p)" by (simp add: sinks_of_def)
  show ?case
  proof (cases s)
    case (Maildir_Sink m)
    then show ?thesis
      using c maildir_commit_entries [of w m w' "Inr p"] by (auto simp: sink_place_singleton graph_map_upd fun_upd_idem simp del: sink_place.simps(2))
  qed (use c in auto)
next
  case (5 w s w' e)
  then have c: "sink_commit os w s = (w', Inl e)" by (simp add: sinks_of_def)
  then obtain m where m: "s = Maildir_Sink m" by (cases s) auto
  then show ?case
    using c maildir_commit_entries [of w m w' "Inl e"]
    by (auto simp: sink_place_singleton graph_map_upd fun_upd_idem simp del: sink_place.simps(2)
        split: option.splits)
qed

end
