(* ===== verification/Maildir_Fanout.thy ===== *)
theory Maildir_Fanout
  imports Maildir
begin

text \<open>
  The fan-out of \<open>src/delivery.rs\<close> over the sinks of \<open>src/delivery/maildir.rs\<close> and
  \<open>src/delivery/discard.rs\<close>: what a delivery to many folders shows in the file system, whatever fails.
  The laws of the system calls are the locale \<open>maildir_os_laws\<close>; it is interpreted on a simulated
  system with a schedule of faults.
\<close>

section \<open>A simulated system\<close>

record sim_world =
  sw_entries :: "((bytes \<times> bytes) \<times> bytes) list"
  sw_seed :: nat
  sw_faults :: "io_error option list"

definition next_fault :: "sim_world \<Rightarrow> sim_world \<times> unit io" where
  "next_fault w =
     (case sw_faults w of
        [] \<Rightarrow> (w, Inr ())
      | None # fs \<Rightarrow> (w\<lparr>sw_faults := fs\<rparr>, Inr ())
      | Some e # fs \<Rightarrow> (w\<lparr>sw_faults := fs\<rparr>, Inl e))"

definition sim_call :: "sim_world \<Rightarrow> 'a \<Rightarrow> sim_world \<times> 'a io" where
  "sim_call w x = (case next_fault w of (w', r) \<Rightarrow> (w', map_sum id (\<lambda>_. x) r))"

definition sim_linkat :: "sim_world \<Rightarrow> bytes \<Rightarrow> bytes \<Rightarrow> bytes \<Rightarrow> sim_world \<times> link_result" where
  "sim_linkat w c d n =
     (case next_fault w of
        (w', Inl e) \<Rightarrow> (w', LinkFailed e)
      | (w', Inr _) \<Rightarrow>
          if map_of (sw_entries w) (d, n) = None then (w'\<lparr>sw_entries := ((d, n), c) # sw_entries w\<rparr>, Linked)
          else (w', LinkExists))"

definition sim_os :: "(sim_world, bytes) maildir_os" where
  "sim_os =
     \<lparr>os_open_path = (\<lambda>w d n. sim_call w (case d of None \<Rightarrow> n | Some d \<Rightarrow> path_join d n)),
      os_open_at = (\<lambda>w d n. sim_call w (path_join d n)),
      os_tmpfile = (\<lambda>w d m. sim_call w ()),
      os_write = (\<lambda>w c bs. case sim_call w () of
          (w', Inl e) \<Rightarrow> (w', c @ take 1 bs, Inl e)
        | (w', Inr _) \<Rightarrow> (w', c @ bs, Inr ())),
      os_sync_file = (\<lambda>w c. sim_call w ()),
      os_sync_dir = (\<lambda>w d. sim_call w ()),
      os_linkat = sim_linkat,
      os_random = (\<lambda>w n. case sim_call w (replicate n (of_nat (sw_seed w))) of
          (w', r) \<Rightarrow> (w'\<lparr>sw_seed := sw_seed w + 1\<rparr>, r))\<rparr>"

lemma next_fault_entries: "next_fault w = (w', r) \<Longrightarrow> sw_entries w' = sw_entries w"
  by (auto simp: next_fault_def split: list.splits option.splits)

lemma sim_call_entries: "sim_call w x = (w', r) \<Longrightarrow> sw_entries w' = sw_entries w"
  by (auto simp: sim_call_def dest: next_fault_entries split: prod.splits)

interpretation sim: maildir_os_laws sim_os "\<lambda>w. map_of (sw_entries w)"
  by unfold_locales
    (auto simp: sim_os_def sim_linkat_def dest!: sim_call_entries next_fault_entries
      split: prod.splits sum.splits if_splits)

section \<open>Delivery to many folders\<close>

text \<open>The directory entries of the deliveries that were reported, sink by sink.\<close>

definition published_entries ::
    "'d sink list \<Rightarrow> published_delivery list \<Rightarrow> bytes \<Rightarrow> (('d \<times> bytes) \<times> bytes) set" where
  "published_entries sinks ps bs = (\<Union>(s, p) \<in> set (zip sinks ps). sink_place s p bs)"

lemma fanout_new_sinks: "fanout_new sinks = Inr f \<Longrightarrow> pf_sinks f = sinks \<and> length sinks \<le> MAX_PENDING_SINKS"
  by (auto simp: fanout_new_def split: if_splits)

lemma published_entries_fresh:
  "\<forall>s \<in> set sinks. sink_pending s = [] \<Longrightarrow>
   (\<Union>(s, p) \<in> set (zip sinks ps). sink_place s p (sink_pending s @ bs)) = published_entries sinks ps bs"
  unfolding published_entries_def by (intro SUP_cong refl) (auto dest: set_zip_leftD)

context maildir_os_laws
begin

lemma delivery_outcome:
  assumes new: "fanout_new sinks = Inr f"
    and fresh: "\<forall>s \<in> set sinks. sink_pending s = []"
    and stream: "fanout_stream (sinks_of os) w f head r = (w1, streamed)"
  shows "Map.graph (entries w1) = Map.graph (entries w) \<and>
    (case streamed of
       Inl e \<Rightarrow> True
     | Inr (ss, sm) \<Rightarrow> \<exists>m. head_read_body head r = Inr m \<and>
         (case fanout_commit (sinks_of os) w1 ss of
            (w2, Inr ps) \<Rightarrow>
              length ps = length sinks \<and>
              Map.graph (entries w2) = Map.graph (entries w) \<union> published_entries sinks ps (m_raw m)
          | (w2, Inl e) \<Rightarrow>
              ce_failed_index e < length sinks \<and>
              length (ce_published e) = ce_failed_index e + (if sc_published (ce_source e) = None then 0 else 1) \<and>
              Map.graph (entries w2) = Map.graph (entries w) \<union> published_entries sinks (ce_published e) (m_raw m)))"
proof -
  note out = fanout.fanout_stream_outcome [OF stream]
  show ?thesis
  proof (cases streamed)
    case (Inl e)
    then show ?thesis using out by simp
  next
    case (Inr x)
    obtain ss sm where x: "x = (ss, sm)" by (cases x)
    obtain m where m: "head_read_body head r = Inr m" "fanout.sinks_got sinks (m_raw m) ss"
      using out Inr x fanout_new_sinks [OF new] by auto
    obtain w2 res where c: "fanout_commit (sinks_of os) w1 ss = (w2, res)"
      by (cases "fanout_commit (sinks_of os) w1 ss")
    have len: "length ss = length sinks" using m(2) by (auto simp: fanout.sinks_got_def dest: list_all2_lengthD)
    have pl: "fanout.places ss ps = published_entries sinks ps (m_raw m)" for ps
      using fanout.places_got [OF m(2)] published_entries_fresh [OF fresh] by simp
    note com = fanout.commit_loop_outcome [OF c [unfolded fanout_commit_def]]
    show ?thesis using out Inr x m(1) c com len pl by (cases res) auto
  qed
qed

end

text \<open>
  C12. A delivery to many folders: the message is streamed into the pending files and then committed.
  If reading, a limit or a write fails, no directory entry is made.  Otherwise the message is exactly
  what the reader gives, still no entry is visible before the commit, and the commit makes exactly
  the entries that it reports, one per folder in order, each with the whole message; when a commit
  fails at some folder, the entries made are exactly those of the folders before it (and its own one
  if only the directory synchronisation failed), and they are reported.  No entry that existed is
  changed or removed.
\<close>

theorem fanout_delivers:
  assumes laws: "maildir_os_laws os entries"
    and new: "fanout_new sinks = Inr f"
    and fresh: "\<forall>s \<in> set sinks. sink_pending s = []"
    and stream: "fanout_stream (sinks_of os) w f head r = (w1, streamed)"
  shows "Map.graph (entries w1) = Map.graph (entries w) \<and>
    (case streamed of
       Inl e \<Rightarrow> True
     | Inr (ss, sm) \<Rightarrow> \<exists>m. head_read_body head r = Inr m \<and>
         (case fanout_commit (sinks_of os) w1 ss of
            (w2, Inr ps) \<Rightarrow>
              length ps = length sinks \<and>
              Map.graph (entries w2) = Map.graph (entries w) \<union> published_entries sinks ps (m_raw m)
          | (w2, Inl e) \<Rightarrow>
              ce_failed_index e < length sinks \<and>
              length (ce_published e) = ce_failed_index e + (if sc_published (ce_source e) = None then 0 else 1) \<and>
              Map.graph (entries w2) = Map.graph (entries w) \<union> published_entries sinks (ce_published e) (m_raw m)))"
  by (rule maildir_os_laws.delivery_outcome [OF laws new fresh stream])

definition sample_sinks :: "bytes sink list" where
  "sample_sinks =
     [Maildir_Sink \<lparr>ms_content = [], ms_tmp_dir = ascii ''m/tmp'', ms_target_dir = ascii ''m/new'',
        ms_target_subdir = ascii ''new'', ms_info_suffix = [], ms_maildir = ascii ''m'',
        ms_durability = Durability_Full\<rparr>, discard_null]"

definition sample_filled :: "bytes sink list" where
  "sample_filled =
     [Maildir_Sink \<lparr>ms_content = ascii ''A:b'' @ [LF, LF] @ ascii ''hi'', ms_tmp_dir = ascii ''m/tmp'',
        ms_target_dir = ascii ''m/new'', ms_target_subdir = ascii ''new'', ms_info_suffix = [],
        ms_maildir = ascii ''m'', ms_durability = Durability_Full\<rparr>, discard_null]"

definition sample_head :: message_head where
  "sample_head = \<lparr>mh_backing = Input_Backing (ascii ''A:b'' @ [LF, LF]), mh_matching = None,
     mh_limits = message_limits_default\<rparr>"

definition sample_world :: "io_error option list \<Rightarrow> sim_world" where
  "sample_world faults = \<lparr>sw_entries = [((ascii ''m/new'', ascii ''old''), ascii ''x'')], sw_seed = 0, sw_faults = faults\<rparr>"

theorem fanout_delivers_witness:
  "\<exists>w1 ss sm w2 ps.
     fanout_stream (sinks_of sim_os) (sample_world []) \<lparr>pf_sinks = sample_sinks, pf_write_failure = None\<rparr> sample_head
       [Data (ascii ''hi'')] = (w1, Inr (ss, sm)) \<and>
     fanout_commit (sinks_of sim_os) w1 ss = (w2, Inr ps) \<and>
     Map.graph (map_of (sw_entries w2)) =
       Map.graph (map_of (sw_entries (sample_world []))) \<union> published_entries sample_sinks ps (ascii ''A:b'' @ [LF, LF] @ ascii ''hi'')"
proof -
  have new: "fanout_new sample_sinks = Inr \<lparr>pf_sinks = sample_sinks, pf_write_failure = None\<rparr>"
    by (simp add: fanout_new_def sample_sinks_def MAX_PENDING_SINKS_def)
  have fresh: "\<forall>s \<in> set sample_sinks. sink_pending s = []"
    by (simp add: sample_sinks_def discard_null_def)
  have run: "fanout_stream (sinks_of sim_os) (sample_world [])
      \<lparr>pf_sinks = sample_sinks, pf_write_failure = None\<rparr> sample_head [Data (ascii ''hi'')] =
    (sample_world [], Inr (sample_filled, \<lparr>sm_header = ascii ''A:b'' @ [LF, LF], sm_matching = None, sm_len = 7\<rparr>))"
    by (simp add: fanout_stream_def stream_to_def into_serialized_parts_def sample_head_def fanout_write_def
        sample_sinks_def sinks_of_def discard_null_def sim_os_def sim_call_def next_fault_def sample_world_def
        read_body_def read_body_loop.simps checked_add_def check_size_def usize_max_def message_limits_default_def
        size_units stream_writer_def stream_total_def sample_filled_def ascii_def)
  have m: "\<exists>m. head_read_body sample_head [Data (ascii ''hi'')] = Inr m \<and> m_raw m = ascii ''A:b'' @ [LF, LF] @ ascii ''hi''"
    by (simp add: head_read_body_def into_serialized_parts_def sample_head_def read_body_def read_body_loop.simps
        checked_add_def check_size_def usize_max_def message_limits_default_def size_units whole_message_def ascii_def)
  have random: "unique_name sim_os (sample_world []) =
      ((sample_world [])\<lparr>sw_seed := 1\<rparr>, Inr (MAILDIR_NAME_PREFIX @ concat (map hex_byte (replicate 16 0))))"
    by (simp add: unique_name_def fill_random.simps MAILDIR_RANDOM_BYTES_def sim_os_def sim_call_def next_fault_def
        sample_world_def)
  have link: "\<exists>w2 name. link_unique sim_os (Suc k) (sample_world []) c d [] = (w2, Inr name) \<and> sw_faults w2 = []"
    for k c d
    by (simp add: random) (simp add: sim_os_def sim_linkat_def next_fault_def sample_world_def MAILDIR_NAME_PREFIX_def ascii_def)
  obtain w2 ps where com: "fanout_commit (sinks_of sim_os) (sample_world []) sample_filled = (w2, Inr ps)"
  proof -
    have max: "MAX_NAME_ATTEMPTS = Suc 127" by (simp add: MAX_NAME_ATTEMPTS_def)
    have sync: "os_sync_file sim_os w c = (w, Inr ())" "os_sync_dir sim_os w c = (w, Inr ())" if "sw_faults w = []" for w c
      using that by (simp_all add: sim_os_def sim_call_def next_fault_def)
    have "\<exists>w2 p. maildir_commit sim_os (sample_world []) s = (w2, Inr p)" if s: "ms_info_suffix s = []" for s
    proof -
      obtain w2 name where l: "link_unique sim_os MAX_NAME_ATTEMPTS (sample_world []) (ms_content s) (ms_target_dir s) [] =
          (w2, Inr name)" "sw_faults w2 = []"
        using link [of 127 "ms_content s" "ms_target_dir s"] max by metis
      have "sw_faults (sample_world []) = []" by (simp add: sample_world_def)
      then show ?thesis using l s by (simp add: maildir_commit_def sync Let_def)
    qed
    then obtain w2 p where "maildir_commit sim_os (sample_world [])
        \<lparr>ms_content = ascii ''A:b'' @ [LF, LF] @ ascii ''hi'', ms_tmp_dir = ascii ''m/tmp'',
          ms_target_dir = ascii ''m/new'', ms_target_subdir = ascii ''new'', ms_info_suffix = [],
          ms_maildir = ascii ''m'', ms_durability = Durability_Full\<rparr> = (w2, Inr p)"
      by (metis maildir_sink.select_convs(5))
    then have "fanout_commit (sinks_of sim_os) (sample_world []) sample_filled = (w2, Inr [p, ascii ''/dev/null''])"
      unfolding fanout_commit_def sample_filled_def discard_null_def by (simp add: sinks_of_def)
    then show ?thesis by (rule that)
  qed
  note out = fanout_delivers [OF sim.maildir_os_laws_axioms new fresh run, unfolded sum.case prod.case com]
  have "Map.graph (map_of (sw_entries w2)) = Map.graph (map_of (sw_entries (sample_world []))) \<union>
      published_entries sample_sinks ps (ascii ''A:b'' @ [LF, LF] @ ascii ''hi'')"
    using out m by (metis sum.inject(2))
  then show ?thesis using run com by blast
qed

end
