(* ===== verification/Civil_Date.thy ===== *)
theory Civil_Date
  imports Prelude "HOL-Library.Signed_Division"
begin

text \<open>
  The calendar conversion \<open>civil_from_days\<close> of \<open>src/delivery/mbox.rs\<close>, which turns a day number
  since 1970-01-01 into a Gregorian date with integer arithmetic only, and its correctness
  against a calendar that counts days one by one.  Signed 64-bit integers are \<open>int\<close> with the
  range checks of the checked operations; division truncates towards zero.
\<close>

definition i64_max :: int where
  "i64_max = 2 ^ 63 - 1"

definition i64_checked :: "int \<Rightarrow> int option" where
  "i64_checked n = (if - (2 ^ 63) \<le> n \<and> n \<le> i64_max then Some n else None)"

definition u32_try_from :: "int \<Rightarrow> nat option" where
  "u32_try_from n = (if 0 \<le> n \<and> n < 2 ^ 32 then Some (nat n) else None)"

definition civil_from_days :: "int \<Rightarrow> (int \<times> nat \<times> nat) option" where
  "civil_from_days days_since_epoch =
     (case i64_checked (days_since_epoch + 719468) of
        None \<Rightarrow> None
      | Some shifted \<Rightarrow>
          let era = shifted sdiv 146097;
              day_of_era = shifted - era * 146097;
              year_of_era = (day_of_era - day_of_era sdiv 1460 + day_of_era sdiv 36524 -
                             day_of_era sdiv 146096) sdiv 365
          in case Option.bind (i64_checked (era * 400)) (\<lambda>n. i64_checked (year_of_era + n)) of
               None \<Rightarrow> None
             | Some year \<Rightarrow>
                 let day_of_year = day_of_era - (365 * year_of_era + year_of_era sdiv 4 - year_of_era sdiv 100);
                     month_prime = (5 * day_of_year + 2) sdiv 153;
                     day = day_of_year - (153 * month_prime + 2) sdiv 5 + 1;
                     month = month_prime + (if month_prime < 10 then 3 else -9);
                     year' = year + (if month \<le> 2 then 1 else 0)
                 in case u32_try_from month of
                      None \<Rightarrow> None
                    | Some m \<Rightarrow> (case u32_try_from day of None \<Rightarrow> None | Some d \<Rightarrow> Some (year', m, d)))"

section \<open>A calendar\<close>

definition leap :: "int \<Rightarrow> bool" where
  "leap y \<longleftrightarrow> 4 dvd y \<and> (\<not> 100 dvd y \<or> 400 dvd y)"

definition month_length :: "int \<Rightarrow> nat \<Rightarrow> nat" where
  "month_length y m =
     (if m = 2 then (if leap y then 29 else 28)
      else if m = 4 \<or> m = 6 \<or> m = 9 \<or> m = 11 then 30 else 31)"

fun next_day :: "int \<times> nat \<times> nat \<Rightarrow> int \<times> nat \<times> nat" where
  "next_day (y, m, d) =
     (if d < month_length y m then (y, m, d + 1) else if m < 12 then (y, m + 1, 1) else (y + 1, 1, 1))"

section \<open>Years of an era\<close>

definition year_start :: "int \<Rightarrow> int" where
  "year_start y = (if y = 400 then 146097 else 365 * y + y div 4 - y div 100)"

definition scaled :: "int \<Rightarrow> int" where
  "scaled x = x - x div 1460 + x div 36524 - x div 146096"

definition year_of :: "int \<Rightarrow> int" where
  "year_of x = scaled x div 365"

lemma div_step:
  assumes "0 < (n :: int)"
  shows "x div n \<le> (x + 1) div n" "(x + 1) div n \<le> x div n + 1"
proof -
  show "x div n \<le> (x + 1) div n" using assms by (intro zdiv_mono1) simp_all
  have "(x + 1) div n \<le> (x + n) div n" using assms by (intro zdiv_mono1) simp_all
  then show "(x + 1) div n \<le> x div n + 1" using assms div_add_self2 [of n x] by simp
qed

lemma scaled_step: "scaled x \<le> scaled (x + 1)"
proof -
  have "x div 146096 = x div 36524 div 4" "(x + 1) div 146096 = (x + 1) div 36524 div 4"
    using zdiv_zmult2_eq [of 4 x 36524] zdiv_zmult2_eq [of 4 "x + 1" 36524] by simp_all
  moreover have "(x + 1) div 36524 = x div 36524 \<or> (x + 1) div 36524 = x div 36524 + 1"
    using div_step [of 36524 x] by linarith
  moreover have "(x div 36524 + 1) div 4 \<le> x div 36524 div 4 + 1" by (rule div_step(2)) simp
  ultimately show ?thesis
    using div_step(2) [of 1460 x] unfolding scaled_def by (elim disjE) simp_all
qed

lemma scaled_mono: "x \<le> y \<Longrightarrow> scaled x \<le> scaled y"
proof (induction y rule: int_ge_induct)
  case (step i)
  then show ?case using scaled_step [of i] by simp
qed simp

lemma year_of_mono: "x \<le> y \<Longrightarrow> year_of x \<le> year_of y"
  unfolding year_of_def by (intro zdiv_mono1 scaled_mono) simp_all

lemma year_table:
  "list_all (\<lambda>y. year_of (year_start y) = y \<and> year_of (year_start (y + 1) - 1) = y \<and>
      year_start y < year_start (y + 1)) (map int [0..<400])"
  by code_simp


lemma year_bounds:
  assumes "0 \<le> y" and "y < 400"
  shows "year_of (year_start y) = y" "year_of (year_start (y + 1) - 1) = y" "year_start y < year_start (y + 1)"
proof -
  have "y \<in> set (map int [0..<400])" using assms by (auto simp: image_iff intro!: bexI [of _ "nat y"])
  with year_table show "year_of (year_start y) = y" "year_of (year_start (y + 1) - 1) = y"
    "year_start y < year_start (y + 1)" unfolding list_all_iff by auto
qed

text \<open>The year of an era by its first and last day; every day of an era is in one of its years.\<close>

lemma year_of_eq:
  assumes "0 \<le> y" and "y < 400" and "year_start y \<le> x" and "x < year_start (y + 1)"
  shows "year_of x = y"
  using year_of_mono [OF assms(3)] year_of_mono [of x "year_start (y + 1) - 1"] year_bounds [OF assms(1,2)] assms(4)
  by simp

lemma year_exists:
  assumes "0 \<le> x" and "x < 146097"
  obtains y where "0 \<le> y" "y < 400" "year_start y \<le> x" "x < year_start (y + 1)" "year_of x = y"
proof -
  have "\<exists>y. 0 \<le> y \<and> y < 400 \<and> year_start y \<le> x \<and> x < year_start (y + 1)" if "k \<le> 400" "x < year_start (int k)" for k
    using that
  proof (induction k)
    case 0
    then show ?case using assms(1) by (simp add: year_start_def)
  next
    case (Suc k)
    show ?case
    proof (cases "x < year_start (int k)")
      case True
      then show ?thesis using Suc by simp
    next
      case False
      then show ?thesis using Suc.prems by (intro exI [of _ "int k"]) (simp add: add.commute)
    qed
  qed
  from this [of 400] assms(2) obtain y where "0 \<le> y" "y < 400" "year_start y \<le> x" "x < year_start (y + 1)"
    by (auto simp: year_start_def)
  then show thesis using that year_of_eq by blast
qed

section \<open>Months of a year\<close>

text \<open>Month and day of the day \<open>doy\<close> of a year that begins in March, and whether the month belongs
  to the next calendar year.\<close>

definition march_month :: "int \<Rightarrow> int" where
  "march_month doy = (let mp = (5 * doy + 2) div 153 in mp + (if mp < 10 then 3 else -9))"

definition march_day :: "int \<Rightarrow> int" where
  "march_day doy = doy - (153 * ((5 * doy + 2) div 153) + 2) div 5 + 1"

definition long_month :: "int \<Rightarrow> int" where
  "long_month m = (if m = 2 then 29 else if m = 4 \<or> m = 6 \<or> m = 9 \<or> m = 11 then 30 else 31)"

lemma month_table:
  "list_all (\<lambda>doy. 1 \<le> march_month doy \<and> march_month doy \<le> 12 \<and> 1 \<le> march_day doy \<and>
      march_day doy \<le> long_month (march_month doy) \<and> 0 \<le> (5 * doy + 2) div 153) (map int [0..<366])"
  by code_simp

lemma month_step_table:
  "list_all (\<lambda>doy. if march_day doy < long_month (march_month doy)
      then march_month (doy + 1) = march_month doy \<and> march_day (doy + 1) = march_day doy + 1
      else march_day (doy + 1) = 1 \<and> march_month doy \<noteq> 2 \<and>
        march_month (doy + 1) = (if march_month doy < 12 then march_month doy + 1 else 1)) (map int [0..<365])"
  by code_simp

lemma month_ends: "march_month 0 = 3" "march_day 0 = 1" "march_month 364 = 2" "march_day 364 = 28"
    "march_month 365 = 2" "march_day 365 = 29"
  by code_simp+


lemma february_table: "list_all (\<lambda>doy. march_month doy = 2 \<longrightarrow> march_day doy < 28) (map int [0..<364])"
  by code_simp

lemma year_length_table:
  "list_all (\<lambda>y. year_start (y + 1) - year_start y = (if leap (y + 1) then 366 else 365)) (map int [0..<400])"
  by code_simp

lemma table_lookup: "list_all P (map int [0..<k]) \<Longrightarrow> 0 \<le> x \<Longrightarrow> x < int k \<Longrightarrow> P x"
  by (cases x) (auto simp: list_all_iff)

lemma leap_period: "leap (y + 400 * e) \<longleftrightarrow> leap y"
proof -
  have "4 dvd y + 400 * e \<longleftrightarrow> 4 dvd y" "100 dvd y + 400 * e \<longleftrightarrow> 100 dvd y" "400 dvd y + 400 * e \<longleftrightarrow> 400 dvd y"
    by (simp_all add: dvd_add_left_iff)
  then show ?thesis by (simp add: leap_def)
qed

lemma year_length:
  assumes "0 \<le> y" and "y < 400"
  shows "year_start (y + 1) - year_start y = (if leap (y + 1 + 400 * e) then 366 else 365)"
  using table_lookup [OF year_length_table, of y] assms by (simp add: leap_period)

section \<open>The conversion\<close>

definition date_of :: "int \<Rightarrow> int \<Rightarrow> int \<Rightarrow> int \<times> nat \<times> nat" where
  "date_of e y doy =
     (y + 400 * e + (if march_month doy \<le> 2 then 1 else 0), nat (march_month doy), nat (march_day doy))"

lemma sdiv_nonneg: "0 \<le> (a :: int) \<Longrightarrow> 0 < b \<Longrightarrow> a sdiv b = a div b"
  by (simp add: signed_divide_int_def sgn_if)

lemma scaled_nonneg: "0 \<le> x \<Longrightarrow> 0 \<le> scaled x"
  using scaled_mono [of 0 x] by (simp add: scaled_def)

lemma civil_from_days_date:
  assumes "n + 719468 = 146097 * e + x" and "0 \<le> e" and "0 \<le> x" and "x < 146097"
    and "n + 719468 \<le> i64_max" and "0 \<le> y" and "y < 400"
    and "year_start y \<le> x" and "x < year_start (y + 1)"
  shows "civil_from_days n = Some (date_of e y (x - year_start y))"
proof -
  define doy where "doy = x - year_start y"
  have start: "year_start y = 365 * y + y div 4 - y div 100" using assms(7) by (simp add: year_start_def)
  have doy: "0 \<le> doy" "doy < int 366"
    using year_length [OF assms(6,7), of 0] assms(8,9) by (auto simp: doy_def split: if_splits)
  have mon: "1 \<le> march_month doy" "march_month doy \<le> 12" "1 \<le> march_day doy" "0 \<le> (5 * doy + 2) div 153"
    "march_day doy \<le> 31"
    using table_lookup [OF month_table doy] by (auto simp: long_month_def split: if_splits)
  have era: "(n + 719468) sdiv 146097 = e" "n + 719468 - e * 146097 = x"
    using assms(1-4) by (simp_all add: sdiv_nonneg)
  have yoe: "(x - x sdiv 1460 + x sdiv 36524 - x sdiv 146096) sdiv 365 = y"
    using year_of_eq [OF assms(6-9)] scaled_nonneg [OF assms(3)] assms(3)
    by (simp add: sdiv_nonneg year_of_def scaled_def)
  have small: "i64_checked (n + 719468) = Some (n + 719468)" "i64_checked (e * 400) = Some (e * 400)"
    "i64_checked (y + e * 400) = Some (y + e * 400)"
    using assms(1-7) by (simp_all add: i64_checked_def i64_max_def)
  have doy': "x - (365 * y + y sdiv 4 - y sdiv 100) = doy"
    using assms(6) by (simp add: sdiv_nonneg doy_def start)
  have md: "(5 * doy + 2) sdiv 153 = (5 * doy + 2) div 153"
    "(153 * ((5 * doy + 2) div 153) + 2) sdiv 5 = (153 * ((5 * doy + 2) div 153) + 2) div 5"
    using doy mon(4) by (simp_all add: sdiv_nonneg)
  have conv: "u32_try_from (march_month doy) = Some (nat (march_month doy))"
    "u32_try_from (march_day doy) = Some (nat (march_day doy))"
    using mon by (simp_all add: u32_try_from_def)
  show ?thesis
    using conv
    by (simp add: civil_from_days_def Let_def small era yoe doy' md march_month_def march_day_def
        date_of_def doy_def [symmetric])
qed


lemma month_length_long: "m \<noteq> 2 \<or> leap Y \<Longrightarrow> int (month_length Y (nat m)) = long_month m"
proof -
  have "nat m = 2 \<longleftrightarrow> m = 2" "nat m = 4 \<longleftrightarrow> m = 4" "nat m = 6 \<longleftrightarrow> m = 6" "nat m = 9 \<longleftrightarrow> m = 9" "nat m = 11 \<longleftrightarrow> m = 11"
    by linarith+
  then show "m \<noteq> 2 \<or> leap Y \<Longrightarrow> int (month_length Y (nat m)) = long_month m"
    by (auto simp: month_length_def long_month_def)
qed

text \<open>One day further inside a year, and from its last day to the first of March.\<close>

lemma date_step:
  assumes "0 \<le> doy" and "doy + 1 < (if leap (y + 1 + 400 * e) then 366 else 365)"
  shows "date_of e y (doy + 1) = next_day (date_of e y doy)"
proof -
  let ?m = "march_month doy" let ?d = "march_day doy"
  let ?Y = "y + 400 * e + (if ?m \<le> 2 then 1 else 0)"
  have lt: "doy < int 365" using assms(2) by (simp split: if_splits)
  note tab = table_lookup [OF month_table assms(1)] table_lookup [OF month_step_table assms(1) lt]
  have mon: "1 \<le> ?m" "?m \<le> 12" "1 \<le> ?d" "?d \<le> long_month ?m" using tab(1) lt by simp_all
  have len: "?d < long_month ?m \<longleftrightarrow> ?d < int (month_length ?Y (nat ?m))"
  proof (cases "?m = 2 \<and> \<not> leap ?Y")
    case True
    then have "?Y = y + 1 + 400 * e" by simp
    then have "\<not> leap (y + 1 + 400 * e)" using True by metis
    then have "doy < int 364" using assms(2) by simp
    then have "?d < 28" using table_lookup [OF february_table assms(1)] True by simp
    then show ?thesis using True by (simp add: long_month_def month_length_def)
  next
    case False
    then show ?thesis using month_length_long [of ?m ?Y] by simp
  qed
  show ?thesis
  proof (cases "?d < long_month ?m")
    case True
    then show ?thesis
      using tab(2) mon len by (auto simp: date_of_def nat_less_iff nat_add_distrib)
  next
    case False
    then show ?thesis
      using tab(2) mon len by (auto simp: date_of_def nat_less_iff nat_add_distrib)
  qed
qed

lemma date_year_end:
  assumes "doy + 1 = (if leap (y + 1 + 400 * e) then 366 else 365)"
  shows "(y + 1 + 400 * e, 3, 1) = next_day (date_of e y doy)"
proof -
  have "doy = 365 \<and> leap (y + 400 * e + 1) \<or> doy = 364 \<and> \<not> leap (y + 400 * e + 1)"
    using assms by (auto simp: algebra_simps split: if_splits)
  then show ?thesis by (auto simp: date_of_def month_ends month_length_def)
qed

lemma year_start_less: "0 \<le> y \<Longrightarrow> y < 400 \<Longrightarrow> year_start y < 146097"
  using zdiv_mono1 [of y 399 4] by (simp add: year_start_def pos_imp_zdiv_nonneg_iff)

lemma civil_step:
  assumes "0 \<le> n" and "n + 1 + 719468 \<le> i64_max"
  shows "\<exists>d. civil_from_days n = Some d \<and> civil_from_days (n + 1) = Some (next_day d)"
proof -
  define s where "s = n + 719468"
  define e where "e = s div 146097"
  define x where "x = s mod 146097"
  have sx: "s = 146097 * e + x" "0 \<le> e" "0 \<le> x" "x < 146097"
    using assms(1) by (simp_all add: e_def x_def s_def pos_imp_zdiv_nonneg_iff)
  obtain y where y: "0 \<le> y" "y < 400" "year_start y \<le> x" "x < year_start (y + 1)"
    by (rule year_exists [OF sx(3,4)])
  note len = year_length [OF y(1,2), of e]
  have now: "civil_from_days n = Some (date_of e y (x - year_start y))"
    using sx y assms by (intro civil_from_days_date) (simp_all add: s_def)
  show ?thesis
  proof (cases "x + 1 < year_start (y + 1)")
    case True
    have "year_start (y + 1) \<le> 146097"
      using y(1,2) year_start_less [of "y + 1"] by (cases "y + 1 < 400") (simp_all add: year_start_def)
    then have "civil_from_days (n + 1) = Some (date_of e y (x + 1 - year_start y))"
      using sx y assms True by (intro civil_from_days_date) (simp_all add: s_def)
    moreover have "x + 1 - year_start y = (x - year_start y) + 1" by simp
    ultimately show ?thesis
      using now date_step [of "x - year_start y" y e] len True y(3) by (simp split: if_splits)
  next
    case False
    then have last: "x + 1 = year_start (y + 1)" using y(4) by simp
    have first: "date_of e' z 0 = (z + 400 * e', 3, 1)" for e' z by (simp add: date_of_def month_ends)
    have "civil_from_days (n + 1) = Some (y + 1 + 400 * e, 3, 1)"
    proof (cases "y + 1 < 400")
      case True
      then have "civil_from_days (n + 1) = Some (date_of e (y + 1) (x + 1 - year_start (y + 1)))"
        using sx y assms last year_bounds(3) [of "y + 1"] year_start_less [of "y + 1"] by (intro civil_from_days_date) (simp_all add: s_def)
      then show ?thesis by (simp add: last first)
    next
      case False
      then have "y = 399" "x + 1 = 146097" using y(2) last by (simp_all add: year_start_def)
      then have "civil_from_days (n + 1) = Some (date_of (e + 1) 0 (0 - year_start 0))"
        using sx assms by (intro civil_from_days_date) (simp_all add: s_def year_start_def)
      then show ?thesis using \<open>y = 399\<close> by (simp add: first year_start_def)
    qed
    then show ?thesis
      using now date_year_end [of "x - year_start y" y e] len last by (simp split: if_splits)
  qed
qed

lemma civil_epoch: "civil_from_days 0 = Some (1970, 1, 1)"
  by code_simp

text \<open>
  C38. The date arithmetic of the postmark is the Gregorian calendar: for every day number whose
  shifted value fits 64 bits, the conversion succeeds and gives the date reached by counting
  that many days from 1970-01-01, one day at a time.
\<close>

theorem civil_from_days_counts:
  assumes "int k + 719468 \<le> i64_max"
  shows "civil_from_days (int k) = Some ((next_day ^^ k) (1970, 1, 1))"
  using assms
proof (induction k)
  case (Suc k)
  then show ?case using civil_step [of "int k"] by (auto simp: add.commute)
qed (simp add: civil_epoch)

theorem civil_from_days_counts_witness:
  "civil_from_days 60 = Some ((next_day ^^ 60) (1970, 1, 1)) \<and> civil_from_days 60 = Some (1970, 3, 2)"
proof -
  have "civil_from_days 60 = Some (1970, 3, 2)" by code_simp
  then show ?thesis using civil_from_days_counts [of 60] by (simp add: i64_max_def)
qed

end
