(* ===== verification/Mbox_Record.thy ===== *)
theory Mbox_Record
  imports Message_Chunks Civil_Date
begin

text \<open>
  The mboxrd records of \<open>src/delivery/mbox.rs\<close>: postmarks, generated from a time or supplied, and
  \<open>write_record\<close>, which quotes the lines of a message held in two pieces without joining them.
  A reader of mboxrd files is defined as the specification: what it finds in a mailbox is what
  was delivered.
\<close>

section \<open>Postmarks\<close>

definition MAX_POSTMARK_LEN :: usize where "MAX_POSTMARK_LEN = 512"

datatype postmark_error =
  PM_TooLong | PM_InvalidShape | PM_NonAscii | PM_TimeBeforeEpoch | PM_TimeOutOfRange

type_synonym postmark = bytes

definition postmark_new :: "bytes \<Rightarrow> postmark_error + postmark" where
  "postmark_new bs =
     (if length bs > MAX_POSTMARK_LEN then Inl PM_TooLong
      else if \<not> starts_with bs (ascii ''From '') \<or> \<not> ends_with bs [LF] \<or> LF \<in> set (take (length bs - 1) bs)
      then Inl PM_InvalidShape
      else if \<not> list_all (\<lambda>b. is_ascii_graphic b \<or> b = SP) (take (length bs - 1) bs) then Inl PM_NonAscii
      else Inr bs)"

text \<open>The width specifiers of \<open>format!\<close>: padding on the left to a minimal width.\<close>

definition padded :: "byte \<Rightarrow> nat \<Rightarrow> bytes \<Rightarrow> bytes" where
  "padded fill width text = replicate (width - length text) fill @ text"

definition signed_decimal :: "int \<Rightarrow> bytes" where
  "signed_decimal n = (if n < 0 then 45 # decimal (nat (- n)) else decimal (nat n))"

definition WEEKDAYS :: "bytes list" where
  "WEEKDAYS = map ascii [''Thu'', ''Fri'', ''Sat'', ''Sun'', ''Mon'', ''Tue'', ''Wed'']"

definition MONTHS :: "bytes list" where
  "MONTHS = map ascii [''Jan'', ''Feb'', ''Mar'', ''Apr'', ''May'', ''Jun'', ''Jul'', ''Aug'', ''Sep'', ''Oct'',
     ''Nov'', ''Dec'']"

definition postmark_line :: "bytes \<Rightarrow> bytes \<Rightarrow> nat \<Rightarrow> nat \<Rightarrow> nat \<Rightarrow> nat \<Rightarrow> int \<Rightarrow> bytes" where
  "postmark_line weekday month day hour minute second year =
     ascii ''From MAILER-DAEMON '' @ weekday @ [SP] @ month @ [SP] @ padded SP 2 (decimal day) @ [SP] @
     padded 48 2 (decimal hour) @ [58] @ padded 48 2 (decimal minute) @ [58] @ padded 48 2 (decimal second) @
     [SP] @ padded 48 4 (signed_decimal year) @ [LF]"

text \<open>A time is the number of seconds since the epoch, negative before it.\<close>

definition postmark_generated :: "int \<Rightarrow> postmark_error + postmark" where
  "postmark_generated time =
     (if time < 0 then Inl PM_TimeBeforeEpoch
      else
        let seconds = nat time; days = seconds div 86400; in_day = seconds mod 86400
        in if int days > i64_max then Inl PM_TimeOutOfRange
           else case civil_from_days (int days) of
             None \<Rightarrow> Inl PM_TimeOutOfRange
           | Some (year, month, day) \<Rightarrow>
               if month = 0 then Inl PM_TimeOutOfRange
               else case get MONTHS (month - 1) of
                 None \<Rightarrow> Inl PM_TimeOutOfRange
               | Some month_name \<Rightarrow>
                   postmark_new
                     (postmark_line (WEEKDAYS ! (days mod 7)) month_name day (in_day div 3600)
                        (in_day mod 3600 div 60) (in_day mod 60) year))"

section \<open>Records\<close>

text \<open>The next physical line of a message in two pieces: its two parts and what is left.\<close>

definition take_line :: "bytes \<Rightarrow> bytes \<Rightarrow> (bytes \<times> bytes) \<times> (bytes \<times> bytes)" where
  "take_line first_part second_part =
     (case position (\<lambda>b. b = LF) first_part of
        Some index \<Rightarrow> ((take (index + 1) first_part, []), (drop (index + 1) first_part, second_part))
      | None \<Rightarrow>
          let end_at = (case position (\<lambda>b. b = LF) second_part of
                          None \<Rightarrow> length second_part | Some index \<Rightarrow> index + 1)
          in ((first_part, take end_at second_part), ([], drop end_at second_part)))"

definition needs_quote :: "bytes \<Rightarrow> bool" where
  "needs_quote line \<longleftrightarrow> take 5 (drop (length (takeWhile (\<lambda>b. b = GT) line)) line) = ascii ''From ''"

definition next_line :: "bytes \<Rightarrow> bytes \<Rightarrow> (bytes \<times> bytes) \<times> (bytes \<times> bytes)" where
  "next_line first_part second_part =
     (if first_part = [] then take_line second_part [] else take_line first_part second_part)"

lemma take_line_shorter:
  assumes "take_line a b = ((l1, l2), (a', b'))" and "a \<noteq> []"
  shows "length a' + length b' < length a + length b"
  using assms
  by (auto simp: take_line_def Let_def simp flip: length_greater_0_conv split: option.splits)

lemma next_line_shorter:
  assumes "next_line a b = ((l1, l2), (a', b'))" and "a \<noteq> [] \<or> b \<noteq> []"
  shows "length a' + length b' < length a + length b"
  using assms take_line_shorter [of a b] take_line_shorter [of b "[]"]
  by (cases "a = []") (auto simp: next_line_def)

function record_loop :: "'w write_all \<Rightarrow> bytes \<Rightarrow> bytes \<Rightarrow> 'w \<Rightarrow> 'w \<times> unit io" where
  "record_loop write_all first_part second_part w =
     (if first_part = [] \<and> second_part = [] then (w, Inr ())
      else
        case next_line first_part second_part of
          ((line_first, line_second), (a, b)) \<Rightarrow>
            (case (if needs_quote (line_first @ line_second) then write_all w [GT] else (w, Inr ())) of
               (w1, Inl e) \<Rightarrow> (w1, Inl e)
             | (w1, Inr _) \<Rightarrow>
                 (case write_all w1 line_first of
                    (w2, Inl e) \<Rightarrow> (w2, Inl e)
                  | (w2, Inr _) \<Rightarrow>
                      (case write_all w2 line_second of
                         (w3, Inl e) \<Rightarrow> (w3, Inl e)
                       | (w3, Inr _) \<Rightarrow> record_loop write_all a b w3))))"
  by pat_completeness auto
termination
  by (relation "measure (\<lambda>(wr, a, b, w). length a + length b)")
    (auto dest: next_line_shorter [OF sym])

declare record_loop.simps [simp del]

definition write_record ::
    "'w write_all \<Rightarrow> 'w \<Rightarrow> postmark \<Rightarrow> message_bytes \<Rightarrow> output_ending \<Rightarrow> 'w \<times> unit io" where
  "write_record write_all w mark m ending =
     (case write_all w mark of
        (w1, Inl e) \<Rightarrow> (w1, Inl e)
      | (w1, Inr _) \<Rightarrow>
          (case record_loop write_all (fst m) (snd m) w1 of
             (w2, Inl e) \<Rightarrow> (w2, Inl e)
           | (w2, Inr _) \<Rightarrow>
               if ending = Normalize then
                 if mb_ends_with m [LF, LF] then (w2, Inr ())
                 else
                   (case (if \<not> mb_ends_with m [LF] then write_all w2 [LF] else (w2, Inr ())) of
                      (w3, Inl e) \<Rightarrow> (w3, Inl e)
                    | (w3, Inr _) \<Rightarrow> write_all w3 [LF])
               else if \<not> mb_is_empty m \<and> \<not> mb_ends_with m [LF] then write_all w2 [LF]
               else (w2, Inr ())))"


section \<open>The text of a record\<close>

definition quote_line :: "bytes \<Rightarrow> bytes" where
  "quote_line l = (if needs_quote l then GT # l else l)"

definition quoted :: "bytes \<Rightarrow> bytes" where
  "quoted bs = concat (map quote_line (lines_of bs))"

definition record_tail :: "bytes \<Rightarrow> output_ending \<Rightarrow> bytes" where
  "record_tail bs ending =
     (if ending = Normalize then
        (if ends_with bs [LF, LF] then [] else if ends_with bs [LF] then [LF] else [LF, LF])
      else if bs \<noteq> [] \<and> \<not> ends_with bs [LF] then [LF] else [])"

definition record_text :: "postmark \<Rightarrow> bytes \<Rightarrow> output_ending \<Rightarrow> bytes" where
  "record_text mark bs ending = mark @ quoted bs @ record_tail bs ending"

lemma take_line_first:
  assumes "a \<noteq> []"
  shows "\<exists>l1 l2 a' b'. take_line a b = ((l1, l2), (a', b')) \<and> l1 @ l2 = first_line (a @ b) \<and>
    a' @ b' = drop (length (first_line (a @ b))) (a @ b)"
proof (cases "position (\<lambda>b. b = LF) a")
  case None
  then have noLF: "LF \<notin> set a" by (auto simp: position_None_iff)
  have "take (case position (\<lambda>b. b = LF) b of None \<Rightarrow> length b | Some i \<Rightarrow> i + 1) b = first_line b"
    by (auto simp: first_line_def split: option.splits)
  moreover have "drop (case position (\<lambda>b. b = LF) b of None \<Rightarrow> length b | Some i \<Rightarrow> i + 1) b = drop (length (first_line b)) b"
    using position_SomeD(1) [of "\<lambda>b. b = LF" b] by (auto simp: first_line_def min_def split: option.splits)
  ultimately show ?thesis using None first_line_pieces(1) [OF noLF, of b] by (simp add: take_line_def Let_def)
next
  case (Some i)
  then show ?thesis
    using first_line_pieces(2) [OF Some, of b] position_SomeD(1) [OF Some] by (simp add: take_line_def min_def)
qed

lemma quoted_step: "bs \<noteq> [] \<Longrightarrow> quoted bs = quote_line (first_line bs) @ quoted (drop (length (first_line bs)) bs)"
  by (simp add: quoted_def lines_of_step)

lemma mb_ends_with_join: "mb_ends_with (a, b) suf \<longleftrightarrow> ends_with (a @ b) suf"
proof -
  have "mb_ends_with (a, b) suf \<longleftrightarrow> take (length suf) (rev (a @ b)) = rev suf"
    by (simp add: mb_ends_with_def)
  also have "\<dots> \<longleftrightarrow> prefix (rev suf) (rev (a @ b))"
    by (metis append_eq_conv_conj length_rev prefix_def take_is_prefix)
  finally show ?thesis by (simp only: ends_with_suffix suffix_to_prefix)
qed

context total_writer
begin

lemma record_loop_text: "record_loop wr a b w = (app w (quoted (a @ b)), Inr ())"
proof (induction "length a + length b" arbitrary: a b w rule: less_induct)
  case less
  show ?case
  proof (cases "a = [] \<and> b = []")
    case True
    then show ?thesis by (subst record_loop.simps) (simp add: quoted_def app_Nil)
  next
    case False
    obtain l1 l2 a' b' where t: "next_line a b = ((l1, l2), (a', b'))" "l1 @ l2 = first_line (a @ b)"
      "a' @ b' = drop (length (first_line (a @ b))) (a @ b)"
      using take_line_first [of a b] take_line_first [of b "[]"] False
      by (cases "a = []") (auto simp: next_line_def)
    have IH: "record_loop wr a' b' w' = (app w' (quoted (a' @ b')), Inr ())" for w'
      using less next_line_shorter [OF t(1)] False by blast
    have q: "app w (quote_line (l1 @ l2)) = app (app (if needs_quote (l1 @ l2) then app w [GT] else w) l1) l2"
      using app_append [of w "[GT]" "l1 @ l2"] by (simp add: quote_line_def app_append)
    have "record_loop wr a b w = record_loop wr a' b' (app w (quote_line (first_line (a @ b))))"
      using False t(1) unfolding t(2) [symmetric] q by (subst record_loop.simps) (auto simp: writes)
    also have "\<dots> = (app w (quoted (a @ b)), Inr ())"
      using False by (simp add: IH t(3) quoted_step app_append)
    finally show ?thesis .
  qed
qed

lemma write_record_text: "write_record wr w mark (a, b) ending = (app w (record_text mark (a @ b) ending), Inr ())"
  by (auto simp: write_record_def writes record_loop_text mb_ends_with_join mb_is_empty_def record_text_def
      record_tail_def app_append app_Nil app_append [of _ "[LF]" "[LF]", simplified])

end


section \<open>Reading a mailbox\<close>

text \<open>
  The specification of the format: a line that begins with \<open>From \<close> starts a record, and a line
  of the body that begins with at least one \<open>>\<close> and \<open>From \<close> after them loses one.
\<close>

definition from_line :: "bytes \<Rightarrow> bool" where
  "from_line l \<longleftrightarrow> starts_with l (ascii ''From '')"

definition unquote_line :: "bytes \<Rightarrow> bytes" where
  "unquote_line l = (if needs_quote l \<and> starts_with l [GT] then tl l else l)"

function mbox_records :: "bytes list \<Rightarrow> (bytes \<times> bytes list) list" where
  "mbox_records [] = []"
| "mbox_records (l # ls) =
     (if from_line l
      then (l, map unquote_line (takeWhile (\<lambda>x. \<not> from_line x) ls)) #
           mbox_records (dropWhile (\<lambda>x. \<not> from_line x) ls)
      else mbox_records ls)"
  by pat_completeness auto
termination
  by (relation "measure length") (auto simp: le_imp_less_Suc length_dropWhile_le)

definition whole_line :: "bytes \<Rightarrow> bool" where
  "whole_line l \<longleftrightarrow> (\<exists>a. l = a @ [LF] \<and> LF \<notin> set a)"

lemma lines_of_whole_append:
  "\<forall>l \<in> set ls. whole_line l \<Longrightarrow> lines_of (concat ls @ rest) = ls @ lines_of rest"
proof (induction ls)
  case (Cons l ls)
  then obtain a where "l = a @ [LF]" "LF \<notin> set a" by (auto simp: whole_line_def)
  then show ?case using Cons lines_of_app_LF [of a "concat ls @ rest"] by simp
qed simp

lemma lines_of_whole: "\<forall>l \<in> set ls. whole_line l \<Longrightarrow> lines_of (concat ls) = ls"
  using lines_of_whole_append [of ls "[]"] by simp

lemma whole_lines: "bs = [] \<or> ends_with bs [LF] \<Longrightarrow> l \<in> set (lines_of bs) \<Longrightarrow> whole_line l"
proof (induction bs rule: lines_of.induct)
  case (1 bs)
  show ?case
  proof (cases bs rule: line_cases)
    case unterminated
    then show ?thesis using "1.prems" last_in_set [of bs] by (cases "bs = []") (auto simp: ends_with_singleton)
  next
    case (terminated a rest)
    then have ne: "bs \<noteq> []" by simp
    then have lines: "lines_of bs = (a @ [LF]) # lines_of rest" using lines_of_step [OF ne] terminated by simp
    have "rest = [] \<or> ends_with rest [LF]"
      using "1.prems"(1) terminated(1) by (auto simp: ends_with_singleton split: if_splits)
    then show ?thesis
      using "1.IH" [OF ne] "1.prems"(2) terminated(2,4) lines by (auto simp: whole_line_def)
  qed
qed

lemma needs_quote_alt: "needs_quote l \<longleftrightarrow> take 5 (dropWhile (\<lambda>b. b = GT) l) = ascii ''From ''"
  by (simp add: needs_quote_def dropWhile_eq_drop)

lemma needs_quote_quoted [simp]: "needs_quote (GT # l) = needs_quote l"
  by (simp add: needs_quote_alt)

lemma unquote_quote [simp]: "unquote_line (quote_line l) = l"
  by (auto simp: unquote_line_def quote_line_def)

lemma from_line_needs_quote: "from_line l \<Longrightarrow> needs_quote l"
proof -
  assume "from_line l"
  then obtain r where "l = ascii ''From '' @ r" by (auto simp: from_line_def starts_with_prefix prefix_def)
  then show ?thesis by (simp add: needs_quote_alt)
qed

lemma quote_no_from [simp]: "\<not> from_line (quote_line l)"
proof (cases "needs_quote l")
  case True
  then show ?thesis by (simp add: quote_line_def from_line_def)
next
  case False
  then show ?thesis using from_line_needs_quote by (auto simp: quote_line_def)
qed

lemma quote_whole [simp]: "whole_line l \<Longrightarrow> whole_line (quote_line l)"
proof -
  assume "whole_line l"
  then obtain a where a: "l = a @ [LF]" "LF \<notin> set a" by (auto simp: whole_line_def)
  then have "GT # l = (GT # a) @ [LF]" "LF \<notin> set (GT # a)" by simp_all
  then show ?thesis using a unfolding quote_line_def whole_line_def by auto
qed

lemma needs_quote_ending: "LF \<notin> set l \<Longrightarrow> needs_quote (l @ [LF]) = needs_quote l"
proof -
  assume "LF \<notin> set l"
  let ?d = "dropWhile (\<lambda>b. b = GT) l"
  have d: "dropWhile (\<lambda>b. b = GT) (l @ [LF]) = ?d @ [LF]" by (induction l) auto
  have "take 5 (?d @ [LF]) = ascii ''From '' \<longleftrightarrow> take 5 ?d = ascii ''From ''"
  proof (cases "length ?d < 5")
    case True
    then have "LF \<in> set (take 5 (?d @ [LF]))" by (cases "5 - length ?d") auto
    moreover have "LF \<notin> set (ascii ''From '')" by simp
    moreover have "length (take 5 ?d) \<noteq> length (ascii ''From '')" using True by simp
    ultimately show ?thesis by metis
  qed simp
  then show ?thesis by (simp only: needs_quote_alt d)
qed

text \<open>Completing the last line and then quoting is quoting and then completing it.\<close>

lemma quoted_empty_line:
  assumes "bs = [] \<or> ends_with bs [LF]"
  shows "quoted (bs @ [LF]) = quoted bs @ [LF]"
proof -
  have "lines_of (bs @ [LF]) = lines_of bs @ [[LF]]"
    using lines_of_whole_append [of "lines_of bs" "[LF]"] whole_lines [OF assms] lines_of_app_LF [of "[]" "[]"]
    by simp
  then show ?thesis by (simp add: quoted_def quote_line_def needs_quote_alt)
qed

lemma quoted_finish_line: "\<not> ends_with bs [LF] \<Longrightarrow> quoted bs @ [LF] = quoted (bs @ [LF])"
proof (induction bs rule: lines_of.induct)
  case (1 bs)
  show ?case
  proof (cases bs rule: line_cases)
    case unterminated
    then have "lines_of (bs @ [LF]) = [bs @ [LF]]" using lines_of_app_LF [of bs "[]"] by simp
    moreover have "lines_of bs = (if bs = [] then [] else [bs])"
      using unterminated lines_of_step [of bs] by simp
    ultimately show ?thesis
      using needs_quote_ending [OF unterminated(1)] by (auto simp: quoted_def quote_line_def needs_quote_alt)
  next
    case (terminated a rest)
    then have ne: "bs \<noteq> []" by simp
    have "\<not> ends_with rest [LF]" "rest \<noteq> []"
      using "1.prems" terminated(1) by (auto simp: ends_with_singleton split: if_splits)
    then have "quoted rest @ [LF] = quoted (rest @ [LF])" using "1.IH" [OF ne] terminated(4) by simp
    moreover have "quoted bs = quote_line (a @ [LF]) @ quoted rest"
      using quoted_step [OF ne] terminated(3,4) by simp
    moreover have "quoted (bs @ [LF]) = quote_line (a @ [LF]) @ quoted (rest @ [LF])"
      using lines_of_app_LF [OF terminated(2), of "rest @ [LF]"] by (simp add: quoted_def terminated(1))
    ultimately show ?thesis by simp
  qed
qed


lemma record_tail_quoted:
  "quoted bs @ record_tail bs ending = quoted (bs @ record_tail bs ending)"
  "bs @ record_tail bs ending = [] \<or> ends_with (bs @ record_tail bs ending) [LF]"
proof -
  have "ends_with bs [LF, LF] \<Longrightarrow> ends_with bs [LF]" by (auto simp: ends_with_suffix suffix_def)
  then show "bs @ record_tail bs ending = [] \<or> ends_with (bs @ record_tail bs ending) [LF]"
    by (auto simp: record_tail_def ends_with_singleton)
  have "quoted ((bs @ [LF]) @ [LF]) = quoted (bs @ [LF]) @ [LF]"
    by (rule quoted_empty_line) (simp add: ends_with_singleton)
  then show "quoted bs @ record_tail bs ending = quoted (bs @ record_tail bs ending)"
    using quoted_finish_line [of bs] quoted_empty_line [of bs] by (auto simp: record_tail_def)
qed

lemma record_lines:
  assumes "whole_line mark"
  shows "lines_of (record_text mark bs ending @ rest) =
    mark # map quote_line (lines_of (bs @ record_tail bs ending)) @ lines_of rest"
proof -
  let ?ls = "mark # map quote_line (lines_of (bs @ record_tail bs ending))"
  have "concat ?ls = record_text mark bs ending"
    using record_tail_quoted(1) [of bs ending] by (simp add: record_text_def quoted_def)
  moreover have "\<forall>l \<in> set ?ls. whole_line l"
    using assms whole_lines [OF record_tail_quoted(2)] by auto
  ultimately show ?thesis using lines_of_whole_append [of ?ls rest] by simp
qed

fun record_of :: "postmark \<times> message_bytes \<times> output_ending \<Rightarrow> bytes" where
  "record_of (mark, (a, b), ending) = record_text mark (a @ b) ending"

text \<open>
  A reader of a mailbox puts the lines of each record together again.  What it should find is the message
  followed by the line feeds that the delivery asks for: to end its last line, and with \<open>Normalize\<close> to end
  with an empty line.
\<close>

definition mailbox_messages :: "bytes \<Rightarrow> (bytes \<times> bytes) list" where
  "mailbox_messages file = map (\<lambda>(mark, ls). (mark, concat ls)) (mbox_records (lines_of file))"

fun feeds_added :: "bytes \<Rightarrow> output_ending \<Rightarrow> nat" where
  "feeds_added bs Preserve = (if bs = [] \<or> ends_with bs [LF] then 0 else 1)"
| "feeds_added bs Normalize = (if ends_with bs [LF, LF] then 0 else if ends_with bs [LF] then 1 else 2)"

fun delivered :: "postmark \<times> message_bytes \<times> output_ending \<Rightarrow> bytes \<times> bytes" where
  "delivered (mark, (a, b), ending) = (mark, (a @ b) @ replicate (feeds_added (a @ b) ending) LF)"

fun delivered_lines :: "postmark \<times> message_bytes \<times> output_ending \<Rightarrow> bytes \<times> bytes list" where
  "delivered_lines (mark, (a, b), ending) = (mark, lines_of ((a @ b) @ record_tail (a @ b) ending))"

lemma replicate_2: "replicate 2 x = [x, x]"
  by (simp add: numeral_2_eq_2)

lemma record_tail_feeds: "record_tail bs ending = replicate (feeds_added bs ending) LF"
  by (cases ending) (auto simp: record_tail_def replicate_2)

lemma delivered_lines_text: "(\<lambda>(mark, ls). (mark, concat ls)) (delivered_lines r) = delivered r"
  by (cases r rule: delivered.cases) (simp add: record_tail_feeds)

fun deliver_all :: "bytes \<Rightarrow> (postmark \<times> message_bytes \<times> output_ending) list \<Rightarrow> bytes \<times> unit io" where
  "deliver_all w [] = (w, Inr ())"
| "deliver_all w ((mark, m, ending) # rs) =
     (case write_record vec_write w mark m ending of
        (w', Inl e) \<Rightarrow> (w', Inl e)
      | (w', Inr _) \<Rightarrow> deliver_all w' rs)"

lemma deliver_all_text: "deliver_all w rs = (w @ concat (map record_of rs), Inr ())"
  by (induction w rs rule: deliver_all.induct) (auto simp: vw.write_record_text)

lemma postmark_ok: "postmark_new mark = Inr m \<Longrightarrow> m = mark \<and> whole_line mark \<and> from_line mark"
proof -
  assume *: "postmark_new mark = Inr m"
  then have "ends_with mark [LF]" "LF \<notin> set (butlast mark)"
    by (auto simp: postmark_new_def butlast_conv_take split: if_splits)
  then have "whole_line mark"
    unfolding whole_line_def by (intro exI [of _ "butlast mark"]) (metis ends_with_singleton append_butlast_last_id)
  then show ?thesis using * by (auto simp: postmark_new_def from_line_def split: if_splits)
qed

lemma takeWhile_block:
  "\<forall>x \<in> set xs. P x \<Longrightarrow> takeWhile P ys = [] \<Longrightarrow> takeWhile P (xs @ ys) = xs \<and> dropWhile P (xs @ ys) = ys"
proof (induction xs)
  case Nil
  then show ?case by (cases ys) (auto split: if_splits)
qed simp

lemma mbox_records_text:
  assumes "\<forall>r \<in> set rs. postmark_new (fst r) = Inr (fst r)"
  shows "mbox_records (lines_of (concat (map record_of rs))) = map delivered_lines rs \<and>
    takeWhile (\<lambda>x. \<not> from_line x) (lines_of (concat (map record_of rs))) = []"
  using assms
proof (induction rs)
  case (Cons r rs)
  obtain mark a b ending where r: "r = (mark, (a, b), ending)" by (cases r) auto
  let ?body = "map quote_line (lines_of ((a @ b) @ record_tail (a @ b) ending))"
  let ?rest = "lines_of (concat (map record_of rs))"
  have mark: "whole_line mark" "from_line mark" using Cons.prems postmark_ok by (auto simp: r)
  have lines: "lines_of (concat (map record_of (r # rs))) = mark # ?body @ ?rest"
    using record_lines [OF mark(1)] by (simp add: r)
  have IH: "mbox_records ?rest = map delivered_lines rs" "takeWhile (\<lambda>x. \<not> from_line x) ?rest = []"
    using Cons by simp_all
  have "takeWhile (\<lambda>x. \<not> from_line x) (?body @ ?rest) = ?body"
    "dropWhile (\<lambda>x. \<not> from_line x) (?body @ ?rest) = ?rest"
    using takeWhile_block [of ?body "\<lambda>x. \<not> from_line x" ?rest] IH(2) by auto
  moreover have "map unquote_line ?body = lines_of ((a @ b) @ record_tail (a @ b) ending)"
    by (simp add: comp_def)
  ultimately show ?case
    unfolding lines using IH(1) mark(2) by (simp add: r)
qed simp

text \<open>
  C27. What a mailbox says is what was delivered.  Whatever bytes the messages hold, however they
  are cut into two pieces, and whichever ending each delivery asks for, writing the records one
  after the other succeeds on a writer that does not fail, and a reader of the mboxrd format
  finds exactly the deliveries, in order, each with its postmark and the bytes of its message followed by the
  line feeds that the delivery adds: one when the last line of the message is not ended, and with
  \<open>Normalize\<close> those that make the message end with an empty line.  No message can start a record of its own
  or swallow the next one.
\<close>

theorem mailbox_roundtrip:
  assumes "\<forall>r \<in> set rs. postmark_new (fst r) = Inr (fst r)"
  shows "\<exists>file. deliver_all [] rs = (file, Inr ()) \<and> mailbox_messages file = map delivered rs"
proof -
  have "mailbox_messages (concat (map record_of rs)) = map delivered rs"
    using mbox_records_text [OF assms] by (simp add: mailbox_messages_def delivered_lines_text)
  then show ?thesis by (simp add: deliver_all_text)
qed

theorem mailbox_roundtrip_witness:
  "\<exists>file. deliver_all [] [(ascii ''From a'' @ [LF], (ascii ''Fro'', ascii ''m b''), Normalize),
       (ascii ''From c'' @ [LF], (ascii ''>From d'', [LF]), Preserve)] = (file, Inr ()) \<and>
     mailbox_messages file =
       [(ascii ''From a'' @ [LF], ascii ''From b'' @ [LF, LF]), (ascii ''From c'' @ [LF], ascii ''>From d'' @ [LF])]"
  using mailbox_roundtrip [of "[(ascii ''From a'' @ [LF], (ascii ''Fro'', ascii ''m b''), Normalize),
       (ascii ''From c'' @ [LF], (ascii ''>From d'', [LF]), Preserve)]"] replicate_2 [of LF]
  by (simp add: postmark_new_def MAX_POSTMARK_LEN_def byte_defs ends_with_singleton ends_with_def)


section \<open>Generated postmarks\<close>

definition plain :: "bytes \<Rightarrow> bool" where
  "plain bs \<longleftrightarrow> list_all (\<lambda>b. is_ascii_graphic b \<or> b = SP) bs"

lemma plain_simps [simp]:
  "plain (xs @ ys) \<longleftrightarrow> plain xs \<and> plain ys" "plain []" "plain (b # bs) \<longleftrightarrow> (is_ascii_graphic b \<or> b = SP) \<and> plain bs"
  by (simp_all add: plain_def)

lemma digit_graphic: "n < 10 \<Longrightarrow> is_ascii_graphic (of_nat (48 + n))"
proof -
  assume "n < 10"
  then have "n \<in> set [0..<10]" by simp
  moreover have "list_all (\<lambda>n. is_ascii_graphic (of_nat (48 + n))) [0..<10]" by code_simp
  ultimately show ?thesis by (simp only: list_all_iff)
qed

lemma decimal_plain: "plain (decimal n)"
proof (induction n rule: decimal.induct)
  case (1 n)
  then show ?case using digit_graphic [of "n mod 10"] digit_graphic [of n]
    by (subst decimal.simps) (simp del: of_nat_add)
qed

lemma decimal_length: "n < 10 ^ Suc k \<Longrightarrow> length (decimal n) \<le> Suc k"
proof (induction k arbitrary: n)
  case 0
  then show ?case by (simp add: decimal.simps)
next
  case (Suc k)
  then have "n div 10 < 10 ^ Suc k" by (simp add: div_less_iff_less_mult mult.commute)
  from Suc.IH [OF this] show ?case by (subst decimal.simps) simp
qed

lemma padded_props: "plain text \<Longrightarrow> is_ascii_graphic fill \<or> fill = SP \<Longrightarrow> plain (padded fill w text)"
  "length (padded fill w text) = max w (length text)"
  by (auto simp: padded_def plain_def list_all_iff)

lemma names_plain: "list_all plain WEEKDAYS" "list_all plain MONTHS"
    "list_all (\<lambda>n. length n = 3) WEEKDAYS" "list_all (\<lambda>n. length n = 3) MONTHS"
  by code_simp+

lemma postmark_new_line:
  assumes "plain body" and "length body < MAX_POSTMARK_LEN - 5"
  shows "postmark_new (ascii ''From '' @ body @ [LF]) = Inr (ascii ''From '' @ body @ [LF])"
proof -
  have "plain (ascii ''From '' @ body)" using assms(1) by (simp add: byte_defs)
  moreover have "LF \<notin> set bs" if "plain bs" for bs
    using that by (auto simp: plain_def list_all_iff byte_defs)
  ultimately show ?thesis
    using assms(2) by (auto simp: postmark_new_def ends_with_singleton MAX_POSTMARK_LEN_def plain_def)
qed

lemma civil_bounds:
  assumes "0 \<le> n" and "n < 2 ^ 48"
  obtains y m d where "civil_from_days n = Some (y, m, d)" "0 \<le> y" "y < 10 ^ 12" "1 \<le> m" "m \<le> 12" "1 \<le> d" "d \<le> 31"
proof -
  define e where "e = (n + 719468) div 146097"
  define x where "x = (n + 719468) mod 146097"
  have sx: "n + 719468 = 146097 * e + x" "0 \<le> e" "0 \<le> x" "x < 146097"
    using assms by (simp_all add: e_def x_def pos_imp_zdiv_nonneg_iff)
  obtain y where y: "0 \<le> y" "y < 400" "year_start y \<le> x" "x < year_start (y + 1)"
    by (rule year_exists [OF sx(3,4)])
  have doy: "0 \<le> x - year_start y" "x - year_start y < int 366"
    using year_length [OF y(1,2), of 0] y(3,4) by (auto split: if_splits)
  have "146097 * e < 2 ^ 48 + 719468" using sx assms(2) by simp
  then have "e < 2000000000" by simp
  moreover have "civil_from_days n = Some (date_of e y (x - year_start y))"
    using sx y assms(2) by (intro civil_from_days_date) (simp_all add: i64_max_def)
  moreover have "1 \<le> march_month (x - year_start y)" "march_month (x - year_start y) \<le> 12"
    "1 \<le> march_day (x - year_start y)" "march_day (x - year_start y) \<le> 31"
    using table_lookup [OF month_table doy] by (auto simp: long_month_def split: if_splits)
  ultimately show thesis
    using that [of "y + 400 * e + (if march_month (x - year_start y) \<le> 2 then 1 else 0)"
        "nat (march_month (x - year_start y))" "nat (march_day (x - year_start y))"] sx(2) y(1,2)
    by (simp add: date_of_def nat_le_iff le_nat_iff)
qed

lemma postmark_generated_line:
  assumes "0 \<le> time" and "time < 2 ^ 64"
  shows "\<exists>y m d. civil_from_days (time div 86400) = Some (y, m, d) \<and> 1 \<le> m \<and> m \<le> 12 \<and>
    postmark_generated time =
      Inr (postmark_line (WEEKDAYS ! nat (time div 86400 mod 7)) (MONTHS ! (m - 1)) d
        (nat (time mod 86400) div 3600) (nat (time mod 86400) mod 3600 div 60) (nat (time mod 86400) mod 60) y)"
proof -
  have days: "0 \<le> time div 86400" "time div 86400 < 2 ^ 48"
    using assms by (simp_all add: pos_imp_zdiv_nonneg_iff div_less_iff_less_mult zdiv_int [symmetric])
  obtain y m d where c: "civil_from_days (time div 86400) = Some (y, m, d)"
    and b: "0 \<le> y" "y < 10 ^ 12" "1 \<le> m" "m \<le> 12" "1 \<le> d" "d \<le> 31"
    by (rule civil_bounds [OF days])
  have nats: "int (nat time div 86400) = time div 86400" "nat time mod 86400 = nat (time mod 86400)"
    "nat time div 86400 mod 7 = nat (time div 86400 mod 7)"
    using assms(1) by (simp_all add: zdiv_int nat_mod_distrib nat_div_distrib)
  let ?wd = "WEEKDAYS ! nat (time div 86400 mod 7)" let ?mo = "MONTHS ! (m - 1)" let ?s = "nat (time mod 86400)"
  define body where "body = ascii ''MAILER-DAEMON '' @ ?wd @ [SP] @ ?mo @ [SP] @ padded SP 2 (decimal d) @ [SP] @
     padded 48 2 (decimal (?s div 3600)) @ [58] @ padded 48 2 (decimal (?s mod 3600 div 60)) @ [58] @
     padded 48 2 (decimal (?s mod 60)) @ [SP] @ padded 48 4 (signed_decimal y)"
  have line: "postmark_line ?wd ?mo d (?s div 3600) (?s mod 3600 div 60) (?s mod 60) y = ascii ''From '' @ body @ [LF]"
    by (simp add: postmark_line_def body_def)
  have lens: "length WEEKDAYS = 7" "length MONTHS = 12" by (simp_all add: WEEKDAYS_def MONTHS_def)
  have "?wd \<in> set WEEKDAYS" "?mo \<in> set MONTHS" using b lens by (auto intro!: nth_mem simp: nat_less_iff)
  then have names: "plain ?wd" "plain ?mo" "length ?wd = 3" "length ?mo = 3"
    using names_plain by (auto simp: list_all_iff)
  have year: "signed_decimal y = decimal (nat y)" using b(1) by (simp add: signed_decimal_def)
  have "?s < 86400" by (simp add: nat_less_iff)
  then have "?s div 3600 < 10 ^ Suc 1" "?s mod 3600 div 60 < 10 ^ Suc 1" "?s mod 60 < 10 ^ Suc 1"
    "d < 10 ^ Suc 1" "nat y < 10 ^ Suc 11"
    using b by (auto simp: div_less_iff_less_mult nat_less_iff intro: order_less_trans [of _ 60])
  note dec = this [THEN decimal_length]
  have "plain body"
    using names by (simp add: body_def padded_props decimal_plain year byte_defs)
  moreover have "length body < MAX_POSTMARK_LEN - 5"
    using dec names by (simp add: body_def padded_props year MAX_POSTMARK_LEN_def)
  ultimately have "postmark_new (ascii ''From '' @ body @ [LF]) = Inr (ascii ''From '' @ body @ [LF])"
    by (rule postmark_new_line)
  moreover have "get MONTHS (m - 1) = Some ?mo" using b lens by (simp add: get_def)
  moreover have "\<not> i64_max < time div 86400" using days(2) by (simp add: i64_max_def)
  ultimately have "postmark_generated time = Inr (ascii ''From '' @ body @ [LF])"
    using assms(1) b(3) c
    by (simp add: postmark_generated_def Let_def nats line [symmetric] del: ascii_simps)
  then show ?thesis using c b(3,4) line by auto
qed

text \<open>
  A postmark can always be generated: for every time from the epoch to the last second of a
  64-bit clock, none of the overflow and range errors occurs, and the result is the valid line
  that names the weekday, the calendar date and the time of day of that second.
\<close>

theorem postmark_generated_total:
  assumes "0 \<le> time" and "time < 2 ^ 64"
  shows "\<exists>y m d. civil_from_days (time div 86400) = Some (y, m, d) \<and> 1 \<le> m \<and> m \<le> 12 \<and>
    postmark_generated time =
      Inr (postmark_line (WEEKDAYS ! nat (time div 86400 mod 7)) (MONTHS ! (m - 1)) d
        (nat (time mod 86400) div 3600) (nat (time mod 86400) mod 3600 div 60) (nat (time mod 86400) mod 60) y)"
  by (rule postmark_generated_line [OF assms])

theorem postmark_generated_total_witness:
  "\<exists>y m d. civil_from_days 0 = Some (y, m, d) \<and>
     postmark_generated 5 = Inr (postmark_line (ascii ''Thu'') (MONTHS ! (m - 1)) d 0 0 5 y)"
  using postmark_generated_total [of 5] by (auto simp: WEEKDAYS_def)

end
