(* ===== verification/Mbox_Append.thy ===== *)
theory Mbox_Append
  imports Mbox_Record Maildir
begin

text \<open>
  Appending a record to a locked mailbox, \<open>src/delivery/mbox.rs\<close>: the record is written at the end of
  the file and, when a write or a synchronisation fails, the file is cut back to its length.  The
  system calls on the locked file are the record \<open>mbox_ops\<close> over the state of the open file; the
  locale \<open>locked_file\<close> has what the code relies on while it holds the lock.
\<close>

section \<open>The sequence of system calls\<close>

record 'f mbox_ops =
  mo_seek_end :: "'f \<Rightarrow> 'f \<times> nat io"
  mo_write :: "'f write_all"
  mo_sync_file :: "'f \<Rightarrow> 'f \<times> unit io"
  mo_sync_parent :: "'f \<Rightarrow> 'f \<times> unit io"
  mo_truncate :: "'f \<Rightarrow> nat \<Rightarrow> 'f \<times> unit io"
  mo_unlock :: "'f \<Rightarrow> 'f \<times> unit io"

record mbox_append_error =
  ma_source :: io_error
  ma_rollback :: "io_error option"
  ma_published :: bool
  ma_operation :: delivery_operation

definition mbox_before_publication :: "io_error \<Rightarrow> io_error option \<Rightarrow> delivery_operation \<Rightarrow> mbox_append_error" where
  "mbox_before_publication source rollback operation =
     \<lparr>ma_source = source, ma_rollback = rollback, ma_published = False, ma_operation = operation\<rparr>"

definition mbox_after_publication :: "io_error \<Rightarrow> mbox_append_error" where
  "mbox_after_publication source =
     \<lparr>ma_source = source, ma_rollback = None, ma_published = True, ma_operation = Op_Unlock\<rparr>"

definition mbox_error_class :: "mbox_append_error \<Rightarrow> delivery_failure_class" where
  "mbox_error_class e = (if ma_rollback e \<noteq> None then Internal else from_io_error (ma_source e))"

definition mbox_error_failure :: "mbox_append_error \<Rightarrow> delivery_failure" where
  "mbox_error_failure e =
     (failure_from_io (ma_operation e) (ma_source e) (ma_published e))\<lparr>df_class := mbox_error_class e\<rparr>"

definition rollback_failed :: "mbox_append_error \<Rightarrow> bool" where
  "rollback_failed e \<longleftrightarrow> ma_rollback e \<noteq> None"

definition rollback_with :: "'f mbox_ops \<Rightarrow> 'f \<Rightarrow> nat \<Rightarrow> durability \<Rightarrow> 'f \<times> unit io" where
  "rollback_with ops f original_len durability =
     (case mo_truncate ops f original_len of
        (f1, Inl e) \<Rightarrow> (f1, Inl e)
      | (f1, Inr _) \<Rightarrow>
          (case mo_seek_end ops f1 of
             (f2, Inl e) \<Rightarrow> (f2, Inl e)
           | (f2, Inr _) \<Rightarrow> if durability \<noteq> Durability_None then mo_sync_file ops f2 else (f2, Inr ())))"

text \<open>The error path that both failures share: roll back, unlock, report.\<close>

definition fail_append ::
    "'f mbox_ops \<Rightarrow> 'f \<Rightarrow> nat \<Rightarrow> durability \<Rightarrow> io_error \<Rightarrow> delivery_operation \<Rightarrow> 'f \<times> mbox_append_error" where
  "fail_append ops f original_len durability source operation =
     (case rollback_with ops f original_len durability of
        (f1, r) \<Rightarrow>
          (case mo_unlock ops f1 of
             (f2, _) \<Rightarrow>
               (f2, mbox_before_publication source (case r of Inl e \<Rightarrow> Some e | Inr _ \<Rightarrow> None) operation)))"

definition append_with_operations ::
    "'f mbox_ops \<Rightarrow> 'f \<Rightarrow> bytes \<Rightarrow> durability \<Rightarrow> ('f \<Rightarrow> 'f \<times> unit io) \<Rightarrow>
     'f \<times> (mbox_append_error + published_delivery)" where
  "append_with_operations ops f path durability write_step =
     (case mo_seek_end ops f of
        (f1, Inl e) \<Rightarrow> (f1, Inl (mbox_before_publication e None Op_Write))
      | (f1, Inr original_len) \<Rightarrow>
     (case write_step f1 of
        (f2, Inl e) \<Rightarrow> map_prod id Inl (fail_append ops f2 original_len durability e Op_Write)
      | (f2, Inr _) \<Rightarrow>
     (case (if durability = Durability_None then (f2, Inr ()) else mo_sync_file ops f2) of
        (f3, Inl e) \<Rightarrow> map_prod id Inl (fail_append ops f3 original_len durability e Op_SyncFile)
      | (f3, Inr _) \<Rightarrow>
     (case (if durability = Durability_Full then mo_sync_parent ops f3 else (f3, Inr ())) of
        (f4, Inl e) \<Rightarrow> map_prod id Inl (fail_append ops f4 original_len durability e Op_SyncDirectory)
      | (f4, Inr _) \<Rightarrow>
     (case mo_unlock ops f4 of
        (f5, Inl e) \<Rightarrow> (f5, Inl (mbox_after_publication e))
      | (f5, Inr _) \<Rightarrow> (f5, Inr path))))))"

text \<open>\<open>append\<close>; \<open>now\<close> is the system time, in seconds since the epoch.\<close>

definition mbox_append ::
    "'f mbox_ops \<Rightarrow> int \<Rightarrow> 'f \<Rightarrow> bytes \<Rightarrow> message_bytes \<Rightarrow> output_ending \<Rightarrow> durability \<Rightarrow>
     'f \<times> (mbox_append_error + published_delivery)" where
  "mbox_append ops now f path message ending durability =
     append_with_operations ops f path durability
       (\<lambda>f1. case postmark_generated now of
                Inl _ \<Rightarrow> (f1, Inl (io_error_of Kind_Other))
              | Inr mark \<Rightarrow> write_record (mo_write ops) f1 mark message ending)"

section \<open>Records on a writer that may fail\<close>

context tracking_writer
begin

lemma write_safe_if: "safe w w1 \<Longrightarrow> (if c then wr w1 b else (w1, Inr ())) = (w2, r) \<Longrightarrow> safe w w2"
  by (auto split: if_splits dest: safe_write)

lemma write_got_if:
  "got w a w1 \<Longrightarrow> (if c then wr w1 b else (w1, Inr ())) = (w2, Inr u) \<Longrightarrow> got w (a @ (if c then b else [])) w2"
  by (auto split: if_splits dest: got_write)

lemma record_loop_got:
  "record_loop wr a b w1 = (w2, Inr u) \<Longrightarrow> got w x w1 \<Longrightarrow> got w (x @ quoted (a @ b)) w2"
proof (induction "length a + length b" arbitrary: a b w1 x rule: less_induct)
  case less
  show ?case
  proof (cases "a = [] \<and> b = []")
    case True
    then show ?thesis using less.prems by (subst (asm) record_loop.simps) (simp add: quoted_def)
  next
    case False
    obtain l1 l2 a' b' where t: "next_line a b = ((l1, l2), (a', b'))" "l1 @ l2 = first_line (a @ b)"
      "a' @ b' = drop (length (first_line (a @ b))) (a @ b)"
      using take_line_first [of a b] take_line_first [of b "[]"] False
      by (cases "a = []") (auto simp: next_line_def)
    obtain v1 v2 v3 where steps: "(if needs_quote (l1 @ l2) then wr w1 [GT] else (w1, Inr ())) = (v1, Inr ())"
      "wr v1 l1 = (v2, Inr ())" "wr v2 l2 = (v3, Inr ())" "record_loop wr a' b' v3 = (w2, Inr u)"
      using less.prems(1) False t(1) by (subst (asm) record_loop.simps) (auto split: prod.splits sum.splits)
    have "got w (((x @ (if needs_quote (l1 @ l2) then [GT] else [])) @ l1) @ l2) v3"
      by (rule got_write [OF got_write [OF write_got_if [OF less.prems(2) steps(1)] steps(2)] steps(3)])
    moreover have "((x @ (if needs_quote (l1 @ l2) then [GT] else [])) @ l1) @ l2 = x @ quote_line (first_line (a @ b))"
      unfolding t(2) [symmetric] by (simp add: quote_line_def)
    ultimately have "got w (x @ quote_line (first_line (a @ b))) v3" by simp
    then have "got w ((x @ quote_line (first_line (a @ b))) @ quoted (a' @ b')) w2"
      using less.hyps [OF next_line_shorter [OF t(1)] steps(4)] False by blast
    then show ?thesis using False by (simp add: t(3) quoted_step)
  qed
qed

lemma record_loop_safe: "record_loop wr a b w1 = (w2, r) \<Longrightarrow> safe w w1 \<Longrightarrow> safe w w2"
proof (induction "length a + length b" arbitrary: a b w1 rule: less_induct)
  case less
  obtain l1 l2 a' b' where t: "next_line a b = ((l1, l2), (a', b'))" by (cases "next_line a b") auto
  obtain v1 r1 where s1: "(if needs_quote (l1 @ l2) then wr w1 [GT] else (w1, Inr ())) = (v1, r1)"
    by (cases "if needs_quote (l1 @ l2) then wr w1 [GT] else (w1, Inr ())")
  obtain v2 r2 where s2: "wr v1 l1 = (v2, r2)" by (cases "wr v1 l1")
  obtain v3 r3 where s3: "wr v2 l2 = (v3, r3)" by (cases "wr v2 l2")
  note safe1 = write_safe_if [OF less.prems(2) s1]
  note safe2 = safe_write [OF safe1 s2]
  note safe3 = safe_write [OF safe2 s3]
  show ?case
  proof (cases "a = [] \<and> b = []")
    case True
    then show ?thesis using less.prems by (subst (asm) record_loop.simps) simp
  next
    case False
    show ?thesis
      using less.prems(1) False t s1 s2 s3 safe1 safe2 safe3 less.hyps [OF next_line_shorter [OF t], of v3]
      by (subst (asm) record_loop.simps) (auto split: sum.splits)
  qed
qed

lemma write_record_got:
  assumes "write_record wr w mark (a, b) ending = (w', Inr u)"
  shows "got w (record_text mark (a @ b) ending) w'"
proof -
  obtain w1 where w1: "wr w mark = (w1, Inr ())"
    using assms by (auto simp: write_record_def split: prod.splits sum.splits)
  obtain w2 where w2: "record_loop wr a b w1 = (w2, Inr ())"
    using assms w1 by (auto simp: write_record_def split: prod.splits sum.splits)
  have g: "got w (mark @ quoted (a @ b)) w2"
    using record_loop_got [OF w2 got_write [OF got_Nil w1]] by simp
  note g1 = got_write [OF g, of "[LF]"] and g2 = got_write [OF got_write [OF g, of "[LF]"], of _ _ "[LF]"]
  show ?thesis
    using assms w1 w2 g g1 g2
    by (auto simp: write_record_def record_text_def record_tail_def mb_ends_with_join mb_is_empty_def
        split: if_splits prod.splits sum.splits)
qed

lemma write_record_safe:
  assumes "write_record wr w mark (a, b) ending = (w', r)"
  shows "safe w w'"
proof -
  obtain w1 r1 where w1: "wr w mark = (w1, r1)" by (cases "wr w mark")
  obtain w2 r2 where w2: "record_loop wr a b w1 = (w2, r2)" by (cases "record_loop wr a b w1")
  note s1 = safe_write [OF safe_refl w1]
  note s2 = record_loop_safe [OF w2 s1]
  note s3 = safe_write [OF s2] and s4 = safe_write [OF safe_write [OF s2]]
  show ?thesis
    using assms w1 w2 s1 s2 s3 s4
    by (auto simp: write_record_def split: if_splits prod.splits sum.splits)
qed

end

section \<open>What the code relies on\<close>

text \<open>
  \<open>bytes_of\<close> is the content of the file and \<open>offset\<close> the position of the descriptor.  While the lock
  is held nobody else changes the file: a write at the end appends some of the bytes, and all of
  them when it succeeds; \<open>ftruncate\<close> cuts the file and leaves the position.
\<close>

locale locked_file =
  fixes ops :: "'f mbox_ops" and bytes_of :: "'f \<Rightarrow> bytes" and offset :: "'f \<Rightarrow> nat"
  assumes seek_bytes: "mo_seek_end ops f = (f', r) \<Longrightarrow> bytes_of f' = bytes_of f"
    and seek_offset: "mo_seek_end ops f = (f', Inr n) \<Longrightarrow> n = length (bytes_of f) \<and> offset f' = n"
    and write_prefix: "mo_write ops f bs = (f', r1) \<Longrightarrow> offset f = length (bytes_of f) \<Longrightarrow>
      \<exists>k \<le> length bs. bytes_of f' = bytes_of f @ take k bs \<and> offset f' = length (bytes_of f') \<and>
        (r1 = Inr () \<longrightarrow> k = length bs)"
    and sync_bytes: "mo_sync_file ops f = (f', r1) \<Longrightarrow> bytes_of f' = bytes_of f"
    and sync_parent_bytes: "mo_sync_parent ops f = (f', r1) \<Longrightarrow> bytes_of f' = bytes_of f"
    and unlock_bytes: "mo_unlock ops f = (f', r1) \<Longrightarrow> bytes_of f' = bytes_of f"
    and truncate_bytes: "mo_truncate ops f k = (f', Inr u) \<Longrightarrow> k \<le> length (bytes_of f) \<Longrightarrow> bytes_of f' = take k (bytes_of f)"
begin

definition at_end :: "'f \<Rightarrow> bool" where
  "at_end f \<longleftrightarrow> offset f = length (bytes_of f)"

definition file_got :: "'f \<Rightarrow> bytes \<Rightarrow> 'f \<Rightarrow> bool" where
  "file_got f bs f' \<longleftrightarrow> (at_end f \<longrightarrow> at_end f' \<and> bytes_of f' = bytes_of f @ bs)"

definition file_safe :: "'f \<Rightarrow> 'f \<Rightarrow> bool" where
  "file_safe f f' \<longleftrightarrow> (at_end f \<longrightarrow> at_end f' \<and> prefix (bytes_of f) (bytes_of f'))"

end

sublocale locked_file \<subseteq> mailfile: tracking_writer "mo_write ops" file_got file_safe
proof (unfold_locales, goal_cases)
  case (2 w a w1 b w2 u)
  then show ?case using write_prefix [of w1 b w2 "Inr ()"] by (auto simp: file_got_def at_end_def)
next
  case (4 w w1 b w2 r)
  then show ?case
    using write_prefix [of w1 b w2 r] by (auto simp: file_safe_def at_end_def intro: prefix_append prefix_order.trans)
qed (simp_all add: file_got_def file_safe_def)

context locked_file
begin

lemma fail_append_restores:
  assumes "fail_append ops f n durability source operation = (f', e)" and "n \<le> length (bytes_of f)"
    and "ma_rollback e = None"
  shows "bytes_of f' = take n (bytes_of f)"
proof -
  obtain f1 r where rb: "rollback_with ops f n durability = (f1, r)" by (cases "rollback_with ops f n durability")
  obtain f2 q where ul: "mo_unlock ops f1 = (f2, q)" by (cases "mo_unlock ops f1")
  have out: "f' = f2" "r = Inr ()"
    using assms(1,3) rb ul by (auto simp: fail_append_def mbox_before_publication_def split: sum.splits)
  obtain g where t: "mo_truncate ops f n = (g, Inr ())"
    using rb out(2) by (auto simp: rollback_with_def split: prod.splits sum.splits)
  have "bytes_of f1 = bytes_of g"
    using rb out(2) t
    by (auto simp: rollback_with_def dest!: seek_bytes sync_bytes split: prod.splits sum.splits if_splits)
  then show ?thesis using truncate_bytes [OF t assms(2)] unlock_bytes [OF ul] out(1) by simp
qed

lemma fail_append_error: "fail_append ops f n durability source operation = (f', e) \<Longrightarrow> ma_published e = False"
  by (auto simp: fail_append_def mbox_before_publication_def split: prod.splits)

lemma append_outcome:
  assumes "append_with_operations ops f path durability step = (f', res)"
    and good: "\<And>g g' u. step g = (g', Inr u) \<Longrightarrow> file_got g record g'"
    and safe: "\<And>g g' r. step g = (g', r) \<Longrightarrow> file_safe g g'"
  shows "case res of
      Inr p \<Rightarrow> p = path \<and> bytes_of f' = bytes_of f @ record
    | Inl e \<Rightarrow> if ma_published e then bytes_of f' = bytes_of f @ record
        else ma_rollback e = None \<longrightarrow> bytes_of f' = bytes_of f"
proof -
  obtain f1 r1 where s: "mo_seek_end ops f = (f1, r1)" by (cases "mo_seek_end ops f")
  obtain f2 r2 where w: "step f1 = (f2, r2)" by (cases "step f1")
  obtain f3 r3 where y: "(if durability = Durability_None then (f2, Inr ()) else mo_sync_file ops f2) = (f3, r3)"
    by (cases "if durability = Durability_None then (f2, Inr ()) else mo_sync_file ops f2")
  obtain f4 r4 where z: "(if durability = Durability_Full then mo_sync_parent ops f3 else (f3, Inr ())) = (f4, r4)"
    by (cases "if durability = Durability_Full then mo_sync_parent ops f3 else (f3, Inr ())")
  obtain f5 r5 where ul: "mo_unlock ops f4 = (f5, r5)" by (cases "mo_unlock ops f4")
  have b1: "bytes_of f1 = bytes_of f" by (rule seek_bytes [OF s])
  have b3: "bytes_of f3 = bytes_of f2" using y by (auto split: if_splits dest: sync_bytes)
  have b4: "bytes_of f4 = bytes_of f3" using z by (auto split: if_splits dest: sync_parent_bytes)
  have b5: "bytes_of f5 = bytes_of f4" by (rule unlock_bytes [OF ul])
  show ?thesis
  proof (cases r1)
    case (Inl e)
    then show ?thesis using assms(1) s b1 by (auto simp: append_with_operations_def mbox_before_publication_def)
  next
    case one: (Inr n)
    have n: "n = length (bytes_of f)" and e1: "at_end f1"
      using seek_offset s one b1 by (auto simp: at_end_def)
    obtain t where t: "bytes_of f2 = bytes_of f @ t"
      using safe [OF w] e1 b1 by (auto simp: file_safe_def prefix_def)
    have full: "r2 = Inr u \<Longrightarrow> bytes_of f2 = bytes_of f @ record" for u
      using good w e1 b1 by (auto simp: file_got_def)
    have failed: "case Inl x of Inr p \<Rightarrow> p = path \<and> bytes_of f' = bytes_of f @ record
        | Inl e \<Rightarrow> if ma_published e then bytes_of f' = bytes_of f @ record
          else ma_rollback e = None \<longrightarrow> bytes_of f' = bytes_of f"
      if "fail_append ops g n durability source operation = (f', x)" "bytes_of g = bytes_of f2" for g source operation x
      using fail_append_restores [OF that(1)] fail_append_error [OF that(1)] that(2) t n by auto
    have failing: ?thesis
      if "map_prod id Inl (fail_append ops g n durability source operation) = (f', res)" "bytes_of g = bytes_of f2"
      for g source operation
      using failed [of g source operation "projl res"] that
      by (cases "fail_append ops g n durability source operation") auto
    note run = assms(1) [unfolded append_with_operations_def s one prod.case sum.case w]
    show ?thesis
    proof (cases r2)
      case (Inl e)
      then show ?thesis using run failing [of f2] by simp
    next
      case two: (Inr u)
      note run = run [unfolded two prod.case sum.case y]
      show ?thesis
      proof (cases r3)
        case (Inl e)
        then show ?thesis using run failing [of f3] b3 by simp
      next
        case three: (Inr v)
        note run = run [unfolded three prod.case sum.case z]
        show ?thesis
        proof (cases r4)
          case (Inl e)
          then show ?thesis using run failing [of f4] b3 b4 by simp
        next
          case (Inr v')
          then show ?thesis using run ul full [OF two] b3 b4 b5
            by (cases r5) (auto simp: mbox_after_publication_def)
        qed
      qed
    qed
  qed
qed

lemma mbox_append_outcome:
  assumes run: "mbox_append ops now f path (a, b) ending durability = (f', res)"
  shows "case res of
      Inr p \<Rightarrow> p = path \<and> (\<exists>mark. postmark_generated now = Inr mark \<and>
        bytes_of f' = bytes_of f @ record_text mark (a @ b) ending)
    | Inl e \<Rightarrow>
        if ma_published e then \<exists>mark. postmark_generated now = Inr mark \<and>
          bytes_of f' = bytes_of f @ record_text mark (a @ b) ending
        else if rollback_failed e then mbox_error_class e = Internal
        else bytes_of f' = bytes_of f"
proof (cases "postmark_generated now")
  case (Inr mark)
  have "case res of
      Inr p \<Rightarrow> p = path \<and> bytes_of f' = bytes_of f @ record_text mark (a @ b) ending
    | Inl e \<Rightarrow> if ma_published e then bytes_of f' = bytes_of f @ record_text mark (a @ b) ending
        else ma_rollback e = None \<longrightarrow> bytes_of f' = bytes_of f"
    by (rule append_outcome [OF run [unfolded mbox_append_def Inr sum.case]])
      (auto intro: mailfile.write_record_got mailfile.write_record_safe)
  then show ?thesis
    using Inr by (cases res) (auto simp: rollback_failed_def mbox_error_class_def)
next
  case (Inl x)
  have any: "case res of Inr p \<Rightarrow> p = path \<and> bytes_of f' = bytes_of f @ t
    | Inl e \<Rightarrow> if ma_published e then bytes_of f' = bytes_of f @ t
        else ma_rollback e = None \<longrightarrow> bytes_of f' = bytes_of f" for t
    by (rule append_outcome [OF run [unfolded mbox_append_def Inl sum.case]])
      (auto intro: mailfile.safe_refl)
  from any [of "[]"] any [of "[LF]"] show ?thesis
    by (cases res) (auto simp: rollback_failed_def mbox_error_class_def split: if_splits)
qed

end

section \<open>A simulated mailbox\<close>

record sim_file =
  sf_bytes :: bytes
  sf_offset :: nat
  sf_faults :: "io_error option list"

definition sim_step :: "sim_file \<Rightarrow> sim_file \<times> unit io" where
  "sim_step f =
     (case sf_faults f of
        [] \<Rightarrow> (f, Inr ())
      | None # fs \<Rightarrow> (f\<lparr>sf_faults := fs\<rparr>, Inr ())
      | Some e # fs \<Rightarrow> (f\<lparr>sf_faults := fs\<rparr>, Inl e))"

definition sim_write :: "sim_file write_all" where
  "sim_write f bs =
     (case sim_step f of
        (f', r) \<Rightarrow>
          let new = (case r of Inl _ \<Rightarrow> take 1 bs | Inr _ \<Rightarrow> bs);
              all = take (sf_offset f) (sf_bytes f) @ new @ drop (sf_offset f + length new) (sf_bytes f)
          in (f'\<lparr>sf_bytes := all, sf_offset := sf_offset f + length new\<rparr>, r))"

definition sim_mbox :: "sim_file mbox_ops" where
  "sim_mbox =
     \<lparr>mo_seek_end = (\<lambda>f. case sim_step f of
          (f', Inl e) \<Rightarrow> (f', Inl e)
        | (f', Inr _) \<Rightarrow> (f'\<lparr>sf_offset := length (sf_bytes f)\<rparr>, Inr (length (sf_bytes f)))),
      mo_write = sim_write, mo_sync_file = sim_step, mo_sync_parent = sim_step,
      mo_truncate = (\<lambda>f n. case sim_step f of
          (f', Inl e) \<Rightarrow> (f', Inl e)
        | (f', Inr _) \<Rightarrow> (f'\<lparr>sf_bytes := take n (sf_bytes f)\<rparr>, Inr ())),
      mo_unlock = sim_step\<rparr>"

lemma sim_step_keeps: "sim_step f = (f', r) \<Longrightarrow> sf_bytes f' = sf_bytes f \<and> sf_offset f' = sf_offset f"
  by (auto simp: sim_step_def split: list.splits option.splits)

interpretation simbox: locked_file sim_mbox sf_bytes sf_offset
proof (unfold_locales, goal_cases)
  case (3 f bs f' r1)
  then show ?case
    by (auto simp: sim_mbox_def sim_write_def Let_def dest!: sim_step_keeps split: prod.splits sum.splits
        intro: exI [of _ "length bs"])
      (metis One_nat_def le_cases take_all_iff le_refl)
qed (auto simp: sim_mbox_def dest!: sim_step_keeps split: prod.splits sum.splits)

text \<open>
  C17. Appending to a mailbox is all or nothing.  When the append reports success, or an error after
  publication, the file is the old file followed by exactly one record of the message; when it reports
  an error before publication and the rollback worked, the file is byte for byte the old one; and a
  rollback that failed is always reported as an internal failure.
\<close>

theorem mbox_append_atomic:
  assumes laws: "locked_file ops bytes_of offset"
    and run: "mbox_append ops now f path (a, b) ending durability = (f', res)"
  shows "case res of
      Inr p \<Rightarrow> p = path \<and> (\<exists>mark. postmark_generated now = Inr mark \<and>
        bytes_of f' = bytes_of f @ record_text mark (a @ b) ending)
    | Inl e \<Rightarrow>
        if ma_published e then \<exists>mark. postmark_generated now = Inr mark \<and>
          bytes_of f' = bytes_of f @ record_text mark (a @ b) ending
        else if rollback_failed e then mbox_error_class e = Internal
        else bytes_of f' = bytes_of f"
  by (rule locked_file.mbox_append_outcome [OF laws run])

theorem mbox_append_atomic_witness:
  "\<exists>f' e. mbox_append sim_mbox 0 \<lparr>sf_bytes = ascii ''old'', sf_offset = 0,
       sf_faults = [None, None, Some (io_error_of Kind_StorageFull)]\<rparr> (ascii ''mbox'') (ascii ''hi'', []) Normalize
       Durability_None = (f', Inl e) \<and>
     \<not> ma_published e \<and> sf_bytes f' = ascii ''old''"
proof -
  let ?f = "\<lparr>sf_bytes = ascii ''old'', sf_offset = 0,
       sf_faults = [None, None, Some (io_error_of Kind_StorageFull)]\<rparr>"
  obtain mark where mark: "postmark_generated 0 = Inr mark" using postmark_generated_line [of 0] by auto
  have "\<exists>f' e. mbox_append sim_mbox 0 ?f (ascii ''mbox'') (ascii ''hi'', []) Normalize Durability_None = (f', Inl e) \<and>
      \<not> ma_published e \<and> \<not> rollback_failed e"
    by (simp add: mbox_append_def mark append_with_operations_def sim_mbox_def sim_step_def sim_write_def Let_def
        write_record_def record_loop.simps next_line_def take_line_def ascii_def needs_quote_def starts_with_def
        fail_append_def rollback_with_def mbox_before_publication_def rollback_failed_def)
  then show ?thesis
    using mbox_append_atomic [OF simbox.locked_file_axioms, of 0 ?f "ascii ''mbox''" "ascii ''hi''" "[]" Normalize Durability_None]
    by fastforce
qed

end
