(* ===== verification/Formail.thy ===== *)
theory Formail
  imports Mbox_Record
begin

text \<open>
  The tool \<open>formail-rs\<close>, \<open>src/bin/formail-rs.rs\<close>: its options, the order in which it edits a header, and
  the body filter that quotes lines looking like a mailbox separator.  Standard input is a reader of
  pieces and faults, standard output a writer; errors are the exit codes.  The time, the process
  number and the host name, from which message identifiers are made, are arguments.
\<close>

section \<open>Options\<close>

definition EX_USAGE :: nat where "EX_USAGE = 64"
definition EX_DATAERR :: nat where "EX_DATAERR = 65"
definition EX_SOFTWARE :: nat where "EX_SOFTWARE = 70"
definition EX_IOERR :: nat where "EX_IOERR = 74"

record formail_options =
  fo_force_format :: bool
  fo_escape_bogus :: bool
  fo_quote_prefix :: bytes
  fo_concatenate :: bool
  fo_zap :: bool
  fo_keep_body :: bool
  fo_rename_rules :: "(bytes \<times> bytes) list"
  fo_prefix_rules :: "bytes list"
  fo_delete_rules :: "bytes list"
  fo_unique_first :: "bytes list"
  fo_unique_last :: "bytes list"
  fo_add_if_not :: "bytes list"
  fo_add_always :: "bytes list"
  fo_extract_values :: "bytes list"
  fo_extract_fields :: "bytes list"

definition formail_default :: formail_options where
  "formail_default =
     \<lparr>fo_force_format = False, fo_escape_bogus = True, fo_quote_prefix = [GT], fo_concatenate = False, fo_zap = False,
      fo_keep_body = False, fo_rename_rules = [], fo_prefix_rules = [], fo_delete_rules = [], fo_unique_first = [],
      fo_unique_last = [], fo_add_if_not = [], fo_add_always = [], fo_extract_values = [], fo_extract_fields = []\<rparr>"

definition split_field_name_and_value :: "bytes \<Rightarrow> bytes \<times> bytes option" where
  "split_field_name_and_value field =
     (case position (\<lambda>b. b = COLON) field of
        None \<Rightarrow> (field, None)
      | Some colon \<Rightarrow>
          let val = drop (colon + 1) field
          in (take (colon + 1) field,
              if list_ex (\<lambda>b. b \<noteq> SP \<and> b \<noteq> TAB) (strip_line_ending val) then Some val else None))"

definition is_message_id_pattern :: "bytes \<Rightarrow> bool" where
  "is_message_id_pattern pattern =
     (let clean = (case strip_suffix pattern [COLON] of Some c \<Rightarrow> c | None \<Rightarrow> pattern)
      in eq_ignore_ascii_case clean (ascii ''Message-ID'') \<or> eq_ignore_ascii_case clean (ascii ''Resent-Message-ID''))"

definition generate_message_id :: "nat \<Rightarrow> nat \<Rightarrow> nat \<Rightarrow> bytes \<Rightarrow> bytes \<Rightarrow> bytes" where
  "generate_message_id now pid counter hostname pattern =
     (if starts_with (map to_ascii_lowercase pattern) (ascii ''resent-'') then ascii ''Resent-Message-ID'' else ascii ''Message-ID'') @
     ascii '': <'' @ decimal now @ ascii ''.'' @ decimal pid @ ascii ''.'' @ decimal counter @ ascii ''@'' @ hostname @
     ascii ''>'' @ [LF]"

text \<open>The value of an option: the rest of its word, or the next argument.\<close>

fun option_value :: "bytes \<Rightarrow> bytes list \<Rightarrow> nat + bytes \<times> bytes list" where
  "option_value (c # cs) args = Inr (c # cs, args)"
| "option_value [] (a # args) = Inr (a, args)"
| "option_value [] [] = Inl EX_USAGE"

definition add_rule :: "bytes \<Rightarrow> formail_options \<Rightarrow> formail_options" where
  "add_rule val opts =
     (if snd (split_field_name_and_value val) \<noteq> None then opts\<lparr>fo_add_always := fo_add_always opts @ [val]\<rparr> else opts)"

text \<open>One option with a value.\<close>

definition apply_value :: "byte \<Rightarrow> bytes \<Rightarrow> formail_options \<Rightarrow> nat + formail_options" where
  "apply_value c val opts =
     (if c = 112 then Inr (opts\<lparr>fo_quote_prefix := val\<rparr>)
      else if c = 120 then Inr (opts\<lparr>fo_extract_values := fo_extract_values opts @ [val]\<rparr>)
      else if c = 88 then Inr (opts\<lparr>fo_extract_fields := fo_extract_fields opts @ [val]\<rparr>)
      else if c = 117 then Inr (opts\<lparr>fo_unique_first := fo_unique_first opts @ [val]\<rparr>)
      else if c = 85 then Inr (opts\<lparr>fo_unique_last := fo_unique_last opts @ [val]\<rparr>)
      else if c = 65 then
        if COLON \<notin> set val then Inl EX_USAGE else Inr (opts\<lparr>fo_add_always := fo_add_always opts @ [val]\<rparr>)
      else if c = 97 then Inr (opts\<lparr>fo_add_if_not := fo_add_if_not opts @ [val]\<rparr>)
      else if c = 105 then
        Inr (add_rule val (opts\<lparr>fo_prefix_rules := fo_prefix_rules opts @ [fst (split_field_name_and_value val)]\<rparr>))
      else Inr (add_rule val (opts\<lparr>fo_delete_rules := fo_delete_rules opts @ [fst (split_field_name_and_value val)]\<rparr>)))"

text \<open>The letters of one word; \<open>None\<close> when help or version was printed.\<close>

fun parse_letters :: "bytes \<Rightarrow> bytes list \<Rightarrow> formail_options \<Rightarrow> nat + (formail_options \<times> bytes list) option" where
  "parse_letters [] args opts = Inr (Some (opts, args))"
| "parse_letters (c # cs) args opts =
     (if c = 102 then parse_letters cs args (opts\<lparr>fo_force_format := True\<rparr>)
      else if c = 98 then parse_letters cs args (opts\<lparr>fo_escape_bogus := False\<rparr>)
      else if c = 99 then parse_letters cs args (opts\<lparr>fo_concatenate := True\<rparr>)
      else if c = 122 then parse_letters cs args (opts\<lparr>fo_zap := True\<rparr>)
      else if c = 107 then parse_letters cs args (opts\<lparr>fo_keep_body := True\<rparr>)
      else if c = 104 \<or> c = 63 \<or> c = 118 then Inr None
      else if c \<in> set (ascii ''pxXuUAaiI'') then
        (case option_value cs args of
           Inl e \<Rightarrow> Inl e
         | Inr (val, args') \<Rightarrow> map_sum id (\<lambda>o'. Some (o', args')) (apply_value c val opts))
      else if c = 82 then
        (case option_value cs args of
           Inl e \<Rightarrow> Inl e
         | Inr (old, args') \<Rightarrow>
             (case args' of
                [] \<Rightarrow> Inl EX_USAGE
              | new # args'' \<Rightarrow> Inr (Some (opts\<lparr>fo_rename_rules := fo_rename_rules opts @ [(old, new)]\<rparr>, args''))))
      else Inl EX_USAGE)"

lemma option_value_shorter: "option_value cs args = Inr (val, args') \<Longrightarrow> length args' \<le> length args"
  by (cases "(cs, args)" rule: option_value.cases) auto

lemma parse_letters_shorter: "parse_letters cs args opts = Inr (Some (opts', args')) \<Longrightarrow> length args' \<le> length args"
proof (induction cs args opts rule: parse_letters.induct)
  case (2 c cs args opts)
  then show ?case
    by (auto split: if_splits sum.splits list.splits dest!: option_value_shorter) (auto simp: map_sum_def split: sum.splits)
qed simp

function parse_args :: "formail_options \<Rightarrow> bytes list \<Rightarrow> nat + formail_options option" where
  "parse_args opts [] = Inr (Some opts)"
| "parse_args opts (arg # args) =
     (if arg = ascii ''-h'' \<or> arg = ascii ''-?'' \<or> arg = ascii ''--help'' then Inr None
      else if arg = ascii ''-v'' \<or> arg = ascii ''--version'' then Inr None
      else if \<not> starts_with arg (ascii ''-'') \<or> arg = ascii ''-'' then Inl EX_USAGE
      else
        (case parse_letters (drop 1 arg) args opts of
           Inl e \<Rightarrow> Inl e
         | Inr None \<Rightarrow> Inr None
         | Inr (Some (opts', args')) \<Rightarrow> parse_args opts' args'))"
  by pat_completeness auto
termination
  by (relation "measure (\<lambda>(opts, args). length args)") (auto dest: parse_letters_shorter)

section \<open>The body filter\<close>

abbreviation FROM_TARGET :: bytes where "FROM_TARGET \<equiv> ascii ''From ''"

text \<open>Inside a line: everything up to and including the next line feed is written.\<close>

definition in_line :: "'w write_all \<Rightarrow> bytes \<Rightarrow> 'w \<Rightarrow> 'w \<times> (bool \<times> bytes) io" where
  "in_line wr rest w =
     (case position (\<lambda>b. b = LF) rest of
        Some pos \<Rightarrow>
          (case wr w (take (pos + 1) rest) of
             (w1, Inl e) \<Rightarrow> (w1, Inl e)
           | (w1, Inr _) \<Rightarrow> (w1, Inr (True, drop (pos + 1) rest)))
      | None \<Rightarrow>
          (case wr w rest of (w1, Inl e) \<Rightarrow> (w1, Inl e) | (w1, Inr _) \<Rightarrow> (w1, Inr (False, []))))"

lemma in_line_shorter: "in_line wr (b # bs) w = (w', Inr (at, rest)) \<Longrightarrow> length rest < length (b # bs)"
  by (auto simp: in_line_def split: option.splits prod.splits sum.splits)

function chunk_loop ::
    "'w write_all \<Rightarrow> bytes \<Rightarrow> bool \<Rightarrow> bytes \<Rightarrow> bytes \<Rightarrow> 'w \<Rightarrow> 'w \<times> (bool \<times> bytes) io" where
  "chunk_loop wr q at prefix_bytes [] w = (w, Inr (at, prefix_bytes))"
| "chunk_loop wr q at prefix_bytes (b # bs) w =
     (let non_quote = length (takeWhile (\<lambda>x. x = GT) prefix_bytes)
      in if at \<and> non_quote = length prefix_bytes \<and> b = GT \<and> length prefix_bytes < 1024 then
           chunk_loop wr q True (prefix_bytes @ [b]) bs w
         else if at \<and> \<not> (non_quote = length prefix_bytes \<and> b = GT) \<and>
             length prefix_bytes - non_quote < length FROM_TARGET \<and>
             b = FROM_TARGET ! (length prefix_bytes - non_quote) then
           if length (prefix_bytes @ [b]) - non_quote = length FROM_TARGET then
             (case wr w q of
                (w1, Inl e) \<Rightarrow> (w1, Inl e)
              | (w1, Inr _) \<Rightarrow>
                  (case wr w1 (prefix_bytes @ [b]) of
                     (w2, Inl e) \<Rightarrow> (w2, Inl e)
                   | (w2, Inr _) \<Rightarrow> chunk_loop wr q False [] bs w2))
           else chunk_loop wr q True (prefix_bytes @ [b]) bs w
         else
           (case (if at \<and> prefix_bytes \<noteq> [] then wr w prefix_bytes else (w, Inr ())) of
              (w1, Inl e) \<Rightarrow> (w1, Inl e)
            | (w1, Inr _) \<Rightarrow>
                (case in_line wr (b # bs) w1 of
                   (w2, Inl e) \<Rightarrow> (w2, Inl e)
                 | (w2, Inr (at2, rest)) \<Rightarrow> chunk_loop wr q at2 (if at then [] else prefix_bytes) rest w2)))"
  by pat_completeness auto
termination
  by (relation "measure (\<lambda>(wr, q, at, p, rest, w). length rest)") (auto dest!: in_line_shorter [OF sym])

fun escape_loop :: "'w write_all \<Rightarrow> bytes \<Rightarrow> bool \<Rightarrow> bytes \<Rightarrow> reader \<Rightarrow> 'w \<Rightarrow> 'w \<times> (nat + unit)" where
  "escape_loop wr q at prefix_bytes [] w =
     (if prefix_bytes \<noteq> [] then
        (case wr w prefix_bytes of (w1, Inl e) \<Rightarrow> (w1, Inl EX_IOERR) | (w1, Inr _) \<Rightarrow> (w1, Inr ()))
      else (w, Inr ()))"
| "escape_loop wr q at prefix_bytes (Fault e # r) w = (w, Inl EX_IOERR)"
| "escape_loop wr q at prefix_bytes (Data available # r) w =
     (if available = [] then escape_loop wr q at prefix_bytes [] w
      else
        (case chunk_loop wr q at prefix_bytes available w of
           (w1, Inl e) \<Rightarrow> (w1, Inl EX_IOERR)
         | (w1, Inr (at1, p1)) \<Rightarrow> escape_loop wr q at1 p1 r w1))"

text \<open>\<open>io::copy\<close>: interrupted reads are tried again.\<close>

fun copy_loop :: "'w write_all \<Rightarrow> reader \<Rightarrow> 'w \<Rightarrow> 'w \<times> (nat + unit)" where
  "copy_loop wr [] w = (w, Inr ())"
| "copy_loop wr (Fault e # r) w = (if ie_kind e = Kind_Interrupted then copy_loop wr r w else (w, Inl EX_IOERR))"
| "copy_loop wr (Data available # r) w =
     (if available = [] then (w, Inr ())
      else (case wr w available of (w1, Inl e) \<Rightarrow> (w1, Inl EX_IOERR) | (w1, Inr _) \<Rightarrow> copy_loop wr r w1))"

definition stream_body :: "'w write_all \<Rightarrow> reader \<Rightarrow> bool \<Rightarrow> bytes \<Rightarrow> 'w \<Rightarrow> 'w \<times> (nat + unit)" where
  "stream_body wr r escape_bogus quote_prefix w =
     (if \<not> escape_bogus then copy_loop wr r w else escape_loop wr quote_prefix True [] r w)"

section \<open>The run\<close>

definition header_edit :: "edited_header \<times> (header_edit_error + unit) \<Rightarrow> nat + edited_header" where
  "header_edit r = (case snd r of Inl e \<Rightarrow> Inl EX_DATAERR | Inr _ \<Rightarrow> Inr (fst r))"

fun edit_each :: "('a \<Rightarrow> edited_header \<Rightarrow> edited_header \<times> (header_edit_error + unit)) \<Rightarrow> 'a list \<Rightarrow> edited_header \<Rightarrow>
    nat + edited_header" where
  "edit_each f [] h = Inr h"
| "edit_each f (x # xs) h = (case header_edit (f x h) of Inl e \<Rightarrow> Inl e | Inr h' \<Rightarrow> edit_each f xs h')"

text \<open>Where message identifiers come from, and the number of the next one.\<close>

record id_source =
  id_now :: nat
  id_pid :: nat
  id_host :: bytes

fun add_missing :: "id_source \<Rightarrow> nat \<Rightarrow> bytes list \<Rightarrow> edited_header \<Rightarrow> nat + edited_header" where
  "add_missing ids counter [] h = Inr h"
| "add_missing ids counter (line # fields_left) h =
     (let (pattern, val) = split_field_name_and_value line
      in if \<not> eh_has_matching_pattern h pattern then
           if val = None \<and> is_message_id_pattern pattern then
             (case header_edit (add_raw_field (generate_message_id (id_now ids) (id_pid ids) counter (id_host ids) pattern) h) of
                Inl e \<Rightarrow> Inl e
              | Inr h' \<Rightarrow> add_missing ids (counter + 1) fields_left h')
           else (case header_edit (add_raw_field line h) of Inl e \<Rightarrow> Inl e | Inr h' \<Rightarrow> add_missing ids counter fields_left h')
         else add_missing ids counter fields_left h)"

definition edit_header :: "formail_options \<Rightarrow> id_source \<Rightarrow> edited_header \<Rightarrow> nat + edited_header" where
  "edit_header opts ids h0 =
     (case edit_each (\<lambda>(old, new) h. eh_rename_matching_pattern old new h) (fo_rename_rules opts) h0 of
        Inl e \<Rightarrow> Inl e
      | Inr h1 \<Rightarrow>
     (case edit_each (\<lambda>pattern h. eh_prepend_prefix_to_matching pattern (ascii ''Old-'') h) (fo_prefix_rules opts) h1 of
        Inl e \<Rightarrow> Inl e
      | Inr h2 \<Rightarrow>
          let h3 = foldl (\<lambda>h pattern. eh_remove_matching_pattern pattern h) h2 (fo_delete_rules opts);
              h4 = foldl (\<lambda>h pattern. eh_make_unique_first pattern h) h3 (fo_unique_first opts);
              h5 = foldl (\<lambda>h pattern. eh_make_unique_last pattern h) h4 (fo_unique_last opts)
          in
     (case add_missing ids 1 (fo_add_if_not opts) h5 of
        Inl e \<Rightarrow> Inl e
      | Inr h6 \<Rightarrow>
     (case edit_each add_raw_field (fo_add_always opts) h6 of
        Inl e \<Rightarrow> Inl e
      | Inr h7 \<Rightarrow>
     (case (if fo_concatenate opts then header_edit (concatenate_continued_fields h7) else Inr h7) of
        Inl e \<Rightarrow> Inl e
      | Inr h8 \<Rightarrow>
     (case (if fo_zap opts then header_edit (eh_zap_whitespace h8) else Inr h8) of
        Inl e \<Rightarrow> Inl e
      | Inr h9 \<Rightarrow> header_edit (finish 0 h9)))))))"

fun write_each :: "'w write_all \<Rightarrow> bytes list \<Rightarrow> 'w \<Rightarrow> 'w \<times> (nat + unit)" where
  "write_each wr [] w = (w, Inr ())"
| "write_each wr (b # bs) w = (case wr w b of (w', Inl e) \<Rightarrow> (w', Inl EX_IOERR) | (w', Inr _) \<Rightarrow> write_each wr bs w')"

definition is_extracting :: "formail_options \<Rightarrow> bool" where
  "is_extracting opts \<longleftrightarrow> fo_extract_values opts \<noteq> [] \<or> fo_extract_fields opts \<noteq> []"

definition extracted :: "formail_options \<Rightarrow> edited_header \<Rightarrow> bytes list" where
  "extracted opts h =
     concat (map (\<lambda>pattern. extract_fields h pattern False (fo_concatenate opts) (fo_zap opts)) (fo_extract_values opts)) @
     concat (map (\<lambda>pattern. extract_fields h pattern True (fo_concatenate opts) (fo_zap opts)) (fo_extract_fields opts))"

text \<open>The pieces written before the body: the postmark, the header and a line feed to end it.\<close>

definition header_output :: "formail_options \<Rightarrow> int \<Rightarrow> edited_header \<Rightarrow> nat + bytes list" where
  "header_output opts time h =
     (let has_from = (field_count h > 0 \<and> starts_with (f_bytes (store_field (store (storage h)) 0)) (ascii ''From ''));
          header = fst (as_bytes h);
          sep_line = (if \<not> ends_with header [LF, LF] \<and> \<not> ends_with header [CR, LF, CR, LF] then [[LF]] else [])
      in if \<not> has_from \<and> \<not> fo_force_format opts then
           (case postmark_generated time of
              Inl e \<Rightarrow> Inl EX_SOFTWARE
            | Inr mark \<Rightarrow> Inr ([mark, header] @ sep_line))
         else Inr ([header] @ sep_line))"

definition formail_run ::
    "'w write_all \<Rightarrow> bytes list \<Rightarrow> id_source \<Rightarrow> int \<Rightarrow> reader \<Rightarrow> 'w \<Rightarrow> 'w \<times> (nat + unit)" where
  "formail_run wr args ids time r w =
     (case parse_args formail_default args of
        Inl e \<Rightarrow> (w, Inl e)
      | Inr None \<Rightarrow> (w, Inr ())
      | Inr (Some opts) \<Rightarrow>
     (case read_headers message_limits_default r of
        Inl e \<Rightarrow> (w, Inl EX_DATAERR)
      | Inr (head, r1) \<Rightarrow>
     (case eh_new (View_Raw (head_as_bytes head)) message_limits_default of
        Inl e \<Rightarrow> (w, Inl EX_DATAERR)
      | Inr h0 \<Rightarrow>
     (case edit_header opts ids h0 of
        Inl e \<Rightarrow> (w, Inl e)
      | Inr h \<Rightarrow>
          if is_extracting opts then
            (case write_each wr (extracted opts h @ (if fo_keep_body opts then [[LF]] else [])) w of
               (w1, Inl e) \<Rightarrow> (w1, Inl e)
             | (w1, Inr _) \<Rightarrow>
                 if fo_keep_body opts then stream_body wr r1 (fo_escape_bogus opts) (fo_quote_prefix opts) w1
                 else (w1, Inr ()))
          else
            (case header_output opts time h of
               Inl e \<Rightarrow> (w, Inl e)
             | Inr blocks \<Rightarrow>
                 (case write_each wr blocks w of
                    (w1, Inl e) \<Rightarrow> (w1, Inl e)
                  | (w1, Inr _) \<Rightarrow> stream_body wr r1 (fo_escape_bogus opts) (fo_quote_prefix opts) w1))))))"

section \<open>What the filter writes\<close>

text \<open>A line is quoted when it has at most 1024 leading \<open>>\<close> and \<open>From \<close> after them.\<close>

definition bogus :: "bytes \<Rightarrow> bool" where
  "bogus l \<longleftrightarrow> length (takeWhile (\<lambda>x. x = GT) l) \<le> 1024 \<and> starts_with (dropWhile (\<lambda>x. x = GT) l) FROM_TARGET"

definition escape_line :: "bytes \<Rightarrow> bytes \<Rightarrow> bytes" where
  "escape_line q l = (if bogus l then q @ l else l)"

definition escaped_text :: "bytes \<Rightarrow> bytes \<Rightarrow> bytes" where
  "escaped_text q bs = concat (map (escape_line q) (lines_of bs))"

lemma escaped_step: "bs \<noteq> [] \<Longrightarrow> escaped_text q bs = escape_line q (first_line bs) @ escaped_text q (drop (length (first_line bs)) bs)"
  by (simp add: escaped_text_def lines_of_step)

lemma escaped_Nil [simp]: "escaped_text q [] = []"
  by (simp add: escaped_text_def)

text \<open>What is still to be written of a text, in the middle of a line and after the start of a line.\<close>

definition line_rest :: "bytes \<Rightarrow> bytes \<Rightarrow> bytes" where
  "line_rest q bs = first_line bs @ escaped_text q (drop (length (first_line bs)) bs)"

fun to_write :: "bytes \<Rightarrow> bool \<Rightarrow> bytes \<Rightarrow> bytes \<Rightarrow> bytes" where
  "to_write q True p rest = escaped_text q (p @ rest)"
| "to_write q False p rest = line_rest q rest"

text \<open>The prefixes that are held back: \<open>>\<close> up to the bound, then a beginning of \<open>From \<close>.\<close>

definition held :: "bytes \<Rightarrow> bool" where
  "held p \<longleftrightarrow> (\<exists>a m. a \<le> 1024 \<and> m < 5 \<and> p = replicate a GT @ take m FROM_TARGET)"

definition filter_state :: "bool \<Rightarrow> bytes \<Rightarrow> bool" where
  "filter_state at p \<longleftrightarrow> (if at then held p else p = [])"

lemma held_Nil [simp]: "held []"
  unfolding held_def by (intro exI [of _ 0]) simp

lemma from_not_gt: "\<forall>x \<in> set FROM_TARGET. x \<noteq> GT"
  by simp

lemma takeWhile_quotes:
  assumes "\<forall>x \<in> set y. x \<noteq> GT"
  shows "takeWhile (\<lambda>x. x = GT) (replicate a GT @ y) = replicate a GT"
    and "dropWhile (\<lambda>x. x = GT) (replicate a GT @ y) = y"
  using assms by (induction a; cases y; auto)+

lemma held_parts:
  assumes "a \<le> 1024" "m < 5" "p = replicate a GT @ take m FROM_TARGET"
  shows "length (takeWhile (\<lambda>x. x = GT) p) = a" "length p = a + m" "LF \<notin> set p"
proof -
  have t: "\<forall>x \<in> set (take m FROM_TARGET). x \<noteq> GT" using from_not_gt by (meson in_set_takeD)
  show "length (takeWhile (\<lambda>x. x = GT) p) = a" using takeWhile_quotes(1) [OF t] assms by simp
  show "length p = a + m" using assms by simp
  have "LF \<notin> set FROM_TARGET" by simp
  then show "LF \<notin> set p" using assms(3) by (auto dest: in_set_takeD)
qed

lemma line_after:
  assumes "LF \<notin> set p" "p \<noteq> []"
  shows "escaped_text q (p @ rest) = escape_line q (p @ first_line rest) @ escaped_text q (drop (length (first_line rest)) rest)"
  using assms escaped_step [of "p @ rest" q] by (simp add: first_line_pieces(1))

lemma bogus_full: "a \<le> 1024 \<Longrightarrow> bogus (replicate a GT @ FROM_TARGET @ x)"
  using takeWhile_quotes [of "FROM_TARGET @ x" a]
  by (cases a) (auto simp: bogus_def starts_with_def takeWhile_append dropWhile_append)

lemma quotes_split:
  assumes "y = [] \<or> hd y \<noteq> GT"
  shows "takeWhile (\<lambda>x. x = GT) (replicate a GT @ y) = replicate a GT"
    and "dropWhile (\<lambda>x. x = GT) (replicate a GT @ y) = y"
  using assms by (induction a; cases y; auto)+

lemma not_bogus_held:
  assumes "a \<le> 1024" "m < 5" "p = replicate a GT @ take m FROM_TARGET"
  shows "\<not> bogus p"
proof -
  have t: "\<forall>x \<in> set (take m FROM_TARGET). x \<noteq> GT" using from_not_gt by (meson in_set_takeD)
  have "dropWhile (\<lambda>x. x = GT) p = take m FROM_TARGET" using takeWhile_quotes(2) [OF t] assms(3) by simp
  then show ?thesis using assms(2) by (auto simp: bogus_def starts_with_def dest: arg_cong [of _ _ length])
qed

lemma starts_with_nth: "starts_with xs p \<Longrightarrow> i < length p \<Longrightarrow> xs ! i = p ! i"
  by (metis nth_take starts_with_def)

lemma not_bogus_mismatch:
  assumes "a \<le> 1024" "m < 5" and "\<not> (m = 0 \<and> b = GT \<and> a < 1024)" "m = 0 \<and> b = GT \<or> b \<noteq> FROM_TARGET ! m"
  shows "\<not> bogus (replicate a GT @ take m FROM_TARGET @ b # x)"
proof (cases "m = 0 \<and> b = GT")
  case True
  then have a: "1024 \<le> a" using assms by simp
  have eq: "replicate a GT @ take m FROM_TARGET @ b # x = replicate (Suc a) GT @ x"
    using True by (simp add: replicate_app_Cons_same)
  have "Suc a \<le> length (takeWhile (\<lambda>x. x = GT) (replicate (Suc a) GT @ x))"
    by (subst takeWhile_append2) (auto simp del: replicate.simps)
  then show ?thesis using a unfolding bogus_def eq by linarith
next
  case False
  then have b: "b \<noteq> FROM_TARGET ! m" using assms(4) by blast
  let ?y = "take m FROM_TARGET @ b # x"
  have hd: "hd ?y \<noteq> GT" using False by (cases m) (auto simp: hd_append)
  have drop: "dropWhile (\<lambda>x. x = GT) (replicate a GT @ ?y) = ?y" using quotes_split(2) [of ?y a] hd by blast
  have "?y ! m = b" using assms(2) by (simp add: nth_append)
  moreover have "starts_with ?y FROM_TARGET \<Longrightarrow> ?y ! m = FROM_TARGET ! m"
    by (rule starts_with_nth) (use assms(2) in simp_all)
  ultimately show ?thesis using b drop unfolding bogus_def by metis
qed

lemma mismatch_text:
  assumes "a \<le> 1024" "m < 5" "p = replicate a GT @ take m FROM_TARGET"
    and "\<not> (m = 0 \<and> b = GT \<and> a < 1024)" "m = 0 \<and> b = GT \<or> b \<noteq> FROM_TARGET ! m"
  shows "escaped_text q (p @ b # rest) = p @ line_rest q (b # rest)"
proof -
  let ?l = "p @ first_line (b # rest)"
  have fl: "first_line (p @ b # rest) = ?l" by (rule first_line_pieces(1)) (rule held_parts(3) [OF assms(1-3)])
  obtain x where x: "first_line (b # rest) = b # x" by (cases "b = LF") (auto simp: first_line_cons)
  have "\<not> bogus ?l" using not_bogus_mismatch [OF assms(1,2,4,5)] unfolding x assms(3) by simp
  then show ?thesis
    using escaped_step [of "p @ b # rest" q] by (simp add: fl escape_line_def line_rest_def)
qed

lemma full_text:
  assumes "a \<le> 1024" "p = replicate a GT @ take 4 FROM_TARGET"
  shows "escaped_text q (p @ SP # rest) = q @ p @ [SP] @ line_rest q rest"
proof -
  have p: "p @ [SP] = replicate a GT @ FROM_TARGET" using assms(2) by simp
  have noLF: "LF \<notin> set (p @ [SP])" unfolding p by auto
  have "bogus ((p @ [SP]) @ first_line rest)" unfolding p using bogus_full [OF assms(1)] by simp
  then show ?thesis
    using line_after [OF noLF, of q rest] by (simp add: escape_line_def line_rest_def)
qed

lemma line_rest_pieces:
  "position (\<lambda>b. b = LF) u = Some i \<Longrightarrow> line_rest q (u @ t) = take (i + 1) u @ escaped_text q (drop (i + 1) u @ t)"
  "position (\<lambda>b. b = LF) u = None \<Longrightarrow> line_rest q (u @ t) = u @ line_rest q t"
proof -
  show "line_rest q (u @ t) = take (i + 1) u @ escaped_text q (drop (i + 1) u @ t)"
    if "position (\<lambda>b. b = LF) u = Some i"
    using first_line_pieces(2) [OF that, of t] position_SomeD(1) [OF that] by (simp add: line_rest_def min_def)
  show "line_rest q (u @ t) = u @ line_rest q t" if "position (\<lambda>b. b = LF) u = None"
  proof -
    have "LF \<notin> set u" using that by (auto simp: position_None_iff)
    then show ?thesis using first_line_pieces(1) [of u t] by (simp add: line_rest_def)
  qed
qed

context total_writer
begin

lemma in_line_text:
  "\<exists>u at2 rest. in_line wr bs w = (app w u, Inr (at2, rest)) \<and> (\<forall>t. line_rest q (bs @ t) = u @ to_write q at2 [] (rest @ t)) \<and>
     filter_state at2 [] \<and> (at2 = False \<longrightarrow> rest = [])"
proof (cases "position (\<lambda>b. b = LF) bs")
  case None
  then show ?thesis by (auto simp: in_line_def writes line_rest_pieces(2) filter_state_def)
next
  case (Some i)
  then show ?thesis by (auto simp: in_line_def writes line_rest_pieces(1) filter_state_def)
qed

lemma chunk_loop_text:
  "filter_state at p \<Longrightarrow> \<exists>out at' p'. chunk_loop wr q at p bs w = (app w out, Inr (at', p')) \<and> filter_state at' p' \<and>
     (\<forall>t. to_write q at p (bs @ t) = out @ to_write q at' p' t)"
proof (induction "length bs" arbitrary: at p bs w rule: less_induct)
  case less
  show ?case
  proof (cases bs)
    case Nil
    then show ?thesis using less.prems by (intro exI [of _ "[]"]) (simp add: app_Nil)
  next
    case (Cons b rest)
    have flush: "\<exists>out at' p'. chunk_loop wr q at p bs w = (app w out, Inr (at', p')) \<and> filter_state at' p' \<and>
        (\<forall>t. to_write q at p (bs @ t) = out @ to_write q at' p' t)"
      if run: "chunk_loop wr q at p bs w =
          (case in_line wr bs (app w p) of
             (w2, Inl e) \<Rightarrow> (w2, Inl e) | (w2, Inr (at2, r2)) \<Rightarrow> chunk_loop wr q at2 [] r2 w2)"
        and whole: "\<And>t. to_write q at p (bs @ t) = p @ line_rest q (bs @ t)"
    proof -
      obtain u at2 r2 where il: "in_line wr bs (app w p) = (app (app w p) u, Inr (at2, r2))"
        "\<And>t. line_rest q (bs @ t) = u @ to_write q at2 [] (r2 @ t)" "filter_state at2 []"
        using in_line_text [of bs "app w p" q] by blast
      have "length r2 < length bs" unfolding Cons by (rule in_line_shorter [OF il(1) [unfolded Cons]])
      then obtain out at' p' where IH: "chunk_loop wr q at2 [] r2 (app (app w p) u) = (app (app (app w p) u) out, Inr (at', p'))"
        "filter_state at' p'" "\<And>t. to_write q at2 [] (r2 @ t) = out @ to_write q at' p' t"
        using less.hyps [of r2 at2 "[]" "app (app w p) u"] il(3) by blast
      have "chunk_loop wr q at p bs w = (app w (p @ u @ out), Inr (at', p'))"
        unfolding run il(1) using IH(1) by (simp add: app_append)
      moreover have "to_write q at p (bs @ t) = (p @ u @ out) @ to_write q at' p' t" for t
        using IH(3) [of t] il(2) [of t] whole [of t] by simp
      ultimately show ?thesis using IH(2) by blast
    qed
    have keep: "\<exists>out at' p'. chunk_loop wr q at p bs w = (app w out, Inr (at', p')) \<and> filter_state at' p' \<and>
        (\<forall>t. to_write q at p (bs @ t) = out @ to_write q at' p' t)"
      if run: "chunk_loop wr q at p bs w = chunk_loop wr q True (p @ [b]) rest w" and hp: "held (p @ [b])" and on: "at"
    proof -
      obtain out at' p' where "chunk_loop wr q True (p @ [b]) rest w = (app w out, Inr (at', p'))" "filter_state at' p'"
        "\<And>t. to_write q True (p @ [b]) (rest @ t) = out @ to_write q at' p' t"
        using less.hyps [of rest True "p @ [b]" w] hp Cons by (auto simp: filter_state_def)
      then show ?thesis using run on Cons by auto
    qed
    show ?thesis
    proof (cases "at")
      case False
      then have "p = []" using less.prems by (simp add: filter_state_def)
      then show ?thesis using flush False Cons by (simp add: app_Nil)
    next
      case True
      then obtain a m where am: "a \<le> 1024" "m < 5" "p = replicate a GT @ take m FROM_TARGET"
        using less.prems by (auto simp: filter_state_def held_def)
      note parts = held_parts [OF am]
      consider (quote) "m = 0" "b = GT" "a < 1024"
        | (match) "\<not> (m = 0 \<and> b = GT)" "b = FROM_TARGET ! m" "m < 4"
        | (full) "b = SP" "m = 4"
        | (other) "\<not> (m = 0 \<and> b = GT \<and> a < 1024)" "m = 0 \<and> b = GT \<or> b \<noteq> FROM_TARGET ! m"
        using am(1,2) by (cases "m = 4") force+
      then show ?thesis
      proof cases
        case quote
        have "p @ [b] = replicate (Suc a) GT @ take 0 FROM_TARGET"
          using quote am(3) by (simp add: replicate_append_same)
        then have "held (p @ [b])" using quote(3) unfolding held_def by (intro exI [of _ "Suc a"] exI [of _ 0]) simp
        moreover have "chunk_loop wr q at p bs w = chunk_loop wr q True (p @ [b]) rest w"
          using Cons True quote parts by simp
        ultimately show ?thesis using keep True by blast
      next
        case match
        have "take (Suc m) FROM_TARGET = take m FROM_TARGET @ [FROM_TARGET ! m]"
          by (rule take_Suc_conv_app_nth) (use match(3) in simp)
        then have "p @ [b] = replicate a GT @ take (Suc m) FROM_TARGET" unfolding am(3) match(2) by (simp only: append_assoc)
        then have "held (p @ [b])" using match(3) am(1) unfolding held_def by (intro exI [of _ a] exI [of _ "Suc m"]) simp
        moreover have "chunk_loop wr q at p bs w = chunk_loop wr q True (p @ [b]) rest w"
          using Cons True match parts by (simp add: Let_def)
        ultimately show ?thesis using keep True by blast
      next
        case full
        have run: "chunk_loop wr q at p bs w = chunk_loop wr q False [] rest (app (app w q) (p @ [b]))"
          using Cons True full parts by (simp add: Let_def writes)
        obtain out at' p' where IH: "chunk_loop wr q False [] rest (app (app w q) (p @ [b])) =
            (app (app (app w q) (p @ [b])) out, Inr (at', p'))" "filter_state at' p'"
          "\<And>t. to_write q False [] (rest @ t) = out @ to_write q at' p' t"
          using less.hyps [of rest False "[]" "app (app w q) (p @ [b])"] Cons by (auto simp: filter_state_def)
        have "to_write q at p (bs @ t) = (q @ p @ [b] @ out) @ to_write q at' p' t" for t
          using full_text [of a p q "rest @ t"] full am IH(3) [of t] Cons True by simp
        moreover have "app (app (app w q) (p @ [b])) out = app w (q @ p @ [b] @ out)"
          by (simp only: app_append append_assoc)
        ultimately show ?thesis using run IH(1,2) by metis
      next
        case other
        have "chunk_loop wr q at p bs w =
            (case in_line wr bs (app w p) of
               (w2, Inl e) \<Rightarrow> (w2, Inl e) | (w2, Inr (at2, r2)) \<Rightarrow> chunk_loop wr q at2 [] r2 w2)"
          using Cons True other parts by (auto simp: Let_def writes app_Nil)
        moreover have "to_write q at p (bs @ t) = p @ line_rest q (bs @ t)" for t
          using mismatch_text [OF am other, of q "rest @ t"] Cons True by simp
        ultimately show ?thesis by (rule flush)
      qed
    qed
  qed
qed

lemma escape_loop_text:
  "steady r \<Longrightarrow> filter_state at p \<Longrightarrow> escape_loop wr q at p r w = (app w (to_write q at p (text_of r)), Inr ())"
proof (induction r arbitrary: at p w)
  case Nil
  show ?case
  proof (cases "at \<and> p \<noteq> []")
    case True
    then obtain a m where am: "a \<le> 1024" "m < 5" "p = replicate a GT @ take m FROM_TARGET"
      using Nil by (auto simp: filter_state_def held_def)
    have "lines_of p = [p]"
      using True held_parts(3) [OF am] lines_of_step [of p] by (simp add: first_line_no_LF)
    then show ?thesis using True not_bogus_held [OF am] by (simp add: escaped_text_def escape_line_def writes)
  next
    case False
    then show ?thesis using Nil by (cases "at") (auto simp: filter_state_def line_rest_def app_Nil)
  qed
next
  case (Cons i r)
  obtain bs where i: "i = Data bs" "bs \<noteq> []" "steady r" using Cons.prems(1) by (cases i) auto
  obtain out at' p' where c: "chunk_loop wr q at p bs w = (app w out, Inr (at', p'))" "filter_state at' p'"
    "\<And>t. to_write q at p (bs @ t) = out @ to_write q at' p' t"
    using chunk_loop_text [OF Cons.prems(2), of q bs w] by blast
  show ?case using Cons.IH [OF i(3) c(2)] i c by (simp add: app_append)
qed

lemma copy_loop_text: "steady r \<Longrightarrow> copy_loop wr r w = (app w (text_of r), Inr ())"
proof (induction r arbitrary: w)
  case (Cons i r)
  then show ?case by (cases i) (auto simp: writes app_append)
qed (simp add: app_Nil)

lemma stream_body_text:
  "steady r \<Longrightarrow> stream_body wr r escape q w =
     (app w (if escape then escaped_text q (text_of r) else text_of r), Inr ())"
  by (simp add: stream_body_def copy_loop_text escape_loop_text filter_state_def)

end

lemma escaped_quoted:
  assumes "\<forall>l \<in> set (lines_of bs). length (takeWhile (\<lambda>x. x = GT) l) \<le> 1024"
  shows "escaped_text [GT] bs = quoted bs"
  using assms unfolding escaped_text_def quoted_def
  by (intro arg_cong [of _ _ concat] map_cong refl) (simp add: escape_line_def quote_line_def bogus_def needs_quote_def
      dropWhile_eq_drop starts_with_def eval_nat_numeral del: takeWhile_eq_Nil_iff)

text \<open>
  C36. The body filter of \<open>formail-rs\<close>, over every cut of its input into pieces: without escaping it copies the
  body, and with escaping it puts the quotation prefix before every line that has at most 1024
  leading \<open>>\<close> and \<open>From \<close> after them, and changes nothing else.  With the default prefix and no
  line beyond that bound this is the quoting of the mailbox delivery.
\<close>

theorem formail_body_filter:
  assumes "steady r"
  shows "stream_body vec_write r escape q w =
      (w @ (if escape then concat (map (escape_line q) (lines_of (text_of r))) else text_of r), Inr ()) \<and>
    ((\<forall>l \<in> set (lines_of (text_of r)). length (takeWhile (\<lambda>x. x = GT) l) \<le> 1024) \<longrightarrow>
       stream_body vec_write r True [GT] w = (w @ quoted (text_of r), Inr ()))"
  using vw.stream_body_text [OF assms] escaped_quoted [of "text_of r"] by (simp add: escaped_text_def)

theorem formail_body_filter_witness:
  "stream_body vec_write [Data (ascii ''>Fr''), Data (ascii ''om x'')] True [GT] [] = (ascii ''>>From x'', Inr ())"
proof -
  let ?r = "[Data (ascii ''>Fr''), Data (ascii ''om x'')]"
  have "lines_of (text_of ?r) = [ascii ''>From x'']"
    by (simp add: lines_of_step first_line_cons)
  then show ?thesis
    using formail_body_filter [of ?r True "[GT]" "[]"] by (simp add: escape_line_def bogus_def)
qed

end
