(* ===== verification/Shell_Pattern.thy ===== *)
theory Shell_Pattern
  imports Prelude
begin

text \<open>
  Shell patterns, \<open>src/config/shell_pattern.rs\<close>: the tokeniser, the step ceiling and the automaton that
  finds the shortest or longest matching prefix or suffix.  The automaton keeps a row of flags, one
  per position in the pattern, as the source does; \<open>pattern_match\<close> is the meaning of a pattern, and
  the theorem on \<open>remove_pattern\<close> says that the row computes it.
\<close>

section \<open>Data\<close>

definition MAX_PATTERN_STEPS :: usize where "MAX_PATTERN_STEPS = 16 * 1024 * 1024"

datatype edge = Edge_Prefix | Edge_Suffix
datatype selection = Shortest | Longest
datatype pattern_error = TooComplex usize

record byte_class =
  bc_negated :: bool
  bc_ranges :: "(byte \<times> byte) list"

datatype pattern_token = PatLiteral byte | AnyByte | AnyBytes | PatClass byte_class

definition class_matches :: "byte_class \<Rightarrow> byte \<Rightarrow> bool" where
  "class_matches c b \<longleftrightarrow> list_ex (\<lambda>(lo, hi). lo \<le> b \<and> b \<le> hi) (bc_ranges c) \<noteq> bc_negated c"

section \<open>Tokeniser\<close>

function class_bytes :: "bytes \<Rightarrow> nat \<Rightarrow> (byte \<times> bool) list \<Rightarrow> (byte \<times> bool) list \<times> nat" where
  "class_bytes pattern index acc =
     (if index < length pattern \<and> pattern ! index \<noteq> 93 then
        if pattern ! index = BACKSLASH \<and> index + 1 < length pattern
        then class_bytes pattern (index + 2) (acc @ [(pattern ! (index + 1), True)])
        else class_bytes pattern (index + 1) (acc @ [(pattern ! index, False)])
      else (acc, index))"
  by pat_completeness auto
termination by (relation "measure (\<lambda>(pattern, index, acc). length pattern - index)") auto

declare class_bytes.simps [simp del]

function class_ranges :: "(byte \<times> bool) list \<Rightarrow> nat \<Rightarrow> (byte \<times> byte) list \<Rightarrow> (byte \<times> byte) list" where
  "class_ranges bs item ranges =
     (if item < length bs then
        if item + 2 < length bs \<and> bs ! (item + 1) = (45, False)
        then class_ranges bs (item + 3) (ranges @ [(fst (bs ! item), fst (bs ! (item + 2)))])
        else class_ranges bs (item + 1) (ranges @ [(fst (bs ! item), fst (bs ! item))])
      else ranges)"
  by pat_completeness auto
termination by (relation "measure (\<lambda>(bs, item, ranges). length bs - item)") auto

declare class_ranges.simps [simp del]

definition parse_class :: "bytes \<Rightarrow> nat \<Rightarrow> (byte_class \<times> nat) option" where
  "parse_class pattern start =
     (let negated = (get pattern start = Some 33 \<or> get pattern start = Some 94);
          index = (if negated then start + 1 else start);
          (acc, index) = (if get pattern index = Some 93 then ([(93, False)], index + 1) else ([], index));
          (bs, index) = class_bytes pattern index acc
      in if index = length pattern \<or> bs = [] then None
         else Some (\<lparr>bc_negated = negated, bc_ranges = class_ranges bs 0 []\<rparr>, index + 1))"

lemma class_bytes_advances: "class_bytes pattern index acc = (bs, n) \<Longrightarrow> index \<le> n"
proof (induction pattern index acc arbitrary: bs n rule: class_bytes.induct)
  case (1 pattern index acc)
  then show ?case by (subst (asm) (3) class_bytes.simps) (fastforce split: if_splits)
qed

lemma parse_class_advances: "parse_class pattern start = Some (c, n) \<Longrightarrow> start < n"
  by (auto simp: parse_class_def Let_def dest!: class_bytes_advances split: prod.splits if_splits)

function tokenize_loop :: "bytes \<Rightarrow> nat \<Rightarrow> pattern_token list \<Rightarrow> pattern_token list" where
  "tokenize_loop pattern index tokens =
     (if index < length pattern then
        let b = pattern ! index
        in if b = BACKSLASH then
             if index + 1 < length pattern
             then tokenize_loop pattern (index + 2) (tokens @ [PatLiteral (pattern ! (index + 1))])
             else tokenize_loop pattern (index + 1) (tokens @ [PatLiteral BACKSLASH])
           else if b = 42 then
             tokenize_loop pattern (index + 1)
               (if last_opt tokens = Some AnyBytes then tokens else tokens @ [AnyBytes])
           else if b = 63 then tokenize_loop pattern (index + 1) (tokens @ [AnyByte])
           else if b = 91 then
             (case parse_class pattern (index + 1) of
                Some (c, n) \<Rightarrow> tokenize_loop pattern n (tokens @ [PatClass c])
              | None \<Rightarrow> tokenize_loop pattern (index + 1) (tokens @ [PatLiteral 91]))
           else tokenize_loop pattern (index + 1) (tokens @ [PatLiteral b])
      else tokens)"
  by pat_completeness auto
termination
  by (relation "measure (\<lambda>(pattern, index, tokens). length pattern - index)")
    (auto dest!: parse_class_advances)

declare tokenize_loop.simps [simp del]

definition tokenize :: "bytes \<Rightarrow> pattern_token list" where
  "tokenize pattern = tokenize_loop pattern 0 []"

section \<open>The automaton\<close>

definition token_cost :: "pattern_token \<Rightarrow> usize" where
  "token_cost t = (case t of PatClass c \<Rightarrow> max (length (bc_ranges c)) 1 | _ \<Rightarrow> 1)"

definition check_steps :: "usize \<Rightarrow> usize \<Rightarrow> pattern_token list \<Rightarrow> pattern_error + unit" where
  "check_steps candidates input_len tokens =
     (let cost = foldl (\<lambda>total t. saturating_add total (token_cost t)) 0 tokens;
          attempted = Option.bind (checked_mul candidates (saturating_add input_len 1))
            (\<lambda>total. checked_mul total (max cost 1))
      in case attempted of
           None \<Rightarrow> Inl (TooComplex usize_max)
         | Some steps \<Rightarrow> if steps > MAX_PATTERN_STEPS then Inl (TooComplex steps) else Inr ())"

fun close_stars :: "nat \<Rightarrow> pattern_token list \<Rightarrow> bool list \<Rightarrow> bool list" where
  "close_stars index [] states = states"
| "close_stars index (t # ts) states =
     close_stars (index + 1) ts (if states ! index \<and> t = AnyBytes then states[index + 1 := True] else states)"

definition token_matches :: "pattern_token \<Rightarrow> byte \<Rightarrow> bool" where
  "token_matches t b = (case t of PatLiteral x \<Rightarrow> x = b | AnyByte \<Rightarrow> True | PatClass c \<Rightarrow> class_matches c b | AnyBytes \<Rightarrow> True)"

fun step_tokens :: "nat \<Rightarrow> pattern_token list \<Rightarrow> byte \<Rightarrow> bool list \<Rightarrow> bool list \<Rightarrow> bool list" where
  "step_tokens index [] b states nxt = nxt"
| "step_tokens index (t # ts) b states nxt =
     step_tokens (index + 1) ts b states
       (if \<not> states ! index then nxt
        else if t = AnyBytes then nxt[index := True]
        else if token_matches t b then nxt[index + 1 := True]
        else nxt)"

fun endpoint_loop ::
    "pattern_token list \<Rightarrow> selection \<Rightarrow> nat \<Rightarrow> bytes \<Rightarrow> bool list \<Rightarrow> nat option \<Rightarrow> nat option" where
  "endpoint_loop tokens sel offset [] states matched = matched"
| "endpoint_loop tokens sel offset (b # bs) states matched =
     (let nxt = close_stars 0 tokens (step_tokens 0 tokens b states (replicate (length tokens + 1) False))
      in if nxt ! length tokens then
           if sel = Shortest then Some (offset + 1)
           else endpoint_loop tokens sel (offset + 1) bs nxt (Some (offset + 1))
         else endpoint_loop tokens sel (offset + 1) bs nxt matched)"

definition matching_endpoint_unchecked :: "bytes \<Rightarrow> pattern_token list \<Rightarrow> selection \<Rightarrow> nat option" where
  "matching_endpoint_unchecked input tokens sel =
     (let states = close_stars 0 tokens ((replicate (length tokens + 1) False)[0 := True]);
          matched = (if states ! length tokens then Some 0 else None)
      in if matched \<noteq> None \<and> sel = Shortest then matched
         else endpoint_loop tokens sel 0 input states matched)"

definition matching_endpoint :: "bytes \<Rightarrow> usize \<Rightarrow> pattern_token list \<Rightarrow> selection \<Rightarrow> pattern_error + nat option" where
  "matching_endpoint input input_len tokens sel =
     (case check_steps 1 input_len tokens of
        Inl e \<Rightarrow> Inl e
      | Inr _ \<Rightarrow> Inr (matching_endpoint_unchecked input tokens sel))"

definition remove_pattern :: "bytes \<Rightarrow> bytes \<Rightarrow> edge \<Rightarrow> selection \<Rightarrow> pattern_error + bytes" where
  "remove_pattern v pattern edge sel =
     (let reversed = (edge = Edge_Suffix);
          tokens = (if reversed then rev (tokenize pattern) else tokenize pattern);
          input = (if reversed then rev v else v)
      in case matching_endpoint input (length v) tokens sel of
           Inl e \<Rightarrow> Inl e
         | Inr None \<Rightarrow> Inr v
         | Inr (Some n) \<Rightarrow> Inr (if edge = Edge_Prefix then drop n v else take (length v - n) v))"

definition transform_matching_bytes ::
    "bytes \<Rightarrow> bytes \<Rightarrow> bool \<Rightarrow> (byte \<Rightarrow> byte) \<Rightarrow> pattern_error + bytes" where
  "transform_matching_bytes v pattern all_bytes transform =
     (let tokens = tokenize (if pattern = [] then [63] else pattern);
          candidates = (if all_bytes then length v else of_bool (v \<noteq> []))
      in case check_steps candidates 1 tokens of
           Inl e \<Rightarrow> Inl e
         | Inr _ \<Rightarrow>
             let n = (if all_bytes then length v else min 1 (length v));
                 change = (\<lambda>b. if matching_endpoint_unchecked [b] tokens Longest = Some 1 then transform b else b)
             in Inr (map change (take n v) @ drop n v))"

section \<open>The meaning of a pattern\<close>

fun pattern_match :: "pattern_token list \<Rightarrow> bytes \<Rightarrow> bool" where
  "pattern_match [] bs \<longleftrightarrow> bs = []"
| "pattern_match (t # ts) bs \<longleftrightarrow>
     (if t = AnyBytes then \<exists>i \<le> length bs. pattern_match ts (drop i bs)
      else \<exists>b bs'. bs = b # bs' \<and> token_matches t b \<and> pattern_match ts bs')"

text \<open>The words that one token stands for; a pattern stands for their concatenations.\<close>

definition token_lang :: "pattern_token \<Rightarrow> bytes set" where
  "token_lang t = (if t = AnyBytes then UNIV else {[b] | b. token_matches t b})"

lemma pattern_match_Cons: "pattern_match (t # ts) bs \<longleftrightarrow> (\<exists>u v. bs = u @ v \<and> u \<in> token_lang t \<and> pattern_match ts v)"
proof (cases "t = AnyBytes")
  case True
  have "(\<exists>i \<le> length bs. pattern_match ts (drop i bs)) \<longleftrightarrow> (\<exists>u v. bs = u @ v \<and> pattern_match ts v)"
    (is "?l \<longleftrightarrow> ?r")
  proof
    show "?l \<Longrightarrow> ?r" by (metis append_take_drop_id)
  next
    assume ?r
    then obtain u v where "bs = u @ v" "pattern_match ts v" by blast
    then show ?l by (intro exI [of _ "length u"]) simp
  qed
  with True show ?thesis by (simp add: token_lang_def)
next
  case False
  have "(\<exists>b bs'. bs = b # bs' \<and> token_matches t b \<and> pattern_match ts bs') \<longleftrightarrow>
      (\<exists>u v. bs = u @ v \<and> (\<exists>b. u = [b] \<and> token_matches t b) \<and> pattern_match ts v)"
    by (metis append_Cons append_Nil)
  with False show ?thesis by (simp add: token_lang_def)
qed

lemma cut_assoc:
  "(\<exists>a v. bs = a @ v \<and> A a \<and> (\<exists>u w. v = u @ w \<and> B u \<and> C w)) \<longleftrightarrow>
   (\<exists>x w. bs = x @ w \<and> (\<exists>a u. x = a @ u \<and> A a \<and> B u) \<and> C w)"
  by (rule iffI; elim exE conjE; hypsubst; (intro exI conjI; (assumption | rule append_assoc | rule append_assoc [symmetric] | rule refl))?)

lemma cut_rev: "(\<exists>u v. rev bs = u @ v \<and> A u \<and> B v) \<longleftrightarrow> (\<exists>u v. bs = u @ v \<and> B (rev u) \<and> A (rev v))"
  by (metis rev_append rev_rev_ident)

lemma pattern_match_append: "pattern_match (ts @ us) bs \<longleftrightarrow> (\<exists>u v. bs = u @ v \<and> pattern_match ts u \<and> pattern_match us v)"
proof (induction ts arbitrary: bs)
  case (Cons t ts)
  show ?case
    unfolding append_Cons pattern_match_Cons [of t] Cons.IH by (rule cut_assoc)
qed simp

lemma pattern_match_single: "pattern_match [t] bs \<longleftrightarrow> bs \<in> token_lang t"
  unfolding pattern_match_Cons by auto

lemma pattern_match_snoc: "pattern_match (ts @ [t]) bs \<longleftrightarrow> (\<exists>u v. bs = u @ v \<and> pattern_match ts u \<and> v \<in> token_lang t)"
  unfolding pattern_match_append pattern_match_single ..

lemma token_lang_rev: "rev u \<in> token_lang t \<longleftrightarrow> u \<in> token_lang t"
  by (auto simp: token_lang_def)

lemma pattern_match_rev: "pattern_match (rev ts) (rev bs) \<longleftrightarrow> pattern_match ts bs"
proof (induction ts arbitrary: bs)
  case (Cons t ts)
  have "pattern_match (rev (t # ts)) (rev bs) \<longleftrightarrow>
      (\<exists>u v. rev bs = u @ v \<and> pattern_match (rev ts) u \<and> v \<in> token_lang t)"
    by (simp add: pattern_match_snoc)
  also have "\<dots> \<longleftrightarrow> (\<exists>u v. bs = u @ v \<and> u \<in> token_lang t \<and> pattern_match ts v)"
    by (simp add: cut_rev token_lang_rev Cons.IH del: pattern_match.simps)
  finally show ?case by (simp only: pattern_match_Cons)
qed simp

lemma token_lang_nonempty: "[] \<in> token_lang t \<longleftrightarrow> t = AnyBytes"
  by (auto simp: token_lang_def)

text \<open>One more byte of input, seen from the end of the pattern.\<close>

lemma pattern_match_last_byte:
  "pattern_match (ts @ [t]) (xs @ [b]) \<longleftrightarrow>
     (if t = AnyBytes then pattern_match ts (xs @ [b]) \<or> pattern_match (ts @ [t]) xs
      else token_matches t b \<and> pattern_match ts xs)"
proof (cases "t = AnyBytes")
  case True
  have "(\<exists>u v. xs @ [b] = u @ v \<and> pattern_match ts u) \<longleftrightarrow>
      pattern_match ts (xs @ [b]) \<or> (\<exists>u v. xs = u @ v \<and> pattern_match ts u)"
    by (metis append.assoc append_Nil2 append_butlast_last_id butlast_append butlast_snoc)
  with True show ?thesis by (simp add: pattern_match_snoc token_lang_def)
qed (auto simp: pattern_match_snoc token_lang_def)

lemma pattern_match_snoc_Nil: "pattern_match (ts @ [t]) [] \<longleftrightarrow> t = AnyBytes \<and> pattern_match ts []"
  by (auto simp: pattern_match_snoc token_lang_def)

section \<open>The automaton computes it\<close>

text \<open>
  The row after \<open>xs\<close>: the flag at \<open>i\<close> says whether the first \<open>i\<close> tokens match \<open>xs\<close>; at a star
  it stays set while the star consumes input, so there the star is counted.
\<close>

definition reach :: "pattern_token list \<Rightarrow> nat \<Rightarrow> pattern_token list" where
  "reach tokens i = (if i < length tokens \<and> tokens ! i = AnyBytes then take (i + 1) tokens else take i tokens)"

definition row :: "pattern_token list \<Rightarrow> bytes \<Rightarrow> bool list \<Rightarrow> bool" where
  "row tokens xs states \<longleftrightarrow> length states = length tokens + 1 \<and>
     (\<forall>i \<le> length tokens. states ! i \<longleftrightarrow> pattern_match (reach tokens i) xs)"

lemma close_stars_flags:
  assumes "length states = k + length ts + 1"
  shows "length (close_stars k ts states) = length states \<and>
    (\<forall>i \<le> k. close_stars k ts states ! i = states ! i) \<and>
    (\<forall>j < length ts. close_stars k ts states ! (k + j + 1) =
       (states ! (k + j + 1) \<or> close_stars k ts states ! (k + j) \<and> ts ! j = AnyBytes))"
  using assms
proof (induction k ts states rule: close_stars.induct)
  case (2 k t ts states)
  let ?s = "if states ! k \<and> t = AnyBytes then states[k + 1 := True] else states"
  have IH: "length (close_stars (k + 1) ts ?s) = length ?s"
    "\<forall>i \<le> k + 1. close_stars (k + 1) ts ?s ! i = ?s ! i"
    "\<forall>j < length ts. close_stars (k + 1) ts ?s ! (k + 1 + j + 1) =
       (?s ! (k + 1 + j + 1) \<or> close_stars (k + 1) ts ?s ! (k + 1 + j) \<and> ts ! j = AnyBytes)"
    using "2.IH" "2.prems" by auto
  have "close_stars (k + 1) ts ?s ! (k + j + 1) =
      (states ! (k + j + 1) \<or> close_stars (k + 1) ts ?s ! (k + j) \<and> (t # ts) ! j = AnyBytes)"
    if "j < Suc (length ts)" for j
  proof (cases j)
    case 0
    then show ?thesis using IH(2) "2.prems" by (auto simp: nth_list_update)
  next
    case (Suc j')
    then show ?thesis using IH(3) [rule_format, of j'] that by (auto simp: nth_list_update)
  qed
  then show ?case using IH "2.prems" by (auto simp: nth_list_update)
qed simp

lemma step_tokens_flags:
  assumes "length nxt = k + length ts + 1"
  shows "length (step_tokens k ts b states nxt) = length nxt \<and>
    (\<forall>i < length nxt. step_tokens k ts b states nxt ! i \<longleftrightarrow> nxt ! i \<or>
       (\<exists>j < length ts. states ! (k + j) \<and>
          (if ts ! j = AnyBytes then i = k + j else token_matches (ts ! j) b \<and> i = k + j + 1)))"
  using assms
proof (induction k ts b states nxt rule: step_tokens.induct)
  case (2 k t ts b states nxt)
  let ?n = "if \<not> states ! k then nxt else if t = AnyBytes then nxt[k := True]
        else if token_matches t b then nxt[k + 1 := True] else nxt"
  have split: "(\<exists>j < Suc n. P j) \<longleftrightarrow> P 0 \<or> (\<exists>j < n. P (Suc j))" for P n
    by (metis Suc_less_eq gr0_conv_Suc not_gr_zero zero_less_Suc)
  have head: "?n ! i \<longleftrightarrow> nxt ! i \<or> states ! k \<and> (if t = AnyBytes then i = k else token_matches t b \<and> i = k + 1)"
    if "i < length nxt" for i
    using that "2.prems" by (auto simp: nth_list_update)
  show ?case
    using "2.IH" "2.prems" head by (simp add: split)
qed simp

lemma take_Suc_nth: "i < length xs \<Longrightarrow> take (i + 1) xs = take i xs @ [xs ! i]"
  by (simp add: take_Suc_conv_app_nth)

lemma row_start: "row tokens [] (close_stars 0 tokens ((replicate (length tokens + 1) False)[0 := True]))"
proof -
  let ?s = "(replicate (length tokens + 1) False)[0 := True]"
  have c: "length (close_stars 0 tokens ?s) = length tokens + 1" "close_stars 0 tokens ?s ! 0 = True"
    "\<forall>j < length tokens. close_stars 0 tokens ?s ! (j + 1) = (close_stars 0 tokens ?s ! j \<and> tokens ! j = AnyBytes)"
    using close_stars_flags [of ?s 0 tokens] by (auto simp: nth_list_update)
  have snoc: "i < length tokens \<Longrightarrow>
      pattern_match (take (i + 1) tokens) [] \<longleftrightarrow> tokens ! i = AnyBytes \<and> pattern_match (take i tokens) []" for i
    unfolding take_Suc_nth by (rule pattern_match_snoc_Nil)
  have "i \<le> length tokens \<Longrightarrow> close_stars 0 tokens ?s ! i \<longleftrightarrow> pattern_match (take i tokens) []" for i
  proof (induction i)
    case (Suc i)
    then show ?case using c(3) [rule_format, of i] snoc [of i] by auto
  qed (use c(2) in simp)
  then show ?thesis using c(1) snoc by (simp add: row_def reach_def)
qed

lemma row_step:
  assumes "row tokens xs states"
  shows "row tokens (xs @ [b])
    (close_stars 0 tokens (step_tokens 0 tokens b states (replicate (length tokens + 1) False)))"
proof -
  let ?n = "step_tokens 0 tokens b states (replicate (length tokens + 1) False)"
  let ?c = "close_stars 0 tokens ?n"
  let ?star = "\<lambda>i. i < length tokens \<and> tokens ! i = AnyBytes"
  let ?F = "\<lambda>i. pattern_match (take i tokens)"
  have st: "i \<le> length tokens \<Longrightarrow> states ! i \<longleftrightarrow> pattern_match (reach tokens i) xs" for i
    using assms by (simp add: row_def)
  have n: "length ?n = length tokens + 1"
    "\<And>i. i \<le> length tokens \<Longrightarrow> ?n ! i \<longleftrightarrow> (\<exists>j < length tokens. states ! j \<and>
       (if tokens ! j = AnyBytes then i = j else token_matches (tokens ! j) b \<and> i = j + 1))"
    using step_tokens_flags [of "replicate (length tokens + 1) False" 0 tokens b states] by (auto simp del: replicate.simps)
  have c: "length ?c = length tokens + 1" "?c ! 0 = ?n ! 0"
    "\<And>j. j < length tokens \<Longrightarrow> ?c ! (j + 1) = (?n ! (j + 1) \<or> ?c ! j \<and> tokens ! j = AnyBytes)"
    using close_stars_flags [of ?n 0 tokens] n(1) by auto
  have byte: "i < length tokens \<Longrightarrow> ?F (i + 1) (xs @ [b]) \<longleftrightarrow>
      (if tokens ! i = AnyBytes then ?F i (xs @ [b]) \<or> ?F (i + 1) xs else token_matches (tokens ! i) b \<and> ?F i xs)" for i
    unfolding take_Suc_nth by (rule pattern_match_last_byte)
  have flag: "i \<le> length tokens \<Longrightarrow> ?c ! i \<longleftrightarrow> pattern_match (reach tokens i) (xs @ [b])" for i
  proof (induction i)
    case 0
    have "?n ! 0 \<longleftrightarrow> ?star 0 \<and> states ! 0" unfolding n(2) [OF 0] by (auto split: if_splits)
    then show ?case using c(2) st [of 0] byte [of 0] by (auto simp: reach_def)
  next
    case (Suc i)
    then have i: "i < length tokens" by simp
    have "?n ! Suc i \<longleftrightarrow> ?star (Suc i) \<and> states ! Suc i \<or> tokens ! i \<noteq> AnyBytes \<and> token_matches (tokens ! i) b \<and> states ! i"
      unfolding n(2) [OF Suc.prems] using i by (auto split: if_splits)
    then have "?c ! Suc i \<longleftrightarrow> ?star (Suc i) \<and> ?F (i + 2) xs \<or> ?F (i + 1) (xs @ [b])"
      using c(3) [OF i] Suc.IH byte [OF i] st [of i] st [OF Suc.prems] i by (auto simp: reach_def split: if_splits)
    then show ?case using byte [of "Suc i"] by (auto simp: reach_def)
  qed
  then show ?thesis using c(1) by (simp add: row_def)
qed

lemma row_final: "row tokens xs states \<Longrightarrow> states ! length tokens \<longleftrightarrow> pattern_match tokens xs"
  by (simp add: row_def reach_def)

text \<open>What an endpoint is: a matching prefix, the shortest or the longest one.\<close>

definition endpoint :: "pattern_token list \<Rightarrow> selection \<Rightarrow> bytes \<Rightarrow> nat option \<Rightarrow> bool" where
  "endpoint tokens sel v r \<longleftrightarrow>
     (case r of
        None \<Rightarrow> \<forall>n \<le> length v. \<not> pattern_match tokens (take n v)
      | Some n \<Rightarrow> n \<le> length v \<and> pattern_match tokens (take n v) \<and>
          (\<forall>m \<le> length v. pattern_match tokens (take m v) \<longrightarrow> (if sel = Shortest then n \<le> m else m \<le> n)))"

lemma endpoint_loop_correct:
  assumes "row tokens xs states" and "endpoint tokens sel xs matched" and "sel = Shortest \<longrightarrow> matched = None"
  shows "endpoint tokens sel (xs @ bs) (endpoint_loop tokens sel (length xs) bs states matched)"
  using assms
proof (induction bs arbitrary: xs states matched)
  case (Cons b bs)
  let ?n = "close_stars 0 tokens (step_tokens 0 tokens b states (replicate (length tokens + 1) False))"
  have row: "row tokens (xs @ [b]) ?n" by (rule row_step [OF Cons.prems(1)])
  note fin = row_final [OF row]
  note IH = Cons.IH [OF row]
  have cut: "n \<le> length xs \<Longrightarrow> take n (xs @ [b]) = take n xs" for n by simp
  show ?case
  proof (cases "?n ! length tokens")
    case True
    show ?thesis
    proof (cases "sel = Shortest")
      case short: True
      have "\<not> pattern_match tokens (take m xs)" if "m \<le> length xs" for m
        using that Cons.prems(2,3) short by (simp add: endpoint_def)
      then have "m \<le> length (xs @ b # bs) \<Longrightarrow> pattern_match tokens (take m (xs @ b # bs)) \<Longrightarrow> length xs + 1 \<le> m" for m
        by (metis Suc_eq_plus1 cut leI le_simps(3) not_less_eq_eq take_append append_Nil2 diff_is_0_eq less_Suc_eq_le take_eq_Nil)
      then show ?thesis using True short fin by (simp add: endpoint_def)
    next
      case False
      have "endpoint tokens sel (xs @ [b]) (Some (length xs + 1))"
        using True fin False by (simp add: endpoint_def)
      then show ?thesis using IH [of "Some (length xs + 1)"] True False by simp
    qed
  next
    case False
    have "endpoint tokens sel (xs @ [b]) matched"
      using Cons.prems(2) False fin unfolding endpoint_def
      by (cases matched) (auto simp: le_Suc_eq)
    then show ?thesis using IH [of matched] Cons.prems(3) False by simp
  qed
qed simp

lemma matching_endpoint_correct: "endpoint tokens sel v (matching_endpoint_unchecked v tokens sel)"
proof -
  let ?s = "close_stars 0 tokens ((replicate (length tokens + 1) False)[0 := True])"
  have row: "row tokens [] ?s" by (rule row_start)
  note fin = row_final [OF row]
  let ?m = "if ?s ! length tokens then Some 0 else None :: nat option"
  show ?thesis
  proof (cases "?m \<noteq> None \<and> sel = Shortest")
    case True
    then show ?thesis using fin by (auto simp: matching_endpoint_unchecked_def Let_def endpoint_def split: if_splits)
  next
    case False
    have "endpoint tokens sel [] ?m" using fin by (auto simp: endpoint_def)
    then have "endpoint tokens sel ([] @ v) (endpoint_loop tokens sel (length ([] :: bytes)) v ?s ?m)"
      using False by (intro endpoint_loop_correct [OF row]) auto
    moreover have "matching_endpoint_unchecked v tokens sel = endpoint_loop tokens sel 0 v ?s ?m"
      unfolding matching_endpoint_unchecked_def Let_def using False by (rule if_not_P)
    ultimately show ?thesis by simp
  qed
qed

section \<open>Removal\<close>

text \<open>The affixes of \<open>v\<close> of length \<open>n\<close>, and what is left without them.\<close>

definition affix :: "edge \<Rightarrow> bytes \<Rightarrow> nat \<Rightarrow> bytes" where
  "affix edge v n = (if edge = Edge_Prefix then take n v else drop (length v - n) v)"

definition without_affix :: "edge \<Rightarrow> bytes \<Rightarrow> nat \<Rightarrow> bytes" where
  "without_affix edge v n = (if edge = Edge_Prefix then drop n v else take (length v - n) v)"

definition pattern_cost :: "pattern_token list \<Rightarrow> nat" where
  "pattern_cost tokens = max 1 (sum_list (map token_cost tokens))"

lemma saturated_sum: "foldl (\<lambda>total t. saturating_add total (f t)) (min a usize_max) ts = min (a + sum_list (map f ts)) usize_max"
proof (induction ts arbitrary: a)
  case (Cons t ts)
  have "saturating_add (min a usize_max) (f t) = min (a + f t) usize_max" by (simp add: saturating_add_def)
  then show ?case using Cons [of "a + f t"] by (simp add: add.assoc)
qed simp

lemma check_steps_exact:
  assumes "c * (n + 1) \<le> usize_max" "n < usize_max"
  shows "case check_steps c n tokens of
      Inl e \<Rightarrow> c * (n + 1) * pattern_cost tokens > MAX_PATTERN_STEPS
    | Inr u \<Rightarrow> c * (n + 1) * pattern_cost tokens \<le> MAX_PATTERN_STEPS"
proof -
  have max: "MAX_PATTERN_STEPS < usize_max" by (simp add: MAX_PATTERN_STEPS_def usize_max_def)
  have cost: "foldl (\<lambda>total t. saturating_add total (token_cost t)) 0 tokens = min (sum_list (map token_cost tokens)) usize_max"
    using saturated_sum [of token_cost 0 tokens] by simp
  define A k where "A = c * (n + 1)" and "k = max (min (sum_list (map token_cost tokens)) usize_max) 1"
  have k: "k \<le> pattern_cost tokens" "k = pattern_cost tokens \<or> k = usize_max"
    by (auto simp: k_def pattern_cost_def max_def min_def usize_max_def)
  have Ak: "A * k \<le> A * pattern_cost tokens" using k(1) by (rule mult_le_mono2)
  have sat: "saturating_add n 1 = n + 1" using assms(2) by (simp add: saturating_add_def)
  have run: "check_steps c n tokens =
      (if A * k \<le> usize_max then if A * k > MAX_PATTERN_STEPS then Inl (TooComplex (A * k)) else Inr ()
       else Inl (TooComplex usize_max))"
    using assms(1) unfolding check_steps_def Let_def cost sat k_def [symmetric] checked_mul_def A_def [symmetric]
    by simp
  have whole: "A * k \<le> MAX_PATTERN_STEPS \<Longrightarrow> A * pattern_cost tokens \<le> MAX_PATTERN_STEPS"
  proof (cases "A = 0")
    case False
    assume *: "A * k \<le> MAX_PATTERN_STEPS"
    have "k \<le> A * k" using False by simp
    then have "k \<noteq> usize_max" using * max by linarith
    then show ?thesis using * k(2) by simp
  qed simp
  have "A * k > MAX_PATTERN_STEPS \<Longrightarrow> A * pattern_cost tokens > MAX_PATTERN_STEPS" using Ak by linarith
  then show ?thesis unfolding run A_def [symmetric] using max whole by auto
qed

lemma affix_reversed: "n \<le> length v \<Longrightarrow> pattern_match (rev ts) (take n (rev v)) \<longleftrightarrow> pattern_match ts (drop (length v - n) v)"
  by (simp add: take_rev pattern_match_rev)

lemma remove_pattern_spec:
  assumes "length v < usize_max"
  shows "case remove_pattern v pattern edge sel of
      Inl e \<Rightarrow> (length v + 1) * pattern_cost (tokenize pattern) > MAX_PATTERN_STEPS
    | Inr out \<Rightarrow> (length v + 1) * pattern_cost (tokenize pattern) \<le> MAX_PATTERN_STEPS \<and>
        ((\<forall>n \<le> length v. \<not> pattern_match (tokenize pattern) (affix edge v n)) \<and> out = v \<or>
         (\<exists>n \<le> length v. pattern_match (tokenize pattern) (affix edge v n) \<and> out = without_affix edge v n \<and>
            (\<forall>m \<le> length v. pattern_match (tokenize pattern) (affix edge v m) \<longrightarrow>
               (if sel = Shortest then n \<le> m else m \<le> n))))"
proof -
  let ?ts = "tokenize pattern"
  let ?tokens = "if edge = Edge_Suffix then rev ?ts else ?ts" and ?input = "if edge = Edge_Suffix then rev v else v"
  have cost: "pattern_cost ?tokens = pattern_cost ?ts" by (simp add: pattern_cost_def sum_list_rev rev_map [symmetric])
  have hit: "pattern_match ?tokens (take n ?input) \<longleftrightarrow> pattern_match ?ts (affix edge v n)" if "n \<le> length v" for n
    using that affix_reversed [of n v ?ts] by (cases edge) (simp_all add: affix_def)
  have ends: "endpoint ?tokens sel ?input (matching_endpoint_unchecked ?input ?tokens sel)"
    by (rule matching_endpoint_correct)
  have len: "length ?input = length v" by simp
  note steps = check_steps_exact [of 1 "length v" ?tokens, unfolded cost]
  show ?thesis
  proof (cases "check_steps 1 (length v) ?tokens")
    case (Inl e)
    then show ?thesis using steps assms by (simp add: remove_pattern_def matching_endpoint_def Let_def)
  next
    case (Inr u)
    have run: "remove_pattern v pattern edge sel =
        Inr (case matching_endpoint_unchecked ?input ?tokens sel of None \<Rightarrow> v | Some n \<Rightarrow> without_affix edge v n)"
      using Inr by (auto simp: remove_pattern_def matching_endpoint_def Let_def without_affix_def split: option.splits)
    have fits: "(length v + 1) * pattern_cost ?ts \<le> MAX_PATTERN_STEPS" using steps Inr assms by simp
    show ?thesis
    proof (cases "matching_endpoint_unchecked ?input ?tokens sel")
      case None
      then have "\<forall>n \<le> length v. \<not> pattern_match ?ts (affix edge v n)"
        using ends hit unfolding endpoint_def len by simp
      then show ?thesis unfolding run None using fits by simp
    next
      case (Some n)
      then have n: "n \<le> length v" "pattern_match ?ts (affix edge v n)"
        "\<forall>m \<le> length v. pattern_match ?ts (affix edge v m) \<longrightarrow> (if sel = Shortest then n \<le> m else m \<le> n)"
        using ends hit unfolding Some endpoint_def len option.case by blast+
      then show ?thesis unfolding run Some using fits by auto
    qed
  qed
qed

text \<open>
  C31. Removing a pattern from a value: the work is refused exactly when the product of the value and
  the pattern sizes exceeds the ceiling; otherwise the shortest or longest prefix or suffix that the
  pattern matches is removed, and the value is unchanged when none matches.
\<close>

theorem remove_pattern_exact:
  assumes "length v < usize_max"
  shows "case remove_pattern v pattern edge sel of
      Inl e \<Rightarrow> (length v + 1) * pattern_cost (tokenize pattern) > MAX_PATTERN_STEPS
    | Inr out \<Rightarrow> (length v + 1) * pattern_cost (tokenize pattern) \<le> MAX_PATTERN_STEPS \<and>
        ((\<forall>n \<le> length v. \<not> pattern_match (tokenize pattern) (affix edge v n)) \<and> out = v \<or>
         (\<exists>n \<le> length v. pattern_match (tokenize pattern) (affix edge v n) \<and> out = without_affix edge v n \<and>
            (\<forall>m \<le> length v. pattern_match (tokenize pattern) (affix edge v m) \<longrightarrow>
               (if sel = Shortest then n \<le> m else m \<le> n))))"
  by (rule remove_pattern_spec [OF assms])

theorem remove_pattern_exact_witness:
  "\<exists>out. remove_pattern (ascii ''aba'') (ascii ''*b'') Edge_Prefix Longest = Inr out \<and> out = ascii ''a'' \<and>
     \<not> pattern_match (tokenize (ascii ''*b'')) (ascii ''aba'')"
proof -
  have tok: "tokenize [42, 98] = [AnyBytes, PatLiteral 98]"
    by (simp add: tokenize_def tokenize_loop.simps last_opt_def)
  have run: "remove_pattern (ascii ''aba'') (ascii ''*b'') Edge_Prefix Longest = Inr (ascii ''a'')"
    by (simp add: remove_pattern_def tok matching_endpoint_def check_steps_def token_cost_def checked_mul_def saturating_add_def
        usize_max_def Let_def MAX_PATTERN_STEPS_def matching_endpoint_unchecked_def token_matches_def)
  from remove_pattern_exact [of "ascii ''aba''" "ascii ''*b''" Edge_Prefix Longest]
  show ?thesis unfolding run by (auto simp: usize_max_def without_affix_def affix_def)
qed

text \<open>Transformation changes exactly the bytes that the pattern matches, all of them or only the first.\<close>

lemma transform_matching_bytes_exact:
  assumes "transform_matching_bytes v pattern all_bytes f = Inr out"
  shows "length out = length v \<and>
    (\<forall>i < length v. out ! i =
       (if (all_bytes \<or> i = 0) \<and> pattern_match (tokenize (if pattern = [] then [63] else pattern)) [v ! i]
        then f (v ! i) else v ! i))"
proof -
  let ?ts = "tokenize (if pattern = [] then [63] else pattern)"
  have one: "matching_endpoint_unchecked [b] ?ts Longest = Some 1 \<longleftrightarrow> pattern_match ?ts [b]" for b
  proof -
    have e: "endpoint ?ts Longest [b] (matching_endpoint_unchecked [b] ?ts Longest)" by (rule matching_endpoint_correct)
    show ?thesis
    proof (cases "matching_endpoint_unchecked [b] ?ts Longest")
      case None
      then show ?thesis using e unfolding None endpoint_def by (auto dest: spec [of _ 1])
    next
      case (Some n)
      then show ?thesis using e unfolding Some endpoint_def by (auto simp: le_Suc_eq dest: spec [of _ 1])
    qed
  qed
  define n where "n = (if all_bytes then length v else min 1 (length v))"
  have out: "out = map (\<lambda>b. if pattern_match ?ts [b] then f b else b) (take n v) @ drop n v"
    using assms unfolding transform_matching_bytes_def Let_def one n_def [symmetric] by (auto split: sum.splits)
  show ?thesis
  proof (intro conjI allI impI)
    show "length out = length v" by (simp add: out n_def)
    show "out ! i = (if (all_bytes \<or> i = 0) \<and> pattern_match ?ts [v ! i] then f (v ! i) else v ! i)" if "i < length v" for i
      using that by (auto simp: out n_def nth_append min_def)
  qed
qed

end
