(* ===== verification/Bounded_Bytes.thy ===== *)
theory Bounded_Bytes
  imports Prelude
begin

text \<open>
  The bounded accumulator of \<open>src/bounded_bytes.rs\<close>: a byte vector with a hard limit whose
  extension is all-or-nothing.  The locale \<open>bounded_sink\<close> states what its clients (the
  RFC 2047 decoder, header extraction and shell expansion) rely on; it is interpreted on
  the model of \<open>BoundedBytes\<close>.
\<close>

datatype bounded_bytes_error =
    LengthOverflow
  | BytesLimitExceeded (attempted: usize)

record bounded_bytes =
  bb_bytes :: bytes
  bb_limit :: usize

definition with_capacity :: "usize \<Rightarrow> usize \<Rightarrow> bounded_bytes" where
  "with_capacity limit capacity = \<lparr>bb_bytes = [], bb_limit = limit\<rparr>"

definition bb_len :: "bounded_bytes \<Rightarrow> usize" where
  "bb_len b = length (bb_bytes b)"

definition remaining :: "bounded_bytes \<Rightarrow> bounded_bytes_error + usize" where
  "remaining b =
     (case checked_sub (bb_limit b) (length (bb_bytes b)) of
        None \<Rightarrow> Inl LengthOverflow
      | Some n \<Rightarrow> Inr n)"

definition try_extend_vec :: "bytes \<Rightarrow> usize \<Rightarrow> bytes \<Rightarrow> bounded_bytes_error + bytes" where
  "try_extend_vec output limit value =
     (case checked_add (length output) (length value) of
        None \<Rightarrow> Inl LengthOverflow
      | Some new_len \<Rightarrow>
          if new_len > limit then Inl (BytesLimitExceeded new_len)
          else Inr (output @ value))"

definition try_extend :: "bounded_bytes \<Rightarrow> bytes \<Rightarrow> bounded_bytes_error + bounded_bytes" where
  "try_extend b value =
     (case try_extend_vec (bb_bytes b) (bb_limit b) value of
        Inl e \<Rightarrow> Inl e
      | Inr output \<Rightarrow> Inr (b\<lparr>bb_bytes := output\<rparr>))"

definition into_vec :: "bounded_bytes \<Rightarrow> bytes" where
  "into_vec b = bb_bytes b"

definition bb_invar :: "bounded_bytes \<Rightarrow> bool" where
  "bb_invar b \<longleftrightarrow> length (bb_bytes b) \<le> bb_limit b \<and> bb_limit b \<le> usize_max"

section \<open>The interface\<close>

text \<open>
  A bounded sink collects bytes: an accepted extension appends exactly the given bytes and
  stays within the limit, a refused one happens only when the limit would be exceeded, and
  the bytes already collected are never lost or reordered.
\<close>

locale bounded_sink =
  fixes contents :: "'s \<Rightarrow> bytes"
    and capacity :: "'s \<Rightarrow> usize"
    and invar :: "'s \<Rightarrow> bool"
    and extend :: "'s \<Rightarrow> bytes \<Rightarrow> 'e + 's"
  assumes within: "invar s \<Longrightarrow> length (contents s) \<le> capacity s"
    and extend_ok: "invar s \<Longrightarrow> length (contents s) + length v \<le> capacity s \<Longrightarrow>
          \<exists>s'. extend s v = Inr s' \<and> contents s' = contents s @ v
             \<and> capacity s' = capacity s \<and> invar s'"
    and extend_refused: "invar s \<Longrightarrow> capacity s < length (contents s) + length v \<Longrightarrow>
          \<exists>e. extend s v = Inl e"
begin

fun extend_all :: "'s \<Rightarrow> bytes list \<Rightarrow> 'e + 's" where
  "extend_all s [] = Inr s"
| "extend_all s (v # vs) =
     (case extend s v of Inl e \<Rightarrow> Inl e | Inr s' \<Rightarrow> extend_all s' vs)"

lemma extend_cases:
  assumes "invar s"
  obtains (ok) s' where "extend s v = Inr s'" "contents s' = contents s @ v"
      "capacity s' = capacity s" "invar s'" "length (contents s) + length v \<le> capacity s"
    | (refused) e where "extend s v = Inl e" "capacity s < length (contents s) + length v"
  using extend_ok [OF assms, of v] extend_refused [OF assms, of v]
  by (cases "length (contents s) + length v \<le> capacity s") auto

lemma extend_InrD:
  assumes "invar s" and "extend s v = Inr s'"
  shows "contents s' = contents s @ v" "capacity s' = capacity s" "invar s'"
    "length (contents s @ v) \<le> capacity s"
  using assms(2) by (cases rule: extend_cases [OF assms(1), of v]; simp)+

lemma extend_all_InrD:
  assumes "invar s" and "extend_all s vs = Inr s'"
  shows "contents s' = contents s @ concat vs \<and> capacity s' = capacity s \<and> invar s'"
  using assms
proof (induction vs arbitrary: s)
  case Nil
  then show ?case by simp
next
  case (Cons v vs)
  then obtain t where t: "extend s v = Inr t" and r: "extend_all t vs = Inr s'"
    by (auto split: sum.splits)
  from extend_InrD [OF Cons.prems(1) t] Cons.IH [OF _ r] show ?case by simp
qed

lemma extend_all_complete:
  assumes "invar s" and "length (contents s) + length (concat vs) \<le> capacity s"
  shows "\<exists>s'. extend_all s vs = Inr s'"
  using assms
proof (induction vs arbitrary: s)
  case Nil
  then show ?case by simp
next
  case (Cons v vs)
  from Cons.prems(1) show ?case
  proof (cases rule: extend_cases [of s v])
    case (ok t)
    with Cons.prems Cons.IH [of t] show ?thesis by simp
  next
    case (refused e)
    with Cons.prems show ?thesis by simp
  qed
qed

text \<open>A sequence of extensions succeeds exactly when everything together fits.\<close>

lemma extend_all_iff:
  assumes "invar s"
  shows "(\<exists>s'. extend_all s vs = Inr s') \<longleftrightarrow>
           length (contents s) + length (concat vs) \<le> capacity s"
proof
  assume "\<exists>s'. extend_all s vs = Inr s'"
  then obtain s' where "extend_all s vs = Inr s'" by blast
  from extend_all_InrD [OF assms this] within [of s']
  show "length (contents s) + length (concat vs) \<le> capacity s" by simp
qed (use assms extend_all_complete in blast)

end

interpretation bb: bounded_sink bb_bytes bb_limit bb_invar try_extend
proof (unfold_locales, goal_cases)
  case (1 s)
  then show ?case by (simp add: bb_invar_def)
next
  case (2 s v)
  then show ?case
    by (auto simp: bb_invar_def try_extend_def try_extend_vec_def checked_add_def)
next
  case (3 s v)
  then show ?case
    by (auto simp: bb_invar_def try_extend_def try_extend_vec_def checked_add_def
        split: option.splits)
qed

section \<open>Facts about the accumulator\<close>

lemma bb_invar_with_capacity [simp]: "limit \<le> usize_max \<Longrightarrow> bb_invar (with_capacity limit c)"
  by (simp add: bb_invar_def with_capacity_def)

lemma with_capacity_sel [simp]:
  "bb_bytes (with_capacity limit c) = []" "bb_limit (with_capacity limit c) = limit"
  by (simp_all add: with_capacity_def)

lemma remaining_ok [simp]:
  "bb_invar b \<Longrightarrow> remaining b = Inr (bb_limit b - length (bb_bytes b))"
  by (simp add: remaining_def checked_sub_def bb_invar_def)

text \<open>
  Extending the accumulator piece by piece succeeds if and only if all the pieces
  together fit under its limit, and then it holds exactly their concatenation after the
  bytes it held before: no prefix is observable and the limit is never exceeded.
\<close>

theorem bounded_extension:
  assumes "bb_invar b"
  shows "bb.extend_all b vs = Inr b' \<longleftrightarrow>
           length (bb_bytes b) + length (concat vs) \<le> bb_limit b \<and>
           b' = b\<lparr>bb_bytes := bb_bytes b @ concat vs\<rparr>"
proof -
  have eq: "bb.extend_all b vs = Inr s' \<Longrightarrow> s' = b\<lparr>bb_bytes := bb_bytes b @ concat vs\<rparr>" for s'
    using bb.extend_all_InrD [OF assms, of vs s'] by (cases b; cases s') simp
  with bb.extend_all_iff [OF assms, of vs] show ?thesis by metis
qed

theorem bounded_extension_witness:
  "bb_invar (with_capacity 3 0) \<and>
   bb.extend_all (with_capacity 3 0) [[1], [2, 3]] = Inr \<lparr>bb_bytes = [1, 2, 3], bb_limit = 3\<rparr>"
proof -
  have inv: "bb_invar (with_capacity 3 0)" by (simp add: usize_max_def)
  show ?thesis
    using inv bounded_extension [OF inv, of "[[1], [2, 3]]"] by (simp add: with_capacity_def)
qed

end
