(* ===== verification/Shell_Eval.thy ===== *)
theory Shell_Eval
  imports Shell_Pattern Bounded_Bytes Rc_Config
begin

text \<open>
  Evaluation of shell expressions, \<open>src/config/shell_eval.rs\<close>.  The trait \<open>EvaluationContext\<close> is the
  record \<open>eval_context\<close> over a context state; the evaluator threads that state and the list of
  pending assignments.  Its theorems hold for every context.
\<close>

section \<open>Contexts\<close>

definition MAX_EXPANSION_DEPTH :: usize where "MAX_EXPANSION_DEPTH = 32"

datatype evaluation_depth = Depth_None | ExpansionChain | SyntaxNesting

record variable_value =
  vv_bytes :: bytes
  vv_depth :: usize

record evaluation_result =
  er_bytes :: bytes
  er_depth :: usize
  er_assignments :: "(bytes \<times> bytes) list"

record ('c, 'e) eval_context =
  ec_depth_mode :: "'c \<Rightarrow> evaluation_depth"
  ec_variable :: "'c \<Rightarrow> bytes \<Rightarrow> 'c \<times> ('e + variable_value option)"
  ec_command :: "'c \<Rightarrow> bytes \<Rightarrow> usize \<Rightarrow> 'c \<times> ('e + bytes)"
  ec_regex_quoted :: "'c \<Rightarrow> bytes \<Rightarrow> usize \<Rightarrow> 'c \<times> ('e + bytes)"
  ec_missing_variable :: "'c \<Rightarrow> bytes \<Rightarrow> 'e"
  ec_required_parameter :: "'c \<Rightarrow> bytes \<Rightarrow> 'e"
  ec_pattern_error :: "'c \<Rightarrow> pattern_error \<Rightarrow> 'e"
  ec_depth_exceeded :: "'c \<Rightarrow> 'e"
  ec_depth_overflow :: "'c \<Rightarrow> 'e"
  ec_length_error :: "'c \<Rightarrow> bounded_bytes_error \<Rightarrow> usize \<Rightarrow> usize \<Rightarrow> 'e"

text \<open>The context state and the assignments made so far.\<close>

type_synonym 'c eval_state = "'c \<times> (bytes \<times> bytes) list"

section \<open>Steps\<close>

definition append_output ::
    "('c, 'e) eval_context \<Rightarrow> 'c \<Rightarrow> bounded_bytes \<Rightarrow> bytes \<Rightarrow> usize \<Rightarrow> 'e + bounded_bytes" where
  "append_output ctx c output bs limit =
     (case try_extend output bs of
        Inl e \<Rightarrow> Inl (ec_length_error ctx c e (bb_len output) limit)
      | Inr output' \<Rightarrow> Inr output')"

definition remaining_output :: "('c, 'e) eval_context \<Rightarrow> 'c \<Rightarrow> bounded_bytes \<Rightarrow> usize \<Rightarrow> 'e + usize" where
  "remaining_output ctx c output limit =
     (case remaining output of
        Inl e \<Rightarrow> Inl (ec_length_error ctx c e (bb_len output) limit)
      | Inr n \<Rightarrow> Inr n)"

definition selected_depth ::
    "('c, 'e) eval_context \<Rightarrow> 'c \<Rightarrow> usize \<Rightarrow> usize \<Rightarrow> bool \<Rightarrow> bool \<Rightarrow> 'e + usize" where
  "selected_depth ctx c value_depth nesting used_word empty_value =
     (case (case ec_depth_mode ctx c of
              Depth_None \<Rightarrow> Some 0
            | ExpansionChain \<Rightarrow> checked_add value_depth 1
            | SyntaxNesting \<Rightarrow>
                if used_word then Some value_depth else if empty_value then Some nesting else checked_add nesting 1) of
        None \<Rightarrow> Inl (ec_depth_overflow ctx c)
      | Some depth \<Rightarrow> if depth > MAX_EXPANSION_DEPTH then Inl (ec_depth_exceeded ctx c) else Inr depth)"

definition must_quote :: "byte \<Rightarrow> bool" where
  "must_quote b \<longleftrightarrow> b = 42 \<or> b = 63 \<or> b = 91 \<or> b = BACKSLASH"

fun quote_loop :: "('c, 'e) eval_context \<Rightarrow> 'c \<Rightarrow> usize \<Rightarrow> bytes \<Rightarrow> bounded_bytes \<Rightarrow> 'e + bytes" where
  "quote_loop ctx c limit [] quoted = Inr (into_vec quoted)"
| "quote_loop ctx c limit (b # bs) quoted =
     (case (if must_quote b then append_output ctx c quoted [BACKSLASH] limit else Inr quoted) of
        Inl e \<Rightarrow> Inl e
      | Inr quoted1 \<Rightarrow>
          (case append_output ctx c quoted1 [b] limit of
             Inl e \<Rightarrow> Inl e
           | Inr quoted2 \<Rightarrow> quote_loop ctx c limit bs quoted2))"

definition quote_pattern_bytes :: "('c, 'e) eval_context \<Rightarrow> 'c \<Rightarrow> bytes \<Rightarrow> usize \<Rightarrow> 'e + bytes" where
  "quote_pattern_bytes ctx c bs limit = quote_loop ctx c limit bs (with_capacity limit 0)"

definition change_case ::
    "('c, 'e) eval_context \<Rightarrow> 'c \<Rightarrow> bytes \<Rightarrow> bytes \<Rightarrow> case_direction \<Rightarrow> bool \<Rightarrow> 'e + bytes" where
  "change_case ctx c v pattern direction all_bytes =
     (case transform_matching_bytes v pattern all_bytes
             (case direction of Upper \<Rightarrow> to_ascii_uppercase | Lower \<Rightarrow> to_ascii_lowercase) of
        Inl e \<Rightarrow> Inl (ec_pattern_error ctx c e)
      | Inr out \<Rightarrow> Inr out)"

text \<open>The operations that transform a value by a pattern: removal at an edge, or a change of case.\<close>

definition pick :: "bool \<Rightarrow> selection" where
  "pick longest = (if longest then Longest else Shortest)"

fun pattern_operation ::
    "('c, 'e) eval_context \<Rightarrow> parameter_operation \<Rightarrow>
     (shell_expression \<times> ('c \<Rightarrow> bytes \<Rightarrow> bytes \<Rightarrow> 'e + bytes)) option" where
  "pattern_operation ctx (RemovePrefix p longest) =
     Some (p, \<lambda>c v pat. map_sum (ec_pattern_error ctx c) id (remove_pattern v pat Edge_Prefix (pick longest)))"
| "pattern_operation ctx (RemoveSuffix p longest) =
     Some (p, \<lambda>c v pat. map_sum (ec_pattern_error ctx c) id (remove_pattern v pat Edge_Suffix (pick longest)))"
| "pattern_operation ctx (ChangeCase p direction all_bytes) =
     Some (p, \<lambda>c v pat. change_case ctx c v pat direction all_bytes)"
| "pattern_operation ctx _ = None"

text \<open>A pending assignment hides the variable of the context.\<close>

definition find_assigned :: "(bytes \<times> bytes) list \<Rightarrow> bytes \<Rightarrow> bytes option" where
  "find_assigned as name = map_of (rev as) name"

definition lookup_variable ::
    "('c, 'e) eval_context \<Rightarrow> bytes \<Rightarrow> 'c eval_state \<Rightarrow> 'c eval_state \<times> ('e + variable_value option)" where
  "lookup_variable ctx name st =
     (case find_assigned (snd st) name of
        Some bs \<Rightarrow> (st, Inr (Some \<lparr>vv_bytes = bs, vv_depth = 0\<rparr>))
      | None \<Rightarrow> (case ec_variable ctx (fst st) name of (c, r) \<Rightarrow> ((c, snd st), r)))"

fun set_assignment :: "(bytes \<times> bytes) list \<Rightarrow> bytes \<Rightarrow> bytes \<Rightarrow> (bytes \<times> bytes) list" where
  "set_assignment [] name bs = [(name, bs)]"
| "set_assignment ((n, old) # as) name bs = (if n = name then (n, bs) # as else (n, old) # set_assignment as name bs)"

fun is_assign :: "parameter_operation \<Rightarrow> bool" where
  "is_assign (AssignIfUnsetOrEmpty _) = True"
| "is_assign _ = False"

fun is_required :: "parameter_operation \<Rightarrow> bool" where
  "is_required (ErrorIfUnsetOrEmpty _) = True"
| "is_required _ = False"

lemma size_selected_word: "selected_word opn s e = Some w \<Longrightarrow> size_list size w < size opn"
  by (cases opn) (auto split: if_splits)

lemma size_pattern_operation: "pattern_operation ctx opn = Some (w, f) \<Longrightarrow> size_list size w < size opn"
  by (cases opn) auto

section \<open>The evaluator\<close>

function (sequential) evaluate_at :: "('c, 'e) eval_context \<Rightarrow> shell_expression \<Rightarrow> usize \<Rightarrow> usize \<Rightarrow> 'c eval_state \<Rightarrow>
    'c eval_state \<times> ('e + variable_value)"
and eval_parts :: "('c, 'e) eval_context \<Rightarrow> shell_expression \<Rightarrow> usize \<Rightarrow> usize \<Rightarrow> bounded_bytes \<Rightarrow> usize \<Rightarrow> 'c eval_state \<Rightarrow>
    'c eval_state \<times> ('e + bounded_bytes \<times> usize)"
and eval_part :: "('c, 'e) eval_context \<Rightarrow> shell_part \<Rightarrow> usize \<Rightarrow> usize \<Rightarrow> bounded_bytes \<Rightarrow> usize \<Rightarrow> 'c eval_state \<Rightarrow>
    'c eval_state \<times> ('e + bytes \<times> usize)"
and evaluate_word :: "('c, 'e) eval_context \<Rightarrow> shell_expression \<Rightarrow> bounded_bytes \<Rightarrow> usize \<Rightarrow> usize \<Rightarrow> 'c eval_state \<Rightarrow>
    'c eval_state \<times> ('e + variable_value)"
where
  "evaluate_at ctx e limit nesting st =
     (if nesting > MAX_EXPANSION_DEPTH then (st, Inl (ec_depth_exceeded ctx (fst st)))
      else
        case eval_parts ctx e limit nesting (with_capacity limit 0)
               (case ec_depth_mode ctx (fst st) of SyntaxNesting \<Rightarrow> nesting | _ \<Rightarrow> 0) st of
          (st', Inl err) \<Rightarrow> (st', Inl err)
        | (st', Inr (output, depth)) \<Rightarrow> (st', Inr \<lparr>vv_bytes = into_vec output, vv_depth = depth\<rparr>))"
| "eval_parts ctx [] limit nesting output depth st = (st, Inr (output, depth))"
| "eval_parts ctx (p # ps) limit nesting output depth st =
     (case eval_part ctx p limit nesting output depth st of
        (st1, Inl err) \<Rightarrow> (st1, Inl err)
      | (st1, Inr (bs, depth1)) \<Rightarrow>
          (case append_output ctx (fst st1) output bs limit of
             Inl err \<Rightarrow> (st1, Inl err)
           | Inr output1 \<Rightarrow> eval_parts ctx ps limit nesting output1 depth1 st1))"
| "eval_part ctx (Literal t) limit nesting output depth st = (st, Inr (t, depth))"
| "eval_part ctx (Variable name opn) limit nesting output depth st =
     (case lookup_variable ctx name st of
        (st1, Inl err) \<Rightarrow> (st1, Inl err)
      | (st1, Inr found) \<Rightarrow>
          if opn = Length then
            (case found of
               None \<Rightarrow> (st1, Inl (ec_missing_variable ctx (fst st1) name))
             | Some v \<Rightarrow> (st1, Inr (decimal (length (vv_bytes v)), max depth (vv_depth v))))
          else
            (case pattern_operation ctx opn of
               Some (w, f) \<Rightarrow>
                 (case found of
                    None \<Rightarrow> (st1, Inl (ec_missing_variable ctx (fst st1) name))
                  | Some v \<Rightarrow>
                      (case evaluate_word ctx w output limit nesting st1 of
                         (st2, Inl err) \<Rightarrow> (st2, Inl err)
                       | (st2, Inr pat) \<Rightarrow>
                           (case f (fst st2) (vv_bytes v) (vv_bytes pat) of
                              Inl err \<Rightarrow> (st2, Inl err)
                            | Inr bs \<Rightarrow> (st2, Inr (bs, max (max depth (vv_depth v)) (vv_depth pat))))))
             | None \<Rightarrow>
                 let is_set = (found \<noteq> None);
                     is_empty = (case found of None \<Rightarrow> False | Some v \<Rightarrow> vv_bytes v = [])
                 in if is_required opn \<and> (\<not> is_set \<or> is_empty)
                    then (st1, Inl (ec_required_parameter ctx (fst st1) name))
                    else
                      (case
                         (case selected_word opn is_set is_empty of
                            Some w \<Rightarrow>
                              (case evaluate_word ctx w output limit nesting st1 of
                                 (st2, Inl err) \<Rightarrow> (st2, Inl err)
                               | (st2, Inr v) \<Rightarrow> (st2, Inr (v, True, False)))
                          | None \<Rightarrow>
                              if uses_value_when_word_is_not_selected opn then
                                (case found of
                                   Some v \<Rightarrow> (st1, Inr (v, False, vv_bytes v = []))
                                 | None \<Rightarrow> (st1, Inl (ec_missing_variable ctx (fst st1) name)))
                              else (st1, Inr (\<lparr>vv_bytes = [], vv_depth = 0\<rparr>, False, True))) of
                         (st2, Inl err) \<Rightarrow> (st2, Inl err)
                       | (st2, Inr (v, used_word, empty_value)) \<Rightarrow>
                           let st3 = (if is_assign opn \<and> (\<not> is_set \<or> is_empty)
                                      then (fst st2, set_assignment (snd st2) name (vv_bytes v)) else st2)
                           in (case selected_depth ctx (fst st3) (vv_depth v) nesting used_word empty_value of
                                 Inl err \<Rightarrow> (st3, Inl err)
                               | Inr d \<Rightarrow> (st3, Inr (vv_bytes v, max depth d))))))"
| "eval_part ctx (Command command) limit nesting output depth st =
     (case remaining_output ctx (fst st) output limit of
        Inl err \<Rightarrow> (st, Inl err)
      | Inr n \<Rightarrow>
          (case ec_command ctx (fst st) command n of
             (c, Inl err) \<Rightarrow> ((c, snd st), Inl err)
           | (c, Inr bs) \<Rightarrow> ((c, snd st), Inr (bs, depth))))"
| "eval_part ctx (RegexQuotedVariable name) limit nesting output depth st =
     (case remaining_output ctx (fst st) output limit of
        Inl err \<Rightarrow> (st, Inl err)
      | Inr n \<Rightarrow>
          (case ec_regex_quoted ctx (fst st) name n of
             (c, Inl err) \<Rightarrow> ((c, snd st), Inl err)
           | (c, Inr bs) \<Rightarrow> ((c, snd st), Inr (bs, depth))))"
| "eval_part ctx (PatternQuote e) limit nesting output depth st =
     (case remaining_output ctx (fst st) output limit of
        Inl err \<Rightarrow> (st, Inl err)
      | Inr n \<Rightarrow>
          (case evaluate_at ctx e n nesting st of
             (st1, Inl err) \<Rightarrow> (st1, Inl err)
           | (st1, Inr v) \<Rightarrow>
               (case quote_pattern_bytes ctx (fst st1) (vv_bytes v) n of
                  Inl err \<Rightarrow> (st1, Inl err)
                | Inr quoted \<Rightarrow> (st1, Inr (quoted, max depth (vv_depth v))))))"
| "evaluate_word ctx w output limit nesting st =
     (case remaining_output ctx (fst st) output limit of
        Inl err \<Rightarrow> (st, Inl err)
      | Inr n \<Rightarrow>
          (case checked_add nesting 1 of
             None \<Rightarrow> (st, Inl (ec_depth_overflow ctx (fst st)))
           | Some nested \<Rightarrow> evaluate_at ctx w n nested st))"
  by pat_completeness auto
termination
  by (relation "measure (\<lambda>x. case x of
        Inl (Inl (ctx, e, r)) \<Rightarrow> 3 * size_list size e + 1
      | Inl (Inr (ctx, ps, r)) \<Rightarrow> 3 * size_list size ps
      | Inr (Inl (ctx, p, r)) \<Rightarrow> 3 * size p
      | Inr (Inr (ctx, w, r)) \<Rightarrow> 3 * size_list size w + 2)")
    (auto dest!: size_selected_word size_pattern_operation)

declare evaluate_at.simps [simp del] evaluate_word.simps [simp del]

definition evaluate :: "('c, 'e) eval_context \<Rightarrow> shell_expression \<Rightarrow> usize \<Rightarrow> 'c \<Rightarrow> 'c \<times> ('e + evaluation_result)" where
  "evaluate ctx e limit c =
     (case evaluate_at ctx e limit 0 (c, []) of
        (st, Inl err) \<Rightarrow> (fst st, Inl err)
      | (st, Inr v) \<Rightarrow>
          (fst st, Inr \<lparr>er_bytes = vv_bytes v, er_depth = vv_depth v, er_assignments = snd st\<rparr>))"

section \<open>Quoted patterns\<close>

lemma append_output_Inr:
  "append_output ctx c output bs limit = Inr output' \<Longrightarrow> bb_limit output' = bb_limit output \<and>
     bb_bytes output' = bb_bytes output @ bs \<and> length (bb_bytes output') \<le> bb_limit output"
  by (auto simp: append_output_def try_extend_def try_extend_vec_def split: sum.splits option.splits if_splits)
    (auto simp: checked_add_def split: if_splits)

lemma remaining_output_Inr:
  "remaining_output ctx c output limit = Inr n \<Longrightarrow> n = bb_limit output - length (bb_bytes output)"
  by (auto simp: remaining_output_def remaining_def checked_sub_def split: sum.splits option.splits if_splits)

definition quote_byte :: "byte \<Rightarrow> bytes" where
  "quote_byte b = (if must_quote b then [BACKSLASH, b] else [b])"

lemma quote_loop_text:
  "quote_loop ctx c limit bs quoted = Inr out \<Longrightarrow> out = bb_bytes quoted @ concat (map quote_byte bs)"
proof (induction bs arbitrary: quoted)
  case (Cons b bs)
  obtain q1 where q1: "(if must_quote b then append_output ctx c quoted [BACKSLASH] limit else Inr quoted) = Inr q1"
    using Cons.prems by (auto split: sum.splits)
  obtain q2 where q2: "append_output ctx c q1 [b] limit = Inr q2" using Cons.prems q1 by (auto split: sum.splits)
  have "bb_bytes q2 = bb_bytes quoted @ quote_byte b"
    using q1 append_output_Inr [OF q2] by (auto simp: quote_byte_def dest!: append_output_Inr split: if_splits)
  moreover have "quote_loop ctx c limit bs q2 = Inr out" using Cons.prems q1 q2 by simp
  ultimately show ?case using Cons.IH [of q2] by simp
qed (simp add: into_vec_def)

lemma tokenize_quoted:
  "tokenize_loop (xs @ concat (map quote_byte v)) (length xs) tokens = tokens @ map PatLiteral v"
proof (induction v arbitrary: xs tokens)
  case Nil
  then show ?case by (subst tokenize_loop.simps) simp
next
  case (Cons b v)
  have "tokenize_loop (xs @ concat (map quote_byte (b # v))) (length xs) tokens =
      tokenize_loop ((xs @ quote_byte b) @ concat (map quote_byte v)) (length (xs @ quote_byte b)) (tokens @ [PatLiteral b])"
    by (subst tokenize_loop.simps) (auto simp: quote_byte_def must_quote_def nth_append)
  then show ?case using Cons.IH [of "xs @ quote_byte b" "tokens @ [PatLiteral b]"] by simp
qed

lemma literal_match: "pattern_match (map PatLiteral v) bs \<longleftrightarrow> bs = v"
  by (induction v arbitrary: bs) (auto simp: token_matches_def)

lemma quote_pattern_match:
  assumes "quote_pattern_bytes ctx c v limit = Inr q"
  shows "pattern_match (tokenize q) bs \<longleftrightarrow> bs = v"
proof -
  have "q = concat (map quote_byte v)"
    using quote_loop_text assms by (fastforce simp: quote_pattern_bytes_def with_capacity_def)
  then show ?thesis using tokenize_quoted [of "[]" v "[]"] literal_match by (simp add: tokenize_def)
qed

section \<open>Bounds\<close>

text \<open>Assignments are made once per name, to names that the expression assigns, within the limit.\<close>

definition assignments_ok :: "bytes set \<Rightarrow> usize \<Rightarrow> (bytes \<times> bytes) list \<Rightarrow> bool" where
  "assignments_ok names limit as \<longleftrightarrow>
     distinct (map fst as) \<and> (\<forall>(n, v) \<in> set as. n \<in> names \<and> length v \<le> limit)"

lemma set_assignment_ok:
  assumes "assignments_ok names limit as" "name \<in> names" "length v \<le> limit"
  shows "assignments_ok names limit (set_assignment as name v)"
proof -
  have keys: "set (map fst (set_assignment as name v)) = insert name (set (map fst as))" for as
    by (induction as name v rule: set_assignment.induct) auto
  show ?thesis
    using assms
  proof (induction as)
    case (Cons x as)
    obtain n old where x: "x = (n, old)" by (cases x)
    show ?case
    proof (cases "n = name")
      case False
      then show ?thesis using Cons keys [of as] by (auto simp: x assignments_ok_def)
    qed (use Cons in \<open>auto simp: x assignments_ok_def\<close>)
  qed (simp add: assignments_ok_def)
qed

lemma assignments_mono: "assignments_ok names limit as \<Longrightarrow> names \<subseteq> names' \<Longrightarrow> assignments_ok names' limit as"
  by (fastforce simp: assignments_ok_def)

definition output_ok :: "usize \<Rightarrow> bounded_bytes \<Rightarrow> bool" where
  "output_ok limit output \<longleftrightarrow> bb_limit output = limit \<and> length (bb_bytes output) \<le> limit"

lemma lookup_variable_state: "lookup_variable ctx name st = (st1, r) \<Longrightarrow> snd st1 = snd st"
  by (auto simp: lookup_variable_def split: option.splits prod.splits)

lemma part_names:
  "set (for_each_assignment (p # ps)) = set (for_each_assignment [p]) \<union> set (for_each_assignment ps)"
  by (cases p) auto

lemma selected_word_names:
  "selected_word opn a b = Some w \<Longrightarrow> set (for_each_assignment w) \<subseteq> set (for_each_assignment [Variable name opn])"
  by (cases opn) (auto split: if_splits)

lemma pattern_word_names:
  "pattern_operation ctx opn = Some (w, f) \<Longrightarrow> set (for_each_assignment w) \<subseteq> set (for_each_assignment [Variable name opn])"
  by (cases opn) auto

lemma assign_names: "is_assign opn \<Longrightarrow> name \<in> set (for_each_assignment [Variable name opn])"
  by (cases opn) auto

lemma assign_selects: "is_assign opn \<Longrightarrow> \<not> is_set \<or> is_empty \<Longrightarrow> \<exists>w. selected_word opn is_set is_empty = Some w"
  by (cases opn) auto

lemma evaluation_bounds:
  fixes ctx :: "('c, 'e) eval_context"
  shows "limit \<le> L \<Longrightarrow> set (for_each_assignment e) \<subseteq> N \<Longrightarrow> assignments_ok N L (snd st) \<Longrightarrow>
      evaluate_at ctx e limit nesting st = (st', r) \<Longrightarrow>
      assignments_ok N L (snd st') \<and> (\<forall>v. r = Inr v \<longrightarrow> length (vv_bytes v) \<le> limit)"
    and "limit \<le> L \<Longrightarrow> set (for_each_assignment ps) \<subseteq> N \<Longrightarrow> assignments_ok N L (snd st) \<Longrightarrow> output_ok limit out \<Longrightarrow>
      eval_parts ctx ps limit nesting out depth st = (st', r2) \<Longrightarrow>
      assignments_ok N L (snd st') \<and> (\<forall>out1 d. r2 = Inr (out1, d) \<longrightarrow> output_ok limit out1)"
    and "limit \<le> L \<Longrightarrow> set (for_each_assignment [p]) \<subseteq> N \<Longrightarrow> assignments_ok N L (snd st) \<Longrightarrow> output_ok limit out \<Longrightarrow>
      eval_part ctx p limit nesting out depth st = (st', r3) \<Longrightarrow> assignments_ok N L (snd st')"
    and "limit \<le> L \<Longrightarrow> set (for_each_assignment w) \<subseteq> N \<Longrightarrow> assignments_ok N L (snd st) \<Longrightarrow> output_ok limit out \<Longrightarrow>
      evaluate_word ctx w out limit nesting st = (st', r) \<Longrightarrow>
      assignments_ok N L (snd st') \<and> (\<forall>v. r = Inr v \<longrightarrow> length (vv_bytes v) \<le> L)"
proof (induction ctx e limit nesting st and ctx ps limit nesting out depth st and ctx p limit nesting out depth st
    and ctx w out limit nesting st arbitrary: st' r and st' r2 and st' r3 and st' r
    rule: evaluate_at_eval_parts_eval_part_evaluate_word.induct)
  case (1 ctx e limit nesting st)
  show ?case
  proof (cases "nesting > MAX_EXPANSION_DEPTH")
    case False
    let ?d = "case ec_depth_mode ctx (fst st) of SyntaxNesting \<Rightarrow> nesting | _ \<Rightarrow> 0"
    obtain st1 r1 where run: "eval_parts ctx e limit nesting (with_capacity limit 0) ?d st = (st1, r1)"
      by (cases "eval_parts ctx e limit nesting (with_capacity limit 0) ?d st")
    have "output_ok limit (with_capacity limit 0)" by (simp add: output_ok_def with_capacity_def)
    note IH = "1.IH" [OF False "1.prems"(1-3) this run]
    show ?thesis
      using "1.prems"(4) False run IH
      by (cases r1) (auto simp: evaluate_at.simps into_vec_def output_ok_def)
  qed (use "1.prems" in \<open>auto simp: evaluate_at.simps\<close>)
next
  case (3 ctx p ps limit nesting out depth st)
  obtain st1 q where run: "eval_part ctx p limit nesting out depth st = (st1, q)"
    by (cases "eval_part ctx p limit nesting out depth st")
  have names: "set (for_each_assignment [p]) \<subseteq> N" "set (for_each_assignment ps) \<subseteq> N"
    using "3.prems"(2) part_names [of p ps] by auto
  note good = "3.IH"(1) [OF "3.prems"(1) names(1) "3.prems"(3,4) run]
  show ?case
  proof (cases q)
    case (Inl err)
    then show ?thesis using "3.prems"(5) run good by auto
  next
    case (Inr x)
    obtain bs d where x: "x = (bs, d)" by (cases x)
    show ?thesis
    proof (cases "append_output ctx (fst st1) out bs limit")
      case (Inl err)
      then show ?thesis using "3.prems"(5) run good Inr x by auto
    next
      case app: (Inr out1)
      then have "output_ok limit out1" using "3.prems"(4) append_output_Inr [OF app] by (auto simp: output_ok_def)
      with "3.IH"(2) [OF run [symmetric] Inr x [symmetric] app "3.prems"(1) names(2) good]
      show ?thesis using "3.prems"(5) run Inr x app by simp
    qed
  qed
next
  case (5 ctx name opn limit nesting out depth st)
  note run = "5.prems"(5) and names = "5.prems"(2)
  obtain st1 q where lk: "lookup_variable ctx name st = (st1, q)" by (cases "lookup_variable ctx name st")
  have good1: "assignments_ok N L (snd st1)" using lookup_variable_state [OF lk] "5.prems"(3) by simp
  show ?case
  proof (cases "(\<exists>err. q = Inl err) \<or> opn = Length")
    case True
    then show ?thesis using run lk good1 by (auto split: option.splits sum.splits)
  next
    case False
    then obtain found where q: "q = Inr found" and nl: "opn \<noteq> Length" by (cases q) auto
    show ?thesis
    proof (cases "pattern_operation ctx opn")
      case (Some wf)
      obtain w f where wf: "wf = (w, f)" by (cases wf)
      have sub: "set (for_each_assignment w) \<subseteq> N" using pattern_word_names Some wf names by blast
      show ?thesis
      proof (cases found)
        case None
        then show ?thesis using run lk q nl Some wf good1 by simp
      next
        case v: (Some v)
        obtain st2 q2 where ew: "evaluate_word ctx w out limit nesting st1 = (st2, q2)"
          by (cases "evaluate_word ctx w out limit nesting st1")
        have "assignments_ok N L (snd st2)"
          using "5.IH"(2) [OF lk [symmetric] q nl Some wf [symmetric] v "5.prems"(1) sub good1 "5.prems"(4) ew] by blast
        then show ?thesis using run lk q nl Some wf v ew by (auto split: sum.splits)
      qed
    next
      case None
      define is_set is_empty where "is_set = (found \<noteq> None)"
        and "is_empty = (case found of None \<Rightarrow> False | Some v \<Rightarrow> vv_bytes v = [])"
      note run = run [unfolded eval_part.simps lk q prod.case sum.case if_not_P [OF nl] None option.case Let_def,
          folded is_set_def is_empty_def]
      show ?thesis
      proof (cases "is_required opn \<and> (\<not> is_set \<or> is_empty)")
        case True
        then show ?thesis using run good1 by auto
      next
        case req: False
        define chosen where "chosen =
          (case selected_word opn is_set is_empty of
             Some w \<Rightarrow>
               (case evaluate_word ctx w out limit nesting st1 of
                  (st2, Inl err) \<Rightarrow> (st2, Inl err)
                | (st2, Inr v) \<Rightarrow> (st2, Inr (v, True, False)))
           | None \<Rightarrow>
               if uses_value_when_word_is_not_selected opn then
                 (case found of
                    Some v \<Rightarrow> (st1, Inr (v, False, vv_bytes v = []))
                  | None \<Rightarrow> (st1, Inl (ec_missing_variable ctx (fst st1) name)))
               else (st1, Inr (\<lparr>vv_bytes = [], vv_depth = 0\<rparr>, False, True)))"
        note run = run [unfolded if_not_P [OF req], folded chosen_def]
        obtain st2 q2 where ch: "chosen = (st2, q2)" by (cases chosen)
        have good2: "assignments_ok N L (snd st2) \<and>
            (\<forall>v u z. q2 = Inr (v, u, z) \<longrightarrow> is_assign opn \<and> (\<not> is_set \<or> is_empty) \<longrightarrow> length (vv_bytes v) \<le> L)"
        proof (cases "selected_word opn is_set is_empty")
          case sw: (Some w)
          have sub: "set (for_each_assignment w) \<subseteq> N" using selected_word_names [OF sw] names by blast
          obtain st3 q3 where ew: "evaluate_word ctx w out limit nesting st1 = (st3, q3)"
            by (cases "evaluate_word ctx w out limit nesting st1")
          have "chosen = (case (st3, q3) of (st2, Inl err) \<Rightarrow> (st2, Inl err) | (st2, Inr v) \<Rightarrow> (st2, Inr (v, True, False)))"
            using ew by (simp add: chosen_def sw)
          then show ?thesis
            using "5.IH"(1) [OF lk [symmetric] q nl None is_set_def is_empty_def req sw "5.prems"(1) sub good1 "5.prems"(4) ew]
              ch by (cases q3) simp_all
        next
          case none: None
          then have "\<not> (is_assign opn \<and> (\<not> is_set \<or> is_empty))"
            using assign_selects [of opn is_set is_empty] by force
          moreover have "st2 = st1"
            using ch unfolding chosen_def none option.case by (cases found) (auto split: if_splits)
          ultimately show ?thesis using good1 by blast
        qed
        show ?thesis
        proof (cases q2)
          case (Inl err)
          then show ?thesis using run ch good2 by simp
        next
          case (Inr x)
          obtain v u z where x: "x = (v, u, z)" by (cases x)
          define st3 where "st3 = (if is_assign opn \<and> (\<not> is_set \<or> is_empty)
             then (fst st2, set_assignment (snd st2) name (vv_bytes v)) else st2)"
          have "assignments_ok N L (snd st3)"
          proof (cases "is_assign opn \<and> (\<not> is_set \<or> is_empty)")
            case True
            then have "name \<in> N" "length (vv_bytes v) \<le> L"
              using assign_names [of opn name] names good2 Inr x by blast+
            then show ?thesis using True good2 set_assignment_ok by (simp add: st3_def)
          next
            case no: False
            then show ?thesis using good2 unfolding st3_def if_not_P [OF no] by blast
          qed
          moreover have "st' = st3"
            using run [unfolded ch Inr x prod.case sum.case, folded st3_def] by (auto split: sum.splits)
          ultimately show ?thesis by simp
        qed
      qed
    qed
  qed
next
  case (8 ctx e limit nesting out depth st)
  show ?case
  proof (cases "remaining_output ctx (fst st) out limit")
    case (Inl err)
    then show ?thesis using "8.prems" by auto
  next
    case (Inr n)
    have n: "n \<le> L" using remaining_output_Inr [OF Inr] "8.prems"(1,4) by (auto simp: output_ok_def)
    obtain st1 q where ev: "evaluate_at ctx e n nesting st = (st1, q)" by (cases "evaluate_at ctx e n nesting st")
    have "assignments_ok N L (snd st1)"
      using "8.IH" [OF Inr n _ "8.prems"(3) ev] "8.prems"(2) by simp
    then show ?thesis using "8.prems"(5) Inr ev by (auto split: sum.splits)
  qed
next
  case (9 ctx w out limit nesting st)
  show ?case
  proof (cases "remaining_output ctx (fst st) out limit")
    case (Inl err)
    then show ?thesis using "9.prems" by (auto simp: evaluate_word.simps)
  next
    case (Inr n)
    have n: "n \<le> L" using remaining_output_Inr [OF Inr] "9.prems"(1,4) by (auto simp: output_ok_def)
    show ?thesis
    proof (cases "checked_add nesting 1")
      case None
      then show ?thesis using "9.prems" Inr by (auto simp: evaluate_word.simps)
    next
      case (Some k)
      then show ?thesis using "9.IH" [OF Inr Some n "9.prems"(2,3)] "9.prems"(5) Inr n
        by (fastforce simp: evaluate_word.simps)
    qed
  qed
qed (auto split: sum.splits prod.splits)

section \<open>Theorems\<close>

text \<open>
  C32. Whatever the context answers, an expression that evaluates gives at most \<open>limit\<close> bytes; the
  assignments it leaves behind are to names that the expression assigns, at most one per name, and
  each value is within the limit too.
\<close>

theorem evaluate_bounded:
  assumes "evaluate ctx e limit c = (c', Inr r)"
  shows "length (er_bytes r) \<le> limit \<and> distinct (map fst (er_assignments r)) \<and>
    (\<forall>(name, v) \<in> set (er_assignments r). name \<in> set (for_each_assignment e) \<and> length v \<le> limit)"
proof -
  obtain st v where run: "evaluate_at ctx e limit 0 (c, []) = (st, Inr v)"
    and r: "er_bytes r = vv_bytes v" "er_assignments r = snd st"
    using assms by (auto simp: evaluate_def split: prod.splits sum.splits)
  have "assignments_ok (set (for_each_assignment e)) limit (snd (c, []))" by (simp add: assignments_ok_def)
  from evaluation_bounds(1) [OF order_refl subset_refl this run]
  show ?thesis by (auto simp: r assignments_ok_def)
qed

text \<open>A context with one variable, for the witness.\<close>

definition sample_context :: "(unit, unit) eval_context" where
  "sample_context =
     \<lparr>ec_depth_mode = (\<lambda>c. Depth_None),
      ec_variable = (\<lambda>c name. (c, Inr (if name = ascii ''X'' then Some \<lparr>vv_bytes = ascii ''abc'', vv_depth = 0\<rparr> else None))),
      ec_command = (\<lambda>c command n. (c, Inl ())), ec_regex_quoted = (\<lambda>c name n. (c, Inl ())),
      ec_missing_variable = (\<lambda>c name. ()), ec_required_parameter = (\<lambda>c name. ()), ec_pattern_error = (\<lambda>c e. ()),
      ec_depth_exceeded = (\<lambda>c. ()), ec_depth_overflow = (\<lambda>c. ()), ec_length_error = (\<lambda>c e n l. ())\<rparr>"

theorem evaluate_bounded_witness:
  "\<exists>r. evaluate sample_context [Variable (ascii ''Y'') (AssignIfUnsetOrEmpty [Variable (ascii ''X'') Value])] 3 () = ((), Inr r) \<and>
     er_assignments r = [(ascii ''Y'', ascii ''abc'')] \<and> length (er_bytes r) \<le> 3"
proof -
  have word: "evaluate_word sample_context [Variable (ascii ''X'') Value] (with_capacity 3 0) 3 0 ((), []) =
      (((), []), Inr \<lparr>vv_bytes = ascii ''abc'', vv_depth = 0\<rparr>)"
    by (simp add: evaluate_at.simps evaluate_word.simps sample_context_def MAX_EXPANSION_DEPTH_def lookup_variable_def
        find_assigned_def remaining_output_def remaining_def checked_sub_def with_capacity_def checked_add_def usize_max_def
        append_output_def try_extend_def try_extend_vec_def into_vec_def selected_depth_def)
  have look: "lookup_variable sample_context (ascii ''Y'') ((), []) = (((), []), Inr None)"
    by (simp add: lookup_variable_def find_assigned_def sample_context_def)
  have part: "eval_part sample_context (Variable (ascii ''Y'') (AssignIfUnsetOrEmpty [Variable (ascii ''X'') Value])) 3 0
      (with_capacity 3 0) 0 ((), []) = (((), [(ascii ''Y'', ascii ''abc'')]), Inr (ascii ''abc'', 0))"
    unfolding eval_part.simps look prod.case sum.case
    using word by (simp add: selected_depth_def sample_context_def MAX_EXPANSION_DEPTH_def)
  have "eval_parts sample_context [Variable (ascii ''Y'') (AssignIfUnsetOrEmpty [Variable (ascii ''X'') Value])] 3 0
      (with_capacity 3 0) 0 ((), []) = (((), [(ascii ''Y'', ascii ''abc'')]), Inr (\<lparr>bb_bytes = ascii ''abc'', bb_limit = 3\<rparr>, 0))"
    unfolding eval_parts.simps part prod.case sum.case
    by (simp add: append_output_def try_extend_def try_extend_vec_def with_capacity_def checked_add_def usize_max_def)
  then have "\<exists>r. evaluate sample_context [Variable (ascii ''Y'') (AssignIfUnsetOrEmpty [Variable (ascii ''X'') Value])] 3 () =
      ((), Inr r) \<and> er_assignments r = [(ascii ''Y'', ascii ''abc'')]"
    by (simp add: evaluate_def evaluate_at.simps sample_context_def [THEN arg_cong, of ec_depth_mode] into_vec_def del: eval_parts.simps)
  then obtain r where r: "evaluate sample_context [Variable (ascii ''Y'') (AssignIfUnsetOrEmpty [Variable (ascii ''X'') Value])] 3 () =
      ((), Inr r)" "er_assignments r = [(ascii ''Y'', ascii ''abc'')]" by (elim exE conjE)
  have "length (er_bytes r) \<le> 3" using evaluate_bounded [OF r(1)] by (rule conjunct1)
  with r show ?thesis by (intro exI conjI)
qed

text \<open>
  Quoting takes the meaning out of a pattern: with the quoted text of \<open>y\<close> as the pattern, removal
  at an edge removes exactly \<open>y\<close>, once, if it is there, whichever bytes \<open>y\<close> holds, and the shortest and
  the longest match are the same.
\<close>

theorem quoted_pattern_removal:
  assumes "quote_pattern_bytes ctx c y limit = Inr q" and "remove_pattern v q edge sel = Inr out" and "length v < usize_max"
  shows "out = (if edge = Edge_Prefix then if prefix y v then drop (length y) v else v
      else if suffix y v then take (length v - length y) v else v)"
proof -
  have hit: "pattern_match (tokenize q) (affix edge v n) \<longleftrightarrow> affix edge v n = y" for n
    by (rule quote_pattern_match [OF assms(1)])
  have len: "length (affix edge v n) = n" if "n \<le> length v" for n using that by (simp add: affix_def)
  note spec = remove_pattern_spec [OF assms(3), of q edge sel, unfolded assms(2) sum.case hit]
  then consider "\<forall>n \<le> length v. affix edge v n \<noteq> y" "out = v"
    | n where "n \<le> length v" "affix edge v n = y" "out = without_affix edge v n" by blast
  then show ?thesis
  proof cases
    case 1
    note no = 1(1) [rule_format, of "length y"]
    have "\<not> prefix y v" if "edge = Edge_Prefix"
    proof
      assume "prefix y v"
      then obtain z where "v = y @ z" by (auto simp: prefix_def)
      then show False using no that by (simp add: affix_def)
    qed
    moreover have "\<not> suffix y v" if "edge \<noteq> Edge_Prefix"
    proof
      assume "suffix y v"
      then obtain z where "v = z @ y" by (auto simp: suffix_def)
      then show False using no that by (simp add: affix_def)
    qed
    ultimately show ?thesis using 1(2) by simp
  next
    case 2
    have n: "n = length y" using len [OF 2(1)] unfolding 2(2) by (rule sym)
    have "prefix y v" if "edge = Edge_Prefix"
      using take_is_prefix [of n v] unfolding 2(2) [symmetric] by (simp add: affix_def that)
    moreover have "suffix y v" if "edge \<noteq> Edge_Prefix"
      using suffix_drop [of "length v - n" v] unfolding 2(2) [symmetric] by (simp add: affix_def that)
    ultimately show ?thesis unfolding 2(3) without_affix_def n by simp
  qed
qed

theorem quoted_pattern_removal_witness:
  "\<exists>q out. quote_pattern_bytes sample_context () (ascii ''*'') 4 = Inr q \<and>
     remove_pattern (ascii ''*a'') q Edge_Prefix Longest = Inr out \<and> out = ascii ''a''"
proof -
  have q: "quote_pattern_bytes sample_context () (ascii ''*'') 4 = Inr [BACKSLASH, 42]"
    by (simp add: quote_pattern_bytes_def with_capacity_def must_quote_def append_output_def try_extend_def
        try_extend_vec_def checked_add_def usize_max_def into_vec_def)
  have tok: "tokenize [BACKSLASH, 42] = [PatLiteral 42]"
    by (simp add: tokenize_def tokenize_loop.simps)
  have "\<exists>out. remove_pattern (ascii ''*a'') [BACKSLASH, 42] Edge_Prefix Longest = Inr out"
    by (simp add: remove_pattern_def tok matching_endpoint_def check_steps_def token_cost_def checked_mul_def
        saturating_add_def usize_max_def MAX_PATTERN_STEPS_def split: option.splits)
  then show ?thesis
    using q quoted_pattern_removal [OF q, of "ascii ''*a''" Edge_Prefix Longest] by (fastforce simp: usize_max_def)
qed

end
