(* ===== verification/Utf8_Text.thy ===== *)
theory Utf8_Text
  imports Prelude
begin

text \<open>
  The part of the standard library's \<open>str\<close> and \<open>char\<close> that the sources use, on the UTF-8
  bytes of a string: well-formedness (\<open>from_utf8\<close>, the byte ranges of the Unicode standard),
  the characters of a string as its well-formed sequences, \<open>is_char_boundary\<close>,
  \<open>char::is_control\<close> and the UTF-8 encoding of a code point below 256.
\<close>

definition is_continuation :: "byte \<Rightarrow> bool" where
  "is_continuation b \<longleftrightarrow> 128 \<le> b \<and> b \<le> 191"

text \<open>The well-formed byte sequences.\<close>

fun well_formed :: "bytes \<Rightarrow> bool" where
  "well_formed [a] \<longleftrightarrow> a < 128"
| "well_formed [a, b] \<longleftrightarrow> 194 \<le> a \<and> a \<le> 223 \<and> is_continuation b"
| "well_formed [a, b, c] \<longleftrightarrow>
     224 \<le> a \<and> a \<le> 239 \<and> is_continuation b \<and> is_continuation c \<and>
     (a = 224 \<longrightarrow> 160 \<le> b) \<and> (a = 237 \<longrightarrow> b \<le> 159)"
| "well_formed [a, b, c, d] \<longleftrightarrow>
     240 \<le> a \<and> a \<le> 244 \<and> is_continuation b \<and> is_continuation c \<and> is_continuation d \<and>
     (a = 240 \<longrightarrow> 144 \<le> b) \<and> (a = 244 \<longrightarrow> b \<le> 143)"
| "well_formed _ \<longleftrightarrow> False"

text \<open>The length of the well-formed sequence that starts a byte string.\<close>

definition char_at :: "bytes \<Rightarrow> nat \<Rightarrow> bool" where
  "char_at bs n \<longleftrightarrow> n \<le> length bs \<and> well_formed (take n bs)"

definition char_len :: "bytes \<Rightarrow> nat option" where
  "char_len bs =
     (if char_at bs 1 then Some 1 else if char_at bs 2 then Some 2
      else if char_at bs 3 then Some 3 else if char_at bs 4 then Some 4 else None)"

lemma char_len_char_at: "char_len bs = Some n \<Longrightarrow> char_at bs n"
  by (auto simp: char_len_def split: if_splits)

lemma char_len_bounds: "char_len bs = Some n \<Longrightarrow> 0 < n \<and> n \<le> 4 \<and> n \<le> length bs"
  by (auto simp: char_len_def char_at_def split: if_splits)

function utf8_chars :: "bytes \<Rightarrow> bytes list option" where
  "utf8_chars bs =
     (if bs = [] then Some []
      else case char_len bs of
        None \<Rightarrow> None
      | Some n \<Rightarrow> map_option ((#) (take n bs)) (utf8_chars (drop n bs)))"
  by pat_completeness auto
termination
  by (relation "measure length") (auto dest: char_len_bounds)

declare utf8_chars.simps [simp del]

definition valid_utf8 :: "bytes \<Rightarrow> bool" where
  "valid_utf8 bs \<longleftrightarrow> utf8_chars bs \<noteq> None"

definition is_char_boundary :: "bytes \<Rightarrow> nat \<Rightarrow> bool" where
  "is_char_boundary bs i \<longleftrightarrow>
     i = 0 \<or> i = length bs \<or> (i < length bs \<and> \<not> is_continuation (bs ! i))"

definition char_is_control :: "bytes \<Rightarrow> bool" where
  "char_is_control c \<longleftrightarrow>
     (case c of
        [b] \<Rightarrow> b < 32 \<or> b = 127
      | [b, b'] \<Rightarrow> b = 194 \<and> 128 \<le> b' \<and> b' \<le> 159
      | _ \<Rightarrow> False)"

definition chars :: "bytes \<Rightarrow> bytes list" where
  "chars bs = (case utf8_chars bs of Some cs \<Rightarrow> cs | None \<Rightarrow> [])"

definition encode_latin1 :: "byte \<Rightarrow> bytes" where
  "encode_latin1 b = (if b < 128 then [b] else [192 + drop_bit 6 b, 128 + (take_bit 6 b)])"

section \<open>Cutting at boundaries\<close>

lemma utf8_chars_Nil [simp]: "utf8_chars [] = Some []"
  by (simp add: utf8_chars.simps)

lemma valid_utf8_Nil [simp]: "valid_utf8 []"
  by (simp add: valid_utf8_def)

lemma utf8_chars_step:
  "bs \<noteq> [] \<Longrightarrow> utf8_chars bs =
     (case char_len bs of
        None \<Rightarrow> None
      | Some n \<Rightarrow> map_option ((#) (take n bs)) (utf8_chars (drop n bs)))"
  by (subst utf8_chars.simps) simp

lemma utf8_chars_concat: "utf8_chars bs = Some cs \<Longrightarrow> concat cs = bs"
proof (induction bs arbitrary: cs rule: utf8_chars.induct)
  case (1 bs)
  show ?case
  proof (cases "bs = []")
    case True
    then show ?thesis using "1.prems" by simp
  next
    case False
    then obtain n where n: "char_len bs = Some n" using "1.prems" by (auto simp: utf8_chars_step split: option.splits)
    then obtain ds where "utf8_chars (drop n bs) = Some ds" "cs = take n bs # ds"
      using "1.prems" False by (auto simp: utf8_chars_step)
    then show ?thesis using "1.IH" [OF False n] by simp
  qed
qed

lemma char_at_prefix: "n \<le> length bs \<Longrightarrow> k \<le> n \<Longrightarrow> char_at (take n bs @ rest) k = char_at bs k"
  by (simp add: char_at_def min_def)

lemma char_len_prefix:
  assumes "char_len bs = Some n"
  shows "char_len (take n bs @ rest) = Some n"
  using assms char_len_bounds [OF assms] char_at_prefix [of n bs _ rest]
  by (auto simp: char_len_def split: if_splits)

lemma well_formed_shape:
  "well_formed c \<Longrightarrow> \<not> is_continuation (c ! 0) \<and> (\<forall>i. 0 < i \<and> i < length c \<longrightarrow> is_continuation (c ! i))"
proof (induction c rule: well_formed.induct)
  case (1 a)
  then show ?case by (auto simp: is_continuation_def)
next
  case (2 a b)
  then have "\<not> is_continuation a" unfolding is_continuation_def well_formed.simps by unat_arith
  then show ?case using 2 by (auto simp: less_Suc_eq)
next
  case (3 a b c)
  then have "\<not> is_continuation a" unfolding is_continuation_def well_formed.simps by unat_arith
  then show ?case using 3 by (auto simp: less_Suc_eq)
next
  case (4 a b c d)
  then have "\<not> is_continuation a" unfolding is_continuation_def well_formed.simps by unat_arith
  then show ?case using 4 by (auto simp: less_Suc_eq)
qed auto

lemma char_len_shape:
  assumes "char_len bs = Some n"
  shows "\<not> is_continuation (bs ! 0)" "0 < i \<Longrightarrow> i < n \<Longrightarrow> is_continuation (bs ! i)"
  using well_formed_shape [of "take n bs"] char_len_char_at [OF assms] char_len_bounds [OF assms]
  by (auto simp: char_at_def)

lemma valid_utf8_step:
  assumes "valid_utf8 bs" and "bs \<noteq> []"
  obtains n where "char_len bs = Some n" "valid_utf8 (drop n bs)"
  using assms by (auto simp: valid_utf8_def utf8_chars_step split: option.splits)

lemma valid_utf8_first: "valid_utf8 bs \<Longrightarrow> bs \<noteq> [] \<Longrightarrow> \<not> is_continuation (bs ! 0)"
  using char_len_shape(1) by (metis valid_utf8_step)

text \<open>A boundary of well-formed text splits it into well-formed texts.\<close>

lemma valid_utf8_split:
  assumes "valid_utf8 bs" and "is_char_boundary bs i" and "i \<le> length bs"
  shows "valid_utf8 (drop i bs) \<and> utf8_chars (take i bs) \<noteq> None \<and>
    chars bs = chars (take i bs) @ chars (drop i bs)"
  using assms
proof (induction "length bs" arbitrary: bs i rule: less_induct)
  case less
  show ?case
  proof (cases "i = 0")
    case True
    then show ?thesis using less.prems by (simp add: chars_def)
  next
    case False
    then have ne: "bs \<noteq> []" using less.prems(3) by auto
    obtain n where n: "char_len bs = Some n" "valid_utf8 (drop n bs)"
      by (rule valid_utf8_step [OF less.prems(1) ne])
    note b = char_len_bounds [OF n(1)]
    have ni: "n \<le> i"
    proof (rule ccontr)
      assume "\<not> n \<le> i"
      then have "is_continuation (bs ! i)" using char_len_shape(2) [OF n(1), of i] False by simp
      then show False using less.prems(2) \<open>\<not> n \<le> i\<close> b False by (auto simp: is_char_boundary_def)
    qed
    have "is_char_boundary (drop n bs) (i - n)"
      using less.prems(2,3) ni b False by (auto simp: is_char_boundary_def)
    then have IH: "valid_utf8 (drop (i - n) (drop n bs))" "utf8_chars (take (i - n) (drop n bs)) \<noteq> None"
      "chars (drop n bs) = chars (take (i - n) (drop n bs)) @ chars (drop (i - n) (drop n bs))"
      using less.hyps [of "drop n bs" "i - n"] n(2) less.prems(3) b ne by auto
    have t: "take i bs = take n bs @ take (i - n) (drop n bs)"
      using ni by (metis le_add_diff_inverse take_add)
    have cl: "char_len (take i bs) = Some n" by (subst t) (rule char_len_prefix [OF n(1)])
    have tn: "take n (take i bs) = take n bs" "drop n (take i bs) = take (i - n) (drop n bs)"
      using ni by (simp_all add: min_def drop_take)
    have ti: "take i bs \<noteq> []" using False ne by simp
    obtain cs where cs: "utf8_chars (take (i - n) (drop n bs)) = Some cs" using IH(2) by blast
    obtain ds where ds: "utf8_chars (drop n bs) = Some ds" using n(2) by (auto simp: valid_utf8_def)
    have "utf8_chars (take i bs) = Some (take n bs # cs)"
      using utf8_chars_step [OF ti] cl tn cs by simp
    moreover have "utf8_chars bs = Some (take n bs # ds)"
      using utf8_chars_step [OF ne] n(1) ds by simp
    moreover have "drop (i - n) (drop n bs) = drop i bs" using ni by simp
    ultimately show ?thesis using IH cs ds by (simp add: chars_def)
  qed
qed

lemma char_boundary_step:
  assumes "valid_utf8 bs" and "e < length bs"
  shows "\<exists>k \<le> e. e \<le> k + 3 \<and> is_char_boundary bs k"
  using assms
proof (induction "length bs" arbitrary: bs e rule: less_induct)
  case less
  have ne: "bs \<noteq> []" using less.prems(2) by auto
  obtain n where n: "char_len bs = Some n" "valid_utf8 (drop n bs)"
    by (rule valid_utf8_step [OF less.prems(1) ne])
  note b = char_len_bounds [OF n(1)]
  show ?case
  proof (cases "e < n")
    case True
    then show ?thesis using b by (intro exI [of _ 0]) (auto simp: is_char_boundary_def)
  next
    case False
    have "length (drop n bs) < length bs" "e - n < length (drop n bs)"
      using b less.prems(2) False by auto
    from less.hyps [OF this(1) n(2) this(2)] obtain k
      where "k \<le> e - n" "e - n \<le> k + 3" "is_char_boundary (drop n bs) k"
      by blast
    moreover have "is_char_boundary bs (n + k)"
    proof (cases "n + k < length bs")
      case True
      then have "\<not> is_continuation (bs ! (n + k))"
        using \<open>is_char_boundary (drop n bs) k\<close> b valid_utf8_first [OF n(2)]
        by (cases "k = 0") (auto simp: is_char_boundary_def)
      then show ?thesis using True by (simp add: is_char_boundary_def)
    next
      case False
      then show ?thesis using \<open>k \<le> e - n\<close> less.prems(2) \<open>\<not> e < n\<close> by auto
    qed
    ultimately show ?thesis using False by (intro exI [of _ "n + k"]) auto
  qed
qed

lemma valid_utf8_ascii: "list_all (\<lambda>b. b < 128) bs \<Longrightarrow> utf8_chars bs = Some (map (\<lambda>b. [b]) bs)"
proof (induction bs)
  case Nil
  then show ?case by simp
next
  case (Cons b bs)
  then have "char_len (b # bs) = Some 1" by (simp add: char_len_def char_at_def)
  then show ?case using Cons by (simp add: utf8_chars_step)
qed

end
