(* ===== verification/Structured_Header.thy ===== *)
theory Structured_Header
  imports Edited_Header Utf8_Text
begin

text \<open>
  Addresses, identifiers and keywords of structured header fields,
  \<open>src/structured_header.rs\<close>.  The visitors are closures that may fail and may change what
  they capture; a visitor is a function from its state and a value to an error or to its
  verdict and new state.  The counters and the lists of values already seen, which the source
  keeps in captured variables, are explicit state.
\<close>

definition MAX_STRUCTURED_HEADER_VALUES :: usize where "MAX_STRUCTURED_HEADER_VALUES = 4096"

datatype configured_keyword_error = KeywordsEmpty | KeywordsInvalidToken | KeywordsTooMany usize

fun keyword_error_reason :: "configured_keyword_error \<Rightarrow> string" where
  "keyword_error_reason KeywordsEmpty = ''must contain at least one keyword''"
| "keyword_error_reason KeywordsInvalidToken =
     ''must contain only printable ASCII keywords separated by spaces or commas''"
| "keyword_error_reason (KeywordsTooMany limit) = ''exceeds the hard limit of 4096 keywords''"

datatype 'e structured_visit_error = Header_Error | Visitor_Error 'e

type_synonym ('e, 'v) visitor = "'v \<Rightarrow> bytes \<Rightarrow> 'e + (bool \<times> 'v)"

section \<open>Scanning helpers\<close>

definition trim_start :: "bytes \<Rightarrow> bytes" where
  "trim_start v = dropWhile is_ascii_whitespace v"

definition trim_ascii :: "bytes \<Rightarrow> bytes" where
  "trim_ascii v = rev (dropWhile is_ascii_whitespace (rev (trim_start v)))"

text \<open>
  The state of a scan that respects quoted strings: inside quotes, after a backslash.  A byte
  is structural when it is neither quoted nor a quote itself.
\<close>

type_synonym quote_state = "bool \<times> bool"

fun quote_step :: "quote_state \<Rightarrow> byte \<Rightarrow> bool \<times> quote_state" where
  "quote_step (quoted, escaped) b =
     (if escaped then (False, (quoted, False))
      else if quoted \<and> b = BACKSLASH then (False, (quoted, True))
      else if b = DQUOTE then (False, (\<not> quoted, False))
      else (\<not> quoted, (quoted, False)))"

fun find_unquoted_from :: "quote_state \<Rightarrow> nat \<Rightarrow> bytes \<Rightarrow> byte \<Rightarrow> nat option" where
  "find_unquoted_from s index [] wanted = None"
| "find_unquoted_from s index (b # bs) wanted =
     (let (structural, s') = quote_step s b
      in if structural \<and> b = wanted then Some index
         else find_unquoted_from s' (Suc index) bs wanted)"

definition find_unquoted :: "bytes \<Rightarrow> byte \<Rightarrow> nat option" where
  "find_unquoted input wanted = find_unquoted_from (False, False) 0 input wanted"

section \<open>Comments and folding\<close>

record strip_state =
  st_output :: bytes
  st_depth :: usize
  st_quoted :: bool
  st_escaped :: bool
  st_pending :: bool

definition push_pending :: "strip_state \<Rightarrow> strip_state" where
  "push_pending s =
     (if st_pending s \<and> st_output s \<noteq> [] \<and> \<not> st_quoted s
      then s\<lparr>st_output := st_output s @ [SP], st_pending := False\<rparr>
      else s\<lparr>st_pending := False\<rparr>)"

definition strip_step :: "strip_state \<Rightarrow> byte \<Rightarrow> strip_state option" where
  "strip_step s b =
     (if st_escaped s then
        Some ((if st_depth s = 0 then s\<lparr>st_output := st_output s @ [b]\<rparr> else s)\<lparr>st_escaped := False\<rparr>)
      else if b = BACKSLASH \<and> (st_quoted s \<or> st_depth s > 0) then
        Some ((if st_depth s = 0 then s\<lparr>st_output := st_output s @ [b]\<rparr> else s)\<lparr>st_escaped := True\<rparr>)
      else if st_depth s > 0 then
        if b = 40 then map_option (\<lambda>d. s\<lparr>st_depth := d\<rparr>) (checked_add (st_depth s) 1)
        else if b = 41 then Some (s\<lparr>st_depth := st_depth s - 1\<rparr>)
        else Some s
      else if \<not> st_quoted s \<and> b = 40 then Some (s\<lparr>st_depth := 1\<rparr>)
      else if b = DQUOTE then
        (let s' = push_pending s
         in Some (s'\<lparr>st_quoted := \<not> st_quoted s', st_output := st_output s' @ [b]\<rparr>))
      else if \<not> st_quoted s \<and> is_ascii_whitespace b then Some (s\<lparr>st_pending := True\<rparr>)
      else (let s' = push_pending s in Some (s'\<lparr>st_output := st_output s' @ [b]\<rparr>)))"

fun strip_loop :: "strip_state \<Rightarrow> bytes \<Rightarrow> strip_state option" where
  "strip_loop s [] = Some s"
| "strip_loop s (b # bs) = (case strip_step s b of None \<Rightarrow> None | Some s' \<Rightarrow> strip_loop s' bs)"

definition strip_start :: strip_state where
  "strip_start =
     \<lparr>st_output = [], st_depth = 0, st_quoted = False, st_escaped = False, st_pending = False\<rparr>"

definition remove_comments_and_unfold :: "bytes \<Rightarrow> bytes option" where
  "remove_comments_and_unfold input =
     (case strip_loop strip_start input of
        None \<Rightarrow> None
      | Some s \<Rightarrow>
          if st_depth s = 0 \<and> \<not> st_quoted s \<and> \<not> st_escaped s then Some (st_output s) else None)"

section \<open>Mailboxes\<close>

fun mailbox_step :: "quote_state \<times> nat \<Rightarrow> byte \<Rightarrow> bool \<times> (quote_state \<times> nat)" where
  "mailbox_step (s, angle) b =
     (let (structural, s') = quote_step s b
      in if \<not> structural then (False, (s', angle))
         else if b = 60 then (False, (s', angle + 1))
         else if b = 62 then (False, (s', angle - 1))
         else if (b = 44 \<or> b = 59) \<and> angle = 0 then (True, (s', angle))
         else (False, (s', angle)))"

definition mailbox_elements :: "bytes \<Rightarrow> bytes list" where
  "mailbox_elements input = split_state mailbox_step ((False, False), 0) input"

definition is_atext_symbol :: "byte \<Rightarrow> bool" where
  "is_atext_symbol b \<longleftrightarrow> b \<in> set (ascii ''!#$%&*+-/=?^_`{|}~.'') \<or> b = 39"

definition valid_dot_atom :: "bytes \<Rightarrow> bool" where
  "valid_dot_atom v \<longleftrightarrow>
     v \<noteq> [] \<and> first v \<noteq> Some 46 \<and> last_opt v \<noteq> Some 46 \<and>
     \<not> any_window2 (\<lambda>a b. a = 46 \<and> b = 46) v \<and>
     list_all (\<lambda>b. is_ascii_alphanumeric b \<or> is_atext_symbol b) v"

fun quoted_local_ok :: "bool \<Rightarrow> bytes \<Rightarrow> bool" where
  "quoted_local_ok escaped [] \<longleftrightarrow> \<not> escaped"
| "quoted_local_ok escaped (b # bs) \<longleftrightarrow>
     (if escaped then is_ascii b \<and> b \<noteq> CR \<and> b \<noteq> LF \<and> quoted_local_ok False bs
      else if b = BACKSLASH then quoted_local_ok True bs
      else is_ascii b \<and> b \<noteq> DQUOTE \<and> b \<noteq> CR \<and> b \<noteq> LF \<and> b \<noteq> 0 \<and> quoted_local_ok False bs)"

definition valid_local :: "bytes \<Rightarrow> bool" where
  "valid_local local =
     (if length local \<ge> 2 \<and> first local = Some DQUOTE \<and> last_opt local = Some DQUOTE
      then quoted_local_ok False (slice local 1 (length local - 1))
      else valid_dot_atom local)"

definition valid_domain :: "bytes \<Rightarrow> bool" where
  "valid_domain domain =
     (if length domain \<ge> 2 \<and> first domain = Some 91 \<and> last_opt domain = Some 93
      then list_all (\<lambda>b. is_ascii_graphic b \<and> b \<noteq> 91 \<and> b \<noteq> 93 \<and> b \<noteq> BACKSLASH)
             (slice domain 1 (length domain - 1))
      else valid_dot_atom domain)"

record at_state =
  at_pos :: "nat option"
  at_quoted :: bool
  at_bracketed :: bool
  at_escaped :: bool

fun at_loop :: "at_state \<Rightarrow> nat \<Rightarrow> bytes \<Rightarrow> at_state option" where
  "at_loop s index [] = Some s"
| "at_loop s index (b # bs) =
     (if at_escaped s then at_loop (s\<lparr>at_escaped := False\<rparr>) (Suc index) bs
      else if at_quoted s \<and> b = BACKSLASH then at_loop (s\<lparr>at_escaped := True\<rparr>) (Suc index) bs
      else if b = DQUOTE \<and> \<not> at_bracketed s then at_loop (s\<lparr>at_quoted := \<not> at_quoted s\<rparr>) (Suc index) bs
      else if b = 91 \<and> \<not> at_quoted s then at_loop (s\<lparr>at_bracketed := True\<rparr>) (Suc index) bs
      else if b = 93 \<and> \<not> at_quoted s then at_loop (s\<lparr>at_bracketed := False\<rparr>) (Suc index) bs
      else if b = 64 \<and> \<not> at_quoted s \<and> \<not> at_bracketed s then
        (case at_pos s of
           None \<Rightarrow> at_loop (s\<lparr>at_pos := Some index\<rparr>) (Suc index) bs
         | Some _ \<Rightarrow> None)
      else at_loop s (Suc index) bs)"

definition at_start :: at_state where
  "at_start = \<lparr>at_pos = None, at_quoted = False, at_bracketed = False, at_escaped = False\<rparr>"

definition normalize_addr_spec :: "bytes \<Rightarrow> bytes option" where
  "normalize_addr_spec input =
     (case at_loop at_start 0 input of
        None \<Rightarrow> None
      | Some s \<Rightarrow>
          if at_quoted s \<or> at_bracketed s \<or> at_escaped s then None
          else
            (case at_pos s of
               None \<Rightarrow> None
             | Some at \<Rightarrow>
                 (let local = trim_ascii (take at input);
                      domain = trim_ascii (drop (at + 1) input)
                  in if \<not> valid_local local \<or> \<not> valid_domain domain then None
                     else Some (local @ [64] @ map to_ascii_lowercase domain))))"

definition normalize_mailbox :: "bytes \<Rightarrow> bytes option" where
  "normalize_mailbox elem =
     (let element = trim_ascii elem
      in if element = [] then None
         else
           (case find_unquoted element 60 of
              Some open \<Rightarrow>
                (case find_unquoted (drop (open + 1) element) 62 of
                   None \<Rightarrow> None
                 | Some offset \<Rightarrow>
                     (let close = offset + open + 1
                      in if trim_ascii (drop (close + 1) element) \<noteq> [] then None
                         else normalize_addr_spec (trim_ascii (slice element (open + 1) close))))
            | None \<Rightarrow>
                (let start = (case find_unquoted element 58 of None \<Rightarrow> 0 | Some colon \<Rightarrow> colon + 1)
                 in normalize_addr_spec (trim_ascii (drop start element)))))"

section \<open>Identifiers\<close>

definition normalize_list_id :: "bytes \<Rightarrow> bytes option" where
  "normalize_list_id input =
     (case find_unquoted input 60 of
        None \<Rightarrow> None
      | Some open \<Rightarrow>
          (case find_unquoted (drop (open + 1) input) 62 of
             None \<Rightarrow> None
           | Some offset \<Rightarrow>
               (let close = offset + open + 1
                in if trim_ascii (drop (close + 1) input) \<noteq> [] then None
                   else
                     (let identifier = trim_ascii (slice input (open + 1) close)
                      in if \<not> valid_dot_atom identifier \<or> 46 \<notin> set identifier then None
                         else Some (map to_ascii_lowercase identifier)))))"

fun message_id_loop :: "bytes \<Rightarrow> quote_state \<Rightarrow> nat option \<Rightarrow> nat \<Rightarrow> bytes \<Rightarrow> bytes list" where
  "message_id_loop input s open index [] = []"
| "message_id_loop input s open index (b # bs) =
     (let (structural, s') = quote_step s b
      in if structural \<and> b = 60 then message_id_loop input s' (Some index) (Suc index) bs
         else if structural \<and> b = 62 then
           (case open of
              None \<Rightarrow> message_id_loop input s' None (Suc index) bs
            | Some start \<Rightarrow>
                (let token = trim_ascii (slice input (start + 1) index)
                 in (if token \<noteq> [] \<and> \<not> list_ex (\<lambda>b. is_ascii_control b \<or> b = 60 \<or> b = 62) token
                     then [token] else []) @
                    message_id_loop input s' None (Suc index) bs))
         else message_id_loop input s' open (Suc index) bs)"

definition message_id_tokens :: "bytes \<Rightarrow> bytes list" where
  "message_id_tokens input = message_id_loop input (False, False) None 0 input"

section \<open>Visiting\<close>

text \<open>
  \<open>visit_fields\<close> threads the state of its closure through the named fields until the closure
  says it is done.
\<close>

fun visit_fields :: "('s \<Rightarrow> bytes \<Rightarrow> bytes \<Rightarrow> 'e + (bool \<times> 's)) \<Rightarrow> 's \<Rightarrow> field list \<Rightarrow> 'e + (bool \<times> 's)" where
  "visit_fields visit s [] = Inr (False, s)"
| "visit_fields visit s (f # fs) =
     (case (f_name f, field_value f) of
        (Some name, Some value) \<Rightarrow>
          (case visit s name value of
             Inl e \<Rightarrow> Inl e
           | Inr (True, s') \<Rightarrow> Inr (True, s')
           | Inr (False, s') \<Rightarrow> visit_fields visit s' fs)
      | _ \<Rightarrow> visit_fields visit s fs)"

text \<open>
  The loop of the visitors over the values of one field: each value counts against the work
  limit, a value already in \<open>seen\<close> is skipped, the visitor's verdict ends the loop.
\<close>

record 'v work_state =
  ws_count :: usize
  ws_seen :: "bytes list"
  ws_visitor :: 'v

fun visit_values :: "bool \<Rightarrow> ('e, 'v) visitor \<Rightarrow> 'v work_state \<Rightarrow> bytes list \<Rightarrow>
    'e structured_visit_error + (bool \<times> 'v work_state)" where
  "visit_values dedup m w [] = Inr (False, w)"
| "visit_values dedup m w (v # vs) =
     (case checked_add (ws_count w) 1 of
        None \<Rightarrow> Inl Header_Error
      | Some n \<Rightarrow>
          if n > MAX_STRUCTURED_HEADER_VALUES then Inl Header_Error
          else if dedup \<and> v \<in> set (ws_seen w) then visit_values dedup m (w\<lparr>ws_count := n\<rparr>) vs
          else
            (let w' = w\<lparr>ws_count := n, ws_seen := (if dedup then ws_seen w @ [v] else ws_seen w)\<rparr>
             in case m (ws_visitor w') v of
                  Inl e \<Rightarrow> Inl (Visitor_Error e)
                | Inr (True, u) \<Rightarrow> Inr (True, w'\<lparr>ws_visitor := u\<rparr>)
                | Inr (False, u) \<Rightarrow> visit_values dedup m (w'\<lparr>ws_visitor := u\<rparr>) vs))"

definition work_start :: "'v \<Rightarrow> 'v work_state" where
  "work_start u = \<lparr>ws_count = 0, ws_seen = [], ws_visitor = u\<rparr>"

definition any_address :: "header_view \<Rightarrow> address_field list \<Rightarrow> ('e, 'v) visitor \<Rightarrow> 'v \<Rightarrow>
    'e structured_visit_error + (bool \<times> 'v work_state)" where
  "any_address header wanted m u =
     visit_fields
       (\<lambda>w name value.
          if \<not> list_ex (\<lambda>f. eq_ignore_ascii_case name (address_field_name f)) wanted then Inr (False, w)
          else
            (case remove_comments_and_unfold value of
               None \<Rightarrow> Inr (False, w)
             | Some v \<Rightarrow> visit_values False m w (List.map_filter normalize_mailbox (mailbox_elements v))))
       (work_start u) (view_fields_of header)"

definition identifier_values :: "identifier_field \<Rightarrow> bytes \<Rightarrow> bytes list" where
  "identifier_values field v =
     (case field of
        IF_ListId \<Rightarrow> (case normalize_list_id v of None \<Rightarrow> [] | Some identifier \<Rightarrow> [identifier])
      | _ \<Rightarrow> message_id_tokens v)"

definition any_identifier :: "header_view \<Rightarrow> identifier_field list \<Rightarrow> ('e, 'v) visitor \<Rightarrow> 'v \<Rightarrow>
    'e structured_visit_error + (bool \<times> 'v work_state)" where
  "any_identifier header wanted m u =
     visit_fields
       (\<lambda>w name value.
          case find (\<lambda>f. eq_ignore_ascii_case name (identifier_field_name f)) wanted of
            None \<Rightarrow> Inr (False, w)
          | Some field \<Rightarrow>
              (case remove_comments_and_unfold value of
                 None \<Rightarrow> Inr (False, w)
               | Some v \<Rightarrow> visit_values True m w (identifier_values field v)))
       (work_start u) (view_fields_of header)"

section \<open>Keywords\<close>

definition keyword_tokens :: "bytes \<Rightarrow> bytes list" where
  "keyword_tokens input =
     filter (\<lambda>t. t \<noteq> []) (split_on (\<lambda>b. is_ascii_whitespace b \<or> b = 44) input)"

definition valid_keyword_str :: "bytes \<Rightarrow> bytes option" where
  "valid_keyword_str token =
     (if token = [] \<or> \<not> list_all (\<lambda>b. is_ascii_graphic b \<and> b \<noteq> 44) token then None
      else if valid_utf8 token then Some token else None)"

definition visit_keywords :: "header_view \<Rightarrow> keyword_field list \<Rightarrow> ('e, 'v) visitor \<Rightarrow> 'v \<Rightarrow>
    'e structured_visit_error + (bool \<times> 'v work_state)" where
  "visit_keywords header wanted m u =
     visit_fields
       (\<lambda>w name value.
          if \<not> list_ex (\<lambda>f. eq_ignore_ascii_case name (keyword_field_name f)) wanted then Inr (False, w)
          else visit_values True m w (List.map_filter valid_keyword_str (keyword_tokens value)))
       (work_start u) (view_fields_of header)"

definition any_keyword :: "header_view \<Rightarrow> keyword_field list \<Rightarrow> ('e, 'v) visitor \<Rightarrow> 'v \<Rightarrow>
    'e structured_visit_error + (bool \<times> 'v work_state)" where
  "any_keyword header wanted m u = visit_keywords header wanted m u"

definition collect_visitor :: "(unit, bytes list) visitor" where
  "collect_visitor keywords keyword = Inr (False, keywords @ [keyword])"

definition collect_keywords :: "header_view \<Rightarrow> keyword_field list \<Rightarrow> unit structured_visit_error + bytes list" where
  "collect_keywords header wanted =
     (case visit_keywords header wanted collect_visitor [] of
        Inl e \<Rightarrow> Inl e
      | Inr (_, w) \<Rightarrow> Inr (ws_visitor w))"

fun configured_loop :: "usize \<Rightarrow> bytes list \<Rightarrow> bytes list \<Rightarrow> configured_keyword_error + bytes list" where
  "configured_loop n keywords [] =
     (if keywords = [] then Inl KeywordsEmpty else Inr keywords)"
| "configured_loop n keywords (token # tokens) =
     (case valid_keyword_str token of
        None \<Rightarrow> Inl KeywordsInvalidToken
      | Some keyword \<Rightarrow>
          (case checked_add n 1 of
             None \<Rightarrow> Inl (KeywordsTooMany MAX_STRUCTURED_HEADER_VALUES)
           | Some n' \<Rightarrow>
               if n' > MAX_STRUCTURED_HEADER_VALUES
               then Inl (KeywordsTooMany MAX_STRUCTURED_HEADER_VALUES)
               else configured_loop n'
                      (if keyword \<in> set keywords then keywords else keywords @ [keyword]) tokens))"

definition parse_configured_keywords :: "bytes \<Rightarrow> configured_keyword_error + bytes list" where
  "parse_configured_keywords value =
     configured_loop 0 [] (filter (\<lambda>t. t \<noteq> []) (split_on is_list_separator value))"

section \<open>Keywords in the configuration\<close>

lemma valid_keyword_str_Some: "valid_keyword_str t = Some k \<Longrightarrow> k = t"
  by (auto simp: valid_keyword_str_def split: if_splits)

lemma valid_keyword_str_ne: "valid_keyword_str t \<noteq> None \<Longrightarrow> t \<noteq> []"
  by (auto simp: valid_keyword_str_def)

definition first_occurrences :: "bytes list \<Rightarrow> bytes list" where
  "first_occurrences ts = rev (remdups (rev ts))"

lemma first_occurrences_snoc:
  "first_occurrences (ts @ [t]) =
     (if t \<in> set ts then first_occurrences ts else first_occurrences ts @ [t])"
  by (simp add: first_occurrences_def)

lemma set_first_occurrences [simp]: "set (first_occurrences ts) = set ts"
  by (simp add: first_occurrences_def)

lemma first_occurrences_eq_Nil [simp]: "first_occurrences ts = [] \<longleftrightarrow> ts = []"
  by (simp add: first_occurrences_def)

lemma configured_loop_exact:
  assumes "length done \<le> MAX_STRUCTURED_HEADER_VALUES"
  shows "configured_loop (length done) (first_occurrences done) ts = Inr ks \<longleftrightarrow>
    done @ ts \<noteq> [] \<and> (\<forall>t \<in> set ts. valid_keyword_str t \<noteq> None) \<and>
    length (done @ ts) \<le> MAX_STRUCTURED_HEADER_VALUES \<and> ks = first_occurrences (done @ ts)"
  using assms
proof (induction ts arbitrary: "done")
  case Nil
  then show ?case by auto
next
  case (Cons t ts)
  show ?case
  proof (cases "valid_keyword_str t")
    case None
    then show ?thesis by simp
  next
    case (Some k)
    then have k: "k = t" by (rule valid_keyword_str_Some)
    have small: "MAX_STRUCTURED_HEADER_VALUES < usize_max"
      by (simp add: MAX_STRUCTURED_HEADER_VALUES_def usize_max_def)
    show ?thesis
    proof (cases "length done + 1 \<le> MAX_STRUCTURED_HEADER_VALUES")
      case True
      with Cons.IH [of "done @ [t]"] Some k small Cons.prems show ?thesis
        by (simp add: checked_add_def first_occurrences_snoc if_distrib split del: if_split)
    next
      case False
      with Some small Cons.prems show ?thesis by (auto simp: checked_add_def)
    qed
  qed
qed

text \<open>
  A configured keyword list is accepted exactly when it has at least one and at most 4096
  tokens and every token is printable ASCII; the result then lists each token once, in the
  order of first occurrence.
\<close>

theorem parse_configured_keywords_exact:
  "parse_configured_keywords v = Inr ks \<longleftrightarrow>
   (let ts = filter (\<lambda>t. t \<noteq> []) (split_on is_list_separator v)
    in ts \<noteq> [] \<and> list_all (\<lambda>t. valid_keyword_str t \<noteq> None) ts \<and>
       length ts \<le> MAX_STRUCTURED_HEADER_VALUES \<and> ks = first_occurrences ts)"
  using configured_loop_exact [of "[]" "filter (\<lambda>t. t \<noteq> []) (split_on is_list_separator v)" ks]
  by (simp add: parse_configured_keywords_def list_all_iff Let_def first_occurrences_def)

section \<open>Keywords of a message\<close>

definition keyword_values :: "keyword_field list \<Rightarrow> field \<Rightarrow> bytes list" where
  "keyword_values wanted f =
     (case (f_name f, field_value f) of
        (Some name, Some value) \<Rightarrow>
          if list_ex (\<lambda>k. eq_ignore_ascii_case name (keyword_field_name k)) wanted
          then List.map_filter valid_keyword_str (keyword_tokens value) else []
      | _ \<Rightarrow> [])"

definition collecting :: "bytes list work_state \<Rightarrow> bool" where
  "collecting w \<longleftrightarrow> ws_visitor w = ws_seen w \<and> distinct (ws_seen w) \<and>
     length (ws_seen w) \<le> ws_count w \<and> ws_count w \<le> MAX_STRUCTURED_HEADER_VALUES"

lemma collect_values:
  assumes "visit_values True collect_visitor w vs = Inr (b, w')" and "collecting w"
  shows "\<not> b \<and> collecting w' \<and> set (ws_seen w') = set (ws_seen w) \<union> set vs"
  using assms
proof (induction vs arbitrary: w)
  case Nil
  then show ?case by simp
next
  case (Cons v vs)
  show ?case
  proof (cases "v \<in> set (ws_seen w)")
    case True
    have "visit_values True collect_visitor (w\<lparr>ws_count := ws_count w + 1\<rparr>) vs = Inr (b, w')"
      and "ws_count w + 1 \<le> MAX_STRUCTURED_HEADER_VALUES"
      using Cons.prems(1) True by (auto simp: checked_add_def split: if_splits)
    moreover from this have "collecting (w\<lparr>ws_count := ws_count w + 1\<rparr>)"
      using Cons.prems(2) by (auto simp: collecting_def)
    ultimately show ?thesis using Cons.IH [of "w\<lparr>ws_count := ws_count w + 1\<rparr>"] True by auto
  next
    case False
    let ?w = "w\<lparr>ws_count := ws_count w + 1, ws_seen := ws_seen w @ [v], ws_visitor := ws_visitor w @ [v]\<rparr>"
    have "visit_values True collect_visitor ?w vs = Inr (b, w')"
      and "ws_count w + 1 \<le> MAX_STRUCTURED_HEADER_VALUES"
      using Cons.prems(1) False by (auto simp: checked_add_def collect_visitor_def [of "ws_visitor w"] Let_def split: if_splits)
    moreover from this have "collecting ?w" using Cons.prems(2) False by (auto simp: collecting_def)
    ultimately show ?thesis using Cons.IH [of ?w] by auto
  qed
qed

lemma collect_fields:
  assumes "visit_fields (\<lambda>w name value.
      if \<not> list_ex (\<lambda>f. eq_ignore_ascii_case name (keyword_field_name f)) wanted then Inr (False, w)
      else visit_values True collect_visitor w (List.map_filter valid_keyword_str (keyword_tokens value)))
    w fs = Inr (b, w')" and "collecting w"
  shows "collecting w' \<and> set (ws_seen w') = set (ws_seen w) \<union> (\<Union>f \<in> set fs. set (keyword_values wanted f))"
  using assms
proof (induction fs arbitrary: w)
  case Nil
  then show ?case by simp
next
  case (Cons f fs)
  show ?case
  proof (cases "\<exists>n v. f_name f = Some n \<and> field_value f = Some v \<and>
      list_ex (\<lambda>k. eq_ignore_ascii_case n (keyword_field_name k)) wanted")
    case False
    then show ?thesis
      using Cons by (auto simp: keyword_values_def split: option.splits if_splits)
  next
    case True
    then obtain n v where nv: "f_name f = Some n" "field_value f = Some v"
      "list_ex (\<lambda>k. eq_ignore_ascii_case n (keyword_field_name k)) wanted" by blast
    let ?vs = "List.map_filter valid_keyword_str (keyword_tokens v)"
    obtain b1 w1 where w1: "visit_values True collect_visitor w ?vs = Inr (b1, w1)"
      using Cons.prems(1) nv by (auto split: sum.splits)
    note c = collect_values [OF w1 Cons.prems(2)]
    then show ?thesis
      using Cons.IH [of w1] Cons.prems(1) nv w1 by (auto simp: keyword_values_def)
  qed
qed

text \<open>
  Collecting the keywords of a header, when it stays within the work limit, gives every
  valid token of every requested keyword field exactly once, and never more than 4096.
\<close>

theorem collect_keywords_complete:
  assumes "collect_keywords header wanted = Inr ks"
  shows "distinct ks \<and> length ks \<le> MAX_STRUCTURED_HEADER_VALUES \<and>
    set ks = (\<Union>f \<in> set (view_fields_of header). set (keyword_values wanted f))"
proof -
  have "collecting (work_start [])" by (simp add: collecting_def work_start_def)
  then show ?thesis
    using assms collect_fields [of wanted "work_start []" "view_fields_of header"]
    by (fastforce simp: collect_keywords_def visit_keywords_def collecting_def work_start_def
        split: sum.splits prod.splits)
qed

theorem collect_keywords_complete_witness:
  "distinct [ascii ''b'']"
proof -
  have "collect_keywords (View_Raw (ascii ''X-Label: b b'')) [KF_XLabel] = Inr [ascii ''b'']"
    by (simp add: collect_keywords_def visit_keywords_def view_fields_of_def raw_fields.simps
        next_field_def first_line_def continuation.simps field_from_bytes_def field_value_def
        checked_add_def usize_max_def get_from_def eq_ignore_ascii_case_def byte_defs
        keyword_tokens_def split_on_def List.map_filter_def valid_keyword_str_def valid_utf8_ascii valid_utf8_def
        work_start_def MAX_STRUCTURED_HEADER_VALUES_def collect_visitor_def Let_def)
  from collect_keywords_complete [OF this] show ?thesis by blast
qed

section \<open>Addresses\<close>

lemma dot_atom_bytes:
  assumes "valid_dot_atom v" and "b \<in> set v"
  shows "is_ascii b \<and> b \<noteq> CR \<and> b \<noteq> LF"
proof -
  have "is_ascii_alphanumeric b \<or> is_atext_symbol b"
    using assms by (auto simp: valid_dot_atom_def list_all_iff)
  then show ?thesis
  proof
    assume "is_ascii_alphanumeric b"
    then show ?thesis unfolding byte_defs by unat_arith
  next
    assume "is_atext_symbol b"
    then show ?thesis by (auto simp: is_atext_symbol_def is_ascii_def)
  qed
qed

lemma quoted_local_bytes:
  "quoted_local_ok e bs \<Longrightarrow> b \<in> set bs \<Longrightarrow> is_ascii b \<and> b \<noteq> CR \<and> b \<noteq> LF"
  by (induction e bs rule: quoted_local_ok.induct) (auto simp: is_ascii_def split: if_splits)

lemma ends_split:
  assumes "length v \<ge> 2" and "first v = Some a" and "last_opt v = Some c"
  shows "v = a # slice v 1 (length v - 1) @ [c]"
proof -
  obtain x ys where v: "v = x # ys" using assms(1) by (cases v) auto
  with assms(1) obtain zs y where "ys = zs @ [y]" by (cases ys rule: rev_cases) auto
  with v assms(2,3) show ?thesis by (simp add: last_opt_def slice_def)
qed

lemma delimited_bytes:
  assumes "length v \<ge> 2" and "first v = Some a" and "last_opt v = Some c" and "b \<in> set v"
  shows "b = a \<or> b = c \<or> b \<in> set (slice v 1 (length v - 1))"
  using assms(4) by (subst (asm) ends_split [OF assms(1-3)]) auto

lemma valid_local_bytes:
  assumes "valid_local v" and "b \<in> set v"
  shows "is_ascii b \<and> b \<noteq> CR \<and> b \<noteq> LF"
proof (cases "length v \<ge> 2 \<and> first v = Some DQUOTE \<and> last_opt v = Some DQUOTE")
  case True
  then have "quoted_local_ok False (slice v 1 (length v - 1))" using assms(1) by (simp add: valid_local_def)
  then show ?thesis
    using delimited_bytes [of v DQUOTE DQUOTE b] True assms(2) quoted_local_bytes
    by (auto simp: is_ascii_def)
next
  case False
  then have "valid_dot_atom v" using assms(1) by (auto simp: valid_local_def)
  then show ?thesis using dot_atom_bytes assms(2) by blast
qed

lemma valid_domain_bytes:
  assumes "valid_domain v" and "b \<in> set v"
  shows "is_ascii b \<and> b \<noteq> CR \<and> b \<noteq> LF"
proof (cases "length v \<ge> 2 \<and> first v = Some 91 \<and> last_opt v = Some 93")
  case True
  then have "\<forall>c \<in> set (slice v 1 (length v - 1)). is_ascii_graphic c"
    using assms(1) by (simp add: valid_domain_def list_all_iff)
  moreover have "is_ascii_graphic c \<Longrightarrow> is_ascii c \<and> c \<noteq> CR \<and> c \<noteq> LF" for c
    unfolding byte_defs by unat_arith
  ultimately show ?thesis
    using delimited_bytes [of v 91 93 b] True assms(2) by (auto simp: is_ascii_def)
next
  case False
  then have "valid_dot_atom v" using assms(1) by (auto simp: valid_domain_def)
  then show ?thesis using dot_atom_bytes assms(2) by blast
qed

lemma lowercase_plain:
  assumes "is_ascii b \<and> b \<noteq> CR \<and> b \<noteq> LF"
  shows "is_ascii (to_ascii_lowercase b) \<and> to_ascii_lowercase b \<noteq> CR \<and> to_ascii_lowercase b \<noteq> LF"
proof (cases "is_ascii_uppercase b")
  case True
  then have "b + 32 < 128 \<and> b + 32 \<noteq> CR \<and> b + 32 \<noteq> LF" unfolding byte_defs by unat_arith auto
  then show ?thesis using True by (simp add: to_ascii_lowercase_def is_ascii_def)
next
  case False
  then show ?thesis using assms by (simp add: to_ascii_lowercase_def)
qed

text \<open>
  An address taken from a header is one local part, one at sign and a lower-case domain
  that both passed validation; it is ASCII and has no line break, so that it can be matched
  or reused without breaking a line.
\<close>

theorem normalize_mailbox_sound:
  assumes "normalize_mailbox element = Some address"
  shows "\<exists>local domain. address = local @ [64] @ map to_ascii_lowercase domain \<and>
    valid_local local \<and> valid_domain domain \<and>
    list_all (\<lambda>b. is_ascii b \<and> b \<noteq> CR \<and> b \<noteq> LF) address"
proof -
  obtain src where "normalize_addr_spec src = Some address"
    using assms by (auto simp: normalize_mailbox_def Let_def split: if_splits option.splits)
  then obtain local domain where a: "address = local @ [64] @ map to_ascii_lowercase domain"
    "valid_local local" "valid_domain domain"
    by (auto simp: normalize_addr_spec_def Let_def split: if_splits option.splits)
  then have "list_all (\<lambda>b. is_ascii b \<and> b \<noteq> CR \<and> b \<noteq> LF) address"
    using valid_local_bytes [OF a(2)] lowercase_plain [OF valid_domain_bytes [OF a(3)]]
    by (auto simp: list_all_iff is_ascii_def)
  then show ?thesis using a by blast
qed

theorem normalize_mailbox_sound_witness:
  "valid_domain (ascii ''eX.org'') \<and> normalize_mailbox (ascii ''Me <a@eX.org>'') = Some (ascii ''a@ex.org'')"
proof -
  have run: "normalize_mailbox (ascii ''Me <a@eX.org>'') = Some (ascii ''a@ex.org'')"
    by (simp add: normalize_mailbox_def trim_ascii_def trim_start_def find_unquoted_def normalize_addr_spec_def
        at_start_def slice_def valid_local_def valid_domain_def valid_dot_atom_def is_atext_symbol_def
        last_opt_def byte_defs Let_def)
  have "valid_domain (ascii ''eX.org'')"
    by (simp add: valid_domain_def valid_dot_atom_def is_atext_symbol_def last_opt_def byte_defs)
  then show ?thesis using normalize_mailbox_sound [OF run] run by simp
qed

end
