(* ===== verification/Header_Value.thy ===== *)
theory Header_Value
  imports Utf8_Text Bounded_Bytes Header_Store
begin

text \<open>
  Generated and decoded header values, \<open>src/header_value.rs\<close>: base64, the Q encoding, RFC 2047
  encoded words in both directions, and the serialisation of a generated field.  A \<open>&str\<close> is
  the list of its UTF-8 bytes; the functions that take one are meant for well-formed text.
\<close>

unbundle bit_operations_syntax

definition RFC5322_HEADER_LINE_LIMIT :: usize where "RFC5322_HEADER_LINE_LIMIT = 998"
definition RFC2047_HEADER_LINE_LIMIT :: usize where "RFC2047_HEADER_LINE_LIMIT = 76"
definition RFC2047_INPUT_CHUNK :: usize where "RFC2047_INPUT_CHUNK = 45"
definition ENCODED_WORD_PREFIX :: bytes where "ENCODED_WORD_PREFIX = ascii ''=?UTF-8?B?''"
definition ENCODED_WORD_SUFFIX :: bytes where "ENCODED_WORD_SUFFIX = ascii ''?=''"
definition BASE64 :: bytes where
  "BASE64 = ascii ''ABCDEFGHIJKLMNOPQRSTUVWXYZabcdefghijklmnopqrstuvwxyz0123456789+/''"

abbreviation QUESTION :: byte where "QUESTION \<equiv> 63"
abbreviation EQUALS :: byte where "EQUALS \<equiv> 61"

datatype generated_header_error = GH_InvalidValue | GH_LineTooLong | GH_SizeOverflow
datatype generated_header_encoding = Enc_Ascii | Enc_Rfc2047

section \<open>Decoding\<close>

definition base64_value :: "byte \<Rightarrow> decoded_header_error + byte" where
  "base64_value b =
     (if 65 \<le> b \<and> b \<le> 90 then Inr (b - 65)
      else if 97 \<le> b \<and> b \<le> 122 then Inr (b - 97 + 26)
      else if 48 \<le> b \<and> b \<le> 57 then Inr (b - 48 + 52)
      else if b = 43 then Inr 62
      else if b = 47 then Inr 63
      else Inl MalformedWord)"

text \<open>One chunk of four characters; \<open>is_last\<close> is \<open>index + 1 == input.len() / 4\<close>.\<close>

definition decode_quad :: "bool \<Rightarrow> byte \<Rightarrow> byte \<Rightarrow> byte \<Rightarrow> byte \<Rightarrow> decoded_header_error + bytes" where
  "decode_quad is_last c0 c1 c2 c3 =
     (case base64_value c0 of
        Inl e \<Rightarrow> Inl e
      | Inr a \<Rightarrow>
     (case base64_value c1 of
        Inl e \<Rightarrow> Inl e
      | Inr b \<Rightarrow>
     (case (if c2 = EQUALS then if \<not> is_last \<or> c3 \<noteq> EQUALS then Inl MalformedWord else Inr 0
            else base64_value c2) of
        Inl e \<Rightarrow> Inl e
      | Inr c \<Rightarrow>
     (case (if c3 = EQUALS then if \<not> is_last then Inl MalformedWord else Inr 0
            else base64_value c3) of
        Inl e \<Rightarrow> Inl e
      | Inr d \<Rightarrow>
          if c2 = EQUALS \<and> b AND 15 \<noteq> 0 \<or> c3 = EQUALS \<and> c AND 3 \<noteq> 0 then Inl MalformedWord
          else Inr ([push_bit 2 a OR drop_bit 4 b] @
                    (if c2 \<noteq> EQUALS then [push_bit 4 b OR drop_bit 2 c] else []) @
                    (if c3 \<noteq> EQUALS then [push_bit 6 c OR d] else []))))))"

fun decode_chunks :: "bytes \<Rightarrow> decoded_header_error + bytes" where
  "decode_chunks (c0 # c1 # c2 # c3 # rest) =
     (case decode_quad (rest = []) c0 c1 c2 c3 of
        Inl e \<Rightarrow> Inl e
      | Inr out \<Rightarrow>
          (case decode_chunks rest of
             Inl e \<Rightarrow> Inl e
           | Inr out2 \<Rightarrow> Inr (out @ out2)))"
| "decode_chunks _ = Inr []"

definition decode_base64 :: "bytes \<Rightarrow> decoded_header_error + bytes" where
  "decode_base64 input =
     (if length input mod 4 \<noteq> 0 then Inl MalformedWord else decode_chunks input)"

definition hex_value :: "byte \<Rightarrow> byte option" where
  "hex_value b =
     (if 48 \<le> b \<and> b \<le> 57 then Some (b - 48)
      else if 97 \<le> b \<and> b \<le> 102 then Some (b - 97 + 10)
      else if 65 \<le> b \<and> b \<le> 70 then Some (b - 65 + 10)
      else None)"

fun decode_q :: "bytes \<Rightarrow> decoded_header_error + bytes" where
  "decode_q [] = Inr []"
| "decode_q (b # rest) =
     (if b = 95 then (case decode_q rest of Inl e \<Rightarrow> Inl e | Inr out \<Rightarrow> Inr (SP # out))
      else if b = EQUALS then
        (case rest of
           h # l # rest' \<Rightarrow>
             (case hex_value h of
                None \<Rightarrow> Inl MalformedWord
              | Some high \<Rightarrow>
                  (case hex_value l of
                     None \<Rightarrow> Inl MalformedWord
                   | Some low \<Rightarrow>
                       (case decode_q rest' of
                          Inl e \<Rightarrow> Inl e
                        | Inr out \<Rightarrow> Inr ((push_bit 4 high OR low) # out))))
         | _ \<Rightarrow> Inl MalformedWord)
      else if 33 \<le> b \<and> b \<le> 126 then (case decode_q rest of Inl e \<Rightarrow> Inl e | Inr out \<Rightarrow> Inr (b # out))
      else Inl MalformedWord)"

definition transcode :: "bytes \<Rightarrow> bytes \<Rightarrow> decoded_header_error + bytes" where
  "transcode charset input =
     (if eq_ignore_ascii_case charset (ascii ''UTF-8'') then
        if valid_utf8 input then Inr input else Inl InvalidText
      else if eq_ignore_ascii_case charset (ascii ''US-ASCII'') then
        if list_ex (\<lambda>b. b > 127) input then Inl InvalidText else Inr input
      else if eq_ignore_ascii_case charset (ascii ''ISO-8859-1'') then
        Inr (concat (map encode_latin1 input))
      else Inl UnsupportedCharset)"

definition is_window :: "byte \<Rightarrow> byte \<Rightarrow> byte \<Rightarrow> byte \<Rightarrow> bool" where
  "is_window x y a b \<longleftrightarrow> a = x \<and> b = y"

definition find_encoded_word :: "bytes \<Rightarrow> nat option" where
  "find_encoded_word input = position_window2 (is_window EQUALS QUESTION) input"

text \<open>The four delimiters of an encoded word: both question marks, the text and the end.\<close>

definition word_bounds :: "bytes \<Rightarrow> (nat \<times> nat \<times> nat \<times> nat) option" where
  "word_bounds input =
     (case position (\<lambda>b. b = QUESTION) (drop 2 input) of
        None \<Rightarrow> None
      | Some offset \<Rightarrow>
     (case checked_add offset 2 of
        None \<Rightarrow> None
      | Some first_mark \<Rightarrow>
     (case position (\<lambda>b. b = QUESTION) (drop (first_mark + 1) input) of
        None \<Rightarrow> None
      | Some offset \<Rightarrow>
     (let second = first_mark + 1 + offset in
      case checked_add second 1 of
        None \<Rightarrow> None
      | Some encoded_start \<Rightarrow>
     (case position_window2 (is_window QUESTION EQUALS) (drop encoded_start input) of
        None \<Rightarrow> None
      | Some offset \<Rightarrow>
     (case checked_add encoded_start offset of
        None \<Rightarrow> None
      | Some e \<Rightarrow>
     (case checked_add e 2 of
        None \<Rightarrow> None
      | Some end_at \<Rightarrow> Some (first_mark, second, encoded_start, end_at))))))))"

definition decode_word :: "bytes \<Rightarrow> decoded_header_error + nat \<times> bytes" where
  "decode_word input =
     (case word_bounds input of
        None \<Rightarrow> Inl MalformedWord
      | Some (first_mark, second, encoded_start, end_at) \<Rightarrow>
          if end_at > 75 then Inl MalformedWord
          else
            let charset = slice input 2 first_mark;
                encoding = slice input (first_mark + 1) second;
                encoded = slice input encoded_start (end_at - 2)
            in if charset = [] \<or> length encoding \<noteq> 1 \<or> encoded = [] \<or> QUESTION \<in> set encoded
               then Inl MalformedWord
               else
                 (case (if to_ascii_uppercase (encoding ! 0) = 66 then decode_base64 encoded
                        else if to_ascii_uppercase (encoding ! 0) = 81 then decode_q encoded
                        else Inl UnsupportedEncoding) of
                    Inl e \<Rightarrow> Inl e
                  | Inr bytes \<Rightarrow>
                      (case transcode charset bytes of
                         Inl e \<Rightarrow> Inl e
                       | Inr text \<Rightarrow> Inr (end_at, text))))"

definition append_decoded_text ::
    "bounded_bytes \<Rightarrow> bytes \<Rightarrow> decoded_header_error + bounded_bytes" where
  "append_decoded_text output text =
     (case utf8_chars text of
        None \<Rightarrow> Inl InvalidText
      | Some cs \<Rightarrow>
          if list_ex (\<lambda>c. c \<noteq> [TAB] \<and> char_is_control c) cs then Inl InvalidText
          else (case try_extend output text of Inl _ \<Rightarrow> Inl DecodedTooLong | Inr out \<Rightarrow> Inr out))"

lemma word_bounds_positive: "word_bounds input = Some (a, b, c, e) \<Longrightarrow> 0 < e"
  by (auto simp: word_bounds_def Let_def checked_add_def split: option.splits if_splits)

lemma decode_word_progress: "decode_word input = Inr (n, text) \<Longrightarrow> 0 < n"
  by (auto simp: decode_word_def Let_def dest: word_bounds_positive
      split: option.splits prod.splits if_splits sum.splits)

lemma find_encoded_word_progress:
  "\<not> starts_with xs [EQUALS, QUESTION] \<Longrightarrow> find_encoded_word xs = Some i \<Longrightarrow> 0 < i"
  by (cases xs; cases "tl xs")
    (auto simp: find_encoded_word_def is_window_def split: if_splits)

text \<open>The loop over the input; \<open>rest\<close> is \<open>&input[cursor..]\<close>.\<close>

function decode_loop :: "bytes \<Rightarrow> bool \<Rightarrow> bounded_bytes \<Rightarrow> decoded_header_error + bounded_bytes" where
  "decode_loop rest previous_encoded output =
     (if rest = [] then Inr output
      else if starts_with rest [EQUALS, QUESTION] then
        (case decode_word rest of
           Inl e \<Rightarrow> Inl e
         | Inr (end_at, decoded) \<Rightarrow>
             (case append_decoded_text output decoded of
                Inl e \<Rightarrow> Inl e
              | Inr output' \<Rightarrow> decode_loop (drop end_at rest) True output'))
      else
        let next = (case find_encoded_word rest of None \<Rightarrow> length rest | Some offset \<Rightarrow> offset);
            text = take next rest
        in if \<not> (previous_encoded \<and> next < length rest \<and> list_all is_blank text)
           then (case append_decoded_text output text of
                   Inl e \<Rightarrow> Inl e
                 | Inr output' \<Rightarrow> decode_loop (drop next rest) False output')
           else decode_loop (drop next rest) previous_encoded output)"
  by pat_completeness auto
termination
  by (relation "measure (\<lambda>(rest, p, out). length rest)")
    (auto dest: decode_word_progress find_encoded_word_progress split: option.splits)

declare decode_loop.simps [simp del]

definition decode_rfc2047 :: "bytes \<Rightarrow> usize \<Rightarrow> decoded_header_error + bytes" where
  "decode_rfc2047 input limit =
     (case decode_loop input False (with_capacity limit (length input)) of
        Inl e \<Rightarrow> Inl e
      | Inr output \<Rightarrow> Inr (into_vec output))"

section \<open>Generating\<close>

fun scan_generated :: "bool \<Rightarrow> bytes list \<Rightarrow> generated_header_error + bool" where
  "scan_generated non_ascii [] = Inr non_ascii"
| "scan_generated non_ascii (c # cs) =
     (if (case c of [b] \<Rightarrow> b = TAB \<or> is_ascii_graphic b \<or> b = SP | _ \<Rightarrow> False)
      then scan_generated non_ascii cs
      else if char_is_control c then Inl GH_InvalidValue
      else scan_generated True cs)"

definition validate_generated_header_value ::
    "bytes \<Rightarrow> bytes \<Rightarrow> generated_header_error + generated_header_encoding" where
  "validate_generated_header_value name value =
     (case scan_generated False (chars value) of
        Inl e \<Rightarrow> Inl e
      | Inr True \<Rightarrow> Inr Enc_Rfc2047
      | Inr False \<Rightarrow>
          (case Option.bind (checked_add (length name) 2) (\<lambda>n. checked_add n (length value)) of
             None \<Rightarrow> Inl GH_SizeOverflow
           | Some line_size \<Rightarrow>
               if line_size > RFC5322_HEADER_LINE_LIMIT then Inl GH_LineTooLong else Inr Enc_Ascii))"

fun canonical_name :: "bool \<Rightarrow> bytes \<Rightarrow> bytes" where
  "canonical_name beginning [] = []"
| "canonical_name beginning (b # bs) =
     (if beginning then to_ascii_uppercase b else to_ascii_lowercase b) # canonical_name (b = 45) bs"

definition append_canonical_header_name :: "bytes \<Rightarrow> bytes \<Rightarrow> bytes" where
  "append_canonical_header_name output name = output @ canonical_name True name"

definition serialize_ascii :: "bytes \<Rightarrow> bytes \<Rightarrow> bytes \<Rightarrow> generated_header_error + bytes" where
  "serialize_ascii name value ending =
     (case Option.bind (Option.bind (checked_add (length name) 2) (\<lambda>n. checked_add n (length value)))
             (\<lambda>n. checked_add n (length ending)) of
        None \<Rightarrow> Inl GH_SizeOverflow
      | Some _ \<Rightarrow> Inr (append_canonical_header_name [] name @ [COLON, SP] @ value @ ending))"

definition base64_len :: "usize \<Rightarrow> generated_header_error + usize" where
  "base64_len input =
     (case Option.bind (checked_add input 2) (\<lambda>n. checked_mul (n div 3) 4) of
        None \<Rightarrow> Inl GH_SizeOverflow
      | Some n \<Rightarrow> Inr n)"

definition base64_char :: "byte \<Rightarrow> byte" where
  "base64_char i = BASE64 ! unat i"

fun append_base64 :: "bytes \<Rightarrow> bytes" where
  "append_base64 (x # y # z # rest) =
     [base64_char (drop_bit 2 x), base64_char (push_bit 4 (x AND 3) OR drop_bit 4 y),
      base64_char (push_bit 2 (y AND 15) OR drop_bit 6 z), base64_char (z AND 63)] @ append_base64 rest"
| "append_base64 [x, y] =
     [base64_char (drop_bit 2 x), base64_char (push_bit 4 (x AND 3) OR drop_bit 4 y),
      base64_char (push_bit 2 (y AND 15) OR drop_bit 6 0), EQUALS]"
| "append_base64 [x] =
     [base64_char (drop_bit 2 x), base64_char (push_bit 4 (x AND 3) OR drop_bit 4 0), EQUALS, EQUALS]"
| "append_base64 [] = []"

fun boundary_back :: "bytes \<Rightarrow> nat \<Rightarrow> nat" where
  "boundary_back value 0 = 0"
| "boundary_back value (Suc e) =
     (if is_char_boundary value (Suc e) then Suc e else boundary_back value e)"

definition chunk_end :: "bytes \<Rightarrow> nat \<Rightarrow> nat" where
  "chunk_end value start =
     boundary_back value
       (case checked_add start RFC2047_INPUT_CHUNK of
          None \<Rightarrow> length value
        | Some e \<Rightarrow> min e (length value))"

text \<open>
  The loop over the chunks.  When the chunk is empty the source loop does not advance and
  never ends, which is the value \<open>None\<close>.
\<close>

function rfc2047_loop ::
    "bytes \<Rightarrow> bytes \<Rightarrow> nat \<Rightarrow> bool \<Rightarrow> bytes \<Rightarrow> (generated_header_error + bytes) option" where
  "rfc2047_loop value ending start is_first out =
     (if start < length value then
        let end_at = chunk_end value start
        in if end_at \<le> start then None
           else
             (case base64_len (end_at - start) of
                Inl e \<Rightarrow> Some (Inl e)
              | Inr encoded_len \<Rightarrow>
                  (case Option.bind (checked_add (length ENCODED_WORD_PREFIX) encoded_len)
                          (\<lambda>n. checked_add n (length ENCODED_WORD_SUFFIX)) of
                     None \<Rightarrow> Some (Inl GH_SizeOverflow)
                   | Some word_len \<Rightarrow>
                       let fits_first_line =
                             is_first \<and>
                             (case Option.bind (checked_add (length out) 1)
                                     (\<lambda>n. checked_add n word_len) of
                                None \<Rightarrow> False
                              | Some n \<Rightarrow> n \<le> RFC2047_HEADER_LINE_LIMIT)
                       in rfc2047_loop value ending end_at False
                            (out @ (if fits_first_line then [SP] else ending @ [SP]) @
                             ENCODED_WORD_PREFIX @ append_base64 (slice value start end_at) @
                             ENCODED_WORD_SUFFIX)))
      else Some (Inr (out @ ending)))"
  by pat_completeness auto
termination
  by (relation "measure (\<lambda>(value, ending, start, f, out). length value - start)") auto

declare rfc2047_loop.simps [simp del]

definition serialize_rfc2047 ::
    "bytes \<Rightarrow> bytes \<Rightarrow> bytes \<Rightarrow> (generated_header_error + bytes) option" where
  "serialize_rfc2047 name value ending =
     rfc2047_loop value ending 0 True (append_canonical_header_name [] name @ [COLON])"

definition serialize_generated_header ::
    "bytes \<Rightarrow> bytes \<Rightarrow> bytes \<Rightarrow> (generated_header_error + bytes) option" where
  "serialize_generated_header name value ending =
     (case validate_generated_header_value name value of
        Inl e \<Rightarrow> Some (Inl e)
      | Inr Enc_Ascii \<Rightarrow> Some (serialize_ascii name value ending)
      | Inr Enc_Rfc2047 \<Rightarrow> serialize_rfc2047 name value ending)"

end
