(* ===== verification/Shell_Parse.thy ===== *)
theory Shell_Parse
  imports Shell_Eval Structured_Header Header_Value
begin

text \<open>
  The parser of shell expressions, \<open>ExpressionParser\<close> of \<open>src/config/expand.rs\<close>.  The cursor
  \<open>index\<close> into the input is the rest of the input from that index on; a \<open>&str\<close> is the list of
  its UTF-8 bytes.  The recursion of the parser through a parameter word is one recursive
  function, \<open>until_loop\<close>: what comes before a word in \<open>parse_variable\<close> and
  \<open>parse_braced_variable\<close> is \<open>variable_head\<close>, which says how to go on after the word.
\<close>

section \<open>Errors\<close>

text \<open>The message texts of \<open>ExpansionError\<close>, by what they are about.\<close>

datatype syntax_message =
    Msg_DepthLimit
  | Msg_InvalidUtf8
  | Msg_UnterminatedSingle
  | Msg_UnterminatedDouble
  | Msg_UnterminatedCommand
  | Msg_MissingBrace
  | Msg_RegexMissingName
  | Msg_DollarName
  | Msg_RegexBraced
  | Msg_RegexPositional
  | Msg_RegexCount
  | Msg_RegexSpecial
  | Msg_UnsupportedSpecial
  | Msg_UnsupportedVariable bytes
  | Msg_LengthTrailing
  | Msg_PositionalOperator
  | Msg_ProtectedAssignment bytes
  | Msg_UnsupportedOperator
  | Msg_PositionalTooLarge
  | Msg_PositionalRange
  | Msg_InvalidName
  | Msg_MoreThanOneWord

datatype path_message =
    Msg_PathNotUtf8
  | Msg_PathEmpty
  | Msg_PathNul
  | Msg_PathTrailingSlash
  | Msg_PathNoEntry
  | Msg_PathEmptyComponent
  | Msg_PathDot
  | Msg_PathDotDot
  | Msg_MultipleDestinations
  | Msg_DiscardPath
  | Msg_NoOrderedExpression
  | Msg_OrderedNotExecuted
  | Msg_CommandNotExecuted

datatype expansion_message =
    Msg_Syntax syntax_message
  | Msg_Path path_message
  | Msg_DepthOverflow
  | Msg_LengthOverflow
  | Msg_HardLimit usize
  | Msg_LineBufLimit usize
  | Msg_NotDefined bytes
  | Msg_RuntimeNotAvailable bytes
  | Msg_RuntimeNotSet bytes
  | Msg_UnsetOrEmpty bytes
  | Msg_Pattern pattern_error
  | Msg_NotValidHere
  | Msg_CannotEvaluateHere
  | Msg_CommandNeedsOrder
  | Msg_RegexQuotedHere
  | Msg_AssignmentNotValidHere
  | Msg_AssignmentNeedsOrder
  | Msg_ValueNotUtf8
  | Msg_ConditionNotUtf8
  | Msg_Setting setting_error
  | Msg_LineBufSetting
  | Msg_NotSet bytes
  | Msg_CannotBind
  | Msg_HeaderValue generated_header_error
  | Msg_KeywordsValue configured_keyword_error
  | Msg_KeywordsLine generated_header_error
  | Msg_StatusValue configured_status_error

record expansion_error =
  xe_line :: usize
  xe_message :: expansion_message

abbreviation at_line :: "usize \<Rightarrow> expansion_message + 'a \<Rightarrow> expansion_error + 'a" where
  "at_line line r \<equiv> map_sum (\<lambda>m. \<lparr>xe_line = line, xe_message = m\<rparr>) id r"

abbreviation syntax_at :: "usize \<Rightarrow> syntax_message + 'a \<Rightarrow> expansion_error + 'a" where
  "syntax_at line r \<equiv> at_line line (map_sum Msg_Syntax id r)"

section \<open>Syntax\<close>

datatype expression_syntax = Ordinary bool | ShellCondition

datatype quote_mode = Unquoted | SingleQuote | DoubleQuote

fun allows_commands :: "expression_syntax \<Rightarrow> bool" where
  "allows_commands (Ordinary allow_commands) = allow_commands"
| "allows_commands ShellCondition = True"

abbreviation QUOTE :: byte where "QUOTE \<equiv> 39"
abbreviation BACKQUOTE :: byte where "BACKQUOTE \<equiv> 96"
abbreviation DOLLAR :: byte where "DOLLAR \<equiv> 36"
abbreviation HASH :: byte where "HASH \<equiv> 35"
abbreviation LBRACE :: byte where "LBRACE \<equiv> 123"
abbreviation RBRACE :: byte where "RBRACE \<equiv> 125"

fun escapes :: "expression_syntax \<Rightarrow> quote_mode \<Rightarrow> byte \<Rightarrow> bool" where
  "escapes (Ordinary _) Unquoted b = True"
| "escapes (Ordinary _) DoubleQuote b \<longleftrightarrow> b = DOLLAR \<or> b = BACKQUOTE \<or> b = DQUOTE \<or> b = BACKSLASH \<or> b = LF"
| "escapes (Ordinary _) SingleQuote b = False"
| "escapes ShellCondition _ b \<longleftrightarrow> b = DOLLAR \<or> b = BACKQUOTE \<or> b = DQUOTE \<or> b = BACKSLASH"

fun is_ordinary :: "expression_syntax \<Rightarrow> bool" where
  "is_ordinary (Ordinary _) = True"
| "is_ordinary ShellCondition = False"

definition is_name_start :: "byte \<Rightarrow> bool" where
  "is_name_start b \<longleftrightarrow> b = 95 \<or> is_ascii_alphabetic b"

definition is_name_continue :: "byte \<Rightarrow> bool" where
  "is_name_continue b \<longleftrightarrow> b = 95 \<or> is_ascii_alphanumeric b"

definition validate_reference_name :: "bytes \<Rightarrow> syntax_message + unit" where
  "validate_reference_name name =
     (case name of
        [] \<Rightarrow> Inl Msg_InvalidName
      | b # bs \<Rightarrow> if is_name_start b \<and> list_all is_name_continue bs then Inr () else Inl Msg_InvalidName)"

section \<open>Pieces\<close>

definition push_literal_part :: "shell_expression \<Rightarrow> bytes \<Rightarrow> shell_expression" where
  "push_literal_part parts t =
     (if t = [] then parts
      else case rev parts of
             Literal previous # before \<Rightarrow> rev before @ [Literal (previous @ t)]
           | _ \<Rightarrow> parts @ [Literal t])"

text \<open>A character is the list of its bytes; the special ones are single ASCII bytes.\<close>

definition push_expression_character :: "bytes \<Rightarrow> bytes \<Rightarrow> bool \<Rightarrow> bytes" where
  "push_expression_character literal character pattern_quoted =
     literal @ (if pattern_quoted \<and> character \<in> {[42], [63], [91], [BACKSLASH]} then [BACKSLASH] else []) @ character"

text \<open>\<open>parse_command\<close>: the text up to the first backquote that is not escaped.\<close>

fun command_loop :: "bool \<Rightarrow> bytes \<Rightarrow> bytes \<Rightarrow> (bytes \<times> bytes) option" where
  "command_loop escaped command [] = None"
| "command_loop escaped command (b # rest) =
     (if escaped then command_loop False (command @ [b]) rest
      else if b = BACKSLASH then command_loop True (command @ [b]) rest
      else if b = BACKQUOTE then Some (command, rest)
      else command_loop False (command @ [b]) rest)"

definition parse_command :: "bytes \<Rightarrow> syntax_message + shell_part \<times> bytes" where
  "parse_command rest =
     (case command_loop False [] (drop 1 rest) of
        None \<Rightarrow> Inl Msg_UnterminatedCommand
      | Some (command, rest') \<Rightarrow> Inr (Command command, rest'))"

definition parse_name :: "bytes \<Rightarrow> bytes \<times> bytes" where
  "parse_name rest =
     (case rest of
        [] \<Rightarrow> ([], [])
      | b # bs \<Rightarrow>
          if is_name_start b then (b # takeWhile is_name_continue bs, dropWhile is_name_continue bs)
          else ([], rest))"

definition parse_positional_parameter :: "bytes \<Rightarrow> syntax_message + bytes \<times> bytes" where
  "parse_positional_parameter rest =
     (let name = takeWhile is_ascii_digit rest
      in case parse_u64 name of
           None \<Rightarrow> Inl Msg_PositionalTooLarge
         | Some index \<Rightarrow>
             if \<not> (1 \<le> index \<and> index \<le> MAX_POSITIONAL_ARGUMENTS) then Inl Msg_PositionalRange
             else Inr (name, dropWhile is_ascii_digit rest))"

section \<open>Variables\<close>

text \<open>
  What follows a dollar sign: a literal dollar, a complete reference, or a reference that waits
  for its parameter word, which is a pattern or not.
\<close>

datatype variable_head =
    Head_Dollar bytes
  | Head_Done bytes parameter_operation bytes
  | Head_RegexQuoted bytes bytes
  | Head_Word bytes "shell_expression \<Rightarrow> parameter_operation" bool bytes

definition braced_operator ::
    "bytes \<Rightarrow> bool \<Rightarrow> bytes \<Rightarrow> syntax_message + variable_head" where
  "braced_operator name pattern_word rest =
     (if starts_with rest (ascii '':-'') then Inr (Head_Word name DefaultIfUnsetOrEmpty pattern_word (drop 2 rest))
      else if starts_with rest (ascii '':+'') then
        Inr (Head_Word name AlternateIfSetAndNotEmpty pattern_word (drop 2 rest))
      else if starts_with rest (ascii '':='') then
        if variable_policy_of name \<noteq> RcOrCommandLine Target_User then Inl (Msg_ProtectedAssignment name)
        else Inr (Head_Word name AssignIfUnsetOrEmpty pattern_word (drop 2 rest))
      else if starts_with rest (ascii '':?'') then
        Inr (Head_Word name ErrorIfUnsetOrEmpty pattern_word (drop 2 rest))
      else if starts_with rest (ascii ''##'') then
        Inr (Head_Word name (\<lambda>w. RemovePrefix w True) True (drop 2 rest))
      else if starts_with rest (ascii ''%%'') then
        Inr (Head_Word name (\<lambda>w. RemoveSuffix w True) True (drop 2 rest))
      else if starts_with rest (ascii ''^^'') then
        Inr (Head_Word name (\<lambda>w. ChangeCase w Upper True) True (drop 2 rest))
      else if starts_with rest (ascii '',,'') then
        Inr (Head_Word name (\<lambda>w. ChangeCase w Lower True) True (drop 2 rest))
      else if starts_with rest (ascii ''#'') then
        Inr (Head_Word name (\<lambda>w. RemovePrefix w False) True (drop 1 rest))
      else if starts_with rest (ascii ''%'') then
        Inr (Head_Word name (\<lambda>w. RemoveSuffix w False) True (drop 1 rest))
      else if starts_with rest (ascii ''^'') then
        Inr (Head_Word name (\<lambda>w. ChangeCase w Upper False) True (drop 1 rest))
      else if starts_with rest (ascii '','') then
        Inr (Head_Word name (\<lambda>w. ChangeCase w Lower False) True (drop 1 rest))
      else if starts_with rest (ascii ''-'') then Inr (Head_Word name DefaultIfUnset pattern_word (drop 1 rest))
      else if starts_with rest (ascii ''+'') then Inr (Head_Word name AlternateIfSet pattern_word (drop 1 rest))
      else if starts_with rest [RBRACE] then Inr (Head_Done name Value (drop 1 rest))
      else Inl Msg_UnsupportedOperator)"

text \<open>\<open>parse_braced_variable\<close>, from after the opening brace.\<close>

definition braced_head :: "bool \<Rightarrow> bytes \<Rightarrow> syntax_message + variable_head" where
  "braced_head pattern_word rest =
     (if starts_with rest [HASH, RBRACE] then Inr (Head_Done [HASH] Value (drop 2 rest))
      else if starts_with rest [HASH] then
        (case parse_name (drop 1 rest) of
           (name, rest1) \<Rightarrow>
             (case validate_reference_name name of
                Inl e \<Rightarrow> Inl e
              | Inr _ \<Rightarrow>
                  if \<not> starts_with rest1 [RBRACE] then Inl Msg_LengthTrailing
                  else Inr (Head_Done name Length (drop 1 rest1))))
      else if (case rest of b # _ \<Rightarrow> is_ascii_digit b | [] \<Rightarrow> False) then
        (case parse_positional_parameter rest of
           Inl e \<Rightarrow> Inl e
         | Inr (name, rest1) \<Rightarrow>
             if \<not> starts_with rest1 [RBRACE] then Inl Msg_PositionalOperator
             else Inr (Head_Done name Value (drop 1 rest1)))
      else
        (case parse_name rest of
           (name, rest1) \<Rightarrow>
             (case validate_reference_name name of
                Inl e \<Rightarrow> Inl e
              | Inr _ \<Rightarrow> braced_operator name pattern_word rest1)))"

text \<open>\<open>parse_variable\<close>, from after the dollar sign, up to its word.\<close>

definition variable_head :: "expression_syntax \<Rightarrow> bool \<Rightarrow> bytes \<Rightarrow> syntax_message + variable_head" where
  "variable_head syn pattern_word rest0 =
     (let regex_escape = (syn = ShellCondition \<and> starts_with rest0 [BACKSLASH]);
          rest = (if regex_escape then drop 1 rest0 else rest0)
      in case rest of
           [] \<Rightarrow>
             if regex_escape then Inl Msg_RegexMissingName
             else if syn = ShellCondition then Inr (Head_Dollar rest)
             else Inl Msg_DollarName
         | b # bs \<Rightarrow>
             if b = LBRACE then
               if regex_escape then Inl Msg_RegexBraced else braced_head pattern_word bs
             else if is_ascii_digit b then
               if regex_escape then Inl Msg_RegexPositional
               else (case parse_positional_parameter rest of
                       Inl e \<Rightarrow> Inl e
                     | Inr (name, rest1) \<Rightarrow> Inr (Head_Done name Value rest1))
             else if b = HASH then
               if regex_escape then Inl Msg_RegexCount else Inr (Head_Done [HASH] Value bs)
             else if b \<in> {DOLLAR, 63, 95, 45} then
               if regex_escape then Inl Msg_RegexSpecial else Inr (Head_Done [b] Value bs)
             else if \<not> is_name_start b then
               if syn = ShellCondition then
                 if b \<in> {61, 64, 42} then Inl Msg_UnsupportedSpecial else Inr (Head_Dollar rest)
               else Inl Msg_UnsupportedSpecial
             else
               (case parse_name rest of
                  (name, rest1) \<Rightarrow>
                    Inr (if regex_escape then Head_RegexQuoted name rest1 else Head_Done name Value rest1)))"

definition check_reference :: "bytes \<Rightarrow> syntax_message + unit" where
  "check_reference name =
     (if \<not> is_positional_parameter_name name \<and> variable_policy_of name = Unsupported
      then Inl (Msg_UnsupportedVariable name) else Inr ())"

section \<open>The loop\<close>

record word_state =
  ws_parts :: shell_expression
  ws_literal :: bytes
  ws_quote :: quote_mode
  ws_started :: bool

datatype parse_step =
    Step_Break
  | Step_Error syntax_message
  | Step_Continue word_state bytes
  | Step_Variable

definition flush_literal :: "word_state \<Rightarrow> word_state" where
  "flush_literal st = st\<lparr>ws_parts := push_literal_part (ws_parts st) (ws_literal st), ws_literal := []\<rparr>"

definition push_character ::
    "bool \<Rightarrow> bytes \<Rightarrow> nat \<Rightarrow> word_state \<Rightarrow> parse_step" where
  "push_character pattern_quoted rest skip st =
     (case char_len (drop skip rest) of
        None \<Rightarrow> Step_Error Msg_InvalidUtf8
      | Some n \<Rightarrow>
          Step_Continue
            (st\<lparr>ws_literal := push_expression_character (ws_literal st) (take n (drop skip rest)) pattern_quoted,
                ws_started := True\<rparr>)
            (drop (skip + n) rest))"

text \<open>A part found inside quotes that opened within a pattern is kept from acting as a pattern.\<close>

definition pattern_part :: "bool \<Rightarrow> shell_part \<Rightarrow> shell_part" where
  "pattern_part quoted p = (if quoted then PatternQuote [p] else p)"

text \<open>One turn of the loop of \<open>parse_until\<close>, except for a variable.\<close>

definition until_step ::
    "expression_syntax \<Rightarrow> bool \<Rightarrow> bool \<Rightarrow> quote_mode \<Rightarrow> bool \<Rightarrow> word_state \<Rightarrow> byte \<Rightarrow> bytes \<Rightarrow> parse_step" where
  "until_step syn stop_at_brace stop_at_word initial_quote pattern_word st b bs =
     (let quote = ws_quote st; quoted = (pattern_word \<and> quote \<noteq> initial_quote); rest = b # bs
      in if stop_at_brace \<and> quote = initial_quote \<and> b = RBRACE then Step_Break
         else if stop_at_word \<and> quote = Unquoted \<and> (b = SP \<or> b = TAB \<or> b = HASH \<and> \<not> ws_started st) then Step_Break
         else if is_ordinary syn \<and> quote = Unquoted \<and> b = QUOTE then
           Step_Continue (st\<lparr>ws_quote := SingleQuote, ws_started := True\<rparr>) bs
         else if is_ordinary syn \<and> quote = SingleQuote \<and> b = QUOTE then
           Step_Continue (st\<lparr>ws_quote := Unquoted\<rparr>) bs
         else if is_ordinary syn \<and> quote = Unquoted \<and> b = DQUOTE then
           Step_Continue (st\<lparr>ws_quote := DoubleQuote, ws_started := True\<rparr>) bs
         else if is_ordinary syn \<and> quote = DoubleQuote \<and> b = DQUOTE then
           Step_Continue (st\<lparr>ws_quote := Unquoted\<rparr>) bs
         else if quote = SingleQuote then push_character quoted rest 0 st
         else if b = BACKSLASH then
           (case bs of
              [] \<Rightarrow>
                Step_Continue
                  (st\<lparr>ws_literal := push_expression_character (ws_literal st) [BACKSLASH] quoted, ws_started := True\<rparr>) bs
            | nxt # _ \<Rightarrow>
                if \<not> escapes syn quote nxt then
                  Step_Continue
                    (st\<lparr>ws_literal := push_expression_character (ws_literal st) [BACKSLASH] quoted, ws_started := True\<rparr>) bs
                else push_character pattern_word rest 1 st)
         else if allows_commands syn \<and> b = BACKQUOTE then
           (case parse_command rest of
              Inl e \<Rightarrow> Step_Error e
            | Inr (part, rest1) \<Rightarrow>
                let st1 = flush_literal st
                in Step_Continue
                     (st1\<lparr>ws_parts := ws_parts st1 @ [pattern_part quoted part], ws_started := True\<rparr>) rest1)
         else if b \<noteq> DOLLAR then push_character quoted rest 0 st
         else Step_Variable)"

definition push_part :: "bool \<Rightarrow> shell_part \<Rightarrow> word_state \<Rightarrow> word_state" where
  "push_part quoted part st = st\<lparr>ws_parts := ws_parts st @ [pattern_part quoted part]\<rparr>"

text \<open>The end of \<open>parse_until\<close>.\<close>

definition until_end ::
    "bool \<Rightarrow> quote_mode \<Rightarrow> word_state \<Rightarrow> bytes \<Rightarrow> syntax_message + shell_expression \<times> bytes" where
  "until_end stop_at_brace initial_quote st rest =
     (if ws_quote st \<noteq> initial_quote then
        Inl (if ws_quote st = SingleQuote then Msg_UnterminatedSingle else Msg_UnterminatedDouble)
      else if stop_at_brace \<and> rest = [] then Inl Msg_MissingBrace
      else Inr (push_literal_part (ws_parts st) (ws_literal st), rest))"

definition start_word :: "quote_mode \<Rightarrow> word_state" where
  "start_word quote = \<lparr>ws_parts = [], ws_literal = [], ws_quote = quote, ws_started = False\<rparr>"

lemma push_character_shorter:
  "push_character q rest k st = Step_Continue st' rest' \<Longrightarrow> rest \<noteq> [] \<Longrightarrow> length rest' < length rest"
  by (auto simp: push_character_def dest!: char_len_bounds split: option.splits)

lemma command_loop_shorter: "command_loop e c rest = Some (command, rest') \<Longrightarrow> length rest' < length rest"
  by (induction e c rest rule: command_loop.induct) (auto split: if_splits)

lemma parse_command_shorter: "parse_command (b # bs) = Inr (part, rest') \<Longrightarrow> length rest' \<le> length bs"
  by (auto simp: parse_command_def split: option.splits dest!: command_loop_shorter)

text \<open>A bound on the rest after a step, kept by every branch.\<close>

fun step_within :: "nat \<Rightarrow> parse_step \<Rightarrow> bool" where
  "step_within n (Step_Continue st rest) \<longleftrightarrow> length rest \<le> n"
| "step_within n _ = True"

lemma step_within_if: "step_within n s1 \<Longrightarrow> step_within n s2 \<Longrightarrow> step_within n (if c then s1 else s2)"
  by simp

lemma step_within_character: "step_within (length bs) (push_character q (b # bs) k st)"
  using push_character_shorter [of q "b # bs" k st]
  by (cases "push_character q (b # bs) k st") auto

lemma step_within_command:
  "(\<And>part rest1. parse_command (b # bs) = Inr (part, rest1) \<Longrightarrow> step_within (length bs) (f part rest1)) \<Longrightarrow>
   step_within (length bs) (case parse_command (b # bs) of Inl e \<Rightarrow> Step_Error e | Inr (part, rest1) \<Rightarrow> f part rest1)"
  by (cases "parse_command (b # bs)") auto

lemma step_within_list:
  "step_within n s1 \<Longrightarrow> (\<And>x xs. step_within n (f x xs)) \<Longrightarrow> step_within n (case l of [] \<Rightarrow> s1 | x # xs \<Rightarrow> f x xs)"
  by (cases l) auto

lemma until_step_within: "step_within (length bs) (until_step syn sb sw iq pat st b bs)"
  unfolding until_step_def Let_def
  by (intro step_within_if step_within_list step_within_character step_within_command)
    (auto dest: parse_command_shorter)

lemma until_step_shorter:
  "until_step syn sb sw iq pat st b bs = Step_Continue st' rest' \<Longrightarrow> length rest' \<le> length bs"
  using until_step_within [of bs syn sb sw iq pat st b] by simp

lemma parse_name_length: "parse_name rest = (name, rest') \<Longrightarrow> length rest' \<le> length rest"
  by (auto simp: parse_name_def length_dropWhile_le le_SucI split: list.splits if_splits)

lemma parse_positional_length: "parse_positional_parameter rest = Inr (name, rest') \<Longrightarrow> length rest' \<le> length rest"
  by (auto simp: parse_positional_parameter_def Let_def length_dropWhile_le split: option.splits if_splits)

fun head_rest :: "variable_head \<Rightarrow> bytes" where
  "head_rest (Head_Dollar rest) = rest"
| "head_rest (Head_Done _ _ rest) = rest"
| "head_rest (Head_RegexQuoted _ rest) = rest"
| "head_rest (Head_Word _ _ _ rest) = rest"

lemma variable_head_length: "variable_head syn pat rest = Inr h \<Longrightarrow> length (head_rest h) \<le> length rest"
proof -
  have op: "braced_operator name pat rest = Inr h \<Longrightarrow> length (head_rest h) \<le> length rest" for name rest
    by (auto simp: braced_operator_def split: if_splits)
  have br: "braced_head pat rest = Inr h \<Longrightarrow> length (head_rest h) \<le> length rest" for rest
    by (auto simp: braced_head_def split: if_splits sum.splits prod.splits dest!: op parse_name_length parse_positional_length)
  have dr: "drop (Suc 0) rest = x # xs \<Longrightarrow> Suc (length xs) \<le> length rest" for x xs
    by (cases rest) auto
  show "variable_head syn pat rest = Inr h \<Longrightarrow> length (head_rest h) \<le> length rest"
    by (auto simp: variable_head_def Let_def split: if_splits sum.splits prod.splits list.splits
        dest!: br parse_name_length parse_positional_length dr)
qed

lemma until_end_length: "until_end sb iq st rest = Inr (e, rest') \<Longrightarrow> rest' = rest"
  by (auto simp: until_end_def split: if_splits)

text \<open>\<open>parse_until\<close> from any state of its loop; a parameter word is parsed by the same loop.\<close>

function until_loop ::
    "expression_syntax \<Rightarrow> usize \<Rightarrow> bool \<Rightarrow> bool \<Rightarrow> quote_mode \<Rightarrow> bool \<Rightarrow> word_state \<Rightarrow> bytes \<Rightarrow>
     syntax_message + shell_expression \<times> bytes" where
  "until_loop syn nesting stop_at_brace stop_at_word initial_quote pattern_word st [] =
     until_end stop_at_brace initial_quote st []"
| "until_loop syn nesting stop_at_brace stop_at_word initial_quote pattern_word st (b # bs) =
     (case until_step syn stop_at_brace stop_at_word initial_quote pattern_word st b bs of
        Step_Break \<Rightarrow> until_end stop_at_brace initial_quote st (b # bs)
      | Step_Error e \<Rightarrow> Inl e
      | Step_Continue st1 rest1 \<Rightarrow>
          until_loop syn nesting stop_at_brace stop_at_word initial_quote pattern_word st1 rest1
      | Step_Variable \<Rightarrow>
          let quoted = (pattern_word \<and> ws_quote st \<noteq> initial_quote);
              st1 = flush_literal (st\<lparr>ws_started := True\<rparr>)
          in case variable_head syn pattern_word bs of
               Inl e \<Rightarrow> Inl e
             | Inr (Head_Dollar rest1) \<Rightarrow>
                 until_loop syn nesting stop_at_brace stop_at_word initial_quote pattern_word
                   (st1\<lparr>ws_literal := [DOLLAR]\<rparr>) rest1
             | Inr (Head_RegexQuoted name rest1) \<Rightarrow>
                 (case check_reference name of
                    Inl e \<Rightarrow> Inl e
                  | Inr _ \<Rightarrow>
                      until_loop syn nesting stop_at_brace stop_at_word initial_quote pattern_word
                        (push_part quoted (RegexQuotedVariable name) st1) rest1)
             | Inr (Head_Done name operation rest1) \<Rightarrow>
                 (case check_reference name of
                    Inl e \<Rightarrow> Inl e
                  | Inr _ \<Rightarrow>
                      until_loop syn nesting stop_at_brace stop_at_word initial_quote pattern_word
                        (push_part quoted (Variable name operation) st1) rest1)
             | Inr (Head_Word name operation word_pattern rest1) \<Rightarrow>
                 if nesting + 1 > MAX_EXPANSION_DEPTH then Inl Msg_DepthLimit
                 else
                   (case until_loop syn (nesting + 1) True False (ws_quote st) word_pattern
                           (start_word (ws_quote st)) rest1 of
                      Inl e \<Rightarrow> Inl e
                    | Inr (word, rest2) \<Rightarrow>
                        (case rest2 of
                           [] \<Rightarrow> Inl Msg_MissingBrace
                         | c # rest3 \<Rightarrow>
                             if c \<noteq> RBRACE then Inl Msg_MissingBrace
                             else
                               (case check_reference name of
                                  Inl e \<Rightarrow> Inl e
                                | Inr _ \<Rightarrow>
                                    until_loop syn nesting stop_at_brace stop_at_word initial_quote pattern_word
                                      (push_part quoted (Variable name (operation word)) st1) rest3))))"
  by pat_completeness auto

text \<open>
  Wherever the loop returns, its rest is no longer than its input; so a call after a parameter word is
  on a shorter input too.
\<close>

termination
proof -
  have partial: "length rest' \<le> length rest"
    if "until_loop_dom (syn, n, sb, sw, iq, pat, st, rest)"
      and "until_loop syn n sb sw iq pat st rest = Inr (e, rest')" for syn n sb sw iq pat st rest e rest'
    using that
  proof (induction arbitrary: e rest' rule: until_loop.pinduct)
    case (1 syn n sb sw iq pat st)
    then show ?case by (auto simp: until_loop.psimps dest: until_end_length)
  next
    case (2 syn n sb sw iq pat st b bs)
    note res = "2.prems" [unfolded until_loop.psimps(2) [OF "2.hyps"]]
    show ?case
    proof (cases "until_step syn sb sw iq pat st b bs")
      case Step_Break
      with res show ?thesis by (auto dest: until_end_length)
    next
      case (Step_Error m)
      with res show ?thesis by simp
    next
      case (Step_Continue st1 rest1)
      with res have "length rest' \<le> length rest1" using "2.IH"(1) by simp
      with until_step_shorter [OF Step_Continue] show ?thesis by simp
    next
      case Step_Variable
      from res Step_Variable obtain h where h: "variable_head syn pat bs = Inr h"
        by (cases "variable_head syn pat bs") (simp_all add: Let_def)
      have "length rest' \<le> length (head_rest h)"
      proof (cases h)
        case (Head_Dollar rest1)
        with res Step_Variable h show ?thesis using "2.IH"(2) by (simp add: Let_def)
      next
        case (Head_Done name operation rest1)
        with res Step_Variable h show ?thesis
          using "2.IH"(3) [OF Step_Variable refl refl h Head_Done]
          by (auto simp: Let_def split: sum.splits)
      next
        case (Head_RegexQuoted name rest1)
        with res Step_Variable h show ?thesis
          using "2.IH"(4) [OF Step_Variable refl refl h Head_RegexQuoted]
          by (auto simp: Let_def split: sum.splits)
      next
        case (Head_Word name operation wp rest1)
        from res Step_Variable h Head_Word obtain word rest2 where
          w: "\<not> n + 1 > MAX_EXPANSION_DEPTH"
             "until_loop syn (n + 1) True False (ws_quote st) wp (start_word (ws_quote st)) rest1 = Inr (word, rest2)"
          by (auto simp: Let_def split: if_splits sum.splits)
        from res Step_Variable h Head_Word w obtain rest3 where
          r3: "rest2 = RBRACE # rest3" "check_reference name = Inr ()"
          by (auto simp: Let_def split: list.splits if_splits sum.splits)
        have "length rest2 \<le> length rest1"
          using "2.IH"(5) [OF Step_Variable refl refl h Head_Word w(1) w(2)] .
        moreover have "length rest' \<le> length rest3"
          using "2.IH"(6) [OF Step_Variable refl refl h Head_Word w] res Step_Variable h Head_Word w r3
          by (simp add: Let_def)
        ultimately show ?thesis using Head_Word r3 by simp
      qed
      with variable_head_length [OF h] show ?thesis by simp
    qed
  qed
  have word: "length rest3 \<le> length bs"
    if "variable_head syn pat bs = Inr (Head_Word name operation wp rest1)"
      and "until_loop syn n True False q wp w rest1 = Inr (word, c # rest3)"
      and "until_loop_dom (syn, n, True, False, q, wp, w, rest1)"
    for syn pat bs name operation wp rest1 n q w word c rest3
    using variable_head_length [OF that(1)] partial [OF that(3,2)] by simp
  show ?thesis
    by (relation "measure (\<lambda>(syn, n, sb, sw, iq, pat, st, rest). length rest)")
      (auto dest: until_step_shorter variable_head_length word simp: less_Suc_eq_le)
qed

declare until_loop.simps(2) [simp del]

section \<open>Entry points\<close>

definition parse_until ::
    "expression_syntax \<Rightarrow> usize \<Rightarrow> bool \<Rightarrow> bool \<Rightarrow> quote_mode \<Rightarrow> bool \<Rightarrow> bytes \<Rightarrow>
     syntax_message + shell_expression \<times> bytes" where
  "parse_until syn nesting stop_at_brace stop_at_word initial_quote pattern_word rest =
     (if nesting > MAX_EXPANSION_DEPTH then Inl Msg_DepthLimit
      else until_loop syn nesting stop_at_brace stop_at_word initial_quote pattern_word
             (start_word initial_quote) rest)"

definition expression_parse :: "expression_syntax \<Rightarrow> bytes \<Rightarrow> syntax_message + shell_expression" where
  "expression_parse syn input = map_sum id fst (parse_until syn 0 False False Unquoted False input)"

definition parse_expression :: "bytes \<Rightarrow> usize \<Rightarrow> expansion_error + shell_expression" where
  "parse_expression input line = syntax_at line (expression_parse (Ordinary False) input)"

definition parse_shell_condition_expression :: "bytes \<Rightarrow> usize \<Rightarrow> expansion_error + shell_expression" where
  "parse_shell_condition_expression input line = syntax_at line (expression_parse ShellCondition input)"

definition parse_command_expression :: "bytes \<Rightarrow> usize \<Rightarrow> expansion_error + shell_expression option" where
  "parse_command_expression input line =
     (case syntax_at line (expression_parse (Ordinary True) input) of
        Inl e \<Rightarrow> Inl e
      | Inr e \<Rightarrow> Inr (if requires_ordered_evaluation e then Some e else None))"

text \<open>\<open>char::is_whitespace\<close>, by the UTF-8 encodings, and \<open>str::trim_start\<close>.\<close>

definition char_is_whitespace :: "bytes \<Rightarrow> bool" where
  "char_is_whitespace c \<longleftrightarrow>
     c \<in> {[9], [10], [11], [12], [13], [32], [194, 133], [194, 160], [225, 154, 128],
          [226, 128, 128], [226, 128, 129], [226, 128, 130], [226, 128, 131], [226, 128, 132], [226, 128, 133],
          [226, 128, 134], [226, 128, 135], [226, 128, 136], [226, 128, 137], [226, 128, 138],
          [226, 128, 168], [226, 128, 169], [226, 128, 175], [226, 129, 159], [227, 128, 128]}"

definition str_trim_start :: "bytes \<Rightarrow> bytes" where
  "str_trim_start s = concat (dropWhile char_is_whitespace (chars s))"

record parsed_assignment_word =
  paw_source :: bytes
  paw_expression :: shell_expression

definition parse_assignment_word :: "bytes \<Rightarrow> usize \<Rightarrow> expansion_error + parsed_assignment_word" where
  "parse_assignment_word input line =
     syntax_at line
       (case parse_until (Ordinary True) 0 False True Unquoted False input of
          Inl e \<Rightarrow> Inl e
        | Inr (e, rest) \<Rightarrow>
            let trailing = str_trim_start rest
            in if trailing \<noteq> [] \<and> \<not> starts_with trailing [HASH] then Inl Msg_MoreThanOneWord
               else Inr \<lparr>paw_source = take (length input - length rest) input, paw_expression = e\<rparr>)"

section \<open>What is parsed\<close>

text \<open>The cases of the loop, for inductions on it.\<close>

lemma until_loop_cases [consumes 1, case_names Break Continue Dollar Regex Done Word]:
  assumes "until_loop syn n sb sw iq pat st (b # bs) = Inr r"
  obtains
      "until_step syn sb sw iq pat st b bs = Step_Break" "until_end sb iq st (b # bs) = Inr r"
    | st1 rest1 where "until_step syn sb sw iq pat st b bs = Step_Continue st1 rest1"
        "until_loop syn n sb sw iq pat st1 rest1 = Inr r"
    | rest1 where "until_step syn sb sw iq pat st b bs = Step_Variable"
        "variable_head syn pat bs = Inr (Head_Dollar rest1)"
        "until_loop syn n sb sw iq pat ((flush_literal (st\<lparr>ws_started := True\<rparr>))\<lparr>ws_literal := [DOLLAR]\<rparr>) rest1 = Inr r"
    | name rest1 where "until_step syn sb sw iq pat st b bs = Step_Variable"
        "variable_head syn pat bs = Inr (Head_RegexQuoted name rest1)" "check_reference name = Inr ()"
        "until_loop syn n sb sw iq pat (push_part (pat \<and> ws_quote st \<noteq> iq) (RegexQuotedVariable name)
           (flush_literal (st\<lparr>ws_started := True\<rparr>))) rest1 = Inr r"
    | name opn rest1 where "until_step syn sb sw iq pat st b bs = Step_Variable"
        "variable_head syn pat bs = Inr (Head_Done name opn rest1)" "check_reference name = Inr ()"
        "until_loop syn n sb sw iq pat (push_part (pat \<and> ws_quote st \<noteq> iq) (Variable name opn)
           (flush_literal (st\<lparr>ws_started := True\<rparr>))) rest1 = Inr r"
    | name opn wp rest1 w rest3 where "until_step syn sb sw iq pat st b bs = Step_Variable"
        "variable_head syn pat bs = Inr (Head_Word name opn wp rest1)" "n + 1 \<le> MAX_EXPANSION_DEPTH"
        "until_loop syn (n + 1) True False (ws_quote st) wp (start_word (ws_quote st)) rest1 = Inr (w, RBRACE # rest3)"
        "check_reference name = Inr ()"
        "until_loop syn n sb sw iq pat (push_part (pat \<and> ws_quote st \<noteq> iq) (Variable name (opn w))
           (flush_literal (st\<lparr>ws_started := True\<rparr>))) rest3 = Inr r"
proof (cases "until_step syn sb sw iq pat st b bs")
  case Step_Variable
  note res = assms [unfolded until_loop.simps(2) Step_Variable parse_step.case Let_def]
  obtain h where h: "variable_head syn pat bs = Inr h" using res by (auto split: sum.splits)
  note res = res [unfolded h sum.case]
  show thesis
  proof (cases h)
    case (Head_Dollar rest1)
    with res show thesis using that(3) [OF Step_Variable] h by simp
  next
    case (Head_Done name opn rest1)
    with res show thesis using that(5) [OF Step_Variable] h by (auto split: sum.splits)
  next
    case (Head_RegexQuoted name rest1)
    with res show thesis using that(4) [OF Step_Variable] h by (auto split: sum.splits)
  next
    case (Head_Word name opn wp rest1)
    note res = res [unfolded Head_Word variable_head.case]
    have n: "\<not> MAX_EXPANSION_DEPTH < n + 1" using res by (auto split: if_splits)
    note res = res [unfolded if_not_P [OF n]]
    obtain w rest2 where w: "until_loop syn (n + 1) True False (ws_quote st) wp (start_word (ws_quote st)) rest1 = Inr (w, rest2)"
      using res by (auto split: sum.splits)
    note res = res [unfolded w sum.case prod.case]
    obtain rest3 where r: "rest2 = RBRACE # rest3" using res by (auto split: list.splits if_splits)
    with res that(6) [OF Step_Variable h [unfolded Head_Word] _ w [unfolded r]] n
    show thesis by (auto split: sum.splits)
  qed
qed (use assms that(1,2) in \<open>auto simp: until_loop.simps(2)\<close>)

lemma until_loop_length: "until_loop syn n sb sw iq pat st rest = Inr (e, rest') \<Longrightarrow> length rest' \<le> length rest"
proof (induction "length rest" arbitrary: n sb sw iq pat st rest e rest' rule: less_induct)
  case less
  note shorter = until_step_shorter variable_head_length
  show ?case
  proof (cases rest)
    case Nil
    with less.prems show ?thesis by (auto dest: until_end_length)
  next
    case (Cons b bs)
    from less.prems [unfolded Cons] show ?thesis
    proof (cases rule: until_loop_cases)
      case (Word name opn wp rest1 w rest3)
      have "length (RBRACE # rest3) \<le> length rest1"
        using less.hyps [OF _ Word(4)] shorter(2) [OF Word(2)] Cons by simp
      then show ?thesis using less.hyps [OF _ Word(6)] shorter(2) [OF Word(2)] Cons by simp
    qed (use Cons in \<open>auto dest!: less.hyps [rotated] shorter until_end_length\<close>)
  qed
qed

lemma until_step_breaks:
  assumes "until_step syn sb sw iq pat st b bs = Step_Break"
  shows "sb \<and> ws_quote st = iq \<and> b = RBRACE \<or>
    sw \<and> ws_quote st = Unquoted \<and> (b = SP \<or> b = TAB \<or> b = HASH \<and> \<not> ws_started st)"
proof (rule ccontr)
  assume not: "\<not> ?thesis"
  have chr: "push_character q rest k st \<noteq> Step_Break" for q rest k
    by (simp add: push_character_def split: option.split)
  have cif: "s1 \<noteq> Step_Break \<Longrightarrow> s2 \<noteq> Step_Break \<Longrightarrow> (if c then s1 else s2) \<noteq> Step_Break" for c s1 s2
    by simp
  from not have n1: "\<not> (sb \<and> ws_quote st = iq \<and> b = RBRACE)"
    and n2: "\<not> (sw \<and> ws_quote st = Unquoted \<and> (b = SP \<or> b = TAB \<or> b = HASH \<and> \<not> ws_started st))"
    by blast+
  have "until_step syn sb sw iq pat st b bs \<noteq> Step_Break"
    unfolding until_step_def Let_def if_not_P [OF n1] if_not_P [OF n2]
    by (intro cif chr; simp add: chr split: list.split sum.split prod.split)
  with assms show False by simp
qed

lemma until_loop_consumes:
  "until_loop syn n False False iq pat st rest = Inr (e, rest') \<Longrightarrow> rest' = []"
proof (induction "length rest" arbitrary: rest st rule: less_induct)
  case less
  show ?case
  proof (cases rest)
    case Nil
    with less.prems show ?thesis by (auto dest: until_end_length)
  next
    case (Cons b bs)
    have noB: "until_step syn False False iq pat st b bs \<noteq> Step_Break"
      using until_step_breaks by blast
    from less.prems [unfolded Cons] show ?thesis
    proof (cases rule: until_loop_cases)
      case (Continue st1 rest1)
      then show ?thesis using less.hyps [of rest1 st1] until_step_shorter [OF Continue(1)] Cons by simp
    next
      case (Word name opn wp rest1 w rest3)
      then show ?thesis
        using less.hyps [of rest3] until_loop_length [OF Word(4)] variable_head_length [OF Word(2)] Cons by simp
    qed (use noB less.hyps variable_head_length Cons in \<open>fastforce simp: less_Suc_eq_le\<close>)+
  qed
qed

end
