(* ===== verification/Shell_Print.thy ===== *)
theory Shell_Print
  imports Shell_Parse
begin

text \<open>
  What the expression parser accepts: it consumes its input, bounds the nesting of what it
  returns, and gives back every expression that is written out.  \<open>show_expression\<close> is the
  reference notation: every character of a literal is escaped, every reference is braced.
\<close>

section \<open>Nesting\<close>

fun parameter_word :: "parameter_operation \<Rightarrow> shell_expression option" where
  "parameter_word (ErrorIfUnsetOrEmpty w) = Some w"
| "parameter_word opn = op_word opn"

lemma size_parameter_word: "parameter_word opn = Some w \<Longrightarrow> size_list size w < size opn"
  by (cases opn) auto

function (sequential) expression_depth :: "shell_expression \<Rightarrow> nat" where
  "expression_depth [] = 0"
| "expression_depth (Variable name opn # ps) =
     max (case parameter_word opn of None \<Rightarrow> 0 | Some w \<Rightarrow> Suc (expression_depth w)) (expression_depth ps)"
| "expression_depth (PatternQuote e # ps) = max (expression_depth e) (expression_depth ps)"
| "expression_depth (p # ps) = expression_depth ps"
  by pat_completeness auto
termination
  by (relation "measure (size_list size)") (auto dest: size_parameter_word)

lemma expression_depth_append: "expression_depth (a @ b) = max (expression_depth a) (expression_depth b)"
  by (induction a rule: expression_depth.induct) auto

lemma push_literal_depth [simp]: "expression_depth (push_literal_part parts t) = expression_depth parts"
proof (cases parts rule: rev_cases)
  case (snoc ps p)
  then show ?thesis by (cases p) (auto simp: push_literal_part_def expression_depth_append)
qed (simp add: push_literal_part_def)

lemma flush_literal_parts [simp]:
  "ws_parts (flush_literal st) = push_literal_part (ws_parts st) (ws_literal st)" "ws_literal (flush_literal st) = []"
  "ws_quote (flush_literal st) = ws_quote st" "ws_started (flush_literal st) = ws_started st"
  by (simp_all add: flush_literal_def)

lemma push_part_quote [simp]: "ws_quote (push_part q p st) = ws_quote st"
  by (simp add: push_part_def)

lemma push_part_depth:
  "expression_depth (ws_parts (push_part q p st)) = max (expression_depth (ws_parts st)) (expression_depth [p])"
  by (simp add: push_part_def pattern_part_def expression_depth_append)

text \<open>A step that is not a variable keeps the depth.\<close>

fun step_depth :: "nat \<Rightarrow> parse_step \<Rightarrow> bool" where
  "step_depth n (Step_Continue st rest) \<longleftrightarrow> expression_depth (ws_parts st) \<le> n"
| "step_depth n _ = True"

lemma step_depth_if: "step_depth n s1 \<Longrightarrow> step_depth n s2 \<Longrightarrow> step_depth n (if c then s1 else s2)"
  by simp

lemma step_depth_list:
  "step_depth n s1 \<Longrightarrow> (\<And>x xs. step_depth n (f x xs)) \<Longrightarrow> step_depth n (case l of [] \<Rightarrow> s1 | x # xs \<Rightarrow> f x xs)"
  by (cases l) auto

lemma step_depth_character: "expression_depth (ws_parts st) \<le> n \<Longrightarrow> step_depth n (push_character q rest k st)"
  by (simp add: push_character_def split: option.split)

lemma step_depth_command:
  "(\<And>c rest1. step_depth n (f (Command c) rest1)) \<Longrightarrow>
   step_depth n (case parse_command rest of Inl e \<Rightarrow> Step_Error e | Inr (part, rest1) \<Rightarrow> f part rest1)"
  by (auto simp: parse_command_def split: option.split)

lemma until_step_depth:
  assumes "expression_depth (ws_parts st) \<le> n"
  shows "step_depth n (until_step syn sb sw iq pat st b bs)"
  unfolding until_step_def Let_def
  by (intro step_depth_if step_depth_list step_depth_character step_depth_command)
    (use assms in \<open>auto simp: expression_depth_append pattern_part_def\<close>)

lemma head_done_depth:
  "variable_head syn pat rest = Inr (Head_Done name opn rest1) \<Longrightarrow> parameter_word opn = None"
  by (auto simp: variable_head_def braced_head_def braced_operator_def Let_def
      split: list.splits if_splits sum.splits prod.splits)

lemma head_word_depth:
  assumes "variable_head syn pat rest = Inr (Head_Word name opn wp rest1)"
  shows "parameter_word (opn w) = Some w"
  using assms
  by (auto simp: variable_head_def braced_head_def braced_operator_def Let_def
      split: list.splits if_splits sum.splits prod.splits)

lemma until_loop_depth:
  "until_loop syn n sb sw iq pat st rest = Inr (e, rest') \<Longrightarrow> n \<le> MAX_EXPANSION_DEPTH \<Longrightarrow>
   expression_depth (ws_parts st) \<le> MAX_EXPANSION_DEPTH - n \<Longrightarrow> expression_depth e \<le> MAX_EXPANSION_DEPTH - n"
proof (induction "length rest" arbitrary: n sb sw iq pat st rest e rest' rule: less_induct)
  case less
  show ?case
  proof (cases rest)
    case Nil
    with less.prems show ?thesis by (auto simp: until_end_def split: if_splits)
  next
    case (Cons b bs)
    from less.prems(1) [unfolded Cons] show ?thesis
    proof (cases rule: until_loop_cases)
      case Break
      with less.prems show ?thesis by (auto simp: until_end_def split: if_splits)
    next
      case (Continue st1 rest1)
      then show ?thesis
        using less.hyps [OF _ Continue(2) less.prems(2)] until_step_shorter [OF Continue(1)]
          until_step_depth [OF less.prems(3), of syn sb sw iq pat b bs] Cons
        by simp
    next
      case (Dollar rest1)
      then show ?thesis using less.hyps [OF _ Dollar(3) less.prems(2)] less.prems(3) variable_head_length [OF Dollar(2)] Cons by simp
    next
      case (Regex name rest1)
      then show ?thesis
        using less.hyps [OF _ Regex(4) less.prems(2)] less.prems(3) variable_head_length [OF Regex(2)] Cons
        by (simp add: push_part_depth)
    next
      case (Done name opn rest1)
      then show ?thesis
        using less.hyps [OF _ Done(4) less.prems(2)] less.prems(3) variable_head_length [OF Done(2)] Cons
          head_done_depth [OF Done(2)]
        by (simp add: push_part_depth)
    next
      case (Word name opn wp rest1 w rest3)
      have "expression_depth w \<le> MAX_EXPANSION_DEPTH - (n + 1)"
        using less.hyps [OF _ Word(4,3)] variable_head_length [OF Word(2)] Cons by (simp add: start_word_def)
      then have "Suc (expression_depth w) \<le> MAX_EXPANSION_DEPTH - n" using Word(3) by simp
      then show ?thesis
        using less.hyps [OF _ Word(6) less.prems(2)] less.prems(3) head_word_depth [OF Word(2)]
          until_loop_length [OF Word(4)] variable_head_length [OF Word(2)] Cons
        by (simp add: push_part_depth)
    qed
  qed
qed

section \<open>A notation for expressions\<close>

definition show_character :: "bool \<Rightarrow> bytes \<Rightarrow> bytes" where
  "show_character pattern c = (if pattern \<and> c \<in> {[42], [63], [91]} then c else BACKSLASH # c)"

definition show_literal :: "bool \<Rightarrow> bytes \<Rightarrow> bytes" where
  "show_literal pattern t = concat (map (show_character pattern) (chars t))"

text \<open>The sign of an operation, whether its word is a pattern, and the word.\<close>

fun show_operator :: "bool \<Rightarrow> parameter_operation \<Rightarrow> (bytes \<times> bool \<times> shell_expression) option" where
  "show_operator pat Value = None"
| "show_operator pat Length = None"
| "show_operator pat (DefaultIfUnset w) = Some (ascii ''-'', pat, w)"
| "show_operator pat (DefaultIfUnsetOrEmpty w) = Some (ascii '':-'', pat, w)"
| "show_operator pat (AlternateIfSet w) = Some (ascii ''+'', pat, w)"
| "show_operator pat (AlternateIfSetAndNotEmpty w) = Some (ascii '':+'', pat, w)"
| "show_operator pat (AssignIfUnsetOrEmpty w) = Some (ascii '':='', pat, w)"
| "show_operator pat (ErrorIfUnsetOrEmpty w) = Some (ascii '':?'', pat, w)"
| "show_operator pat (RemovePrefix w longest) = Some (if longest then ascii ''##'' else ascii ''#'', True, w)"
| "show_operator pat (RemoveSuffix w longest) = Some (if longest then ascii ''%%'' else ascii ''%'', True, w)"
| "show_operator pat (ChangeCase w Upper all) = Some (if all then ascii ''^^'' else ascii ''^'', True, w)"
| "show_operator pat (ChangeCase w Lower all) = Some (if all then ascii '',,'' else ascii '','', True, w)"

lemma show_operator_word: "show_operator pat opn = Some (sign, wp, w) \<Longrightarrow> parameter_word opn = Some w"
  by (cases "(pat, opn)" rule: show_operator.cases) auto

lemmas show_operator_size = show_operator_word [THEN size_parameter_word]

function (sequential) show_expression :: "bool \<Rightarrow> shell_expression \<Rightarrow> bytes" where
  "show_expression pat [] = []"
| "show_expression pat (Literal t # ps) = show_literal pat t @ show_expression pat ps"
| "show_expression pat (Command c # ps) = BACKQUOTE # c @ BACKQUOTE # show_expression pat ps"
| "show_expression pat (Variable name opn # ps) =
     DOLLAR # LBRACE # (if opn = Length then [HASH] else []) @ name @
     (case show_operator pat opn of None \<Rightarrow> [] | Some (sign, wp, w) \<Rightarrow> sign @ show_expression wp w) @
     RBRACE # show_expression pat ps"
| "show_expression pat (p # ps) = show_expression pat ps"
  by pat_completeness auto
termination
  by (relation "measure (\<lambda>(pat, e). size_list size e)") (auto dest: show_operator_size)

text \<open>
  The expressions that the notation covers: literals are text that is not empty and not next to
  another literal; commands end where they are meant to; names are references that the parser
  accepts; quoted patterns, regular expression quoting and backslashes in patterns are left out.
\<close>

definition is_reference_name :: "bytes \<Rightarrow> bool" where
  "is_reference_name name \<longleftrightarrow> name \<noteq> [] \<and> is_name_start (hd name) \<and> list_all is_name_continue (tl name) \<and>
     variable_policy_of name \<noteq> Unsupported"

fun is_literal :: "shell_part \<Rightarrow> bool" where
  "is_literal (Literal t) = True"
| "is_literal _ = False"

function (sequential) printable :: "bool \<Rightarrow> shell_expression \<Rightarrow> bool" where
  "printable pat [] = True"
| "printable pat (Literal t # ps) \<longleftrightarrow>
     t \<noteq> [] \<and> valid_utf8 t \<and> (pat \<longrightarrow> BACKSLASH \<notin> set t) \<and> (ps \<noteq> [] \<longrightarrow> \<not> is_literal (hd ps)) \<and> printable pat ps"
| "printable pat (Command c # ps) \<longleftrightarrow> command_loop False [] (c @ [BACKQUOTE]) = Some (c, []) \<and> printable pat ps"
| "printable pat (Variable name opn # ps) \<longleftrightarrow>
     is_reference_name name \<and>
     (case show_operator pat opn of
        None \<Rightarrow> True
      | Some (sign, wp, w) \<Rightarrow>
          (is_assign opn \<longrightarrow> variable_policy_of name = RcOrCommandLine Target_User) \<and> printable wp w) \<and>
     printable pat ps"
| "printable pat (p # ps) = False"
  by pat_completeness auto
termination
  by (relation "measure (\<lambda>(pat, e). size_list size e)") (auto dest: show_operator_size)

section \<open>Reading the notation back\<close>

text \<open>The loop state after a list of parts has been read.\<close>

fun after_part :: "shell_part \<Rightarrow> word_state \<Rightarrow> word_state" where
  "after_part (Literal t) st = st\<lparr>ws_literal := ws_literal st @ t, ws_started := True\<rparr>"
| "after_part p st = push_part False p (flush_literal (st\<lparr>ws_started := True\<rparr>))"

definition after_parts :: "shell_expression \<Rightarrow> word_state \<Rightarrow> word_state" where
  "after_parts ps st = fold after_part ps st"

lemma after_part_quote [simp]: "ws_quote (after_part p st) = ws_quote st"
  by (cases p) (simp_all add: push_part_def)

lemma after_parts_simps [simp]:
  "after_parts [] st = st" "after_parts (p # ps) st = after_parts ps (after_part p st)"
  by (simp_all add: after_parts_def)

lemma after_parts_quote [simp]: "ws_quote (after_parts ps st) = ws_quote st"
  by (induction ps arbitrary: st) simp_all

fun separated :: "shell_expression \<Rightarrow> bool" where
  "separated (Literal t # ps) \<longleftrightarrow> t \<noteq> [] \<and> (ps \<noteq> [] \<longrightarrow> \<not> is_literal (hd ps)) \<and> separated ps"
| "separated (p # ps) = separated ps"
| "separated [] = True"

lemma printable_separated: "printable pat e \<Longrightarrow> separated e"
  by (induction pat e rule: printable.induct) simp_all

lemma push_literal_part_fresh:
  "t \<noteq> [] \<Longrightarrow> (ps \<noteq> [] \<Longrightarrow> \<not> is_literal (last ps)) \<Longrightarrow> push_literal_part ps t = ps @ [Literal t]"
  by (cases ps rule: rev_cases) (auto simp: push_literal_part_def split: shell_part.splits)

text \<open>Parts that are flushed at the end give the parts back.\<close>

lemma after_parts_flushed:
  assumes "separated ps" and "ws_literal st = [] \<or> ps = [] \<or> \<not> is_literal (hd ps)"
    and "ws_parts st \<noteq> [] \<Longrightarrow> is_literal (last (ws_parts st)) \<Longrightarrow> ws_literal st = [] \<and> (ps = [] \<or> \<not> is_literal (hd ps))"
  shows "push_literal_part (ws_parts (after_parts ps st)) (ws_literal (after_parts ps st)) =
    push_literal_part (ws_parts st) (ws_literal st) @ ps"
  using assms
proof (induction ps arbitrary: st)
  case (Cons p ps)
  show ?case
  proof (cases "is_literal p")
    case True
    then obtain t where p: "p = Literal t" by (cases p) auto
    with Cons.prems have l: "ws_literal st = []" "t \<noteq> []" and q: "ws_parts st = [] \<or> \<not> is_literal (last (ws_parts st))"
      by auto
    have "push_literal_part (ws_parts st) t = ws_parts st @ [Literal t]"
      using l q push_literal_part_fresh [of t "ws_parts st"] by auto
    then show ?thesis using Cons.IH [of "after_part p st"] Cons.prems l q p
      by (auto simp: push_literal_part_def [of _ "[]"])
  next
    case False
    then have "ws_parts (after_part p st) = push_literal_part (ws_parts st) (ws_literal st) @ [p]"
      "ws_literal (after_part p st) = []" "separated ps"
      using Cons.prems(1) by (cases p; simp add: push_part_def pattern_part_def)+
    then show ?thesis using Cons.IH [of "after_part p st"] False by (simp add: push_literal_part_def [of _ "[]"])
  qed
qed simp

abbreviation ord_syntax :: expression_syntax where "ord_syntax \<equiv> Ordinary True"

definition is_char :: "bytes \<Rightarrow> bool" where
  "is_char c \<longleftrightarrow> char_len c = Some (length c)"

lemma is_char_append: "is_char c \<Longrightarrow> char_len (c @ rest) = Some (length c)"
  using char_len_prefix [of c "length c" rest] by (simp add: is_char_def)

lemma is_char_nonempty: "is_char c \<Longrightarrow> c \<noteq> []"
  by (auto simp: is_char_def dest: char_len_bounds)

lemma utf8_chars_are: "utf8_chars t = Some cs \<Longrightarrow> c \<in> set cs \<Longrightarrow> is_char c"
proof (induction t arbitrary: cs rule: utf8_chars.induct)
  case (1 bs)
  show ?case
  proof (cases "bs = []")
    case False
    with "1.prems" obtain n cs' where n: "char_len bs = Some n" "utf8_chars (drop n bs) = Some cs'" "cs = take n bs # cs'"
      by (auto simp: utf8_chars_step split: option.splits)
    have "is_char (take n bs)" using char_len_prefix [OF n(1), of "[]"] char_len_bounds [OF n(1)] by (simp add: is_char_def)
    then show ?thesis using n "1.IH" [OF False n(1) n(2)] "1.prems"(2) by auto
  qed (use 1 in simp)
qed

lemma read_character:
  assumes "is_char c" and "ws_quote st = Unquoted" and "pat \<longrightarrow> c \<noteq> [BACKSLASH]"
  shows "until_loop ord_syntax n sb False Unquoted pat st (show_character pat c @ rest) =
    until_loop ord_syntax n sb False Unquoted pat (after_part (Literal c) st) rest"
proof (cases "pat \<and> c \<in> {[42], [63], [91]}")
  case True
  then show ?thesis using assms is_char_append [OF assms(1), of rest]
    by (auto simp: show_character_def until_loop.simps(2) until_step_def push_character_def push_expression_character_def)
next
  case False
  obtain b bs where c: "c = b # bs" using is_char_nonempty [OF assms(1)] by (cases c) auto
  have "until_step ord_syntax sb False Unquoted pat st BACKSLASH (c @ rest) =
      push_character pat (BACKSLASH # c @ rest) 1 st"
    using assms(2) by (simp add: until_step_def c)
  moreover have "push_character pat (BACKSLASH # c @ rest) 1 st = Step_Continue (after_part (Literal c) st) rest"
    using False assms is_char_append [OF assms(1), of rest]
    by (auto simp: push_character_def push_expression_character_def)
  ultimately show ?thesis using False by (auto simp: show_character_def until_loop.simps(2))
qed

lemma read_characters:
  "\<lbrakk>\<And>c. c \<in> set cs \<Longrightarrow> is_char c; pat \<longrightarrow> [BACKSLASH] \<notin> set cs; ws_quote st = Unquoted; cs \<noteq> []\<rbrakk> \<Longrightarrow>
   until_loop ord_syntax n sb False Unquoted pat st (concat (map (show_character pat) cs) @ rest) =
   until_loop ord_syntax n sb False Unquoted pat (after_part (Literal (concat cs)) st) rest"
proof (induction cs arbitrary: st)
  case (Cons c cs)
  have "until_loop ord_syntax n sb False Unquoted pat st (concat (map (show_character pat) (c # cs)) @ rest) =
      until_loop ord_syntax n sb False Unquoted pat (after_part (Literal c) st) (concat (map (show_character pat) cs) @ rest)"
    using Cons.prems read_character [of c st pat n sb "concat (map (show_character pat) cs) @ rest"] by auto
  then show ?case using Cons.IH [of "after_part (Literal c) st"] Cons.prems by (cases "cs = []") auto
qed simp

lemma chars_text:
  assumes "valid_utf8 t"
  shows "utf8_chars t = Some (chars t)" "concat (chars t) = t" "t \<noteq> [] \<Longrightarrow> chars t \<noteq> []"
  using assms utf8_chars_concat by (force simp: valid_utf8_def chars_def)+

lemma read_literal:
  assumes "valid_utf8 t" and "t \<noteq> []" and "pat \<longrightarrow> BACKSLASH \<notin> set t" and "ws_quote st = Unquoted"
  shows "until_loop ord_syntax n sb False Unquoted pat st (show_literal pat t @ rest) =
    until_loop ord_syntax n sb False Unquoted pat (after_part (Literal t) st) rest"
proof -
  note cs = chars_text [OF assms(1)]
  have "pat \<longrightarrow> [BACKSLASH] \<notin> set (chars t)" 
    using assms(3) cs(2) set_concat [of "chars t"] by auto
  then show ?thesis
    using read_characters [of "chars t" pat st n sb rest] utf8_chars_are [OF cs(1)] assms cs by (simp add: show_literal_def)
qed

lemma command_loop_append:
  "command_loop e c xs = Some (command, []) \<Longrightarrow> command_loop e c (xs @ rest) = Some (command, rest)"
  by (induction e c xs rule: command_loop.induct) (auto split: if_splits)

lemma read_command:
  assumes "command_loop False [] (c @ [BACKQUOTE]) = Some (c, [])" and "ws_quote st = Unquoted"
  shows "until_loop ord_syntax n sb False Unquoted pat st (BACKQUOTE # c @ BACKQUOTE # rest) =
    until_loop ord_syntax n sb False Unquoted pat (after_part (Command c) st) rest"
  using command_loop_append [OF assms(1), of rest] assms(2)
  by (cases st) (simp add: until_loop.simps(2) until_step_def parse_command_def push_part_def flush_literal_def Let_def)

lemma parse_name_reference:
  assumes "is_reference_name name" and "rest \<noteq> [] \<longrightarrow> \<not> is_name_continue (hd rest)"
  shows "parse_name (name @ rest) = (name, rest)" "validate_reference_name name = Inr ()" "check_reference name = Inr ()"
proof -
  obtain b bs where n: "name = b # bs" "is_name_start b" "list_all is_name_continue bs"
    using assms(1) by (cases name) (auto simp: is_reference_name_def)
  have "takeWhile is_name_continue (bs @ rest) = bs" "dropWhile is_name_continue (bs @ rest) = rest"
    using n(3) assms(2) by (simp_all add: takeWhile_append dropWhile_append list_all_iff) (cases rest; auto)+
  then show "parse_name (name @ rest) = (name, rest)" using n by (simp add: parse_name_def)
  show "validate_reference_name name = Inr ()" using n by (simp add: validate_reference_name_def)
  show "check_reference name = Inr ()" using assms(1) by (simp add: check_reference_def is_reference_name_def)
qed

text \<open>What is written never starts with a byte that would lengthen an operator before it.\<close>

lemma show_expression_hd:
  assumes "printable pat e"
  shows "hd (show_expression pat e @ RBRACE # rest) \<notin> {HASH, 37, 94, 44}"
proof (cases "(pat, e)" rule: show_expression.cases)
  case (2 pat t ps)
  with assms obtain c cs where cs: "chars t = c # cs" using chars_text(3) [of t] by (cases "chars t") auto
  then show ?thesis using 2 by (auto simp: show_literal_def show_character_def)
qed (use assms in auto)

lemma braced_word:
  assumes "show_operator pat opn = Some (sign, wp, w)" and "is_reference_name name"
    and "is_assign opn \<longrightarrow> variable_policy_of name = RcOrCommandLine Target_User"
    and "rest \<noteq> []" "hd rest \<notin> {HASH, 37, 94, 44}"
  obtains cons where "variable_head ord_syntax pat (LBRACE # name @ sign @ rest) = Inr (Head_Word name cons wp rest)"
    "cons w = opn"
proof -
  have nm: "parse_name (name @ sign @ rest) = (name, sign @ rest)" "validate_reference_name name = Inr ()"
    using parse_name_reference [OF assms(2), of "sign @ rest"] assms(1)
    by (cases "(pat, opn)" rule: show_operator.cases; auto simp: is_name_continue_def byte_defs)+
  obtain b bs where n: "name = b # bs" "is_name_start b" using assms(2) by (cases name) (auto simp: is_reference_name_def)
  have nd: "\<not> is_ascii_digit b" "b \<noteq> HASH" using n(2) by (auto simp: is_name_start_def byte_defs) unat_arith+
  have "variable_head ord_syntax pat (LBRACE # name @ sign @ rest) = braced_operator name pat (sign @ rest)"
    using nm n nd by (simp add: variable_head_def braced_head_def)
  moreover obtain r rs where r: "rest = r # rs" "r \<noteq> HASH" "r \<noteq> 37" "r \<noteq> 94" "r \<noteq> 44"
    using assms(4,5) by (cases rest) auto
  moreover have "\<exists>cons. braced_operator name pat (sign @ rest) = Inr (Head_Word name cons wp rest) \<and> cons w = opn"
    using assms(1,3) r
    by (cases "(pat, opn)" rule: show_operator.cases; clarsimp; simp add: braced_operator_def split: if_split)
  ultimately show thesis using that by auto
qed

lemma braced_done:
  assumes "show_operator pat opn = None" and "is_reference_name name"
  shows "variable_head ord_syntax pat (LBRACE # (if opn = Length then [HASH] else []) @ name @ RBRACE # rest) =
    Inr (Head_Done name opn rest)"
proof -
  have nm: "parse_name (name @ RBRACE # rest) = (name, RBRACE # rest)" "validate_reference_name name = Inr ()"
    using parse_name_reference [OF assms(2), of "RBRACE # rest"] by (simp_all add: is_name_continue_def byte_defs)
  obtain b bs where n: "name = b # bs" "is_name_start b" using assms(2) by (cases name) (auto simp: is_reference_name_def)
  have nd: "\<not> is_ascii_digit b" "b \<noteq> HASH" "b \<noteq> RBRACE"
    using n(2) by (auto simp: is_name_start_def byte_defs) unat_arith+
  have "opn = Value \<or> opn = Length" using assms(1) by (cases "(pat, opn)" rule: show_operator.cases) auto
  then show ?thesis using nm n nd by (auto simp: variable_head_def braced_head_def braced_operator_def)
qed

lemma read_dollar: "ws_quote st = Unquoted \<Longrightarrow>
  until_step ord_syntax sb False Unquoted pat st DOLLAR rest = Step_Variable"
  by (simp add: until_step_def)

text \<open>A closing brace ends the word that was read.\<close>

lemma read_word_end:
  assumes "separated w"
  shows "until_loop ord_syntax n True False Unquoted wp (after_parts w (start_word Unquoted)) (RBRACE # rest) =
    Inr (w, RBRACE # rest)"
  using after_parts_flushed [OF assms, of "start_word Unquoted"]
  by (simp add: until_loop.simps(2) until_step_def until_end_def start_word_def push_literal_part_def [of _ "[]"])

lemma read_expression:
  "printable pat e \<Longrightarrow> n + expression_depth e \<le> MAX_EXPANSION_DEPTH \<Longrightarrow> ws_quote st = Unquoted \<Longrightarrow>
   until_loop ord_syntax n sb False Unquoted pat st (show_expression pat e @ rest) =
   until_loop ord_syntax n sb False Unquoted pat (after_parts e st) rest"
proof (induction pat e arbitrary: n sb st rest rule: printable.induct)
  case (2 pat t ps)
  then show ?case using read_literal [of t pat st n sb "show_expression pat ps @ rest"] by simp
next
  case (3 pat c ps)
  then show ?case using read_command [of c st n sb pat "show_expression pat ps @ rest"] by simp
next
  case (4 pat name opn ps)
  let ?st = "flush_literal (st\<lparr>ws_started := True\<rparr>)"
  have ck: "check_reference name = Inr ()" using 4 parse_name_reference(3) [of name "[]"] by simp
  show ?case
  proof (cases "show_operator pat opn")
    case None
    then show ?thesis
      using 4 ck braced_done [OF None, of name "show_expression pat ps @ rest"]
      by (simp add: until_loop.simps(2) [of _ _ _ _ _ _ _ DOLLAR] read_dollar)
  next
    case (Some x)
    obtain sign wp w where x: "x = (sign, wp, w)" by (cases x)
    note Some = Some [unfolded x]
    let ?tail = "RBRACE # show_expression pat ps @ rest"
    have w: "printable wp w" "n + 1 + expression_depth w \<le> MAX_EXPANSION_DEPTH"
      using "4.prems" Some show_operator_word [OF Some] by auto
    have n: "\<not> MAX_EXPANSION_DEPTH < n + 1" using w(2) by simp
    obtain cons where h: "variable_head ord_syntax pat (LBRACE # name @ sign @ show_expression wp w @ ?tail) =
        Inr (Head_Word name cons wp (show_expression wp w @ ?tail))" "cons w = opn"
      using braced_word [OF Some, of name "show_expression wp w @ ?tail"] "4.prems"(1) Some
        show_expression_hd [OF w(1), of "show_expression pat ps @ rest"]
      by (auto simp: hd_append split: if_splits)
    have read: "until_loop ord_syntax (n + 1) True False Unquoted wp (start_word Unquoted) (show_expression wp w @ ?tail) =
        Inr (w, ?tail)"
      using "4.IH"(1) [OF Some refl refl w, of "start_word Unquoted" True ?tail]
        read_word_end [OF printable_separated [OF w(1)], of "n + 1" wp "show_expression pat ps @ rest"]
      by (simp add: start_word_def)
    have "until_loop ord_syntax n sb False Unquoted pat st (show_expression pat (Variable name opn # ps) @ rest) =
        until_loop ord_syntax n sb False Unquoted pat (after_part (Variable name opn) st) (show_expression pat ps @ rest)"
      using Some h read n ck "4.prems"(3)
      by (cases "opn = Length") (auto simp: until_loop.simps(2) [of _ _ _ _ _ _ _ DOLLAR] read_dollar)
    then show ?thesis using "4.IH"(2) "4.prems" by simp
  qed
qed simp_all

section \<open>Properties\<close>

text \<open>
  C13. Every expression that can be written is parsed back as itself: reading the reference
  notation of an expression whose nesting is within the limit gives exactly that expression.
\<close>

theorem expression_roundtrip:
  assumes "printable False e" and "expression_depth e \<le> MAX_EXPANSION_DEPTH"
  shows "expression_parse (Ordinary True) (show_expression False e) = Inr e"
  using read_expression [OF assms(1), of 0 "start_word Unquoted" False "[]"] assms(2)
    after_parts_flushed [OF printable_separated [OF assms(1)], of "start_word Unquoted"]
  by (simp add: expression_parse_def parse_until_def start_word_def until_end_def push_literal_part_def [of _ "[]"])

definition sample_expression :: shell_expression where
  "sample_expression =
     [Literal (ascii ''to '' @ [195, 169]), Variable (ascii ''USER'') (DefaultIfUnset [Literal (ascii ''x}''), Command (ascii ''id'')]),
      Literal (ascii ''$''), Variable (ascii ''a_1'') (RemovePrefix [Literal (ascii ''*/'')] True)]"

theorem expression_roundtrip_witness:
  "printable False sample_expression \<and> expression_depth sample_expression \<le> MAX_EXPANSION_DEPTH \<and>
   expression_parse (Ordinary True) (show_expression False sample_expression) = Inr sample_expression"
proof -
  have "printable False sample_expression" "expression_depth sample_expression \<le> MAX_EXPANSION_DEPTH" by code_simp+
  then show ?thesis using expression_roundtrip by blast
qed

text \<open>
  Parsing always ends; where it accepts, it has consumed the whole input, and the nesting of
  the expression is within the limit that evaluation enforces.
\<close>

theorem expression_parse_bounded:
  assumes "parse_until syn nesting False False quote pattern_word input = Inr (e, rest)"
  shows "rest = [] \<and> nesting + expression_depth e \<le> MAX_EXPANSION_DEPTH"
proof -
  have n: "nesting \<le> MAX_EXPANSION_DEPTH" and
    loop: "until_loop syn nesting False False quote pattern_word (start_word quote) input = Inr (e, rest)"
    using assms by (auto simp: parse_until_def split: if_splits)
  show ?thesis using until_loop_consumes [OF loop] until_loop_depth [OF loop n] n by (simp add: start_word_def)
qed

theorem expression_parse_bounded_witness:
  "parse_until (Ordinary True) 0 False False Unquoted False (ascii ''a${B:-c}'') =
     Inr ([Literal (ascii ''a''), Variable (ascii ''B'') (DefaultIfUnsetOrEmpty [Literal (ascii ''c'')])], []) \<and>
   0 + expression_depth [Literal (ascii ''a''), Variable (ascii ''B'') (DefaultIfUnsetOrEmpty [Literal (ascii ''c'')])]
     \<le> MAX_EXPANSION_DEPTH"
proof -
  have p: "parse_until (Ordinary True) 0 False False Unquoted False (ascii ''a${B:-c}'') =
     Inr ([Literal (ascii ''a''), Variable (ascii ''B'') (DefaultIfUnsetOrEmpty [Literal (ascii ''c'')])], [])"
    by code_simp
  then show ?thesis using expression_parse_bounded [OF p] by blast
qed

text \<open>
  In an expanded condition a backslash between a dollar sign and a byte that starts no name is
  dropped: an escaped full stop becomes a full stop that matches every byte.
\<close>

lemma condition_drops_backslash: "expression_parse ShellCondition (ascii ''$'' @ [92, 46]) = Inr [Literal (ascii ''$.'')]"
  by code_simp

end
