(* ===== verification/Encoded_Words.thy ===== *)
theory Encoded_Words
  imports Header_Value
begin

text \<open>
  Round trips of \<open>src/header_value.rs\<close>: base64, single encoded words, and whole generated
  values through folding and decoding.
\<close>

unbundle bit_operations_syntax

section \<open>Base64\<close>

lemma base64_alphabet:
  "list_all (\<lambda>n. base64_value (BASE64 ! n) = Inr (of_nat n) \<and> BASE64 ! n \<noteq> EQUALS \<and> BASE64 ! n \<noteq> QUESTION \<and>
     43 \<le> BASE64 ! n) [0..<64]"
  by (simp add: BASE64_def base64_value_def upt_conv_Cons)

lemma base64_char_props:
  assumes "unat i < 64"
  shows "base64_value (base64_char i) = Inr i" "base64_char i \<noteq> EQUALS" "base64_char i \<noteq> QUESTION"
    "43 \<le> base64_char i"
  using base64_alphabet assms by (auto simp: list_all_iff base64_char_def)

lemma low_bits:
  fixes x :: byte
  shows "x AND 3 = take_bit 2 x" "x AND 15 = take_bit 4 x" "x AND 63 = take_bit 6 x"
  by (simp_all add: take_bit_eq_mask mask_eq_exp_minus_1)

lemma sextet_bound:
  assumes "\<And>n. bit (w :: byte) n \<Longrightarrow> n < 6"
  shows "unat w < 64"
proof -
  have "take_bit 6 w = w" using assms by (auto intro!: bit_word_eqI simp: bit_take_bit_iff)
  then have "unat w = take_bit 6 (unat w)" by (metis unsigned_take_bit_eq)
  then show ?thesis using take_bit_nat_less_exp [of 6 "unat w"] by simp
qed

lemmas octet_bits = bit_or_iff bit_push_bit_iff bit_drop_bit_eq bit_take_bit_iff low_bits

lemma sextets:
  fixes x y z :: byte
  shows "unat (drop_bit 2 x) < 64" "unat (push_bit 4 (x AND 3) OR drop_bit 4 y) < 64"
    "unat (push_bit 2 (y AND 15) OR drop_bit 6 z) < 64" "unat (z AND 63) < 64"
proof -
  show "unat (drop_bit 2 x) < 64"
    by (rule sextet_bound) (auto simp: octet_bits dest: bit_imp_le_length)
  show "unat (push_bit 4 (x AND 3) OR drop_bit 4 y) < 64"
    unfolding low_bits by (rule sextet_bound) (auto simp: octet_bits dest: bit_imp_le_length)
  show "unat (push_bit 2 (y AND 15) OR drop_bit 6 z) < 64"
    unfolding low_bits by (rule sextet_bound) (auto simp: octet_bits dest: bit_imp_le_length)
  show "unat (z AND 63) < 64"
    unfolding low_bits by (rule sextet_bound) (auto simp: octet_bits dest: bit_imp_le_length)
qed

lemma octets:
  fixes x y z :: byte
  shows "push_bit 2 (drop_bit 2 x) OR drop_bit 4 (push_bit 4 (x AND 3) OR drop_bit 4 y) = x"
    "push_bit 4 (push_bit 4 (x AND 3) OR drop_bit 4 y) OR drop_bit 2 (push_bit 2 (y AND 15) OR drop_bit 6 z) = y"
    "push_bit 6 (push_bit 2 (y AND 15) OR drop_bit 6 z) OR (z AND 63) = z"
proof -
  have two: "Suc (Suc (n - 2)) = n" if "2 \<le> n" for n using that by simp
  have split2: "n < 2 \<or> 2 \<le> n" and split4: "n < 4 \<or> 4 \<le> n" and split6: "n < 6 \<or> 6 \<le> n" for n :: nat
    by auto
  show "push_bit 2 (drop_bit 2 x) OR drop_bit 4 (push_bit 4 (x AND 3) OR drop_bit 4 y) = x"
    unfolding low_bits
  proof (rule bit_word_eqI)
    fix n assume "n < LENGTH(8)"
    then show "bit (push_bit 2 (drop_bit 2 x) OR drop_bit 4 (push_bit 4 (take_bit 2 x) OR drop_bit 4 y)) n = bit x n"
      using split2 [of n] by (auto simp: octet_bits two dest: bit_imp_le_length)
  qed
  show "push_bit 4 (push_bit 4 (x AND 3) OR drop_bit 4 y) OR
      drop_bit 2 (push_bit 2 (y AND 15) OR drop_bit 6 z) = y"
    unfolding low_bits
  proof (rule bit_word_eqI)
    fix n assume "n < LENGTH(8)"
    then show "bit (push_bit 4 (push_bit 4 (take_bit 2 x) OR drop_bit 4 y) OR
        drop_bit 2 (push_bit 2 (take_bit 4 y) OR drop_bit 6 z)) n = bit y n"
      using split4 [of n] by (auto simp: octet_bits dest: bit_imp_le_length)
  qed
  show "push_bit 6 (push_bit 2 (y AND 15) OR drop_bit 6 z) OR (z AND 63) = z"
    unfolding low_bits
  proof (rule bit_word_eqI)
    fix n assume "n < LENGTH(8)"
    then show "bit (push_bit 6 (push_bit 2 (take_bit 4 y) OR drop_bit 6 z) OR take_bit 6 z) n = bit z n"
      using split6 [of n] by (auto simp: octet_bits dest: bit_imp_le_length)
  qed
qed

lemma padding:
  fixes x y :: byte
  shows "(push_bit 4 (x AND 3) OR drop_bit 4 0) AND 15 = 0"
    "(push_bit 2 (y AND 15) OR drop_bit 6 0) AND 3 = 0"
  unfolding low_bits by (rule bit_word_eqI; simp add: octet_bits)+

lemma decode_quad_chars:
  assumes "unat a < 64" "unat b < 64"
  shows "unat c < 64 \<Longrightarrow> unat d < 64 \<Longrightarrow>
      decode_quad l (base64_char a) (base64_char b) (base64_char c) (base64_char d) =
        Inr [push_bit 2 a OR drop_bit 4 b, push_bit 4 b OR drop_bit 2 c, push_bit 6 c OR d]"
    and "unat c < 64 \<Longrightarrow> c AND 3 = 0 \<Longrightarrow>
      decode_quad True (base64_char a) (base64_char b) (base64_char c) EQUALS =
        Inr [push_bit 2 a OR drop_bit 4 b, push_bit 4 b OR drop_bit 2 c]"
    and "b AND 15 = 0 \<Longrightarrow>
      decode_quad True (base64_char a) (base64_char b) EQUALS EQUALS = Inr [push_bit 2 a OR drop_bit 4 b]"
  using assms by (simp_all add: decode_quad_def base64_char_props)

lemma decode_append_base64: "decode_chunks (append_base64 xs) = Inr xs"
proof (induction xs rule: append_base64.induct)
  case (1 x y z rest)
  then show ?case
    unfolding append_base64.simps append_Cons append_Nil decode_chunks.simps
      decode_quad_chars(1) [OF sextets] octets by simp
next
  case (2 x y)
  show ?case
    unfolding append_base64.simps append_Cons append_Nil decode_chunks.simps simp_thms
      decode_quad_chars(2) [OF sextets(1-3) padding(2)] octets by simp
next
  case (3 x)
  show ?case
    unfolding append_base64.simps append_Cons append_Nil decode_chunks.simps simp_thms
      decode_quad_chars(3) [OF sextets(1,2) padding(1)] octets by simp
next
  case 4
  show ?case by simp
qed

lemma length_append_base64: "length (append_base64 xs) = (length xs + 2) div 3 * 4"
proof (induction xs rule: append_base64.induct)
  case (1 x y z rest)
  have "(length (x # y # z # rest) + 2) div 3 = Suc ((length rest + 2) div 3)" by simp
  then show ?case using 1 by simp
qed simp_all

text \<open>
  C33. Base64 decoding inverts base64 encoding on every byte string, and the encoding has the
  length that the size computation predicts.
\<close>

theorem base64_roundtrip:
  "decode_base64 (append_base64 xs) = Inr xs \<and>
   base64_len (length xs) \<in> {Inl GH_SizeOverflow, Inr (length (append_base64 xs))}"
  by (auto simp: decode_base64_def decode_append_base64 length_append_base64 base64_len_def
      checked_add_def checked_mul_def split: if_splits)

section \<open>One encoded word\<close>

definition encoded_word :: "bytes \<Rightarrow> bytes" where
  "encoded_word c = ENCODED_WORD_PREFIX @ append_base64 c @ ENCODED_WORD_SUFFIX"

lemmas word_parts = encoded_word_def ENCODED_WORD_PREFIX_def ENCODED_WORD_SUFFIX_def

lemma append_base64_no_question: "b \<in> set (append_base64 xs) \<Longrightarrow> b \<noteq> QUESTION"
proof (induction xs rule: append_base64.induct)
  case (1 x y z rest)
  then show ?case using base64_char_props(3) [OF sextets(1)] base64_char_props(3) [OF sextets(2)]
      base64_char_props(3) [OF sextets(3)] base64_char_props(3) [OF sextets(4)]
    unfolding append_base64.simps by auto
next
  case (2 x y)
  then show ?case using base64_char_props(3) [OF sextets(1)] base64_char_props(3) [OF sextets(2)]
      base64_char_props(3) [OF sextets(3) [of y 0]]
    unfolding append_base64.simps by auto
next
  case (3 x)
  then show ?case using base64_char_props(3) [OF sextets(1)] base64_char_props(3) [OF sextets(2) [of x 0]]
    unfolding append_base64.simps by auto
qed simp

lemma append_base64_no_LF: "LF \<notin> set (append_base64 xs)"
proof (induction xs rule: append_base64.induct)
  case (1 x y z rest)
  have "base64_char i \<noteq> LF" if "unat i < 64" for i using base64_char_props(4) [OF that] by auto
  then have "LF \<noteq> base64_char (drop_bit 2 x)" "LF \<noteq> base64_char (push_bit 4 (x AND 3) OR drop_bit 4 y)"
    "LF \<noteq> base64_char (push_bit 2 (y AND 15) OR drop_bit 6 z)" "LF \<noteq> base64_char (z AND 63)"
    by (metis sextets)+
  then show ?case unfolding append_base64.simps using 1 by simp
next
  case (2 x y)
  have "base64_char i \<noteq> LF" if "unat i < 64" for i using base64_char_props(4) [OF that] by auto
  then have "LF \<noteq> base64_char (drop_bit 2 x)" "LF \<noteq> base64_char (push_bit 4 (x AND 3) OR drop_bit 4 y)"
    "LF \<noteq> base64_char (push_bit 2 (y AND 15) OR drop_bit 6 0)"
    by (metis sextets)+
  then show ?case unfolding append_base64.simps by simp
next
  case (3 x)
  have "base64_char i \<noteq> LF" if "unat i < 64" for i using base64_char_props(4) [OF that] by auto
  then have "LF \<noteq> base64_char (drop_bit 2 x)" "LF \<noteq> base64_char (push_bit 4 (x AND 3) OR drop_bit 4 0)"
    by (metis sextets)+
  then show ?case unfolding append_base64.simps by simp
qed simp

lemma position_window2_prefix:
  "\<forall>b \<in> set a. b \<noteq> x \<Longrightarrow> position_window2 (is_window x y) (a @ x # y # rest) = Some (length a)"
proof (induction a)
  case Nil
  then show ?case by (simp add: is_window_def)
next
  case (Cons b a)
  then show ?case by (cases a) (auto simp: is_window_def)
qed

lemma length_encoded_word: "length (encoded_word c) = 12 + length (append_base64 c)"
  by (simp add: word_parts)

lemma base64_len_chunk: "length c \<le> 45 \<Longrightarrow> length (append_base64 c) \<le> 60"
  using div_le_mono [of "length c + 2" 47 3] by (simp add: length_append_base64)

lemma base64_len_small: "n \<le> 45 \<Longrightarrow> base64_len n = Inr ((n + 2) div 3 * 4)"
  using div_le_mono [of "n + 2" 47 3]
  by (auto simp: base64_len_def checked_add_def checked_mul_def usize_max_def)

lemma word_bounds_encoded:
  assumes "length c \<le> 45"
  shows "word_bounds (encoded_word c @ rest) = Some (7, 9, 10, 12 + length (append_base64 c))"
proof -
  let ?e = "append_base64 c" let ?i = "encoded_word c @ rest"
  have i: "?i = ascii ''=?UTF-8?B?'' @ ?e @ QUESTION # EQUALS # rest" by (simp add: word_parts)
  have d: "drop 2 ?i = ascii ''UTF-8?B?'' @ ?e @ QUESTION # EQUALS # rest"
    "drop 8 ?i = ascii ''B?'' @ ?e @ QUESTION # EQUALS # rest"
    "drop 10 ?i = ?e @ QUESTION # EQUALS # rest"
    by (simp_all add: i numeral_eq_Suc)
  have w: "position_window2 (is_window QUESTION EQUALS) (drop 10 ?i) = Some (length ?e)"
    unfolding d by (rule position_window2_prefix) (use append_base64_no_question in blast)
  have p: "position (\<lambda>b. b = QUESTION) (drop 2 ?i) = Some 5"
    "position (\<lambda>b. b = QUESTION) (drop 8 ?i) = Some 1"
    unfolding d by simp_all
  show ?thesis
    using p w base64_len_chunk [OF assms]
    by (simp add: word_bounds_def checked_add_def usize_max_def Let_def)
qed

lemma decode_word_encoded:
  assumes "0 < length c" and "length c \<le> 45" and "valid_utf8 c"
  shows "decode_word (encoded_word c @ rest) = Inr (length (encoded_word c), c)"
proof -
  let ?e = "append_base64 c" let ?i = "encoded_word c @ rest"
  have i: "?i = ascii ''=?UTF-8?B?'' @ ?e @ QUESTION # EQUALS # rest" by (simp add: word_parts)
  have ne: "?e \<noteq> []" using assms(1) by (cases c rule: append_base64.cases) auto
  have sl: "slice ?i 2 7 = ascii ''UTF-8''" "slice ?i 8 9 = [66]" "slice ?i 10 (10 + length ?e) = ?e"
    by (simp_all add: slice_def i numeral_eq_Suc)
  have dec: "decode_base64 ?e = Inr c"
    by (simp add: decode_base64_def decode_append_base64 length_append_base64)
  have up: "to_ascii_uppercase 66 = 66" by (simp add: byte_defs)
  have nq: "QUESTION \<notin> set ?e" using append_base64_no_question by blast
  have tr: "transcode (ascii ''UTF-8'') c = Inr c" using assms(3) by (simp add: transcode_def)
  have small: "12 + length ?e \<le> 75" using base64_len_chunk [OF assms(2)] by simp
  show ?thesis
    unfolding decode_word_def word_bounds_encoded [OF assms(2)] length_encoded_word
    using sl ne dec nq tr small up by (simp add: Let_def del: ascii_simps) simp
qed

section \<open>A sequence of words\<close>

fun joined_words :: "bytes list \<Rightarrow> bytes" where
  "joined_words [] = []"
| "joined_words [c] = encoded_word c"
| "joined_words (c # d # cs) = encoded_word c @ SP # joined_words (d # cs)"

definition clean :: "bytes \<Rightarrow> bool" where
  "clean bs \<longleftrightarrow> (\<exists>cs. utf8_chars bs = Some cs \<and> (\<forall>c \<in> set cs. c = [TAB] \<or> \<not> char_is_control c))"

lemma clean_valid: "clean bs \<Longrightarrow> valid_utf8 bs"
  by (auto simp: clean_def valid_utf8_def)

lemma append_decoded_clean:
  assumes "clean text" and "bb_limit out \<le> usize_max" and "length (bb_bytes out) + length text \<le> bb_limit out"
  shows "append_decoded_text out text = Inr (out\<lparr>bb_bytes := bb_bytes out @ text\<rparr>)"
  using assms
  by (auto simp: append_decoded_text_def clean_def list_ex_iff try_extend_def try_extend_vec_def checked_add_def)

lemma encoded_word_start: "encoded_word c = EQUALS # QUESTION # ascii ''UTF-8?B?'' @ append_base64 c @ [QUESTION, EQUALS]"
  by (simp add: word_parts)

lemma joined_words_step:
  "joined_words (c # cs) = encoded_word c @ (if cs = [] then [] else SP # joined_words cs)"
  by (cases cs) auto

lemma find_encoded_word_blank: "find_encoded_word (SP # EQUALS # QUESTION # r) = Some 1"
  by (simp add: find_encoded_word_def is_window_def)

lemma decode_loop_blank:
  assumes "cs \<noteq> []"
  shows "decode_loop (SP # joined_words cs) True out = decode_loop (joined_words cs) True out"
proof -
  obtain r where r: "joined_words cs = EQUALS # QUESTION # r"
    using assms by (cases cs) (auto simp: joined_words_step encoded_word_start)
  show ?thesis
    unfolding r
    by (subst decode_loop.simps) (simp add: find_encoded_word_blank is_blank_def)
qed

lemma decode_loop_words:
  assumes "\<forall>c \<in> set cs. 0 < length c \<and> length c \<le> 45 \<and> clean c"
    and "bb_limit out \<le> usize_max" and "length (bb_bytes out) + length (concat cs) \<le> bb_limit out"
  shows "decode_loop (joined_words cs) p out = Inr (out\<lparr>bb_bytes := bb_bytes out @ concat cs\<rparr>)"
  using assms
proof (induction cs arbitrary: p out)
  case Nil
  then show ?case by (simp add: decode_loop.simps)
next
  case (Cons c cs)
  let ?rest = "if cs = [] then [] else SP # joined_words cs"
  let ?out = "out\<lparr>bb_bytes := bb_bytes out @ c\<rparr>"
  have c: "0 < length c" "length c \<le> 45" "clean c" using Cons.prems(1) by auto
  have start: "joined_words (c # cs) \<noteq> []" "starts_with (joined_words (c # cs)) [EQUALS, QUESTION]"
    by (simp_all add: joined_words_step encoded_word_start)
  have word: "decode_word (joined_words (c # cs)) = Inr (length (encoded_word c), c)"
    unfolding joined_words_step by (rule decode_word_encoded [OF c(1,2) clean_valid [OF c(3)]])
  have app: "append_decoded_text out c = Inr ?out"
    using Cons.prems by (intro append_decoded_clean c(3)) auto
  have drop: "drop (length (encoded_word c)) (joined_words (c # cs)) = ?rest"
    by (simp add: joined_words_step)
  have "decode_loop (joined_words (c # cs)) p out = decode_loop ?rest True ?out"
    using start word app drop by (subst decode_loop.simps) simp
  also have "\<dots> = Inr (?out\<lparr>bb_bytes := bb_bytes ?out @ concat cs\<rparr>)"
  proof (cases "cs = []")
    case True
    then show ?thesis by (simp add: decode_loop.simps)
  next
    case False
    then show ?thesis using Cons.IH [of ?out True] Cons.prems decode_loop_blank [OF False, of ?out] by simp
  qed
  finally show ?case by simp
qed

section \<open>Cutting a value into chunks\<close>

lemma boundary_back_le: "boundary_back v e \<le> e"
  by (induction e) auto

lemma boundary_back_boundary: "is_char_boundary v (boundary_back v e)"
  by (induction e) (auto simp: is_char_boundary_def)

lemma boundary_back_ge: "is_char_boundary v k \<Longrightarrow> k \<le> e \<Longrightarrow> k \<le> boundary_back v e"
  by (induction e) (auto simp: le_Suc_eq)

lemma chunk_end_props:
  assumes "valid_utf8 v" and "start < length v" and "length v \<le> usize_max"
  shows "start < chunk_end v start" "chunk_end v start \<le> start + 45" "chunk_end v start \<le> length v"
    "is_char_boundary v (chunk_end v start)"
proof -
  define e where "e = min (start + 45) (length v)"
  have ce: "chunk_end v start = boundary_back v e"
    using assms(2,3) by (auto simp: chunk_end_def checked_add_def RFC2047_INPUT_CHUNK_def e_def min_def)
  have le: "boundary_back v e \<le> e" by (rule boundary_back_le)
  show "chunk_end v start \<le> start + 45" "chunk_end v start \<le> length v"
    "is_char_boundary v (chunk_end v start)"
    using le by (simp_all add: ce e_def boundary_back_boundary)
  show "start < chunk_end v start"
  proof (cases "e < length v")
    case True
    then obtain k where k: "k \<le> e" "e \<le> k + 3" "is_char_boundary v k"
      using char_boundary_step [OF assms(1)] by blast
    then have "k \<le> boundary_back v e" by (intro boundary_back_ge)
    then show ?thesis using k(2) True by (simp add: ce e_def)
  next
    case False
    then have "e = length v" by (simp add: e_def)
    then have "length v \<le> boundary_back v e" by (intro boundary_back_ge) (simp_all add: is_char_boundary_def)
    then show ?thesis using assms(2) by (simp add: ce)
  qed
qed

fun folded_words :: "bytes \<Rightarrow> bytes list \<Rightarrow> bytes" where
  "folded_words ending [] = []"
| "folded_words ending (c # cs) = ending @ [SP] @ encoded_word c @ folded_words ending cs"

definition good_chunks :: "bytes \<Rightarrow> bytes list \<Rightarrow> bool" where
  "good_chunks v cs \<longleftrightarrow>
     concat cs = v \<and> (\<forall>c \<in> set cs. 0 < length c \<and> length c \<le> 45 \<and> valid_utf8 c \<and> set (chars c) \<subseteq> set (chars v))"

lemma good_chunks_Cons:
  assumes "valid_utf8 v" and "is_char_boundary v n" and "0 < n" and "n \<le> 45" and "n \<le> length v"
    and "good_chunks (drop n v) cs"
  shows "good_chunks v (take n v # cs)"
proof -
  note split = valid_utf8_split [OF assms(1,2,5)]
  have "set (chars (take n v)) \<subseteq> set (chars v)" "set (chars (drop n v)) \<subseteq> set (chars v)"
    using split by auto
  moreover have "valid_utf8 (take n v)" using split by (simp add: valid_utf8_def)
  moreover have "length (take n v) = n" using assms(5) by simp
  moreover have "concat cs = drop n v" and each: "\<And>c. c \<in> set cs \<Longrightarrow> 0 < length c \<and> length c \<le> 45 \<and>
      valid_utf8 c \<and> set (chars c) \<subseteq> set (chars (drop n v))"
    using assms(6) by (simp_all add: good_chunks_def)
  ultimately show ?thesis using assms(3,4) unfolding good_chunks_def by fastforce
qed

lemma char_boundary_drop:
  assumes "valid_utf8 (drop k v)" and "is_char_boundary v (k + n)"
  shows "is_char_boundary (drop k v) n"
  using assms by (auto simp: is_char_boundary_def)

lemma rfc2047_loop_result:
  assumes "valid_utf8 v" and "length v \<le> usize_max" and "start \<le> length v" and "is_char_boundary v start"
  shows "\<exists>cs. good_chunks (drop start v) cs \<and>
    rfc2047_loop v ending start False out = Some (Inr (out @ folded_words ending cs @ ending))"
  using assms(3,4)
proof (induction "length v - start" arbitrary: start out rule: less_induct)
  case less
  have vs: "valid_utf8 (drop start v)" using valid_utf8_split [OF assms(1) less.prems(2,1)] by blast
  show ?case
  proof (cases "start < length v")
    case False
    then have "good_chunks (drop start v) []" by (simp add: good_chunks_def)
    then show ?thesis using False by (intro exI [of _ "[]"]) (simp add: rfc2047_loop.simps)
  next
    case True
    define e where "e = chunk_end v start"
    note ce = chunk_end_props [OF assms(1) True assms(2), folded e_def]
    let ?c = "slice v start e"
    have c: "?c = take (e - start) (drop start v)" by (simp add: slice_def)
    have len: "length ?c = e - start" using ce by simp
    have b64: "base64_len (e - start) = Inr (length (append_base64 ?c))"
      using ce(2) len by (simp add: base64_len_small length_append_base64)
    have small: "length (append_base64 ?c) \<le> 60" using ce(2) len by (intro base64_len_chunk) simp
    have run: "rfc2047_loop v ending start False out =
        rfc2047_loop v ending e False (out @ ending @ [SP] @ encoded_word ?c)"
      using True ce(1) b64 small
      by (subst rfc2047_loop.simps)
        (simp add: Let_def e_def [symmetric] checked_add_def usize_max_def word_parts)
    obtain cs where cs: "good_chunks (drop e v) cs"
      "rfc2047_loop v ending e False (out @ ending @ [SP] @ encoded_word ?c) =
        Some (Inr ((out @ ending @ [SP] @ encoded_word ?c) @ folded_words ending cs @ ending))"
      using less.hyps [OF _ ce(3,4), of "out @ ending @ [SP] @ encoded_word ?c"] ce(1) True
      by (meson diff_less_mono2)
    have "good_chunks (drop start v) (?c # cs)"
      unfolding c
    proof (rule good_chunks_Cons [OF vs])
      show "is_char_boundary (drop start v) (e - start)"
        using ce(1,4) by (intro char_boundary_drop vs) simp
      show "good_chunks (drop (e - start) (drop start v)) cs" using cs(1) ce(1) by simp
    qed (use ce in auto)
    then show ?thesis using run cs(2) by (intro exI [of _ "?c # cs"]) simp
  qed
qed

text \<open>Where the first word goes: after the colon when the line stays within the limit.\<close>

definition first_word_fits :: "bytes \<Rightarrow> bytes \<Rightarrow> bool" where
  "first_word_fits name c \<longleftrightarrow> length name + 1 + 1 + length (encoded_word c) \<le> RFC2047_HEADER_LINE_LIMIT"

lemma length_canonical_name [simp]: "length (canonical_name f n) = length n"
  by (induction f n rule: canonical_name.induct) auto

lemma serialize_rfc2047_result:
  assumes "valid_utf8 v" and "v \<noteq> []" and "length v \<le> usize_max" and "length name \<le> isize_max"
  shows "\<exists>c cs. good_chunks v (c # cs) \<and>
    serialize_rfc2047 name v ending =
      Some (Inr (canonical_name True name @ [COLON] @ (if first_word_fits name c then [] else ending) @
        [SP] @ encoded_word c @ folded_words ending cs @ ending))"
proof -
  define e where "e = chunk_end v 0"
  have pos: "0 < length v" using assms(2) by simp
  note ce = chunk_end_props [OF assms(1) pos assms(3), folded e_def]
  let ?c = "slice v 0 e"
  have c: "?c = take e v" by (simp add: slice_def)
  have b64: "base64_len (e - 0) = Inr (length (append_base64 ?c))"
    using ce(2,3) by (simp add: base64_len_small length_append_base64)
  have small: "length (append_base64 ?c) \<le> 60" using ce(2,3) by (intro base64_len_chunk) simp
  let ?n = "canonical_name True name @ [COLON]"
  let ?out = "?n @ (if first_word_fits name ?c then [SP] else ending @ [SP]) @ encoded_word ?c"
  have fits: "(case Option.bind (checked_add (length ?n) 1)
        (\<lambda>n. checked_add n (12 + length (append_base64 ?c))) of
        None \<Rightarrow> False | Some n \<Rightarrow> n \<le> RFC2047_HEADER_LINE_LIMIT) = first_word_fits name ?c"
    using assms(4) small
    by (auto simp: checked_add_def first_word_fits_def length_encoded_word isize_max_def usize_max_def
        RFC2047_HEADER_LINE_LIMIT_def)
  have word_len: "Option.bind (checked_add (length ENCODED_WORD_PREFIX) (length (append_base64 ?c)))
      (\<lambda>n. checked_add n (length ENCODED_WORD_SUFFIX)) = Some (12 + length (append_base64 ?c))"
    using small by (simp add: checked_add_def usize_max_def ENCODED_WORD_PREFIX_def ENCODED_WORD_SUFFIX_def)
  have run: "serialize_rfc2047 name v ending = rfc2047_loop v ending e False ?out"
    unfolding serialize_rfc2047_def append_canonical_header_name_def
    using pos ce(1) b64
    by (subst rfc2047_loop.simps)
      (simp add: Let_def e_def [symmetric] word_len fits [simplified] encoded_word_def)
  obtain cs where cs: "good_chunks (drop e v) cs"
    "rfc2047_loop v ending e False ?out = Some (Inr (?out @ folded_words ending cs @ ending))"
    using rfc2047_loop_result [OF assms(1,3) ce(3,4), of ending ?out] by blast
  have "good_chunks v (?c # cs)"
    unfolding c by (rule good_chunks_Cons [OF assms(1) ce(4) ce(1) _ ce(3) cs(1)]) (use ce(2) in simp)
  then show ?thesis using run cs(2) by (intro exI [of _ ?c] exI [of _ cs]) auto
qed

section \<open>Generated fields are single fields\<close>

definition line_ending_ok :: "bytes \<Rightarrow> bool" where
  "line_ending_ok e \<longleftrightarrow> e = [LF] \<or> e = [CR, LF]"

lemma lines_of_ending:
  assumes "line_ending_ok e" and "LF \<notin> set a"
  shows "lines_of (a @ e @ rest) = (a @ e) # lines_of rest"
proof -
  obtain d where e: "e = d @ [LF]" "LF \<notin> set d"
    using assms(1) by (auto simp: line_ending_ok_def)
  then show ?thesis using lines_of_app_LF [of "a @ d" rest] assms(2) by simp
qed

lemma encoded_word_no_LF: "LF \<notin> set (encoded_word c)"
  using append_base64_no_LF by (simp add: word_parts)

text \<open>The folded words as lines: a blank, one encoded word and the line ending each.\<close>

lemma lines_of_folded:
  assumes "line_ending_ok e" and "LF \<notin> set a"
  shows "lines_of (a @ folded_words e cs @ e) =
    map (\<lambda>x. x @ e) (a # map (\<lambda>c. SP # encoded_word c) cs)"
  using assms(2)
proof (induction cs arbitrary: a)
  case Nil
  then show ?case using lines_of_ending [OF assms(1), of a "[]"] by simp
next
  case (Cons c cs)
  have "lines_of (a @ folded_words e (c # cs) @ e) =
      (a @ e) # lines_of ((SP # encoded_word c) @ folded_words e cs @ e)"
    using lines_of_ending [OF assms(1) Cons.prems] by simp
  also have "\<dots> = (a @ e) # map (\<lambda>x. x @ e) ((SP # encoded_word c) # map (\<lambda>c. SP # encoded_word c) cs)"
    using Cons.IH [of "SP # encoded_word c"] encoded_word_no_LF [of c] by simp
  finally show ?case by simp
qed

lemma continuation_all:
  "\<forall>l \<in> set (lines_of xs). \<exists>b. first l = Some b \<and> is_blank b \<Longrightarrow> continuation xs = xs"
proof (induction xs rule: continuation.induct)
  case (1 xs)
  show ?case
  proof (cases "xs = []")
    case True
    then show ?thesis by (simp add: continuation.simps)
  next
    case False
    have fl: "lines_of xs = first_line xs # lines_of (drop (length (first_line xs)) xs)"
      by (rule lines_of_step [OF False])
    then obtain b where b: "first xs = Some b" "is_blank b"
      using "1.prems" False by (cases xs) (auto simp: first_line_cons split: if_splits)
    have "continuation (drop (length (first_line xs)) xs) = drop (length (first_line xs)) xs"
      using "1.IH" [OF b] "1.prems" fl by simp
    then show ?thesis using b first_line_split [of xs] by (subst continuation.simps) simp
  qed
qed

lemma single_field:
  assumes "lines_of xs = l # ls" and "\<not> blank_line l"
    and "\<forall>k \<in> set ls. \<exists>b. first k = Some b \<and> is_blank b"
  shows "raw_fields xs = [field_from_bytes xs]"
proof -
  have ne: "xs \<noteq> []" using assms(1) by auto
  let ?t = "drop (length (first_line xs)) xs"
  have l: "first_line xs = l" "lines_of ?t = ls" using lines_of_step [OF ne] assms(1) by simp_all
  have c: "continuation ?t = ?t" using assms(3) l(2) by (intro continuation_all) simp
  have "next_field xs = Some (xs, [])"
    using ne assms(2) l(1) c length_first_line_le [of xs]
    by (auto simp: next_field_def blank_line_def Let_def)
  moreover have "raw_fields [] = []" by (simp add: raw_fields.simps next_field_def)
  ultimately show ?thesis by (subst raw_fields.simps) simp
qed

lemma f_name_first_line:
  assumes "COLON \<notin> set n" and "LF \<notin> set n"
  shows "f_name (field_from_bytes (n @ COLON # rest)) = Some n"
proof -
  have "position (\<lambda>b. b = COLON) (n @ COLON # zs) = Some (length n)" for zs
    using assms(1) by (induction n) auto
  moreover have "\<exists>zs. take (case position (\<lambda>b. b = LF) (n @ COLON # rest) of
      None \<Rightarrow> length (n @ COLON # rest) | Some i \<Rightarrow> i) (n @ COLON # rest) = n @ COLON # zs"
  proof -
    have "position (\<lambda>b. b = LF) n = None" using assms(2) by (auto simp: position_None_iff)
    then show ?thesis by (auto simp: position_append split: option.splits)
  qed
  ultimately show ?thesis by (auto simp: field_from_bytes_def Let_def)
qed

lemma utf8_chars_well_formed: "utf8_chars bs = Some cs \<Longrightarrow> c \<in> set cs \<Longrightarrow> well_formed c"
proof (induction bs arbitrary: cs rule: utf8_chars.induct)
  case (1 bs)
  show ?case
  proof (cases "bs = []")
    case True
    then show ?thesis using "1.prems" by simp
  next
    case False
    then obtain n ds where n: "char_len bs = Some n" "utf8_chars (drop n bs) = Some ds" "cs = take n bs # ds"
      using "1.prems"(1) by (auto simp: utf8_chars_step split: option.splits)
    then show ?thesis
      using "1.IH" [OF False n(1,2)] "1.prems"(2) char_len_char_at [OF n(1)] by (auto simp: char_at_def)
  qed
qed

lemma well_formed_small: "well_formed c \<Longrightarrow> b \<in> set c \<Longrightarrow> b < 128 \<Longrightarrow> c = [b]"
proof (induction c rule: well_formed.induct)
  case (1 a)
  then show ?case by simp
next
  case (2 a c)
  then show ?case by (auto simp: is_continuation_def) unat_arith+
next
  case (3 a c d)
  then show ?case by (auto simp: is_continuation_def) unat_arith+
next
  case (4 a c d e)
  then show ?case by (auto simp: is_continuation_def) unat_arith+
qed simp_all

lemma clean_bytes:
  assumes "clean v" and "b \<in> set v" and "b < 32"
  shows "b = TAB"
proof -
  obtain cs where cs: "utf8_chars v = Some cs" "\<forall>c \<in> set cs. c = [TAB] \<or> \<not> char_is_control c"
    using assms(1) by (auto simp: clean_def)
  then obtain c where c: "c \<in> set cs" "b \<in> set c"
    using assms(2) utf8_chars_concat [OF cs(1)] by auto
  have "b < 128" using assms(3) by unat_arith
  then have "c = [b]" using well_formed_small utf8_chars_well_formed [OF cs(1) c(1)] c(2) by blast
  then show ?thesis using cs(2) c(1) assms(3) by (auto simp: char_is_control_def)
qed

lemma scan_generated_clean:
  "scan_generated f cs = Inr r \<Longrightarrow> c \<in> set cs \<Longrightarrow> c = [TAB] \<or> \<not> char_is_control c"
proof (induction f cs rule: scan_generated.induct)
  case (1 f)
  then show ?case by simp
next
  case (2 f d cs)
  have "\<not> char_is_control [b]" if "is_ascii_graphic b \<or> b = SP" for b
    using that unfolding char_is_control_def byte_defs by (auto; unat_arith)
  then show ?case
    using 2 by (auto split: if_splits list.splits)
qed

lemma validated_clean:
  assumes "valid_utf8 v" and "validate_generated_header_value n v = Inr enc"
  shows "clean v"
proof -
  obtain cs where cs: "utf8_chars v = Some cs" using assms(1) by (auto simp: valid_utf8_def)
  obtain r where "scan_generated False cs = Inr r"
    using assms(2) cs by (auto simp: validate_generated_header_value_def chars_def split: sum.splits)
  then show ?thesis using cs scan_generated_clean unfolding clean_def by blast
qed

lemma canonical_name_bytes:
  "b \<in> set (canonical_name f n) \<Longrightarrow> \<exists>c \<in> set n. b = to_ascii_uppercase c \<or> b = to_ascii_lowercase c"
  by (induction f n rule: canonical_name.induct) (auto split: if_splits)

lemma canonical_name_plain:
  assumes "COLON \<notin> set n" and "LF \<notin> set n"
  shows "COLON \<notin> set (canonical_name f n)" "LF \<notin> set (canonical_name f n)"
proof -
  have "to_ascii_uppercase c = COLON \<Longrightarrow> c = COLON" "to_ascii_lowercase c = COLON \<Longrightarrow> c = COLON"
    "to_ascii_uppercase c = LF \<Longrightarrow> c = LF" "to_ascii_lowercase c = LF \<Longrightarrow> c = LF" for c
    unfolding byte_defs by (auto split: if_splits; unat_arith)+
  then show "COLON \<notin> set (canonical_name f n)" "LF \<notin> set (canonical_name f n)"
    using assms canonical_name_bytes [of COLON f n] canonical_name_bytes [of LF f n] by metis+
qed

lemma canonical_name_same: "eq_ignore_ascii_case (canonical_name f n) n"
proof -
  have "to_ascii_lowercase (to_ascii_uppercase b) = to_ascii_lowercase b" for b
    unfolding byte_defs by unat_arith
  then show ?thesis
    unfolding eq_ignore_ascii_case_def by (induction f n rule: canonical_name.induct) auto
qed

lemma ends_with_ending: "line_ending_ok e \<Longrightarrow> ends_with (xs @ e) [LF]"
  by (auto simp: line_ending_ok_def ends_with_singleton)

lemma first_append: "first (xs @ ys) = (if xs = [] then first ys else first xs)"
  by (cases xs) auto

lemma not_blank_line_named: "COLON \<in> set l \<Longrightarrow> \<not> blank_line l"
  by (auto simp: blank_line_def)

text \<open>The shape of an encoded field, with the place of the first word.\<close>

definition rfc2047_field :: "bytes \<Rightarrow> bytes \<Rightarrow> bytes \<Rightarrow> bytes list \<Rightarrow> bytes" where
  "rfc2047_field name ending c cs =
     (if first_word_fits name c
      then (canonical_name True name @ [COLON, SP] @ encoded_word c) @ folded_words ending cs @ ending
      else (canonical_name True name @ [COLON]) @ folded_words ending (c # cs) @ ending)"

lemma serialize_rfc2047_field:
  assumes "valid_utf8 v" and "v \<noteq> []" and "length v \<le> usize_max" and "length name \<le> isize_max"
  obtains c cs where "good_chunks v (c # cs)"
    "serialize_rfc2047 name v ending = Some (Inr (rfc2047_field name ending c cs))"
proof -
  obtain c cs where *: "good_chunks v (c # cs)" "serialize_rfc2047 name v ending =
      Some (Inr (canonical_name True name @ [COLON] @ (if first_word_fits name c then [] else ending) @
        [SP] @ encoded_word c @ folded_words ending cs @ ending))"
    using serialize_rfc2047_result [OF assms, of ending] by blast
  then have "serialize_rfc2047 name v ending = Some (Inr (rfc2047_field name ending c cs))"
    by (simp add: rfc2047_field_def)
  with *(1) show thesis by (rule that)
qed

lemma rfc2047_field_lines:
  assumes "line_ending_ok e" and "LF \<notin> set name" and "COLON \<notin> set name"
  shows "lines_of (rfc2047_field name e c cs) = map (\<lambda>x. x @ e)
    (if first_word_fits name c
     then (canonical_name True name @ [COLON, SP] @ encoded_word c) # map (\<lambda>c. SP # encoded_word c) cs
     else (canonical_name True name @ [COLON]) # map (\<lambda>c. SP # encoded_word c) (c # cs))"
proof -
  have "LF \<notin> set (canonical_name True name @ [COLON, SP] @ encoded_word c)"
    "LF \<notin> set (canonical_name True name @ [COLON])"
    using canonical_name_plain [OF assms(3,2)] encoded_word_no_LF [of c] by simp_all
  note lines = this [THEN lines_of_folded [OF assms(1)]]
  show ?thesis
    unfolding rfc2047_field_def using lines(1) [of cs] lines(2) [of "c # cs"] by (simp del: append.assoc)
qed

text \<open>
  C34. A generated header field is exactly one field with the requested name, whatever text
  the value holds: it cannot smuggle in another field or end the header.
\<close>

theorem generated_header_single_field:
  assumes "serialize_generated_header name v ending = Some (Inr out)" and "valid_utf8 v"
    and "length v \<le> usize_max" and "length name \<le> isize_max"
    and "COLON \<notin> set name" and "LF \<notin> set name" and "line_ending_ok ending"
  shows "raw_fields out = [field_from_bytes out] \<and> ends_with out [LF] \<and>
    f_name (field_from_bytes out) = Some (canonical_name True name)"
proof -
  let ?n = "canonical_name True name"
  note plain = canonical_name_plain [OF assms(5,6), of True]
  obtain enc where enc: "validate_generated_header_value name v = Inr enc"
    using assms(1) by (auto simp: serialize_generated_header_def split: sum.splits)
  have cl: "clean v" by (rule validated_clean [OF assms(2) enc])
  have noLF: "LF \<notin> set v" using clean_bytes [OF cl, of LF] by auto
  show ?thesis
  proof (cases enc)
    case Enc_Ascii
    then have out: "out = (?n @ [COLON, SP] @ v) @ ending"
      using assms(1) enc
      by (auto simp: serialize_generated_header_def serialize_ascii_def append_canonical_header_name_def
          split: option.splits)
    have "lines_of (?n @ COLON # SP # v @ ending) = [?n @ COLON # SP # v @ ending]"
      using lines_of_ending [OF assms(7), of "?n @ [COLON, SP] @ v" "[]"] plain noLF by simp
    then have "raw_fields out = [field_from_bytes out]"
      unfolding out by (intro single_field) (auto intro!: not_blank_line_named)
    then show ?thesis
      using f_name_first_line [OF plain, of "SP # v @ ending"] ends_with_ending [OF assms(7), of "?n @ [COLON, SP] @ v"]
      by (simp add: out)
  next
    case Enc_Rfc2047
    have ne: "v \<noteq> []"
      using enc Enc_Rfc2047 by (auto simp: validate_generated_header_value_def chars_def split: option.splits if_splits)
    have "serialize_rfc2047 name v ending = Some (Inr out)"
      using assms(1) enc Enc_Rfc2047 by (simp add: serialize_generated_header_def)
    then obtain c cs where out: "out = rfc2047_field name ending c cs"
      using serialize_rfc2047_field [OF assms(2) ne assms(3,4), of ending] by (metis sum.inject(2) option.inject)
    have "raw_fields out = [field_from_bytes out]"
    proof (cases "first_word_fits name c")
      case True
      then show ?thesis
        using rfc2047_field_lines [OF assms(7,6,5), of c cs, folded out]
        by (intro single_field) (auto simp: is_blank_def intro!: not_blank_line_named)
    next
      case False
      then show ?thesis
        using rfc2047_field_lines [OF assms(7,6,5), of c cs, folded out]
        by (intro single_field) (auto simp: is_blank_def intro!: not_blank_line_named)
    qed
    moreover have "\<exists>r. out = ?n @ COLON # r @ ending" by (auto simp: out rfc2047_field_def)
    ultimately show ?thesis
      using f_name_first_line [OF plain] ends_with_ending [OF assms(7)]
      by (metis append.assoc append_Cons)
  qed
qed

theorem generated_header_single_field_witness:
  "raw_fields (ascii ''X-Id: ok'' @ [LF]) = [field_from_bytes (ascii ''X-Id: ok'' @ [LF])]"
proof -
  have "utf8_chars (ascii ''ok'') = Some [[111], [107]]" by (simp add: valid_utf8_ascii)
  then have "serialize_generated_header (ascii ''x-id'') (ascii ''ok'') [LF] =
      Some (Inr (ascii ''X-Id: ok'' @ [LF]))" and "valid_utf8 (ascii ''ok'')"
    by (simp_all add: valid_utf8_def serialize_generated_header_def validate_generated_header_value_def chars_def
        byte_defs checked_add_def usize_max_def RFC5322_HEADER_LINE_LIMIT_def serialize_ascii_def
        append_canonical_header_name_def)
  then show ?thesis
    using generated_header_single_field [of "ascii ''x-id''" "ascii ''ok''" "[LF]" "ascii ''X-Id: ok'' @ [LF]"]
    by (simp add: isize_max_def usize_max_def line_ending_ok_def)
qed

text \<open>
  C20. Encoding a text always terminates with a field, and no line of it, without its line
  ending, is longer than the 76 bytes that RFC 2047 allows, or than the name and its colon where those alone
  are longer.
\<close>

theorem serialize_rfc2047_lines:
  assumes "valid_utf8 v" and "v \<noteq> []" and "length v \<le> usize_max" and "length name \<le> isize_max"
    and "COLON \<notin> set name" and "LF \<notin> set name" and "line_ending_ok ending"
  shows "\<exists>out. serialize_rfc2047 name v ending = Some (Inr out) \<and>
    (\<forall>l \<in> set (lines_of out). length l \<le> max RFC2047_HEADER_LINE_LIMIT (length name + 1) + length ending)"
proof -
  obtain c cs where g: "good_chunks v (c # cs)"
    and out: "serialize_rfc2047 name v ending = Some (Inr (rfc2047_field name ending c cs))"
    by (rule serialize_rfc2047_field [OF assms(1-4)])
  have word: "length (SP # encoded_word d) \<le> RFC2047_HEADER_LINE_LIMIT" if "d \<in> set (c # cs)" for d
    using g that base64_len_chunk [of d]
    by (auto simp: good_chunks_def length_encoded_word RFC2047_HEADER_LINE_LIMIT_def)
  have "length l \<le> max RFC2047_HEADER_LINE_LIMIT (length name + 1) + length ending"
    if "l \<in> set (lines_of (rfc2047_field name ending c cs))" for l
    using that word unfolding rfc2047_field_lines [OF assms(7,6,5)]
    by (fastforce simp: first_word_fits_def max_def split: if_splits)
  then show ?thesis using out by blast
qed

theorem serialize_rfc2047_lines_witness:
  "\<exists>out. serialize_rfc2047 (ascii ''Subject'') [195, 169] [LF] = Some (Inr out)"
proof -
  have "utf8_chars [195, 169] = Some [[195, 169]]"
    by (simp add: utf8_chars_step char_len_def char_at_def is_continuation_def)
  then have "valid_utf8 [195, 169]" by (simp add: valid_utf8_def)
  from serialize_rfc2047_lines [OF this, of "ascii ''Subject''" "[LF]"] show ?thesis
    by (auto simp: isize_max_def usize_max_def line_ending_ok_def)
qed

end
