(* ===== verification/Header_Edit.thy ===== *)
theory Header_Edit
  imports Encoded_Words Structured_Header Edited_Header_Limits
begin

text \<open>
  The header action of a recipe, \<open>src/header_edit.rs\<close>: the operations of one action run in
  order on a private copy of the header, each followed by a check of the aggregate sizes, and
  the result is validated before it is published.  A \<open>run\<close> is the outcome of a fallible step:
  \<open>None\<close> when the serialisation loop would not end (which well-formed text excludes),
  otherwise an error or a value.  An error abandons the private copy, so a step that fails
  returns no header.
\<close>

type_synonym 'a run = "(header_edit_error + 'a) option"

definition ok :: "'a \<Rightarrow> 'a run" where
  "ok x = Some (Inr x)"

definition fail :: "header_edit_error \<Rightarrow> 'a run" where
  "fail e = Some (Inl e)"

definition run_bind :: "'a run \<Rightarrow> ('a \<Rightarrow> 'b run) \<Rightarrow> 'b run" where
  "run_bind m f = (case m of None \<Rightarrow> None | Some (Inl e) \<Rightarrow> Some (Inl e) | Some (Inr x) \<Rightarrow> f x)"

definition lift :: "header_edit_error + 'a \<Rightarrow> 'a run" where
  "lift r = Some r"

text \<open>A store operation whose result is propagated with the question mark operator.\<close>

definition try_store :: "edited_header \<times> (header_edit_error + unit) \<Rightarrow> edited_header run" where
  "try_store p = (case snd p of Inl e \<Rightarrow> fail e | Inr _ \<Rightarrow> ok (fst p))"

lemma run_bind_simps [simp]:
  "run_bind (ok x) f = f x" "run_bind (fail e) f = fail e" "run_bind None f = None"
  "run_bind (Some (Inr x)) f = f x" "run_bind (Some (Inl e)) f = Some (Inl e)"
  by (simp_all add: run_bind_def ok_def fail_def)

lemma run_bind_Some:
  "run_bind m f = Some (Inr y) \<longleftrightarrow> (\<exists>x. m = Some (Inr x) \<and> f x = Some (Inr y))"
  by (auto simp: run_bind_def split: option.splits sum.splits)

record header_extraction =
  hx_line :: usize
  hx_target :: bytes
  hx_value :: bytes

record applied_header_action =
  ah_header :: edited_header
  ah_extractions :: "header_extraction list"

section \<open>Values\<close>

definition make_field :: "bytes \<Rightarrow> bytes \<Rightarrow> bytes \<Rightarrow> bytes run" where
  "make_field name value ending =
     map_option
       (\<lambda>r. case r of
          Inr out \<Rightarrow> Inr out
        | Inl GH_InvalidValue \<Rightarrow> Inl InvalidGeneratedValue
        | Inl GH_LineTooLong \<Rightarrow> Inl (GeneratedLineTooLong RFC5322_HEADER_LINE_LIMIT)
        | Inl GH_SizeOverflow \<Rightarrow> Inl SizeOverflow)
       (serialize_generated_header name value ending)"

definition extraction_length_error :: header_edit_error where
  "extraction_length_error = ExtractedValueTooLong MAX_ASSIGNMENT_VALUE_LEN"

definition line_content :: "bytes \<Rightarrow> bytes" where
  "line_content line =
     (case position (\<lambda>b. \<not> is_blank b) line of None \<Rightarrow> [] | Some start \<Rightarrow> drop start line)"

fun unfold_lines :: "bool \<Rightarrow> bounded_bytes \<Rightarrow> bytes list \<Rightarrow> header_edit_error + bounded_bytes" where
  "unfold_lines is_first output [] = Inr output"
| "unfold_lines is_first output (line # lines) =
     (case (if \<not> is_first then try_extend output [SP] else Inr output) of
        Inl _ \<Rightarrow> Inl extraction_length_error
      | Inr output1 \<Rightarrow>
          (case try_extend output1 (line_content (strip_line_ending line)) of
             Inl _ \<Rightarrow> Inl extraction_length_error
           | Inr output2 \<Rightarrow> unfold_lines False output2 lines))"

definition unfold_value :: "bytes \<Rightarrow> header_edit_error + bytes" where
  "unfold_value value =
     (case unfold_lines True (with_capacity MAX_ASSIGNMENT_VALUE_LEN (length value)) (lines_of value) of
        Inl e \<Rightarrow> Inl e
      | Inr output \<Rightarrow> Inr (into_vec output))"

definition extract_value :: "field \<Rightarrow> header_extraction_mode \<Rightarrow> header_edit_error + bytes" where
  "extract_value f mode =
     (let value = (case field_value f of Some v \<Rightarrow> v | None \<Rightarrow> [])
      in case mode of
           Raw \<Rightarrow>
             (let v = strip_line_ending value
              in if length v > MAX_ASSIGNMENT_VALUE_LEN
                 then Inl (ExtractedValueTooLong MAX_ASSIGNMENT_VALUE_LEN) else Inr v)
         | Unfolded \<Rightarrow> unfold_value value
         | Decoded \<Rightarrow>
             (case unfold_value value of
                Inl e \<Rightarrow> Inl e
              | Inr text \<Rightarrow>
                  (case decode_rfc2047 text MAX_ASSIGNMENT_VALUE_LEN of
                     Inl e \<Rightarrow> Inl (Decode e)
                   | Inr v \<Rightarrow> Inr v)))"

definition rename_field :: "field \<Rightarrow> bytes \<Rightarrow> header_edit_error + bytes" where
  "rename_field f name =
     (let suffix = (case Option.bind (f_name f) (\<lambda>old. get_from (f_bytes f) (length old)) of
                      Some s \<Rightarrow> s | None \<Rightarrow> [])
      in case checked_add (length name) (length suffix) of
           None \<Rightarrow> Inl SizeOverflow
         | Some _ \<Rightarrow> Inr (append_canonical_header_name [] name @ suffix))"

fun status_error_reason :: "configured_status_error \<Rightarrow> string" where
  "status_error_reason StatusEmpty = ''must contain at least one status flag''"
| "status_error_reason StatusInvalidFlag = 
     ''must contain only '' @ [CHR 0x27] @ ''read'' @ [CHR 0x27] @ '', '' @ [CHR 0x27] @ ''flagged'' @
     [CHR 0x27] @ '', or '' @ [CHR 0x27] @ ''replied'' @ [CHR 0x27]"

definition parse_status :: "bytes \<Rightarrow> header_edit_error + message_status" where
  "parse_status value =
     (case parse_configured_status value of
        Inl e \<Rightarrow> Inl (InvalidStatusValue (status_error_reason e))
      | Inr s \<Rightarrow> Inr s)"

definition parse_keywords :: "bytes \<Rightarrow> header_edit_error + bytes list" where
  "parse_keywords value =
     (case parse_configured_keywords value of
        Inl (KeywordsTooMany limit) \<Rightarrow> Inl (KeywordLimitExceeded limit)
      | Inl e \<Rightarrow> Inl (InvalidKeywordValue (keyword_error_reason e))
      | Inr ks \<Rightarrow> Inr ks)"

section \<open>Fields\<close>

definition remove_field :: "bytes \<Rightarrow> edited_header \<Rightarrow> edited_header" where
  "remove_field name h =
     (if eh_any_match h name then on_store (store_remove_matching name) h else h)"

definition set_field :: "bytes \<Rightarrow> bytes \<Rightarrow> bytes \<Rightarrow> edited_header \<Rightarrow> edited_header run" where
  "set_field name value ending h =
     run_bind (make_field name value ending) (\<lambda>replacement.
       let st = store (storage h);
           matching = filter (\<lambda>index. store_matches st index name) [0..<length (hfields st)];
           unchanged = (case matching of
                          [index] \<Rightarrow> f_bytes (store_field st index) = replacement
                        | _ \<Rightarrow> False)
       in if \<not> unchanged then
            let pos = (case matching of [] \<Rightarrow> length (hfields st) | index # _ \<Rightarrow> index)
            in try_store
                 (on_store_result
                    (\<lambda>st. store_insert pos replacement (store_remove_matching name st)) h)
          else ok h)"

fun set_fields :: "(bytes \<times> bytes) list \<Rightarrow> bytes \<Rightarrow> edited_header \<Rightarrow> edited_header run" where
  "set_fields [] ending h = ok h"
| "set_fields ((name, value) # rest) ending h =
     run_bind (set_field name value ending h) (set_fields rest ending)"

fun join_keywords :: "bytes list \<Rightarrow> bytes" where
  "join_keywords [] = []"
| "join_keywords [k] = k"
| "join_keywords (k # l # ks) = k @ [44, SP] @ join_keywords (l # ks)"

definition existing_keywords :: "edited_header \<Rightarrow> header_edit_error + bytes list" where
  "existing_keywords h =
     (case collect_keywords (View_Indexed h) KEYWORD_FIELDS_ALL of
        Inl _ \<Rightarrow> Inl (KeywordLimitExceeded MAX_STRUCTURED_HEADER_VALUES)
      | Inr ks \<Rightarrow> Inr ks)"

definition wanted_keywords :: "edited_header \<Rightarrow> header_keywords_mode \<Rightarrow> bytes list run" where
  "wanted_keywords h mode =
     (case mode of
        KeywordsAdd value \<Rightarrow>
          run_bind (lift (parse_keywords (hv_source value))) (\<lambda>configured.
          run_bind (lift (existing_keywords h)) (\<lambda>existing.
            let keywords = foldl (\<lambda>ks item. if item \<in> set ks then ks else ks @ [item]) existing configured
            in if length keywords > MAX_STRUCTURED_HEADER_VALUES
               then fail (KeywordLimitExceeded MAX_STRUCTURED_HEADER_VALUES) else ok keywords))
      | KeywordsRemove value \<Rightarrow>
          run_bind (lift (parse_keywords (hv_source value))) (\<lambda>configured.
          run_bind (lift (existing_keywords h)) (\<lambda>existing.
            ok (filter (\<lambda>k. k \<notin> set configured) existing)))
      | KeywordsSet value \<Rightarrow> lift (parse_keywords (hv_source value))
      | KeywordsClear \<Rightarrow> ok [])"

definition apply_keywords :: "header_keywords_mode \<Rightarrow> bytes \<Rightarrow> edited_header \<Rightarrow> edited_header run" where
  "apply_keywords mode ending h =
     run_bind (wanted_keywords h mode) (\<lambda>keywords.
       if keywords = [] then
         ok (foldl (\<lambda>h f. remove_field (keyword_field_name f) h) h KEYWORD_FIELDS_ALL)
       else
         set_fields (map (\<lambda>f. (keyword_field_name f, join_keywords keywords)) KEYWORD_FIELDS_ALL) ending h)"

definition apply_priority :: "header_priority_mode \<Rightarrow> bytes \<Rightarrow> edited_header \<Rightarrow> edited_header run" where
  "apply_priority mode ending h =
     (case priority_fields mode of
        Some fs \<Rightarrow> set_fields fs ending h
      | None \<Rightarrow>
          ok (foldl (\<lambda>h name. remove_field name h) h
                [ascii ''Importance'', ascii ''Priority'', ascii ''X-Priority'']))"

definition new_status :: "message_status \<Rightarrow> header_status_mode \<Rightarrow> header_edit_error + message_status" where
  "new_status status mode =
     (case mode of
        StatusAdd value \<Rightarrow> map_sum id (status_add status) (parse_status (hv_source value))
      | StatusRemove value \<Rightarrow> map_sum id (status_remove status) (parse_status (hv_source value))
      | StatusSet value \<Rightarrow> parse_status (hv_source value)
      | StatusClear \<Rightarrow> Inr STATUS_NONE)"

definition put_field :: "bytes \<Rightarrow> bytes option \<Rightarrow> bytes \<Rightarrow> edited_header \<Rightarrow> edited_header run" where
  "put_field name value ending h =
     (case value of Some v \<Rightarrow> set_field name v ending h | None \<Rightarrow> ok (remove_field name h))"

definition apply_status :: "header_status_mode \<Rightarrow> bytes \<Rightarrow> edited_header \<Rightarrow> edited_header run" where
  "apply_status mode ending h =
     run_bind (lift (new_status (eh_status h) mode)) (\<lambda>status.
     run_bind (put_field (ascii ''Status'') (status_header_value status) ending h) (\<lambda>h1.
     run_bind (put_field (ascii ''X-Status'') (x_status_header_value status) ending h1) (\<lambda>h2.
       ok (eh_set_status status h2))))"

fun rename_fields :: "bytes \<Rightarrow> bytes \<Rightarrow> nat list \<Rightarrow> edited_header \<Rightarrow> edited_header run" where
  "rename_fields from to [] h = ok h"
| "rename_fields from to (index # rest) h =
     (let st = store (storage h)
      in if store_matches st index from then
           run_bind (lift (rename_field (store_field st index) to)) (\<lambda>replacement.
             if f_bytes (store_field st index) \<noteq> replacement then
               run_bind (try_store (on_store_result
                   (\<lambda>st. store_insert index replacement (store_remove index st)) h))
                 (rename_fields from to rest)
             else rename_fields from to rest h)
         else rename_fields from to rest h)"

definition extract_first :: "edited_header \<Rightarrow> bytes \<Rightarrow> header_extraction_mode \<Rightarrow> header_edit_error + bytes" where
  "extract_first h name mode =
     (let st = store (storage h)
      in case find (\<lambda>index. store_matches st index name) [0..<length (hfields st)] of
           None \<Rightarrow> Inr []
         | Some index \<Rightarrow> extract_value (store_field st index) mode)"

section \<open>Actions\<close>

fun apply_operation ::
    "header_operation \<Rightarrow> bytes \<Rightarrow> edited_header \<Rightarrow> (edited_header \<times> header_extraction list) run" where
  "apply_operation (Op_Remove line name) ending h = ok (eh_remove_matching name h, [])"
| "apply_operation (Op_Set line name value) ending h =
     run_bind (set_field name (hv_source value) ending h) (\<lambda>h'. ok (h', []))"
| "apply_operation (Op_Add line name value) ending h =
     run_bind (make_field name (hv_source value) ending) (\<lambda>out.
     run_bind (try_store (on_store_result (\<lambda>st. store_insert (length (hfields st)) out st) h))
       (\<lambda>h'. ok (h', [])))"
| "apply_operation (Op_Prepend line name value) ending h =
     run_bind (make_field name (hv_source value) ending) (\<lambda>out.
     run_bind (try_store (on_store_result (store_insert 0 out) h)) (\<lambda>h'. ok (h', [])))"
| "apply_operation (Op_Rename line from to) ending h =
     run_bind (rename_fields from to [0..<field_count h] h) (\<lambda>h'. ok (h', []))"
| "apply_operation (Op_Extract line name target mode) ending h =
     run_bind (lift (extract_first h name mode)) (\<lambda>value.
       ok (h, [\<lparr>hx_line = line, hx_target = target, hx_value = value\<rparr>]))"
| "apply_operation (Op_Keywords line mode) ending h =
     run_bind (apply_keywords mode ending h) (\<lambda>h'. ok (h', []))"
| "apply_operation (Op_Priority line mode) ending h =
     run_bind (apply_priority mode ending h) (\<lambda>h'. ok (h', []))"
| "apply_operation (Op_Status line mode) ending h =
     run_bind (apply_status mode ending h) (\<lambda>h'. ok (h', []))"

fun apply_operations ::
    "header_operation list \<Rightarrow> bytes \<Rightarrow> usize \<Rightarrow> message_limits \<Rightarrow>
     edited_header \<times> header_extraction list \<Rightarrow> (edited_header \<times> header_extraction list) run" where
  "apply_operations [] ending body_len limits state = ok state"
| "apply_operations (op # ops) ending body_len limits (h, extractions) =
     run_bind (apply_operation op ending h) (\<lambda>(h', xs).
     run_bind (lift (validate_aggregate_size (store (storage h')) (separator (storage h'))
                       ending body_len limits)) (\<lambda>_.
       apply_operations ops ending body_len limits (h', extractions @ xs)))"

definition apply_header_action ::
    "header_view \<Rightarrow> usize \<Rightarrow> header_operation list \<Rightarrow> message_limits \<Rightarrow> applied_header_action run" where
  "apply_header_action source body_len operations limits =
     run_bind (lift (eh_new source limits)) (\<lambda>h.
     run_bind (apply_operations operations (line_ending (storage h)) body_len limits (h, [])) (\<lambda>(h1, xs).
     run_bind (try_store (finish body_len h1)) (\<lambda>h2.
       ok \<lparr>ah_header = h2, ah_extractions = xs\<rparr>)))"

text \<open>
  \<open>changed_from\<close>: the copy made from an indexed header shares its storage until something is
  changed, so the pointers are equal exactly while the storage is still shared.
\<close>

definition changed_from :: "applied_header_action \<Rightarrow> header_view \<Rightarrow> bool" where
  "changed_from a source =
     (case source of
        View_Indexed _ \<Rightarrow> \<not> eh_shared (ah_header a)
      | View_Raw bs \<Rightarrow>
          \<not> status_is_empty (eh_status (ah_header a)) \<or> concat (eh_parts (ah_header a)) \<noteq> bs)"

section \<open>What the operations do to the list of fields\<close>

definition header_ok :: "edited_header \<Rightarrow> bool" where
  "header_ok h \<longleftrightarrow> store_ok (store (storage h)) \<and> eh_len h \<le> isize_max \<and>
     headers_size (eh_limits h) \<le> isize_max"

definition field_list :: "edited_header \<Rightarrow> bytes list" where
  "field_list h = contents (store (storage h))"

definition named :: "bytes \<Rightarrow> bytes \<Rightarrow> bool" where
  "named name bs \<longleftrightarrow> name_matches name (field_from_bytes bs)"

lemma store_ok_ceiling:
  "store_ok st \<Longrightarrow> c \<le> isize_max \<Longrightarrow> store_ok (st\<lparr>ceiling_of := c\<rparr>)"
  "contents (st\<lparr>ceiling_of := c\<rparr>) = contents st"
  by (simp_all add: store_ok_def layout_ok_def contents_def)

lemma store_mut_store:
  "store (storage (store_mut h)) =
     (store (storage h))\<lparr>ceiling_of := max (eh_len h) (headers_size (eh_limits h))\<rparr>"
  by (simp add: store_mut_def set_store_def make_mut_def clone_storage_def Let_def)

lemma store_mut_ok:
  assumes "header_ok h"
  shows "store_ok (store (storage (store_mut h)))" "contents (store (storage (store_mut h))) = field_list h"
  using assms unfolding store_mut_store
  by (simp_all add: header_ok_def field_list_def store_ok_ceiling)

lemma on_store_field_list: "field_list (on_store f h) = contents (f (store (storage (store_mut h))))"
  by (simp add: on_store_def set_store_def field_list_def Let_def)

lemma try_store_result:
  "try_store (on_store_result f h) = Some (Inr h') \<longleftrightarrow>
     (\<exists>st u. f (store (storage (store_mut h))) = (st, Inr u) \<and> h' = set_store st (store_mut h))"
  by (auto simp: try_store_def on_store_result_def ok_def fail_def Let_def split: prod.splits sum.splits)

lemma store_matches_named:
  assumes "store_ok st" and "i < length (hfields st)"
  shows "store_matches st i name = named name (contents st ! i)"
  using store_field_eq [of st i] assms
  by (simp add: store_matches_def named_def name_matches_def store_ok_def)

lemma filter_index_matches:
  assumes "store_ok st"
  shows "filter (\<lambda>i. store_matches st i name) [0..<length (hfields st)] =
    filter (\<lambda>i. named name (contents st ! i)) [0..<length (contents st)]"
  using store_matches_named [OF assms] by (auto intro!: filter_cong)

lemma filter_indices:
  "filter (\<lambda>i. P (xs ! i)) [0..<length xs] = (case position P xs of None \<Rightarrow> [] | Some i \<Rightarrow>
     i # filter (\<lambda>j. i < j \<and> P (xs ! j)) [0..<length xs])"
proof (cases "position P xs")
  case None
  then have "\<forall>x \<in> set xs. \<not> P x" by (simp add: position_None_iff)
  then show ?thesis using None by (auto simp: filter_empty_conv)
next
  case (Some i)
  note p = position_SomeD [OF Some]
  have before: "\<not> P (xs ! j)" if "j < i" for j using Some that by (simp add: position_Some_iff)
  have split: "[0..<length xs] = [0..<i] @ i # [Suc i..<length xs]"
    using p(1) upt_add_eq_append [of 0 i "length xs - i"] by (simp add: upt_conv_Cons)
  have "filter (\<lambda>j. P (xs ! j)) [0..<i] = []" "filter (\<lambda>j. i < j \<and> P (xs ! j)) [0..<i] = []"
    using before by (auto simp: filter_empty_conv)
  then show ?thesis using Some p(2) by (subst (1 2) split) (auto intro!: filter_cong)
qed

text \<open>What \<open>set\<close> promises: the first field of that name is replaced, the others go, and a
  field is appended when there was none.\<close>

definition set_in_list :: "bytes \<Rightarrow> bytes \<Rightarrow> bytes list \<Rightarrow> bytes list" where
  "set_in_list name out xs =
     (case position (named name) xs of
        None \<Rightarrow> xs @ [out]
      | Some i \<Rightarrow> take i xs @ out # filter (\<lambda>x. \<not> named name x) (drop (Suc i) xs))"

lemma filter_not_split:
  assumes "position P xs = Some i"
  shows "filter (\<lambda>x. \<not> P x) xs = take i xs @ filter (\<lambda>x. \<not> P x) (drop (Suc i) xs)"
proof -
  note p = position_SomeD [OF assms]
  have "xs = take i xs @ xs ! i # drop (Suc i) xs" by (rule id_take_nth_drop [OF p(1)])
  moreover have "filter (\<lambda>x. \<not> P x) (take i xs) = take i xs" using p(3) by (simp add: filter_id_conv)
  ultimately show ?thesis using p(2) by (metis (no_types, lifting) filter.simps(2) filter_append)
qed

lemma set_in_list_insert:
  "set_in_list name out xs =
     (let ys = filter (\<lambda>x. \<not> named name x) xs;
          i = (case position (named name) xs of None \<Rightarrow> length xs | Some i \<Rightarrow> i)
      in take i ys @ out # drop i ys)"
proof (cases "position (named name) xs")
  case None
  then have "filter (\<lambda>x. \<not> named name x) xs = xs" by (simp add: position_None_iff filter_id_conv)
  then show ?thesis using None by (simp add: set_in_list_def)
next
  case (Some i)
  then show ?thesis
    using filter_not_split [OF Some] position_SomeD(1) [OF Some] by (simp add: set_in_list_def)
qed

lemma set_in_list_same:
  assumes "filter (\<lambda>i. named name (xs ! i)) [0..<length xs] = [i]" and "xs ! i = out"
  shows "set_in_list name out xs = xs"
proof -
  have p: "position (named name) xs = Some i"
    and none: "filter (\<lambda>j. i < j \<and> named name (xs ! j)) [0..<length xs] = []"
    using assms(1) filter_indices [of "named name" xs] by (auto split: option.splits)
  note i = position_SomeD(1) [OF p]
  have "\<not> named name x" if "x \<in> set (drop (Suc i) xs)" for x
  proof -
    from that obtain k where "k < length xs - Suc i" "x = xs ! (Suc i + k)"
      by (auto simp: in_set_conv_nth)
    then show ?thesis using none by (auto simp: filter_empty_conv)
  qed
  then have "filter (\<lambda>x. \<not> named name x) (drop (Suc i) xs) = drop (Suc i) xs"
    by (simp add: filter_id_conv)
  then show ?thesis using p assms(2) id_take_nth_drop [OF i] by (simp add: set_in_list_def)
qed

lemma store_set:
  assumes "store_ok st" and "length out \<le> isize_max"
    and "i = (case position (named name) (contents st) of None \<Rightarrow> length (contents st) | Some i \<Rightarrow> i)"
    and "store_insert i out (store_remove_matching name st) = (st', Inr u)"
  shows "store_ok st' \<and> contents st' = set_in_list name out (contents st)"
proof -
  let ?r = "store_remove_matching name st"
  have r: "store_ok ?r" "contents ?r = filter (\<lambda>x. \<not> named name x) (contents st)"
    by (simp_all add: retain_fields_ok(1) [OF assms(1)] retained_contents [OF assms(1)]
        store_remove_matching_def retain_stateless filter_map comp_def named_def)
  have le: "i \<le> length (contents ?r)"
  proof (cases "position (named name) (contents st)")
    case None
    then have "filter (\<lambda>x. \<not> named name x) (contents st) = contents st"
      by (simp add: position_None_iff filter_id_conv)
    then show ?thesis using None assms(3) r(2) by simp
  next
    case (Some k)
    then show ?thesis
      using filter_not_split [OF Some] position_SomeD(1) [OF Some] assms(3) r(2) by simp
  qed
  from hs.ins_any [OF r(1) le assms(2,4)] show ?thesis
    using r(2) assms(3) set_in_list_insert [of name out "contents st"] by (simp add: Let_def)
qed

lemma set_field_contents:
  assumes "set_field name v ending h = Some (Inr h')" and "make_field name v ending = Some (Inr out)"
    and "header_ok h" and "length out \<le> isize_max"
  shows "field_list h' = set_in_list name out (field_list h) \<and> store_ok (store (storage h'))"
proof -
  let ?st = "store (storage h)"
  let ?m = "filter (\<lambda>i. store_matches ?st i name) [0..<length (hfields ?st)]"
  have ok: "store_ok ?st" using assms(3) by (simp add: header_ok_def)
  have m: "?m = filter (\<lambda>i. named name (contents ?st ! i)) [0..<length (contents ?st)]"
    by (rule filter_index_matches [OF ok])
  show ?thesis
  proof (cases "\<exists>i. ?m = [i] \<and> f_bytes (store_field ?st i) = out")
    case True
    then obtain i where i: "?m = [i]" "f_bytes (store_field ?st i) = out" by blast
    have "i \<in> set ?m" by (simp add: i(1))
    then have "i < length (hfields ?st)" by simp
    then have "contents ?st ! i = out" using i(2) by (simp add: store_field_bytes)
    moreover have "h' = h" using assms(1,2) i by (simp add: set_field_def Let_def ok_def)
    ultimately show ?thesis
      using set_in_list_same [of name "contents ?st" i out] i(1) m ok by (simp add: field_list_def)
  next
    case False
    then have "\<not> (case ?m of [i] \<Rightarrow> f_bytes (store_field ?st i) = out | _ \<Rightarrow> False)"
      by (auto split: list.splits)
    then obtain st' u where r: "store_insert (case ?m of [] \<Rightarrow> length (hfields ?st) | i # _ \<Rightarrow> i) out
        (store_remove_matching name (store (storage (store_mut h)))) = (st', Inr u)"
      "h' = set_store st' (store_mut h)"
      using assms(1,2) by (auto simp: set_field_def Let_def try_store_result)
    have pos: "(case ?m of [] \<Rightarrow> length (hfields ?st) | i # _ \<Rightarrow> i) =
        (case position (named name) (field_list h) of None \<Rightarrow> length (field_list h) | Some i \<Rightarrow> i)"
      unfolding m using filter_indices [of "named name" "contents ?st"]
      by (auto simp: field_list_def split: option.splits)
    note mut = store_mut_ok [OF assms(3)]
    have "store_ok st' \<and> contents st' = set_in_list name out (contents (store (storage (store_mut h))))"
      by (rule store_set [OF mut(1) assms(4) _ r(1) [unfolded pos]]) (simp only: mut(2))
    then show ?thesis using r(2) unfolding mut(2) by (simp add: field_list_def set_store_def)
  qed
qed

text \<open>Setting the one field of the sample header.\<close>

lemma sample_header_ok: "header_ok sample_header" "field_list sample_header = [ascii ''A:'']"
  using fragmented_store_ok
  by (simp_all add: header_ok_def sample_header_def eh_len_def message_limits_default_def size_units isize_max_def
      field_list_def contents_def store_field_def view_field_def arena_slice_def slice_def)

lemma sample_set_field:
  assumes "make_field (ascii ''a'') v [LF] = Some (Inr out)" and "out \<noteq> []" and "out \<noteq> ascii ''A:''" and "length out \<le> 262144"
  shows "\<exists>h'. set_field (ascii ''a'') v [LF] sample_header = Some (Inr h')"
proof -
  note h = sample_header_ok(1)
  let ?st = "store_remove_matching (ascii ''a'') (store (storage (store_mut sample_header)))"
  note eval = sample_header_def store_matches_def store_field_def view_field_def arena_slice_def slice_def
    eq_ignore_ascii_case_def byte_defs
  have *: "store_ok ?st"
    using retain_fields_ok(1) [OF store_mut_ok(1) [OF h]] by (simp add: store_remove_matching_def)
  have "contents ?st = []"
    by (simp add: store_remove_matching_def retained_contents [OF store_mut_ok(1) [OF h]] retain_stateless
        store_mut_ok(2) [OF h] sample_header_ok(2) name_matches_def field_from_bytes_def eq_ignore_ascii_case_def byte_defs)
  moreover have "ceiling_of ?st = 262144"
    using retain_fields_ok(3) [OF store_mut_ok(1) [OF h]]
    by (simp add: store_remove_matching_def store_mut_store sample_header_def eh_len_def
        message_limits_default_def size_units)
  ultimately have "snd (store_insert 0 out ?st) = Inr ()"
    using assms(2,4) by (intro hs.ins_room [OF *]) (simp_all add: isize_max_def)
  then have "\<exists>st. store_insert 0 out ?st = (st, Inr ())" by (metis prod.collapse)
  moreover have "filter (\<lambda>i. store_matches (store (storage sample_header)) i (ascii ''a'')) [0..<1] = [0]"
    by (simp add: eval)
  ultimately show ?thesis
    using assms(1,3) by (auto simp: set_field_def Let_def on_store_result_def try_store_def ok_def eval split: prod.splits)
qed

text \<open>
  C1. The \<open>set\<close> operation does what it documents: the first field of that name is replaced
  where it stands, later fields of the name are removed, every other field keeps its place,
  and when the name does not occur the field is appended.
\<close>

theorem set_field_refines:
  assumes "set_field name v ending h = Some (Inr h')" and "make_field name v ending = Some (Inr out)"
    and "header_ok h" and "length out \<le> isize_max"
  shows "field_list h' = set_in_list name out (field_list h) \<and> store_ok (store (storage h'))"
  by (rule set_field_contents [OF assms])

theorem set_field_refines_witness:
  "\<exists>h'. set_field (ascii ''a'') (ascii ''ok'') [LF] sample_header = Some (Inr h') \<and>
     field_list h' = [ascii ''A: ok'' @ [LF]]"
proof -
  have u: "utf8_chars (ascii ''ok'') = Some [[111], [107]]" by (simp add: valid_utf8_ascii)
  have mk: "make_field (ascii ''a'') (ascii ''ok'') [LF] = Some (Inr (ascii ''A: ok'' @ [LF]))"
    using u by (simp add: make_field_def serialize_generated_header_def validate_generated_header_value_def
        chars_def byte_defs checked_add_def usize_max_def RFC5322_HEADER_LINE_LIMIT_def serialize_ascii_def
        append_canonical_header_name_def)
  obtain h' where run: "set_field (ascii ''a'') (ascii ''ok'') [LF] sample_header = Some (Inr h')"
    using sample_set_field [OF mk] by auto
  have "set_in_list (ascii ''a'') (ascii ''A: ok'' @ [LF]) (field_list sample_header) = [ascii ''A: ok'' @ [LF]]"
    by (simp add: set_in_list_def sample_header_ok(2) named_def name_matches_def field_from_bytes_def
        eq_ignore_ascii_case_def byte_defs)
  then show ?thesis
    using set_field_refines [OF run mk sample_header_ok(1)] run by (auto simp: isize_max_def)
qed

end
