(* ===== verification/Runtime_Vars.thy ===== *)
theory Runtime_Vars
  imports Header_Edit Delivery
begin

text \<open>
  The variables of a running configuration, \<open>src/runtime.rs\<close>, and the typed settings read from
  them, \<open>src/runtime/settings.rs\<close>.  The chain of shared layers below the current map is a list of
  maps, the nearest first; a \<open>BTreeMap\<close> is a map from names.  Trace events are left out.
\<close>

section \<open>State\<close>

datatype runtime_value = Rv_Text bytes | Rv_Bytes bytes | Rv_Removed

type_synonym runtime_layer = "bytes \<Rightarrow> runtime_value option"

record runtime_variables =
  rv_parent :: "runtime_layer list"
  rv_values :: runtime_layer
  rv_hostname :: "bytes option"
  rv_process_id :: bytes
  rv_status :: bytes
  rv_rc_file :: "bytes option"

definition DEFAULT_LINEBUF :: usize where "DEFAULT_LINEBUF = 2048"
definition MIN_LINEBUF :: usize where "MIN_LINEBUF = 128"
definition MAX_LINEBUF :: usize where "MAX_LINEBUF = 1024 * 1024"
definition DEFAULT_PROCESS_TIMEOUT :: nat where "DEFAULT_PROCESS_TIMEOUT = 960"
definition DEFAULT_LOCK_TIMEOUT :: nat where "DEFAULT_LOCK_TIMEOUT = 1024"
definition DEFAULT_LOCK_SLEEP :: nat where "DEFAULT_LOCK_SLEEP = 8"
definition DEFAULT_LOCK_EXT :: bytes where "DEFAULT_LOCK_EXT = ascii ''.lock''"

text \<open>\<open>{:03o}\<close>: three octal digits at least, padded with zeros.\<close>

function octal :: "nat \<Rightarrow> bytes" where
  "octal n = (if n < 8 then [of_nat (48 + n)] else octal (n div 8) @ [of_nat (48 + n mod 8)])"
  by pat_completeness auto
termination
  by (relation "measure id") auto

declare octal.simps [simp del]

definition octal3 :: "nat \<Rightarrow> bytes" where
  "octal3 n = replicate (3 - length (octal n)) 48 @ octal n"

definition runtime_default :: "nat \<Rightarrow> runtime_variables" where
  "runtime_default pid =
     \<lparr>rv_parent = [],
      rv_values =
        [ascii ''LINEBUF'' \<mapsto> Rv_Text (decimal DEFAULT_LINEBUF),
         ascii ''TIMEOUT'' \<mapsto> Rv_Text (decimal DEFAULT_PROCESS_TIMEOUT),
         ascii ''UMASK'' \<mapsto> Rv_Text (octal3 DEFAULT_UMASK),
         ascii ''LOCKEXT'' \<mapsto> Rv_Text DEFAULT_LOCK_EXT],
      rv_hostname = None, rv_process_id = decimal pid, rv_status = ascii ''0'', rv_rc_file = None\<rparr>"

section \<open>Operations\<close>

text \<open>\<open>fork\<close>: the changed original and the new branch.\<close>

definition fork :: "runtime_variables \<Rightarrow> runtime_variables \<times> runtime_variables" where
  "fork rv =
     (let shared = rv_values rv # rv_parent rv
      in (rv\<lparr>rv_parent := shared, rv_values := Map.empty\<rparr>,
          \<lparr>rv_parent = shared, rv_values = Map.empty, rv_hostname = rv_hostname rv,
           rv_process_id = rv_process_id rv, rv_status = rv_status rv, rv_rc_file = rv_rc_file rv\<rparr>))"

definition replace_current_rc_file :: "bytes option \<Rightarrow> runtime_variables \<Rightarrow> runtime_variables \<times> bytes option" where
  "replace_current_rc_file path rv = (rv\<lparr>rv_rc_file := path\<rparr>, rv_rc_file rv)"

definition set_last_command_status :: "nat \<Rightarrow> runtime_variables \<Rightarrow> runtime_variables" where
  "set_last_command_status status rv = rv\<lparr>rv_status := decimal status\<rparr>"

definition rv_put :: "bytes \<Rightarrow> runtime_value \<Rightarrow> runtime_variables \<Rightarrow> runtime_variables" where
  "rv_put name v rv = rv\<lparr>rv_values := (rv_values rv)(name \<mapsto> v)\<rparr>"

definition rv_set :: "bytes \<Rightarrow> bytes \<Rightarrow> runtime_variables \<Rightarrow> runtime_variables" where
  "rv_set name text_value rv = rv_put name (Rv_Text text_value) rv"

definition rv_set_bytes :: "bytes \<Rightarrow> bytes \<Rightarrow> runtime_variables \<Rightarrow> runtime_variables" where
  "rv_set_bytes name v rv = rv_put name (if valid_utf8 v then Rv_Text v else Rv_Bytes v) rv"

definition rv_remove :: "bytes \<Rightarrow> runtime_variables \<Rightarrow> runtime_variables" where
  "rv_remove name rv = rv_put name Rv_Removed rv"

fun find_layer :: "bytes \<Rightarrow> runtime_layer list \<Rightarrow> runtime_value option" where
  "find_layer name [] = None"
| "find_layer name (l # ls) = (case l name of Some v \<Rightarrow> Some v | None \<Rightarrow> find_layer name ls)"

definition rv_find :: "runtime_variables \<Rightarrow> bytes \<Rightarrow> runtime_value option" where
  "rv_find rv name =
     (case rv_values rv name of
        Some v \<Rightarrow> Some v
      | None \<Rightarrow> find_layer name (rv_parent rv))"

text \<open>\<open>get\<close> and \<open>get_bytes\<close> differ in what they make of a value that is not UTF-8.\<close>

fun value_text :: "runtime_value \<Rightarrow> bytes option" where
  "value_text (Rv_Text t) = Some t"
| "value_text (Rv_Bytes b) = None"
| "value_text Rv_Removed = None"

fun value_bytes :: "runtime_value \<Rightarrow> bytes option" where
  "value_bytes (Rv_Text t) = Some t"
| "value_bytes (Rv_Bytes b) = Some b"
| "value_bytes Rv_Removed = None"

definition absent_value :: "bytes \<Rightarrow> bytes option" where
  "absent_value name =
     (if name = ascii ''#'' then Some (ascii ''0'')
      else if is_positional_parameter_name name then Some []
      else None)"

definition lookup_plain :: "(runtime_value \<Rightarrow> bytes option) \<Rightarrow> runtime_variables \<Rightarrow> bytes \<Rightarrow> bytes option" where
  "lookup_plain view rv name = (case rv_find rv name of None \<Rightarrow> absent_value name | Some v \<Rightarrow> view v)"

definition lookup_special :: "(runtime_value \<Rightarrow> bytes option) \<Rightarrow> runtime_variables \<Rightarrow> bytes \<Rightarrow> bytes option" where
  "lookup_special view rv name =
     (if name = ascii ''$'' then Some (rv_process_id rv)
      else if name = ascii ''?'' then Some (rv_status rv)
      else if name = ascii ''_'' then rv_rc_file rv
      else if name = ascii ''-'' then lookup_plain view rv (ascii ''LASTFOLDER'')
      else lookup_plain view rv name)"

definition rv_get :: "runtime_variables \<Rightarrow> bytes \<Rightarrow> bytes option" where
  "rv_get = lookup_special value_text"

definition rv_get_bytes :: "runtime_variables \<Rightarrow> bytes \<Rightarrow> bytes option" where
  "rv_get_bytes = lookup_special value_bytes"

definition apply_header_extractions :: "header_extraction list \<Rightarrow> runtime_variables \<Rightarrow> runtime_variables" where
  "apply_header_extractions xs rv = fold (\<lambda>x. rv_set_bytes (hx_target x) (hx_value x)) xs rv"

text \<open>The loop of \<open>shift_positionals\<close> over the numbers from 1 on.\<close>

definition shift_slot :: "bytes list \<Rightarrow> nat \<Rightarrow> runtime_variables \<Rightarrow> runtime_variables" where
  "shift_slot shifted index rv =
     (if index - 1 < length shifted then rv_set (decimal index) (shifted ! (index - 1)) rv
      else rv_remove (decimal index) rv)"

definition shift_positionals :: "usize \<Rightarrow> runtime_variables \<Rightarrow> runtime_variables" where
  "shift_positionals requested rv =
     (let argc = (case Option.bind (rv_get rv (ascii ''#'')) parse_u64 of Some n \<Rightarrow> n | None \<Rightarrow> 0);
          amount = min requested argc;
          remaining = argc - amount;
          shifted = map (\<lambda>index. case rv_get rv (decimal (index + amount)) of Some v \<Rightarrow> v | None \<Rightarrow> [])
                      [1..<Suc remaining]
      in rv_set (ascii ''#'') (decimal remaining)
           (fold (shift_slot shifted) [1..<Suc MAX_POSITIONAL_ARGUMENTS] rv))"

text \<open>\<open>visible_values\<close>, and what it shows as text or bytes.\<close>

definition visible_values :: "runtime_variables \<Rightarrow> runtime_layer" where
  "visible_values rv = rv_find rv"

definition text_values :: "runtime_variables \<Rightarrow> bytes \<Rightarrow> bytes option" where
  "text_values rv name = Option.bind (visible_values rv name) value_text"

definition byte_values :: "runtime_variables \<Rightarrow> bytes \<Rightarrow> bytes option" where
  "byte_values rv name = Option.bind (visible_values rv name) value_bytes"

definition clear_numbered_match_values :: "runtime_variables \<Rightarrow> runtime_variables" where
  "clear_numbered_match_values rv =
     rv\<lparr>rv_values := (\<lambda>name. if is_match_capture_name name \<and> visible_values rv name \<noteq> None
                           then Some Rv_Removed else rv_values rv name)\<rparr>"

definition clear_match_values :: "runtime_variables \<Rightarrow> runtime_variables" where
  "clear_match_values rv = clear_numbered_match_values (rv_remove (ascii ''MATCH'') rv)"

definition set_match_value :: "bytes \<Rightarrow> bytes \<Rightarrow> runtime_variables \<Rightarrow> runtime_variables" where
  "set_match_value name v rv = rv_put name (Rv_Text v) rv"

datatype publication_result =
    Publication_Delivery published_delivery
  | Publication_Fanout "published_delivery list"
  | Publication_Partial commit_error

fun publication_len :: "publication_result \<Rightarrow> usize" where
  "publication_len (Publication_Delivery d) = 1"
| "publication_len (Publication_Fanout report) = length report"
| "publication_len (Publication_Partial e) = length (ce_published e)"

fun publication_last_folder :: "publication_result \<Rightarrow> bytes option" where
  "publication_last_folder (Publication_Delivery d) = Some d"
| "publication_last_folder (Publication_Fanout report) = report_last_folder report"
| "publication_last_folder (Publication_Partial e) = report_last_folder (ce_published e)"

text \<open>\<open>record_publication\<close>: \<open>False\<close> when the folder is not UTF-8.\<close>

definition record_publication :: "publication_result \<Rightarrow> runtime_variables \<Rightarrow> runtime_variables \<times> bool" where
  "record_publication result rv =
     (case publication_last_folder result of
        None \<Rightarrow> (rv, True)
      | Some path \<Rightarrow>
          if valid_utf8 path then (rv_put (ascii ''LASTFOLDER'') (Rv_Text path) rv, True) else (rv, False))"

section \<open>Settings\<close>

record runtime_setting_error =
  rse_line :: "usize option"
  rse_name :: bytes

datatype lock_method = Flock | Dotlock

definition setting ::
    "runtime_variables \<Rightarrow> usize option \<Rightarrow> bytes \<Rightarrow> (bytes \<Rightarrow> 'e + 'a) \<Rightarrow> 'a \<Rightarrow> runtime_setting_error + 'a" where
  "setting rv line name parse default_value =
     (case rv_get rv name of
        None \<Rightarrow> Inr default_value
      | Some v \<Rightarrow> map_sum (\<lambda>_. \<lparr>rse_line = line, rse_name = name\<rparr>) id (parse v))"

definition process_timeout :: "runtime_variables \<Rightarrow> usize option \<Rightarrow> runtime_setting_error + nat" where
  "process_timeout rv line = setting rv line (ascii ''TIMEOUT'') parse_process_timeout_seconds DEFAULT_PROCESS_TIMEOUT"

definition lock_timeout :: "runtime_variables \<Rightarrow> usize option \<Rightarrow> runtime_setting_error + nat" where
  "lock_timeout rv line = setting rv line (ascii ''LOCKTIMEOUT'') parse_lock_timeout_seconds DEFAULT_LOCK_TIMEOUT"

definition lock_sleep :: "runtime_variables \<Rightarrow> usize option \<Rightarrow> runtime_setting_error + nat" where
  "lock_sleep rv line = setting rv line (ascii ''LOCKSLEEP'') parse_lock_sleep_seconds DEFAULT_LOCK_SLEEP"

definition parse_lock_method :: "bytes \<Rightarrow> setting_error + lock_method" where
  "parse_lock_method v =
     (case validate_lock_method v of
        Inl e \<Rightarrow> Inl e
      | Inr _ \<Rightarrow> Inr (if v = ascii ''flock'' then Flock else Dotlock))"

definition lock_method_of :: "runtime_variables \<Rightarrow> usize option \<Rightarrow> runtime_setting_error + lock_method" where
  "lock_method_of rv line = setting rv line (ascii ''LOCKMETHOD'') parse_lock_method Flock"

definition umask_of :: "runtime_variables \<Rightarrow> usize option \<Rightarrow> runtime_setting_error + nat" where
  "umask_of rv line = setting rv line (ascii ''UMASK'') parse_umask DEFAULT_UMASK"

definition parse_linebuf_setting :: "bytes \<Rightarrow> unit + usize" where
  "parse_linebuf_setting v =
     (case parse_u64 v of
        None \<Rightarrow> Inl ()
      | Some n \<Rightarrow> if \<not> (MIN_LINEBUF \<le> n \<and> n \<le> MAX_LINEBUF) then Inl () else Inr n)"

definition linebuf_of :: "runtime_variables \<Rightarrow> usize option \<Rightarrow> runtime_setting_error + usize" where
  "linebuf_of rv line = setting rv line (ascii ''LINEBUF'') parse_linebuf_setting DEFAULT_LINEBUF"

definition path_setting :: "runtime_variables \<Rightarrow> bytes \<Rightarrow> bytes option" where
  "path_setting rv name = (case rv_get rv name of Some v \<Rightarrow> if v \<noteq> [] then Some v else None | None \<Rightarrow> None)"

definition logfile_of :: "runtime_variables \<Rightarrow> bytes option" where
  "logfile_of rv = path_setting rv (ascii ''LOGFILE'')"

definition maildir_of :: "runtime_variables \<Rightarrow> bytes option" where
  "maildir_of rv = path_setting rv (ascii ''MAILDIR'')"

section \<open>Lookups\<close>

lemma rv_find_put [simp]: "rv_find (rv_put name v rv) = (rv_find rv)(name \<mapsto> v)"
  by (rule ext) (simp add: rv_find_def rv_put_def split: option.split)

lemma rv_find_ops [simp]:
  "rv_find (rv_set name t rv) = (rv_find rv)(name \<mapsto> Rv_Text t)"
  "rv_find (rv_remove name rv) = (rv_find rv)(name \<mapsto> Rv_Removed)"
  "rv_find (set_match_value name t rv) = (rv_find rv)(name \<mapsto> Rv_Text t)"
  by (simp_all add: rv_set_def rv_remove_def set_match_value_def)

lemma rv_find_fork [simp]: "rv_find (fst (fork rv)) = rv_find rv" "rv_find (snd (fork rv)) = rv_find rv"
  by (auto simp: fork_def rv_find_def Let_def)

lemma rv_find_clear:
  "rv_find (clear_numbered_match_values rv) name =
     (if is_match_capture_name name \<and> rv_find rv name \<noteq> None then Some Rv_Removed else rv_find rv name)"
  by (auto simp: clear_numbered_match_values_def visible_values_def rv_find_def split: option.splits)

text \<open>The state apart from the variables, which every operation on variables keeps.\<close>

definition rv_frame :: "runtime_variables \<Rightarrow> runtime_variables \<Rightarrow> bool" where
  "rv_frame rv rv' \<longleftrightarrow> rv_hostname rv' = rv_hostname rv \<and> rv_process_id rv' = rv_process_id rv \<and>
     rv_status rv' = rv_status rv \<and> rv_rc_file rv' = rv_rc_file rv"

lemma rv_get_cong:
  "rv_frame rv rv' \<Longrightarrow> rv_find rv' = rv_find rv \<Longrightarrow> rv_get rv' = rv_get rv \<and> rv_get_bytes rv' = rv_get_bytes rv"
  by (auto simp: rv_get_def rv_get_bytes_def lookup_special_def lookup_plain_def rv_frame_def)

lemma fork_frame: "rv_frame rv (fst (fork rv))" "rv_frame rv (snd (fork rv))"
  by (simp_all add: fork_def rv_frame_def Let_def)

text \<open>Names that are not special parameters are looked up in the layers.\<close>

definition is_special_name :: "bytes \<Rightarrow> bool" where
  "is_special_name name \<longleftrightarrow> name \<in> {ascii ''$'', ascii ''?'', ascii ''_'', ascii ''-''}"

lemma rv_get_plain: "\<not> is_special_name name \<Longrightarrow> rv_get rv name = lookup_plain value_text rv name"
  by (simp add: rv_get_def lookup_special_def is_special_name_def)

lemma decimal_digits: "list_all is_ascii_digit (decimal n)"
proof (induction n rule: decimal.induct)
  case (1 n)
  have d: "k < 10 \<Longrightarrow> is_ascii_digit (of_nat (48 + k))" for k :: nat
    by (simp add: is_ascii_digit_def word_le_nat_alt unat_of_nat del: of_nat_add)
  show ?case
  proof (cases "n < 10")
    case True
    then show ?thesis using d [of n] by (subst decimal.simps) simp
  next
    case False
    then show ?thesis using 1 d [of "n mod 10"] by (subst decimal.simps) simp
  qed
qed

lemma digits_value_snoc: "digits_value r acc (ds @ [d]) = digits_value r acc ds * r + unat (d - 48)"
  by (induction ds arbitrary: acc) simp_all

lemma digits_value_decimal: "digits_value 10 0 (decimal n) = n"
proof (induction n rule: decimal.induct)
  case (1 n)
  have d: "k < 10 \<Longrightarrow> unat (of_nat (48 + k) - 48 :: byte) = k" for k :: nat
    by (simp add: unat_of_nat)
  show ?case
  proof (cases "n < 10")
    case True
    then show ?thesis using d [of n] by (subst decimal.simps) simp
  next
    case False
    then show ?thesis using 1 d [of "n mod 10"] by (subst decimal.simps) (simp add: digits_value_snoc)
  qed
qed

lemma decimal_inj: "decimal m = decimal n \<longleftrightarrow> m = n"
  using digits_value_decimal by metis

lemma decimal_hd: "decimal n \<noteq> []" "hd (decimal n) \<noteq> 43"
proof -
  show ne: "decimal n \<noteq> []" by (subst decimal.simps) simp
  show "hd (decimal n) \<noteq> 43" using decimal_digits [of n] ne by (cases "decimal n") (auto simp: is_ascii_digit_def)
qed

lemma parse_u64_decimal: "n \<le> usize_max \<Longrightarrow> parse_u64 (decimal n) = Some n"
  using decimal_digits [of n] decimal_hd [of n] digits_value_decimal [of n]
  by (cases "decimal n") (auto simp: parse_u64_def usize_max_def Let_def)

section \<open>A store of variables\<close>

text \<open>
  What the evaluator relies on: a lookup sees the last change, and a fork shows nothing.  The
  contract is that of a flat map; the provider is the chain of layers.
\<close>

datatype store_change = Change_Put bytes runtime_value | Change_Stay | Change_Branch

fun flat_change :: "store_change \<Rightarrow> runtime_layer \<Rightarrow> runtime_layer" where
  "flat_change (Change_Put name v) m = m(name \<mapsto> v)"
| "flat_change Change_Stay m = m"
| "flat_change Change_Branch m = m"

locale variable_store =
  fixes look :: "'s \<Rightarrow> runtime_layer" and put :: "bytes \<Rightarrow> runtime_value \<Rightarrow> 's \<Rightarrow> 's" and split :: "'s \<Rightarrow> 's \<times> 's"
  assumes look_put: "look (put name v s) = (look s)(name \<mapsto> v)"
    and look_split: "look (fst (split s)) = look s" "look (snd (split s)) = look s"
begin

fun change :: "store_change \<Rightarrow> 's \<Rightarrow> 's" where
  "change (Change_Put name v) s = put name v s"
| "change Change_Stay s = fst (split s)"
| "change Change_Branch s = snd (split s)"

lemma look_change: "look (change c s) = flat_change c (look s)"
  by (cases c) (simp_all add: look_put look_split)

lemma look_changes: "look (fold change cs s) = fold flat_change cs (look s)"
  by (induction cs arbitrary: s) (simp_all add: look_change)

lemma changes_only_named: "(\<And>v. Change_Put name v \<notin> set cs) \<Longrightarrow> look (fold change cs s) name = look s name"
  unfolding look_changes
proof (induction cs arbitrary: s rule: rev_induct)
  case (snoc c cs)
  then show ?case by (cases c) auto
qed simp

end

interpretation layers: variable_store rv_find rv_put fork
  by unfold_locales simp_all

fun store_run :: "store_change list \<Rightarrow> runtime_variables \<Rightarrow> runtime_variables" where
  "store_run [] rv = rv"
| "store_run (Change_Put name v # cs) rv = store_run cs (rv_put name v rv)"
| "store_run (Change_Stay # cs) rv = store_run cs (fst (fork rv))"
| "store_run (Change_Branch # cs) rv = store_run cs (snd (fork rv))"

lemma store_run_fold: "store_run cs rv = fold layers.change cs rv"
  by (induction cs rv rule: store_run.induct) simp_all

section \<open>Shifting\<close>

lemma numbered_names: "decimal n \<noteq> ascii ''#''" "\<not> is_special_name (decimal n)" "\<not> is_special_name (ascii ''#'')"
proof -
  show "decimal n \<noteq> ascii ''#''" using decimal_digits [of n] by (cases "decimal n") (auto simp: is_ascii_digit_def)
  show "\<not> is_special_name (decimal n)"
    using decimal_digits [of n] by (cases "decimal n") (auto simp: is_special_name_def is_ascii_digit_def)
qed (simp add: is_special_name_def)

lemma shift_slots_find:
  "rv_find (fold (shift_slot shifted) is rv) name =
     (case find (\<lambda>i. decimal i = name) (rev is) of
        Some i \<Rightarrow> Some (if i - 1 < length shifted then Rv_Text (shifted ! (i - 1)) else Rv_Removed)
      | None \<Rightarrow> rv_find rv name)"
  by (induction "is" arbitrary: rv rule: rev_induct) (auto simp: shift_slot_def)

lemma shift_slots_frame: "rv_frame rv (fold (shift_slot shifted) is rv)"
  by (induction "is" arbitrary: rv) (auto simp: rv_frame_def shift_slot_def rv_set_def rv_remove_def rv_put_def)

lemma find_decimal:
  "find (\<lambda>i. decimal i = decimal k) (rev [1..<Suc n]) = (if 1 \<le> k \<and> k \<le> n then Some k else None)"
  by (induction n) (auto simp: decimal_inj)

lemma shift_positionals_find:
  fixes requested :: usize
  assumes "rv_get rv (ascii ''#'') = Some (decimal argc)" and "argc \<le> usize_max"
  defines "amount \<equiv> min requested argc"
  defines "shifted \<equiv> map (\<lambda>index. case rv_get rv (decimal (index + amount)) of Some v \<Rightarrow> v | None \<Rightarrow> []) [1..<Suc (argc - amount)]"
  shows "shift_positionals requested rv = rv_set (ascii ''#'') (decimal (argc - amount))
    (fold (shift_slot shifted) [1..<Suc MAX_POSITIONAL_ARGUMENTS] rv)"
  unfolding shift_positionals_def assms(1) amount_def shifted_def
  using parse_u64_decimal [OF assms(2)] by (simp add: Let_def)

text \<open>
  All the variables after a shift.  The numbers after the last argument become unset, where before any shift
  an absent number was the empty text, which is what the manual page says of it.
\<close>

lemma shift_positionals_values:
  fixes requested :: usize
  assumes "rv_get rv (ascii ''#'') = Some (decimal argc)" and "argc \<le> MAX_POSITIONAL_ARGUMENTS"
  defines "left \<equiv> argc - min requested argc"
  shows "rv_get (shift_positionals requested rv) (ascii ''#'') = Some (decimal left) \<and>
    (\<forall>i. 1 \<le> i \<and> i \<le> left \<longrightarrow> rv_get (shift_positionals requested rv) (decimal i) =
       Some (case rv_get rv (decimal (i + min requested argc)) of Some v \<Rightarrow> v | None \<Rightarrow> [])) \<and>
    (\<forall>i. left < i \<and> i \<le> MAX_POSITIONAL_ARGUMENTS \<longrightarrow> rv_get (shift_positionals requested rv) (decimal i) = None) \<and>
    (\<forall>name. \<not> is_positional_parameter_name name \<longrightarrow>
       rv_get (shift_positionals requested rv) name = rv_get rv name)"
proof -
  have argc: "argc \<le> usize_max" using assms(2) by (simp add: usize_max_def rc_bounds)
  note sh = shift_positionals_find [OF assms(1) argc, of requested]
  have left: "argc - min requested argc = left" by (simp add: left_def)
  let ?rv = "shift_positionals requested rv"
  let ?sl = "map (\<lambda>index. case rv_get rv (decimal (index + min requested argc)) of Some v \<Rightarrow> v | None \<Rightarrow> []) [1..<Suc left]"
  have f: "rv_find ?rv name = (if name = ascii ''#'' then Some (Rv_Text (decimal left))
      else rv_find (fold (shift_slot ?sl) [1..<Suc MAX_POSITIONAL_ARGUMENTS] rv) name)" for name
    unfolding sh left by simp
  have n: "rv_find ?rv (decimal i) = (if i \<le> left
      then Some (Rv_Text (case rv_get rv (decimal (i + min requested argc)) of Some v \<Rightarrow> v | None \<Rightarrow> []))
      else Some Rv_Removed)" if "1 \<le> i" "i \<le> MAX_POSITIONAL_ARGUMENTS" for i
    unfolding f shift_slots_find find_decimal using that numbered_names(1) [of i] by (auto simp del: upt_Suc)
  have frame: "rv_frame rv ?rv"
    unfolding sh using shift_slots_frame [of rv] by (simp add: rv_frame_def rv_set_def rv_put_def)
  have other: "rv_find ?rv name = rv_find rv name" if "\<not> is_positional_parameter_name name" for name
  proof -
    have "name \<noteq> ascii ''#''" using that by (auto simp: is_positional_parameter_name_def)
    moreover have "decimal i \<noteq> name" if "i \<in> set [1..<Suc MAX_POSITIONAL_ARGUMENTS]" for i
    proof
      assume "decimal i = name"
      moreover have "is_positional_parameter_name (decimal i)"
        using that decimal_digits [of i] decimal_hd [of i] parse_u64_decimal [of i]
        by (auto simp: is_positional_parameter_name_def usize_max_def rc_bounds)
      ultimately show False using \<open>\<not> is_positional_parameter_name name\<close> by simp
    qed
    then have "find (\<lambda>i. decimal i = name) (rev [1..<Suc MAX_POSITIONAL_ARGUMENTS]) = None"
      by (simp add: find_None_iff del: upt_Suc)
    ultimately show ?thesis unfolding f shift_slots_find by simp
  qed
  show ?thesis
  proof (intro conjI allI impI)
    show "rv_get ?rv (ascii ''#'') = Some (decimal left)"
      unfolding rv_get_plain [OF numbered_names(3)] lookup_plain_def f by simp
    show "rv_get ?rv (decimal i) = Some (case rv_get rv (decimal (i + min requested argc)) of Some v \<Rightarrow> v | None \<Rightarrow> [])"
      if "1 \<le> i \<and> i \<le> left" for i
    proof -
      have "i \<le> MAX_POSITIONAL_ARGUMENTS" using that assms(2) unfolding left_def by linarith
      then show ?thesis using n [of i] that by (simp add: rv_get_plain [OF numbered_names(2)] lookup_plain_def [of _ "shift_positionals requested rv"])
    qed
    show "rv_get ?rv (decimal i) = None" if "left < i \<and> i \<le> MAX_POSITIONAL_ARGUMENTS" for i
      using n [of i] that by (simp add: rv_get_plain numbered_names lookup_plain_def)
    show "rv_get ?rv name = rv_get rv name" if "\<not> is_positional_parameter_name name" for name
      using other [of name] other [of "ascii ''LASTFOLDER''"] that frame
      by (simp add: rv_get_def lookup_special_def lookup_plain_def rv_frame_def is_positional_parameter_name_def
          is_ascii_digit_def)
  qed
qed

text \<open>
  C26. Shifting the positional parameters drops the first ones, all of them at most, and renumbers the
  rest: the count is what is left, each remaining number shows the value that stood the shift amount
  further on, and no variable but the positional parameters changes.
\<close>

theorem shift_positionals_window:
  fixes requested :: usize
  assumes "rv_get rv (ascii ''#'') = Some (decimal argc)" and "argc \<le> MAX_POSITIONAL_ARGUMENTS"
  defines "left \<equiv> argc - min requested argc"
  shows "rv_get (shift_positionals requested rv) (ascii ''#'') = Some (decimal left) \<and>
    (\<forall>i. 1 \<le> i \<and> i \<le> left \<longrightarrow> rv_get (shift_positionals requested rv) (decimal i) =
       Some (case rv_get rv (decimal (i + min requested argc)) of Some v \<Rightarrow> v | None \<Rightarrow> [])) \<and>
    (\<forall>name. \<not> is_positional_parameter_name name \<longrightarrow>
       rv_get (shift_positionals requested rv) name = rv_get rv name)"
  using shift_positionals_values [OF assms(1,2), of requested] unfolding left_def by blast

text \<open>
  C25. The chain of layers is a flat map: whatever assignments and removals are made, in the
  original or in a branch, and whenever the store is forked, a lookup gives what the same
  changes make of one map, and forking changes nothing.
\<close>

theorem layered_store_refines:
  "rv_find (store_run cs rv) = fold flat_change cs (rv_find rv) \<and>
   rv_frame rv (store_run cs rv)"
proof
  show "rv_find (store_run cs rv) = fold flat_change cs (rv_find rv)"
    unfolding store_run_fold by (rule layers.look_changes)
  show "rv_frame rv (store_run cs rv)"
    by (induction cs rv rule: store_run.induct) (auto simp: rv_frame_def rv_put_def fork_def Let_def)
qed

definition sample_runtime :: runtime_variables where
  "sample_runtime = rv_set (ascii ''2'') (ascii ''b'') (rv_set (ascii ''1'') (ascii ''a'')
     (rv_set (ascii ''#'') (ascii ''2'') (runtime_default 7)))"

theorem shift_positionals_window_witness:
  "rv_get sample_runtime (ascii ''#'') = Some (decimal 2) \<and> (2::nat) \<le> MAX_POSITIONAL_ARGUMENTS \<and>
   rv_get (shift_positionals 1 sample_runtime) (ascii ''#'') = Some (decimal 1) \<and>
   rv_get (shift_positionals 1 sample_runtime) (decimal 1) = Some (ascii ''b'')"
proof -
  have d: "decimal 2 = [50]" by (simp add: decimal.simps)
  have s: "\<not> is_special_name [b]" if "b \<in> {35, 50}" for b using that by (auto simp: is_special_name_def)
  have a: "rv_get sample_runtime (ascii ''#'') = Some (decimal 2)"
    by (simp add: d s sample_runtime_def rv_get_plain lookup_plain_def)
  have b: "(2::nat) \<le> MAX_POSITIONAL_ARGUMENTS" by (simp add: rc_bounds)
  have c: "rv_get sample_runtime (decimal (1 + 1)) = Some (ascii ''b'')"
    by (simp add: d s rv_get_plain lookup_plain_def numeral_2_eq_2 [symmetric]) (simp add: sample_runtime_def)
  note w = shift_positionals_window [OF a b, of 1]
  have l: "(2::nat) - min 1 2 = 1" "1 + min 1 (2::nat) = 1 + 1" by simp_all
  have "rv_get (shift_positionals 1 sample_runtime) (ascii ''#'') = Some (decimal 1)"
    using w [THEN conjunct1] unfolding l .
  moreover have "rv_get (shift_positionals 1 sample_runtime) (decimal 1) = Some (ascii ''b'')"
    using w [THEN conjunct2, THEN conjunct1, THEN spec, of 1] unfolding l c by simp
  ultimately show ?thesis using a b by blast
qed

end
