(* ===== verification/Shell_Resolve.thy ===== *)
theory Shell_Resolve
  imports Shell_Parse Runtime_Vars
begin

text \<open>
  Resolution of configured values against the variables of a run, the parts of
  \<open>src/config/expand.rs\<close> that are called while a configuration executes: the evaluation
  contexts over a lookup of variables, paths relative to \<open>MAILDIR\<close> and their validation, and the
  \<open>resolve_with\<close> and \<open>bind_with\<close> methods.  A lookup closure is a function from names; contexts
  that carry no state of their own have the state \<open>unit\<close>.
\<close>

section \<open>Contexts\<close>

fun expansion_length_error :: "bounded_bytes_error \<Rightarrow> usize \<Rightarrow> expansion_message" where
  "expansion_length_error LengthOverflow limit = Msg_LengthOverflow"
| "expansion_length_error (BytesLimitExceeded tried) limit = Msg_HardLimit limit"

definition message_at :: "usize \<Rightarrow> expansion_message \<Rightarrow> expansion_error" where
  "message_at line m = \<lparr>xe_line = line, xe_message = m\<rparr>"

text \<open>\<open>RuntimeStringEvaluation\<close>.\<close>

definition string_context :: "usize \<Rightarrow> (bytes \<Rightarrow> bytes option) \<Rightarrow> (unit, expansion_error) eval_context" where
  "string_context line lookup =
     \<lparr>ec_depth_mode = (\<lambda>_. SyntaxNesting),
      ec_variable = (\<lambda>c name. (c, Inr (map_option (\<lambda>v. \<lparr>vv_bytes = v, vv_depth = 0\<rparr>) (lookup name)))),
      ec_command = (\<lambda>c _ _. (c, Inl (message_at line Msg_CannotEvaluateHere))),
      ec_regex_quoted = (\<lambda>c _ _. (c, Inl (message_at line Msg_CannotEvaluateHere))),
      ec_missing_variable = (\<lambda>_ name. message_at line (Msg_RuntimeNotSet name)),
      ec_required_parameter = (\<lambda>_ name. message_at line (Msg_UnsetOrEmpty name)),
      ec_pattern_error = (\<lambda>_ e. message_at line (Msg_Pattern e)),
      ec_depth_exceeded = (\<lambda>_. message_at line (Msg_Syntax Msg_DepthLimit)),
      ec_depth_overflow = (\<lambda>_. message_at line Msg_DepthOverflow),
      ec_length_error = (\<lambda>_ e current limit. message_at line (expansion_length_error e limit))\<rparr>"

text \<open>\<open>RuntimeBytesEvaluation\<close>.\<close>

definition bytes_context :: "usize \<Rightarrow> (bytes \<Rightarrow> bytes option) \<Rightarrow> (unit, expansion_error) eval_context" where
  "bytes_context line lookup = (string_context line lookup)
     \<lparr>ec_depth_mode := (\<lambda>_. Depth_None),
      ec_command := (\<lambda>c _ _. (c, Inl (message_at line Msg_NotValidHere))),
      ec_regex_quoted := (\<lambda>c _ _. (c, Inl (message_at line Msg_NotValidHere))),
      ec_missing_variable := (\<lambda>_ name. message_at line (Msg_NotDefined name))\<rparr>"

definition push_bounded :: "usize \<Rightarrow> usize \<Rightarrow> bytes \<Rightarrow> bytes \<Rightarrow> expansion_error + bytes" where
  "push_bounded limit line v output =
     map_sum (\<lambda>e. message_at line (expansion_length_error e limit)) id (try_extend_vec output limit v)"

definition REGEX_SPECIAL :: "byte set" where
  "REGEX_SPECIAL = {92, 46, 43, 42, 63, 40, 41, 124, 91, 93, 123, 125, 94, 36}"

fun escape_chars :: "usize \<Rightarrow> usize \<Rightarrow> bytes list \<Rightarrow> bytes \<Rightarrow> expansion_error + bytes" where
  "escape_chars limit line [] output = Inr output"
| "escape_chars limit line (c # cs) output =
     (case (if \<exists>b \<in> REGEX_SPECIAL. c = [b] then push_bounded limit line [BACKSLASH] output else Inr output) of
        Inl e \<Rightarrow> Inl e
      | Inr output1 \<Rightarrow>
          (case push_bounded limit line c output1 of
             Inl e \<Rightarrow> Inl e
           | Inr output2 \<Rightarrow> escape_chars limit line cs output2))"

definition hex_digit :: "byte \<Rightarrow> byte" where
  "hex_digit d = (if d < 10 then d + 48 else d + 87)"

fun escape_bytes :: "usize \<Rightarrow> usize \<Rightarrow> bytes \<Rightarrow> bytes \<Rightarrow> expansion_error + bytes" where
  "escape_bytes limit line [] output = Inr output"
| "escape_bytes limit line (b # bs) output =
     (case push_bounded limit line [BACKSLASH, 120, hex_digit (drop_bit 4 b), hex_digit (take_bit 4 b)] output of
        Inl e \<Rightarrow> Inl e
      | Inr output1 \<Rightarrow> escape_bytes limit line bs output1)"

definition push_regex_escaped :: "bytes \<Rightarrow> usize \<Rightarrow> usize \<Rightarrow> expansion_error + bytes" where
  "push_regex_escaped v limit line =
     (case push_bounded limit line (ascii ''(?:)'') [] of
        Inl e \<Rightarrow> Inl e
      | Inr output \<Rightarrow>
          if valid_utf8 v then escape_chars limit line (chars v) output
          else
            (case push_bounded limit line (ascii ''(?-u:'') output of
               Inl e \<Rightarrow> Inl e
             | Inr output1 \<Rightarrow>
                 (case escape_bytes limit line v output1 of
                    Inl e \<Rightarrow> Inl e
                  | Inr output2 \<Rightarrow> push_bounded limit line (ascii '')'') output2)))"

text \<open>\<open>ShellConditionEvaluation\<close>.\<close>

definition condition_context :: "usize \<Rightarrow> runtime_variables \<Rightarrow> (unit, expansion_error) eval_context" where
  "condition_context line rv = (bytes_context line (rv_get_bytes rv))
     \<lparr>ec_command := (\<lambda>c _ _. (c, Inl (message_at line Msg_CommandNeedsOrder))),
      ec_regex_quoted := (\<lambda>c name limit.
        (c, case rv_get_bytes rv name of
              None \<Rightarrow> Inl (message_at line (Msg_NotDefined name))
            | Some v \<Rightarrow> push_regex_escaped v limit line))\<rparr>"

section \<open>Evaluation\<close>

record expanded_value =
  ev_text :: bytes
  ev_depth :: usize

definition evaluate_expression ::
    "shell_expression \<Rightarrow> usize \<Rightarrow> usize \<Rightarrow> (bytes \<Rightarrow> bytes option) \<Rightarrow> expansion_error + expanded_value" where
  "evaluate_expression e line limit lookup =
     (case snd (evaluate (string_context line lookup) e limit ()) of
        Inl err \<Rightarrow> Inl err
      | Inr r \<Rightarrow>
          if er_assignments r \<noteq> [] then Inl (message_at line Msg_AssignmentNeedsOrder)
          else if \<not> valid_utf8 (er_bytes r) then Inl (message_at line Msg_ValueNotUtf8)
          else Inr \<lparr>ev_text = er_bytes r, ev_depth = er_depth r\<rparr>)"

definition active_linebuf :: "(bytes \<Rightarrow> bytes option) \<Rightarrow> usize" where
  "active_linebuf lookup =
     (case Option.bind (lookup (ascii ''LINEBUF'')) parse_u64 of Some n \<Rightarrow> n | None \<Rightarrow> DEFAULT_LINEBUF)"

definition relabel_linebuf_error :: "usize \<Rightarrow> usize \<Rightarrow> expansion_error \<Rightarrow> expansion_error" where
  "relabel_linebuf_error linebuf hard_limit e =
     (if linebuf < hard_limit \<and> xe_message e = Msg_HardLimit linebuf
      then e\<lparr>xe_message := Msg_LineBufLimit linebuf\<rparr> else e)"

definition evaluate_with_linebuf ::
    "shell_expression \<Rightarrow> usize \<Rightarrow> usize \<Rightarrow> (bytes \<Rightarrow> bytes option) \<Rightarrow> expansion_error + expanded_value" where
  "evaluate_with_linebuf e line hard_limit lookup =
     (let linebuf = active_linebuf lookup
      in map_sum (relabel_linebuf_error linebuf hard_limit) id
           (evaluate_expression e line (min linebuf hard_limit) lookup))"

definition expand_runtime_bytes ::
    "bytes \<Rightarrow> usize \<Rightarrow> usize \<Rightarrow> (bytes \<Rightarrow> bytes option) \<Rightarrow> expansion_error + bytes" where
  "expand_runtime_bytes input line limit lookup =
     (case parse_expression input line of
        Inl err \<Rightarrow> Inl err
      | Inr e \<Rightarrow>
          (case snd (evaluate (bytes_context line lookup) e limit ()) of
             Inl err \<Rightarrow> Inl err
           | Inr r \<Rightarrow>
               if er_assignments r \<noteq> [] then Inl (message_at line Msg_AssignmentNotValidHere) else Inr (er_bytes r)))"

definition expand_shell_condition ::
    "bytes \<Rightarrow> shell_expression option \<Rightarrow> usize \<Rightarrow> runtime_variables \<Rightarrow> expansion_error + bytes" where
  "expand_shell_condition source expansion line rv =
     (case (case expansion of Some e \<Rightarrow> Inr e | None \<Rightarrow> parse_shell_condition_expression source line) of
        Inl err \<Rightarrow> Inl err
      | Inr e \<Rightarrow>
          (case linebuf_of rv (Some line) of
             Inl _ \<Rightarrow> Inl (message_at line Msg_LineBufSetting)
           | Inr linebuf \<Rightarrow>
               (case map_sum (relabel_linebuf_error linebuf usize_max) id
                       (snd (evaluate (condition_context line rv) e linebuf ())) of
                  Inl err \<Rightarrow> Inl err
                | Inr r \<Rightarrow>
                    if er_assignments r \<noteq> [] then Inl (message_at line Msg_AssignmentNeedsOrder)
                    else if \<not> valid_utf8 (er_bytes r) then Inl (message_at line Msg_ConditionNotUtf8)
                    else Inr (er_bytes r))))"

section \<open>Paths\<close>

abbreviation SLASH :: byte where "SLASH \<equiv> 47"

definition strip_slash :: "bytes \<Rightarrow> bytes" where
  "strip_slash path = (if starts_with path [SLASH] then drop 1 path else path)"

definition strip_marker :: "bool \<Rightarrow> bytes \<Rightarrow> bytes" where
  "strip_marker allows_trailing_slash path =
     (if allows_trailing_slash then (case strip_suffix path [SLASH] of Some p \<Rightarrow> p | None \<Rightarrow> path) else path)"

fun check_components :: "bytes list \<Rightarrow> path_message + unit" where
  "check_components [] = Inr ()"
| "check_components (c # cs) =
     (if c = [] then Inl Msg_PathEmptyComponent
      else if c = ascii ''.'' then Inl Msg_PathDot
      else if c = ascii ''..'' then Inl Msg_PathDotDot
      else check_components cs)"

definition validate_filesystem_path :: "bytes \<Rightarrow> bool \<Rightarrow> path_message + unit" where
  "validate_filesystem_path path allows_trailing_slash =
     (if path = [] then Inl Msg_PathEmpty
      else if 0 \<in> set path then Inl Msg_PathNul
      else if ends_with path [SLASH] \<and> \<not> allows_trailing_slash then Inl Msg_PathTrailingSlash
      else
        let components = strip_marker allows_trailing_slash (strip_slash path)
        in if components = [] then Inl Msg_PathNoEntry
           else check_components (split_on (\<lambda>b. b = SLASH) components))"

definition resolve_relative_path :: "bytes \<Rightarrow> bytes option \<Rightarrow> usize \<Rightarrow> expansion_error + bytes" where
  "resolve_relative_path path base line =
     (case base of
        None \<Rightarrow> Inr path
      | Some base \<Rightarrow>
          if base = [] \<or> path = [] \<or> starts_with path [SLASH] then Inr path
          else
            (case push_bounded MAX_PATH_EXPRESSION_LEN line base [] of
               Inl e \<Rightarrow> Inl e
             | Inr output \<Rightarrow>
                 (case (if \<not> ends_with base [SLASH] then push_bounded MAX_PATH_EXPRESSION_LEN line [SLASH] output
                        else Inr output) of
                    Inl e \<Rightarrow> Inl e
                  | Inr output1 \<Rightarrow>
                      (case push_bounded MAX_PATH_EXPRESSION_LEN line path output1 of
                         Inl e \<Rightarrow> Inl e
                       | Inr output2 \<Rightarrow>
                           if valid_utf8 output2 then Inr output2 else Inl (message_at line (Msg_Path Msg_PathNotUtf8))))))"

datatype path_purpose =
    Purpose_Maildir | Purpose_Mbox | Purpose_File | Purpose_Discard | Purpose_Lockfile | Purpose_Logfile | Purpose_RcFile

record path_resolver =
  pr_purpose :: path_purpose
  pr_line :: usize
  pr_base :: "bytes option"
  pr_typed :: bool

definition resolver_new :: "path_purpose \<Rightarrow> usize \<Rightarrow> bytes option \<Rightarrow> path_resolver" where
  "resolver_new purpose line base = \<lparr>pr_purpose = purpose, pr_line = line, pr_base = base, pr_typed = True\<rparr>"

definition allows_empty :: "path_purpose \<Rightarrow> bool" where
  "allows_empty p \<longleftrightarrow> p \<in> {Purpose_Lockfile, Purpose_Logfile, Purpose_RcFile}"

definition is_destination :: "path_purpose \<Rightarrow> bool" where
  "is_destination p \<longleftrightarrow> p \<in> {Purpose_Maildir, Purpose_Mbox, Purpose_File, Purpose_Discard}"

definition resolver_resolve :: "path_resolver \<Rightarrow> bytes \<Rightarrow> expansion_error + bytes" where
  "resolver_resolve r source =
     (if source = [] \<and> allows_empty (pr_purpose r) then Inr []
      else if is_destination (pr_purpose r) \<and> \<not> pr_typed r \<and> (\<exists>b \<in> set source. is_ascii_whitespace b)
      then Inl (message_at (pr_line r) (Msg_Path Msg_MultipleDestinations))
      else
        (case resolve_relative_path source (pr_base r) (pr_line r) of
           Inl e \<Rightarrow> Inl e
         | Inr path \<Rightarrow>
             (case validate_filesystem_path path (pr_purpose r = Purpose_Maildir) of
                Inl e \<Rightarrow> Inl (message_at (pr_line r) (Msg_Path e))
              | Inr _ \<Rightarrow>
                  if pr_purpose r = Purpose_Discard \<and> path \<noteq> ascii ''/dev/null''
                  then Inl (message_at (pr_line r) (Msg_Path Msg_DiscardPath))
                  else Inr path)))"

definition resolver_evaluate ::
    "path_resolver \<Rightarrow> shell_expression \<Rightarrow> (bytes \<Rightarrow> bytes option) \<Rightarrow> expansion_error + bytes" where
  "resolver_evaluate r e lookup =
     (case evaluate_with_linebuf e (pr_line r) MAX_PATH_EXPRESSION_LEN lookup of
        Inl err \<Rightarrow> Inl err
      | Inr v \<Rightarrow> resolver_resolve r (ev_text v))"

section \<open>Configured values\<close>

fun assignment_path_purpose :: "assignment_path \<Rightarrow> path_purpose" where
  "assignment_path_purpose Path_Maildir = Purpose_Maildir"
| "assignment_path_purpose Path_LogFile = Purpose_Logfile"
| "assignment_path_purpose Path_LockFile = Purpose_Lockfile"

abbreviation MAILDIR_NAME :: bytes where "MAILDIR_NAME \<equiv> ascii ''MAILDIR''"

definition assignment_resolve_with :: "assignment \<Rightarrow> (bytes \<Rightarrow> bytes option) \<Rightarrow> expansion_error + bytes" where
  "assignment_resolve_with a lookup =
     (case (case as_expansion a of
              Some e \<Rightarrow> map_sum id ev_text (evaluate_with_linebuf e (as_line a) (value_limit (as_target a)) lookup)
            | None \<Rightarrow> Inr (as_value a)) of
        Inl err \<Rightarrow> Inl err
      | Inr v \<Rightarrow>
          (case validate_resolved_value (as_target a) v of
             Inl e \<Rightarrow> Inl (message_at (as_line a) (Msg_Setting e))
           | Inr _ \<Rightarrow>
               (case target_path (as_target a) of
                  None \<Rightarrow> Inr v
                | Some path \<Rightarrow>
                    resolver_resolve (resolver_new (assignment_path_purpose path) (as_line a) (lookup MAILDIR_NAME)) v)))"

text \<open>An expression that was not prepared is parsed when it is needed.\<close>

definition prepared :: "shell_expression option \<Rightarrow> bytes \<Rightarrow> usize \<Rightarrow> expansion_error + shell_expression" where
  "prepared expansion source line = (case expansion of Some e \<Rightarrow> Inr e | None \<Rightarrow> parse_expression source line)"

definition rc_file_resolve_with :: "rc_file_expression \<Rightarrow> (bytes \<Rightarrow> bytes option) \<Rightarrow> expansion_error + bytes" where
  "rc_file_resolve_with rf lookup =
     (case prepared (rf_expansion rf) (rf_value rf) (rf_line rf) of
        Inl err \<Rightarrow> Inl err
      | Inr e \<Rightarrow> resolver_evaluate (resolver_new Purpose_RcFile (rf_line rf) (lookup MAILDIR_NAME)) e lookup)"

fun join :: "bytes \<Rightarrow> bytes list \<Rightarrow> bytes" where
  "join sep [] = []"
| "join sep [v] = v"
| "join sep (v # w # ws) = v @ sep @ join sep (w # ws)"

datatype header_value_check = Check_Field bytes | Check_Keywords bool | Check_Status

definition validate_header_value :: "header_value_check \<Rightarrow> bytes \<Rightarrow> expansion_message + unit" where
  "validate_header_value check v =
     (case check of
        Check_Field name \<Rightarrow>
          (case validate_generated_header_value name v of Inl e \<Rightarrow> Inl (Msg_HeaderValue e) | Inr _ \<Rightarrow> Inr ())
      | Check_Keywords checks_line_limit \<Rightarrow>
          (case parse_configured_keywords v of
             Inl e \<Rightarrow> Inl (Msg_KeywordsValue e)
           | Inr keywords \<Rightarrow>
               if checks_line_limit then
                 (case validate_generated_header_value (keyword_field_name KF_XKeywords)
                         (join (ascii '', '') keywords) of
                    Inl e \<Rightarrow> Inl (Msg_KeywordsLine e)
                  | Inr _ \<Rightarrow> Inr ())
               else Inr ())
      | Check_Status \<Rightarrow>
          (case parse_configured_status v of Inl e \<Rightarrow> Inl (Msg_StatusValue e) | Inr _ \<Rightarrow> Inr ()))"

definition header_value_resolve ::
    "usize \<Rightarrow> header_value_check \<Rightarrow> (bytes \<Rightarrow> bytes option) \<Rightarrow> header_value \<Rightarrow> expansion_error + header_value" where
  "header_value_resolve line check lookup hv =
     (case prepared (hv_expansion hv) (hv_source hv) line of
        Inl err \<Rightarrow> Inl err
      | Inr e \<Rightarrow>
          (case evaluate_with_linebuf e line MAX_ASSIGNMENT_VALUE_LEN lookup of
             Inl err \<Rightarrow> Inl err
           | Inr v \<Rightarrow>
               (case validate_header_value check (ev_text v) of
                  Inl m \<Rightarrow> Inl (message_at line m)
                | Inr _ \<Rightarrow> Inr \<lparr>hv_source = ev_text v, hv_expansion = None\<rparr>)))"

fun keywords_mode_resolve ::
    "(header_value \<Rightarrow> expansion_error + header_value) \<Rightarrow> header_keywords_mode \<Rightarrow> expansion_error + header_keywords_mode" where
  "keywords_mode_resolve f (KeywordsAdd v) = map_sum id KeywordsAdd (f v)"
| "keywords_mode_resolve f (KeywordsRemove v) = map_sum id KeywordsRemove (f v)"
| "keywords_mode_resolve f (KeywordsSet v) = map_sum id KeywordsSet (f v)"
| "keywords_mode_resolve f KeywordsClear = Inr KeywordsClear"

fun status_mode_resolve ::
    "(header_value \<Rightarrow> expansion_error + header_value) \<Rightarrow> header_status_mode \<Rightarrow> expansion_error + header_status_mode" where
  "status_mode_resolve f (StatusAdd v) = map_sum id StatusAdd (f v)"
| "status_mode_resolve f (StatusRemove v) = map_sum id StatusRemove (f v)"
| "status_mode_resolve f (StatusSet v) = map_sum id StatusSet (f v)"
| "status_mode_resolve f StatusClear = Inr StatusClear"

fun checks_line_limit :: "header_keywords_mode \<Rightarrow> bool" where
  "checks_line_limit (KeywordsAdd v) = True"
| "checks_line_limit (KeywordsSet v) = True"
| "checks_line_limit _ = False"

fun header_operation_resolve ::
    "(bytes \<Rightarrow> bytes option) \<Rightarrow> header_operation \<Rightarrow> expansion_error + header_operation" where
  "header_operation_resolve lookup (Op_Set line name v) =
     map_sum id (Op_Set line name) (header_value_resolve line (Check_Field name) lookup v)"
| "header_operation_resolve lookup (Op_Add line name v) =
     map_sum id (Op_Add line name) (header_value_resolve line (Check_Field name) lookup v)"
| "header_operation_resolve lookup (Op_Prepend line name v) =
     map_sum id (Op_Prepend line name) (header_value_resolve line (Check_Field name) lookup v)"
| "header_operation_resolve lookup (Op_Keywords line mode) =
     map_sum id (Op_Keywords line)
       (keywords_mode_resolve (header_value_resolve line (Check_Keywords (checks_line_limit mode)) lookup) mode)"
| "header_operation_resolve lookup (Op_Status line mode) =
     map_sum id (Op_Status line) (status_mode_resolve (header_value_resolve line Check_Status lookup) mode)"
| "header_operation_resolve lookup opn = Inr opn"

fun header_action_resolve_with ::
    "header_operation list \<Rightarrow> (bytes \<Rightarrow> bytes option) \<Rightarrow> expansion_error + header_operation list" where
  "header_action_resolve_with [] lookup = Inr []"
| "header_action_resolve_with (opn # ops) lookup =
     (case header_operation_resolve lookup opn of
        Inl e \<Rightarrow> Inl e
      | Inr opn' \<Rightarrow> map_sum id ((#) opn') (header_action_resolve_with ops lookup))"

section \<open>Binding\<close>

function (sequential) bind_static :: "usize \<Rightarrow> (bytes \<Rightarrow> bytes option) \<Rightarrow> usize \<Rightarrow> shell_expression \<Rightarrow> expansion_error + shell_expression"
and bind_parts :: "usize \<Rightarrow> (bytes \<Rightarrow> bytes option) \<Rightarrow> usize \<Rightarrow> shell_expression \<Rightarrow> shell_expression \<Rightarrow> expansion_error + shell_expression"
and bind_operation :: "usize \<Rightarrow> (bytes \<Rightarrow> bytes option) \<Rightarrow> usize \<Rightarrow> parameter_operation \<Rightarrow> expansion_error + parameter_operation"
where
  "bind_static line lookup nesting e =
     (if nesting > MAX_EXPANSION_DEPTH then Inl (message_at line (Msg_Syntax Msg_DepthLimit))
      else bind_parts line lookup nesting e [])"
| "bind_parts line lookup nesting [] parts = Inr parts"
| "bind_parts line lookup nesting (Literal t # ps) parts =
     bind_parts line lookup nesting ps (push_literal_part parts t)"
| "bind_parts line lookup nesting (Variable name opn # ps) parts =
     (if is_value_transform opn then
        (case evaluate_with_linebuf [Variable name opn] line MAX_ASSIGNMENT_VALUE_LEN lookup of
           Inl err \<Rightarrow> Inl err
         | Inr v \<Rightarrow> bind_parts line lookup nesting ps (push_literal_part parts (ev_text v)))
      else if variable_policy_of name = RuntimeOnly then
        (case bind_operation line lookup (nesting + 1) opn of
           Inl err \<Rightarrow> Inl err
         | Inr opn' \<Rightarrow> bind_parts line lookup nesting ps (parts @ [Variable name opn']))
      else
        (let found = lookup name; is_set = (found \<noteq> None); is_empty = (found = Some [])
         in case selected_word opn is_set is_empty of
              Some w \<Rightarrow>
                (case bind_static line lookup (nesting + 1) w of
                   Inl err \<Rightarrow> Inl err
                 | Inr bound \<Rightarrow>
                     bind_parts line lookup nesting ps
                       (fold (\<lambda>p parts. case p of Literal t \<Rightarrow> push_literal_part parts t | _ \<Rightarrow> parts @ [p]) bound parts))
            | None \<Rightarrow>
                if uses_value_when_word_is_not_selected opn then
                  (case found of
                     None \<Rightarrow>
                       Inl (message_at line (if is_required opn then Msg_UnsetOrEmpty name else Msg_NotSet name))
                   | Some v \<Rightarrow> bind_parts line lookup nesting ps (push_literal_part parts v))
                else bind_parts line lookup nesting ps parts))"
| "bind_parts line lookup nesting (PatternQuote e # ps) parts =
     (case bind_static line lookup (nesting + 1) e of
        Inl err \<Rightarrow> Inl err
      | Inr bound \<Rightarrow> bind_parts line lookup nesting ps (parts @ [PatternQuote bound]))"
| "bind_parts line lookup nesting (p # ps) parts = Inl (message_at line Msg_CannotBind)"
| "bind_operation line lookup nesting (DefaultIfUnset w) = map_sum id DefaultIfUnset (bind_static line lookup nesting w)"
| "bind_operation line lookup nesting (DefaultIfUnsetOrEmpty w) =
     map_sum id DefaultIfUnsetOrEmpty (bind_static line lookup nesting w)"
| "bind_operation line lookup nesting (AlternateIfSet w) = map_sum id AlternateIfSet (bind_static line lookup nesting w)"
| "bind_operation line lookup nesting (AlternateIfSetAndNotEmpty w) =
     map_sum id AlternateIfSetAndNotEmpty (bind_static line lookup nesting w)"
| "bind_operation line lookup nesting (AssignIfUnsetOrEmpty w) =
     map_sum id AssignIfUnsetOrEmpty (bind_static line lookup nesting w)"
| "bind_operation line lookup nesting (RemovePrefix p longest) =
     map_sum id (\<lambda>p. RemovePrefix p longest) (bind_static line lookup nesting p)"
| "bind_operation line lookup nesting (RemoveSuffix p longest) =
     map_sum id (\<lambda>p. RemoveSuffix p longest) (bind_static line lookup nesting p)"
| "bind_operation line lookup nesting (ChangeCase p direction all) =
     map_sum id (\<lambda>p. ChangeCase p direction all) (bind_static line lookup nesting p)"
| "bind_operation line lookup nesting opn = Inr opn"
  by pat_completeness auto
termination
  by (relation "measure (\<lambda>x. case x of
        Inl (line, lookup, n, e) \<Rightarrow> 2 * size_list size e + 1
      | Inr (Inl (line, lookup, n, ps, parts)) \<Rightarrow> 2 * size_list size ps
      | Inr (Inr (line, lookup, n, opn)) \<Rightarrow> 2 * size opn)")
    (auto dest!: size_selected_word)


section \<open>Analysis of an expression\<close>

record expression_analysis =
  xa_missing_runtime :: "bytes option"
  xa_missing_shell_condition :: "bytes option"
  xa_missing_path :: "bytes option"
  xa_needs_runtime :: bool
  xa_references_dynamic :: bool
  xa_has_runtime_variable :: bool
  xa_has_command :: bool
  xa_has_assignment :: bool
  xa_has_regex_quoted_variable :: bool
  xa_shell_condition_static :: bool

definition analysis_start :: expression_analysis where
  "analysis_start =
     \<lparr>xa_missing_runtime = None, xa_missing_shell_condition = None, xa_missing_path = None,
      xa_needs_runtime = False, xa_references_dynamic = False, xa_has_runtime_variable = False,
      xa_has_command = False, xa_has_assignment = False, xa_has_regex_quoted_variable = False,
      xa_shell_condition_static = True\<rparr>"

fun or_else :: "'a option \<Rightarrow> 'a option \<Rightarrow> 'a option" where
  "or_else None y = y"
| "or_else (Some x) y = Some x"

definition merge_first_missing :: "bytes option \<Rightarrow> bytes option \<Rightarrow> bytes option \<Rightarrow> bytes option" where
  "merge_first_missing target nested current = or_else target (or_else nested current)"

text \<open>The contribution of a child expression that may run; a \<open>PatternQuote\<close> merges all of it.\<close>

definition merge_child :: "expression_analysis \<Rightarrow> expression_analysis \<Rightarrow> expression_analysis" where
  "merge_child a c = a
     \<lparr>xa_missing_runtime := merge_first_missing (xa_missing_runtime a) (xa_missing_runtime c) None,
      xa_missing_shell_condition :=
        merge_first_missing (xa_missing_shell_condition a) (xa_missing_shell_condition c) None,
      xa_missing_path := merge_first_missing (xa_missing_path a) (xa_missing_path c) None,
      xa_references_dynamic := xa_references_dynamic a \<or> xa_references_dynamic c,
      xa_has_runtime_variable := xa_has_runtime_variable a \<or> xa_has_runtime_variable c,
      xa_has_command := xa_has_command a \<or> xa_has_command c,
      xa_has_assignment := xa_has_assignment a \<or> xa_has_assignment c,
      xa_has_regex_quoted_variable := xa_has_regex_quoted_variable a \<or> xa_has_regex_quoted_variable c,
      xa_needs_runtime := xa_needs_runtime a \<or> xa_needs_runtime c,
      xa_shell_condition_static := xa_shell_condition_static a \<and> xa_shell_condition_static c\<rparr>"

definition analysis_word_may_run :: "(bytes \<rightharpoonup> expanded_value) \<Rightarrow> bool \<Rightarrow> bytes \<Rightarrow> parameter_operation \<Rightarrow> bool" where
  "analysis_word_may_run known available name opn =
     (case known name of
        Some v \<Rightarrow> evaluates_word opn True (ev_text v = [])
      | None \<Rightarrow> if available then op_word opn \<noteq> None else evaluates_word opn False False)"

text \<open>The \<open>Variable\<close> arm, with the analysis of its word, when it has one, as \<open>child\<close>.\<close>

definition analyse_variable ::
    "(bytes \<rightharpoonup> expanded_value) \<Rightarrow> bytes set \<Rightarrow> bytes \<Rightarrow> parameter_operation \<Rightarrow> expression_analysis option \<Rightarrow>
     expression_analysis \<Rightarrow> expression_analysis" where
  "analyse_variable known dynamic name opn child a =
     (let runtime_only = (variable_policy_of name = RuntimeOnly);
          available = (known name \<noteq> None \<or> name \<in> dynamic \<or> runtime_only);
          may_run = analysis_word_may_run known available name opn;
          ran = (if may_run then child else None);
          flag = (\<lambda>f. case ran of None \<Rightarrow> False | Some c \<Rightarrow> f c);
          miss = (\<lambda>f. Option.bind ran f);
          required = (if \<not> available \<and> requires_value opn then Some name else None)
      in a
       \<lparr>xa_missing_runtime :=
          merge_first_missing (merge_first_missing (xa_missing_runtime a) None required) (miss xa_missing_runtime) None,
        xa_missing_shell_condition :=
          merge_first_missing (merge_first_missing (xa_missing_shell_condition a) None required)
            (miss xa_missing_shell_condition) None,
        xa_missing_path :=
          (if runtime_only then xa_missing_path a
           else merge_first_missing (xa_missing_path a) (miss xa_missing_path)
                  (if known name = None \<and> requires_value opn then Some name else None)),
        xa_references_dynamic :=
          xa_references_dynamic a \<or> runtime_only \<or> name \<in> dynamic \<or> flag xa_references_dynamic,
        xa_has_runtime_variable := xa_has_runtime_variable a \<or> runtime_only \<or> flag xa_has_runtime_variable,
        xa_has_command := xa_has_command a \<or> flag xa_has_command,
        xa_has_assignment := xa_has_assignment a \<or> is_assign opn \<or> flag xa_has_assignment,
        xa_has_regex_quoted_variable := xa_has_regex_quoted_variable a \<or> flag xa_has_regex_quoted_variable,
        xa_needs_runtime := xa_needs_runtime a \<or> runtime_only \<or> flag xa_needs_runtime,
        xa_shell_condition_static := xa_shell_condition_static a \<and>
          (if name \<in> dynamic \<or> runtime_only then False
           else if may_run then (case child of None \<Rightarrow> True | Some c \<Rightarrow> xa_shell_condition_static c)
           else available \<or> \<not> requires_value opn)\<rparr>)"

definition analyse_regex_quoted ::
    "(bytes \<rightharpoonup> expanded_value) \<Rightarrow> bytes set \<Rightarrow> bytes \<Rightarrow> expression_analysis \<Rightarrow> expression_analysis" where
  "analyse_regex_quoted known dynamic name a =
     (let runtime_only = (variable_policy_of name = RuntimeOnly);
          available = (known name \<noteq> None \<or> name \<in> dynamic \<or> runtime_only)
      in a
       \<lparr>xa_missing_shell_condition :=
          (if \<not> available \<and> xa_missing_shell_condition a = None then Some name else xa_missing_shell_condition a),
        xa_references_dynamic := xa_references_dynamic a \<or> name \<in> dynamic,
        xa_has_regex_quoted_variable := True,
        xa_needs_runtime := True,
        xa_shell_condition_static := xa_shell_condition_static a \<and> known name \<noteq> None \<and> name \<notin> dynamic \<and> \<not> runtime_only\<rparr>)"

function (sequential) analyse ::
    "(bytes \<rightharpoonup> expanded_value) \<Rightarrow> bytes set \<Rightarrow> shell_expression \<Rightarrow> expression_analysis \<Rightarrow> expression_analysis" where
  "analyse known dynamic [] a = a"
| "analyse known dynamic (Literal t # ps) a = analyse known dynamic ps a"
| "analyse known dynamic (Variable name opn # ps) a =
     analyse known dynamic ps
       (analyse_variable known dynamic name opn
          (case op_word opn of None \<Rightarrow> None | Some w \<Rightarrow> Some (analyse known dynamic w analysis_start)) a)"
| "analyse known dynamic (RegexQuotedVariable name # ps) a =
     analyse known dynamic ps (analyse_regex_quoted known dynamic name a)"
| "analyse known dynamic (Command c # ps) a =
     analyse known dynamic ps
       (a\<lparr>xa_has_command := True, xa_needs_runtime := True, xa_shell_condition_static := False\<rparr>)"
| "analyse known dynamic (PatternQuote e # ps) a =
     analyse known dynamic ps (merge_child a (analyse known dynamic e analysis_start))"
  by pat_completeness auto
termination
  by (relation "measure (\<lambda>(known, dynamic, e, a). size_list size e)") (auto dest: size_op_word)

definition analysis_new ::
    "shell_expression \<Rightarrow> (bytes \<rightharpoonup> expanded_value) \<Rightarrow> bytes set \<Rightarrow> expression_analysis" where
  "analysis_new e known dynamic = analyse known dynamic e analysis_start"

definition validate_missing :: "bytes option \<Rightarrow> usize \<Rightarrow> expansion_error + unit" where
  "validate_missing missing line =
     (case missing of Some name \<Rightarrow> Inl (message_at line (Msg_NotDefined name)) | None \<Rightarrow> Inr ())"

definition has_runtime_part :: "expression_analysis \<Rightarrow> bool" where
  "has_runtime_part a \<longleftrightarrow> xa_has_runtime_variable a \<or> xa_has_command a \<or> xa_has_assignment a \<or>
     xa_has_regex_quoted_variable a"

definition expression_has_runtime :: "shell_expression \<Rightarrow> bool" where
  "expression_has_runtime e = has_runtime_part (analysis_new e Map.empty {})"

section \<open>Destinations\<close>

fun kind_purpose :: "destination_kind \<Rightarrow> path_purpose" where
  "kind_purpose Kind_Maildir = Purpose_Maildir"
| "kind_purpose Kind_Mbox = Purpose_Mbox"
| "kind_purpose Kind_File = Purpose_File"
| "kind_purpose Kind_Discard = Purpose_Discard"

fun rebuild :: "destination \<Rightarrow> path_expression \<Rightarrow> bool \<Rightarrow> destination" where
  "rebuild (Maildir _) x classify_file = Maildir x"
| "rebuild (Mbox _) x classify_file = Mbox x"
| "rebuild (File _) x classify_file =
     (if classify_file then (if pe_source x = ascii ''/dev/null'' then Discard x else Mbox x)
      else File x)"
| "rebuild (Discard _) x classify_file = Discard x"

definition resolved_expression :: "destination \<Rightarrow> bytes \<Rightarrow> path_expression" where
  "resolved_expression d source =
     \<lparr>pe_source = source, pe_base = None, pe_line = pe_line (destination_expression d), pe_runtime_dependent = False,
      pe_runtime_base = False, pe_typed_destination = pe_typed_destination (destination_expression d),
      pe_expansion = None\<rparr>"

definition adopt_static_discard_classification :: "destination \<Rightarrow> destination \<Rightarrow> destination" where
  "adopt_static_discard_classification d resolved =
     (if destination_kind_of d = Kind_File \<and> destination_kind_of resolved = Kind_Discard
      then Discard (destination_expression d) else d)"

definition destination_resolver :: "destination \<Rightarrow> bytes option \<Rightarrow> path_resolver" where
  "destination_resolver d base =
     \<lparr>pr_purpose = kind_purpose (destination_kind_of d), pr_line = pe_line (destination_expression d), pr_base = base,
      pr_typed = pe_typed_destination (destination_expression d)\<rparr>"

definition command_expression :: "destination \<Rightarrow> shell_expression option" where
  "command_expression d =
     (case pe_expansion (destination_expression d) of
        Some e \<Rightarrow> if requires_ordered_evaluation e then Some e else None
      | None \<Rightarrow> None)"

definition resolve_ordered_output :: "destination \<Rightarrow> bytes \<Rightarrow> bytes option \<Rightarrow> expansion_error + destination" where
  "resolve_ordered_output d source runtime_maildir =
     (let x = destination_expression d
      in if command_expression d = None then Inl (message_at (pe_line x) (Msg_Path Msg_NoOrderedExpression))
         else
           (case resolver_resolve (destination_resolver d (if pe_runtime_base x then runtime_maildir else pe_base x)) source of
              Inl e \<Rightarrow> Inl e
            | Inr path \<Rightarrow> Inr (rebuild d (resolved_expression d path) True)))"

definition destination_bind_with :: "destination \<Rightarrow> (bytes \<Rightarrow> bytes option) \<Rightarrow> expansion_error + destination" where
  "destination_bind_with d lookup =
     (let x = destination_expression d
      in if command_expression d \<noteq> None then Inl (message_at (pe_line x) (Msg_Path Msg_OrderedNotExecuted))
         else
           (case prepared (pe_expansion x) (pe_source x) (pe_line x) of
              Inl e \<Rightarrow> Inl e
            | Inr compiled \<Rightarrow>
                (case bind_static (pe_line x) lookup 0 compiled of
                   Inl e \<Rightarrow> Inl e
                 | Inr expansion \<Rightarrow>
                     Inr (rebuild d (x\<lparr>pe_runtime_dependent := expression_has_runtime expansion,
                                     pe_expansion := Some expansion\<rparr>) False))))"

text \<open>The base of a path: the \<open>MAILDIR\<close> of the run when the expression asks for it, else its own.\<close>

definition path_base :: "path_expression \<Rightarrow> (bytes \<Rightarrow> bytes option) \<Rightarrow> bytes option" where
  "path_base x lookup = or_else (if pe_runtime_base x then lookup MAILDIR_NAME else None) (pe_base x)"

definition destination_resolve_with :: "destination \<Rightarrow> (bytes \<Rightarrow> bytes option) \<Rightarrow> expansion_error + destination" where
  "destination_resolve_with d lookup =
     (let x = destination_expression d
      in if (case pe_expansion x of Some e \<Rightarrow> has_commands e | None \<Rightarrow> False)
         then Inl (message_at (pe_line x) (Msg_Path Msg_CommandNotExecuted))
         else
           (case prepared (pe_expansion x) (pe_source x) (pe_line x) of
              Inl e \<Rightarrow> Inl e
            | Inr compiled \<Rightarrow>
                (case resolver_evaluate (destination_resolver d (path_base x lookup)) compiled lookup of
                   Inl e \<Rightarrow> Inl e
                 | Inr path \<Rightarrow> Inr (rebuild d (resolved_expression d path) True))))"

definition needs_runtime_variables :: "destination \<Rightarrow> bool" where
  "needs_runtime_variables d \<longleftrightarrow>
     pe_runtime_dependent (destination_expression d) \<or> pe_runtime_base (destination_expression d)"

text \<open>\<open>PathExpression::resolve_with\<close>, which is called for lockfiles.\<close>

definition path_expression_resolve_with :: "path_expression \<Rightarrow> (bytes \<Rightarrow> bytes option) \<Rightarrow> expansion_error + bytes" where
  "path_expression_resolve_with x lookup =
     (case prepared (pe_expansion x) (pe_source x) (pe_line x) of
        Inl e \<Rightarrow> Inl e
      | Inr compiled \<Rightarrow>
          resolver_evaluate (resolver_new Purpose_Lockfile (pe_line x) (path_base x lookup)) compiled lookup)"

end
