(* ===== verification/Path_Safety.thy ===== *)
theory Path_Safety
  imports Shell_Resolve
begin

text \<open>
  What the resolution of destinations and lockfiles guarantees: the path that comes out of
  \<open>Destination::resolve_with\<close> has no component that leaves the directory it names, and a destination
  bound by \<open>bind_with\<close> depends on the run only through the variables that are set by the run.
\<close>

lemma map_sum_Inr_iff: "map_sum f g r = Inr y \<longleftrightarrow> (\<exists>x. r = Inr x \<and> y = g x)"
  by (cases r) auto

section \<open>Components of a path\<close>

abbreviation components_of :: "bytes \<Rightarrow> bytes list" where
  "components_of path \<equiv> split_on (\<lambda>b. b = SLASH) path"

lemma split_on_Nil [simp]: "split_on P [] = [[]]"
  by (simp add: split_on_def)

lemma split_on_neq_Nil [simp]: "split_on P xs \<noteq> []"
  by (cases xs) (auto simp: split_on_def split: list.splits bool.splits)

lemma split_on_Cons:
  "split_on P (x # xs) =
     (if P x then [] # split_on P xs else (x # hd (split_on P xs)) # tl (split_on P xs))"
  using split_on_neq_Nil [of P xs] by (auto simp: split_on_def split: list.splits)

lemma split_on_snoc: "P x \<Longrightarrow> split_on P (xs @ [x]) = split_on P xs @ [[]]"
  by (induction xs) (simp_all add: split_on_Cons)

lemma check_components_Inr:
  "check_components cs = Inr () \<longleftrightarrow> (\<forall>c \<in> set cs. c \<noteq> [] \<and> c \<noteq> ascii ''.'' \<and> c \<noteq> ascii ''..'')"
  by (induction cs) auto

text \<open>
  The components between an initial slash, which makes the path absolute, and a final one, which marks a
  Maildir.
\<close>

definition path_entries :: "bytes \<Rightarrow> bytes list" where
  "path_entries path =
     (let cs = components_of path;
          below = (if hd cs = [] then tl cs else cs)
      in if below \<noteq> [] \<and> last below = [] then butlast below else below)"

text \<open>
  A path that names something below its base: no NUL byte, and at least one component between the slashes
  at its ends, none of them empty, dot or dot-dot.
\<close>

definition contained_path :: "bytes \<Rightarrow> bool" where
  "contained_path path \<longleftrightarrow> 0 \<notin> set path \<and> path_entries path \<noteq> [] \<and>
     [] \<notin> set (path_entries path) \<and> ascii ''.'' \<notin> set (path_entries path) \<and> ascii ''..'' \<notin> set (path_entries path)"

lemma split_on_last: "xs \<noteq> [] \<Longrightarrow> last (split_on P xs) = [] \<longleftrightarrow> P (last xs)"
proof (induction xs)
  case (Cons x xs)
  show ?case
  proof (cases xs)
    case (Cons y ys)
    then have "last (split_on P xs) = [] \<longleftrightarrow> P (last xs)" using Cons.IH by simp
    moreover have "last (split_on P (x # xs)) = [] \<longleftrightarrow> last (split_on P xs) = []"
    proof (cases "P x")
      case False
      then have "last (split_on P (x # xs)) = (if tl (split_on P xs) = [] then x # last (split_on P xs) else last (split_on P xs))"
        by (cases "split_on P xs") (auto simp: split_on_Cons)
      moreover have "tl (split_on P xs) = [] \<Longrightarrow> last (split_on P xs) \<noteq> []"
        using Cons by (auto simp: split_on_Cons)
      ultimately show ?thesis by auto
    qed (simp add: split_on_Cons)
    ultimately show ?thesis using Cons by simp
  qed (simp add: split_on_Cons)
qed simp

lemma strip_slash_components:
  "path \<noteq> [] \<Longrightarrow> components_of (strip_slash path) =
     (if hd (components_of path) = [] then tl (components_of path) else components_of path)"
  by (cases path) (auto simp: strip_slash_def starts_with_def split_on_Cons)

lemma strip_marker_components:
  assumes "ends_with path [SLASH] \<longrightarrow> marker" and "path \<noteq> []"
  shows "components_of (strip_marker marker path) =
    (if last (components_of path) = [] then butlast (components_of path) else components_of path)"
proof (cases "ends_with path [SLASH]")
  case True
  then obtain front where front: "path = front @ [SLASH]" by (auto simp: ends_with_suffix suffix_def)
  then have "components_of path = components_of front @ [[]]"
    using split_on_snoc [of "\<lambda>b. b = SLASH" SLASH front] by simp
  then show ?thesis
    using assms True front by (simp add: strip_marker_def strip_suffix_def)
next
  case False
  then show ?thesis
    using assms split_on_last [OF assms(2)] by (simp add: strip_marker_def strip_suffix_def ends_with_singleton)
qed

lemma validate_contained: "validate_filesystem_path path marker = Inr u \<Longrightarrow> contained_path path"
proof -
  assume ok: "validate_filesystem_path path marker = Inr u"
  then have base: "path \<noteq> []" "0 \<notin> set path" "ends_with path [SLASH] \<longrightarrow> marker"
    and rest: "strip_slash path \<noteq> []"
    and parts: "check_components (components_of (strip_marker marker (strip_slash path))) = Inr ()"
    by (auto simp: validate_filesystem_path_def Let_def strip_marker_def strip_suffix_def split: if_splits)
  have "ends_with (strip_slash path) [SLASH] \<longrightarrow> marker"
    using base rest by (cases path) (auto simp: strip_slash_def starts_with_def ends_with_singleton split: if_splits)
  note stripped = strip_marker_components [OF this rest]
  have "path_entries path = components_of (strip_marker marker (strip_slash path))"
    unfolding path_entries_def Let_def strip_slash_components [OF base(1), symmetric] stripped by simp
  then show ?thesis
    using base parts by (auto simp: contained_path_def check_components_Inr)
qed

lemma validate_marker: "validate_filesystem_path path marker = Inr u \<Longrightarrow> ends_with path [SLASH] \<Longrightarrow> marker"
  by (auto simp: validate_filesystem_path_def Let_def split: if_splits)

section \<open>Lengths\<close>

lemma push_bounded_Inr: "push_bounded limit line v output = Inr output' \<Longrightarrow> output' = output @ v \<and> length output' \<le> limit"
  by (auto simp: push_bounded_def try_extend_vec_def checked_add_def split: option.splits if_splits)

lemma resolve_relative_length:
  "resolve_relative_path path base line = Inr p \<Longrightarrow> length path \<le> MAX_PATH_EXPRESSION_LEN \<Longrightarrow>
     length p \<le> MAX_PATH_EXPRESSION_LEN"
  by (auto simp: resolve_relative_path_def dest!: push_bounded_Inr split: option.splits if_splits sum.splits)

lemma evaluate_at_length:
  assumes "evaluate_at ctx e limit 0 (c, []) = (st, Inr v)"
  shows "length (vv_bytes v) \<le> limit"
  using evaluation_bounds(1) [OF order_refl subset_refl _ assms]
  by (simp add: assignments_ok_def)

lemma evaluate_expression_length:
  "evaluate_expression e line limit lookup = Inr v \<Longrightarrow> length (ev_text v) \<le> limit"
  by (auto simp: evaluate_expression_def evaluate_def dest: evaluate_at_length split: sum.splits if_splits prod.splits)

lemma evaluate_with_linebuf_length:
  "evaluate_with_linebuf e line hard lookup = Inr v \<Longrightarrow> length (ev_text v) \<le> hard"
  by (cases "evaluate_expression e line (min (active_linebuf lookup) hard) lookup")
    (auto simp: evaluate_with_linebuf_def Let_def dest!: evaluate_expression_length)

lemma resolver_resolve_Inr:
  assumes "resolver_resolve r source = Inr p" and "length source \<le> MAX_PATH_EXPRESSION_LEN"
  shows "length p \<le> MAX_PATH_EXPRESSION_LEN \<and> (contained_path p \<or> p = [] \<and> allows_empty (pr_purpose r)) \<and>
    (ends_with p [SLASH] \<longrightarrow> pr_purpose r = Purpose_Maildir) \<and> (pr_purpose r = Purpose_Discard \<longrightarrow> p = ascii ''/dev/null'')"
  using assms
  by (auto simp: resolver_resolve_def allows_empty_def ends_with_singleton [of "[]"]
      dest: validate_contained validate_marker resolve_relative_length split: if_splits sum.splits)

lemma resolver_evaluate_Inr:
  assumes "resolver_evaluate r e lookup = Inr p"
  shows "length p \<le> MAX_PATH_EXPRESSION_LEN \<and> (contained_path p \<or> p = [] \<and> allows_empty (pr_purpose r)) \<and>
    (ends_with p [SLASH] \<longrightarrow> pr_purpose r = Purpose_Maildir) \<and> (pr_purpose r = Purpose_Discard \<longrightarrow> p = ascii ''/dev/null'')"
  using assms resolver_resolve_Inr evaluate_with_linebuf_length
  by (fastforce simp: resolver_evaluate_def split: sum.splits)

section \<open>References of an expression\<close>

text \<open>The variables that an evaluation may look up; the word of \<open>:?\<close> is never evaluated.\<close>

function (sequential) references :: "shell_expression \<Rightarrow> bytes set" where
  "references [] = {}"
| "references (Variable n opn # ps) =
     insert n (if is_required opn then {} else case op_word opn of None \<Rightarrow> {} | Some w \<Rightarrow> references w) \<union> references ps"
| "references (PatternQuote e # ps) = references e \<union> references ps"
| "references (Literal t # ps) = references ps"
| "references (RegexQuotedVariable n # ps) = references ps"
| "references (Command c # ps) = references ps"
  by pat_completeness auto
termination
  by (relation "measure (size_list size)") (auto dest: size_op_word)

lemma references_append [simp]: "references (xs @ ys) = references xs \<union> references ys"
  by (induction xs rule: references.induct) auto

lemma selected_word_references:
  "selected_word opn a b = Some w \<Longrightarrow> \<not> is_required opn \<and> op_word opn = Some w"
  by (cases opn) (auto split: if_splits)

lemma pattern_word_references:
  "pattern_operation ctx opn = Some (w, f) \<Longrightarrow> \<not> is_required opn \<and> op_word opn = Some w"
  by (cases opn) auto

lemma references_push_literal [simp]: "references (push_literal_part parts t) = references parts"
proof -
  have "parts = rev before @ [Literal p]" if "rev parts = Literal p # before" for p before
    using that by (metis rev.simps(2) rev_rev_ident)
  then show ?thesis by (auto simp: push_literal_part_def split: list.splits shell_part.splits)
qed

abbreviation runtime_names :: "bytes set" where
  "runtime_names \<equiv> {n. variable_policy_of n = RuntimeOnly}"

lemma references_fold:
  "references (fold (\<lambda>p parts. case p of Literal t \<Rightarrow> push_literal_part parts t | _ \<Rightarrow> parts @ [p]) bound parts) =
     references parts \<union> references bound"
proof (induction bound arbitrary: parts)
  case (Cons p ps)
  have "references (p # ps) = references [p] \<union> references ps" using references_append [of "[p]" ps] by simp
  moreover have "references (case p of Literal t \<Rightarrow> push_literal_part parts t | _ \<Rightarrow> parts @ [p]) = references parts \<union> references [p]"
    by (cases p) auto
  ultimately show ?case using Cons.IH by auto
qed simp

lemma bind_references:
  shows "bind_static line lookup nesting e = Inr b \<Longrightarrow> references b \<subseteq> runtime_names"
    and "bind_parts line lookup nesting ps parts = Inr b \<Longrightarrow> references parts \<subseteq> runtime_names \<Longrightarrow> references b \<subseteq> runtime_names"
    and "bind_operation line lookup nesting opn = Inr opn' \<Longrightarrow>
      (if is_required opn' then {} else case op_word opn' of None \<Rightarrow> {} | Some w \<Rightarrow> references w) \<subseteq> runtime_names"
proof (induction line lookup nesting e and line lookup nesting ps parts and line lookup nesting opn arbitrary: b and b and opn'
    rule: bind_static_bind_parts_bind_operation.induct)
  case (4 line lookup nesting name opn ps parts)
  show ?case
  proof (cases "is_value_transform opn \<or> variable_policy_of name = RuntimeOnly")
    case True
    then show ?thesis using 4 by (auto split: sum.splits if_splits)
  next
    case False
    then show ?thesis using 4 by (auto simp: Let_def references_fold split: sum.splits option.splits if_splits)
  qed
qed (auto simp: map_sum_Inr_iff split: sum.splits if_splits)

section \<open>Contexts that agree\<close>

text \<open>Two contexts that differ only in the answers for variables outside a set of names.\<close>

definition agree_on :: "bytes set \<Rightarrow> ('c, 'e) eval_context \<Rightarrow> ('c, 'e) eval_context \<Rightarrow> bool" where
  "agree_on names ctx ctx' \<longleftrightarrow> (\<exists>v. ctx' = ctx\<lparr>ec_variable := v\<rparr> \<and> (\<forall>n \<in> names. \<forall>c. v c n = ec_variable ctx c n))"

lemma agree_on_mono: "agree_on names ctx ctx' \<Longrightarrow> names' \<subseteq> names \<Longrightarrow> agree_on names' ctx ctx'"
  by (auto simp: agree_on_def)

lemma agree_steps:
  assumes "agree_on names ctx ctx'"
  shows "append_output ctx' = append_output ctx" "remaining_output ctx' = remaining_output ctx"
    "selected_depth ctx' = selected_depth ctx" "quote_pattern_bytes ctx' = quote_pattern_bytes ctx"
    "pattern_operation ctx' opn = pattern_operation ctx opn"
    "ec_depth_mode ctx' = ec_depth_mode ctx" "ec_command ctx' = ec_command ctx" "ec_regex_quoted ctx' = ec_regex_quoted ctx"
    "ec_missing_variable ctx' = ec_missing_variable ctx" "ec_required_parameter ctx' = ec_required_parameter ctx"
    "ec_depth_exceeded ctx' = ec_depth_exceeded ctx" "ec_depth_overflow ctx' = ec_depth_overflow ctx"
    "n \<in> names \<Longrightarrow> lookup_variable ctx' n = lookup_variable ctx n"
proof -
  obtain v where ctx': "ctx' = ctx\<lparr>ec_variable := v\<rparr>" and v: "\<forall>n \<in> names. \<forall>c. v c n = ec_variable ctx c n"
    using assms by (auto simp: agree_on_def)
  show app: "append_output ctx' = append_output ctx"
    by (intro ext) (simp add: append_output_def ctx' split: sum.splits)
  show "remaining_output ctx' = remaining_output ctx"
    by (intro ext) (simp add: remaining_output_def ctx' split: sum.splits)
  show "selected_depth ctx' = selected_depth ctx"
    by (intro ext) (simp add: selected_depth_def ctx' split: option.splits)
  have "quote_loop ctx' c limit bs q = quote_loop ctx c limit bs q" for c limit bs q
    by (induction bs arbitrary: q) (simp_all add: app split: sum.splits)
  then show "quote_pattern_bytes ctx' = quote_pattern_bytes ctx" by (intro ext) (simp add: quote_pattern_bytes_def)
  have "change_case ctx' = change_case ctx"
    by (intro ext) (simp add: change_case_def ctx' split: sum.splits)
  then show "pattern_operation ctx' opn = pattern_operation ctx opn"
    by (cases opn) (simp_all add: ctx')
  show "n \<in> names \<Longrightarrow> lookup_variable ctx' n = lookup_variable ctx n"
    using v by (intro ext) (simp add: lookup_variable_def ctx' split: option.splits)
qed (use assms in \<open>auto simp: agree_on_def\<close>)

definition evaluations_agree :: "('c, 'e) eval_context \<Rightarrow> ('c, 'e) eval_context \<Rightarrow> shell_expression \<Rightarrow> bool" where
  "evaluations_agree ctx ctx' e \<longleftrightarrow> evaluate_at ctx' e = evaluate_at ctx e"

lemma evaluate_word_agrees:
  "agree_on names ctx ctx' \<Longrightarrow> evaluations_agree ctx ctx' w \<Longrightarrow>
     evaluate_word ctx' w out limit nesting st = evaluate_word ctx w out limit nesting st"
  by (simp add: evaluate_word.simps agree_steps evaluations_agree_def split: sum.splits option.splits)

lemma eval_variable_agrees:
  assumes agree: "agree_on names ctx ctx'" and name: "name \<in> names"
    and words: "\<And>w. op_word opn = Some w \<Longrightarrow> \<not> is_required opn \<Longrightarrow> evaluations_agree ctx ctx' w"
  shows "eval_part ctx' (Variable name opn) limit nesting out depth st = eval_part ctx (Variable name opn) limit nesting out depth st"
proof -
  note steps = agree_steps(1-12) [OF agree] agree_steps(13) [OF agree name]
  obtain st1 q where lk: "lookup_variable ctx name st = (st1, q)" by (cases "lookup_variable ctx name st")
  show ?thesis
  proof (cases "(\<exists>err. q = Inl err) \<or> opn = Length")
    case True
    then show ?thesis by (auto simp: steps lk split: option.splits sum.splits)
  next
    case False
    then obtain found where q: "q = Inr found" and nl: "opn \<noteq> Length" by (cases q) auto
    show ?thesis
    proof (cases "pattern_operation ctx opn")
      case (Some wf)
      obtain w f where wf: "wf = (w, f)" by (cases wf)
      have "evaluations_agree ctx ctx' w" using words pattern_word_references Some wf by blast
      from evaluate_word_agrees [OF agree this] show ?thesis by (simp add: steps lk q nl Some wf)
    next
      case None
      define is_set is_empty where "is_set = (found \<noteq> None)"
        and "is_empty = (case found of None \<Rightarrow> False | Some v \<Rightarrow> vv_bytes v = [])"
      show ?thesis
      proof (cases "selected_word opn is_set is_empty")
        case sw: (Some w)
        have "evaluations_agree ctx ctx' w" using words selected_word_references sw by blast
        note word = evaluate_word_agrees [OF agree this]
        show ?thesis
          unfolding eval_part.simps steps lk q prod.case sum.case if_not_P [OF nl] None option.case Let_def
            is_set_def [symmetric] is_empty_def [symmetric] sw word ..
      next
        case sw: None
        show ?thesis
          unfolding eval_part.simps steps lk q prod.case sum.case if_not_P [OF nl] None option.case Let_def
            is_set_def [symmetric] is_empty_def [symmetric] sw ..
      qed
    qed
  qed
qed

lemma references_part: "references (p # ps) = references [p] \<union> references ps"
  using references_append [of "[p]" ps] by simp

lemma eval_part_agrees:
  assumes "agree_on (references [p]) ctx ctx'"
    and IH: "\<And>w. size_list size w < size p \<Longrightarrow> agree_on (references w) ctx ctx' \<Longrightarrow> evaluations_agree ctx ctx' w"
  shows "eval_part ctx' p limit nesting out depth st = eval_part ctx p limit nesting out depth st"
proof (cases p)
  case (Variable name opn)
  show ?thesis
    unfolding Variable
  proof (rule eval_variable_agrees [OF assms(1)])
    fix w
    assume w: "op_word opn = Some w" "\<not> is_required opn"
    then have "references w \<subseteq> references [p]" by (auto simp: Variable)
    then show "evaluations_agree ctx ctx' w"
      using IH agree_on_mono [OF assms(1)] size_op_word [OF w(1)] by (simp add: Variable)
  qed (simp add: Variable)
next
  case (PatternQuote e)
  have "evaluations_agree ctx ctx' e" using IH assms(1) by (simp add: PatternQuote)
  then show ?thesis
    by (simp add: PatternQuote agree_steps [OF assms(1)] evaluations_agree_def split: sum.splits)
qed (simp_all add: agree_steps [OF assms(1)] split: sum.splits)

lemma eval_parts_agree:
  assumes "agree_on (references ps) ctx ctx'"
    and "\<And>w. size_list size w < size_list size ps \<Longrightarrow> agree_on (references w) ctx ctx' \<Longrightarrow> evaluations_agree ctx ctx' w"
  shows "eval_parts ctx' ps limit nesting out depth st = eval_parts ctx ps limit nesting out depth st"
  using assms
proof (induction ps arbitrary: out depth st)
  case (Cons p ps)
  have p: "agree_on (references [p]) ctx ctx'" and ps: "agree_on (references ps) ctx ctx'"
    using Cons.prems(1) agree_on_mono references_part [of p ps] by blast+
  have "eval_part ctx' p limit nesting out depth st = eval_part ctx p limit nesting out depth st" for out depth st
    by (rule eval_part_agrees [OF p Cons.prems(2)]) simp_all
  moreover have "eval_parts ctx' ps limit nesting out depth st = eval_parts ctx ps limit nesting out depth st" for out depth st
    by (rule Cons.IH [OF ps Cons.prems(2)]) simp_all
  ultimately show ?case by (simp add: agree_steps [OF p] split: prod.splits sum.splits)
qed simp

lemma evaluation_agrees: "agree_on (references e) ctx ctx' \<Longrightarrow> evaluations_agree ctx ctx' e"
proof (induction e rule: measure_induct_rule [where f = "size_list size"])
  case (less e)
  have "eval_parts ctx' e limit nesting out depth st = eval_parts ctx e limit nesting out depth st" for limit nesting out depth st
    by (rule eval_parts_agree [OF less.prems less.IH])
  then show ?case
    unfolding evaluations_agree_def by (intro ext) (simp add: evaluate_at.simps agree_steps [OF less.prems])
qed

section \<open>Theorems\<close>

lemma string_contexts_agree:
  "\<forall>n \<in> names. l n = l' n \<Longrightarrow> agree_on names (string_context line l) (string_context line l')"
  by (auto simp: agree_on_def string_context_def intro!: exI [of _ "ec_variable (string_context line l')"])

lemma evaluate_expression_agrees:
  assumes "\<forall>n \<in> references e. l n = l' n"
  shows "evaluate_expression e line limit l' = evaluate_expression e line limit l"
  using evaluation_agrees [OF string_contexts_agree [OF assms]]
  by (simp add: evaluate_expression_def evaluate_def evaluations_agree_def)

lemma resolver_evaluate_agrees:
  assumes "\<forall>n \<in> insert (ascii ''LINEBUF'') (references e). l n = l' n"
  shows "resolver_evaluate r e l' = resolver_evaluate r e l"
proof -
  have "active_linebuf l' = active_linebuf l" using assms by (simp add: active_linebuf_def)
  moreover have "evaluate_expression e line limit l' = evaluate_expression e line limit l" for line limit
    using assms by (intro evaluate_expression_agrees) simp
  ultimately show ?thesis by (simp add: resolver_evaluate_def evaluate_with_linebuf_def)
qed

lemma destination_expression_rebuild [simp]: "destination_expression (rebuild d x c) = x"
  by (cases d) auto

text \<open>
  C23. Binding freezes a destination.  After \<open>bind_with\<close> succeeds, what the destination resolves to
  depends on the later run only through the variables that a run itself sets, and through
  \<open>MAILDIR\<close> and \<open>LINEBUF\<close>: any two lookups that agree on those give the same destination or the
  same error, whatever else was assigned in between.
\<close>

theorem bound_destination_stable:
  assumes "destination_bind_with d lookup = Inr bound"
    and "\<forall>n. variable_policy_of n = RuntimeOnly \<or> n = MAILDIR_NAME \<or> n = ascii ''LINEBUF'' \<longrightarrow> l n = l' n"
  shows "destination_resolve_with bound l' = destination_resolve_with bound l"
proof -
  obtain e where e: "pe_expansion (destination_expression bound) = Some e" "references e \<subseteq> runtime_names"
    using assms(1) bind_references(1)
    by (fastforce simp: destination_bind_with_def Let_def split: if_splits sum.splits)
  have "\<forall>n \<in> insert (ascii ''LINEBUF'') (references e). l n = l' n" using e(2) assms(2) by auto
  note same = resolver_evaluate_agrees [OF this]
  have "path_base x l' = path_base x l" for x using assms(2) by (simp add: path_base_def)
  then show ?thesis by (simp add: destination_resolve_with_def prepared_def e(1) same Let_def)
qed

definition sample_path :: "bytes \<Rightarrow> shell_expression \<Rightarrow> path_expression" where
  "sample_path source e =
     \<lparr>pe_source = source, pe_base = None, pe_line = 3, pe_runtime_dependent = False, pe_runtime_base = False,
      pe_typed_destination = True, pe_expansion = Some e\<rparr>"

theorem bound_destination_stable_witness:
  "\<exists>bound. destination_bind_with (Mbox (sample_path (ascii ''$X/in'') [Variable (ascii ''X'') Value, Literal (ascii ''/in'')]))
        (\<lambda>n. Some (ascii ''old'')) = Inr bound \<and>
     destination_resolve_with bound (\<lambda>n. if n = ascii ''X'' then Some (ascii ''new'') else None) =
     destination_resolve_with bound (\<lambda>n. None)"
proof -
  let ?d = "Mbox (sample_path (ascii ''$X/in'') [Variable (ascii ''X'') Value, Literal (ascii ''/in'')])"
  have X: "variable_policy_of (ascii ''X'') \<noteq> RuntimeOnly"
    by (simp add: variable_policy_of_def is_match_capture_name_def starts_with_def)
  have "bind_static 3 (\<lambda>n. Some (ascii ''old'')) 0 [Variable (ascii ''X'') Value, Literal (ascii ''/in'')] =
      Inr [Literal (ascii ''old/in'')]"
    using X by (simp add: MAX_EXPANSION_DEPTH_def push_literal_part_def)
  then obtain bound where b: "destination_bind_with ?d (\<lambda>n. Some (ascii ''old'')) = Inr bound"
    by (simp add: destination_bind_with_def sample_path_def command_expression_def requires_ordered_evaluation_def
        prepared_def del: bind_static.simps)
  have "destination_resolve_with bound (\<lambda>n. if n = ascii ''X'' then Some (ascii ''new'') else None) =
      destination_resolve_with bound (\<lambda>n. None)"
    by (rule bound_destination_stable [OF b]) (use X in auto)
  with b show ?thesis by blast
qed

text \<open>
  Binding and evaluation differ on \<open>:?\<close>: a variable that is set to the empty string is refused when the
  expression is evaluated, and taken as it is when the expression is bound.
\<close>

lemma bind_accepts_empty_required:
  assumes "variable_policy_of name \<noteq> RuntimeOnly" "lookup name = Some []"
  shows "bind_static line lookup 0 [Variable name (ErrorIfUnsetOrEmpty w)] = Inr []"
    "evaluate_expression [Variable name (ErrorIfUnsetOrEmpty w)] line limit lookup =
       Inl (message_at line (Msg_UnsetOrEmpty name))"
  using assms
  by (simp_all add: push_literal_part_def MAX_EXPANSION_DEPTH_def evaluate_expression_def evaluate_def evaluate_at.simps
      lookup_variable_def find_assigned_def string_context_def)

text \<open>
  C11. A destination that resolves is safe to deliver to: the path names at least one entry, has no NUL
  byte and no empty, dot or dot-dot component (apart from the slash of an absolute path and the final slash
  of a Maildir, which no other kind has), wherever in it the values of variables were substituted and
  whatever \<open>MAILDIR\<close> was put before it, and is no longer than the limit for paths; its kind is settled (an
  unmarked file has become mbox or discard, and discard is exactly \<open>/dev/null\<close>), and nothing of it
  is left to expand.
\<close>

theorem resolved_destination_safe:
  assumes "destination_resolve_with d lookup = Inr d'"
  shows "contained_path (pe_source (destination_expression d')) \<and>
    length (pe_source (destination_expression d')) \<le> MAX_PATH_EXPRESSION_LEN \<and>
    (ends_with (pe_source (destination_expression d')) [SLASH] \<longrightarrow> destination_kind_of d' = Kind_Maildir) \<and>
    destination_kind_of d' \<noteq> Kind_File \<and>
    (destination_kind_of d' = Kind_Discard \<longrightarrow> pe_source (destination_expression d') = ascii ''/dev/null'') \<and>
    \<not> needs_runtime_variables d' \<and> pe_expansion (destination_expression d') = None"
proof -
  obtain e p where run: "resolver_evaluate (destination_resolver d (path_base (destination_expression d) lookup)) e lookup = Inr p"
    and d': "d' = rebuild d (resolved_expression d p) True"
    using assms by (auto simp: destination_resolve_with_def Let_def split: if_splits sum.splits)
  have "\<not> allows_empty (kind_purpose (destination_kind_of d))" by (cases d) (auto simp: allows_empty_def)
  with resolver_evaluate_Inr [OF run]
  have p: "length p \<le> MAX_PATH_EXPRESSION_LEN" "contained_path p"
    "ends_with p [SLASH] \<longrightarrow> kind_purpose (destination_kind_of d) = Purpose_Maildir"
    "kind_purpose (destination_kind_of d) = Purpose_Discard \<longrightarrow> p = ascii ''/dev/null''"
    by (simp_all add: destination_resolver_def)
  then show ?thesis
    by (cases d) (auto simp: d' needs_runtime_variables_def resolved_expression_def)
qed

theorem resolved_destination_safe_witness:
  "\<exists>d'. destination_resolve_with (File (sample_path (ascii ''/dev/null'') [Literal (ascii ''/dev/null'')])) (\<lambda>n. None) = Inr d' \<and>
     contained_path (pe_source (destination_expression d')) \<and> destination_kind_of d' \<noteq> Kind_File"
proof -
  let ?d = "File (sample_path (ascii ''/dev/null'') [Literal (ascii ''/dev/null'')])"
  have eval: "evaluate_expression [Literal (ascii ''/dev/null'')] 3 2048 (\<lambda>n. None) =
      Inr \<lparr>ev_text = ascii ''/dev/null'', ev_depth = 0\<rparr>"
    by (simp add: evaluate_expression_def evaluate_def evaluate_at.simps MAX_EXPANSION_DEPTH_def string_context_def
        append_output_def try_extend_def try_extend_vec_def with_capacity_def checked_add_def usize_max_def into_vec_def
        valid_utf8_def valid_utf8_ascii)
  have "\<exists>d'. destination_resolve_with ?d (\<lambda>n. None) = Inr d'"
    using eval
    by (simp add: destination_resolve_with_def Let_def sample_path_def prepared_def destination_resolver_def path_base_def
        resolver_evaluate_def evaluate_with_linebuf_def active_linebuf_def DEFAULT_LINEBUF_def MAX_PATH_EXPRESSION_LEN_def
        resolver_resolve_def allows_empty_def resolve_relative_path_def validate_filesystem_path_def ends_with_def
        strip_slash_def starts_with_def strip_marker_def split_on_Cons)
  then obtain d' where r: "destination_resolve_with ?d (\<lambda>n. None) = Inr d'" ..
  with resolved_destination_safe [OF r] show ?thesis by blast
qed

end
