(* ===== verification/Eval_Plan.thy ===== *)
theory Eval_Plan
  imports Path_Safety
begin

text \<open>
  The execution plan, \<open>src/eval/tree.rs\<close> with the parts of \<open>src/eval.rs\<close> and
  \<open>src/eval/condition.rs\<close> it is built from: the compiled tree of sequences, recipes and actions,
  what each part requires of the message, and the control flow between the recipes of a sequence.
\<close>

section \<open>What a plan requires\<close>

record input_requirements =
  needs_headers :: bool
  needs_body_contents :: bool
  needs_end_of_message :: bool

definition requirements_none :: input_requirements where
  "requirements_none = \<lparr>needs_headers = False, needs_body_contents = False, needs_end_of_message = False\<rparr>"

definition requirements_all :: input_requirements where
  "requirements_all = \<lparr>needs_headers = True, needs_body_contents = True, needs_end_of_message = True\<rparr>"

definition requirements_union :: "input_requirements \<Rightarrow> input_requirements \<Rightarrow> input_requirements" where
  "requirements_union a b =
     \<lparr>needs_headers = (needs_headers a \<or> needs_headers b),
      needs_body_contents = (needs_body_contents a \<or> needs_body_contents b),
      needs_end_of_message = (needs_end_of_message a \<or> needs_end_of_message b)\<rparr>"

record plan_properties =
  pp_requirements :: input_requirements
  pp_ordered :: bool
  pp_preemptive :: bool
  pp_full_matching :: bool
  pp_external :: bool

definition properties_none :: plan_properties where
  "properties_none = \<lparr>pp_requirements = requirements_none, pp_ordered = False, pp_preemptive = False,
     pp_full_matching = False, pp_external = False\<rparr>"

definition properties_union :: "plan_properties \<Rightarrow> plan_properties \<Rightarrow> plan_properties" where
  "properties_union a b =
     \<lparr>pp_requirements = requirements_union (pp_requirements a) (pp_requirements b),
      pp_ordered = (pp_ordered a \<or> pp_ordered b),
      pp_preemptive = (pp_preemptive a \<or> pp_preemptive b),
      pp_full_matching = (pp_full_matching a \<or> pp_full_matching b),
      pp_external = (pp_external a \<or> pp_external b)\<rparr>"

section \<open>Compiled conditions\<close>

datatype regex_area = Area_Headers | Area_Body | Area_Message

record compiled_multipart_check =
  cmc_field :: multipart_field
  cmc_regex :: regex_program
  cmc_match_captures :: "usize list"
  cmc_capture_indexes :: "usize list"

datatype compiled_condition_kind =
    CC_ShellExpanded bytes "shell_expression option" regex_area bool
  | CC_HeaderRegex regex_program
  | CC_BodyRegex regex_program
  | CC_MessageRegex regex_program
  | CC_VariableRegex bytes regex_program
  | CC_AddressRegex "address_field list" regex_program
  | CC_IdentifierRegex "identifier_field list" regex_program
  | CC_KeywordRegex "keyword_field list" regex_program
  | CC_Multipart "compiled_multipart_check list"
  | CC_Program bytes condition_input
  | CC_SmallerThan usize
  | CC_LargerThan usize

record compiled_condition =
  cc_line :: usize
  cc_negated :: bool
  cc_kind :: compiled_condition_kind
  cc_match_captures :: "usize list"
  cc_capture_indexes :: "usize list"

fun area_of_input :: "condition_input \<Rightarrow> regex_area" where
  "area_of_input CI_Headers = Area_Headers"
| "area_of_input CI_Body = Area_Body"
| "area_of_input CI_Message = Area_Message"

fun area_input :: "regex_area \<Rightarrow> condition_input" where
  "area_input Area_Headers = CI_Headers"
| "area_input Area_Body = CI_Body"
| "area_input Area_Message = CI_Message"

fun area_regex :: "regex_area \<Rightarrow> regex_program \<Rightarrow> compiled_condition_kind" where
  "area_regex Area_Headers r = CC_HeaderRegex r"
| "area_regex Area_Body r = CC_BodyRegex r"
| "area_regex Area_Message r = CC_MessageRegex r"

fun condition_regex :: "condition_kind \<Rightarrow> regex_condition option" where
  "condition_regex (CK_Regex r) = Some r"
| "condition_regex (CK_AreaRegex area r) = Some r"
| "condition_regex (CK_VariableRegex name r) = Some r"
| "condition_regex (CK_AddressRegex fs r) = Some r"
| "condition_regex (CK_IdentifierRegex fs r) = Some r"
| "condition_regex (CK_KeywordRegex fs r) = Some r"
| "condition_regex _ = None"

definition compile_check :: "multipart_check \<Rightarrow> compiled_multipart_check" where
  "compile_check c =
     \<lparr>cmc_field = mc_field c, cmc_regex = rx_compiled (mc_regex c), cmc_match_captures = rx_match_captures (mc_regex c),
      cmc_capture_indexes = rx_capture_indexes (mc_regex c)\<rparr>"

fun compile_kind :: "regex_area \<Rightarrow> bool \<Rightarrow> condition_kind \<Rightarrow> compiled_condition_kind" where
  "compile_kind area cs (CK_ShellExpanded source expansion) = CC_ShellExpanded source expansion area cs"
| "compile_kind area cs (CK_SmallerThan n) = CC_SmallerThan n"
| "compile_kind area cs (CK_LargerThan n) = CC_LargerThan n"
| "compile_kind area cs (CK_Regex r) = area_regex area (rx_compiled r)"
| "compile_kind area cs (CK_AreaRegex input r) = area_regex (area_of_input input) (rx_compiled r)"
| "compile_kind area cs (CK_VariableRegex name r) = CC_VariableRegex name (rx_compiled r)"
| "compile_kind area cs (CK_AddressRegex fs r) = CC_AddressRegex fs (rx_compiled r)"
| "compile_kind area cs (CK_IdentifierRegex fs r) = CC_IdentifierRegex fs (rx_compiled r)"
| "compile_kind area cs (CK_KeywordRegex fs r) = CC_KeywordRegex fs (rx_compiled r)"
| "compile_kind area cs (CK_Multipart checks) = CC_Multipart (map compile_check checks)"
| "compile_kind area cs (CK_Program command) = CC_Program command (area_input area)"

definition compile_condition :: "regex_area \<Rightarrow> bool \<Rightarrow> condition \<Rightarrow> compiled_condition" where
  "compile_condition area case_sensitive c =
     \<lparr>cc_line = cd_line c, cc_negated = cd_negated c, cc_kind = compile_kind area case_sensitive (cd_kind c),
      cc_match_captures = (case condition_regex (cd_kind c) of Some r \<Rightarrow> rx_match_captures r | None \<Rightarrow> []),
      cc_capture_indexes = (case condition_regex (cd_kind c) of Some r \<Rightarrow> rx_capture_indexes r | None \<Rightarrow> [])\<rparr>"

definition compile_conditions :: "recipe_options \<Rightarrow> condition list \<Rightarrow> compiled_condition list" where
  "compile_conditions options conditions =
     map (compile_condition (area_of_input (ro_condition_input options)) (ro_case_mode options = Sensitive)) conditions"

fun kind_properties :: "compiled_condition_kind \<Rightarrow> input_requirements \<times> bool \<times> bool \<times> bool" where
  "kind_properties (CC_ShellExpanded _ _ _ _) = (requirements_all, True, True, True)"
| "kind_properties (CC_HeaderRegex _) = (requirements_none\<lparr>needs_headers := True\<rparr>, False, False, False)"
| "kind_properties (CC_AddressRegex _ _) = (requirements_none\<lparr>needs_headers := True\<rparr>, False, False, False)"
| "kind_properties (CC_IdentifierRegex _ _) = (requirements_none\<lparr>needs_headers := True\<rparr>, False, False, False)"
| "kind_properties (CC_KeywordRegex _ _) = (requirements_none\<lparr>needs_headers := True\<rparr>, False, False, False)"
| "kind_properties (CC_BodyRegex _) = (requirements_all, False, False, False)"
| "kind_properties (CC_Multipart _) = (requirements_all, False, False, False)"
| "kind_properties (CC_MessageRegex _) = (requirements_all, False, True, False)"
| "kind_properties (CC_VariableRegex _ _) = (requirements_none, False, False, False)"
| "kind_properties (CC_Program _ input) =
     ((case input of
         CI_Headers \<Rightarrow> requirements_none\<lparr>needs_headers := True, needs_end_of_message := True\<rparr>
       | _ \<Rightarrow> requirements_all), True, False, True)"
| "kind_properties (CC_SmallerThan _) = (requirements_none\<lparr>needs_end_of_message := True\<rparr>, False, False, False)"
| "kind_properties (CC_LargerThan _) = (requirements_none\<lparr>needs_end_of_message := True\<rparr>, False, False, False)"

definition condition_properties :: "compiled_condition \<Rightarrow> plan_properties" where
  "condition_properties c =
     (case kind_properties (cc_kind c) of
        (requirements, ordered, full, external) \<Rightarrow>
          \<lparr>pp_requirements = requirements, pp_ordered = ordered, pp_preemptive = ordered,
           pp_full_matching = full, pp_external = external\<rparr>)"

section \<open>The compiled tree\<close>

datatype compiled_statement =
    CS_Assignment assignment
  | CS_Unset unset
  | CS_CommandAssignment command_assignment
  | CS_Host assignment
  | CS_Include rc_file_expression
  | CS_Switch rc_file_expression

datatype compiled_sequence =
    Sequence (cq_recipes: "compiled_node list") (cq_trailing: "compiled_statement list") (cq_properties: plan_properties)
and compiled_node =
    Node (cn_line: usize) (cn_preceding: "compiled_statement list") (cn_lock: "path_expression option")
      (cn_control: control_flow) (cn_continuation: continuation_mode) (cn_child_status: child_status_mode)
      (cn_conditions: "compiled_condition list") (cn_action: compiled_action) (cn_properties: plan_properties)
and compiled_action =
    CA_Deliver destination continuation_mode output_ending
  | CA_Pipe bytes recipe_options
  | CA_Capture capture_action recipe_options
  | CA_Block compiled_sequence
  | CA_Headers "header_operation list"

definition ordered_properties :: "bool \<Rightarrow> plan_properties" where
  "ordered_properties b = properties_none\<lparr>pp_ordered := b, pp_preemptive := b\<rparr>"

fun statement_properties :: "compiled_statement \<Rightarrow> plan_properties" where
  "statement_properties (CS_CommandAssignment _) =
     \<lparr>pp_requirements = requirements_all, pp_ordered = True, pp_preemptive = True, pp_full_matching = False, pp_external = True\<rparr>"
| "statement_properties (CS_Assignment a) =
     (ordered_properties (as_target a = Target_LockFile \<or> as_target a = Target_Trap \<and> as_value a \<noteq> []))
       \<lparr>pp_external := (as_target a = Target_Trap)\<rparr>"
| "statement_properties (CS_Unset u) = ordered_properties (un_target u = Target_LockFile)"
| "statement_properties (CS_Include _) = properties_none\<lparr>pp_full_matching := True\<rparr>"
| "statement_properties (CS_Switch _) = properties_none\<lparr>pp_full_matching := True\<rparr>"
| "statement_properties (CS_Host _) = properties_none"

definition statements_properties :: "compiled_statement list \<Rightarrow> plan_properties" where
  "statements_properties ss = fold (\<lambda>s p. properties_union p (statement_properties s)) ss properties_none"

definition deliver_properties :: "destination \<Rightarrow> plan_properties" where
  "deliver_properties d =
     (let command = (command_expression d \<noteq> None);
          ordered = (needs_runtime_variables d \<or> destination_requires_ordered_delivery d)
      in \<lparr>pp_requirements = (if command then requirements_all else requirements_none), pp_ordered = ordered,
          pp_preemptive = ordered, pp_full_matching = False, pp_external = command\<rparr>)"

fun action_properties :: "compiled_action \<Rightarrow> plan_properties" where
  "action_properties (CA_Pipe command _) =
     \<lparr>pp_requirements = requirements_all, pp_ordered = True, pp_preemptive = True, pp_full_matching = False,
      pp_external = (command \<noteq> [])\<rparr>"
| "action_properties (CA_Capture _ options) =
     (if ro_action_input options = AI_Headers
      then properties_none\<lparr>pp_requirements := requirements_none\<lparr>needs_headers := True\<rparr>, pp_ordered := True, pp_external := True\<rparr>
      else \<lparr>pp_requirements = requirements_all, pp_ordered = True, pp_preemptive = True, pp_full_matching = False,
            pp_external = True\<rparr>)"
| "action_properties (CA_Deliver d _ _) = deliver_properties d"
| "action_properties (CA_Block s) = cq_properties s"
| "action_properties (CA_Headers _) =
     properties_none\<lparr>pp_requirements := requirements_none\<lparr>needs_headers := True\<rparr>, pp_ordered := True\<rparr>"

fun header_action_result_is_known :: "compiled_action \<Rightarrow> bool" where
  "header_action_result_is_known (CA_Capture _ options) \<longleftrightarrow> ro_action_input options = AI_Headers"
| "header_action_result_is_known (CA_Headers _) \<longleftrightarrow> True"
| "header_action_result_is_known _ \<longleftrightarrow> False"

definition follows_result :: "control_flow \<Rightarrow> bool" where
  "follows_result control \<longleftrightarrow> control \<in> {AfterPreviousSuccess, AfterPreviousError}"

definition is_block :: "compiled_action \<Rightarrow> bool" where
  "is_block a \<longleftrightarrow> (case a of CA_Block _ \<Rightarrow> True | _ \<Rightarrow> False)"

text \<open>\<open>CompiledNode::compile\<close> after its action, and \<open>CompiledSequence::compile\<close> after its recipes.\<close>

definition make_node :: "usize \<Rightarrow> recipe_options \<Rightarrow> path_expression option \<Rightarrow> compiled_condition list \<Rightarrow>
    compiled_statement list \<Rightarrow> compiled_action \<Rightarrow> compiled_node" where
  "make_node line options lock conditions preceding action =
     (let copies = (is_block action \<and> ro_continuation options = Cont_Continue);
          p0 = action_properties action;
          p1 = (if copies then p0\<lparr>pp_ordered := True, pp_preemptive := True\<rparr> else p0);
          p2 = fold (\<lambda>c p. properties_union p (condition_properties c)) conditions p1;
          p3 = properties_union p2 (statements_properties preceding);
          p4 = (if lock \<noteq> None then p3\<lparr>pp_ordered := True, pp_preemptive := True\<rparr> else p3)
      in Node line preceding lock (ro_control options) (ro_continuation options) (ro_child_status options) conditions action p4)"

fun adjacent :: "('a \<Rightarrow> 'a \<Rightarrow> bool) \<Rightarrow> 'a list \<Rightarrow> bool" where
  "adjacent P (x # y # xs) \<longleftrightarrow> P x y \<or> adjacent P (y # xs)"
| "adjacent P _ \<longleftrightarrow> False"

definition make_sequence :: "compiled_node list \<Rightarrow> compiled_statement list \<Rightarrow> compiled_sequence" where
  "make_sequence recipes trailing =
     (let p = properties_union (fold (\<lambda>r p. properties_union p (cn_properties r)) recipes properties_none)
                (statements_properties trailing);
          ordered = list_ex (\<lambda>r. follows_result (cn_control r)) (tl recipes);
          preemptive = adjacent (\<lambda>r s. follows_result (cn_control s) \<and> \<not> header_action_result_is_known (cn_action r)) recipes
      in Sequence recipes trailing
           (p\<lparr>pp_ordered := pp_ordered p \<or> ordered, pp_preemptive := pp_preemptive p \<or> preemptive\<rparr>))"

fun compile_simple :: "statement \<Rightarrow> compiled_statement option" where
  "compile_simple (St_Assignment a) = Some (if as_target a = Target_Host then CS_Host a else CS_Assignment a)"
| "compile_simple (St_Unset u) = Some (CS_Unset u)"
| "compile_simple (St_CommandAssignment a) = Some (CS_CommandAssignment a)"
| "compile_simple (St_Include e) = Some (CS_Include e)"
| "compile_simple (St_Switch e) = Some (CS_Switch e)"
| "compile_simple (St_Recipe r) = None"

function (sequential) compile_recipes ::
    "statement list \<Rightarrow> compiled_statement list \<Rightarrow> compiled_node list \<times> compiled_statement list"
and compile_node :: "recipe \<Rightarrow> compiled_statement list \<Rightarrow> compiled_node"
and compile_action :: "recipe_options \<Rightarrow> recipe_action \<Rightarrow> compiled_action"
where
  "compile_recipes [] preceding = ([], preceding)"
| "compile_recipes (St_Recipe r # ss) preceding =
     (case compile_recipes ss [] of (nodes, trailing) \<Rightarrow> (compile_node r preceding # nodes, trailing))"
| "compile_recipes (s # ss) preceding =
     (case compile_simple s of
        Some c \<Rightarrow> compile_recipes ss (preceding @ [c])
      | None \<Rightarrow> compile_recipes ss preceding)"
| "compile_node (Recipe line action_line options lock conditions action) preceding =
     make_node line options lock (compile_conditions options conditions) preceding (compile_action options action)"
| "compile_action options (Act_Pipe command) = CA_Pipe command options"
| "compile_action options (Act_Capture action) = CA_Capture action options"
| "compile_action options (Act_Deliver d) = CA_Deliver d (ro_continuation options) (ro_output_ending options)"
| "compile_action options (Act_Block ss) =
     CA_Block (case compile_recipes ss [] of (nodes, trailing) \<Rightarrow> make_sequence nodes trailing)"
| "compile_action options (Act_Headers ops) = CA_Headers ops"
  by pat_completeness auto
termination
  by (relation "measure (\<lambda>x. case x of
        Inl (ss, preceding) \<Rightarrow> size_list size ss
      | Inr (Inl (r, preceding)) \<Rightarrow> size r
      | Inr (Inr (options, a)) \<Rightarrow> size a)") auto

definition compile_sequence :: "statement list \<Rightarrow> compiled_statement list \<Rightarrow> compiled_sequence" where
  "compile_sequence ss preceding =
     (case compile_recipes ss preceding of (nodes, trailing) \<Rightarrow> make_sequence nodes trailing)"

section \<open>Queries\<close>

definition sequence_requirements :: "compiled_sequence \<Rightarrow> input_requirements" where
  "sequence_requirements s = pp_requirements (cq_properties s)"

definition requirements_from :: "compiled_sequence \<Rightarrow> usize \<Rightarrow> input_requirements" where
  "requirements_from s start =
     (let recipes = drop start (cq_recipes s);
          r = requirements_union
                (fold (\<lambda>n q. requirements_union q (pp_requirements (cn_properties n))) recipes requirements_none)
                (pp_requirements (statements_properties (cq_trailing s)))
      in if list_ex (\<lambda>n. pp_ordered (cn_properties n)) recipes
         then requirements_union r (requirements_none\<lparr>needs_end_of_message := True\<rparr>) else r)"

definition has_error_handler :: "compiled_sequence \<Rightarrow> usize \<Rightarrow> bool" where
  "has_error_handler s index \<longleftrightarrow>
     index + 1 < length (cq_recipes s) \<and> cn_control (cq_recipes s ! (index + 1)) = AfterPreviousError"

section \<open>Explanations\<close>

datatype condition_kind_explanation =
    XK_ShellExpanded | XK_HeaderRegex | XK_BodyRegex | XK_MessageRegex | XK_VariableRegex | XK_Address | XK_Identifier
  | XK_Keyword | XK_Multipart | XK_Program | XK_SmallerThan | XK_LargerThan

record condition_explanation =
  cx_negated :: bool
  cx_kind :: condition_kind_explanation

fun explain_kind :: "compiled_condition_kind \<Rightarrow> condition_kind_explanation" where
  "explain_kind (CC_ShellExpanded _ _ _ _) = XK_ShellExpanded"
| "explain_kind (CC_HeaderRegex _) = XK_HeaderRegex"
| "explain_kind (CC_AddressRegex _ _) = XK_Address"
| "explain_kind (CC_IdentifierRegex _ _) = XK_Identifier"
| "explain_kind (CC_KeywordRegex _ _) = XK_Keyword"
| "explain_kind (CC_Multipart _) = XK_Multipart"
| "explain_kind (CC_BodyRegex _) = XK_BodyRegex"
| "explain_kind (CC_MessageRegex _) = XK_MessageRegex"
| "explain_kind (CC_VariableRegex _ _) = XK_VariableRegex"
| "explain_kind (CC_Program _ _) = XK_Program"
| "explain_kind (CC_SmallerThan _) = XK_SmallerThan"
| "explain_kind (CC_LargerThan _) = XK_LargerThan"

definition explain_condition :: "compiled_condition \<Rightarrow> condition_explanation" where
  "explain_condition c = \<lparr>cx_negated = cc_negated c, cx_kind = explain_kind (cc_kind c)\<rparr>"

datatype action_kind_explanation = XA_Maildir | XA_Mbox | XA_File | XA_Discard | XA_ExternalProgram | XA_Headers

record header_operation_explanation =
  ho_remove :: usize
  ho_set :: usize
  ho_add :: usize
  ho_prepend :: usize
  ho_rename :: usize
  ho_extract :: usize
  ho_keywords :: usize
  ho_priority :: usize
  ho_status :: usize

fun count_operation :: "header_operation \<Rightarrow> header_operation_explanation \<Rightarrow> header_operation_explanation" where
  "count_operation (Op_Remove _ _) x = x\<lparr>ho_remove := ho_remove x + 1\<rparr>"
| "count_operation (Op_Set _ _ _) x = x\<lparr>ho_set := ho_set x + 1\<rparr>"
| "count_operation (Op_Add _ _ _) x = x\<lparr>ho_add := ho_add x + 1\<rparr>"
| "count_operation (Op_Prepend _ _ _) x = x\<lparr>ho_prepend := ho_prepend x + 1\<rparr>"
| "count_operation (Op_Rename _ _ _) x = x\<lparr>ho_rename := ho_rename x + 1\<rparr>"
| "count_operation (Op_Extract _ _ _ _) x = x\<lparr>ho_extract := ho_extract x + 1\<rparr>"
| "count_operation (Op_Keywords _ _) x = x\<lparr>ho_keywords := ho_keywords x + 1\<rparr>"
| "count_operation (Op_Priority _ _) x = x\<lparr>ho_priority := ho_priority x + 1\<rparr>"
| "count_operation (Op_Status _ _) x = x\<lparr>ho_status := ho_status x + 1\<rparr>"

definition no_operations :: header_operation_explanation where
  "no_operations = \<lparr>ho_remove = 0, ho_set = 0, ho_add = 0, ho_prepend = 0, ho_rename = 0, ho_extract = 0, ho_keywords = 0,
     ho_priority = 0, ho_status = 0\<rparr>"

record recipe_explanation =
  re_line :: usize
  re_assignment_count :: usize
  re_conditions :: "condition_explanation list"
  re_action :: action_kind_explanation
  re_header_operations :: "header_operation_explanation option"
  re_copy :: bool
  re_defers_destination :: bool

fun explain_destination :: "destination_kind \<Rightarrow> action_kind_explanation" where
  "explain_destination Kind_Maildir = XA_Maildir"
| "explain_destination Kind_Mbox = XA_Mbox"
| "explain_destination Kind_File = XA_File"
| "explain_destination Kind_Discard = XA_Discard"

fun collect_explanations :: "condition_explanation list \<Rightarrow> usize \<Rightarrow> compiled_sequence \<Rightarrow> recipe_explanation list"
and explain_node :: "condition_explanation list \<Rightarrow> usize \<Rightarrow> compiled_node \<Rightarrow> recipe_explanation list"
and explain_action :: "usize \<Rightarrow> condition_explanation list \<Rightarrow> usize \<Rightarrow> compiled_action \<Rightarrow> recipe_explanation list"
where
  "collect_explanations inherited n (Sequence recipes trailing p) = concat (map (explain_node inherited n) recipes)"
| "explain_node inherited n (Node line preceding lock control cont status conditions action p) =
     explain_action line (inherited @ map explain_condition conditions) (n + length preceding) action"
| "explain_action line conditions n (CA_Pipe _ _) =
     [\<lparr>re_line = line, re_assignment_count = n, re_conditions = conditions, re_action = XA_ExternalProgram,
       re_header_operations = None, re_copy = False, re_defers_destination = True\<rparr>]"
| "explain_action line conditions n (CA_Capture _ _) =
     [\<lparr>re_line = line, re_assignment_count = n, re_conditions = conditions, re_action = XA_ExternalProgram,
       re_header_operations = None, re_copy = False, re_defers_destination = True\<rparr>]"
| "explain_action line conditions n (CA_Deliver d cont ending) =
     [\<lparr>re_line = line, re_assignment_count = n, re_conditions = conditions, re_action = explain_destination (destination_kind_of d),
       re_header_operations = None, re_copy = (cont = Cont_Continue), re_defers_destination = needs_runtime_variables d\<rparr>]"
| "explain_action line conditions n (CA_Block s) = collect_explanations conditions n s"
| "explain_action line conditions n (CA_Headers ops) =
     [\<lparr>re_line = line, re_assignment_count = n, re_conditions = conditions, re_action = XA_Headers,
       re_header_operations = Some (fold count_operation ops no_operations), re_copy = False,
       re_defers_destination = False\<rparr>]"

section \<open>Control flow between recipes\<close>

datatype action_execution = NotAttempted | Succeeded | Failed

record recipe_execution =
  rex_conditions_matched :: bool
  rex_else_handled :: bool
  rex_result :: action_execution

record sequence_state =
  ss_previous :: "recipe_execution option"
  ss_chain_base_matched :: "bool option"

definition state_default :: sequence_state where
  "state_default = \<lparr>ss_previous = None, ss_chain_base_matched = None\<rparr>"

definition record_recipe :: "control_flow \<Rightarrow> bool \<Rightarrow> action_execution \<Rightarrow> bool \<Rightarrow> sequence_state \<Rightarrow> sequence_state" where
  "record_recipe control conditions_matched action else_handled state =
     \<lparr>ss_previous = Some \<lparr>rex_conditions_matched = conditions_matched, rex_else_handled = else_handled, rex_result = action\<rparr>,
      ss_chain_base_matched =
        (if control \<in> {AfterChainMatch, AfterPreviousSuccess} then ss_chain_base_matched state else Some conditions_matched)\<rparr>"

definition execution_gate :: "control_flow \<Rightarrow> sequence_state \<Rightarrow> bool" where
  "execution_gate control state =
     (case control of
        Independent \<Rightarrow> True
      | AfterChainMatch \<Rightarrow> ss_chain_base_matched state = Some True
      | AfterPreviousSuccess \<Rightarrow>
          (case ss_previous state of Some r \<Rightarrow> rex_conditions_matched r \<and> rex_result r = Succeeded | None \<Rightarrow> False)
      | Else \<Rightarrow> (case ss_previous state of Some r \<Rightarrow> \<not> rex_else_handled r | None \<Rightarrow> True)
      | AfterPreviousError \<Rightarrow> (case ss_previous state of Some r \<Rightarrow> rex_result r = Failed | None \<Rightarrow> False))"

definition else_handled :: "control_flow \<Rightarrow> sequence_state \<Rightarrow> bool \<Rightarrow> bool" where
  "else_handled control state conditions_matched =
     (if control = Else
      then (case ss_previous state of Some r \<Rightarrow> rex_else_handled r | None \<Rightarrow> False) \<or> conditions_matched
      else conditions_matched)"

section \<open>Features of a plan\<close>

text \<open>A feature is a property of plans that a union has when one of its parts has it.\<close>

locale plan_feature =
  fixes has :: "plan_properties \<Rightarrow> bool"
  assumes none [simp]: "\<not> has properties_none"
    and union [simp]: "has (properties_union a b) \<longleftrightarrow> has a \<or> has b"
    and ordered [simp]: "has (p\<lparr>pp_ordered := x\<rparr>) \<longleftrightarrow> has p"
    and preemptive [simp]: "has (p\<lparr>pp_preemptive := x\<rparr>) \<longleftrightarrow> has p"
begin

lemma fold_union: "has (fold (\<lambda>x p. properties_union p (f x)) xs p) \<longleftrightarrow> has p \<or> (\<exists>x \<in> set xs. has (f x))"
  by (induction xs arbitrary: p) auto

end

interpretation plan_headers: plan_feature "\<lambda>p. needs_headers (pp_requirements p)"
  by unfold_locales (simp_all add: properties_none_def requirements_none_def properties_union_def requirements_union_def)

interpretation plan_body: plan_feature "\<lambda>p. needs_body_contents (pp_requirements p)"
  by unfold_locales (simp_all add: properties_none_def requirements_none_def properties_union_def requirements_union_def)

interpretation plan_end: plan_feature "\<lambda>p. needs_end_of_message (pp_requirements p)"
  by unfold_locales (simp_all add: properties_none_def requirements_none_def properties_union_def requirements_union_def)

interpretation plan_full: plan_feature pp_full_matching
  by unfold_locales (simp_all add: properties_none_def properties_union_def)

interpretation plan_external: plan_feature pp_external
  by unfold_locales (simp_all add: properties_none_def properties_union_def)

text \<open>The properties of every condition, statement and action of a tree, blocks at any depth included.\<close>

fun sequence_parts :: "compiled_sequence \<Rightarrow> plan_properties list"
and node_parts :: "compiled_node \<Rightarrow> plan_properties list"
and action_parts :: "compiled_action \<Rightarrow> plan_properties list"
where
  "sequence_parts (Sequence recipes trailing p) = concat (map node_parts recipes) @ map statement_properties trailing"
| "node_parts (Node line preceding lock control cont status conditions action p) =
     map condition_properties conditions @ map statement_properties preceding @ action_parts action"
| "action_parts (CA_Block s) = sequence_parts s"
| "action_parts a = [action_properties a]"

context plan_feature
begin

lemma statements: "has (statements_properties ss) \<longleftrightarrow> (\<exists>s \<in> set ss. has (statement_properties s))"
  by (simp add: statements_properties_def fold_union)

lemma make_node_iff:
  "has (cn_properties (make_node line options lock conditions preceding action)) \<longleftrightarrow>
     has (action_properties action) \<or> (\<exists>c \<in> set conditions. has (condition_properties c)) \<or>
     (\<exists>s \<in> set preceding. has (statement_properties s))"
  by (auto simp: make_node_def Let_def fold_union statements)

lemma make_sequence_iff:
  "has (cq_properties (make_sequence nodes trailing)) \<longleftrightarrow>
     (\<exists>n \<in> set nodes. has (cn_properties n)) \<or> (\<exists>s \<in> set trailing. has (statement_properties s))"
  by (auto simp: make_sequence_def Let_def fold_union statements)

lemma sequence_parts_make:
  "set (sequence_parts (make_sequence nodes trailing)) =
     (\<Union>n \<in> set nodes. set (node_parts n)) \<union> statement_properties ` set trailing"
  by (auto simp: make_sequence_def Let_def)

lemma compiled_parts:
  shows "compile_recipes ss preceding = (nodes, trailing) \<Longrightarrow>
      n \<in> set nodes \<Longrightarrow> has (cn_properties n) \<longleftrightarrow> (\<exists>p \<in> set (node_parts n). has p)"
    and "has (cn_properties (compile_node r preceding)) \<longleftrightarrow> (\<exists>p \<in> set (node_parts (compile_node r preceding)). has p)"
    and "has (action_properties (compile_action options a)) \<longleftrightarrow> (\<exists>p \<in> set (action_parts (compile_action options a)). has p)"
proof (induction ss preceding and r preceding and options a arbitrary: nodes trailing n
    rule: compile_recipes_compile_node_compile_action.induct)
  case (2 r ss preceding)
  obtain nodes' trailing' where run: "compile_recipes ss [] = (nodes', trailing')" by (cases "compile_recipes ss []")
  have "nodes = compile_node r preceding # nodes'" using "2.prems"(1) by (simp add: run)
  then show ?case using "2.prems"(2) "2.IH"(1) [OF run, of n] "2.IH"(2) [OF run [symmetric]] by (metis set_ConsD)
next
  case (8 options ss)
  obtain nodes trailing where run: "compile_recipes ss [] = (nodes, trailing)" by (cases "compile_recipes ss []")
  show ?case using 8 [OF run] by (auto simp: run make_sequence_iff sequence_parts_make)
next
  case (4 line action_line options lock conditions action preceding)
  then show ?case unfolding compile_node.simps make_node_iff by (auto simp: make_node_def Let_def)
qed (auto split: prod.splits)

lemma compiled_sequence_iff:
  "has (cq_properties (compile_sequence ss preceding)) \<longleftrightarrow> (\<exists>p \<in> set (sequence_parts (compile_sequence ss preceding)). has p)"
proof -
  obtain nodes trailing where run: "compile_recipes ss preceding = (nodes, trailing)" by (cases "compile_recipes ss preceding")
  show ?thesis
    using compiled_parts(1) [OF run] by (auto simp: compile_sequence_def run make_sequence_iff sequence_parts_make)
qed

end

text \<open>
  C21. A plan asks of the message exactly what its parts need: it needs the header, the contents of the
  body, the end of the message, the full view for matching, or external commands if and only if some
  condition, statement or action of the tree does, in blocks nested to any depth.
\<close>

theorem plan_requirements_exact:
  "let s = compile_sequence ss preceding; p = cq_properties s; parts = set (sequence_parts s)
   in (needs_headers (pp_requirements p) \<longleftrightarrow> (\<exists>q \<in> parts. needs_headers (pp_requirements q))) \<and>
      (needs_body_contents (pp_requirements p) \<longleftrightarrow> (\<exists>q \<in> parts. needs_body_contents (pp_requirements q))) \<and>
      (needs_end_of_message (pp_requirements p) \<longleftrightarrow> (\<exists>q \<in> parts. needs_end_of_message (pp_requirements q))) \<and>
      (pp_full_matching p \<longleftrightarrow> (\<exists>q \<in> parts. pp_full_matching q)) \<and>
      (pp_external p \<longleftrightarrow> (\<exists>q \<in> parts. pp_external q))"
  by (simp add: Let_def plan_headers.compiled_sequence_iff plan_body.compiled_sequence_iff plan_end.compiled_sequence_iff
      plan_full.compiled_sequence_iff plan_external.compiled_sequence_iff)

section \<open>Chains of recipes\<close>

text \<open>Which recipes of a sequence run, given the outcome of their conditions and of their actions.\<close>

fun select_chain :: "sequence_state \<Rightarrow> (control_flow \<times> bool \<times> action_execution) list \<Rightarrow> bool list" where
  "select_chain st [] = []"
| "select_chain st ((control, matches, action) # rs) =
     (let m = (execution_gate control st \<and> matches)
      in m # select_chain (record_recipe control m (if m then action else NotAttempted) (else_handled control st m) st) rs)"

text \<open>Of a list of outcomes, the first that holds.\<close>

fun first_only :: "bool list \<Rightarrow> bool list" where
  "first_only [] = []"
| "first_only (k # ks) = k # (if k then map (\<lambda>_. False) ks else first_only ks)"

lemma else_tail:
  "ss_previous st = Some r \<Longrightarrow>
   select_chain st (map (\<lambda>(k, a). (Else, k, a)) rest) =
     (if rex_else_handled r then map (\<lambda>_. False) rest else first_only (map fst rest))"
proof (induction rest arbitrary: st r)
  case (Cons x rest)
  obtain k a where x: "x = (k, a)" by (cases x)
  let ?m = "\<not> rex_else_handled r \<and> k"
  define st' where "st' = record_recipe Else ?m (if ?m then a else NotAttempted) (else_handled Else st ?m) st"
  have st': "ss_previous st' = Some \<lparr>rex_conditions_matched = ?m, rex_else_handled = (rex_else_handled r \<or> k),
      rex_result = (if ?m then a else NotAttempted)\<rparr>"
    using Cons.prems by (auto simp: st'_def record_recipe_def else_handled_def)
  have gate: "execution_gate Else st \<longleftrightarrow> \<not> rex_else_handled r" using Cons.prems by (simp add: execution_gate_def)
  have "select_chain st (map (\<lambda>(k, a). (Else, k, a)) (x # rest)) =
      ?m # select_chain st' (map (\<lambda>(k, a). (Else, k, a)) rest)"
    by (simp add: x gate st'_def Let_def)
  then show ?case using Cons.IH [OF st'] by (simp add: x)
qed simp

lemma chain_tail:
  "ss_chain_base_matched st = Some b \<Longrightarrow>
   select_chain st (map (\<lambda>(k, a). (AfterChainMatch, k, a)) rest) = map (\<lambda>(k, a). b \<and> k) rest"
proof (induction rest arbitrary: st)
  case (Cons x rest)
  obtain k a where x: "x = (k, a)" by (cases x)
  have "ss_chain_base_matched (record_recipe AfterChainMatch m r e st) = Some b" for m r e
    using Cons.prems by (simp add: record_recipe_def)
  from Cons.IH [OF this] show ?case using Cons.prems by (simp add: x Let_def execution_gate_def)
qed simp

text \<open>
  C22. The chains of recipes.  Of a recipe and the \<open>E\<close> recipes that follow it, exactly the first whose
  conditions match runs, as in if, else if and else; the \<open>A\<close> recipes that follow a recipe run, each
  by its own conditions, when that recipe's conditions matched and never otherwise, whatever the
  recipes between did.
\<close>

theorem recipe_chains:
  assumes "control \<notin> {Else, AfterChainMatch, AfterPreviousSuccess}"
  shows "select_chain st ((control, k, a) # map (\<lambda>(k, a). (Else, k, a)) rest) =
      first_only ((execution_gate control st \<and> k) # map fst rest) \<and>
    select_chain st ((control, k, a) # map (\<lambda>(k, a). (AfterChainMatch, k, a)) rest) =
      (execution_gate control st \<and> k) # map (\<lambda>(k', a). execution_gate control st \<and> k \<and> k') rest"
proof -
  define m where "m = (execution_gate control st \<and> k)"
  define st' where "st' = record_recipe control m (if m then a else NotAttempted) (else_handled control st m) st"
  have prev: "ss_previous st' = Some \<lparr>rex_conditions_matched = m, rex_else_handled = m, rex_result = (if m then a else NotAttempted)\<rparr>"
    using assms by (simp add: st'_def record_recipe_def else_handled_def)
  have chain: "ss_chain_base_matched st' = Some m" using assms by (auto simp: st'_def record_recipe_def)
  have "select_chain st ((control, k, a) # rs) = m # select_chain st' rs" for rs
    by (simp add: Let_def m_def st'_def)
  then show ?thesis
    using else_tail [OF prev, of rest] chain_tail [OF chain, of rest] unfolding m_def [symmetric]
    by (auto simp: m_def split: prod.splits)
qed

theorem recipe_chains_witness:
  "select_chain state_default
     ((Independent, False, Succeeded) # map (\<lambda>(k, a). (Else, k, a)) [(True, Failed), (True, Succeeded)]) = [False, True, False]"
  by (subst recipe_chains [THEN conjunct1]) simp_all

end
