(* ===== verification/Eval_Message.thy ===== *)
theory Eval_Message
  imports Message_Reader
begin

text \<open>
  The message as the evaluator sees it, \<open>src/eval/message.rs\<close>: the mapped input with its views for
  matching, the versions of the message that filters and header edits leave behind, and the views
  that conditions, actions and deliveries read.  The cache \<open>OwnedCompleteMessage::matching\<close> holds the value
  of a pure function and is not state of the model; the variants of the test configuration are left out.
\<close>

section \<open>Input\<close>

record matching_view =
  mv_header :: bytes
  mv_full :: "bytes option"

definition from_normalized_parts :: "bytes \<Rightarrow> bytes option \<Rightarrow> matching_view" where
  "from_normalized_parts header full = \<lparr>mv_header = header, mv_full = full\<rparr>"

text \<open>\<open>PreparedMatchingMessage\<close> owns the full view, when one is needed and the header was changed.\<close>

definition prepared_new :: "message \<Rightarrow> bool \<Rightarrow> bytes option" where
  "prepared_new m needs_full = (if needs_full then matching_message m else None)"

definition prepared_views :: "bytes option \<Rightarrow> message \<Rightarrow> matching_view" where
  "prepared_views full m = from_normalized_parts (message_matching_header m) full"

record mapped_message_input =
  mi_raw :: bytes
  mi_header_len :: usize
  mi_matching :: "matching_view option"

definition matching_views_are_valid :: "usize \<Rightarrow> usize \<Rightarrow> bytes option \<Rightarrow> bytes option \<Rightarrow> bool \<Rightarrow> bool" where
  "matching_views_are_valid raw_len header_len matching_header matching_raw needs_matching_raw =
     (case (matching_header, matching_raw) of
        (None, None) \<Rightarrow> True
      | (Some _, None) \<Rightarrow> \<not> needs_matching_raw
      | (Some header, Some full) \<Rightarrow> checked_add (length header) (raw_len - header_len) = Some (length full)
      | (None, Some _) \<Rightarrow> False)"

section \<open>Versions\<close>

datatype body_backing = Original bytes | Filter message

fun backing_bytes :: "body_backing \<Rightarrow> bytes" where
  "backing_bytes (Original bs) = bs"
| "backing_bytes (Filter m) = message_body m"

datatype message_version = Whole message | Headers message_head body_backing usize

fun version_header_view :: "message_version \<Rightarrow> header_view" where
  "version_header_view (Whole m) = View_Raw (message_header m)"
| "version_header_view (Headers head b n) = head_view head"

fun version_header :: "message_version \<Rightarrow> bytes" where
  "version_header (Whole m) = message_header m"
| "version_header (Headers head b n) = head_as_bytes head"

fun version_matching_header :: "message_version \<Rightarrow> bytes" where
  "version_matching_header (Whole m) = message_matching_header m"
| "version_matching_header (Headers head b n) = head_matching_header head"

fun version_body :: "message_version \<Rightarrow> bytes" where
  "version_body (Whole m) = message_body m"
| "version_body (Headers head b n) = backing_bytes b"

fun version_len :: "message_version \<Rightarrow> usize" where
  "version_len (Whole m) = length (m_raw m)"
| "version_len (Headers head b n) = n"

fun version_status :: "message_version \<Rightarrow> message_status" where
  "version_status (Whole m) = STATUS_NONE"
| "version_status (Headers head b n) = head_status head"

definition version_full :: "message_version \<Rightarrow> bytes" where
  "version_full v =
     (case v of
        Whole m \<Rightarrow>
          if version_header v = version_matching_header v then m_raw m
          else version_matching_header v @ version_body v
      | Headers _ _ _ \<Rightarrow> version_matching_header v @ version_body v)"

section \<open>The current message\<close>

type_synonym current_message = "message_version option"

definition cm_replace :: "message \<Rightarrow> action_input \<Rightarrow> current_message \<Rightarrow> current_message" where
  "cm_replace m area current =
     Some (case (area, current) of
             (AI_Body, Some (Headers head _ _)) \<Rightarrow> Headers head (Filter m) (length (m_raw m))
           | _ \<Rightarrow> Whole m)"

definition body_owner :: "current_message \<Rightarrow> bytes \<Rightarrow> body_backing" where
  "body_owner current original_body =
     (case current of
        Some (Whole m) \<Rightarrow> Filter m
      | Some (Headers _ b _) \<Rightarrow> b
      | None \<Rightarrow> Original original_body)"

definition cm_replace_header ::
    "edited_header \<Rightarrow> bytes \<Rightarrow> message_limits \<Rightarrow> current_message \<Rightarrow> header_edit_error + current_message" where
  "cm_replace_header edited original_body limits current =
     (let b = body_owner current original_body
      in case from_edited_header edited (length (backing_bytes b)) limits of
           Inl e \<Rightarrow> Inl e
         | Inr head \<Rightarrow>
             (case checked_add (head_len head) (length (backing_bytes b)) of
                None \<Rightarrow> Inl SizeOverflow
              | Some n \<Rightarrow> Inr (Some (Headers head b n))))"

section \<open>Views\<close>

datatype complete_message =
    Owned message_version
  | Mapped bytes usize "bytes option" "bytes option"

definition complete_message_of :: "mapped_message_input \<Rightarrow> bool \<Rightarrow> complete_message option" where
  "complete_message_of input needs_matching_raw =
     (if mi_header_len input > length (mi_raw input) then None
      else
        let (matching_header, matching_raw) =
          (case mi_matching input of Some v \<Rightarrow> (Some (mv_header v), mv_full v) | None \<Rightarrow> (None, None))
        in if matching_views_are_valid (length (mi_raw input)) (mi_header_len input) matching_header matching_raw
             needs_matching_raw
           then Some (Mapped (mi_raw input) (mi_header_len input) matching_header matching_raw) else None)"

definition cm_view :: "current_message \<Rightarrow> complete_message \<Rightarrow> complete_message" where
  "cm_view current original = (case current of Some v \<Rightarrow> Owned v | None \<Rightarrow> original)"

fun raw_header :: "complete_message \<Rightarrow> bytes" where
  "raw_header (Owned v) = version_header v"
| "raw_header (Mapped bs n h f) = take n bs"

fun complete_header_view :: "complete_message \<Rightarrow> header_view" where
  "complete_header_view (Owned v) = version_header_view v"
| "complete_header_view (Mapped bs n h f) = View_Raw (take n bs)"

fun header_bytes :: "complete_message \<Rightarrow> bytes" where
  "header_bytes (Owned v) = version_matching_header v"
| "header_bytes (Mapped bs n h f) = (case h of Some m \<Rightarrow> m | None \<Rightarrow> take n bs)"

fun complete_body :: "complete_message \<Rightarrow> bytes option" where
  "complete_body (Owned v) = Some (version_body v)"
| "complete_body (Mapped bs n h f) = Some (drop n bs)"

fun complete_full :: "complete_message \<Rightarrow> bytes option" where
  "complete_full (Owned v) = Some (version_full v)"
| "complete_full (Mapped bs n h f) = Some (case f of Some m \<Rightarrow> m | None \<Rightarrow> bs)"

fun complete_len :: "complete_message \<Rightarrow> usize" where
  "complete_len (Owned v) = version_len v"
| "complete_len (Mapped bs n h f) = length bs"

fun complete_status :: "complete_message \<Rightarrow> message_status" where
  "complete_status (Owned v) = version_status v"
| "complete_status (Mapped bs n h f) = STATUS_NONE"

datatype final_message = Final_Bytes bytes | Final_Version message_version

fun final_new :: "complete_message \<Rightarrow> final_message option" where
  "final_new (Owned v) = Some (Final_Version v)"
| "final_new (Mapped bs n h f) = Some (Final_Bytes bs)"

fun final_len :: "final_message \<Rightarrow> usize" where
  "final_len (Final_Bytes bs) = length bs"
| "final_len (Final_Version v) = version_len v"

fun final_bytes :: "final_message \<Rightarrow> message_bytes" where
  "final_bytes (Final_Bytes bs) = (bs, [])"
| "final_bytes (Final_Version v) = mb_new (version_header v) (version_body v)"

fun final_status :: "final_message \<Rightarrow> message_status" where
  "final_status (Final_Bytes bs) = STATUS_NONE"
| "final_status (Final_Version v) = version_status v"

definition select_action_input :: "complete_message \<Rightarrow> action_input \<Rightarrow> message_bytes option" where
  "select_action_input m area =
     (case area of
        AI_Message \<Rightarrow> map_option final_bytes (final_new m)
      | AI_Headers \<Rightarrow> Some (raw_header m, [])
      | AI_Body \<Rightarrow> map_option (\<lambda>b. (b, [])) (complete_body m))"

definition program_input :: "complete_message \<Rightarrow> condition_input \<Rightarrow> message_bytes option" where
  "program_input m area =
     (case area of
        CI_Headers \<Rightarrow> Some (raw_header m, [])
      | CI_Body \<Rightarrow> map_option (\<lambda>b. (b, [])) (complete_body m)
      | CI_Message \<Rightarrow> map_option final_bytes (final_new m))"

definition matching_input :: "complete_message \<Rightarrow> condition_input \<Rightarrow> bytes option" where
  "matching_input m area =
     (case area of
        CI_Headers \<Rightarrow> Some (header_bytes m)
      | CI_Body \<Rightarrow> complete_body m
      | CI_Message \<Rightarrow> complete_full m)"

section \<open>Facts\<close>

lemma complete_body_total [simp]: "complete_body m \<noteq> None" "complete_body m = None \<longleftrightarrow> False"
  by (cases m; simp)+

lemma final_new_total [simp]: "final_new m \<noteq> None" "final_new m = None \<longleftrightarrow> False"
  by (cases m; simp)+

lemma matching_input_total: "matching_input m area \<noteq> None"
  by (cases m; cases area) (simp_all add: matching_input_def)

text \<open>A message whose parts are the two halves of its bytes.\<close>

definition message_ok :: "message \<Rightarrow> bool" where
  "message_ok m \<longleftrightarrow> m_raw m = message_header m @ message_body m"

end
