(* ===== verification/Mime.thy ===== *)
theory Mime
  imports Structured_Header Header_Value
begin

unbundle bit_operations_syntax

text \<open>
  The MIME structure of a message, \<open>src/mime.rs\<close>: content types and dispositions, the walk over nested
  multipart bodies with its depth and part limits, and the visitor that may stop it.  The reference is
  the list of all parts in order, \<open>body_parts\<close>; the walk is shown to look at exactly those.
\<close>

section \<open>Parameters\<close>

definition MAX_MIME_DEPTH :: usize where "MAX_MIME_DEPTH = 8"
definition MAX_MIME_PARTS :: usize where "MAX_MIME_PARTS = 256"
definition MAX_BOUNDARY_LEN :: usize where "MAX_BOUNDARY_LEN = 128"

record mime_part =
  mp_mimetype :: "bytes option"
  mp_disposition :: "bytes option"
  mp_filename :: "bytes option"

record parsed_content_type =
  ct_mimetype :: "bytes option"
  ct_boundary :: "bytes option"
  ct_name :: "bytes option"

record parsed_content_disposition =
  cd_disposition :: "bytes option"
  cd_filename :: "bytes option"

definition content_type_default :: parsed_content_type where
  "content_type_default = \<lparr>ct_mimetype = None, ct_boundary = None, ct_name = None\<rparr>"

definition content_disposition_default :: parsed_content_disposition where
  "content_disposition_default = \<lparr>cd_disposition = None, cd_filename = None\<rparr>"

definition mime_trim :: "bytes \<Rightarrow> bytes" where
  "mime_trim bs =
     (let start = (case position (\<lambda>b. \<not> is_ascii_whitespace b) bs of None \<Rightarrow> length bs | Some i \<Rightarrow> i);
          stop = (case rposition (\<lambda>b. \<not> is_ascii_whitespace b) bs of None \<Rightarrow> 0 | Some i \<Rightarrow> i + 1)
      in if start \<ge> stop then [] else slice bs start stop)"

definition is_mime_special :: "byte \<Rightarrow> bool" where
  "is_mime_special b \<longleftrightarrow> b \<in> set (ascii ''()<>@,;:/[]?='') \<or> b = BACKSLASH \<or> b = DQUOTE"

definition is_mime_token :: "bytes \<Rightarrow> bool" where
  "is_mime_token t \<longleftrightarrow> t \<noteq> [] \<and> list_all (\<lambda>b. is_ascii_graphic b \<and> \<not> is_mime_special b) t"

definition parse_media_type :: "bytes \<Rightarrow> bytes option" where
  "parse_media_type v =
     (let input = mime_trim v
      in case position (\<lambda>b. b = 47) input of
           None \<Rightarrow> None
         | Some slash \<Rightarrow>
             let main_type = take slash input; subtype = drop (slash + 1) input
             in if main_type = [] \<or> subtype = [] then None
                else if \<not> is_mime_token main_type \<or> \<not> is_mime_token subtype then None
                else Some (map to_ascii_lowercase main_type @ [47] @ map to_ascii_lowercase subtype))"

definition parse_disposition_type :: "bytes \<Rightarrow> bytes option" where
  "parse_disposition_type v =
     (let input = mime_trim v
      in if \<not> is_mime_token input then None else Some (map to_ascii_lowercase input))"

definition split_mime_parameters :: "bytes \<Rightarrow> bytes list" where
  "split_mime_parameters input =
     split_state (\<lambda>s b. case quote_step s b of (structural, s') \<Rightarrow> (structural \<and> b = 59, s')) (False, False) input"

definition find_unquoted_char :: "bytes \<Rightarrow> byte \<Rightarrow> nat option" where
  "find_unquoted_char input wanted = find_unquoted_from (False, False) 0 input wanted"

fun unquote_loop :: "bool \<Rightarrow> bytes \<Rightarrow> bytes" where
  "unquote_loop escaped [] = []"
| "unquote_loop escaped (b # bs) =
     (if escaped then b # unquote_loop False bs
      else if b = BACKSLASH then unquote_loop True bs
      else b # unquote_loop False bs)"

definition unquote_mime_value :: "bytes \<Rightarrow> bytes" where
  "unquote_mime_value v =
     (let v = mime_trim v
      in if length v \<ge> 2 \<and> hd v = DQUOTE \<and> last v = DQUOTE
         then unquote_loop False (slice v 1 (length v - 1)) else v)"

definition from_hex_digit :: "byte \<Rightarrow> byte option" where
  "from_hex_digit b =
     (if 48 \<le> b \<and> b \<le> 57 then Some (b - 48)
      else if 97 \<le> b \<and> b \<le> 102 then Some (b - 97 + 10)
      else if 65 \<le> b \<and> b \<le> 70 then Some (b - 65 + 10)
      else None)"

fun percent_decode :: "bytes \<Rightarrow> bytes" where
  "percent_decode (a # h1 # h2 # bs) =
     (if a = 37 then
        (case (from_hex_digit h1, from_hex_digit h2) of
           (Some x, Some y) \<Rightarrow> (push_bit 4 x OR y) # percent_decode bs
         | _ \<Rightarrow> a # percent_decode (h1 # h2 # bs))
      else a # percent_decode (h1 # h2 # bs))"
| "percent_decode (a # bs) = a # percent_decode bs"
| "percent_decode [] = []"

definition decode_rfc2231 :: "bytes \<Rightarrow> bytes" where
  "decode_rfc2231 v =
     percent_decode
       (case position (\<lambda>b. b = 39) v of
          None \<Rightarrow> v
        | Some i \<Rightarrow>
            (case position (\<lambda>b. b = 39) (drop (i + 1) v) of
               None \<Rightarrow> v
             | Some j \<Rightarrow> drop (i + 1 + j + 1) v))"

definition parse_parameter :: "bytes \<Rightarrow> (bytes \<times> bytes) option" where
  "parse_parameter p =
     (let param = mime_trim p
      in case find_unquoted_char param 61 of
           None \<Rightarrow> None
         | Some eq \<Rightarrow>
             let name = mime_trim (take eq param); v = mime_trim (drop (eq + 1) param)
             in if name = [] then None
                else
                  let is_extended = ends_with name [42];
                      clean_name = map to_ascii_lowercase (if is_extended then take (length name - 1) name else name);
                      unquoted = unquote_mime_value v;
                      final =
                        (if is_extended then decode_rfc2231 unquoted
                         else if any_window2 (\<lambda>a b. a = 61 \<and> b = 63) unquoted then
                           (case decode_rfc2047 unquoted MAX_ASSIGNMENT_VALUE_LEN of Inl _ \<Rightarrow> unquoted | Inr t \<Rightarrow> t)
                         else unquoted)
                  in Some (clean_name, final))"

section \<open>Header fields of a part\<close>

fun content_type_params :: "parsed_content_type \<Rightarrow> bytes list \<Rightarrow> parsed_content_type" where
  "content_type_params ct [] = ct"
| "content_type_params ct (p # ps) =
     content_type_params
       (case parse_parameter p of
          None \<Rightarrow> ct
        | Some (name, v) \<Rightarrow>
            if name = ascii ''boundary'' \<and> ct_boundary ct = None then
              if v \<noteq> [] \<and> length v \<le> MAX_BOUNDARY_LEN then ct\<lparr>ct_boundary := Some v\<rparr> else ct
            else if name = ascii ''name'' \<and> ct_name ct = None \<and> v \<noteq> [] then ct\<lparr>ct_name := Some v\<rparr>
            else ct) ps"

definition parse_content_type :: "bytes \<Rightarrow> parsed_content_type" where
  "parse_content_type v =
     (case remove_comments_and_unfold v of
        None \<Rightarrow> content_type_default
      | Some cleaned \<Rightarrow>
          (case split_mime_parameters cleaned of
             [] \<Rightarrow> content_type_default
           | p # ps \<Rightarrow> content_type_params (content_type_default\<lparr>ct_mimetype := parse_media_type p\<rparr>) ps))"

fun disposition_params :: "bytes option \<Rightarrow> bytes list \<Rightarrow> bytes option" where
  "disposition_params filename [] = filename"
| "disposition_params filename (p # ps) =
     disposition_params
       (case parse_parameter p of
          None \<Rightarrow> filename
        | Some (name, v) \<Rightarrow> if name = ascii ''filename'' \<and> filename = None \<and> v \<noteq> [] then Some v else filename) ps"

definition parse_content_disposition :: "bytes \<Rightarrow> parsed_content_disposition" where
  "parse_content_disposition v =
     (case remove_comments_and_unfold v of
        None \<Rightarrow> content_disposition_default
      | Some cleaned \<Rightarrow>
          (case split_mime_parameters cleaned of
             [] \<Rightarrow> content_disposition_default
           | p # ps \<Rightarrow> \<lparr>cd_disposition = parse_disposition_type p, cd_filename = disposition_params None ps\<rparr>))"

fun content_fields ::
    "parsed_content_type option \<times> parsed_content_disposition option \<Rightarrow> field list \<Rightarrow>
     parsed_content_type option \<times> parsed_content_disposition option" where
  "content_fields acc [] = acc"
| "content_fields (ct, cd) (f # fs) =
     content_fields
       (case (f_name f, field_value f) of
          (Some name, Some v) \<Rightarrow>
            if eq_ignore_ascii_case name (ascii ''Content-Type'') \<and> ct = None then (Some (parse_content_type v), cd)
            else if eq_ignore_ascii_case name (ascii ''Content-Disposition'') \<and> cd = None
            then (ct, Some (parse_content_disposition v))
            else (ct, cd)
        | _ \<Rightarrow> (ct, cd)) fs"

definition part_from_headers :: "header_view \<Rightarrow> mime_part \<times> bytes option" where
  "part_from_headers header =
     (case content_fields (None, None) (view_fields_of header) of
        (ct, cd) \<Rightarrow>
          let ct = (case ct of None \<Rightarrow> content_type_default | Some x \<Rightarrow> x);
              cd = (case cd of None \<Rightarrow> content_disposition_default | Some x \<Rightarrow> x)
          in (\<lparr>mp_mimetype = ct_mimetype ct, mp_disposition = cd_disposition cd,
               mp_filename = (case cd_filename cd of Some n \<Rightarrow> Some n | None \<Rightarrow> ct_name ct)\<rparr>, ct_boundary ct))"

section \<open>Boundaries\<close>

text \<open>The delimiter is not empty where the loop is entered, so its index stays inside the body.\<close>

function boundary_from :: "bytes \<Rightarrow> nat \<Rightarrow> bytes \<Rightarrow> nat option" where
  "boundary_from body index delimiter =
     (if index + length delimiter \<le> length body \<and> index < length body then
        if (index = 0 \<or> body ! (index - 1) = LF) \<and> starts_with (drop index body) delimiter then Some index
        else boundary_from body (index + 1) delimiter
      else None)"
  by pat_completeness auto
termination by (relation "measure (\<lambda>(body, index, delimiter). length body - index)") auto

declare boundary_from.simps [simp del]

definition find_boundary :: "bytes \<Rightarrow> nat \<Rightarrow> bytes \<Rightarrow> nat option" where
  "find_boundary body start delimiter =
     (if start \<ge> length body \<or> delimiter = [] then None else boundary_from body start delimiter)"

function find_line_end :: "bytes \<Rightarrow> nat \<Rightarrow> nat" where
  "find_line_end body index =
     (if index < length body then if body ! index = LF then index + 1 else find_line_end body (index + 1)
      else length body)"
  by pat_completeness auto
termination by (relation "measure (\<lambda>(body, index). length body - index)") auto

declare find_line_end.simps [simp del]

function split_part :: "bytes \<Rightarrow> nat \<Rightarrow> bytes \<times> bytes" where
  "split_part bs i =
     (if i < length bs then
        if bs ! i = LF \<and> i + 1 < length bs \<and> bs ! (i + 1) = LF then (take (i + 2) bs, drop (i + 2) bs)
        else if bs ! i = LF \<and> i + 2 < length bs \<and> bs ! (i + 1) = CR \<and> bs ! (i + 2) = LF
        then (take (i + 3) bs, drop (i + 3) bs)
        else split_part bs (i + 1)
      else (bs, []))"
  by pat_completeness auto
termination by (relation "measure (\<lambda>(bs, i). length bs - i)") auto

declare split_part.simps [simp del]

definition split_part_headers_and_body :: "bytes \<Rightarrow> bytes \<times> bytes" where
  "split_part_headers_and_body bs = split_part bs 0"

definition is_multipart :: "mime_part \<Rightarrow> bool" where
  "is_multipart p \<longleftrightarrow> (case mp_mimetype p of None \<Rightarrow> False | Some m \<Rightarrow> starts_with m (ascii ''multipart/''))"

text \<open>The end of a part: the line break before a boundary belongs to the boundary.\<close>

definition part_end :: "bytes \<Rightarrow> nat \<Rightarrow> nat \<Rightarrow> nat" where
  "part_end body start next =
     (if next > start \<and> body ! (next - 1) = LF then
        if next - 1 > start \<and> body ! (next - 2) = CR then next - 2 else next - 1
      else next)"

lemma boundary_from_Some:
  "boundary_from body index delimiter = Some i \<Longrightarrow> index \<le> i \<and> i + length delimiter \<le> length body"
proof (induction body index delimiter rule: boundary_from.induct)
  case (1 body index delimiter)
  show ?case
    using "1.prems" "1.IH" unfolding boundary_from.simps [of body index delimiter] by (auto split: if_splits)
qed

lemma find_boundary_Some:
  "find_boundary body start delimiter = Some i \<Longrightarrow> start \<le> i \<and> i + length delimiter \<le> length body \<and> delimiter \<noteq> []"
  by (auto simp: find_boundary_def dest!: boundary_from_Some split: if_splits)

lemma find_line_end_ge: "find_line_end body index \<ge> min index (length body)"
proof (induction body index rule: find_line_end.induct)
  case (1 body index)
  then show ?case by (subst find_line_end.simps) auto
qed

lemma split_part_length: "length (snd (split_part bs i)) \<le> length bs"
proof (induction bs i rule: split_part.induct)
  case (1 bs i)
  then show ?case by (subst split_part.simps) auto
qed

lemma part_body_shorter:
  assumes "find_boundary body from delimiter = Some next"
  shows "length (snd (split_part_headers_and_body (slice body start (part_end body start next)))) < length body"
proof -
  have "next < length body" using find_boundary_Some [OF assms] by (cases delimiter) auto
  moreover have "part_end body start next \<le> next" by (auto simp: part_end_def)
  ultimately have "length (slice body start (part_end body start next)) < length body" by (auto simp: slice_def)
  then show ?thesis
    using split_part_length [of "slice body start (part_end body start next)" 0]
    by (simp add: split_part_headers_and_body_def)
qed

section \<open>The walk\<close>

text \<open>
  The visitor has a state and may fail; the part counter is threaded with it.  The loop over the
  boundaries of one body is \<open>walk_loop\<close>, entered with the start of the first part.
\<close>

type_synonym ('s, 'e) part_visitor = "'s \<Rightarrow> mime_part \<Rightarrow> 's \<times> ('e + bool)"

definition visit_part ::
    "('s, 'e) part_visitor \<Rightarrow> usize \<times> 's \<Rightarrow> mime_part \<Rightarrow> (usize \<times> 's) \<times> ('e structured_visit_error + bool)" where
  "visit_part visit st part =
     (case checked_add (fst st) 1 of
        None \<Rightarrow> (st, Inl Header_Error)
      | Some k \<Rightarrow>
          if k > MAX_MIME_PARTS then ((k, snd st), Inl Header_Error)
          else
            (case visit (snd st) part of
               (s, Inl e) \<Rightarrow> ((k, s), Inl (Visitor_Error e))
             | (s, Inr found) \<Rightarrow> ((k, s), Inr found)))"

function walk_multipart ::
    "('s, 'e) part_visitor \<Rightarrow> bytes \<Rightarrow> bytes \<Rightarrow> usize \<Rightarrow> usize \<times> 's \<Rightarrow>
     (usize \<times> 's) \<times> ('e structured_visit_error + bool)"
and walk_loop ::
    "('s, 'e) part_visitor \<Rightarrow> bytes \<Rightarrow> bytes \<Rightarrow> nat \<Rightarrow> usize \<Rightarrow> usize \<times> 's \<Rightarrow>
     (usize \<times> 's) \<times> ('e structured_visit_error + bool)"
where
  "walk_multipart visit body boundary depth st =
     (if depth > MAX_MIME_DEPTH \<or> boundary = [] then (st, Inr False)
      else
        let delimiter = ascii ''--'' @ boundary
        in case find_boundary body 0 delimiter of
             None \<Rightarrow> (st, Inr False)
           | Some i \<Rightarrow>
               let after = i + length delimiter
               in if starts_with (drop after body) (ascii ''--'') then (st, Inr False)
                  else walk_loop visit body delimiter (find_line_end body after) depth st)"
| "walk_loop visit body delimiter start depth st =
     (case find_boundary body start delimiter of
        None \<Rightarrow> (st, Inr False)
      | Some next \<Rightarrow>
          let bs = slice body start (part_end body start next)
          in case part_from_headers (View_Raw (fst (split_part_headers_and_body bs))) of
               (part, sub_boundary) \<Rightarrow>
                 (case visit_part visit st part of
                    (st1, Inl e) \<Rightarrow> (st1, Inl e)
                  | (st1, Inr found) \<Rightarrow>
                      if found then (st1, Inr True)
                      else
                        (case
                           (case sub_boundary of
                              Some inner \<Rightarrow>
                                if is_multipart part
                                then walk_multipart visit (snd (split_part_headers_and_body bs)) inner (depth + 1) st1
                                else (st1, Inr False)
                            | None \<Rightarrow> (st1, Inr False)) of
                           (st2, Inl e) \<Rightarrow> (st2, Inl e)
                         | (st2, Inr found2) \<Rightarrow>
                             if found2 then (st2, Inr True)
                             else
                               let after = next + length delimiter
                               in if starts_with (drop after body) (ascii ''--'') then (st2, Inr False)
                                  else walk_loop visit body delimiter (find_line_end body after) depth st2)))"
  by pat_completeness auto
termination
proof (relation "measures [\<lambda>x. case x of Inl (visit, body, r) \<Rightarrow> length body | Inr (visit, body, r) \<Rightarrow> length body,
    \<lambda>x. case x of Inl (visit, body, r) \<Rightarrow> length body + 1 | Inr (visit, body, delimiter, start, r) \<Rightarrow> length body - start]",
    goal_cases)
  case (4 visit body delimiter start depth st nxt)
  then have "start \<le> nxt" "nxt + length delimiter \<le> length body" "delimiter \<noteq> []"
    using find_boundary_Some by blast+
  moreover have "nxt + length delimiter \<le> find_line_end body (nxt + length delimiter)"
    using find_line_end_ge [of "nxt + length delimiter" body] \<open>nxt + length delimiter \<le> length body\<close> by simp
  ultimately have "length body - find_line_end body (nxt + length delimiter) < length body - start"
    by (cases delimiter) auto
  then show ?case using 4 by simp
qed (auto dest: part_body_shorter)

declare walk_multipart.simps [simp del] walk_loop.simps [simp del]

definition any_mime_part ::
    "header_view \<Rightarrow> bytes \<Rightarrow> ('s, 'e) part_visitor \<Rightarrow> 's \<Rightarrow> 's \<times> ('e structured_visit_error + bool)" where
  "any_mime_part header body visit s =
     (case part_from_headers header of
        (part, boundary) \<Rightarrow>
          (case visit_part visit (0, s) part of
             (st1, Inl e) \<Rightarrow> (snd st1, Inl e)
           | (st1, Inr found) \<Rightarrow>
               if found then (snd st1, Inr True)
               else
                 (case boundary of
                    Some b \<Rightarrow>
                      if is_multipart part
                      then (case walk_multipart visit body b 1 st1 of (st2, r) \<Rightarrow> (snd st2, r))
                      else (snd st1, Inr False)
                  | None \<Rightarrow> (snd st1, Inr False))))"

section \<open>The parts of a message\<close>

text \<open>All parts of a body in order, without counting and without a visitor.\<close>

function parts_of :: "bytes \<Rightarrow> bytes \<Rightarrow> usize \<Rightarrow> mime_part list"
and parts_loop :: "bytes \<Rightarrow> bytes \<Rightarrow> nat \<Rightarrow> usize \<Rightarrow> mime_part list"
where
  "parts_of body boundary depth =
     (if depth > MAX_MIME_DEPTH \<or> boundary = [] then []
      else
        let delimiter = ascii ''--'' @ boundary
        in case find_boundary body 0 delimiter of
             None \<Rightarrow> []
           | Some i \<Rightarrow>
               let after = i + length delimiter
               in if starts_with (drop after body) (ascii ''--'') then []
                  else parts_loop body delimiter (find_line_end body after) depth)"
| "parts_loop body delimiter start depth =
     (case find_boundary body start delimiter of
        None \<Rightarrow> []
      | Some next \<Rightarrow>
          let bs = slice body start (part_end body start next);
              (part, sub_boundary) = part_from_headers (View_Raw (fst (split_part_headers_and_body bs)));
              after = next + length delimiter
          in (part #
              (case sub_boundary of
                 Some inner \<Rightarrow>
                   if is_multipart part then parts_of (snd (split_part_headers_and_body bs)) inner (depth + 1) else []
               | None \<Rightarrow> [])) @
             (if starts_with (drop after body) (ascii ''--'') then []
              else parts_loop body delimiter (find_line_end body after) depth))"
  by pat_completeness auto
termination
proof (relation "measures [\<lambda>x. case x of Inl (body, r) \<Rightarrow> length body | Inr (body, r) \<Rightarrow> length body,
    \<lambda>x. case x of Inl (body, r) \<Rightarrow> length body + 1 | Inr (body, delimiter, start, r) \<Rightarrow> length body - start]",
    goal_cases)
  case (4 body delimiter start depth nxt)
  then have "start \<le> nxt" "nxt + length delimiter \<le> length body" "delimiter \<noteq> []"
    using find_boundary_Some by blast+
  moreover have "nxt + length delimiter \<le> find_line_end body (nxt + length delimiter)"
    using find_line_end_ge [of "nxt + length delimiter" body] \<open>nxt + length delimiter \<le> length body\<close> by simp
  ultimately have "length body - find_line_end body (nxt + length delimiter) < length body - start"
    by (cases delimiter) auto
  then show ?case using 4 by simp
qed (auto dest: part_body_shorter)

declare parts_of.simps [simp del] parts_loop.simps [simp del]

definition message_parts :: "header_view \<Rightarrow> bytes \<Rightarrow> mime_part list" where
  "message_parts header body =
     (case part_from_headers header of
        (part, boundary) \<Rightarrow>
          part # (case boundary of
                    Some b \<Rightarrow> if is_multipart part then parts_of body b 1 else []
                  | None \<Rightarrow> []))"

text \<open>Looking through a list of parts with the counter.\<close>

fun search :: "(mime_part \<Rightarrow> bool) \<Rightarrow> usize \<Rightarrow> mime_part list \<Rightarrow> usize \<times> ('e structured_visit_error + bool)" where
  "search P k [] = (k, Inr False)"
| "search P k (p # ps) =
     (if k + 1 > MAX_MIME_PARTS then (k + 1, Inl Header_Error)
      else if P p then (k + 1, Inr True) else search P (k + 1) ps)"

lemma search_append:
  "search P k (xs @ ys) = (case search P k xs of (k', Inr False) \<Rightarrow> search P k' ys | r \<Rightarrow> r)"
  by (induction xs arbitrary: k) auto

lemma search_bound: "search P k ps = (k', Inr False) \<Longrightarrow> k \<le> MAX_MIME_PARTS \<Longrightarrow> k' \<le> MAX_MIME_PARTS"
  by (induction ps arbitrary: k) (auto split: if_splits)

lemma search_result:
  "k \<le> MAX_MIME_PARTS \<Longrightarrow> snd (search P k ps) =
     (if list_ex P (take (MAX_MIME_PARTS - k) ps) then Inr True
      else if length ps \<le> MAX_MIME_PARTS - k then Inr False else Inl Header_Error)"
proof (induction ps arbitrary: k)
  case (Cons p ps)
  show ?case
  proof (cases "k = MAX_MIME_PARTS")
    case False
    then obtain n where "MAX_MIME_PARTS - k = Suc n" "MAX_MIME_PARTS - Suc k = n"
      using Cons.prems by (cases "MAX_MIME_PARTS - k") auto
    then show ?thesis using Cons.IH [of "k + 1"] Cons.prems False by auto
  qed simp
qed simp

abbreviation plain_visit :: "(mime_part \<Rightarrow> bool) \<Rightarrow> ('s, 'e) part_visitor" where
  "plain_visit P \<equiv> \<lambda>s p. (s, Inr (P p))"

lemma visit_part_plain:
  "k \<le> MAX_MIME_PARTS \<Longrightarrow> visit_part (plain_visit P) (k, s) p =
     (if k + 1 > MAX_MIME_PARTS then ((k + 1, s), Inl Header_Error) else ((k + 1, s), Inr (P p)))"
  by (auto simp: visit_part_def checked_add_def MAX_MIME_PARTS_def usize_max_def)

lemma walk_search:
  fixes visit :: "('s, 'e) part_visitor"
  shows "visit = plain_visit P \<Longrightarrow> fst st \<le> MAX_MIME_PARTS \<Longrightarrow>
      walk_multipart visit body boundary depth st =
        (case search P (fst st) (parts_of body boundary depth) of (k, r) \<Rightarrow> ((k, snd st), r))"
    and "visit = plain_visit P \<Longrightarrow> fst st \<le> MAX_MIME_PARTS \<Longrightarrow>
      walk_loop visit body delimiter start depth st =
        (case search P (fst st) (parts_loop body delimiter start depth) of (k, r) \<Rightarrow> ((k, snd st), r))"
proof (induction visit body boundary depth st and visit body delimiter start depth st
    rule: walk_multipart_walk_loop.induct)
  case (1 visit body boundary depth st)
  then show ?case
    by (subst walk_multipart.simps, subst parts_of.simps) (auto simp: Let_def split: option.splits)
next
  case (2 visit body delimiter start depth st)
  obtain k s where st: "st = (k, s)" by (cases st)
  note visit = "2.prems"(1) and k = "2.prems"(2) [unfolded st fst_conv]
  show ?case
  proof (cases "find_boundary body start delimiter")
    case None
    then show ?thesis by (simp add: st walk_loop.simps parts_loop.simps)
  next
    case (Some nxt)
    define bs where "bs = slice body start (part_end body start nxt)"
    define after where "after = nxt + length delimiter"
    obtain part sub where pf: "part_from_headers (View_Raw (fst (split_part_headers_and_body bs))) = (part, sub)"
      by (cases "part_from_headers (View_Raw (fst (split_part_headers_and_body bs)))")
    define inner where "inner = (case sub of
        Some b \<Rightarrow> if is_multipart part then parts_of (snd (split_part_headers_and_body bs)) b (depth + 1) else []
      | None \<Rightarrow> [])"
    define rest where "rest = (if starts_with (drop after body) (ascii ''--'') then []
      else parts_loop body delimiter (find_line_end body after) depth)"
    have parts: "parts_loop body delimiter start depth = part # inner @ rest"
      using Some pf by (subst parts_loop.simps)
        (simp add: bs_def [symmetric] after_def [symmetric] inner_def rest_def Let_def)
    note run = walk_loop.simps [of visit body delimiter start depth st, unfolded Some option.case Let_def,
        folded bs_def after_def, unfolded pf prod.case]
    note vp = visit_part_plain [OF k, where P = P and s = s and p = part]
    show ?thesis
    proof (cases "k + 1 > MAX_MIME_PARTS \<or> P part")
      case True
      then show ?thesis unfolding run parts by (auto simp: st visit vp)
    next
      case False
      have vis: "visit_part visit st part = ((k + 1, s), Inr False)" using False by (simp add: visit st vp)
      have sub: "(case sub of
            Some b \<Rightarrow> if is_multipart part then walk_multipart visit (snd (split_part_headers_and_body bs)) b (depth + 1) (k + 1, s)
              else ((k + 1, s), Inr False)
          | None \<Rightarrow> ((k + 1, s), Inr False)) = (case search P (k + 1) inner of (k', r) \<Rightarrow> ((k', s), r))"
        using "2.IH"(1) [OF Some bs_def pf [symmetric] vis [symmetric] refl] False visit
        by (auto simp: inner_def split: option.splits)
      obtain k2 r2 where inner: "search P (k + 1) inner = (k2, r2 :: 'e structured_visit_error + bool)"
        by (cases "search P (k + 1) inner :: usize \<times> ('e structured_visit_error + bool)")
      note run = run [unfolded vis prod.case sum.case if_False sub inner]
      show ?thesis
      proof (cases "r2 = Inr False")
        case no: True
        have k2: "k2 \<le> MAX_MIME_PARTS" using search_bound inner no False by fastforce
        have "walk_loop visit body delimiter (find_line_end body after) depth (k2, s) =
            (case search P k2 (parts_loop body delimiter (find_line_end body after) depth) of (k', r) \<Rightarrow> ((k', s), r))"
          if "\<not> starts_with (drop after body) (ascii ''--'')"
          using "2.IH"(2) [OF Some bs_def pf [symmetric] vis [symmetric] refl _ _ refl _ after_def that visit, of "(k2, s)" False]
            sub inner no k2 by simp
        then show ?thesis
          unfolding run parts using False no inner by (simp add: st search_append rest_def)
      next
        case yes: False
        then show ?thesis
          unfolding run parts using False inner by (cases r2) (auto simp: st search_append)
      qed
    qed
  qed
qed

text \<open>
  C35. Looking for a part of a message: the walk over nested multipart bodies always ends and gives the
  same answer as looking through the list of all parts in order, as long as the first 256 parts decide;
  a message with more parts, none of the first 256 of which is wanted, is refused.
\<close>

theorem any_mime_part_searches:
  "any_mime_part header body ((\<lambda>s p. (s, Inr (P p))) :: ('s, 'e) part_visitor) s =
     (s, let ps = message_parts header body
         in if list_ex P (take MAX_MIME_PARTS ps) then Inr True
            else if length ps \<le> MAX_MIME_PARTS then Inr False else Inl Header_Error)"
proof -
  let ?v = "(\<lambda>s p. (s, Inr (P p))) :: ('s, 'e) part_visitor"
  obtain part boundary where pf: "part_from_headers header = (part, boundary)" by (cases "part_from_headers header")
  define inner where "inner = (case boundary of Some b \<Rightarrow> if is_multipart part then parts_of body b 1 else [] | None \<Rightarrow> [])"
  have parts: "message_parts header body = part # inner" by (simp add: message_parts_def pf inner_def)
  have vp: "visit_part (?v :: ('s, 'e) part_visitor) (0, s) part = ((1, s), Inr (P part))"
    using visit_part_plain [of 0 P s part] by (simp add: MAX_MIME_PARTS_def)
  have walk: "walk_multipart ?v body b 1 (1, s) =
      (case search P 1 (parts_of body b 1) of (k, r) \<Rightarrow> ((k, s), r))" for b
    using walk_search(1) [OF refl, of "(1, s)" P body b 1] by (simp add: MAX_MIME_PARTS_def)
  have "any_mime_part header body ?v s = (s, snd (search P 0 (part # inner)))"
    using pf vp walk
    by (auto simp: any_mime_part_def inner_def MAX_MIME_PARTS_def split: option.splits prod.splits)
  then show ?thesis unfolding parts Let_def search_result [OF le0] by simp
qed

text \<open>The two trimming routines of the sources agree.\<close>

lemma position_takeWhile:
  "(case position (\<lambda>b. \<not> P b) bs of None \<Rightarrow> length bs | Some i \<Rightarrow> i) = length (takeWhile P bs)"
  by (induction bs) (auto split: option.splits)

lemma mime_trim_eq: "mime_trim v = trim_ascii v"
proof -
  let ?ws = is_ascii_whitespace
  define a m where "a = takeWhile ?ws v" and "m = dropWhile ?ws v"
  have v: "v = a @ m" by (simp add: a_def m_def)
  have start: "(case position (\<lambda>b. \<not> ?ws b) v of None \<Rightarrow> length v | Some i \<Rightarrow> i) = length a"
    by (simp add: position_takeWhile a_def)
  have stop: "(case rposition (\<lambda>b. \<not> ?ws b) v of None \<Rightarrow> 0 | Some i \<Rightarrow> i + 1) = length v - length (takeWhile ?ws (rev v))"
    using position_takeWhile [where P = ?ws and bs = "rev v"]
    by (auto simp: rposition_def split: option.splits dest!: position_SomeD(1))
  show ?thesis
  proof (cases m)
    case Nil
    then have "takeWhile ?ws (rev v) = rev v" by (auto simp: m_def dropWhile_eq_Nil_conv takeWhile_eq_all_conv)
    then have "length (takeWhile ?ws (rev v)) = length v" by (simp only: length_rev)
    then have "mime_trim v = []" unfolding mime_trim_def Let_def start stop by simp
    moreover have "trim_ascii v = []" unfolding trim_ascii_def trim_start_def Nil [unfolded m_def] by simp
    ultimately show ?thesis by simp
  next
    case (Cons x xs)
    then have x: "\<not> ?ws x" "x \<in> set (rev m)" using hd_dropWhile [of ?ws v] by (auto simp: m_def)
    then have t: "takeWhile ?ws (rev v) = takeWhile ?ws (rev m)" unfolding v by (simp add: takeWhile_append1)
    have lt: "length (takeWhile ?ws (rev m)) < length m"
      using x by (metis length_rev length_takeWhile_le nat_less_le set_takeWhileD takeWhile_eq_take take_all_iff)
    then have "mime_trim v = take (length v - length (takeWhile ?ws (rev m)) - length a) m"
      unfolding mime_trim_def Let_def start stop t by (simp add: slice_def v)
    also have "\<dots> = rev (dropWhile ?ws (rev m))"
      using lt by (simp add: v dropWhile_eq_drop rev_drop)
    finally show ?thesis by (simp add: trim_ascii_def trim_start_def m_def)
  qed
qed

end
