(* ===== verification/Eval_Condition.thy ===== *)
theory Eval_Condition
  imports Eval_Plan Eval_Message Mime
begin

text \<open>
  Matching of compiled conditions, \<open>src/eval/condition.rs\<close>: regular expressions with their captures,
  structured headers, MIME parts, sizes and shell-expanded conditions, on the header alone
  (\<open>matches_headers\<close>) and on the complete message (\<open>matches_complete\<close>).

  The regex engine is the regex crate and a parameter: \<open>is_match\<close> and \<open>captures\<close>, whose groups are
  the byte ranges of the match, group 0 first.  So is \<open>reparse\<close>, the parser's
  \<open>parse_reparsed_condition\<close>.  Errors carry the variables as they were left when the error occurred.
\<close>

section \<open>Errors\<close>

datatype condition_message =
    Cond_Reparse bytes
  | Cond_Depth
  | Cond_NotResolved
  | Cond_OmittedMatch
  | Cond_InvalidRange
  | Cond_NotUtf8
  | Cond_Verbose
  | Cond_LogAbstract
  | Cond_ShiftText
  | Cond_Shift setting_error

datatype rc_statement = RcInclude | RcSwitch

datatype copy_reason = Copy_Limit | Copy_NoHost | Copy_Thread | Copy_Overflow

datatype rc_message = Rc_DepthOverflow | Rc_TransitionLimit | Rc_ResourceLimit usize rc_statement | Rc_PathNotUtf8 | Rc_NoContext

datatype result_reason = Filter_WithoutReplacement | Pipe_WithReplacement

datatype eval_error =
    BodyWasNotBuffered
  | VariableValueTooLarge bytes usize
  | MatchValueIsNotUtf8
  | DestinationCommandOutputIsNotUtf8 usize
  | RuntimeCondition usize condition_message
  | StructuredHeader usize
  | MatchValuesTooLarge usize
  | ExpansionFailed expansion_error
  | RuntimeRcLoaderUnavailable usize rc_statement
  | RuntimeSettingUnavailable usize bytes
  | LocalLockExecutorUnavailable usize
  | BackgroundCopyUnavailable usize copy_reason
  | RuntimeRc rc_message
  | ExternalActionUnsupported usize
  | HeaderActionUnsupported usize
  | HeaderEditFailed usize header_edit_error
  | MessageLimitsInvalid
  | ExternalConditionUnsupported usize
  | InvalidExternalActionResult usize result_reason

section \<open>The regex engine\<close>

type_synonym captures = "(usize \<times> usize) option list"

record regex_engine =
  is_match :: "regex_program \<Rightarrow> bytes \<Rightarrow> bool"
  captures_of :: "regex_program \<Rightarrow> bytes \<Rightarrow> captures option"

definition capture_group :: "captures \<Rightarrow> usize \<Rightarrow> (usize \<times> usize) option" where
  "capture_group caps i = (if i < length caps then caps ! i else None)"

text \<open>What the regex crate documents: \<open>captures\<close> succeeds when \<open>is_match\<close> holds, and every group is a
  range of the input, group 0 always present.\<close>

definition engine_ok :: "regex_engine \<Rightarrow> bool" where
  "engine_ok re \<longleftrightarrow>
     (\<forall>r input. is_match re r input \<longleftrightarrow> captures_of re r input \<noteq> None) \<and>
     (\<forall>r input caps. captures_of re r input = Some caps \<longrightarrow>
        capture_group caps 0 \<noteq> None \<and>
        (\<forall>i a b. capture_group caps i = Some (a, b) \<longrightarrow> a \<le> b \<and> b \<le> length input))"

section \<open>Captured values\<close>

definition MAX_MATCH_BYTES :: usize where "MAX_MATCH_BYTES = MAX_ASSIGNMENT_VALUE_LEN"

definition match_value :: "bytes \<Rightarrow> eval_error + bytes" where
  "match_value bs = (if valid_utf8 bs then Inr bs else Inl MatchValueIsNotUtf8)"

definition capture_value :: "bytes \<Rightarrow> captures \<Rightarrow> usize \<Rightarrow> eval_error + bytes" where
  "capture_value input caps index =
     match_value (case capture_group caps index of None \<Rightarrow> [] | Some (a, b) \<Rightarrow> slice input a b)"

text \<open>\<open>max\<close> over the pairs of end and order: the largest end.\<close>

definition selected_match_start :: "captures \<Rightarrow> usize list \<Rightarrow> usize option" where
  "selected_match_start caps indexes =
     (case List.map_filter (\<lambda>i. map_option snd (capture_group caps i)) indexes of
        [] \<Rightarrow> None
      | e # es \<Rightarrow> Some (fold max es e))"

text \<open>\<open>slice::get\<close> with a range.\<close>

definition get_range :: "bytes \<Rightarrow> usize \<Rightarrow> usize \<Rightarrow> bytes option" where
  "get_range input a b = (if a \<le> b \<and> b \<le> length input then Some (slice input a b) else None)"

definition MATCH_NAME :: bytes where "MATCH_NAME = ascii ''MATCH''"

definition numbered_match :: "usize \<Rightarrow> bytes" where
  "numbered_match n = MATCH_NAME @ decimal n"

fun numbered_captures :: "bytes \<Rightarrow> captures \<Rightarrow> usize list \<Rightarrow> usize \<Rightarrow> eval_error + (bytes \<times> bytes) list" where
  "numbered_captures input caps [] n = Inr []"
| "numbered_captures input caps (i # is) n =
     (case capture_value input caps i of
        Inl e \<Rightarrow> Inl e
      | Inr v \<Rightarrow> map_sum id ((#) (numbered_match n, v)) (numbered_captures input caps is (n + 1)))"

fun values_size :: "(bytes \<times> bytes) list \<Rightarrow> usize \<Rightarrow> usize option" where
  "values_size [] total_len = Some total_len"
| "values_size ((n, v) # vs) total_len = Option.bind (checked_add total_len (length v)) (values_size vs)"

definition check_values :: "(bytes \<times> bytes) list \<Rightarrow> eval_error + unit" where
  "check_values vs =
     (case values_size vs 0 of
        None \<Rightarrow> Inl (MatchValuesTooLarge usize_max)
      | Some n \<Rightarrow> if n > MAX_MATCH_BYTES then Inl (MatchValuesTooLarge n) else Inr ())"

definition set_match_values :: "(bytes \<times> bytes) list \<Rightarrow> runtime_variables \<Rightarrow> runtime_variables" where
  "set_match_values vs rv = fold (\<lambda>(n, v). set_match_value n v) vs rv"

section \<open>Conditions\<close>

definition has_captures :: "compiled_condition \<Rightarrow> bool" where
  "has_captures c \<longleftrightarrow> cc_match_captures c \<noteq> [] \<or> cc_capture_indexes c \<noteq> []"

definition apply_negation :: "compiled_condition \<Rightarrow> bool \<Rightarrow> bool" where
  "apply_negation c matched \<longleftrightarrow> matched \<noteq> cc_negated c"

text \<open>The value of \<open>MATCH\<close>, when the match went through a marker.\<close>

definition marked_value :: "compiled_condition \<Rightarrow> bytes \<Rightarrow> captures \<Rightarrow> eval_error + (bytes \<times> bytes) list" where
  "marked_value c input caps =
     (case selected_match_start caps (cc_match_captures c) of
        None \<Rightarrow> Inr []
      | Some start \<Rightarrow>
          (case capture_group caps 0 of
             None \<Rightarrow> Inl (RuntimeCondition (cc_line c) Cond_OmittedMatch)
           | Some (_, stop) \<Rightarrow>
               (case get_range input start stop of
                  None \<Rightarrow> Inl (RuntimeCondition (cc_line c) Cond_InvalidRange)
                | Some bs \<Rightarrow> map_sum id (\<lambda>v. [(MATCH_NAME, v)]) (match_value bs))))"

definition match_values :: "compiled_condition \<Rightarrow> bytes \<Rightarrow> captures \<Rightarrow> eval_error + (bytes \<times> bytes) list" where
  "match_values c input caps =
     (case marked_value c input caps of
        Inl e \<Rightarrow> Inl e
      | Inr marked \<Rightarrow>
          (case numbered_captures input caps (cc_capture_indexes c) 1 of
             Inl e \<Rightarrow> Inl e
           | Inr numbered \<Rightarrow>
               (case check_values (marked @ numbered) of
                  Inl e \<Rightarrow> Inl e
                | Inr _ \<Rightarrow> Inr (marked @ numbered))))"

definition regex_matches ::
    "regex_engine \<Rightarrow> compiled_condition \<Rightarrow> regex_program \<Rightarrow> bytes \<Rightarrow> runtime_variables \<Rightarrow> runtime_variables \<times> (eval_error + bool)" where
  "regex_matches re c r input rv =
     (if \<not> has_captures c then (rv, Inr (is_match re r input))
      else
        (case captures_of re r input of
           None \<Rightarrow> (clear_match_values rv, Inr False)
         | Some caps \<Rightarrow>
             if cc_negated c then (clear_match_values rv, Inr True)
             else
               (let rv1 = clear_numbered_match_values rv
                in case match_values c input caps of
                     Inl e \<Rightarrow> (rv1, Inl e)
                   | Inr vs \<Rightarrow> (set_match_values vs rv1, Inr True))))"

text \<open>
  \<open>matches_addresses\<close>, \<open>matches_identifier\<close> and \<open>matches_keywords\<close> differ in the values they visit.  The
  visitor of the walk threads the variables; when the walk itself fails, at its limit on values,
  every value before was visited without a match.
\<close>

definition structured_visitor ::
    "regex_engine \<Rightarrow> compiled_condition \<Rightarrow> regex_program \<Rightarrow> (runtime_variables \<times> eval_error, runtime_variables) visitor" where
  "structured_visitor re c r rv v =
     (case regex_matches re c r v rv of
        (rv', Inl e) \<Rightarrow> Inl (rv', e)
      | (rv', Inr matched) \<Rightarrow> Inr (matched, rv'))"

definition finish_structured ::
    "compiled_condition \<Rightarrow> runtime_variables \<Rightarrow>
     (runtime_variables \<times> eval_error) structured_visit_error + (bool \<times> runtime_variables work_state) \<Rightarrow>
     runtime_variables \<times> (eval_error + bool)" where
  "finish_structured c rv result =
     (case result of
        Inl Header_Error \<Rightarrow> (if has_captures c then clear_match_values rv else rv, Inl (StructuredHeader (cc_line c)))
      | Inl (Visitor_Error (rv', e)) \<Rightarrow> (rv', Inl e)
      | Inr (matched, w) \<Rightarrow>
          (if \<not> matched \<and> has_captures c then clear_match_values (ws_visitor w) else ws_visitor w, Inr matched))"

definition matches_addresses ::
    "regex_engine \<Rightarrow> compiled_condition \<Rightarrow> header_view \<Rightarrow> address_field list \<Rightarrow> regex_program \<Rightarrow> runtime_variables \<Rightarrow>
     runtime_variables \<times> (eval_error + bool)" where
  "matches_addresses re c header fs r rv = finish_structured c rv (any_address header fs (structured_visitor re c r) rv)"

definition matches_identifier ::
    "regex_engine \<Rightarrow> compiled_condition \<Rightarrow> header_view \<Rightarrow> identifier_field list \<Rightarrow> regex_program \<Rightarrow> runtime_variables \<Rightarrow>
     runtime_variables \<times> (eval_error + bool)" where
  "matches_identifier re c header fs r rv = finish_structured c rv (any_identifier header fs (structured_visitor re c r) rv)"

definition matches_keywords ::
    "regex_engine \<Rightarrow> compiled_condition \<Rightarrow> header_view \<Rightarrow> keyword_field list \<Rightarrow> regex_program \<Rightarrow> runtime_variables \<Rightarrow>
     runtime_variables \<times> (eval_error + bool)" where
  "matches_keywords re c header fs r rv = finish_structured c rv (any_keyword header fs (structured_visitor re c r) rv)"

section \<open>MIME parts\<close>

fun part_field :: "multipart_field \<Rightarrow> mime_part \<Rightarrow> bytes option" where
  "part_field MF_MimeType p = mp_mimetype p"
| "part_field MF_Disposition p = mp_disposition p"
| "part_field MF_Filename p = mp_filename p"

definition check_matches :: "regex_engine \<Rightarrow> mime_part \<Rightarrow> compiled_multipart_check \<Rightarrow> bool" where
  "check_matches re p check =
     (case part_field (cmc_field check) p of Some input \<Rightarrow> is_match re (cmc_regex check) input | None \<Rightarrow> False)"

definition check_has_captures :: "compiled_multipart_check \<Rightarrow> bool" where
  "check_has_captures check \<longleftrightarrow> cmc_match_captures check \<noteq> [] \<or> cmc_capture_indexes check \<noteq> []"

definition check_marked :: "bytes \<Rightarrow> captures \<Rightarrow> compiled_multipart_check \<Rightarrow> eval_error + (bytes \<times> bytes) list" where
  "check_marked input caps check =
     (case selected_match_start caps (cmc_match_captures check) of
        None \<Rightarrow> Inr []
      | Some start \<Rightarrow>
          (case capture_group caps 0 of
             None \<Rightarrow> Inr []
           | Some (_, stop) \<Rightarrow>
               (case get_range input start stop of
                  None \<Rightarrow> Inr []
                | Some bs \<Rightarrow> map_sum id (\<lambda>v. [(MATCH_NAME, v)]) (match_value bs))))"

fun part_captures ::
    "regex_engine \<Rightarrow> mime_part \<Rightarrow> compiled_multipart_check list \<Rightarrow> usize \<Rightarrow> eval_error + (bytes \<times> bytes) list" where
  "part_captures re p [] n = Inr []"
| "part_captures re p (check # checks) n =
     (if \<not> check_has_captures check then part_captures re p checks n
      else
        (case part_field (cmc_field check) p of
           None \<Rightarrow> part_captures re p checks n
         | Some input \<Rightarrow>
             (case captures_of re (cmc_regex check) input of
                None \<Rightarrow> part_captures re p checks n
              | Some caps \<Rightarrow>
                  (case check_marked input caps check of
                     Inl e \<Rightarrow> Inl e
                   | Inr marked \<Rightarrow>
                       (case numbered_captures input caps (cmc_capture_indexes check) n of
                          Inl e \<Rightarrow> Inl e
                        | Inr numbered \<Rightarrow>
                            map_sum id ((@) (marked @ numbered))
                              (part_captures re p checks (n + length (cmc_capture_indexes check))))))))"

definition multipart_visitor ::
    "regex_engine \<Rightarrow> compiled_multipart_check list \<Rightarrow> bool \<Rightarrow> ((bytes \<times> bytes) list option, eval_error) part_visitor" where
  "multipart_visitor re checks wants found p =
     (if \<not> list_all (check_matches re p) checks then (found, Inr False)
      else if wants then
        (case part_captures re p checks 1 of
           Inl e \<Rightarrow> (found, Inl e)
         | Inr vs \<Rightarrow> (Some vs, Inr True))
      else (found, Inr True))"

definition matches_multipart ::
    "regex_engine \<Rightarrow> compiled_condition \<Rightarrow> compiled_multipart_check list \<Rightarrow> header_view \<Rightarrow> bytes \<Rightarrow> runtime_variables \<Rightarrow>
     runtime_variables \<times> (eval_error + bool)" where
  "matches_multipart re c checks header body rv =
     (let wants = (\<not> cc_negated c \<and> list_ex check_has_captures checks)
      in case any_mime_part header body (multipart_visitor re checks wants) None of
           (found, Inl Header_Error) \<Rightarrow> (rv, Inl (StructuredHeader (cc_line c)))
         | (found, Inl (Visitor_Error e)) \<Rightarrow> (rv, Inl e)
         | (found, Inr matched) \<Rightarrow>
             if \<not> matched then (clear_match_values rv, Inr False)
             else if cc_negated c then (clear_match_values rv, Inr True)
             else
               (case found of
                  None \<Rightarrow> (rv, Inr True)
                | Some vs \<Rightarrow>
                    (case check_values vs of
                       Inl e \<Rightarrow> (rv, Inl e)
                     | Inr _ \<Rightarrow> (set_match_values vs (clear_numbered_match_values rv), Inr True))))"

section \<open>The header alone\<close>

datatype partial_match = PM_True | PM_False | PM_Deferred

definition from_bool :: "bool \<Rightarrow> partial_match" where
  "from_bool b = (if b then PM_True else PM_False)"

definition variable_matches ::
    "regex_engine \<Rightarrow> compiled_condition \<Rightarrow> bytes \<Rightarrow> regex_program \<Rightarrow> runtime_variables \<Rightarrow> runtime_variables \<times> (eval_error + bool)" where
  "variable_matches re c name r rv =
     (let v = (case rv_get rv name of Some v \<Rightarrow> v | None \<Rightarrow> [])
      in if length v > MAX_ASSIGNMENT_VALUE_LEN then (rv, Inl (VariableValueTooLarge name (length v)))
         else regex_matches re c r v rv)"

definition decided :: "compiled_condition \<Rightarrow> runtime_variables \<times> (eval_error + bool) \<Rightarrow> runtime_variables \<times> (eval_error + partial_match)" where
  "decided c result = (fst result, map_sum id (\<lambda>m. from_bool (apply_negation c m)) (snd result))"

definition matches_headers ::
    "regex_engine \<Rightarrow> compiled_condition \<Rightarrow> message_head \<Rightarrow> runtime_variables \<Rightarrow> runtime_variables \<times> (eval_error + partial_match)" where
  "matches_headers re c head rv =
     (case cc_kind c of
        CC_HeaderRegex r \<Rightarrow> decided c (regex_matches re c r (head_matching_header head) rv)
      | CC_AddressRegex fs r \<Rightarrow> decided c (matches_addresses re c (head_view head) fs r rv)
      | CC_IdentifierRegex fs r \<Rightarrow> decided c (matches_identifier re c (head_view head) fs r rv)
      | CC_KeywordRegex fs r \<Rightarrow> decided c (matches_keywords re c (head_view head) fs r rv)
      | CC_VariableRegex name r \<Rightarrow> decided c (variable_matches re c name r rv)
      | CC_SmallerThan n \<Rightarrow>
          if head_len head \<ge> n then decided c (rv, Inr False) else (rv, Inr PM_Deferred)
      | CC_LargerThan n \<Rightarrow>
          if head_len head > n then decided c (rv, Inr True) else (rv, Inr PM_Deferred)
      | _ \<Rightarrow> (rv, Inr PM_Deferred))"

section \<open>The complete message\<close>

definition on_input ::
    "complete_message \<Rightarrow> condition_input \<Rightarrow> runtime_variables \<Rightarrow> (bytes \<Rightarrow> runtime_variables \<times> (eval_error + bool)) \<Rightarrow>
     runtime_variables \<times> (eval_error + bool)" where
  "on_input m area rv f = (case matching_input m area of None \<Rightarrow> (rv, Inl BodyWasNotBuffered) | Some bs \<Rightarrow> f bs)"

definition negate_result :: "compiled_condition \<Rightarrow> runtime_variables \<times> (eval_error + bool) \<Rightarrow> runtime_variables \<times> (eval_error + bool)" where
  "negate_result c result = (fst result, map_sum id (apply_negation c) (snd result))"

text \<open>Every kind but a shell-expanded condition.\<close>

definition matches_plain ::
    "regex_engine \<Rightarrow> compiled_condition \<Rightarrow> complete_message \<Rightarrow> runtime_variables \<Rightarrow> runtime_variables \<times> (eval_error + bool)" where
  "matches_plain re c m rv =
     (case cc_kind c of
        CC_ShellExpanded _ _ _ _ \<Rightarrow> (rv, Inl (RuntimeCondition (cc_line c) Cond_NotResolved))
      | CC_HeaderRegex r \<Rightarrow> negate_result c (on_input m CI_Headers rv (\<lambda>bs. regex_matches re c r bs rv))
      | CC_AddressRegex fs r \<Rightarrow> negate_result c (matches_addresses re c (complete_header_view m) fs r rv)
      | CC_IdentifierRegex fs r \<Rightarrow> negate_result c (matches_identifier re c (complete_header_view m) fs r rv)
      | CC_KeywordRegex fs r \<Rightarrow> negate_result c (matches_keywords re c (complete_header_view m) fs r rv)
      | CC_BodyRegex r \<Rightarrow> negate_result c (on_input m CI_Body rv (\<lambda>bs. regex_matches re c r bs rv))
      | CC_MessageRegex r \<Rightarrow> negate_result c (on_input m CI_Message rv (\<lambda>bs. regex_matches re c r bs rv))
      | CC_VariableRegex name r \<Rightarrow> negate_result c (variable_matches re c name r rv)
      | CC_Multipart checks \<Rightarrow>
          negate_result c
            (on_input m CI_Body rv (\<lambda>bs. matches_multipart re c checks (complete_header_view m) bs rv))
      | CC_Program _ _ \<Rightarrow> (rv, Inl (ExternalConditionUnsupported (cc_line c)))
      | CC_SmallerThan n \<Rightarrow> negate_result c (rv, Inr (complete_len m < n))
      | CC_LargerThan n \<Rightarrow> negate_result c (rv, Inr (complete_len m > n)))"

section \<open>Shell-expanded conditions\<close>

type_synonym reparser = "bytes \<Rightarrow> usize \<Rightarrow> bool \<Rightarrow> (usize \<times> bytes) + condition"

text \<open>
  The passes of \<open>resolve_shell_expansion_with\<close>: expand, parse again, and go on while the text asks for
  another expansion, \<open>MAX_EXPANSION_DEPTH + 1\<close> times at most.
\<close>

fun resolve_passes ::
    "nat \<Rightarrow> reparser \<Rightarrow> (bytes \<times> shell_expression option \<Rightarrow> usize \<Rightarrow> 's \<Rightarrow> 's \<times> ('x + bytes)) \<Rightarrow> (eval_error \<Rightarrow> 'x) \<Rightarrow>
     usize \<Rightarrow> regex_area \<Rightarrow> bool \<Rightarrow> bytes \<times> shell_expression option \<Rightarrow> bool \<Rightarrow> 's \<Rightarrow> 's \<times> ('x + compiled_condition)" where
  "resolve_passes 0 reparse expand wrap line area cs shell negated s =
     (s, Inl (wrap (RuntimeCondition line Cond_Depth)))"
| "resolve_passes (Suc n) reparse expand wrap line area cs shell negated s =
     (case expand shell line s of
        (s1, Inl x) \<Rightarrow> (s1, Inl x)
      | (s1, Inr expanded) \<Rightarrow>
          (case reparse (str_trim_start expanded) line cs of
             Inl (error_line, message) \<Rightarrow> (s1, Inl (wrap (RuntimeCondition error_line (Cond_Reparse message))))
           | Inr parsed \<Rightarrow>
               (let negated1 = (negated \<noteq> cd_negated parsed)
                in case cd_kind parsed of
                     CK_ShellExpanded source expansion \<Rightarrow>
                       resolve_passes n reparse expand wrap line area cs (source, expansion) negated1 s1
                   | _ \<Rightarrow> (s1, Inr ((compile_condition area cs parsed)\<lparr>cc_negated := negated1\<rparr>)))))"

definition resolve_shell_expansion_with ::
    "reparser \<Rightarrow> (bytes \<times> shell_expression option \<Rightarrow> usize \<Rightarrow> 's \<Rightarrow> 's \<times> ('x + bytes)) \<Rightarrow> (eval_error \<Rightarrow> 'x) \<Rightarrow>
     compiled_condition \<Rightarrow> 's \<Rightarrow> 's \<times> ('x + compiled_condition option)" where
  "resolve_shell_expansion_with reparse expand wrap c s =
     (case cc_kind c of
        CC_ShellExpanded source expansion area cs \<Rightarrow>
          (case resolve_passes (MAX_EXPANSION_DEPTH + 1) reparse expand wrap (cc_line c) area cs (source, expansion)
                  (cc_negated c) s of
             (s1, Inl x) \<Rightarrow> (s1, Inl x)
           | (s1, Inr c') \<Rightarrow> (s1, Inr (Some c')))
      | _ \<Rightarrow> (s, Inr None))"

definition resolve_shell_expansion ::
    "reparser \<Rightarrow> compiled_condition \<Rightarrow> runtime_variables \<Rightarrow> eval_error + compiled_condition option" where
  "resolve_shell_expansion reparse c rv =
     snd (resolve_shell_expansion_with reparse
            (\<lambda>shell line s. (s, map_sum ExpansionFailed id (expand_shell_condition (fst shell) (snd shell) line rv)))
            (\<lambda>e. e) c ())"

definition matches_complete ::
    "regex_engine \<Rightarrow> reparser \<Rightarrow> compiled_condition \<Rightarrow> complete_message \<Rightarrow> runtime_variables \<Rightarrow>
     runtime_variables \<times> (eval_error + bool)" where
  "matches_complete re reparse c m rv =
     (case cc_kind c of
        CC_ShellExpanded _ _ _ _ \<Rightarrow>
          (case resolve_shell_expansion reparse c rv of
             Inl e \<Rightarrow> (rv, Inl e)
           | Inr None \<Rightarrow> (rv, Inl (RuntimeCondition (cc_line c) Cond_NotResolved))
           | Inr (Some resolved) \<Rightarrow> matches_plain re resolved m rv)
      | _ \<Rightarrow> matches_plain re c m rv)"

definition condition_program :: "compiled_condition \<Rightarrow> (bytes \<times> condition_input) option" where
  "condition_program c = (case cc_kind c of CC_Program command input \<Rightarrow> Some (command, input) | _ \<Rightarrow> None)"

text \<open>\<open>CompiledNode::matches_complete\<close>: all conditions, in order, up to the first that does not match.\<close>

fun node_matches_complete ::
    "regex_engine \<Rightarrow> reparser \<Rightarrow> compiled_condition list \<Rightarrow> complete_message \<Rightarrow> runtime_variables \<Rightarrow>
     runtime_variables \<times> (eval_error + bool)" where
  "node_matches_complete re reparse [] m rv = (rv, Inr True)"
| "node_matches_complete re reparse (c # cs) m rv =
     (case matches_complete re reparse c m rv of
        (rv1, Inl e) \<Rightarrow> (rv1, Inl e)
      | (rv1, Inr matched) \<Rightarrow> if matched then node_matches_complete re reparse cs m rv1 else (rv1, Inr False))"

end
