(* ===== verification/Runtime_Rc.thy ===== *)
theory Runtime_Rc
  imports Eval_Condition
begin

text \<open>
  Files that are entered while a plan runs, \<open>src/eval/runtime_rc.rs\<close>, and the assignments of
  \<open>src/eval.rs\<close>.  The trait object \<open>RuntimeRcLoader\<close> is a parameter over its own state: it returns an
  error, nothing for an empty path, or the path and the statements of the file it read.

  \<open>CompiledInclude\<close> and \<open>CompiledSwitch\<close> each own a cache from paths to loaded trees.  A loaded tree is a new
  object with empty caches; in the model it gets a fresh number, and the caches of all statements are
  one function of the tree they stand in, the line and the path.
\<close>

section \<open>State\<close>

definition MAX_RC_TRANSITIONS :: usize where "MAX_RC_TRANSITIONS = 256"
definition MAX_RC_DIAGNOSTIC_LEN :: usize where "MAX_RC_DIAGNOSTIC_LEN = 1024"
definition MAX_RUNTIME_RC_WARNINGS :: usize where "MAX_RUNTIME_RC_WARNINGS = 128"

datatype loaded_rc = Loaded_Empty | Loaded_Failed | Loaded_Sequence bytes compiled_sequence nat

record 'l rc_state =
  rs_loader :: "'l option"
  rs_transitions :: usize
  rs_dynamic_ordered :: bool
  rs_dynamic_body :: bool
  rs_dynamic_full :: bool
  rs_diagnostics :: "bytes list"
  rs_warning_count :: usize
  rs_warnings_omitted :: bool
  rs_cache :: "nat \<times> usize \<Rightarrow> bytes \<Rightarrow> loaded_rc option"
  rs_next_tree :: nat

definition rc_state_new :: "'l option \<Rightarrow> 'l rc_state" where
  "rc_state_new loader =
     \<lparr>rs_loader = loader, rs_transitions = 0, rs_dynamic_ordered = False, rs_dynamic_body = False, rs_dynamic_full = False,
      rs_diagnostics = [], rs_warning_count = 0, rs_warnings_omitted = False, rs_cache = (\<lambda>_ _. None), rs_next_tree = 1\<rparr>"

record rc_context =
  rx_depth :: usize
  rx_tree :: nat

definition rc_context_root :: rc_context where
  "rc_context_root = \<lparr>rx_depth = 0, rx_tree = 0\<rparr>"

definition OMITTED_WARNING :: bytes where
  "OMITTED_WARNING = ascii ''warning: additional runtime rc warnings were omitted''"

definition take_diagnostics :: "'l rc_state \<Rightarrow> 'l rc_state \<times> bytes list" where
  "take_diagnostics st =
     (st\<lparr>rs_diagnostics := [], rs_warnings_omitted := False, rs_warning_count := 0\<rparr>,
      rs_diagnostics st @ (if rs_warnings_omitted st then [OMITTED_WARNING] else []))"

definition reset_transitions :: "'l rc_state \<Rightarrow> 'l rc_state" where
  "reset_transitions st = st\<lparr>rs_transitions := 0\<rparr>"

definition push_warning :: "bytes \<Rightarrow> 'l rc_state \<Rightarrow> 'l rc_state" where
  "push_warning diagnostic st =
     (if rs_warning_count st < MAX_RUNTIME_RC_WARNINGS
      then st\<lparr>rs_warning_count := rs_warning_count st + 1, rs_diagnostics := rs_diagnostics st @ [diagnostic]\<rparr>
      else st\<lparr>rs_warnings_omitted := True\<rparr>)"

definition descend :: "nat \<Rightarrow> rc_context \<Rightarrow> eval_error + rc_context" where
  "descend tree ctx =
     (case checked_add (rx_depth ctx) 1 of
        None \<Rightarrow> Inl (RuntimeRc Rc_DepthOverflow)
      | Some depth \<Rightarrow> Inr \<lparr>rx_depth = depth, rx_tree = tree\<rparr>)"

definition record_transition :: "'l rc_state \<Rightarrow> eval_error + 'l rc_state" where
  "record_transition st =
     (case checked_add (rs_transitions st) 1 of
        None \<Rightarrow> Inl (RuntimeRc Rc_TransitionLimit)
      | Some n \<Rightarrow>
          if n \<le> MAX_RC_TRANSITIONS then Inr (st\<lparr>rs_transitions := n\<rparr>) else Inl (RuntimeRc Rc_TransitionLimit))"

section \<open>Loading\<close>

fun statement_name :: "rc_statement \<Rightarrow> bytes" where
  "statement_name RcInclude = ascii ''INCLUDERC''"
| "statement_name RcSwitch = ascii ''SWITCHRC''"

record rc_load_error =
  rle_resource_limit :: bool
  rle_safe_message :: bytes

type_synonym 'l rc_loader =
  "'l \<Rightarrow> rc_file_expression \<Rightarrow> runtime_variables \<Rightarrow> usize \<Rightarrow> 'l \<times> (rc_load_error + (bytes \<times> statement list) option)"

text \<open>\<open>truncate_utf8\<close>: the longest prefix within the limit that ends at a character.\<close>

fun truncate_from :: "nat \<Rightarrow> bytes \<Rightarrow> bytes" where
  "truncate_from 0 v = []"
| "truncate_from (Suc n) v = (if is_char_boundary v (Suc n) then take (Suc n) v else truncate_from n v)"

definition truncate_utf8 :: "bytes \<Rightarrow> usize \<Rightarrow> bytes" where
  "truncate_utf8 v limit = (if length v \<le> limit then v else truncate_from limit v)"

definition failure_diagnostic :: "usize \<Rightarrow> rc_statement \<Rightarrow> bytes \<Rightarrow> bytes" where
  "failure_diagnostic line statement message =
     truncate_utf8 (ascii ''line '' @ decimal line @ ascii '': '' @ statement_name statement @ ascii '' failed: '' @ message)
       MAX_RC_DIAGNOSTIC_LEN"

definition flag_diagnostic :: "bytes \<Rightarrow> usize \<times> byte \<Rightarrow> bytes" where
  "flag_diagnostic path w =
     truncate_utf8 (ascii ''warning: '' @ path @ ascii '':'' @ decimal (fst w) @ ascii '': recipe flag '' @ [39, snd w, 39] @
       ascii '' has no effect on a block'') MAX_RC_DIAGNOSTIC_LEN"

definition cache_insert :: "nat \<times> usize \<Rightarrow> bytes \<Rightarrow> loaded_rc \<Rightarrow> 'l rc_state \<Rightarrow> 'l rc_state" where
  "cache_insert key path loaded st =
     st\<lparr>rs_cache := (\<lambda>k. if k = key then (rs_cache st k)(path \<mapsto> loaded) else rs_cache st k)\<rparr>"

text \<open>The part of \<open>load_runtime_rc\<close> after a file was read: warnings, compilation, and the flags of the run.\<close>

definition install_rc :: "nat \<times> usize \<Rightarrow> bytes \<times> statement list \<Rightarrow> 'l rc_state \<Rightarrow> 'l rc_state \<times> (eval_error + loaded_rc)" where
  "install_rc key file st =
     (case file of (path, statements) \<Rightarrow>
        let st1 = fold (\<lambda>w. push_warning (flag_diagnostic path w)) (compatibility_warnings statements) st
        in if \<not> valid_utf8 path then (st1, Inl (RuntimeRc Rc_PathNotUtf8))
           else
             (let s = compile_sequence statements [];
                  loaded = Loaded_Sequence path s (rs_next_tree st1);
                  st2 = st1\<lparr>rs_dynamic_full := rs_dynamic_full st1 \<or> pp_full_matching (cq_properties s),
                            rs_dynamic_body := rs_dynamic_body st1 \<or> needs_body_contents (sequence_requirements s),
                            rs_dynamic_ordered := rs_dynamic_ordered st1 \<or> pp_ordered (cq_properties s),
                            rs_next_tree := rs_next_tree st1 + 1\<rparr>
              in (cache_insert key path loaded st2, Inr loaded)))"

definition load_runtime_rc ::
    "'l rc_loader \<Rightarrow> rc_file_expression \<Rightarrow> rc_statement \<Rightarrow> runtime_variables \<Rightarrow> rc_context \<Rightarrow> 'l rc_state \<Rightarrow>
     'l rc_state \<times> (eval_error + loaded_rc)" where
  "load_runtime_rc load e statement rv ctx st =
     (let key = (rx_tree ctx, rf_line e)
      in case record_transition st of
           Inl err \<Rightarrow> (st, Inl err)
         | Inr st1 \<Rightarrow>
             (case rc_file_resolve_with e (rv_get rv) of
                Inl err \<Rightarrow> (st1, Inl (ExpansionFailed err))
              | Inr path \<Rightarrow>
                  (case rs_cache st1 key path of
                     Some loaded \<Rightarrow> (st1, Inr loaded)
                   | None \<Rightarrow>
                       if statement = RcSwitch \<and> path = ascii ''/dev/null''
                       then (cache_insert key path Loaded_Empty st1, Inr Loaded_Empty)
                       else
                         (case descend (rx_tree ctx) ctx of
                            Inl err \<Rightarrow> (st1, Inl err)
                          | Inr child \<Rightarrow>
                              (case rs_loader st1 of
                                 None \<Rightarrow> (st1, Inl (RuntimeRcLoaderUnavailable (rf_line e) statement))
                               | Some l \<Rightarrow>
                                   (case load l e rv (rx_depth child) of
                                      (l', Inl err) \<Rightarrow>
                                        (let st2 = st1\<lparr>rs_loader := Some l'\<rparr>
                                         in if rle_resource_limit err
                                            then (st2, Inl (RuntimeRc (Rc_ResourceLimit (rf_line e) statement)))
                                            else
                                              (cache_insert key path Loaded_Failed
                                                 (st2\<lparr>rs_diagnostics := rs_diagnostics st2 @
                                                        [failure_diagnostic (rf_line e) statement (rle_safe_message err)]\<rparr>),
                                               Inr Loaded_Failed))
                                    | (l', Inr None) \<Rightarrow>
                                        (cache_insert key path Loaded_Empty (st1\<lparr>rs_loader := Some l'\<rparr>), Inr Loaded_Empty)
                                    | (l', Inr (Some file)) \<Rightarrow> install_rc key file (st1\<lparr>rs_loader := Some l'\<rparr>)))))))"

text \<open>\<open>enter_runtime_rc\<close> with \<open>EnteredRuntimeRc::sequence\<close>: the tree to run, its path and its context.\<close>

datatype entered_rc = Enter_Nothing bool | Enter_Sequence compiled_sequence bytes rc_context

definition enter_runtime_rc ::
    "'l rc_loader \<Rightarrow> rc_file_expression \<Rightarrow> rc_statement \<Rightarrow> runtime_variables \<Rightarrow> rc_context \<Rightarrow> 'l rc_state \<Rightarrow>
     'l rc_state \<times> (eval_error + entered_rc)" where
  "enter_runtime_rc load e statement rv ctx st =
     (case load_runtime_rc load e statement rv ctx st of
        (st1, Inl err) \<Rightarrow> (st1, Inl err)
      | (st1, Inr Loaded_Empty) \<Rightarrow> (st1, Inr (Enter_Nothing True))
      | (st1, Inr Loaded_Failed) \<Rightarrow> (st1, Inr (Enter_Nothing False))
      | (st1, Inr (Loaded_Sequence path s tree)) \<Rightarrow>
          (case descend tree ctx of
             Inl err \<Rightarrow> (st1, Inl err)
           | Inr child \<Rightarrow> (st1, Inr (Enter_Sequence s path child))))"

section \<open>Assignments\<close>

definition lower :: "bytes \<Rightarrow> bytes" where
  "lower bs = map to_ascii_lowercase bs"

definition parse_procmail_boolean :: "bytes \<Rightarrow> bool option" where
  "parse_procmail_boolean v =
     (let t = lower v
      in if t \<noteq> [] \<and> is_ascii_digit (hd t) \<and> hd t \<noteq> 48 \<or>
            list_ex (starts_with t) [ascii ''on'', ascii ''y'', ascii ''t'', ascii ''e''] then Some True
         else if starts_with t (ascii ''0'') \<or>
            list_ex (starts_with t) [ascii ''off'', ascii ''n'', ascii ''f'', ascii ''d''] then Some False
         else None)"

text \<open>\<open>ResolvedAssignment::apply\<close>; switching the trace sink on or off is not part of the model.\<close>

definition apply_assignment ::
    "bytes \<Rightarrow> assignment_target \<Rightarrow> bytes \<Rightarrow> usize \<Rightarrow> runtime_variables \<Rightarrow> eval_error + runtime_variables" where
  "apply_assignment name target v line rv =
     (if target = Target_Log then Inr (rv_set_bytes name v rv)
      else if target = Target_Verbose \<and> (\<not> valid_utf8 v \<or> parse_procmail_boolean v = None)
      then Inl (RuntimeCondition line Cond_Verbose)
      else if target = Target_LogAbstract \<and> (\<not> valid_utf8 v \<or> v \<notin> {ascii ''no'', ascii ''yes'', ascii ''all''})
      then Inl (RuntimeCondition line Cond_LogAbstract)
      else if target = Target_Shift then
        (if \<not> valid_utf8 v then Inl (RuntimeCondition line Cond_ShiftText)
         else
           (case parse_shift v of
              Inl e \<Rightarrow> Inl (RuntimeCondition line (Cond_Shift e))
            | Inr amount \<Rightarrow> Inr (shift_positionals amount (rv_remove (ascii ''SHIFT'') (rv_set_bytes name v rv)))))
      else Inr (rv_set_bytes name v rv))"

definition execute_assignment :: "assignment \<Rightarrow> runtime_variables \<Rightarrow> eval_error + runtime_variables" where
  "execute_assignment a rv =
     (case assignment_resolve_with a (rv_get rv) of
        Inl e \<Rightarrow> Inl (ExpansionFailed e)
      | Inr v \<Rightarrow> apply_assignment (as_name a) (as_target a) v (as_line a) rv)"

definition execute_unset :: "unset \<Rightarrow> runtime_variables \<Rightarrow> runtime_variables" where
  "execute_unset u rv = rv_remove (un_name u) rv"

text \<open>\<open>execute_host_assignment\<close>: \<open>False\<close> when the name assigned is not the name of this host.\<close>

definition execute_host_assignment :: "assignment \<Rightarrow> runtime_variables \<Rightarrow> runtime_variables \<times> (eval_error + bool)" where
  "execute_host_assignment a rv =
     (case execute_assignment a rv of
        Inl e \<Rightarrow> (rv, Inl e)
      | Inr rv1 \<Rightarrow>
          (rv1,
           case rv_hostname rv1 of
             None \<Rightarrow> Inl (RuntimeSettingUnavailable (as_line a) (ascii ''HOST''))
           | Some current \<Rightarrow> Inr ((case rv_get rv1 (ascii ''HOST'') of Some v \<Rightarrow> v | None \<Rightarrow> []) = current)))"

section \<open>Captured output\<close>

datatype captured_newline_rule = StripOne | StripAll

definition strip_newlines :: "captured_newline_rule \<Rightarrow> bytes \<Rightarrow> bytes" where
  "strip_newlines rule bs =
     (case rule of
        StripOne \<Rightarrow> if bs \<noteq> [] \<and> last bs = LF then butlast bs else bs
      | StripAll \<Rightarrow> rev (dropWhile (\<lambda>b. b = LF) (rev bs)))"

definition validate_captured_value ::
    "bytes \<Rightarrow> usize \<Rightarrow> bytes \<Rightarrow> captured_newline_rule \<Rightarrow> eval_error + bytes" where
  "validate_captured_value bs limit name rule =
     (if length bs > limit then Inl (VariableValueTooLarge name (length bs)) else Inr (strip_newlines rule bs))"

definition active_command_value_limit :: "runtime_variables \<Rightarrow> assignment_target \<Rightarrow> usize \<Rightarrow> eval_error + usize" where
  "active_command_value_limit rv target line =
     (case linebuf_of rv (Some line) of
        Inl e \<Rightarrow> Inl (RuntimeSettingUnavailable (case rse_line e of Some n \<Rightarrow> n | None \<Rightarrow> 0) (rse_name e))
      | Inr linebuf \<Rightarrow> Inr (min linebuf (value_limit target)))"

section \<open>Facts\<close>

lemma truncate_from_length: "length (truncate_from n v) \<le> n"
  by (induction n) auto

lemma truncate_utf8_length: "length (truncate_utf8 v limit) \<le> limit"
  using truncate_from_length by (auto simp: truncate_utf8_def)

lemma record_transition_Inr:
  "record_transition st = Inr st' \<Longrightarrow>
     st' = st\<lparr>rs_transitions := rs_transitions st + 1\<rparr> \<and> rs_transitions st' \<le> MAX_RC_TRANSITIONS"
  by (auto simp: record_transition_def checked_add_def split: if_splits)

lemma push_warnings_transitions [simp]: "rs_transitions (fold (\<lambda>w. push_warning (f w)) ws st) = rs_transitions st"
  by (induction ws arbitrary: st) (auto simp: push_warning_def)

lemma cache_insert_transitions [simp]: "rs_transitions (cache_insert key path loaded st) = rs_transitions st"
  by (simp add: cache_insert_def)

lemma install_rc_transitions [simp]: "rs_transitions (fst (install_rc key f st)) = rs_transitions st"
  by (cases f) (simp add: install_rc_def Let_def)

text \<open>Entering a file counts as one transition, whether it is loaded now or was loaded before.\<close>

lemma load_runtime_rc_transitions:
  "rs_transitions (fst (load_runtime_rc load e statement rv ctx st)) =
     (if rs_transitions st < MAX_RC_TRANSITIONS then rs_transitions st + 1 else rs_transitions st)"
  "rs_transitions st \<ge> MAX_RC_TRANSITIONS \<Longrightarrow> \<exists>err. snd (load_runtime_rc load e statement rv ctx st) = Inl err"
proof -
  have limit: "MAX_RC_TRANSITIONS + 1 \<le> usize_max" by (simp add: MAX_RC_TRANSITIONS_def usize_max_def)
  show "\<exists>err. snd (load_runtime_rc load e statement rv ctx st) = Inl err" if "rs_transitions st \<ge> MAX_RC_TRANSITIONS"
    using that by (auto simp: load_runtime_rc_def record_transition_def checked_add_def split: if_splits)
  show "rs_transitions (fst (load_runtime_rc load e statement rv ctx st)) =
      (if rs_transitions st < MAX_RC_TRANSITIONS then rs_transitions st + 1 else rs_transitions st)"
  proof (cases "rs_transitions st < MAX_RC_TRANSITIONS")
    case True
    then have "record_transition st = Inr (st\<lparr>rs_transitions := rs_transitions st + 1\<rparr>)"
      using limit by (simp add: record_transition_def checked_add_def)
    then show ?thesis
      using True by (simp add: load_runtime_rc_def Let_def split: sum.split option.split prod.split)
  next
    case False
    then show ?thesis by (auto simp: load_runtime_rc_def record_transition_def checked_add_def)
  qed
qed

lemma enter_runtime_rc_transitions:
  "rs_transitions (fst (enter_runtime_rc load e statement rv ctx st)) =
     (if rs_transitions st < MAX_RC_TRANSITIONS then rs_transitions st + 1 else rs_transitions st)"
  "rs_transitions st \<ge> MAX_RC_TRANSITIONS \<Longrightarrow> \<exists>err. snd (enter_runtime_rc load e statement rv ctx st) = Inl err"
  using load_runtime_rc_transitions [where load = load and e = e and statement = statement and rv = rv and ctx = ctx and st = st]
  by (auto simp: enter_runtime_rc_def split: prod.splits sum.splits loaded_rc.splits)

end
