(* ===== verification/Eval_Ordered.thy ===== *)
theory Eval_Ordered
  imports Runtime_Rc
begin

text \<open>
  Ordered execution of a plan, \<open>src/eval/ordered.rs\<close>: conditions, actions, copy blocks, statements and
  files entered at run time, over one record of state, and \<open>ExecutionPlan\<close> of \<open>src/eval.rs\<close>.

  The trait \<open>OrderedExecutionHost\<close> is a record of operations over the state of the host and the
  variables.  A guard returned by \<open>acquire_local_lock\<close> is dropped by \<open>oh_release\<close>.  An unwaited copy block runs in a
  scoped thread beside its parent; the model takes the schedule in which the branch finishes first, and
  hands the state that the two share, the copy budget and the files entered, from one to the other.

  Entering a file runs a tree that is not part of the one being executed, so the recursion carries
  fuel, spent at each file entered; the error \<open>Err_Fuel\<close> stands for having none left and is no error
  of the program.  \<open>Err_Diverged\<close> stands for a header edit that does not return, which
  is shown not to happen.
\<close>

section \<open>Steps\<close>

type_synonym ('s, 'e, 'a) step = "'s \<Rightarrow> 's \<times> ('e + 'a)"

definition step_return :: "'a \<Rightarrow> ('s, 'e, 'a) step" where
  "step_return x s = (s, Inr x)"

definition step_fail :: "'e \<Rightarrow> ('s, 'e, 'a) step" where
  "step_fail e s = (s, Inl e)"

definition step_bind :: "('s, 'e, 'a) step \<Rightarrow> ('a \<Rightarrow> ('s, 'e, 'b) step) \<Rightarrow> ('s, 'e, 'b) step" where
  "step_bind m k s = (case m s of (s1, Inl e) \<Rightarrow> (s1, Inl e) | (s1, Inr x) \<Rightarrow> k x s1)"

text \<open>A step chosen by the state it starts in.\<close>

definition step_with :: "('s \<Rightarrow> ('s, 'e, 'a) step) \<Rightarrow> ('s, 'e, 'a) step" where
  "step_with f s = f s s"

section \<open>The host\<close>

datatype 'x attempt_error = Recoverable 'x | Fatal 'x

datatype 'x ordered_error = Err_Evaluation eval_error | Err_Delivery 'x | Err_Fuel | Err_Diverged

datatype sequence_control = SC_Continue | SC_Stop | SC_EndRcFile | SC_Complete

record delivery_outcome =
  do_published :: usize
  do_original_delivered :: bool

record external_input =
  ei_selected :: message_bytes
  ei_header :: bytes
  ei_body :: bytes

record ('h, 'g, 'x) ordered_host =
  oh_deliver :: "destination \<Rightarrow> final_message \<Rightarrow> output_ending \<Rightarrow> bytes option \<Rightarrow> ('h \<times> runtime_variables, 'x attempt_error, unit) step"
  oh_external_action :: "bytes \<Rightarrow> recipe_options \<Rightarrow> bytes option \<Rightarrow> external_input \<Rightarrow>
    ('h \<times> runtime_variables, 'x attempt_error, message option) step"
  oh_capture :: "bytes \<Rightarrow> message_bytes \<Rightarrow> output_ending \<Rightarrow> recipe_options option \<Rightarrow> usize \<Rightarrow>
    ('h \<times> runtime_variables, 'x attempt_error, bytes) step"
  oh_condition :: "bytes \<Rightarrow> message_bytes \<Rightarrow> ('h \<times> runtime_variables, 'x attempt_error, bool) step"
  oh_replace_global_lock :: "bytes \<Rightarrow> ('h \<times> runtime_variables, 'x, unit) step"
  oh_acquire_local_lock :: "bytes \<Rightarrow> ('h \<times> runtime_variables, 'x attempt_error, 'g) step"
  oh_release :: "'g \<Rightarrow> 'h \<Rightarrow> 'h"
  oh_enter_copy :: "'h \<Rightarrow> 'h"
  oh_leave_copy :: "'h \<Rightarrow> 'h"
  oh_fork_copy :: "'h \<Rightarrow> 'h \<times> 'h option"
  oh_spawn :: "'h \<Rightarrow> 'h \<times> bool"
  oh_finish_background :: "'h \<Rightarrow> 'h \<times> ('x + unit)"
  oh_complete :: "final_message \<Rightarrow> 'x ordered_error + delivery_outcome \<Rightarrow> 'h \<times> runtime_variables \<Rightarrow> 'h \<times> runtime_variables"

record ('h, 'g, 'x, 'l) services =
  sv_host :: "('h, 'g, 'x) ordered_host"
  sv_engine :: regex_engine
  sv_reparse :: reparser
  sv_load :: "'l rc_loader"

section \<open>State\<close>

definition MAX_BACKGROUND_COPY_BRANCHES :: usize where "MAX_BACKGROUND_COPY_BRANCHES = 128"

record ('h, 'x, 'l) execution =
  ex_message :: complete_message
  ex_current :: current_message
  ex_runtime :: runtime_variables
  ex_host :: 'h
  ex_published :: usize
  ex_original_delivered :: bool
  ex_pending :: "'x option"
  ex_rc :: rc_context
  ex_limits :: message_limits
  ex_copies :: usize
  ex_rc_state :: "'l rc_state"

type_synonym ('h, 'x, 'l, 'a) exec = "(('h, 'x, 'l) execution, 'x ordered_error, 'a) step"

definition view_of :: "('h, 'x, 'l) execution \<Rightarrow> complete_message" where
  "view_of s = cm_view (ex_current s) (ex_message s)"

definition eval_fail :: "eval_error \<Rightarrow> ('h, 'x, 'l, 'a) exec" where
  "eval_fail e = step_fail (Err_Evaluation e)"

definition eval_lift :: "eval_error + 'a \<Rightarrow> ('h, 'x, 'l, 'a) exec" where
  "eval_lift r s = (s, map_sum Err_Evaluation id r)"

definition expansion_lift :: "expansion_error + 'a \<Rightarrow> ('h, 'x, 'l, 'a) exec" where
  "expansion_lift r = eval_lift (map_sum ExpansionFailed id r)"

definition buffered :: "'a option \<Rightarrow> ('h, 'x, 'l, 'a) exec" where
  "buffered r = (case r of Some x \<Rightarrow> step_return x | None \<Rightarrow> eval_fail BodyWasNotBuffered)"

text \<open>A step on the variables, and one on the host with the variables.\<close>

definition runtime_step :: "(runtime_variables \<Rightarrow> runtime_variables \<times> (eval_error + 'a)) \<Rightarrow> ('h, 'x, 'l, 'a) exec" where
  "runtime_step f s = (case f (ex_runtime s) of (rv, r) \<Rightarrow> (s\<lparr>ex_runtime := rv\<rparr>, map_sum Err_Evaluation id r))"

definition update_runtime :: "(runtime_variables \<Rightarrow> runtime_variables) \<Rightarrow> ('h, 'x, 'l, unit) exec" where
  "update_runtime f s = (s\<lparr>ex_runtime := f (ex_runtime s)\<rparr>, Inr ())"

definition host_step :: "('h \<times> runtime_variables, 'e, 'a) step \<Rightarrow> (('h, 'x, 'l) execution, 'e, 'a) step" where
  "host_step f s =
     (case f (ex_host s, ex_runtime s) of ((h, rv), r) \<Rightarrow> (s\<lparr>ex_host := h, ex_runtime := rv\<rparr>, r))"

section \<open>Outcomes of actions\<close>

definition action_succeeded :: "sequence_control \<Rightarrow> ('h, 'x, 'l, action_execution \<times> sequence_control) exec" where
  "action_succeeded control s = (s\<lparr>ex_pending := None\<rparr>, Inr (Succeeded, control))"

definition action_failed :: "'x \<Rightarrow> ('h, 'x, 'l, action_execution \<times> sequence_control) exec" where
  "action_failed e s = (s\<lparr>ex_pending := Some e\<rparr>, Inr (Failed, SC_Continue))"

text \<open>An attempt by the host: go on with its result, or fail this action, or all.\<close>

definition attempt ::
    "('h \<times> runtime_variables, 'x attempt_error, 'a) step \<Rightarrow> ('a \<Rightarrow> ('h, 'x, 'l, action_execution \<times> sequence_control) exec) \<Rightarrow>
     ('h, 'x, 'l, action_execution \<times> sequence_control) exec" where
  "attempt f k s =
     (case host_step f s of
        (s1, Inr x) \<Rightarrow> k x s1
      | (s1, Inl (Recoverable e)) \<Rightarrow> action_failed e s1
      | (s1, Inl (Fatal e)) \<Rightarrow> (s1, Inl (Err_Delivery e)))"

section \<open>Shell expressions\<close>

text \<open>An evaluation fails with an error of its own or with one of the host.\<close>

type_synonym 'x shell_error = "eval_error + 'x"

fun of_shell_error :: "'x shell_error \<Rightarrow> 'x ordered_error" where
  "of_shell_error (Inl e) = Err_Evaluation e"
| "of_shell_error (Inr x) = Err_Delivery x"

definition expansion_at :: "usize \<Rightarrow> expansion_message \<Rightarrow> 'x shell_error" where
  "expansion_at line m = Inl (ExpansionFailed (message_at line m))"

text \<open>\<open>OrderedExpressionEvaluation\<close>.\<close>

definition ordered_context ::
    "('h, 'g, 'x) ordered_host \<Rightarrow> usize \<Rightarrow> bytes \<Rightarrow> message_bytes \<Rightarrow> ('h \<times> runtime_variables, 'x shell_error) eval_context" where
  "ordered_context host line value_name message =
     \<lparr>ec_depth_mode = (\<lambda>_. Depth_None),
      ec_variable = (\<lambda>c name. (c, Inr (map_option (\<lambda>v. \<lparr>vv_bytes = v, vv_depth = 0\<rparr>) (rv_get_bytes (snd c) name)))),
      ec_command = (\<lambda>c command n.
        case oh_capture host command message Preserve None n c of
          (c1, Inl (Recoverable e)) \<Rightarrow> (c1, Inl (Inr e))
        | (c1, Inl (Fatal e)) \<Rightarrow> (c1, Inl (Inr e))
        | (c1, Inr out) \<Rightarrow> (c1, map_sum Inl id (validate_captured_value out n value_name StripAll))),
      ec_regex_quoted = (\<lambda>c name n.
        (c, case rv_get_bytes (snd c) name of
              None \<Rightarrow> Inl (expansion_at line (Msg_NotDefined name))
            | Some v \<Rightarrow> map_sum (\<lambda>e. Inl (ExpansionFailed e)) id (push_regex_escaped v n line))),
      ec_missing_variable = (\<lambda>_ name. expansion_at line (Msg_NotDefined name)),
      ec_required_parameter = (\<lambda>_ name. expansion_at line (Msg_UnsetOrEmpty name)),
      ec_pattern_error = (\<lambda>_ e. expansion_at line (Msg_Pattern e)),
      ec_depth_exceeded = (\<lambda>_. expansion_at line (Msg_Syntax Msg_DepthLimit)),
      ec_depth_overflow = (\<lambda>_. expansion_at line Msg_DepthOverflow),
      ec_length_error = (\<lambda>_ e current limit.
        Inl (VariableValueTooLarge value_name
          (case e of LengthOverflow \<Rightarrow> usize_max | BytesLimitExceeded n \<Rightarrow> max n current)))\<rparr>"

definition evaluate_shell_expression ::
    "('h, 'g, 'x) ordered_host \<Rightarrow> shell_expression \<Rightarrow> usize \<Rightarrow> bytes \<Rightarrow> message_bytes \<Rightarrow> usize \<Rightarrow> ('h, 'x, 'l, bytes) exec" where
  "evaluate_shell_expression host e line value_name message limit s =
     (case evaluate (ordered_context host line value_name message) e limit (ex_host s, ex_runtime s) of
        ((h, rv), Inl err) \<Rightarrow> (s\<lparr>ex_host := h, ex_runtime := rv\<rparr>, Inl (of_shell_error err))
      | ((h, rv), Inr r) \<Rightarrow>
          (s\<lparr>ex_host := h, ex_runtime := fold (\<lambda>(n, v). rv_set_bytes n v) (er_assignments r) rv\<rparr>, Inr (er_bytes r)))"

section \<open>Conditions\<close>

definition condition_limit :: "usize \<Rightarrow> runtime_variables \<Rightarrow> eval_error + usize" where
  "condition_limit line rv =
     (case linebuf_of rv (Some line) of
        Inl e \<Rightarrow> Inl (RuntimeSettingUnavailable (case rse_line e of Some n \<Rightarrow> n | None \<Rightarrow> 0) (rse_name e))
      | Inr linebuf \<Rightarrow> Inr linebuf)"

definition expand_condition ::
    "('h, 'g, 'x) ordered_host \<Rightarrow> complete_message \<Rightarrow> bytes \<times> shell_expression option \<Rightarrow> usize \<Rightarrow> ('h, 'x, 'l, bytes) exec" where
  "expand_condition host m shell line =
     step_bind
       (expansion_lift (case snd shell of Some e \<Rightarrow> Inr e | None \<Rightarrow> parse_shell_condition_expression (fst shell) line)) (\<lambda>e.
     step_bind (step_with (\<lambda>s. eval_lift (condition_limit line (ex_runtime s)))) (\<lambda>limit.
     step_bind (buffered (final_new m)) (\<lambda>final.
     step_bind (evaluate_shell_expression host e line (ascii ''shell-expanded condition'') (final_bytes final) limit) (\<lambda>bs.
       if valid_utf8 bs then step_return bs else eval_fail (RuntimeCondition line Cond_NotUtf8)))))"

definition match_condition :: "('h, 'g, 'x, 'l) services \<Rightarrow> compiled_condition \<Rightarrow> ('h, 'x, 'l, bool) exec" where
  "match_condition sv c =
     step_with (\<lambda>s0. let m = view_of s0 in
     step_bind
       (resolve_shell_expansion_with (sv_reparse sv) (expand_condition (sv_host sv) m) Err_Evaluation c) (\<lambda>resolved.
       let c1 = (case resolved of Some c' \<Rightarrow> c' | None \<Rightarrow> c)
       in case condition_program c1 of
            Some (command, input) \<Rightarrow>
              step_bind (buffered (program_input m input)) (\<lambda>bs s.
                case host_step (oh_condition (sv_host sv) command bs) s of
                  (s1, Inr matched) \<Rightarrow> (s1, Inr (apply_negation c1 matched))
                | (s1, Inl (Recoverable e)) \<Rightarrow> (s1, Inl (Err_Delivery e))
                | (s1, Inl (Fatal e)) \<Rightarrow> (s1, Inl (Err_Delivery e)))
          | None \<Rightarrow> runtime_step (matches_complete (sv_engine sv) (sv_reparse sv) c1 m)))"

fun matches_ordered :: "('h, 'g, 'x, 'l) services \<Rightarrow> compiled_condition list \<Rightarrow> ('h, 'x, 'l, bool) exec" where
  "matches_ordered sv [] = step_return True"
| "matches_ordered sv (c # cs) =
     step_bind (match_condition sv c) (\<lambda>matched. if matched then matches_ordered sv cs else step_return False)"

section \<open>Actions\<close>

definition resolve_lock :: "path_expression option \<Rightarrow> ('h, 'x, 'l, bytes option) exec" where
  "resolve_lock lock =
     step_with (\<lambda>s.
       case lock of
         None \<Rightarrow> step_return None
       | Some x \<Rightarrow> expansion_lift (map_sum id Some (path_expression_resolve_with x (rv_get (ex_runtime s)))))"

definition value_limit_step :: "assignment_target \<Rightarrow> usize \<Rightarrow> ('h, 'x, 'l, usize) exec" where
  "value_limit_step target line = step_with (\<lambda>s. eval_lift (active_command_value_limit (ex_runtime s) target line))"

definition execute_capture ::
    "('h, 'g, 'x, 'l) services \<Rightarrow> capture_action \<Rightarrow> recipe_options \<Rightarrow> ('h, 'x, 'l, action_execution \<times> sequence_control) exec" where
  "execute_capture sv action options =
     step_with (\<lambda>s0.
     step_bind (buffered (select_action_input (view_of s0) (ro_action_input options))) (\<lambda>input.
     step_bind (value_limit_step (ca_target action) (ca_line action)) (\<lambda>limit.
       attempt (oh_capture (sv_host sv) (ca_command action) input (ro_output_ending options) (Some options) limit) (\<lambda>out.
         step_bind (eval_lift (validate_captured_value out limit (ca_name action) StripOne)) (\<lambda>v.
         step_bind (update_runtime (rv_set_bytes (ca_name action) v)) (\<lambda>_. action_succeeded SC_Continue))))))"

definition install_edit :: "usize \<Rightarrow> header_view \<Rightarrow> applied_header_action \<Rightarrow> ('h, 'x, 'l, unit) exec" where
  "install_edit line source applied s =
     (if changed_from applied source then
        (case complete_body (ex_message s) of
           None \<Rightarrow> (s, Inl (Err_Evaluation BodyWasNotBuffered))
         | Some original \<Rightarrow>
             (case cm_replace_header (ah_header applied) original (ex_limits s) (ex_current s) of
                Inl e \<Rightarrow> (s, Inl (Err_Evaluation (HeaderEditFailed line e)))
              | Inr current \<Rightarrow> (s\<lparr>ex_current := current\<rparr>, Inr ())))
      else (s, Inr ()))"

definition execute_headers :: "usize \<Rightarrow> header_operation list \<Rightarrow> ('h, 'x, 'l, action_execution \<times> sequence_control) exec" where
  "execute_headers line operations =
     step_with (\<lambda>s0. let source = complete_header_view (view_of s0) in
     step_bind (buffered (complete_body (view_of s0))) (\<lambda>body.
     step_bind (expansion_lift (header_action_resolve_with operations (rv_get (ex_runtime s0)))) (\<lambda>resolved.
       case apply_header_action source (length body) resolved (ex_limits s0) of
         None \<Rightarrow> step_fail Err_Diverged
       | Some (Inl e) \<Rightarrow> eval_fail (HeaderEditFailed line e)
       | Some (Inr applied) \<Rightarrow>
           step_bind (install_edit line source applied) (\<lambda>_.
           step_bind (update_runtime (apply_header_extractions (ah_extractions applied))) (\<lambda>_.
             action_succeeded SC_Continue)))))"

definition replace_message :: "message \<Rightarrow> action_input \<Rightarrow> ('h, 'x, 'l, unit) exec" where
  "replace_message m area s = (s\<lparr>ex_current := cm_replace m area (ex_current s)\<rparr>, Inr ())"

definition delivered_original :: "('h, 'x, 'l, unit) exec" where
  "delivered_original s = (s\<lparr>ex_original_delivered := True\<rparr>, Inr ())"

definition finish_pipe ::
    "usize \<Rightarrow> recipe_options \<Rightarrow> message option \<Rightarrow> ('h, 'x, 'l, action_execution \<times> sequence_control) exec" where
  "finish_pipe line options replacement =
     (if ro_action_mode options = Mode_Filter then
        (case replacement of
           None \<Rightarrow> eval_fail (InvalidExternalActionResult line Filter_WithoutReplacement)
         | Some m \<Rightarrow>
             step_bind (replace_message m (ro_action_input options)) (\<lambda>_. action_succeeded SC_Continue))
      else if replacement \<noteq> None then eval_fail (InvalidExternalActionResult line Pipe_WithReplacement)
      else if ro_continuation options = Cont_Stop then step_bind delivered_original (\<lambda>_. action_succeeded SC_Stop)
      else action_succeeded SC_Continue)"

definition execute_pipe ::
    "('h, 'g, 'x, 'l) services \<Rightarrow> usize \<Rightarrow> path_expression option \<Rightarrow> bytes \<Rightarrow> recipe_options \<Rightarrow>
     ('h, 'x, 'l, action_execution \<times> sequence_control) exec" where
  "execute_pipe sv line lock command options =
     step_with (\<lambda>s0. let m = view_of s0 in
     step_bind (buffered (select_action_input m (ro_action_input options))) (\<lambda>input.
     step_bind (buffered (complete_body m)) (\<lambda>body.
     step_bind (resolve_lock lock) (\<lambda>path.
       attempt (oh_external_action (sv_host sv) command options path
                  \<lparr>ei_selected = input, ei_header = raw_header m, ei_body = body\<rparr>)
         (finish_pipe line options)))))"

definition resolve_destination ::
    "('h, 'g, 'x, 'l) services \<Rightarrow> message_bytes \<Rightarrow> destination \<Rightarrow> ('h, 'x, 'l, destination) exec" where
  "resolve_destination sv message d =
     (let line = pe_line (destination_expression d)
      in case command_expression d of
           Some e \<Rightarrow>
             step_bind (value_limit_step Target_User line) (\<lambda>limit.
             step_bind
               (evaluate_shell_expression (sv_host sv) e line (ascii ''destination'') message
                  (min limit MAX_PATH_EXPRESSION_LEN)) (\<lambda>bs.
               if \<not> valid_utf8 bs then eval_fail (DestinationCommandOutputIsNotUtf8 line)
               else step_with (\<lambda>s. expansion_lift (resolve_ordered_output d bs (maildir_of (ex_runtime s))))))
         | None \<Rightarrow> step_with (\<lambda>s. expansion_lift (destination_bind_with d (rv_get (ex_runtime s)))))"

definition count_delivery :: "('h, 'x, 'l, unit) exec" where
  "count_delivery s = (s\<lparr>ex_published := ex_published s + 1\<rparr>, Inr ())"

definition execute_deliver ::
    "('h, 'g, 'x, 'l) services \<Rightarrow> path_expression option \<Rightarrow> destination \<Rightarrow> continuation_mode \<Rightarrow> output_ending \<Rightarrow>
     ('h, 'x, 'l, action_execution \<times> sequence_control) exec" where
  "execute_deliver sv lock d cont ending =
     step_with (\<lambda>s0.
     step_bind (buffered (final_new (view_of s0))) (\<lambda>final.
     step_bind (resolve_destination sv (final_bytes final) d) (\<lambda>target.
     step_bind (resolve_lock lock) (\<lambda>path.
       attempt (oh_deliver (sv_host sv) target final ending path) (\<lambda>_.
         step_bind count_delivery (\<lambda>_.
           if cont = Cont_Stop then step_bind delivered_original (\<lambda>_. action_succeeded SC_Stop)
           else action_succeeded SC_Continue))))))"

text \<open>The children of a block, under its lock when it has one.  The guard is released however they end.\<close>

definition clear_pending :: "('h, 'x, 'l, unit) exec" where
  "clear_pending s = (s\<lparr>ex_pending := None\<rparr>, Inr ())"

definition leave_block ::
    "('h, 'x, 'l, action_execution \<times> sequence_control) exec \<Rightarrow> ('h, 'x, 'l, action_execution \<times> sequence_control) exec" where
  "leave_block children =
     step_bind children (\<lambda>(action, control). step_return (action, if control = SC_Complete then SC_Continue else control))"

definition release_after ::
    "('h, 'g, 'x, 'l) services \<Rightarrow> 'g \<Rightarrow> ('h, 'x, 'l, 'a) exec \<Rightarrow> ('h, 'x, 'l, 'a) exec" where
  "release_after sv guard m s =
     (case m s of (s1, r) \<Rightarrow> (s1\<lparr>ex_host := oh_release (sv_host sv) guard (ex_host s1)\<rparr>, r))"

definition execute_block ::
    "('h, 'g, 'x, 'l) services \<Rightarrow> path_expression option \<Rightarrow> ('h, 'x, 'l, action_execution \<times> sequence_control) exec \<Rightarrow>
     ('h, 'x, 'l, action_execution \<times> sequence_control) exec" where
  "execute_block sv lock children =
     step_bind clear_pending (\<lambda>_.
     step_bind (resolve_lock lock) (\<lambda>path.
       case path of
         None \<Rightarrow> leave_block children
       | Some p \<Rightarrow>
           attempt (oh_acquire_local_lock (sv_host sv) p) (\<lambda>guard. release_after sv guard (leave_block children))))"

text \<open>The actions that run no other recipe.\<close>

fun execute_simple ::
    "('h, 'g, 'x, 'l) services \<Rightarrow> usize \<Rightarrow> path_expression option \<Rightarrow> compiled_action \<Rightarrow>
     ('h, 'x, 'l, action_execution \<times> sequence_control) exec" where
  "execute_simple sv line lock (CA_Capture action options) = execute_capture sv action options"
| "execute_simple sv line lock (CA_Headers operations) = execute_headers line operations"
| "execute_simple sv line lock (CA_Pipe command options) = execute_pipe sv line lock command options"
| "execute_simple sv line lock (CA_Deliver d cont ending) = execute_deliver sv lock d cont ending"
| "execute_simple sv line lock (CA_Block s) = step_return (NotAttempted, SC_Continue)"

section \<open>Copy blocks\<close>

definition is_waited_copy_block :: "compiled_node \<Rightarrow> bool" where
  "is_waited_copy_block n \<longleftrightarrow> is_block (cn_action n) \<and> cn_continuation n = Cont_Continue \<and>
     (cn_child_status n \<noteq> Child_Ignore \<or> cn_lock n \<noteq> None)"

definition is_unwaited_copy_block :: "compiled_node \<Rightarrow> bool" where
  "is_unwaited_copy_block n \<longleftrightarrow> is_block (cn_action n) \<and> cn_continuation n = Cont_Continue \<and>
     cn_child_status n = Child_Ignore \<and> cn_lock n = None"

definition copy_waited ::
    "('h, 'g, 'x, 'l) services \<Rightarrow> ('h, 'x, 'l, action_execution \<times> sequence_control) exec \<Rightarrow>
     ('h, 'x, 'l, action_execution \<times> sequence_control) exec" where
  "copy_waited sv branch s =
     (case fork (ex_runtime s) of
        (parent_runtime, branch_runtime) \<Rightarrow>
          (case branch (s\<lparr>ex_runtime := branch_runtime, ex_pending := None,
                         ex_host := oh_enter_copy (sv_host sv) (ex_host s)\<rparr>) of
             (s1, r) \<Rightarrow>
               (let s2 = s1\<lparr>ex_host := oh_leave_copy (sv_host sv) (ex_host s1), ex_runtime := parent_runtime,
                           ex_current := ex_current s, ex_pending := ex_pending s,
                           ex_original_delivered := ex_original_delivered s, ex_rc := ex_rc s\<rparr>
                in case r of
                     Inl e \<Rightarrow> (s2, Inl e)
                   | Inr _ \<Rightarrow>
                       (case ex_pending s1 of
                          Some e \<Rightarrow> action_failed e s2
                        | None \<Rightarrow> action_succeeded SC_Continue s2))))"

definition reserve_copy :: "usize \<Rightarrow> ('h, 'x, 'l, unit) exec" where
  "reserve_copy line s =
     (if ex_copies s < MAX_BACKGROUND_COPY_BRANCHES then (s\<lparr>ex_copies := ex_copies s + 1\<rparr>, Inr ())
      else (s, Inl (Err_Evaluation (BackgroundCopyUnavailable line Copy_Limit))))"

definition fork_host :: "('h, 'g, 'x, 'l) services \<Rightarrow> usize \<Rightarrow> ('h, 'x, 'l, 'h) exec" where
  "fork_host sv line s =
     (case oh_fork_copy (sv_host sv) (ex_host s) of
        (h, None) \<Rightarrow> (s\<lparr>ex_host := h\<rparr>, Inl (Err_Evaluation (BackgroundCopyUnavailable line Copy_NoHost)))
      | (h, Some b) \<Rightarrow> (s\<lparr>ex_host := h\<rparr>, Inr b))"

definition fork_runtime :: "('h, 'x, 'l, runtime_variables) exec" where
  "fork_runtime s = (case fork (ex_runtime s) of (p, b) \<Rightarrow> (s\<lparr>ex_runtime := p\<rparr>, Inr b))"

definition spawn :: "('h, 'g, 'x, 'l) services \<Rightarrow> usize \<Rightarrow> ('h, 'x, 'l, unit) exec" where
  "spawn sv line s =
     (case oh_spawn (sv_host sv) (ex_host s) of
        (h, True) \<Rightarrow> (s\<lparr>ex_host := h\<rparr>, Inr ())
      | (h, False) \<Rightarrow> (s\<lparr>ex_host := h\<rparr>, Inl (Err_Evaluation (BackgroundCopyUnavailable line Copy_Thread))))"

text \<open>What the branch leaves: its result, the supervision of its commands, and what it published.\<close>

record 'x joined_branch =
  jb_execution :: "'x ordered_error + (action_execution \<times> sequence_control)"
  jb_supervision :: "'x + unit"
  jb_published :: usize

definition run_branch ::
    "('h, 'g, 'x, 'l) services \<Rightarrow> 'h \<Rightarrow> runtime_variables \<Rightarrow> ('h, 'x, 'l, action_execution \<times> sequence_control) exec \<Rightarrow>
     ('h, 'x, 'l, 'x joined_branch) exec" where
  "run_branch sv host rv branch s =
     (case branch (s\<lparr>ex_runtime := rv, ex_host := host, ex_published := 0, ex_original_delivered := False,
                     ex_pending := None\<rparr>) of
        (b, r) \<Rightarrow>
          (s\<lparr>ex_copies := ex_copies b, ex_rc_state := ex_rc_state b\<rparr>,
           Inr \<lparr>jb_execution = r, jb_supervision = snd (oh_finish_background (sv_host sv) (ex_host b)),
                jb_published = ex_published b\<rparr>))"

text \<open>The parent goes on, whatever its result, and then the branch is joined.\<close>

definition join_branch ::
    "usize \<Rightarrow> 'x joined_branch \<Rightarrow> ('h, 'x, 'l, action_execution \<times> sequence_control) exec \<Rightarrow>
     ('h, 'x, 'l, action_execution \<times> sequence_control) exec" where
  "join_branch line joined parent s =
     (case parent s of
        (s1, r) \<Rightarrow>
          (case checked_add (ex_published s1) (jb_published joined) of
             None \<Rightarrow> (s1, Inl (Err_Evaluation (BackgroundCopyUnavailable line Copy_Overflow)))
           | Some n \<Rightarrow>
               (let s2 = s1\<lparr>ex_published := n\<rparr>
                in case jb_supervision joined of
                     Inl e \<Rightarrow> (s2, Inl (Err_Delivery e))
                   | Inr _ \<Rightarrow>
                       (case jb_execution joined of
                          Inl (Err_Evaluation e) \<Rightarrow> (s2, Inl (Err_Evaluation e))
                        | Inl Err_Fuel \<Rightarrow> (s2, Inl Err_Fuel)
                        | Inl Err_Diverged \<Rightarrow> (s2, Inl Err_Diverged)
                        | _ \<Rightarrow> (s2, map_sum id (\<lambda>(action, _). (action, SC_Complete)) r)))))"

definition copy_unwaited ::
    "('h, 'g, 'x, 'l) services \<Rightarrow> usize \<Rightarrow> ('h, 'x, 'l, action_execution \<times> sequence_control) exec \<Rightarrow>
     ('h, 'x, 'l, action_execution \<times> sequence_control) exec \<Rightarrow> ('h, 'x, 'l, action_execution \<times> sequence_control) exec" where
  "copy_unwaited sv line branch parent =
     step_bind (reserve_copy line) (\<lambda>_.
     step_bind (fork_host sv line) (\<lambda>host.
     step_bind fork_runtime (\<lambda>rv.
     step_bind (spawn sv line) (\<lambda>_.
     step_bind (run_branch sv host rv branch) (\<lambda>joined. join_branch line joined parent)))))"

section \<open>Statements\<close>

definition replace_lock :: "('h, 'g, 'x, 'l) services \<Rightarrow> bytes \<Rightarrow> ('h, 'x, 'l, unit) exec" where
  "replace_lock sv path s =
     (case host_step (oh_replace_global_lock (sv_host sv) path) s of (s1, r) \<Rightarrow> (s1, map_sum Err_Delivery id r))"

definition assignment_step :: "('h, 'g, 'x, 'l) services \<Rightarrow> assignment \<Rightarrow> ('h, 'x, 'l, unit) exec" where
  "assignment_step sv a =
     step_bind
       (runtime_step (\<lambda>rv. case execute_assignment a rv of Inl e \<Rightarrow> (rv, Inl e) | Inr rv1 \<Rightarrow> (rv1, Inr ()))) (\<lambda>_.
       if as_target a = Target_LockFile
       then step_with (\<lambda>s. replace_lock sv (case rv_get (ex_runtime s) (ascii ''LOCKFILE'') of Some v \<Rightarrow> v | None \<Rightarrow> []))
       else step_return ())"

definition unset_step :: "('h, 'g, 'x, 'l) services \<Rightarrow> unset \<Rightarrow> ('h, 'x, 'l, unit) exec" where
  "unset_step sv u =
     step_bind (update_runtime (execute_unset u)) (\<lambda>_.
       if un_target u = Target_LockFile then replace_lock sv [] else step_return ())"

definition execute_command_assignment :: "('h, 'g, 'x, 'l) services \<Rightarrow> command_assignment \<Rightarrow> ('h, 'x, 'l, unit) exec" where
  "execute_command_assignment sv a =
     step_with (\<lambda>s0.
     step_bind (buffered (final_new (view_of s0))) (\<lambda>final.
     step_bind (value_limit_step (cas_target a) (cas_line a)) (\<lambda>limit.
     step_bind
       (evaluate_shell_expression (sv_host sv) (cas_expression a) (cas_line a) (cas_name a) (final_bytes final) limit) (\<lambda>v.
       runtime_step (\<lambda>rv.
         case apply_assignment (cas_name a) (cas_target a) v (cas_line a) rv of
           Inl e \<Rightarrow> (rv, Inl e)
         | Inr rv1 \<Rightarrow> (rv1, Inr ()))))))"

definition host_finished :: "('h, 'x, 'l, sequence_control) exec" where
  "host_finished s = (s\<lparr>ex_original_delivered := True, ex_pending := None\<rparr>, Inr SC_EndRcFile)"

definition enter_rc :: "('h, 'g, 'x, 'l) services \<Rightarrow> rc_file_expression \<Rightarrow> rc_statement \<Rightarrow> ('h, 'x, 'l, entered_rc) exec" where
  "enter_rc sv e statement s =
     (case enter_runtime_rc (sv_load sv) e statement (ex_runtime s) (ex_rc s) (ex_rc_state s) of
        (st, r) \<Rightarrow> (s\<lparr>ex_rc_state := st\<rparr>, map_sum Err_Evaluation id r))"

text \<open>\<open>execute_runtime_rc\<close>: the context and the current file of the caller are put back however the child ends.\<close>

definition execute_runtime_rc :: "bytes \<Rightarrow> rc_context \<Rightarrow> ('h, 'x, 'l, 'a) exec \<Rightarrow> ('h, 'x, 'l, 'a) exec" where
  "execute_runtime_rc path child m s =
     (case replace_current_rc_file (Some path) (ex_runtime s) of
        (rv, caller_path) \<Rightarrow>
          (case m (s\<lparr>ex_runtime := rv, ex_rc := child\<rparr>) of
             (s1, r) \<Rightarrow>
               (s1\<lparr>ex_runtime := fst (replace_current_rc_file caller_path (ex_runtime s1)), ex_rc := ex_rc s\<rparr>, r)))"

section \<open>Sequences\<close>

lemma size_cn_action: "size (cn_action n) < size n"
  by (cases n) simp

lemma size_cn_action_rank: "2 * size (cn_action n) \<le> Suc (Suc (2 * size n + k))"
  using size_cn_action [of n] by linarith

text \<open>
  \<open>execute_ordered_from\<close> runs the recipes that are left, \<open>nodes\<close>; the branch of a copy block goes on after
  the block with the same function, as its parent does.
\<close>

function (sequential) execute_from ::
    "('h, 'g, 'x, 'l) services \<Rightarrow> nat \<Rightarrow> compiled_node list \<Rightarrow> compiled_statement list \<Rightarrow> sequence_state \<Rightarrow> action_execution \<Rightarrow>
     ('h, 'x, 'l, action_execution \<times> sequence_control) exec"
and execute_action ::
    "('h, 'g, 'x, 'l) services \<Rightarrow> nat \<Rightarrow> usize \<Rightarrow> path_expression option \<Rightarrow> compiled_action \<Rightarrow>
     ('h, 'x, 'l, action_execution \<times> sequence_control) exec"
and execute_statements ::
    "('h, 'g, 'x, 'l) services \<Rightarrow> nat \<Rightarrow> compiled_statement list \<Rightarrow> ('h, 'x, 'l, sequence_control) exec"
and execute_entered ::
    "('h, 'g, 'x, 'l) services \<Rightarrow> nat \<Rightarrow> compiled_sequence \<Rightarrow> bytes \<Rightarrow> rc_context \<Rightarrow> ('h, 'x, 'l, action_execution \<times> sequence_control) exec"
where
  "execute_from sv fuel [] trailing state acc =
     step_bind (execute_statements sv fuel trailing) (\<lambda>control. step_return (acc, control))"
| "execute_from sv fuel (n # ns) trailing state acc =
     step_bind (execute_statements sv fuel (cn_preceding n)) (\<lambda>statement_control.
       if statement_control \<noteq> SC_Continue then step_return (acc, statement_control)
       else
         step_bind
           (if execution_gate (cn_control n) state then matches_ordered sv (cn_conditions n) else step_return False) (\<lambda>matched.
         step_bind
           (if \<not> matched then step_return (NotAttempted, SC_Continue)
            else if is_waited_copy_block n then
              copy_waited sv
                (step_bind (execute_action sv fuel (cn_line n) (cn_lock n) (cn_action n)) (\<lambda>(action, control).
                   if control = SC_Continue
                   then execute_from sv fuel ns trailing (record_recipe (cn_control n) True action False state) Succeeded
                   else step_return (action, control)))
            else if is_unwaited_copy_block n then
              copy_unwaited sv (cn_line n)
                (step_bind (execute_action sv fuel (cn_line n) (cn_lock n) (cn_action n)) (\<lambda>(action, control).
                   if control = SC_Continue
                   then execute_from sv fuel ns trailing (record_recipe (cn_control n) True action False state) Succeeded
                   else step_return (action, control)))
                (execute_from sv fuel ns trailing (record_recipe (cn_control n) True Succeeded False state) Succeeded)
            else execute_action sv fuel (cn_line n) (cn_lock n) (cn_action n)) (\<lambda>(action, control).
           let acc1 = (if action = NotAttempted then acc else action)
           in if control \<noteq> SC_Continue then step_return (acc1, control)
              else execute_from sv fuel ns trailing
                     (record_recipe (cn_control n) matched action (else_handled (cn_control n) state matched) state) acc1)))"
| "execute_action sv fuel line lock (CA_Block (Sequence nodes trailing p)) =
     execute_block sv lock (execute_from sv fuel nodes trailing state_default Succeeded)"
| "execute_action sv fuel line lock a = execute_simple sv line lock a"
| "execute_statements sv fuel [] = step_return SC_Continue"
| "execute_statements sv fuel (CS_CommandAssignment a # ss) =
     step_bind (execute_command_assignment sv a) (\<lambda>_. execute_statements sv fuel ss)"
| "execute_statements sv fuel (CS_Assignment a # ss) = step_bind (assignment_step sv a) (\<lambda>_. execute_statements sv fuel ss)"
| "execute_statements sv fuel (CS_Unset u # ss) = step_bind (unset_step sv u) (\<lambda>_. execute_statements sv fuel ss)"
| "execute_statements sv fuel (CS_Host a # ss) =
     step_bind (runtime_step (execute_host_assignment a)) (\<lambda>here.
       if here then execute_statements sv fuel ss else host_finished)"
| "execute_statements sv fuel (CS_Include e # ss) =
     step_bind (enter_rc sv e RcInclude) (\<lambda>entered.
       case entered of
         Enter_Nothing _ \<Rightarrow> execute_statements sv fuel ss
       | Enter_Sequence s path child \<Rightarrow>
           step_bind (execute_entered sv fuel s path child) (\<lambda>(_, control).
             if control = SC_Stop then step_return SC_Stop else execute_statements sv fuel ss))"
| "execute_statements sv fuel (CS_Switch e # ss) =
     step_bind (enter_rc sv e RcSwitch) (\<lambda>entered.
       case entered of
         Enter_Nothing is_empty \<Rightarrow> if is_empty then step_return SC_EndRcFile else execute_statements sv fuel ss
       | Enter_Sequence s path child \<Rightarrow>
           step_bind (execute_entered sv fuel s path child) (\<lambda>(_, control).
             step_return (if control = SC_Stop then SC_Stop else SC_EndRcFile)))"
| "execute_entered sv 0 s path child = step_fail Err_Fuel"
| "execute_entered sv (Suc fuel) s path child =
     execute_runtime_rc path child (execute_from sv fuel (cq_recipes s) (cq_trailing s) state_default Succeeded)"
  by pat_completeness auto
termination
  by (relation "measures
      [\<lambda>x. case x of
         Inl (Inl (sv, fuel, r)) \<Rightarrow> 3 * fuel + 2
       | Inl (Inr (sv, fuel, r)) \<Rightarrow> 3 * fuel + 2
       | Inr (Inl (sv, fuel, r)) \<Rightarrow> 3 * fuel + 1
       | Inr (Inr (sv, fuel, r)) \<Rightarrow> 3 * fuel,
       \<lambda>x. case x of
         Inl (Inl (sv, fuel, ns, r)) \<Rightarrow> 2 * size_list size ns + 1
       | Inl (Inr (sv, fuel, line, lock, a)) \<Rightarrow> 2 * size a
       | Inr (Inl (sv, fuel, ss)) \<Rightarrow> length ss
       | Inr (Inr _) \<Rightarrow> 0]") (auto simp: less_Suc_eq_le size_cn_action_rank)

declare execute_from.simps [simp del] execute_entered.simps [simp del]

section \<open>Plans\<close>

record 'l execution_plan =
  pl_root :: compiled_sequence
  pl_limits :: "limit_config_error + message_limits"
  pl_rc :: "'l rc_state"

definition initial_statement :: "bytes \<times> bytes \<Rightarrow> compiled_statement" where
  "initial_statement v =
     CS_Assignment \<lparr>as_line = 0, as_name = fst v, as_value = snd v, as_target = Target_User, as_expansion = None\<rparr>"

definition compile_plan :: "(bytes \<times> bytes) list \<Rightarrow> statement list \<Rightarrow> 'l option \<Rightarrow> 'l execution_plan" where
  "compile_plan initial_variables statements loader =
     \<lparr>pl_root = compile_sequence statements (map initial_statement initial_variables),
      pl_limits = limits_from_config statements, pl_rc = rc_state_new loader\<rparr>"

definition plan_requirements :: "'l execution_plan \<Rightarrow> input_requirements" where
  "plan_requirements p =
     (let r0 = sequence_requirements (pl_root p);
          r1 = (if rs_dynamic_body (pl_rc p) then r0\<lparr>needs_body_contents := True, needs_end_of_message := True\<rparr> else r0)
      in if pp_preemptive (cq_properties (pl_root p))
         then requirements_union r1 (requirements_none\<lparr>needs_end_of_message := True\<rparr>) else r1)"

definition plan_requires_ordered :: "'l execution_plan \<Rightarrow> bool" where
  "plan_requires_ordered p \<longleftrightarrow> pp_ordered (cq_properties (pl_root p)) \<or> rs_dynamic_ordered (pl_rc p)"

definition plan_needs_full_matching :: "'l execution_plan \<Rightarrow> bool" where
  "plan_needs_full_matching p \<longleftrightarrow> pp_full_matching (cq_properties (pl_root p)) \<or> rs_dynamic_full (pl_rc p)"

definition plan_has_external_commands :: "'l execution_plan \<Rightarrow> bool" where
  "plan_has_external_commands p \<longleftrightarrow> pp_external (cq_properties (pl_root p))"

record plan_explanation =
  px_requirements :: input_requirements
  px_ordered :: bool
  px_recipes :: "recipe_explanation list"

definition plan_explain :: "'l execution_plan \<Rightarrow> plan_explanation" where
  "plan_explain p =
     \<lparr>px_requirements = plan_requirements p, px_ordered = pp_ordered (cq_properties (pl_root p)),
      px_recipes = collect_explanations [] 0 (pl_root p)\<rparr>"

text \<open>More files cannot be entered than there are transitions.\<close>

definition RC_FUEL :: nat where "RC_FUEL = MAX_RC_TRANSITIONS + 1"

definition start_execution ::
    "complete_message \<Rightarrow> runtime_variables \<Rightarrow> 'h \<Rightarrow> message_limits \<Rightarrow> 'l rc_state \<Rightarrow> ('h, 'x, 'l) execution" where
  "start_execution m rv h limits rc =
     \<lparr>ex_message = m, ex_current = None, ex_runtime = rv, ex_host = h, ex_published = 0, ex_original_delivered = False,
      ex_pending = None, ex_rc = rc_context_root, ex_limits = limits, ex_copies = 0, ex_rc_state = rc\<rparr>"

definition outcome_of :: "('h, 'x, 'l) execution \<Rightarrow> 'x ordered_error + 'a \<Rightarrow> 'x + unit \<Rightarrow> 'x ordered_error + delivery_outcome" where
  "outcome_of s execution background =
     (case background of
        Inl e \<Rightarrow> Inl (Err_Delivery e)
      | Inr _ \<Rightarrow>
          (case execution of
             Inl e \<Rightarrow> Inl e
           | Inr _ \<Rightarrow>
               (case ex_pending s of
                  Some e \<Rightarrow> Inl (Err_Delivery e)
                | None \<Rightarrow> Inr \<lparr>do_published = ex_published s, do_original_delivered = ex_original_delivered s\<rparr>)))"

definition execute_root ::
    "('h, 'g, 'x, 'l) services \<Rightarrow> compiled_sequence \<Rightarrow> ('h, 'x, 'l) execution \<Rightarrow>
     ('h, 'x, 'l) execution \<times> ('x ordered_error + delivery_outcome)" where
  "execute_root sv root s0 =
     (case execute_from sv RC_FUEL (cq_recipes root) (cq_trailing root) state_default Succeeded s0 of
        (s1, execution) \<Rightarrow>
          (case oh_finish_background (sv_host sv) (ex_host s1) of
             (h, background) \<Rightarrow>
               (let s2 = s1\<lparr>ex_host := h\<rparr>; result = outcome_of s2 execution background
                in case final_new (view_of s2) of
                     None \<Rightarrow> (s2, Inl (Err_Evaluation BodyWasNotBuffered))
                   | Some final \<Rightarrow>
                       (case oh_complete (sv_host sv) final result (ex_host s2, ex_runtime s2) of
                          (h1, rv1) \<Rightarrow> (s2\<lparr>ex_pending := None, ex_host := h1, ex_runtime := rv1\<rparr>, result)))))"

text \<open>\<open>ExecutionPlan::execute_ordered\<close>: nothing runs when the views of the message or the limits are not valid.\<close>

definition execute_ordered ::
    "('h, 'g, 'x, 'l) services \<Rightarrow> 'l execution_plan \<Rightarrow> mapped_message_input \<Rightarrow> runtime_variables \<Rightarrow> 'h \<Rightarrow>
     ('h, 'x, 'l) execution option \<times> ('x ordered_error + delivery_outcome)" where
  "execute_ordered sv p input rv h =
     (case complete_message_of input (plan_needs_full_matching p) of
        None \<Rightarrow> (None, Inl (Err_Evaluation BodyWasNotBuffered))
      | Some m \<Rightarrow>
          (case pl_limits p of
             Inl _ \<Rightarrow> (None, Inl (Err_Evaluation MessageLimitsInvalid))
           | Inr limits \<Rightarrow>
               (case execute_root sv (pl_root p) (start_execution m rv h limits (pl_rc p)) of
                  (s, r) \<Rightarrow> (Some s, r))))"

end
