(* ===== verification/Header_Actions.thy ===== *)
theory Header_Actions
  imports Header_Edit
begin

text \<open>
  Properties of whole header actions: what \<open>extract\<close> returns for a field that \<open>set\<close>, \<open>add\<close>
  or \<open>prepend\<close> generated, and what the header published by \<open>apply_header_action\<close> in
  \<open>src/header_edit.rs\<close> satisfies.
\<close>

section \<open>Extraction of generated fields\<close>

text \<open>The text an unfolding loop collects: line contents joined by single spaces.\<close>

fun spaced :: "bool \<Rightarrow> bytes list \<Rightarrow> bytes" where
  "spaced is_first [] = []"
| "spaced is_first (line # ls) =
     (if is_first then [] else [SP]) @ line_content (strip_line_ending line) @ spaced False ls"

lemma unfold_lines_result:
  assumes "bb_limit out \<le> usize_max" and "length (bb_bytes out) + length (spaced f ls) \<le> bb_limit out"
  shows "unfold_lines f out ls = Inr (out\<lparr>bb_bytes := bb_bytes out @ spaced f ls\<rparr>)"
  using assms
proof (induction ls arbitrary: f out)
  case (Cons l ls)
  show ?case
    using Cons.prems Cons.IH [of "out\<lparr>bb_bytes := bb_bytes out @ (if f then [] else [SP]) @
        line_content (strip_line_ending l)\<rparr>" False]
    by (cases f) (simp_all add: try_extend_def try_extend_vec_def checked_add_def)
qed simp

lemma unfold_value_result:
  assumes "length (spaced True (lines_of v)) \<le> MAX_ASSIGNMENT_VALUE_LEN"
  shows "unfold_value v = Inr (spaced True (lines_of v))"
  using unfold_lines_result [of "with_capacity MAX_ASSIGNMENT_VALUE_LEN (length v)" True "lines_of v"] assms
  by (simp add: unfold_value_def with_capacity_def into_vec_def MAX_ASSIGNMENT_VALUE_LEN_def usize_max_def)

lemma strip_ending: "line_ending_ok e \<Longrightarrow> x = [] \<or> last x \<noteq> CR \<Longrightarrow> strip_line_ending (x @ e) = x"
  by (cases x rule: rev_cases)
    (auto simp: line_ending_ok_def strip_line_ending_def strip_suffix_def ends_with_def split: if_splits)

lemma line_content_eq: "line_content l = dropWhile is_blank l"
proof (cases "position (\<lambda>b. \<not> is_blank b) l")
  case None
  then have "dropWhile is_blank l = []" by (simp add: position_None_iff dropWhile_eq_Nil_conv)
  with None show ?thesis unfolding line_content_def by (simp only: option.case)
next
  case (Some i)
  then have "dropWhile is_blank l = drop i l" by (induction l arbitrary: i) (auto split: if_splits)
  with Some show ?thesis by (simp add: line_content_def)
qed

lemma encoded_word_line:
  "line_ending_ok e \<Longrightarrow> line_content (strip_line_ending (SP # encoded_word c @ e)) = encoded_word c"
  using strip_ending [of e "SP # encoded_word c"]
  by (simp add: line_content_eq word_parts is_blank_def)

lemma spaced_words:
  assumes "line_ending_ok e"
  shows "spaced False (map (\<lambda>c. SP # encoded_word c @ e) cs) = (if cs = [] then [] else SP # joined_words cs)"
    and "spaced True (map (\<lambda>c. SP # encoded_word c @ e) cs) = joined_words cs"
proof -
  show *: "spaced False (map (\<lambda>c. SP # encoded_word c @ e) cs) = (if cs = [] then [] else SP # joined_words cs)" for cs
    by (induction cs) (simp_all add: encoded_word_line [OF assms] joined_words_step)
  show "spaced True (map (\<lambda>c. SP # encoded_word c @ e) cs) = joined_words cs"
    by (cases cs) (simp_all add: encoded_word_line [OF assms] joined_words_step *)
qed

lemma field_value_generated:
  assumes "COLON \<notin> set n" and "LF \<notin> set n" and "length n \<le> isize_max"
  shows "field_value (field_from_bytes (n @ COLON # rest)) = Some rest"
  using f_name_first_line [OF assms(1,2), of rest] assms(3)
  by (simp add: field_value_def checked_add_def isize_max_def usize_max_def get_from_def)

text \<open>The value part of an encoded field, as lines and unfolded.\<close>

lemma encoded_value_text:
  assumes "line_ending_ok e"
  shows "spaced True (lines_of (SP # encoded_word c @ folded_words e cs @ e)) = joined_words (c # cs)"
    and "spaced True (lines_of (folded_words e (c # cs) @ e)) = SP # joined_words (c # cs)"
proof -
  have "LF \<notin> set (SP # encoded_word c)" "LF \<notin> set []" using encoded_word_no_LF by simp_all
  note lines = this [THEN lines_of_folded [OF assms]]
  have "lines_of (SP # encoded_word c @ folded_words e cs @ e) = map (\<lambda>c. SP # encoded_word c @ e) (c # cs)"
    using lines(1) [of cs] by (simp add: comp_def)
  then show "spaced True (lines_of (SP # encoded_word c @ folded_words e cs @ e)) = joined_words (c # cs)"
    using spaced_words(2) [OF assms, of "c # cs"] by simp
  have "lines_of (folded_words e (c # cs) @ e) = e # map (\<lambda>c. SP # encoded_word c @ e) (c # cs)"
    using lines(2) [of "c # cs"] by (simp add: comp_def)
  moreover have "line_content (strip_line_ending e) = []"
    using strip_ending [OF assms, of "[]"] by (simp add: line_content_eq)
  ultimately show "spaced True (lines_of (folded_words e (c # cs) @ e)) = SP # joined_words (c # cs)"
    using spaced_words(1) [OF assms, of "c # cs"] by simp
qed

lemma chunks_clean:
  assumes "clean v" and "good_chunks v cs"
  shows "\<forall>c \<in> set cs. 0 < length c \<and> length c \<le> 45 \<and> clean c"
proof -
  obtain us where us: "utf8_chars v = Some us" "\<forall>c \<in> set us. c = [TAB] \<or> \<not> char_is_control c"
    using assms(1) by (auto simp: clean_def)
  then have "set (chars v) = set us" by (simp add: chars_def)
  then show ?thesis
    using assms(2) us(2) unfolding good_chunks_def clean_def valid_utf8_def chars_def by fastforce
qed

lemma decode_words:
  assumes "\<forall>c \<in> set cs. 0 < length c \<and> length c \<le> 45 \<and> clean c" and "cs \<noteq> []"
    and "length (concat cs) < limit" and "limit \<le> usize_max"
  shows "decode_rfc2047 (joined_words cs) limit = Inr (concat cs)"
    and "decode_rfc2047 (SP # joined_words cs) limit = Inr (SP # concat cs)"
proof -
  show "decode_rfc2047 (joined_words cs) limit = Inr (concat cs)"
    using decode_loop_words [OF assms(1), of "with_capacity limit (length (joined_words cs))" False] assms(3,4)
    by (simp add: decode_rfc2047_def with_capacity_def into_vec_def)
  let ?out = "with_capacity limit (length (SP # joined_words cs))"
  obtain r where r: "joined_words cs = EQUALS # QUESTION # r"
    using assms(2) by (cases cs) (auto simp: joined_words_step encoded_word_start)
  have "clean [SP]" by (simp add: clean_def valid_utf8_ascii char_is_control_def)
  then have "append_decoded_text ?out [SP] = Inr (?out\<lparr>bb_bytes := [SP]\<rparr>)"
    using append_decoded_clean [of "[SP]" ?out] assms(3,4) by (simp add: with_capacity_def)
  then have "decode_loop (SP # joined_words cs) False ?out =
      decode_loop (joined_words cs) False (?out\<lparr>bb_bytes := [SP]\<rparr>)"
    unfolding r by (subst decode_loop.simps) (simp add: find_encoded_word_blank)
  then show "decode_rfc2047 (SP # joined_words cs) limit = Inr (SP # concat cs)"
    using decode_loop_words [OF assms(1), of "?out\<lparr>bb_bytes := [SP]\<rparr>" False] assms(3,4)
    by (simp add: decode_rfc2047_def with_capacity_def into_vec_def)
qed


lemma make_field_generated:
  "make_field name v e = Some (Inr out) \<longleftrightarrow> serialize_generated_header name v e = Some (Inr out)"
proof -
  have "(case r of Inr out \<Rightarrow> Inr out | Inl GH_InvalidValue \<Rightarrow> Inl InvalidGeneratedValue
      | Inl GH_LineTooLong \<Rightarrow> Inl (GeneratedLineTooLong RFC5322_HEADER_LINE_LIMIT)
      | Inl GH_SizeOverflow \<Rightarrow> Inl SizeOverflow) = Inr out \<longleftrightarrow> r = Inr out" for r :: "generated_header_error + bytes"
    by (auto split: sum.splits generated_header_error.splits)
  then show ?thesis by (auto simp: make_field_def)
qed

lemma words_length:
  "length (concat cs) \<le> length (joined_words cs)"
  "e \<noteq> [] \<Longrightarrow> cs \<noteq> [] \<Longrightarrow> length (joined_words cs) + 1 < length (folded_words e cs) + 1"
proof -
  have "length c \<le> length (encoded_word c)" for c
    by (simp add: length_encoded_word length_append_base64)
  then show "length (concat cs) \<le> length (joined_words cs)"
    by (induction cs) (auto simp: joined_words_step intro: add_mono le_SucI)
  show "e \<noteq> [] \<Longrightarrow> cs \<noteq> [] \<Longrightarrow> length (joined_words cs) + 1 < length (folded_words e cs) + 1"
    by (induction cs) (auto simp: joined_words_step)
qed

lemma decode_plain:
  assumes "clean v" and "find_encoded_word v = None" and "length v \<le> limit" and "limit \<le> usize_max"
  shows "decode_rfc2047 v limit = Inr v"
proof -
  let ?out = "with_capacity limit (length v)"
  have app: "append_decoded_text ?out v = Inr (?out\<lparr>bb_bytes := v\<rparr>)"
    using append_decoded_clean [OF assms(1), of ?out] assms(3,4) by (simp add: with_capacity_def)
  have "\<not> starts_with v [EQUALS, QUESTION]"
    using assms(2) by (cases v; cases "tl v") (auto simp: find_encoded_word_def is_window_def starts_with_def split: if_splits)
  then have "decode_loop v False ?out = Inr (?out\<lparr>bb_bytes := v\<rparr>)"
    using app assms(2) by (subst decode_loop.simps) (simp add: decode_loop.simps [of "[]"] with_capacity_def)
  then show ?thesis by (simp add: decode_rfc2047_def into_vec_def)
qed

lemma generated_ascii_extraction:
  assumes "COLON \<notin> set n" and "LF \<notin> set n" and "length n \<le> isize_max" and "line_ending_ok e" and "clean v"
    and "length (n @ [COLON, SP] @ v @ e) \<le> MAX_ASSIGNMENT_VALUE_LEN"
    and "v = [] \<or> \<not> is_blank (hd v)" and "find_encoded_word v = None"
  shows "extract_value (field_from_bytes (n @ [COLON, SP] @ v @ e)) Decoded = Inr v"
proof -
  have "LF \<notin> set v" and cr: "CR \<notin> set v"
    using clean_bytes [OF assms(5), of LF] clean_bytes [OF assms(5), of CR] by auto
  then have lines: "lines_of (SP # v @ e) = [SP # v @ e]"
    using lines_of_ending [OF assms(4), of "SP # v" "[]"] by simp
  have "last (SP # v) \<noteq> CR" using cr by (cases v rule: rev_cases) auto
  then have "spaced True (lines_of (SP # v @ e)) = dropWhile is_blank v"
    using strip_ending [OF assms(4), of "SP # v"] unfolding lines by (simp add: line_content_eq is_blank_def)
  moreover have "dropWhile is_blank v = v" using assms(7) by (cases v) auto
  moreover have "length v \<le> MAX_ASSIGNMENT_VALUE_LEN" using assms(6) by simp
  ultimately show ?thesis
    using unfold_value_result [of "SP # v @ e"] field_value_generated [OF assms(1-3), of "SP # v @ e"]
      decode_plain [OF assms(5,8)]
    by (simp add: extract_value_def MAX_ASSIGNMENT_VALUE_LEN_def usize_max_def)
qed

lemma generated_encoded_extraction:
  assumes "COLON \<notin> set n" and "LF \<notin> set n" and "length n \<le> isize_max" and "line_ending_ok e"
    and "clean v" and "good_chunks v (c # cs)"
  shows "length (n @ [COLON, SP] @ encoded_word c @ folded_words e cs @ e) \<le> MAX_ASSIGNMENT_VALUE_LEN \<Longrightarrow>
      extract_value (field_from_bytes (n @ [COLON, SP] @ encoded_word c @ folded_words e cs @ e)) Decoded = Inr v"
    and "length (n @ [COLON] @ folded_words e (c # cs) @ e) \<le> MAX_ASSIGNMENT_VALUE_LEN \<Longrightarrow>
      extract_value (field_from_bytes (n @ [COLON] @ folded_words e (c # cs) @ e)) Decoded = Inr (SP # v)"
proof -
  let ?j = "joined_words (c # cs)"
  have v: "concat (c # cs) = v" using assms(6) by (simp add: good_chunks_def)
  have e: "e \<noteq> []" using assms(4) by (auto simp: line_ending_ok_def)
  have max: "MAX_ASSIGNMENT_VALUE_LEN \<le> usize_max" by (simp add: MAX_ASSIGNMENT_VALUE_LEN_def usize_max_def)
  have j: "length v \<le> length ?j" using words_length(1) [of "c # cs"] unfolding v .
  note decode = decode_words [OF chunks_clean [OF assms(5,6)] _ _ max, unfolded v]
  {
    assume len: "length (n @ [COLON, SP] @ encoded_word c @ folded_words e cs @ e) \<le> MAX_ASSIGNMENT_VALUE_LEN"
    have "length ?j \<le> length (encoded_word c @ folded_words e cs)"
      using words_length(2) [OF e, of cs] by (cases "cs = []") (simp_all add: joined_words_step)
    then have "length ?j < MAX_ASSIGNMENT_VALUE_LEN" using len by simp
    then show "extract_value (field_from_bytes (n @ [COLON, SP] @ encoded_word c @ folded_words e cs @ e)) Decoded = Inr v"
      using unfold_value_result [of "SP # encoded_word c @ folded_words e cs @ e"] encoded_value_text(1) [OF assms(4), of c cs]
        field_value_generated [OF assms(1-3), of "SP # encoded_word c @ folded_words e cs @ e"] decode(1) j
      by (simp add: extract_value_def del: joined_words.simps)
  next
    assume len: "length (n @ [COLON] @ folded_words e (c # cs) @ e) \<le> MAX_ASSIGNMENT_VALUE_LEN"
    have "length ?j + 1 \<le> length (folded_words e (c # cs))" using words_length(2) [OF e, of "c # cs"] by simp
    then have "length ?j + 1 < MAX_ASSIGNMENT_VALUE_LEN" using len e by (cases e) simp_all
    then show "extract_value (field_from_bytes (n @ [COLON] @ folded_words e (c # cs) @ e)) Decoded = Inr (SP # v)"
      using unfold_value_result [of "folded_words e (c # cs) @ e"] encoded_value_text(2) [OF assms(4), of c cs]
        field_value_generated [OF assms(1-3), of "folded_words e (c # cs) @ e"] decode(2) j
      by (simp add: extract_value_def del: joined_words.simps folded_words.simps)
  }
qed

text \<open>
  A generated field extracts, decoded, to its value, except that a field whose name leaves no room for the
  first encoded word (so that the first line holds only the name) extracts with one additional leading space.
\<close>

lemma generated_field_extraction:
  assumes "make_field name v e = Some (Inr out)" and "valid_utf8 v"
    and "COLON \<notin> set name" and "LF \<notin> set name" and "line_ending_ok e"
    and "length name \<le> isize_max" and "length out \<le> MAX_ASSIGNMENT_VALUE_LEN"
    and "length v \<le> usize_max"
    and "validate_generated_header_value name v = Inr Enc_Ascii \<longrightarrow> (v = [] \<or> \<not> is_blank (hd v)) \<and> find_encoded_word v = None"
  shows "extract_value (field_from_bytes out) Decoded =
      Inr (if first_line out = canonical_name True name @ [COLON] @ e then SP # v else v) \<and>
    f_name (field_from_bytes out) = Some (canonical_name True name)"
proof -
  let ?n = "canonical_name True name"
  have ser: "serialize_generated_header name v e = Some (Inr out)" using assms(1) by (simp add: make_field_generated)
  then obtain enc where enc: "validate_generated_header_value name v = Inr enc"
    by (auto simp: serialize_generated_header_def split: sum.splits)
  note plain = canonical_name_plain [OF assms(3,4), of True]
  have n: "length ?n \<le> isize_max" using assms(6) by simp
  have cl: "clean v" by (rule validated_clean [OF assms(2) enc])
  show ?thesis
  proof (cases enc)
    case Enc_Ascii
    then have out: "out = ?n @ [COLON, SP] @ v @ e"
      using ser enc by (auto simp: serialize_generated_header_def serialize_ascii_def
          append_canonical_header_name_def split: option.splits)
    have "first_line out \<noteq> ?n @ [COLON] @ e"
      using assms(5) first_line_prefix [of out] by (auto simp: out line_ending_ok_def)
    then show ?thesis
      using generated_ascii_extraction [OF plain n assms(5) cl] f_name_first_line [OF plain, of "SP # v @ e"]
        assms(7,9) enc Enc_Ascii by (simp add: out)
  next
    case Enc_Rfc2047
    have ne: "v \<noteq> []"
      using enc Enc_Rfc2047 by (auto simp: validate_generated_header_value_def chars_def split: option.splits if_splits)
    obtain c cs where g: "good_chunks v (c # cs)" and out: "out = rfc2047_field name e c cs"
      using serialize_rfc2047_field [OF assms(2) ne assms(8,6), of e] ser enc Enc_Rfc2047
      by (metis (no_types, lifting) serialize_generated_header_def generated_header_encoding.simps sum.simps option.inject)
    have fl: "first_line out = hd (lines_of out)"
      using lines_of_step [of out] by (cases "out = []") (simp_all add: out rfc2047_field_def split: if_splits)
    have split: "first_line out = ?n @ [COLON] @ e \<longleftrightarrow> \<not> first_word_fits name c"
      unfolding fl using rfc2047_field_lines [OF assms(5,4,3), of c cs] by (simp add: out)
    show ?thesis
    proof (cases "first_word_fits name c")
      case True
      then show ?thesis
        using generated_encoded_extraction(1) [OF plain n assms(5) cl g] assms(7) split
          f_name_first_line [OF plain, of "SP # encoded_word c @ folded_words e cs @ e"]
        by (simp add: out rfc2047_field_def)
    next
      case False
      then show ?thesis
        using generated_encoded_extraction(2) [OF plain n assms(5) cl g] assms(7) split
          f_name_first_line [OF plain, of "folded_words e (c # cs) @ e"]
        by (simp add: out rfc2047_field_def del: folded_words.simps)
    qed
  qed
qed


lemma canonical_name_ignore_case: "eq_ignore_ascii_case (canonical_name beginning name) name"
proof -
  have "to_ascii_lowercase (to_ascii_uppercase b) = to_ascii_lowercase b" for b
    unfolding byte_defs by unat_arith
  then show ?thesis by (induction beginning name rule: canonical_name.induct) (auto simp: eq_ignore_ascii_case_def)
qed

text \<open>The first field of a name after \<open>set\<close> is the one that was set.\<close>

lemma first_named_set:
  assumes "named name out"
  shows "\<exists>i < length (set_in_list name out xs). set_in_list name out xs ! i = out \<and>
    find (\<lambda>j. named name (set_in_list name out xs ! j)) [0..<length (set_in_list name out xs)] = Some i"
proof -
  obtain before after where ys: "set_in_list name out xs = before @ out # after" and "\<forall>x \<in> set before. \<not> named name x"
  proof (cases "position (named name) xs")
    case None
    then have "\<forall>x \<in> set xs. \<not> named name x" by (simp add: position_None_iff)
    then show thesis using that [of xs "[]"] None by (simp add: set_in_list_def)
  next
    case (Some i)
    then show thesis
      using that [of "take i xs"] position_SomeD(3) [OF Some] by (simp add: set_in_list_def)
  qed
  then have "\<forall>j < length before. \<not> named name ((before @ out # after) ! j)" by (simp add: nth_append)
  then have "find (\<lambda>j. named name ((before @ out # after) ! j)) [0..<length (before @ out # after)] = Some (length before)"
    using assms by (auto simp: find_Some_iff nth_append)
  then show ?thesis unfolding ys by (intro exI [of _ "length before"]) simp
qed

text \<open>
  C39. What a recipe sets it can read back.  Setting a field to a text and then extracting that
  field decoded gives exactly the text, whatever the header held before, except that a field whose name leaves
  no room for the first encoded word (so that the first line holds only the name) extracts with one additional
  leading space.  A text that is stored as it is, being plain ASCII, must not start with a blank or hold the
  opening of an encoded word.
\<close>

theorem set_field_extraction:
  assumes "set_field name v e h = Some (Inr h')" and "make_field name v e = Some (Inr out)" and "header_ok h"
    and "valid_utf8 v" and "COLON \<notin> set name" and "LF \<notin> set name" and "line_ending_ok e"
    and "length name \<le> isize_max" and "length out \<le> MAX_ASSIGNMENT_VALUE_LEN" and "length v \<le> usize_max"
    and "validate_generated_header_value name v = Inr Enc_Ascii \<longrightarrow> (v = [] \<or> \<not> is_blank (hd v)) \<and> find_encoded_word v = None"
  shows "extract_first h' name Decoded =
    Inr (if first_line out = canonical_name True name @ [COLON] @ e then SP # v else v)"
proof -
  let ?st = "store (storage h')"
  note field = generated_field_extraction [OF assms(2,4-11)]
  have "length out \<le> isize_max" using assms(9) by (simp add: MAX_ASSIGNMENT_VALUE_LEN_def isize_max_def)
  note set = set_field_contents [OF assms(1,2,3) this]
  have "named name out" using field canonical_name_ignore_case by (simp add: named_def name_matches_def)
  moreover have "set_in_list name out (field_list h) = contents ?st" using set by (simp add: field_list_def)
  ultimately obtain i where i: "i < length (contents ?st)" "contents ?st ! i = out"
    "find (\<lambda>j. named name (contents ?st ! j)) [0..<length (contents ?st)] = Some i"
    using first_named_set [of name out "field_list h"] by metis
  have len: "length (contents ?st) = length (hfields ?st)" by (simp add: contents_def)
  have "find (\<lambda>j. store_matches ?st j name) [0..<length (hfields ?st)] = Some i"
    using i(3) set store_matches_named [of ?st] unfolding len by (auto simp: find_Some_iff)
  moreover have "store_field ?st i = field_from_bytes out"
    using store_field_eq [of ?st i] set i len by (simp add: store_ok_def)
  ultimately show ?thesis using field by (simp add: extract_first_def)
qed

text \<open>The field for the text of one character, e with an acute accent, which is encoded.\<close>

lemma sample_text: "utf8_chars [195, 169] = Some [[195, 169]]" "valid_utf8 [195, 169]"
  "validate_generated_header_value (ascii ''a'') [195, 169] = Inr Enc_Rfc2047"
proof -
  show u: "utf8_chars [195, 169] = Some [[195, 169]]"
    by (simp add: utf8_chars_step char_len_def char_at_def is_continuation_def)
  then show "valid_utf8 [195, 169]" by (simp add: valid_utf8_def)
  show "validate_generated_header_value (ascii ''a'') [195, 169] = Inr Enc_Rfc2047"
    using u by (simp add: validate_generated_header_value_def chars_def char_is_control_def)
qed

lemma sample_encoded: "make_field (ascii ''a'') [195, 169] [LF] = Some (Inr (ascii ''A: =?UTF-8?B?w6k=?='' @ [LF]))"
proof -
  have e: "chunk_end [195, 169] 0 = 2"
    by (simp add: chunk_end_def checked_add_def RFC2047_INPUT_CHUNK_def usize_max_def numeral_2_eq_2 is_char_boundary_def)
  have w: "append_base64 [195, 169] = ascii ''w6k=''"
    by (simp add: base64_char_def BASE64_def byte_defs)
  have "rfc2047_loop [195, 169] [LF] 0 True (ascii ''A:'') = Some (Inr (ascii ''A: =?UTF-8?B?w6k=?='' @ [LF]))"
    using e w
    by (subst rfc2047_loop.simps) (simp add: rfc2047_loop.simps [of _ _ 2] base64_len_def checked_add_def checked_mul_def
        usize_max_def ENCODED_WORD_PREFIX_def ENCODED_WORD_SUFFIX_def slice_def RFC2047_HEADER_LINE_LIMIT_def)
  then show ?thesis
    by (simp add: make_field_def serialize_generated_header_def sample_text(3) [simplified] serialize_rfc2047_def
        append_canonical_header_name_def byte_defs)
qed

theorem set_field_extraction_witness:
  "\<exists>h'. set_field (ascii ''a'') [195, 169] [LF] sample_header = Some (Inr h') \<and>
     extract_first h' (ascii ''a'') Decoded = Inr [195, 169]"
proof -
  obtain h' where run: "set_field (ascii ''a'') [195, 169] [LF] sample_header = Some (Inr h')"
    using sample_set_field [OF sample_encoded] by auto
  show ?thesis
    using run set_field_extraction [OF run sample_encoded sample_header_ok(1) sample_text(2)] sample_text(3)
    by (simp add: byte_defs isize_max_def usize_max_def line_ending_ok_def MAX_ASSIGNMENT_VALUE_LEN_def first_line_def)
qed

section \<open>Published headers\<close>

text \<open>
  What a header satisfies once an action has published it: the recorded size and the cached
  texts agree with the bytes of its parts, and the index agrees with the field boundaries.
  While an action runs the header is either still the shared, published one or a private copy
  without caches.
\<close>

definition published :: "edited_header \<Rightarrow> bool" where
  "published h \<longleftrightarrow>
     eh_len h = length (concat (eh_parts h)) \<and> \<not> needs_reindex (store (storage h)) \<and>
     (\<forall>bs. raw_cache (storage h) = Some bs \<longrightarrow> bs = concat (eh_parts h)) \<and>
     (\<forall>m. matching_cache (storage h) = Some m \<longrightarrow> m = normalize_folded_header (concat (eh_parts h)))"

definition working :: "message_limits \<Rightarrow> edited_header \<Rightarrow> bool" where
  "working limits h \<longleftrightarrow> eh_limits h = limits \<and>
     (if eh_shared h then published h
      else raw_cache (storage h) = None \<and> matching_cache (storage h) = None)"

fun view_published :: "header_view \<Rightarrow> bool" where
  "view_published (View_Raw bs) = True"
| "view_published (View_Indexed h) = published h"

lemma working_new: "view_published source \<Longrightarrow> eh_new source limits = Inr h \<Longrightarrow> working limits h"
  by (cases source) (auto simp: eh_new_def working_def published_def eh_parts_def eh_len_def
      split: prod.splits sum.splits)

lemma working_store [simp]: "working limits h \<Longrightarrow> working limits (set_store st (store_mut h))"
  by (simp add: working_def store_mut_def set_store_def make_mut_def clone_storage_def Let_def)

lemma working_on_store [simp]: "working limits h \<Longrightarrow> working limits (on_store f h)"
  by (simp add: on_store_def Let_def)

lemma working_try: "try_store (on_store_result f h) = Some (Inr h') \<Longrightarrow> working limits h \<Longrightarrow> working limits h'"
  by (auto simp: try_store_result)

lemma working_remove [simp]:
  "working limits h \<Longrightarrow> working limits (remove_field name h)"
  "working limits h \<Longrightarrow> working limits (eh_remove_matching name h)"
  by (simp_all add: remove_field_def eh_remove_matching_def)

lemma working_remove_all [simp]:
  "working limits h \<Longrightarrow> working limits (foldl (\<lambda>h f. remove_field (g f) h) h fs)"
  by (induction fs arbitrary: h) simp_all

lemma working_set: "set_field name v e h = Some (Inr h') \<Longrightarrow> working limits h \<Longrightarrow> working limits h'"
  by (auto simp: set_field_def Let_def run_bind_Some ok_def dest: working_try split: if_splits)

lemma working_set_fields: "set_fields fs e h = Some (Inr h') \<Longrightarrow> working limits h \<Longrightarrow> working limits h'"
  by (induction fs e h rule: set_fields.induct) (auto simp: run_bind_Some ok_def dest: working_set)

lemma working_rename: "rename_fields a b is h = Some (Inr h') \<Longrightarrow> working limits h \<Longrightarrow> working limits h'"
  by (induction a b "is" h rule: rename_fields.induct)
    (auto simp: run_bind_Some ok_def Let_def dest: working_try split: if_splits)

lemma working_status [simp]: "working limits h \<Longrightarrow> working limits (eh_set_status s h)"
  by (auto simp: working_def eh_set_status_def make_mut_def clone_storage_def published_def Let_def)

lemma working_put: "put_field name v e h = Some (Inr h') \<Longrightarrow> working limits h \<Longrightarrow> working limits h'"
  by (auto simp: put_field_def ok_def dest: working_set split: option.splits)

lemma working_operation:
  "apply_operation op e h = Some (Inr (h', xs)) \<Longrightarrow> working limits h \<Longrightarrow> working limits h'"
  by (cases op)
    (auto simp: run_bind_Some ok_def apply_keywords_def apply_priority_def apply_status_def
      dest: working_set working_set_fields working_rename working_put working_try
      split: if_splits option.splits)

lemma working_operations:
  "apply_operations ops e n limits (h, xs) = Some (Inr (h', ys)) \<Longrightarrow> working limits h \<Longrightarrow> working limits h'"
  by (induction ops arbitrary: h xs) (auto simp: run_bind_Some ok_def dest: working_operation)

lemma finish_caches:
  assumes "finish n h = (h', Inr ())" and "\<not> eh_shared h"
    and "raw_cache (storage h) = None" and "matching_cache (storage h) = None"
  shows "raw_cache (storage h') = None \<and> matching_cache (storage h') = None"
  using assms
  by (auto simp: finish_def update_line_ending_def as_bytes_def Let_def split: sum.splits if_splits prod.splits)


lemma try_store_Inr: "try_store p = Some (Inr h) \<longleftrightarrow> p = (h, Inr ())"
  by (cases p) (auto simp: try_store_def ok_def fail_def split: sum.splits)

lemma finish_working:
  assumes "finish n h = (h', Inr ())" and "working limits h"
    and "headers_size limits \<le> isize_max" and "message_size limits \<le> usize_max"
  shows "published h' \<and> concat (eh_parts h') = concat (eh_parts h) \<and> (eh_shared h \<longrightarrow> h' = h) \<and>
    eh_len h' \<le> headers_size limits \<and> eh_len h' + n \<le> message_size limits \<and>
    (\<forall>f \<in> set (raw_fields (concat (eh_parts h))). length (f_bytes f) \<le> header_field_size limits)"
proof (cases "eh_shared h")
  case True
  then have pub: "published h" and lim: "eh_limits h = limits" using assms(2) by (simp_all add: working_def)
  have valid: "eh_validate h n limits = Inr ()" and h': "h' = h"
    using assms(1) True pub
    by (auto simp: finish_def published_def lim update_line_ending_def Let_def split: sum.splits)
  have len: "eh_len h = length (concat (eh_parts h))" using pub by (simp add: published_def)
  have "length (concat (eh_parts h)) \<le> usize_max"
    using valid assms(3) by (auto simp: eh_validate_def validate_header_parts_def check_limit_def len
        isize_max_def usize_max_def split: if_splits)
  then show ?thesis
    using valid validate_header_parts_iff [of "eh_parts h" limits "eh_len h" n] assms(4) pub h'
    by (simp add: eh_validate_def len)
next
  case False
  then have c: "raw_cache (storage h) = None" "matching_cache (storage h) = None" "eh_limits h = limits"
    using assms(2) by (simp_all add: working_def)
  show ?thesis
    using finish_private [OF assms(1) False c(1)] finish_caches [OF assms(1) False c(1,2)] assms(3,4) False
    by (simp add: c(3) published_def)
qed

lemma action_published:
  assumes "apply_header_action source body_len ops limits = Some (Inr a)" and "view_published source"
    and "headers_size limits \<le> isize_max" and "message_size limits \<le> usize_max"
  shows "published (ah_header a) \<and> eh_len (ah_header a) \<le> headers_size limits \<and>
    eh_len (ah_header a) + body_len \<le> message_size limits \<and>
    (\<forall>f \<in> set (raw_fields (concat (eh_parts (ah_header a)))). length (f_bytes f) \<le> header_field_size limits)"
proof -
  obtain h0 h xs where h0: "eh_new source limits = Inr h0"
    and ops: "apply_operations ops (line_ending (storage h0)) body_len limits (h0, []) = Some (Inr (h, xs))"
    and fin: "finish body_len h = (ah_header a, Inr ())"
    using assms(1)
    by (auto simp: apply_header_action_def run_bind_Some lift_def ok_def try_store_Inr)
  have "working limits h" by (rule working_operations [OF ops working_new [OF assms(2) h0]])
  from finish_working [OF fin this assms(3,4)] show ?thesis by simp
qed

text \<open>
  C28. Whatever operations a header action runs, and whether it starts from raw bytes or from a
  published header, the header it publishes is published again: its recorded size and caches
  agree with its bytes and its index with the field boundaries; and those bytes are within the
  header, message and field limits in force.
\<close>

theorem header_action_publishes:
  assumes "apply_header_action source body_len ops limits = Some (Inr a)" and "view_published source"
    and "headers_size limits \<le> isize_max" and "message_size limits \<le> usize_max"
  shows "published (ah_header a) \<and> eh_len (ah_header a) \<le> headers_size limits \<and>
    eh_len (ah_header a) + body_len \<le> message_size limits \<and>
    (\<forall>f \<in> set (raw_fields (concat (eh_parts (ah_header a)))). length (f_bytes f) \<le> header_field_size limits)"
  using action_published [OF assms(1,2) assms(3,4)] .

text \<open>The action that adds nothing to a header with one field, and what it publishes.\<close>

definition sample_action :: "applied_header_action run" where
  "sample_action = apply_header_action (View_Raw (ascii ''C:'' @ [LF])) 0
     [Op_Remove 1 (ascii ''a'')] message_limits_default"

lemma sample_split: "split_fields (ascii ''C:'' @ [LF]) = ([field_from_bytes (ascii ''C:'' @ [LF])], [], [LF])"
proof -
  have "lines_of (ascii ''C:'' @ [LF]) = [ascii ''C:'' @ [LF]]"
    using lines_of_ending [of "[LF]" "ascii ''C:''" "[]"] by (simp add: line_ending_ok_def)
  then have "raw_fields (ascii ''C:'' @ [LF]) = [field_from_bytes (ascii ''C:'' @ [LF])]"
    by (intro single_field) (auto simp: blank_line_def)
  then show ?thesis
    by (simp add: split_fields_def header_separator_start_def separator_loop.simps Let_def preferred_line_ending_def slice_def)
qed

lemma sample_action_run: "(case sample_action of Some (Inr a) \<Rightarrow> eh_len (ah_header a) = 3 | _ \<Rightarrow> False)"
  by (simp add: sample_action_def apply_header_action_def eh_new_def sample_split [simplified] store_new_def
      store_insert_def place_bytes_def checked_add_def usize_max_def check_limit_def message_limits_default_def
      size_units fitting_hole_def field_from_bytes_def lift_def run_bind_def ok_def eh_remove_matching_def
      eh_any_match_def field_count_def store_matches_def store_field_def view_field_def arena_slice_def slice_def
      eq_ignore_ascii_case_def byte_defs validate_aggregate_size_def serialized_size_def header_parts_def
      finish_def eh_validate_def validate_header_parts_def eh_parts_def eh_len_def validate_field_line_def
      is_blank_def needs_reindex_def update_line_ending_def try_store_def Let_def)

theorem header_action_publishes_witness:
  "\<exists>a. sample_action = Some (Inr a) \<and> eh_len (ah_header a) = 3 \<and> published (ah_header a)"
proof -
  obtain a where a: "sample_action = Some (Inr a)" "eh_len (ah_header a) = 3"
    using sample_action_run by (auto split: option.splits sum.splits)
  with header_action_publishes [OF a(1) [unfolded sample_action_def]] show ?thesis
    by (auto simp: message_limits_default_def size_units isize_max_def usize_max_def)
qed

end
