(* ===== verification/Message_Versions.thy ===== *)
theory Message_Versions
  imports Eval_Ordered Header_Actions
begin

text \<open>
  The versions of the message that ordered execution leaves behind: what a header action and a filter do
  to the message that later recipes see and deliver.
\<close>

section \<open>Consistent versions\<close>

text \<open>
  A version whose recorded length is the length of what it delivers, and whose edited header is
  published: its caches and its index agree with its bytes.
\<close>

fun version_consistent :: "message_version \<Rightarrow> bool" where
  "version_consistent (Whole m) = message_ok m"
| "version_consistent (Headers head b n) =
     (case mh_backing head of
        Indexed_Backing e \<Rightarrow> published e \<and> n = eh_len e + length (backing_bytes b)
      | Input_Backing _ \<Rightarrow> False)"

definition current_consistent :: "current_message \<Rightarrow> bool" where
  "current_consistent current \<longleftrightarrow> (case current of None \<Rightarrow> True | Some v \<Rightarrow> version_consistent v)"

text \<open>Execution starts from mapped input and keeps it; all other versions are its own.\<close>

definition message_consistent :: "('h, 'x, 'l) execution \<Rightarrow> bool" where
  "message_consistent s \<longleftrightarrow> current_consistent (ex_current s) \<and> (case ex_message s of Mapped _ _ _ _ \<Rightarrow> True | Owned _ \<Rightarrow> False)"

lemma published_bytes: "published e \<Longrightarrow> length (fst (as_bytes e)) = eh_len e"
  by (simp add: published_def as_bytes_def Let_def split: option.split)

lemma consistent_len: "version_consistent v \<Longrightarrow> length (version_header v) + length (version_body v) = version_len v"
  by (cases v) (auto simp: message_ok_def head_as_bytes_def published_bytes split: header_backing.splits)

lemma consistent_delivers:
  assumes "message_consistent s" "final_new (view_of s) = Some final"
  shows "length (fst (final_bytes final)) + length (snd (final_bytes final)) = final_len final"
proof (cases "ex_current s")
  case None
  then show ?thesis using assms by (cases "ex_message s") (auto simp: view_of_def cm_view_def message_consistent_def)
next
  case (Some v)
  then show ?thesis
    using assms consistent_len [of v] by (auto simp: view_of_def cm_view_def message_consistent_def current_consistent_def mb_new_def)
qed

lemma view_is_published: "message_consistent s \<Longrightarrow> view_published (complete_header_view (view_of s))"
proof (cases "ex_current s")
  case None
  assume "message_consistent s"
  then show ?thesis using None by (cases "ex_message s") (auto simp: view_of_def cm_view_def message_consistent_def)
next
  case (Some v)
  assume "message_consistent s"
  then show ?thesis
    by (cases v) (auto simp: message_consistent_def Some view_of_def cm_view_def current_consistent_def head_view_def split: header_backing.splits)
qed

lemma replace_consistent:
  assumes "current_consistent current" "message_ok m"
    and "\<And>head b n. area = AI_Body \<Longrightarrow> current = Some (Headers head b n) \<Longrightarrow> message_header m = head_as_bytes head"
  shows "current_consistent (cm_replace m area current)"
proof -
  have "version_consistent (Headers head (Filter m) (length (m_raw m)))"
    if "area = AI_Body" "current = Some (Headers head b n)" for head b n
    using that assms
    by (auto simp: current_consistent_def message_ok_def head_as_bytes_def published_bytes split: header_backing.splits)
  then show ?thesis
    using assms(2) by (auto simp: cm_replace_def current_consistent_def split: action_input.splits option.splits message_version.splits)
qed

lemma body_owner_bytes:
  "complete_body (cm_view current original) = Some body \<Longrightarrow> complete_body original = Some original_body \<Longrightarrow>
     backing_bytes (body_owner current original_body) = body"
  by (auto simp: cm_view_def body_owner_def split: option.splits message_version.splits)

lemma replace_header_consistent:
  assumes "cm_replace_header edited original_body limits current = Inr current'" "published edited"
  shows "\<exists>v. current' = Some v \<and> version_consistent v \<and>
    version_body v = backing_bytes (body_owner current original_body) \<and>
    version_header_view v = View_Indexed edited \<and> version_len v = eh_len edited + length (version_body v)"
  using assms
  by (auto simp: cm_replace_header_def Let_def from_edited_header_def head_len_def head_view_def checked_add_def
      split: sum.splits option.splits if_splits)

section \<open>Theorems\<close>

text \<open>
  C16. A header action that runs leaves a message that is whole again: the body that later recipes see
  and deliver is the one before, byte for byte, the length that size conditions compare is the
  length of what would be delivered, the edited header is published, and a changed message is
  within the limit on messages; nothing is published and no host operation is called.
\<close>

theorem header_step_keeps_message:
  assumes run: "execute_headers line operations s = (s', Inr r)" and ok: "message_consistent s"
    and "headers_size (ex_limits s) \<le> isize_max" "message_size (ex_limits s) \<le> usize_max"
  shows "message_consistent s' \<and> complete_body (view_of s') = complete_body (view_of s) \<and>
    (ex_current s' = ex_current s \<or> complete_len (view_of s') \<le> message_size (ex_limits s)) \<and>
    ex_host s' = ex_host s \<and> ex_published s' = ex_published s \<and> r = (Succeeded, SC_Continue)"
proof -
  let ?view = "complete_header_view (view_of s)"
  obtain body where body: "complete_body (view_of s) = Some body" by (cases "view_of s") auto
  obtain original where original: "complete_body (ex_message s) = Some original" by (cases "ex_message s") auto
  obtain resolved applied s1 where
    applied: "apply_header_action ?view (length body) resolved (ex_limits s) = Some (Inr applied)"
    and edit: "install_edit line ?view applied s = (s1, Inr ())"
    and s': "s' = s1\<lparr>ex_runtime := apply_header_extractions (ah_extractions applied) (ex_runtime s1), ex_pending := None\<rparr>"
    and r: "r = (Succeeded, SC_Continue)"
    using run
    by (auto simp: execute_headers_def step_with_def step_bind_def buffered_def body step_return_def expansion_lift_def
        eval_lift_def eval_fail_def step_fail_def update_runtime_def action_succeeded_def Let_def
        split: sum.splits option.splits prod.splits)
  have pub: "published (ah_header applied)" "eh_len (ah_header applied) + length body \<le> message_size (ex_limits s)"
    using action_published [OF applied view_is_published [OF ok] assms(3,4)] by simp_all
  show ?thesis
  proof (cases "changed_from applied ?view")
    case False
    then have "s1 = s" using edit by (simp add: install_edit_def)
    then show ?thesis using ok by (simp add: s' r view_of_def message_consistent_def)
  next
    case True
    then obtain current where rep: "cm_replace_header (ah_header applied) original (ex_limits s) (ex_current s) = Inr current"
      and s1: "s1 = s\<lparr>ex_current := current\<rparr>"
      using edit by (auto simp: install_edit_def original split: sum.splits)
    obtain v where v: "current = Some v" "version_consistent v" "version_body v = body"
      "version_len v = eh_len (ah_header applied) + length (version_body v)"
      using replace_header_consistent [OF rep pub(1)] body_owner_bytes body original by (auto simp: view_of_def)
    show ?thesis
      using v pub(2) body ok by (simp add: s' s1 r view_of_def cm_view_def message_consistent_def current_consistent_def)
  qed
qed

text \<open>The action that removes the only field of a header, on a message with a body of one byte.\<close>

definition sample_execution :: "(unit, unit, unit) execution" where
  "sample_execution =
     \<lparr>ex_message = Mapped (ascii ''C:'' @ [LF, 120]) 3 None None, ex_current = None, ex_runtime = runtime_default 7,
      ex_host = (), ex_published = 0, ex_original_delivered = False, ex_pending = None, ex_rc = rc_context_root,
      ex_limits = message_limits_default, ex_copies = 0, ex_rc_state = rc_state_new None\<rparr>"

definition sample_removal :: "applied_header_action run" where
  "sample_removal = apply_header_action (View_Raw (ascii ''C:'' @ [LF])) 1 [Op_Remove 1 (ascii ''c'')] message_limits_default"

lemma removed_field:
  "store_remove_matching [99] \<lparr>arena = [67, COLON, LF], hfields = [\<lparr>raw = (0, Suc (Suc (Suc 0))), hf_name = Some (0, Suc 0)\<rparr>],
     free = [], ceiling_of = n\<rparr> = \<lparr>arena = [], hfields = [], free = [], ceiling_of = n\<rparr>"
  by (simp add: store_remove_matching_def retain_fields_def name_matches_def view_field_def arena_slice_def slice_def
      eq_ignore_ascii_case_def byte_defs coalesce_free_def coalesce_loop.simps last_opt_def Let_def)

lemma sample_removal_run:
  "\<exists>a. sample_removal = Some (Inr a) \<and> eh_len (ah_header a) = 0 \<and> concat (eh_parts (ah_header a)) = [] \<and>
     eh_validate (ah_header a) 1 message_limits_default = Inr ()"
  by (simp add: sample_removal_def apply_header_action_def eh_new_def sample_split [simplified] store_new_def
      store_insert_def place_bytes_def checked_add_def usize_max_def check_limit_def message_limits_default_def
      size_units fitting_hole_def field_from_bytes_def lift_def run_bind_def ok_def eh_remove_matching_def
      eh_any_match_def field_count_def store_matches_def store_field_def view_field_def arena_slice_def slice_def
      eq_ignore_ascii_case_def byte_defs validate_aggregate_size_def serialized_size_def header_parts_def
      finish_def eh_validate_def validate_header_parts_def eh_parts_def eh_len_def validate_field_line_def
      is_blank_def needs_reindex_def update_line_ending_def try_store_def Let_def on_store_def store_mut_def set_store_def
      make_mut_def removed_field [simplified])

theorem header_step_keeps_message_witness:
  "\<exists>s'. execute_headers 1 [Op_Remove 1 (ascii ''c'')] sample_execution = (s', Inr (Succeeded, SC_Continue)) \<and>
     complete_body (view_of s') = Some [120] \<and> complete_len (view_of s') = 1 \<and> message_consistent s'"
proof -
  obtain a where a: "sample_removal = Some (Inr a)" "eh_len (ah_header a) = 0" "concat (eh_parts (ah_header a)) = []"
    "eh_validate (ah_header a) (Suc 0) message_limits_default = Inr ()"
    using sample_removal_run by auto
  let ?s = "sample_execution"
  have view: "complete_header_view (view_of ?s) = View_Raw (ascii ''C:'' @ [LF])" "complete_body (view_of ?s) = Some [120]"
    by (simp_all add: sample_execution_def view_of_def cm_view_def)
  have limits: "ex_limits ?s = message_limits_default" by (simp add: sample_execution_def)
  have act: "apply_header_action (View_Raw (ascii ''C:'' @ [LF])) (Suc 0) [Op_Remove 1 (ascii ''c'')] message_limits_default = Some (Inr a)"
    using a(1) by (simp add: sample_removal_def)
  have changed: "changed_from a (View_Raw (ascii ''C:'' @ [LF]))" unfolding changed_from_def a(3) by simp
  obtain current where current: "cm_replace_header (ah_header a) [120] message_limits_default None = Inr current"
    "complete_len (cm_view current (ex_message ?s)) = 1"
    using a(2,4) by (auto simp: cm_replace_header_def from_edited_header_def head_len_def cm_view_def body_owner_def checked_add_def
        usize_max_def Let_def)
  have orig: "complete_body (ex_message ?s) = Some [120]" "ex_current ?s = None" by (simp_all add: sample_execution_def)
  obtain s' where run: "execute_headers 1 [Op_Remove 1 (ascii ''c'')] ?s = (s', Inr (Succeeded, SC_Continue))"
    and s': "ex_current s' = current" "ex_message s' = ex_message ?s"
    using act changed current(1)
    by (simp add: execute_headers_def step_with_def step_bind_def buffered_def view orig limits step_return_def expansion_lift_def
        eval_lift_def update_runtime_def action_succeeded_def install_edit_def Let_def)
  have "message_consistent ?s" by (simp add: message_consistent_def current_consistent_def sample_execution_def)
  from header_step_keeps_message [OF run this] show ?thesis
    using run view(2) current(2) s'
    by (simp add: limits message_limits_default_def size_units isize_max_def usize_max_def view_of_def)
qed

end
