(* ===== verification/Condition_Facts.thy ===== *)
theory Condition_Facts
  imports Eval_Condition
begin

text \<open>
  What the matching of conditions guarantees: a decision made on the header alone stands for the
  complete message, and the variables that a match leaves behind are the groups of that match.
\<close>

section \<open>The variables of a match\<close>

definition group_text :: "bytes \<Rightarrow> captures \<Rightarrow> usize \<Rightarrow> bytes" where
  "group_text input caps index = (case capture_group caps index of None \<Rightarrow> [] | Some (a, b) \<Rightarrow> slice input a b)"

lemma capture_value_Inr: "capture_value input caps i = Inr v \<Longrightarrow> v = group_text input caps i"
  by (simp add: capture_value_def match_value_def group_text_def split: if_splits)

lemma numbered_captures_Inr:
  "numbered_captures input caps is n = Inr vs \<Longrightarrow>
     vs = map (\<lambda>k. (numbered_match (n + k), group_text input caps (is ! k))) [0..<length is]"
proof (induction "is" arbitrary: n vs)
  case (Cons i "is")
  obtain v vs' where v: "capture_value input caps i = Inr v" "numbered_captures input caps is (n + 1) = Inr vs'"
    and vs: "vs = (numbered_match n, v) # vs'"
    using Cons.prems by (auto simp: map_sum_Inr_iff split: sum.splits)
  show ?case
    using Cons.IH [OF v(2)] capture_value_Inr [OF v(1)]
    by (simp add: vs upt_conv_Cons map_Suc_upt [symmetric] del: upt_Suc map_Suc_upt)
qed simp

lemma numbered_match_inj: "numbered_match a = numbered_match b \<longleftrightarrow> a = b"
  by (simp add: numbered_match_def decimal_inj)

lemma decimal_neq_Nil: "decimal n \<noteq> []"
  by (subst decimal.simps) simp

lemma numbered_match_names:
  "is_match_capture_name (numbered_match n)" "numbered_match n \<noteq> MATCH_NAME" "\<not> is_match_capture_name MATCH_NAME"
  by (simp_all add: is_match_capture_name_def numbered_match_def starts_with_def decimal_digits decimal_neq_Nil MATCH_NAME_def)

lemma find_set_match_values:
  "rv_find (set_match_values vs rv) name = (case map_of (rev vs) name of Some v \<Rightarrow> Some (Rv_Text v) | None \<Rightarrow> rv_find rv name)"
  unfolding set_match_values_def
  by (induction vs arbitrary: rv) (auto simp: map_add_def split: option.splits)

lemma map_of_numbered:
  "map_of (rev (map (\<lambda>k. (numbered_match (Suc k), f k)) [0..<m])) (numbered_match (Suc k)) = (if k < m then Some (f k) else None)"
proof (induction m)
  case (Suc m)
  then show ?case by (auto simp: numbered_match_inj)
qed simp

lemma map_of_numbered_MATCH: "map_of (rev (map (\<lambda>k. (numbered_match (Suc k), f k)) ks)) MATCH_NAME = None"
  using numbered_match_names(2) [symmetric] by (auto simp: map_of_eq_None_iff)

lemma marked_value_Inr:
  assumes "marked_value c input caps = Inr vs"
  shows "vs = (case selected_match_start caps (cc_match_captures c) of
      None \<Rightarrow> [] | Some start \<Rightarrow> [(MATCH_NAME, slice input start (snd (the (capture_group caps 0))))])"
  using assms
  by (auto simp: marked_value_def get_range_def match_value_def split: option.splits prod.splits if_splits)

lemma match_name_get:
  assumes "is_match_capture_name name \<or> name = MATCH_NAME"
  shows "rv_get rv name = Option.bind (rv_find rv name) value_text"
proof -
  obtain rest where name: "name = MATCH_NAME @ rest"
  proof (cases "name = MATCH_NAME")
    case False
    then have "take 5 name = MATCH_NAME"
      using assms by (simp add: is_match_capture_name_def starts_with_def MATCH_NAME_def numeral_eq_Suc)
    then show ?thesis using that [of "drop 5 name"] append_take_drop_id [of 5 name] by simp
  qed (use that [of "[]"] in simp)
  have "\<not> is_special_name name" "absent_value name = None"
    by (auto simp: name MATCH_NAME_def is_special_name_def absent_value_def is_positional_parameter_name_def is_ascii_digit_def)
  then show ?thesis by (simp add: rv_get_plain lookup_plain_def split: option.splits)
qed

text \<open>
  A condition with groups that matches, and is not negated.  When the match went through no marker,
  \<open>MATCH\<close> keeps its old value, where the manual page says that evaluating the condition clears it first.
\<close>

lemma matched_variables:
  assumes run: "regex_matches re c r input rv = (rv', Inr True)" and cap: "has_captures c" and pos: "\<not> cc_negated c"
  shows "\<exists>caps. captures_of re r input = Some caps \<and>
    (\<forall>k. rv_get rv' (numbered_match (Suc k)) =
       (if k < length (cc_capture_indexes c) then Some (group_text input caps (cc_capture_indexes c ! k)) else None)) \<and>
    rv_get rv' MATCH_NAME =
      (case selected_match_start caps (cc_match_captures c) of
         None \<Rightarrow> rv_get rv MATCH_NAME
       | Some start \<Rightarrow> Some (slice input start (snd (the (capture_group caps 0)))))"
proof -
  obtain caps vs where caps: "captures_of re r input = Some caps" "match_values c input caps = Inr vs"
    and rv': "rv' = set_match_values vs (clear_numbered_match_values rv)"
    using run cap pos by (auto simp: regex_matches_def Let_def split: option.splits sum.splits)
  obtain marked numbered where parts: "marked_value c input caps = Inr marked"
    "numbered_captures input caps (cc_capture_indexes c) 1 = Inr numbered" and vs: "vs = marked @ numbered"
    using caps(2) by (auto simp: match_values_def split: sum.splits)
  let ?f = "\<lambda>k. group_text input caps (cc_capture_indexes c ! k)"
  have numbered: "numbered = map (\<lambda>k. (numbered_match (Suc k), ?f k)) [0..<length (cc_capture_indexes c)]"
    using numbered_captures_Inr [OF parts(2)] by simp
  have marked: "map_of (rev marked) (numbered_match (Suc k)) = None" for k
    using numbered_match_names(2) [of "Suc k"] marked_value_Inr [OF parts(1)] by (auto split: option.splits)
  have find_n: "rv_find rv' (numbered_match (Suc k)) =
      (if k < length (cc_capture_indexes c) then Some (Rv_Text (?f k))
       else if rv_find rv (numbered_match (Suc k)) = None then None else Some Rv_Removed)" for k
    unfolding rv' vs numbered
    by (simp add: find_set_match_values map_add_def map_of_numbered marked rv_find_clear numbered_match_names)
  have "rv_find rv' MATCH_NAME = (case map_of (rev marked) MATCH_NAME of Some v \<Rightarrow> Some (Rv_Text v) | None \<Rightarrow> rv_find rv MATCH_NAME)"
    unfolding rv' vs numbered
    by (simp add: find_set_match_values map_add_def map_of_numbered_MATCH rv_find_clear numbered_match_names(3) split: option.splits)
  then have "rv_get rv' MATCH_NAME = (case selected_match_start caps (cc_match_captures c) of
         None \<Rightarrow> rv_get rv MATCH_NAME
       | Some start \<Rightarrow> Some (slice input start (snd (the (capture_group caps 0)))))"
    using marked_value_Inr [OF parts(1)] by (auto simp: match_name_get split: option.splits)
  moreover have "rv_get rv' (numbered_match (Suc k)) = (if k < length (cc_capture_indexes c) then Some (?f k) else None)" for k
    using find_n [of k] numbered_match_names(1) by (simp add: match_name_get)
  ultimately show ?thesis using caps(1) by blast
qed

lemma cleared_variables:
  "rv_get (clear_match_values rv) (numbered_match k) = None" "rv_get (clear_match_values rv) MATCH_NAME = None"
  using numbered_match_names
  by (simp_all add: match_name_get clear_match_values_def rv_find_clear MATCH_NAME_def split: option.split)

text \<open>What clearing and setting leave alone.\<close>

lemma match_frame: "rv_frame rv (clear_numbered_match_values rv)" "rv_frame rv (clear_match_values rv)"
  "rv_frame rv rv' \<Longrightarrow> rv_frame rv (set_match_values vs rv')"
proof -
  show "rv_frame rv (clear_numbered_match_values rv)" "rv_frame rv (clear_match_values rv)"
    by (simp_all add: rv_frame_def clear_numbered_match_values_def clear_match_values_def rv_remove_def rv_put_def)
  have step: "rv_frame rv rv' \<Longrightarrow> rv_frame rv (set_match_value n v rv')" for n v rv'
    by (simp add: rv_frame_def set_match_value_def rv_put_def)
  show "rv_frame rv rv' \<Longrightarrow> rv_frame rv (set_match_values vs rv')"
    unfolding set_match_values_def by (induction vs arbitrary: rv') (simp_all add: step split: prod.split)
qed

lemma frame_get:
  assumes "rv_frame rv rv'" and "\<And>n. \<not> is_match_capture_name n \<Longrightarrow> n \<noteq> MATCH_NAME \<Longrightarrow> rv_find rv' n = rv_find rv n"
    and "\<not> is_match_capture_name name" "name \<noteq> MATCH_NAME"
  shows "rv_get rv' name = rv_get rv name"
proof -
  have "rv_find rv' (ascii ''LASTFOLDER'') = rv_find rv (ascii ''LASTFOLDER'')"
    by (rule assms(2)) (simp_all add: is_match_capture_name_def starts_with_def MATCH_NAME_def)
  then show ?thesis
    using assms(1) assms(2) [OF assms(3,4)] by (simp add: rv_get_def lookup_special_def lookup_plain_def rv_frame_def)
qed

lemma match_values_names:
  assumes "match_values c input caps = Inr vs" and "\<not> is_match_capture_name name" "name \<noteq> MATCH_NAME"
  shows "map_of (rev vs) name = None"
proof -
  obtain marked numbered where "marked_value c input caps = Inr marked"
    "numbered_captures input caps (cc_capture_indexes c) 1 = Inr numbered" and vs: "vs = marked @ numbered"
    using assms(1) by (auto simp: match_values_def split: sum.splits)
  then have "set (map fst vs) \<subseteq> {MATCH_NAME} \<union> range numbered_match"
    using marked_value_Inr numbered_captures_Inr by (fastforce split: option.splits)
  then show ?thesis using assms(2,3) numbered_match_names(1) by (force simp: map_of_eq_None_iff)
qed

lemma matching_keeps_others:
  assumes "regex_matches re c r input rv = (rv', Inr b)" and "\<not> is_match_capture_name name" "name \<noteq> MATCH_NAME"
  shows "rv_get rv' name = rv_get rv name"
proof -
  consider "rv' = rv" | "rv' = clear_match_values rv"
    | caps vs where "match_values c input caps = Inr vs" "rv' = set_match_values vs (clear_numbered_match_values rv)"
    using assms(1) by (auto simp: regex_matches_def Let_def split: if_splits option.splits sum.splits)
  then show ?thesis
  proof cases
    case 2
    show ?thesis
      unfolding 2 by (rule frame_get [OF match_frame(2) _ assms(2,3)]) (simp add: clear_match_values_def rv_find_clear MATCH_NAME_def)
  next
    case 3
    show ?thesis
      unfolding 3(2)
      by (rule frame_get [OF match_frame(3) [OF match_frame(1)] _ assms(2,3)])
        (simp add: find_set_match_values match_values_names [OF 3(1)] rv_find_clear)
  qed simp
qed

text \<open>
  C24. What the evaluation of a regular expression leaves in the variables.  Without groups and markers
  it changes none.  With them, when the expression does not match, or matches under a negation, \<open>MATCH\<close> and
  every numbered match variable are unset; when it matches, \<open>MATCH1\<close>, \<open>MATCH2\<close> and so on are the texts of the
  configured groups of this match, an unused group giving the empty text, no number beyond them is left over
  from an earlier match, and \<open>MATCH\<close> is the text from the marker that the match went through to the end
  of the match.  No other variable changes.
\<close>

theorem match_variables:
  assumes "regex_matches re c r input rv = (rv', Inr matched)"
  shows "(\<not> has_captures c \<longrightarrow> rv' = rv) \<and>
    (has_captures c \<and> (\<not> matched \<or> cc_negated c) \<longrightarrow>
       (\<forall>k. rv_get rv' (numbered_match (Suc k)) = None) \<and> rv_get rv' MATCH_NAME = None) \<and>
    (has_captures c \<and> matched \<and> \<not> cc_negated c \<longrightarrow>
       (\<exists>caps. captures_of re r input = Some caps \<and>
          (\<forall>k. rv_get rv' (numbered_match (Suc k)) =
             (if k < length (cc_capture_indexes c) then Some (group_text input caps (cc_capture_indexes c ! k)) else None)) \<and>
          (\<forall>start. selected_match_start caps (cc_match_captures c) = Some start \<longrightarrow>
             rv_get rv' MATCH_NAME = Some (slice input start (snd (the (capture_group caps 0))))))) \<and>
    (\<forall>name. \<not> is_match_capture_name name \<and> name \<noteq> MATCH_NAME \<longrightarrow> rv_get rv' name = rv_get rv name)"
proof -
  have none: "rv' = rv" if "\<not> has_captures c" using assms that by (simp add: regex_matches_def)
  have cleared: "rv' = clear_match_values rv" if "has_captures c" "\<not> matched \<or> cc_negated c"
    using assms that by (auto simp: regex_matches_def Let_def split: option.splits if_splits sum.splits)
  have set: "\<exists>caps. captures_of re r input = Some caps \<and>
      (\<forall>k. rv_get rv' (numbered_match (Suc k)) =
         (if k < length (cc_capture_indexes c) then Some (group_text input caps (cc_capture_indexes c ! k)) else None)) \<and>
      (\<forall>start. selected_match_start caps (cc_match_captures c) = Some start \<longrightarrow>
         rv_get rv' MATCH_NAME = Some (slice input start (snd (the (capture_group caps 0)))))"
    if "has_captures c \<and> matched \<and> \<not> cc_negated c"
    using matched_variables [of re c r input rv rv'] assms that by fastforce
  show ?thesis
    using none cleared set matching_keeps_others [OF assms] by (auto simp: cleared_variables)
qed

text \<open>An engine whose one program matches any text but the empty one and captures its first byte.\<close>

definition sample_engine :: regex_engine where
  "sample_engine =
     \<lparr>is_match = (\<lambda>r input. input \<noteq> []),
      captures_of = (\<lambda>r input. if input = [] then None else Some [Some (0, length input), Some (0, 1)])\<rparr>"

lemma sample_engine_ok: "engine_ok sample_engine"
  by (auto simp: engine_ok_def sample_engine_def capture_group_def nth_Cons Suc_le_eq split: if_splits nat.splits)

definition sample_condition :: "compiled_condition_kind \<Rightarrow> compiled_condition" where
  "sample_condition kind =
     \<lparr>cc_line = 1, cc_negated = False, cc_kind = kind, cc_match_captures = [], cc_capture_indexes = [1]\<rparr>"

theorem match_variables_witness:
  "\<exists>rv'. regex_matches sample_engine (sample_condition (CC_HeaderRegex 0)) 0 (ascii ''ab'') sample_runtime = (rv', Inr True) \<and>
     rv_get rv' (numbered_match 1) = Some (ascii ''a'') \<and> rv_get rv' (numbered_match 2) = None"
proof -
  let ?c = "sample_condition (CC_HeaderRegex 0)"
  obtain rv' where run: "regex_matches sample_engine ?c 0 (ascii ''ab'') sample_runtime = (rv', Inr True)"
    by (simp add: regex_matches_def sample_engine_def sample_condition_def has_captures_def match_values_def marked_value_def
        selected_match_start_def List.map_filter_def capture_value_def capture_group_def match_value_def slice_def
        valid_utf8_def valid_utf8_ascii check_values_def checked_add_def usize_max_def MAX_MATCH_BYTES_def
        MAX_ASSIGNMENT_VALUE_LEN_def Let_def)
  have c: "has_captures ?c" "\<not> cc_negated ?c" by (simp_all add: sample_condition_def has_captures_def)
  obtain caps where caps: "captures_of sample_engine 0 (ascii ''ab'') = Some caps"
    and all: "\<forall>k. rv_get rv' (numbered_match (Suc k)) =
       (if k < length (cc_capture_indexes ?c) then Some (group_text (ascii ''ab'') caps (cc_capture_indexes ?c ! k)) else None)"
    using match_variables [OF run] c by auto
  have "caps = [Some (0, 2), Some (0, 1)]" using caps by (simp add: sample_engine_def numeral_2_eq_2)
  then show ?thesis
    using run all [rule_format, of 0] all [rule_format, of 1]
    by (simp add: sample_condition_def group_text_def capture_group_def slice_def numeral_2_eq_2)
qed

section \<open>Decisions on the header\<close>

lemma decided_Inr:
  assumes "decided c result = (rv', Inr d)"
  shows "d \<noteq> PM_Deferred" "negate_result c result = (rv', Inr (d = PM_True))"
  using assms by (cases result; cases "snd result"; auto simp: decided_def negate_result_def from_bool_def split: if_splits)+

text \<open>
  C18. A decision on the header alone is final: when \<open>matches_headers\<close> decides a condition, then on any
  complete message with that header, whatever its body, \<open>matches_complete\<close> gives the same answer and
  leaves the same variables.
\<close>

theorem header_decision_stands:
  assumes "matches_headers re c head rv = (rv', Inr d)" and "d \<noteq> PM_Deferred"
    and "header_bytes m = head_matching_header head" and "complete_header_view m = head_view head"
    and "head_len head \<le> complete_len m"
  shows "matches_complete re reparse c m rv = (rv', Inr (d = PM_True))"
proof -
  have input: "on_input m CI_Headers rv f = f (head_matching_header head)" for f
    by (simp add: on_input_def matching_input_def assms(3))
  show ?thesis
  proof (cases "cc_kind c")
    case (CC_SmallerThan n)
    then show ?thesis
      using assms(1,2,5) by (auto simp: matches_headers_def matches_complete_def matches_plain_def dest: decided_Inr split: if_splits)
  next
    case (CC_LargerThan n)
    then show ?thesis
      using assms(1,2,5) by (auto simp: matches_headers_def matches_complete_def matches_plain_def dest: decided_Inr split: if_splits)
  qed (use assms(1,2,4) decided_Inr(2) in \<open>auto simp: matches_headers_def matches_complete_def matches_plain_def input\<close>)
qed

definition sample_head :: message_head where
  "sample_head = \<lparr>mh_backing = Input_Backing (ascii ''A: b'' @ [LF, LF]), mh_matching = None, mh_limits = message_limits_default\<rparr>"

theorem header_decision_stands_witness:
  "matches_headers sample_engine (sample_condition (CC_LargerThan 3)) sample_head sample_runtime = (sample_runtime, Inr PM_True) \<and>
   matches_complete sample_engine (\<lambda>_ _ _. Inl (0, [])) (sample_condition (CC_LargerThan 3))
     (Mapped (ascii ''A: b'' @ [LF, LF, 120]) 6 None None) sample_runtime = (sample_runtime, Inr True)"
proof -
  have run: "matches_headers sample_engine (sample_condition (CC_LargerThan 3)) sample_head sample_runtime =
      (sample_runtime, Inr PM_True)"
    by (simp add: matches_headers_def sample_condition_def sample_head_def head_len_def decided_def apply_negation_def from_bool_def)
  show ?thesis
    using run header_decision_stands [OF run, of "Mapped (ascii ''A: b'' @ [LF, LF, 120]) 6 None None"]
    by (simp add: sample_head_def head_matching_header_def head_view_def head_len_def)
qed

end
