(* ===== verification/Header_Plan.thy ===== *)
theory Header_Plan
  imports Eval_Ordered Condition_Facts
begin

text \<open>
  Planning before the message is complete, \<open>src/eval/header.rs\<close>, with the results of \<open>src/eval/result.rs\<close>.  The
  header phase walks the tree with the head of the message alone and decides the deliveries, or stops at
  the first recipe that needs more; the frames it leaves say where to go on.  Complete planning walks the
  tree on the whole message, and resuming enters it at those frames.

  The context structures of the two phases are records of state, the header phase extending the other.
  The head is part of the state, since header actions edit it.  The command runner for captures is
  an optional parameter over the state of the host.  Files entered at run time spend fuel as in ordered execution.
\<close>

section \<open>Results\<close>

datatype delivery_continuation = Delivery_Stop | Delivery_Continue

record planned_delivery =
  pd_destination :: destination
  pd_continuation :: delivery_continuation
  pd_output_ending :: output_ending
  pd_lock :: "bytes option"
  pd_umask :: nat
  pd_status :: message_status

record delivery_plan =
  dp_deliveries :: "planned_delivery list"
  dp_original_delivered :: bool

text \<open>\<open>FanoutPlanState\<close> has the fields of the plan it becomes.\<close>

type_synonym fanout_plan_state = delivery_plan

definition fanout_default :: fanout_plan_state where
  "fanout_default = \<lparr>dp_deliveries = [], dp_original_delivered = False\<rparr>"

record continuation_frame =
  cf_recipe_index :: usize
  cf_state :: sequence_state
  cf_condition_results :: "bool option list"
  cf_assignments_applied :: bool

record message_continuation =
  ct_frames :: "continuation_frame list"
  ct_execution :: fanout_plan_state
  ct_runtime :: runtime_variables
  ct_requirements :: input_requirements
  ct_restart :: bool

datatype header_evaluation = Decided delivery_plan | NeedsMessage message_continuation | Evaluation_Failed eval_error

datatype header_control = HC_Continue | HC_Stop | HC_EndRcFile | HC_Deferred

fun header_control_from :: "sequence_control \<Rightarrow> header_control" where
  "header_control_from SC_Continue = HC_Continue"
| "header_control_from SC_Stop = HC_Stop"
| "header_control_from SC_EndRcFile = HC_EndRcFile"
| "header_control_from SC_Complete = HC_Deferred"

section \<open>State\<close>

record 'l plan_state =
  ps_runtime :: runtime_variables
  ps_execution :: fanout_plan_state
  ps_rc :: rc_context
  ps_rc_state :: "'l rc_state"

record ('h, 'x, 'l) header_state = "'l plan_state" +
  hs_head :: message_head
  hs_frames :: "continuation_frame list"
  hs_requirements :: input_requirements
  hs_restart :: bool
  hs_pending :: "'x option"
  hs_host :: 'h

type_synonym ('l, 'z, 'x, 'a) planner = "(('l, 'z) plan_state_scheme, 'x ordered_error, 'a) step"
type_synonym ('h, 'x, 'l, 'a) header_planner = "(('h, 'x, 'l) header_state, 'x ordered_error, 'a) step"

record 'l plan_services =
  pv_engine :: regex_engine
  pv_reparse :: reparser
  pv_load :: "'l rc_loader"

type_synonym ('h, 'x) capture_executor =
  "bytes \<Rightarrow> bytes \<Rightarrow> output_ending \<Rightarrow> recipe_options option \<Rightarrow> usize \<Rightarrow> ('h \<times> runtime_variables, 'x attempt_error, bytes) step"

definition plan_lift :: "eval_error + 'a \<Rightarrow> ('s, 'x ordered_error, 'a) step" where
  "plan_lift r s = (s, map_sum Err_Evaluation id r)"

definition plan_fail :: "eval_error \<Rightarrow> ('s, 'x ordered_error, 'a) step" where
  "plan_fail e = step_fail (Err_Evaluation e)"

definition plan_runtime :: "(runtime_variables \<Rightarrow> runtime_variables \<times> (eval_error + 'a)) \<Rightarrow> ('l, 'z, 'x, 'a) planner" where
  "plan_runtime f s = (case f (ps_runtime s) of (rv, r) \<Rightarrow> (s\<lparr>ps_runtime := rv\<rparr>, map_sum Err_Evaluation id r))"

section \<open>Recipes\<close>

text \<open>\<open>CompiledNode::matches_headers\<close>: every condition up to the first that is false; one that is deferred leaves
  no result and the later ones are still looked at.\<close>

fun node_matches_headers ::
    "regex_engine \<Rightarrow> compiled_condition list \<Rightarrow> message_head \<Rightarrow> runtime_variables \<Rightarrow>
     runtime_variables \<times> (eval_error + (partial_match \<times> bool option list))" where
  "node_matches_headers re [] head rv = (rv, Inr (PM_True, []))"
| "node_matches_headers re (c # cs) head rv =
     (case matches_headers re c head rv of
        (rv1, Inl e) \<Rightarrow> (rv1, Inl e)
      | (rv1, Inr PM_False) \<Rightarrow> (rv1, Inr (PM_False, [Some False]))
      | (rv1, Inr PM_Deferred) \<Rightarrow>
          (case node_matches_headers re cs head rv1 of
             (rv2, r) \<Rightarrow> (rv2, map_sum id (\<lambda>(d, rs). (if d = PM_False then PM_False else PM_Deferred, None # rs)) r))
      | (rv1, Inr PM_True) \<Rightarrow>
          (case node_matches_headers re cs head rv1 of
             (rv2, r) \<Rightarrow> (rv2, map_sum id (\<lambda>(d, rs). (d, Some True # rs)) r)))"

text \<open>\<open>CompiledNode::matches_resumed\<close>: results of the header phase are used again, the others are found now.\<close>

definition resumed_result ::
    "regex_engine \<Rightarrow> reparser \<Rightarrow> compiled_condition \<Rightarrow> complete_message \<Rightarrow> bool option list \<Rightarrow> runtime_variables \<Rightarrow>
     runtime_variables \<times> (eval_error + bool)" where
  "resumed_result re reparse c m results rv =
     (case results of
        Some matched # _ \<Rightarrow> (rv, Inr matched)
      | _ \<Rightarrow> matches_complete re reparse c m rv)"

fun matches_resumed ::
    "regex_engine \<Rightarrow> reparser \<Rightarrow> compiled_condition list \<Rightarrow> complete_message \<Rightarrow> bool option list \<Rightarrow> runtime_variables \<Rightarrow>
     runtime_variables \<times> (eval_error + bool)" where
  "matches_resumed re reparse [] m results rv = (rv, Inr True)"
| "matches_resumed re reparse (c # cs) m results rv =
     (case resumed_result re reparse c m results rv of
        (rv1, Inl e) \<Rightarrow> (rv1, Inl e)
      | (rv1, Inr matched) \<Rightarrow> if matched then matches_resumed re reparse cs m (tl results) rv1 else (rv1, Inr False))"

definition planning_gate :: "control_flow \<Rightarrow> sequence_state \<Rightarrow> bool" where
  "planning_gate control state =
     (case control of
        Independent \<Rightarrow> True
      | AfterChainMatch \<Rightarrow> ss_chain_base_matched state = Some True
      | AfterPreviousSuccess \<Rightarrow>
          (case ss_previous state of Some r \<Rightarrow> rex_conditions_matched r \<and> rex_result r = Succeeded | None \<Rightarrow> False)
      | AfterPreviousError \<Rightarrow>
          (case ss_previous state of Some r \<Rightarrow> rex_conditions_matched r \<and> rex_result r = Failed | None \<Rightarrow> False)
      | Else \<Rightarrow> (case ss_previous state of Some r \<Rightarrow> \<not> rex_else_handled r | None \<Rightarrow> True))"

fun delivery_defers_header :: "bool \<Rightarrow> compiled_action \<Rightarrow> bool" where
  "delivery_defers_header capture_available (CA_Pipe _ _) \<longleftrightarrow> True"
| "delivery_defers_header capture_available (CA_Capture _ options) \<longleftrightarrow>
     \<not> capture_available \<or> ro_action_input options \<noteq> AI_Headers"
| "delivery_defers_header capture_available (CA_Deliver d _ _) \<longleftrightarrow>
     needs_runtime_variables d \<or> destination_requires_ordered_delivery d"
| "delivery_defers_header capture_available (CA_Block _) \<longleftrightarrow> False"
| "delivery_defers_header capture_available (CA_Headers _) \<longleftrightarrow> False"

definition push_delivery :: "planned_delivery \<Rightarrow> ('l, 'z, 'x, unit) planner" where
  "push_delivery d s =
     (s\<lparr>ps_execution :=
          \<lparr>dp_deliveries = dp_deliveries (ps_execution s) @ [d],
           dp_original_delivered = (dp_original_delivered (ps_execution s) \<or> pd_continuation d = Delivery_Stop)\<rparr>\<rparr>, Inr ())"

definition plan_lock :: "path_expression option \<Rightarrow> runtime_variables \<Rightarrow> eval_error + bytes option" where
  "plan_lock lock rv =
     (case lock of
        None \<Rightarrow> Inr None
      | Some x \<Rightarrow> map_sum ExpansionFailed Some (path_expression_resolve_with x (rv_get rv)))"

definition runtime_setting_eval_error :: "runtime_setting_error \<Rightarrow> eval_error" where
  "runtime_setting_eval_error e = RuntimeSettingUnavailable (case rse_line e of Some n \<Rightarrow> n | None \<Rightarrow> 0) (rse_name e)"

definition plan_delivery ::
    "usize \<Rightarrow> path_expression option \<Rightarrow> destination \<Rightarrow> continuation_mode \<Rightarrow> output_ending \<Rightarrow> message_status \<Rightarrow> bool \<Rightarrow>
     ('l, 'z, 'x, sequence_control) planner" where
  "plan_delivery line lock d cont ending status has_handler =
     step_with (\<lambda>s. let rv = ps_runtime s; copy = (cont = Cont_Continue) in
     step_bind (plan_lift (map_sum ExpansionFailed id (destination_bind_with d (rv_get rv)))) (\<lambda>target.
     step_bind (plan_lift (plan_lock lock rv)) (\<lambda>path.
     step_bind (plan_lift (map_sum runtime_setting_eval_error id (umask_of rv (Some line)))) (\<lambda>umask.
     step_bind
       (push_delivery \<lparr>pd_destination = target, pd_continuation = (if copy then Delivery_Continue else Delivery_Stop),
          pd_output_ending = ending, pd_lock = path, pd_umask = umask, pd_status = status\<rparr>) (\<lambda>_.
       step_return (if copy \<or> has_handler then SC_Continue else SC_Stop))))))"

section \<open>Statements\<close>

definition host_elsewhere :: "('l, 'z, 'x, unit) planner" where
  "host_elsewhere s = (s\<lparr>ps_execution := (ps_execution s)\<lparr>dp_original_delivered := True\<rparr>\<rparr>, Inr ())"

text \<open>The statements that enter no file; \<open>False\<close> ends the file.\<close>

fun plan_statement :: "compiled_statement \<Rightarrow> ('l, 'z, 'x, bool) planner" where
  "plan_statement (CS_CommandAssignment a) = plan_fail (ExternalActionUnsupported (cas_line a))"
| "plan_statement (CS_Assignment a) =
     plan_runtime (\<lambda>rv. case execute_assignment a rv of Inl e \<Rightarrow> (rv, Inl e) | Inr rv1 \<Rightarrow> (rv1, Inr True))"
| "plan_statement (CS_Unset u) = plan_runtime (\<lambda>rv. (execute_unset u rv, Inr True))"
| "plan_statement (CS_Host a) =
     step_bind (plan_runtime (execute_host_assignment a)) (\<lambda>here.
       if here then step_return True else step_bind host_elsewhere (\<lambda>_. step_return False))"
| "plan_statement (CS_Include e) = step_return True"
| "plan_statement (CS_Switch e) = step_return True"

text \<open>\<open>execute_statements\<close> of \<open>src/eval.rs\<close>, for statements that were not run before the frame was left.\<close>

fun resume_statements :: "compiled_statement list \<Rightarrow> runtime_variables \<Rightarrow> runtime_variables \<times> (eval_error + sequence_control)" where
  "resume_statements [] rv = (rv, Inr SC_Continue)"
| "resume_statements (CS_CommandAssignment a # ss) rv = (rv, Inl (ExternalActionUnsupported (cas_line a)))"
| "resume_statements (CS_Assignment a # ss) rv =
     (case execute_assignment a rv of Inl e \<Rightarrow> (rv, Inl e) | Inr rv1 \<Rightarrow> resume_statements ss rv1)"
| "resume_statements (CS_Unset u # ss) rv = resume_statements ss (execute_unset u rv)"
| "resume_statements (CS_Host a # ss) rv =
     (case execute_host_assignment a rv of
        (rv1, Inl e) \<Rightarrow> (rv1, Inl e)
      | (rv1, Inr here) \<Rightarrow> if here then resume_statements ss rv1 else (rv1, Inr SC_EndRcFile))"
| "resume_statements (CS_Include e # ss) rv = (rv, Inl (RuntimeRcLoaderUnavailable (rf_line e) RcInclude))"
| "resume_statements (CS_Switch e # ss) rv = (rv, Inl (RuntimeRcLoaderUnavailable (rf_line e) RcSwitch))"

definition plan_enter :: "'l plan_services \<Rightarrow> rc_file_expression \<Rightarrow> rc_statement \<Rightarrow> ('l, 'z, 'x, entered_rc) planner" where
  "plan_enter pv e statement s =
     (case enter_runtime_rc (pv_load pv) e statement (ps_runtime s) (ps_rc s) (ps_rc_state s) of
        (st, r) \<Rightarrow> (s\<lparr>ps_rc_state := st\<rparr>, map_sum Err_Evaluation id r))"

text \<open>\<open>execute_runtime_rc\<close> of both contexts.\<close>

definition plan_runtime_rc :: "bytes \<Rightarrow> rc_context \<Rightarrow> ('l, 'z, 'x, 'a) planner \<Rightarrow> ('l, 'z, 'x, 'a) planner" where
  "plan_runtime_rc path child m s =
     (case replace_current_rc_file (Some path) (ps_runtime s) of
        (rv, caller_path) \<Rightarrow>
          (case m (s\<lparr>ps_runtime := rv, ps_rc := child\<rparr>) of
             (s1, r) \<Rightarrow>
               (s1\<lparr>ps_runtime := fst (replace_current_rc_file caller_path (ps_runtime s1)), ps_rc := ps_rc s\<rparr>, r)))"

section \<open>Complete planning\<close>

definition handler_follows :: "compiled_node list \<Rightarrow> bool" where
  "handler_follows ns \<longleftrightarrow> (case ns of [] \<Rightarrow> False | n # _ \<Rightarrow> cn_control n = AfterPreviousError)"

function (sequential) plan_complete_from ::
    "'l plan_services \<Rightarrow> complete_message \<Rightarrow> nat \<Rightarrow> compiled_node list \<Rightarrow> compiled_statement list \<Rightarrow> sequence_state \<Rightarrow>
     ('l, 'z, 'x, sequence_control) planner"
and plan_action ::
    "'l plan_services \<Rightarrow> complete_message \<Rightarrow> nat \<Rightarrow> usize \<Rightarrow> path_expression option \<Rightarrow> bool \<Rightarrow> compiled_action \<Rightarrow>
     ('l, 'z, 'x, sequence_control) planner"
and plan_statements_complete ::
    "'l plan_services \<Rightarrow> complete_message \<Rightarrow> nat \<Rightarrow> compiled_statement list \<Rightarrow> ('l, 'z, 'x, sequence_control) planner"
and plan_entered_complete ::
    "'l plan_services \<Rightarrow> complete_message \<Rightarrow> nat \<Rightarrow> compiled_sequence \<Rightarrow> bytes \<Rightarrow> rc_context \<Rightarrow> ('l, 'z, 'x, sequence_control) planner"
where
  "plan_complete_from pv m fuel [] trailing state = plan_statements_complete pv m fuel trailing"
| "plan_complete_from pv m fuel (n # ns) trailing state =
     step_bind (plan_statements_complete pv m fuel (cn_preceding n)) (\<lambda>statement_control.
       if statement_control \<noteq> SC_Continue then step_return statement_control
       else
         step_bind
           (if planning_gate (cn_control n) state
            then plan_runtime (node_matches_complete (pv_engine pv) (pv_reparse pv) (cn_conditions n) m)
            else step_return False) (\<lambda>matched.
         step_bind
           (if matched then plan_action pv m fuel (cn_line n) (cn_lock n) (handler_follows ns) (cn_action n)
            else step_return SC_Continue) (\<lambda>control.
           if control \<noteq> SC_Continue then step_return control
           else plan_complete_from pv m fuel ns trailing
                  (record_recipe (cn_control n) matched (if matched then Succeeded else NotAttempted)
                     (else_handled (cn_control n) state matched) state))))"
| "plan_action pv m fuel line lock handler (CA_Deliver d cont ending) =
     plan_delivery line lock d cont ending (complete_status m) handler"
| "plan_action pv m fuel line lock handler (CA_Block (Sequence nodes trailing p)) =
     (if lock \<noteq> None then plan_fail (LocalLockExecutorUnavailable line)
      else plan_complete_from pv m fuel nodes trailing state_default)"
| "plan_action pv m fuel line lock handler (CA_Headers operations) = plan_fail (HeaderActionUnsupported line)"
| "plan_action pv m fuel line lock handler a = plan_fail (ExternalActionUnsupported line)"
| "plan_statements_complete pv m fuel [] = step_return SC_Continue"
| "plan_statements_complete pv m fuel (CS_Include e # ss) =
     step_bind (plan_enter pv e RcInclude) (\<lambda>entered.
       case entered of
         Enter_Nothing _ \<Rightarrow> plan_statements_complete pv m fuel ss
       | Enter_Sequence q path child \<Rightarrow>
           step_bind (plan_entered_complete pv m fuel q path child) (\<lambda>control.
             if control = SC_Stop then step_return SC_Stop else plan_statements_complete pv m fuel ss))"
| "plan_statements_complete pv m fuel (CS_Switch e # ss) =
     step_bind (plan_enter pv e RcSwitch) (\<lambda>entered.
       case entered of
         Enter_Nothing is_empty \<Rightarrow> if is_empty then step_return SC_EndRcFile else plan_statements_complete pv m fuel ss
       | Enter_Sequence q path child \<Rightarrow>
           step_bind (plan_entered_complete pv m fuel q path child) (\<lambda>control.
             step_return (if control = SC_Stop then SC_Stop else SC_EndRcFile)))"
| "plan_statements_complete pv m fuel (s # ss) =
     step_bind (plan_statement s) (\<lambda>goes_on.
       if goes_on then plan_statements_complete pv m fuel ss else step_return SC_EndRcFile)"
| "plan_entered_complete pv m 0 q path child = step_fail Err_Fuel"
| "plan_entered_complete pv m (Suc fuel) q path child =
     plan_runtime_rc path child (plan_complete_from pv m fuel (cq_recipes q) (cq_trailing q) state_default)"
  by pat_completeness auto
termination
  by (relation "measures
      [\<lambda>x. case x of
         Inl (Inl (pv, m, fuel, r)) \<Rightarrow> 3 * fuel + 2
       | Inl (Inr (pv, m, fuel, r)) \<Rightarrow> 3 * fuel + 2
       | Inr (Inl (pv, m, fuel, r)) \<Rightarrow> 3 * fuel + 1
       | Inr (Inr (pv, m, fuel, r)) \<Rightarrow> 3 * fuel,
       \<lambda>x. case x of
         Inl (Inl (pv, m, fuel, ns, r)) \<Rightarrow> 2 * size_list size ns + 1
       | Inl (Inr (pv, m, fuel, line, lock, handler, a)) \<Rightarrow> 2 * size a
       | Inr (Inl (pv, m, fuel, ss)) \<Rightarrow> length ss
       | Inr (Inr _) \<Rightarrow> 0]") (auto simp: less_Suc_eq_le size_cn_action_rank)

declare plan_complete_from.simps [simp del] plan_entered_complete.simps [simp del]

definition plan_complete ::
    "'l plan_services \<Rightarrow> complete_message \<Rightarrow> nat \<Rightarrow> compiled_sequence \<Rightarrow> ('l, 'z, 'x, sequence_control) planner" where
  "plan_complete pv m fuel q = plan_complete_from pv m fuel (cq_recipes q) (cq_trailing q) state_default"

section \<open>The header phase\<close>

definition set_requirements :: "input_requirements \<Rightarrow> ('h, 'x, 'l, unit) header_planner" where
  "set_requirements r s = (s\<lparr>hs_requirements := r\<rparr>, Inr ())"

definition push_frame :: "continuation_frame \<Rightarrow> ('h, 'x, 'l, unit) header_planner" where
  "push_frame f s = (s\<lparr>hs_frames := hs_frames s @ [f]\<rparr>, Inr ())"

definition pop_frame :: "('h, 'x, 'l, unit) header_planner" where
  "pop_frame s = (s\<lparr>hs_frames := butlast (hs_frames s)\<rparr>, Inr ())"

definition settle_pending :: "action_execution \<Rightarrow> ('h, 'x, 'l, unit) header_planner" where
  "settle_pending action s = (if action = Succeeded then s\<lparr>hs_pending := None\<rparr> else s, Inr ())"

text \<open>A recipe that needs more than the header: the frame to go on at, and what is needed from there.\<close>

definition defer_recipe ::
    "compiled_sequence \<Rightarrow> usize \<Rightarrow> sequence_state \<Rightarrow> bool option list \<Rightarrow> input_requirements \<Rightarrow> ('h, 'x, 'l, header_control) header_planner" where
  "defer_recipe q index state results following =
     step_bind (push_frame \<lparr>cf_recipe_index = index, cf_state = state, cf_condition_results = results, cf_assignments_applied = True\<rparr>) (\<lambda>_.
     step_bind (set_requirements (requirements_union (requirements_from q index) following)) (\<lambda>_. step_return HC_Deferred))"

text \<open>A file entered at run time that cannot be planned on the header: frames cannot point into it, so planning
  starts again from the root.\<close>

definition defer_restart ::
    "(input_requirements \<Rightarrow> input_requirements) \<Rightarrow> ('h, 'x, 'l, header_control) header_planner" where
  "defer_restart needs s =
     (s\<lparr>hs_frames := [], hs_restart := True, hs_requirements := needs (hs_requirements s)\<rparr>, Inr HC_Deferred)"

definition header_capture ::
    "('h, 'x) capture_executor option \<Rightarrow> usize \<Rightarrow> capture_action \<Rightarrow> recipe_options \<Rightarrow>
     ('h, 'x, 'l, action_execution \<times> header_control) header_planner" where
  "header_capture capture line action options =
     step_bind (step_with (\<lambda>s. plan_lift (active_command_value_limit (ps_runtime s) (ca_target action) (ca_line action)))) (\<lambda>limit.
       case capture of
         None \<Rightarrow> plan_fail (ExternalActionUnsupported line)
       | Some run \<Rightarrow> (\<lambda>s.
           case run (ca_command action) (head_as_bytes (hs_head s)) (ro_output_ending options) (Some options) limit
                  (hs_host s, ps_runtime s) of
             ((h, rv), r) \<Rightarrow>
               (let s1 = s\<lparr>hs_host := h, ps_runtime := rv\<rparr>
                in case r of
                     Inl (Recoverable e) \<Rightarrow> (s1\<lparr>hs_pending := Some e\<rparr>, Inr (Failed, HC_Continue))
                   | Inl (Fatal e) \<Rightarrow> (s1, Inl (Err_Delivery e))
                   | Inr out \<Rightarrow>
                       (case validate_captured_value out limit (ca_name action) StripOne of
                          Inl e \<Rightarrow> (s1, Inl (Err_Evaluation e))
                        | Inr v \<Rightarrow>
                            (s1\<lparr>ps_runtime := rv_set_bytes (ca_name action) v rv, hs_pending := None\<rparr>,
                             Inr (Succeeded, HC_Continue))))))"

definition edit_head ::
    "usize \<Rightarrow> header_operation list \<Rightarrow> ('h, 'x, 'l, action_execution \<times> header_control) header_planner" where
  "edit_head line operations =
     step_with (\<lambda>s.
     step_bind (plan_lift (map_sum ExpansionFailed id (header_action_resolve_with operations (rv_get (ps_runtime s))))) (\<lambda>resolved.
       case apply_header_action (head_view (hs_head s)) 0 resolved (mh_limits (hs_head s)) of
         None \<Rightarrow> step_fail Err_Diverged
       | Some (Inl e) \<Rightarrow> plan_fail (HeaderEditFailed line e)
       | Some (Inr applied) \<Rightarrow> (\<lambda>s.
           (s\<lparr>hs_head := replace_edited_header (ah_header applied) (hs_head s),
              ps_runtime := apply_header_extractions (ah_extractions applied) (ps_runtime s)\<rparr>,
            Inr (Succeeded, HC_Continue)))))"

definition head_delivery ::
    "usize \<Rightarrow> path_expression option \<Rightarrow> destination \<Rightarrow> continuation_mode \<Rightarrow> output_ending \<Rightarrow> bool \<Rightarrow>
     ('h, 'x, 'l, action_execution \<times> header_control) header_planner" where
  "head_delivery line lock d cont ending handler =
     step_with (\<lambda>s.
     step_bind (plan_delivery line lock d cont ending (head_status (hs_head s)) handler) (\<lambda>control.
       step_return (Succeeded, header_control_from control)))"

definition end_of_message_only :: input_requirements where
  "end_of_message_only = requirements_none\<lparr>needs_end_of_message := True\<rparr>"

function (sequential) plan_headers_from ::
    "'l plan_services \<Rightarrow> ('h, 'x) capture_executor option \<Rightarrow> nat \<Rightarrow> compiled_sequence \<Rightarrow> usize \<Rightarrow> compiled_node list \<Rightarrow>
     sequence_state \<Rightarrow> input_requirements \<Rightarrow> ('h, 'x, 'l, header_control) header_planner"
and plan_header_action ::
    "'l plan_services \<Rightarrow> ('h, 'x) capture_executor option \<Rightarrow> nat \<Rightarrow> usize \<Rightarrow> path_expression option \<Rightarrow> bool \<Rightarrow>
     continuation_frame \<Rightarrow> input_requirements \<Rightarrow> compiled_action \<Rightarrow> ('h, 'x, 'l, action_execution \<times> header_control) header_planner"
and plan_statements_headers ::
    "'l plan_services \<Rightarrow> ('h, 'x) capture_executor option \<Rightarrow> nat \<Rightarrow> compiled_statement list \<Rightarrow> input_requirements \<Rightarrow>
     ('h, 'x, 'l, header_control) header_planner"
and plan_entered_headers ::
    "'l plan_services \<Rightarrow> ('h, 'x) capture_executor option \<Rightarrow> nat \<Rightarrow> compiled_sequence \<Rightarrow> bytes \<Rightarrow> rc_context \<Rightarrow> input_requirements \<Rightarrow>
     ('h, 'x, 'l, header_control) header_planner"
where
  "plan_headers_from pv capture fuel q index [] state following =
     plan_statements_headers pv capture fuel (cq_trailing q) following"
| "plan_headers_from pv capture fuel q index (n # ns) state following =
     step_bind
       (plan_statements_headers pv capture fuel (cn_preceding n) (requirements_union (requirements_from q index) following))
       (\<lambda>statement_control.
       if statement_control \<noteq> HC_Continue then step_return statement_control
       else
         step_bind
           (if planning_gate (cn_control n) state
            then step_with (\<lambda>s. plan_runtime (node_matches_headers (pv_engine pv) (cn_conditions n) (hs_head s)))
            else step_return (PM_False, [])) (\<lambda>(matched, results).
         if matched = PM_Deferred \<or> matched = PM_True \<and> delivery_defers_header (capture \<noteq> None) (cn_action n)
         then defer_recipe q index state results following
         else
           step_bind
             (if matched = PM_True
              then plan_header_action pv capture fuel (cn_line n) (cn_lock n) (handler_follows ns)
                     \<lparr>cf_recipe_index = index, cf_state = state, cf_condition_results = [], cf_assignments_applied = True\<rparr>
                     (requirements_union (requirements_from q (index + 1)) following) (cn_action n)
              else step_return (NotAttempted, HC_Continue)) (\<lambda>(action, control).
             if control = HC_Deferred then step_return HC_Deferred
             else
               step_bind (settle_pending action) (\<lambda>_.
                 if control \<noteq> HC_Continue then step_return control
                 else plan_headers_from pv capture fuel q (index + 1) ns
                        (record_recipe (cn_control n) (matched = PM_True) action
                           (else_handled (cn_control n) state (matched = PM_True)) state) following))))"
| "plan_header_action pv capture fuel line lock handler frame following (CA_Pipe command options) =
     plan_fail (ExternalActionUnsupported line)"
| "plan_header_action pv capture fuel line lock handler frame following (CA_Capture action options) =
     header_capture capture line action options"
| "plan_header_action pv capture fuel line lock handler frame following (CA_Headers operations) = edit_head line operations"
| "plan_header_action pv capture fuel line lock handler frame following (CA_Deliver d cont ending) =
     head_delivery line lock d cont ending handler"
| "plan_header_action pv capture fuel line lock handler frame following (CA_Block (Sequence nodes trailing p)) =
     step_bind (push_frame frame) (\<lambda>_.
     step_bind (plan_headers_from pv capture fuel (Sequence nodes trailing p) 0 nodes state_default following) (\<lambda>child.
     step_bind (if child = HC_Deferred then step_return () else pop_frame) (\<lambda>_. step_return (Succeeded, child))))"
| "plan_statements_headers pv capture fuel [] following = step_return HC_Continue"
| "plan_statements_headers pv capture fuel (CS_Include e # ss) following =
     step_bind (plan_enter pv e RcInclude) (\<lambda>entered.
       case entered of
         Enter_Nothing _ \<Rightarrow> plan_statements_headers pv capture fuel ss following
       | Enter_Sequence q path child_rc \<Rightarrow>
           if pp_preemptive (cq_properties q)
           then defer_restart (\<lambda>_. requirements_union (requirements_union (sequence_requirements q) following) end_of_message_only)
           else
             step_bind (plan_entered_headers pv capture fuel q path child_rc following) (\<lambda>child.
               if child = HC_Deferred
               then defer_restart (\<lambda>r. requirements_union (requirements_union r (sequence_requirements q)) following)
               else if child = HC_Stop then step_return HC_Stop
               else plan_statements_headers pv capture fuel ss following))"
| "plan_statements_headers pv capture fuel (CS_Switch e # ss) following =
     step_bind (plan_enter pv e RcSwitch) (\<lambda>entered.
       case entered of
         Enter_Nothing is_empty \<Rightarrow>
           if is_empty then step_return HC_EndRcFile else plan_statements_headers pv capture fuel ss following
       | Enter_Sequence q path child_rc \<Rightarrow>
           if pp_preemptive (cq_properties q)
           then defer_restart (\<lambda>_. requirements_union (sequence_requirements q) end_of_message_only)
           else
             step_bind (plan_entered_headers pv capture fuel q path child_rc requirements_none) (\<lambda>child.
               if child = HC_Deferred then defer_restart (\<lambda>r. requirements_union r (sequence_requirements q))
               else step_return (if child = HC_Stop then HC_Stop else HC_EndRcFile)))"
| "plan_statements_headers pv capture fuel (s # ss) following =
     step_bind (plan_statement s) (\<lambda>goes_on.
       if goes_on then plan_statements_headers pv capture fuel ss following else step_return HC_EndRcFile)"
| "plan_entered_headers pv capture 0 q path child_rc following = step_fail Err_Fuel"
| "plan_entered_headers pv capture (Suc fuel) q path child_rc following =
     plan_runtime_rc path child_rc (plan_headers_from pv capture fuel q 0 (cq_recipes q) state_default following)"
  by pat_completeness auto
termination
  by (relation "measures
      [\<lambda>x. case x of
         Inl (Inl (pv, capture, fuel, r)) \<Rightarrow> 3 * fuel + 2
       | Inl (Inr (pv, capture, fuel, r)) \<Rightarrow> 3 * fuel + 2
       | Inr (Inl (pv, capture, fuel, r)) \<Rightarrow> 3 * fuel + 1
       | Inr (Inr (pv, capture, fuel, r)) \<Rightarrow> 3 * fuel,
       \<lambda>x. case x of
         Inl (Inl (pv, capture, fuel, q, index, ns, r)) \<Rightarrow> 2 * size_list size ns + 1
       | Inl (Inr (pv, capture, fuel, line, lock, handler, frame, following, a)) \<Rightarrow> 2 * size a
       | Inr (Inl (pv, capture, fuel, ss, following)) \<Rightarrow> length ss
       | Inr (Inr _) \<Rightarrow> 0]") (auto simp: less_Suc_eq_le size_cn_action_rank)

declare plan_headers_from.simps [simp del] plan_entered_headers.simps [simp del]

definition start_headers ::
    "message_head \<Rightarrow> runtime_variables \<Rightarrow> 'h \<Rightarrow> 'l rc_state \<Rightarrow> ('h, 'x, 'l) header_state" where
  "start_headers head rv h rc =
     \<lparr>ps_runtime = rv, ps_execution = fanout_default, ps_rc = rc_context_root, ps_rc_state = rc, hs_head = head, hs_frames = [],
      hs_requirements = requirements_none, hs_restart = False, hs_pending = None, hs_host = h\<rparr>"

text \<open>\<open>evaluate_headers_editing_inner\<close>; the head, the variables and the state of files are those of the state it leaves.\<close>

definition evaluate_headers ::
    "'l plan_services \<Rightarrow> ('h, 'x) capture_executor option \<Rightarrow> 'l execution_plan \<Rightarrow> message_head \<Rightarrow> runtime_variables \<Rightarrow> 'h \<Rightarrow>
     ('h, 'x, 'l) header_state \<times> ('x ordered_error + header_evaluation)" where
  "evaluate_headers pv capture p head rv h =
     (let s0 = start_headers head rv h (pl_rc p)
      in if pp_preemptive (cq_properties (pl_root p)) then
           (s0, Inr (NeedsMessage
              \<lparr>ct_frames = [\<lparr>cf_recipe_index = 0, cf_state = state_default, cf_condition_results = [],
                             cf_assignments_applied = False\<rparr>],
               ct_execution = fanout_default, ct_runtime = rv, ct_requirements = plan_requirements p, ct_restart = False\<rparr>))
         else
           (case plan_headers_from pv capture RC_FUEL (pl_root p) 0 (cq_recipes (pl_root p)) state_default requirements_none s0 of
              (s, Inl e) \<Rightarrow> (s, Inl e)
            | (s, Inr HC_Deferred) \<Rightarrow>
                (s, Inr (NeedsMessage
                   \<lparr>ct_frames = hs_frames s, ct_execution = (if hs_restart s then fanout_default else ps_execution s),
                    ct_runtime = (if hs_restart s then rv else ps_runtime s), ct_requirements = hs_requirements s,
                    ct_restart = hs_restart s\<rparr>))
            | (s, Inr _) \<Rightarrow>
                (s, case hs_pending s of Some e \<Rightarrow> Inl (Err_Delivery e) | None \<Rightarrow> Inr (Decided (ps_execution s)))))"

section \<open>Resuming\<close>

text \<open>\<open>resume_from_frames\<close>: the deepest frame is evaluated, the others are its parents.\<close>

definition resume_recipe ::
    "'l plan_services \<Rightarrow> complete_message \<Rightarrow> nat \<Rightarrow> bool \<Rightarrow> compiled_node \<Rightarrow> continuation_frame \<Rightarrow> ('l, 'z, 'x, bool \<times> sequence_control) planner" where
  "resume_recipe pv m fuel handler n f =
     step_bind
       (if planning_gate (cn_control n) (cf_state f)
        then plan_runtime (matches_resumed (pv_engine pv) (pv_reparse pv) (cn_conditions n) m (cf_condition_results f))
        else step_return False) (\<lambda>matched.
     step_bind
       (if matched then plan_action pv m fuel (cn_line n) (cn_lock n) handler (cn_action n) else step_return SC_Continue)
       (\<lambda>control. step_return (matched, control)))"

fun resume_from_frames ::
    "'l plan_services \<Rightarrow> complete_message \<Rightarrow> nat \<Rightarrow> continuation_frame list \<Rightarrow> compiled_sequence \<Rightarrow> ('l, 'z, 'x, sequence_control) planner" where
  "resume_from_frames pv m fuel [] q = plan_fail BodyWasNotBuffered"
| "resume_from_frames pv m fuel (f # fs) q =
     (if length (cq_recipes q) \<le> cf_recipe_index f then plan_fail BodyWasNotBuffered
      else
        let n = cq_recipes q ! cf_recipe_index f; rest = drop (Suc (cf_recipe_index f)) (cq_recipes q)
        in step_bind (if cf_assignments_applied f then step_return SC_Continue else plan_runtime (resume_statements (cn_preceding n)))
             (\<lambda>statement_control.
             if statement_control \<noteq> SC_Continue then step_return statement_control
             else
               step_bind
                 (if fs \<noteq> [] then
                    (case cn_action n of
                       CA_Block children \<Rightarrow>
                         step_bind (resume_from_frames pv m fuel fs children) (\<lambda>control. step_return (True, control))
                     | _ \<Rightarrow> plan_fail BodyWasNotBuffered)
                  else resume_recipe pv m fuel (has_error_handler q (cf_recipe_index f)) n f) (\<lambda>(matched, control).
                 if control \<noteq> SC_Continue then step_return control
                 else plan_complete_from pv m fuel rest (cq_trailing q)
                        (record_recipe (cn_control n) matched (if matched then Succeeded else NotAttempted)
                           (else_handled (cn_control n) (cf_state f) matched) (cf_state f)))))"

definition plan_root_state :: "runtime_variables \<Rightarrow> fanout_plan_state \<Rightarrow> 'l rc_state \<Rightarrow> 'l plan_state" where
  "plan_root_state rv execution rc =
     \<lparr>ps_runtime = rv, ps_execution = execution, ps_rc = rc_context_root, ps_rc_state = rc\<rparr>"

definition planned :: "'l plan_state \<times> ('x ordered_error + sequence_control) \<Rightarrow> 'l plan_state \<times> ('x ordered_error + delivery_plan)" where
  "planned run = (case run of (s, r) \<Rightarrow> (s, map_sum id (\<lambda>_. ps_execution s) r))"

text \<open>\<open>resume_input\<close> on the mapped message, from the state of files that the header phase left.\<close>

definition resume_input ::
    "'l plan_services \<Rightarrow> 'l execution_plan \<Rightarrow> message_continuation \<Rightarrow> mapped_message_input \<Rightarrow> runtime_variables \<Rightarrow> 'l rc_state \<Rightarrow>
     'l plan_state \<times> ('x ordered_error + delivery_plan)" where
  "resume_input pv p k input rv rc =
     (case complete_message_of input (plan_needs_full_matching (p\<lparr>pl_rc := rc\<rparr>)) of
        None \<Rightarrow> (plan_root_state rv fanout_default rc, Inl (Err_Evaluation BodyWasNotBuffered))
      | Some m \<Rightarrow>
          if ct_frames k = [] \<and> \<not> ct_restart k
          then (plan_root_state rv fanout_default rc, Inl (Err_Evaluation BodyWasNotBuffered))
          else if ct_restart k then
            planned (plan_complete pv m RC_FUEL (pl_root p) (plan_root_state (ct_runtime k) (ct_execution k) (reset_transitions rc)))
          else
            planned (resume_from_frames pv m RC_FUEL (ct_frames k) (pl_root p)
                       (plan_root_state (ct_runtime k) (ct_execution k) rc)))"

end
