(* ===== verification/Header_Total.thy ===== *)
theory Header_Total
  imports Header_Edit
begin

text \<open>
  A header action of \<open>src/header_edit.rs\<close> always returns: the loop of \<open>serialize_rfc2047\<close> in
  \<open>src/header_value.rs\<close>, the only one whose progress depends on its data, advances by at least one
  character in every round, since a value is encoded only when it holds characters, and so is text.
\<close>

section \<open>Generated fields\<close>

lemma chunk_end_advances:
  assumes "valid_utf8 v" and "start < length v"
  shows "start < chunk_end v start"
proof (cases "checked_add start RFC2047_INPUT_CHUNK")
  case None
  have "length v \<le> boundary_back v (length v)" by (rule boundary_back_ge) (simp_all add: is_char_boundary_def)
  with None assms(2) show ?thesis by (simp add: chunk_end_def)
next
  case (Some e)
  then have e: "e = start + 45" by (auto simp: checked_add_def RFC2047_INPUT_CHUNK_def split: if_splits)
  show ?thesis
  proof (cases "e < length v")
    case True
    then obtain k where "k \<le> e" "e \<le> k + 3" "is_char_boundary v k"
      using char_boundary_step [OF assms(1)] by blast
    then show ?thesis using boundary_back_ge [of v k e] True by (simp add: chunk_end_def Some e)
  next
    case False
    then have "length v \<le> boundary_back v (min e (length v))" by (intro boundary_back_ge) (simp_all add: is_char_boundary_def)
    then show ?thesis using assms(2) by (simp add: chunk_end_def Some)
  qed
qed

lemma rfc2047_loop_returns:
  "valid_utf8 v \<Longrightarrow> rfc2047_loop v ending start is_first out \<noteq> None"
proof (induction v ending start is_first out rule: rfc2047_loop.induct)
  case (1 v ending start is_first out)
  show ?case
    using 1 chunk_end_advances [OF "1.prems", of start]
    by (subst rfc2047_loop.simps) (auto simp: Let_def split: sum.split option.split)
qed

lemma encoded_is_text: "validate_generated_header_value name v = Inr Enc_Rfc2047 \<Longrightarrow> valid_utf8 v"
  by (rule ccontr) (auto simp: validate_generated_header_value_def valid_utf8_def chars_def split: option.splits if_splits)

lemma serialize_returns: "serialize_generated_header name v ending \<noteq> None"
  using rfc2047_loop_returns [OF encoded_is_text]
  by (auto simp: serialize_generated_header_def serialize_rfc2047_def split: sum.split generated_header_encoding.split)

section \<open>Actions\<close>

definition returns :: "'a run \<Rightarrow> bool" where
  "returns m \<longleftrightarrow> m \<noteq> None"

named_theorems returns_intro

lemma returns_steps [returns_intro]:
  "returns (ok x)" "returns (fail e)" "returns (lift r)" "returns (make_field name v ending)" "returns (try_store p)"
  using serialize_returns
  by (auto simp: returns_def ok_def fail_def lift_def make_field_def try_store_def split: sum.split)

lemma returns_bind [returns_intro]: "returns m \<Longrightarrow> (\<And>x. returns (f x)) \<Longrightarrow> returns (run_bind m f)"
  by (auto simp: returns_def run_bind_def split: option.split sum.split)

lemma returns_if [returns_intro]: "returns a \<Longrightarrow> returns b \<Longrightarrow> returns (if P then a else b)"
  by simp

lemma returns_set_field [returns_intro]: "returns (set_field name v ending h)"
  unfolding set_field_def Let_def by (intro returns_intro)

lemma returns_set_fields [returns_intro]: "returns (set_fields fs ending h)"
  by (induction fs ending h rule: set_fields.induct) (auto intro!: returns_intro)

lemma returns_put_field [returns_intro]: "returns (put_field name v ending h)"
  unfolding put_field_def by (auto intro: returns_intro split: option.split)

lemma returns_rename_fields [returns_intro]: "returns (rename_fields from to indexes h)"
proof (induction indexes arbitrary: h)
  case (Cons index rest)
  show ?case unfolding rename_fields.simps Let_def by (intro returns_intro Cons.IH)
qed (simp add: returns_steps)

lemma returns_wanted [returns_intro]: "returns (wanted_keywords h mode)"
  by (cases mode) (auto simp: wanted_keywords_def Let_def intro!: returns_intro)

lemma returns_apply [returns_intro]:
  "returns (apply_keywords kmode ending h)" "returns (apply_priority pmode ending h)" "returns (apply_status smode ending h)"
  unfolding apply_keywords_def apply_priority_def apply_status_def
  by (auto intro!: returns_intro split: option.split)

lemma returns_operation [returns_intro]: "returns (apply_operation op ending h)"
  by (cases op) (auto intro!: returns_intro)

lemma returns_operations: "returns (apply_operations ops ending body_len limits state)"
  by (induction ops ending body_len limits state rule: apply_operations.induct)
    (auto intro!: returns_intro split: prod.split)

lemma header_action_returns: "apply_header_action source body_len ops limits \<noteq> None"
proof -
  have "returns (apply_header_action source body_len ops limits)"
    unfolding apply_header_action_def
    by (auto intro!: returns_intro returns_operations split: prod.split)
  then show ?thesis by (simp add: returns_def)
qed

end
