(* ===== verification/Ordered_Facts.thy ===== *)
theory Ordered_Facts
  imports Eval_Ordered Header_Total
begin

text \<open>
  What ordered execution guarantees of every host, loader and regex engine: it ends, within the limits on
  files entered and on background copies, and a copy block does not change the state of its parent.
\<close>

section \<open>Steps and orders\<close>

definition keeps :: "('s \<Rightarrow> 's \<Rightarrow> bool) \<Rightarrow> ('s, 'e, 'a) step \<Rightarrow> bool" where
  "keeps R m \<longleftrightarrow> (\<forall>s. R s (fst (m s)))"

text \<open>A relation that every step of a computation is in, and so the whole computation.\<close>

locale step_order =
  fixes R :: "'s \<Rightarrow> 's \<Rightarrow> bool"
  assumes refl [simp]: "R s s"
    and trans: "R s t \<Longrightarrow> R t u \<Longrightarrow> R s u"
begin

lemma keeps_return: "keeps R (step_return x)"
  by (simp add: keeps_def step_return_def)

lemma keeps_fail: "keeps R (step_fail e)"
  by (simp add: keeps_def step_fail_def)

lemma keeps_with: "(\<And>s. keeps R (f s)) \<Longrightarrow> keeps R (step_with f)"
  by (simp add: keeps_def step_with_def)

lemma keeps_bind: "keeps R m \<Longrightarrow> (\<And>x. keeps R (k x)) \<Longrightarrow> keeps R (step_bind m k)"
proof -
  assume m: "keeps R m" and k: "\<And>x. keeps R (k x)"
  have "R s (fst (step_bind m k s))" for s
  proof (cases "m s")
    case (Pair s1 r)
    have "R s s1" using m Pair by (metis fst_conv keeps_def)
    then show ?thesis using k trans by (cases r) (auto simp: step_bind_def Pair keeps_def)
  qed
  then show ?thesis by (simp add: keeps_def)
qed

end

section \<open>Progress\<close>

abbreviation transitions :: "('h, 'x, 'l) execution \<Rightarrow> usize" where
  "transitions s \<equiv> rs_transitions (ex_rc_state s)"

text \<open>What a step may do to the state that outlives it.\<close>

definition progress :: "('h, 'x, 'l) execution \<Rightarrow> ('h, 'x, 'l) execution \<Rightarrow> bool" where
  "progress s s' \<longleftrightarrow>
     transitions s \<le> transitions s' \<and> transitions s' \<le> max MAX_RC_TRANSITIONS (transitions s) \<and>
     ex_copies s \<le> ex_copies s' \<and> ex_copies s' \<le> max MAX_BACKGROUND_COPY_BRANCHES (ex_copies s) \<and>
     ex_published s \<le> ex_published s' \<and> ex_message s' = ex_message s \<and> ex_limits s' = ex_limits s \<and> ex_rc s' = ex_rc s"

interpretation progress: step_order progress
  by unfold_locales (auto simp: progress_def max_def split: if_splits)

text \<open>
  An outcome of the program: a value or one of its errors, but neither of the two outcomes of the model
  that stand for not returning.
\<close>

definition ends :: "'x ordered_error + 'a \<Rightarrow> bool" where
  "ends r \<longleftrightarrow> (case r of Inl e \<Rightarrow> e \<noteq> Err_Fuel \<and> e \<noteq> Err_Diverged | Inr _ \<Rightarrow> True)"

lemma ends_simps [simp]: "ends (Inr x)" "ends (Inl e) \<longleftrightarrow> e \<noteq> Err_Fuel \<and> e \<noteq> Err_Diverged"
  by (simp_all add: ends_def)

lemma ends_iff: "ends r \<longleftrightarrow> r \<noteq> Inl Err_Fuel \<and> r \<noteq> Inl Err_Diverged"
  by (cases r) auto

text \<open>A computation that progresses and, with this much fuel, ends.\<close>

definition sound :: "nat \<Rightarrow> ('h, 'x, 'l, 'a) exec \<Rightarrow> bool" where
  "sound fuel m \<longleftrightarrow> keeps progress m \<and> (\<forall>s. MAX_RC_TRANSITIONS < fuel + transitions s \<longrightarrow> ends (snd (m s)))"

named_theorems sound_intro

lemma soundI:
  "(\<And>s. progress s (fst (m s))) \<Longrightarrow> (\<And>s. ends (snd (m s))) \<Longrightarrow> sound fuel m"
  by (simp add: sound_def keeps_def)

lemma sound_return [sound_intro]: "sound fuel (step_return x)"
  by (rule soundI) (simp_all add: step_return_def)

lemma sound_fail [sound_intro]: "e \<noteq> Err_Fuel \<Longrightarrow> e \<noteq> Err_Diverged \<Longrightarrow> sound fuel (step_fail e)"
  by (rule soundI) (simp_all add: step_fail_def)

lemma sound_with [sound_intro]: "(\<And>s. sound fuel (f s)) \<Longrightarrow> sound fuel (step_with f)"
  by (auto simp: sound_def step_with_def keeps_def)

lemma if_sound [sound_intro]: "sound fuel a \<Longrightarrow> sound fuel b \<Longrightarrow> sound fuel (if P then a else b)"
  by simp

lemma sound_bind [sound_intro]:
  assumes "sound fuel m" "\<And>x. sound fuel (k x)"
  shows "sound fuel (step_bind m k)"
proof -
  have "keeps progress (step_bind m k)" using assms by (intro progress.keeps_bind) (auto simp: sound_def)
  moreover have "ends (snd (step_bind m k s))" if fuel: "MAX_RC_TRANSITIONS < fuel + transitions s" for s
  proof (cases "m s")
    case (Pair s1 r)
    have "transitions s \<le> transitions s1" "ends (snd (m s))"
      using assms(1) Pair fuel by (auto simp: sound_def keeps_def progress_def) (metis fst_conv)+
    then show ?thesis
      using assms(2) Pair fuel by (cases r) (auto simp: step_bind_def sound_def)
  qed
  ultimately show ?thesis by (simp add: sound_def)
qed

section \<open>Primitive steps\<close>

lemma sound_eval_fail [sound_intro]: "sound fuel (eval_fail e)"
  by (simp add: eval_fail_def sound_fail)

lemma sound_eval_lift [sound_intro]: "sound fuel (eval_lift r)"
  by (rule soundI) (auto simp: eval_lift_def split: sum.splits intro: obj_sumE [of r])

lemma sound_expansion_lift [sound_intro]: "sound fuel (expansion_lift r)"
  by (simp add: expansion_lift_def sound_eval_lift)

lemma sound_buffered [sound_intro]: "sound fuel (buffered r)"
  by (cases r) (simp_all add: buffered_def sound_return sound_eval_fail)

lemma progress_private [simp]:
  "progress s (s\<lparr>ex_runtime := rv\<rparr>)" "progress s (s\<lparr>ex_host := h, ex_runtime := rv\<rparr>)"
  "progress s (s\<lparr>ex_host := h\<rparr>)" "progress s (s\<lparr>ex_current := c\<rparr>)" "progress s (s\<lparr>ex_pending := e\<rparr>)"
  "progress s (s\<lparr>ex_original_delivered := d\<rparr>)" "progress s (s\<lparr>ex_original_delivered := d, ex_pending := e\<rparr>)"
  by (simp_all add: progress_def)

lemma sound_runtime_step [sound_intro]: "sound fuel (runtime_step f)"
proof (rule soundI)
  fix s
  show "ends (snd (runtime_step f s))"
    by (cases "f (ex_runtime s)"; cases "snd (f (ex_runtime s))") (auto simp: runtime_step_def)
qed (simp add: runtime_step_def split: prod.split)

lemma sound_update_runtime [sound_intro]: "sound fuel (update_runtime f)"
  by (rule soundI) (simp_all add: update_runtime_def)

lemma host_step_progress: "progress s (fst (host_step f s))"
  by (simp add: host_step_def split: prod.split)

lemma sound_action [sound_intro]: "sound fuel (action_succeeded control)" "sound fuel (action_failed e)"
  by (rule soundI; simp add: action_succeeded_def action_failed_def)+

lemma sound_after_host:
  assumes "\<And>x. sound fuel (k x)" "\<And>e. sound fuel (g e)"
  shows "sound fuel (\<lambda>s. case host_step f s of (s1, Inr x) \<Rightarrow> k x s1 | (s1, Inl e) \<Rightarrow> g e s1)"
proof -
  have "progress s (fst (case host_step f s of (s1, Inr x) \<Rightarrow> k x s1 | (s1, Inl e) \<Rightarrow> g e s1)) \<and>
     (MAX_RC_TRANSITIONS < fuel + transitions s \<longrightarrow>
       ends (snd (case host_step f s of (s1, Inr x) \<Rightarrow> k x s1 | (s1, Inl e) \<Rightarrow> g e s1)))" for s
  proof (cases "host_step f s")
    case (Pair s1 r)
    have p: "progress s s1" using host_step_progress [of s f] Pair by simp
    then have "transitions s \<le> transitions s1" by (simp add: progress_def)
    then show ?thesis
      using assms p progress.trans [OF p] by (cases r) (auto simp: Pair sound_def keeps_def)
  qed
  then show ?thesis by (simp add: sound_def keeps_def)
qed

lemma sound_attempt [sound_intro]:
  assumes "\<And>x. sound fuel (k x)"
  shows "sound fuel (attempt f k)"
proof -
  have "attempt f k = (\<lambda>s. case host_step f s of (s1, Inr x) \<Rightarrow> k x s1
      | (s1, Inl e) \<Rightarrow> (case e of Recoverable e \<Rightarrow> action_failed e | Fatal e \<Rightarrow> step_fail (Err_Delivery e)) s1)"
    by (rule ext) (simp add: attempt_def step_fail_def split: prod.split sum.split attempt_error.split)
  then show ?thesis
    using assms by (simp add: sound_after_host sound_action sound_fail split: attempt_error.split)
qed

lemma sound_shell [sound_intro]: "sound fuel (evaluate_shell_expression host e line name message limit)"
proof (rule soundI)
  fix s :: "('a, 'b, 'c) execution"
  obtain h rv r where ev: "evaluate (ordered_context host line name message) e limit (ex_host s, ex_runtime s) = ((h, rv), r)"
    by (metis surj_pair)
  show "progress s (fst (evaluate_shell_expression host e line name message limit s))"
    by (cases r) (simp_all add: evaluate_shell_expression_def ev)
  show "ends (snd (evaluate_shell_expression host e line name message limit s))"
  proof (cases r)
    case (Inl err)
    then show ?thesis by (cases err) (simp_all add: evaluate_shell_expression_def ev)
  qed (simp add: evaluate_shell_expression_def ev)
qed

section \<open>Conditions and actions\<close>

lemma sound_expand_condition [sound_intro]: "sound fuel (expand_condition host m shell line)"
  unfolding expand_condition_def by (intro sound_intro)

lemma sound_resolve_passes:
  assumes "\<And>shell. sound fuel (expand shell line)"
  shows "sound fuel (resolve_passes n reparse expand Err_Evaluation line area cs shell negated)"
proof (induction n arbitrary: shell negated)
  case 0
  show ?case by (rule soundI) simp_all
next
  case (Suc n)
  have eq: "resolve_passes (Suc n) reparse expand Err_Evaluation line area cs shell negated =
    step_bind (expand shell line) (\<lambda>expanded.
      case reparse (str_trim_start expanded) line cs of
        Inl (error_line, message) \<Rightarrow> eval_fail (RuntimeCondition error_line (Cond_Reparse message))
      | Inr parsed \<Rightarrow>
          (case cd_kind parsed of
             CK_ShellExpanded source expansion \<Rightarrow>
               resolve_passes n reparse expand Err_Evaluation line area cs (source, expansion) (negated \<noteq> cd_negated parsed)
           | _ \<Rightarrow> step_return ((compile_condition area cs parsed)\<lparr>cc_negated := (negated \<noteq> cd_negated parsed)\<rparr>)))"
    by (rule ext)
      (simp add: step_bind_def eval_fail_def step_fail_def step_return_def Let_def split: prod.split sum.split condition_kind.split)
  show ?case
    unfolding eq
    by (intro sound_bind assms)
      (auto intro!: sound_eval_fail sound_return Suc.IH split: sum.split prod.split condition_kind.split)
qed

lemma sound_resolve_shell [sound_intro]:
  assumes "\<And>shell line. sound fuel (expand shell line)"
  shows "sound fuel (resolve_shell_expansion_with reparse expand Err_Evaluation c)"
proof -
  have "resolve_shell_expansion_with reparse expand Err_Evaluation c =
    (case cc_kind c of
       CC_ShellExpanded source expansion area cs \<Rightarrow>
         step_bind (resolve_passes (MAX_EXPANSION_DEPTH + 1) reparse expand Err_Evaluation (cc_line c) area cs (source, expansion)
           (cc_negated c)) (\<lambda>c'. step_return (Some c'))
     | _ \<Rightarrow> step_return None)"
    by (rule ext)
      (simp add: resolve_shell_expansion_with_def step_bind_def step_return_def split: compiled_condition_kind.split prod.split sum.split)
  then show ?thesis
    using assms by (auto intro!: sound_bind sound_return sound_resolve_passes split: compiled_condition_kind.split)
qed

lemma sound_condition_host:
  "sound fuel (\<lambda>s. case host_step f s of
       (s1, Inr matched) \<Rightarrow> (s1, Inr (g matched))
     | (s1, Inl (Recoverable e)) \<Rightarrow> (s1, Inl (Err_Delivery e))
     | (s1, Inl (Fatal e)) \<Rightarrow> (s1, Inl (Err_Delivery e)))"
proof (rule soundI)
  fix s :: "('a, 'b, 'c) execution"
  obtain s1 r where run: "host_step f s = (s1, r)" by (cases "host_step f s")
  have p: "progress s s1" using host_step_progress [of s f] run by simp
  show "progress s (fst (case host_step f s of
       (s1, Inr matched) \<Rightarrow> (s1, Inr (g matched))
     | (s1, Inl (Recoverable e)) \<Rightarrow> (s1, Inl (Err_Delivery e))
     | (s1, Inl (Fatal e)) \<Rightarrow> (s1, Inl (Err_Delivery e))))"
    using p by (simp add: run split: sum.split attempt_error.split)
  show "ends (snd (case host_step f s of
       (s1, Inr matched) \<Rightarrow> (s1, Inr (g matched))
     | (s1, Inl (Recoverable e)) \<Rightarrow> (s1, Inl (Err_Delivery e))
     | (s1, Inl (Fatal e)) \<Rightarrow> (s1, Inl (Err_Delivery e))))"
    by (simp add: run split: sum.split attempt_error.split)
qed

lemma sound_match_condition [sound_intro]: "sound fuel (match_condition sv c)"
  unfolding match_condition_def Let_def
  by (intro sound_with sound_bind sound_resolve_shell sound_expand_condition)
    (auto intro!: sound_bind sound_buffered sound_runtime_step sound_condition_host split: option.split prod.split)

lemma sound_matches_ordered [sound_intro]: "sound fuel (matches_ordered sv cs)"
  by (induction cs) (auto intro!: sound_intro)

lemma sound_resolve_lock [sound_intro]: "sound fuel (resolve_lock lock)"
  unfolding resolve_lock_def by (auto intro!: sound_intro split: option.split)

lemma sound_value_limit [sound_intro]: "sound fuel (value_limit_step target line)"
  unfolding value_limit_step_def by (intro sound_intro)

lemma sound_capture [sound_intro]: "sound fuel (execute_capture sv action options)"
  unfolding execute_capture_def by (intro sound_intro)

lemma sound_install_edit [sound_intro]: "sound fuel (install_edit line source applied)"
  by (rule soundI) (auto simp: install_edit_def split: option.split sum.split)

lemma sound_headers [sound_intro]: "sound fuel (execute_headers line operations)"
  unfolding execute_headers_def Let_def
  by (auto simp: header_action_returns intro!: sound_intro split: option.split sum.split)

lemma sound_small [sound_intro]:
  "sound fuel (replace_message m area)" "sound fuel delivered_original" "sound fuel clear_pending" "sound fuel host_finished"
  by (rule soundI; simp add: replace_message_def delivered_original_def clear_pending_def host_finished_def)+

lemma sound_count [sound_intro]: "sound fuel count_delivery"
  by (rule soundI) (simp_all add: count_delivery_def progress_def)

lemma sound_finish_pipe [sound_intro]: "sound fuel (finish_pipe line options replacement)"
  unfolding finish_pipe_def by (auto intro!: sound_intro split: option.split)

lemma sound_pipe [sound_intro]: "sound fuel (execute_pipe sv line lock command options)"
  unfolding execute_pipe_def Let_def by (intro sound_intro)

lemma sound_resolve_destination [sound_intro]: "sound fuel (resolve_destination sv message d)"
  unfolding resolve_destination_def Let_def by (auto intro!: sound_intro split: option.split)

lemma sound_deliver [sound_intro]: "sound fuel (execute_deliver sv lock d cont ending)"
  unfolding execute_deliver_def by (auto intro!: sound_intro)

lemma sound_simple [sound_intro]: "sound fuel (execute_simple sv line lock a)"
  by (cases a) (auto intro!: sound_intro)

lemma sound_leave_block: "sound fuel m \<Longrightarrow> sound fuel (leave_block m)"
  unfolding leave_block_def by (auto intro!: sound_intro split: prod.split)

lemma sound_release_after:
  assumes "sound fuel m"
  shows "sound fuel (release_after sv guard m)"
proof -
  have "fst (release_after sv guard m s) = (fst (m s))\<lparr>ex_host := oh_release (sv_host sv) guard (ex_host (fst (m s)))\<rparr>"
    "snd (release_after sv guard m s) = snd (m s)" for s
    by (simp_all add: release_after_def split: prod.split)
  moreover have "progress s ((fst (m s))\<lparr>ex_host := h\<rparr>)" for s h
  proof -
    have "progress s (fst (m s))" using assms by (simp add: sound_def keeps_def)
    then show ?thesis by (rule progress.trans) (rule progress_private)
  qed
  ultimately show ?thesis using assms by (simp add: sound_def keeps_def)
qed

lemma sound_block: "sound fuel m \<Longrightarrow> sound fuel (execute_block sv lock m)"
  unfolding execute_block_def
  by (auto intro!: sound_intro sound_leave_block sound_release_after split: option.split)

section \<open>Copy blocks\<close>

lemma sound_copy_waited:
  assumes "sound fuel m"
  shows "sound fuel (copy_waited sv m)"
proof -
  have "progress s (fst (copy_waited sv m s)) \<and>
      (MAX_RC_TRANSITIONS < fuel + transitions s \<longrightarrow> ends (snd (copy_waited sv m s)))" for s
  proof -
    obtain parent_rv branch_rv where f: "fork (ex_runtime s) = (parent_rv, branch_rv)" by (cases "fork (ex_runtime s)")
    define b where "b = s\<lparr>ex_runtime := branch_rv, ex_pending := None, ex_host := oh_enter_copy (sv_host sv) (ex_host s)\<rparr>"
    obtain s1 r where run: "m b = (s1, r)" by (cases "m b")
    have "progress b s1" "MAX_RC_TRANSITIONS < fuel + transitions b \<longrightarrow> ends r"
      using assms run by (auto simp: sound_def keeps_def) (metis fst_conv snd_conv)+
    then show ?thesis
      by (cases r)
        (simp_all add: copy_waited_def f run b_def [symmetric] Let_def action_failed_def action_succeeded_def split: option.split,
         simp_all add: b_def progress_def)
  qed
  then show ?thesis by (simp add: sound_def keeps_def)
qed

lemma sound_reserve [sound_intro]: "sound fuel (reserve_copy line)"
  by (rule soundI) (auto simp: reserve_copy_def progress_def)

lemma sound_forks [sound_intro]: "sound fuel (fork_host sv line)" "sound fuel fork_runtime" "sound fuel (spawn sv line)"
  by (rule soundI; auto simp: fork_host_def fork_runtime_def spawn_def split: prod.split option.split bool.split)+

lemma sound_join:
  assumes "sound fuel branch" "sound fuel parent"
  shows "sound fuel (step_bind (run_branch sv host rv branch) (\<lambda>joined. join_branch line joined parent))"
proof -
  have "progress s (fst (step_bind (run_branch sv host rv branch) (\<lambda>joined. join_branch line joined parent) s)) \<and>
      (MAX_RC_TRANSITIONS < fuel + transitions s \<longrightarrow>
        ends (snd (step_bind (run_branch sv host rv branch) (\<lambda>joined. join_branch line joined parent) s)))" for s
  proof -
    define b where "b = s\<lparr>ex_runtime := rv, ex_host := host, ex_published := 0, ex_original_delivered := False, ex_pending := None\<rparr>"
    obtain b1 r where run: "branch b = (b1, r)" by (cases "branch b")
    have b1: "progress b b1" "MAX_RC_TRANSITIONS < fuel + transitions b \<longrightarrow> ends r"
      using assms(1) run by (auto simp: sound_def keeps_def) (metis fst_conv snd_conv)+
    define s1 where "s1 = s\<lparr>ex_copies := ex_copies b1, ex_rc_state := ex_rc_state b1\<rparr>"
    have s1: "progress s s1" using b1(1) by (simp add: progress_def b_def s1_def)
    obtain s2 q where par: "parent s1 = (s2, q)" by (cases "parent s1")
    have s2: "progress s1 s2" "MAX_RC_TRANSITIONS < fuel + transitions s1 \<longrightarrow> ends q"
      using assms(2) par by (auto simp: sound_def keeps_def) (metis fst_conv snd_conv)+
    have p: "progress s s2" "transitions s \<le> transitions s1" "transitions b = transitions s"
      using progress.trans [OF s1 s2(1)] s1 by (simp_all add: progress_def b_def)
    have pub: "progress s (s2\<lparr>ex_published := n\<rparr>)" if "ex_published s2 \<le> n" for n
      using p(1) that by (auto simp: progress_def)
    show ?thesis
      using b1(2) s2(2) p pub
      by (cases q)
        (auto simp: step_bind_def run_branch_def b_def [symmetric] run s1_def [symmetric] join_branch_def par Let_def
          checked_add_def split: option.split sum.split ordered_error.split if_splits)
  qed
  then show ?thesis by (simp add: sound_def keeps_def)
qed

lemma sound_copy_unwaited:
  "sound fuel branch \<Longrightarrow> sound fuel parent \<Longrightarrow> sound fuel (copy_unwaited sv line branch parent)"
  unfolding copy_unwaited_def by (intro sound_bind sound_reserve sound_forks sound_join)

section \<open>Statements\<close>

lemma sound_replace_lock [sound_intro]: "sound fuel (replace_lock sv path)"
proof -
  have "replace_lock sv path =
      (\<lambda>s. case host_step (oh_replace_global_lock (sv_host sv) path) s of (s1, Inr x) \<Rightarrow> step_return x s1
        | (s1, Inl e) \<Rightarrow> step_fail (Err_Delivery e) s1)"
    by (rule ext) (simp add: replace_lock_def step_return_def step_fail_def split: prod.split sum.split)
  then show ?thesis by (simp add: sound_after_host sound_return sound_fail)
qed

lemma sound_assignment [sound_intro]:
  "sound fuel (assignment_step sv a)" "sound fuel (unset_step sv u)" "sound fuel (execute_command_assignment sv ca)"
  unfolding assignment_step_def unset_step_def execute_command_assignment_def by (auto intro!: sound_intro)

lemma sound_runtime_rc:
  assumes "sound fuel m"
  shows "sound fuel (execute_runtime_rc path child m)"
proof -
  have "progress s (fst (execute_runtime_rc path child m s)) \<and>
      (MAX_RC_TRANSITIONS < fuel + transitions s \<longrightarrow> ends (snd (execute_runtime_rc path child m s)))" for s
  proof -
    define b where "b = s\<lparr>ex_runtime := fst (replace_current_rc_file (Some path) (ex_runtime s)), ex_rc := child\<rparr>"
    obtain s1 r where run: "m b = (s1, r)" by (cases "m b")
    have "progress b s1" "MAX_RC_TRANSITIONS < fuel + transitions b \<longrightarrow> ends r"
      using assms run by (auto simp: sound_def keeps_def) (metis fst_conv snd_conv)+
    then show ?thesis
      using run by (auto simp: execute_runtime_rc_def b_def progress_def split: prod.splits)
  qed
  then show ?thesis by (simp add: sound_def keeps_def)
qed

text \<open>A computation that is started after a file was entered: the transition was counted already.\<close>

definition sound_entered :: "nat \<Rightarrow> ('h, 'x, 'l, 'a) exec \<Rightarrow> bool" where
  "sound_entered fuel m \<longleftrightarrow> keeps progress m \<and>
     (\<forall>s. transitions s \<le> MAX_RC_TRANSITIONS \<and> MAX_RC_TRANSITIONS + 1 < fuel + transitions s \<longrightarrow> ends (snd (m s)))"

lemma enter_rc_counts:
  assumes "enter_rc sv e statement s = (s1, r)"
  shows "progress s s1" "ends r" "r = Inr x \<Longrightarrow> transitions s1 = transitions s + 1 \<and> transitions s1 \<le> MAX_RC_TRANSITIONS"
proof -
  obtain st q where run: "enter_runtime_rc (sv_load sv) e statement (ex_runtime s) (ex_rc s) (ex_rc_state s) = (st, q)"
    by (cases "enter_runtime_rc (sv_load sv) e statement (ex_runtime s) (ex_rc s) (ex_rc_state s)")
  have s1: "s1 = s\<lparr>ex_rc_state := st\<rparr>" "r = map_sum Err_Evaluation id q" using assms by (simp_all add: enter_rc_def run)
  have st: "rs_transitions st = (if transitions s < MAX_RC_TRANSITIONS then transitions s + 1 else transitions s)"
    and full: "transitions s \<ge> MAX_RC_TRANSITIONS \<Longrightarrow> \<exists>err. q = Inl err"
    using enter_runtime_rc_transitions [where load = "sv_load sv" and e = e and statement = statement and rv = "ex_runtime s"
        and ctx = "ex_rc s" and st = "ex_rc_state s"] run by auto
  show "progress s s1" using st by (simp add: s1(1) progress_def max_def)
  show "ends r" by (cases q) (simp_all add: s1(2))
  show "transitions s1 = transitions s + 1 \<and> transitions s1 \<le> MAX_RC_TRANSITIONS" if "r = Inr x"
  proof (cases "transitions s < MAX_RC_TRANSITIONS")
    case False
    then show ?thesis using full that by (auto simp: s1(2))
  qed (use st in \<open>simp add: s1(1)\<close>)
qed

text \<open>The continuations of the two statements that enter a file.\<close>

lemma sound_enter:
  assumes none: "\<And>b. sound fuel (k (Enter_Nothing b))"
    and seq: "\<And>s path child. k (Enter_Sequence s path child) = step_bind (m s path child) f"
      "\<And>s path child. sound_entered fuel (m s path child)" and rest: "\<And>x. sound fuel (f x)"
  shows "sound fuel (step_bind (enter_rc sv e statement) k)"
proof -
  have entered: "progress s1 (fst (k x s1)) \<and>
      (transitions s1 \<le> MAX_RC_TRANSITIONS \<and> MAX_RC_TRANSITIONS + 1 < fuel + transitions s1 \<longrightarrow> ends (snd (k x s1)))"
    for x s1
  proof (cases x)
    case (Enter_Nothing b)
    then show ?thesis using none [of b] by (auto simp: sound_def keeps_def)
  next
    case (Enter_Sequence t path child)
    obtain s2 r where run: "m t path child s1 = (s2, r)" by (cases "m t path child s1")
    have s2: "progress s1 s2"
      "transitions s1 \<le> MAX_RC_TRANSITIONS \<and> MAX_RC_TRANSITIONS + 1 < fuel + transitions s1 \<longrightarrow> ends r"
      using seq(2) [of t path child] run by (auto simp: sound_entered_def keeps_def) (metis fst_conv snd_conv)+
    have "transitions s1 \<le> transitions s2" using s2(1) by (simp add: progress_def)
    then show ?thesis
      using s2 rest progress.trans [OF s2(1)]
      by (cases r) (auto simp: Enter_Sequence seq(1) step_bind_def run sound_def keeps_def)
  qed
  have "progress s (fst (step_bind (enter_rc sv e statement) k s)) \<and>
      (MAX_RC_TRANSITIONS < fuel + transitions s \<longrightarrow> ends (snd (step_bind (enter_rc sv e statement) k s)))" for s
  proof -
    obtain s1 r where run: "enter_rc sv e statement s = (s1, r)" by (cases "enter_rc sv e statement s")
    note counts = enter_rc_counts [OF run]
    show ?thesis
    proof (cases r)
      case (Inr x)
      then show ?thesis
        using counts(1) counts(3) [OF Inr] entered [of s1 x] progress.trans [OF counts(1)] by (auto simp: step_bind_def run)
    qed (use counts in \<open>simp add: step_bind_def run\<close>)
  qed
  then show ?thesis by (simp add: sound_def keeps_def)
qed

lemma sound_entered_0: "sound_entered 0 m \<longleftrightarrow> keeps progress m"
  by (auto simp: sound_entered_def)

lemma sound_entered_Suc: "sound fuel m \<Longrightarrow> sound_entered (Suc fuel) m"
  by (auto simp: sound_entered_def sound_def)

section \<open>Execution\<close>

lemma statements_sound:
  assumes entered: "\<And>s path child. sound_entered fuel (execute_entered sv fuel s path child)"
  shows "sound fuel (execute_statements sv fuel ss)"
proof (induction ss)
  case (Cons x ss)
  have rest: "sound fuel (case p of (_, control) \<Rightarrow>
      if control = SC_Stop then step_return SC_Stop else execute_statements sv fuel ss)" for p
    using Cons.IH by (cases p) (auto intro: sound_return)
  have switched: "sound fuel (case p of (_, control) \<Rightarrow> step_return (if control = SC_Stop then SC_Stop else SC_EndRcFile))" for p
    by (cases p) (auto intro: sound_return)
  show ?case
  proof (cases x)
    case (CS_Include e)
    show ?thesis
      unfolding CS_Include execute_statements.simps
      by (rule sound_enter [OF _ _ entered rest]) (simp_all add: Cons.IH)
  next
    case (CS_Switch e)
    show ?thesis
      unfolding CS_Switch execute_statements.simps
      by (rule sound_enter [OF _ _ entered switched]) (simp_all add: Cons.IH sound_return)
  qed (use Cons.IH in \<open>auto intro!: sound_intro\<close>)
qed (simp add: sound_return)

lemma nodes_sound:
  assumes statements: "\<And>ss. sound fuel (execute_statements sv fuel ss)"
    and actions: "\<And>n line lock. n \<in> set nodes \<Longrightarrow> sound fuel (execute_action sv fuel line lock (cn_action n))"
  shows "sound fuel (execute_from sv fuel nodes trailing state acc)"
  using actions
proof (induction nodes arbitrary: state acc)
  case Nil
  show ?case unfolding execute_from.simps by (intro sound_bind statements sound_return)
next
  case (Cons n ns)
  have act: "sound fuel (execute_action sv fuel line lock (cn_action n))" for line lock
    by (rule Cons.prems) simp
  have rest: "sound fuel (execute_from sv fuel ns trailing state acc)" for state acc
    by (rule Cons.IH [OF Cons.prems]) simp
  have branch: "sound fuel (step_bind (execute_action sv fuel (cn_line n) (cn_lock n) (cn_action n)) (\<lambda>(action, control).
      if control = SC_Continue then execute_from sv fuel ns trailing (record_recipe (cn_control n) True action False state) Succeeded
      else step_return (action, control)))" for state
    by (intro sound_bind act) (simp add: rest sound_return split: prod.split)
  show ?case
    unfolding execute_from.simps Let_def
    by (intro sound_bind statements if_sound)
      (simp_all add: rest act branch sound_return sound_matches_ordered sound_copy_waited sound_copy_unwaited split: prod.split)
qed

lemma actions_sound:
  assumes "\<And>ss. sound fuel (execute_statements sv fuel ss)"
  shows "\<forall>state acc. sound fuel (execute_from sv fuel (cq_recipes s) (cq_trailing s) state acc)"
    and "\<forall>line lock. sound fuel (execute_action sv fuel line lock (cn_action n))"
    and "\<forall>line lock. sound fuel (execute_action sv fuel line lock a)"
proof (induction s and n and a)
  case (Sequence nodes trailing p)
  then show ?case using nodes_sound [OF assms, of nodes] by simp
next
  case (CA_Block s)
  then show ?case by (cases s) (simp add: sound_block)
qed (simp_all add: sound_simple del: execute_simple.simps)

lemma entered_sound: "sound_entered fuel (execute_entered sv fuel s path child)"
proof (induction fuel arbitrary: s path child)
  case 0
  show ?case by (simp add: sound_entered_0 execute_entered.simps progress.keeps_fail)
next
  case (Suc fuel)
  have "sound fuel (execute_from sv fuel (cq_recipes s) (cq_trailing s) state_default Succeeded)"
    using actions_sound(1) [OF statements_sound [OF Suc.IH]] by blast
  then show ?case by (simp add: execute_entered.simps sound_entered_Suc sound_runtime_rc)
qed

lemma execution_sound: "sound fuel (execute_from sv fuel (cq_recipes s) (cq_trailing s) state acc)"
  using actions_sound(1) [OF statements_sound [OF entered_sound]] by blast

section \<open>Theorems\<close>

text \<open>
  C4. Ordered execution ends and stays within its limits, whatever the plan, the host, the regex engine
  and the files that the loader returns: the fuel of the model is never used up, so the recursion
  through included files is bounded by the program's own limit, and no header edit loops, so the
  result is a value or an error of the program; at most 128 background copies are
  started for a message, at most 256 files entered unless more were before, and the message and its
  limits are the ones execution started with.
\<close>

theorem ordered_execution_total:
  fixes sv :: "('h, 'g, 'x, 'l) services"
  shows "case execute_ordered sv p input rv h of
     (state, result) \<Rightarrow> result \<noteq> Inl Err_Fuel \<and> result \<noteq> Inl Err_Diverged \<and>
       (case state of
          None \<Rightarrow> True
        | Some s \<Rightarrow>
            ex_copies s \<le> MAX_BACKGROUND_COPY_BRANCHES \<and>
            rs_transitions (ex_rc_state s) \<le> max MAX_RC_TRANSITIONS (rs_transitions (pl_rc p)) \<and>
            pl_limits p = Inr (ex_limits s) \<and>
            complete_message_of input (plan_needs_full_matching p) = Some (ex_message s))"
proof (cases "complete_message_of input (plan_needs_full_matching p)")
  case (Some m)
  show ?thesis
  proof (cases "pl_limits p")
    case (Inr limits)
    define s0 where "s0 = (start_execution m rv h limits (pl_rc p) :: ('h, 'x, 'l) execution)"
    obtain s1 r where run: "execute_from sv RC_FUEL (cq_recipes (pl_root p)) (cq_trailing (pl_root p)) state_default Succeeded s0 = (s1, r)"
      by (metis surj_pair)
    have "sound RC_FUEL (execute_from sv RC_FUEL (cq_recipes (pl_root p)) (cq_trailing (pl_root p)) state_default Succeeded)"
      by (rule execution_sound)
    then have "progress s0 s1" "ends r"
      using run by (auto simp: sound_def keeps_def RC_FUEL_def) (metis fst_conv snd_conv le_add1 less_Suc_eq_le)+
    then show ?thesis
      by (auto simp: execute_ordered_def Some Inr s0_def [symmetric] execute_root_def run Let_def outcome_of_def
          split: prod.split option.split sum.split)
        (auto simp: progress_def s0_def start_execution_def)
  qed (simp add: execute_ordered_def Some)
qed (simp add: execute_ordered_def)

text \<open>
  C15. A waited copy block leaves its parent as it was.  Whatever the recipes of the block and those
  after it did with their copy, the parent's variables, its current message, whether the original
  was delivered and the rc file being executed are unchanged afterwards; what the branch published
  stays counted, and its last failed action, if any, becomes the result of the block.
\<close>

theorem waited_copy_isolated:
  "case copy_waited sv branch s of
     (s', result) \<Rightarrow>
       rv_get (ex_runtime s') = rv_get (ex_runtime s) \<and> rv_get_bytes (ex_runtime s') = rv_get_bytes (ex_runtime s) \<and>
       ex_current s' = ex_current s \<and> ex_original_delivered s' = ex_original_delivered s \<and> ex_rc s' = ex_rc s \<and>
       (\<exists>b r. branch (s\<lparr>ex_runtime := snd (fork (ex_runtime s)), ex_pending := None,
                        ex_host := oh_enter_copy (sv_host sv) (ex_host s)\<rparr>) = (b, r) \<and>
          ex_published s' = ex_published b \<and>
          result = (case r of
             Inl e \<Rightarrow> Inl e
           | Inr _ \<Rightarrow> Inr (if ex_pending b = None then Succeeded else Failed, SC_Continue)))"
proof -
  obtain parent_rv branch_rv where f: "fork (ex_runtime s) = (parent_rv, branch_rv)" by (cases "fork (ex_runtime s)")
  define b0 where "b0 = s\<lparr>ex_runtime := branch_rv, ex_pending := None, ex_host := oh_enter_copy (sv_host sv) (ex_host s)\<rparr>"
  obtain b r where run: "branch b0 = (b, r)" by (cases "branch b0")
  have "rv_get parent_rv = rv_get (ex_runtime s) \<and> rv_get_bytes parent_rv = rv_get_bytes (ex_runtime s)"
    using rv_get_cong [OF fork_frame(1) rv_find_fork(1), of "ex_runtime s"] by (simp add: f)
  then show ?thesis
    by (cases r)
      (auto simp: copy_waited_def f b0_def [symmetric] run Let_def action_failed_def action_succeeded_def split: option.split)
qed

end
