(* ===== verification/Header_Phase.thy ===== *)
theory Header_Phase
  imports Header_Plan Ordered_Facts
begin

text \<open>
  What planning in two phases guarantees: a plan decided on the header, or resumed where the header
  phase stopped, is the plan that the complete message gives.
\<close>

section \<open>Conditions in two phases\<close>

definition always_defers :: "compiled_condition \<Rightarrow> bool" where
  "always_defers c \<longleftrightarrow>
     (case cc_kind c of
        CC_ShellExpanded _ _ _ _ \<Rightarrow> True | CC_BodyRegex _ \<Rightarrow> True | CC_MessageRegex _ \<Rightarrow> True | CC_Multipart _ \<Rightarrow> True
      | CC_Program _ _ \<Rightarrow> True | _ \<Rightarrow> False)"

definition tests_size :: "compiled_condition \<Rightarrow> bool" where
  "tests_size c \<longleftrightarrow> (case cc_kind c of CC_SmallerThan _ \<Rightarrow> True | CC_LargerThan _ \<Rightarrow> True | _ \<Rightarrow> False)"

text \<open>A test that neither fails nor changes a variable.\<close>

definition plain_test :: "compiled_condition \<Rightarrow> bool" where
  "plain_test c \<longleftrightarrow> tests_size c \<or>
     \<not> has_captures c \<and>
     (case cc_kind c of CC_HeaderRegex _ \<Rightarrow> True | CC_BodyRegex _ \<Rightarrow> True | CC_MessageRegex _ \<Rightarrow> True | _ \<Rightarrow> False)"

text \<open>
  The order of conditions under which the header phase is exact: what follows a condition that may wait
  for the body either waits itself, or all of it are plain tests up to conditions that wait.
\<close>

fun settled_after :: "compiled_condition list \<Rightarrow> bool" where
  "settled_after [] \<longleftrightarrow> True"
| "settled_after (c # cs) \<longleftrightarrow> plain_test c \<and> settled_after cs \<or> list_all always_defers (c # cs)"

fun settled :: "compiled_condition list \<Rightarrow> bool" where
  "settled [] \<longleftrightarrow> True"
| "settled (c # cs) \<longleftrightarrow>
     (if always_defers c \<or> tests_size c then plain_test c \<and> settled_after cs \<or> list_all always_defers cs else settled cs)"

lemma always_defers_settled: "list_all always_defers cs \<Longrightarrow> settled cs"
  by (cases cs) auto

lemma settled_after_settled: "settled_after cs \<Longrightarrow> settled cs"
  by (induction cs) (auto simp: always_defers_settled)

text \<open>The complete message that begins with a head.\<close>

definition extends_head :: "complete_message \<Rightarrow> message_head \<Rightarrow> bool" where
  "extends_head m head \<longleftrightarrow>
     header_bytes m = head_matching_header head \<and> complete_header_view m = head_view head \<and>
     head_len head \<le> complete_len m \<and> complete_status m = head_status head"

lemma always_defers_headers: "always_defers c \<Longrightarrow> matches_headers re c head rv = (rv, Inr PM_Deferred)"
  by (auto simp: always_defers_def matches_headers_def split: compiled_condition_kind.splits)

lemma decided_neq_deferred: "decided c x \<noteq> (rv, Inr PM_Deferred)"
  by (cases x; cases "snd x") (auto simp: decided_def from_bool_def)

lemma deferred_keeps:
  assumes "matches_headers re c head rv = (rv', Inr PM_Deferred)"
  shows "rv' = rv" "always_defers c \<or> tests_size c"
  using assms decided_neq_deferred
  by (auto simp: matches_headers_def always_defers_def tests_size_def split: compiled_condition_kind.splits if_splits)

lemma decided_Inl: "decided c x = (rv', Inl e) \<Longrightarrow> negate_result c x = (rv', Inl e)"
  by (cases x; cases "snd x") (auto simp: decided_def negate_result_def)

lemma header_error_stands:
  assumes "matches_headers re c head rv = (rv', Inl e)" and "extends_head m head"
  shows "matches_complete re reparse c m rv = (rv', Inl e)"
  using assms decided_Inl
  by (auto simp: matches_headers_def matches_complete_def matches_plain_def on_input_def matching_input_def extends_head_def
      split: compiled_condition_kind.splits if_splits)

lemma header_answer_stands:
  assumes "matches_headers re c head rv = (rv', Inr d)" "d \<noteq> PM_Deferred" and "extends_head m head"
  shows "matches_complete re reparse c m rv = (rv', Inr (d = PM_True))"
proof -
  have ext: "header_bytes m = head_matching_header head" "complete_header_view m = head_view head" "head_len head \<le> complete_len m"
    using assms(3) by (simp_all add: extends_head_def)
  have input: "on_input m CI_Headers rv f = f (head_matching_header head)" for f
    by (simp add: on_input_def matching_input_def ext)
  show ?thesis
    using assms(1,2) ext(2,3) decided_Inr(2)
    by (cases "cc_kind c") (auto simp: matches_headers_def matches_complete_def matches_plain_def input dest: decided_Inr split: if_splits)
qed

lemma plain_test_complete: "plain_test c \<Longrightarrow> \<exists>b. matches_complete re reparse c m rv = (rv, Inr b)"
  using matching_input_total [of m]
  by (auto simp: plain_test_def tests_size_def matches_complete_def matches_plain_def negate_result_def on_input_def
      regex_matches_def Let_def split: compiled_condition_kind.splits option.splits)

lemma plain_test_headers: "plain_test c \<Longrightarrow> \<exists>d. matches_headers re c head rv = (rv, Inr d)"
  by (auto simp: plain_test_def tests_size_def matches_headers_def decided_def regex_matches_def Let_def
      split: compiled_condition_kind.splits option.splits)

lemma all_defer_headers:
  "list_all always_defers cs \<Longrightarrow>
     node_matches_headers re cs head rv = (rv, Inr (if cs = [] then PM_True else PM_Deferred, map (\<lambda>_. None) cs))"
  by (induction cs) (auto simp: always_defers_headers)

lemma resumed_unknown: "matches_resumed re reparse cs m (map (\<lambda>_. None) cs) rv = node_matches_complete re reparse cs m rv"
  by (induction cs arbitrary: rv) (auto simp: resumed_result_def split: prod.splits sum.splits)

lemma resumed_true:
  "node_matches_headers re cs head rv = (rv', Inr (PM_True, rs)) \<Longrightarrow> matches_resumed re reparse cs m rs w = (w, Inr True)"
  by (induction cs arbitrary: rv rs)
    (auto simp: resumed_result_def map_sum_Inr_iff split: prod.splits sum.splits partial_match.splits if_splits)

lemma settled_after_headers:
  assumes "settled_after cs" and ext: "extends_head m head"
  shows "\<exists>d rs. node_matches_headers re cs head rv = (rv, Inr (d, rs)) \<and>
    (if d = PM_False then node_matches_complete re reparse cs m rv = (rv, Inr False)
     else matches_resumed re reparse cs m rs rv = node_matches_complete re reparse cs m rv)"
  using assms(1)
proof (induction cs)
  case (Cons c cs)
  show ?case
  proof (cases "list_all always_defers (c # cs)")
    case True
    then show ?thesis using all_defer_headers [OF True] resumed_unknown [of re reparse "c # cs"] by auto
  next
    case False
    then have c: "plain_test c" and cs: "settled_after cs" using Cons.prems by auto
    obtain d rs where IH: "node_matches_headers re cs head rv = (rv, Inr (d, rs))"
      "if d = PM_False then node_matches_complete re reparse cs m rv = (rv, Inr False)
       else matches_resumed re reparse cs m rs rv = node_matches_complete re reparse cs m rv"
      using Cons.IH [OF cs] by blast
    obtain b where b: "matches_complete re reparse c m rv = (rv, Inr b)" using plain_test_complete [OF c] by blast
    obtain e where e: "matches_headers re c head rv = (rv, Inr e)" using plain_test_headers [OF c] by blast
    show ?thesis
    proof (cases e)
      case PM_Deferred
      then show ?thesis using IH b by (auto simp: e resumed_result_def)
    qed (use IH b header_answer_stands [OF e _ ext, of reparse] in \<open>auto simp: e resumed_result_def split: if_splits\<close>)
  qed
qed simp

text \<open>The conditions of a recipe: the outcome of the two phases is that of the complete message.\<close>

lemma settled_headers:
  assumes "settled cs" and ext: "extends_head m head" and run: "node_matches_headers re cs head rv = (rv', x)"
  shows "case x of
      Inl e \<Rightarrow> node_matches_complete re reparse cs m rv = (rv', Inl e)
    | Inr (d, rs) \<Rightarrow>
        if d = PM_Deferred then matches_resumed re reparse cs m rs rv' = node_matches_complete re reparse cs m rv
        else node_matches_complete re reparse cs m rv = (rv', Inr (d = PM_True))"
  using assms(1,3)
proof (induction cs arbitrary: rv rv' x)
  case (Cons c cs)
  obtain rv1 y where y: "matches_headers re c head rv = (rv1, y)" by fastforce
  obtain rv2 z where z: "node_matches_headers re cs head rv1 = (rv2, z)" by fastforce
  consider (err) e where "y = Inl e" | (false) "y = Inr PM_False" | (true) "y = Inr PM_True" | (deferred) "y = Inr PM_Deferred"
    by (cases y) (auto intro: partial_match.exhaust)
  then show ?case
  proof cases
    case err
    then show ?thesis using Cons.prems(2) header_error_stands [OF y [unfolded err] ext, of reparse] by (auto simp: y)
  next
    case false
    then show ?thesis using Cons.prems(2) header_answer_stands [OF y [unfolded false] _ ext, of reparse] by (auto simp: y)
  next
    case true
    have c: "matches_complete re reparse c m rv = (rv1, Inr True)"
      using header_answer_stands [OF y [unfolded true] _ ext, of reparse] by simp
    have cs: "settled cs" using Cons.prems(1) by (auto simp: always_defers_settled settled_after_settled split: if_splits)
    show ?thesis
      using Cons.IH [OF cs z] Cons.prems(2)
      by (auto simp: y true z c resumed_result_def split: sum.splits prod.splits if_splits)
  next
    case deferred
    note keep = deferred_keeps [OF y [unfolded deferred]]
    have alt: "plain_test c \<and> settled_after cs \<or> list_all always_defers cs" using Cons.prems(1) keep(2) by simp
    show ?thesis
    proof (cases "list_all always_defers cs")
      case True
      have rest: "node_matches_headers re cs head rv = (rv, Inr (if cs = [] then PM_True else PM_Deferred, map (\<lambda>_. None) cs))"
        by (rule all_defer_headers [OF True])
      then have "rv' = rv" "x = Inr (PM_Deferred, map (\<lambda>_. None) (c # cs))"
        using Cons.prems(2) by (auto simp: y deferred keep(1) split: if_splits)
      then show ?thesis using resumed_unknown [of re reparse "c # cs" m rv] by simp
    next
      case False
      then have c: "plain_test c" and cs: "settled_after cs" using alt by auto
      obtain b where b: "matches_complete re reparse c m rv = (rv, Inr b)" using plain_test_complete [OF c] by blast
      obtain d rs where rest: "node_matches_headers re cs head rv = (rv, Inr (d, rs))"
        "if d = PM_False then node_matches_complete re reparse cs m rv = (rv, Inr False)
         else matches_resumed re reparse cs m rs rv = node_matches_complete re reparse cs m rv"
        using settled_after_headers [OF cs ext, of re rv reparse] by blast
      have "rv' = rv" "x = Inr (if d = PM_False then PM_False else PM_Deferred, None # rs)"
        using Cons.prems(2) by (simp_all add: y deferred keep(1) rest(1))
      then show ?thesis using rest(2) by (simp add: b resumed_result_def)
    qed
  qed
qed simp

section \<open>The state the two phases share\<close>

definition core :: "('l, 'z) plan_state_scheme \<Rightarrow> 'l plan_state" where
  "core s = \<lparr>ps_runtime = ps_runtime s, ps_execution = ps_execution s, ps_rc = ps_rc s, ps_rc_state = ps_rc_state s\<rparr>"

lemma core_simps [simp]:
  "ps_runtime (core s) = ps_runtime s" "ps_execution (core s) = ps_execution s"
  "core (s\<lparr>ps_runtime := rv\<rparr>) = (core s)\<lparr>ps_runtime := rv\<rparr>" "core (s\<lparr>ps_execution := x\<rparr>) = (core s)\<lparr>ps_execution := x\<rparr>"
  by (simp_all add: core_def)

text \<open>A step that reads and writes the shared part only.\<close>

definition tracks :: "('l, 'z, 'x, 'a) planner \<Rightarrow> ('l, unit, 'x, 'a) planner \<Rightarrow> bool" where
  "tracks f g \<longleftrightarrow> (\<forall>s s' r. f s = (s', r) \<longrightarrow> g (core s) = (core s', r) \<and> plan_state.more s' = plan_state.more s)"

named_theorems tracks_intro

lemma tracks_return [tracks_intro]: "tracks (step_return x) (step_return x)"
  by (simp add: tracks_def step_return_def)

lemma tracks_fail [tracks_intro]: "tracks (plan_fail e) (plan_fail e)"
  by (simp add: tracks_def plan_fail_def step_fail_def)

lemma tracks_lift [tracks_intro]: "tracks (plan_lift r) (plan_lift r)"
  by (simp add: tracks_def plan_lift_def)

lemma tracks_runtime [tracks_intro]: "tracks (plan_runtime f) (plan_runtime f)"
  by (auto simp: tracks_def plan_runtime_def split: prod.splits)

lemma tracks_delivery_state [tracks_intro]: "tracks (push_delivery d) (push_delivery d)" "tracks host_elsewhere host_elsewhere"
  by (auto simp: tracks_def push_delivery_def host_elsewhere_def)

lemma tracks_bind [tracks_intro]:
  assumes "tracks f g" and "\<And>x. tracks (h x) (k x)"
  shows "tracks (step_bind f h) (step_bind g k)"
  unfolding tracks_def
proof (intro allI impI)
  fix s s' r
  assume run: "step_bind f h s = (s', r)"
  obtain s1 r1 where f: "f s = (s1, r1)" by fastforce
  then have g: "g (core s) = (core s1, r1)" "plan_state.more s1 = plan_state.more s"
    using assms(1) by (simp_all add: tracks_def)
  show "step_bind g k (core s) = (core s', r) \<and> plan_state.more s' = plan_state.more s"
    using run g assms(2) by (cases r1) (auto simp: step_bind_def f tracks_def)
qed

lemma tracks_if [tracks_intro]: "tracks a c \<Longrightarrow> tracks b d \<Longrightarrow> tracks (if P then a else b) (if P then c else d)"
  by simp

lemma tracks_with [tracks_intro]:
  "(\<And>rv. tracks (f rv) (g rv)) \<Longrightarrow> tracks (step_with (\<lambda>s. f (ps_runtime s))) (step_with (\<lambda>s. g (ps_runtime s)))"
  by (simp add: tracks_def step_with_def)

lemma tracks_plan_delivery [tracks_intro]:
  "tracks (plan_delivery line lock d cont ending status handler) (plan_delivery line lock d cont ending status handler)"
  unfolding plan_delivery_def Let_def by (intro tracks_intro)

lemma tracks_plan_statement [tracks_intro]: "tracks (plan_statement c) (plan_statement c)"
  by (cases c) (auto intro!: tracks_intro)

section \<open>Plans that the header phase can decide\<close>

fun static_statement :: "compiled_statement \<Rightarrow> bool" where
  "static_statement (CS_Include e) \<longleftrightarrow> False"
| "static_statement (CS_Switch e) \<longleftrightarrow> False"
| "static_statement _ \<longleftrightarrow> True"

text \<open>No files are entered at run time, and the conditions of every recipe are settled.\<close>

fun static_sequence :: "compiled_sequence \<Rightarrow> bool"
and static_node :: "compiled_node \<Rightarrow> bool"
and static_action :: "compiled_action \<Rightarrow> bool"
where
  "static_sequence (Sequence nodes trailing p) \<longleftrightarrow> list_all static_node nodes \<and> list_all static_statement trailing"
| "static_node (Node line preceding lock control cont status conditions action p) \<longleftrightarrow>
     list_all static_statement preceding \<and> settled conditions \<and> static_action action"
| "static_action (CA_Block q) \<longleftrightarrow> static_sequence q"
| "static_action a \<longleftrightarrow> True"

text \<open>No recipe edits the header or captures from it, and no block takes a lock.\<close>

fun unordered_sequence :: "compiled_sequence \<Rightarrow> bool"
and unordered_node :: "compiled_node \<Rightarrow> bool"
and unordered_action :: "path_expression option \<Rightarrow> compiled_action \<Rightarrow> bool"
where
  "unordered_sequence (Sequence nodes trailing p) \<longleftrightarrow> list_all unordered_node nodes"
| "unordered_node (Node line preceding lock control cont status conditions action p) \<longleftrightarrow> unordered_action lock action"
| "unordered_action lock (CA_Block q) \<longleftrightarrow> lock = None \<and> unordered_sequence q"
| "unordered_action lock (CA_Headers operations) \<longleftrightarrow> False"
| "unordered_action lock (CA_Capture action options) \<longleftrightarrow> ro_action_input options \<noteq> AI_Headers"
| "unordered_action lock a \<longleftrightarrow> True"

lemma static_statements:
  fixes s :: "('h, 'x, 'l) header_state"
  assumes "list_all static_statement ss" and "plan_statements_headers pv capture fuel ss following s = (s1, r1)"
  shows "\<exists>c1. plan_statements_complete pv m fuel ss (core s) = (core s1, c1) \<and> r1 = map_sum id header_control_from c1 \<and>
    c1 \<noteq> Inr SC_Complete \<and> plan_state.more s1 = plan_state.more s"
  using assms
proof (induction ss arbitrary: s)
  case Nil
  then show ?case by (auto simp: step_return_def)
next
  case (Cons c ss)
  obtain s2 and r2 :: "'x ordered_error + bool" where run: "plan_statement c s = (s2, r2)" by fastforce
  have track: "plan_statement c (core s) = (core s2, r2)" "plan_state.more s2 = plan_state.more s"
    using tracks_plan_statement [of c] run by (auto simp: tracks_def)
  have step: "plan_statements_headers pv capture fuel (c # ss) following s =
      (case r2 of Inl e \<Rightarrow> (s2, Inl e)
       | Inr goes_on \<Rightarrow> if goes_on then plan_statements_headers pv capture fuel ss following s2 else (s2, Inr HC_EndRcFile))"
    "plan_statements_complete pv m fuel (c # ss) (core s) =
      (case r2 of Inl e \<Rightarrow> (core s2, Inl e)
       | Inr goes_on \<Rightarrow> if goes_on then plan_statements_complete pv m fuel ss (core s2) else (core s2, Inr SC_EndRcFile))"
    using Cons.prems(1) run track(1) by (cases c; auto simp: step_bind_def step_return_def split: sum.splits)+
  show ?case
    using Cons.IH [of s2] Cons.prems track(2) by (auto simp: step split: sum.splits if_splits)
qed

lemma more_fields:
  assumes "plan_state.more s1 = plan_state.more s"
  shows "hs_head s1 = hs_head s" "hs_frames s1 = hs_frames s" "hs_pending s1 = hs_pending s" "hs_restart s1 = hs_restart s"
    "hs_requirements s1 = hs_requirements s" "hs_host s1 = hs_host s"
  using assms by (cases s; cases s1; simp)+

section \<open>Two phases\<close>

lemma map_sum_Inl_iff: "map_sum f g x = Inl b \<longleftrightarrow> (\<exists>a. x = Inl a \<and> b = f a)"
  by (cases x) auto

lemma map_sum_id_Inr: "map_sum f id y = Inr x \<longleftrightarrow> y = Inr x"
  by (cases y) auto

lemma step_bind_return [simp]: "step_bind (step_return x) k = k x"
  by (simp add: fun_eq_iff step_bind_def step_return_def)

lemma step_bind_assoc: "step_bind (step_bind f k) h = step_bind f (\<lambda>x. step_bind (k x) h)"
  by (auto simp: fun_eq_iff step_bind_def split: prod.splits sum.splits)

lemma step_bind_run: "f s = (s1, r) \<Longrightarrow> step_bind f k s = (case r of Inl e \<Rightarrow> (s1, Inl e) | Inr x \<Rightarrow> k x s1)"
  by (simp add: step_bind_def)

lemma step_bind_same: "f s = g t \<Longrightarrow> step_bind f k s = step_bind g k t"
  by (simp add: step_bind_def)

text \<open>
  How a run of the header phase relates to a complete run: the same result on the shared state, or frames
  from which resuming is the complete run.
\<close>

definition agrees ::
    "'l plan_services \<Rightarrow> complete_message \<Rightarrow> nat \<Rightarrow> compiled_sequence \<Rightarrow> ('h, 'x, 'l) header_state \<Rightarrow>
     'l plan_state \<times> ('x ordered_error + sequence_control) \<Rightarrow> ('h, 'x, 'l) header_state \<Rightarrow> 'x ordered_error + header_control \<Rightarrow> bool" where
  "agrees pv m fuel q s complete s' r \<longleftrightarrow>
     (if r = Inr HC_Deferred
      then hs_restart s' = hs_restart s \<and>
           (\<exists>fs. hs_frames s' = hs_frames s @ fs \<and> fs \<noteq> [] \<and> resume_from_frames pv m fuel fs q (core s') = complete)
      else \<exists>c. complete = (core s', c) \<and> r = map_sum id header_control_from c \<and> (isl c \<or> plan_state.more s' = plan_state.more s))"

lemma agrees_same:
  assumes "complete = (core s', c)" "r = map_sum id header_control_from c" "c \<noteq> Inr SC_Complete"
    "isl c \<or> plan_state.more s' = plan_state.more s"
  shows "agrees pv m fuel q s complete s' r"
proof -
  have "r \<noteq> Inr HC_Deferred"
    using assms(2,3) by (cases c; cases "projr c") auto
  then show ?thesis using assms by (auto simp: agrees_def)
qed

text \<open>The first steps of a recipe: its gate and its conditions.\<close>

definition match_on_head :: "'l plan_services \<Rightarrow> compiled_node \<Rightarrow> sequence_state \<Rightarrow> ('h, 'x, 'l, partial_match \<times> bool option list) header_planner" where
  "match_on_head pv n state =
     (if planning_gate (cn_control n) state
      then step_with (\<lambda>s. plan_runtime (node_matches_headers (pv_engine pv) (cn_conditions n) (hs_head s)))
      else step_return (PM_False, []))"

definition match_on_message :: "'l plan_services \<Rightarrow> complete_message \<Rightarrow> compiled_node \<Rightarrow> sequence_state \<Rightarrow> ('l, 'z, 'x, bool) planner" where
  "match_on_message pv m n state =
     (if planning_gate (cn_control n) state
      then plan_runtime (node_matches_complete (pv_engine pv) (pv_reparse pv) (cn_conditions n) m)
      else step_return False)"

definition match_again ::
    "'l plan_services \<Rightarrow> complete_message \<Rightarrow> compiled_node \<Rightarrow> sequence_state \<Rightarrow> bool option list \<Rightarrow> ('l, 'z, 'x, bool) planner" where
  "match_again pv m n state results =
     (if planning_gate (cn_control n) state
      then plan_runtime (matches_resumed (pv_engine pv) (pv_reparse pv) (cn_conditions n) m results)
      else step_return False)"

lemma match_agrees:
  fixes s :: "('h, 'x, 'l) header_state"
  assumes "settled (cn_conditions n)" and ext: "extends_head m (hs_head s)" and run: "match_on_head pv n state s = (s2, x)"
  shows "plan_state.more s2 = plan_state.more s"
    and "x = Inl e \<Longrightarrow> match_on_message pv m n state (core s) = (core s2, Inl e)"
    and "x = Inr (d, rs) \<Longrightarrow> d \<noteq> PM_Deferred \<Longrightarrow> match_on_message pv m n state (core s) = (core s2, Inr (d = PM_True))"
    and "x = Inr (d, rs) \<Longrightarrow> d \<noteq> PM_False \<Longrightarrow> match_again pv m n state rs (core s2) = match_on_message pv m n state (core s)"
proof -
  consider "\<not> planning_gate (cn_control n) state" "s2 = s" "x = Inr (PM_False, [])"
    | (gate) rv y where "planning_gate (cn_control n) state"
      "node_matches_headers (pv_engine pv) (cn_conditions n) (hs_head s) (ps_runtime s) = (rv, y)"
      "s2 = s\<lparr>ps_runtime := rv\<rparr>" "x = map_sum Err_Evaluation id y"
    using run by (auto simp: match_on_head_def step_with_def plan_runtime_def step_return_def split: prod.splits if_splits)
  note cases = this
  show "plan_state.more s2 = plan_state.more s" by (cases rule: cases) auto
  show "x = Inl e \<Longrightarrow> match_on_message pv m n state (core s) = (core s2, Inl e)"
    using settled_headers [OF assms(1) ext, of "pv_engine pv" "ps_runtime s" _ _ "pv_reparse pv"]
    by (cases rule: cases) (auto simp: match_on_message_def plan_runtime_def map_sum_Inl_iff)
  show "match_on_message pv m n state (core s) = (core s2, Inr (d = PM_True))" if "x = Inr (d, rs)" "d \<noteq> PM_Deferred"
    using that settled_headers [OF assms(1) ext, of "pv_engine pv" "ps_runtime s" _ _ "pv_reparse pv"]
    by (cases rule: cases) (auto simp: match_on_message_def plan_runtime_def step_return_def map_sum_id_Inr)
  show "match_again pv m n state rs (core s2) = match_on_message pv m n state (core s)" if "x = Inr (d, rs)" "d \<noteq> PM_False"
  proof (cases rule: cases)
    case gate
    have y: "y = Inr (d, rs)" using gate(4) that(1) by (cases y) auto
    have both: "if d = PM_Deferred
        then matches_resumed (pv_engine pv) (pv_reparse pv) (cn_conditions n) m rs rv =
          node_matches_complete (pv_engine pv) (pv_reparse pv) (cn_conditions n) m (ps_runtime s)
        else node_matches_complete (pv_engine pv) (pv_reparse pv) (cn_conditions n) m (ps_runtime s) = (rv, Inr (d = PM_True))"
      using settled_headers [OF assms(1) ext gate(2), of "pv_reparse pv"] by (simp add: y)
    have "d = PM_True \<Longrightarrow> matches_resumed (pv_engine pv) (pv_reparse pv) (cn_conditions n) m rs rv = (rv, Inr True)"
      using resumed_true gate(2) by (auto simp: y)
    then show ?thesis
      using both that(2) gate(1) by (cases d) (auto simp: gate(3) match_on_message_def match_again_def plan_runtime_def split: prod.splits)
  qed (use that in simp)
qed

text \<open>What follows the action of a recipe in a complete run.\<close>

definition after_action ::
    "'l plan_services \<Rightarrow> complete_message \<Rightarrow> nat \<Rightarrow> compiled_node \<Rightarrow> compiled_node list \<Rightarrow> compiled_statement list \<Rightarrow> sequence_state \<Rightarrow>
     bool \<Rightarrow> sequence_control \<Rightarrow> ('l, 'z, 'x, sequence_control) planner" where
  "after_action pv m fuel n ns trailing state matched control =
     (if control \<noteq> SC_Continue then step_return control
      else plan_complete_from pv m fuel ns trailing
             (record_recipe (cn_control n) matched (if matched then Succeeded else NotAttempted)
                (else_handled (cn_control n) state matched) state))"

definition run_action ::
    "'l plan_services \<Rightarrow> complete_message \<Rightarrow> nat \<Rightarrow> compiled_node \<Rightarrow> compiled_node list \<Rightarrow> bool \<Rightarrow> ('l, 'z, 'x, sequence_control) planner" where
  "run_action pv m fuel n ns matched =
     (if matched then plan_action pv m fuel (cn_line n) (cn_lock n) (handler_follows ns) (cn_action n) else step_return SC_Continue)"

lemma plan_complete_Cons:
  "plan_complete_from pv m fuel (n # ns) trailing state =
     step_bind (plan_statements_complete pv m fuel (cn_preceding n)) (\<lambda>c.
       if c \<noteq> SC_Continue then step_return c
       else step_bind (match_on_message pv m n state) (\<lambda>matched.
              step_bind (run_action pv m fuel n ns matched) (after_action pv m fuel n ns trailing state matched)))"
  by (simp add: plan_complete_from.simps(2) match_on_message_def run_action_def after_action_def [abs_def] cong: if_cong)

lemma drop_Cons_facts:
  assumes "drop index xs = n # ns"
  shows "index < length xs" "xs ! index = n" "drop (Suc index) xs = ns"
  using assms by (auto simp: drop_Suc nth_via_drop dest: arg_cong [of _ _ tl] simp flip: tl_drop) (metis drop_all list.discI not_le_imp_less)

lemma handler_follows_rest:
  assumes "drop index (cq_recipes q) = n # ns"
  shows "has_error_handler q index \<longleftrightarrow> handler_follows ns"
proof -
  have "ns = drop (Suc index) (cq_recipes q)" using drop_Cons_facts(3) [OF assms] by simp
  then show ?thesis
    by (cases "Suc index < length (cq_recipes q)") (auto simp: has_error_handler_def handler_follows_def Cons_nth_drop_Suc [symmetric])
qed

text \<open>Resuming at a recipe, and at the block that holds the recipe.\<close>

lemma resume_here:
  assumes "drop index (cq_recipes q) = n # ns"
    and "f = \<lparr>cf_recipe_index = index, cf_state = state, cf_condition_results = results, cf_assignments_applied = True\<rparr>"
  shows "resume_from_frames pv m fuel [f] q =
    step_bind (match_again pv m n state results) (\<lambda>matched.
      step_bind (run_action pv m fuel n ns matched) (after_action pv m fuel n ns (cq_trailing q) state matched))"
  using drop_Cons_facts [OF assms(1)] handler_follows_rest [OF assms(1)]
  by (simp add: assms(2) Let_def resume_recipe_def match_again_def run_action_def after_action_def [abs_def] step_bind_assoc cong: if_cong)

lemma resume_inside:
  assumes "drop index (cq_recipes q) = n # ns" and "fs \<noteq> []" and "cn_action n = CA_Block children"
    and "f = \<lparr>cf_recipe_index = index, cf_state = state, cf_condition_results = results, cf_assignments_applied = True\<rparr>"
  shows "resume_from_frames pv m fuel (f # fs) q =
    step_bind (resume_from_frames pv m fuel fs children) (after_action pv m fuel n ns (cq_trailing q) state True)"
  using drop_Cons_facts [OF assms(1)] assms(2,3)
  by (simp add: assms(4) Let_def after_action_def [abs_def] step_bind_assoc cong: if_cong)

lemma delivery_agrees:
  fixes s :: "('h, 'x, 'l) header_state"
  assumes "head_delivery line lock d cont ending handler s = (s3, y)" and "extends_head m (hs_head s)"
  shows "\<exists>c. plan_delivery line lock d cont ending (complete_status m) handler (core s) = (core s3, c) \<and>
    y = map_sum id (\<lambda>c. (Succeeded, header_control_from c)) c \<and> plan_state.more s3 = plan_state.more s"
proof -
  obtain c where run: "plan_delivery line lock d cont ending (head_status (hs_head s)) handler s = (s3, c)"
    and y: "y = map_sum id (\<lambda>c. (Succeeded, header_control_from c)) c"
    using assms(1) by (auto simp: head_delivery_def step_with_def step_bind_def step_return_def split: prod.splits sum.splits)
  have "plan_delivery line lock d cont ending (head_status (hs_head s)) handler (core s) = (core s3, c)"
    "plan_state.more s3 = plan_state.more s"
    using tracks_plan_delivery [unfolded tracks_def, rule_format, OF run] by simp_all
  then show ?thesis using y assms(2) by (auto simp: extends_head_def)
qed

lemma delivery_control: "plan_delivery line lock d cont ending status handler s = (s', Inr c) \<Longrightarrow> c \<noteq> SC_Complete"
  by (auto simp: plan_delivery_def step_with_def Let_def step_bind_def step_return_def push_delivery_def split: prod.splits sum.splits if_splits)

text \<open>The action of a recipe that the header phase runs: a delivery, or the recipes of a block.\<close>

lemma block_agrees:
  fixes s :: "('h, 'x, 'l) header_state" and complete :: "'l plan_state \<times> ('x ordered_error + sequence_control)"
  assumes run: "plan_header_action pv capture fuel line None handler frame following (CA_Block (Sequence nodes trailing p)) s = (s3, y)"
    and complete: "complete = plan_complete_from pv m fuel nodes trailing state_default (core s)"
    and child: "\<And>t s' r. hs_head t = hs_head s \<Longrightarrow> hs_pending t = hs_pending s \<Longrightarrow>
        plan_headers_from pv capture fuel (Sequence nodes trailing p) 0 nodes state_default following t = (s', r) \<Longrightarrow>
        agrees pv m fuel (Sequence nodes trailing p) t (plan_complete_from pv m fuel nodes trailing state_default (core t)) s' r"
  shows "(\<exists>fs. y = Inr (Succeeded, HC_Deferred) \<and> hs_restart s3 = hs_restart s \<and> hs_frames s3 = hs_frames s @ frame # fs \<and> fs \<noteq> [] \<and>
      resume_from_frames pv m fuel fs (Sequence nodes trailing p) (core s3) = complete) \<or>
    (\<exists>c. complete = (core s3, c) \<and> y = map_sum id (\<lambda>c. (Succeeded, header_control_from c)) c \<and> c \<noteq> Inr SC_Complete \<and>
      (isl c \<or> plan_state.more s3 = plan_state.more s))"
proof -
  let ?t = "s\<lparr>hs_frames := hs_frames s @ [frame]\<rparr>"
  obtain s' r where head: "plan_headers_from pv capture fuel (Sequence nodes trailing p) 0 nodes state_default following ?t = (s', r)"
    by fastforce
  have core: "core ?t = core s" by (simp add: core_def)
  have agree: "agrees pv m fuel (Sequence nodes trailing p) ?t complete s' r"
    using child [OF _ _ head] core complete by simp
  have out: "(s3, y) = (case r of Inl e \<Rightarrow> (s', Inl e)
      | Inr c \<Rightarrow> (if c = HC_Deferred then s' else s'\<lparr>hs_frames := butlast (hs_frames s')\<rparr>, Inr (Succeeded, c)))"
    using run by (auto simp: push_frame_def pop_frame_def step_bind_def step_return_def head split: sum.splits)
  show ?thesis
  proof (cases "r = Inr HC_Deferred")
    case True
    then show ?thesis using agree out by (auto simp: agrees_def)
  next
    case False
    then obtain c where c: "complete = (core s', c)" "r = map_sum id header_control_from c"
      "isl c \<or> plan_state.more s' = plan_state.more ?t"
      using agree by (auto simp: agrees_def)
    have "core (s'\<lparr>hs_frames := butlast (hs_frames s')\<rparr>) = core s'" by (simp add: core_def)
    moreover have "plan_state.more (s'\<lparr>hs_frames := butlast (hs_frames s')\<rparr>) = plan_state.more s" if "\<not> isl c"
      using c(3) that by (cases s; cases s') auto
    ultimately show ?thesis using c(1,2) False out by (cases c) auto
  qed
qed

lemma plan_headers_Cons:
  "plan_headers_from pv capture fuel q index (n # ns) state following =
     step_bind
       (plan_statements_headers pv capture fuel (cn_preceding n) (requirements_union (requirements_from q index) following))
       (\<lambda>c. if c \<noteq> HC_Continue then step_return c
        else
         step_bind (match_on_head pv n state) (\<lambda>(matched, results).
         if matched = PM_Deferred \<or> matched = PM_True \<and> delivery_defers_header (capture \<noteq> None) (cn_action n)
         then defer_recipe q index state results following
         else
           step_bind
             (if matched = PM_True
              then plan_header_action pv capture fuel (cn_line n) (cn_lock n) (handler_follows ns)
                     \<lparr>cf_recipe_index = index, cf_state = state, cf_condition_results = [], cf_assignments_applied = True\<rparr>
                     (requirements_union (requirements_from q (Suc index)) following) (cn_action n)
              else step_return (NotAttempted, HC_Continue)) (\<lambda>(action, control).
             if control = HC_Deferred then step_return HC_Deferred
             else
               step_bind (settle_pending action) (\<lambda>_.
                 if control \<noteq> HC_Continue then step_return control
                 else plan_headers_from pv capture fuel q (Suc index) ns
                        (record_recipe (cn_control n) (matched = PM_True) action
                           (else_handled (cn_control n) state (matched = PM_True)) state) following))))"
  unfolding match_on_head_def Suc_eq_plus1 by (rule plan_headers_from.simps(2))

text \<open>A recipe that is deferred is resumed with its conditions.\<close>

lemma deferral_agrees:
  fixes s s2 :: "('h, 'x, 'l) header_state"
  assumes "drop index (cq_recipes q) = n # ns"
    and again: "match_again pv m n state results (core s2) =
        (match_on_message pv m n state (core s1) :: 'l plan_state \<times> ('x ordered_error + bool))"
    and more: "plan_state.more s2 = plan_state.more s"
    and run: "defer_recipe q index state results following s2 = (s', r)"
  shows "agrees pv m fuel q s
    (step_bind (match_on_message pv m n state) (\<lambda>matched.
       step_bind (run_action pv m fuel n ns matched) (after_action pv m fuel n ns (cq_trailing q) state matched)) (core s1)) s' r"
proof -
  let ?f = "\<lparr>cf_recipe_index = index, cf_state = state, cf_condition_results = results, cf_assignments_applied = True\<rparr>"
  have s': "core s' = core s2" "hs_frames s' = hs_frames s @ [?f]" "hs_restart s' = hs_restart s" "r = Inr HC_Deferred"
    using run more_fields [OF more]
    by (auto simp: defer_recipe_def push_frame_def set_requirements_def step_bind_def step_return_def core_def)
  show ?thesis
    using step_bind_same [where f = "match_again pv m n state results" and s = "core s2"
        and g = "match_on_message pv m n state" and t = "core s1", OF again]
    by (auto simp: agrees_def s' resume_here [OF assms(1) refl] simp del: resume_from_frames.simps)
qed

lemma action_agrees:
  fixes s :: "('h, 'x, 'l) header_state" and complete :: "'l plan_state \<times> ('x ordered_error + sequence_control)"
  assumes run: "plan_header_action pv capture fuel line lock handler frame following a s = (s3, y)"
    and complete: "complete = plan_action pv m fuel line lock handler a (core s)"
    and ok: "unordered_action lock a" "\<not> delivery_defers_header (capture \<noteq> None) a" "extends_head m (hs_head s)"
    and child: "\<And>nodes trailing p t s' r. a = CA_Block (Sequence nodes trailing p) \<Longrightarrow> hs_head t = hs_head s \<Longrightarrow> hs_pending t = hs_pending s \<Longrightarrow>
        plan_headers_from pv capture fuel (Sequence nodes trailing p) 0 nodes state_default following t = (s', r) \<Longrightarrow>
        agrees pv m fuel (Sequence nodes trailing p) t (plan_complete_from pv m fuel nodes trailing state_default (core t)) s' r"
  shows "(\<exists>children fs. a = CA_Block children \<and> y = Inr (Succeeded, HC_Deferred) \<and> hs_restart s3 = hs_restart s \<and>
      hs_frames s3 = hs_frames s @ frame # fs \<and> fs \<noteq> [] \<and> resume_from_frames pv m fuel fs children (core s3) = complete) \<or>
    (\<exists>c. complete = (core s3, c) \<and> y = map_sum id (\<lambda>c. (Succeeded, header_control_from c)) c \<and> c \<noteq> Inr SC_Complete \<and>
      (isl c \<or> plan_state.more s3 = plan_state.more s))"
proof (cases a)
  case (CA_Deliver d cont ending)
  then obtain c where c: "complete = (core s3, c)" "y = map_sum id (\<lambda>c. (Succeeded, header_control_from c)) c"
      "plan_state.more s3 = plan_state.more s"
    using delivery_agrees [OF _ ok(3)] run complete by fastforce
  moreover have "c \<noteq> Inr SC_Complete" 
    using delivery_control [of line lock d cont ending "complete_status m" handler "core s" "core s3"] c(1) complete CA_Deliver by auto
  ultimately show ?thesis by blast
next
  case (CA_Block q)
  obtain nodes trailing p where q: "q = Sequence nodes trailing p" by (cases q)
  have lock: "lock = None" using ok(1) CA_Block by simp
  show ?thesis
    using block_agrees [OF run [unfolded CA_Block q lock], of complete m] child complete
    by (auto simp: CA_Block q lock)
qed (use ok(1,2) in auto)

lemma cn_facts:
  "static_node n \<Longrightarrow> list_all static_statement (cn_preceding n) \<and> settled (cn_conditions n) \<and> static_action (cn_action n)"
  "unordered_node n \<Longrightarrow> unordered_action (cn_lock n) (cn_action n)"
  by (cases n; simp)+

lemma block_size:
  assumes "cn_action n = CA_Block (Sequence nodes trailing p)"
  shows "size_list size nodes < size_list size (n # ns)"
  using size_cn_action [of n] assms by simp

lemma agrees_more:
  assumes "agrees pv m fuel q s1 complete s' r" and "plan_state.more s1 = plan_state.more s"
  shows "agrees pv m fuel q s complete s' r"
  using assms more_fields [OF assms(2)] by (auto simp: agrees_def split: if_splits)

lemma settled_pending: "hs_pending s = None \<Longrightarrow> settle_pending action s = (s, Inr ())"
  by (simp add: settle_pending_def)

text \<open>A recipe that matches on the header and is not deferred.\<close>

lemma selected_agrees:
  fixes s :: "('h, 'x, 'l) header_state"
  assumes drop: "drop index (cq_recipes q) = n # ns"
    and "unordered_action (cn_lock n) (cn_action n)" "\<not> delivery_defers_header (capture \<noteq> None) (cn_action n)"
    and ext: "extends_head m (hs_head s)" and pending: "hs_pending s = None"
    and child: "\<And>nodes trailing p t s' r. cn_action n = CA_Block (Sequence nodes trailing p) \<Longrightarrow> hs_head t = hs_head s \<Longrightarrow> hs_pending t = hs_pending s \<Longrightarrow>
        plan_headers_from pv capture fuel (Sequence nodes trailing p) 0 nodes state_default (requirements_union (requirements_from q (Suc index)) following) t = (s', r) \<Longrightarrow>
        agrees pv m fuel (Sequence nodes trailing p) t (plan_complete_from pv m fuel nodes trailing state_default (core t)) s' r"
    and rest: "\<And>state t s' r. hs_head t = hs_head s \<Longrightarrow> hs_pending t = None \<Longrightarrow>
        plan_headers_from pv capture fuel q (Suc index) ns state following t = (s', r) \<Longrightarrow>
        agrees pv m fuel q t (plan_complete_from pv m fuel ns (cq_trailing q) state (core t)) s' r"
    and run: "step_bind
        (plan_header_action pv capture fuel (cn_line n) (cn_lock n) (handler_follows ns)
           \<lparr>cf_recipe_index = index, cf_state = state, cf_condition_results = [], cf_assignments_applied = True\<rparr>
           (requirements_union (requirements_from q (Suc index)) following) (cn_action n)) (\<lambda>(action, control).
        if control = HC_Deferred then step_return HC_Deferred
        else
          step_bind (settle_pending action) (\<lambda>_.
            if control \<noteq> HC_Continue then step_return control
            else plan_headers_from pv capture fuel q (Suc index) ns
                   (record_recipe (cn_control n) True action (else_handled (cn_control n) state True) state) following)) s = (s', r)"
  shows "agrees pv m fuel q s
    (step_bind (run_action pv m fuel n ns True) (after_action pv m fuel n ns (cq_trailing q) state True) (core s)) s' r"
proof -
  let ?f = "\<lparr>cf_recipe_index = index, cf_state = state, cf_condition_results = [], cf_assignments_applied = True\<rparr>"
  obtain s3 y where act: "plan_header_action pv capture fuel (cn_line n) (cn_lock n) (handler_follows ns) ?f
      (requirements_union (requirements_from q (Suc index)) following) (cn_action n) s = (s3, y)" by fastforce
  define complete :: "'l plan_state \<times> ('x ordered_error + sequence_control)"
    where "complete = plan_action pv m fuel (cn_line n) (cn_lock n) (handler_follows ns) (cn_action n) (core s)"
  have action: "run_action pv m fuel n ns True (core s) = complete"
    by (simp add: run_action_def complete_def)
  have "(\<exists>children fs. cn_action n = CA_Block children \<and> y = Inr (Succeeded, HC_Deferred) \<and> hs_restart s3 = hs_restart s \<and>
      hs_frames s3 = hs_frames s @ ?f # fs \<and> fs \<noteq> [] \<and> resume_from_frames pv m fuel fs children (core s3) = complete) \<or>
    (\<exists>c. complete = (core s3, c) \<and> y = map_sum id (\<lambda>c. (Succeeded, header_control_from c)) c \<and>
      c \<noteq> Inr SC_Complete \<and> (isl c \<or> plan_state.more s3 = plan_state.more s))"
    by (rule action_agrees [OF act complete_def assms(2,3) ext]) (rule child)
  then consider
    (deferred) children fs where "cn_action n = CA_Block children" "y = Inr (Succeeded, HC_Deferred)" "hs_restart s3 = hs_restart s"
      "hs_frames s3 = hs_frames s @ ?f # fs" "fs \<noteq> []"
      "resume_from_frames pv m fuel fs children (core s3) = complete"
  | (same) c where "complete = (core s3, c)"
      "y = map_sum id (\<lambda>c. (Succeeded, header_control_from c)) c" "c \<noteq> Inr SC_Complete"
      "isl c \<or> plan_state.more s3 = plan_state.more s"
    by blast
  then show ?thesis
  proof cases
    case deferred
    have "s' = s3" "r = Inr HC_Deferred" using run by (simp_all add: step_bind_def act deferred(2) step_return_def)
    then show ?thesis
      using deferred(3-5) step_bind_same [where f = "resume_from_frames pv m fuel fs children" and s = "core s3"
          and g = "run_action pv m fuel n ns True" and t = "core s", OF deferred(6) [folded action]]
      by (auto simp: agrees_def resume_inside [OF drop deferred(5,1) refl] simp del: resume_from_frames.simps)
  next
    case same
    show ?thesis
    proof (cases c)
      case (Inl e)
      have "s' = s3" "r = Inl e" using run by (simp_all add: step_bind_def act same(2) Inl)
      then show ?thesis by (auto simp: step_bind_def action same(1) Inl intro!: agrees_same)
    next
      case (Inr control)
      have more: "plan_state.more s3 = plan_state.more s" using same(4) Inr by simp
      note fields = more_fields [OF more]
      have go: "(if header_control_from control \<noteq> HC_Continue then step_return (header_control_from control)
          else plan_headers_from pv capture fuel q (Suc index) ns
                 (record_recipe (cn_control n) True Succeeded (else_handled (cn_control n) state True) state) following) s3 = (s', r)"
        using run same(3) pending
        by (cases control) (simp_all add: step_bind_def act same(2) Inr settled_pending fields)
      show ?thesis
      proof (cases "control = SC_Continue")
        case True
        then show ?thesis
          using rest [OF fields(1) _ go [simplified True, simplified]] pending fields(3)
          by (simp add: step_bind_def action same(1) Inr after_action_def agrees_more [OF _ more])
      next
        case False
        then have "header_control_from control \<noteq> HC_Continue" by (cases control) auto
        then have "s' = s3" "r = Inr (header_control_from control)" using go by (simp_all add: step_return_def)
        then show ?thesis
          using False same(3) more by (auto simp: step_bind_def action same(1) Inr after_action_def step_return_def intro!: agrees_same)
      qed
    qed
  qed
qed

text \<open>A recipe after its statements.\<close>

lemma recipe_agrees:
  fixes s :: "('h, 'x, 'l) header_state"
  assumes drop: "drop index (cq_recipes q) = n # ns"
    and settled: "settled (cn_conditions n)" and unordered: "unordered_action (cn_lock n) (cn_action n)"
    and ext: "extends_head m (hs_head s)" and pending: "hs_pending s = None"
    and child: "\<And>nodes trailing p t s' r following. cn_action n = CA_Block (Sequence nodes trailing p) \<Longrightarrow> hs_head t = hs_head s \<Longrightarrow> hs_pending t = None \<Longrightarrow>
        plan_headers_from pv capture fuel (Sequence nodes trailing p) 0 nodes state_default following t = (s', r) \<Longrightarrow>
        agrees pv m fuel (Sequence nodes trailing p) t (plan_complete_from pv m fuel nodes trailing state_default (core t)) s' r"
    and rest: "\<And>state t s' r. hs_head t = hs_head s \<Longrightarrow> hs_pending t = None \<Longrightarrow>
        plan_headers_from pv capture fuel q (Suc index) ns state following t = (s', r) \<Longrightarrow>
        agrees pv m fuel q t (plan_complete_from pv m fuel ns (cq_trailing q) state (core t)) s' r"
    and first: "plan_statements_headers pv capture fuel (cn_preceding n) (requirements_union (requirements_from q index) following) s0 =
        (s, Inr HC_Continue)"
    and run: "plan_headers_from pv capture fuel q index (n # ns) state following s0 = (s', r)"
  shows "agrees pv m fuel q s
    (step_bind (match_on_message pv m n state) (\<lambda>matched.
       step_bind (run_action pv m fuel n ns matched) (after_action pv m fuel n ns (cq_trailing q) state matched)) (core s)) s' r"
proof -
  obtain s2 x where match: "match_on_head pv n state s = (s2, x)" by fastforce
  note agree = match_agrees [OF settled ext match]
  note fields = more_fields [OF agree(1)]
  note run = run [unfolded plan_headers_Cons step_bind_def
      [of "plan_statements_headers pv capture fuel (cn_preceding n) (requirements_union (requirements_from q index) following)"]
      first, simplified]
  show ?thesis
  proof (cases x)
    case (Inl e)
    have "s' = s2" "r = Inl e" using run by (simp_all add: step_bind_def match Inl)
    then show ?thesis by (auto simp: step_bind_def agree(2) [OF Inl] intro!: agrees_same)
  next
    case (Inr pair)
    obtain d rs where pair: "pair = (d, rs)" by fastforce
    note x = Inr [unfolded pair]
    show ?thesis
    proof (cases "d = PM_Deferred \<or> d = PM_True \<and> delivery_defers_header (capture \<noteq> None) (cn_action n)")
      case True
      then have "defer_recipe q index state rs following s2 = (s', r)" "d \<noteq> PM_False"
        using run by (auto simp: step_bind_def match x)
      then show ?thesis using deferral_agrees [OF drop agree(4) [OF x] agree(1)] by blast
    next
      case False
      have msg: "match_on_message pv m n state (core s) = (core s2, Inr (d = PM_True))" using agree(3) [OF x] False by simp
      show ?thesis
      proof (cases "d = PM_True")
        case True
        have "agrees pv m fuel q s2
            (step_bind (run_action pv m fuel n ns True) (after_action pv m fuel n ns (cq_trailing q) state True) (core s2)) s' r"
        proof (rule selected_agrees [where capture = capture and following = following, OF drop unordered], goal_cases)
          case (4 nodes trailing p t s' r)
          then show ?case using child pending fields by simp
        next
          case (5 state t s' r)
          then show ?case using rest fields by simp
        next
          case 6
          show ?case using run False True by (simp add: step_bind_def [of "match_on_head pv n state"] match x cong: if_cong)
        qed (use False True ext pending fields in simp_all)
        then show ?thesis using True by (simp add: step_bind_def [of "match_on_message pv m n state"] msg agrees_more [OF _ agree(1)])
      next
        case f: False
        have "plan_headers_from pv capture fuel q (Suc index) ns
            (record_recipe (cn_control n) False NotAttempted (else_handled (cn_control n) state False) state) following s2 = (s', r)"
          using run False f by (auto simp: step_bind_def match x settle_pending_def step_return_def)
        from rest [OF fields(1) _ this] show ?thesis
          using f pending fields(3)
          by (simp add: step_bind_def msg run_action_def step_return_def after_action_def agrees_more [OF _ agree(1)])
      qed
    qed
  qed
qed

text \<open>A sequence, from one of its recipes on.\<close>

lemma headers_agree:
  fixes s :: "('h, 'x, 'l) header_state"
  assumes "extends_head m (hs_head s)" and "hs_pending s = None" and "drop index (cq_recipes q) = ns"
    and "list_all static_node ns" and "list_all unordered_node ns" and "list_all static_statement (cq_trailing q)"
    and "plan_headers_from pv capture fuel q index ns state following s = (s', r)"
  shows "agrees pv m fuel q s (plan_complete_from pv m fuel ns (cq_trailing q) state (core s)) s' r"
  using assms
proof (induction "size_list size ns" arbitrary: q index ns state following s s' r rule: less_induct)
  case less
  note prems = less.prems
  show ?case
  proof (cases ns)
    case Nil
    obtain c where c: "plan_statements_complete pv m fuel (cq_trailing q) (core s) = (core s', c)"
      "r = map_sum id header_control_from c" "c \<noteq> Inr SC_Complete" "plan_state.more s' = plan_state.more s"
      using static_statements [OF prems(6)] prems(7) by (fastforce simp: Nil plan_headers_from.simps(1))
    then show ?thesis by (auto simp: Nil plan_complete_from.simps(1) intro!: agrees_same)
  next
    case (Cons n rest)
    have node: "list_all static_statement (cn_preceding n)" "settled (cn_conditions n)" "static_action (cn_action n)"
      "unordered_action (cn_lock n) (cn_action n)" "list_all static_node rest" "list_all unordered_node rest"
      using prems(4,5) cn_facts by (auto simp: Cons)
    note drop = prems(3) [unfolded Cons]
    note run = prems(7) [unfolded Cons]
    obtain s1 r1 where first: "plan_statements_headers pv capture fuel (cn_preceding n)
        (requirements_union (requirements_from q index) following) s = (s1, r1)" by fastforce
    obtain c where c: "plan_statements_complete pv m fuel (cn_preceding n) (core s) = (core s1, c)"
      "r1 = map_sum id header_control_from c" "c \<noteq> Inr SC_Complete" "plan_state.more s1 = plan_state.more s"
      using static_statements [OF node(1) first] by blast
    note fields = more_fields [OF c(4)]
    show ?thesis
    proof (cases "c = Inr SC_Continue")
      case True
      have "agrees pv m fuel q s1
        (step_bind (match_on_message pv m n state) (\<lambda>matched.
           step_bind (run_action pv m fuel n rest matched) (after_action pv m fuel n rest (cq_trailing q) state matched)) (core s1)) s' r"
      proof (rule recipe_agrees [OF drop node(2,4) _ _ _ _ first [unfolded c(2) True, simplified] run])
        fix nodes trailing p t s' r following
        assume "cn_action n = CA_Block (Sequence nodes trailing p)" "hs_head t = hs_head s1" "hs_pending t = None"
          "plan_headers_from pv capture fuel (Sequence nodes trailing p) 0 nodes state_default following t = (s', r)"
        then show "agrees pv m fuel (Sequence nodes trailing p) t (plan_complete_from pv m fuel nodes trailing state_default (core t)) s' r"
          using less.hyps [of nodes t 0 "Sequence nodes trailing p"] block_size [of n nodes trailing p rest] prems(1) fields node(3,4)
          by (simp add: Cons)
      next
        fix state t s' r
        assume "hs_head t = hs_head s1" "hs_pending t = None" "plan_headers_from pv capture fuel q (Suc index) rest state following t = (s', r)"
        then show "agrees pv m fuel q t (plan_complete_from pv m fuel rest (cq_trailing q) state (core t)) s' r"
          using less.hyps [of rest t "Suc index" q] prems(1,6) fields node(5,6) drop_Cons_facts(3) [OF drop] by (simp add: Cons)
      qed (use prems(1,2) fields in simp_all)
      then show ?thesis
        using True by (simp add: Cons plan_complete_Cons step_bind_def [of "plan_statements_complete pv m fuel (cn_preceding n)"] c(1) agrees_more [OF _ c(4)])
    next
      case False
      then have "c = Inr SC_Continue \<longleftrightarrow> False" "r1 \<noteq> Inr HC_Continue"
        using c(2,3) by (auto simp: map_sum_def split: sum.splits) (metis header_control.distinct header_control_from.simps sequence_control.exhaust)
      then have "s' = s1" "r = r1" "plan_complete_from pv m fuel ns (cq_trailing q) state (core s) = (core s1, c)"
        using run c by (cases c; auto simp: Cons plan_headers_Cons plan_complete_Cons step_bind_def first step_return_def)+
      then show ?thesis using c by (auto intro!: agrees_same)
    qed
  qed
qed

section \<open>Files\<close>

text \<open>Without statements that enter files, the header phase leaves the state of files as it was.\<close>

definition same_files :: "('l, 'z) plan_state_scheme \<Rightarrow> ('l, 'z) plan_state_scheme \<Rightarrow> bool" where
  "same_files s s' \<longleftrightarrow> ps_rc s' = ps_rc s \<and> ps_rc_state s' = ps_rc_state s"

interpretation files: step_order same_files
  by unfold_locales (auto simp: same_files_def)

named_theorems files_intro

lemmas [files_intro] = files.keeps_return files.keeps_fail files.keeps_with files.keeps_bind

lemma files_steps [files_intro]:
  "keeps same_files (plan_lift r)" "keeps same_files (plan_fail e)" "keeps same_files (plan_runtime f)"
  "keeps same_files (push_delivery d)" "keeps same_files host_elsewhere"
  "keeps same_files (push_frame g)" "keeps same_files pop_frame" "keeps same_files (set_requirements q)"
  "keeps same_files (settle_pending action)"
  by (auto simp: keeps_def same_files_def plan_lift_def plan_fail_def step_fail_def plan_runtime_def push_delivery_def host_elsewhere_def
      push_frame_def pop_frame_def set_requirements_def settle_pending_def split: prod.splits)

lemma files_if [files_intro]: "keeps R a \<Longrightarrow> keeps R b \<Longrightarrow> keeps R (if P then a else b)"
  by simp

lemma files_split [files_intro]: "(\<And>x y. keeps R (f x y)) \<Longrightarrow> keeps R (case p of (x, y) \<Rightarrow> f x y)"
  by (cases p) simp

lemma files_capture [files_intro]: "keeps same_files (header_capture capture line action options)"
proof -
  have run: "keeps same_files (\<lambda>s. case run x (head_as_bytes (hs_head s)) y z limit (hs_host s, ps_runtime s) of
      ((h, rv), r) \<Rightarrow>
        (let s1 = s\<lparr>hs_host := h, ps_runtime := rv\<rparr>
         in case r of
              Inl (Recoverable e) \<Rightarrow> (s1\<lparr>hs_pending := Some e\<rparr>, Inr (Failed, HC_Continue))
            | Inl (Fatal e) \<Rightarrow> (s1, Inl (Err_Delivery e))
            | Inr out \<Rightarrow>
                (case validate_captured_value out limit (ca_name action) StripOne of
                   Inl e \<Rightarrow> (s1, Inl (Err_Evaluation e))
                 | Inr v \<Rightarrow>
                     (s1\<lparr>ps_runtime := rv_set_bytes (ca_name action) v rv, hs_pending := None\<rparr>,
                      Inr (Succeeded, HC_Continue)))))" for run x y z limit
    by (auto simp: keeps_def same_files_def Let_def split: prod.splits sum.splits attempt_error.splits)
  show ?thesis
    unfolding header_capture_def by (cases capture) (auto intro!: files_intro run)
qed

lemma files_edit [files_intro]: "keeps same_files (edit_head line operations)"
  unfolding edit_head_def
  by (intro files_intro, simp split: option.split sum.split, intro conjI impI allI)
    (auto simp: keeps_def same_files_def step_fail_def plan_fail_def)

lemma files_delivery [files_intro]:
  "keeps same_files (plan_delivery line lock d cont ending status handler)" "keeps same_files (head_delivery line lock d cont ending handler)"
  unfolding plan_delivery_def head_delivery_def Let_def by (intro files_intro)+

lemma files_statements [files_intro]:
  "list_all static_statement ss \<Longrightarrow> keeps same_files (plan_statements_headers pv capture fuel ss following)"
proof (induction ss)
  case (Cons c ss)
  then show ?case by (cases c) (auto intro!: files_intro)
qed (auto intro: files_intro)

lemma files_headers:
  "list_all static_node ns \<Longrightarrow> list_all static_statement (cq_trailing q) \<Longrightarrow>
   keeps same_files (plan_headers_from pv capture fuel q index ns state following)"
proof (induction "size_list size ns" arbitrary: q index ns state following rule: less_induct)
  case less
  show ?case
  proof (cases ns)
    case Nil
    then show ?thesis using less.prems by (auto simp: plan_headers_from.simps(1) intro: files_intro)
  next
    case (Cons n rest)
    have node: "list_all static_statement (cn_preceding n)" "static_action (cn_action n)" "list_all static_node rest"
      using less.prems(1) cn_facts by (auto simp: Cons)
    have tail: "keeps same_files (plan_headers_from pv capture fuel q (index + 1) rest state following)" for state
      using less.hyps [of rest q] less.prems(2) node(3) by (simp add: Cons)
    have action: "keeps same_files (plan_header_action pv capture fuel (cn_line n) (cn_lock n) (handler_follows rest) frame follow (cn_action n))"
      for frame follow
    proof (cases "cn_action n")
      case (CA_Block block)
      obtain nodes trailing p where q: "block = Sequence nodes trailing p" by (cases block)
      have "keeps same_files (plan_headers_from pv capture fuel block 0 nodes state_default follow)"
        using less.hyps [of nodes block] block_size [of n nodes trailing p rest] node(2) CA_Block by (simp add: Cons q)
      then show ?thesis by (auto simp: CA_Block q intro!: files_intro)
    qed (auto intro!: files_intro)
    show ?thesis
      unfolding Cons plan_headers_from.simps(2) defer_recipe_def by (intro files_intro node(1) action tail)
  qed
qed

section \<open>Plans that need no order\<close>

lemma properties_ordered [simp]:
  "pp_ordered (properties_union a b) \<longleftrightarrow> pp_ordered a \<or> pp_ordered b"
  "pp_preemptive (properties_union a b) \<longleftrightarrow> pp_preemptive a \<or> pp_preemptive b"
  "\<not> pp_ordered properties_none" "\<not> pp_preemptive properties_none"
  by (simp_all add: properties_union_def properties_none_def)

lemma fold_ordered:
  "pp_ordered (fold (\<lambda>x p. properties_union p (f x)) xs p) \<longleftrightarrow> pp_ordered p \<or> (\<exists>x \<in> set xs. pp_ordered (f x))"
  "pp_preemptive (fold (\<lambda>x p. properties_union p (f x)) xs p) \<longleftrightarrow> pp_preemptive p \<or> (\<exists>x \<in> set xs. pp_preemptive (f x))"
  by (induction xs arbitrary: p) auto

lemma preemptive_part:
  "pp_preemptive (condition_properties c) \<Longrightarrow> pp_ordered (condition_properties c)"
  "pp_preemptive (statement_properties s) \<Longrightarrow> pp_ordered (statement_properties s)"
  by (auto simp: condition_properties_def split: prod.splits) (cases s; auto simp: ordered_properties_def)

lemma adjacent_tl: "adjacent (\<lambda>r s. P s \<and> Q r) xs \<Longrightarrow> list_ex P (tl xs)"
  by (induction "\<lambda>r s. P s \<and> Q r" xs rule: adjacent.induct) auto

lemma make_node_ordered:
  assumes "\<not> pp_ordered (cn_properties (make_node line options lock conditions preceding action))"
    and "\<not> pp_ordered (action_properties action) \<Longrightarrow> \<not> pp_preemptive (action_properties action) \<and> unordered_action None action"
  shows "\<not> pp_preemptive (cn_properties (make_node line options lock conditions preceding action)) \<and>
    unordered_node (make_node line options lock conditions preceding action)"
  using assms preemptive_part
  by (auto simp: make_node_def Let_def fold_ordered statements_properties_def split: if_splits)

lemma make_sequence_ordered:
  assumes "\<not> pp_ordered (cq_properties (make_sequence nodes trailing))"
    and "\<And>n. n \<in> set nodes \<Longrightarrow> \<not> pp_ordered (cn_properties n) \<Longrightarrow> \<not> pp_preemptive (cn_properties n) \<and> unordered_node n"
  shows "\<not> pp_preemptive (cq_properties (make_sequence nodes trailing)) \<and> list_all unordered_node nodes"
  using assms preemptive_part(2)
    adjacent_tl [of "\<lambda>r. follows_result (cn_control r)" "\<lambda>r. \<not> header_action_result_is_known (cn_action r)" nodes]
  by (auto simp: make_sequence_def Let_def fold_ordered statements_properties_def list_all_iff)

lemma compiled_unordered:
  shows "compile_recipes ss preceding = (nodes, trailing) \<Longrightarrow> n \<in> set nodes \<Longrightarrow> \<not> pp_ordered (cn_properties n) \<Longrightarrow>
      \<not> pp_preemptive (cn_properties n) \<and> unordered_node n"
    and "\<not> pp_ordered (cn_properties (compile_node r preceding)) \<Longrightarrow>
      \<not> pp_preemptive (cn_properties (compile_node r preceding)) \<and> unordered_node (compile_node r preceding)"
    and "\<not> pp_ordered (action_properties (compile_action options a)) \<Longrightarrow>
      \<not> pp_preemptive (action_properties (compile_action options a)) \<and> unordered_action None (compile_action options a)"
proof (induction ss preceding and r preceding and options a arbitrary: nodes trailing n
    rule: compile_recipes_compile_node_compile_action.induct)
  case (2 r ss preceding)
  obtain nodes' trailing' where run: "compile_recipes ss [] = (nodes', trailing')" by (cases "compile_recipes ss []")
  have "nodes = compile_node r preceding # nodes'" using "2.prems"(1) by (simp add: run)
  then show ?case using "2.prems"(2,3) "2.IH"(1) [OF run, of n] "2.IH"(2) [OF run [symmetric]] by (metis set_ConsD)
next
  case (4 line action_line options lock conditions action preceding)
  then show ?case using make_node_ordered by simp
next
  case (8 options ss)
  obtain nodes trailing where run: "compile_recipes ss [] = (nodes, trailing)" by (cases "compile_recipes ss []")
  have "\<not> pp_preemptive (cq_properties (make_sequence nodes trailing)) \<and> list_all unordered_node nodes"
    by (rule make_sequence_ordered) (use 8 run in auto)
  then show ?case by (simp add: run make_sequence_def Let_def)
qed (auto split: prod.splits if_splits simp: deliver_properties_def Let_def)

section \<open>The plan of the complete message\<close>

text \<open>The reference: all of the tree, in one pass over the complete message.\<close>

definition complete_plan ::
    "'l plan_services \<Rightarrow> 'l execution_plan \<Rightarrow> complete_message \<Rightarrow> runtime_variables \<Rightarrow>
     'l plan_state \<times> ('x ordered_error + delivery_plan)" where
  "complete_plan pv p m rv = planned (plan_complete pv m RC_FUEL (pl_root p) (plan_root_state rv fanout_default (pl_rc p)))"

text \<open>
  C3. Two phases give the plan of one: for a compiled plan that needs no ordered execution, enters no
  files at run time and has its conditions settled, take a head and a complete message that begins with it.
  When the header phase decides, complete planning makes the same deliveries and leaves the
  same variables; when it asks for the message, resuming at the frames it left gives what complete planning
  gives, deliveries, variables and errors; and when it fails, complete planning fails with the same error.
\<close>

theorem header_phase_exact:
  fixes capture :: "('h, 'x) capture_executor option" and p :: "'l execution_plan"
  assumes p: "p = compile_plan variables ss loader" and unordered: "\<not> plan_requires_ordered p"
    and static: "static_sequence (pl_root p)"
    and m: "complete_message_of input (plan_needs_full_matching p) = Some m" and ext: "extends_head m head"
  shows "case evaluate_headers pv capture p head rv h of
      (s, Inl e) \<Rightarrow> complete_plan pv p m rv = (core s, Inl e)
    | (s, Inr (Decided d)) \<Rightarrow> complete_plan pv p m rv = (core s, Inr d :: 'x ordered_error + delivery_plan)
    | (s, Inr (NeedsMessage k)) \<Rightarrow>
        resume_input pv p k input (ps_runtime s) (ps_rc_state s) = (complete_plan pv p m rv :: _ \<times> ('x ordered_error + _))
    | (s, Inr (Evaluation_Failed e)) \<Rightarrow> False"
proof -
  let ?q = "pl_root p" and ?s0 = "start_headers head rv h (pl_rc p) :: ('h, 'x, 'l) header_state"
  obtain nodes trailing where run: "compile_recipes ss (map initial_statement variables) = (nodes, trailing)" by fastforce
  have q: "?q = make_sequence nodes trailing" by (simp add: p compile_plan_def compile_sequence_def run)
  have parts: "cq_recipes ?q = nodes" "cq_trailing ?q = trailing" by (simp_all add: q make_sequence_def Let_def)
  have "\<not> pp_ordered (cq_properties (make_sequence nodes trailing))" using unordered q by (simp add: plan_requires_ordered_def)
  then have plan: "\<not> pp_preemptive (cq_properties ?q)" "list_all unordered_node nodes"
    using make_sequence_ordered [OF _ compiled_unordered(1) [OF run]] q by auto
  have stat: "list_all static_node nodes" "list_all static_statement trailing"
    using static by (simp_all add: q make_sequence_def Let_def)
  obtain s r where head: "plan_headers_from pv capture RC_FUEL ?q 0 nodes state_default requirements_none ?s0 = (s, r)" by fastforce
  define complete :: "'l plan_state \<times> ('x ordered_error + sequence_control)"
    where "complete = plan_complete pv m RC_FUEL ?q (plan_root_state rv fanout_default (pl_rc p))"
  have core0: "core ?s0 = plan_root_state rv fanout_default (pl_rc p)" by (simp add: core_def start_headers_def plan_root_state_def)
  have agree: "agrees pv m RC_FUEL ?q ?s0 complete s r"
    using headers_agree [OF _ _ _ stat(1) plan(2) _ head, of m] ext stat(2)
    by (simp add: complete_def plan_complete_def parts core0 [symmetric]) (simp add: start_headers_def)
  have ref: "complete_plan pv p m rv = planned complete" by (simp add: complete_plan_def complete_def)
  have eval: "evaluate_headers pv capture p head rv h =
      (case (s, r) of
         (s, Inl e) \<Rightarrow> (s, Inl e)
       | (s, Inr HC_Deferred) \<Rightarrow>
           (s, Inr (NeedsMessage
              \<lparr>ct_frames = hs_frames s, ct_execution = (if hs_restart s then fanout_default else ps_execution s),
               ct_runtime = (if hs_restart s then rv else ps_runtime s), ct_requirements = hs_requirements s,
               ct_restart = hs_restart s\<rparr>))
       | (s, Inr _) \<Rightarrow>
           (s, case hs_pending s of Some e \<Rightarrow> Inl (Err_Delivery e) | None \<Rightarrow> Inr (Decided (ps_execution s))))"
    using plan(1) by (simp only: evaluate_headers_def Let_def if_False head parts)
  have s0: "hs_pending ?s0 = None" "hs_restart ?s0 = False" "hs_frames ?s0 = []" "ps_rc ?s0 = rc_context_root" "ps_rc_state ?s0 = pl_rc p"
    by (simp_all add: start_headers_def)
  show ?thesis
  proof (cases "r = Inr HC_Deferred")
    case True
    have "same_files ?s0 s" using files_headers [of nodes ?q pv capture RC_FUEL 0 state_default requirements_none] stat parts head
      by (metis fst_conv keeps_def)
    then have files: "ps_rc s = rc_context_root" "ps_rc_state s = pl_rc p" by (simp_all add: same_files_def s0)
    have "core s = plan_root_state (ps_runtime s) (ps_execution s) (pl_rc p)" by (simp add: core_def plan_root_state_def files)
    then show ?thesis
      using agree True m by (auto simp: eval agrees_def s0 ref resume_input_def files)
  next
    case False
    then obtain c where c: "complete = (core s, c)" "r = map_sum id header_control_from c" "isl c \<or> plan_state.more s = plan_state.more ?s0"
      using agree by (auto simp: agrees_def)
    show ?thesis
    proof (cases c)
      case (Inl e)
      then show ?thesis using c by (simp add: eval ref planned_def)
    next
      case (Inr control)
      have "hs_pending s = None" using c(3) Inr more_fields(3) [of s ?s0] s0 by simp
      then show ?thesis using c False Inr by (cases control) (simp_all add: eval ref planned_def)
    qed
  qed
qed

text \<open>A block whose one recipe asks for the size of the message.\<close>

definition sample_options :: recipe_options where
  "sample_options =
     \<lparr>ro_condition_input = CI_Headers, ro_case_mode = Insensitive, ro_control = Independent, ro_action_input = AI_Message,
      ro_action_mode = Mode_Deliver, ro_continuation = Cont_Stop, ro_child_status = Child_Ignore,
      ro_write_errors = Write_Fail, ro_output_ending = Preserve\<rparr>"

definition sample_recipe :: "condition list \<Rightarrow> statement list \<Rightarrow> statement" where
  "sample_recipe conditions ss = St_Recipe (Recipe 1 1 sample_options None conditions (Act_Block ss))"

definition sample_plan :: "unit execution_plan" where
  "sample_plan =
     compile_plan [] [sample_recipe [] [sample_recipe [\<lparr>cd_line = 2, cd_negated = False, cd_kind = CK_LargerThan 100\<rparr>] []]] None"

definition sample_services :: "unit plan_services" where
  "sample_services =
     \<lparr>pv_engine = sample_engine, pv_reparse = (\<lambda>_ _ _. Inl (0, [])), pv_load = (\<lambda>l _ _ _. (l, Inr None))\<rparr>"

definition sample_input :: mapped_message_input where
  "sample_input = \<lparr>mi_raw = ascii ''A: b'' @ [LF, LF, 120], mi_header_len = 6, mi_matching = None\<rparr>"

lemmas sample_plan_defs = sample_plan_def compile_plan_def compile_sequence_def sample_recipe_def sample_options_def
  compile_conditions_def compile_condition_def make_node_def make_sequence_def statements_properties_def rc_state_new_def Let_def

lemma sample_plan_ok: "\<not> plan_requires_ordered sample_plan" "static_sequence (pl_root sample_plan)"
  by (simp_all add: plan_requires_ordered_def sample_plan_defs condition_properties_def is_block_def tests_size_def plain_test_def)

lemma sample_input_ok:
  "complete_message_of sample_input (plan_needs_full_matching sample_plan) = Some (Mapped (mi_raw sample_input) 6 None None)"
  "extends_head (Mapped (mi_raw sample_input) 6 None None) sample_head"
  by (simp_all add: complete_message_of_def sample_input_def matching_views_are_valid_def extends_head_def sample_head_def
      head_matching_header_def head_view_def head_len_def head_status_def)

lemma sample_plan_defers:
  "\<exists>s k. evaluate_headers sample_services None sample_plan sample_head sample_runtime () =
       (s :: (unit, unit, unit) header_state, Inr (NeedsMessage k)) \<and> length (ct_frames k) = 2"
  by (simp add: evaluate_headers_def sample_plan_defs condition_properties_def is_block_def plan_headers_from.simps start_headers_def
      step_bind_def step_return_def planning_gate_def step_with_def plan_runtime_def matches_headers_def sample_head_def head_len_def
      handler_follows_def push_frame_def defer_recipe_def set_requirements_def)

theorem header_phase_exact_witness:
  "\<exists>s k. evaluate_headers sample_services None sample_plan sample_head sample_runtime () =
       (s :: (unit, unit, unit) header_state, Inr (NeedsMessage k)) \<and> length (ct_frames k) = 2 \<and>
     resume_input sample_services sample_plan k sample_input (ps_runtime s) (ps_rc_state s) =
       (complete_plan sample_services sample_plan (Mapped (mi_raw sample_input) 6 None None) sample_runtime ::
          unit plan_state \<times> (unit ordered_error + delivery_plan))"
proof -
  obtain s k where run: "evaluate_headers sample_services None sample_plan sample_head sample_runtime () =
      (s :: (unit, unit, unit) header_state, Inr (NeedsMessage k))" "length (ct_frames k) = 2"
    using sample_plan_defers by blast
  show ?thesis
    using header_phase_exact [where capture = "None :: (unit, unit) capture_executor option" and h = "()" and pv = sample_services
        and rv = sample_runtime, OF sample_plan_def sample_plan_ok sample_input_ok] run by auto
qed

section \<open>Conditions out of order\<close>

text \<open>A condition on the body that sets \<open>MATCH1\<close>, and one on \<open>MATCH1\<close> after it.\<close>

definition stale_conditions :: "compiled_condition list" where
  "stale_conditions =
     [sample_condition (CC_BodyRegex 0), (sample_condition (CC_VariableRegex (numbered_match 1) 0))\<lparr>cc_capture_indexes := []\<rparr>]"

lemma no_match_yet: "rv_get sample_runtime (numbered_match (Suc 0)) = None"
  by (simp add: match_name_get numbered_match_names sample_runtime_def)
    (simp add: numbered_match_def MATCH_NAME_def rv_find_def runtime_default_def)

lemma stale_on_header:
  "snd (node_matches_headers sample_engine stale_conditions sample_head sample_runtime) = Inr (PM_False, [None, Some False])"
  by (simp add: stale_conditions_def sample_condition_def matches_headers_def decided_def variable_matches_def no_match_yet
      regex_matches_def sample_engine_def has_captures_def from_bool_def apply_negation_def Let_def)

lemma stale_on_message:
  "snd (node_matches_complete sample_engine (\<lambda>_ _ _. Inl (0, [])) stale_conditions (Mapped (mi_raw sample_input) 6 None None)
     sample_runtime) = Inr True"
  by (simp add: stale_conditions_def sample_condition_def matches_complete_def matches_plain_def negate_result_def on_input_def
      matching_input_def sample_input_def variable_matches_def regex_matches_def sample_engine_def has_captures_def apply_negation_def
      Let_def match_values_def marked_value_def selected_match_start_def List.map_filter_def capture_value_def capture_group_def
      match_value_def slice_def valid_utf8_def valid_utf8_ascii check_values_def checked_add_def usize_max_def MAX_MATCH_BYTES_def
      MAX_ASSIGNMENT_VALUE_LEN_def match_name_get numbered_match_names find_set_match_values)

text \<open>
  The order of conditions matters for the header phase: with a condition on the body that captures
  and a later condition on the captured variable, the header phase goes on past the first, reads the
  variable before it is set and rejects the recipe, although on the complete message both conditions match.
\<close>

lemma header_phase_reads_stale_match:
  "extends_head (Mapped (mi_raw sample_input) 6 None None) sample_head \<and>
   snd (node_matches_headers sample_engine stale_conditions sample_head sample_runtime) = Inr (PM_False, [None, Some False]) \<and>
   snd (node_matches_complete sample_engine (\<lambda>_ _ _. Inl (0, [])) stale_conditions (Mapped (mi_raw sample_input) 6 None None)
     sample_runtime) = Inr True"
  using sample_input_ok(2) stale_on_header stale_on_message by blast

end
