(* ===== verification/Plan_Total.thy ===== *)
theory Plan_Total
  imports Header_Phase "HOL-Library.Sublist"
begin

text \<open>
  Planning ends for every plan, head, message, command runner and loader: the fuel of the model is
  never used up, since entering files is bounded by the limit on transitions, in either phase.  What was
  planned before a step is still planned after it.
\<close>

section \<open>Steps that count files\<close>

abbreviation entered :: "('l, 'z) plan_state_scheme \<Rightarrow> usize" where
  "entered s \<equiv> rs_transitions (ps_rc_state s)"

definition counts :: "('l, 'z) plan_state_scheme \<Rightarrow> ('l, 'z) plan_state_scheme \<Rightarrow> bool" where
  "counts s s' \<longleftrightarrow> entered s \<le> entered s' \<and> entered s' \<le> max MAX_RC_TRANSITIONS (entered s) \<and>
     prefix (dp_deliveries (ps_execution s)) (dp_deliveries (ps_execution s')) \<and>
     (dp_original_delivered (ps_execution s) \<longrightarrow> dp_original_delivered (ps_execution s'))"

interpretation counts: step_order counts
  by unfold_locales (auto simp: counts_def max_def split: if_splits)

definition fueled :: "nat \<Rightarrow> ('l, 'z, 'x, 'a) planner \<Rightarrow> bool" where
  "fueled fuel m \<longleftrightarrow> keeps counts m \<and> (\<forall>s. MAX_RC_TRANSITIONS < fuel + entered s \<longrightarrow> ends (snd (m s)))"

lemma countsI:
  "ps_rc_state s' = ps_rc_state s \<Longrightarrow> ps_execution s' = ps_execution s \<Longrightarrow> counts s s'"
  by (simp add: counts_def)

text \<open>A step after a file was entered, and the transition counted.\<close>

definition fueled_entered :: "nat \<Rightarrow> ('l, 'z, 'x, 'a) planner \<Rightarrow> bool" where
  "fueled_entered fuel m \<longleftrightarrow> keeps counts m \<and>
     (\<forall>s. entered s \<le> MAX_RC_TRANSITIONS \<and> MAX_RC_TRANSITIONS + 1 < fuel + entered s \<longrightarrow> ends (snd (m s)))"

named_theorems fueled_intro

lemma fueledI: "(\<And>s. counts s (fst (m s))) \<Longrightarrow> (\<And>s. ends (snd (m s))) \<Longrightarrow> fueled fuel m"
  by (simp add: fueled_def keeps_def)

lemma fueled_return [fueled_intro]: "fueled fuel (step_return x)"
  by (rule fueledI) (simp_all add: step_return_def)

lemma fueled_fail [fueled_intro]: "e \<noteq> Err_Fuel \<Longrightarrow> e \<noteq> Err_Diverged \<Longrightarrow> fueled fuel (step_fail e)"
  by (rule fueledI) (simp_all add: step_fail_def)

lemma fueled_with [fueled_intro]: "(\<And>s. fueled fuel (f s)) \<Longrightarrow> fueled fuel (step_with f)"
  by (auto simp: fueled_def step_with_def keeps_def)

lemma fueled_if [fueled_intro]: "fueled fuel a \<Longrightarrow> fueled fuel b \<Longrightarrow> fueled fuel (if P then a else b)"
  by simp

lemma fueled_split [fueled_intro]: "(\<And>x y. fueled fuel (f x y)) \<Longrightarrow> fueled fuel (case p of (x, y) \<Rightarrow> f x y)"
  by (cases p) simp

lemma fueled_bind [fueled_intro]:
  assumes "fueled fuel m" "\<And>x. fueled fuel (k x)"
  shows "fueled fuel (step_bind m k)"
proof -
  have "keeps counts (step_bind m k)" using assms by (intro counts.keeps_bind) (auto simp: fueled_def)
  moreover have "ends (snd (step_bind m k s))" if fuel: "MAX_RC_TRANSITIONS < fuel + entered s" for s
  proof (cases "m s")
    case (Pair s1 r)
    have "entered s \<le> entered s1" "ends r"
      using assms(1) Pair fuel by (auto simp: fueled_def keeps_def counts_def) (metis fst_conv snd_conv)+
    then show ?thesis
      using assms(2) Pair fuel by (cases r) (auto simp: step_bind_def fueled_def)
  qed
  ultimately show ?thesis by (simp add: fueled_def)
qed

lemma fueled_lift [fueled_intro]: "fueled fuel (plan_lift r)"
  by (rule fueledI) (cases r; simp add: plan_lift_def)+

lemma fueled_steps [fueled_intro]:
  "fueled fuel (plan_fail e)" "fueled fuel (push_delivery d)" "fueled fuel host_elsewhere"
  "fueled fuel (push_frame g)" "fueled fuel pop_frame" "fueled fuel (set_requirements q)" "fueled fuel (settle_pending action)"
  by (rule fueledI; simp add: counts_def plan_fail_def step_fail_def push_delivery_def host_elsewhere_def push_frame_def
      pop_frame_def set_requirements_def settle_pending_def)+

lemma fueled_runtime [fueled_intro]: "fueled fuel (plan_runtime f)"
proof (rule fueledI)
  show "ends (snd (plan_runtime f s))" for s
    by (cases "snd (f (ps_runtime s))") (auto simp: plan_runtime_def split: prod.splits)
qed (auto simp: plan_runtime_def split: prod.splits intro!: countsI)

lemma fueled_defer [fueled_intro]:
  "fueled fuel (defer_restart f)" "fueled fuel (defer_recipe q index state results following)"
  unfolding defer_recipe_def by (rule fueledI; simp add: countsI defer_restart_def) (intro fueled_intro)

lemma fueled_capture [fueled_intro]: "fueled fuel (header_capture capture line action options)"
proof (rule fueledI)
  show "counts s (fst (header_capture capture line action options s))" for s
    by (cases "active_command_value_limit (ps_runtime s) (ca_target action) (ca_line action)")
      (auto simp: header_capture_def step_bind_def step_with_def plan_lift_def plan_fail_def step_fail_def Let_def
        split: option.splits prod.splits sum.splits attempt_error.splits intro!: countsI)
  show "ends (snd (header_capture capture line action options s))" for s
    by (cases "active_command_value_limit (ps_runtime s) (ca_target action) (ca_line action)")
      (auto simp: header_capture_def step_bind_def step_with_def plan_lift_def plan_fail_def step_fail_def Let_def
        split: option.splits prod.splits sum.splits attempt_error.splits)
qed

lemma fueled_edit [fueled_intro]: "fueled fuel (edit_head line operations)"
proof (rule fueledI)
  show "counts s (fst (edit_head line operations s))" for s
    by (cases "header_action_resolve_with operations (rv_get (ps_runtime s))")
      (auto simp: edit_head_def step_bind_def step_with_def plan_lift_def plan_fail_def step_fail_def
        split: option.splits prod.splits sum.splits intro!: countsI)
  show "ends (snd (edit_head line operations s))" for s
    by (cases "header_action_resolve_with operations (rv_get (ps_runtime s))")
      (auto simp: header_action_returns edit_head_def step_bind_def step_with_def plan_lift_def plan_fail_def step_fail_def
        split: option.splits prod.splits sum.splits)
qed

lemma fueled_delivery [fueled_intro]:
  "fueled fuel (plan_delivery line lock d cont ending status handler)" "fueled fuel (head_delivery line lock d cont ending handler)"
  unfolding plan_delivery_def head_delivery_def Let_def by (intro fueled_intro)+

lemma fueled_statement [fueled_intro]: "fueled fuel (plan_statement c)"
  by (cases c) (auto intro!: fueled_intro)

section \<open>Files\<close>

lemma plan_enter_counts:
  assumes "plan_enter pv e statement s = (s1, r)"
  shows "counts s s1" "ends r" "r = Inr x \<Longrightarrow> entered s1 = entered s + 1 \<and> entered s1 \<le> MAX_RC_TRANSITIONS"
proof -
  obtain st q where run: "enter_runtime_rc (pv_load pv) e statement (ps_runtime s) (ps_rc s) (ps_rc_state s) = (st, q)" by fastforce
  have s1: "s1 = s\<lparr>ps_rc_state := st\<rparr>" "r = map_sum Err_Evaluation id q" using assms by (simp_all add: plan_enter_def run)
  have st: "rs_transitions st = (if entered s < MAX_RC_TRANSITIONS then entered s + 1 else entered s)"
    and full: "entered s \<ge> MAX_RC_TRANSITIONS \<Longrightarrow> \<exists>err. q = Inl err"
    using enter_runtime_rc_transitions [where load = "pv_load pv" and e = e and statement = statement and rv = "ps_runtime s"
        and ctx = "ps_rc s" and st = "ps_rc_state s"] run by auto
  show "counts s s1" using st by (simp add: s1(1) counts_def max_def)
  show "ends r" by (cases q) (simp_all add: s1(2))
  show "entered s1 = entered s + 1 \<and> entered s1 \<le> MAX_RC_TRANSITIONS" if "r = Inr x"
    using full st that by (cases "entered s < MAX_RC_TRANSITIONS") (auto simp: s1)
qed

lemma fueled_enter:
  fixes k :: "entered_rc \<Rightarrow> ('l, 'z, 'x, 'a) planner"
  assumes "\<And>b. fueled fuel (k (Enter_Nothing b))" and "\<And>q path child. fueled_entered fuel (k (Enter_Sequence q path child))"
  shows "fueled fuel (step_bind (plan_enter pv e statement) k)"
proof -
  have "counts s (fst (step_bind (plan_enter pv e statement) k s)) \<and>
      (MAX_RC_TRANSITIONS < fuel + entered s \<longrightarrow> ends (snd (step_bind (plan_enter pv e statement) k s)))" for s
  proof -
    obtain s1 and r :: "'x ordered_error + entered_rc" where run: "plan_enter pv e statement s = (s1, r)" by fastforce
    note enter = plan_enter_counts [OF run]
    show ?thesis
    proof (cases r)
      case (Inr x)
      have "counts s1 (fst (k x s1))" "MAX_RC_TRANSITIONS + 1 < fuel + entered s1 \<longrightarrow> ends (snd (k x s1))"
        using assms enter(3) [OF Inr] by (cases x; force simp: fueled_def fueled_entered_def keeps_def)+
      then show ?thesis using enter(1) enter(3) [OF Inr] counts.trans by (auto simp: step_bind_def run Inr)
    qed (use enter in \<open>simp add: step_bind_def run\<close>)
  qed
  then show ?thesis by (simp add: fueled_def keeps_def)
qed

lemma fueled_entered_bind:
  assumes "fueled_entered fuel m" "\<And>x. fueled fuel (k x)"
  shows "fueled_entered fuel (step_bind m k)"
proof -
  have "keeps counts (step_bind m k)" using assms by (intro counts.keeps_bind) (auto simp: fueled_def fueled_entered_def)
  moreover have "ends (snd (step_bind m k s))"
    if fuel: "entered s \<le> MAX_RC_TRANSITIONS" "MAX_RC_TRANSITIONS + 1 < fuel + entered s" for s
  proof (cases "m s")
    case (Pair s1 r)
    have "entered s \<le> entered s1" "ends r"
      using assms(1) Pair fuel by (auto simp: fueled_entered_def keeps_def counts_def) (metis fst_conv snd_conv)+
    then show ?thesis
      using assms(2) Pair fuel by (cases r) (auto simp: step_bind_def fueled_def)
  qed
  ultimately show ?thesis by (simp add: fueled_entered_def)
qed

lemma fueled_is_entered: "fueled fuel m \<Longrightarrow> fueled_entered fuel m"
  by (auto simp: fueled_def fueled_entered_def)

lemma fueled_entered_restart: "fueled_entered fuel (defer_restart f)"
  by (intro fueled_is_entered fueled_defer)

lemma fueled_entered_if: "fueled_entered fuel a \<Longrightarrow> fueled_entered fuel b \<Longrightarrow> fueled_entered fuel (if P then a else b)"
  by simp

lemma fueled_runtime_rc:
  assumes "fueled fuel m"
  shows "fueled_entered (Suc fuel) (plan_runtime_rc path child m)"
proof -
  have "counts s (fst (plan_runtime_rc path child m s)) \<and>
      (MAX_RC_TRANSITIONS < fuel + entered s \<longrightarrow> ends (snd (plan_runtime_rc path child m s)))" for s
  proof -
    define b where "b = s\<lparr>ps_runtime := fst (replace_current_rc_file (Some path) (ps_runtime s)), ps_rc := child\<rparr>"
    obtain s1 r where run: "m b = (s1, r)" by fastforce
    have "counts b s1" "MAX_RC_TRANSITIONS < fuel + entered b \<longrightarrow> ends r"
      using assms run by (auto simp: fueled_def keeps_def) (metis fst_conv snd_conv)+
    then show ?thesis using run by (auto simp: plan_runtime_rc_def b_def counts_def split: prod.splits)
  qed
  then show ?thesis by (simp add: fueled_entered_def keeps_def)
qed

section \<open>Complete planning\<close>

lemma fueled_statements_complete:
  assumes files: "\<And>q path child. fueled_entered fuel (plan_entered_complete pv m fuel q path child :: ('l, 'z, 'x, sequence_control) planner)"
  shows "fueled fuel (plan_statements_complete pv m fuel ss :: ('l, 'z, 'x, sequence_control) planner)"
proof (induction ss)
  case (Cons c ss)
  show ?case
  proof (cases c)
    case (CS_Include e)
    show ?thesis
      unfolding CS_Include plan_statements_complete.simps
      by (rule fueled_enter) (simp_all, auto intro!: Cons.IH fueled_entered_bind files fueled_intro)
  next
    case (CS_Switch e)
    show ?thesis
      unfolding CS_Switch plan_statements_complete.simps
      by (rule fueled_enter) (simp_all, auto intro!: Cons.IH fueled_entered_bind files fueled_intro)
  qed (use Cons.IH in \<open>auto intro!: fueled_intro\<close>)
qed (simp add: fueled_return)

lemma fueled_nodes_complete:
  assumes statements: "\<And>ss. fueled fuel (plan_statements_complete pv m fuel ss :: ('l, 'z, 'x, sequence_control) planner)"
    and actions: "\<And>n line lock handler. n \<in> set nodes \<Longrightarrow> fueled fuel (plan_action pv m fuel line lock handler (cn_action n) :: ('l, 'z, 'x, sequence_control) planner)"
  shows "fueled fuel (plan_complete_from pv m fuel nodes trailing state :: ('l, 'z, 'x, sequence_control) planner)"
  using actions
proof (induction nodes arbitrary: state)
  case (Cons n ns)
  have "fueled fuel (plan_complete_from pv m fuel ns trailing state :: ('l, 'z, 'x, sequence_control) planner)" for state
    by (rule Cons.IH [OF Cons.prems]) simp
  moreover have "fueled fuel (plan_action pv m fuel line lock handler (cn_action n) :: ('l, 'z, 'x, sequence_control) planner)" for line lock handler
    by (rule Cons.prems) simp
  ultimately show ?case unfolding plan_complete_from.simps by (intro fueled_intro statements)
qed (simp add: plan_complete_from.simps statements)

lemma fueled_actions_complete:
  assumes "\<And>ss. fueled fuel (plan_statements_complete pv m fuel ss :: ('l, 'z, 'x, sequence_control) planner)"
  shows "\<forall>state. fueled fuel (plan_complete_from pv m fuel (cq_recipes q) (cq_trailing q) state :: ('l, 'z, 'x, sequence_control) planner)"
    and "\<forall>line lock handler. fueled fuel (plan_action pv m fuel line lock handler (cn_action n) :: ('l, 'z, 'x, sequence_control) planner)"
    and "\<forall>line lock handler. fueled fuel (plan_action pv m fuel line lock handler a :: ('l, 'z, 'x, sequence_control) planner)"
proof (induction q and n and a)
  case (Sequence nodes trailing p)
  then show ?case using fueled_nodes_complete [OF assms, of nodes] by simp
next
  case (CA_Block q)
  then show ?case by (cases q) (auto intro!: fueled_intro)
qed (auto intro!: fueled_intro)

lemma fueled_entered_complete: "fueled_entered fuel (plan_entered_complete pv m fuel q path child :: ('l, 'z, 'x, sequence_control) planner)"
proof (induction fuel arbitrary: q path child)
  case 0
  show ?case by (auto simp: plan_entered_complete.simps fueled_entered_def counts.keeps_fail)
next
  case (Suc fuel)
  show ?case
    using fueled_actions_complete(1) [OF fueled_statements_complete [OF Suc.IH]]
    by (simp add: plan_entered_complete.simps fueled_runtime_rc)
qed

lemmas fueled_complete [fueled_intro] =
  fueled_statements_complete [OF fueled_entered_complete]
  fueled_nodes_complete [OF fueled_statements_complete [OF fueled_entered_complete]
    fueled_actions_complete(2) [OF fueled_statements_complete [OF fueled_entered_complete], rule_format]]
  fueled_actions_complete(3) [OF fueled_statements_complete [OF fueled_entered_complete], rule_format]

lemma fueled_resume: "fueled fuel (resume_from_frames pv m fuel fs q :: ('l, 'z, 'x, sequence_control) planner)"
proof (induction fs arbitrary: q)
  case (Cons f fs)
  have block: "fueled fuel ((case cn_action n of
      CA_Block children \<Rightarrow> step_bind (resume_from_frames pv m fuel fs children) (\<lambda>control. step_return (True, control))
    | _ \<Rightarrow> plan_fail BodyWasNotBuffered) :: ('l, 'z, 'x, bool \<times> sequence_control) planner)" for n
    by (cases "cn_action n") (auto intro!: fueled_intro Cons.IH)
  show ?case unfolding resume_from_frames.simps resume_recipe_def Let_def by (intro fueled_intro block)
qed (auto intro: fueled_intro)

section \<open>The header phase\<close>

lemma fueled_statements_headers:
  assumes files: "\<And>q path child following. fueled_entered fuel (plan_entered_headers pv capture fuel q path child following)"
  shows "fueled fuel (plan_statements_headers pv capture fuel ss following)"
proof (induction ss)
  case (Cons c ss)
  show ?case
  proof (cases c)
    case (CS_Include e)
    show ?thesis
      unfolding CS_Include plan_statements_headers.simps
      by (rule fueled_enter)
        (simp_all only: entered_rc.case, auto intro!: Cons.IH fueled_entered_if fueled_entered_bind fueled_entered_restart files fueled_intro)
  next
    case (CS_Switch e)
    show ?thesis
      unfolding CS_Switch plan_statements_headers.simps
      by (rule fueled_enter)
        (simp_all only: entered_rc.case, auto intro!: Cons.IH fueled_entered_if fueled_entered_bind fueled_entered_restart files fueled_intro)
  qed (use Cons.IH in \<open>auto intro!: fueled_intro\<close>)
qed (simp add: fueled_return)

lemma fueled_nodes_headers:
  assumes statements: "\<And>ss following. fueled fuel (plan_statements_headers pv capture fuel ss following)"
    and actions: "\<And>n line lock handler frame following. n \<in> set nodes \<Longrightarrow>
      fueled fuel (plan_header_action pv capture fuel line lock handler frame following (cn_action n))"
  shows "fueled fuel (plan_headers_from pv capture fuel q index nodes state following)"
  using actions
proof (induction nodes arbitrary: index state)
  case (Cons n ns)
  have "fueled fuel (plan_headers_from pv capture fuel q index ns state following)" for index state
    by (rule Cons.IH [OF Cons.prems]) simp
  moreover have "fueled fuel (plan_header_action pv capture fuel line lock handler frame following (cn_action n))"
    for line lock handler frame following
    by (rule Cons.prems) simp
  ultimately show ?case unfolding plan_headers_from.simps by (intro fueled_intro statements)
qed (simp add: plan_headers_from.simps statements)

lemma fueled_actions_headers:
  assumes "\<And>ss following. fueled fuel (plan_statements_headers pv capture fuel ss following)"
  shows "\<forall>r index state following. fueled fuel (plan_headers_from pv capture fuel r index (cq_recipes q) state following)"
    and "\<forall>line lock handler frame following. fueled fuel (plan_header_action pv capture fuel line lock handler frame following (cn_action n))"
    and "\<forall>line lock handler frame following. fueled fuel (plan_header_action pv capture fuel line lock handler frame following a)"
proof (induction q and n and a)
  case (Sequence nodes trailing p)
  then show ?case using fueled_nodes_headers [OF assms, of nodes] by simp
next
  case (CA_Block q)
  then show ?case by (cases q) (auto intro!: fueled_intro)
qed (auto intro!: fueled_intro)

lemma fueled_entered_headers: "fueled_entered fuel (plan_entered_headers pv capture fuel q path child following)"
proof (induction fuel arbitrary: q path child following)
  case 0
  show ?case by (auto simp: plan_entered_headers.simps fueled_entered_def counts.keeps_fail)
next
  case (Suc fuel)
  show ?case
    using fueled_actions_headers(1) [OF fueled_statements_headers [OF Suc.IH]]
    by (simp add: plan_entered_headers.simps fueled_runtime_rc)
qed

lemma fueled_headers: "fueled fuel (plan_headers_from pv capture fuel q index (cq_recipes q) state following)"
  using fueled_actions_headers(1) [OF fueled_statements_headers [OF fueled_entered_headers]] by blast

section \<open>Theorems\<close>

lemma fueled_run:
  assumes "fueled RC_FUEL f" and "f s = (s', r)"
  shows "ends r" "counts s s'"
proof -
  have "MAX_RC_TRANSITIONS < RC_FUEL + entered s" by (simp add: RC_FUEL_def)
  then show "ends r" using assms by (metis fueled_def snd_conv)
  show "counts s s'" using assms by (metis fst_conv fueled_def keeps_def)
qed

lemma evaluate_headers_total:
  fixes pv :: "'l plan_services" and capture :: "('h, 'x) capture_executor option"
  shows "case evaluate_headers pv capture p head rv h of
     (s, result) \<Rightarrow> ends result \<and> entered s \<le> max MAX_RC_TRANSITIONS (rs_transitions (pl_rc p))"
proof -
  let ?s0 = "start_headers head rv h (pl_rc p) :: ('h, 'x, 'l) header_state"
  obtain s r where run: "plan_headers_from pv capture RC_FUEL (pl_root p) 0 (cq_recipes (pl_root p)) state_default requirements_none ?s0 = (s, r)"
    by fastforce
  have s0: "entered ?s0 = rs_transitions (pl_rc p)" by (simp add: start_headers_def)
  have "ends r" "entered s \<le> max MAX_RC_TRANSITIONS (rs_transitions (pl_rc p))"
    using fueled_run [OF fueled_headers run] s0 by (auto simp: counts_def)
  then show ?thesis
    using s0 by (auto simp: evaluate_headers_def Let_def run split: sum.splits header_control.splits option.splits)
qed

text \<open>What a run leaves that starts from a continuation.\<close>

definition resumes :: "message_continuation \<Rightarrow> 'l rc_state \<Rightarrow> 'l plan_state \<times> ('x ordered_error + delivery_plan) \<Rightarrow> bool" where
  "resumes k rc run \<longleftrightarrow>
     (case run of (s, result) \<Rightarrow>
        ends result \<and> entered s \<le> max MAX_RC_TRANSITIONS (rs_transitions rc) \<and>
        (\<forall>d. result = Inr d \<longrightarrow>
           prefix (dp_deliveries (ct_execution k)) (dp_deliveries d) \<and>
           (dp_original_delivered (ct_execution k) \<longrightarrow> dp_original_delivered d)))"

lemma planned_resumes:
  assumes "fueled RC_FUEL f" "entered s0 \<le> rs_transitions rc" "ps_execution s0 = ct_execution k"
  shows "resumes k rc (planned (f s0))"
proof -
  obtain s r where run: "f s0 = (s, r)" by fastforce
  show ?thesis using fueled_run [OF assms(1) run] assms(2,3) by (cases r) (auto simp: resumes_def planned_def run counts_def)
qed

lemma resume_input_resumes:
  fixes pv :: "'l plan_services"
  shows "resumes k rc (resume_input pv p k input rv rc :: 'l plan_state \<times> ('x ordered_error + delivery_plan))"
proof (cases "complete_message_of input (plan_needs_full_matching (p\<lparr>pl_rc := rc\<rparr>))")
  case (Some m)
  have resumed: "fueled RC_FUEL (resume_from_frames pv m RC_FUEL (ct_frames k) (pl_root p) :: ('l, unit, 'x, sequence_control) planner)"
    by (rule fueled_resume)
  have again: "fueled RC_FUEL (plan_complete pv m RC_FUEL (pl_root p) :: ('l, unit, 'x, sequence_control) planner)"
    unfolding plan_complete_def by (rule fueled_complete(2))
  show ?thesis
    using planned_resumes [OF resumed, of "plan_root_state (ct_runtime k) (ct_execution k) rc" rc k]
      planned_resumes [OF again, of "plan_root_state (ct_runtime k) (ct_execution k) (reset_transitions rc)" rc k]
    by (simp add: resume_input_def Some plan_root_state_def reset_transitions_def) (simp add: resumes_def)
qed (simp add: resume_input_def plan_root_state_def resumes_def)

text \<open>
  C6. Planning ends, in both phases and whatever the plan, the loader, the commands and the
  continuation: the fuel of the model is never used up and no header edit loops, so the result is a
  value or an error of the program, and no more files are entered than the limit
  on transitions allows, unless more were entered before.
\<close>

theorem planning_total:
  fixes pv :: "'l plan_services" and capture :: "('h, 'x) capture_executor option"
  shows "(case evaluate_headers pv capture p head rv h of
      (s, result) \<Rightarrow>
        result \<noteq> Inl Err_Fuel \<and> result \<noteq> Inl Err_Diverged \<and>
        rs_transitions (ps_rc_state s) \<le> max MAX_RC_TRANSITIONS (rs_transitions (pl_rc p))) \<and>
    (case (resume_input pv p k input rv rc :: 'l plan_state \<times> ('x ordered_error + delivery_plan)) of
      (s, result) \<Rightarrow>
        result \<noteq> Inl Err_Fuel \<and> result \<noteq> Inl Err_Diverged \<and>
        rs_transitions (ps_rc_state s) \<le> max MAX_RC_TRANSITIONS (rs_transitions rc))"
  using evaluate_headers_total [where pv = pv and capture = capture and p = p and head = head and rv = rv and h = h] resume_input_resumes [where 'x = 'x and k = k and rc = rc and pv = pv and p = p and input = input and rv = rv]
  by (auto simp: resumes_def ends_iff split: prod.splits)

text \<open>
  C5. Resuming keeps what the header phase planned: the deliveries of a continuation are the first
  deliveries of the resumed plan, in their order, and an original that was delivered stays delivered, so
  the sinks that were opened for them before the body was read are still the right ones.
\<close>

theorem early_deliveries_kept:
  assumes "resume_input pv p k input rv rc = (s, Inr d :: 'x ordered_error + delivery_plan)"
  shows "take (length (dp_deliveries (ct_execution k))) (dp_deliveries d) = dp_deliveries (ct_execution k) \<and>
    (dp_original_delivered (ct_execution k) \<longrightarrow> dp_original_delivered d)"
proof -
  have "resumes k rc (s, Inr d :: 'x ordered_error + delivery_plan)" unfolding assms [symmetric] by (rule resume_input_resumes)
  then show ?thesis by (auto simp: resumes_def prefix_def)
qed

text \<open>A delivery to the mailbox \<open>in\<close>, planned before the recipe that waits.\<close>

definition sample_delivery :: planned_delivery where
  "sample_delivery =
     \<lparr>pd_destination = Mbox (sample_path (ascii ''in'') [Literal (ascii ''in'')]), pd_continuation = Delivery_Continue,
      pd_output_ending = Preserve, pd_lock = None, pd_umask = 63, pd_status = STATUS_NONE\<rparr>"

definition sample_continuation :: message_continuation where
  "sample_continuation =
     \<lparr>ct_frames = [\<lparr>cf_recipe_index = 0, cf_state = state_default, cf_condition_results = [], cf_assignments_applied = True\<rparr>],
      ct_execution = \<lparr>dp_deliveries = [sample_delivery], dp_original_delivered = False\<rparr>, ct_runtime = sample_runtime,
      ct_requirements = requirements_none, ct_restart = False\<rparr>"

lemma sample_resumes:
  "\<exists>s d. resume_input sample_services sample_plan sample_continuation sample_input sample_runtime (rc_state_new None) =
     (s, Inr d :: unit ordered_error + delivery_plan)"
  by (simp add: resume_input_def complete_message_of_def sample_input_def matching_views_are_valid_def sample_continuation_def
      sample_plan_defs plan_complete_from.simps resume_recipe_def step_bind_def step_return_def planning_gate_def plan_runtime_def
      has_error_handler_def planned_def matches_complete_def matches_plain_def negate_result_def apply_negation_def)

theorem early_deliveries_kept_witness:
  "\<exists>s d. resume_input sample_services sample_plan sample_continuation sample_input sample_runtime (rc_state_new None) =
       (s, Inr d :: unit ordered_error + delivery_plan) \<and> take 1 (dp_deliveries d) = [sample_delivery]"
proof -
  obtain s d where run: "resume_input sample_services sample_plan sample_continuation sample_input sample_runtime (rc_state_new None) =
      (s, Inr d :: unit ordered_error + delivery_plan)" using sample_resumes by blast
  show ?thesis using run early_deliveries_kept [OF run] by (auto simp: sample_continuation_def)
qed

end
