(* ===== verification/Rc_Syntax.thy ===== *)
theory Rc_Syntax
  imports Shell_Parse Runtime_Vars
begin

text \<open>
  The parts of the rc parser that stand on their own, \<open>src/config/parser.rs\<close> and \<open>src/config/syntax_cursor.rs\<close>: the budget
  that bounds what a configuration may hold, assignments and their removal, the first line of a recipe
  with its flags and lock file, and the continuation of commands and conditions over several lines.
  Header operations are part of it too; conditions and recipes are in the next theories.
\<close>

section \<open>Errors\<close>

datatype count_kind = Count_Assignment | Count_Statement | Count_Recipe | Count_Condition | Count_Regex

datatype line_use = Use_Pipe | Use_Capture

datatype path_use = Use_Lock | Use_Destination

datatype structured_kind = Structured_Address | Structured_Identifier | Structured_Keyword

datatype rc_budget_message =
    Rcm_CountLimit count_kind usize
  | Rcm_CountOverflow count_kind
  | Rcm_CountBackwards count_kind
  | Rcm_RecipeConditions usize
  | Rcm_DepthOverflow
  | Rcm_DepthLimit usize usize
  | Rcm_LineLimit usize
  | Rcm_ExpandedLimit usize
  | Rcm_ContinuedLimit usize
  | Rcm_LinebufNumber
  | Rcm_LinebufRange
  | Rcm_LimitNumber bytes
  | Rcm_HardLimit bytes usize
  | Rcm_OperationLimit
  | Rcm_RcSize

datatype rc_word_message =
    Rcm_NameLimit
  | Rcm_ValueLimit
  | Rcm_TargetLimit bytes bool usize
  | Rcm_Unsupported bytes
  | Rcm_NotAssignable bytes
  | Rcm_NotUnsettable bytes
  | Rcm_NotCapturable bytes
  | Rcm_Expansion expansion_message
  | Rcm_InvalidFlags
  | Rcm_UnknownFlag byte
  | Rcm_ControlFlags byte byte
  | Rcm_WaitFlags
  | Rcm_PathLimit path_use
  | Rcm_CommandOverflow line_use
  | Rcm_CommandLimit line_use
  | Rcm_CommandIncomplete line_use
  | Rcm_CommandEmpty line_use
  | Rcm_CommandNul
  | Rcm_IndexOverflow
  | Rcm_NoStar
  | Rcm_ConditionOverflow
  | Rcm_ConditionIncomplete
  | Rcm_Destinations
  | Rcm_PathEmpty

datatype rc_header_message =
    Rcm_OperationEmpty
  | Rcm_OperationArguments bytes
  | Rcm_OperationRemove
  | Rcm_OperationRename
  | Rcm_OperationExtract
  | Rcm_ExtractMode
  | Rcm_ExtractTarget
  | Rcm_ExtractProtected bytes
  | Rcm_OperationMode bytes
  | Rcm_OperationModeUnknown bytes
  | Rcm_OperationNoArguments bytes bytes
  | Rcm_OperationRequires bytes bytes
  | Rcm_OperationUnknown bytes
  | Rcm_OperationName bytes
  | Rcm_ValueFolded
  | Rcm_ValueByte
  | Rcm_HeaderName
  | Rcm_HeadersOpen
  | Rcm_HeadersLock
  | Rcm_HeadersFlag byte

datatype rc_regex_message =
    Rcm_RegexLimit
  | Rcm_RegexInvalid bytes
  | Rcm_RegexEdits
  | Rcm_RegexSpan
  | Rcm_RegexAnchor
  | Rcm_RegexMarkers
  | Rcm_RegexOverlap
  | Rcm_RegexSplit
  | Rcm_RegexOverflow
  | Rcm_RegexExpanded
  | Rcm_RegexUtf8
  | Rcm_RegexMarkerMissing
  | Rcm_RegexNamed
  | Rcm_RegexCaptures

datatype rc_condition_message =
    Rcm_ConditionEmpty
  | Rcm_ConditionWeighted
  | Rcm_StructuredSyntax structured_kind
  | Rcm_FieldEmpty structured_kind
  | Rcm_FieldRepeated structured_kind bytes
  | Rcm_FieldUnsupported structured_kind bytes
  | Rcm_MultipartEmpty
  | Rcm_MultipartOpen
  | Rcm_MultipartRepeated multipart_field
  | Rcm_MultipartSyntax
  | Rcm_MultipartSelector bytes
  | Rcm_VariableName
  | Rcm_VariableNameLimit
  | Rcm_Size
  | Rcm_ProgramEmpty
  | Rcm_ProgramLimit
  | Rcm_ProgramNul

datatype rc_recipe_message =
    Rcm_OnlyZero
  | Rcm_RegexCount
  | Rcm_NoAction
  | Rcm_Forward
  | Rcm_BlockUnopened
  | Rcm_BlockUnclosed
  | Rcm_ActionEmpty
  | Rcm_IgnoreFilesystem
  | Rcm_PipeFlags
  | Rcm_FilterCommand
  | Rcm_BlockLock
  | Rcm_BlockStandalone
  | Rcm_AssignedInBlock bytes
  | Rcm_UnsetInBlock bytes
  | Rcm_AssignedFromCommand bytes
  | Rcm_Expected
  | Rcm_CaptureMalformed
  | Rcm_PipePanic

datatype rc_syntax_message =
    Rcm_Budget rc_budget_message
  | Rcm_Word rc_word_message
  | Rcm_Header rc_header_message
  | Rcm_Regex rc_regex_message
  | Rcm_Condition rc_condition_message
  | Rcm_Recipe rc_recipe_message

record parse_error =
  per_line :: usize
  per_message :: rc_syntax_message
  per_resource_limit :: bool

definition parse_error_new :: "usize \<Rightarrow> rc_syntax_message \<Rightarrow> parse_error" where
  "parse_error_new line m = \<lparr>per_line = line, per_message = m, per_resource_limit = False\<rparr>"

definition parse_error_limit :: "usize \<Rightarrow> rc_syntax_message \<Rightarrow> parse_error" where
  "parse_error_limit line m = \<lparr>per_line = line, per_message = m, per_resource_limit = True\<rparr>"

text \<open>The question mark operator.\<close>

definition and_then :: "'e + 'a \<Rightarrow> ('a \<Rightarrow> 'e + 'b) \<Rightarrow> 'e + 'b" where
  "and_then r k = (case r of Inl e \<Rightarrow> Inl e | Inr x \<Rightarrow> k x)"

lemma and_then_simps [simp]: "and_then (Inl e) k = Inl e" "and_then (Inr x) k = k x"
  by (simp_all add: and_then_def)

lemma and_then_Inr [simp]: "and_then r k = Inr y \<longleftrightarrow> (\<exists>x. r = Inr x \<and> k x = Inr y)"
  by (cases r) auto

lemma and_then_cong [fundef_cong]:
  "r = r' \<Longrightarrow> (\<And>x. r' = Inr x \<Longrightarrow> k x = k' x) \<Longrightarrow> and_then r k = and_then r' k'"
  by (cases r') auto

definition ensure :: "bool \<Rightarrow> parse_error \<Rightarrow> parse_error + unit" where
  "ensure c e = (if c then Inr () else Inl e)"

lemma ensure_Inr [simp]: "ensure c e = Inr u \<longleftrightarrow> c"
  by (simp add: ensure_def)

section \<open>The budget\<close>

record rc_parse_counts =
  pc_assignments :: usize
  pc_statements :: usize
  pc_recipes :: usize
  pc_conditions :: usize
  pc_regexes :: usize

record parse_budget =
  pb_counts :: rc_parse_counts
  pb_limits :: rc_limits

definition counts_default :: rc_parse_counts where
  "counts_default = \<lparr>pc_assignments = 0, pc_statements = 0, pc_recipes = 0, pc_conditions = 0, pc_regexes = 0\<rparr>"

definition budget_default :: parse_budget where
  "budget_default = \<lparr>pb_counts = counts_default, pb_limits = rc_limits_default\<rparr>"

definition budget_reset :: "rc_parse_counts \<Rightarrow> parse_budget \<Rightarrow> parse_budget" where
  "budget_reset counts b = b\<lparr>pb_counts := counts, pb_limits := rc_limits_default\<rparr>"

definition replace_limits :: "rc_limits \<Rightarrow> parse_budget \<Rightarrow> parse_budget" where
  "replace_limits limits b = b\<lparr>pb_limits := limits\<rparr>"

definition count_down :: "count_kind \<Rightarrow> usize \<Rightarrow> usize \<Rightarrow> parse_error + usize" where
  "count_down kind now earlier =
     (if earlier \<le> now then Inr (now - earlier) else Inl (parse_error_new 1 (Rcm_Budget (Rcm_CountBackwards kind))))"

definition counts_subtract :: "rc_parse_counts \<Rightarrow> rc_parse_counts \<Rightarrow> parse_error + rc_parse_counts" where
  "counts_subtract c earlier =
     and_then (count_down Count_Assignment (pc_assignments c) (pc_assignments earlier)) (\<lambda>a.
     and_then (count_down Count_Statement (pc_statements c) (pc_statements earlier)) (\<lambda>s.
     and_then (count_down Count_Recipe (pc_recipes c) (pc_recipes earlier)) (\<lambda>r.
     and_then (count_down Count_Condition (pc_conditions c) (pc_conditions earlier)) (\<lambda>d.
     and_then (count_down Count_Regex (pc_regexes c) (pc_regexes earlier)) (\<lambda>x.
       Inr \<lparr>pc_assignments = a, pc_statements = s, pc_recipes = r, pc_conditions = d, pc_regexes = x\<rparr>)))))"

definition check_count_limit :: "usize \<Rightarrow> usize \<Rightarrow> usize \<Rightarrow> count_kind \<Rightarrow> parse_error + unit" where
  "check_count_limit n limit line kind = ensure (n < limit) (parse_error_limit line (Rcm_Budget (Rcm_CountLimit kind limit)))"

definition count_up :: "usize \<Rightarrow> count_kind \<Rightarrow> usize \<Rightarrow> usize \<Rightarrow> parse_error + usize" where
  "count_up line kind now n =
     (case checked_add now n of None \<Rightarrow> Inl (parse_error_new line (Rcm_Budget (Rcm_CountOverflow kind))) | Some m \<Rightarrow> Inr m)"

definition check_linebuf :: "bytes \<Rightarrow> usize \<Rightarrow> usize \<Rightarrow> parse_error + unit" where
  "check_linebuf text line limit = ensure (length text \<le> limit) (parse_error_limit line (Rcm_Budget (Rcm_LineLimit limit)))"

definition check_line :: "parse_budget \<Rightarrow> bytes \<Rightarrow> usize \<Rightarrow> parse_error + unit" where
  "check_line b text line = check_linebuf text line (rl_linebuf (pb_limits b))"

definition check_statement :: "parse_budget \<Rightarrow> usize \<Rightarrow> parse_error + unit" where
  "check_statement b line = check_count_limit (pc_statements (pb_counts b)) (rl_statements (pb_limits b)) line Count_Statement"

text \<open>The operations that change the budget return the new one; after an error both callers of the parser drop it.\<close>

definition charge_recipe :: "usize \<Rightarrow> parse_budget \<Rightarrow> parse_error + parse_budget" where
  "charge_recipe line b =
     (let c = pb_counts b
      in and_then (check_count_limit (pc_recipes c) (rl_recipes (pb_limits b)) line Count_Recipe) (\<lambda>_.
         and_then (count_up line Count_Recipe (pc_recipes c) 1) (\<lambda>r.
         and_then (count_up line Count_Statement (pc_statements c) 1) (\<lambda>s.
           Inr (b\<lparr>pb_counts := c\<lparr>pc_recipes := r, pc_statements := s\<rparr>\<rparr>)))))"

datatype assignment_use = Use_Statement | Use_CaptureAction

definition charge_assignment :: "usize \<Rightarrow> assignment_use \<Rightarrow> parse_budget \<Rightarrow> parse_error + parse_budget" where
  "charge_assignment line usage b =
     (let c = pb_counts b
      in and_then (check_count_limit (pc_assignments c) (rl_assignments (pb_limits b)) line Count_Assignment) (\<lambda>_.
         and_then (count_up line Count_Assignment (pc_assignments c) 1) (\<lambda>a.
           if usage = Use_Statement then
             and_then (count_up line Count_Statement (pc_statements c) 1) (\<lambda>s.
               Inr (b\<lparr>pb_counts := c\<lparr>pc_assignments := a, pc_statements := s\<rparr>\<rparr>))
           else Inr (b\<lparr>pb_counts := c\<lparr>pc_assignments := a\<rparr>\<rparr>))))"

definition check_condition :: "parse_budget \<Rightarrow> usize \<Rightarrow> usize \<Rightarrow> parse_error + unit" where
  "check_condition b recipe_count line =
     (let limit = rl_conditions_per_recipe (pb_limits b)
      in and_then (ensure (recipe_count < limit) (parse_error_limit line (Rcm_Budget (Rcm_RecipeConditions limit)))) (\<lambda>_.
         and_then (count_up line Count_Condition (pc_conditions (pb_counts b)) recipe_count) (\<lambda>total.
           check_count_limit total (rl_conditions (pb_limits b)) line Count_Condition)))"

definition check_regex :: "parse_budget \<Rightarrow> usize \<Rightarrow> usize \<Rightarrow> parse_error + unit" where
  "check_regex b recipe_count line =
     and_then (count_up line Count_Regex (pc_regexes (pb_counts b)) recipe_count) (\<lambda>total.
       check_count_limit total (rl_regexes (pb_limits b)) line Count_Regex)"

definition record_recipe_contents :: "usize \<Rightarrow> usize \<Rightarrow> usize \<Rightarrow> parse_budget \<Rightarrow> parse_error + parse_budget" where
  "record_recipe_contents conditions regexes line b =
     (let c = pb_counts b
      in and_then (count_up line Count_Condition (pc_conditions c) conditions) (\<lambda>n.
         and_then (count_up line Count_Regex (pc_regexes c) regexes) (\<lambda>r.
           Inr (b\<lparr>pb_counts := c\<lparr>pc_conditions := n, pc_regexes := r\<rparr>\<rparr>))))"

definition check_nesting :: "parse_budget \<Rightarrow> usize \<Rightarrow> usize \<Rightarrow> parse_error + usize" where
  "check_nesting b depth line =
     (case checked_add depth 1 of
        None \<Rightarrow> Inl (parse_error_new line (Rcm_Budget Rcm_DepthOverflow))
      | Some n \<Rightarrow>
          and_then (ensure (n \<le> rl_nesting_depth (pb_limits b))
                     (parse_error_limit line (Rcm_Budget (Rcm_DepthLimit n (rl_nesting_depth (pb_limits b)))))) (\<lambda>_. Inr n))"

definition apply_rc_limit :: "assignment \<Rightarrow> rc_limits \<Rightarrow> parse_error + rc_limits" where
  "apply_rc_limit a limits =
     (case as_target a of
        Target_RcLimit kind \<Rightarrow>
          (case parse_u64 (as_value a) of
             None \<Rightarrow> Inl (parse_error_new (as_line a) (Rcm_Budget (Rcm_LimitNumber (as_name a))))
           | Some v \<Rightarrow>
               (case rc_limits_set limits kind v of
                  Inl hard \<Rightarrow> Inl (parse_error_limit (as_line a) (Rcm_Budget (Rcm_HardLimit (as_name a) hard)))
                | Inr limits1 \<Rightarrow> Inr limits1))
      | _ \<Rightarrow> Inr limits)"

definition apply_linebuf :: "assignment \<Rightarrow> rc_limits \<Rightarrow> parse_error + rc_limits" where
  "apply_linebuf a limits =
     (if as_target a \<noteq> Target_LineBuf then Inr limits
      else
        (case parse_u64 (as_value a) of
           None \<Rightarrow> Inl (parse_error_new (as_line a) (Rcm_Budget Rcm_LinebufNumber))
         | Some v \<Rightarrow>
             if \<not> (MIN_LINEBUF \<le> v \<and> v \<le> MAX_LINEBUF) then Inl (parse_error_limit (as_line a) (Rcm_Budget Rcm_LinebufRange))
             else Inr (limits\<lparr>rl_linebuf := v\<rparr>)))"

text \<open>\<open>ParseBudget::apply_assignment\<close> and \<open>apply_unset\<close>.\<close>

definition budget_assign :: "assignment \<Rightarrow> parse_budget \<Rightarrow> parse_error + parse_budget" where
  "budget_assign a b =
     and_then (apply_rc_limit a (pb_limits b)) (\<lambda>l1. and_then (apply_linebuf a l1) (\<lambda>l2. Inr (b\<lparr>pb_limits := l2\<rparr>)))"

definition budget_unset :: "unset \<Rightarrow> parse_budget \<Rightarrow> parse_budget" where
  "budget_unset u b =
     (case un_target u of
        Target_RcLimit kind \<Rightarrow> b\<lparr>pb_limits := rc_limits_reset (pb_limits b) kind\<rparr>
      | Target_LineBuf \<Rightarrow> b\<lparr>pb_limits := (pb_limits b)\<lparr>rl_linebuf := DEFAULT_LINEBUF\<rparr>\<rparr>
      | _ \<Rightarrow> b)"

section \<open>Text\<close>

definition str_trim_end :: "bytes \<Rightarrow> bytes" where
  "str_trim_end s = concat (rev (dropWhile char_is_whitespace (rev (chars s))))"

definition str_trim :: "bytes \<Rightarrow> bytes" where
  "str_trim s = str_trim_end (str_trim_start s)"

definition strip_comment :: "bytes \<Rightarrow> bytes" where
  "strip_comment v = (case split_once HASH v of Some (before, _) \<Rightarrow> before | None \<Rightarrow> v)"

definition check_path_length :: "bytes \<Rightarrow> usize \<Rightarrow> path_use \<Rightarrow> parse_error + unit" where
  "check_path_length path line usage = ensure (length path \<le> MAX_PATH_EXPRESSION_LEN) (parse_error_new line (Rcm_Word (Rcm_PathLimit usage)))"

definition required_path :: "bytes \<Rightarrow> usize \<Rightarrow> path_use \<Rightarrow> parse_error + bytes" where
  "required_path path0 line usage =
     (let path = str_trim path0
      in if path = [] then Inl (parse_error_new line (Rcm_Word Rcm_PathEmpty))
         else and_then (check_path_length path line usage) (\<lambda>_. Inr path))"

definition strip_prefix :: "'a list \<Rightarrow> 'a list \<Rightarrow> 'a list option" where
  "strip_prefix xs p = (if starts_with xs p then Some (drop (length p) xs) else None)"

text \<open>\<open>str::split_once\<close> with a separator of two bytes.\<close>

fun split_pair :: "byte \<Rightarrow> byte \<Rightarrow> bytes \<Rightarrow> (bytes \<times> bytes) option" where
  "split_pair a c (x # y # zs) =
     (if x = a \<and> y = c then Some ([], zs) else map_option (apfst ((#) x)) (split_pair a c (y # zs)))"
| "split_pair a c _ = None"

text \<open>\<open>SyntaxCursor\<close> is the text that is left.\<close>

definition cursor_skip :: "bytes \<Rightarrow> bytes" where
  "cursor_skip rest = dropWhile is_ascii_whitespace rest"

definition cursor_word :: "bytes \<Rightarrow> bytes \<times> bytes option" where
  "cursor_word rest =
     (let text = cursor_skip rest; word = takeWhile (\<lambda>b. \<not> is_ascii_whitespace b) text
      in (drop (length word) text, if word = [] then None else Some word))"

definition cursor_keyword :: "bytes \<Rightarrow> bytes \<Rightarrow> bytes \<times> bool" where
  "cursor_keyword expected rest =
     (case cursor_word rest of (rest1, w) \<Rightarrow> if w = Some expected then (rest1, True) else (rest, False))"

definition cursor_remainder :: "bytes \<Rightarrow> bytes \<times> bytes" where
  "cursor_remainder rest = ([], cursor_skip rest)"

definition cursor_is_end :: "bytes \<Rightarrow> bytes \<times> bool" where
  "cursor_is_end rest = (cursor_skip rest, cursor_skip rest = [])"

section \<open>Assignments\<close>

definition expansion_parse_error :: "expansion_error \<Rightarrow> parse_error" where
  "expansion_parse_error e = parse_error_new (xe_line e) (Rcm_Word (Rcm_Expansion (xe_message e)))"

definition rc_target :: "bytes \<Rightarrow> usize \<Rightarrow> rc_syntax_message \<Rightarrow> parse_error + assignment_target" where
  "rc_target name line refused =
     (let policy = variable_policy_of name
      in if policy = Unsupported then Inl (parse_error_new line (Rcm_Word (Rcm_Unsupported name)))
         else
           (case policy_assignment_target policy Source_RcFile of
              None \<Rightarrow> Inl (parse_error_new line refused)
            | Some target \<Rightarrow> Inr target))"

definition check_target_value :: "bytes \<Rightarrow> assignment_target \<Rightarrow> bytes \<Rightarrow> usize \<Rightarrow> parse_error + unit" where
  "check_target_value name target v line =
     (if length v > value_limit target
      then Inl (parse_error_new line (Rcm_Word (Rcm_TargetLimit name (uses_path_error_label target) (value_limit target)))) else Inr ())"

definition parse_assignment_parts :: "bytes \<Rightarrow> bytes \<Rightarrow> usize \<Rightarrow> parse_error + assignment option" where
  "parse_assignment_parts name0 value0 line =
     (let name = str_trim name0
      in if length name > MAX_ASSIGNMENT_NAME_LEN then Inl (parse_error_new line (Rcm_Word Rcm_NameLimit))
         else if \<not> valid_name name then Inr None
         else
           (case parse_assignment_word (str_trim_start value0) line of
              Inl e \<Rightarrow> Inl (expansion_parse_error e)
            | Inr parsed \<Rightarrow>
                if length (paw_source parsed) > MAX_ASSIGNMENT_VALUE_LEN then Inl (parse_error_new line (Rcm_Word Rcm_ValueLimit))
                else
                  (case rc_target name line (Rcm_Word (Rcm_NotAssignable name)) of
                     Inl e \<Rightarrow> Inl e
                   | Inr target \<Rightarrow>
                       (let v = (if controls_rc_parsing target
                                 then (case literal_text (paw_expression parsed) of Some literal \<Rightarrow> literal | None \<Rightarrow> paw_source parsed)
                                 else paw_source parsed)
                        in case check_target_value name target v line of
                             Inl e \<Rightarrow> Inl e
                           | Inr _ \<Rightarrow>
                               Inr (Some \<lparr>as_line = line, as_name = name, as_value = v, as_target = target,
                                          as_expansion = Some (paw_expression parsed)\<rparr>)))))"

definition parse_assignment :: "bytes \<Rightarrow> usize \<Rightarrow> parse_error + assignment option" where
  "parse_assignment text line =
     (case split_once 61 text of
        Some (name, v) \<Rightarrow> parse_assignment_parts name v line
      | None \<Rightarrow> if text = ascii ''HOST'' then parse_assignment_parts (ascii ''HOST'') [] line else Inr None)"

definition parse_unset :: "bytes \<Rightarrow> usize \<Rightarrow> parse_error + unset option" where
  "parse_unset text line =
     (if text = ascii ''HOST'' \<or> 61 \<in> set text then Inr None
      else
        let name = concat (takeWhile (\<lambda>c. \<not> char_is_whitespace c) (chars text));
            remainder = concat (dropWhile char_is_whitespace (dropWhile (\<lambda>c. \<not> char_is_whitespace c) (chars text)))
        in if remainder \<noteq> [] \<and> \<not> starts_with remainder [HASH] then Inr None
           else if length name > MAX_ASSIGNMENT_NAME_LEN then Inl (parse_error_new line (Rcm_Word Rcm_NameLimit))
           else if \<not> valid_name name then Inr None
           else
             (case rc_target name line (Rcm_Word (Rcm_NotUnsettable name)) of
                Inl e \<Rightarrow> Inl e
              | Inr target \<Rightarrow> Inr (Some \<lparr>un_line = line, un_name = name, un_target = target\<rparr>)))"

section \<open>The first line of a recipe\<close>

definition RECIPE_FLAGS :: bytes where
  "RECIPE_FLAGS = ascii ''HBDcAaEehbfwWir''"

definition flag_options :: "bytes \<Rightarrow> recipe_options" where
  "flag_options fs =
     (let has = (\<lambda>c. c \<in> set fs)
      in \<lparr>ro_condition_input = (if \<not> has 72 \<and> has 66 then CI_Body else if has 72 \<and> has 66 then CI_Message else CI_Headers),
          ro_case_mode = (if has 68 then Sensitive else Insensitive),
          ro_control = (if has 65 then AfterChainMatch else if has 97 then AfterPreviousSuccess
                        else if has 69 then Else else if has 101 then AfterPreviousError else Independent),
          ro_action_input = (if has 104 \<and> \<not> has 98 then AI_Headers else if \<not> has 104 \<and> has 98 then AI_Body else AI_Message),
          ro_action_mode = (if has 102 then Mode_Filter else Mode_Deliver),
          ro_continuation = (if has 99 then Cont_Continue else Cont_Stop),
          ro_child_status = (if has 119 then Child_Wait else if has 87 then Child_WaitQuietly else Child_Ignore),
          ro_write_errors = (if has 105 then Write_Ignore else Write_Fail),
          ro_output_ending = (if has 114 then Preserve else Normalize)\<rparr>)"

definition check_flags :: "bytes \<Rightarrow> usize \<Rightarrow> parse_error + unit" where
  "check_flags fs line =
     (if \<not> list_all is_ascii_alphabetic fs then Inl (parse_error_new line (Rcm_Word Rcm_InvalidFlags))
      else
        (case List.find (\<lambda>c. c \<notin> set RECIPE_FLAGS) fs of
           Some c \<Rightarrow> Inl (parse_error_new line (Rcm_Word (Rcm_UnknownFlag c)))
         | None \<Rightarrow>
             (case filter (\<lambda>c. c \<in> set fs) [65, 97, 69, 101] of
                a # b # _ \<Rightarrow> Inl (parse_error_new line (Rcm_Word (Rcm_ControlFlags a b)))
              | _ \<Rightarrow>
                  if 119 \<in> set fs \<and> 87 \<in> set fs then Inl (parse_error_new line (Rcm_Word Rcm_WaitFlags)) else Inr ())))"

definition parse_recipe_header ::
    "bytes \<Rightarrow> usize \<Rightarrow> parse_error + (recipe_options \<times> bytes option \<times> bytes)" where
  "parse_recipe_header text line =
     (let rest = str_trim (strip_comment text)
      in case (case split_once COLON rest of
                 None \<Rightarrow> Inr (rest, None)
               | Some (fs, lock0) \<Rightarrow>
                   (let lock = str_trim lock0
                    in case check_path_length lock line Use_Lock of Inl e \<Rightarrow> Inl e | Inr _ \<Rightarrow> Inr (str_trim fs, Some lock))) of
           Inl e \<Rightarrow> Inl e
         | Inr (fs, lock) \<Rightarrow>
             (case check_flags fs line of Inl e \<Rightarrow> Inl e | Inr _ \<Rightarrow> Inr (flag_options fs, lock, fs)))"

section \<open>Continued lines\<close>

definition MAX_PIPE_COMMAND_LEN :: usize where "MAX_PIPE_COMMAND_LEN = 64 * 1024"

text \<open>\<open>parse_command_continuation\<close>: \<open>full\<close> is the line at \<open>index\<close>, \<open>physical\<close> the part of it that belongs to the command,
  and \<open>rest\<close> the lines after it.\<close>

fun continue_command ::
    "usize \<Rightarrow> usize \<Rightarrow> line_use \<Rightarrow> usize \<Rightarrow> bytes \<Rightarrow> bytes \<Rightarrow> bytes \<Rightarrow> bytes list \<Rightarrow> parse_error + (bytes \<times> usize)" where
  "continue_command linebuf start use index full physical command rest =
     (case check_linebuf full (index + 1) linebuf of
        Inl e \<Rightarrow> Inl e
      | Inr _ \<Rightarrow>
          (let continued = ends_with physical [BACKSLASH]
           in case checked_add (length physical) (if continued then 1 else 0) of
                None \<Rightarrow> Inl (parse_error_new (start + 1) (Rcm_Word (Rcm_CommandOverflow use)))
              | Some added \<Rightarrow>
                  (case checked_add (length command) added of
                     None \<Rightarrow> Inl (parse_error_new (start + 1) (Rcm_Word (Rcm_CommandOverflow use)))
                   | Some new_len \<Rightarrow>
                       if new_len > linebuf then Inl (parse_error_limit (start + 1) (Rcm_Budget (Rcm_ExpandedLimit linebuf)))
                       else if new_len > MAX_PIPE_COMMAND_LEN then Inl (parse_error_limit (start + 1) (Rcm_Word (Rcm_CommandLimit use)))
                       else if \<not> continued then Inr (command @ physical, index + 1)
                       else if checked_add index 1 = None then Inl (parse_error_new (start + 1) (Rcm_Word Rcm_IndexOverflow))
                       else
                         (case rest of
                            [] \<Rightarrow> Inl (parse_error_new (start + 1) (Rcm_Word (Rcm_CommandIncomplete use)))
                          | l # ls \<Rightarrow> continue_command linebuf start use (index + 1) l l (command @ physical @ [LF]) ls))))"

declare continue_command.simps [simp del]

definition parse_command_continuation ::
    "bytes list \<Rightarrow> usize \<Rightarrow> bytes \<Rightarrow> usize \<Rightarrow> line_use \<Rightarrow> parse_error + (bytes \<times> usize)" where
  "parse_command_continuation lines start initial linebuf use =
     (case continue_command linebuf start use start (lines ! start) initial [] (drop (Suc start) lines) of
        Inl e \<Rightarrow> Inl e
      | Inr (command, next_line) \<Rightarrow>
          if command = [] then Inl (parse_error_new (start + 1) (Rcm_Word (Rcm_CommandEmpty use)))
          else if 0 \<in> set command then Inl (parse_error_new (start + 1) (Rcm_Word Rcm_CommandNul))
          else Inr (command, next_line))"

lemma str_trim_start_length: "length (str_trim_start s) \<le> length s"
proof (cases "utf8_chars s")
  case (Some cs)
  have "length (concat (dropWhile P cs)) \<le> length (concat cs)" for P :: "bytes \<Rightarrow> bool"
    by (induction cs) auto
  then show ?thesis using utf8_chars_concat [OF Some] by (auto simp: str_trim_start_def chars_def Some)
qed (simp add: str_trim_start_def chars_def)

text \<open>The exclamation marks before a condition, each of which negates it.\<close>

function strip_negations :: "bool \<Rightarrow> bytes \<Rightarrow> bool \<times> bytes" where
  "strip_negations negated text =
     (case str_trim_start text of
        b # bs \<Rightarrow> if b = 33 then strip_negations (\<not> negated) bs else (negated, b # bs)
      | [] \<Rightarrow> (negated, []))"
  by pat_completeness auto
termination
proof (relation "measure (length \<circ> snd)")
  show "((\<not> negated, bs), negated, t) \<in> measure (length \<circ> snd)" if "str_trim_start t = b # bs" for negated t b bs
    using str_trim_start_length [of t] that by simp
qed simp

declare strip_negations.simps [simp del]

definition condition_is_shell_expanded :: "bytes \<Rightarrow> bool" where
  "condition_is_shell_expanded text = starts_with (snd (strip_negations False text)) [DOLLAR]"

text \<open>\<open>parse_condition_continuation\<close>: ordinary conditions lose the indentation of their later lines.\<close>

definition condition_line :: "bool \<Rightarrow> bytes \<Rightarrow> bytes" where
  "condition_line preserve l = (if preserve then l else str_trim_start l)"

fun continue_condition ::
    "usize \<Rightarrow> usize \<Rightarrow> bool \<Rightarrow> usize \<Rightarrow> bytes \<Rightarrow> bytes \<Rightarrow> bytes \<Rightarrow> bytes list \<Rightarrow> parse_error + (bytes \<times> usize)" where
  "continue_condition linebuf start preserve index full physical condition rest =
     (case check_linebuf full (index + 1) linebuf of
        Inl e \<Rightarrow> Inl e
      | Inr _ \<Rightarrow>
          (let continued = ends_with physical [BACKSLASH]; fragment = (if continued then butlast physical else physical)
           in case checked_add (length condition) (length fragment) of
                None \<Rightarrow> Inl (parse_error_new (start + 1) (Rcm_Word Rcm_ConditionOverflow))
              | Some new_len \<Rightarrow>
                  if new_len > linebuf then Inl (parse_error_limit (start + 1) (Rcm_Budget (Rcm_ContinuedLimit linebuf)))
                  else if \<not> continued then Inr (condition @ fragment, index + 1)
                  else if checked_add index 1 = None then Inl (parse_error_new (start + 1) (Rcm_Word Rcm_IndexOverflow))
                  else
                    (case rest of
                       [] \<Rightarrow> Inl (parse_error_new (start + 1) (Rcm_Word Rcm_ConditionIncomplete))
                     | l # ls \<Rightarrow>
                         continue_condition linebuf start preserve (index + 1) l (condition_line preserve l) (condition @ fragment) ls)))"

declare continue_condition.simps [simp del]

definition parse_condition_continuation :: "bytes list \<Rightarrow> usize \<Rightarrow> usize \<Rightarrow> parse_error + (bytes \<times> usize)" where
  "parse_condition_continuation lines start linebuf =
     (case strip_prefix (str_trim_start (lines ! start)) [42] of
        Some initial \<Rightarrow>
          continue_condition linebuf start (condition_is_shell_expanded initial) start (lines ! start) initial [] (drop (Suc start) lines)
      | None \<Rightarrow> Inl (parse_error_new (start + 1) (Rcm_Word Rcm_NoStar)))"

section \<open>Destinations and scores\<close>

fun literal_whitespace :: "bool \<Rightarrow> bool \<Rightarrow> bytes \<Rightarrow> bool" where
  "literal_whitespace in_command escaped [] \<longleftrightarrow> False"
| "literal_whitespace in_command escaped (b # bs) \<longleftrightarrow>
     (if escaped then literal_whitespace in_command False bs
      else if b = BACKSLASH then literal_whitespace in_command True bs
      else if b = 96 then literal_whitespace (\<not> in_command) False bs
      else if \<not> in_command \<and> is_ascii_whitespace b then True
      else literal_whitespace in_command False bs)"

definition destination_has_literal_whitespace :: "bytes \<Rightarrow> bool" where
  "destination_has_literal_whitespace action = literal_whitespace False False action"

definition validate_destination_syntax :: "bytes \<Rightarrow> usize \<Rightarrow> parse_error + unit" where
  "validate_destination_syntax action line =
     (if \<not> starts_with action (ascii ''mbox:'') \<and> \<not> starts_with action (ascii ''maildir:'') \<and>
         destination_has_literal_whitespace action
      then Inl (parse_error_new line (Rcm_Word Rcm_Destinations)) else Inr ())"

definition destination_path_expression :: "bytes \<Rightarrow> usize \<Rightarrow> bool \<Rightarrow> parse_error + path_expression" where
  "destination_path_expression source line typed =
     (case parse_command_expression source line of
        Inl e \<Rightarrow> Inl (expansion_parse_error e)
      | Inr expansion \<Rightarrow>
          Inr \<lparr>pe_source = source, pe_base = None, pe_line = line, pe_runtime_dependent = (expansion \<noteq> None),
               pe_runtime_base = False, pe_typed_destination = typed, pe_expansion = expansion\<rparr>)"

definition parse_capture_action_prefix :: "bytes \<Rightarrow> usize \<Rightarrow> parse_error + (bytes \<times> assignment_target) option" where
  "parse_capture_action_prefix action line =
     (case split_pair 61 124 action of
        None \<Rightarrow> Inr None
      | Some (name0, _) \<Rightarrow>
          (let name = str_trim name0
           in if \<not> valid_name name then Inr None
              else if length name > MAX_ASSIGNMENT_NAME_LEN then Inl (parse_error_new line (Rcm_Word Rcm_NameLimit))
              else and_then (rc_target name line (Rcm_Word (Rcm_NotCapturable name))) (\<lambda>target. Inr (Some (name, target)))))"

definition strip_sign :: "bytes \<Rightarrow> bytes" where
  "strip_sign s = (case s of b # bs \<Rightarrow> if b = 43 \<or> b = 45 then bs else s | [] \<Rightarrow> s)"

fun scoring_digits :: "bool \<Rightarrow> bool \<Rightarrow> bytes \<Rightarrow> bool" where
  "scoring_digits has_digit has_point [] \<longleftrightarrow> has_digit"
| "scoring_digits has_digit has_point (b # bs) \<longleftrightarrow>
     (if is_ascii_digit b then scoring_digits True has_point bs
      else if b = 46 \<and> \<not> has_point then scoring_digits has_digit True bs
      else False)"

definition is_scoring_number :: "bytes \<Rightarrow> bool" where
  "is_scoring_number s = scoring_digits False False (strip_sign s)"

definition has_scoring_prefix :: "bytes \<Rightarrow> bool" where
  "has_scoring_prefix s =
     (case split_once 94 s of
        None \<Rightarrow> False
      | Some (weight, rest) \<Rightarrow>
          (let exponent = takeWhile (\<lambda>b. \<not> is_ascii_whitespace b) (dropWhile is_ascii_whitespace rest)
           in is_scoring_number (str_trim_end weight) \<and> is_scoring_number exponent))"


section \<open>Header operations\<close>

definition MAX_HEADER_OPERATIONS_PER_ACTION :: usize where "MAX_HEADER_OPERATIONS_PER_ACTION = 256"

definition valid_header_name :: "bytes \<Rightarrow> bool" where
  "valid_header_name name \<longleftrightarrow> name \<noteq> [] \<and> list_all (\<lambda>b. (33 \<le> b \<and> b \<le> 57) \<or> (59 \<le> b \<and> b \<le> 126)) name"

definition validate_header_name :: "bytes \<Rightarrow> usize \<Rightarrow> parse_error + unit" where
  "validate_header_name name line = ensure (valid_header_name name) (parse_error_new line (Rcm_Header Rcm_HeaderName))"

definition validate_header_extraction_target :: "bytes \<Rightarrow> usize \<Rightarrow> parse_error + unit" where
  "validate_header_extraction_target name line =
     (if length name > MAX_ASSIGNMENT_NAME_LEN then Inl (parse_error_new line (Rcm_Word Rcm_NameLimit))
      else if \<not> valid_name name then Inl (parse_error_new line (Rcm_Header Rcm_ExtractTarget))
      else
        (let policy = variable_policy_of name
         in if policy = RcOrCommandLine Target_User then Inr ()
            else if policy = Unsupported then Inl (parse_error_new line (Rcm_Word (Rcm_Unsupported name)))
            else Inl (parse_error_new line (Rcm_Header (Rcm_ExtractProtected name)))))"

definition parse_header_value_source :: "bytes \<Rightarrow> usize \<Rightarrow> parse_error + header_value" where
  "parse_header_value_source v line =
     (if ends_with v [BACKSLASH] then Inl (parse_error_new line (Rcm_Header Rcm_ValueFolded))
      else if list_ex (\<lambda>b. b = CR \<or> b = LF \<or> b = 0) v then Inl (parse_error_new line (Rcm_Header Rcm_ValueByte))
      else Inr \<lparr>hv_source = v, hv_expansion = None\<rparr>)"

definition parse_remove :: "usize \<Rightarrow> bytes \<Rightarrow> parse_error + header_operation" where
  "parse_remove line rest =
     (case cursor_word rest of
        (rest1, Some name) \<Rightarrow>
          if \<not> snd (cursor_is_end rest1) then Inl (parse_error_new line (Rcm_Header Rcm_OperationRemove))
          else and_then (validate_header_name name line) (\<lambda>_. Inr (Op_Remove line name))
      | (_, None) \<Rightarrow> Inl (parse_error_new line (Rcm_Header Rcm_OperationRemove)))"

definition parse_rename :: "usize \<Rightarrow> bytes \<Rightarrow> parse_error + header_operation" where
  "parse_rename line rest =
     (let (rest1, old) = cursor_word rest; (rest2, separator) = cursor_keyword (ascii ''to'') rest1;
          (rest3, new) = cursor_word rest2
      in case (old, separator, new, snd (cursor_is_end rest3)) of
           (Some old, True, Some new, True) \<Rightarrow>
             and_then (validate_header_name old line) (\<lambda>_.
             and_then (validate_header_name new line) (\<lambda>_. Inr (Op_Rename line old new)))
         | _ \<Rightarrow> Inl (parse_error_new line (Rcm_Header Rcm_OperationRename)))"

definition extraction_mode :: "bytes \<Rightarrow> header_extraction_mode option" where
  "extraction_mode m =
     (if m = ascii ''raw'' then Some Raw else if m = ascii ''unfolded'' then Some Unfolded
      else if m = ascii ''decoded'' then Some Decoded else None)"

definition parse_extract :: "usize \<Rightarrow> bytes \<Rightarrow> parse_error + header_operation" where
  "parse_extract line rest =
     (let (rest1, mode) = cursor_word rest; (rest2, name) = cursor_word rest1;
          (rest3, separator) = cursor_keyword (ascii ''into'') rest2; (rest4, target) = cursor_word rest3
      in case (mode, name, separator, target, snd (cursor_is_end rest4)) of
           (Some mode, Some name, True, Some target, True) \<Rightarrow>
             (case extraction_mode mode of
                None \<Rightarrow> Inl (parse_error_new line (Rcm_Header Rcm_ExtractMode))
              | Some m \<Rightarrow>
                  and_then (validate_header_name name line) (\<lambda>_.
                  and_then (validate_header_extraction_target target line) (\<lambda>_. Inr (Op_Extract line name target m))))
         | _ \<Rightarrow> Inl (parse_error_new line (Rcm_Header Rcm_OperationExtract)))"

text \<open>The modes of \<open>keywords\<close> and \<open>status\<close>: \<open>clear\<close> takes nothing, the others a value.\<close>

definition parse_value_mode ::
    "bytes \<Rightarrow> usize \<Rightarrow> bytes \<Rightarrow> 'm \<Rightarrow> (header_value \<Rightarrow> 'm) \<Rightarrow> (header_value \<Rightarrow> 'm) \<Rightarrow> (header_value \<Rightarrow> 'm) \<Rightarrow>
     parse_error + 'm" where
  "parse_value_mode operation line rest clear add remove set_all =
     (case cursor_word rest of
        (_, None) \<Rightarrow> Inl (parse_error_new line (Rcm_Header (Rcm_OperationMode operation)))
      | (rest1, Some mode) \<Rightarrow>
          if mode = ascii ''clear'' then
            (if \<not> snd (cursor_is_end rest1) then Inl (parse_error_new line (Rcm_Header (Rcm_OperationNoArguments operation mode))) else Inr clear)
          else if mode \<notin> {ascii ''add'', ascii ''remove'', ascii ''set''} then
            Inl (parse_error_new line (Rcm_Header (Rcm_OperationModeUnknown operation)))
          else if snd (cursor_is_end rest1) then Inl (parse_error_new line (Rcm_Header (Rcm_OperationRequires operation mode)))
          else
            and_then (parse_header_value_source (snd (cursor_remainder rest1)) line) (\<lambda>v.
              Inr (if mode = ascii ''add'' then add v else if mode = ascii ''remove'' then remove v else set_all v)))"

definition priority_mode :: "bytes \<Rightarrow> header_priority_mode option" where
  "priority_mode m =
     (if m = ascii ''high'' then Some PriorityHigh else if m = ascii ''normal'' then Some PriorityNormal
      else if m = ascii ''low'' then Some PriorityLow else if m = ascii ''clear'' then Some PriorityClear else None)"

definition parse_priority :: "usize \<Rightarrow> bytes \<Rightarrow> parse_error + header_operation" where
  "parse_priority line rest =
     (case cursor_word rest of
        (_, None) \<Rightarrow> Inl (parse_error_new line (Rcm_Header (Rcm_OperationMode (ascii ''priority''))))
      | (rest1, Some mode) \<Rightarrow>
          (case priority_mode mode of
             None \<Rightarrow> Inl (parse_error_new line (Rcm_Header (Rcm_OperationModeUnknown (ascii ''priority''))))
           | Some m \<Rightarrow>
               if \<not> snd (cursor_is_end rest1)
               then Inl (parse_error_new line (Rcm_Header (Rcm_OperationNoArguments (ascii ''priority'') mode)))
               else Inr (Op_Priority line m)))"

definition parse_field_operation :: "bytes \<Rightarrow> usize \<Rightarrow> bytes \<Rightarrow> parse_error + header_operation" where
  "parse_field_operation operation line rest =
     (if operation \<notin> {ascii ''set'', ascii ''add'', ascii ''prepend''} then
        Inl (parse_error_new line (Rcm_Header (Rcm_OperationUnknown operation)))
      else
        (case cursor_word rest of
           (_, None) \<Rightarrow> Inl (parse_error_new line (Rcm_Header (Rcm_OperationName operation)))
         | (rest1, Some name) \<Rightarrow>
             and_then (parse_header_value_source (snd (cursor_remainder rest1)) line) (\<lambda>v.
             and_then (validate_header_name name line) (\<lambda>_.
               Inr (if operation = ascii ''set'' then Op_Set line name v
                    else if operation = ascii ''add'' then Op_Add line name v else Op_Prepend line name v)))))"

definition parse_header_operation :: "bytes \<Rightarrow> usize \<Rightarrow> parse_error + header_operation" where
  "parse_header_operation text line =
     (case cursor_word text of
        (_, None) \<Rightarrow> Inl (parse_error_new line (Rcm_Header Rcm_OperationEmpty))
      | (rest0, Some operation) \<Rightarrow>
          (let (rest, at_end) = cursor_is_end rest0
           in if at_end then Inl (parse_error_new line (Rcm_Header (Rcm_OperationArguments text)))
              else if operation = ascii ''remove'' then parse_remove line rest
              else if operation = ascii ''rename'' then parse_rename line rest
              else if operation = ascii ''extract'' then parse_extract line rest
              else if operation = ascii ''keywords'' then
                and_then (parse_value_mode operation line rest KeywordsClear KeywordsAdd KeywordsRemove KeywordsSet)
                  (\<lambda>m. Inr (Op_Keywords line m))
              else if operation = ascii ''priority'' then parse_priority line rest
              else if operation = ascii ''status'' then
                and_then (parse_value_mode operation line rest StatusClear StatusAdd StatusRemove StatusSet)
                  (\<lambda>m. Inr (Op_Status line m))
              else parse_field_operation operation line rest))"

text \<open>\<open>parse_header_action\<close>: \<open>index\<close> counts the lines after the opening one.\<close>

fun header_action_loop ::
    "usize \<Rightarrow> usize \<Rightarrow> usize \<Rightarrow> header_operation list \<Rightarrow> bytes list \<Rightarrow> parse_error + (header_operation list \<times> usize)" where
  "header_action_loop linebuf opening index operations [] = Inl (parse_error_new (opening + 1) (Rcm_Header Rcm_HeadersOpen))"
| "header_action_loop linebuf opening index operations (l # lines) =
     and_then (check_linebuf l (index + 1) linebuf) (\<lambda>_.
       let text = str_trim l
       in if text = [] \<or> starts_with text [HASH] then header_action_loop linebuf opening (index + 1) operations lines
          else if text = [125] then Inr (operations, index + 1)
          else if length operations = MAX_HEADER_OPERATIONS_PER_ACTION
          then Inl (parse_error_limit (index + 1) (Rcm_Budget Rcm_OperationLimit))
          else
            and_then (parse_header_operation text (index + 1)) (\<lambda>operation.
              header_action_loop linebuf opening (index + 1) (operations @ [operation]) lines))"

definition parse_header_action :: "bytes list \<Rightarrow> usize \<Rightarrow> usize \<Rightarrow> parse_error + (header_operation list \<times> usize)" where
  "parse_header_action lines opening linebuf =
     header_action_loop linebuf opening (opening + 1) [] (drop (opening + 1) lines)"

definition validate_header_action_recipe :: "bytes \<Rightarrow> bytes option \<Rightarrow> usize \<Rightarrow> parse_error + unit" where
  "validate_header_action_recipe fs lock line =
     (if lock \<noteq> None then Inl (parse_error_new line (Rcm_Header Rcm_HeadersLock))
      else
        (case List.find (\<lambda>c. c \<in> set (ascii ''hbfwWir'')) fs of
           Some c \<Rightarrow> Inl (parse_error_new line (Rcm_Header (Rcm_HeadersFlag c)))
         | None \<Rightarrow> Inr ()))"

end
