(* ===== verification/Rc_Conditions.thy ===== *)
theory Rc_Conditions
  imports Rc_Syntax Bounded_Bytes
begin

text \<open>
  The conditions of a recipe, \<open>src/config/parser.rs\<close>: the fields of structured conditions, multipart conditions, the
  translation of procmail's regular expressions, and \<open>parse_condition\<close>. The parser and the compiler of
  regular expressions belong to the crates \<open>regex-syntax\<close> and \<open>regex\<close>; they are a record of functions here.
\<close>

section \<open>Regular expressions\<close>

datatype assertion_kind = StartLine | EndLine | WordBoundaryStartAngle | WordBoundaryEndAngle | OtherAssertion

text \<open>The nodes of a syntax tree in the order of the visit; a literal says whether its escape was superfluous
  and whether it is a slash.\<close>

datatype regex_node =
    Node_Assertion usize usize assertion_kind
  | Node_Literal usize usize bool bool
  | Node_Other

record regex_frontend =
  rf_parse :: "bytes \<Rightarrow> bytes + regex_node list"
  rf_build :: "bytes \<Rightarrow> bool \<Rightarrow> bytes + (regex_program \<times> bytes option list)"

definition MAX_REGEX_PATTERN_LEN :: usize where "MAX_REGEX_PATTERN_LEN = 64 * 1024"
definition MAX_REGEX_CAPTURES :: usize where "MAX_REGEX_CAPTURES = 64"
definition MAX_REGEX_MATCH_MARKERS :: usize where "MAX_REGEX_MATCH_MARKERS = 64"

definition TO_ADDRESS :: bytes where
  "TO_ADDRESS =
     ascii ''(?:^(?:(?:Original-)?(?:Resent-)?(?:To|Cc|Bcc)|(?:X-Envelope|Apparently(?:-Resent)?)-To):('' @
     ascii ''?:.*[^-a-zA-Z0-9_.])?)''"

definition TO_WORD :: bytes where
  "TO_WORD =
     ascii ''(?:^(?:(?:Original-)?(?:Resent-)?(?:To|Cc|Bcc)|(?:X-Envelope|Apparently(?:-Resent)?)-To):('' @
     ascii ''?:.*[^a-zA-Z])?)''"

definition FROM_DAEMON :: bytes where
  "FROM_DAEMON =
     ascii ''(?:^(?:Mailing-List:|Precedence:.*(?:junk|bulk|list)|To: Multiple recipients of |(?:(?:(?:'' @
     ascii ''Resent-)?(?:From|Sender)|X-Envelope-From):|>?From )(?:[^>]*[^(.%@a-z0-9])?(?:Post(?:ma?(?:'' @
     ascii ''st(?:e?r)?|n)|office)|(?:send)?Mail(?:er)?|daemon|m(?:mdf|ajordomo)|n?uucp|LIST(?:SERV|pro'' @
     ascii ''c)|NETSERV|o(?:wner|ps)|r(?:e(?:quest|sponse)|oot)|b(?:ounce|bs'' @
     [92] @
     ascii ''.smtp)|echo|mirror|s(?:erv(?:ices?|er)|mtp(?:error)?|ystem)|A(?:dmin(?:istrator)?|MMGR|uto'' @
     ascii ''answer))(?:(?:[^).!:a-z0-9][-_a-z0-9]*'' @ ascii '')?[%@>'' @
     [9] @
     ascii '' ][^<)]*(?:'' @
     [92] @
     ascii ''(.*'' @
     [92] @
     ascii '').*'' @ ascii '')?)?$(?:[^>]|$)))''"

definition FROM_MAILER :: bytes where
  "FROM_MAILER =
     ascii ''(?:^(?:(?:(?:Resent-)?(?:From|Sender)|X-Envelope-From):|>?From )(?:[^>]*[^(.%@a-z0-9])?(?:'' @
     ascii ''Post(?:ma(?:st(?:er)?|n)|office)|(?:send)?Mail(?:er)?|daemon|mmdf|n?uucp|ops|r(?:esponse|o'' @
     ascii ''ot)|(?:bbs'' @
     [92] @
     ascii ''.)?smtp(?:error)?|s(?:erv(?:ices?|er)|ystem)|A(?:dmin(?:istrator)?|MMGR))(?:(?:[^).!:a-z0-'' @
     ascii ''9][-_a-z0-9]*'' @ ascii '')?[%@>'' @
     [9] @
     ascii '' ][^<)]*(?:'' @
     [92] @
     ascii ''(.*'' @
     [92] @
     ascii '').*'' @ ascii '')?)?$(?:[^>]|$))''"

definition MATCH_MARKER_PREFIX :: bytes where "MATCH_MARKER_PREFIX = ascii ''__procmail_rs_match_''"

definition match_marker_name :: "usize \<Rightarrow> bytes" where
  "match_marker_name index = MATCH_MARKER_PREFIX @ decimal index"

definition parse_regex_ast :: "regex_frontend \<Rightarrow> bytes \<Rightarrow> usize \<Rightarrow> parse_error + regex_node list" where
  "parse_regex_ast rx pattern line =
     (case rf_parse rx pattern of Inl m \<Rightarrow> Inl (parse_error_new line (Rcm_Regex (Rcm_RegexInvalid m))) | Inr nodes \<Rightarrow> Inr nodes)"

datatype regex_replacement = Static bytes | MatchMarker usize

record regex_edit =
  red_start :: usize
  red_end :: usize
  red_replacement :: regex_replacement

record regex_edits =
  res_edits :: "regex_edit list"
  res_markers :: usize
  res_force_insensitive :: bool

definition edits_covered :: "regex_edits \<Rightarrow> usize \<Rightarrow> bool" where
  "edits_covered es offset \<longleftrightarrow> (case last_opt (res_edits es) of None \<Rightarrow> False | Some e \<Rightarrow> offset < red_end e)"

definition edits_push :: "usize \<Rightarrow> usize \<Rightarrow> usize \<Rightarrow> regex_replacement \<Rightarrow> regex_edits \<Rightarrow> parse_error + regex_edits" where
  "edits_push line start stop r es =
     (if length (res_edits es) = MAX_REGEX_PATTERN_LEN then Inl (parse_error_new line (Rcm_Regex Rcm_RegexEdits))
      else Inr (es\<lparr>res_edits := res_edits es @ [\<lparr>red_start = start, red_end = stop, red_replacement = r\<rparr>]\<rparr>))"

definition visit_start_line :: "bytes \<Rightarrow> usize \<Rightarrow> usize \<Rightarrow> usize \<Rightarrow> regex_edits \<Rightarrow> parse_error + regex_edits" where
  "visit_start_line pattern line start stop es =
     (case get_from pattern start of
        None \<Rightarrow> Inl (parse_error_new line (Rcm_Regex Rcm_RegexSpan))
      | Some tail \<Rightarrow>
          if starts_with tail (ascii ''^^'') then
            (if start = 0 then edits_push line start (start + 2) (Static [92, 65]) es
             else if start + 2 = length pattern then edits_push line start (start + 2) (Static [92, 122]) es
             else Inl (parse_error_new line (Rcm_Regex Rcm_RegexAnchor)))
          else if starts_with tail (ascii ''^FROM_DAEMON'') then
            and_then (edits_push line start (start + 12) (Static FROM_DAEMON) es) (\<lambda>es1.
              Inr (es1\<lparr>res_force_insensitive := True\<rparr>))
          else if starts_with tail (ascii ''^FROM_MAILER'') then edits_push line start (start + 12) (Static FROM_MAILER) es
          else if starts_with tail (ascii ''^TO_'') then edits_push line start (start + 4) (Static TO_ADDRESS) es
          else if starts_with tail (ascii ''^TO'') then edits_push line start (start + 3) (Static TO_WORD) es
          else edits_push line start stop (Static (ascii ''(?:'' @ [92, 65, 124, 92, 110, 41])) es)"

definition visit_assertion ::
    "bytes \<Rightarrow> usize \<Rightarrow> usize \<Rightarrow> usize \<Rightarrow> assertion_kind \<Rightarrow> regex_edits \<Rightarrow> parse_error + regex_edits" where
  "visit_assertion pattern line start stop kind es =
     (if edits_covered es start then Inr es
      else
        (case kind of
           StartLine \<Rightarrow> visit_start_line pattern line start stop es
         | EndLine \<Rightarrow> edits_push line start stop (Static (ascii ''(?:'' @ [92, 110, 124, 92, 122, 41])) es
         | OtherAssertion \<Rightarrow> Inr es
         | _ \<Rightarrow> edits_push line start stop (Static (ascii ''[^a-zA-Z0-9_]'')) es))"

text \<open>\<open>str::get\<close> with a range.\<close>

definition str_get :: "bytes \<Rightarrow> usize \<Rightarrow> usize \<Rightarrow> bytes option" where
  "str_get s a b =
     (if a \<le> b \<and> b \<le> length s \<and> is_char_boundary s a \<and> is_char_boundary s b then Some (slice s a b) else None)"

definition visit_literal ::
    "bytes \<Rightarrow> usize \<Rightarrow> usize \<Rightarrow> usize \<Rightarrow> bool \<Rightarrow> bool \<Rightarrow> regex_edits \<Rightarrow> parse_error + regex_edits" where
  "visit_literal pattern line start stop superfluous slash es =
     (if \<not> superfluous \<or> \<not> slash \<or> str_get pattern start stop \<noteq> Some [92, 47] then Inr es
      else if res_markers es = MAX_REGEX_MATCH_MARKERS then Inl (parse_error_new line (Rcm_Regex Rcm_RegexMarkers))
      else edits_push line start stop (MatchMarker (res_markers es)) (es\<lparr>res_markers := res_markers es + 1\<rparr>))"

fun visit_pre :: "bytes \<Rightarrow> usize \<Rightarrow> regex_node \<Rightarrow> regex_edits \<Rightarrow> parse_error + regex_edits" where
  "visit_pre pattern line (Node_Assertion start stop kind) es = visit_assertion pattern line start stop kind es"
| "visit_pre pattern line (Node_Literal start stop superfluous slash) es =
     visit_literal pattern line start stop superfluous slash es"
| "visit_pre pattern line Node_Other es = Inr es"

fun visit_nodes :: "bytes \<Rightarrow> usize \<Rightarrow> regex_node list \<Rightarrow> regex_edits \<Rightarrow> parse_error + regex_edits" where
  "visit_nodes pattern line [] es = Inr (es\<lparr>res_edits := sort_key red_start (res_edits es)\<rparr>)"
| "visit_nodes pattern line (n # ns) es = and_then (visit_pre pattern line n es) (visit_nodes pattern line ns)"

definition push_regex_bytes :: "usize \<Rightarrow> bytes \<Rightarrow> bytes \<Rightarrow> parse_error + bytes" where
  "push_regex_bytes line output v =
     (case try_extend_vec output MAX_REGEX_PATTERN_LEN v of
        Inl LengthOverflow \<Rightarrow> Inl (parse_error_new line (Rcm_Regex Rcm_RegexOverflow))
      | Inl (BytesLimitExceeded _) \<Rightarrow> Inl (parse_error_new line (Rcm_Regex Rcm_RegexExpanded))
      | Inr output1 \<Rightarrow> Inr output1)"

fun replacement_text :: "regex_replacement \<Rightarrow> bytes" where
  "replacement_text (Static t) = t"
| "replacement_text (MatchMarker index) = ascii ''(?P<'' @ match_marker_name index @ ascii ''>)''"

fun render_loop :: "bytes \<Rightarrow> usize \<Rightarrow> bytes \<Rightarrow> usize \<Rightarrow> regex_edit list \<Rightarrow> parse_error + bytes" where
  "render_loop pattern line output cursor [] =
     (case str_get pattern cursor (length pattern) of
        None \<Rightarrow> Inl (parse_error_new line (Rcm_Regex Rcm_RegexSplit))
      | Some source \<Rightarrow> push_regex_bytes line output source)"
| "render_loop pattern line output cursor (e # es) =
     (if red_start e < cursor \<or> red_end e < red_start e \<or> red_end e > length pattern then
        Inl (parse_error_new line (Rcm_Regex Rcm_RegexOverlap))
      else
        (case str_get pattern cursor (red_start e) of
           None \<Rightarrow> Inl (parse_error_new line (Rcm_Regex Rcm_RegexSplit))
         | Some source \<Rightarrow>
             and_then (push_regex_bytes line output source) (\<lambda>output1.
             and_then (push_regex_bytes line output1 (replacement_text (red_replacement e))) (\<lambda>output2.
               render_loop pattern line output2 (red_end e) es))))"

definition edits_render :: "bytes \<Rightarrow> usize \<Rightarrow> regex_edits \<Rightarrow> parse_error + bytes" where
  "edits_render pattern line es =
     and_then (render_loop pattern line [] 0 (res_edits es)) (\<lambda>output.
       if valid_utf8 output then Inr output else Inl (parse_error_new line (Rcm_Regex Rcm_RegexUtf8)))"

definition prepare_condition_regex :: "regex_frontend \<Rightarrow> bytes \<Rightarrow> usize \<Rightarrow> parse_error + (bytes \<times> usize \<times> bool)" where
  "prepare_condition_regex rx pattern line =
     and_then (parse_regex_ast rx pattern line) (\<lambda>nodes.
     and_then (visit_nodes pattern line nodes \<lparr>res_edits = [], res_markers = 0, res_force_insensitive = False\<rparr>) (\<lambda>es.
     and_then (edits_render pattern line es) (\<lambda>output.
     and_then (parse_regex_ast rx output line) (\<lambda>_.
       Inr (output, res_markers es, res_force_insensitive es)))))"

fun marker_captures :: "usize \<Rightarrow> bytes option list \<Rightarrow> usize list \<Rightarrow> parse_error + usize list" where
  "marker_captures line names [] = Inr []"
| "marker_captures line names (m # ms) =
     (case position (\<lambda>n. n = Some (match_marker_name m)) names of
        None \<Rightarrow> Inl (parse_error_new line (Rcm_Regex Rcm_RegexMarkerMissing))
      | Some i \<Rightarrow> and_then (marker_captures line names ms) (\<lambda>is. Inr (i # is)))"

definition compile_condition_regex :: "regex_frontend \<Rightarrow> bytes \<Rightarrow> usize \<Rightarrow> bool \<Rightarrow> parse_error + regex_condition" where
  "compile_condition_regex rx pattern line case_sensitive =
     (if length pattern > MAX_REGEX_PATTERN_LEN then Inl (parse_error_new line (Rcm_Regex Rcm_RegexLimit))
      else
        and_then (prepare_condition_regex rx pattern line) (\<lambda>(compiled_pattern, markers, force_insensitive).
          (case rf_build rx compiled_pattern (case_sensitive \<and> \<not> force_insensitive) of
             Inl m \<Rightarrow> Inl (parse_error_new line (Rcm_Regex (Rcm_RegexInvalid m)))
           | Inr (program, names) \<Rightarrow>
               and_then (marker_captures line names [0..<markers]) (\<lambda>match_captures.
                 if list_ex (\<lambda>i. names ! i \<noteq> None \<and> i \<notin> set match_captures) [0..<length names] then
                   Inl (parse_error_new line (Rcm_Regex Rcm_RegexNamed))
                 else
                   let indexes = filter (\<lambda>i. i \<notin> set match_captures) [1..<length names]
                   in if length indexes > MAX_REGEX_CAPTURES then Inl (parse_error_new line (Rcm_Regex Rcm_RegexCaptures))
                      else Inr \<lparr>rx_pattern = pattern, rx_compiled = program, rx_match_captures = match_captures,
                                rx_capture_indexes = indexes\<rparr>))))"

section \<open>Structured targets\<close>

datatype regex_target =
    Crt_Variable bytes
  | Crt_Area condition_input
  | Crt_Address "address_field list"
  | Crt_Identifier "identifier_field list"
  | Crt_Keyword "keyword_field list"

definition ADDRESS_RECIPIENT :: "address_field list" where
  "ADDRESS_RECIPIENT = [AF_To, AF_Cc, AF_ResentTo, AF_ResentCc, AF_DeliveredTo, AF_XOriginalTo, AF_EnvelopeTo]"

definition ADDRESS_DELIVERED :: "address_field list" where
  "ADDRESS_DELIVERED = [AF_DeliveredTo, AF_XOriginalTo, AF_EnvelopeTo]"

definition ADDRESS_SENDER :: "address_field list" where
  "ADDRESS_SENDER = [AF_From, AF_Sender, AF_ReplyTo, AF_ResentFrom, AF_ResentSender]"

definition IDENTIFIER_THREAD :: "identifier_field list" where
  "IDENTIFIER_THREAD = [IF_MessageId, IF_InReplyTo, IF_References]"

definition ADDRESS_FIELDS :: "address_field list" where
  "ADDRESS_FIELDS = [AF_From, AF_To, AF_Cc, AF_Sender, AF_ReplyTo, AF_DeliveredTo, AF_XOriginalTo, AF_EnvelopeTo,
     AF_ResentFrom, AF_ResentSender, AF_ResentTo, AF_ResentCc]"

definition IDENTIFIER_FIELDS :: "identifier_field list" where
  "IDENTIFIER_FIELDS = [IF_ListId, IF_MessageId, IF_InReplyTo, IF_References]"

text \<open>The fields are written the way their names are, in any case.\<close>

definition address_group :: "bytes \<Rightarrow> address_field list option" where
  "address_group name =
     (if eq_ignore_ascii_case name (ascii ''%recipient'') then Some ADDRESS_RECIPIENT
      else if eq_ignore_ascii_case name (ascii ''%delivered'') then Some ADDRESS_DELIVERED
      else if eq_ignore_ascii_case name (ascii ''%sender'') then Some ADDRESS_SENDER
      else None)"

definition address_field_of :: "bytes \<Rightarrow> address_field option" where
  "address_field_of name = List.find (\<lambda>f. eq_ignore_ascii_case (address_field_name f) name) ADDRESS_FIELDS"

definition identifier_group :: "bytes \<Rightarrow> identifier_field list option" where
  "identifier_group name = (if eq_ignore_ascii_case name (ascii ''%thread'') then Some IDENTIFIER_THREAD else None)"

definition identifier_field_of :: "bytes \<Rightarrow> identifier_field option" where
  "identifier_field_of name = List.find (\<lambda>f. eq_ignore_ascii_case (identifier_field_name f) name) IDENTIFIER_FIELDS"

definition keyword_field_of :: "bytes \<Rightarrow> keyword_field option" where
  "keyword_field_of name = List.find (\<lambda>f. eq_ignore_ascii_case (keyword_field_name f) name) KEYWORD_FIELDS_ALL"

fun push_fields :: "structured_kind \<Rightarrow> ('f \<Rightarrow> bytes) \<Rightarrow> usize \<Rightarrow> 'f list \<Rightarrow> 'f list \<Rightarrow> parse_error + 'f list" where
  "push_fields kind label line chosen [] = Inr chosen"
| "push_fields kind label line chosen (f # fs) =
     (if f \<in> set chosen then Inl (parse_error_new line (Rcm_Condition (Rcm_FieldRepeated kind (label f))))
      else push_fields kind label line (chosen @ [f]) fs)"

text \<open>The loop over the items of a list; a list of keyword fields has neither groups nor a message for empty items.\<close>

fun collect_fields ::
    "structured_kind \<Rightarrow> (bytes \<Rightarrow> 'f list option) \<Rightarrow> (bytes \<Rightarrow> 'f option) \<Rightarrow> ('f \<Rightarrow> bytes) \<Rightarrow> usize \<Rightarrow> 'f list \<Rightarrow>
     bytes list \<Rightarrow> parse_error + 'f list" where
  "collect_fields kind group_of field_of label line chosen [] = Inr chosen"
| "collect_fields kind group_of field_of label line chosen (item # items) =
     (let name = str_trim item
      in if name = [] \<and> kind \<noteq> Structured_Keyword then Inl (parse_error_new line (Rcm_Condition (Rcm_FieldEmpty kind)))
         else
           and_then
             (case group_of name of
                Some fs \<Rightarrow> push_fields kind label line chosen fs
              | None \<Rightarrow>
                  (case field_of name of
                     None \<Rightarrow> Inl (parse_error_new line (Rcm_Condition (Rcm_FieldUnsupported kind name)))
                   | Some f \<Rightarrow> push_fields kind (\<lambda>_. name) line chosen [f]))
             (\<lambda>chosen1. collect_fields kind group_of field_of label line chosen1 items))"

definition structured_rest :: "bytes \<Rightarrow> bytes \<Rightarrow> bytes option" where
  "structured_rest keyword input =
     (case strip_prefix input keyword of
        Some (b # bs) \<Rightarrow> if is_ascii_whitespace b then Some (str_trim_start (b # bs)) else None
      | _ \<Rightarrow> None)"

definition split_items :: "bytes \<Rightarrow> bytes list" where
  "split_items s = split_on (\<lambda>b. b = 44) s"

text \<open>The part that the three kinds of structured conditions share: \<open>FIELD-LIST ?? REGEX\<close>, where an empty list is
  not a structured condition.\<close>

definition structured_target ::
    "structured_kind \<Rightarrow> (bytes \<Rightarrow> parse_error + regex_target) \<Rightarrow> bytes \<Rightarrow> usize \<Rightarrow>
     parse_error + (regex_target \<times> bytes) option" where
  "structured_target kind fields_of rest line =
     (case split_pair 63 63 rest of
        None \<Rightarrow> Inl (parse_error_new line (Rcm_Condition (Rcm_StructuredSyntax kind)))
      | Some (field_text0, pattern) \<Rightarrow>
          (let field_text = str_trim field_text0
           in if field_text = [] then Inr None
              else and_then (fields_of field_text) (\<lambda>target. Inr (Some (target, str_trim_start pattern)))))"

definition structured_condition_target ::
    "bytes \<Rightarrow> usize \<Rightarrow> parse_error + (regex_target \<times> bytes) option" where
  "structured_condition_target input line =
     (case structured_rest (ascii ''address'') input of
        Some rest \<Rightarrow>
          structured_target Structured_Address
            (\<lambda>t. and_then (collect_fields Structured_Address address_group address_field_of address_field_name line []
                             (split_items t)) (\<lambda>fs. Inr (Crt_Address fs)))
            rest line
      | None \<Rightarrow>
     (case structured_rest (ascii ''identifier'') input of
        Some rest \<Rightarrow>
          structured_target Structured_Identifier
            (\<lambda>t. and_then (collect_fields Structured_Identifier identifier_group identifier_field_of
                             identifier_field_name line [] (split_items t)) (\<lambda>fs. Inr (Crt_Identifier fs)))
            rest line
      | None \<Rightarrow>
     (case structured_rest (ascii ''keyword'') input of
        Some rest \<Rightarrow>
          structured_target Structured_Keyword
            (\<lambda>t. if eq_ignore_ascii_case t (ascii ''all'') then Inr (Crt_Keyword KEYWORD_FIELDS_ALL)
                 else and_then (collect_fields Structured_Keyword (\<lambda>_. None) keyword_field_of keyword_field_name line []
                                  (split_items t)) (\<lambda>fs. Inr (Crt_Keyword fs)))
            rest line
      | None \<Rightarrow> Inr None)))"

definition condition_regex_target :: "bytes \<Rightarrow> usize \<Rightarrow> parse_error + (regex_target option \<times> bytes)" where
  "condition_regex_target input line =
     (let name = takeWhile (\<lambda>b. b = 95 \<or> is_ascii_alphanumeric b) input;
          rest = str_trim_start (drop (length name) input)
      in case strip_prefix rest (ascii ''??'') of
           None \<Rightarrow> Inr (None, input)
         | Some pattern \<Rightarrow>
             if (case name of [] \<Rightarrow> True | b # _ \<Rightarrow> \<not> (b = 95 \<or> is_ascii_alphabetic b)) then
               Inl (parse_error_new line (Rcm_Condition Rcm_VariableName))
             else if length name > MAX_ASSIGNMENT_NAME_LEN then Inl (parse_error_new line (Rcm_Condition Rcm_VariableNameLimit))
             else
               Inr (Some (if name = ascii ''H'' then Crt_Area CI_Headers
                          else if name = ascii ''B'' then Crt_Area CI_Body
                          else if name = ascii ''HB'' \<or> name = ascii ''BH'' then Crt_Area CI_Message
                          else Crt_Variable name), str_trim_start pattern))"

section \<open>Multipart conditions\<close>

definition starts_whitespace :: "bytes \<Rightarrow> bool" where
  "starts_whitespace s \<longleftrightarrow> (case chars s of c # _ \<Rightarrow> char_is_whitespace c | [] \<Rightarrow> False)"

definition is_multipart_block_start :: "bytes \<Rightarrow> bool option" where
  "is_multipart_block_start input =
     Option.bind (strip_prefix (str_trim_start input) [42]) (\<lambda>rest0.
       case strip_negations False rest0 of
         (negated, rest) \<Rightarrow>
           Option.bind (strip_prefix (str_trim rest) (ascii ''multipart'')) (\<lambda>after.
             if \<not> starts_whitespace after \<and> \<not> starts_with after [123] then None
             else
               Option.bind (strip_prefix (str_trim_start after) [123]) (\<lambda>after_brace0.
                 let after_brace = str_trim after_brace0
                 in if after_brace = [] \<or> starts_with after_brace [HASH] then Some negated else None)))"

definition multipart_selector :: "bytes \<Rightarrow> multipart_field option" where
  "multipart_selector name =
     (let s = map to_ascii_lowercase name; plain = (case s of b # bs \<Rightarrow> if b = 37 then bs else s | [] \<Rightarrow> [])
      in if plain \<in> {ascii ''mimetype'', ascii ''mime-type'', ascii ''content-type''} then Some MF_MimeType
         else if plain \<in> {ascii ''disposition'', ascii ''content-disposition''} then Some MF_Disposition
         else if plain \<in> {ascii ''filename'', ascii ''name''} then Some MF_Filename
         else None)"

definition parse_multipart_check ::
    "regex_frontend \<Rightarrow> bytes \<Rightarrow> usize \<Rightarrow> bool \<Rightarrow> parse_budget \<Rightarrow> usize \<Rightarrow> parse_error + multipart_check" where
  "parse_multipart_check rx input line case_sensitive b recipe_regexes =
     (case split_pair 63 63 input of
        None \<Rightarrow> Inl (parse_error_new line (Rcm_Condition Rcm_MultipartSyntax))
      | Some (field_text0, pattern) \<Rightarrow>
          (let trimmed = str_trim field_text0;
               field_text =
                 (case strip_prefix trimmed (ascii ''multipart'') of
                    Some rest \<Rightarrow> if starts_whitespace rest then str_trim_start rest else trimmed
                  | None \<Rightarrow> trimmed)
           in case multipart_selector field_text of
                None \<Rightarrow> Inl (parse_error_new line (Rcm_Condition (Rcm_MultipartSelector field_text)))
              | Some field \<Rightarrow>
                  and_then (check_regex b recipe_regexes line) (\<lambda>_.
                  and_then (compile_condition_regex rx (str_trim_start pattern) line case_sensitive) (\<lambda>regex.
                    Inr \<lparr>mc_field = field, mc_regex = regex\<rparr>))))"

fun multipart_loop ::
    "regex_frontend \<Rightarrow> usize \<Rightarrow> bool \<Rightarrow> bool \<Rightarrow> parse_budget \<Rightarrow> usize \<Rightarrow> multipart_check list \<Rightarrow> usize \<Rightarrow> bytes list \<Rightarrow>
     parse_error + (condition \<times> usize \<times> usize)" where
  "multipart_loop rx opening negated case_sensitive b index checks recipe_regexes [] =
     Inl (parse_error_new (opening + 1) (Rcm_Condition Rcm_MultipartOpen))"
| "multipart_loop rx opening negated case_sensitive b index checks recipe_regexes (l # lines) =
     and_then (check_line b l (index + 1)) (\<lambda>_.
       let text = str_trim l
       in if text = [] \<or> starts_with text [HASH] then
            multipart_loop rx opening negated case_sensitive b (index + 1) checks recipe_regexes lines
          else if text = [125] then
            (if checks = [] then Inl (parse_error_new (opening + 1) (Rcm_Condition Rcm_MultipartEmpty))
             else Inr (\<lparr>cd_line = opening + 1, cd_negated = negated, cd_kind = CK_Multipart checks\<rparr>, recipe_regexes, index + 1))
          else
            and_then (parse_multipart_check rx text (index + 1) case_sensitive b recipe_regexes) (\<lambda>check.
              if mc_field check \<in> mc_field ` set checks then
                Inl (parse_error_new (index + 1) (Rcm_Condition (Rcm_MultipartRepeated (mc_field check))))
              else
                (case checked_add recipe_regexes 1 of
                   None \<Rightarrow> Inl (parse_error_new (index + 1) (Rcm_Recipe Rcm_RegexCount))
                 | Some n \<Rightarrow> multipart_loop rx opening negated case_sensitive b (index + 1) (checks @ [check]) n lines)))"

definition parse_multipart_block ::
    "regex_frontend \<Rightarrow> bytes list \<Rightarrow> usize \<Rightarrow> bool \<Rightarrow> bool \<Rightarrow> usize \<Rightarrow> parse_budget \<Rightarrow>
     parse_error + (condition \<times> usize \<times> usize)" where
  "parse_multipart_block rx lines opening negated case_sensitive recipe_regexes b =
     multipart_loop rx opening negated case_sensitive b (opening + 1) [] recipe_regexes (drop (opening + 1) lines)"

definition parse_single_line_multipart ::
    "regex_frontend \<Rightarrow> bytes \<Rightarrow> usize \<Rightarrow> bool \<Rightarrow> usize \<Rightarrow> parse_budget \<Rightarrow> parse_error + (condition_kind \<times> bool) option" where
  "parse_single_line_multipart rx input line case_sensitive recipe_regexes b =
     (case strip_prefix input (ascii ''multipart'') of
        None \<Rightarrow> Inr None
      | Some rest0 \<Rightarrow>
          if \<not> starts_whitespace rest0 \<and> \<not> starts_with rest0 [123] then Inr None
          else
            let rest = str_trim_start rest0
            in if rest = [] \<or> starts_with rest (ascii ''??'') then Inr None
               else
                 (case strip_prefix rest [123] of
                    Some after_brace \<Rightarrow>
                      (case strip_suffix (str_trim after_brace) [125] of
                         None \<Rightarrow> Inl (parse_error_new line (Rcm_Condition Rcm_MultipartOpen))
                       | Some inner0 \<Rightarrow>
                           (let inner = str_trim inner0
                            in if inner = [] then Inl (parse_error_new line (Rcm_Condition Rcm_MultipartEmpty))
                               else
                                 and_then (parse_multipart_check rx inner line case_sensitive b recipe_regexes) (\<lambda>check.
                                   Inr (Some (CK_Multipart [check], True)))))
                  | None \<Rightarrow>
                      and_then (parse_multipart_check rx rest line case_sensitive b recipe_regexes) (\<lambda>check.
                        Inr (Some (CK_Multipart [check], True)))))"

section \<open>Conditions\<close>

definition parse_condition_size :: "bytes \<Rightarrow> usize \<Rightarrow> parse_error + usize" where
  "parse_condition_size input line =
     (case parse_u64 (str_trim input) of None \<Rightarrow> Inl (parse_error_new line (Rcm_Condition Rcm_Size)) | Some n \<Rightarrow> Inr n)"

definition validate_program_condition :: "bytes \<Rightarrow> usize \<Rightarrow> parse_error + unit" where
  "validate_program_condition command line =
     (if command = [] then Inl (parse_error_new line (Rcm_Condition Rcm_ProgramEmpty))
      else if length command > MAX_PIPE_COMMAND_LEN then Inl (parse_error_limit line (Rcm_Condition Rcm_ProgramLimit))
      else if 0 \<in> set command then Inl (parse_error_new line (Rcm_Condition Rcm_ProgramNul))
      else Inr ())"

fun target_kind :: "regex_target option \<Rightarrow> regex_condition \<Rightarrow> condition_kind" where
  "target_kind (Some (Crt_Variable name)) regex = CK_VariableRegex name regex"
| "target_kind (Some (Crt_Area area)) regex = CK_AreaRegex area regex"
| "target_kind (Some (Crt_Address chosen)) regex = CK_AddressRegex chosen regex"
| "target_kind (Some (Crt_Identifier chosen)) regex = CK_IdentifierRegex chosen regex"
| "target_kind (Some (Crt_Keyword chosen)) regex = CK_KeywordRegex chosen regex"
| "target_kind None regex = CK_Regex regex"

definition regex_condition_kind ::
    "regex_frontend \<Rightarrow> bytes \<Rightarrow> usize \<Rightarrow> bool \<Rightarrow> usize \<Rightarrow> parse_budget \<Rightarrow> parse_error + condition_kind" where
  "regex_condition_kind rx input line case_sensitive recipe_regexes b =
     and_then (check_regex b recipe_regexes line) (\<lambda>_.
     and_then (structured_condition_target input line) (\<lambda>structured.
     and_then (case structured of
                 Some (target, pattern) \<Rightarrow> Inr (Some target, pattern)
               | None \<Rightarrow> condition_regex_target input line) (\<lambda>(target, pattern).
     and_then (compile_condition_regex rx pattern line case_sensitive) (\<lambda>regex. Inr (target_kind target regex)))))"

text \<open>The kinds that their first character announces, and whether they count as a regular expression.\<close>

definition plain_condition_kind ::
    "regex_frontend \<Rightarrow> bytes \<Rightarrow> usize \<Rightarrow> bool \<Rightarrow> usize \<Rightarrow> parse_budget \<Rightarrow> parse_error + (condition_kind \<times> bool)" where
  "plain_condition_kind rx input line case_sensitive recipe_regexes b =
     (case strip_prefix input [DOLLAR] of
        Some source \<Rightarrow> Inr (CK_ShellExpanded source None, True)
      | None \<Rightarrow>
     (case strip_prefix input [60] of
        Some v \<Rightarrow> and_then (parse_condition_size v line) (\<lambda>n. Inr (CK_SmallerThan n, False))
      | None \<Rightarrow>
     (case strip_prefix input [62] of
        Some v \<Rightarrow> and_then (parse_condition_size v line) (\<lambda>n. Inr (CK_LargerThan n, False))
      | None \<Rightarrow>
     (case strip_prefix input [63] of
        Some command \<Rightarrow>
          and_then (validate_program_condition (str_trim_start command) line) (\<lambda>_. Inr (CK_Program (str_trim_start command), False))
      | None \<Rightarrow>
          and_then (regex_condition_kind rx input line case_sensitive recipe_regexes b) (\<lambda>kind. Inr (kind, True))))))"

definition parse_condition ::
    "regex_frontend \<Rightarrow> bytes \<Rightarrow> usize \<Rightarrow> bool \<Rightarrow> usize \<Rightarrow> parse_budget \<Rightarrow> parse_error + (condition \<times> bool)" where
  "parse_condition rx input0 line case_sensitive recipe_regexes b =
     (case strip_negations False (str_trim input0) of
        (negated, input) \<Rightarrow>
          if input = [] then Inl (parse_error_new line (Rcm_Condition Rcm_ConditionEmpty))
          else if has_scoring_prefix input then Inl (parse_error_new line (Rcm_Condition Rcm_ConditionWeighted))
          else
            and_then (parse_single_line_multipart rx input line case_sensitive recipe_regexes b) (\<lambda>multipart.
            and_then (case multipart of
                        Some kind \<Rightarrow> Inr kind
                      | None \<Rightarrow> plain_condition_kind rx input line case_sensitive recipe_regexes b) (\<lambda>(kind, is_regex).
              Inr (\<lparr>cd_line = line, cd_negated = negated, cd_kind = kind\<rparr>, is_regex))))"

definition parse_reparsed_condition :: "regex_frontend \<Rightarrow> bytes \<Rightarrow> usize \<Rightarrow> bool \<Rightarrow> parse_error + condition" where
  "parse_reparsed_condition rx input line case_sensitive =
     and_then (parse_condition rx input line case_sensitive 0 budget_default) (\<lambda>(c, _). Inr c)"

end
