(* ===== verification/Rc_Parser.thy ===== *)
theory Rc_Parser
  imports Rc_Conditions
begin

text \<open>
  The recipes and statements of an rc file, \<open>src/config/parser.rs\<close>: \<open>parse_recipe\<close>, \<open>parse_statements\<close> and
  \<open>parse_with_state\<close>. A recipe block is parsed by the same function as the file around it; the recursion takes
  fuel, and running out of it is the value \<open>None\<close>.
\<close>

section \<open>The lines of a recipe\<close>

lemma continue_command_next:
  "continue_command linebuf start use index full physical command rest = Inr (c, n) \<Longrightarrow> index < n"
proof (induction rest arbitrary: index full physical command)
  case Nil
  then show ?case by (simp add: continue_command.simps [of _ _ _ _ _ _ _ "[]"] Let_def split: sum.splits option.splits if_splits)
next
  case (Cons l ls)
  from Cons.prems show ?case
    by (simp add: continue_command.simps [of _ _ _ _ _ _ _ "l # ls"] Let_def split: sum.splits option.splits if_splits)
      (auto dest: Cons.IH)
qed

lemma continue_condition_next:
  "continue_condition linebuf start preserve index full physical condition rest = Inr (c, n) \<Longrightarrow> index < n"
proof (induction rest arbitrary: index full physical condition)
  case Nil
  then show ?case by (simp add: continue_condition.simps [of _ _ _ _ _ _ _ "[]"] Let_def split: sum.splits option.splits if_splits)
next
  case (Cons l ls)
  from Cons.prems show ?case
    by (simp add: continue_condition.simps [of _ _ _ _ _ _ _ "l # ls"] Let_def split: sum.splits option.splits if_splits)
      (auto dest: Cons.IH)
qed

lemma parse_command_continuation_next:
  "parse_command_continuation lines start t linebuf use = Inr (c, n) \<Longrightarrow> start < n"
  by (auto simp: parse_command_continuation_def split: sum.splits if_splits dest: continue_command_next)

lemma parse_condition_continuation_next:
  "parse_condition_continuation lines start linebuf = Inr (c, n) \<Longrightarrow> start < n"
  by (auto simp: parse_condition_continuation_def split: option.splits dest: continue_condition_next)

lemma multipart_loop_next:
  "multipart_loop rx opening negated cs b index checks regexes lines = Inr (c, r, n) \<Longrightarrow> index < n"
  by (induction lines arbitrary: index checks regexes)
    (auto simp: Let_def split: if_splits option.splits, (fastforce dest: Suc_lessD)+)

lemma parse_multipart_block_next:
  "parse_multipart_block rx lines opening negated cs regexes b = Inr (c, r, n) \<Longrightarrow> opening < n"
  unfolding parse_multipart_block_def by (drule multipart_loop_next) simp

lemma header_action_loop_next:
  "header_action_loop linebuf opening index operations lines = Inr (ops, n) \<Longrightarrow> index < n"
  by (induction lines arbitrary: index operations) (auto simp: Let_def split: if_splits, (fastforce dest: Suc_lessD)+)

lemma parse_header_action_next: "parse_header_action lines opening linebuf = Inr (ops, n) \<Longrightarrow> opening < n"
  unfolding parse_header_action_def by (drule header_action_loop_next) simp

text \<open>The loop over the conditions of a recipe; it stops at the line of the action.\<close>

function recipe_conditions ::
    "regex_frontend \<Rightarrow> bytes list \<Rightarrow> bool \<Rightarrow> parse_budget \<Rightarrow> condition list \<Rightarrow> usize \<Rightarrow> usize \<Rightarrow>
     parse_error + (condition list \<times> usize \<times> usize)" where
  "recipe_conditions rx lines case_sensitive b conditions regexes index =
     (if index < length lines then
        and_then (check_line b (lines ! index) (index + 1)) (\<lambda>_.
          let line = str_trim (lines ! index)
          in if line = [] \<or> starts_with line [HASH] then
               recipe_conditions rx lines case_sensitive b conditions regexes (index + 1)
             else if starts_with line [42] then
               and_then (check_condition b (length conditions) (index + 1)) (\<lambda>_.
                 case is_multipart_block_start line of
                   Some negated \<Rightarrow>
                     and_then (parse_multipart_block rx lines index negated case_sensitive regexes b) (\<lambda>(c, n, next_line).
                       recipe_conditions rx lines case_sensitive b (conditions @ [c]) n next_line)
                 | None \<Rightarrow>
                     and_then (parse_condition_continuation lines index (rl_linebuf (pb_limits b))) (\<lambda>(source, next_line).
                     and_then (parse_condition rx source (index + 1) case_sensitive regexes b) (\<lambda>(c, is_regex).
                       case checked_add regexes (if is_regex then 1 else 0) of
                         None \<Rightarrow> Inl (parse_error_new (index + 1) (Rcm_Recipe Rcm_RegexCount))
                       | Some n \<Rightarrow> recipe_conditions rx lines case_sensitive b (conditions @ [c]) n next_line)))
             else Inr (conditions, regexes, index))
      else Inr (conditions, regexes, index))"
  by pat_completeness auto
termination
  by (relation "measure (\<lambda>(rx, lines, cs, b, conditions, regexes, index). length lines - index)")
    (auto dest: parse_multipart_block_next parse_condition_continuation_next)

declare recipe_conditions.simps [simp del]

section \<open>Recipes\<close>

definition parse_pipe_command :: "bytes list \<Rightarrow> usize \<Rightarrow> usize \<Rightarrow> parse_error + (bytes \<times> usize)" where
  "parse_pipe_command lines start linebuf =
     (case strip_prefix (str_trim_start (lines ! start)) [124] of
        None \<Rightarrow> Inl (parse_error_new (start + 1) (Rcm_Recipe Rcm_PipePanic))
      | Some rest \<Rightarrow>
          (let physical = str_trim_start rest
           in if physical = [] then Inr ([], start + 1)
              else parse_command_continuation lines start physical linebuf Use_Pipe))"

text \<open>The action of a recipe, as its first line shows it.\<close>

datatype action_shape =
    Shape_Capture bytes assignment_target
  | Shape_Pipe
  | Shape_Headers
  | Shape_Block
  | Shape_Destination

definition shape_of_action :: "bytes \<Rightarrow> usize \<Rightarrow> parse_error + action_shape" where
  "shape_of_action action line =
     and_then (parse_capture_action_prefix action line) (\<lambda>capture.
       Inr (case capture of
              Some (name, target) \<Rightarrow> Shape_Capture name target
            | None \<Rightarrow>
                if starts_with action [124] then Shape_Pipe
                else if action = ascii ''headers {'' then Shape_Headers
                else if action = [123] then Shape_Block else Shape_Destination))"

definition check_action_line :: "bytes \<Rightarrow> usize \<Rightarrow> usize \<Rightarrow> parse_error + unit" where
  "check_action_line action start index =
     (if starts_with action [33] then Inl (parse_error_new (index + 1) (Rcm_Recipe Rcm_Forward))
      else if action = [125] then Inl (parse_error_new (index + 1) (Rcm_Recipe Rcm_BlockUnopened))
      else if starts_with action [COLON] then Inl (parse_error_new (start + 1) (Rcm_Recipe Rcm_NoAction))
      else if action = [] then Inl (parse_error_new (index + 1) (Rcm_Recipe Rcm_ActionEmpty))
      else Inr ())"

definition has_program_condition :: "condition list \<Rightarrow> bool" where
  "has_program_condition conditions \<longleftrightarrow>
     list_ex (\<lambda>c. case cd_kind c of CK_Program _ \<Rightarrow> True | CK_ShellExpanded _ _ \<Rightarrow> True | _ \<Rightarrow> False) conditions"

text \<open>The checks between the first line of the action and the action itself; they return the options that hold.\<close>

definition check_recipe_options ::
    "recipe_options \<Rightarrow> bytes \<Rightarrow> bytes option \<Rightarrow> condition list \<Rightarrow> bytes \<Rightarrow> action_shape \<Rightarrow> usize \<Rightarrow> usize \<Rightarrow>
     parse_error + recipe_options" where
  "check_recipe_options options fs lock conditions action shape start index =
     and_then (if shape = Shape_Destination then validate_destination_syntax action (index + 1) else Inr ()) (\<lambda>_.
     and_then (if shape = Shape_Headers then validate_header_action_recipe fs lock (start + 1) else Inr ()) (\<lambda>_.
       if shape = Shape_Destination \<and> ro_write_errors options = Write_Ignore then
         Inl (parse_error_new (start + 1) (Rcm_Recipe Rcm_IgnoreFilesystem))
       else if (shape = Shape_Destination \<or> shape = Shape_Block) \<and>
           (ro_action_input options \<noteq> AI_Message \<or> ro_action_mode options \<noteq> Mode_Deliver \<or>
            (\<not> has_program_condition conditions \<and> shape \<noteq> Shape_Block \<and>
             (ro_child_status options \<noteq> Child_Ignore \<or> ro_write_errors options \<noteq> Write_Fail))) then
         Inl (parse_error_new (start + 1) (Rcm_Recipe Rcm_PipeFlags))
       else Inr (if shape = Shape_Headers then options\<lparr>ro_continuation := Cont_Continue\<rparr> else options)))"

text \<open>\<open>RecipeAction\<close> for the destinations: marked ones, a directory by its trailing slash, a file otherwise.\<close>

definition destination_action :: "bytes \<Rightarrow> usize \<Rightarrow> parse_error + recipe_action" where
  "destination_action action line =
     (if starts_with action [123] then Inl (parse_error_new line (Rcm_Recipe Rcm_BlockStandalone))
      else
        let (make, path0, typed) =
          (case strip_prefix action (ascii ''mbox:'') of
             Some path \<Rightarrow> (Mbox, path, True)
           | None \<Rightarrow>
               (case strip_prefix action (ascii ''maildir:'') of
                  Some path \<Rightarrow> (Maildir, path, True)
                | None \<Rightarrow> if ends_with action [47] then (Maildir, action, False) else (File, action, False)))
        in and_then (required_path path0 line Use_Destination) (\<lambda>path.
           and_then (destination_path_expression path line typed) (\<lambda>e. Inr (Act_Deliver (make e)))))"

text \<open>The actions that are not blocks, with the line after them.\<close>

definition parse_action ::
    "bytes list \<Rightarrow> recipe_options \<Rightarrow> bytes \<Rightarrow> action_shape \<Rightarrow> usize \<Rightarrow> parse_budget \<Rightarrow>
     parse_error + (recipe_action \<times> usize \<times> parse_budget)" where
  "parse_action lines options action shape index b =
     (let linebuf = rl_linebuf (pb_limits b)
      in case shape of
           Shape_Capture name target \<Rightarrow>
             and_then (charge_assignment (index + 1) Use_CaptureAction b) (\<lambda>b1.
               case split_pair 61 124 action of
                 None \<Rightarrow> Inl (parse_error_new (index + 1) (Rcm_Recipe Rcm_CaptureMalformed))
               | Some (_, command0) \<Rightarrow>
                   and_then (parse_command_continuation lines index (str_trim_start command0) linebuf Use_Capture)
                     (\<lambda>(command, next_line).
                       Inr (Act_Capture \<lparr>ca_line = index + 1, ca_name = name, ca_target = target, ca_command = command\<rparr>,
                            next_line, b1)))
         | Shape_Pipe \<Rightarrow>
             and_then (parse_pipe_command lines index linebuf) (\<lambda>(command, next_line).
               if command = [] \<and> ro_action_mode options = Mode_Filter then
                 Inl (parse_error_new (index + 1) (Rcm_Recipe Rcm_FilterCommand))
               else Inr (Act_Pipe command, next_line, b))
         | Shape_Headers \<Rightarrow>
             and_then (parse_header_action lines index linebuf) (\<lambda>(operations, next_line).
               Inr (Act_Headers operations, next_line, b))
         | _ \<Rightarrow> and_then (destination_action action (index + 1)) (\<lambda>act. Inr (act, index + 1, b)))"

record recipe_head =
  rh_options :: recipe_options
  rh_lock :: "bytes option"
  rh_conditions :: "condition list"
  rh_index :: usize
  rh_action :: bytes
  rh_shape :: action_shape
  rh_budget :: parse_budget

text \<open>\<open>parse_recipe\<close> up to the action.\<close>

definition parse_recipe_head :: "regex_frontend \<Rightarrow> bytes list \<Rightarrow> usize \<Rightarrow> parse_budget \<Rightarrow> parse_error + recipe_head" where
  "parse_recipe_head rx lines start b =
     (case strip_prefix (str_trim (lines ! start)) (ascii '':0'') of
        None \<Rightarrow> Inl (parse_error_new (start + 1) (Rcm_Recipe Rcm_OnlyZero))
      | Some rest \<Rightarrow>
          and_then (parse_recipe_header rest (start + 1)) (\<lambda>(options, lock, fs).
          and_then (recipe_conditions rx lines (ro_case_mode options = Sensitive) b [] 0 (start + 1))
            (\<lambda>(conditions, regexes, index).
          and_then (case get lines index of
                      None \<Rightarrow> Inl (parse_error_new (start + 1) (Rcm_Recipe Rcm_NoAction))
                    | Some l \<Rightarrow> and_then (check_line b l (index + 1)) (\<lambda>_. Inr (str_trim l))) (\<lambda>action.
          and_then (record_recipe_contents (length conditions) regexes (start + 1) b) (\<lambda>b1.
          and_then (check_action_line action start index) (\<lambda>_.
          and_then (shape_of_action action (index + 1)) (\<lambda>shape.
          and_then (check_recipe_options options fs lock conditions action shape start index) (\<lambda>options1.
            Inr \<lparr>rh_options = options1, rh_lock = lock, rh_conditions = conditions, rh_index = index, rh_action = action,
                 rh_shape = shape, rh_budget = b1\<rparr>))))))))"

definition lock_expression :: "bytes \<Rightarrow> path_expression" where
  "lock_expression source =
     \<lparr>pe_source = source, pe_base = None, pe_line = 0, pe_runtime_dependent = False, pe_runtime_base = False,
      pe_typed_destination = False, pe_expansion = None\<rparr>"

definition head_recipe :: "usize \<Rightarrow> recipe_head \<Rightarrow> recipe_action \<Rightarrow> recipe" where
  "head_recipe start h act =
     Recipe (start + 1) (rh_index h + 1) (rh_options h) (map_option lock_expression (rh_lock h)) (rh_conditions h) act"

type_synonym 'a fuelled = "(parse_error + 'a) option"

definition fuelled_then :: "'a fuelled \<Rightarrow> ('a \<Rightarrow> 'b fuelled) \<Rightarrow> 'b fuelled" where
  "fuelled_then r k = (case r of None \<Rightarrow> None | Some (Inl e) \<Rightarrow> Some (Inl e) | Some (Inr x) \<Rightarrow> k x)"

type_synonym block_parser = "usize \<Rightarrow> usize \<Rightarrow> parse_budget \<Rightarrow> (statement list \<times> usize \<times> parse_budget) fuelled"

text \<open>\<open>blocks\<close> parses the statements of a block: its depth, the index of its first line and the budget.\<close>

definition parse_recipe ::
    "block_parser \<Rightarrow> regex_frontend \<Rightarrow> bytes list \<Rightarrow> usize \<Rightarrow> usize \<Rightarrow> parse_budget \<Rightarrow> (recipe \<times> usize \<times> parse_budget) fuelled" where
  "parse_recipe blocks rx lines start depth b =
     fuelled_then (Some (parse_recipe_head rx lines start b)) (\<lambda>h.
       if rh_shape h = Shape_Block then
         fuelled_then (Some (check_nesting (rh_budget h) depth (rh_index h + 1))) (\<lambda>next_depth.
           if rh_lock h = Some [] then Some (Inl (parse_error_new (start + 1) (Rcm_Recipe Rcm_BlockLock)))
           else
             fuelled_then (blocks next_depth (rh_index h + 1) (rh_budget h)) (\<lambda>(statements, next_line, b1).
               Some (Inr (head_recipe start h (Act_Block statements), next_line, b1))))
       else
         fuelled_then (Some (parse_action lines (rh_options h) (rh_action h) (rh_shape h) (rh_index h) (rh_budget h)))
           (\<lambda>(act, next_line, b1). Some (Inr (head_recipe start h act, next_line, b1))))"

section \<open>Statements\<close>

definition assignment_file :: "assignment \<Rightarrow> rc_file_expression" where
  "assignment_file a = \<lparr>rf_line = as_line a, rf_value = as_value a, rf_expansion = as_expansion a\<rparr>"

text \<open>What an assignment becomes. The \<open>take\<close> of an expression that is missing is not reached: the test before it found one.\<close>

definition assignment_statement :: "usize \<Rightarrow> usize \<Rightarrow> assignment \<Rightarrow> parse_budget \<Rightarrow> parse_error + (statement \<times> parse_budget)" where
  "assignment_statement depth line a b =
     and_then (charge_assignment line Use_Statement b) (\<lambda>b1.
       if depth \<noteq> 0 \<and> controls_rc_parsing (as_target a) then Inl (parse_error_new line (Rcm_Recipe (Rcm_AssignedInBlock (as_name a))))
       else if as_name a = ascii ''INCLUDERC'' then Inr (St_Include (assignment_file a), b1)
       else if as_name a = ascii ''SWITCHRC'' then Inr (St_Switch (assignment_file a), b1)
       else
         (case as_expansion a of
            Some e \<Rightarrow>
              if requires_ordered_evaluation e then
                (if controls_rc_parsing (as_target a) then
                   Inl (parse_error_new (as_line a) (Rcm_Recipe (Rcm_AssignedFromCommand (as_name a))))
                 else
                   Inr (St_CommandAssignment \<lparr>cas_line = as_line a, cas_name = as_name a, cas_source = as_value a,
                          cas_target = as_target a, cas_expression = e\<rparr>, b1))
              else and_then (budget_assign a b1) (\<lambda>b2. Inr (St_Assignment a, b2))
          | None \<Rightarrow> and_then (budget_assign a b1) (\<lambda>b2. Inr (St_Assignment a, b2))))"

definition unset_statement :: "usize \<Rightarrow> usize \<Rightarrow> unset \<Rightarrow> parse_budget \<Rightarrow> parse_error + (statement \<times> parse_budget)" where
  "unset_statement depth line u b =
     and_then (charge_assignment line Use_Statement b) (\<lambda>b1.
       if depth \<noteq> 0 \<and> controls_rc_parsing (un_target u) then Inl (parse_error_new line (Rcm_Recipe (Rcm_UnsetInBlock (un_name u))))
       else Inr (St_Unset u, budget_unset u b1))"

text \<open>A statement on one line.\<close>

definition line_statement :: "bytes \<Rightarrow> usize \<Rightarrow> usize \<Rightarrow> parse_budget \<Rightarrow> parse_error + (statement \<times> parse_budget)" where
  "line_statement l depth line b =
     and_then (parse_assignment (str_trim_start l) line) (\<lambda>assigned.
       case assigned of
         Some a \<Rightarrow> assignment_statement depth line a b
       | None \<Rightarrow>
           and_then (parse_unset (str_trim l) line) (\<lambda>removed.
             case removed of
               Some u \<Rightarrow> unset_statement depth line u b
             | None \<Rightarrow> Inl (parse_error_new line (Rcm_Recipe Rcm_Expected))))"

primrec parse_statements ::
    "nat \<Rightarrow> regex_frontend \<Rightarrow> bytes list \<Rightarrow> statement list \<Rightarrow> usize \<Rightarrow> usize \<Rightarrow> parse_budget \<Rightarrow>
     (statement list \<times> usize \<times> parse_budget) fuelled" where
  "parse_statements 0 = (\<lambda>rx lines statements depth index b. None)"
| "parse_statements (Suc n) = (\<lambda>rx lines statements depth index b.
     if index < length lines then
       fuelled_then (Some (check_line b (lines ! index) (index + 1))) (\<lambda>_.
         let line = str_trim (lines ! index)
         in if line = [] \<or> starts_with line [HASH] then parse_statements n rx lines statements depth (index + 1) b
            else if line = [125] then
              (if depth = 0 then Some (Inl (parse_error_new (index + 1) (Rcm_Recipe Rcm_BlockUnopened)))
               else Some (Inr (statements, index + 1, b)))
            else
              fuelled_then (Some (check_statement b (index + 1))) (\<lambda>_.
                if starts_with line [COLON] then
                  fuelled_then (Some (charge_recipe (index + 1) b)) (\<lambda>b1.
                  fuelled_then (parse_recipe (parse_statements n rx lines []) rx lines index depth b1)
                    (\<lambda>(recipe, next_line, b2).
                      parse_statements n rx lines (statements @ [St_Recipe recipe]) depth next_line b2))
                else
                  fuelled_then (Some (line_statement (lines ! index) depth (index + 1) b)) (\<lambda>(statement, b1).
                    parse_statements n rx lines (statements @ [statement]) depth (index + 1) b1)))
     else if depth > 0 then Some (Inl (parse_error_new (max (length lines) 1) (Rcm_Recipe Rcm_BlockUnclosed)))
     else Some (Inr (statements, index, b)))"

section \<open>Files\<close>

definition MAX_RC_SIZE :: usize where "MAX_RC_SIZE = 1024 * 1024"

text \<open>\<open>str::lines\<close>.\<close>

definition line_text :: "bytes \<Rightarrow> bytes" where
  "line_text l =
     (case strip_suffix l [LF] of
        None \<Rightarrow> l
      | Some l1 \<Rightarrow> (case strip_suffix l1 [CR] of None \<Rightarrow> l1 | Some l2 \<Rightarrow> l2))"

definition str_lines :: "bytes \<Rightarrow> bytes list" where
  "str_lines input = map line_text (lines_of input)"

record rc_config =
  cf_statements :: "statement list"
  cf_initial_variables :: "(bytes \<times> bytes \<times> variable_source) list"
  cf_parse_counts :: rc_parse_counts
  cf_initial_linebuf :: usize

definition parse_with_state :: "regex_frontend \<Rightarrow> bytes \<Rightarrow> parse_budget \<Rightarrow> (rc_config \<times> parse_budget) fuelled" where
  "parse_with_state rx input b =
     (if length input > MAX_RC_SIZE then Some (Inl (parse_error_limit 1 (Rcm_Budget Rcm_RcSize)))
      else
        fuelled_then (parse_statements (Suc (length (str_lines input))) rx (str_lines input) [] 0 0 b)
          (\<lambda>(statements, _, b1).
            Some (and_then (counts_subtract (pb_counts b1) (pb_counts b)) (\<lambda>counts.
              Inr (\<lparr>cf_statements = statements, cf_initial_variables = [], cf_parse_counts = counts,
                    cf_initial_linebuf = rl_linebuf (pb_limits b)\<rparr>, b1)))))"

definition rc_parse :: "regex_frontend \<Rightarrow> bytes \<Rightarrow> rc_config fuelled" where
  "rc_parse rx input = map_option (map_sum id fst) (parse_with_state rx input budget_default)"

end
