(* ===== verification/Rc_Progress.thy ===== *)
theory Rc_Progress
  imports Rc_Parser
begin

text \<open>
  The rc parser always ends: every recipe and every block ends after the line it starts on, so that one unit of fuel per
  line is enough.
\<close>

section \<open>Results with fuel\<close>

lemma fuelled_then_simps [simp]:
  "fuelled_then None k = None" "fuelled_then (Some (Inl e)) k = Some (Inl e)" "fuelled_then (Some (Inr x)) k = k x"
  by (simp_all add: fuelled_then_def)

lemma fuelled_then_Inr [simp]:
  "fuelled_then r k = Some (Inr y) \<longleftrightarrow> (\<exists>x. r = Some (Inr x) \<and> k x = Some (Inr y))"
  by (auto simp: fuelled_then_def split: option.splits sum.splits)

lemma fuelled_then_None [simp]:
  "fuelled_then r k = None \<longleftrightarrow> r = None \<or> (\<exists>x. r = Some (Inr x) \<and> k x = None)"
  by (auto simp: fuelled_then_def split: option.splits sum.splits)

section \<open>Recipes end after they start\<close>

text \<open>The cases of the loop over the conditions, for inductions on it.\<close>

lemma recipe_conditions_cases [consumes 1, case_names Skip Multipart Single Done]:
  assumes "recipe_conditions rx lines cs b conditions regexes index = Inr r"
  obtains
      "index < length lines" "recipe_conditions rx lines cs b conditions regexes (index + 1) = Inr r"
    | negated c n k where "index < length lines" "check_condition b (length conditions) (index + 1) = Inr ()"
        "parse_multipart_block rx lines index negated cs regexes b = Inr (c, n, k)"
        "recipe_conditions rx lines cs b (conditions @ [c]) n k = Inr r"
    | source k c is_regex where "index < length lines" "check_condition b (length conditions) (index + 1) = Inr ()"
        "parse_condition_continuation lines index (rl_linebuf (pb_limits b)) = Inr (source, k)"
        "parse_condition rx source (index + 1) cs regexes b = Inr (c, is_regex)"
        "recipe_conditions rx lines cs b (conditions @ [c]) (regexes + (if is_regex then 1 else 0)) k = Inr r"
    | "r = (conditions, regexes, index)"
proof (cases "index < length lines")
  case False
  then show thesis using assms that(4) by (simp add: recipe_conditions.simps [of _ lines])
next
  case True
  let ?line = "str_trim (lines ! index)"
  note unfolded = assms [unfolded recipe_conditions.simps [of rx lines cs b conditions regexes index] Let_def]
  consider "?line = [] \<or> starts_with ?line [HASH]"
    | "\<not> (?line = [] \<or> starts_with ?line [HASH])" "starts_with ?line [42]"
    | "\<not> (?line = [] \<or> starts_with ?line [HASH])" "\<not> starts_with ?line [42]" by blast
  then show thesis
  proof cases
    case 1
    then show thesis using unfolded True by (intro that(1)) simp_all
  next
    case 2
    show thesis
    proof (cases "is_multipart_block_start ?line")
      case (Some negated)
      then obtain c n k where "check_condition b (length conditions) (index + 1) = Inr ()"
          "parse_multipart_block rx lines index negated cs regexes b = Inr (c, n, k)"
          "recipe_conditions rx lines cs b (conditions @ [c]) n k = Inr r"
        using unfolded True 2 by (simp split: prod.splits) blast
      then show thesis using True that(2) by blast
    next
      case None
      then obtain source k c is_regex where "check_condition b (length conditions) (index + 1) = Inr ()"
          "parse_condition_continuation lines index (rl_linebuf (pb_limits b)) = Inr (source, k)"
          "parse_condition rx source (index + 1) cs regexes b = Inr (c, is_regex)"
          and rest: "(case checked_add regexes (if is_regex then 1 else 0) of
             None \<Rightarrow> Inl (parse_error_new (index + 1) (Rcm_Recipe Rcm_RegexCount))
           | Some n \<Rightarrow> recipe_conditions rx lines cs b (conditions @ [c]) n k) = Inr r"
        using unfolded True 2 by (simp split: prod.splits) blast
      moreover have "recipe_conditions rx lines cs b (conditions @ [c]) (regexes + (if is_regex then 1 else 0)) k = Inr r"
        using rest by (cases "checked_add regexes (if is_regex then 1 else 0)") (simp_all add: checked_add_Some)
      ultimately show thesis using True that(3) by blast
    qed
  next
    case 3
    then show thesis using unfolded True by (intro that(4)) simp
  qed
qed

lemma recipe_conditions_ge:
  "recipe_conditions rx lines cs b conditions regexes index = Inr (conditions', regexes', index') \<Longrightarrow> index \<le> index'"
proof (induction "length lines - index" arbitrary: conditions regexes index rule: less_induct)
  case less
  from less.prems show ?case
  proof (cases rule: recipe_conditions_cases)
    case Skip
    then show ?thesis using less.hyps [of "index + 1"] by fastforce
  next
    case (Multipart negated c n k)
    then show ?thesis using less.hyps [of k] parse_multipart_block_next by fastforce
  next
    case (Single source k c is_regex)
    then show ?thesis using less.hyps [of k] parse_condition_continuation_next by fastforce
  qed simp
qed

lemma parse_recipe_head_index: "parse_recipe_head rx lines start b = Inr h \<Longrightarrow> start < rh_index h"
  by (auto simp: parse_recipe_head_def split: option.splits dest!: recipe_conditions_ge)

lemma parse_pipe_command_next: "parse_pipe_command lines start linebuf = Inr (c, n) \<Longrightarrow> start < n"
  by (auto simp: parse_pipe_command_def Let_def split: option.splits if_splits dest: parse_command_continuation_next)

lemma parse_action_next:
  assumes "parse_action lines options action shape index b = Inr (act, n, b')"
  shows "index < n"
proof (cases shape)
  case (Shape_Capture name target)
  then show ?thesis using assms
    by (auto simp: parse_action_def Let_def split: option.splits dest: parse_command_continuation_next)
next
  case Shape_Pipe
  then show ?thesis using assms
    by (auto simp: parse_action_def Let_def split: if_splits dest: parse_pipe_command_next)
next
  case Shape_Headers
  then show ?thesis using assms by (auto simp: parse_action_def Let_def dest: parse_header_action_next)
qed (use assms in \<open>auto simp: parse_action_def\<close>)

lemma check_nesting_Inr [simp]:
  "check_nesting b depth line = Inr n \<longleftrightarrow> n = depth + 1 \<and> n \<le> usize_max \<and> n \<le> rl_nesting_depth (pb_limits b)"
  by (auto simp: check_nesting_def checked_add_def)

lemma parse_recipe_cases [consumes 1, case_names Block Action]:
  assumes "parse_recipe blocks rx lines start depth b = Some (Inr (recipe, n, b'))"
  obtains
      h ss where "parse_recipe_head rx lines start b = Inr h" "rh_shape h = Shape_Block"
        "depth + 1 \<le> rl_nesting_depth (pb_limits (rh_budget h))" "rh_lock h \<noteq> Some []"
        "blocks (depth + 1) (rh_index h + 1) (rh_budget h) = Some (Inr (ss, n, b'))"
        "recipe = head_recipe start h (Act_Block ss)"
    | h act where "parse_recipe_head rx lines start b = Inr h" "rh_shape h \<noteq> Shape_Block"
        "parse_action lines (rh_options h) (rh_action h) (rh_shape h) (rh_index h) (rh_budget h) = Inr (act, n, b')"
        "recipe = head_recipe start h act"
proof -
  from assms obtain h where h: "parse_recipe_head rx lines start b = Inr h" by (auto simp: parse_recipe_def)
  note unfolded = assms [unfolded parse_recipe_def h fuelled_then_simps]
  show thesis
  proof (cases "rh_shape h = Shape_Block")
    case True
    with unfolded have "depth + 1 \<le> rl_nesting_depth (pb_limits (rh_budget h))" "rh_lock h \<noteq> Some []"
      "\<exists>ss. blocks (depth + 1) (rh_index h + 1) (rh_budget h) = Some (Inr (ss, n, b')) \<and>
         recipe = head_recipe start h (Act_Block ss)"
      by (auto split: if_splits)
    then show thesis using that(1) h True by blast
  next
    case False
    with unfolded have "\<exists>act. parse_action lines (rh_options h) (rh_action h) (rh_shape h) (rh_index h) (rh_budget h) =
         Inr (act, n, b') \<and> recipe = head_recipe start h act"
      by auto
    then show thesis using that(2) h False by blast
  qed
qed

text \<open>What \<open>parse_recipe\<close> asks of the parser of blocks so that it ends.\<close>

locale ending_blocks =
  fixes blocks :: block_parser and lines :: "bytes list" and fuel :: nat
  assumes block_next: "0 < depth \<Longrightarrow> blocks depth index b = Some (Inr (ss, n, b')) \<Longrightarrow> index < n"
    and block_total: "length lines - index < fuel \<Longrightarrow> blocks depth index b \<noteq> None"
begin

lemma recipe_next:
  assumes "parse_recipe blocks rx lines start depth b = Some (Inr (recipe, n, b'))"
  shows "start < n"
  using assms
proof (cases rule: parse_recipe_cases)
  case (Block h ss)
  then show ?thesis using block_next [OF _ Block(5)] parse_recipe_head_index [OF Block(1)] by simp
next
  case (Action h act)
  then show ?thesis using parse_action_next [OF Action(3)] parse_recipe_head_index [OF Action(1)] by simp
qed

lemma recipe_total:
  assumes "start < length lines" and "length lines - start \<le> fuel"
  shows "parse_recipe blocks rx lines start depth b \<noteq> None"
proof
  assume "parse_recipe blocks rx lines start depth b = None"
  then obtain h d where h: "parse_recipe_head rx lines start b = Inr h" and "blocks d (rh_index h + 1) (rh_budget h) = None"
    by (auto simp: parse_recipe_def split: if_splits)
  moreover have "length lines - (rh_index h + 1) < fuel" using parse_recipe_head_index [OF h] assms by simp
  ultimately show False using block_total by blast
qed

end

section \<open>Files end\<close>

text \<open>The cases of one turn of \<open>parse_statements\<close> that accepts its line.\<close>

lemma parse_statements_cases [consumes 1, case_names Skip Close Recipe Line End]:
  assumes "parse_statements (Suc f) rx lines acc depth index b = Some (Inr r)"
  obtains
      "index < length lines" "parse_statements f rx lines acc depth (index + 1) b = Some (Inr r)"
    | "index < length lines" "0 < depth" "r = (acc, index + 1, b)"
    | b1 recipe k b2 where "index < length lines" "check_statement b (index + 1) = Inr ()" "charge_recipe (index + 1) b = Inr b1"
        "parse_recipe (parse_statements f rx lines []) rx lines index depth b1 = Some (Inr (recipe, k, b2))"
        "parse_statements f rx lines (acc @ [St_Recipe recipe]) depth k b2 = Some (Inr r)"
    | s b1 where "index < length lines" "check_statement b (index + 1) = Inr ()"
        "line_statement (lines ! index) depth (index + 1) b = Inr (s, b1)"
        "parse_statements f rx lines (acc @ [s]) depth (index + 1) b1 = Some (Inr r)"
    | "depth = 0" "r = (acc, index, b)" "length lines \<le> index"
proof (cases "index < length lines")
  case False
  then show thesis using assms that(5) by (simp split: if_splits)
next
  case True
  let ?line = "str_trim (lines ! index)"
  note unfolded = assms [unfolded parse_statements.simps Let_def if_P [OF True]]
  consider "?line = [] \<or> starts_with ?line [HASH]" | "\<not> (?line = [] \<or> starts_with ?line [HASH])" "?line = [125]"
    | "\<not> (?line = [] \<or> starts_with ?line [HASH])" "?line \<noteq> [125]" "starts_with ?line [COLON]"
    | "\<not> (?line = [] \<or> starts_with ?line [HASH])" "?line \<noteq> [125]" "\<not> starts_with ?line [COLON]" by blast
  then show thesis
  proof cases
    case 1
    then show thesis using unfolded True by (intro that(1)) simp_all
  next
    case 2
    then show thesis using unfolded True by (intro that(2)) (simp_all split: if_splits)
  next
    case 3
    then have "\<exists>b1 recipe k b2. check_statement b (index + 1) = Inr () \<and> charge_recipe (index + 1) b = Inr b1 \<and>
        parse_recipe (parse_statements f rx lines []) rx lines index depth b1 = Some (Inr (recipe, k, b2)) \<and>
        parse_statements f rx lines (acc @ [St_Recipe recipe]) depth k b2 = Some (Inr r)"
      using unfolded by auto
    then show thesis using that(3) True by blast
  next
    case 4
    then have "\<exists>s b1. check_statement b (index + 1) = Inr () \<and>
        line_statement (lines ! index) depth (index + 1) b = Inr (s, b1) \<and>
        parse_statements f rx lines (acc @ [s]) depth (index + 1) b1 = Some (Inr r)"
      using unfolded by auto
    then show thesis using that(4) True by blast
  qed
qed

lemma parse_statements_next:
  "parse_statements f rx lines acc depth index b = Some (Inr (ss, n, b')) \<Longrightarrow>
     index \<le> n \<and> (0 < depth \<longrightarrow> index < n)"
proof (induction f arbitrary: acc depth index b ss n b')
  case (Suc f)
  then have blocks: "ending_blocks (parse_statements f rx lines []) lines 0" by unfold_locales auto
  from Suc.prems show ?case
  proof (cases rule: parse_statements_cases)
    case Skip
    then show ?thesis using Suc.IH by fastforce
  next
    case (Recipe b1 recipe k b2)
    then show ?thesis using Suc.IH ending_blocks.recipe_next [OF blocks Recipe(4)] by fastforce
  next
    case (Line s b1)
    then show ?thesis using Suc.IH by fastforce
  qed auto
qed simp

lemma parse_statements_total:
  "length lines - index < f \<Longrightarrow> parse_statements f rx lines acc depth index b \<noteq> None"
proof (induction f arbitrary: acc depth index b)
  case (Suc f)
  then have blocks: "ending_blocks (parse_statements f rx lines []) lines f"
    using parse_statements_next by unfold_locales blast+
  show ?case
  proof (cases "index < length lines")
    case True
    have later: "k \<le> index" if "parse_statements f rx lines acc1 depth k b1 = None" for acc1 k b1
      using Suc.IH [of k] Suc.prems True that by (meson diff_less_mono2 le_less_trans less_Suc_eq_le not_le)
    have recipe: "False" if "parse_recipe (parse_statements f rx lines []) rx lines index depth b1 = None" for b1
      using ending_blocks.recipe_total [OF blocks True] Suc.prems that by (metis less_Suc_eq_le)
    show ?thesis
    proof
      assume "parse_statements (Suc f) rx lines acc depth index b = None"
      then show False
        using True by (auto simp: Let_def split: if_splits dest!: later recipe ending_blocks.recipe_next [OF blocks])
    qed
  qed simp
qed simp

text \<open>More fuel only turns \<open>None\<close> into a result.\<close>

definition fuel_le :: "'a fuelled \<Rightarrow> 'a fuelled \<Rightarrow> bool" where
  "fuel_le r r' \<longleftrightarrow> r = None \<or> r = r'"

lemma fuel_le_refl [simp]: "fuel_le r r"
  by (simp add: fuel_le_def)

lemma fuel_le_then [intro!]: "fuel_le r r' \<Longrightarrow> (\<And>x. fuel_le (k x) (k' x)) \<Longrightarrow> fuel_le (fuelled_then r k) (fuelled_then r' k')"
  by (cases r; cases "the r") (auto simp: fuel_le_def, blast)

lemma parse_recipe_fuel:
  "(\<And>d i b. fuel_le (blocks d i b) (blocks' d i b)) \<Longrightarrow>
     fuel_le (parse_recipe blocks rx lines start depth b) (parse_recipe blocks' rx lines start depth b)"
  unfolding parse_recipe_def by (auto split: prod.splits)

lemma parse_statements_fuel:
  "fuel_le (parse_statements f rx lines acc depth index b) (parse_statements (Suc f) rx lines acc depth index b)"
proof (induction f arbitrary: acc depth index b)
  case 0
  then show ?case by (simp add: fuel_le_def)
next
  case (Suc f)
  note step = Suc.IH [THEN parse_recipe_fuel] Suc.IH
  show ?case
    by (subst (1 2) parse_statements.simps(2)) (auto simp: Let_def simp del: parse_statements.simps intro!: step split: prod.splits)
qed

lemma parse_statements_more_fuel:
  "parse_statements f rx lines acc depth index b = Some r \<Longrightarrow> parse_statements (f + extra) rx lines acc depth index b = Some r"
proof (induction extra)
  case (Suc extra)
  then show ?case using parse_statements_fuel [of "f + extra"] by (metis add_Suc_right fuel_le_def option.distinct(1))
qed simp

interpretation rc_blocks: ending_blocks "parse_statements f rx lines []" lines f for f rx lines
  using parse_statements_next parse_statements_total by unfold_locales blast+

text \<open>
  C10. Parsing an rc file always ends: whatever the file, the regular expression crates and the budget, one unit
  of fuel per line and one more is enough, and more fuel changes nothing.
\<close>

theorem rc_parsing_total:
  "(\<exists>r. parse_with_state rx input b = Some r) \<and>
   (\<exists>r. \<forall>extra. parse_statements (Suc (length (str_lines input)) + extra) rx (str_lines input) [] 0 0 b = Some r)"
proof -
  let ?run = "parse_statements (Suc (length (str_lines input))) rx (str_lines input) [] 0 0 b"
  obtain r where r: "?run = Some r" using parse_statements_total [of "str_lines input" 0] by fastforce
  then have "\<exists>r. parse_with_state rx input b = Some r"
    by (cases r) (auto simp: parse_with_state_def simp del: parse_statements.simps)
  then show ?thesis using parse_statements_more_fuel [OF r] by blast
qed

end
