(* ===== verification/Rc_Accounting.thy ===== *)
theory Rc_Accounting
  imports Rc_Progress
begin

text \<open>
  The budget of the rc parser against the statements it returns: the counts are those of the tree, and the hard limits
  hold whatever the file assigns to the limits.
\<close>

section \<open>What a tree holds\<close>

definition counts_plus :: "rc_parse_counts \<Rightarrow> rc_parse_counts \<Rightarrow> rc_parse_counts" where
  "counts_plus c d =
     \<lparr>pc_assignments = pc_assignments c + pc_assignments d, pc_statements = pc_statements c + pc_statements d,
      pc_recipes = pc_recipes c + pc_recipes d, pc_conditions = pc_conditions c + pc_conditions d,
      pc_regexes = pc_regexes c + pc_regexes d\<rparr>"

text \<open>The regular expressions of a condition; one that is expanded first reserves one.\<close>

fun kind_regexes :: "condition_kind \<Rightarrow> nat" where
  "kind_regexes (CK_Multipart checks) = length checks"
| "kind_regexes (CK_Program _) = 0"
| "kind_regexes (CK_SmallerThan _) = 0"
| "kind_regexes (CK_LargerThan _) = 0"
| "kind_regexes _ = 1"

definition conditions_regexes :: "condition list \<Rightarrow> nat" where
  "conditions_regexes cs = sum_list (map (kind_regexes \<circ> cd_kind) cs)"

fun action_statements :: "recipe_action \<Rightarrow> statement list" where
  "action_statements (Act_Block ss) = ss"
| "action_statements _ = []"

fun is_capture :: "recipe_action \<Rightarrow> bool" where
  "is_capture (Act_Capture _) = True"
| "is_capture _ = False"

text \<open>What the statements themselves are worth, one by one, and the statements of a tree in the order of the file.\<close>

fun own_counts :: "statement \<Rightarrow> rc_parse_counts" where
  "own_counts (St_Recipe r) =
     \<lparr>pc_assignments = (if is_capture (rc_action r) then 1 else 0), pc_statements = 1, pc_recipes = 1,
      pc_conditions = length (rc_conditions r), pc_regexes = conditions_regexes (rc_conditions r)\<rparr>"
| "own_counts _ = \<lparr>pc_assignments = 1, pc_statements = 1, pc_recipes = 0, pc_conditions = 0, pc_regexes = 0\<rparr>"

fun all_statements :: "statement list \<Rightarrow> statement list" where
  "all_statements [] = []"
| "all_statements (St_Recipe (Recipe l al opts lock cs (Act_Block children)) # ss) =
     St_Recipe (Recipe l al opts lock cs (Act_Block children)) # all_statements children @ all_statements ss"
| "all_statements (s # ss) = s # all_statements ss"

definition statements_counts :: "statement list \<Rightarrow> rc_parse_counts" where
  "statements_counts ss = foldr counts_plus (map own_counts (all_statements ss)) counts_default"

fun statements_depth :: "statement list \<Rightarrow> nat" where
  "statements_depth [] = 0"
| "statements_depth (St_Recipe (Recipe l al opts lock cs (Act_Block children)) # ss) =
     max (Suc (statements_depth children)) (statements_depth ss)"
| "statements_depth (s # ss) = statements_depth ss"

lemma counts_plus_simps [simp]:
  "pc_assignments (counts_plus c d) = pc_assignments c + pc_assignments d"
  "pc_statements (counts_plus c d) = pc_statements c + pc_statements d"
  "pc_recipes (counts_plus c d) = pc_recipes c + pc_recipes d"
  "pc_conditions (counts_plus c d) = pc_conditions c + pc_conditions d"
  "pc_regexes (counts_plus c d) = pc_regexes c + pc_regexes d"
  by (simp_all add: counts_plus_def)

lemma counts_plus_assoc: "counts_plus (counts_plus c d) e = counts_plus c (counts_plus d e)"
  by (simp add: counts_plus_def)

lemma counts_plus_default [simp]: "counts_plus counts_default c = c" "counts_plus c counts_default = c"
  by (simp_all add: counts_plus_def counts_default_def)

lemma foldr_counts_append:
  "foldr counts_plus (cs @ ds) counts_default = counts_plus (foldr counts_plus cs counts_default) (foldr counts_plus ds counts_default)"
  by (induction cs) (simp_all add: counts_plus_assoc)

lemma all_statements_Cons:
  "all_statements (s # ss) =
     s # (case s of St_Recipe r \<Rightarrow> all_statements (action_statements (rc_action r)) | _ \<Rightarrow> []) @ all_statements ss"
  by (cases "s # ss" rule: all_statements.cases) simp_all

lemma statements_counts_simps [simp]:
  "statements_counts [] = counts_default"
  "statements_counts (s # ss) =
     counts_plus (own_counts s)
       (counts_plus (case s of St_Recipe r \<Rightarrow> statements_counts (action_statements (rc_action r)) | _ \<Rightarrow> counts_default)
         (statements_counts ss))"
  by (simp_all add: statements_counts_def all_statements_Cons foldr_counts_append del: foldr_append own_counts.simps split: statement.splits)

lemma statements_counts_append: "statements_counts (ss @ ts) = counts_plus (statements_counts ss) (statements_counts ts)"
  by (induction ss) (simp_all add: counts_plus_assoc)

lemma statements_depth_Cons:
  "statements_depth (s # ss) =
     max (case s of
            St_Recipe r \<Rightarrow> (case rc_action r of Act_Block children \<Rightarrow> Suc (statements_depth children) | _ \<Rightarrow> 0)
          | _ \<Rightarrow> 0) (statements_depth ss)"
  by (cases "s # ss" rule: statements_depth.cases) simp_all

lemma statements_depth_append: "statements_depth (ss @ ts) = max (statements_depth ss) (statements_depth ts)"
  by (induction ss) (simp_all add: statements_depth_Cons)

section \<open>The budget\<close>

definition budget_ok :: "parse_budget \<Rightarrow> bool" where
  "budget_ok b \<longleftrightarrow>
     rc_limits_ok (pb_limits b) \<and> MIN_LINEBUF \<le> rl_linebuf (pb_limits b) \<and> rl_linebuf (pb_limits b) \<le> MAX_LINEBUF \<and>
     pc_assignments (pb_counts b) \<le> rc_hard_limit Rc_Assignments \<and>
     pc_statements (pb_counts b) \<le> rc_hard_limit Rc_Statements \<and>
     pc_recipes (pb_counts b) \<le> rc_hard_limit Rc_Recipes \<and>
     pc_conditions (pb_counts b) \<le> rc_hard_limit Rc_Conditions"

definition accounted :: "parse_budget \<Rightarrow> rc_parse_counts \<Rightarrow> parse_budget \<Rightarrow> bool" where
  "accounted b c b' \<longleftrightarrow> pb_counts b' = counts_plus (pb_counts b) c \<and> (budget_ok b \<longrightarrow> budget_ok b')"

lemma accounted_trans [trans]: "accounted b c b1 \<Longrightarrow> accounted b1 d b2 \<Longrightarrow> accounted b (counts_plus c d) b2"
  by (simp add: accounted_def counts_plus_assoc)

lemma accounted_same [simp]: "accounted b counts_default b"
  by (simp add: accounted_def)

lemma budget_default_ok: "budget_ok budget_default"
  by (simp add: budget_ok_def budget_default_def counts_default_def)
    (simp add: rc_limits_default_def MIN_LINEBUF_def MAX_LINEBUF_def)

lemma rc_limits_okD:
  assumes "rc_limits_ok l"
  shows "rl_assignments l \<le> 65536" "rl_statements l \<le> 65536" "rl_recipes l \<le> 16384" "rl_conditions l \<le> 65536"
    "rl_nesting_depth l \<le> 256"
  using assms [unfolded rc_limits_ok_def, rule_format, of Rc_Assignments] assms [unfolded rc_limits_ok_def, rule_format, of Rc_Statements]
    assms [unfolded rc_limits_ok_def, rule_format, of Rc_Recipes] assms [unfolded rc_limits_ok_def, rule_format, of Rc_Conditions]
    assms [unfolded rc_limits_ok_def, rule_format, of Rc_NestingDepth]
  by simp_all

lemma count_up_Inr [simp]: "count_up line kind now n = Inr m \<longleftrightarrow> m = now + n \<and> now + n \<le> usize_max"
  by (auto simp: count_up_def checked_add_def)

lemma check_count_limit_Inr [simp]: "check_count_limit n limit line kind = Inr u \<longleftrightarrow> n < limit"
  by (simp add: check_count_limit_def)

lemma check_statement_Inr [simp]:
  "check_statement b line = Inr u \<longleftrightarrow> pc_statements (pb_counts b) < rl_statements (pb_limits b)"
  by (simp add: check_statement_def)

lemma charge_recipe_accounted:
  assumes "charge_recipe line b = Inr b1" and "check_statement b line = Inr ()"
  shows "accounted b \<lparr>pc_assignments = 0, pc_statements = 1, pc_recipes = 1, pc_conditions = 0, pc_regexes = 0\<rparr> b1"
  using assms
  by (auto simp: charge_recipe_def Let_def accounted_def counts_plus_def budget_ok_def dest: rc_limits_okD)


lemma charge_assignment_accounted:
  assumes "charge_assignment line usage b = Inr b1" and "usage = Use_Statement \<Longrightarrow> check_statement b line = Inr ()"
  shows "accounted b \<lparr>pc_assignments = 1, pc_statements = (if usage = Use_Statement then 1 else 0), pc_recipes = 0,
    pc_conditions = 0, pc_regexes = 0\<rparr> b1"
  using assms
  by (auto simp: charge_assignment_def Let_def accounted_def counts_plus_def budget_ok_def split: if_splits dest: rc_limits_okD)

lemma record_recipe_contents_accounted:
  assumes "record_recipe_contents conditions regexes line b = Inr b1"
    and "0 < conditions \<Longrightarrow> pc_conditions (pb_counts b) + conditions \<le> rl_conditions (pb_limits b)"
  shows "accounted b \<lparr>pc_assignments = 0, pc_statements = 0, pc_recipes = 0, pc_conditions = conditions, pc_regexes = regexes\<rparr> b1"
  using assms
  by (cases "conditions = 0")
    (auto simp: record_recipe_contents_def Let_def accounted_def counts_plus_def budget_ok_def dest: rc_limits_okD)

lemma rc_slot_linebuf [simp]: "rc_slot (l\<lparr>rl_linebuf := v\<rparr>) k = rc_slot l k"
  by (cases k) simp_all

lemma rc_store_linebuf [simp]: "rl_linebuf (rc_store l k v) = rl_linebuf l"
  by (cases k) simp_all

lemma rc_limits_ok_linebuf [simp]: "rc_limits_ok (l\<lparr>rl_linebuf := v\<rparr>) \<longleftrightarrow> rc_limits_ok l"
  by (simp add: rc_limits_ok_def)

lemma rc_limits_reset_linebuf [simp]: "rl_linebuf (rc_limits_reset l k) = rl_linebuf l"
  by (simp add: rc_limits_reset_def)

lemma rc_limits_set_linebuf: "rc_limits_set l k v = Inr l' \<Longrightarrow> rl_linebuf l' = rl_linebuf l"
  by (auto simp: rc_limits_set_def split: if_splits)

lemma budget_assign_accounted: "budget_assign a b = Inr b1 \<Longrightarrow> accounted b counts_default b1"
  by (auto simp: budget_assign_def apply_rc_limit_def apply_linebuf_def accounted_def budget_ok_def rc_limits_set_ok
      dest: rc_limits_set_linebuf split: assignment_target.splits option.splits sum.splits if_splits)

lemma budget_unset_accounted: "accounted b counts_default (budget_unset u b)"
  by (auto simp: budget_unset_def accounted_def budget_ok_def rc_limits_reset_ok DEFAULT_LINEBUF_def MIN_LINEBUF_def MAX_LINEBUF_def
      split: assignment_target.splits)

section \<open>Conditions\<close>

lemma multipart_loop_regexes:
  "multipart_loop rx opening negated cs b index checks regexes lines = Inr (c, n, k) \<Longrightarrow>
     \<exists>checks'. cd_kind c = CK_Multipart checks' \<and> n + length checks = regexes + length checks'"
proof (induction lines arbitrary: index checks regexes)
  case (Cons l lines)
  from Cons.prems show ?case
    by (auto simp: Let_def checked_add_Some split: if_splits option.splits dest!: Cons.IH)
qed simp

lemma parse_multipart_block_regexes:
  "parse_multipart_block rx lines opening negated cs regexes b = Inr (c, n, k) \<Longrightarrow> n = regexes + kind_regexes (cd_kind c)"
  by (auto simp: parse_multipart_block_def dest!: multipart_loop_regexes)

lemma target_kind_regexes [simp]: "kind_regexes (target_kind target regex) = 1"
  by (cases "(target, regex)" rule: target_kind.cases) simp_all

lemma plain_condition_kind_regexes:
  "plain_condition_kind rx input line cs regexes b = Inr (kind, is_regex) \<Longrightarrow> kind_regexes kind = (if is_regex then 1 else 0)"
  by (auto simp: plain_condition_kind_def regex_condition_kind_def split: option.splits)

lemma parse_single_line_multipart_regexes:
  "parse_single_line_multipart rx input line cs regexes b = Inr (Some (kind, is_regex)) \<Longrightarrow> kind_regexes kind = 1 \<and> is_regex"
  by (auto simp: parse_single_line_multipart_def Let_def split: option.splits if_splits)

text \<open>A condition comes from one of two parsers.\<close>

lemma parse_condition_cases [consumes 1, case_names Multipart Plain]:
  assumes "parse_condition rx input line cs regexes b = Inr (c, is_regex)"
  obtains t where "parse_single_line_multipart rx t line cs regexes b = Inr (Some (cd_kind c, is_regex))"
    | t where "plain_condition_kind rx t line cs regexes b = Inr (cd_kind c, is_regex)"
proof -
  obtain negated t where "strip_negations False (str_trim input) = (negated, t)" by (cases "strip_negations False (str_trim input)")
  with assms obtain multipart kind where "parse_single_line_multipart rx t line cs regexes b = Inr multipart"
      "(case multipart of Some k \<Rightarrow> Inr k | None \<Rightarrow> plain_condition_kind rx t line cs regexes b) = Inr (kind, is_regex)"
      "cd_kind c = kind"
    unfolding parse_condition_def by (auto split: if_splits)
  then show thesis using that by (cases multipart) auto
qed

lemma parse_condition_regexes:
  assumes "parse_condition rx input line cs regexes b = Inr (c, is_regex)"
  shows "kind_regexes (cd_kind c) = (if is_regex then 1 else 0)"
  using assms
proof (cases rule: parse_condition_cases)
  case (Multipart t)
  then show ?thesis using parse_single_line_multipart_regexes by fastforce
next
  case (Plain t)
  then show ?thesis by (rule plain_condition_kind_regexes)
qed

lemma check_condition_Inr:
  "check_condition b n line = Inr u \<longleftrightarrow>
     n < rl_conditions_per_recipe (pb_limits b) \<and> pc_conditions (pb_counts b) + n \<le> usize_max \<and>
     pc_conditions (pb_counts b) + n < rl_conditions (pb_limits b)"
  by (auto simp: check_condition_def Let_def)

lemma recipe_conditions_account:
  "recipe_conditions rx lines cs b conditions regexes index = Inr (conditions', regexes', index') \<Longrightarrow>
     \<exists>new. conditions' = conditions @ new \<and> regexes' = regexes + conditions_regexes new \<and>
       (new \<noteq> [] \<longrightarrow> pc_conditions (pb_counts b) + length conditions' \<le> rl_conditions (pb_limits b) \<and>
                    length conditions' \<le> rl_conditions_per_recipe (pb_limits b))"
proof (induction "length lines - index" arbitrary: conditions regexes index rule: less_induct)
  case less
  from less.prems show ?case
  proof (cases rule: recipe_conditions_cases)
    case Skip
    then show ?thesis using less.hyps [of "index + 1"] by simp
  next
    case (Multipart negated c n k)
    then obtain new where "conditions' = (conditions @ [c]) @ new" "regexes' = n + conditions_regexes new"
        "new \<noteq> [] \<longrightarrow> pc_conditions (pb_counts b) + length conditions' \<le> rl_conditions (pb_limits b) \<and>
           length conditions' \<le> rl_conditions_per_recipe (pb_limits b)"
      using less.hyps [of k] parse_multipart_block_next [OF Multipart(3)] by (meson diff_less_mono2)
    then show ?thesis
      using parse_multipart_block_regexes [OF Multipart(3)] Multipart(2)
      by (intro exI [of _ "c # new"]) (auto simp: conditions_regexes_def check_condition_Inr)
  next
    case (Single source k c is_regex)
    then obtain new where "conditions' = (conditions @ [c]) @ new"
        "regexes' = regexes + (if is_regex then 1 else 0) + conditions_regexes new"
        "new \<noteq> [] \<longrightarrow> pc_conditions (pb_counts b) + length conditions' \<le> rl_conditions (pb_limits b) \<and>
           length conditions' \<le> rl_conditions_per_recipe (pb_limits b)"
      using less.hyps [of k] parse_condition_continuation_next [OF Single(3)] by (meson diff_less_mono2)
    then show ?thesis
      using parse_condition_regexes [OF Single(4)] Single(2)
      by (intro exI [of _ "c # new"]) (auto simp: conditions_regexes_def check_condition_Inr)
  qed (simp add: conditions_regexes_def)
qed

section \<open>Recipes\<close>

abbreviation contents_counts :: "condition list \<Rightarrow> rc_parse_counts" where
  "contents_counts cs \<equiv>
     \<lparr>pc_assignments = 0, pc_statements = 0, pc_recipes = 0, pc_conditions = length cs, pc_regexes = conditions_regexes cs\<rparr>"

lemma parse_recipe_head_cases [consumes 1]:
  assumes "parse_recipe_head rx lines start b = Inr h"
  obtains rest options fs regexes where
    "parse_recipe_header rest (start + 1) = Inr (options, rh_lock h, fs)"
    "recipe_conditions rx lines (ro_case_mode options = Sensitive) b [] 0 (start + 1) = Inr (rh_conditions h, regexes, rh_index h)"
    "rh_index h < length lines" "rh_action h = str_trim (lines ! rh_index h)"
    "record_recipe_contents (length (rh_conditions h)) regexes (start + 1) b = Inr (rh_budget h)"
    "check_action_line (rh_action h) start (rh_index h) = Inr ()"
    "shape_of_action (rh_action h) (rh_index h + 1) = Inr (rh_shape h)"
    "check_recipe_options options fs (rh_lock h) (rh_conditions h) (rh_action h) (rh_shape h) start (rh_index h) = Inr (rh_options h)"
  using assms that
  by (auto simp: parse_recipe_head_def get_def split: option.splits if_splits)

lemma parse_recipe_head_accounted:
  assumes "parse_recipe_head rx lines start b = Inr h"
  shows "accounted b (contents_counts (rh_conditions h)) (rh_budget h)"
  using assms
proof (cases rule: parse_recipe_head_cases)
  case (1 rest options fs regexes)
  from recipe_conditions_account [OF 1(2)] have "regexes = conditions_regexes (rh_conditions h)"
    "0 < length (rh_conditions h) \<Longrightarrow> pc_conditions (pb_counts b) + length (rh_conditions h) \<le> rl_conditions (pb_limits b)"
    by auto
  then show ?thesis using record_recipe_contents_accounted [OF 1(5)] by simp
qed

lemma action_statements_other: "\<forall>ss. act \<noteq> Act_Block ss \<Longrightarrow> action_statements act = []"
  by (cases act) auto

lemma parse_action_accounted:
  assumes "parse_action lines options action shape index b = Inr (act, n, b')" and "shape \<noteq> Shape_Block"
  shows "accounted b \<lparr>pc_assignments = (if is_capture act then 1 else 0), pc_statements = 0, pc_recipes = 0,
      pc_conditions = 0, pc_regexes = 0\<rparr> b' \<and> (\<forall>ss. act \<noteq> Act_Block ss)"
proof (cases shape)
  case (Shape_Capture name target)
  then show ?thesis using assms
    by (auto simp: parse_action_def Let_def split: option.splits dest!: charge_assignment_accounted)
qed (use assms accounted_same [of b] in
    \<open>auto simp: parse_action_def destination_action_def Let_def counts_default_def split: if_splits option.splits prod.splits\<close>)

text \<open>What \<open>parse_recipe\<close> asks of the parser of blocks about the budget.\<close>

locale counted_blocks =
  fixes blocks :: block_parser
  assumes block_counts: "blocks depth index b = Some (Inr (ss, n, b')) \<Longrightarrow> accounted b (statements_counts ss) b'"
    and block_depth: "blocks depth index b = Some (Inr (ss, n, b')) \<Longrightarrow> budget_ok b \<Longrightarrow> depth \<le> 256 \<Longrightarrow>
          depth + statements_depth ss \<le> 256"
begin

lemma recipe_counts:
  assumes "parse_recipe blocks rx lines start depth b = Some (Inr (recipe, n, b'))"
  shows "accounted b (counts_plus (contents_counts (rc_conditions recipe))
    (counts_plus \<lparr>pc_assignments = (if is_capture (rc_action recipe) then 1 else 0), pc_statements = 0, pc_recipes = 0,
        pc_conditions = 0, pc_regexes = 0\<rparr>
      (statements_counts (action_statements (rc_action recipe))))) b'"
  using assms
proof (cases rule: parse_recipe_cases)
  case (Block h ss)
  show ?thesis
    using accounted_trans [OF parse_recipe_head_accounted [OF Block(1)] block_counts [OF Block(5)]] Block(6)
    by (simp add: head_recipe_def counts_default_def [symmetric])
next
  case (Action h act)
  show ?thesis
    using accounted_trans [OF parse_recipe_head_accounted [OF Action(1)] conjunct1 [OF parse_action_accounted [OF Action(3,2)]]]
      action_statements_other [OF conjunct2 [OF parse_action_accounted [OF Action(3,2)]]] Action(4)
    by (simp add: head_recipe_def)
qed

lemma recipe_depth:
  assumes "parse_recipe blocks rx lines start depth b = Some (Inr (recipe, n, b'))" and "budget_ok b" and "depth \<le> 256"
  shows "depth + statements_depth [St_Recipe recipe] \<le> 256"
  using assms(1)
proof (cases rule: parse_recipe_cases)
  case (Block h ss)
  have "budget_ok (rh_budget h)" using parse_recipe_head_accounted [OF Block(1)] assms(2) by (simp add: accounted_def)
  moreover from this Block(3) have "depth + 1 \<le> 256" using rc_limits_okD(5) by (fastforce simp: budget_ok_def)
  ultimately show ?thesis using block_depth [OF Block(5)] Block(6) by (simp add: statements_depth_Cons head_recipe_def)
next
  case (Action h act)
  then show ?thesis using parse_action_accounted [OF Action(3,2)] assms(3)
    by (auto simp: statements_depth_Cons head_recipe_def split: recipe_action.splits)
qed

end

section \<open>Statements\<close>

lemma line_statement_cases [consumes 1, case_names Assignment Command File Unset]:
  assumes "line_statement l depth line b = Inr (s, b')"
  obtains
      a b1 where "parse_assignment (str_trim_start l) line = Inr (Some a)" "charge_assignment line Use_Statement b = Inr b1"
        "depth = 0 \<or> \<not> controls_rc_parsing (as_target a)" "budget_assign a b1 = Inr b'" "s = St_Assignment a"
    | a e where "parse_assignment (str_trim_start l) line = Inr (Some a)" "charge_assignment line Use_Statement b = Inr b'"
        "\<not> controls_rc_parsing (as_target a)" "as_expansion a = Some e" "requires_ordered_evaluation e"
        "s = St_CommandAssignment \<lparr>cas_line = as_line a, cas_name = as_name a, cas_source = as_value a,
           cas_target = as_target a, cas_expression = e\<rparr>"
    | a where "parse_assignment (str_trim_start l) line = Inr (Some a)" "charge_assignment line Use_Statement b = Inr b'"
        "as_name a = ascii ''INCLUDERC'' \<and> s = St_Include (assignment_file a) \<or>
         as_name a = ascii ''SWITCHRC'' \<and> s = St_Switch (assignment_file a)"
    | u b1 where "parse_unset (str_trim l) line = Inr (Some u)" "charge_assignment line Use_Statement b = Inr b1"
        "depth = 0 \<or> \<not> controls_rc_parsing (un_target u)" "b' = budget_unset u b1" "s = St_Unset u"
proof -
  from assms obtain assigned where assigned: "parse_assignment (str_trim_start l) line = Inr assigned"
    by (auto simp: line_statement_def)
  show thesis
  proof (cases assigned)
    case (Some a)
    with assms assigned obtain b1 where b1: "charge_assignment line Use_Statement b = Inr b1"
        "depth = 0 \<or> \<not> controls_rc_parsing (as_target a)"
        and kind: "(if as_name a = ascii ''INCLUDERC'' then Inr (St_Include (assignment_file a), b1)
          else if as_name a = ascii ''SWITCHRC'' then Inr (St_Switch (assignment_file a), b1)
          else (case as_expansion a of
            Some e \<Rightarrow>
              if requires_ordered_evaluation e then
                (if controls_rc_parsing (as_target a) then
                   Inl (parse_error_new (as_line a) (Rcm_Recipe (Rcm_AssignedFromCommand (as_name a))))
                 else
                   Inr (St_CommandAssignment \<lparr>cas_line = as_line a, cas_name = as_name a, cas_source = as_value a,
                          cas_target = as_target a, cas_expression = e\<rparr>, b1))
              else and_then (budget_assign a b1) (\<lambda>b2. Inr (St_Assignment a, b2))
          | None \<Rightarrow> and_then (budget_assign a b1) (\<lambda>b2. Inr (St_Assignment a, b2)))) = Inr (s, b')"
      by (auto simp: line_statement_def assignment_statement_def split: if_split_asm)
    have a: "parse_assignment (str_trim_start l) line = Inr (Some a)" using assigned Some by simp
    from kind consider "as_name a = ascii ''INCLUDERC'' \<and> s = St_Include (assignment_file a) \<or>
         as_name a = ascii ''SWITCHRC'' \<and> s = St_Switch (assignment_file a)" "b' = b1"
      | e where "as_expansion a = Some e" "requires_ordered_evaluation e" "\<not> controls_rc_parsing (as_target a)" "b' = b1"
        "s = St_CommandAssignment \<lparr>cas_line = as_line a, cas_name = as_name a, cas_source = as_value a,
           cas_target = as_target a, cas_expression = e\<rparr>"
      | "budget_assign a b1 = Inr b'" "s = St_Assignment a"
      by (cases "as_expansion a") (auto split: if_split_asm)
    then show thesis using a b1 that(1,2,3) by cases blast+
  next
    case None
    with assms assigned obtain u where "parse_unset (str_trim l) line = Inr (Some u)" "unset_statement depth line u b = Inr (s, b')"
      by (auto simp: line_statement_def split: option.split_asm)
    then show thesis using that(4) by (auto simp: unset_statement_def split: if_split_asm)
  qed
qed

lemma line_statement_accounted:
  assumes "line_statement l depth line b = Inr (s, b')" and "check_statement b line = Inr ()"
  shows "accounted b (statements_counts [s]) b' \<and> statements_depth [s] = 0"
proof -
  have charged: "accounted b \<lparr>pc_assignments = 1, pc_statements = 1, pc_recipes = 0, pc_conditions = 0, pc_regexes = 0\<rparr> b2"
    if "charge_assignment line Use_Statement b = Inr b2" for b2
    using charge_assignment_accounted [OF that] assms(2) by simp
  from assms(1) show ?thesis
  proof (cases rule: line_statement_cases)
    case (Assignment a b1)
    then show ?thesis using accounted_trans [OF charged budget_assign_accounted] by fastforce
  next
    case (Unset u b1)
    then show ?thesis using accounted_trans [OF charged budget_unset_accounted] by fastforce
  next
    case (Command a e)
    then show ?thesis using charged by simp
  next
    case (File a)
    then show ?thesis using charged by auto
  qed
qed

lemma accounted_Cons:
  assumes "accounted b (statements_counts [s]) b1" and "accounted b1 (statements_counts ss) b2"
  shows "accounted b (statements_counts (s # ss)) b2"
  using accounted_trans [OF assms] statements_counts_append [of "[s]" ss] by (simp only: append.simps)

lemma recipe_statement_counts:
  "statements_counts [St_Recipe recipe] =
     counts_plus \<lparr>pc_assignments = 0, pc_statements = 1, pc_recipes = 1, pc_conditions = 0, pc_regexes = 0\<rparr>
       (counts_plus (contents_counts (rc_conditions recipe))
         (counts_plus \<lparr>pc_assignments = (if is_capture (rc_action recipe) then 1 else 0), pc_statements = 0, pc_recipes = 0,
             pc_conditions = 0, pc_regexes = 0\<rparr>
           (statements_counts (action_statements (rc_action recipe)))))"
  by (simp add: counts_plus_def counts_default_def)

lemma parse_statements_accounted:
  "parse_statements f rx lines acc depth index b = Some (Inr (ss, n, b')) \<Longrightarrow>
     \<exists>new. ss = acc @ new \<and> accounted b (statements_counts new) b' \<and>
       (budget_ok b \<longrightarrow> depth \<le> 256 \<longrightarrow> depth + statements_depth new \<le> 256)"
proof (induction f arbitrary: acc depth index b ss n b')
  case (Suc f)
  have blocks: "counted_blocks (parse_statements f rx lines [])"
    by unfold_locales (auto dest!: Suc.IH)
  from Suc.prems show ?case
  proof (cases rule: parse_statements_cases)
    case Skip
    then show ?thesis using Suc.IH by blast
  next
    case (Recipe b1 recipe k b2)
    then obtain new where new: "ss = (acc @ [St_Recipe recipe]) @ new" "accounted b2 (statements_counts new) b'"
        "budget_ok b2 \<longrightarrow> depth \<le> 256 \<longrightarrow> depth + statements_depth new \<le> 256"
      using Suc.IH by blast
    note charged = charge_recipe_accounted [OF Recipe(3,2)] counted_blocks.recipe_counts [OF blocks Recipe(4)]
    have recipe: "accounted b (statements_counts [St_Recipe recipe]) b2"
      unfolding recipe_statement_counts by (rule accounted_trans [OF charged])
    have "accounted b (statements_counts (St_Recipe recipe # new)) b'"
      by (rule accounted_Cons [OF recipe new(2)])
    moreover have "depth + statements_depth (St_Recipe recipe # new) \<le> 256" if "budget_ok b" "depth \<le> 256"
      using counted_blocks.recipe_depth [OF blocks Recipe(4)] new(3) that charged(1) recipe
        statements_depth_append [of "[St_Recipe recipe]" new]
      by (simp add: accounted_def del: statements_depth.simps)
    ultimately show ?thesis using new(1) by (intro exI [of _ "St_Recipe recipe # new"]) simp
  next
    case (Line s b1)
    then obtain new where new: "ss = (acc @ [s]) @ new" "accounted b1 (statements_counts new) b'"
        "budget_ok b1 \<longrightarrow> depth \<le> 256 \<longrightarrow> depth + statements_depth new \<le> 256"
      using Suc.IH by blast
    note s = line_statement_accounted [OF Line(3,2)]
    have "accounted b (statements_counts (s # new)) b'"
      by (rule accounted_Cons [OF conjunct1 [OF s] new(2)])
    moreover have "statements_depth (s # new) = statements_depth new"
      using s statements_depth_append [of "[s]" new] by (simp del: statements_depth.simps)
    ultimately show ?thesis using new s by (intro exI [of _ "s # new"]) (simp add: accounted_def)
  qed (use accounted_same in \<open>auto\<close>)
qed simp

interpretation rc_counts: counted_blocks "parse_statements f rx lines []" for f rx lines
  by unfold_locales (auto dest!: parse_statements_accounted)

lemma counts_subtract_plus: "counts_subtract (counts_plus c d) c = Inr d"
  by (simp add: counts_subtract_def count_down_def)

end
