(* ===== verification/Rc_Sample.thy ===== *)
theory Rc_Sample
  imports Rc_Accounting
begin

text \<open>
  A file of three lines, parsed step by step with the limit on regular expressions as a parameter: a recipe
  with one condition that is expanded when mail arrives. It shows the hypotheses of the theorems on the parser to
  hold, and that such conditions are not held to the limit.
\<close>

lemma chars_ascii: "list_all (\<lambda>b. b < 128) bs \<Longrightarrow> chars bs = map (\<lambda>b. [b]) bs"
  by (simp add: chars_def valid_utf8_ascii)

definition sample_rc :: bytes where
  "sample_rc = [58, 48, 10, 42, 32, 36, 120, 10, 109, 47, 10]"

definition sample_lines :: "bytes list" where
  "sample_lines = [ascii '':0'', ascii ''* $x'', ascii ''m/'']"

definition sample_budget :: "usize \<Rightarrow> parse_budget" where
  "sample_budget r = budget_default\<lparr>pb_limits := rc_limits_default\<lparr>rl_regexes := r\<rparr>\<rparr>"

definition sample_charged :: "usize \<Rightarrow> parse_budget" where
  "sample_charged r = (sample_budget r)\<lparr>pb_counts :=
     \<lparr>pc_assignments = 0, pc_statements = 1, pc_recipes = 1, pc_conditions = 0, pc_regexes = 0\<rparr>\<rparr>"

definition sample_spent :: "usize \<Rightarrow> parse_budget" where
  "sample_spent r = (sample_budget r)\<lparr>pb_counts :=
     \<lparr>pc_assignments = 0, pc_statements = 1, pc_recipes = 1, pc_conditions = 1, pc_regexes = 1\<rparr>\<rparr>"

definition sample_condition :: condition where
  "sample_condition = \<lparr>cd_line = Suc (Suc 0), cd_negated = False, cd_kind = CK_ShellExpanded (ascii ''x'') None\<rparr>"

definition sample_destination :: path_expression where
  "sample_destination = \<lparr>pe_source = ascii ''m/'', pe_base = None, pe_line = 3, pe_runtime_dependent = False,
     pe_runtime_base = False, pe_typed_destination = False, pe_expansion = None\<rparr>"

definition sample_recipe :: recipe where
  "sample_recipe = Recipe 1 3 (flag_options []) None [sample_condition] (Act_Deliver (Maildir sample_destination))"

lemma sample_str_lines: "str_lines sample_rc = sample_lines"
  by (simp add: str_lines_def sample_rc_def lines_of.simps first_line_def line_text_def strip_suffix_def sample_lines_def
      ends_with_def)

lemma sample_trim:
  "str_trim [58, 48] = [58, 48]" "str_trim [42, 32, 36, 120] = [42, 32, 36, 120]" "str_trim [109, 47] = [109, 47]"
  "str_trim_start [42, 32, 36, 120] = [42, 32, 36, 120]" "str_trim [32, 36, 120] = [36, 120]" "str_trim [] = []"
  "str_trim_start [32, 36, 120] = [36, 120]" "str_trim_start [36, 120] = [36, 120]" "str_trim [36, 120] = [36, 120]"
  by (simp_all add: str_trim_def str_trim_end_def str_trim_start_def chars_ascii char_is_whitespace_def)

lemma sample_header: "parse_recipe_header [] line = Inr (flag_options [], None, [])"
  by (simp add: parse_recipe_header_def strip_comment_def split_once_def sample_trim check_flags_def Let_def)

lemma sample_parse_condition:
  "parse_condition rx [32, 36, 120] line cs n b =
     Inr (\<lparr>cd_line = line, cd_negated = False, cd_kind = CK_ShellExpanded (ascii ''x'') None\<rparr>, True)"
  by (simp add: parse_condition_def sample_trim strip_negations.simps has_scoring_prefix_def split_once_def
      parse_single_line_multipart_def strip_prefix_def plain_condition_kind_def)

lemma sample_nth:
  "sample_lines ! 0 = [58, 48]" "sample_lines ! Suc 0 = [42, 32, 36, 120]" "sample_lines ! 2 = [109, 47]" "length sample_lines = 3"
  by (simp_all add: sample_lines_def)

lemma sample_length: "length sample_lines = Suc (Suc (Suc 0))"
  by (simp add: sample_lines_def)

lemma sample_limits:
  "pb_limits (sample_budget r) = rc_limits_default\<lparr>rl_regexes := r\<rparr>" "pb_limits (sample_charged r) = rc_limits_default\<lparr>rl_regexes := r\<rparr>"
  "rl_linebuf (rc_limits_default\<lparr>rl_regexes := r\<rparr>) = 2048" "rl_conditions (rc_limits_default\<lparr>rl_regexes := r\<rparr>) = 4096"
  "rl_conditions_per_recipe (rc_limits_default\<lparr>rl_regexes := r\<rparr>) = 256" "rl_statements (rc_limits_default\<lparr>rl_regexes := r\<rparr>) = 4096"
  "rl_recipes (rc_limits_default\<lparr>rl_regexes := r\<rparr>) = 1024"
  by (simp_all add: sample_budget_def sample_charged_def budget_default_def rc_limits_default_def)

lemma sample_line:
  "length l \<le> 2048 \<Longrightarrow> check_line (sample_budget r) l n = Inr ()" "length l \<le> 2048 \<Longrightarrow> check_line (sample_charged r) l n = Inr ()"
  by (simp_all add: check_line_def check_linebuf_def sample_limits)

lemma sample_continuation: "parse_condition_continuation sample_lines (Suc 0) 2048 = Inr ([32, 36, 120], 2)"
proof -
  have "continue_condition 2048 (Suc 0) True (Suc 0) [42, 32, 36, 120] [32, 36, 120] [] rest = Inr ([32, 36, 120], 2)" for rest
    by (subst continue_condition.simps) (simp add: check_linebuf_def ensure_def checked_add_def usize_max_def ends_with_singleton)
  then show ?thesis
    by (simp add: parse_condition_continuation_def sample_nth sample_trim strip_prefix_def condition_is_shell_expanded_def
        strip_negations.simps)
qed

lemma sample_conditions:
  "recipe_conditions rx sample_lines False (sample_charged r) [] 0 (Suc 0) = Inr ([sample_condition], Suc 0, 2)"
proof -
  have "is_multipart_block_start [42, 32, 36, 120] = None"
    by (simp add: is_multipart_block_start_def strip_prefix_def sample_trim strip_negations.simps)
  moreover have "check_condition (sample_charged r) 0 n = Inr ()" for n
    by (simp add: check_condition_Inr sample_limits) (simp add: sample_charged_def usize_max_def)
  moreover have "recipe_conditions rx sample_lines False (sample_charged r) [sample_condition] (Suc 0) 2 =
      Inr ([sample_condition], Suc 0, 2)"
    by (subst recipe_conditions.simps) (simp add: sample_nth sample_trim sample_line del: and_then_Inr)
  ultimately show ?thesis
    by (subst recipe_conditions.simps)
      (simp add: sample_nth sample_limits sample_trim sample_line sample_continuation sample_parse_condition
        sample_condition_def checked_add_def usize_max_def del: and_then_Inr)
qed

lemma sample_expression: "parse_command_expression [109, 47] line = Inr None"
proof -
  have "expression_parse (Ordinary True) [109, 47] = Inr [Literal [109, 47]]"
    by (simp add: expression_parse_def parse_until_def until_loop.simps(2) until_step_def until_end_def push_character_def
        push_expression_character_def push_literal_part_def flush_literal_def start_word_def char_len_def char_at_def Let_def byte_defs)
  then show ?thesis by (simp add: parse_command_expression_def requires_ordered_evaluation_def)
qed

lemma sample_action: "destination_action [109, 47] 3 = Inr (Act_Deliver (Maildir sample_destination))"
  by (simp add: destination_action_def strip_prefix_def ends_with_singleton required_path_def sample_trim
      check_path_length_def MAX_PATH_EXPRESSION_LEN_def destination_path_expression_def sample_expression
      sample_destination_def ensure_def)

lemma sample_shape: "shape_of_action [109, 47] line = Inr Shape_Destination"
  by (simp add: shape_of_action_def parse_capture_action_prefix_def)

lemma sample_recipe_parsed:
  "parse_recipe blocks rx sample_lines 0 0 (sample_charged r) = Some (Inr (sample_recipe, 3, sample_spent r))"
proof -
  have "record_recipe_contents 1 1 line (sample_charged r) = Inr (sample_spent r)" for line
    by (simp add: record_recipe_contents_def sample_charged_def sample_spent_def usize_max_def)
  moreover have "check_recipe_options (flag_options []) [] None [sample_condition] [109, 47] Shape_Destination start index =
      Inr (flag_options [])" for start index
    by (simp add: check_recipe_options_def flag_options_def validate_destination_syntax_def
        destination_has_literal_whitespace_def byte_defs)
  ultimately have "parse_recipe_head rx sample_lines 0 (sample_charged r) =
      Inr \<lparr>rh_options = flag_options [], rh_lock = None, rh_conditions = [sample_condition], rh_index = 2,
           rh_action = [109, 47], rh_shape = Shape_Destination, rh_budget = sample_spent r\<rparr>"
    using sample_conditions [of rx r]
    by (simp add: parse_recipe_head_def sample_nth sample_trim strip_prefix_def sample_header sample_shape get_def sample_line
        check_action_line_def flag_options_def del: and_then_Inr)
  then show ?thesis
    by (simp add: parse_recipe_def parse_action_def sample_action sample_recipe_def head_recipe_def del: fuelled_then_Inr and_then_Inr)
qed

lemma sample_parsed:
  "parse_with_state rx sample_rc (sample_budget r) =
     Some (Inr (\<lparr>cf_statements = [St_Recipe sample_recipe], cf_initial_variables = [],
       cf_parse_counts = \<lparr>pc_assignments = 0, pc_statements = 1, pc_recipes = 1, pc_conditions = 1, pc_regexes = 1\<rparr>,
       cf_initial_linebuf = 2048\<rparr>, sample_spent r))"
proof -
  have "charge_recipe line (sample_budget r) = Inr (sample_charged r)" for line
    by (simp add: charge_recipe_def sample_limits)
      (simp add: sample_budget_def sample_charged_def budget_default_def counts_default_def usize_max_def)
  moreover have "check_statement (sample_budget r) line = Inr ()" for line
    by (simp add: sample_limits) (simp add: sample_budget_def budget_default_def counts_default_def)
  ultimately have "parse_statements (Suc (Suc (Suc (Suc 0)))) rx sample_lines [] 0 0 (sample_budget r) = Some (Inr ([St_Recipe sample_recipe], 3, sample_spent r))"
    by (simp add: sample_nth sample_trim sample_line sample_recipe_parsed del: fuelled_then_Inr check_statement_Inr)
  then show ?thesis
    by (simp add: parse_with_state_def sample_str_lines sample_length sample_limits MAX_RC_SIZE_def sample_rc_def [THEN arg_cong [of _ _ length]]
      counts_subtract_def count_down_def sample_spent_def sample_budget_def budget_default_def counts_default_def
      del: fuelled_then_Inr parse_statements.simps)
qed

text \<open>
  C8. The counts that the parser reports are those of what it returns: the number of assignments, statements, recipes,
  conditions and regular expressions of the whole tree, blocks included, and the budget that is left for the
  files included later is charged with exactly them.
\<close>

theorem rc_parse_counts_exact:
  assumes "parse_with_state rx input b = Some (Inr (config, b'))"
  shows "cf_parse_counts config = statements_counts (cf_statements config) \<and>
    pb_counts b' = counts_plus (pb_counts b) (statements_counts (cf_statements config))"
  using assms
  by (auto simp: parse_with_state_def accounted_def counts_subtract_plus simp del: parse_statements.simps split: if_splits
      dest!: parse_statements_accounted)

theorem rc_parse_counts_exact_witness:
  "statements_counts [St_Recipe sample_recipe] =
     \<lparr>pc_assignments = 0, pc_statements = 1, pc_recipes = 1, pc_conditions = 1, pc_regexes = 1\<rparr>"
  using rc_parse_counts_exact [OF sample_parsed [of "\<lparr>rf_parse = \<lambda>_. Inl [], rf_build = \<lambda>_ _. Inl []\<rparr>" 0]] by simp

text \<open>
  C9. Whatever a file assigns to the limits and to \<open>LINEBUF\<close>, parsing it keeps the budget within the hard limits:
  at most 65536 assignments, statements and conditions and 16384 recipes over all files parsed with the budget, no
  more than 256 levels of blocks, and limits that can themselves not be set above the hard ones.
\<close>

theorem rc_budget_bounds:
  assumes "parse_with_state rx input b = Some (Inr (config, b'))" and "budget_ok b"
  shows "budget_ok b' \<and> statements_depth (cf_statements config) \<le> 256"
  using assms
  by (auto simp: parse_with_state_def accounted_def simp del: parse_statements.simps split: if_splits
      dest!: parse_statements_accounted)

lemma sample_budget_ok: "r \<le> 1024 \<Longrightarrow> budget_ok (sample_budget r)"
  using rc_limits_set_ok [OF rc_limits_default_ok, of Rc_Regexes r] budget_default_ok
  by (simp add: budget_ok_def sample_budget_def rc_limits_set_def) (simp add: budget_default_def)

theorem rc_budget_bounds_witness:
  "budget_ok (sample_spent 0) \<and> statements_depth [St_Recipe sample_recipe] \<le> 256"
  using rc_budget_bounds [OF sample_parsed [of "\<lparr>rf_parse = \<lambda>_. Inl [], rf_build = \<lambda>_ _. Inl []\<rparr>" 0] sample_budget_ok] by simp

text \<open>
  The bound does not hold for regular expressions: a condition that starts with a dollar sign is counted as one but never
  compared with \<open>LIMIT_RC_REGEXES\<close>. With that limit at 0 the file of one such condition is accepted, and
  the count is 1.
\<close>

lemma shell_condition_exceeds_regex_limit:
  "rl_regexes (pb_limits (sample_budget 0)) = 0 \<and>
   (\<exists>config b'. parse_with_state rx sample_rc (sample_budget 0) = Some (Inr (config, b')) \<and>
      pc_regexes (cf_parse_counts config) = 1 \<and> pc_regexes (pb_counts b') = 1 \<and> rl_regexes (pb_limits b') = 0)"
  by (simp add: sample_parsed) (simp add: sample_limits sample_spent_def)

end
