(* ===== verification/Rc_Shape.thy ===== *)
theory Rc_Shape
  imports Rc_Sample
begin

text \<open>
  What every accepted rc file looks like: names, values, commands and paths within their limits, options that fit the
  action, header operations on valid names, and conditions whose fields are distinct.
\<close>

section \<open>Well-formed statements\<close>

definition rc_name_ok :: "bytes \<Rightarrow> assignment_target \<Rightarrow> bool" where
  "rc_name_ok name target \<longleftrightarrow>
     valid_name name \<and> length name \<le> MAX_ASSIGNMENT_NAME_LEN \<and>
     policy_assignment_target (variable_policy_of name) Source_RcFile = Some target"

definition command_ok :: "bytes \<Rightarrow> bool" where
  "command_ok c \<longleftrightarrow> c \<noteq> [] \<and> length c \<le> MAX_PIPE_COMMAND_LEN \<and> 0 \<notin> set c"

definition header_value_ok :: "header_value \<Rightarrow> bool" where
  "header_value_ok v \<longleftrightarrow>
     hv_expansion v = None \<and> \<not> ends_with (hv_source v) [BACKSLASH] \<and>
     CR \<notin> set (hv_source v) \<and> LF \<notin> set (hv_source v) \<and> 0 \<notin> set (hv_source v)"

fun operation_ok :: "header_operation \<Rightarrow> bool" where
  "operation_ok (Op_Remove line name) \<longleftrightarrow> valid_header_name name"
| "operation_ok (Op_Set line name v) \<longleftrightarrow> valid_header_name name \<and> header_value_ok v"
| "operation_ok (Op_Add line name v) \<longleftrightarrow> valid_header_name name \<and> header_value_ok v"
| "operation_ok (Op_Prepend line name v) \<longleftrightarrow> valid_header_name name \<and> header_value_ok v"
| "operation_ok (Op_Rename line old new) \<longleftrightarrow> valid_header_name old \<and> valid_header_name new"
| "operation_ok (Op_Extract line name target mode) \<longleftrightarrow>
     valid_header_name name \<and> length target \<le> MAX_ASSIGNMENT_NAME_LEN \<and> valid_name target \<and>
     variable_policy_of target = RcOrCommandLine Target_User"
| "operation_ok (Op_Keywords line mode) \<longleftrightarrow>
     (case mode of KeywordsAdd v \<Rightarrow> header_value_ok v | KeywordsRemove v \<Rightarrow> header_value_ok v | KeywordsSet v \<Rightarrow> header_value_ok v
      | KeywordsClear \<Rightarrow> True)"
| "operation_ok (Op_Priority line mode) \<longleftrightarrow> True"
| "operation_ok (Op_Status line mode) \<longleftrightarrow>
     (case mode of StatusAdd v \<Rightarrow> header_value_ok v | StatusRemove v \<Rightarrow> header_value_ok v | StatusSet v \<Rightarrow> header_value_ok v
      | StatusClear \<Rightarrow> True)"

definition regex_ok :: "regex_condition \<Rightarrow> bool" where
  "regex_ok r \<longleftrightarrow>
     length (rx_pattern r) \<le> MAX_REGEX_PATTERN_LEN \<and> length (rx_match_captures r) \<le> MAX_REGEX_MATCH_MARKERS \<and>
     length (rx_capture_indexes r) \<le> MAX_REGEX_CAPTURES \<and> sorted_wrt (<) (rx_capture_indexes r) \<and>
     0 \<notin> set (rx_capture_indexes r) \<and> set (rx_match_captures r) \<inter> set (rx_capture_indexes r) = {}"

fun kind_ok :: "condition_kind \<Rightarrow> bool" where
  "kind_ok (CK_ShellExpanded source e) \<longleftrightarrow> e = None"
| "kind_ok (CK_Regex r) \<longleftrightarrow> regex_ok r"
| "kind_ok (CK_AreaRegex area r) \<longleftrightarrow> regex_ok r"
| "kind_ok (CK_VariableRegex name r) \<longleftrightarrow> valid_name name \<and> length name \<le> MAX_ASSIGNMENT_NAME_LEN \<and> regex_ok r"
| "kind_ok (CK_AddressRegex fs r) \<longleftrightarrow> fs \<noteq> [] \<and> distinct fs \<and> regex_ok r"
| "kind_ok (CK_IdentifierRegex fs r) \<longleftrightarrow> fs \<noteq> [] \<and> distinct fs \<and> regex_ok r"
| "kind_ok (CK_KeywordRegex fs r) \<longleftrightarrow> fs \<noteq> [] \<and> distinct fs \<and> regex_ok r"
| "kind_ok (CK_Multipart checks) \<longleftrightarrow>
     checks \<noteq> [] \<and> distinct (map mc_field checks) \<and> list_all (\<lambda>c. regex_ok (mc_regex c)) checks"
| "kind_ok (CK_Program command) \<longleftrightarrow> command_ok command"
| "kind_ok (CK_SmallerThan n) \<longleftrightarrow> n \<le> usize_max"
| "kind_ok (CK_LargerThan n) \<longleftrightarrow> n \<le> usize_max"

definition destination_ok :: "destination \<Rightarrow> bool" where
  "destination_ok d \<longleftrightarrow>
     pe_source (destination_expression d) \<noteq> [] \<and> length (pe_source (destination_expression d)) \<le> MAX_PATH_EXPRESSION_LEN \<and>
     pe_runtime_dependent (destination_expression d) = (pe_expansion (destination_expression d) \<noteq> None) \<and>
     destination_kind_of d \<noteq> Kind_Discard"

fun action_ok :: "recipe_options \<Rightarrow> bytes option \<Rightarrow> condition list \<Rightarrow> recipe_action \<Rightarrow> bool" where
  "action_ok options lock conditions (Act_Deliver d) \<longleftrightarrow>
     destination_ok d \<and> ro_action_input options = AI_Message \<and> ro_action_mode options = Mode_Deliver \<and>
     ro_write_errors options = Write_Fail \<and> (ro_child_status options = Child_Ignore \<or> has_program_condition conditions)"
| "action_ok options lock conditions (Act_Pipe command) \<longleftrightarrow>
     command_ok command \<or> command = [] \<and> ro_action_mode options = Mode_Deliver"
| "action_ok options lock conditions (Act_Capture c) \<longleftrightarrow> command_ok (ca_command c) \<and> rc_name_ok (ca_name c) (ca_target c)"
| "action_ok options lock conditions (Act_Block ss) \<longleftrightarrow>
     ro_action_input options = AI_Message \<and> ro_action_mode options = Mode_Deliver \<and> lock \<noteq> Some []"
| "action_ok options lock conditions (Act_Headers operations) \<longleftrightarrow>
     length operations \<le> MAX_HEADER_OPERATIONS_PER_ACTION \<and> list_all operation_ok operations \<and> lock = None \<and>
     ro_continuation options = Cont_Continue \<and> ro_action_input options = AI_Message \<and>
     ro_action_mode options = Mode_Deliver \<and> ro_child_status options = Child_Ignore \<and>
     ro_write_errors options = Write_Fail \<and> ro_output_ending options = Normalize"

definition recipe_ok :: "recipe \<Rightarrow> bool" where
  "recipe_ok r \<longleftrightarrow>
     rc_line r < rc_action_line r \<and> ro_continuation (rc_options r) \<noteq> Cont_BranchBlock \<and>
     (case rc_lock r of None \<Rightarrow> True | Some e \<Rightarrow> length (pe_source e) \<le> MAX_PATH_EXPRESSION_LEN) \<and>
     list_all (\<lambda>c. kind_ok (cd_kind c)) (rc_conditions r) \<and>
     action_ok (rc_options r) (map_option pe_source (rc_lock r)) (rc_conditions r) (rc_action r)"

text \<open>\<open>nested\<close> is set inside blocks, where the variables that steer the parser cannot be assigned.\<close>

fun statement_ok :: "bool \<Rightarrow> statement \<Rightarrow> bool" where
  "statement_ok nested (St_Assignment a) \<longleftrightarrow>
     rc_name_ok (as_name a) (as_target a) \<and> length (as_value a) \<le> value_limit (as_target a) \<and>
     (nested \<longrightarrow> \<not> controls_rc_parsing (as_target a))"
| "statement_ok nested (St_Unset u) \<longleftrightarrow>
     rc_name_ok (un_name u) (un_target u) \<and> (nested \<longrightarrow> \<not> controls_rc_parsing (un_target u))"
| "statement_ok nested (St_CommandAssignment c) \<longleftrightarrow>
     rc_name_ok (cas_name c) (cas_target c) \<and> length (cas_source c) \<le> value_limit (cas_target c) \<and>
     \<not> controls_rc_parsing (cas_target c) \<and> requires_ordered_evaluation (cas_expression c)"
| "statement_ok nested (St_Include f) \<longleftrightarrow> length (rf_value f) \<le> MAX_ASSIGNMENT_VALUE_LEN"
| "statement_ok nested (St_Switch f) \<longleftrightarrow> length (rf_value f) \<le> MAX_ASSIGNMENT_VALUE_LEN"
| "statement_ok nested (St_Recipe r) \<longleftrightarrow> recipe_ok r"

fun statements_ok :: "bool \<Rightarrow> statement list \<Rightarrow> bool" where
  "statements_ok nested [] \<longleftrightarrow> True"
| "statements_ok nested (St_Recipe (Recipe l al opts lock cs (Act_Block children)) # ss) \<longleftrightarrow>
     recipe_ok (Recipe l al opts lock cs (Act_Block children)) \<and> statements_ok True children \<and> statements_ok nested ss"
| "statements_ok nested (s # ss) \<longleftrightarrow> statement_ok nested s \<and> statements_ok nested ss"

lemma statements_ok_Cons:
  "statements_ok nested (s # ss) \<longleftrightarrow>
     statement_ok nested s \<and> statements_ok True (case s of St_Recipe r \<Rightarrow> action_statements (rc_action r) | _ \<Rightarrow> []) \<and>
     statements_ok nested ss"
  by (cases "(nested, s # ss)" rule: statements_ok.cases) simp_all

lemma statements_ok_append: "statements_ok nested (ss @ ts) \<longleftrightarrow> statements_ok nested ss \<and> statements_ok nested ts"
  by (induction ss) (simp_all add: statements_ok_Cons)

section \<open>Words and lines\<close>

lemma rc_target_ok: "rc_target name line refused = Inr target \<Longrightarrow> policy_assignment_target (variable_policy_of name) Source_RcFile = Some target"
  by (auto simp: rc_target_def Let_def split: if_splits option.splits)

lemma parse_assignment_ok:
  assumes "parse_assignment text line = Inr (Some a)"
  shows "rc_name_ok (as_name a) (as_target a) \<and> length (as_value a) \<le> value_limit (as_target a) \<and>
    as_line a = line"
proof -
  obtain name v where "parse_assignment_parts name v line = Inr (Some a)"
    using assms by (auto simp: parse_assignment_def split: option.splits if_splits)
  then show ?thesis
    by (auto simp: parse_assignment_parts_def check_target_value_def rc_name_ok_def Let_def split: if_splits sum.splits
        dest: rc_target_ok)
qed

lemma parse_unset_ok: "parse_unset text line = Inr (Some u) \<Longrightarrow> rc_name_ok (un_name u) (un_target u)"
  by (auto simp: parse_unset_def rc_name_ok_def Let_def split: if_splits sum.splits dest: rc_target_ok)

lemma parse_capture_action_prefix_ok:
  "parse_capture_action_prefix action line = Inr (Some (name, target)) \<Longrightarrow> rc_name_ok name target"
  by (auto simp: parse_capture_action_prefix_def rc_name_ok_def Let_def split: option.splits if_splits dest: rc_target_ok)

lemma continue_command_bounded:
  "continue_command linebuf start use index full physical command rest = Inr (c, n) \<Longrightarrow> length c \<le> MAX_PIPE_COMMAND_LEN"
proof (induction rest arbitrary: index full physical command)
  case Nil
  then show ?case
    by (simp add: continue_command.simps [of _ _ _ _ _ _ _ "[]"] Let_def checked_add_Some split: sum.splits option.splits if_splits)
      auto
next
  case (Cons l ls)
  from Cons.prems show ?case
    by (simp add: continue_command.simps [of _ _ _ _ _ _ _ "l # ls"] Let_def checked_add_Some split: sum.splits option.splits if_splits)
      (auto dest: Cons.IH)
qed

lemma parse_command_continuation_ok:
  "parse_command_continuation lines start t linebuf use = Inr (c, n) \<Longrightarrow> command_ok c"
  by (auto simp: parse_command_continuation_def command_ok_def split: sum.splits if_splits dest: continue_command_bounded)

section \<open>Header operations\<close>

lemma validate_header_name_Inr [simp]: "validate_header_name name line = Inr u \<longleftrightarrow> valid_header_name name"
  by (simp add: validate_header_name_def)

lemma parse_header_value_source_ok:
  assumes "parse_header_value_source v line = Inr h"
  shows "header_value_ok h"
proof -
  have "\<not> ends_with v [BACKSLASH]" "\<not> list_ex (\<lambda>b. b = CR \<or> b = LF \<or> b = 0) v" "h = \<lparr>hv_source = v, hv_expansion = None\<rparr>"
    using assms by (simp_all add: parse_header_value_source_def split: if_split_asm)
  then show ?thesis unfolding list_ex_iff by (simp add: header_value_ok_def) blast
qed

lemma validate_header_extraction_target_ok:
  "validate_header_extraction_target name line = Inr () \<Longrightarrow>
     length name \<le> MAX_ASSIGNMENT_NAME_LEN \<and> valid_name name \<and> variable_policy_of name = RcOrCommandLine Target_User"
  by (auto simp: validate_header_extraction_target_def Let_def split: if_splits)

lemma parse_value_mode_ok:
  assumes "parse_value_mode operation line rest clear add remove set_all = Inr m"
  shows "m = clear \<or> (\<exists>v. header_value_ok v \<and> m \<in> {add v, remove v, set_all v})"
  using assms
  by (auto simp: parse_value_mode_def split: prod.splits option.splits if_splits dest!: parse_header_value_source_ok)

lemma parse_field_operation_ok: "parse_field_operation operation line rest = Inr op \<Longrightarrow> operation_ok op"
  by (auto simp: parse_field_operation_def split: prod.splits option.splits if_splits dest!: parse_header_value_source_ok)

lemma parse_remove_ok: "parse_remove line rest = Inr op \<Longrightarrow> operation_ok op"
  by (auto simp: parse_remove_def split: prod.splits option.splits if_splits)

lemma parse_rename_ok: "parse_rename line rest = Inr op \<Longrightarrow> operation_ok op"
  by (auto simp: parse_rename_def split: prod.splits option.splits bool.splits)

lemma parse_extract_ok: "parse_extract line rest = Inr op \<Longrightarrow> operation_ok op"
  by (auto simp: parse_extract_def split: prod.splits option.splits bool.splits dest!: validate_header_extraction_target_ok)

lemma parse_priority_ok: "parse_priority line rest = Inr op \<Longrightarrow> operation_ok op"
  by (auto simp: parse_priority_def split: prod.splits option.splits if_splits)

lemma parse_keywords_ok:
  "parse_value_mode operation line rest KeywordsClear KeywordsAdd KeywordsRemove KeywordsSet = Inr m \<Longrightarrow> operation_ok (Op_Keywords line m)"
  by (auto dest!: parse_value_mode_ok)

lemma parse_status_ok:
  "parse_value_mode operation line rest StatusClear StatusAdd StatusRemove StatusSet = Inr m \<Longrightarrow> operation_ok (Op_Status line m)"
  by (auto dest!: parse_value_mode_ok)

lemma parse_header_operation_ok: "parse_header_operation text line = Inr op \<Longrightarrow> operation_ok op"
  by (auto simp: parse_header_operation_def Let_def simp del: operation_ok.simps split: prod.splits option.splits if_splits
      dest: parse_remove_ok parse_rename_ok parse_extract_ok parse_priority_ok parse_field_operation_ok
      intro: parse_keywords_ok parse_status_ok)

lemma header_action_loop_ok:
  "header_action_loop linebuf opening index operations lines = Inr (ops, n) \<Longrightarrow> list_all operation_ok operations \<Longrightarrow>
     length operations \<le> MAX_HEADER_OPERATIONS_PER_ACTION \<Longrightarrow>
     list_all operation_ok ops \<and> length ops \<le> MAX_HEADER_OPERATIONS_PER_ACTION"
proof (induction lines arbitrary: index operations)
  case (Cons l lines)
  from Cons.prems(1) consider "header_action_loop linebuf opening (Suc index) operations lines = Inr (ops, n)"
    | "ops = operations"
    | op where "parse_header_operation (str_trim l) (Suc index) = Inr op" "length operations \<noteq> MAX_HEADER_OPERATIONS_PER_ACTION"
        "header_action_loop linebuf opening (Suc index) (operations @ [op]) lines = Inr (ops, n)"
    by (auto simp: Let_def split: if_splits)
  then show ?case
  proof cases
    case 1
    then show ?thesis using Cons.IH Cons.prems(2,3) by blast
  next
    case 2
    then show ?thesis using Cons.prems(2,3) by simp
  next
    case (3 op)
    then show ?thesis using Cons.prems(2,3) parse_header_operation_ok [OF 3(1)] by (intro Cons.IH [OF 3(3)]) simp_all
  qed
qed simp

lemma parse_header_action_ok:
  "parse_header_action lines opening linebuf = Inr (ops, n) \<Longrightarrow>
     list_all operation_ok ops \<and> length ops \<le> MAX_HEADER_OPERATIONS_PER_ACTION"
  by (auto simp: parse_header_action_def dest!: header_action_loop_ok)

section \<open>Conditions\<close>

lemma marker_captures_length: "marker_captures line names ms = Inr is \<Longrightarrow> length is = length ms"
  by (induction ms arbitrary: "is") (auto split: option.splits)

lemma edits_push_markers: "edits_push line a b r es = Inr es1 \<Longrightarrow> res_markers es1 = res_markers es"
  by (auto simp: edits_push_def split: if_splits)

lemma visit_pre_markers:
  "visit_pre pattern line node es = Inr es1 \<Longrightarrow> res_markers es \<le> MAX_REGEX_MATCH_MARKERS \<Longrightarrow>
     res_markers es1 \<le> MAX_REGEX_MATCH_MARKERS"
  by (cases node)
    (auto simp: visit_assertion_def visit_start_line_def visit_literal_def split: if_splits assertion_kind.splits option.splits
      dest!: edits_push_markers)

lemma visit_nodes_markers:
  "visit_nodes pattern line nodes es = Inr es1 \<Longrightarrow> res_markers es \<le> MAX_REGEX_MATCH_MARKERS \<Longrightarrow>
     res_markers es1 \<le> MAX_REGEX_MATCH_MARKERS"
  by (induction nodes arbitrary: es) (auto dest: visit_pre_markers)

lemma prepare_condition_regex_markers:
  "prepare_condition_regex rx pattern line = Inr (p, markers, force) \<Longrightarrow> markers \<le> MAX_REGEX_MATCH_MARKERS"
  by (auto simp: prepare_condition_regex_def dest!: visit_nodes_markers)

lemma compile_condition_regex_ok:
  assumes "compile_condition_regex rx pattern line cs = Inr r"
  shows "regex_ok r"
proof -
  note unfolded = assms [unfolded compile_condition_regex_def]
  from unfolded obtain p markers force where prepared: "prepare_condition_regex rx pattern line = Inr (p, markers, force)"
      and short: "length pattern \<le> MAX_REGEX_PATTERN_LEN"
    by (auto split: if_splits)
  from unfolded prepared obtain program names where build: "rf_build rx p (cs \<and> \<not> force) = Inr (program, names)"
    by (auto split: if_splits sum.splits)
  from unfolded prepared build obtain captures where captures: "marker_captures line names [0..<markers] = Inr captures"
    by (auto split: if_splits)
  let ?indexes = "filter (\<lambda>i. i \<notin> set captures) [1..<length names]"
  have "length ?indexes \<le> MAX_REGEX_CAPTURES"
      "r = \<lparr>rx_pattern = pattern, rx_compiled = program, rx_match_captures = captures, rx_capture_indexes = ?indexes\<rparr>"
    using unfolded prepared build captures by (simp_all add: Let_def split: if_split_asm)
  then show ?thesis
    using short prepare_condition_regex_markers [OF prepared] marker_captures_length [OF captures]
    by (auto simp: regex_ok_def sorted_wrt_filter)
qed

fun target_ok :: "regex_target option \<Rightarrow> bool" where
  "target_ok (Some (Crt_Variable name)) \<longleftrightarrow> valid_name name \<and> length name \<le> MAX_ASSIGNMENT_NAME_LEN"
| "target_ok (Some (Crt_Address fs)) \<longleftrightarrow> fs \<noteq> [] \<and> distinct fs"
| "target_ok (Some (Crt_Identifier fs)) \<longleftrightarrow> fs \<noteq> [] \<and> distinct fs"
| "target_ok (Some (Crt_Keyword fs)) \<longleftrightarrow> fs \<noteq> [] \<and> distinct fs"
| "target_ok _ \<longleftrightarrow> True"

lemma target_kind_ok: "target_ok target \<Longrightarrow> regex_ok r \<Longrightarrow> kind_ok (target_kind target r)"
  by (cases "(target, r)" rule: target_kind.cases) simp_all

lemma push_fields_ok: "push_fields kind label line chosen fs = Inr out \<Longrightarrow> distinct chosen \<Longrightarrow> out = chosen @ fs \<and> distinct out"
  by (induction fs arbitrary: chosen) (fastforce split: if_splits)+

lemma collect_fields_ok:
  assumes "collect_fields kind group_of field_of label line chosen items = Inr out" and "distinct chosen"
    and "\<And>name fs. group_of name = Some fs \<Longrightarrow> fs \<noteq> []"
  shows "distinct out \<and> (items \<noteq> [] \<or> chosen \<noteq> [] \<longrightarrow> out \<noteq> [])"
  using assms(1,2)
proof (induction items arbitrary: chosen)
  case (Cons item items)
  then obtain chosen1 where rest: "collect_fields kind group_of field_of label line chosen1 items = Inr out"
      and step: "(case group_of (str_trim item) of
           Some fs \<Rightarrow> push_fields kind label line chosen fs
         | None \<Rightarrow>
             (case field_of (str_trim item) of
                None \<Rightarrow> Inl (parse_error_new line (Rcm_Condition (Rcm_FieldUnsupported kind (str_trim item))))
              | Some f \<Rightarrow> push_fields kind (\<lambda>_. str_trim item) line chosen [f])) = Inr chosen1"
    by (auto simp: Let_def split: if_splits)
  have "\<exists>fs label1. push_fields kind label1 line chosen fs = Inr chosen1 \<and> fs \<noteq> []"
  proof (cases "group_of (str_trim item)")
    case (Some fs)
    then show ?thesis using step assms(3) [OF Some] by (intro exI [of _ fs] exI [of _ label]) simp
  next
    case None
    then obtain f where "push_fields kind (\<lambda>_. str_trim item) line chosen [f] = Inr chosen1"
      using step by (simp split: option.split_asm)
    then show ?thesis by blast
  qed
  then obtain fs label1 where "push_fields kind label1 line chosen fs = Inr chosen1" "fs \<noteq> []" by blast
  then have "distinct chosen1" "chosen1 \<noteq> []" using push_fields_ok Cons.prems(2) by fastforce+
  then show ?case using Cons.IH [OF rest] by simp
qed simp

lemma split_items_nonempty [simp]: "split_items t \<noteq> []"
  by (simp add: split_items_def split_on_def)

lemma address_group_nonempty [simp]: "address_group name \<noteq> Some []"
  by (auto simp: address_group_def ADDRESS_RECIPIENT_def ADDRESS_DELIVERED_def ADDRESS_SENDER_def split: if_splits)

lemma identifier_group_nonempty [simp]: "identifier_group name \<noteq> Some []"
  by (auto simp: identifier_group_def IDENTIFIER_THREAD_def split: if_splits)

lemma structured_target_ok:
  assumes "structured_target kind fields_of rest line = Inr (Some (target, pattern))"
    and "\<And>t target. fields_of t = Inr target \<Longrightarrow> target_ok (Some target)"
  shows "target_ok (Some target)"
  using assms by (auto simp: structured_target_def Let_def split: option.splits if_splits prod.splits)

lemma structured_condition_target_ok:
  assumes "structured_condition_target input line = Inr (Some (target, pattern))"
  shows "target_ok (Some target)"
proof (cases "structured_rest (ascii ''address'') input")
  case (Some rest)
  then show ?thesis using assms unfolding structured_condition_target_def
    by (auto elim!: structured_target_ok dest!: collect_fields_ok)
next
  case None
  note address = None
  show ?thesis
  proof (cases "structured_rest (ascii ''identifier'') input")
    case (Some rest)
    then show ?thesis using assms address unfolding structured_condition_target_def
      by (auto elim!: structured_target_ok dest!: collect_fields_ok)
  next
    case None
    then show ?thesis using assms address unfolding structured_condition_target_def
      by (auto elim!: structured_target_ok dest!: collect_fields_ok simp: KEYWORD_FIELDS_ALL_def split: option.splits if_splits)
  qed
qed

lemma takeWhile_valid_name:
  "takeWhile (\<lambda>b. b = 95 \<or> is_ascii_alphanumeric b) input = b # bs \<Longrightarrow> b = 95 \<or> is_ascii_alphabetic b \<Longrightarrow> valid_name (b # bs)"
  using set_takeWhileD [of _ "\<lambda>b. b = 95 \<or> is_ascii_alphanumeric b" input]
  by (auto simp: valid_name_def list_all_iff)

lemma condition_regex_target_ok:
  "condition_regex_target input line = Inr (target, pattern) \<Longrightarrow> target_ok target"
  by (auto simp: condition_regex_target_def Let_def split: option.splits if_splits list.splits dest: takeWhile_valid_name)

lemma regex_condition_kind_ok: "regex_condition_kind rx input line cs regexes b = Inr kind \<Longrightarrow> kind_ok kind"
  by (auto simp: regex_condition_kind_def split: option.splits
      intro!: target_kind_ok dest: compile_condition_regex_ok structured_condition_target_ok condition_regex_target_ok)

lemma parse_multipart_check_ok: "parse_multipart_check rx input line cs b n = Inr c \<Longrightarrow> regex_ok (mc_regex c)"
  by (auto simp: parse_multipart_check_def Let_def split: option.splits dest!: compile_condition_regex_ok)

lemma parse_single_line_multipart_ok:
  "parse_single_line_multipart rx input line cs regexes b = Inr (Some (kind, is_regex)) \<Longrightarrow> kind_ok kind"
  by (auto simp: parse_single_line_multipart_def Let_def split: option.splits if_splits dest: parse_multipart_check_ok)

lemma parse_condition_size_ok: "parse_condition_size input line = Inr n \<Longrightarrow> n \<le> usize_max"
  by (auto simp: parse_condition_size_def parse_u64_def usize_max_def Let_def split: option.splits if_splits)

lemma validate_program_condition_ok: "validate_program_condition command line = Inr () \<Longrightarrow> command_ok command"
  by (auto simp: validate_program_condition_def command_ok_def split: if_splits)

lemma plain_condition_kind_ok:
  "plain_condition_kind rx input line cs regexes b = Inr (kind, is_regex) \<Longrightarrow> kind_ok kind"
  by (auto simp: plain_condition_kind_def split: option.splits
      dest: parse_condition_size_ok validate_program_condition_ok regex_condition_kind_ok)

lemma parse_condition_ok:
  assumes "parse_condition rx input line cs regexes b = Inr (c, is_regex)"
  shows "kind_ok (cd_kind c)"
  using assms
  by (cases rule: parse_condition_cases) (auto dest: parse_single_line_multipart_ok plain_condition_kind_ok)

lemma multipart_loop_ok:
  assumes "multipart_loop rx opening negated cs b index checks regexes lines = Inr (c, n, k)"
    and "distinct (map mc_field checks)" and "list_all (\<lambda>c. regex_ok (mc_regex c)) checks"
  shows "kind_ok (cd_kind c)"
  using assms
proof (induction lines arbitrary: index checks regexes)
  case (Cons l lines)
  from Cons.prems(1) consider "multipart_loop rx opening negated cs b (Suc index) checks regexes lines = Inr (c, n, k)"
    | "checks \<noteq> []" "cd_kind c = CK_Multipart checks"
    | check m where "parse_multipart_check rx (str_trim l) (Suc index) cs b regexes = Inr check" "mc_field check \<notin> mc_field ` set checks"
        "multipart_loop rx opening negated cs b (Suc index) (checks @ [check]) m lines = Inr (c, n, k)"
    by (auto simp: Let_def split: if_splits option.splits)
  then show ?case
  proof cases
    case 1
    then show ?thesis using Cons.IH Cons.prems(2,3) by blast
  next
    case 2
    then show ?thesis using Cons.prems(2,3) by simp
  next
    case (3 check m)
    then show ?thesis using Cons.prems(2,3) parse_multipart_check_ok [OF 3(1)] by (intro Cons.IH [OF 3(3)]) simp_all
  qed
qed simp

lemma parse_multipart_block_ok: "parse_multipart_block rx lines opening negated cs regexes b = Inr (c, n, k) \<Longrightarrow> kind_ok (cd_kind c)"
  by (auto simp: parse_multipart_block_def dest!: multipart_loop_ok)

lemma recipe_conditions_ok:
  "recipe_conditions rx lines cs b conditions regexes index = Inr (conditions', regexes', index') \<Longrightarrow>
     list_all (\<lambda>c. kind_ok (cd_kind c)) conditions \<Longrightarrow> list_all (\<lambda>c. kind_ok (cd_kind c)) conditions'"
proof (induction "length lines - index" arbitrary: conditions regexes index rule: less_induct)
  case less
  from less.prems(1) show ?case
  proof (cases rule: recipe_conditions_cases)
    case Skip
    then show ?thesis using less.hyps [of "index + 1"] less.prems(2) by simp
  next
    case (Multipart negated c n k)
    then show ?thesis
      using less.hyps [of k] parse_multipart_block_next [OF Multipart(3)] parse_multipart_block_ok [OF Multipart(3)] less.prems(2)
      by (simp add: diff_less_mono2)
  next
    case (Single source k c is_regex)
    then show ?thesis
      using less.hyps [of k] parse_condition_continuation_next [OF Single(3)] parse_condition_ok [OF Single(4)] less.prems(2)
      by (simp add: diff_less_mono2)
  next
    case Done
    then show ?thesis using less.prems(2) by simp
  qed
qed

section \<open>Recipes\<close>

fun shape_ok :: "recipe_options \<Rightarrow> bytes option \<Rightarrow> condition list \<Rightarrow> action_shape \<Rightarrow> bool" where
  "shape_ok options lock conditions (Shape_Capture name target) \<longleftrightarrow> rc_name_ok name target"
| "shape_ok options lock conditions Shape_Pipe \<longleftrightarrow> True"
| "shape_ok options lock conditions Shape_Headers \<longleftrightarrow> action_ok options lock conditions (Act_Headers [])"
| "shape_ok options lock conditions Shape_Block \<longleftrightarrow>
     ro_action_input options = AI_Message \<and> ro_action_mode options = Mode_Deliver"
| "shape_ok options lock conditions Shape_Destination \<longleftrightarrow>
     ro_action_input options = AI_Message \<and> ro_action_mode options = Mode_Deliver \<and>
     ro_write_errors options = Write_Fail \<and> (ro_child_status options = Child_Ignore \<or> has_program_condition conditions)"

lemma parse_recipe_header_ok:
  assumes "parse_recipe_header text line = Inr (options, lock, fs)"
  shows "options = flag_options fs \<and> (\<forall>l. lock = Some l \<longrightarrow> length l \<le> MAX_PATH_EXPRESSION_LEN)"
  using assms
  by (auto simp: parse_recipe_header_def check_path_length_def Let_def split: option.splits sum.splits)

lemma flag_options_continuation: "ro_continuation (flag_options fs) \<noteq> Cont_BranchBlock"
  by (simp add: flag_options_def Let_def)

lemma validate_header_action_recipe_ok:
  assumes "validate_header_action_recipe fs lock line = Inr ()"
  shows "action_ok ((flag_options fs)\<lparr>ro_continuation := Cont_Continue\<rparr>) lock conditions (Act_Headers [])"
proof -
  have "lock = None" "\<forall>c \<in> set (ascii ''hbfwWir''). c \<notin> set fs"
    using assms by (auto simp: validate_header_action_recipe_def find_None_iff split: if_splits option.splits)
  then show ?thesis by (simp add: flag_options_def Let_def)
qed

lemma check_recipe_options_ok:
  assumes "check_recipe_options (flag_options fs) fs lock conditions action shape start index = Inr options"
    and "\<And>name target. shape = Shape_Capture name target \<Longrightarrow> rc_name_ok name target"
  shows "shape_ok options lock conditions shape \<and> ro_continuation options \<noteq> Cont_BranchBlock"
proof (cases shape)
  case Shape_Headers
  then have "validate_header_action_recipe fs lock (start + 1) = Inr ()" "options = (flag_options fs)\<lparr>ro_continuation := Cont_Continue\<rparr>"
    using assms(1) by (auto simp: check_recipe_options_def)
  then show ?thesis using validate_header_action_recipe_ok [of fs lock "start + 1" conditions] Shape_Headers by simp
next
  case Shape_Destination
  then have "options = flag_options fs" and ok: "ro_write_errors options \<noteq> Write_Ignore"
      "ro_action_input options = AI_Message" "ro_action_mode options = Mode_Deliver"
      "has_program_condition conditions \<or> ro_child_status options = Child_Ignore"
    using assms(1) by (auto simp: check_recipe_options_def split: if_split_asm)
  then show ?thesis
    using Shape_Destination flag_options_continuation [of fs] by (cases "ro_write_errors options") auto
next
  case Shape_Block
  then show ?thesis using assms(1) flag_options_continuation [of fs] by (auto simp: check_recipe_options_def split: if_split_asm)
qed (use assms flag_options_continuation [of fs] in \<open>auto simp: check_recipe_options_def\<close>)

lemma shape_of_action_ok: "shape_of_action action line = Inr (Shape_Capture name target) \<Longrightarrow> rc_name_ok name target"
  by (auto simp: shape_of_action_def split: option.splits if_splits dest: parse_capture_action_prefix_ok)

lemma parse_recipe_head_ok:
  assumes "parse_recipe_head rx lines start b = Inr h"
  shows "shape_ok (rh_options h) (rh_lock h) (rh_conditions h) (rh_shape h) \<and>
    ro_continuation (rh_options h) \<noteq> Cont_BranchBlock \<and>
    (\<forall>l. rh_lock h = Some l \<longrightarrow> length l \<le> MAX_PATH_EXPRESSION_LEN) \<and>
    list_all (\<lambda>c. kind_ok (cd_kind c)) (rh_conditions h)"
  using assms
proof (cases rule: parse_recipe_head_cases)
  case (1 rest options fs regexes)
  have options: "options = flag_options fs" using parse_recipe_header_ok [OF 1(1)] by simp
  have "rc_name_ok name target" if "rh_shape h = Shape_Capture name target" for name target
    using shape_of_action_ok 1(7) that by simp
  then have "shape_ok (rh_options h) (rh_lock h) (rh_conditions h) (rh_shape h) \<and> ro_continuation (rh_options h) \<noteq> Cont_BranchBlock"
    using check_recipe_options_ok [OF 1(8) [unfolded options]] by blast
  then show ?thesis using parse_recipe_header_ok [OF 1(1)] recipe_conditions_ok [OF 1(2)] by simp
qed

lemma destination_action_ok:
  assumes "destination_action action line = Inr act"
  shows "\<exists>d. act = Act_Deliver d \<and> destination_ok d"
proof -
  obtain make path e where "act = Act_Deliver (make e)" "make \<in> {Mbox, Maildir, File}"
      "path \<noteq> []" "length path \<le> MAX_PATH_EXPRESSION_LEN" "pe_source e = path" "pe_runtime_dependent e = (pe_expansion e \<noteq> None)"
    using assms
    by (auto simp: destination_action_def required_path_def check_path_length_def destination_path_expression_def Let_def
        split: if_splits option.splits sum.splits prod.splits)
  then show ?thesis by (auto simp: destination_ok_def)
qed

lemma parse_pipe_command_ok: "parse_pipe_command lines start linebuf = Inr (c, n) \<Longrightarrow> c = [] \<or> command_ok c"
  by (auto simp: parse_pipe_command_def Let_def split: option.splits if_splits dest: parse_command_continuation_ok)

lemma parse_action_ok:
  assumes "parse_action lines options action shape index b = Inr (act, n, b')" and "shape \<noteq> Shape_Block"
    and "shape_ok options lock conditions shape"
  shows "action_ok options lock conditions act"
proof (cases shape)
  case (Shape_Capture name target)
  then show ?thesis using assms
    by (auto simp: parse_action_def Let_def split: option.splits dest!: parse_command_continuation_ok)
next
  case Shape_Pipe
  then obtain command where "parse_pipe_command lines index (rl_linebuf (pb_limits b)) = Inr (command, n)"
      "act = Act_Pipe command" "\<not> (command = [] \<and> ro_action_mode options = Mode_Filter)"
    using assms(1) by (auto simp: parse_action_def Let_def split: if_splits)
  then show ?thesis by (cases "ro_action_mode options") (auto dest: parse_pipe_command_ok)
next
  case Shape_Headers
  then show ?thesis using assms by (auto simp: parse_action_def Let_def dest!: parse_header_action_ok)
next
  case Shape_Destination
  then show ?thesis using assms by (auto simp: parse_action_def Let_def dest!: destination_action_ok)
qed (use assms(2) in simp)

lemma head_recipe_ok:
  assumes "parse_recipe_head rx lines start b = Inr h" and "action_ok (rh_options h) (rh_lock h) (rh_conditions h) act"
  shows "recipe_ok (head_recipe start h act)"
  using parse_recipe_head_ok [OF assms(1)] parse_recipe_head_index [OF assms(1)] assms(2)
  by (cases "rh_lock h") (simp_all add: recipe_ok_def head_recipe_def lock_expression_def)

text \<open>What \<open>parse_recipe\<close> asks of the parser of blocks about their statements.\<close>

locale shaped_blocks =
  fixes blocks :: block_parser
  assumes block_ok: "0 < depth \<Longrightarrow> blocks depth index b = Some (Inr (ss, n, b')) \<Longrightarrow> statements_ok True ss"
begin

lemma recipe_shape:
  assumes "parse_recipe blocks rx lines start depth b = Some (Inr (recipe, n, b'))"
  shows "statements_ok nested [St_Recipe recipe]"
  using assms
proof (cases rule: parse_recipe_cases)
  case (Block h ss)
  then have "action_ok (rh_options h) (rh_lock h) (rh_conditions h) (Act_Block ss)"
    using parse_recipe_head_ok [OF Block(1)] by simp
  then show ?thesis
    using head_recipe_ok [OF Block(1)] block_ok [OF _ Block(5)] Block(6)
    by (simp add: statements_ok_Cons head_recipe_def)
next
  case (Action h act)
  then have "recipe_ok recipe"
    using head_recipe_ok [OF Action(1)] parse_action_ok [OF Action(3,2)] parse_recipe_head_ok [OF Action(1)] by simp
  moreover have "action_statements act = []"
    using action_statements_other [OF conjunct2 [OF parse_action_accounted [OF Action(3,2)]]] .
  ultimately show ?thesis using Action(4) by (simp add: statements_ok_Cons head_recipe_def)
qed

end

section \<open>Files\<close>

lemma value_limit_max: "value_limit target \<le> MAX_ASSIGNMENT_VALUE_LEN"
  by (cases target) (simp_all add: MAX_ASSIGNMENT_VALUE_LEN_def MAX_PATH_EXPRESSION_LEN_def MAX_SHELL_SETTING_LEN_def)

lemma line_statement_ok:
  assumes "line_statement l depth line b = Inr (s, b')"
  shows "statements_ok (0 < depth) [s]"
  using assms
proof (cases rule: line_statement_cases)
  case (Assignment a b1)
  then show ?thesis using parse_assignment_ok [OF Assignment(1)] by auto
next
  case (Command a e)
  then show ?thesis using parse_assignment_ok [OF Command(1)] by simp
next
  case (File a)
  then show ?thesis
    using parse_assignment_ok [OF File(1)] value_limit_max [of "as_target a"] by (auto simp: assignment_file_def)
next
  case (Unset u b1)
  then show ?thesis using parse_unset_ok [OF Unset(1)] by auto
qed

lemma parse_statements_ok:
  "parse_statements f rx lines acc depth index b = Some (Inr (ss, n, b')) \<Longrightarrow> statements_ok (0 < depth) acc \<Longrightarrow>
     statements_ok (0 < depth) ss"
proof (induction f arbitrary: acc depth index b ss n b')
  case (Suc f)
  have blocks: "shaped_blocks (parse_statements f rx lines [])"
    using Suc.IH [of "[]"] by unfold_locales force
  from Suc.prems(1) show ?case
  proof (cases rule: parse_statements_cases)
    case Skip
    then show ?thesis using Suc.IH Suc.prems(2) by blast
  next
    case (Recipe b1 recipe k b2)
    then show ?thesis
      using Suc.IH [OF Recipe(5)] shaped_blocks.recipe_shape [OF blocks Recipe(4)] Suc.prems(2) by (simp only: statements_ok_append)
  next
    case (Line s b1)
    then show ?thesis
      using Suc.IH [OF Line(4)] line_statement_ok [OF Line(3)] Suc.prems(2) by (simp only: statements_ok_append)
  qed (use Suc.prems(2) in auto)
qed simp

interpretation rc_shapes: shaped_blocks "parse_statements f rx lines []" for f rx lines
  using parse_statements_ok [where acc = "[]"] by unfold_locales force

text \<open>
  C7. Every accepted file is well formed, at every depth: variables that can be assigned in rc files, with names and values
  within their limits and none that steers the parser inside a block or from a command; commands without NUL and within
  their limit; flags that fit the action, so that no delivery to a file ignores write errors and no header action waits
  for a child, locks or stops; header operations on valid names with values on one line that write only user
  variables; distinct fields in structured and multipart conditions; and regular expressions whose marked and
  numbered groups are disjoint.
\<close>

theorem parsed_statements_well_formed:
  assumes "parse_with_state rx input b = Some (Inr (config, b'))"
  shows "statements_ok False (cf_statements config)"
  using assms
  by (auto simp: parse_with_state_def simp del: parse_statements.simps split: if_splits dest!: parse_statements_ok)

theorem parsed_statements_well_formed_witness: "statements_ok False [St_Recipe sample_recipe]"
  using parsed_statements_well_formed [OF sample_parsed [of "\<lparr>rf_parse = \<lambda>_. Inl [], rf_build = \<lambda>_ _. Inl []\<rparr>" 0]] by simp

end
