(* ===== verification/Rc_Flags.thy ===== *)
theory Rc_Flags
  imports Rc_Sample
begin

text \<open>
  The first line of a recipe: every combination of options that can be written has a line that is parsed as it, with or without
  a lock file.
\<close>

text \<open>The flags that stand for options, in the order in which the parser names them.\<close>

definition flag_holds :: "recipe_options \<Rightarrow> byte \<Rightarrow> bool" where
  "flag_holds opts c \<longleftrightarrow>
     c = 72 \<and> ro_condition_input opts = CI_Message \<or> c = 66 \<and> ro_condition_input opts \<noteq> CI_Headers \<or>
     c = 68 \<and> ro_case_mode opts = Sensitive \<or> c = 99 \<and> ro_continuation opts = Cont_Continue \<or>
     c = 65 \<and> ro_control opts = AfterChainMatch \<or> c = 97 \<and> ro_control opts = AfterPreviousSuccess \<or>
     c = 69 \<and> ro_control opts = Else \<or> c = 101 \<and> ro_control opts = AfterPreviousError \<or>
     c = 104 \<and> ro_action_input opts = AI_Headers \<or> c = 98 \<and> ro_action_input opts = AI_Body \<or>
     c = 102 \<and> ro_action_mode opts = Mode_Filter \<or>
     c = 119 \<and> ro_child_status opts = Child_Wait \<or> c = 87 \<and> ro_child_status opts = Child_WaitQuietly \<or>
     c = 105 \<and> ro_write_errors opts = Write_Ignore \<or> c = 114 \<and> ro_output_ending opts = Preserve"

definition option_flags :: "recipe_options \<Rightarrow> bytes" where
  "option_flags opts = filter (flag_holds opts) RECIPE_FLAGS"

lemma flag_holds_flag: "flag_holds opts c \<Longrightarrow> c \<in> set RECIPE_FLAGS"
  unfolding flag_holds_def by (elim disjE conjE) (simp_all add: RECIPE_FLAGS_def)

lemma option_flags_set: "set (option_flags opts) = {c. flag_holds opts c}"
  using flag_holds_flag by (auto simp: option_flags_def)

lemma option_flags_graphic: "list_all is_ascii_graphic (option_flags opts)" "list_all is_ascii_alphabetic (option_flags opts)"
proof -
  have "list_all is_ascii_graphic RECIPE_FLAGS" "list_all is_ascii_alphabetic RECIPE_FLAGS"
    by (simp_all add: RECIPE_FLAGS_def byte_defs)
  then show "list_all is_ascii_graphic (option_flags opts)" "list_all is_ascii_alphabetic (option_flags opts)"
    by (simp_all add: list_all_iff option_flags_def)
qed

lemma flag_options_inverse:
  assumes "ro_continuation opts \<noteq> Cont_BranchBlock"
  shows "flag_options (option_flags opts) = opts"
proof -
  have "ro_condition_input (flag_options (option_flags opts)) = ro_condition_input opts"
    by (cases "ro_condition_input opts") (simp_all add: flag_options_def option_flags_set flag_holds_def)
  moreover have "ro_case_mode (flag_options (option_flags opts)) = ro_case_mode opts"
    by (cases "ro_case_mode opts") (simp_all add: flag_options_def option_flags_set flag_holds_def)
  moreover have "ro_control (flag_options (option_flags opts)) = ro_control opts"
    by (cases "ro_control opts") (simp_all add: flag_options_def option_flags_set flag_holds_def)
  moreover have "ro_action_input (flag_options (option_flags opts)) = ro_action_input opts"
    by (cases "ro_action_input opts") (simp_all add: flag_options_def option_flags_set flag_holds_def)
  moreover have "ro_action_mode (flag_options (option_flags opts)) = ro_action_mode opts"
    by (cases "ro_action_mode opts") (simp_all add: flag_options_def option_flags_set flag_holds_def)
  moreover have "ro_continuation (flag_options (option_flags opts)) = ro_continuation opts"
    using assms by (cases "ro_continuation opts") (simp_all add: flag_options_def option_flags_set flag_holds_def)
  moreover have "ro_child_status (flag_options (option_flags opts)) = ro_child_status opts"
    by (cases "ro_child_status opts") (simp_all add: flag_options_def option_flags_set flag_holds_def)
  moreover have "ro_write_errors (flag_options (option_flags opts)) = ro_write_errors opts"
    by (cases "ro_write_errors opts") (simp_all add: flag_options_def option_flags_set flag_holds_def)
  moreover have "ro_output_ending (flag_options (option_flags opts)) = ro_output_ending opts"
    by (cases "ro_output_ending opts") (simp_all add: flag_options_def option_flags_set flag_holds_def)
  ultimately show ?thesis by simp
qed

lemma check_flags_option_flags: "check_flags (option_flags opts) line = Inr ()"
proof -
  have "List.find (\<lambda>c. c \<notin> set RECIPE_FLAGS) (option_flags opts) = None"
    by (simp add: find_None_iff option_flags_def)
  then show ?thesis
    using option_flags_graphic(2) [of opts] by (cases "ro_control opts") (simp_all add: check_flags_def option_flags_set flag_holds_def)
qed

lemma graphic_solid: "is_ascii_graphic b \<Longrightarrow> \<not> char_is_whitespace [b] \<and> b < 128"
  using le_less_trans [of b 126 128] by (auto simp: byte_defs char_is_whitespace_def)

lemma str_trim_graphic:
  assumes "list_all is_ascii_graphic s"
  shows "str_trim s = s"
proof -
  have ascii: "list_all (\<lambda>b. b < 128) s" and solid: "\<And>b. b \<in> set s \<Longrightarrow> \<not> char_is_whitespace [b]"
    using assms graphic_solid by (simp_all add: list_all_iff)
  have "dropWhile char_is_whitespace (map (\<lambda>b. [b]) s) = map (\<lambda>b. [b]) s"
    by (cases "s = []") (simp_all add: dropWhile_eq_self_iff hd_map solid)
  moreover have "dropWhile char_is_whitespace (map (\<lambda>b. [b]) (rev s)) = map (\<lambda>b. [b]) (rev s)"
    by (cases "s = []") (simp_all add: dropWhile_eq_self_iff hd_map hd_rev solid)
  moreover have "concat (map (\<lambda>b. [b]) s) = s" by (induction s) simp_all
  ultimately show ?thesis
    by (simp add: str_trim_def str_trim_start_def str_trim_end_def chars_ascii [OF ascii] rev_map [symmetric])
qed

lemma split_once_none: "c \<notin> set s \<Longrightarrow> split_once c s = None"
  by (auto simp: split_once_def position_None_iff)

lemma split_once_first: "c \<notin> set s \<Longrightarrow> split_once c (s @ c # t) = Some (s, t)"
proof -
  assume "c \<notin> set s"
  then have "position (\<lambda>b. b = c) (s @ c # t) = Some (length s)" by (induction s) auto
  then show ?thesis by (simp add: split_once_def)
qed

text \<open>
  C14. Recipe options and their flags: for every combination of options except the internal continuation of branches, writing
  its flags and parsing the line gives the options back, without a lock file and with any lock file of visible
  characters other than the hash sign, whose length is within the limit.
\<close>

theorem recipe_header_roundtrip:
  assumes "ro_continuation opts \<noteq> Cont_BranchBlock"
    and "list_all is_ascii_graphic lock" and "HASH \<notin> set lock" and "length lock \<le> MAX_PATH_EXPRESSION_LEN"
  shows "parse_recipe_header (option_flags opts) line = Inr (opts, None, option_flags opts) \<and>
    parse_recipe_header (option_flags opts @ [COLON] @ lock) line = Inr (opts, Some lock, option_flags opts)"
proof -
  have clean: "HASH \<notin> set (option_flags opts)" "COLON \<notin> set (option_flags opts)"
    by (simp_all add: option_flags_set flag_holds_def)
  have whole: "str_trim (option_flags opts @ COLON # lock) = option_flags opts @ COLON # lock"
    using option_flags_graphic(1) assms(2) by (intro str_trim_graphic) (simp add: byte_defs)
  note parts = str_trim_graphic [OF option_flags_graphic(1)] str_trim_graphic [OF assms(2)] flag_options_inverse [OF assms(1)]
    check_flags_option_flags
  show ?thesis
    using clean assms(3,4)
    by (simp add: parse_recipe_header_def strip_comment_def split_once_none split_once_first parts whole check_path_length_def
        ensure_def)
qed

theorem recipe_header_roundtrip_witness:
  "parse_recipe_header (ascii ''Bc:lock'') 1 =
     Inr ((flag_options [])\<lparr>ro_condition_input := CI_Body, ro_continuation := Cont_Continue\<rparr>, Some (ascii ''lock''), ascii ''Bc'')"
proof -
  let ?opts = "(flag_options [])\<lparr>ro_condition_input := CI_Body, ro_continuation := Cont_Continue\<rparr>"
  have "option_flags ?opts = ascii ''Bc''"
    by (simp add: option_flags_def RECIPE_FLAGS_def flag_holds_def flag_options_def)
  then show ?thesis
    using recipe_header_roundtrip [of ?opts "ascii ''lock''" 1] by (simp add: MAX_PATH_EXPRESSION_LEN_def byte_defs)
qed

end
