(* ===== verification/Spec2Isabelle.thy ===== *)
theory Spec2Isabelle
  imports Maildir_Fanout Mbox_Append Formail Shell_Print Path_Safety Message_Versions Plan_Total Rc_Shape Rc_Flags
begin

text \<open>
  \<^bold>\<open>Verification library for procmail-rs\<close>, a mail processor in the tradition of procmail:
  it reads one message, evaluates a configuration of recipes over it, edits its header, and
  delivers it to mail folders. A companion program, \<^verbatim>\<open>formail-rs\<close>, reformats one message.
  All file names below are under \<^verbatim>\<open>src/src/\<close>.

  \<^bold>\<open>How the parts fit together.\<close> The reader (\<^verbatim>\<open>message.rs\<close>) cuts the input into header and
  body under the limits that the configuration sets (\<^verbatim>\<open>config/mod.rs\<close>, \<^verbatim>\<open>limits.rs\<close>). The header is indexed as a
  sequence of fields in one byte arena (\<^verbatim>\<open>header_edit/storage.rs\<close>), edited by the header operations of
  a recipe (\<^verbatim>\<open>header_edit.rs\<close>, \<^verbatim>\<open>structured_header.rs\<close>, \<^verbatim>\<open>header_value.rs\<close>) and published again as
  bytes that satisfy the limits. Values that a configuration computes are parsed into expressions
  (\<^verbatim>\<open>config/expand.rs\<close>) and evaluated (\<^verbatim>\<open>config/shell_eval.rs\<close>, \<^verbatim>\<open>config/shell_pattern.rs\<close>) over the variables
  of the run (\<^verbatim>\<open>runtime.rs\<close>). A plan compiled from the configuration (\<^verbatim>\<open>eval/tree.rs\<close>) matches its conditions
  (\<^verbatim>\<open>eval/condition.rs\<close>) against the current version of the message (\<^verbatim>\<open>eval/message.rs\<close>), runs the actions of
  the recipes in order (\<^verbatim>\<open>eval/ordered.rs\<close>), or plans its deliveries from the header before the body is read
  (\<^verbatim>\<open>eval/header.rs\<close>), and enters other rc files (\<^verbatim>\<open>eval/runtime_rc.rs\<close>). The message, header first, is then
  streamed or buffered into pending deliveries (\<^verbatim>\<open>delivery.rs\<close>), which a commit makes visible:
  files of a Maildir (\<^verbatim>\<open>delivery/maildir.rs\<close>) or records of a mailbox (\<^verbatim>\<open>delivery/mbox.rs\<close>).

  \<^bold>\<open>Conventions of the model.\<close> A byte is \<^verbatim>\<open>8 word\<close> and a byte string a list of bytes
  (theory Prelude, which also holds the named theorem collections and the lemmas on lists,
  prefixes, options and results that all theories share). \<^verbatim>\<open>Result<T, E>\<close> is the sum type with
  the error on the left, \<^verbatim>\<open>Option\<close> is \<^verbatim>\<open>option\<close>, a struct is a record, an enum a datatype with the
  constructors of the source. Sizes are natural numbers where the source checks them with
  \<^verbatim>\<open>checked_add\<close> or against a limit below \<^verbatim>\<open>usize::MAX\<close>, and the ceiling is written out where
  the check can fail; the calendar arithmetic of the postmark is on integers with the range of 64 bits checked
  where the source checks it and with truncating division.
  Loops are total recursive functions with the measures the loops decrease. Fuel is used for two
  things only: the entering of rc files during ordered execution and planning, where the program's own limit on
  transitions bounds the recursion, and the blocks of an rc file, where its number of lines does; both are proved to. The one loop whose progress depends on its data, the
  encoding of header values, has the value None where it would not advance, and is proved always to advance. Mutable state is passed explicitly and returned on every path, errors included, because
  several properties are about what is left behind by a failure.
\<close>

text \<open>
  \<^bold>\<open>Configuration.\<close> Rc_Variables: names and policies of variables, the value parsers and
  validators, variables of the command line and the environment, positional arguments and
  \<^verbatim>\<open>SHIFT\<close> (\<^verbatim>\<open>config/variables.rs\<close>, \<^verbatim>\<open>config/arguments.rs\<close>, \<^verbatim>\<open>hostname.rs\<close>). Rc_Config: statements, recipes, conditions,
  actions, header operations, destinations, shell expression trees, message status, the limits
  of the configuration text. Message_Limits: size syntax, defaults, hard ceilings and their
  collection from a configuration (\<^verbatim>\<open>limits.rs\<close>). The lemmas show that accepted variables are
  valid and bounded, that the digit loops compute the decimal value, clamped or refused as
  documented, that limits never exceed their ceilings, and that status lists parse as sets.
  Bounded_Bytes is the accumulator with a fixed ceiling (\<^verbatim>\<open>bounded_bytes.rs\<close>) that evaluation
  and encoding write to.

  \<^bold>\<open>The rc parser.\<close> Rc_Syntax: the budget of the parser, words, assignments, the first line of a recipe,
  continued lines and header operations. Rc_Conditions: structured and multipart conditions and the translation of
  procmail's regular expressions. Rc_Parser: recipes, blocks, statements and files (\<^verbatim>\<open>config/parser.rs\<close>,
  \<^verbatim>\<open>config/syntax_cursor.rs\<close>). An error drops the budget, as both callers of the parser do. Rc_Progress shows that parsing
  ends, Rc_Accounting that the counts are those of the tree and stay within the hard limits, Rc_Shape that every accepted file is
  well formed, Rc_Flags that flags are parsed back as the options they are written for. Rc_Sample parses a small
  file step by step, and shows that conditions expanded at run time escape the limit on regular expressions.

  \<^bold>\<open>The header.\<close> Header_Fields: the iterator that cuts a header into fields and separator,
  name patterns, renaming, the two unfolding loops, shown to lose nothing and to agree.
  Arena_Ranges, Header_Store, Header_Arena and Header_Sequence: the arena with its field list
  and free list. Its invariant is that field ranges and holes are disjoint, inside the arena,
  sorted and coalesced, and the abstraction is the list of the bytes of the fields; each
  operation (insertion with hole search and compaction, replacement, removal, bulk removal,
  uniqueness, joining) keeps the invariant and refines the operation on the list, or fails
  exactly when the ceiling is exceeded. Edited_Header and Edited_Header_Limits: the header with
  its copy-on-write storage, caches and serialisation, and the validation loop, shown to accept
  exactly the headers within the limits whatever the partition in parts.

  \<^bold>\<open>Header values.\<close> Utf8_Text models the standard library's UTF-8 decoding as far as it is
  used. Header_Value and Encoded_Words: RFC 2047 decoding and encoding, base64 and Q, generated
  fields (\<^verbatim>\<open>header_value.rs\<close>). Structured_Header: comments, mailboxes, identifiers and
  keywords with their work limits. Header_Edit and Header_Actions: every header operation and the
  action that runs a list of them. Header_Total: a header action always returns. The lemmas show round trips, line lengths, that a generated
  header is one field whatever the text, that setting a field refines the operation on the list
  of fields, that a field that was set extracts, decoded, to the text it was set to, and that what an action publishes is within every limit. Mime: content types and
  dispositions and the walk over nested multipart bodies (\<^verbatim>\<open>mime.rs\<close>), shown to be a search
  through the list of all parts with a limit on their number.
\<close>

text \<open>
  \<^bold>\<open>Reading.\<close> Io_Errors: the error kinds of \<^verbatim>\<open>std::io\<close> and writers as functions from a state
  and bytes to a state and a result. Message_Reader: the reader as a finite sequence of chunks and
  faults, header lines, limits, the two-part message bytes, buffering and streaming
  (\<^verbatim>\<open>message.rs\<close>). Message_Chunks: the result of reading does not depend on the chunks, streaming
  agrees with buffering, and a filter replaces exactly its area.

  \<^bold>\<open>Delivery.\<close> Delivery: failure classes, pending sinks, the fan-out that writes to all of them,
  commit and abort (\<^verbatim>\<open>delivery.rs\<close>). Maildir: durability, directories, the unnamed file, unique
  names, publication and synchronisation (\<^verbatim>\<open>delivery/maildir.rs\<close>, \<^verbatim>\<open>delivery/maildir/linux.rs\<close>,
  \<^verbatim>\<open>delivery/discard.rs\<close>). Civil_Date and Mbox_Record: calendar, postmark and the quoting of
  mboxrd records; Mbox_Append: the append with rollback (\<^verbatim>\<open>delivery/mbox.rs\<close>). The lemmas show
  that nothing is visible before the commit, that the commit makes exactly the entries it
  reports, with the whole message and without replacing anything, also when it fails in the
  middle; that an append is whole, undone, or reported as not undone; that a mailbox of records
  reads back as its messages; and that the calendar routine counts days.

  \<^bold>\<open>Shell values.\<close> Shell_Pattern: the tokeniser and the automaton that removes a pattern
  from a value, shown equal to the declarative shortest and longest match. Shell_Eval: the
  evaluator over an arbitrary evaluation context, with its limits. Shell_Parse: the parser of
  expressions; Shell_Print: a reference notation for expressions, which is parsed back exactly, and
  the bound on nesting. Runtime_Vars: the variables of a run, a chain of shared layers shown to be
  one map, with positional parameters and typed settings (\<^verbatim>\<open>runtime.rs\<close>, \<^verbatim>\<open>runtime/settings.rs\<close>).
  Shell_Resolve: the evaluation contexts, path rules, destinations, static binding and the analysis
  of expressions (\<^verbatim>\<open>config/expand.rs\<close>). Path_Safety: a destination that resolves cannot leave its
  directory through a substituted value, and one that is bound cannot be redirected by later
  assignments.

  \<^bold>\<open>Evaluation.\<close> Eval_Message: the versions of the message a run sees. Eval_Plan: the
  compiled tree, what it requires of the message, its explanation and the chains of recipes.
  Eval_Condition: matching, on the header alone and on the complete message, with captures.
  Runtime_Rc: files entered during a run, with their cache, depth and transitions, and the
  assignments. Eval_Ordered: ordered execution of conditions, actions, blocks, copies, statements
  and included files, and the plan around it. Condition_Facts, Ordered_Facts and Message_Versions
  hold the theorems: a decision on the header stands for the whole message, the evaluation of a regular expression leaves
  exactly the variables of its own match, execution ends, with a value or an error of the program, within its limits for every host and every loaded file,
  a copy block does not change its parent, and a header action keeps the body.

  \<^bold>\<open>Planning.\<close> Header_Plan: the phase that plans deliveries from the head alone, with the
  frames it leaves when a recipe needs the body, complete planning, and resuming at the frames or from
  the root (\<^verbatim>\<open>eval/header.rs\<close>, \<^verbatim>\<open>eval/result.rs\<close>). Header_Phase: the two phases together give what complete planning
  gives, for plans without ordered execution, without files entered at run time and with conditions
  whose order lets the header phase look ahead; a concrete recipe shows why that order matters. Plan_Total:
  both phases end, and resuming keeps the deliveries planned early, for which files are already open.

  \<^bold>\<open>formail.\<close> Formail: options, the order of the edits, extraction, postmark and the body filter
  (\<^verbatim>\<open>bin/formail-rs.rs\<close>), which quotes exactly the separator lines, like the mailbox delivery up
  to its bound of 1024 quote marks.
\<close>

text \<open>
  \<^bold>\<open>Interfaces.\<close> What one component assumes of another is a locale, and every locale is
  interpreted on definitions of the model. \<^verbatim>\<open>bounded_sink\<close> (Bounded_Bytes) is a buffer that
  refuses what does not fit; \<^verbatim>\<open>field_sequence\<close> (Header_Sequence) is a list of fields with
  fallible insertion, on which the editing loops are verified once; \<^verbatim>\<open>limit_table\<close>
  (Message_Limits) is a record of limits with ceilings, with two instances. \<^verbatim>\<open>piecewise\<close>
  (Piecewise) is a machine whose result does not depend on how its input is cut, like the body
  reader. \<^verbatim>\<open>total_writer\<close> (Io_Errors) is a writer that never fails, a sublocale of the next.
  \<^verbatim>\<open>tracking_writer\<close> and \<^verbatim>\<open>pending_sinks\<close> (Fanout_Contract) say what a sink promises the fan-out:
  a write appends, nothing is visible before the commit, a commit makes one entry or reports
  failure. \<^verbatim>\<open>maildir_os_laws\<close> (Maildir) states the documented behaviour of the system calls
  (\<^verbatim>\<open>O_TMPFILE\<close> files have no name, \<^verbatim>\<open>linkat\<close> never replaces an entry, a failed call changes no entry);
  it is a sublocale of \<^verbatim>\<open>pending_sinks\<close>, so a Maildir is shown to keep the contract, and it is
  interpreted on a file system in Maildir_Fanout that satisfies the laws and fails where it is
  told to. \<^verbatim>\<open>locked_file\<close> (Mbox_Append) does the same for an open, locked mailbox file.
  \<^verbatim>\<open>variable_store\<close> (Runtime_Vars) is a store of variables with branches, interpreted on the layers;
  \<^verbatim>\<open>plan_feature\<close> (Eval_Plan) is a need that a plan collects from its parts, interpreted five times,
  once for each kind of need; \<^verbatim>\<open>step_order\<close> (Ordered_Facts) is an order on states that every step of an execution
  respects, interpreted on the progress of an execution, on the files and deliveries a planner has counted,
  and on planners that leave the state of files alone.
  \<^verbatim>\<open>ending_blocks\<close> (Rc_Progress), \<^verbatim>\<open>counted_blocks\<close> (Rc_Accounting) and \<^verbatim>\<open>shaped_blocks\<close> (Rc_Shape) say what the parser of a recipe
  asks of the parser of its block; each is interpreted on the parser of statements.

  \<^bold>\<open>Parameters.\<close> The regex engine is a pair of functions, with what its documentation says of
  ranges as a named hypothesis. The syntax trees and the compiled programs of the regex crates
  are a pair of functions for the rc parser. For the evaluator the parser of an expanded condition, the loader of rc files, the host
  of an execution (delivery, commands, locks, background branches) and the command runner of the header phase are arguments of the definitions
  that call them; the theorems hold for all of them.

  \<^bold>\<open>Bounds.\<close> Limits are those of the source: the sizes of Message_Limits, 4096 keywords,
  32 nested expansions and the evaluator's value limit, the step ceiling of a
  pattern, 256 sinks of a fan-out, the depth and the number of MIME parts, the length of a
  postmark, 256 transitions between rc files and 128 background copies for a message. The fuel of
  ordered execution and of planning is one more than the transitions, and that of the rc parser one more than the lines of the file;
  both are proved never to be used up. Where a theorem needs that a length fits in a machine integer, this is a named
  hypothesis of the statement.

  \<^bold>\<open>Abstractions.\<close> An unwaited copy block runs in a thread of the program; the model runs the
  branch first and then its parent, which is one of the schedules. Trace events and message texts are left
  out; a message text that the program compares is a constructor.

  \<^bold>\<open>Not modelled yet.\<close> The preparation of a parsed configuration
  (\<^verbatim>\<open>ConfigPreparer\<close> of \<^verbatim>\<open>config/expand.rs\<close>) and the delivery run time (\<^verbatim>\<open>delivery_runtime.rs\<close>), with local locks and staging files.

  \<^bold>\<open>Not modelled.\<close> Child processes, signals,
  timeouts, memory mapping and the user database are services of the operating system; tracing,
  help and version texts, and the \<^verbatim>\<open>Display\<close> code of errors only produce diagnostics; the command-line
  front end of \<^verbatim>\<open>procmail-rs\<close> is glue over them; fuzzing and benchmark entry points are test code.
\<close>

end
